(* ===== verification/Hashing.thy ===== *)
theory Hashing
  imports Prelude "HOL-Library.Word"
begin

text \<open>
  The digest primitives of the Python standard library that the authority and ledger code
  uses: \<open>hashlib.sha256\<close> and \<open>hashlib.sha1\<close> (FIPS 180-4, on 32-bit words), \<open>hexdigest\<close>, big-endian
  \<open>int.to_bytes\<close>, and the two helpers of
  \<open>src/hfa-core/src/hfa/authority/canonical_transition.py\<close> built on them,
  \<open>_length_prefixed_utf8\<close> and \<open>_component_digest\<close>.

  A byte string is a \<open>string\<close> (one \<open>char\<close> per byte). The theory shows that a hexadecimal
  digest always passes the \<open>^[0-9a-f]{64}$\<close> check and that the length-prefixed encoding is
  injective, so that two different component lists share a digest only on a SHA-256 collision.
\<close>

unbundle bit_operations_syntax

section \<open>SHA-256\<close>

type_synonym u32 = "32 word"
type_synonym sha_state = "u32 list"

definition sha256_k :: "u32 list" where
  "sha256_k =
    [1116352408, 1899447441, 3049323471, 3921009573, 961987163, 1508970993, 2453635748, 2870763221,
     3624381080, 310598401, 607225278, 1426881987, 1925078388, 2162078206, 2614888103, 3248222580,
     3835390401, 4022224774, 264347078, 604807628, 770255983, 1249150122, 1555081692, 1996064986,
     2554220882, 2821834349, 2952996808, 3210313671, 3336571891, 3584528711, 113926993, 338241895,
     666307205, 773529912, 1294757372, 1396182291, 1695183700, 1986661051, 2177026350, 2456956037,
     2730485921, 2820302411, 3259730800, 3345764771, 3516065817, 3600352804, 4094571909, 275423344,
     430227734, 506948616, 659060556, 883997877, 958139571, 1322822218, 1537002063, 1747873779,
     1955562222, 2024104815, 2227730452, 2361852424, 2428436474, 2756734187, 3204031479, 3329325298]"

definition sha256_h0 :: sha_state where
  "sha256_h0 = [1779033703, 3144134277, 1013904242, 2773480762,
     1359893119, 2600822924, 528734635, 1541459225]"

definition be_word :: "char list \<Rightarrow> u32" where
  "be_word bs = foldl (\<lambda>w c. push_bit 8 w OR of_char c) 0 bs"

definition word_be :: "u32 \<Rightarrow> char list" where
  "word_be w = map (\<lambda>k. char_of (uint (drop_bit k w))) [24, 16, 8, 0]"

fun be_bytes :: "nat \<Rightarrow> nat \<Rightarrow> char list" where
  "be_bytes 0 n = []"
| "be_bytes (Suc k) n = be_bytes k (n div 256) @ [char_of (n mod 256)]"

definition sha256_pad :: "char list \<Rightarrow> char list" where
  "sha256_pad m = m @ [char_of (128::nat)]
     @ replicate ((119 - length m mod 64) mod 64) (char_of (0::nat)) @ be_bytes 8 (8 * length m)"

fun chunks :: "nat \<Rightarrow> 'a list \<Rightarrow> 'a list list" where
  "chunks n xs = (if n = 0 \<or> xs = [] then [] else take n xs # chunks n (drop n xs))"

definition sig0 :: "u32 \<Rightarrow> u32" where
  "sig0 x = word_rotr 7 x XOR word_rotr 18 x XOR drop_bit 3 x"

definition sig1 :: "u32 \<Rightarrow> u32" where
  "sig1 x = word_rotr 17 x XOR word_rotr 19 x XOR drop_bit 10 x"

definition big0 :: "u32 \<Rightarrow> u32" where
  "big0 x = word_rotr 2 x XOR word_rotr 13 x XOR word_rotr 22 x"

definition big1 :: "u32 \<Rightarrow> u32" where
  "big1 x = word_rotr 6 x XOR word_rotr 11 x XOR word_rotr 25 x"

text \<open>The message schedule grows at the end; \<open>rev\<close> order keeps the last sixteen words in front.\<close>

primrec schedule :: "nat \<Rightarrow> u32 list \<Rightarrow> u32 list" where
  "schedule 0 ws = ws"
| "schedule (Suc n) ws = schedule n ((sig1 (ws ! 1) + ws ! 6 + sig0 (ws ! 14) + ws ! 15) # ws)"

fun sha256_round :: "sha_state \<Rightarrow> u32 \<times> u32 \<Rightarrow> sha_state" where
  "sha256_round [a, b, c, d, e, f, g, h] (k, w) =
     (let t1 = h + big1 e + ((e AND f) XOR (NOT e AND g)) + k + w;
          t2 = big0 a + ((a AND b) XOR (a AND c) XOR (b AND c))
      in [t1 + t2, a, b, c, d + t1, e, f, g])"
| "sha256_round st _ = st"

definition sha256_block :: "sha_state \<Rightarrow> char list \<Rightarrow> sha_state" where
  "sha256_block st blk =
     (let ws = rev (schedule 48 (rev (map be_word (chunks 4 blk))))
      in map2 (+) st (foldl sha256_round st (zip sha256_k ws)))"

definition sha256 :: "char list \<Rightarrow> char list" where
  "sha256 m = concat (map word_be (foldl sha256_block sha256_h0 (chunks 64 (sha256_pad m))))"

section \<open>Hexadecimal digests\<close>

definition hex_char :: "nat \<Rightarrow> char" where
  "hex_char n = ''0123456789abcdef'' ! n"

definition hexlify :: "char list \<Rightarrow> string" where
  "hexlify bs = concat (map (\<lambda>c. [hex_char (of_char c div 16), hex_char (of_char c mod 16)]) bs)"

definition sha256_hexdigest :: "char list \<Rightarrow> string" where
  "sha256_hexdigest m = hexlify (sha256 m)"

definition is_lower_hex :: "char \<Rightarrow> bool" where
  "is_lower_hex c = (c \<in> set ''0123456789abcdef'')"

text \<open>\<open>_SHA256_RE.fullmatch\<close> of canonical_transition.py: exactly 64 lowercase hex digits.\<close>

definition sha256_re :: "string \<Rightarrow> bool" where
  "sha256_re s = (length s = 64 \<and> list_all is_lower_hex s)"

section \<open>Length-prefixed component digests\<close>

definition length_prefixed_utf8 :: "string \<Rightarrow> char list" where
  "length_prefixed_utf8 v = be_bytes 8 (length v) @ v"

definition component_digest :: "string list \<Rightarrow> string" where
  "component_digest cs = sha256_hexdigest (concat (map length_prefixed_utf8 cs))"

definition sha256_collision :: "char list \<Rightarrow> char list \<Rightarrow> bool" where
  "sha256_collision x y = (x \<noteq> y \<and> sha256_hexdigest x = sha256_hexdigest y)"

section \<open>Shape of a digest\<close>

declare chunks.simps [simp del]

lemma length_sha256_round [simp]: "length (sha256_round st kw) = length st"
  by (induction st kw rule: sha256_round.induct) (simp_all add: Let_def)

lemma length_sha256_rounds [simp]: "length (foldl sha256_round st kws) = length st"
  by (induction kws arbitrary: st) simp_all

lemma length_sha256_block [simp]: "length (sha256_block st blk) = length st"
  by (simp add: sha256_block_def Let_def)

lemma length_sha256_blocks [simp]: "length (foldl sha256_block st bs) = length st"
  by (induction bs arbitrary: st) simp_all

lemma length_concat_const: "(\<And>x. x \<in> set xs \<Longrightarrow> length (f x) = k) \<Longrightarrow> length (concat (map f xs)) = k * length xs"
  by (induction xs) (simp_all add: algebra_simps)

lemma length_sha256: "length (sha256 m) = 32"
proof -
  have "length (sha256 m) = 4 * length (foldl sha256_block sha256_h0 (chunks 64 (sha256_pad m)))"
    unfolding sha256_def by (rule length_concat_const) (simp add: word_be_def)
  also have "\<dots> = 32" by (simp add: sha256_h0_def)
  finally show ?thesis .
qed

lemma hex_char_lower: "n < 16 \<Longrightarrow> is_lower_hex (hex_char n)"
  unfolding is_lower_hex_def hex_char_def by (rule nth_mem) simp

lemma hexlify_lower: "list_all is_lower_hex (hexlify bs)"
proof (induction bs)
  case Nil
  then show ?case by (simp add: hexlify_def)
next
  case (Cons b bs)
  have "of_char b < (256::nat)" by (metis of_char_mod_256 mod_less_divisor zero_less_numeral)
  then have "(of_char b :: nat) div 16 < 16" by (simp add: div_less_iff_less_mult)
  with Cons show ?case by (simp add: hexlify_def hex_char_lower)
qed

lemma length_hexlify: "length (hexlify bs) = 2 * length bs"
  by (simp add: hexlify_def length_concat_const [where k = 2])

theorem sha256_hexdigest_re [simp]: "sha256_re (sha256_hexdigest m)"
  by (simp add: sha256_re_def sha256_hexdigest_def length_hexlify length_sha256 hexlify_lower)

lemma component_digest_re [simp]: "sha256_re (component_digest cs)"
  by (simp add: component_digest_def)

lemma sha256_re_nonempty: "sha256_re s \<Longrightarrow> s \<noteq> []"
  by (auto simp: sha256_re_def)

lemma sha256_re_no_colon: "sha256_re s \<Longrightarrow> CHR '':'' \<notin> set s"
proof -
  have "\<not> is_lower_hex CHR '':''" by (simp add: is_lower_hex_def)
  then show "sha256_re s \<Longrightarrow> CHR '':'' \<notin> set s" by (auto simp: sha256_re_def list_all_iff)
qed

section \<open>Injectivity of the length-prefixed encoding\<close>

lemma length_be_bytes [simp]: "length (be_bytes k n) = k"
  by (induction k arbitrary: n) simp_all

lemma be_bytes_inj: "m < 256 ^ k \<Longrightarrow> n < 256 ^ k \<Longrightarrow> be_bytes k m = be_bytes k n \<Longrightarrow> m = n"
proof (induction k arbitrary: m n)
  case 0
  then show ?case by simp
next
  case (Suc k)
  from Suc.prems(3) have hi: "be_bytes k (m div 256) = be_bytes k (n div 256)"
    and lo: "char_of (m mod 256) = (char_of (n mod 256) :: char)"
    by simp_all
  from Suc.prems(1,2) have "m div 256 < 256 ^ k" "n div 256 < 256 ^ k"
    by (simp_all add: div_less_iff_less_mult)
  with hi have "m div 256 = n div 256" by (blast intro: Suc.IH)
  moreover from lo have "m mod 256 = n mod 256" by simp
  ultimately show ?case by (metis div_mult_mod_eq)
qed

lemma length_prefixed_nonempty [simp]: "length_prefixed_utf8 v \<noteq> []"
proof -
  have "length (length_prefixed_utf8 v) = 8 + length v" by (simp add: length_prefixed_utf8_def)
  then show ?thesis by auto
qed

lemma length_prefixed_append_inj:
  assumes "length_prefixed_utf8 u @ xs = length_prefixed_utf8 v @ ys"
    and "length u < 2 ^ 64" and "length v < 2 ^ 64"
  shows "u = v \<and> xs = ys"
proof -
  from assms(1) have "be_bytes 8 (length u) = be_bytes 8 (length v)" and rest: "u @ xs = v @ ys"
    by (simp_all add: length_prefixed_utf8_def)
  then have "length u = length v"
    using assms(2,3) by (intro be_bytes_inj [of _ 8]) simp_all
  with rest show ?thesis by simp
qed

lemma concat_length_prefixed_inj:
  assumes "concat (map length_prefixed_utf8 us) = concat (map length_prefixed_utf8 vs)"
    and "\<And>c. c \<in> set us \<union> set vs \<Longrightarrow> length c < 2 ^ 64"
  shows "us = vs"
  using assms
proof (induction us arbitrary: vs)
  case Nil
  then show ?case by (cases vs) simp_all
next
  case (Cons u us)
  show ?case
  proof (cases vs)
    case Nil
    with Cons.prems(1) show ?thesis by simp
  next
    case (Cons v vs')
    with Cons.prems have "u = v \<and> concat (map length_prefixed_utf8 us) = concat (map length_prefixed_utf8 vs')"
      by (intro length_prefixed_append_inj) auto
    with Cons Cons.IH [of vs'] Cons.prems(2) show ?thesis by simp
  qed
qed

lemma component_digest_eqD:
  assumes "component_digest us = component_digest vs"
    and "\<And>c. c \<in> set us \<union> set vs \<Longrightarrow> length c < 2 ^ 64"
  shows "us = vs \<or> sha256_collision (concat (map length_prefixed_utf8 us))
                                 (concat (map length_prefixed_utf8 vs))"
  using assms concat_length_prefixed_inj [of us vs]
  by (auto simp: component_digest_def sha256_collision_def)

section \<open>SHA-1\<close>

text \<open>\<open>hashlib.sha1\<close> on the same padded blocks as SHA-256: eighty rounds over a rotating five-word state.\<close>

primrec sha1_schedule :: "nat \<Rightarrow> u32 list \<Rightarrow> u32 list" where
  "sha1_schedule 0 ws = ws"
| "sha1_schedule (Suc n) ws =
     sha1_schedule n (word_rotl 1 (ws ! 2 XOR ws ! 7 XOR ws ! 13 XOR ws ! 15) # ws)"

definition sha1_fk :: "nat \<Rightarrow> u32 \<Rightarrow> u32 \<Rightarrow> u32 \<Rightarrow> u32" where
  "sha1_fk t b c d =
     (if t < 20 then ((b AND c) OR (NOT b AND d)) + 1518500249
      else if t < 40 then (b XOR c XOR d) + 1859775393
      else if t < 60 then ((b AND c) OR (b AND d) OR (c AND d)) + 2400959708
      else (b XOR c XOR d) + 3395469782)"

fun sha1_round :: "sha_state \<Rightarrow> nat \<times> u32 \<Rightarrow> sha_state" where
  "sha1_round [a, b, c, d, e] (t, w) = [word_rotl 5 a + sha1_fk t b c d + e + w, a, word_rotl 30 b, c, d]"
| "sha1_round st _ = st"

definition sha1_block :: "sha_state \<Rightarrow> char list \<Rightarrow> sha_state" where
  "sha1_block st blk =
     (let ws = rev (sha1_schedule 64 (rev (map be_word (chunks 4 blk))))
      in map2 (+) st (foldl sha1_round st (zip [0..<80] ws)))"

definition sha1 :: "char list \<Rightarrow> char list" where
  "sha1 m = concat (map word_be
     (foldl sha1_block [1732584193, 4023233417, 2562383102, 271733878, 3285377520] (chunks 64 (sha256_pad m))))"

definition sha1_hexdigest :: "char list \<Rightarrow> string" where
  "sha1_hexdigest m = hexlify (sha1 m)"

text \<open>\<open>_SHA1_RE.fullmatch\<close> of redis_persistence.py.\<close>

definition sha1_re :: "string \<Rightarrow> bool" where
  "sha1_re s = (length s = 40 \<and> list_all is_lower_hex s)"

lemma length_sha1_round [simp]: "length (sha1_round st kw) = length st"
  by (induction st kw rule: sha1_round.induct) simp_all

lemma length_sha1_rounds [simp]: "length (foldl sha1_round st kws) = length st"
  by (induction kws arbitrary: st) simp_all

lemma length_sha1_blocks [simp]: "length (foldl sha1_block st bs) = length st"
  by (induction bs arbitrary: st) (simp_all add: sha1_block_def Let_def)

lemma sha1_hexdigest_re [simp]: "sha1_re (sha1_hexdigest m)"
proof -
  have "length (sha1 m) = 4 * length (foldl sha1_block
      [1732584193, 4023233417, 2562383102, 271733878, 3285377520] (chunks 64 (sha256_pad m)))"
    unfolding sha1_def by (rule length_concat_const) (simp add: word_be_def)
  then show ?thesis by (simp add: sha1_re_def sha1_hexdigest_def length_hexlify hexlify_lower)
qed

end
