(* ===== verification/PyJson.thy ===== *)
theory PyJson
  imports Hashing
begin

text \<open>
  Python values and the JSON normalisation of
  \<open>src/hfa-core/src/hfa/authority/canonical_transition.py\<close> (\<open>_nfc\<close> to \<open>canonical_json_sha256\<close>).

  \<open>pyval\<close> is a Python object as the code can tell it apart with \<open>type(x) is ...\<close> and
  \<open>isinstance\<close>: a mapping keeps its insertion order and may have keys of any type, a sequence is
  a list or a tuple, a float is a dyadic rational \<open>m * 2^e\<close> or one of the three non-finite
  values, and \<open>POther\<close> is every type the normaliser refuses. \<open>json\<close> is what normalisation returns
  (\<open>JsonValue\<close>).

  Two functions the code calls are not part of the repository and are parameters
  (\<open>externals\<close>): \<open>unicodedata.normalize("NFC", s)\<close>, whose tables are data of the Unicode
  consortium, and \<open>rfc8785.dumps\<close>, a third-party package, which may raise
  \<open>CanonicalizationError\<close> (\<open>None\<close>). What the code relies on is stated as \<open>nfc_laws\<close> and
  \<open>jcs_total\<close>.

  The lemmas: a normalised value is well formed (\<open>json_wf\<close>: safe integers, finite floats, NFC
  strings, distinct non-empty keys), normalisation is the identity on well-formed values, hence
  idempotent, and freezing followed by thawing gives the normalised value back.
\<close>

section \<open>Values\<close>

datatype pyfloat = FinFloat int int | PosInf | NegInf | NaN

datatype pyval =
    PNone
  | PBool bool
  | PInt int
  | PFloat pyfloat
  | PStr string
  | PBytes "char list"
  | PSeq "pyval list"
  | PMap "(pyval \<times> pyval) list"
  | POther string

datatype json =
    JNull
  | JBool bool
  | JInt int
  | JFloat pyfloat
  | JStr string
  | JArr "json list"
  | JObj "(string \<times> json) list"

record externals =
  nfc_normalize :: "string \<Rightarrow> string"
  rfc8785_dumps :: "json \<Rightarrow> char list option"

text \<open>One constructor per \<open>raise AuthorityContractError\<close> of canonical_transition.py.\<close>

datatype authority_error =
    ExactStringRequired string
  | EmptyString string
  | ExactIntRequired string
  | UnsafeInteger string
  | ExactBoolRequired string
  | Sha256HexRequired string
  | NonFiniteNumber string
  | DuplicateKey string string
  | UnsupportedType string string
  | CanonicalizationFailed
  | UnsupportedOperation
  | IntentNotAnObject nat
  | DuplicateIntentKind string
  | TaskIdentityRequiresTaskId
  | RunIdentityHasTaskId
  | OperationsNotFrozenset
  | AggregateTypeMismatch
  | IllegalOperationTransition
  | IntentSetMismatch
  | SchemaVersionMismatch
  | IdentityHashMismatch
  | RevisionNotContiguous
  | TransitionIdNotDeterministic
  | RecordHashMismatch
  | StoreRecordRequired
  | ProofAggregateMismatch
  | ProofOperationMismatch
  | ReceiptRecordMismatch

text \<open>The number of binary digits, from which the rounding of doubles is computed.\<close>

fun bit_len :: "nat \<Rightarrow> nat" where
  "bit_len n = (if n = 0 then 0 else Suc (bit_len (n div 2)))"

section \<open>Primitive checks\<close>

definition max_safe_integer :: int where
  "max_safe_integer = 2 ^ 53 - 1"

definition nfc :: "externals \<Rightarrow> string \<Rightarrow> bool \<Rightarrow> pyval \<Rightarrow> authority_error + string" where
  "nfc E field_name allow_empty v =
     (case v of
        PStr s \<Rightarrow>
          (let normalized = nfc_normalize E s
           in if \<not> allow_empty \<and> normalized = [] then Inl (EmptyString field_name) else Inr normalized)
      | _ \<Rightarrow> Inl (ExactStringRequired field_name))"

definition safe_int :: "string \<Rightarrow> int \<Rightarrow> pyval \<Rightarrow> authority_error + int" where
  "safe_int field_name minimum v =
     (case v of
        PInt i \<Rightarrow>
          (if i < minimum \<or> max_safe_integer < i then Inl (UnsafeInteger field_name) else Inr i)
      | _ \<Rightarrow> Inl (ExactIntRequired field_name))"

definition exact_bool :: "string \<Rightarrow> pyval \<Rightarrow> authority_error + bool" where
  "exact_bool field_name v = (case v of PBool b \<Rightarrow> Inr b | _ \<Rightarrow> Inl (ExactBoolRequired field_name))"

definition sha256_hex :: "string \<Rightarrow> pyval \<Rightarrow> authority_error + string" where
  "sha256_hex field_name v =
     (case v of
        PStr s \<Rightarrow> (if sha256_re s then Inr s else Inl (Sha256HexRequired field_name))
      | _ \<Rightarrow> Inl (Sha256HexRequired field_name))"

section \<open>URL-safe base64 without padding\<close>

definition b64_alphabet :: string where
  "b64_alphabet = ''ABCDEFGHIJKLMNOPQRSTUVWXYZabcdefghijklmnopqrstuvwxyz0123456789-_''"

definition b64_char :: "nat \<Rightarrow> char" where
  "b64_char n = b64_alphabet ! n"

fun base64url :: "char list \<Rightarrow> string" where
  "base64url [] = []"
| "base64url [a] =
     (let x = of_char a in [b64_char (x div 4), b64_char (x mod 4 * 16)])"
| "base64url [a, b] =
     (let x = of_char a; y = of_char b
      in [b64_char (x div 4), b64_char (x mod 4 * 16 + y div 16), b64_char (y mod 16 * 4)])"
| "base64url (a # b # c # r) =
     (let x = of_char a; y = of_char b; z = of_char c
      in [b64_char (x div 4), b64_char (x mod 4 * 16 + y div 16),
          b64_char (y mod 16 * 4 + z div 64), b64_char (z mod 64)]) @ base64url r"

section \<open>Normalisation\<close>

definition is_finite :: "pyfloat \<Rightarrow> bool" where
  "is_finite f = (case f of FinFloat _ _ \<Rightarrow> True | _ \<Rightarrow> False)"

fun normalize_json :: "externals \<Rightarrow> string \<Rightarrow> pyval \<Rightarrow> authority_error + json"
  and normalize_items ::
    "externals \<Rightarrow> string \<Rightarrow> (pyval \<times> pyval) list \<Rightarrow> (string \<times> json) list \<Rightarrow> authority_error + json"
  and normalize_seq :: "externals \<Rightarrow> string \<Rightarrow> nat \<Rightarrow> pyval list \<Rightarrow> authority_error + json list"
where
  "normalize_json E path PNone = Inr JNull"
| "normalize_json E path (PBool b) = Inr (JBool b)"
| "normalize_json E path (PStr s) = Inr (JStr (nfc_normalize E s))"
| "normalize_json E path (PBytes b) =
     Inr (JObj [(''$type'', JStr ''bytes''), (''$base64url'', JStr (base64url b))])"
| "normalize_json E path (PInt i) =
     rbind (safe_int path (- max_safe_integer) (PInt i)) (\<lambda>n. Inr (JInt n))"
| "normalize_json E path (PFloat f) =
     (if \<not> is_finite f then Inl (NonFiniteNumber path) else Inr (JFloat f))"
| "normalize_json E path (PMap kvs) = normalize_items E path kvs []"
| "normalize_json E path (PSeq xs) = rbind (normalize_seq E path 0 xs) (\<lambda>js. Inr (JArr js))"
| "normalize_json E path (POther t) = Inl (UnsupportedType path t)"
| "normalize_items E path [] result = Inr (JObj result)"
| "normalize_items E path ((raw_key, raw_value) # kvs) result =
     rbind (nfc E (path @ '' key'') False raw_key) (\<lambda>key.
       if key \<in> fst ` set result then Inl (DuplicateKey path key)
       else rbind (normalize_json E (path @ ''.'' @ key) raw_value) (\<lambda>j.
         normalize_items E path kvs (result @ [(key, j)])))"
| "normalize_seq E path i [] = Inr []"
| "normalize_seq E path i (x # xs) =
     rbind (normalize_json E (path @ ''['' @ dec_nat i @ '']'') x) (\<lambda>j.
       rbind (normalize_seq E path (Suc i) xs) (\<lambda>js. Inr (j # js)))"

fun py_of_json :: "json \<Rightarrow> pyval" where
  "py_of_json JNull = PNone"
| "py_of_json (JBool b) = PBool b"
| "py_of_json (JInt i) = PInt i"
| "py_of_json (JFloat f) = PFloat f"
| "py_of_json (JStr s) = PStr s"
| "py_of_json (JArr js) = PSeq (map py_of_json js)"
| "py_of_json (JObj kvs) = PMap (map (\<lambda>kv. (PStr (fst kv), py_of_json (snd kv))) kvs)"

text \<open>Nesting depth, the measure on which \<open>freeze\<close> recurs.\<close>

fun json_depth :: "json \<Rightarrow> nat" where
  "json_depth (JArr js) = Suc (fold max (map json_depth js) 0)"
| "json_depth (JObj kvs) = Suc (fold max (map (\<lambda>kv. json_depth (snd kv)) kvs) 0)"
| "json_depth _ = 0"

text \<open>Well-formed normalised values.\<close>

fun json_wf :: "externals \<Rightarrow> json \<Rightarrow> bool" where
  "json_wf E JNull = True"
| "json_wf E (JBool b) = True"
| "json_wf E (JInt i) = (- max_safe_integer \<le> i \<and> i \<le> max_safe_integer)"
| "json_wf E (JFloat f) = is_finite f"
| "json_wf E (JStr s) = (nfc_normalize E s = s)"
| "json_wf E (JArr js) = list_all (json_wf E) js"
| "json_wf E (JObj kvs) =
     (distinct (map fst kvs) \<and>
      list_all (\<lambda>kv. fst kv \<noteq> [] \<and> nfc_normalize E (fst kv) = fst kv \<and> json_wf E (snd kv)) kvs)"

definition is_ascii :: "string \<Rightarrow> bool" where
  "is_ascii s = list_all (\<lambda>c. (of_char c :: nat) < 128) s"

definition nfc_laws :: "externals \<Rightarrow> bool" where
  "nfc_laws E \<longleftrightarrow>
     (\<forall>s. nfc_normalize E (nfc_normalize E s) = nfc_normalize E s) \<and>
     (\<forall>s. is_ascii s \<longrightarrow> nfc_normalize E s = s)"

definition jcs_total :: "externals \<Rightarrow> bool" where
  "jcs_total E \<longleftrightarrow> (\<forall>j. json_wf E j \<longrightarrow> (\<exists>b. rfc8785_dumps E j = Some b))"

definition canonical_json_bytes :: "externals \<Rightarrow> pyval \<Rightarrow> authority_error + char list" where
  "canonical_json_bytes E v =
     rbind (normalize_json E ''$'' v) (\<lambda>j.
       case rfc8785_dumps E j of None \<Rightarrow> Inl CanonicalizationFailed | Some b \<Rightarrow> Inr b)"

definition canonical_json_sha256 :: "externals \<Rightarrow> pyval \<Rightarrow> authority_error + string" where
  "canonical_json_sha256 E v = rbind (canonical_json_bytes E v) (\<lambda>b. Inr (sha256_hexdigest b))"

section \<open>Freezing and thawing\<close>

text \<open>
  \<open>_freeze\<close> normalises, then freezes every item of the normalised container, which normalises
  the item once more. It terminates because normalising a JSON value keeps its depth.
\<close>

lemma normalize_items_shape:
  assumes "\<And>kv j p. kv \<in> set kvs \<Longrightarrow> normalize_json E p (f kv) = Inr j \<Longrightarrow> d j = e kv"
    and "normalize_items E path (map (\<lambda>kv. (g kv, f kv)) kvs) acc = Inr res"
  shows "\<exists>r. res = JObj (acc @ r) \<and> map (\<lambda>kv. d (snd kv)) r = map e kvs"
  using assms
proof (induction kvs arbitrary: acc)
  case Nil
  then show ?case by auto
next
  case (Cons kv kvs)
  from Cons.prems(2) obtain key j where
    j: "normalize_json E (path @ ''.'' @ key) (f kv) = Inr j" and
    rest: "normalize_items E path (map (\<lambda>kv. (g kv, f kv)) kvs) (acc @ [(key, j)]) = Inr res"
    by (auto simp: result_simps split: if_splits)
  obtain r where "res = JObj ((acc @ [(key, j)]) @ r)" "map (\<lambda>kv. d (snd kv)) r = map e kvs"
    using Cons.IH [OF _ rest] Cons.prems(1) by auto
  moreover have "d j = e kv" using Cons.prems(1) j by simp
  ultimately show ?case by (intro exI [of _ "(key, j) # r"]) simp
qed

lemma normalize_seq_shape:
  assumes "\<And>x j p. x \<in> set xs \<Longrightarrow> normalize_json E p (f x) = Inr j \<Longrightarrow> d j = e x"
    and "normalize_seq E path i (map f xs) = Inr js"
  shows "map d js = map e xs"
  using assms
proof (induction xs arbitrary: i js)
  case Nil
  then show ?case by auto
next
  case (Cons x xs)
  then obtain j js' where "js = j # js'" "normalize_json E (path @ ''['' @ dec_nat i @ '']'') (f x) = Inr j"
    "normalize_seq E path (Suc i) (map f xs) = Inr js'"
    by (auto simp: result_simps)
  with Cons show ?case by auto
qed

lemma normalize_json_depth:
  "normalize_json E p (py_of_json j) = Inr j' \<Longrightarrow> json_depth j' = json_depth j"
proof (induction j arbitrary: p j')
  case (JArr js)
  then obtain js' where "j' = JArr js'" "normalize_seq E p 0 (map py_of_json js) = Inr js'"
    by (auto simp: result_simps)
  with normalize_seq_shape [where d = json_depth and e = json_depth and f = py_of_json] JArr.IH
  show ?case by fastforce
next
  case (JObj kvs)
  have "\<exists>r. j' = JObj ([] @ r) \<and>
      map (\<lambda>kv. json_depth (snd kv)) r = map (\<lambda>kv. json_depth (snd kv)) kvs"
  proof (rule normalize_items_shape)
    show "normalize_items E p (map (\<lambda>kv. (PStr (fst kv), py_of_json (snd kv))) kvs) [] = Inr j'"
      using JObj.prems by simp
    show "json_depth i = json_depth (snd kv)"
      if "kv \<in> set kvs" "normalize_json E q (py_of_json (snd kv)) = Inr i" for kv i q
      using JObj.IH [of kv "snd kv"] that by (cases kv) auto
  qed
  then show ?case by auto
qed (auto simp: result_simps safe_int_def split: if_splits)

lemma fold_max_ge: "x \<in> set xs \<Longrightarrow> x \<le> fold max xs (a::nat)"
proof (induction xs arbitrary: a)
  case (Cons y ys)
  have "b \<le> fold max zs b" for zs and b :: nat
    by (induction zs arbitrary: b) (auto intro: order_trans [OF max.cobounded2])
  with Cons show ?case by (auto intro: order_trans [of _ "max y a"])
qed simp

lemma json_depth_item:
  "kv \<in> set kvs \<Longrightarrow> json_depth (snd kv) < json_depth (JObj kvs)"
  "x \<in> set js \<Longrightarrow> json_depth x < json_depth (JArr js)"
  by (auto simp: less_Suc_eq_le intro!: fold_max_ge)

function freeze_norm :: "externals \<Rightarrow> json \<Rightarrow> authority_error + json" where
  "freeze_norm E (JObj kvs) =
     rbind (rtraverse (\<lambda>kv. rbind (normalize_json E ''$'' (py_of_json (snd kv))) (\<lambda>j.
              rbind (freeze_norm E j) (\<lambda>f. Inr (fst kv, f)))) kvs) (\<lambda>fs. Inr (JObj fs))"
| "freeze_norm E (JArr js) =
     rbind (rtraverse (\<lambda>x. rbind (normalize_json E ''$'' (py_of_json x)) (freeze_norm E)) js)
       (\<lambda>fs. Inr (JArr fs))"
| "freeze_norm E JNull = Inr JNull"
| "freeze_norm E (JBool b) = Inr (JBool b)"
| "freeze_norm E (JInt i) = Inr (JInt i)"
| "freeze_norm E (JFloat f) = Inr (JFloat f)"
| "freeze_norm E (JStr s) = Inr (JStr s)"
  by pat_completeness auto
termination
proof (relation "measure (\<lambda>(E, j). json_depth j)", goal_cases)
  case 1
  show ?case by simp
next
  case (2 E kvs kv j)
  then show ?case by (metis in_measure case_prod_conv json_depth_item(1) normalize_json_depth)
next
  case (3 E js x j)
  then show ?case by (metis in_measure case_prod_conv json_depth_item(2) normalize_json_depth)
qed

definition freeze :: "externals \<Rightarrow> pyval \<Rightarrow> authority_error + json" where
  "freeze E v = rbind (normalize_json E ''$'' v) (freeze_norm E)"

fun thaw :: "json \<Rightarrow> pyval" where
  "thaw (JObj kvs) = PMap (map (\<lambda>kv. (PStr (fst kv), thaw (snd kv))) kvs)"
| "thaw (JArr js) = PSeq (map thaw js)"
| "thaw JNull = PNone"
| "thaw (JBool b) = PBool b"
| "thaw (JInt i) = PInt i"
| "thaw (JFloat f) = PFloat f"
| "thaw (JStr s) = PStr s"

section \<open>The primitive checks, inverted\<close>

lemma nfc_Inr_iff [result_simps]:
  "nfc E fn ae v = Inr s \<longleftrightarrow> (\<exists>r. v = PStr r \<and> s = nfc_normalize E r \<and> (ae \<or> s \<noteq> []))"
  by (auto simp: nfc_def Let_def split: pyval.splits)

lemma safe_int_Inr_iff [result_simps]:
  "safe_int fn lo v = Inr i \<longleftrightarrow> v = PInt i \<and> lo \<le> i \<and> i \<le> max_safe_integer"
  by (auto simp: safe_int_def split: pyval.splits)

lemma sha256_hex_Inr_iff [result_simps]:
  "sha256_hex fn v = Inr s \<longleftrightarrow> v = PStr s \<and> sha256_re s"
  by (auto simp: sha256_hex_def split: pyval.splits)

lemma exact_bool_Inr_iff [result_simps]: "exact_bool fn v = Inr b \<longleftrightarrow> v = PBool b"
  by (auto simp: exact_bool_def split: pyval.splits)

section \<open>Normal forms\<close>

lemma json_wf_Obj_append:
  "json_wf E (JObj (xs @ ys)) \<longleftrightarrow>
     json_wf E (JObj xs) \<and> json_wf E (JObj ys) \<and> fst ` set xs \<inter> fst ` set ys = {}"
  by auto

lemma nfc_idem: "nfc_laws E \<Longrightarrow> nfc_normalize E (nfc_normalize E s) = nfc_normalize E s"
  by (simp add: nfc_laws_def)

lemma nfc_ascii: "nfc_laws E \<Longrightarrow> is_ascii s \<Longrightarrow> nfc_normalize E s = s"
  by (simp add: nfc_laws_def)

lemma is_ascii_append [simp]: "is_ascii (xs @ ys) \<longleftrightarrow> is_ascii xs \<and> is_ascii ys"
  by (simp add: is_ascii_def)

lemma is_ascii_mem: "is_ascii s \<Longrightarrow> c \<in> set s \<Longrightarrow> (of_char c :: nat) < 128"
  by (auto simp: is_ascii_def list_all_iff)

lemma b64_alphabet_facts: "length b64_alphabet = 64" "is_ascii b64_alphabet"
  by (simp_all add: b64_alphabet_def is_ascii_def)

lemma b64_char_ascii: "n < 64 \<Longrightarrow> (of_char (b64_char n) :: nat) < 128"
  unfolding b64_char_def by (rule is_ascii_mem [OF b64_alphabet_facts(2)])
    (simp add: b64_alphabet_facts)

lemma of_char_less: "(of_char c :: nat) < 256"
  by (metis mod_less_divisor of_char_mod_256 zero_less_numeral)

lemma b64_bounds:
  assumes "(x::nat) < 256" and "(y::nat) < 256"
  shows "x div 4 < 64" "x mod 4 * 16 < 64" "y mod 16 * 4 < 64"
    "x mod 4 * 16 + y div 16 < 64" "x mod 16 * 4 + y div 64 < 64"
proof -
  have "x mod 4 < 4" "x mod 16 < 16" "y mod 16 < 16" by simp_all
  moreover have "y div 16 < 16" "y div 64 < 4" "x div 4 < 64"
    using assms by (simp_all add: div_less_iff_less_mult)
  ultimately show "x div 4 < 64" "x mod 4 * 16 < 64" "y mod 16 * 4 < 64"
    "x mod 4 * 16 + y div 16 < 64" "x mod 16 * 4 + y div 64 < 64"
    by linarith+
qed

lemma base64url_ascii: "is_ascii (base64url bs)"
proof (induction bs rule: base64url.induct)
  case 1
  then show ?case by (simp add: is_ascii_def)
next
  case (2 a)
  then show ?case
    using b64_bounds [of "of_char a" "of_char a", OF of_char_less of_char_less]
    by (simp add: is_ascii_def Let_def b64_char_ascii)
next
  case (3 a b)
  then show ?case
    using b64_bounds [of "of_char a" "of_char b", OF of_char_less of_char_less]
    by (simp add: is_ascii_def Let_def b64_char_ascii)
next
  case (4 a b c r)
  then show ?case
    using b64_bounds [of "of_char a" "of_char b", OF of_char_less of_char_less]
      b64_bounds [of "of_char b" "of_char c", OF of_char_less of_char_less]
    by (simp add: is_ascii_def Let_def b64_char_ascii)
qed

theorem normalize_json_wf_aux:
  "nfc_laws E \<Longrightarrow> normalize_json E p v = Inr j \<Longrightarrow> json_wf E j"
  "nfc_laws E \<Longrightarrow> normalize_items E p kvs acc = Inr j \<Longrightarrow> json_wf E (JObj acc) \<Longrightarrow> json_wf E j"
  "nfc_laws E \<Longrightarrow> normalize_seq E p i xs = Inr js \<Longrightarrow> list_all (json_wf E) js"
proof (induction E p v and E p kvs acc and E p i xs arbitrary: j and j and js
    rule: normalize_json_normalize_items_normalize_seq.induct)
  case (4 E path b)
  then have "nfc_normalize E s = s" if "is_ascii s" for s
    using that nfc_ascii by blast
  with 4 show ?case by (auto simp: base64url_ascii) (simp_all add: is_ascii_def)
next
  case (11 E path raw_key raw_value kvs result)
  from "11.prems"(2) obtain key i where
    key: "nfc E (path @ '' key'') False raw_key = Inr key" and fresh: "key \<notin> fst ` set result" and
    i: "normalize_json E (path @ ''.'' @ key) raw_value = Inr i" and
    rest: "normalize_items E path kvs (result @ [(key, i)]) = Inr j"
    by (auto simp: result_simps split: if_splits)
  from key have "key \<noteq> []" "nfc_normalize E key = key"
    using "11.prems"(1) by (auto simp: result_simps nfc_idem)
  moreover have "json_wf E i" using "11.IH"(1) [OF key fresh "11.prems"(1) i] .
  ultimately have "json_wf E (JObj (result @ [(key, i)]))"
    using "11.prems"(3) fresh by (simp only: json_wf_Obj_append) auto
  then show ?case using "11.IH"(2) [OF key fresh i "11.prems"(1) rest] by blast
qed (auto simp: result_simps nfc_idem split: if_splits)

lemmas normalize_json_wf = normalize_json_wf_aux(1)

lemma normalize_items_id:
  assumes "\<And>kv p. kv \<in> set kvs \<Longrightarrow> normalize_json E p (py_of_json (snd kv)) = Inr (snd kv)"
    and "json_wf E (JObj (acc @ kvs))"
  shows "normalize_items E path (map (\<lambda>kv. (PStr (fst kv), py_of_json (snd kv))) kvs) acc
           = Inr (JObj (acc @ kvs))"
  using assms
proof (induction kvs arbitrary: acc)
  case Nil
  then show ?case by simp
next
  case (Cons kv kvs)
  from Cons.prems(2) have "nfc E (path @ '' key'') False (PStr (fst kv)) = Inr (fst kv)"
    and "fst kv \<notin> fst ` set acc"
    by (auto simp: nfc_def)
  moreover have "normalize_items E path (map (\<lambda>kv. (PStr (fst kv), py_of_json (snd kv))) kvs)
      (acc @ [(fst kv, snd kv)]) = Inr (JObj ((acc @ [(fst kv, snd kv)]) @ kvs))"
    using Cons.prems by (intro Cons.IH) auto
  ultimately show ?case using Cons.prems(1) by simp
qed

lemma normalize_seq_id:
  assumes "\<And>x p. x \<in> set xs \<Longrightarrow> normalize_json E p (py_of_json x) = Inr x"
  shows "normalize_seq E path i (map py_of_json xs) = Inr xs"
  using assms by (induction xs arbitrary: i) auto

lemma normalize_json_id: "json_wf E j \<Longrightarrow> normalize_json E p (py_of_json j) = Inr j"
proof (induction j arbitrary: p)
  case (JArr js)
  then show ?case by (simp add: normalize_seq_id list_all_iff)
next
  case (JObj kvs)
  have "normalize_json E q (py_of_json (snd kv)) = Inr (snd kv)" if "kv \<in> set kvs" for kv q
    using JObj.IH [of kv "snd kv"] JObj.prems that by (cases kv) (auto simp: list_all_iff)
  with JObj.prems normalize_items_id [of kvs E "[]" p] show ?case by simp
qed (auto simp: result_simps safe_int_def)

lemma freeze_norm_id: "json_wf E j \<Longrightarrow> freeze_norm E j = Inr j"
proof (induction j)
  case (JArr js)
  then have "rtraverse (\<lambda>x. rbind (normalize_json E ''$'' (py_of_json x)) (freeze_norm E)) js
      = Inr (map (\<lambda>x. x) js)"
    by (intro rtraverse_total) (auto simp: list_all_iff normalize_json_id)
  then show ?case by simp
next
  case (JObj kvs)
  have "freeze_norm E (snd kv) = Inr (snd kv)" if "kv \<in> set kvs" for kv
    using JObj.IH [of kv "snd kv"] JObj.prems that by (cases kv) (auto simp: list_all_iff)
  with JObj.prems have "rtraverse (\<lambda>kv. rbind (normalize_json E ''$'' (py_of_json (snd kv))) (\<lambda>j.
              rbind (freeze_norm E j) (\<lambda>f. Inr (fst kv, f)))) kvs = Inr (map (\<lambda>kv. kv) kvs)"
    by (intro rtraverse_total) (auto simp: list_all_iff normalize_json_id)
  then show ?case by simp
qed simp_all

lemma freeze_wf: "nfc_laws E \<Longrightarrow> freeze E v = Inr j \<Longrightarrow> json_wf E j"
  by (auto simp: freeze_def result_simps freeze_norm_id dest!: normalize_json_wf)

lemma freeze_eq_normalize: "nfc_laws E \<Longrightarrow> freeze E v = normalize_json E ''$'' v"
  by (cases "normalize_json E ''$'' v") (auto simp: freeze_def freeze_norm_id dest: normalize_json_wf)

lemma thaw_eq: "thaw j = py_of_json j"
  by (induction j) auto

lemma thaw_freeze:
  assumes "nfc_laws E" and "freeze E v = Inr j"
  shows "normalize_json E p (thaw j) = Inr j"
  using freeze_wf [OF assms] by (simp add: thaw_eq normalize_json_id)

lemma canonical_json_sha256_re: "canonical_json_sha256 E v = Inr h \<Longrightarrow> sha256_re h"
  by (auto simp: canonical_json_sha256_def result_simps)

lemma canonical_json_sha256_total:
  assumes "nfc_laws E" and "jcs_total E" and "normalize_json E ''$'' v = Inr j"
  shows "\<exists>h. canonical_json_sha256 E v = Inr h"
proof -
  from assms(1,3) have "json_wf E j" by (rule normalize_json_wf)
  with assms(2) obtain b where "rfc8785_dumps E j = Some b" by (auto simp: jcs_total_def)
  with assms(3) show ?thesis by (simp add: canonical_json_sha256_def canonical_json_bytes_def)
qed

section \<open>Equality\<close>

text \<open>
  Python's \<open>==\<close> on two values: booleans and finite floats compare with integers by value, and
  mappings compare without regard to order.
\<close>

fun num_of :: "pyval \<Rightarrow> (int \<times> int) option" where
  "num_of (PBool b) = Some (of_bool b, 0)"
| "num_of (PInt i) = Some (i, 0)"
| "num_of (PFloat (FinFloat m e)) = Some (m, e)"
| "num_of _ = None"

fun num_eq :: "int \<times> int \<Rightarrow> int \<times> int \<Rightarrow> bool" where
  "num_eq (m, e) (n, f) =
     (if e \<le> f then m = n * 2 ^ nat (f - e) else m * 2 ^ nat (e - f) = n)"

definition py_eq_scalar :: "pyval \<Rightarrow> pyval \<Rightarrow> bool" where
  "py_eq_scalar a b =
     (case (num_of a, num_of b) of
        (Some m, Some n) \<Rightarrow> num_eq m n
      | _ \<Rightarrow> (case (a, b) of
               (PNone, PNone) \<Rightarrow> True
             | (PStr s, PStr t) \<Rightarrow> s = t
             | (PBytes s, PBytes t) \<Rightarrow> s = t
             | (PFloat PosInf, PFloat PosInf) \<Rightarrow> True
             | (PFloat NegInf, PFloat NegInf) \<Rightarrow> True
             | _ \<Rightarrow> False))"

fun py_eq :: "pyval \<Rightarrow> pyval \<Rightarrow> bool"
  and py_eq_seq :: "pyval list \<Rightarrow> pyval list \<Rightarrow> bool"
where
  "py_eq (PSeq xs) b = (case b of PSeq ys \<Rightarrow> py_eq_seq xs ys | _ \<Rightarrow> False)"
| "py_eq (PMap xs) b =
     (case b of
        PMap ys \<Rightarrow> length xs = length ys \<and>
          (\<forall>x \<in> set xs. \<exists>y \<in> set ys. fst x = fst y \<and> py_eq (snd x) (snd y))
      | _ \<Rightarrow> False)"
| "py_eq a b = py_eq_scalar a b"
| "py_eq_seq [] ys = (ys = [])"
| "py_eq_seq (x # xs) ys = (case ys of [] \<Rightarrow> False | y # ys' \<Rightarrow> py_eq x y \<and> py_eq_seq xs ys')"

text \<open>\<open>d.get(key)\<close> of a dictionary with string keys.\<close>

definition dict_get :: "(pyval \<times> pyval) list \<Rightarrow> string \<Rightarrow> pyval option" where
  "dict_get d key = map_of d (PStr key)"

end
