(* ===== verification/CanonicalTransition.thy ===== *)
theory CanonicalTransition
  imports PyJson
begin

text \<open>
  The data and policy primitives of \<open>src/hfa-core/src/hfa/authority/canonical_transition.py\<close>:
  aggregate identities, operation contracts, commands, entry contexts, canonical transition
  records, receipts, and the validators every stored record and receipt has to pass.

  Fields of a record or a receipt that Python leaves untyped until validation (they may come
  out of a decoded JSON document) are \<open>pyval\<close>; a command and an identity are typed, because
  their \<open>__post_init__\<close> has already checked and normalised them (\<open>make_identity\<close>,
  \<open>make_command\<close>, \<open>make_context\<close>).

  The lemmas invert each validator into the facts it establishes, and show that identity
  digests and transition identifiers are collision-free up to SHA-256.
\<close>

section \<open>Vocabulary\<close>

datatype aggregate_type = TASK | RUN

datatype operation_type =
    TASK_ADMIT | TASK_DISPATCH | TASK_CLAIM | TASK_HEARTBEAT | TASK_COMPLETE | TASK_FAIL
  | TASK_REQUEUE | TASK_CANCEL | TASK_DEPENDENCY_APPLY | RUN_CREATE | RUN_TERMINATE
  | LEGACY_RUN_COMPLETE | TERMINAL_DUPLICATE_CLEANUP | MESSAGE_APPEND | MESSAGE_ACK

datatype mutation_class =
    ACCEPTED_AUTHORITY_MUTATION | COORDINATION_ONLY_MUTATION | TRANSPORT_ONLY_MUTATION
  | UNSUPPORTED_LEGACY

fun aggregate_value :: "aggregate_type \<Rightarrow> string" where
  "aggregate_value TASK = ''task''"
| "aggregate_value RUN = ''run''"

fun operation_value :: "operation_type \<Rightarrow> string" where
  "operation_value TASK_ADMIT = ''TASK_ADMIT''"
| "operation_value TASK_DISPATCH = ''TASK_DISPATCH''"
| "operation_value TASK_CLAIM = ''TASK_CLAIM''"
| "operation_value TASK_HEARTBEAT = ''TASK_HEARTBEAT''"
| "operation_value TASK_COMPLETE = ''TASK_COMPLETE''"
| "operation_value TASK_FAIL = ''TASK_FAIL''"
| "operation_value TASK_REQUEUE = ''TASK_REQUEUE''"
| "operation_value TASK_CANCEL = ''TASK_CANCEL''"
| "operation_value TASK_DEPENDENCY_APPLY = ''TASK_DEPENDENCY_APPLY''"
| "operation_value RUN_CREATE = ''RUN_CREATE''"
| "operation_value RUN_TERMINATE = ''RUN_TERMINATE''"
| "operation_value LEGACY_RUN_COMPLETE = ''LEGACY_RUN_COMPLETE''"
| "operation_value TERMINAL_DUPLICATE_CLEANUP = ''TERMINAL_DUPLICATE_CLEANUP''"
| "operation_value MESSAGE_APPEND = ''MESSAGE_APPEND''"
| "operation_value MESSAGE_ACK = ''MESSAGE_ACK''"

definition all_operations :: "operation_type list" where
  "all_operations =
     [TASK_ADMIT, TASK_DISPATCH, TASK_CLAIM, TASK_HEARTBEAT, TASK_COMPLETE, TASK_FAIL,
      TASK_REQUEUE, TASK_CANCEL, TASK_DEPENDENCY_APPLY, RUN_CREATE, RUN_TERMINATE,
      LEGACY_RUN_COMPLETE, TERMINAL_DUPLICATE_CLEANUP, MESSAGE_APPEND, MESSAGE_ACK]"

text \<open>\<open>OperationType(value)\<close>: the member with that value, or \<open>ValueError\<close>.\<close>

definition coerce_operation :: "pyval \<Rightarrow> authority_error + operation_type" where
  "coerce_operation v =
     (case v of
        PStr s \<Rightarrow>
          (case find (\<lambda>op. operation_value op = s) all_operations of
             None \<Rightarrow> Inl UnsupportedOperation
           | Some op \<Rightarrow> Inr op)
      | _ \<Rightarrow> Inl UnsupportedOperation)"

section \<open>Operation contracts\<close>

record operation_contract =
  oc_operation_type :: operation_type
  oc_aggregate_type :: "aggregate_type option"
  oc_mutation_class :: mutation_class
  oc_allowed_previous_states :: "string option set"
  oc_allowed_next_states :: "string option set"
  oc_consumes_revision :: bool
  oc_operation_receipt_required :: bool
  oc_required_projection_intents :: "string set"
  oc_conditional_projection_intents :: "string set"

definition contract :: "operation_type \<Rightarrow> aggregate_type option \<Rightarrow> mutation_class \<Rightarrow>
    string option set \<Rightarrow> string option set \<Rightarrow> bool \<Rightarrow> bool \<Rightarrow> string set \<Rightarrow> string set \<Rightarrow> operation_contract" where
  "contract op ag mc before after consumes receipt req cond =
     \<lparr>oc_operation_type = op, oc_aggregate_type = ag, oc_mutation_class = mc,
      oc_allowed_previous_states = before, oc_allowed_next_states = after,
      oc_consumes_revision = consumes, oc_operation_receipt_required = receipt,
      oc_required_projection_intents = req, oc_conditional_projection_intents = cond\<rparr>"

fun operation_contracts :: "operation_type \<Rightarrow> operation_contract" where
  "operation_contracts TASK_ADMIT =
     contract TASK_ADMIT (Some TASK) ACCEPTED_AUTHORITY_MUTATION {None} {Some ''pending'', Some ''ready''}
       True True {} {''READY_QUEUE_IF_READY''}"
| "operation_contracts TASK_DISPATCH =
     contract TASK_DISPATCH (Some TASK) ACCEPTED_AUTHORITY_MUTATION {Some ''ready''} {Some ''scheduled''}
       True True {''CONTROL_NOTIFICATION'', ''TASK_REQUEST_MESSAGE''} {}"
| "operation_contracts TASK_CLAIM =
     contract TASK_CLAIM (Some TASK) ACCEPTED_AUTHORITY_MUTATION {Some ''scheduled''} {Some ''running''}
       True True {''RUNNING_SET''} {}"
| "operation_contracts TASK_HEARTBEAT =
     contract TASK_HEARTBEAT (Some TASK) COORDINATION_ONLY_MUTATION {Some ''running''} {Some ''running''}
       False False {''LIVENESS_TTL''} {}"
| "operation_contracts TASK_COMPLETE =
     contract TASK_COMPLETE (Some TASK) ACCEPTED_AUTHORITY_MUTATION {Some ''running''} {Some ''done''}
       True True {''OUTPUT_PROJECTION'', ''DEPENDENCY_FANOUT_INTENT''} {}"
| "operation_contracts TASK_FAIL =
     contract TASK_FAIL (Some TASK) ACCEPTED_AUTHORITY_MUTATION {Some ''running''} {Some ''failed''}
       True True {''DEPENDENCY_FAILURE_FANOUT_INTENT''} {}"
| "operation_contracts TASK_REQUEUE =
     contract TASK_REQUEUE (Some TASK) ACCEPTED_AUTHORITY_MUTATION {Some ''running''} {Some ''ready''}
       True True {''READY_QUEUE'', ''REQUEUE_NOTIFICATION''} {}"
| "operation_contracts TASK_CANCEL =
     contract TASK_CANCEL (Some TASK) ACCEPTED_AUTHORITY_MUTATION
       {Some ''pending'', Some ''ready'', Some ''scheduled'', Some ''running''} {Some ''skipped''}
       True True {''TERMINAL_PROJECTION''} {}"
| "operation_contracts TASK_DEPENDENCY_APPLY =
     contract TASK_DEPENDENCY_APPLY (Some TASK) ACCEPTED_AUTHORITY_MUTATION {Some ''pending''}
       {Some ''pending'', Some ''ready'', Some ''blocked_by_failure''}
       True True {} {''READY_QUEUE_IF_READY''}"
| "operation_contracts RUN_CREATE =
     contract RUN_CREATE (Some RUN) ACCEPTED_AUTHORITY_MUTATION {None} {Some ''pending''}
       True True {''RUN_STATUS_PROJECTION''} {}"
| "operation_contracts RUN_TERMINATE =
     contract RUN_TERMINATE (Some RUN) ACCEPTED_AUTHORITY_MUTATION {Some ''pending'', Some ''running''}
       {Some ''done'', Some ''failed''} True True {''RUN_RESULT_PROJECTION''} {}"
| "operation_contracts LEGACY_RUN_COMPLETE =
     contract LEGACY_RUN_COMPLETE (Some RUN) UNSUPPORTED_LEGACY {Some ''running''} {Some ''done''}
       False False {} {}"
| "operation_contracts TERMINAL_DUPLICATE_CLEANUP =
     contract TERMINAL_DUPLICATE_CLEANUP (Some TASK) TRANSPORT_ONLY_MUTATION {Some ''terminal''}
       {Some ''terminal''} False False {''AUDIT_INTENT'', ''AUDIT_OUTCOME''} {}"
| "operation_contracts MESSAGE_APPEND =
     contract MESSAGE_APPEND None TRANSPORT_ONLY_MUTATION {Some ''NOT_APPLICABLE''}
       {Some ''NOT_APPLICABLE''} False False {''STREAM_APPEND''} {}"
| "operation_contracts MESSAGE_ACK =
     contract MESSAGE_ACK None TRANSPORT_ONLY_MUTATION {Some ''NOT_APPLICABLE''}
       {Some ''NOT_APPLICABLE''} False False {''STREAM_ACK''} {}"

definition create_operations :: "operation_type set" where
  "create_operations = {TASK_ADMIT, RUN_CREATE}"

section \<open>Aggregate identity\<close>

record aggregate_identity =
  id_aggregate_type :: aggregate_type
  id_run_id :: string
  id_task_id :: "string option"

definition make_identity :: "externals \<Rightarrow> aggregate_type \<Rightarrow> pyval \<Rightarrow> pyval
    \<Rightarrow> authority_error + aggregate_identity" where
  "make_identity E ty run_id task_id =
     rbind (nfc E ''run_id'' False run_id) (\<lambda>r.
       case ty of
         TASK \<Rightarrow>
           (if task_id = PNone then Inl TaskIdentityRequiresTaskId
            else rbind (nfc E ''task_id'' False task_id) (\<lambda>t.
              Inr \<lparr>id_aggregate_type = TASK, id_run_id = r, id_task_id = Some t\<rparr>))
       | RUN \<Rightarrow>
           (if task_id \<noteq> PNone then Inl RunIdentityHasTaskId
            else Inr \<lparr>id_aggregate_type = RUN, id_run_id = r, id_task_id = None\<rparr>))"

definition opt_str :: "string option \<Rightarrow> pyval" where
  "opt_str s = (case s of None \<Rightarrow> PNone | Some t \<Rightarrow> PStr t)"

definition identity_value :: "aggregate_identity \<Rightarrow> string" where
  "identity_value i =
     (case id_aggregate_type i of
        TASK \<Rightarrow> ''task:'' @ id_run_id i @ '':'' @ (case id_task_id i of None \<Rightarrow> ''None'' | Some t \<Rightarrow> t)
      | RUN \<Rightarrow> ''run:'' @ id_run_id i)"

definition identity_structured :: "aggregate_identity \<Rightarrow> pyval" where
  "identity_structured i =
     PMap [(PStr ''aggregate_type'', PStr (aggregate_value (id_aggregate_type i))),
           (PStr ''run_id'', PStr (id_run_id i)),
           (PStr ''task_id'', opt_str (id_task_id i))]"

definition identity_sha256 :: "aggregate_identity \<Rightarrow> string" where
  "identity_sha256 i =
     component_digest [aggregate_value (id_aggregate_type i), id_run_id i,
       (case id_task_id i of None \<Rightarrow> [] | Some t \<Rightarrow> t)]"

section \<open>Projection intents\<close>

fun projection_kinds_from :: "externals \<Rightarrow> nat \<Rightarrow> string list \<Rightarrow> json list \<Rightarrow> authority_error + string list" where
  "projection_kinds_from E index kinds [] = Inr kinds"
| "projection_kinds_from E index kinds (item # items) =
     (case item of
        JObj kvs \<Rightarrow>
          rbind (nfc E (''projection intent '' @ dec_nat index @ ''.kind'') False
                   (case map_of kvs ''kind'' of None \<Rightarrow> PNone | Some k \<Rightarrow> py_of_json k)) (\<lambda>kind.
            if kind \<in> set kinds then Inl (DuplicateIntentKind kind)
            else projection_kinds_from E (Suc index) (kinds @ [kind]) items)
      | _ \<Rightarrow> Inl (IntentNotAnObject index))"

definition projection_kinds :: "externals \<Rightarrow> json list \<Rightarrow> authority_error + string list" where
  "projection_kinds E items = projection_kinds_from E 0 [] items"

definition validate_operation_contract :: "externals \<Rightarrow> operation_type \<Rightarrow> aggregate_type \<Rightarrow>
    string option \<Rightarrow> string option \<Rightarrow> json list \<Rightarrow> authority_error + operation_contract" where
  "validate_operation_contract E op ty previous_state next_state intents =
     (let c = operation_contracts op in
      if oc_aggregate_type c \<noteq> Some ty then Inl AggregateTypeMismatch
      else if previous_state \<notin> oc_allowed_previous_states c
              \<or> next_state \<notin> oc_allowed_next_states c then Inl IllegalOperationTransition
      else rbind (projection_kinds E intents) (\<lambda>actual.
        let expected = oc_required_projection_intents c
              \<union> (if next_state = Some ''ready'' then oc_conditional_projection_intents c else {})
        in if set actual \<noteq> expected then Inl IntentSetMismatch else Inr c))"

section \<open>Commands and entry contexts\<close>

record authority_command =
  cmd_identity :: aggregate_identity
  cmd_operation_type :: operation_type
  cmd_operation_id :: string
  cmd_expected_revision :: int
  cmd_previous_state :: "string option"
  cmd_next_state :: "string option"
  cmd_payload :: json
  cmd_metadata_changes :: json
  cmd_child_effects :: json
  cmd_projection_intents :: "json list"
  cmd_causation_id :: "string option"

definition opt_nfc :: "externals \<Rightarrow> string \<Rightarrow> pyval \<Rightarrow> authority_error + string option" where
  "opt_nfc E field_name v =
     (if v = PNone then Inr None else rbind (nfc E field_name False v) (\<lambda>s. Inr (Some s)))"

definition make_command :: "externals \<Rightarrow> aggregate_identity \<Rightarrow> pyval \<Rightarrow> pyval \<Rightarrow> pyval \<Rightarrow> pyval \<Rightarrow> pyval
    \<Rightarrow> pyval \<Rightarrow> pyval \<Rightarrow> pyval \<Rightarrow> pyval list \<Rightarrow> pyval \<Rightarrow> authority_error + authority_command" where
  "make_command E ident op_type op_id expected prev_state next_state payload meta effects intents causation =
     rbind (coerce_operation op_type) (\<lambda>op.
     rbind (nfc E ''operation_id'' False op_id) (\<lambda>oid.
     rbind (safe_int ''expected_revision'' 0 expected) (\<lambda>rev.
     rbind (opt_nfc E ''intended_previous_state'' prev_state) (\<lambda>prev.
     rbind (opt_nfc E ''intended_next_state'' next_state) (\<lambda>nxt.
     rbind (opt_nfc E ''causation_id'' causation) (\<lambda>caus.
     rbind (freeze E payload) (\<lambda>pl.
     rbind (freeze E meta) (\<lambda>me.
     rbind (freeze E effects) (\<lambda>ef.
     rbind (rtraverse (freeze E) intents) (\<lambda>ints.
     rbind (projection_kinds E ints) (\<lambda>_.
       Inr \<lparr>cmd_identity = ident, cmd_operation_type = op, cmd_operation_id = oid,
            cmd_expected_revision = rev, cmd_previous_state = prev, cmd_next_state = nxt,
            cmd_payload = pl, cmd_metadata_changes = me, cmd_child_effects = ef,
            cmd_projection_intents = ints, cmd_causation_id = caus\<rparr>)))))))))))"

definition command_hash_payload :: "authority_command \<Rightarrow> pyval" where
  "command_hash_payload c =
     PMap [(PStr ''aggregate_type'', PStr (aggregate_value (id_aggregate_type (cmd_identity c)))),
           (PStr ''canonical_aggregate_identity'', identity_structured (cmd_identity c)),
           (PStr ''canonical_aggregate_identity_sha256'', PStr (identity_sha256 (cmd_identity c))),
           (PStr ''operation_type'', PStr (operation_value (cmd_operation_type c))),
           (PStr ''operation_id'', PStr (cmd_operation_id c)),
           (PStr ''expected_revision'', PInt (cmd_expected_revision c)),
           (PStr ''intended_previous_state'', opt_str (cmd_previous_state c)),
           (PStr ''intended_next_state'', opt_str (cmd_next_state c)),
           (PStr ''authoritative_payload'', thaw (cmd_payload c)),
           (PStr ''authoritative_metadata_changes'', thaw (cmd_metadata_changes c)),
           (PStr ''requested_child_effects'', thaw (cmd_child_effects c)),
           (PStr ''requested_projection_intents'', PSeq (map thaw (cmd_projection_intents c))),
           (PStr ''causation_id'', opt_str (cmd_causation_id c))]"

definition command_hash :: "externals \<Rightarrow> authority_command \<Rightarrow> authority_error + string" where
  "command_hash E c = canonical_json_sha256 E (command_hash_payload c)"

record authority_context =
  ctx_writer_id :: string
  ctx_allowed_operations :: "operation_type set"
  ctx_target_sha256 :: string
  ctx_fence_required :: bool
  ctx_fence_valid :: bool

definition make_context :: "externals \<Rightarrow> pyval \<Rightarrow> operation_type set \<Rightarrow> pyval \<Rightarrow> pyval \<Rightarrow> pyval
    \<Rightarrow> authority_error + authority_context" where
  "make_context E writer ops target fence_required fence_valid =
     rbind (nfc E ''authenticated_writer_id'' False writer) (\<lambda>w.
     rbind (sha256_hex ''target_aggregate_identity_sha256'' target) (\<lambda>t.
     rbind (exact_bool ''fence_required'' fence_required) (\<lambda>fr.
     rbind (exact_bool ''fence_valid'' fence_valid) (\<lambda>fv.
       Inr \<lparr>ctx_writer_id = w, ctx_allowed_operations = ops, ctx_target_sha256 = t,
            ctx_fence_required = fr, ctx_fence_valid = fv\<rparr>))))"

definition permits :: "authority_context \<Rightarrow> authority_command \<Rightarrow> bool" where
  "permits x c \<longleftrightarrow>
     cmd_operation_type c \<in> ctx_allowed_operations x
     \<and> ctx_target_sha256 x = identity_sha256 (cmd_identity c)
     \<and> (\<not> ctx_fence_required x \<or> ctx_fence_valid x)"

definition transition_id :: "pyval \<Rightarrow> pyval \<Rightarrow> string \<Rightarrow> authority_error + string" where
  "transition_id identity_sha revision operation_id =
     rbind (sha256_hex ''identity_sha256'' identity_sha) (\<lambda>h.
     rbind (safe_int ''revision'' 1 revision) (\<lambda>r.
       Inr (''ctr:v1:'' @ h @ '':'' @ dec_int r @ '':'' @ component_digest [operation_id])))"

section \<open>Records and receipts\<close>

record ctr =
  rec_schema_version :: pyval
  rec_transition_id :: pyval
  rec_identity :: aggregate_identity
  rec_identity_sha256 :: pyval
  rec_from_revision :: pyval
  rec_to_revision :: pyval
  rec_operation_type :: pyval
  rec_operation_id :: pyval
  rec_command_hash :: pyval
  rec_record_hash :: pyval
  rec_previous_state :: pyval
  rec_next_state :: pyval
  rec_metadata_changes :: json
  rec_child_effects :: json
  rec_causation_id :: pyval
  rec_correlation_id :: pyval
  rec_writer_id :: pyval
  rec_committed_at_ms :: pyval
  rec_projection_intents :: "json list"

definition immutable_payload :: "ctr \<Rightarrow> pyval" where
  "immutable_payload r =
     PMap [(PStr ''schema_version'', rec_schema_version r),
           (PStr ''transition_id'', rec_transition_id r),
           (PStr ''aggregate_type'', PStr (aggregate_value (id_aggregate_type (rec_identity r)))),
           (PStr ''canonical_aggregate_identity'', identity_structured (rec_identity r)),
           (PStr ''canonical_aggregate_identity_sha256'', rec_identity_sha256 r),
           (PStr ''from_revision'', rec_from_revision r),
           (PStr ''to_revision'', rec_to_revision r),
           (PStr ''operation_type'', rec_operation_type r),
           (PStr ''operation_id'', rec_operation_id r),
           (PStr ''canonical_command_hash'', rec_command_hash r),
           (PStr ''previous_state'', rec_previous_state r),
           (PStr ''next_state'', rec_next_state r),
           (PStr ''authoritative_metadata_changes'', thaw (rec_metadata_changes r)),
           (PStr ''child_effects'', thaw (rec_child_effects r)),
           (PStr ''causation_id'', rec_causation_id r),
           (PStr ''correlation_id'', rec_correlation_id r),
           (PStr ''writer_id'', rec_writer_id r),
           (PStr ''committed_at_ms'', rec_committed_at_ms r),
           (PStr ''durable_projection_intents'', PSeq (map thaw (rec_projection_intents r)))]"

definition verify_hash :: "externals \<Rightarrow> ctr \<Rightarrow> bool" where
  "verify_hash E r =
     (case canonical_json_sha256 E (immutable_payload r) of
        Inl _ \<Rightarrow> False
      | Inr h \<Rightarrow> PStr h = rec_record_hash r)"

record operation_receipt =
  rcpt_operation_id :: pyval
  rcpt_command_hash :: pyval
  rcpt_record_hash :: pyval
  rcpt_transition_id :: pyval
  rcpt_aggregate_revision :: pyval
  rcpt_operation_type :: pyval
  rcpt_committed_at_ms :: pyval

record receipt_probe =
  probe_receipt :: operation_receipt
  probe_store_record :: "ctr option"

record commit_plan =
  plan_identity :: aggregate_identity
  plan_revision :: pyval
  plan_record :: ctr
  plan_receipt :: operation_receipt

text \<open>\<open>str_of\<close> reads a field that a preceding check has shown to be an exact string.\<close>

definition str_of :: "pyval \<Rightarrow> string" where
  "str_of v = (case v of PStr s \<Rightarrow> s | _ \<Rightarrow> [])"

definition opt_str_of :: "pyval \<Rightarrow> string option" where
  "opt_str_of v = (case v of PStr s \<Rightarrow> Some s | _ \<Rightarrow> None)"

definition validate_record :: "externals \<Rightarrow> ctr \<Rightarrow> authority_error + unit" where
  "validate_record E r =
     rbind (rguard (rec_schema_version r = PStr ''ctr.v1'') SchemaVersionMismatch) (\<lambda>_.
     rbind (rguard (rec_identity_sha256 r = PStr (identity_sha256 (rec_identity r))) IdentityHashMismatch) (\<lambda>_.
     rbind (safe_int ''from_revision'' 0 (rec_from_revision r)) (\<lambda>from_revision.
     rbind (safe_int ''to_revision'' 1 (rec_to_revision r)) (\<lambda>to_revision.
     rbind (rguard (to_revision = from_revision + 1) RevisionNotContiguous) (\<lambda>_.
     rbind (coerce_operation (rec_operation_type r)) (\<lambda>operation.
     rbind (nfc E ''record.operation_id'' False (rec_operation_id r)) (\<lambda>_.
     rbind (sha256_hex ''canonical_command_hash'' (rec_command_hash r)) (\<lambda>_.
     rbind (sha256_hex ''canonical_record_hash'' (rec_record_hash r)) (\<lambda>_.
     rbind (transition_id (rec_identity_sha256 r) (PInt to_revision) (str_of (rec_operation_id r))) (\<lambda>tid.
     rbind (rguard (rec_transition_id r = PStr tid) TransitionIdNotDeterministic) (\<lambda>_.
     rbind (opt_nfc E ''previous_state'' (rec_previous_state r)) (\<lambda>_.
     rbind (opt_nfc E ''next_state'' (rec_next_state r)) (\<lambda>_.
     rbind (validate_operation_contract E operation (id_aggregate_type (rec_identity r))
              (opt_str_of (rec_previous_state r)) (opt_str_of (rec_next_state r))
              (rec_projection_intents r)) (\<lambda>_.
     rbind (nfc E ''writer_id'' False (rec_writer_id r)) (\<lambda>_.
     rbind (safe_int ''committed_at_ms'' 0 (rec_committed_at_ms r)) (\<lambda>_.
     rbind (opt_nfc E ''causation_id'' (rec_causation_id r)) (\<lambda>_.
     rbind (opt_nfc E ''correlation_id'' (rec_correlation_id r)) (\<lambda>_.
       rguard (verify_hash E r) RecordHashMismatch))))))))))))))))))"

definition validate_receipt :: "externals \<Rightarrow> operation_receipt \<Rightarrow> authority_error + operation_type" where
  "validate_receipt E r =
     rbind (nfc E ''receipt.operation_id'' False (rcpt_operation_id r)) (\<lambda>_.
     rbind (sha256_hex ''receipt.canonical_command_hash'' (rcpt_command_hash r)) (\<lambda>_.
     rbind (sha256_hex ''receipt.canonical_record_hash'' (rcpt_record_hash r)) (\<lambda>_.
     rbind (nfc E ''receipt.transition_id'' False (rcpt_transition_id r)) (\<lambda>_.
     rbind (safe_int ''receipt.aggregate_revision'' 1 (rcpt_aggregate_revision r)) (\<lambda>_.
     rbind (safe_int ''receipt.committed_at_ms'' 0 (rcpt_committed_at_ms r)) (\<lambda>_.
       coerce_operation (rcpt_operation_type r)))))))"

text \<open>The seven-field agreement of a receipt with its record, checked in two places of the code.\<close>

definition receipt_matches :: "operation_receipt \<Rightarrow> ctr \<Rightarrow> bool" where
  "receipt_matches rc r \<longleftrightarrow>
     rcpt_operation_id rc = rec_operation_id r
     \<and> rcpt_operation_type rc = rec_operation_type r
     \<and> rcpt_aggregate_revision rc = rec_to_revision r
     \<and> rcpt_transition_id rc = rec_transition_id r
     \<and> rcpt_command_hash rc = rec_command_hash r
     \<and> rcpt_record_hash rc = rec_record_hash r
     \<and> rcpt_committed_at_ms rc = rec_committed_at_ms r"

definition validate_stored_duplicate_proof :: "externals \<Rightarrow> receipt_probe \<Rightarrow> string \<Rightarrow> string
    \<Rightarrow> authority_error + operation_receipt \<times> ctr" where
  "validate_stored_duplicate_proof E probe lookup_sha lookup_op =
     (let receipt = probe_receipt probe in
      rbind (validate_receipt E receipt) (\<lambda>_.
        case probe_store_record probe of
          None \<Rightarrow> Inl StoreRecordRequired
        | Some r \<Rightarrow>
            rbind (validate_record E r) (\<lambda>_.
            rbind (rguard (rec_identity_sha256 r = PStr lookup_sha) ProofAggregateMismatch) (\<lambda>_.
            rbind (rguard (rcpt_operation_id receipt = PStr lookup_op
                           \<and> rec_operation_id r = PStr lookup_op) ProofOperationMismatch) (\<lambda>_.
            rbind (rguard (receipt_matches receipt r) ReceiptRecordMismatch) (\<lambda>_.
              Inr (receipt, r)))))))"

section \<open>Vocabulary facts\<close>

lemma operation_value_inj: "operation_value a = operation_value b \<longleftrightarrow> a = b"
  by (cases a; cases b) simp_all

lemma coerce_operation_value [simp]: "coerce_operation (PStr (operation_value op)) = Inr op"
  by (cases op) (simp_all add: coerce_operation_def all_operations_def)

lemma coerce_operation_Inr_iff [result_simps]:
  "coerce_operation v = Inr op \<longleftrightarrow> v = PStr (operation_value op)"
proof
  assume "coerce_operation v = Inr op"
  then show "v = PStr (operation_value op)"
    by (auto simp: coerce_operation_def find_Some_iff split: pyval.splits option.splits)
qed simp

lemma opt_nfc_Inr_iff [result_simps]:
  "opt_nfc E fn v = Inr s \<longleftrightarrow>
     (v = PNone \<and> s = None) \<or> (\<exists>r. v = PStr r \<and> s = Some (nfc_normalize E r) \<and> nfc_normalize E r \<noteq> [])"
  by (auto simp: opt_nfc_def result_simps)

lemma opt_str_of_simps [simp]: "opt_str_of (PStr s) = Some s" "opt_str_of PNone = None"
  by (simp_all add: opt_str_of_def)

lemma opt_str_of_opt_str [simp]: "opt_str_of (opt_str s) = s"
  by (cases s) (simp_all add: opt_str_def opt_str_of_def)

lemma opt_str_simps [simp]: "opt_str None = PNone" "opt_str (Some t) = PStr t"
  by (simp_all add: opt_str_def)

lemma str_of_PStr [simp]: "str_of (PStr s) = s"
  by (simp add: str_of_def)

lemma contract_simps [simp]:
  "oc_operation_type (contract op ag mc b a cr rr req cond) = op"
  "oc_aggregate_type (contract op ag mc b a cr rr req cond) = ag"
  "oc_mutation_class (contract op ag mc b a cr rr req cond) = mc"
  "oc_allowed_previous_states (contract op ag mc b a cr rr req cond) = b"
  "oc_allowed_next_states (contract op ag mc b a cr rr req cond) = a"
  "oc_required_projection_intents (contract op ag mc b a cr rr req cond) = req"
  "oc_conditional_projection_intents (contract op ag mc b a cr rr req cond) = cond"
  by (simp_all add: contract_def)

lemma identity_sha256_re [simp]: "sha256_re (identity_sha256 i)"
  by (simp add: identity_sha256_def)

section \<open>Well-formed identities and digests\<close>

definition identity_wf :: "externals \<Rightarrow> aggregate_identity \<Rightarrow> bool" where
  "identity_wf E i \<longleftrightarrow>
     id_run_id i \<noteq> [] \<and> nfc_normalize E (id_run_id i) = id_run_id i
     \<and> (id_aggregate_type i = TASK \<longleftrightarrow> id_task_id i \<noteq> None)
     \<and> (case id_task_id i of None \<Rightarrow> True | Some t \<Rightarrow> t \<noteq> [] \<and> nfc_normalize E t = t)"

lemma make_identity_wf:
  assumes "nfc_laws E" and "make_identity E ty run task = Inr i"
  shows "identity_wf E i \<and> id_aggregate_type i = ty"
  using assms
  by (cases ty) (auto simp: make_identity_def identity_wf_def result_simps nfc_idem split: if_splits)

definition identity_bounded :: "aggregate_identity \<Rightarrow> bool" where
  "identity_bounded i \<longleftrightarrow> length (id_run_id i) < 2 ^ 64
     \<and> (case id_task_id i of None \<Rightarrow> True | Some t \<Rightarrow> length t < 2 ^ 64)"

definition identity_preimage :: "aggregate_identity \<Rightarrow> char list" where
  "identity_preimage i =
     concat (map length_prefixed_utf8 [aggregate_value (id_aggregate_type i), id_run_id i,
       (case id_task_id i of None \<Rightarrow> [] | Some t \<Rightarrow> t)])"

lemma identity_sha256_eqD:
  assumes eq: "identity_sha256 i = identity_sha256 j"
    and wf: "identity_wf E i" "identity_wf E j" and bd: "identity_bounded i" "identity_bounded j"
  shows "i = j \<or> sha256_collision (identity_preimage i) (identity_preimage j)"
proof -
  let ?parts = "\<lambda>k. [aggregate_value (id_aggregate_type k), id_run_id k,
      (case id_task_id k of None \<Rightarrow> [] | Some t \<Rightarrow> t)]"
  have small: "length (aggregate_value ty) < 2 ^ 64" for ty
    by (cases ty) simp_all
  have "?parts i = ?parts j \<or> sha256_collision (identity_preimage i) (identity_preimage j)"
    unfolding identity_preimage_def
  proof (rule component_digest_eqD)
    show "component_digest (?parts i) = component_digest (?parts j)"
      using eq by (simp add: identity_sha256_def)
    show "length c < 2 ^ 64" if "c \<in> set (?parts i) \<union> set (?parts j)" for c
      using that bd small by (auto simp: identity_bounded_def split: option.splits)
  qed
  moreover have "i = j" if "?parts i = ?parts j"
  proof -
    from that have "id_aggregate_type i = id_aggregate_type j"
      by (cases "id_aggregate_type i"; cases "id_aggregate_type j") simp_all
    with that wf show ?thesis
      by (cases i; cases j) (auto simp: identity_wf_def split: option.splits)
  qed
  ultimately show ?thesis by blast
qed

lemma transition_id_Inr_iff:
  "transition_id sha revision op = Inr t \<longleftrightarrow>
     (\<exists>h r. sha = PStr h \<and> sha256_re h \<and> revision = PInt r \<and> 1 \<le> r \<and> r \<le> max_safe_integer \<and>
        t = ''ctr:v1:'' @ h @ '':'' @ dec_int r @ '':'' @ component_digest [op])"
  by (auto simp: transition_id_def result_simps)

lemma transition_id_inj:
  assumes "transition_id sha revision op = Inr t" and "transition_id sha' revision' op' = Inr t"
    and "length op < 2 ^ 64" and "length op' < 2 ^ 64"
  shows "sha = sha' \<and> revision = revision'
         \<and> (op = op' \<or> sha256_collision (length_prefixed_utf8 op) (length_prefixed_utf8 op'))"
proof -
  from assms(1) obtain h r where 1: "sha = PStr h" "sha256_re h" "revision = PInt r" "1 \<le> r"
    "t = ''ctr:v1:'' @ h @ '':'' @ dec_int r @ '':'' @ component_digest [op]"
    by (auto simp: transition_id_Inr_iff)
  from assms(2) obtain h' r' where 2: "sha' = PStr h'" "sha256_re h'" "revision' = PInt r'" "1 \<le> r'"
    "t = ''ctr:v1:'' @ h' @ '':'' @ dec_int r' @ '':'' @ component_digest [op']"
    by (auto simp: transition_id_Inr_iff)
  from 1 2 have "h @ CHR '':'' # (dec_int r @ '':'' @ component_digest [op])
      = h' @ CHR '':'' # (dec_int r' @ '':'' @ component_digest [op'])"
    by simp
  from split_at_sep [OF this] sha256_re_no_colon 1(2) 2(2)
  have h: "h = h'" and rest: "dec_int r @ CHR '':'' # component_digest [op]
      = dec_int r' @ CHR '':'' # component_digest [op']"
    by simp_all
  have "CHR '':'' \<notin> set (dec_int k)" if "1 \<le> k" for k
    using that by (simp add: dec_int_def)
  with split_at_sep [OF rest] 1(4) 2(4) have "r = r'" and "component_digest [op] = component_digest [op']"
    by (simp_all add: dec_int_inj)
  with h 1 2 component_digest_eqD [of "[op]" "[op']"] assms(3,4) show ?thesis by auto
qed

section \<open>Validated contracts, records and receipts\<close>

lemma validate_operation_contract_Inr_iff:
  "validate_operation_contract E op ty prev nxt intents = Inr c \<longleftrightarrow>
     c = operation_contracts op \<and> oc_aggregate_type c = Some ty
     \<and> prev \<in> oc_allowed_previous_states c \<and> nxt \<in> oc_allowed_next_states c
     \<and> (\<exists>kinds. projection_kinds E intents = Inr kinds \<and>
          set kinds = oc_required_projection_intents c
            \<union> (if nxt = Some ''ready'' then oc_conditional_projection_intents c else {}))"
  by (auto simp: validate_operation_contract_def Let_def result_simps)

lemma validate_record_okD:
  assumes "validate_record E r = Inr u"
  obtains op from_rev where
    "rec_schema_version r = PStr ''ctr.v1''"
    "rec_identity_sha256 r = PStr (identity_sha256 (rec_identity r))"
    "rec_from_revision r = PInt from_rev" "0 \<le> from_rev" "from_rev + 1 \<le> max_safe_integer"
    "rec_to_revision r = PInt (from_rev + 1)"
    "rec_operation_type r = PStr (operation_value op)"
    "\<exists>oid. rec_operation_id r = PStr oid \<and>
       transition_id (rec_identity_sha256 r) (rec_to_revision r) oid = Inr (str_of (rec_transition_id r))
       \<and> rec_transition_id r = PStr (str_of (rec_transition_id r))"
    "\<exists>h. rec_command_hash r = PStr h \<and> sha256_re h"
    "\<exists>h. rec_record_hash r = PStr h \<and> sha256_re h"
    "validate_operation_contract E op (id_aggregate_type (rec_identity r))
       (opt_str_of (rec_previous_state r)) (opt_str_of (rec_next_state r))
       (rec_projection_intents r) = Inr (operation_contracts op)"
    "\<exists>ms. rec_committed_at_ms r = PInt ms \<and> 0 \<le> ms \<and> ms \<le> max_safe_integer"
    "verify_hash E r"
proof -
  from assms obtain f t op oid tid c where
    a: "rec_schema_version r = PStr ''ctr.v1''"
      "rec_identity_sha256 r = PStr (identity_sha256 (rec_identity r))"
      "safe_int ''from_revision'' 0 (rec_from_revision r) = Inr f"
      "safe_int ''to_revision'' 1 (rec_to_revision r) = Inr t" "t = f + 1"
      "coerce_operation (rec_operation_type r) = Inr op"
      "nfc E ''record.operation_id'' False (rec_operation_id r) = Inr oid"
      "is_ok (sha256_hex ''canonical_command_hash'' (rec_command_hash r))"
      "is_ok (sha256_hex ''canonical_record_hash'' (rec_record_hash r))"
      "transition_id (rec_identity_sha256 r) (PInt t) (str_of (rec_operation_id r)) = Inr tid"
      "rec_transition_id r = PStr tid"
      "validate_operation_contract E op (id_aggregate_type (rec_identity r))
         (opt_str_of (rec_previous_state r)) (opt_str_of (rec_next_state r))
         (rec_projection_intents r) = Inr c"
      "is_ok (safe_int ''committed_at_ms'' 0 (rec_committed_at_ms r))"
      "verify_hash E r"
    unfolding validate_record_def by (auto simp: rbind_Inr_iff)
  show thesis
    by (rule that [of f op]) (use a in \<open>auto simp: result_simps is_ok_iff validate_operation_contract_Inr_iff\<close>)
qed

lemma validate_receipt_Inr_iff:
  "validate_receipt E r = Inr op \<longleftrightarrow>
     is_ok (nfc E ''receipt.operation_id'' False (rcpt_operation_id r))
     \<and> is_ok (sha256_hex ''receipt.canonical_command_hash'' (rcpt_command_hash r))
     \<and> is_ok (sha256_hex ''receipt.canonical_record_hash'' (rcpt_record_hash r))
     \<and> is_ok (nfc E ''receipt.transition_id'' False (rcpt_transition_id r))
     \<and> is_ok (safe_int ''receipt.aggregate_revision'' 1 (rcpt_aggregate_revision r))
     \<and> is_ok (safe_int ''receipt.committed_at_ms'' 0 (rcpt_committed_at_ms r))
     \<and> rcpt_operation_type r = PStr (operation_value op)"
  unfolding validate_receipt_def by (auto simp: rbind_Inr_iff is_ok_iff coerce_operation_Inr_iff)

lemma validate_stored_duplicate_proof_Inr_iff:
  "validate_stored_duplicate_proof E probe sha oid = Inr (rc, r) \<longleftrightarrow>
     rc = probe_receipt probe \<and> probe_store_record probe = Some r
     \<and> is_ok (validate_receipt E rc) \<and> is_ok (validate_record E r)
     \<and> rec_identity_sha256 r = PStr sha \<and> rcpt_operation_id rc = PStr oid
     \<and> rec_operation_id r = PStr oid \<and> receipt_matches rc r"
  unfolding validate_stored_duplicate_proof_def Let_def
  by (auto simp: rbind_Inr_iff is_ok_iff split: option.splits)

end
