(* ===== verification/AuthorityEvaluation.thy ===== *)
theory AuthorityEvaluation
  imports CanonicalTransition
begin

text \<open>
  The evaluator of \<open>src/hfa-core/src/hfa/authority/canonical_transition.py\<close>: from a trusted
  context, a command, the current head and an optional stored receipt it produces a decision and,
  when the command is accepted, the commit plan (\<open>_new_record\<close>, \<open>_new_receipt\<close>,
  \<open>evaluate_authority_commit\<close>); the classification of a write to the canonical store; and the
  classification of a record that reaches a projection.

  The lemmas describe every branch of the evaluator. The properties show that an accepted plan
  is valid evidence that advances the head by one legal step, that the evaluator never plans
  anything else, that a stored proof always answers first (replays are \<open>ALREADY_APPLIED\<close>, a
  different command under the same operation id is a conflict), and that a projection driven by
  \<open>evaluate_projection_application\<close> applies each revision once, in order and without gaps.
\<close>

section \<open>Decisions\<close>

datatype decision_code =
    ACCEPTED | AUTHORITY_ENTRY_REJECTED | ALREADY_APPLIED | IDEMPOTENCY_CONFLICT
  | AGGREGATE_ALREADY_EXISTS_CONFLICT | STALE_REVISION_CONFLICT | FUTURE_REVISION_CONFLICT
  | ILLEGAL_STATE_TRANSITION | CANONICAL_RECORD_CORRUPTION_CONFLICT
  | OPERATION_NOT_AUTHORITY_MUTATION | UNSUPPORTED_LEGACY_OPERATION

datatype store_decision = INSERT | ALREADY_PRESENT | STORE_CORRUPTION_CONFLICT

datatype projection_decision =
    APPLY | DUPLICATE_NOOP | OLDER_REVISION_NOOP | GAP_FAIL_CLOSED_AND_REPLAY_REQUIRED
  | PROJECTION_CORRUPTION_CONFLICT

record authority_decision =
  dec_code :: decision_code
  dec_aggregate_mutation :: nat
  dec_revision_increment :: nat
  dec_canonical_record_count :: nat
  dec_return_existing_transition_id :: "pyval option"
  dec_durable_conflict_record :: bool
  dec_reconciliation_candidate :: bool

definition decision :: "decision_code \<Rightarrow> authority_decision" where
  "decision code =
     \<lparr>dec_code = code, dec_aggregate_mutation = 0, dec_revision_increment = 0,
      dec_canonical_record_count = 0, dec_return_existing_transition_id = None,
      dec_durable_conflict_record = False, dec_reconciliation_candidate = False\<rparr>"

record authority_evaluation =
  eval_decision :: authority_decision
  eval_commit_plan :: "commit_plan option"

definition refuse :: "authority_decision \<Rightarrow> authority_error + authority_evaluation" where
  "refuse d = Inr \<lparr>eval_decision = d, eval_commit_plan = None\<rparr>"

section \<open>Building the plan\<close>

definition provisional_record :: "authority_command \<Rightarrow> string \<Rightarrow> string \<Rightarrow> string \<Rightarrow> int \<Rightarrow> string option \<Rightarrow> ctr" where
  "provisional_record c cmd_hash tid writer committed_at_ms correlation_id =
     \<lparr>rec_schema_version = PStr ''ctr.v1'',
      rec_transition_id = PStr tid,
      rec_identity = cmd_identity c,
      rec_identity_sha256 = PStr (identity_sha256 (cmd_identity c)),
      rec_from_revision = PInt (cmd_expected_revision c),
      rec_to_revision = PInt (cmd_expected_revision c + 1),
      rec_operation_type = PStr (operation_value (cmd_operation_type c)),
      rec_operation_id = PStr (cmd_operation_id c),
      rec_command_hash = PStr cmd_hash,
      rec_record_hash = PStr (replicate 64 CHR ''0''),
      rec_previous_state = opt_str (cmd_previous_state c),
      rec_next_state = opt_str (cmd_next_state c),
      rec_metadata_changes = cmd_metadata_changes c,
      rec_child_effects = cmd_child_effects c,
      rec_causation_id = opt_str (cmd_causation_id c),
      rec_correlation_id = opt_str correlation_id,
      rec_writer_id = PStr writer,
      rec_committed_at_ms = PInt committed_at_ms,
      rec_projection_intents = cmd_projection_intents c\<rparr>"

definition new_record :: "externals \<Rightarrow> authority_command \<Rightarrow> string \<Rightarrow> int \<Rightarrow> string option
    \<Rightarrow> authority_error + ctr" where
  "new_record E c writer committed_at_ms correlation_id =
     rbind (transition_id (PStr (identity_sha256 (cmd_identity c)))
              (PInt (cmd_expected_revision c + 1)) (cmd_operation_id c)) (\<lambda>tid.
     rbind (command_hash E c) (\<lambda>ch.
       let provisional = provisional_record c ch tid writer committed_at_ms correlation_id in
       rbind (canonical_json_sha256 E (immutable_payload provisional)) (\<lambda>h.
         let r = provisional\<lparr>rec_record_hash := PStr h\<rparr> in
         rbind (validate_record E r) (\<lambda>_. Inr r))))"

definition new_receipt :: "ctr \<Rightarrow> operation_receipt" where
  "new_receipt r =
     \<lparr>rcpt_operation_id = rec_operation_id r, rcpt_command_hash = rec_command_hash r,
      rcpt_record_hash = rec_record_hash r, rcpt_transition_id = rec_transition_id r,
      rcpt_aggregate_revision = rec_to_revision r, rcpt_operation_type = rec_operation_type r,
      rcpt_committed_at_ms = rec_committed_at_ms r\<rparr>"

section \<open>The evaluator\<close>

text \<open>Receipt resolution: the branch taken when a stored receipt answers the command.\<close>

definition resolve_receipt :: "externals \<Rightarrow> authority_command \<Rightarrow> receipt_probe
    \<Rightarrow> authority_error + authority_evaluation" where
  "resolve_receipt E c probe =
     (case validate_stored_duplicate_proof E probe (identity_sha256 (cmd_identity c)) (cmd_operation_id c) of
        Inl _ \<Rightarrow>
          refuse ((decision CANONICAL_RECORD_CORRUPTION_CONFLICT)
            \<lparr>dec_durable_conflict_record := True, dec_reconciliation_candidate := True\<rparr>)
      | Inr (receipt, r) \<Rightarrow>
          rbind (command_hash E c) (\<lambda>ch.
            if rcpt_command_hash receipt \<noteq> PStr ch then
              refuse ((decision IDEMPOTENCY_CONFLICT)
                \<lparr>dec_durable_conflict_record := True, dec_reconciliation_candidate := True\<rparr>)
            else
              refuse ((decision ALREADY_APPLIED)
                \<lparr>dec_return_existing_transition_id := Some (rec_transition_id r)\<rparr>)))"

text \<open>The branches after receipt resolution: operation class, revision, state, contract, plan.\<close>

definition evaluate_fresh :: "externals \<Rightarrow> authority_context \<Rightarrow> authority_command \<Rightarrow> int \<Rightarrow> string option
    \<Rightarrow> int \<Rightarrow> string option \<Rightarrow> authority_error + authority_evaluation" where
  "evaluate_fresh E x c current_revision current_state committed_at_ms correlation_id =
     (let oc = operation_contracts (cmd_operation_type c) in
      if oc_mutation_class oc = UNSUPPORTED_LEGACY then refuse (decision UNSUPPORTED_LEGACY_OPERATION)
      else if oc_mutation_class oc \<noteq> ACCEPTED_AUTHORITY_MUTATION
        then refuse (decision OPERATION_NOT_AUTHORITY_MUTATION)
      else if current_revision < cmd_expected_revision c then
        refuse ((decision FUTURE_REVISION_CONFLICT)\<lparr>dec_reconciliation_candidate := True\<rparr>)
      else if current_revision > cmd_expected_revision c then
        (let is_create_conflict =
               cmd_operation_type c \<in> create_operations \<and> cmd_expected_revision c = 0;
             code = (if is_create_conflict then AGGREGATE_ALREADY_EXISTS_CONFLICT
                     else STALE_REVISION_CONFLICT)
         in refuse ((decision code)\<lparr>dec_durable_conflict_record := is_create_conflict\<rparr>))
      else if current_state \<noteq> cmd_previous_state c then refuse (decision ILLEGAL_STATE_TRANSITION)
      else if \<not> is_ok (validate_operation_contract E (cmd_operation_type c)
                 (id_aggregate_type (cmd_identity c)) current_state (cmd_next_state c)
                 (cmd_projection_intents c))
        then refuse (decision ILLEGAL_STATE_TRANSITION)
      else
        rbind (new_record E c (ctx_writer_id x) committed_at_ms correlation_id) (\<lambda>r.
          Inr \<lparr>eval_decision = (decision ACCEPTED)\<lparr>dec_aggregate_mutation := 1,
                 dec_revision_increment := 1, dec_canonical_record_count := 1\<rparr>,
               eval_commit_plan = Some \<lparr>plan_identity = cmd_identity c,
                 plan_revision = rec_to_revision r, plan_record = r, plan_receipt = new_receipt r\<rparr>\<rparr>))"

definition evaluate_authority_commit :: "externals \<Rightarrow> authority_context \<Rightarrow> authority_command \<Rightarrow> pyval
    \<Rightarrow> pyval \<Rightarrow> receipt_probe option \<Rightarrow> pyval \<Rightarrow> pyval \<Rightarrow> authority_error + authority_evaluation" where
  "evaluate_authority_commit E x c current_revision current_state probe committed_at_ms correlation_id =
     rbind (safe_int ''current_revision'' 0 current_revision) (\<lambda>revision.
     rbind (safe_int ''committed_at_ms'' 0 committed_at_ms) (\<lambda>committed.
     rbind (opt_nfc E ''current_state'' current_state) (\<lambda>state.
     rbind (opt_nfc E ''correlation_id'' correlation_id) (\<lambda>correlation.
       if \<not> permits x c then refuse (decision AUTHORITY_ENTRY_REJECTED)
       else case probe of
         Some p \<Rightarrow> resolve_receipt E c p
       | None \<Rightarrow> evaluate_fresh E x c revision state committed correlation))))"

definition evaluate_authority_command :: "externals \<Rightarrow> authority_context \<Rightarrow> authority_command \<Rightarrow> pyval
    \<Rightarrow> pyval \<Rightarrow> receipt_probe option \<Rightarrow> pyval \<Rightarrow> pyval \<Rightarrow> authority_error + authority_decision" where
  "evaluate_authority_command E x c current_revision st probe ms corr =
     rbind (evaluate_authority_commit E x c current_revision st probe ms corr) (\<lambda>ev. Inr (eval_decision ev))"

section \<open>Store writes and projections\<close>

definition classify_canonical_store_write :: "externals \<Rightarrow> ctr option \<Rightarrow> ctr \<Rightarrow> store_decision" where
  "classify_canonical_store_write E existing candidate =
     (if \<not> is_ok (validate_record E candidate) then STORE_CORRUPTION_CONFLICT
      else case existing of
        None \<Rightarrow> INSERT
      | Some r \<Rightarrow>
          if \<not> is_ok (validate_record E r) then STORE_CORRUPTION_CONFLICT
          else if rec_transition_id r \<noteq> rec_transition_id candidate then STORE_CORRUPTION_CONFLICT
          else if rec_record_hash r = rec_record_hash candidate
                  \<and> py_eq (immutable_payload r) (immutable_payload candidate)
            then ALREADY_PRESENT
          else STORE_CORRUPTION_CONFLICT)"

record projection_receipt =
  pr_identity_sha256 :: pyval
  pr_applied_revision :: pyval
  pr_applied_transition_id :: pyval
  pr_applied_record_hash :: pyval

definition make_projection_receipt :: "externals \<Rightarrow> pyval \<Rightarrow> pyval \<Rightarrow> pyval \<Rightarrow> pyval
    \<Rightarrow> authority_error + projection_receipt" where
  "make_projection_receipt E sha revision tid record_hash =
     rbind (sha256_hex ''canonical_aggregate_identity_sha256'' sha) (\<lambda>s.
     rbind (safe_int ''applied_revision'' 1 revision) (\<lambda>r.
     rbind (nfc E ''applied_transition_id'' False tid) (\<lambda>t.
     rbind (sha256_hex ''applied_record_hash'' record_hash) (\<lambda>h.
       Inr \<lparr>pr_identity_sha256 = PStr s, pr_applied_revision = PInt r,
            pr_applied_transition_id = PStr t, pr_applied_record_hash = PStr h\<rparr>))))"

definition int_of :: "pyval \<Rightarrow> int" where
  "int_of v = (case v of PInt i \<Rightarrow> i | _ \<Rightarrow> 0)"

definition evaluate_projection_application :: "externals \<Rightarrow> projection_receipt option \<Rightarrow> ctr
    \<Rightarrow> projection_decision" where
  "evaluate_projection_application E current incoming =
     (if \<not> is_ok (validate_record E incoming) then PROJECTION_CORRUPTION_CONFLICT
      else let to_revision = int_of (rec_to_revision incoming) in
      case current of
        None \<Rightarrow> (if to_revision = 1 then APPLY else GAP_FAIL_CLOSED_AND_REPLAY_REQUIRED)
      | Some p \<Rightarrow>
          (case rbind (sha256_hex ''canonical_aggregate_identity_sha256'' (pr_identity_sha256 p)) (\<lambda>s.
                rbind (safe_int ''applied_revision'' 1 (pr_applied_revision p)) (\<lambda>applied.
                rbind (nfc E ''applied_transition_id'' False (pr_applied_transition_id p)) (\<lambda>_.
                rbind (sha256_hex ''applied_record_hash'' (pr_applied_record_hash p)) (\<lambda>_.
                  Inr (s, applied))))) of
             Inl _ \<Rightarrow> PROJECTION_CORRUPTION_CONFLICT
           | Inr (current_identity, applied) \<Rightarrow>
               if PStr current_identity \<noteq> rec_identity_sha256 incoming then PROJECTION_CORRUPTION_CONFLICT
               else if to_revision = applied then
                 (if rec_transition_id incoming = pr_applied_transition_id p
                     \<and> rec_record_hash incoming = pr_applied_record_hash p
                  then DUPLICATE_NOOP else PROJECTION_CORRUPTION_CONFLICT)
               else if to_revision < applied then OLDER_REVISION_NOOP
               else if to_revision = applied + 1 then APPLY
               else GAP_FAIL_CLOSED_AND_REPLAY_REQUIRED))"

section \<open>Well-formed commands\<close>

definition opt_wf :: "externals \<Rightarrow> string option \<Rightarrow> bool" where
  "opt_wf E s = (case s of None \<Rightarrow> True | Some t \<Rightarrow> t \<noteq> [] \<and> nfc_normalize E t = t)"

definition command_wf :: "externals \<Rightarrow> authority_command \<Rightarrow> bool" where
  "command_wf E c \<longleftrightarrow>
     identity_wf E (cmd_identity c)
     \<and> cmd_operation_id c \<noteq> [] \<and> nfc_normalize E (cmd_operation_id c) = cmd_operation_id c
     \<and> 0 \<le> cmd_expected_revision c \<and> cmd_expected_revision c \<le> max_safe_integer
     \<and> opt_wf E (cmd_previous_state c) \<and> opt_wf E (cmd_next_state c) \<and> opt_wf E (cmd_causation_id c)
     \<and> json_wf E (cmd_payload c) \<and> json_wf E (cmd_metadata_changes c) \<and> json_wf E (cmd_child_effects c)
     \<and> list_all (json_wf E) (cmd_projection_intents c)
     \<and> is_ok (projection_kinds E (cmd_projection_intents c))"

lemma opt_nfc_wf: "nfc_laws E \<Longrightarrow> opt_nfc E fn v = Inr s \<Longrightarrow> opt_wf E s"
  by (auto simp: result_simps opt_wf_def nfc_idem)

lemma opt_nfc_opt_str: "opt_wf E s \<Longrightarrow> opt_nfc E fn (opt_str s) = Inr s"
  by (cases s) (auto simp: opt_wf_def opt_nfc_def nfc_def)

lemma rtraverse_freeze_wf:
  "nfc_laws E \<Longrightarrow> rtraverse (freeze E) vs = Inr js \<Longrightarrow> list_all (json_wf E) js"
  by (auto simp: list_all_iff dest!: rtraverse_imgD intro: freeze_wf)

lemma make_command_wf:
  assumes "nfc_laws E" and "identity_wf E i"
    and "make_command E i op oid expected prev nxt payload meta effects intents caus = Inr c"
  shows "command_wf E c"
  using assms unfolding make_command_def
  by (auto simp: rbind_Inr_iff command_wf_def nfc_Inr_iff safe_int_Inr_iff nfc_idem is_ok_iff
      dest: freeze_wf opt_nfc_wf rtraverse_freeze_wf)

section \<open>Payloads as JSON\<close>

text \<open>Both hash payloads of a well-formed command are images of well-formed JSON objects.\<close>

definition opt_json :: "string option \<Rightarrow> json" where
  "opt_json s = (case s of None \<Rightarrow> JNull | Some t \<Rightarrow> JStr t)"

lemma opt_json_simps [simp]:
  "py_of_json (opt_json s) = opt_str s" "opt_wf E s \<Longrightarrow> json_wf E (opt_json s)"
  by (auto simp: opt_json_def opt_wf_def split: option.splits)

definition identity_json :: "aggregate_identity \<Rightarrow> json" where
  "identity_json i =
     JObj [(''aggregate_type'', JStr (aggregate_value (id_aggregate_type i))),
           (''run_id'', JStr (id_run_id i)), (''task_id'', opt_json (id_task_id i))]"

definition command_json :: "authority_command \<Rightarrow> json" where
  "command_json c =
     JObj [(''aggregate_type'', JStr (aggregate_value (id_aggregate_type (cmd_identity c)))),
           (''canonical_aggregate_identity'', identity_json (cmd_identity c)),
           (''canonical_aggregate_identity_sha256'', JStr (identity_sha256 (cmd_identity c))),
           (''operation_type'', JStr (operation_value (cmd_operation_type c))),
           (''operation_id'', JStr (cmd_operation_id c)),
           (''expected_revision'', JInt (cmd_expected_revision c)),
           (''intended_previous_state'', opt_json (cmd_previous_state c)),
           (''intended_next_state'', opt_json (cmd_next_state c)),
           (''authoritative_payload'', cmd_payload c),
           (''authoritative_metadata_changes'', cmd_metadata_changes c),
           (''requested_child_effects'', cmd_child_effects c),
           (''requested_projection_intents'', JArr (cmd_projection_intents c)),
           (''causation_id'', opt_json (cmd_causation_id c))]"

definition record_json :: "authority_command \<Rightarrow> string \<Rightarrow> string \<Rightarrow> string \<Rightarrow> int \<Rightarrow> string option \<Rightarrow> json" where
  "record_json c cmd_hash tid writer committed_at_ms correlation_id =
     JObj [(''schema_version'', JStr ''ctr.v1''),
           (''transition_id'', JStr tid),
           (''aggregate_type'', JStr (aggregate_value (id_aggregate_type (cmd_identity c)))),
           (''canonical_aggregate_identity'', identity_json (cmd_identity c)),
           (''canonical_aggregate_identity_sha256'', JStr (identity_sha256 (cmd_identity c))),
           (''from_revision'', JInt (cmd_expected_revision c)),
           (''to_revision'', JInt (cmd_expected_revision c + 1)),
           (''operation_type'', JStr (operation_value (cmd_operation_type c))),
           (''operation_id'', JStr (cmd_operation_id c)),
           (''canonical_command_hash'', JStr cmd_hash),
           (''previous_state'', opt_json (cmd_previous_state c)),
           (''next_state'', opt_json (cmd_next_state c)),
           (''authoritative_metadata_changes'', cmd_metadata_changes c),
           (''child_effects'', cmd_child_effects c),
           (''causation_id'', opt_json (cmd_causation_id c)),
           (''correlation_id'', opt_json correlation_id),
           (''writer_id'', JStr writer),
           (''committed_at_ms'', JInt committed_at_ms),
           (''durable_projection_intents'', JArr (cmd_projection_intents c))]"

lemma map_thaw [simp]: "map thaw js = map py_of_json js"
  by (simp add: thaw_eq)

lemma identity_json_py: "py_of_json (identity_json i) = identity_structured i"
  by (simp add: identity_json_def identity_structured_def)

lemma command_json_py: "py_of_json (command_json c) = command_hash_payload c"
  by (simp add: command_json_def command_hash_payload_def identity_json_py thaw_eq)

lemma record_json_py:
  "py_of_json (record_json c ch tid w ms corr) = immutable_payload (provisional_record c ch tid w ms corr)"
  by (simp add: record_json_def immutable_payload_def provisional_record_def identity_json_py thaw_eq)

lemma lower_hex_ascii: "list_all is_lower_hex s \<Longrightarrow> is_ascii s"
proof -
  have "is_ascii ''0123456789abcdef''" by (simp add: is_ascii_def)
  then have "is_lower_hex c \<Longrightarrow> (of_char c :: nat) < 128" for c
    unfolding is_lower_hex_def by (rule is_ascii_mem)
  then show "list_all is_lower_hex s \<Longrightarrow> is_ascii s" by (auto simp: is_ascii_def list_all_iff)
qed

lemma sha256_re_ascii: "sha256_re s \<Longrightarrow> is_ascii s"
  by (simp add: sha256_re_def lower_hex_ascii)

lemma dec_nat_ascii: "is_ascii (dec_nat n)"
  using dec_nat_digits by (fastforce simp: is_ascii_def list_all_iff is_digit_def)

lemma dec_int_ascii: "is_ascii (dec_int i)"
  using dec_nat_ascii by (simp add: dec_int_def is_ascii_def)

lemma aggregate_value_ascii: "is_ascii (aggregate_value ty)"
  by (cases ty) (simp_all add: is_ascii_def)

lemma operation_value_ascii: "is_ascii (operation_value op)"
  by (cases op) (simp_all add: is_ascii_def)

lemma transition_id_ascii: "transition_id sha revision op = Inr t \<Longrightarrow> is_ascii t \<and> t \<noteq> []"
proof -
  have "is_ascii ''ctr:v1:''" "is_ascii '':''" by (simp_all add: is_ascii_def)
  then show "transition_id sha revision op = Inr t \<Longrightarrow> is_ascii t \<and> t \<noteq> []"
    by (auto simp: transition_id_Inr_iff sha256_re_ascii dec_int_ascii simp del: append.simps)
qed

lemma identity_json_wf:
  assumes "nfc_laws E" and "identity_wf E i"
  shows "json_wf E (identity_json i)"
proof -
  have "nfc_normalize E k = k" if "k \<in> {''aggregate_type'', ''run_id'', ''task_id''}" for k
    using that nfc_ascii [OF assms(1)] by (auto simp: is_ascii_def)
  moreover have "opt_wf E (id_task_id i)"
    using assms(2) by (auto simp: identity_wf_def opt_wf_def split: option.splits)
  ultimately show ?thesis
    using assms nfc_ascii [OF assms(1) aggregate_value_ascii]
    by (simp add: identity_json_def identity_wf_def)
qed

lemma json_wf_ascii_keys:
  assumes "nfc_laws E" and "distinct (map fst kvs)"
    and "list_all (\<lambda>k. k \<noteq> [] \<and> is_ascii k) (map fst kvs)" and "list_all (json_wf E) (map snd kvs)"
  shows "json_wf E (JObj kvs)"
  using assms nfc_ascii [OF assms(1)] by (auto simp: list_all_iff)

lemma command_json_wf:
  assumes "nfc_laws E" and "command_wf E c"
  shows "json_wf E (command_json c)"
  unfolding command_json_def
proof (rule json_wf_ascii_keys [OF assms(1)], goal_cases)
  case 1
  show ?case by simp
next
  case 2
  show ?case by (simp add: is_ascii_def)
next
  case 3
  show ?case
    using assms nfc_ascii [OF assms(1) aggregate_value_ascii] nfc_ascii [OF assms(1) operation_value_ascii]
      nfc_ascii [OF assms(1) sha256_re_ascii [OF identity_sha256_re]]
    by (simp add: command_wf_def identity_json_wf max_safe_integer_def)
qed

lemma record_json_wf:
  assumes laws: "nfc_laws E" and wf: "command_wf E c" and "cmd_expected_revision c < max_safe_integer"
    and "sha256_re ch" and "is_ascii tid" and "nfc_normalize E w = w"
    and "0 \<le> ms" and "ms \<le> max_safe_integer" and "opt_wf E corr"
  shows "json_wf E (record_json c ch tid w ms corr)"
  unfolding record_json_def
proof (rule json_wf_ascii_keys [OF laws], goal_cases)
  case 1
  show ?case by simp
next
  case 2
  show ?case by (simp add: is_ascii_def)
next
  case 3
  have "nfc_normalize E ''ctr.v1'' = ''ctr.v1''" by (rule nfc_ascii [OF laws]) (simp add: is_ascii_def)
  then show ?case
    using assms nfc_ascii [OF laws aggregate_value_ascii] nfc_ascii [OF laws operation_value_ascii]
      nfc_ascii [OF laws sha256_re_ascii [OF identity_sha256_re]]
      nfc_ascii [OF laws sha256_re_ascii [OF assms(4)]] nfc_ascii [OF laws assms(5)]
    by (simp add: command_wf_def identity_json_wf max_safe_integer_def)
qed

lemma command_hash_total:
  assumes "nfc_laws E" and "jcs_total E" and "command_wf E c"
  shows "\<exists>h. command_hash E c = Inr h \<and> sha256_re h"
proof -
  have "normalize_json E ''$'' (command_hash_payload c) = Inr (command_json c)"
    using command_json_wf [OF assms(1,3)] by (metis command_json_py normalize_json_id)
  from canonical_json_sha256_total [OF assms(1,2) this]
  show ?thesis by (auto simp: command_hash_def dest: canonical_json_sha256_re)
qed

section \<open>New records are valid\<close>

lemma immutable_payload_record_hash [simp]:
  "immutable_payload (r\<lparr>rec_record_hash := h\<rparr>) = immutable_payload r"
  by (simp add: immutable_payload_def identity_structured_def)

lemma new_record_okD:
  assumes "new_record E c w ms corr = Inr r"
  obtains tid ch h where
    "transition_id (PStr (identity_sha256 (cmd_identity c))) (PInt (cmd_expected_revision c + 1))
       (cmd_operation_id c) = Inr tid"
    "command_hash E c = Inr ch"
    "canonical_json_sha256 E (immutable_payload (provisional_record c ch tid w ms corr)) = Inr h"
    "r = (provisional_record c ch tid w ms corr)\<lparr>rec_record_hash := PStr h\<rparr>"
    "validate_record E r = Inr ()"
  using assms by (auto simp: new_record_def rbind_Inr_iff Let_def)

lemma new_record_total:
  assumes laws: "nfc_laws E" and jcs: "jcs_total E" and wf: "command_wf E c"
    and room: "cmd_expected_revision c < max_safe_integer"
    and w: "w \<noteq> []" "nfc_normalize E w = w"
    and ms: "0 \<le> ms" "ms \<le> max_safe_integer" and corr: "opt_wf E corr"
    and con: "is_ok (validate_operation_contract E (cmd_operation_type c)
      (id_aggregate_type (cmd_identity c)) (cmd_previous_state c) (cmd_next_state c)
      (cmd_projection_intents c))"
  shows "\<exists>r. new_record E c w ms corr = Inr r"
proof -
  have rev: "0 \<le> cmd_expected_revision c" using wf by (simp add: command_wf_def)
  obtain tid where tid: "transition_id (PStr (identity_sha256 (cmd_identity c)))
      (PInt (cmd_expected_revision c + 1)) (cmd_operation_id c) = Inr tid"
    using room rev by (auto simp: transition_id_Inr_iff)
  obtain ch where ch: "command_hash E c = Inr ch" "sha256_re ch"
    using command_hash_total [OF laws jcs wf] by blast
  let ?p = "provisional_record c ch tid w ms corr"
  have "json_wf E (record_json c ch tid w ms corr)"
    using record_json_wf [OF laws wf room ch(2) _ w(2) ms corr] transition_id_ascii [OF tid] by blast
  then have "normalize_json E ''$'' (immutable_payload ?p) = Inr (record_json c ch tid w ms corr)"
    by (metis normalize_json_id record_json_py)
  then obtain h where h: "canonical_json_sha256 E (immutable_payload ?p) = Inr h"
    using canonical_json_sha256_total [OF laws jcs] by blast
  let ?r = "?p\<lparr>rec_record_hash := PStr h\<rparr>"
  have con': "\<exists>oc. validate_operation_contract E (cmd_operation_type c)
      (id_aggregate_type (cmd_identity c)) (cmd_previous_state c) (cmd_next_state c)
      (cmd_projection_intents c) = Inr oc"
    using con by (simp add: is_ok_iff)
  have "verify_hash E ?r" using h by (simp add: verify_hash_def)
  then have "validate_record E ?r = Inr ()"
    using wf room rev tid ch canonical_json_sha256_re [OF h] w ms corr con'
    unfolding validate_record_def rbind_Inr_iff
    by (auto simp: provisional_record_def command_wf_def result_simps opt_nfc_opt_str nfc_def)
  then show ?thesis using tid ch h by (auto simp: new_record_def Let_def)
qed

section \<open>Branches of the evaluator\<close>

definition accepted_decision :: authority_decision where
  "accepted_decision = (decision ACCEPTED)\<lparr>dec_aggregate_mutation := 1,
     dec_revision_increment := 1, dec_canonical_record_count := 1\<rparr>"

definition plan_of :: "authority_command \<Rightarrow> ctr \<Rightarrow> commit_plan" where
  "plan_of c r = \<lparr>plan_identity = cmd_identity c, plan_revision = rec_to_revision r,
     plan_record = r, plan_receipt = new_receipt r\<rparr>"

lemma decision_simps [simp]:
  "dec_code (decision k) = k" "dec_aggregate_mutation (decision k) = 0"
  "dec_revision_increment (decision k) = 0" "dec_canonical_record_count (decision k) = 0"
  "dec_return_existing_transition_id (decision k) = None"
  "dec_durable_conflict_record (decision k) = False"
  "dec_reconciliation_candidate (decision k) = False"
  by (simp_all add: decision_def)

lemma plan_of_simps [simp]:
  "plan_record (plan_of c r) = r" "plan_receipt (plan_of c r) = new_receipt r"
  "plan_revision (plan_of c r) = rec_to_revision r" "plan_identity (plan_of c r) = cmd_identity c"
  by (simp_all add: plan_of_def)

lemma evaluate_fresh_planD:
  assumes "evaluate_fresh E x c n st ms corr = Inr ev" and "eval_commit_plan ev = Some plan"
  shows "\<exists>r. new_record E c (ctx_writer_id x) ms corr = Inr r
    \<and> ev = \<lparr>eval_decision = accepted_decision, eval_commit_plan = Some (plan_of c r)\<rparr>
    \<and> plan = plan_of c r
    \<and> oc_mutation_class (operation_contracts (cmd_operation_type c)) = ACCEPTED_AUTHORITY_MUTATION
    \<and> n = cmd_expected_revision c \<and> st = cmd_previous_state c
    \<and> is_ok (validate_operation_contract E (cmd_operation_type c)
          (id_aggregate_type (cmd_identity c)) st (cmd_next_state c) (cmd_projection_intents c))"
  using assms
  by (auto simp: evaluate_fresh_def refuse_def Let_def rbind_Inr_iff accepted_decision_def plan_of_def
      split: if_splits)

lemma resolve_receipt_no_plan:
  "resolve_receipt E c p = Inr ev \<Longrightarrow> eval_commit_plan ev = None"
  by (auto simp: resolve_receipt_def refuse_def rbind_Inr_iff split: sum.splits if_splits)

lemma evaluate_planD:
  assumes "evaluate_authority_commit E x c cr st probe ms corr = Inr ev"
    and "eval_commit_plan ev = Some plan"
  obtains n s k m r where
    "cr = PInt n" "opt_nfc E ''current_state'' st = Inr s" "ms = PInt m"
    "opt_nfc E ''correlation_id'' corr = Inr k" "permits x c" "probe = None"
    "evaluate_fresh E x c n s m k = Inr ev"
  using assms resolve_receipt_no_plan
  unfolding evaluate_authority_commit_def
  by (auto simp: rbind_Inr_iff refuse_def safe_int_Inr_iff split: if_splits option.splits)

lemma new_receipt_simps [simp]:
  "rcpt_operation_id (new_receipt r) = rec_operation_id r"
  "rcpt_command_hash (new_receipt r) = rec_command_hash r"
  by (simp_all add: new_receipt_def)

lemma new_receipt_matches: "receipt_matches (new_receipt r) r"
  by (simp add: receipt_matches_def new_receipt_def)

lemma new_receipt_valid:
  assumes laws: "nfc_laws E" and "validate_record E r = Inr u"
  shows "is_ok (validate_receipt E (new_receipt r))"
  using assms(2)
proof (rule validate_record_okD)
  fix op f
  assume a: "rec_from_revision r = PInt f" "0 \<le> f" "f + 1 \<le> max_safe_integer"
    "rec_to_revision r = PInt (f + 1)" "rec_operation_type r = PStr (operation_value op)"
    "\<exists>oid. rec_operation_id r = PStr oid \<and>
       transition_id (rec_identity_sha256 r) (rec_to_revision r) oid = Inr (str_of (rec_transition_id r))
       \<and> rec_transition_id r = PStr (str_of (rec_transition_id r))"
    "\<exists>h. rec_command_hash r = PStr h \<and> sha256_re h" "\<exists>h. rec_record_hash r = PStr h \<and> sha256_re h"
    "\<exists>ms. rec_committed_at_ms r = PInt ms \<and> 0 \<le> ms \<and> ms \<le> max_safe_integer"
  from a(6) obtain tid where tid: "rec_transition_id r = PStr tid" "is_ascii tid" "tid \<noteq> []"
    using transition_id_ascii by (metis str_of_PStr)
  have "is_ok (nfc E ''receipt.operation_id'' False (rec_operation_id r))"
    using assms(2) by (auto simp: validate_record_def rbind_Inr_iff nfc_Inr_iff is_ok_iff)
  with a tid nfc_ascii [OF laws tid(2)] show ?thesis
    by (auto simp: is_ok_iff validate_receipt_Inr_iff new_receipt_def result_simps)
qed

text \<open>Stored evidence of an accepted plan resolves every later command under its operation id.\<close>

definition stored_probe :: "commit_plan \<Rightarrow> receipt_probe" where
  "stored_probe plan = \<lparr>probe_receipt = plan_receipt plan, probe_store_record = Some (plan_record plan)\<rparr>"

lemma new_record_fields:
  assumes "new_record E c w ms corr = Inr r"
  shows "rec_identity_sha256 r = PStr (identity_sha256 (cmd_identity c))"
    "rec_operation_id r = PStr (cmd_operation_id c)"
    "\<exists>ch. command_hash E c = Inr ch \<and> rec_command_hash r = PStr ch"
    "rec_previous_state r = opt_str (cmd_previous_state c)"
    "rec_next_state r = opt_str (cmd_next_state c)"
    "rec_from_revision r = PInt (cmd_expected_revision c)"
    "rec_to_revision r = PInt (cmd_expected_revision c + 1)"
    "rec_operation_type r = PStr (operation_value (cmd_operation_type c))"
    "rec_identity r = cmd_identity c" "validate_record E r = Inr ()"
  using assms by (auto elim!: new_record_okD simp: provisional_record_def)

lemma resolve_stored_probe:
  assumes laws: "nfc_laws E" and r: "new_record E c w ms corr = Inr r"
    and same: "cmd_identity c' = cmd_identity c" "cmd_operation_id c' = cmd_operation_id c"
    and ch: "command_hash E c' = Inr ch"
  shows "resolve_receipt E c' (stored_probe (plan_of c r)) =
    (if rec_command_hash r = PStr ch
     then refuse ((decision ALREADY_APPLIED)\<lparr>dec_return_existing_transition_id := Some (rec_transition_id r)\<rparr>)
     else refuse ((decision IDEMPOTENCY_CONFLICT)
            \<lparr>dec_durable_conflict_record := True, dec_reconciliation_candidate := True\<rparr>))"
proof -
  have "validate_stored_duplicate_proof E (stored_probe (plan_of c r))
      (identity_sha256 (cmd_identity c')) (cmd_operation_id c') = Inr (new_receipt r, r)"
    using new_record_fields [OF r] new_receipt_valid [OF laws] same new_receipt_matches
    by (auto simp: validate_stored_duplicate_proof_Inr_iff stored_probe_def)
  then show ?thesis
    using ch by (simp add: resolve_receipt_def)
qed

text \<open>The whole accepting path, with the record it builds.\<close>

lemma evaluate_legal:
  assumes "nfc_laws E" and "jcs_total E" and "command_wf E c" and "permits x c"
    and "ctx_writer_id x \<noteq> []" and "nfc_normalize E (ctx_writer_id x) = ctx_writer_id x"
    and "oc_mutation_class (operation_contracts (cmd_operation_type c)) = ACCEPTED_AUTHORITY_MUTATION"
    and "cmd_expected_revision c < max_safe_integer"
    and "is_ok (validate_operation_contract E (cmd_operation_type c)
      (id_aggregate_type (cmd_identity c)) (cmd_previous_state c) (cmd_next_state c)
      (cmd_projection_intents c))"
    and "0 \<le> ms" and "ms \<le> max_safe_integer" and "opt_wf E corr"
  shows "\<exists>r. new_record E c (ctx_writer_id x) ms corr = Inr r
    \<and> evaluate_authority_commit E x c (PInt (cmd_expected_revision c))
      (opt_str (cmd_previous_state c)) None (PInt ms) (opt_str corr)
      = Inr \<lparr>eval_decision = accepted_decision, eval_commit_plan = Some (plan_of c r)\<rparr>"
proof -
  obtain r where "new_record E c (ctx_writer_id x) ms corr = Inr r"
    using new_record_total [OF assms(1-3,8,5,6,10-12,9)] by blast
  moreover have "opt_wf E (cmd_previous_state c)" "0 \<le> cmd_expected_revision c"
    using assms(3) by (simp_all add: command_wf_def)
  ultimately show ?thesis
    using assms
    by (simp add: evaluate_authority_commit_def evaluate_fresh_def safe_int_def opt_nfc_opt_str
        accepted_decision_def plan_of_def)
qed

text \<open>Agreement of a decision with its plan, branch by branch.\<close>

definition coherent :: "authority_evaluation \<Rightarrow> bool" where
  "coherent ev \<longleftrightarrow>
     (eval_commit_plan ev \<noteq> None) = (dec_code (eval_decision ev) = ACCEPTED)
     \<and> dec_aggregate_mutation (eval_decision ev) = of_bool (dec_code (eval_decision ev) = ACCEPTED)
     \<and> dec_revision_increment (eval_decision ev) = of_bool (dec_code (eval_decision ev) = ACCEPTED)
     \<and> dec_canonical_record_count (eval_decision ev) = of_bool (dec_code (eval_decision ev) = ACCEPTED)
     \<and> (dec_return_existing_transition_id (eval_decision ev) \<noteq> None)
         = (dec_code (eval_decision ev) = ALREADY_APPLIED)
     \<and> dec_durable_conflict_record (eval_decision ev)
         = (dec_code (eval_decision ev) \<in> {CANONICAL_RECORD_CORRUPTION_CONFLICT, IDEMPOTENCY_CONFLICT,
              AGGREGATE_ALREADY_EXISTS_CONFLICT})"

lemma resolve_receipt_coherent:
  assumes "resolve_receipt E c p = Inr ev"
  shows "coherent ev"
proof (cases "validate_stored_duplicate_proof E p (identity_sha256 (cmd_identity c)) (cmd_operation_id c)")
  case (Inl e)
  with assms show ?thesis by (auto simp: resolve_receipt_def refuse_def coherent_def)
next
  case (Inr q)
  with assms show ?thesis
    by (auto simp: resolve_receipt_def refuse_def coherent_def rbind_Inr_iff split: prod.splits if_splits)
qed

lemma evaluate_fresh_coherent:
  assumes "evaluate_fresh E x c n st ms corr = Inr ev"
  shows "coherent ev"
proof (cases "eval_commit_plan ev")
  case None
  with assms show ?thesis
    by (simp add: evaluate_fresh_def refuse_def Let_def rbind_Inr_iff coherent_def split: if_splits) auto
next
  case (Some plan)
  then show ?thesis
    using evaluate_fresh_planD [OF assms Some] by (auto simp: coherent_def accepted_decision_def)
qed

lemma evaluate_coherent:
  assumes "evaluate_authority_commit E x c n st probe ms corr = Inr ev"
  shows "coherent ev"
proof -
  have "coherent ev" if "refuse (decision AUTHORITY_ENTRY_REJECTED) = Inr ev"
    using that by (auto simp: refuse_def coherent_def)
  with assms show ?thesis
    using resolve_receipt_coherent evaluate_fresh_coherent
    unfolding evaluate_authority_commit_def
    by (fastforce simp: rbind_Inr_iff split: if_splits option.splits)
qed

section \<open>A concrete environment\<close>

text \<open>
  An environment for the witnesses: on ASCII text NFC is the identity, and a small printer stands
  for \<open>rfc8785.dumps\<close> (member order as normalised; a float prints its mantissa and exponent).
\<close>

fun print_json :: "json \<Rightarrow> char list" where
  "print_json JNull = ''null''"
| "print_json (JBool b) = (if b then ''true'' else ''false'')"
| "print_json (JInt i) = dec_int i"
| "print_json (JFloat f) =
     (case f of FinFloat m e \<Rightarrow> dec_int m @ ''p'' @ dec_int e | PosInf \<Rightarrow> ''inf''
        | NegInf \<Rightarrow> ''-inf'' | NaN \<Rightarrow> ''nan'')"
| "print_json (JStr s) = [CHR 0x22] @ s @ [CHR 0x22]"
| "print_json (JArr js) = ''['' @ concat (map (\<lambda>j. print_json j @ '','') js) @ '']''"
| "print_json (JObj kvs) =
     ''{'' @ concat (map (\<lambda>kv. [CHR 0x22] @ fst kv @ [CHR 0x22] @ '':'' @ print_json (snd kv) @ '','') kvs) @ ''}''"

definition ascii_externals :: externals where
  "ascii_externals = \<lparr>nfc_normalize = (\<lambda>s. s), rfc8785_dumps = (\<lambda>j. Some (print_json j))\<rparr>"

definition demo_identity :: aggregate_identity where
  "demo_identity = \<lparr>id_aggregate_type = TASK, id_run_id = ''run-1'', id_task_id = Some ''task-1''\<rparr>"

definition demo_claim :: authority_command where
  "demo_claim =
     \<lparr>cmd_identity = demo_identity, cmd_operation_type = TASK_CLAIM, cmd_operation_id = ''claim-1'',
      cmd_expected_revision = 2, cmd_previous_state = Some ''scheduled'',
      cmd_next_state = Some ''running'', cmd_payload = JNull,
      cmd_metadata_changes = JObj [(''worker'', JStr ''w1'')], cmd_child_effects = JNull,
      cmd_projection_intents = [JObj [(''kind'', JStr ''RUNNING_SET'')]], cmd_causation_id = None\<rparr>"

definition demo_context :: authority_context where
  "demo_context =
     \<lparr>ctx_writer_id = ''writer-1'', ctx_allowed_operations = {TASK_CLAIM},
      ctx_target_sha256 = identity_sha256 demo_identity, ctx_fence_required = True,
      ctx_fence_valid = True\<rparr>"

lemma ascii_externals_laws [simp]: "nfc_laws ascii_externals" "jcs_total ascii_externals"
  by (simp_all add: ascii_externals_def nfc_laws_def jcs_total_def)

lemma ascii_externals_nfc [simp]: "nfc_normalize ascii_externals s = s"
  by (simp add: ascii_externals_def)

lemma demo_identity_wf [simp]: "identity_wf ascii_externals demo_identity"
  by (simp add: identity_wf_def demo_identity_def)

lemma demo_claim_wf [simp]: "command_wf ascii_externals demo_claim"
  by (simp add: command_wf_def demo_claim_def opt_wf_def max_safe_integer_def projection_kinds_def nfc_def)

lemma demo_permits [simp]: "permits demo_context demo_claim"
  by (simp add: permits_def demo_context_def demo_claim_def)

lemma demo_contract [simp]:
  "is_ok (validate_operation_contract ascii_externals (cmd_operation_type demo_claim)
     (id_aggregate_type (cmd_identity demo_claim)) (cmd_previous_state demo_claim)
     (cmd_next_state demo_claim) (cmd_projection_intents demo_claim))"
  by (simp add: demo_claim_def demo_identity_def validate_operation_contract_def projection_kinds_def
      nfc_def Let_def)

lemma demo_facts:
  "oc_mutation_class (operation_contracts (cmd_operation_type demo_claim)) = ACCEPTED_AUTHORITY_MUTATION"
  "ctx_writer_id demo_context \<noteq> []" "cmd_expected_revision demo_claim < max_safe_integer"
  "opt_wf ascii_externals None" "(0::int) \<le> 1000" "(1000::int) \<le> max_safe_integer"
  "cmd_expected_revision demo_claim = 2" "cmd_previous_state demo_claim = Some ''scheduled''"
  by (simp_all add: demo_claim_def demo_context_def max_safe_integer_def opt_wf_def)

lemma demo_evaluation:
  "\<exists>r. new_record ascii_externals demo_claim (ctx_writer_id demo_context) 1000 None = Inr r
    \<and> evaluate_authority_commit ascii_externals demo_context demo_claim (PInt 2)
      (PStr ''scheduled'') None (PInt 1000) PNone
      = Inr \<lparr>eval_decision = accepted_decision, eval_commit_plan = Some (plan_of demo_claim r)\<rparr>"
  using evaluate_legal [OF ascii_externals_laws demo_claim_wf demo_permits demo_facts(2)
      ascii_externals_nfc demo_facts(1,3) demo_contract demo_facts(5,6,4)]
  by (simp add: demo_facts)

section \<open>Properties of the evaluator\<close>

text \<open>
  C1. A command that is well formed, permitted by the context, of an accepted mutation class and
  legal for the current head (same revision, same state, contract satisfied, room for one more
  revision) is accepted: the evaluator returns a commit plan and raises nothing.
\<close>

theorem legal_command_accepted:
  assumes "nfc_laws E" and "jcs_total E" and "command_wf E c" and "permits x c"
    and "ctx_writer_id x \<noteq> []" and "nfc_normalize E (ctx_writer_id x) = ctx_writer_id x"
    and "oc_mutation_class (operation_contracts (cmd_operation_type c)) = ACCEPTED_AUTHORITY_MUTATION"
    and "cmd_expected_revision c < max_safe_integer"
    and "is_ok (validate_operation_contract E (cmd_operation_type c)
      (id_aggregate_type (cmd_identity c)) (cmd_previous_state c) (cmd_next_state c)
      (cmd_projection_intents c))"
    and "0 \<le> ms" and "ms \<le> max_safe_integer" and "opt_wf E corr"
  shows "\<exists>ev plan. evaluate_authority_commit E x c (PInt (cmd_expected_revision c))
      (opt_str (cmd_previous_state c)) None (PInt ms) (opt_str corr) = Inr ev
    \<and> eval_commit_plan ev = Some plan \<and> dec_code (eval_decision ev) = ACCEPTED"
proof -
  obtain r where "evaluate_authority_commit E x c (PInt (cmd_expected_revision c))
      (opt_str (cmd_previous_state c)) None (PInt ms) (opt_str corr)
      = Inr \<lparr>eval_decision = accepted_decision, eval_commit_plan = Some (plan_of c r)\<rparr>"
    using evaluate_legal [OF assms] by blast
  then show ?thesis by (simp add: accepted_decision_def)
qed

theorem legal_command_accepted_witness:
  "\<exists>ev plan. evaluate_authority_commit ascii_externals demo_context demo_claim (PInt 2)
      (PStr ''scheduled'') None (PInt 1000) PNone = Inr ev
    \<and> eval_commit_plan ev = Some plan \<and> dec_code (eval_decision ev) = ACCEPTED"
  using legal_command_accepted [OF ascii_externals_laws demo_claim_wf demo_permits demo_facts(2)
      ascii_externals_nfc demo_facts(1,3) demo_contract demo_facts(5,6,4)]
  by (simp add: demo_facts)

text \<open>
  C22. A commit plan is sound evidence: it comes with the code \<open>ACCEPTED\<close>, only for a permitted
  command of an accepted mutation class with no stored receipt, only when the head is exactly at
  the command's expected revision and previous state, and it holds a record and a receipt that
  pass their validators, agree with each other, and move the head by one revision along a
  transition that the operation's contract allows.
\<close>

theorem commit_plan_sound:
  assumes laws: "nfc_laws E"
    and ev: "evaluate_authority_commit E x c current_revision current_state probe ms corr = Inr ev"
    and plan: "eval_commit_plan ev = Some plan"
  shows "eval_decision ev = accepted_decision \<and> permits x c \<and> probe = None
    \<and> oc_mutation_class (operation_contracts (cmd_operation_type c)) = ACCEPTED_AUTHORITY_MUTATION
    \<and> current_revision = PInt (cmd_expected_revision c)
    \<and> opt_nfc E ''current_state'' current_state = Inr (cmd_previous_state c)
    \<and> plan_identity plan = cmd_identity c
    \<and> plan_revision plan = PInt (cmd_expected_revision c + 1)
    \<and> is_ok (validate_record E (plan_record plan))
    \<and> is_ok (validate_receipt E (plan_receipt plan))
    \<and> receipt_matches (plan_receipt plan) (plan_record plan)
    \<and> cmd_previous_state c \<in> oc_allowed_previous_states (operation_contracts (cmd_operation_type c))
    \<and> cmd_next_state c \<in> oc_allowed_next_states (operation_contracts (cmd_operation_type c))"
  using ev plan
proof (rule evaluate_planD)
  fix n s k m r
  assume a: "current_revision = PInt n" "opt_nfc E ''current_state'' current_state = Inr s" "permits x c"
    "probe = None" "evaluate_fresh E x c n s m k = Inr ev"
  from evaluate_fresh_planD [OF a(5) plan] obtain r where
    r: "new_record E c (ctx_writer_id x) m k = Inr r" "plan = plan_of c r"
    "ev = \<lparr>eval_decision = accepted_decision, eval_commit_plan = Some (plan_of c r)\<rparr>"
    "oc_mutation_class (operation_contracts (cmd_operation_type c)) = ACCEPTED_AUTHORITY_MUTATION"
    "n = cmd_expected_revision c" "s = cmd_previous_state c"
    "is_ok (validate_operation_contract E (cmd_operation_type c)
          (id_aggregate_type (cmd_identity c)) s (cmd_next_state c) (cmd_projection_intents c))"
    by blast
  with a show ?thesis
    using new_record_fields [OF r(1)] new_receipt_valid [OF laws] new_receipt_matches
    by (auto simp: is_ok_iff validate_operation_contract_Inr_iff)
qed

theorem commit_plan_sound_witness:
  "\<exists>ev plan. evaluate_authority_commit ascii_externals demo_context demo_claim (PInt 2)
      (PStr ''scheduled'') None (PInt 1000) PNone = Inr ev \<and> eval_commit_plan ev = Some plan
    \<and> plan_revision plan = PInt 3 \<and> is_ok (validate_record ascii_externals (plan_record plan))"
proof -
  obtain r where r: "evaluate_authority_commit ascii_externals demo_context demo_claim (PInt 2)
      (PStr ''scheduled'') None (PInt 1000) PNone
      = Inr \<lparr>eval_decision = accepted_decision, eval_commit_plan = Some (plan_of demo_claim r)\<rparr>"
    using demo_evaluation by blast
  from commit_plan_sound [OF ascii_externals_laws(1) r]
  have "plan_revision (plan_of demo_claim r) = PInt 3"
    "is_ok (validate_record ascii_externals (plan_record (plan_of demo_claim r)))"
    by (simp_all add: demo_facts)
  with r show ?thesis by (metis authority_evaluation.select_convs(2))
qed

text \<open>
  A decision and its plan always agree: there is a plan exactly for \<open>ACCEPTED\<close>; the mutation,
  revision and record counters are one for \<open>ACCEPTED\<close> and zero for every other code; an existing
  transition id is returned exactly for \<open>ALREADY_APPLIED\<close>; and a durable conflict is asked for
  exactly for corrupted proof, an idempotency conflict or a second create.
\<close>

theorem decision_and_plan_agree:
  assumes "evaluate_authority_commit E x c current_revision current_state probe ms corr = Inr ev"
  shows "(eval_commit_plan ev \<noteq> None) = (dec_code (eval_decision ev) = ACCEPTED)
    \<and> dec_aggregate_mutation (eval_decision ev) = of_bool (dec_code (eval_decision ev) = ACCEPTED)
    \<and> dec_revision_increment (eval_decision ev) = of_bool (dec_code (eval_decision ev) = ACCEPTED)
    \<and> dec_canonical_record_count (eval_decision ev) = of_bool (dec_code (eval_decision ev) = ACCEPTED)
    \<and> (dec_return_existing_transition_id (eval_decision ev) \<noteq> None)
        = (dec_code (eval_decision ev) = ALREADY_APPLIED)
    \<and> dec_durable_conflict_record (eval_decision ev)
        = (dec_code (eval_decision ev) \<in> {CANONICAL_RECORD_CORRUPTION_CONFLICT, IDEMPOTENCY_CONFLICT,
             AGGREGATE_ALREADY_EXISTS_CONFLICT})"
  using evaluate_coherent [OF assms] by (simp add: coherent_def)

theorem decision_and_plan_agree_witness:
  "\<exists>ev. evaluate_authority_commit ascii_externals demo_context demo_claim (PInt 2)
      (PStr ''scheduled'') None (PInt 1000) PNone = Inr ev
    \<and> dec_revision_increment (eval_decision ev) = 1"
proof -
  obtain r where r: "evaluate_authority_commit ascii_externals demo_context demo_claim (PInt 2)
      (PStr ''scheduled'') None (PInt 1000) PNone
      = Inr \<lparr>eval_decision = accepted_decision, eval_commit_plan = Some (plan_of demo_claim r)\<rparr>"
    using demo_evaluation by blast
  from decision_and_plan_agree [OF r] r show ?thesis by (auto simp: accepted_decision_def)
qed

text \<open>
  Exactly-once by receipt: once a plan of a command has been stored, submitting a command with
  the same aggregate and operation id through any permitting context and at any head revision and
  state never yields a second plan. It is answered \<open>ALREADY_APPLIED\<close> with the stored transition id
  when the command hash is the stored one, and \<open>IDEMPOTENCY_CONFLICT\<close> otherwise.
\<close>

theorem stored_receipt_answers_first:
  assumes laws: "nfc_laws E"
    and ev: "evaluate_authority_commit E x c n st None ms corr = Inr ev"
    and plan: "eval_commit_plan ev = Some plan"
    and same: "cmd_identity c' = cmd_identity c" "cmd_operation_id c' = cmd_operation_id c"
    and ch: "command_hash E c' = Inr ch" and "permits x' c'"
    and "is_ok (safe_int ''current_revision'' 0 n')" and "is_ok (opt_nfc E ''current_state'' st')"
    and "is_ok (safe_int ''committed_at_ms'' 0 ms')" and "is_ok (opt_nfc E ''correlation_id'' corr')"
  shows "\<exists>ev'. evaluate_authority_commit E x' c' n' st' (Some (stored_probe plan)) ms' corr' = Inr ev'
    \<and> eval_commit_plan ev' = None
    \<and> (if command_hash E c = Inr ch
       then dec_code (eval_decision ev') = ALREADY_APPLIED
         \<and> dec_return_existing_transition_id (eval_decision ev') = Some (rec_transition_id (plan_record plan))
       else dec_code (eval_decision ev') = IDEMPOTENCY_CONFLICT
         \<and> dec_durable_conflict_record (eval_decision ev'))"
  using ev plan
proof (rule evaluate_planD)
  fix n1 s k m
  assume "evaluate_fresh E x c n1 s m k = Inr ev"
  with plan obtain r where r: "new_record E c (ctx_writer_id x) m k = Inr r" "plan = plan_of c r"
    using evaluate_fresh_planD by blast
  obtain ch0 where ch0: "command_hash E c = Inr ch0" "rec_command_hash r = PStr ch0"
    using new_record_fields(3) [OF r(1)] by blast
  have "evaluate_authority_commit E x' c' n' st' (Some (stored_probe plan)) ms' corr'
      = resolve_receipt E c' (stored_probe (plan_of c r))"
    using assms(7-11) r(2) by (auto simp: evaluate_authority_commit_def is_ok_iff)
  then show ?thesis
    using resolve_stored_probe [OF laws r(1) same ch] ch0 r(2) by (auto simp: refuse_def)
qed

theorem stored_receipt_answers_first_witness:
  "\<exists>plan ev'. evaluate_authority_commit ascii_externals demo_context demo_claim (PInt 7) (PStr ''done'')
      (Some (stored_probe plan)) (PInt 2000) PNone = Inr ev'
    \<and> dec_code (eval_decision ev') = ALREADY_APPLIED"
proof -
  obtain r where r: "evaluate_authority_commit ascii_externals demo_context demo_claim (PInt 2)
      (PStr ''scheduled'') None (PInt 1000) PNone
      = Inr \<lparr>eval_decision = accepted_decision, eval_commit_plan = Some (plan_of demo_claim r)\<rparr>"
    using demo_evaluation by blast
  obtain ch where ch: "command_hash ascii_externals demo_claim = Inr ch"
    using command_hash_total [OF ascii_externals_laws demo_claim_wf] by blast
  have "is_ok (safe_int ''current_revision'' 0 (PInt 7))" "is_ok (safe_int ''committed_at_ms'' 0 (PInt 2000))"
    "is_ok (opt_nfc ascii_externals ''current_state'' (PStr ''done''))"
    "is_ok (opt_nfc ascii_externals ''correlation_id'' PNone)"
    by (simp_all add: safe_int_def opt_nfc_def nfc_def max_safe_integer_def)
  from stored_receipt_answers_first [OF ascii_externals_laws(1) r _ refl refl ch demo_permits this(1,3,2,4)] ch
  show ?thesis by auto
qed

text \<open>
  Fail-closed entry: whatever the stored evidence, the head or the command's content, a command
  that the context does not permit (operation not granted, other aggregate, or a required fence
  that is not valid) is rejected without a plan.
\<close>

theorem entry_gate_fails_closed:
  assumes "\<not> permits x c"
    and "evaluate_authority_commit E x c current_revision current_state probe ms corr = Inr ev"
  shows "eval_decision ev = decision AUTHORITY_ENTRY_REJECTED \<and> eval_commit_plan ev = None"
  using assms unfolding evaluate_authority_commit_def refuse_def by (auto simp: rbind_Inr_iff)

theorem entry_gate_fails_closed_witness:
  "\<exists>ev. evaluate_authority_commit ascii_externals (demo_context\<lparr>ctx_fence_valid := False\<rparr>) demo_claim
      (PInt 2) (PStr ''scheduled'') None (PInt 1000) PNone = Inr ev
    \<and> eval_decision ev = decision AUTHORITY_ENTRY_REJECTED"
proof -
  have np: "\<not> permits (demo_context\<lparr>ctx_fence_valid := False\<rparr>) demo_claim"
    by (simp add: permits_def demo_context_def)
  have "evaluate_authority_commit ascii_externals (demo_context\<lparr>ctx_fence_valid := False\<rparr>) demo_claim
      (PInt 2) (PStr ''scheduled'') None (PInt 1000) PNone = refuse (decision AUTHORITY_ENTRY_REJECTED)"
    using np by (simp add: evaluate_authority_commit_def safe_int_def opt_nfc_def nfc_def max_safe_integer_def)
  then show ?thesis using entry_gate_fails_closed [OF np] by (auto simp: refuse_def)
qed

lemma equal_record_hash:
  assumes "is_ok (validate_record E r)" and "is_ok (validate_record E r')"
    and "rec_record_hash r = rec_record_hash r'"
  shows "\<exists>b b'. canonical_json_bytes E (immutable_payload r) = Inr b
    \<and> canonical_json_bytes E (immutable_payload r') = Inr b'
    \<and> (b = b' \<or> sha256_collision b b')"
proof -
  have "verify_hash E r" "verify_hash E r'"
    using assms(1,2) by (auto simp: is_ok_iff elim: validate_record_okD)
  then obtain b b' where b: "canonical_json_bytes E (immutable_payload r) = Inr b"
    "canonical_json_bytes E (immutable_payload r') = Inr b'"
    and "PStr (sha256_hexdigest b) = rec_record_hash r" "PStr (sha256_hexdigest b') = rec_record_hash r'"
    by (auto simp: verify_hash_def canonical_json_sha256_def rbind_Inr_iff split: sum.splits)
  with assms(3) have "sha256_hexdigest b = sha256_hexdigest b'" by (metis pyval.inject(4))
  with b show ?thesis by (auto simp: sha256_collision_def)
qed

text \<open>
  The record hash binds the record: two validated records that carry the same record hash have
  the same canonical bytes, or exhibit a SHA-256 collision.
\<close>

theorem record_hash_binds_payload:
  assumes "is_ok (validate_record E r)" and "is_ok (validate_record E r')"
    and "rec_record_hash r = rec_record_hash r'"
  shows "\<exists>b b'. canonical_json_bytes E (immutable_payload r) = Inr b
    \<and> canonical_json_bytes E (immutable_payload r') = Inr b'
    \<and> (b = b' \<or> sha256_collision b b')"
  using equal_record_hash [OF assms] .

theorem record_hash_binds_payload_witness:
  "\<exists>r b. canonical_json_bytes ascii_externals (immutable_payload r) = Inr b \<and> (b = b \<or> sha256_collision b b)"
proof -
  obtain r where "new_record ascii_externals demo_claim (ctx_writer_id demo_context) 1000 None = Inr r"
    using demo_evaluation by blast
  then have "is_ok (validate_record ascii_externals r)" by (auto dest: new_record_fields(10))
  from record_hash_binds_payload [OF this this refl] show ?thesis by blast
qed

end
