(* ===== verification/JsonLoads.thy ===== *)
theory JsonLoads
  imports PyJson
begin

text \<open>
  \<open>json.loads(text)\<close> of the Python standard library on a \<open>str\<close> (held as UTF-8 here): the literals
  with \<open>NaN\<close> and the infinities, integers of any size up to the interpreter's limit of 4300 digits,
  correctly rounded doubles, strict strings with escapes and surrogate pairs, arrays, and objects in
  which the last value of a repeated key wins. A lone surrogate escape is kept in its three-byte
  form; encoding such a string as UTF-8 raises (\<open>utf8_encodable\<close>).

  The recursion runs on fuel; \<open>json_loads\<close> gives one unit per character and one more, and
  \<open>json_loads_enough_fuel\<close> shows that this never runs out. The interpreter's recursion limit is not
  modelled.
\<close>

section \<open>Numbers\<close>

datatype json_error = JSONDecodeError | IntDigitLimit | JsonFuel

text \<open>
  The double nearest to \<open>num / den\<close>, ties to even: the quotient is scaled to 53 bits, or to the
  subnormal grid \<open>2^-1074\<close>.
\<close>

definition scale_ratio :: "nat \<Rightarrow> nat \<Rightarrow> int \<Rightarrow> nat \<times> nat" where
  "scale_ratio num den e = (if 0 \<le> e then (num, den * 2 ^ nat e) else (num * 2 ^ nat (- e), den))"

definition round_ratio :: "nat \<Rightarrow> nat \<Rightarrow> pyfloat" where
  "round_ratio num den =
     (if num = 0 then FinFloat 0 0
      else let e0 = int (bit_len num) - int (bit_len den) - 53;
               (a0, b0) = scale_ratio num den e0;
               e = max (if 2 ^ 53 * b0 \<le> a0 then e0 + 1 else e0) (- 1074);
               (a, b) = scale_ratio num den e;
               q = a div b; r = a mod b;
               m = (if b < 2 * r \<or> 2 * r = b \<and> odd q then q + 1 else q)
           in if 0 \<le> e \<and> 2 ^ 1024 \<le> m * 2 ^ nat e then PosInf else FinFloat (int m) e)"

definition negate_float :: "pyfloat \<Rightarrow> pyfloat" where
  "negate_float x = (case x of FinFloat m e \<Rightarrow> FinFloat (- m) e | PosInf \<Rightarrow> NegInf | NegInf \<Rightarrow> PosInf | NaN \<Rightarrow> NaN)"

definition float_of_decimal :: "bool \<Rightarrow> nat \<Rightarrow> int \<Rightarrow> pyfloat" where
  "float_of_decimal neg d e =
     (let x = (if 0 \<le> e then round_ratio (d * 10 ^ nat e) 1 else round_ratio d (10 ^ nat (- e)))
      in if neg then negate_float x else x)"

definition int_digit_limit :: nat where
  "int_digit_limit = 4300"

text \<open>\<open>(-?(?:0|[1-9]\d*))(\.\d+)?([eE][-+]?\d+)?\<close>, longest match; \<open>None\<close> when it does not match.\<close>

definition scan_exponent :: "string \<Rightarrow> (int \<times> string) option" where
  "scan_exponent s =
     (case s of
        c # t \<Rightarrow>
          (if c \<in> set ''eE'' then
             (let neg = (t \<noteq> [] \<and> hd t = CHR ''-'');
                  u = (if t \<noteq> [] \<and> hd t \<in> set ''+-'' then tl t else t);
                  ds = takeWhile is_digit u
              in if ds = [] then None
                 else Some ((if neg then - 1 else 1) * int (nat_of_dec ds), dropWhile is_digit u))
           else None)
      | [] \<Rightarrow> None)"

definition scan_fraction :: "string \<Rightarrow> (string \<times> string) option" where
  "scan_fraction s =
     (case s of
        c # t \<Rightarrow> (if c = CHR ''.'' \<and> t \<noteq> [] \<and> is_digit (hd t)
                  then Some (takeWhile is_digit t, dropWhile is_digit t) else None)
      | [] \<Rightarrow> None)"

definition signed_int :: "bool \<Rightarrow> nat \<Rightarrow> int" where
  "signed_int neg n = (if neg then - int n else int n)"

definition number_tail :: "bool \<Rightarrow> string \<Rightarrow> string \<Rightarrow> json_error + pyval \<times> string" where
  "number_tail neg ds rest =
     (case scan_fraction rest of
        None \<Rightarrow>
          (case scan_exponent rest of
             None \<Rightarrow> (if int_digit_limit < length ds then Inl IntDigitLimit
                      else Inr (PInt (signed_int neg (nat_of_dec ds)), rest))
           | Some (x, r) \<Rightarrow> Inr (PFloat (float_of_decimal neg (nat_of_dec ds) x), r))
      | Some (fs, r) \<Rightarrow>
          (case scan_exponent r of
             None \<Rightarrow> Inr (PFloat (float_of_decimal neg (nat_of_dec (ds @ fs)) (- int (length fs))), r)
           | Some (x, r') \<Rightarrow>
               Inr (PFloat (float_of_decimal neg (nat_of_dec (ds @ fs)) (x - int (length fs))), r')))"

definition unsigned_number :: "bool \<Rightarrow> string \<Rightarrow> (json_error + pyval \<times> string) option" where
  "unsigned_number neg t =
     (if t = [] \<or> \<not> is_digit (hd t) then None
      else let ds = (if hd t = CHR ''0'' then [hd t] else takeWhile is_digit t)
           in Some (number_tail neg ds (drop (length ds) t)))"

definition scan_number :: "string \<Rightarrow> (json_error + pyval \<times> string) option" where
  "scan_number s =
     (if s \<noteq> [] \<and> hd s = CHR ''-'' then unsigned_number True (tl s) else unsigned_number False s)"

section \<open>Strings\<close>

definition utf8_encode :: "nat \<Rightarrow> string" where
  "utf8_encode n =
     map char_of
       (if n < 128 then [n]
        else if n < 2048 then [192 + n div 64, 128 + n mod 64]
        else if n < 65536 then [224 + n div 4096, 128 + n div 64 mod 64, 128 + n mod 64]
        else [240 + n div 262144, 128 + n div 4096 mod 64, 128 + n div 64 mod 64, 128 + n mod 64])"

text \<open>\<open>s.encode("utf-8")\<close> raises on a surrogate, whose three-byte form starts with \<open>ED A0\<close> to \<open>ED BF\<close>.\<close>

fun utf8_encodable :: "string \<Rightarrow> bool" where
  "utf8_encodable (a # b # s) =
     (\<not> ((of_char a :: nat) = 237 \<and> 160 \<le> (of_char b :: nat)) \<and> utf8_encodable (b # s))"
| "utf8_encodable s = True"

definition hex_digit :: "char \<Rightarrow> nat option" where
  "hex_digit c =
     (let n = of_char c in
      if 48 \<le> n \<and> n \<le> 57 then Some (n - 48)
      else if 97 \<le> n \<and> n \<le> 102 then Some (n - 87)
      else if 65 \<le> n \<and> n \<le> 70 then Some (n - 55) else None)"

definition hex4 :: "string \<Rightarrow> nat option" where
  "hex4 s =
     (case s of
        a # b # c # d # _ \<Rightarrow>
          (case (hex_digit a, hex_digit b, hex_digit c, hex_digit d) of
             (Some w, Some x, Some y, Some z) \<Rightarrow> Some (w * 4096 + x * 256 + y * 16 + z)
           | _ \<Rightarrow> None)
      | _ \<Rightarrow> None)"

text \<open>A \<open>\u\<close> escape after its first two characters; a high and a low surrogate are joined.\<close>

definition scan_unicode :: "string \<Rightarrow> (string \<times> string) option" where
  "scan_unicode s =
     (case hex4 s of
        None \<Rightarrow> None
      | Some hi \<Rightarrow>
          (let r = drop 4 s in
           if 55296 \<le> hi \<and> hi < 56320 \<and> take 2 r = [CHR 0x5C, CHR ''u'']
           then (case hex4 (drop 2 r) of
                   Some lo \<Rightarrow>
                     (if 56320 \<le> lo \<and> lo < 57344
                      then Some (utf8_encode (65536 + (hi - 55296) * 1024 + (lo - 56320)), drop 6 r)
                      else Some (utf8_encode hi, r))
                 | None \<Rightarrow> Some (utf8_encode hi, r))
           else Some (utf8_encode hi, r)))"

definition simple_escape :: "char \<Rightarrow> char option" where
  "simple_escape c =
     map_of [(CHR 0x22, CHR 0x22), (CHR 0x5C, CHR 0x5C), (CHR ''/'', CHR ''/''), (CHR ''b'', CHR 0x08),
             (CHR ''f'', CHR 0x0C), (CHR ''n'', CHR 0x0A), (CHR ''r'', CHR 0x0D), (CHR ''t'', CHR 0x09)] c"

function scan_chars :: "string \<Rightarrow> string \<Rightarrow> (string \<times> string) option" where
  "scan_chars acc [] = None"
| "scan_chars acc (c # s) =
     (if c = CHR 0x22 then Some (rev acc, s)
      else if c = CHR 0x5C then
        (case s of
           [] \<Rightarrow> None
         | d # t \<Rightarrow>
             (if d = CHR ''u'' then
                (case scan_unicode t of
                   None \<Rightarrow> None
                 | Some (u, r) \<Rightarrow> if length r \<le> length t then scan_chars (rev u @ acc) r else None)
              else case simple_escape d of None \<Rightarrow> None | Some e \<Rightarrow> scan_chars (e # acc) t))
      else if (of_char c :: nat) < 32 then None
      else scan_chars (c # acc) s)"
  by pat_completeness auto
termination by (relation "measure (\<lambda>(acc, s). length s)") auto

lemma scan_unicode_shorter: "scan_unicode t = Some (u, r) \<Longrightarrow> length r \<le> length t"
  by (auto simp: scan_unicode_def Let_def split: option.splits if_splits)

lemma scan_chars_shorter: "scan_chars acc s = Some (u, r) \<Longrightarrow> length r < length s"
  by (induction acc s rule: scan_chars.induct)
    (force split: if_splits list.splits option.splits dest: scan_unicode_shorter)+

section \<open>Values\<close>

definition skip_ws :: "string \<Rightarrow> string" where
  "skip_ws = dropWhile (\<lambda>c. c \<in> {CHR '' '', CHR 0x09, CHR 0x0A, CHR 0x0D})"

lemma skip_ws_shorter: "length (skip_ws s) \<le> length s"
  by (simp add: skip_ws_def length_dropWhile_le)

definition json_words :: "(string \<times> pyval) list" where
  "json_words = [(''null'', PNone), (''true'', PBool True), (''false'', PBool False), (''NaN'', PFloat NaN),
     (''Infinity'', PFloat PosInf), (''-Infinity'', PFloat NegInf)]"

definition scan_word :: "string \<Rightarrow> (pyval \<times> string) option" where
  "scan_word s =
     (case find (\<lambda>(w, _). take (length w) s = w) json_words of
        None \<Rightarrow> None
      | Some (w, v) \<Rightarrow> Some (v, drop (length w) s))"

definition dict_put :: "(pyval \<times> pyval) list \<Rightarrow> string \<Rightarrow> pyval \<Rightarrow> (pyval \<times> pyval) list" where
  "dict_put d k v = AList.update (PStr k) v d"

fun parse_value :: "nat \<Rightarrow> string \<Rightarrow> json_error + pyval \<times> string"
  and parse_members :: "nat \<Rightarrow> (pyval \<times> pyval) list \<Rightarrow> string \<Rightarrow> json_error + pyval \<times> string"
  and parse_elements :: "nat \<Rightarrow> pyval list \<Rightarrow> string \<Rightarrow> json_error + pyval \<times> string"
where
  "parse_value 0 s = Inl JsonFuel"
| "parse_value (Suc n) s =
     (case s of
        [] \<Rightarrow> Inl JSONDecodeError
      | c # t \<Rightarrow>
          (if c = CHR 0x22 then
             (case scan_chars [] t of None \<Rightarrow> Inl JSONDecodeError | Some (u, r) \<Rightarrow> Inr (PStr u, r))
           else if c = CHR 0x7B then
             (let u = skip_ws t
              in if u \<noteq> [] \<and> hd u = CHR 0x7D then Inr (PMap [], tl u) else parse_members n [] u)
           else if c = CHR 0x5B then
             (let u = skip_ws t
              in if u \<noteq> [] \<and> hd u = CHR 0x5D then Inr (PSeq [], tl u) else parse_elements n [] u)
           else case scan_number s of
             Some res \<Rightarrow> res
           | None \<Rightarrow> (case scan_word s of None \<Rightarrow> Inl JSONDecodeError | Some res \<Rightarrow> Inr res)))"
| "parse_members 0 d s = Inl JsonFuel"
| "parse_members (Suc n) d s =
     (if s = [] \<or> hd s \<noteq> CHR 0x22 then Inl JSONDecodeError
      else case scan_chars [] (tl s) of
        None \<Rightarrow> Inl JSONDecodeError
      | Some (k, r) \<Rightarrow>
          (let r1 = skip_ws r in
           if r1 = [] \<or> hd r1 \<noteq> CHR '':'' then Inl JSONDecodeError
           else rbind (parse_value n (skip_ws (tl r1))) (\<lambda>(v, r2).
             let r3 = skip_ws r2; d' = dict_put d k v in
             if r3 = [] then Inl JSONDecodeError
             else if hd r3 = CHR 0x7D then Inr (PMap d', tl r3)
             else if hd r3 = CHR '','' then parse_members n d' (skip_ws (tl r3))
             else Inl JSONDecodeError)))"
| "parse_elements 0 xs s = Inl JsonFuel"
| "parse_elements (Suc n) xs s =
     rbind (parse_value n s) (\<lambda>(v, r).
       let r1 = skip_ws r in
       if r1 = [] then Inl JSONDecodeError
       else if hd r1 = CHR 0x5D then Inr (PSeq (xs @ [v]), tl r1)
       else if hd r1 = CHR '','' then parse_elements n (xs @ [v]) (skip_ws (tl r1))
       else Inl JSONDecodeError)"

definition json_loads :: "string \<Rightarrow> json_error + pyval" where
  "json_loads s =
     (if take 3 s = map char_of [239, 187, 191 :: nat] then Inl JSONDecodeError
      else rbind (parse_value (2 * length s + 1) (skip_ws s)) (\<lambda>(v, r).
        if skip_ws r = [] then Inr v else Inl JSONDecodeError))"

section \<open>Fuel\<close>

lemma scan_exponent_shorter: "scan_exponent s = Some (x, r) \<Longrightarrow> length r \<le> length s"
proof -
  have "length (dropWhile is_digit u) \<le> length u" for u by (rule length_dropWhile_le)
  moreover have "length (dropWhile is_digit (tl u)) \<le> length u" for u
    by (rule order_trans [OF length_dropWhile_le]) simp
  ultimately show "scan_exponent s = Some (x, r) \<Longrightarrow> length r \<le> length s"
    by (cases s) (auto simp: scan_exponent_def Let_def split: if_splits intro: le_SucI)
qed

lemma scan_fraction_shorter: "scan_fraction s = Some (x, r) \<Longrightarrow> length r \<le> length s"
  by (cases s) (auto simp: scan_fraction_def length_dropWhile_le split: if_splits intro: le_SucI)

lemma number_tail_shorter: "number_tail neg ds rest = Inr (v, r) \<Longrightarrow> length r \<le> length rest"
  by (auto simp: number_tail_def split: option.splits if_splits
      dest!: scan_fraction_shorter scan_exponent_shorter)

lemma unsigned_number_shorter:
  assumes "unsigned_number neg t = Some (Inr (v, r))"
  shows "length r < length t"
proof -
  define ds where "ds = (if hd t = CHR ''0'' then [hd t] else takeWhile is_digit t)"
  have t: "t \<noteq> []" "is_digit (hd t)" and tail: "number_tail neg ds (drop (length ds) t) = Inr (v, r)"
    using assms by (auto simp: unsigned_number_def Let_def split: if_split_asm) (simp_all add: ds_def)
  have "ds \<noteq> []" using t by (cases t) (simp_all add: ds_def)
  with t(1) have "length (drop (length ds) t) < length t" by simp
  then show ?thesis using number_tail_shorter [OF tail] by simp
qed

lemma scan_number_shorter: "scan_number s = Some (Inr (v, r)) \<Longrightarrow> length r < length s"
  by (auto simp: scan_number_def split: if_split_asm dest!: unsigned_number_shorter)

lemma number_tail_not_fuel: "number_tail neg ds rest \<noteq> Inl JsonFuel"
  by (auto simp: number_tail_def split: option.splits)

lemma scan_number_not_fuel: "scan_number s \<noteq> Some (Inl JsonFuel)"
  unfolding scan_number_def unsigned_number_def Let_def using number_tail_not_fuel
  by (metis option.distinct(1) option.sel)

lemma scan_word_shorter:
  assumes "scan_word s = Some (v, r)"
  shows "length r < length s"
proof -
  from assms obtain w where w: "(w, v) \<in> set json_words" "take (length w) s = w" "r = drop (length w) s"
    by (auto simp: scan_word_def find_Some_iff split: option.splits dest: nth_mem)
  then have "w \<noteq> []" by (auto simp: json_words_def)
  moreover from this w(2) have "s \<noteq> []" by auto
  ultimately show ?thesis by (simp add: w(3))
qed

lemma tl_shorter: "u \<noteq> [] \<Longrightarrow> length (tl u) < length u"
  by simp

text \<open>What \<open>parse_members\<close> and \<open>parse_elements\<close> pass on is shorter than what they got.\<close>

lemma member_value_shorter:
  assumes "s \<noteq> []" and "scan_chars [] (tl s) = Some (k, r)" and "skip_ws r \<noteq> []"
  shows "length (skip_ws (tl (skip_ws r))) < length s"
proof -
  have "length (skip_ws (tl (skip_ws r))) \<le> length (skip_ws r)"
    using skip_ws_shorter [of "tl (skip_ws r)"] by simp
  also have "\<dots> < length (tl s)" using skip_ws_shorter [of r] scan_chars_shorter [OF assms(2)] by simp
  also have "\<dots> < length s" using assms(1) by simp
  finally show ?thesis .
qed

lemma rest_shorter:
  assumes "length r < length s" and "skip_ws r \<noteq> []"
  shows "length (tl (skip_ws r)) < length s" "length (skip_ws (tl (skip_ws r))) < length s"
  using assms skip_ws_shorter [of r] skip_ws_shorter [of "tl (skip_ws r)"] by simp_all

lemma parse_value_step:
  assumes "\<And>d s v r. parse_members n d s = Inr (v, r) \<Longrightarrow> length r < length s"
    and "\<And>xs s v r. parse_elements n xs s = Inr (v, r) \<Longrightarrow> length r < length s"
    and "parse_value (Suc n) s = Inr (v, r)"
  shows "length r < length s"
proof (cases s)
  case (Cons c t)
  have "length (skip_ws t) < length s" using skip_ws_shorter [of t] Cons by simp
  with assms Cons show ?thesis
    by (auto simp: Let_def split: if_split_asm option.splits prod.splits
        dest: scan_chars_shorter scan_word_shorter scan_number_shorter)
      (fastforce dest: scan_number_shorter)+
qed (use assms(3) in simp)

lemma parse_members_step:
  assumes V: "\<And>s v r. parse_value n s = Inr (v, r) \<Longrightarrow> length r < length s"
    and M: "\<And>d s v r. parse_members n d s = Inr (v, r) \<Longrightarrow> length r < length s"
    and res: "parse_members (Suc n) d s = Inr (v, r)"
  shows "length r < length s"
proof -
  from res obtain k r0 where k: "s \<noteq> []" "hd s = CHR 0x22" "scan_chars [] (tl s) = Some (k, r0)"
    by (auto split: if_split_asm option.splits)
  from res k have r0: "skip_ws r0 \<noteq> []" "hd (skip_ws r0) = CHR '':''" by (auto simp: Let_def split: if_split_asm)
  from res k r0 obtain w r2 where w: "parse_value n (skip_ws (tl (skip_ws r0))) = Inr (w, r2)"
    by (auto simp: Let_def rbind_Inr_iff)
  have "length r2 < length s" using V [OF w] member_value_shorter [OF k(1,3) r0(1)] by simp
  note rest = rest_shorter [OF this]
  from res k r0 w have r2: "skip_ws r2 \<noteq> []" by (auto simp: Let_def split: if_split_asm)
  from res k r0 w r2 consider "r = tl (skip_ws r2)"
    | d' where "parse_members n d' (skip_ws (tl (skip_ws r2))) = Inr (v, r)"
    by (auto simp: Let_def split: if_split_asm)
  then show ?thesis
  proof cases
    case 1
    then show ?thesis using rest(1) [OF r2] by simp
  next
    case 2
    from M [OF this] rest(2) [OF r2] show ?thesis by simp
  qed
qed

lemma parse_elements_step:
  assumes V: "\<And>s v r. parse_value n s = Inr (v, r) \<Longrightarrow> length r < length s"
    and L: "\<And>xs s v r. parse_elements n xs s = Inr (v, r) \<Longrightarrow> length r < length s"
    and res: "parse_elements (Suc n) xs s = Inr (v, r)"
  shows "length r < length s"
proof -
  from res obtain w r2 where w: "parse_value n s = Inr (w, r2)" by (auto simp: rbind_Inr_iff)
  note rest = rest_shorter [OF V [OF w]]
  from res w have r2: "skip_ws r2 \<noteq> []" by (auto simp: Let_def split: if_split_asm)
  from res w r2 consider "r = tl (skip_ws r2)"
    | xs' where "parse_elements n xs' (skip_ws (tl (skip_ws r2))) = Inr (v, r)"
    by (auto simp: Let_def split: if_split_asm)
  then show ?thesis
  proof cases
    case 1
    then show ?thesis using rest(1) [OF r2] by simp
  next
    case 2
    from L [OF this] rest(2) [OF r2] show ?thesis by simp
  qed
qed

lemma parse_shorter:
  shows "\<And>s v r. parse_value n s = Inr (v, r) \<Longrightarrow> length r < length s"
    and "\<And>d s v r. parse_members n d s = Inr (v, r) \<Longrightarrow> length r < length s"
    and "\<And>xs s v r. parse_elements n xs s = Inr (v, r) \<Longrightarrow> length r < length s"
proof (induction n)
  case (Suc n)
  {
    case 1
    show ?case by (rule parse_value_step [OF Suc.IH(2,3) 1])
  next
    case 2
    show ?case by (rule parse_members_step [OF Suc.IH(1,2) 2])
  next
    case 3
    show ?case by (rule parse_elements_step [OF Suc.IH(1,3) 3])
  }
qed simp_all

lemma parse_enough_fuel:
  shows "\<And>s. 2 * length s < n \<Longrightarrow> parse_value n s \<noteq> Inl JsonFuel"
    and "\<And>d s. 2 * length s < n \<Longrightarrow> parse_members n d s \<noteq> Inl JsonFuel"
    and "\<And>xs s. 2 * length s + 1 < n \<Longrightarrow> parse_elements n xs s \<noteq> Inl JsonFuel"
proof (induction n)
  case (Suc n)
  {
    case (1 s)
    show ?case
    proof (cases s)
      case (Cons c t)
      have "2 * length (skip_ws t) + 1 < n" using skip_ws_shorter [of t] 1 Cons by simp
      with Suc.IH(2) [of "skip_ws t" "[]"] Suc.IH(3) [of "skip_ws t" "[]"] scan_number_not_fuel [of s]
      show ?thesis using Cons by (auto simp: Let_def split: option.splits)
    qed simp
  next
    case (2 d s)
    have "parse_value n (skip_ws (tl (skip_ws r))) \<noteq> Inl JsonFuel
        \<and> (\<forall>d' v r2. parse_value n (skip_ws (tl (skip_ws r))) = Inr (v, r2) \<longrightarrow> skip_ws r2 \<noteq> [] \<longrightarrow>
             parse_members n d' (skip_ws (tl (skip_ws r2))) \<noteq> Inl JsonFuel)"
      if "s \<noteq> []" "scan_chars [] (tl s) = Some (k, r)" "skip_ws r \<noteq> []" for k r
    proof (intro conjI allI impI)
      note short = member_value_shorter [OF that]
      show "parse_value n (skip_ws (tl (skip_ws r))) \<noteq> Inl JsonFuel" using short 2 by (intro Suc.IH(1)) simp
      fix d' v r2
      assume "parse_value n (skip_ws (tl (skip_ws r))) = Inr (v, r2)" and r2: "skip_ws r2 \<noteq> []"
      then have "length r2 < length s" using parse_shorter(1) short by fastforce
      from rest_shorter(2) [OF this r2] show "parse_members n d' (skip_ws (tl (skip_ws r2))) \<noteq> Inl JsonFuel"
        using 2 by (intro Suc.IH(2)) simp
    qed
    then show ?case by (auto simp: Let_def rbind_Inl_iff split: option.splits if_split_asm)
  next
    case (3 xs s)
    have "parse_value n s \<noteq> Inl JsonFuel" using 3 by (intro Suc.IH(1)) simp
    moreover have "parse_elements n xs' (skip_ws (tl (skip_ws r2))) \<noteq> Inl JsonFuel"
      if "parse_value n s = Inr (v, r2)" "skip_ws r2 \<noteq> []" for xs' v r2
      using rest_shorter(2) [OF parse_shorter(1) [OF that(1)] that(2)] 3 by (intro Suc.IH(3)) simp
    ultimately show ?case by (auto simp: Let_def rbind_Inl_iff split: if_split_asm)
  }
qed simp_all

lemma json_loads_enough_fuel: "json_loads s \<noteq> Inl JsonFuel"
proof -
  have "parse_value (2 * length s + 1) (skip_ws s) \<noteq> Inl JsonFuel"
    by (rule parse_enough_fuel(1)) (use skip_ws_shorter [of s] in simp)
  then show ?thesis by (auto simp: json_loads_def rbind_Inl_iff split: if_split_asm)
qed

end
