(* ===== verification/RedisOps.thy ===== *)
theory RedisOps
  imports PyJson
begin

text \<open>
  The Redis server as the governance and state components see it. Redis is not part of the
  repository, so its string commands are a parameter: a record \<open>redis_ops\<close> over an abstract server
  state with \<open>GET\<close>, \<open>SET\<close> and \<open>SETNX\<close>, and \<open>redis_laws\<close> states what their documentation
  promises. \<open>map_redis\<close> is an instance in which the laws hold.

  A client call goes over a network: \<open>delivery\<close> says whether it was executed and answered, never
  reached the server, or was executed while the answer was lost. The client sees an exception in
  the last two cases. \<open>EVALSHA\<close> and \<open>MULTI/EXEC\<close> pipelines are atomic, so each is one call. The
  client is one created with \<open>decode_responses=True\<close>: replies are \<open>str\<close>.

  Numbers cross the wire as decimal text: \<open>py_int_of_str\<close> is Python's \<open>int(s)\<close> and
  \<open>lua_tonumber\<close> Lua's \<open>tonumber\<close>, both on canonical decimals; \<open>lua_tostring\<close> is Lua's
  \<open>tostring\<close>, whose format \<open>%.14g\<close> is plain decimal exactly below \<open>10 ^ 14\<close>. Other spellings that
  \<open>int\<close> and \<open>tonumber\<close> accept (blanks, signs, fractions, exponents) count as not parsable here;
  the code that is modelled writes none below that bound.
\<close>

section \<open>Server interface\<close>

record 's redis_ops =
  redis_get :: "'s \<Rightarrow> string \<Rightarrow> string option"
  redis_set :: "'s \<Rightarrow> string \<Rightarrow> string \<Rightarrow> 's"
  redis_setnx :: "'s \<Rightarrow> string \<Rightarrow> string \<Rightarrow> 's"

definition redis_laws :: "'s redis_ops \<Rightarrow> bool" where
  "redis_laws R \<longleftrightarrow>
     (\<forall>s k v k'. redis_get R (redis_set R s k v) k' = (if k' = k then Some v else redis_get R s k'))
     \<and> (\<forall>s k v k'. redis_get R (redis_setnx R s k v) k' =
           (if k' = k \<and> redis_get R s k = None then Some v else redis_get R s k'))"

type_synonym kv = "(string \<times> string) list"

definition map_redis :: "kv redis_ops" where
  "map_redis =
     \<lparr>redis_get = map_of, redis_set = (\<lambda>s k v. AList.update k v s),
      redis_setnx = (\<lambda>s k v. if map_of s k = None then AList.update k v s else s)\<rparr>"

lemma map_redis_laws: "redis_laws map_redis"
  by (simp add: redis_laws_def map_redis_def map_of_update)

lemma redis_get_set: "redis_laws R \<Longrightarrow> redis_get R (redis_set R s k v) k' = (if k' = k then Some v else redis_get R s k')"
  by (simp add: redis_laws_def)

lemma redis_get_setnx:
  "redis_laws R \<Longrightarrow> redis_get R (redis_setnx R s k v) k' =
     (if k' = k \<and> redis_get R s k = None then Some v else redis_get R s k')"
  by (simp add: redis_laws_def)

section \<open>Calls\<close>

datatype delivery = Delivered | Request_lost | Reply_lost

text \<open>A call that changes the server; a reply \<open>Inl\<close> is an error reply of the server itself.\<close>

definition redis_call :: "delivery \<Rightarrow> ('s \<Rightarrow> 's \<times> (string + 'a)) \<Rightarrow> 's \<Rightarrow> 's \<times> (string + 'a)" where
  "redis_call d f s =
     (case d of
        Delivered \<Rightarrow> f s
      | Request_lost \<Rightarrow> (s, Inl ''connection'')
      | Reply_lost \<Rightarrow> (fst (f s), Inl ''connection''))"

lemma redis_call_simps [simp]:
  "redis_call Delivered f s = f s"
  "redis_call Request_lost f s = (s, Inl ''connection'')"
  "redis_call Reply_lost f s = (fst (f s), Inl ''connection'')"
  by (simp_all add: redis_call_def)

text \<open>Sequencing of operations that pass the server state on and may raise.\<close>

definition sbind :: "('s \<Rightarrow> 's \<times> ('e + 'a)) \<Rightarrow> ('a \<Rightarrow> 's \<Rightarrow> 's \<times> ('e + 'b)) \<Rightarrow> 's \<Rightarrow> 's \<times> ('e + 'b)" where
  "sbind m f s = (case m s of (s', Inl e) \<Rightarrow> (s', Inl e) | (s', Inr x) \<Rightarrow> f x s')"

definition sreturn :: "'a \<Rightarrow> 's \<Rightarrow> 's \<times> ('e + 'a)" where
  "sreturn x s = (s, Inr x)"

definition sraise :: "'e \<Rightarrow> 's \<Rightarrow> 's \<times> ('e + 'a)" where
  "sraise e s = (s, Inl e)"

lemma sbind_Inr: "m s = (s', Inr x) \<Longrightarrow> sbind m f s = f x s'"
  by (simp add: sbind_def)

lemma sbind_Inl: "m s = (s', Inl e) \<Longrightarrow> sbind m f s = (s', Inl e)"
  by (simp add: sbind_def)

lemma smonad_simps [simp]: "sreturn x s = (s, Inr x)" "sraise e s = (s, Inl e)"
  by (simp_all add: sreturn_def sraise_def)

section \<open>Numbers on the wire\<close>

definition parse_dec :: "string \<Rightarrow> int option" where
  "parse_dec s =
     (case s of
        [] \<Rightarrow> None
      | c # cs \<Rightarrow>
          (if c = CHR ''-''
           then (if cs \<noteq> [] \<and> list_all is_digit cs then Some (- int (nat_of_dec cs)) else None)
           else (if list_all is_digit s then Some (int (nat_of_dec s)) else None)))"

definition py_int_of_str :: "string \<Rightarrow> int option" where
  "py_int_of_str = parse_dec"

definition lua_tonumber :: "string \<Rightarrow> int option" where
  "lua_tonumber = parse_dec"

text \<open>
  \<open>%.14g\<close> of an integer: fourteen significant digits rounded half to even, trailing zeros dropped,
  and an exponent of at least two digits when the number needs more than fourteen digits.
\<close>

definition strip_zeros :: "string \<Rightarrow> string" where
  "strip_zeros s = rev (dropWhile (\<lambda>c. c = CHR ''0'') (rev s))"

definition lua_scientific :: "nat \<Rightarrow> string" where
  "lua_scientific m =
     (let d = length (dec_nat m); q = 10 ^ (d - 14); lo = m div q; rem = m mod q;
          up = (2 * rem > q \<or> 2 * rem = q \<and> odd lo);
          r = (if up then lo + 1 else lo);
          e = (if r = 10 ^ 14 then d else d - 1);
          ds = strip_zeros (dec_nat r);
          frac = tl ds
      in hd ds # (if frac = [] then [] else CHR ''.'' # frac) @ ''e+'' @ dec_nat e)"

definition lua_tostring :: "int \<Rightarrow> string" where
  "lua_tostring n =
     (if \<bar>n\<bar> < 10 ^ 14 then dec_int n
      else (if n < 0 then [CHR ''-''] else []) @ lua_scientific (nat \<bar>n\<bar>))"

text \<open>Python's \<open>str\<close> of an \<open>int\<close>; \<open>bool\<close> is a subclass of \<open>int\<close> and prints as a word.\<close>

definition py_int_like :: "pyval \<Rightarrow> int option" where
  "py_int_like v = (case v of PInt n \<Rightarrow> Some n | PBool b \<Rightarrow> Some (if b then 1 else 0) | _ \<Rightarrow> None)"

definition py_str_int :: "pyval \<Rightarrow> string" where
  "py_str_int v =
     (case v of PInt n \<Rightarrow> dec_int n | PBool b \<Rightarrow> (if b then ''True'' else ''False'') | _ \<Rightarrow> [])"

lemma parse_dec_dec_int [simp]: "parse_dec (dec_int n) = Some n"
proof (cases "n < 0")
  case True
  then show ?thesis
    by (auto simp: parse_dec_def dec_int_def list_all_iff dest: dec_nat_digits)
next
  case False
  obtain c cs where s: "dec_nat (nat n) = c # cs" by (cases "dec_nat (nat n)") auto
  then have "is_digit c" using dec_nat_digits [of c "nat n"] by simp
  then have "c \<noteq> CHR ''-''" by (rule digit_not_minus)
  moreover have "list_all is_digit (dec_nat (nat n))" by (auto simp: list_all_iff dest: dec_nat_digits)
  ultimately show ?thesis using False s nat_of_dec_dec_nat [of "nat n"]
    by (simp add: parse_dec_def dec_int_def)
qed

lemma wire_numbers [simp]:
  "py_int_of_str (dec_int n) = Some n" "lua_tonumber (dec_int n) = Some n"
  "py_str_int (PInt n) = dec_int n" "py_int_like (PInt n) = Some n"
  "\<bar>n\<bar> < 10 ^ 14 \<Longrightarrow> lua_tostring n = dec_int n"
  by (simp_all add: py_int_of_str_def lua_tonumber_def py_str_int_def py_int_like_def lua_tostring_def)

end
