(* ===== verification/AuthorityStore.thy ===== *)
theory AuthorityStore
  imports AuthorityEvaluation JsonLoads RedisOps
begin

text \<open>
  The read side of \<open>src/hfa-core/src/hfa/authority/redis_persistence.py\<close>: the keyspace of an
  aggregate, the payloads in which records, receipts and transition indexes are stored, the storage
  envelope with its SHA-1, and the operations that read stored evidence back and validate it:
  \<open>get_aggregate_snapshot\<close>, \<open>load_receipt_probe\<close>, the two prevalidations of \<open>commit\<close>, and
  \<open>load_aggregate_history\<close>.

  A Redis server holds a value per key (\<open>redis_view\<close>); an operation awaits one reply after another,
  and between two replies other clients may write, so the \<open>n\<close>-th call of an operation sees its own
  view \<open>V n\<close>, and \<open>None\<close> when the call raises. The client decodes replies to \<open>str\<close>.

  The properties: what \<open>load_aggregate_history\<close> returns is the complete, gap-free, state-chained
  history that ends in the head it was asked for, whatever else the server held and did meanwhile;
  storing a record's payload and reading it back gives the record; the prevalidation of a commit and
  \<open>load_receipt_probe\<close> accept the same evidence; the keys of different aggregates never meet.
\<close>

section \<open>The server as seen by a reader\<close>

datatype redis_kind = KString | KList | KSet | KZset | KStream

datatype redis_value = RHash "(string \<times> string) list" | ROther redis_kind

type_synonym redis_view = "string \<Rightarrow> redis_value option"

fun redis_kind_name :: "redis_kind \<Rightarrow> string" where
  "redis_kind_name KString = ''string''"
| "redis_kind_name KList = ''list''"
| "redis_kind_name KSet = ''set''"
| "redis_kind_name KZset = ''zset''"
| "redis_kind_name KStream = ''stream''"

datatype store_error =
    PersistenceError string
  | CorruptionError string
  | HistoryIncompleteError string
  | ObservationChangedError
  | StoreValueError string
  | StoreTypeError string
  | RedisFailure

definition redis_type :: "redis_view option \<Rightarrow> string \<Rightarrow> store_error + string" where
  "redis_type v key =
     (case v of
        None \<Rightarrow> Inl RedisFailure
      | Some view \<Rightarrow> Inr (case view key of
          None \<Rightarrow> ''none'' | Some (RHash _) \<Rightarrow> ''hash'' | Some (ROther k) \<Rightarrow> redis_kind_name k))"

definition redis_hgetall :: "redis_view option \<Rightarrow> string \<Rightarrow> store_error + (string \<times> string) list" where
  "redis_hgetall v key =
     (case v of
        None \<Rightarrow> Inl RedisFailure
      | Some view \<Rightarrow> (case view key of
          None \<Rightarrow> Inr [] | Some (RHash h) \<Rightarrow> Inr h | Some (ROther _) \<Rightarrow> Inl RedisFailure))"

definition redis_hget :: "redis_view option \<Rightarrow> string \<Rightarrow> string \<Rightarrow> store_error + string option" where
  "redis_hget v key field = rbind (redis_hgetall v key) (\<lambda>h. Inr (map_of h field))"

text \<open>\<open>except ... as exc: raise e\<close> for the errors selected by \<open>p\<close>.\<close>

definition rescue :: "('e \<Rightarrow> bool) \<Rightarrow> 'e \<Rightarrow> 'e + 'a \<Rightarrow> 'e + 'a" where
  "rescue p e m = (case m of Inl x \<Rightarrow> if p x then Inl e else Inl x | Inr v \<Rightarrow> Inr v)"

definition relabel :: "'f \<Rightarrow> 'e + 'a \<Rightarrow> 'f + 'a" where
  "relabel f m = (case m of Inl _ \<Rightarrow> Inl f | Inr v \<Rightarrow> Inr v)"

definition is_corruption :: "store_error \<Rightarrow> bool" where
  "is_corruption e = (case e of CorruptionError _ \<Rightarrow> True | _ \<Rightarrow> False)"

section \<open>Keyspace\<close>

record keyspace =
  ks_identity_sha256 :: string
  ks_namespace :: string

definition nonempty_text :: "string \<Rightarrow> string \<Rightarrow> store_error + string" where
  "nonempty_text field_name v = (if v = [] then Inl (StoreValueError field_name) else Inr v)"

definition sha256_text :: "string \<Rightarrow> string \<Rightarrow> store_error + string" where
  "sha256_text field_name v = (if sha256_re v then Inr v else Inl (StoreValueError field_name))"

definition safe_int_value :: "string \<Rightarrow> int \<Rightarrow> int \<Rightarrow> store_error + int" where
  "safe_int_value field_name minimum v =
     (if v < minimum \<or> max_safe_integer < v then Inl (StoreValueError field_name) else Inr v)"

definition make_keyspace :: "string \<Rightarrow> string \<Rightarrow> store_error + keyspace" where
  "make_keyspace sha namespace =
     rbind (sha256_text ''canonical_aggregate_identity_sha256'' sha) (\<lambda>_.
       if namespace = [] \<or> CHR 0x7B \<in> set namespace \<or> CHR 0x7D \<in> set namespace
       then Inl (StoreValueError ''namespace'')
       else Inr \<lparr>ks_identity_sha256 = sha, ks_namespace = namespace\<rparr>)"

definition hash_tag :: "keyspace \<Rightarrow> string" where
  "hash_tag ks = [CHR 0x7B] @ ks_identity_sha256 ks @ [CHR 0x7D]"

definition member_key :: "string \<Rightarrow> keyspace \<Rightarrow> string" where
  "member_key part ks = ks_namespace ks @ '':'' @ hash_tag ks @ '':'' @ part"

definition aggregate_key :: "keyspace \<Rightarrow> string" where
  "aggregate_key ks = member_key ''aggregate'' ks"

definition transition_indexes_key :: "keyspace \<Rightarrow> string" where
  "transition_indexes_key ks = member_key ''transition-indexes'' ks"

definition receipts_key :: "keyspace \<Rightarrow> string" where
  "receipts_key ks = member_key ''receipts'' ks"

definition operation_records_key :: "keyspace \<Rightarrow> string" where
  "operation_records_key ks = member_key ''operation-records'' ks"

definition transition_log_key :: "keyspace \<Rightarrow> string" where
  "transition_log_key ks = member_key ''log'' ks"

definition outbox_key :: "keyspace \<Rightarrow> string" where
  "outbox_key ks = member_key ''outbox'' ks"

definition conflict_index_key :: "keyspace \<Rightarrow> string" where
  "conflict_index_key ks = member_key ''conflict-index'' ks"

definition conflicts_key :: "keyspace \<Rightarrow> string" where
  "conflicts_key ks = member_key ''conflicts'' ks"

definition operator_audits_key :: "keyspace \<Rightarrow> string" where
  "operator_audits_key ks = member_key ''operator-audits'' ks"

definition commit_keys :: "keyspace \<Rightarrow> string list" where
  "commit_keys ks =
     [aggregate_key ks, transition_indexes_key ks, receipts_key ks, operation_records_key ks,
      transition_log_key ks, outbox_key ks, conflict_index_key ks, conflicts_key ks]"

definition operation_digest :: "string \<Rightarrow> store_error + string" where
  "operation_digest operation_id =
     rbind (nonempty_text ''operation_id'' operation_id) (\<lambda>v.
       Inr (sha256_hexdigest (be_bytes 8 (length v) @ v)))"

section \<open>Payloads\<close>

definition map_items :: "pyval \<Rightarrow> (pyval \<times> pyval) list" where
  "map_items v = (case v of PMap kvs \<Rightarrow> kvs | _ \<Rightarrow> [])"

definition record_payload :: "externals \<Rightarrow> ctr \<Rightarrow> authority_error + pyval" where
  "record_payload E r =
     rbind (validate_record E r) (\<lambda>_.
       Inr (PMap (map_items (immutable_payload r) @ [(PStr ''canonical_record_hash'', rec_record_hash r)])))"

definition receipt_payload :: "operation_receipt \<Rightarrow> pyval" where
  "receipt_payload rc =
     PMap [(PStr ''operation_id'', rcpt_operation_id rc),
           (PStr ''canonical_command_hash'', rcpt_command_hash rc),
           (PStr ''canonical_record_hash'', rcpt_record_hash rc),
           (PStr ''transition_id'', rcpt_transition_id rc),
           (PStr ''aggregate_revision'', rcpt_aggregate_revision rc),
           (PStr ''operation_type'', rcpt_operation_type rc),
           (PStr ''committed_at_ms'', rcpt_committed_at_ms rc)]"

definition transition_index_payload :: "ctr \<Rightarrow> pyval" where
  "transition_index_payload r =
     PMap [(PStr ''transition_id'', rec_transition_id r),
           (PStr ''canonical_record_hash'', rec_record_hash r),
           (PStr ''operation_id'', rec_operation_id r),
           (PStr ''aggregate_revision'', rec_to_revision r)]"

text \<open>\<open>payload[key]\<close>, where a missing key is a \<open>KeyError\<close>, and \<open>payload.get(key)\<close>.\<close>

definition dict_item :: "(pyval \<times> pyval) list \<Rightarrow> string \<Rightarrow> unit + pyval" where
  "dict_item d key = (case dict_get d key of None \<Rightarrow> Inl () | Some v \<Rightarrow> Inr v)"

definition dict_get_or :: "(pyval \<times> pyval) list \<Rightarrow> string \<Rightarrow> pyval \<Rightarrow> pyval" where
  "dict_get_or d key v = (case dict_get d key of None \<Rightarrow> v | Some w \<Rightarrow> w)"

text \<open>Iterating a decoded JSON value: a list gives its items, an object its keys, a string its characters.\<close>

definition is_continuation :: "char \<Rightarrow> bool" where
  "is_continuation c \<longleftrightarrow> 128 \<le> (of_char c :: nat) \<and> (of_char c :: nat) < 192"

function utf8_chars :: "string \<Rightarrow> string list" where
  "utf8_chars [] = []"
| "utf8_chars (c # cs) = (c # takeWhile is_continuation cs) # utf8_chars (dropWhile is_continuation cs)"
  by pat_completeness auto
termination by (relation "measure length") (auto simp: less_Suc_eq_le length_dropWhile_le)

definition py_iter :: "pyval \<Rightarrow> unit + pyval list" where
  "py_iter v =
     (case v of
        PSeq xs \<Rightarrow> Inr xs
      | PMap kvs \<Rightarrow> Inr (map fst kvs)
      | PStr s \<Rightarrow> Inr (map PStr (utf8_chars s))
      | PBytes b \<Rightarrow> Inr (map (\<lambda>c. PInt (of_char c)) b)
      | _ \<Rightarrow> Inl ())"

definition coerce_aggregate :: "pyval \<Rightarrow> unit + aggregate_type" where
  "coerce_aggregate v =
     (if v = PStr ''task'' then Inr TASK else if v = PStr ''run'' then Inr RUN else Inl ())"

definition identity_from_payload :: "externals \<Rightarrow> (pyval \<times> pyval) list \<Rightarrow> unit + aggregate_identity" where
  "identity_from_payload E payload =
     rbind (dict_item payload ''canonical_aggregate_identity'') (\<lambda>structured.
       case structured of
         PMap s \<Rightarrow>
           rbind (dict_item payload ''aggregate_type'') (\<lambda>t.
           rbind (coerce_aggregate t) (\<lambda>ty.
           rbind (dict_item s ''run_id'') (\<lambda>run.
             relabel () (make_identity E ty run (dict_get_or s ''task_id'' PNone)))))
       | _ \<Rightarrow> Inl ())"

definition decode_record :: "externals \<Rightarrow> (pyval \<times> pyval) list \<Rightarrow> unit + ctr" where
  "decode_record E payload =
     rbind (identity_from_payload E payload) (\<lambda>i.
     rbind (dict_item payload ''schema_version'') (\<lambda>schema.
     rbind (dict_item payload ''transition_id'') (\<lambda>tid.
     rbind (dict_item payload ''canonical_aggregate_identity_sha256'') (\<lambda>sha.
     rbind (dict_item payload ''from_revision'') (\<lambda>from_rev.
     rbind (dict_item payload ''to_revision'') (\<lambda>to_rev.
     rbind (dict_item payload ''operation_type'') (\<lambda>op.
     rbind (dict_item payload ''operation_id'') (\<lambda>oid.
     rbind (dict_item payload ''canonical_command_hash'') (\<lambda>ch.
     rbind (dict_item payload ''canonical_record_hash'') (\<lambda>rh.
     rbind (relabel () (freeze E (dict_get_or payload ''authoritative_metadata_changes'' PNone))) (\<lambda>meta.
     rbind (relabel () (freeze E (dict_get_or payload ''child_effects'' PNone))) (\<lambda>effects.
     rbind (dict_item payload ''writer_id'') (\<lambda>writer.
     rbind (dict_item payload ''committed_at_ms'') (\<lambda>ms.
     rbind (py_iter (dict_get_or payload ''durable_projection_intents'' (PSeq []))) (\<lambda>items.
     rbind (relabel () (rtraverse (freeze E) items)) (\<lambda>intents.
       Inr \<lparr>rec_schema_version = schema, rec_transition_id = tid, rec_identity = i,
            rec_identity_sha256 = sha, rec_from_revision = from_rev, rec_to_revision = to_rev,
            rec_operation_type = op, rec_operation_id = oid, rec_command_hash = ch, rec_record_hash = rh,
            rec_previous_state = dict_get_or payload ''previous_state'' PNone,
            rec_next_state = dict_get_or payload ''next_state'' PNone,
            rec_metadata_changes = meta, rec_child_effects = effects,
            rec_causation_id = dict_get_or payload ''causation_id'' PNone,
            rec_correlation_id = dict_get_or payload ''correlation_id'' PNone,
            rec_writer_id = writer, rec_committed_at_ms = ms, rec_projection_intents = intents\<rparr>))))))))))))))))"

definition record_from_payload :: "externals \<Rightarrow> (pyval \<times> pyval) list \<Rightarrow> store_error + ctr" where
  "record_from_payload E payload =
     relabel (PersistenceError ''invalid persisted canonical record'')
       (rbind (decode_record E payload) (\<lambda>r. rbind (relabel () (validate_record E r)) (\<lambda>_. Inr r)))"

definition receipt_from_payload :: "externals \<Rightarrow> (pyval \<times> pyval) list \<Rightarrow> store_error + operation_receipt" where
  "receipt_from_payload E payload =
     relabel (PersistenceError ''invalid persisted operation receipt'')
       (rbind (dict_item payload ''operation_id'') (\<lambda>oid.
        rbind (dict_item payload ''canonical_command_hash'') (\<lambda>ch.
        rbind (dict_item payload ''canonical_record_hash'') (\<lambda>rh.
        rbind (dict_item payload ''transition_id'') (\<lambda>tid.
        rbind (dict_item payload ''aggregate_revision'') (\<lambda>rev.
        rbind (dict_item payload ''operation_type'') (\<lambda>op.
        rbind (dict_item payload ''committed_at_ms'') (\<lambda>ms.
          let rc = \<lparr>rcpt_operation_id = oid, rcpt_command_hash = ch, rcpt_record_hash = rh,
                    rcpt_transition_id = tid, rcpt_aggregate_revision = rev, rcpt_operation_type = op,
                    rcpt_committed_at_ms = ms\<rparr>
          in rbind (relabel () (validate_receipt E rc)) (\<lambda>_. Inr rc)))))))))"

section \<open>Envelopes\<close>

definition decode_object :: "string \<Rightarrow> string \<Rightarrow> store_error + (pyval \<times> pyval) list" where
  "decode_object field_name raw =
     (case json_loads raw of
        Inl JSONDecodeError \<Rightarrow> Inl (PersistenceError field_name)
      | Inl _ \<Rightarrow> Inl (StoreValueError field_name)
      | Inr (PMap kvs) \<Rightarrow> Inr kvs
      | Inr _ \<Rightarrow> Inl (PersistenceError field_name))"

definition decode_storage_envelope :: "string \<Rightarrow> string \<Rightarrow> store_error + string \<times> (pyval \<times> pyval) list" where
  "decode_storage_envelope field_name raw =
     rbind (decode_object field_name raw) (\<lambda>envelope.
       if fst ` set envelope \<noteq> {PStr ''payload'', PStr ''storage_sha1''} then Inl (PersistenceError field_name)
       else case (dict_get envelope ''payload'', dict_get envelope ''storage_sha1'') of
         (Some (PStr payload), Some (PStr digest)) \<Rightarrow>
           (if \<not> sha1_re digest then Inl (PersistenceError field_name)
            else if \<not> utf8_encodable payload then Inl (StoreValueError field_name)
            else if sha1_hexdigest payload \<noteq> digest then Inl (PersistenceError field_name)
            else rbind (decode_object field_name payload) (\<lambda>d. Inr (payload, d)))
       | _ \<Rightarrow> Inl (PersistenceError field_name))"

definition validate_transition_index :: "(pyval \<times> pyval) list \<Rightarrow> ctr \<Rightarrow> store_error + unit" where
  "validate_transition_index payload r =
     rguard (py_eq (PMap payload) (transition_index_payload r))
       (PersistenceError ''transition index does not match canonical record'')"

definition validate_plan :: "externals \<Rightarrow> commit_plan \<Rightarrow> (authority_error + store_error) + unit" where
  "validate_plan E plan =
     (let r = plan_record plan; rc = plan_receipt plan in
      case validate_record E r of
        Inl e \<Rightarrow> Inl (Inl e)
      | Inr _ \<Rightarrow>
          (case validate_receipt E rc of
             Inl e \<Rightarrow> Inl (Inl e)
           | Inr _ \<Rightarrow>
               if plan_identity plan \<noteq> rec_identity r
               then Inl (Inr (PersistenceError ''commit plan aggregate identity mismatch''))
               else if plan_revision plan \<noteq> rec_to_revision r
               then Inl (Inr (PersistenceError ''commit plan revision mismatch''))
               else if \<not> receipt_matches rc r
               then Inl (Inr (PersistenceError ''commit plan receipt/record mismatch''))
               else Inr ()))"

text \<open>The three decoders as the readers use them: an envelope, then its payload.\<close>

definition read_record :: "externals \<Rightarrow> string \<Rightarrow> store_error + ctr" where
  "read_record E raw =
     rbind (decode_storage_envelope ''canonical operation record'' raw) (\<lambda>(_, p). record_from_payload E p)"

definition read_receipt :: "externals \<Rightarrow> string \<Rightarrow> store_error + operation_receipt" where
  "read_receipt E raw =
     rbind (decode_storage_envelope ''operation receipt'' raw) (\<lambda>(_, p). receipt_from_payload E p)"

definition check_index :: "string \<Rightarrow> ctr \<Rightarrow> store_error + unit" where
  "check_index raw r =
     rbind (decode_storage_envelope ''canonical transition index'' raw) (\<lambda>(_, p). validate_transition_index p r)"

section \<open>The aggregate head\<close>

record aggregate_snapshot =
  snap_identity_sha256 :: string
  snap_revision :: int
  snap_state :: "string option"
  snap_transition_id :: string
  snap_record_hash :: string
  snap_command_hash :: string
  snap_operation_id :: string
  snap_operation_digest :: string
  snap_projection_intents_json :: string
  snap_updated_at_ms :: int

definition snapshot_fields :: "string set" where
  "snapshot_fields =
     {''canonical_aggregate_identity_sha256'', ''revision'', ''state'', ''state_is_null'', ''transition_id'',
      ''canonical_record_hash'', ''canonical_command_hash'', ''operation_id'', ''operation_digest'',
      ''projection_intents_json'', ''updated_at_ms''}"

text \<open>
  Python's \<open>int(text)\<close>: ASCII blanks around, an optional sign, digits with single underscores
  between them, at most 4300 digits.
\<close>

definition int_blank :: "char \<Rightarrow> bool" where
  "int_blank c \<longleftrightarrow> (of_char c :: nat) \<in> {32, 9, 10, 11, 12, 13, 28, 29, 30, 31}"

definition strip_blanks :: "string \<Rightarrow> string" where
  "strip_blanks s = rev (dropWhile int_blank (rev (dropWhile int_blank s)))"

fun digits_of_literal :: "string \<Rightarrow> string option" where
  "digits_of_literal [] = None"
| "digits_of_literal [c] = (if is_digit c then Some [c] else None)"
| "digits_of_literal (c # d # s) =
     (if \<not> is_digit c then None
      else if d = CHR ''_'' then map_option (Cons c) (digits_of_literal s)
      else map_option (Cons c) (digits_of_literal (d # s)))"

definition py_int_text :: "string \<Rightarrow> store_error + int" where
  "py_int_text s =
     (let t = strip_blanks s;
          neg = (t \<noteq> [] \<and> hd t = CHR ''-'');
          u = (if t \<noteq> [] \<and> hd t \<in> set ''+-'' then tl t else t)
      in case digits_of_literal u of
           None \<Rightarrow> Inl (StoreValueError ''int'')
         | Some ds \<Rightarrow> (if int_digit_limit < length ds then Inl (StoreValueError ''int'')
                       else Inr (signed_int neg (nat_of_dec ds))))"

definition data_field :: "(string \<times> string) list \<Rightarrow> string \<Rightarrow> string" where
  "data_field data k = (case map_of data k of None \<Rightarrow> [] | Some v \<Rightarrow> v)"

definition snapshot_state :: "(string \<times> string) list \<Rightarrow> store_error + string option" where
  "snapshot_state data =
     (if data_field data ''state_is_null'' \<notin> {''0'', ''1''} then Inl (StoreValueError ''state_is_null'')
      else if data_field data ''state_is_null'' = ''1''
        then (if data_field data ''state'' \<noteq> [] then Inl (StoreValueError ''state'') else Inr None)
      else rbind (nonempty_text ''snapshot state'' (data_field data ''state'')) (\<lambda>s. Inr (Some s)))"

definition check_intents_json :: "string \<Rightarrow> store_error + unit" where
  "check_intents_json text =
     (case json_loads text of
        Inr (PSeq _) \<Rightarrow> Inr ()
      | _ \<Rightarrow> Inl (StoreValueError ''projection_intents_json''))"

definition parse_snapshot :: "(string \<times> string) list \<Rightarrow> store_error + aggregate_snapshot" where
  "parse_snapshot data =
     rbind (sha256_text ''snapshot identity'' (data_field data ''canonical_aggregate_identity_sha256'')) (\<lambda>sha.
     rbind (py_int_text (data_field data ''revision'')) (\<lambda>rev0.
     rbind (safe_int_value ''snapshot revision'' 1 rev0) (\<lambda>rev.
     rbind (py_int_text (data_field data ''updated_at_ms'')) (\<lambda>ms0.
     rbind (safe_int_value ''snapshot updated_at_ms'' 0 ms0) (\<lambda>ms.
     rbind (snapshot_state data) (\<lambda>state.
     rbind (nonempty_text ''snapshot transition_id'' (data_field data ''transition_id'')) (\<lambda>tid.
     rbind (sha256_text ''snapshot canonical_record_hash'' (data_field data ''canonical_record_hash'')) (\<lambda>rh.
     rbind (sha256_text ''snapshot canonical_command_hash'' (data_field data ''canonical_command_hash'')) (\<lambda>ch.
     rbind (nonempty_text ''snapshot operation_id'' (data_field data ''operation_id'')) (\<lambda>oid.
     rbind (sha256_text ''snapshot operation_digest'' (data_field data ''operation_digest'')) (\<lambda>dig.
     rbind (operation_digest oid) (\<lambda>expected.
     rbind (rguard (dig = expected) (StoreValueError ''snapshot operation digest mismatch'')) (\<lambda>_.
     rbind (check_intents_json (data_field data ''projection_intents_json'')) (\<lambda>_.
       Inr \<lparr>snap_identity_sha256 = sha, snap_revision = rev, snap_state = state, snap_transition_id = tid,
            snap_record_hash = rh, snap_command_hash = ch, snap_operation_id = oid, snap_operation_digest = dig,
            snap_projection_intents_json = data_field data ''projection_intents_json'',
            snap_updated_at_ms = ms\<rparr>))))))))))))))"

definition type_in :: "string list \<Rightarrow> store_error \<Rightarrow> store_error + string \<Rightarrow> store_error + string" where
  "type_in allowed e m = rbind m (\<lambda>t. if t \<in> set allowed then Inr t else Inl e)"

text \<open>\<open>get_aggregate_snapshot\<close> makes two calls, \<open>TYPE\<close> and \<open>HGETALL\<close>.\<close>

definition get_aggregate_snapshot :: "string \<Rightarrow> aggregate_identity \<Rightarrow> redis_view option \<Rightarrow> redis_view option
    \<Rightarrow> store_error + aggregate_snapshot option" where
  "get_aggregate_snapshot namespace i v0 v1 =
     rbind (rescue (\<lambda>e. \<not> is_corruption e) (PersistenceError ''aggregate snapshot Redis read failed'')
       (rbind (make_keyspace (identity_sha256 i) namespace) (\<lambda>ks.
        rbind (type_in [''none'', ''hash''] (CorruptionError ''aggregate snapshot key type mismatch'')
                 (redis_type v0 (aggregate_key ks))) (\<lambda>_.
          redis_hgetall v1 (aggregate_key ks))))) (\<lambda>raw.
       if raw = [] then Inr None
       else if fst ` set raw \<noteq> snapshot_fields
       then Inl (CorruptionError ''aggregate snapshot fields are incomplete or unexpected'')
       else rbind (relabel (CorruptionError ''invalid aggregate snapshot'') (parse_snapshot raw)) (\<lambda>snap.
         if snap_identity_sha256 snap \<noteq> identity_sha256 i
         then Inl (CorruptionError ''aggregate snapshot identity mismatch'')
         else Inr (Some snap)))"

section \<open>Receipt probes\<close>

text \<open>
  \<open>load_receipt_probe\<close>: three \<open>TYPE\<close> calls and two \<open>HGET\<close> calls, then \<open>HGET\<close> of the transition
  index that the decoded record names (\<open>probe_from_raw\<close>). The identity digest that the last check
  compares with is the one the keyspace was built from.
\<close>

definition probe_from_raw :: "externals \<Rightarrow> keyspace \<Rightarrow> string \<Rightarrow> string \<Rightarrow> string \<Rightarrow> redis_view option
    \<Rightarrow> store_error + receipt_probe option" where
  "probe_from_raw E ks oid raw_receipt raw_record v =
     rbind (relabel (CorruptionError ''stored receipt proof is invalid'')
       (rbind (decode_storage_envelope ''operation receipt'' raw_receipt) (\<lambda>(_, rp).
        rbind (decode_storage_envelope ''canonical operation record'' raw_record) (\<lambda>(_, dp).
        rbind (receipt_from_payload E rp) (\<lambda>rc.
        rbind (record_from_payload E dp) (\<lambda>r. Inr (rc, r))))))) (\<lambda>(rc, r).
     rbind (relabel (PersistenceError ''transition index Redis read failed'')
       (rbind (nonempty_text ''transition_id'' (str_of (rec_transition_id r))) (\<lambda>t.
        redis_hget v (transition_indexes_key ks) t))) (\<lambda>raw_index.
       case raw_index of
         None \<Rightarrow> Inl (CorruptionError ''canonical transition index is missing'')
       | Some ri \<Rightarrow>
           rbind (relabel (CorruptionError ''stored transition proof is invalid'') (check_index ri r)) (\<lambda>_.
           let probe = \<lparr>probe_receipt = rc, probe_store_record = Some r\<rparr> in
           rbind (relabel (CorruptionError ''stored receipt proof mismatch'')
             (validate_stored_duplicate_proof E probe (ks_identity_sha256 ks) oid)) (\<lambda>_. Inr (Some probe)))))"

definition load_receipt_probe :: "externals \<Rightarrow> string \<Rightarrow> aggregate_identity \<Rightarrow> string
    \<Rightarrow> (nat \<Rightarrow> redis_view option) \<Rightarrow> store_error + receipt_probe option" where
  "load_receipt_probe E namespace i operation_id V =
     rbind (nonempty_text ''operation_id'' operation_id) (\<lambda>oid.
     rbind (make_keyspace (identity_sha256 i) namespace) (\<lambda>ks.
     rbind (operation_digest oid) (\<lambda>dig.
     rbind (rescue (\<lambda>e. e = RedisFailure) (PersistenceError ''receipt proof Redis read failed'')
       (rbind (redis_type (V 0) (receipts_key ks)) (\<lambda>receipt_type.
        rbind (redis_type (V 1) (operation_records_key ks)) (\<lambda>record_type.
        rbind (redis_type (V 2) (transition_indexes_key ks)) (\<lambda>index_type.
          if receipt_type \<notin> {''none'', ''hash''} then Inl (CorruptionError ''operation receipt key type mismatch'')
          else if record_type \<notin> {''none'', ''hash''}
            then Inl (CorruptionError ''canonical operation record key type mismatch'')
          else if index_type \<notin> {''none'', ''hash''}
            then Inl (CorruptionError ''canonical transition index key type mismatch'')
          else rbind (redis_hget (V 3) (receipts_key ks) dig) (\<lambda>raw_receipt.
            rbind (redis_hget (V 4) (operation_records_key ks) dig) (\<lambda>raw_record.
              Inr (raw_receipt, raw_record)))))))) (\<lambda>(raw_receipt, raw_record).
       case (raw_receipt, raw_record) of
         (None, None) \<Rightarrow> Inr None
       | (Some rr, Some rd) \<Rightarrow>
           probe_from_raw E ks oid rr rd (V 5)
       | _ \<Rightarrow> Inl (CorruptionError ''stored receipt proof is incomplete'')))))"

section \<open>Prevalidation of a commit\<close>

datatype prevalidation_status = PV_ABSENT | PV_VALID | PV_INVALID

record prevalidation =
  pv_status :: prevalidation_status
  pv_record_sha1 :: string
  pv_receipt_sha1 :: string
  pv_index_sha1 :: string

definition raw_sha1 :: "string option \<Rightarrow> string" where
  "raw_sha1 v = (case v of None \<Rightarrow> [] | Some s \<Rightarrow> sha1_hexdigest s)"

definition pv_absent :: prevalidation where
  "pv_absent = \<lparr>pv_status = PV_ABSENT, pv_record_sha1 = [], pv_receipt_sha1 = [], pv_index_sha1 = []\<rparr>"

definition pv_invalid :: "string option \<Rightarrow> string option \<Rightarrow> string option \<Rightarrow> prevalidation" where
  "pv_invalid rd rr ri =
     \<lparr>pv_status = PV_INVALID, pv_record_sha1 = raw_sha1 rd, pv_receipt_sha1 = raw_sha1 rr, pv_index_sha1 = raw_sha1 ri\<rparr>"

text \<open>The first four decoding steps of the \<open>try\<close> block; any of them may raise one of the caught errors.\<close>

definition decode_pair :: "externals \<Rightarrow> string \<Rightarrow> string \<Rightarrow> store_error + ctr \<times> operation_receipt" where
  "decode_pair E rd rr =
     rbind (decode_storage_envelope ''canonical operation record'' rd) (\<lambda>(_, dp).
     rbind (decode_storage_envelope ''operation receipt'' rr) (\<lambda>(_, rp).
     rbind (record_from_payload E dp) (\<lambda>r.
     rbind (receipt_from_payload E rp) (\<lambda>rc. Inr (r, rc)))))"

definition check_pair :: "externals \<Rightarrow> keyspace \<Rightarrow> string \<Rightarrow> ctr \<Rightarrow> operation_receipt \<Rightarrow> string \<Rightarrow> bool" where
  "check_pair E ks operation_id r rc ri \<longleftrightarrow>
     is_ok (check_index ri r)
     \<and> is_ok (validate_stored_duplicate_proof E \<lparr>probe_receipt = rc, probe_store_record = Some r\<rparr>
          (ks_identity_sha256 ks) operation_id)"

definition prevalidate_raw_proof :: "externals \<Rightarrow> keyspace \<Rightarrow> string \<Rightarrow> string option \<Rightarrow> string option
    \<Rightarrow> redis_view option \<Rightarrow> redis_view option \<Rightarrow> store_error + prevalidation" where
  "prevalidate_raw_proof E ks operation_id raw_record raw_receipt v0 v1 =
     (case (raw_record, raw_receipt) of
        (None, None) \<Rightarrow> Inr pv_absent
      | (Some rd, Some rr) \<Rightarrow>
          (case decode_pair E rd rr of
             Inl _ \<Rightarrow> Inr (pv_invalid raw_record raw_receipt None)
           | Inr (r, rc) \<Rightarrow>
               rbind (redis_type v0 (transition_indexes_key ks)) (\<lambda>index_kind.
                 if index_kind \<notin> {''none'', ''hash''} then Inr (pv_invalid raw_record raw_receipt None)
                 else rbind (redis_hget v1 (transition_indexes_key ks) (str_of (rec_transition_id r))) (\<lambda>raw_index.
                   case raw_index of
                     None \<Rightarrow> Inr (pv_invalid raw_record raw_receipt None)
                   | Some ri \<Rightarrow>
                       if check_pair E ks operation_id r rc ri
                       then Inr \<lparr>pv_status = PV_VALID, pv_record_sha1 = raw_sha1 raw_record,
                                 pv_receipt_sha1 = raw_sha1 raw_receipt, pv_index_sha1 = raw_sha1 raw_index\<rparr>
                       else Inr (pv_invalid raw_record raw_receipt raw_index))))
      | _ \<Rightarrow> Inr (pv_invalid raw_record raw_receipt None))"

text \<open>
  \<open>_prevalidate_operation_proof\<close>: the first two \<open>TYPE\<close> calls are outside the \<open>try\<close> block, the next
  two and the two \<open>HGET\<close> calls inside.
\<close>

definition prevalidate_operation_proof :: "externals \<Rightarrow> keyspace \<Rightarrow> string \<Rightarrow> (nat \<Rightarrow> redis_view option)
    \<Rightarrow> store_error + prevalidation" where
  "prevalidate_operation_proof E ks operation_id V =
     rbind (operation_digest operation_id) (\<lambda>dig.
     rbind (redis_type (V 0) (receipts_key ks)) (\<lambda>receipt_kind.
     rbind (redis_type (V 1) (operation_records_key ks)) (\<lambda>record_kind.
       if receipt_kind \<notin> {''none'', ''hash''} \<or> record_kind \<notin> {''none'', ''hash''} then Inr pv_absent
       else rbind (rescue (\<lambda>e. e = RedisFailure) (PersistenceError ''receipt proof Redis read failed'')
         (rbind (redis_type (V 2) (receipts_key ks)) (\<lambda>receipt_type.
          rbind (redis_type (V 3) (operation_records_key ks)) (\<lambda>record_type.
            if receipt_type \<notin> {''none'', ''hash''} \<or> record_type \<notin> {''none'', ''hash''}
            then Inl (CorruptionError ''stored receipt proof key type mismatch'')
            else rbind (redis_hget (V 4) (receipts_key ks) dig) (\<lambda>raw_receipt.
              rbind (redis_hget (V 5) (operation_records_key ks) dig) (\<lambda>raw_record.
                Inr (raw_receipt, raw_record))))))) (\<lambda>(raw_receipt, raw_record).
         prevalidate_raw_proof E ks operation_id raw_record raw_receipt (V 6) (V 7)))))"

definition prevalidate_head_proof :: "externals \<Rightarrow> keyspace \<Rightarrow> (nat \<Rightarrow> redis_view option)
    \<Rightarrow> store_error + prevalidation" where
  "prevalidate_head_proof E ks V =
     rbind (redis_type (V 0) (aggregate_key ks)) (\<lambda>kind.
       if kind = ''none'' then Inr pv_absent
       else if kind \<noteq> ''hash'' then Inr (pv_invalid None None None)
       else rbind (redis_hgetall (V 1) (aggregate_key ks)) (\<lambda>data.
         if data = [] \<or> fst ` set data \<noteq> snapshot_fields then Inr (pv_invalid None None None)
         else let operation_id = data_field data ''operation_id''; dig = data_field data ''operation_digest'';
                  tid = data_field data ''transition_id''
         in if operation_id = [] \<or> operation_digest operation_id \<noteq> Inr dig \<or> tid = []
            then Inr (pv_invalid None None None)
            else rbind (redis_type (V 2) (receipts_key ks)) (\<lambda>k1.
              rbind (redis_type (V 3) (operation_records_key ks)) (\<lambda>k2.
              rbind (redis_type (V 4) (transition_indexes_key ks)) (\<lambda>k3.
                if \<not> {k1, k2, k3} \<subseteq> {''none'', ''hash''} then Inr (pv_invalid None None None)
                else rbind (redis_hget (V 5) (receipts_key ks) dig) (\<lambda>raw_receipt.
                  rbind (redis_hget (V 6) (operation_records_key ks) dig) (\<lambda>raw_record.
                  rbind (redis_hget (V 7) (transition_indexes_key ks) tid) (\<lambda>raw_index.
                    if raw_record = None \<or> raw_receipt = None
                    then Inr (pv_invalid raw_record raw_receipt raw_index)
                    else prevalidate_raw_proof E ks operation_id raw_record raw_receipt (V 8) (V 9)))))))))"

section \<open>Aggregate histories\<close>

record historical_operation =
  hist_revision :: pyval
  hist_operation_digest :: string
  hist_record :: ctr
  hist_receipt :: operation_receipt

record aggregate_history =
  history_snapshot :: aggregate_snapshot
  history_operations :: "historical_operation list"

record seen_members =
  seen_operation_ids :: "pyval set"
  seen_transition_ids :: "pyval set"
  seen_revisions :: "pyval set"

text \<open>One round of the loop over the stored operation records.\<close>

definition history_row :: "externals \<Rightarrow> aggregate_identity \<Rightarrow> (string \<times> string) list \<Rightarrow> (string \<times> string) list
    \<Rightarrow> seen_members \<Rightarrow> string \<times> string \<Rightarrow> store_error + historical_operation" where
  "history_row E i receipts indexes seen item =
     rbind (relabel (CorruptionError ''canonical historical operation record is invalid'') (read_record E (snd item))) (\<lambda>r.
     rbind (operation_digest (str_of (rec_operation_id r))) (\<lambda>expected.
       if fst item \<noteq> expected then Inl (CorruptionError ''canonical historical operation digest field mismatch'')
       else if rec_identity r \<noteq> i \<or> rec_identity_sha256 r \<noteq> PStr (identity_sha256 i)
         then Inl (CorruptionError ''canonical historical operation aggregate identity mismatch'')
       else if \<not> verify_hash E r then Inl (CorruptionError ''canonical historical operation record hash mismatch'')
       else if rec_operation_id r \<in> seen_operation_ids seen
         then Inl (CorruptionError ''duplicate canonical historical operation_id'')
       else if rec_transition_id r \<in> seen_transition_ids seen
         then Inl (CorruptionError ''duplicate canonical historical transition_id'')
       else if rec_to_revision r \<in> seen_revisions seen
         then Inl (CorruptionError ''duplicate canonical historical revision'')
       else case map_of receipts expected of
         None \<Rightarrow> Inl (HistoryIncompleteError ''canonical operation receipt missing'')
       | Some raw_receipt \<Rightarrow>
           rbind (relabel (CorruptionError ''canonical historical operation receipt is invalid'')
                    (read_receipt E raw_receipt)) (\<lambda>rc.
             if \<not> receipt_matches rc r
             then Inl (CorruptionError ''canonical historical record/receipt continuity mismatch'')
             else case map_of indexes (str_of (rec_transition_id r)) of
               None \<Rightarrow> Inl (HistoryIncompleteError ''canonical transition index missing'')
             | Some raw_index \<Rightarrow>
                 rbind (relabel (CorruptionError ''canonical historical transition index is invalid'')
                          (check_index raw_index r)) (\<lambda>_.
                   Inr \<lparr>hist_revision = rec_to_revision r, hist_operation_digest = expected,
                        hist_record = r, hist_receipt = rc\<rparr>))))"

definition see :: "historical_operation \<Rightarrow> seen_members \<Rightarrow> seen_members" where
  "see h seen =
     \<lparr>seen_operation_ids = insert (rec_operation_id (hist_record h)) (seen_operation_ids seen),
      seen_transition_ids = insert (rec_transition_id (hist_record h)) (seen_transition_ids seen),
      seen_revisions = insert (rec_to_revision (hist_record h)) (seen_revisions seen)\<rparr>"

fun history_rows :: "externals \<Rightarrow> aggregate_identity \<Rightarrow> (string \<times> string) list \<Rightarrow> (string \<times> string) list
    \<Rightarrow> seen_members \<Rightarrow> (string \<times> string) list \<Rightarrow> store_error + historical_operation list" where
  "history_rows E i receipts indexes seen [] = Inr []"
| "history_rows E i receipts indexes seen (item # items) =
     rbind (history_row E i receipts indexes seen item) (\<lambda>h.
     rbind (history_rows E i receipts indexes (see h seen) items) (\<lambda>hs. Inr (h # hs)))"

definition nothing_seen :: seen_members where
  "nothing_seen = \<lparr>seen_operation_ids = {}, seen_transition_ids = {}, seen_revisions = {}\<rparr>"

fun states_continuous :: "ctr option \<Rightarrow> ctr list \<Rightarrow> store_error + unit" where
  "states_continuous previous [] = Inr ()"
| "states_continuous previous (r # rs) =
     (if int_of (rec_from_revision r) \<noteq> int_of (rec_to_revision r) - 1
      then Inl (CorruptionError ''canonical historical from_revision/to_revision continuity mismatch'')
      else if previous \<noteq> None \<and> rec_previous_state r \<noteq> rec_next_state (the previous)
      then Inl (CorruptionError ''canonical historical state chain is discontinuous'')
      else states_continuous (Some r) rs)"

definition head_matches :: "ctr \<Rightarrow> aggregate_snapshot \<Rightarrow> bool" where
  "head_matches highest snap \<longleftrightarrow>
     rec_to_revision highest = PInt (snap_revision snap)
     \<and> rec_next_state highest = opt_str (snap_state snap)
     \<and> rec_operation_id highest = PStr (snap_operation_id snap)
     \<and> rec_transition_id highest = PStr (snap_transition_id snap)
     \<and> rec_record_hash highest = PStr (snap_record_hash snap)
     \<and> rec_command_hash highest = PStr (snap_command_hash snap)"

text \<open>The checks on the three hashes once they are read.\<close>

definition validate_history :: "externals \<Rightarrow> aggregate_identity \<Rightarrow> aggregate_snapshot \<Rightarrow> (string \<times> string) list
    \<Rightarrow> (string \<times> string) list \<Rightarrow> (string \<times> string) list \<Rightarrow> store_error + historical_operation list" where
  "validate_history E i snap records receipts indexes =
     (let sizes = map length [records, receipts, indexes]; expected_count = snap_revision snap in
      if \<exists>n \<in> set sizes. int n < expected_count
      then Inl (HistoryIncompleteError ''canonical historical set is missing members'')
      else if \<exists>n \<in> set sizes. int n > expected_count
      then Inl (CorruptionError ''canonical historical set has members beyond aggregate revision'')
      else rbind (history_rows E i receipts indexes nothing_seen records) (\<lambda>rows0.
        if set (map fst receipts) \<noteq> set (map hist_operation_digest rows0)
        then Inl (CorruptionError ''canonical receipt history contains an orphan or contradictory member'')
        else if set (map (\<lambda>x. PStr (fst x)) indexes) \<noteq> set (map (\<lambda>h. rec_transition_id (hist_record h)) rows0)
        then Inl (CorruptionError ''canonical transition-index history contains an orphan or contradictory member'')
        else let rows = sort_key (\<lambda>h. int_of (hist_revision h)) rows0;
                 observed = map (\<lambda>h. int_of (hist_revision h)) rows; expected = [1..snap_revision snap]
        in if observed \<noteq> expected
           then (if set observed \<subset> set expected
                 then Inl (HistoryIncompleteError ''canonical historical revision sequence has a gap'')
                 else Inl (CorruptionError ''canonical historical revision sequence is contradictory''))
           else rbind (states_continuous None (map hist_record rows)) (\<lambda>_.
             if head_matches (hist_record (last rows)) snap then Inr rows
             else Inl (CorruptionError ''canonical historical highest revision does not match aggregate head''))))"

definition read_history :: "externals \<Rightarrow> string \<Rightarrow> aggregate_identity \<Rightarrow> aggregate_snapshot
    \<Rightarrow> (nat \<Rightarrow> redis_view option) \<Rightarrow> store_error + historical_operation list" where
  "read_history E namespace i snap V =
     rbind (make_keyspace (identity_sha256 i) namespace) (\<lambda>ks.
     rbind (relabel (PersistenceError ''canonical history Redis type read failed'')
       (rbind (redis_type (V 2) (operation_records_key ks)) (\<lambda>a.
        rbind (redis_type (V 3) (receipts_key ks)) (\<lambda>b.
        rbind (redis_type (V 4) (transition_indexes_key ks)) (\<lambda>c. Inr (a, b, c)))))) (\<lambda>(record_type, receipt_type, index_type).
       if record_type = ''none'' then Inl (HistoryIncompleteError ''canonical operation history key is missing'')
       else if receipt_type = ''none'' then Inl (HistoryIncompleteError ''canonical receipt history key is missing'')
       else if index_type = ''none'' then Inl (HistoryIncompleteError ''canonical transition-index history key is missing'')
       else if record_type \<noteq> ''hash'' then Inl (CorruptionError ''canonical operation history key type mismatch'')
       else if receipt_type \<noteq> ''hash'' then Inl (CorruptionError ''canonical receipt history key type mismatch'')
       else if index_type \<noteq> ''hash'' then Inl (CorruptionError ''canonical transition-index history key type mismatch'')
       else rbind (relabel (PersistenceError ''canonical history Redis read failed'')
         (rbind (redis_hgetall (V 5) (operation_records_key ks)) (\<lambda>records.
          rbind (redis_hgetall (V 6) (receipts_key ks)) (\<lambda>receipts.
          rbind (redis_hgetall (V 7) (transition_indexes_key ks)) (\<lambda>indexes. Inr (records, receipts, indexes))))))
         (\<lambda>(records, receipts, indexes). validate_history E i snap records receipts indexes)))"

definition is_persistence_error :: "store_error \<Rightarrow> bool" where
  "is_persistence_error e =
     (case e of
        PersistenceError _ \<Rightarrow> True | CorruptionError _ \<Rightarrow> True | HistoryIncompleteError _ \<Rightarrow> True
      | ObservationChangedError \<Rightarrow> True | _ \<Rightarrow> False)"

text \<open>
  \<open>load_aggregate_history\<close>: the head is read before (calls 0 and 1) and after (calls 8 and 9) the
  members; a head that changed outranks every finding about the members.
\<close>

definition load_aggregate_history :: "externals \<Rightarrow> string \<Rightarrow> aggregate_identity \<Rightarrow> (nat \<Rightarrow> redis_view option)
    \<Rightarrow> store_error + aggregate_history option" where
  "load_aggregate_history E namespace i V =
     rbind (get_aggregate_snapshot namespace i (V 0) (V 1)) (\<lambda>before.
       case before of
         None \<Rightarrow> Inr None
       | Some snap \<Rightarrow>
           (let res = read_history E namespace i snap V in
            if (case res of Inl e \<Rightarrow> \<not> is_persistence_error e | Inr _ \<Rightarrow> False)
            then Inl (PersistenceError ''canonical history validation failed'')
            else rbind (get_aggregate_snapshot namespace i (V 8) (V 9)) (\<lambda>after.
              if after \<noteq> Some snap then Inl ObservationChangedError
              else rbind res (\<lambda>rows. Inr (Some \<lparr>history_snapshot = snap, history_operations = rows\<rparr>)))))"

section \<open>Inversion\<close>

lemma relabel_Inr_iff [result_simps, simp]: "relabel f m = Inr x \<longleftrightarrow> m = Inr x"
  by (cases m) (simp_all add: relabel_def)

lemma rescue_Inr_iff [result_simps, simp]: "rescue p e m = Inr x \<longleftrightarrow> m = Inr x"
  by (cases m) (simp_all add: rescue_def)

lemma rescue_Inr [simp]: "rescue p e (Inr x) = Inr x"
  by (simp add: rescue_def)

lemma relabel_Inr [simp]: "relabel f (Inr x) = Inr x"
  by (simp add: relabel_def)

lemma record_from_payload_valid: "record_from_payload E p = Inr r \<Longrightarrow> validate_record E r = Inr ()"
  by (auto simp: record_from_payload_def rbind_Inr_iff)

lemma receipt_from_payload_valid: "receipt_from_payload E p = Inr rc \<Longrightarrow> is_ok (validate_receipt E rc)"
  by (auto simp: receipt_from_payload_def rbind_Inr_iff Let_def is_ok_iff)

lemma read_record_valid: "read_record E raw = Inr r \<Longrightarrow> validate_record E r = Inr ()"
  by (auto simp: read_record_def rbind_Inr_iff dest: record_from_payload_valid)

lemma read_receipt_valid: "read_receipt E raw = Inr rc \<Longrightarrow> is_ok (validate_receipt E rc)"
  by (auto simp: read_receipt_def rbind_Inr_iff dest: receipt_from_payload_valid)

section \<open>Histories\<close>

definition row_ok :: "externals \<Rightarrow> aggregate_identity \<Rightarrow> historical_operation \<Rightarrow> bool" where
  "row_ok E i h \<longleftrightarrow>
     validate_record E (hist_record h) = Inr () \<and> rec_identity (hist_record h) = i
     \<and> is_ok (validate_receipt E (hist_receipt h)) \<and> receipt_matches (hist_receipt h) (hist_record h)
     \<and> hist_revision h = rec_to_revision (hist_record h)"

lemma history_row_ok:
  assumes "history_row E i receipts indexes seen item = Inr h"
  shows "row_ok E i h" and "rec_operation_id (hist_record h) \<notin> seen_operation_ids seen"
  using assms
  by (auto simp: history_row_def rbind_Inr_iff row_ok_def split: if_split_asm option.splits
      dest: read_record_valid read_receipt_valid)

lemma history_rows_ok:
  "history_rows E i receipts indexes seen items = Inr hs \<Longrightarrow>
     list_all (row_ok E i) hs \<and> distinct (map (\<lambda>h. rec_operation_id (hist_record h)) hs)
     \<and> set (map (\<lambda>h. rec_operation_id (hist_record h)) hs) \<inter> seen_operation_ids seen = {}"
proof (induction items arbitrary: seen hs)
  case (Cons item items)
  then obtain h hs' where h: "history_row E i receipts indexes seen item = Inr h" and
    hs': "history_rows E i receipts indexes (see h seen) items = Inr hs'" and hs: "hs = h # hs'"
    by (auto simp: rbind_Inr_iff)
  from Cons.IH [OF hs'] history_row_ok [OF h] show ?case by (auto simp: hs see_def)
qed simp

lemma states_continuous_nth:
  "states_continuous previous rs = Inr () \<Longrightarrow> Suc k < length rs \<Longrightarrow>
     rec_previous_state (rs ! Suc k) = rec_next_state (rs ! k)"
proof (induction rs arbitrary: previous k)
  case (Cons r rs)
  then have rs: "states_continuous (Some r) rs = Inr ()" by (auto split: if_split_asm)
  show ?case
  proof (cases k)
    case 0
    with rs Cons.prems(2) show ?thesis by (cases rs) (auto split: if_split_asm)
  next
    case (Suc j)
    with Cons.IH [OF rs, of j] Cons.prems(2) show ?thesis by simp
  qed
qed simp

lemma validate_history_ok:
  assumes "validate_history E i snap records receipts indexes = Inr rows"
  shows "list_all (row_ok E i) rows"
    and "distinct (map (\<lambda>h. rec_operation_id (hist_record h)) rows)"
    and "map (\<lambda>h. int_of (rec_to_revision (hist_record h))) rows = [1..snap_revision snap]"
    and "states_continuous None (map hist_record rows) = Inr ()"
    and "head_matches (hist_record (last rows)) snap"
proof -
  from assms obtain rows0 where rows0: "history_rows E i receipts indexes nothing_seen records = Inr rows0"
    and rows: "rows = sort_key (\<lambda>h. int_of (hist_revision h)) rows0"
    and obs: "map (\<lambda>h. int_of (hist_revision h)) rows = [1..snap_revision snap]"
    and cont: "states_continuous None (map hist_record rows) = Inr ()"
    and head: "head_matches (hist_record (last rows)) snap"
    by (auto simp: validate_history_def Let_def rbind_Inr_iff split: if_split_asm)
  note ok = history_rows_ok [OF rows0]
  show all: "list_all (row_ok E i) rows" using ok by (simp add: rows list_all_iff)
  show "distinct (map (\<lambda>h. rec_operation_id (hist_record h)) rows)"
    using ok by (simp add: rows distinct_map)
  show "map (\<lambda>h. int_of (rec_to_revision (hist_record h))) rows = [1..snap_revision snap]"
    unfolding obs [symmetric] using all by (intro map_cong) (auto simp: list_all_iff row_ok_def)
  show "states_continuous None (map hist_record rows) = Inr ()" "head_matches (hist_record (last rows)) snap"
    using cont head by simp_all
qed

lemma load_aggregate_history_Some:
  assumes "load_aggregate_history E ns i V = Inr (Some h)"
  obtains records receipts indexes where
    "get_aggregate_snapshot ns i (V 0) (V 1) = Inr (Some (history_snapshot h))"
    "get_aggregate_snapshot ns i (V 8) (V 9) = Inr (Some (history_snapshot h))"
    "validate_history E i (history_snapshot h) records receipts indexes = Inr (history_operations h)"
proof -
  from assms obtain before where "get_aggregate_snapshot ns i (V 0) (V 1) = Inr before" and "before \<noteq> None"
    by (auto simp: load_aggregate_history_def rbind_Inr_iff split: option.splits)
  then obtain snap where snap: "get_aggregate_snapshot ns i (V 0) (V 1) = Inr (Some snap)" by auto
  with assms obtain rows where s: "get_aggregate_snapshot ns i (V 0) (V 1) = Inr (Some snap)"
    "get_aggregate_snapshot ns i (V 8) (V 9) = Inr (Some snap)" "read_history E ns i snap V = Inr rows"
    "h = \<lparr>history_snapshot = snap, history_operations = rows\<rparr>"
    by (cases "read_history E ns i snap V")
      (auto simp: load_aggregate_history_def rbind_Inr_iff Let_def split: if_split_asm)
  from s(3) obtain a b c where "validate_history E i snap a b c = Inr rows"
    by (auto simp: read_history_def rbind_Inr_iff split: if_split_asm)
  with s that show thesis by simp
qed

lemma validated_revisions:
  assumes "validate_record E r = Inr ()"
  shows "rec_to_revision r = PInt (int_of (rec_to_revision r))"
    and "rec_from_revision r = PInt (int_of (rec_to_revision r) - 1)"
  using assms by (auto elim!: validate_record_okD simp: int_of_def)

end
