(* ===== verification/AuthorityJournal.thy ===== *)
theory AuthorityJournal
  imports AuthorityEvaluation
begin

text \<open>
  The authority evaluator at work on one aggregate. A journal is what the persistence adapter
  keeps for an aggregate (\<open>src/hfa-core/src/hfa/authority/redis_persistence.py\<close>, class
  \<open>RedisAuthorityKeyspace\<close>: the head, the operation records and the receipts by operation id),
  and a step evaluates a well-formed command against that head with the receipt stored under the
  command's operation id and, when the evaluator returns a plan, commits it.

  The theory shows that every reachable journal is a gap-free, state-chained history in which no
  operation id occurs twice, that terminal states are final, and that replaying the history
  through \<open>evaluate_projection_application\<close> applies every record exactly once and in order.
\<close>

section \<open>Journals\<close>

record journal =
  j_revision :: int
  j_state :: "string option"
  j_records :: "ctr list"
  j_receipts :: "string \<Rightarrow> receipt_probe option"

definition empty_journal :: journal where
  "empty_journal = \<lparr>j_revision = 0, j_state = None, j_records = [], j_receipts = Map.empty\<rparr>"

definition commit_to_journal :: "journal \<Rightarrow> commit_plan \<Rightarrow> journal" where
  "commit_to_journal j plan =
     \<lparr>j_revision = int_of (plan_revision plan),
      j_state = opt_str_of (rec_next_state (plan_record plan)),
      j_records = j_records j @ [plan_record plan],
      j_receipts = (j_receipts j)(str_of (rcpt_operation_id (plan_receipt plan)) \<mapsto> stored_probe plan)\<rparr>"

inductive journal_step :: "externals \<Rightarrow> aggregate_identity \<Rightarrow> journal \<Rightarrow> journal \<Rightarrow> bool" for E i where
  commit: "command_wf E c \<Longrightarrow> cmd_identity c = i \<Longrightarrow>
    evaluate_authority_commit E x c (PInt (j_revision j)) (opt_str (j_state j))
      (j_receipts j (cmd_operation_id c)) ms corr = Inr ev \<Longrightarrow>
    eval_commit_plan ev = Some plan \<Longrightarrow>
    journal_step E i j (commit_to_journal j plan)"
| refused: "command_wf E c \<Longrightarrow> cmd_identity c = i \<Longrightarrow>
    evaluate_authority_commit E x c (PInt (j_revision j)) (opt_str (j_state j))
      (j_receipts j (cmd_operation_id c)) ms corr = Inr ev \<Longrightarrow>
    eval_commit_plan ev = None \<Longrightarrow>
    journal_step E i j j"

inductive_cases journal_stepE: "journal_step E i j j'"

fun chained :: "string option \<Rightarrow> int \<Rightarrow> ctr list \<Rightarrow> bool" where
  "chained st n [] = True"
| "chained st n (r # rs) =
     (rec_previous_state r = opt_str st \<and> rec_from_revision r = PInt n \<and> rec_to_revision r = PInt (n + 1)
      \<and> chained (opt_str_of (rec_next_state r)) (n + 1) rs)"

definition journal_inv :: "externals \<Rightarrow> aggregate_identity \<Rightarrow> journal \<Rightarrow> bool" where
  "journal_inv E i j \<longleftrightarrow>
     j_revision j = int (length (j_records j))
     \<and> chained None 0 (j_records j)
     \<and> j_state j = (if j_records j = [] then None else opt_str_of (rec_next_state (last (j_records j))))
     \<and> opt_wf E (j_state j)
     \<and> (\<forall>r \<in> set (j_records j). is_ok (validate_record E r) \<and> rec_identity r = i)
     \<and> distinct (map rec_operation_id (j_records j))
     \<and> (\<forall>r \<in> set (j_records j). \<exists>p. j_receipts j (str_of (rec_operation_id r)) = Some p)"

definition terminal_states :: "string set" where
  "terminal_states = {''done'', ''failed'', ''skipped'', ''blocked_by_failure''}"

section \<open>The projection loop\<close>

definition project_one :: "externals \<Rightarrow> projection_receipt option \<Rightarrow> ctr \<Rightarrow> projection_receipt option \<times> ctr list" where
  "project_one E cur r =
     (case evaluate_projection_application E cur r of
        APPLY \<Rightarrow>
          (case make_projection_receipt E (rec_identity_sha256 r) (rec_to_revision r)
                  (rec_transition_id r) (rec_record_hash r) of
             Inl _ \<Rightarrow> (cur, [])
           | Inr p \<Rightarrow> (Some p, [r]))
      | _ \<Rightarrow> (cur, []))"

fun run_projection :: "externals \<Rightarrow> projection_receipt option \<Rightarrow> ctr list \<Rightarrow> projection_receipt option \<times> ctr list" where
  "run_projection E cur [] = (cur, [])"
| "run_projection E cur (r # rs) =
     (let (cur', applied) = project_one E cur r; (cur'', rest) = run_projection E cur' rs
      in (cur'', applied @ rest))"

definition applied_revision :: "projection_receipt option \<Rightarrow> int" where
  "applied_revision cur = (case cur of None \<Rightarrow> 0 | Some p \<Rightarrow> int_of (pr_applied_revision p))"

section \<open>One committed step\<close>

lemma int_of_PInt [simp]: "int_of (PInt n) = n"
  by (simp add: int_of_def)

lemma chained_append:
  "chained st n (rs @ [r]) \<longleftrightarrow>
     chained st n rs
     \<and> rec_previous_state r = opt_str (if rs = [] then st else opt_str_of (rec_next_state (last rs)))
     \<and> rec_from_revision r = PInt (n + int (length rs)) \<and> rec_to_revision r = PInt (n + int (length rs) + 1)"
  by (induction rs arbitrary: st n) (auto simp: algebra_simps)

lemma evaluate_plan_recordD:
  assumes "evaluate_authority_commit E x c cr st probe ms corr = Inr ev"
    and "eval_commit_plan ev = Some plan"
  shows "\<exists>w m k r. new_record E c w m k = Inr r \<and> plan = plan_of c r \<and> probe = None
    \<and> cr = PInt (cmd_expected_revision c)
    \<and> opt_nfc E ''current_state'' st = Inr (cmd_previous_state c)
    \<and> cmd_previous_state c \<in> oc_allowed_previous_states (operation_contracts (cmd_operation_type c))
    \<and> oc_mutation_class (operation_contracts (cmd_operation_type c)) = ACCEPTED_AUTHORITY_MUTATION"
  using assms
proof (rule evaluate_planD)
  fix n s m k
  assume a: "cr = PInt n" "opt_nfc E ''current_state'' st = Inr s" "probe = None"
    "evaluate_fresh E x c n s m k = Inr ev"
  from evaluate_fresh_planD [OF a(4) assms(2)] a(1-3) show ?thesis
    by (auto simp: is_ok_iff validate_operation_contract_Inr_iff)
qed

lemma journal_inv_commit:
  assumes inv: "journal_inv E i j" and wf: "command_wf E c" and i: "cmd_identity c = i"
    and ev: "evaluate_authority_commit E x c (PInt (j_revision j)) (opt_str (j_state j))
      (j_receipts j (cmd_operation_id c)) ms corr = Inr ev"
    and plan: "eval_commit_plan ev = Some plan"
  shows "journal_inv E i (commit_to_journal j plan)"
proof -
  from evaluate_plan_recordD [OF ev plan] obtain w m k r where
    r: "new_record E c w m k = Inr r" "plan = plan_of c r" "j_receipts j (cmd_operation_id c) = None"
      "j_revision j = cmd_expected_revision c"
      "opt_nfc E ''current_state'' (opt_str (j_state j)) = Inr (cmd_previous_state c)"
    by auto
  note f = new_record_fields [OF r(1)]
  from inv have "opt_wf E (j_state j)" unfolding journal_inv_def by blast
  from opt_nfc_opt_str [OF this] r(5) have st: "cmd_previous_state c = j_state j" by simp
  have receipts: "\<exists>p. j_receipts j (str_of (rec_operation_id u)) = Some p" if "u \<in> set (j_records j)" for u
    using inv that unfolding journal_inv_def by blast
  have "PStr (cmd_operation_id c) \<noteq> rec_operation_id u" if "u \<in> set (j_records j)" for u
    using receipts [OF that] r(3) by (metis option.distinct(1) str_of_PStr)
  then show ?thesis
    using inv r(2,4) f st wf i
    by (auto simp: journal_inv_def commit_to_journal_def chained_append command_wf_def)
qed

lemma journal_step_inv: "journal_inv E i j \<Longrightarrow> journal_step E i j j' \<Longrightarrow> journal_inv E i j'"
  by (auto elim!: journal_stepE intro: journal_inv_commit)

lemma journal_inv_empty: "journal_inv E i empty_journal"
  by (simp add: journal_inv_def empty_journal_def opt_wf_def)

definition journal_prefix :: "journal \<Rightarrow> journal \<Rightarrow> bool" where
  "journal_prefix j k \<longleftrightarrow> prefix (j_records j) (j_records k)"

lemma journal_step_prefix: "journal_step E i j j' \<Longrightarrow> journal_prefix j j'"
  by (auto elim!: journal_stepE simp: journal_prefix_def commit_to_journal_def)

interpretation jrn: monotone_system "\<lambda>j. j = empty_journal" "journal_step E i" "journal_inv E i" journal_prefix
  for E i
  by unfold_locales
    (auto simp: journal_prefix_def journal_inv_empty intro: journal_step_inv
      dest: journal_step_prefix)

section \<open>Steps out of a terminal state\<close>

lemma accepted_previous_not_terminal:
  assumes "oc_mutation_class (operation_contracts op) = ACCEPTED_AUTHORITY_MUTATION"
    and "Some s \<in> oc_allowed_previous_states (operation_contracts op)"
  shows "s \<notin> terminal_states"
  using assms by (cases op) (auto simp: terminal_states_def)

lemma terminal_step_refused:
  assumes inv: "journal_inv E i j" and "j_state j = Some s" and "s \<in> terminal_states"
    and step: "journal_step E i j j'"
  shows "j' = j"
  using step
proof cases
  case (commit c x ms corr ev plan)
  have "opt_wf E (j_state j)" using inv unfolding journal_inv_def by blast
  from opt_nfc_opt_str [OF this] evaluate_plan_recordD [OF commit(4,5)] assms(2)
  have "Some s \<in> oc_allowed_previous_states (operation_contracts (cmd_operation_type c))"
    "oc_mutation_class (operation_contracts (cmd_operation_type c)) = ACCEPTED_AUTHORITY_MUTATION"
    by auto
  with accepted_previous_not_terminal assms(3) show ?thesis by blast
qed

section \<open>The projection loop applies in order\<close>

lemma evaluate_projection_ApplyD:
  assumes "evaluate_projection_application E cur r = APPLY"
  shows "\<exists>n. is_ok (validate_record E r) \<and> rec_to_revision r = PInt n \<and> n = applied_revision cur + 1
    \<and> (\<forall>p. cur = Some p \<longrightarrow> pr_identity_sha256 p = rec_identity_sha256 r)"
proof -
  from assms have ok: "is_ok (validate_record E r)"
    by (auto simp: evaluate_projection_application_def split: if_splits)
  then obtain n where n: "rec_to_revision r = PInt n"
    by (auto simp: is_ok_iff elim: validate_record_okD)
  have "n = applied_revision cur + 1 \<and> (\<forall>p. cur = Some p \<longrightarrow> pr_identity_sha256 p = rec_identity_sha256 r)"
  proof (cases cur)
    case None
    with assms n ok show ?thesis
      by (auto simp: evaluate_projection_application_def applied_revision_def split: if_splits)
  next
    case (Some p)
    with assms n ok show ?thesis
      by (auto simp: evaluate_projection_application_def applied_revision_def Let_def rbind_Inr_iff
          sha256_hex_Inr_iff safe_int_Inr_iff split: if_splits sum.splits)
  qed
  with ok n show ?thesis by blast
qed

lemma make_projection_receipt_fields:
  "make_projection_receipt E s n t h = Inr p \<Longrightarrow>
     pr_identity_sha256 p = s \<and> pr_applied_revision p = n \<and> pr_applied_record_hash p = h"
  by (auto simp: make_projection_receipt_def rbind_Inr_iff sha256_hex_Inr_iff safe_int_Inr_iff)

lemma project_one_cases:
  "project_one E cur r = (cur, []) \<or>
   (\<exists>p. project_one E cur r = (Some p, [r]) \<and> is_ok (validate_record E r)
      \<and> rec_to_revision r = PInt (applied_revision cur + 1)
      \<and> applied_revision (Some p) = applied_revision cur + 1
      \<and> pr_identity_sha256 p = rec_identity_sha256 r
      \<and> (\<forall>q. cur = Some q \<longrightarrow> pr_identity_sha256 q = rec_identity_sha256 r))"
proof (cases "evaluate_projection_application E cur r = APPLY")
  case True
  from evaluate_projection_ApplyD [OF True] obtain n where
    n: "is_ok (validate_record E r)" "rec_to_revision r = PInt n" "n = applied_revision cur + 1"
    "\<forall>q. cur = Some q \<longrightarrow> pr_identity_sha256 q = rec_identity_sha256 r"
    by blast
  show ?thesis
  proof (cases "make_projection_receipt E (rec_identity_sha256 r) (rec_to_revision r)
                  (rec_transition_id r) (rec_record_hash r)")
    case (Inl e)
    with True show ?thesis by (simp add: project_one_def)
  next
    case (Inr p)
    with True n make_projection_receipt_fields [OF Inr] show ?thesis
      by (auto simp: project_one_def applied_revision_def)
  qed
next
  case False
  then show ?thesis by (auto simp: project_one_def split: projection_decision.splits)
qed

lemma run_projection_in_order_from:
  assumes "run_projection E cur rs = (cur', log)"
  shows "map rec_to_revision log = map PInt [applied_revision cur + 1 .. applied_revision cur + int (length log)]
    \<and> applied_revision cur' = applied_revision cur + int (length log)
    \<and> (\<forall>r \<in> set log. is_ok (validate_record E r))
    \<and> (\<forall>p. cur = Some p \<longrightarrow> (\<forall>r \<in> set log. rec_identity_sha256 r = pr_identity_sha256 p))
    \<and> (cur = None \<longrightarrow> (\<exists>h. \<forall>r \<in> set log. rec_identity_sha256 r = h))"
  using assms
proof (induction rs arbitrary: cur log)
  case Nil
  then show ?case by simp
next
  case (Cons r rs)
  obtain c1 a1 where one: "project_one E cur r = (c1, a1)" by fastforce
  obtain rest where rest: "run_projection E c1 rs = (cur', rest)" and log: "log = a1 @ rest"
    using Cons.prems one by (auto split: prod.splits)
  note IH = Cons.IH [OF rest]
  from project_one_cases [of E cur r] one show ?case
  proof (elim disjE exE)
    assume "project_one E cur r = (cur, [])"
    with one log IH show ?case by auto
  next
    fix p
    assume p: "project_one E cur r = (Some p, [r]) \<and> is_ok (validate_record E r)
      \<and> rec_to_revision r = PInt (applied_revision cur + 1)
      \<and> applied_revision (Some p) = applied_revision cur + 1
      \<and> pr_identity_sha256 p = rec_identity_sha256 r
      \<and> (\<forall>q. cur = Some q \<longrightarrow> pr_identity_sha256 q = rec_identity_sha256 r)"
    then have c1: "c1 = Some p" "log = r # rest" using one log by auto
    let ?n = "applied_revision cur"
    have "[?n + 1 .. ?n + int (length log)] = (?n + 1) # [?n + 1 + 1 .. ?n + 1 + int (length rest)]"
      using c1 by (subst upto_rec1) (auto simp: algebra_simps)
    then show ?case using c1 p IH by (auto simp: algebra_simps)
  qed
qed

lemma validated_fields:
  assumes "is_ok (validate_record E u)"
  obtains h n t rh where "rec_identity_sha256 u = PStr h" "sha256_re h" "rec_to_revision u = PInt n"
    "1 \<le> n" "n \<le> max_safe_integer" "rec_transition_id u = PStr t" "is_ascii t" "t \<noteq> []"
    "rec_record_hash u = PStr rh" "sha256_re rh"
proof -
  from assms obtain v where "validate_record E u = Inr v" by (auto simp: is_ok_iff)
  then show thesis
  proof (rule validate_record_okD)
    fix op f
    assume a: "rec_identity_sha256 u = PStr (identity_sha256 (rec_identity u))" "0 \<le> f"
      "f + 1 \<le> max_safe_integer" "rec_to_revision u = PInt (f + 1)"
      "\<exists>h. rec_record_hash u = PStr h \<and> sha256_re h"
      "\<exists>oid. rec_operation_id u = PStr oid \<and>
         transition_id (rec_identity_sha256 u) (rec_to_revision u) oid = Inr (str_of (rec_transition_id u))
         \<and> rec_transition_id u = PStr (str_of (rec_transition_id u))"
    from a(6) obtain t where "rec_transition_id u = PStr t" "is_ascii t" "t \<noteq> []"
      using transition_id_ascii by (metis str_of_PStr)
    with a that show thesis by auto
  qed
qed

lemma make_projection_receipt_total:
  assumes "nfc_laws E" and "is_ok (validate_record E u)"
  shows "make_projection_receipt E (rec_identity_sha256 u) (rec_to_revision u)
    (rec_transition_id u) (rec_record_hash u) = Inr \<lparr>pr_identity_sha256 = rec_identity_sha256 u,
      pr_applied_revision = rec_to_revision u, pr_applied_transition_id = rec_transition_id u,
      pr_applied_record_hash = rec_record_hash u\<rparr>"
  using assms(2)
proof (rule validated_fields)
  fix h n t rh
  assume "rec_identity_sha256 u = PStr h" "sha256_re h" "rec_to_revision u = PInt n" "1 \<le> n"
    "n \<le> max_safe_integer" "rec_transition_id u = PStr t" "is_ascii t" "t \<noteq> []"
    "rec_record_hash u = PStr rh" "sha256_re rh"
  with nfc_ascii [OF assms(1), of t] show ?thesis
    by (simp add: make_projection_receipt_def sha256_hex_def safe_int_def nfc_def)
qed

lemma projection_applies_next:
  assumes laws: "nfc_laws E" and ok: "is_ok (validate_record E r)"
    and n: "rec_to_revision r = PInt (applied_revision cur + 1)"
    and cur: "cur = None \<or> (\<exists>q u. cur = Some q \<and> is_ok (validate_record E u)
      \<and> make_projection_receipt E (rec_identity_sha256 u) (rec_to_revision u)
          (rec_transition_id u) (rec_record_hash u) = Inr q
      \<and> rec_identity_sha256 u = rec_identity_sha256 r)"
  shows "\<exists>p. project_one E cur r = (Some p, [r])
    \<and> make_projection_receipt E (rec_identity_sha256 r) (rec_to_revision r)
        (rec_transition_id r) (rec_record_hash r) = Inr p
    \<and> applied_revision (Some p) = applied_revision cur + 1"
proof -
  obtain p where p: "make_projection_receipt E (rec_identity_sha256 r) (rec_to_revision r)
        (rec_transition_id r) (rec_record_hash r) = Inr p"
    using make_projection_receipt_total [OF laws ok] by blast
  have "evaluate_projection_application E cur r = APPLY"
  proof (cases cur)
    case None
    with ok n show ?thesis by (simp add: evaluate_projection_application_def applied_revision_def)
  next
    case (Some q)
    with cur obtain u where u: "make_projection_receipt E (rec_identity_sha256 u) (rec_to_revision u)
          (rec_transition_id u) (rec_record_hash u) = Inr q"
        "rec_identity_sha256 u = rec_identity_sha256 r" "is_ok (validate_record E u)"
      by blast
    from u(3) show ?thesis
    proof (rule validated_fields)
      fix h k t rh
      assume f: "rec_identity_sha256 u = PStr h" "sha256_re h" "rec_to_revision u = PInt k" "1 \<le> k"
        "k \<le> max_safe_integer" "rec_transition_id u = PStr t" "is_ascii t" "t \<noteq> []"
        "rec_record_hash u = PStr rh" "sha256_re rh"
      from make_projection_receipt_total [OF laws u(3)] u(1) f
      have "q = \<lparr>pr_identity_sha256 = PStr h, pr_applied_revision = PInt k,
          pr_applied_transition_id = PStr t, pr_applied_record_hash = PStr rh\<rparr>"
        by simp
      moreover have "rec_identity_sha256 r = PStr h" using u(2) f(1) by simp
      ultimately show ?thesis
        using Some ok n f(2,4,5,8,10) nfc_ascii [OF laws f(7)]
        by (simp add: evaluate_projection_application_def applied_revision_def sha256_hex_def
            safe_int_def nfc_def Let_def)
    qed
  qed
  with p n make_projection_receipt_fields [OF p] show ?thesis
    by (auto simp: project_one_def applied_revision_def)
qed

lemma run_projection_chained:
  assumes laws: "nfc_laws E"
    and ok: "\<forall>r \<in> set rs. is_ok (validate_record E r) \<and> rec_identity_sha256 r = h"
    and ch: "chained st (applied_revision cur) rs"
    and cur: "cur = None \<or> (\<exists>q u. cur = Some q \<and> is_ok (validate_record E u)
      \<and> make_projection_receipt E (rec_identity_sha256 u) (rec_to_revision u)
          (rec_transition_id u) (rec_record_hash u) = Inr q \<and> rec_identity_sha256 u = h)"
  shows "snd (run_projection E cur rs) = rs"
  using ok ch cur
proof (induction rs arbitrary: cur st)
  case Nil
  then show ?case by simp
next
  case (Cons r rs)
  from Cons.prems(1,2) have r: "is_ok (validate_record E r)" "rec_identity_sha256 r = h"
    "rec_to_revision r = PInt (applied_revision cur + 1)" by auto
  have "cur = None \<or> (\<exists>q u. cur = Some q \<and> is_ok (validate_record E u)
      \<and> make_projection_receipt E (rec_identity_sha256 u) (rec_to_revision u)
          (rec_transition_id u) (rec_record_hash u) = Inr q
      \<and> rec_identity_sha256 u = rec_identity_sha256 r)"
    using Cons.prems(3) r(2) by simp
  from projection_applies_next [OF laws r(1,3) this] obtain p where
    p: "project_one E cur r = (Some p, [r])"
      "make_projection_receipt E (rec_identity_sha256 r) (rec_to_revision r)
        (rec_transition_id r) (rec_record_hash r) = Inr p"
      "applied_revision (Some p) = applied_revision cur + 1"
    by blast
  have "snd (run_projection E (Some p) rs) = rs"
    using Cons.prems(1,2) p r by (intro Cons.IH [where st = "opt_str_of (rec_next_state r)"]) auto
  with p(1) show ?case by (auto split: prod.splits)
qed

section \<open>Properties of the journal\<close>

text \<open>
  C24. Every history the authority can produce for an aggregate is sound: the head revision is the
  number of records; record \<open>k\<close> leads from revision \<open>k\<close> to \<open>k + 1\<close> and starts in the state its
  predecessor ended in (the first one in no state); the head state is the last record's next
  state; all records pass validation and belong to the aggregate; no operation id is committed
  twice; and the history only ever grows at its end.
\<close>

theorem journal_history_sound:
  assumes "(journal_step E i)\<^sup>*\<^sup>* empty_journal j" and "(journal_step E i)\<^sup>*\<^sup>* j k"
  shows "j_revision j = int (length (j_records j))
    \<and> chained None 0 (j_records j)
    \<and> j_state j = (if j_records j = [] then None else opt_str_of (rec_next_state (last (j_records j))))
    \<and> (\<forall>r \<in> set (j_records j). is_ok (validate_record E r) \<and> rec_identity r = i)
    \<and> distinct (map rec_operation_id (j_records j))
    \<and> prefix (j_records j) (j_records k)"
proof -
  have inv: "journal_inv E i j" by (rule jrn.reachable_inv [OF refl assms(1)])
  have "journal_prefix j k" by (rule jrn.steps_le [OF assms(2) inv])
  with inv show ?thesis unfolding journal_inv_def journal_prefix_def by blast
qed

text \<open>
  Terminal states are final: once the head of a reachable journal is \<open>done\<close>, \<open>failed\<close>,
  \<open>skipped\<close> or \<open>blocked_by_failure\<close>, no command of any kind changes the journal any more.
\<close>

theorem terminal_states_final:
  assumes "(journal_step E i)\<^sup>*\<^sup>* empty_journal j" and "j_state j = Some s" and "s \<in> terminal_states"
    and "(journal_step E i)\<^sup>*\<^sup>* j k"
  shows "k = j"
proof -
  have inv: "journal_inv E i j" by (rule jrn.reachable_inv [OF refl assms(1)])
  from assms(4) show ?thesis
    by (induction rule: rtranclp_induct) (use terminal_step_refused [OF inv assms(2,3)] in blast)+
qed

text \<open>
  A projection fed any sequence of records (duplicated, reordered, corrupted or of another
  aggregate) from scratch applies only validated records of a single aggregate, and applies
  revisions \<open>1, 2, 3, \<dots>\<close> in this order, each once and without a gap.
\<close>

theorem projection_applies_in_order:
  assumes "run_projection E None rs = (cur, log)"
  shows "map rec_to_revision log = map PInt [1 .. int (length log)]
    \<and> applied_revision cur = int (length log)
    \<and> (\<forall>r \<in> set log. is_ok (validate_record E r))
    \<and> (\<exists>h. \<forall>r \<in> set log. rec_identity_sha256 r = h)"
proof -
  have "applied_revision None = 0" by (simp add: applied_revision_def)
  with run_projection_in_order_from [OF assms] show ?thesis by simp
qed

lemma reachable_journal_replay:
  assumes laws: "nfc_laws E" and "(journal_step E i)\<^sup>*\<^sup>* empty_journal j"
  shows "snd (run_projection E None (j_records j)) = j_records j"
proof -
  have inv: "journal_inv E i j" by (rule jrn.reachable_inv [OF refl assms(2)])
  have sha: "rec_identity_sha256 r = PStr (identity_sha256 (rec_identity r))" if "is_ok (validate_record E r)" for r
    using that by (auto simp: is_ok_iff elim: validate_record_okD)
  show ?thesis
    using inv sha unfolding journal_inv_def
    by (intro run_projection_chained [OF laws, where h = "PStr (identity_sha256 i)" and st = None])
       (auto simp: applied_revision_def)
qed

text \<open>
  Replay is complete: feeding the whole history of a reachable journal to an empty projection
  applies every record, so the projection ends at the head revision.
\<close>

theorem journal_replay_complete:
  assumes laws: "nfc_laws E" and "(journal_step E i)\<^sup>*\<^sup>* empty_journal j"
  shows "snd (run_projection E None (j_records j)) = j_records j
    \<and> applied_revision (fst (run_projection E None (j_records j))) = j_revision j"
proof -
  have inv: "journal_inv E i j" by (rule jrn.reachable_inv [OF refl assms(2)])
  have all: "snd (run_projection E None (j_records j)) = j_records j"
    by (rule reachable_journal_replay [OF assms])
  obtain cur log where run: "run_projection E None (j_records j) = (cur, log)" by fastforce
  from run_projection_in_order_from [OF run] have "applied_revision cur = int (length log)"
    by (simp add: applied_revision_def)
  with all run inv show ?thesis by (simp add: journal_inv_def)
qed

section \<open>Witnesses\<close>

text \<open>A two-record history: a task is admitted in state \<open>ready\<close> and then cancelled.\<close>

definition demo_admit :: authority_command where
  "demo_admit =
     \<lparr>cmd_identity = demo_identity, cmd_operation_type = TASK_ADMIT, cmd_operation_id = ''admit-1'',
      cmd_expected_revision = 0, cmd_previous_state = None, cmd_next_state = Some ''ready'',
      cmd_payload = JNull, cmd_metadata_changes = JNull, cmd_child_effects = JNull,
      cmd_projection_intents = [JObj [(''kind'', JStr ''READY_QUEUE_IF_READY'')]],
      cmd_causation_id = None\<rparr>"

definition demo_cancel :: authority_command where
  "demo_cancel =
     \<lparr>cmd_identity = demo_identity, cmd_operation_type = TASK_CANCEL, cmd_operation_id = ''cancel-1'',
      cmd_expected_revision = 1, cmd_previous_state = Some ''ready'', cmd_next_state = Some ''skipped'',
      cmd_payload = JNull, cmd_metadata_changes = JNull, cmd_child_effects = JNull,
      cmd_projection_intents = [JObj [(''kind'', JStr ''TERMINAL_PROJECTION'')]],
      cmd_causation_id = None\<rparr>"

definition demo_writer :: authority_context where
  "demo_writer =
     \<lparr>ctx_writer_id = ''writer-1'', ctx_allowed_operations = {TASK_ADMIT, TASK_CANCEL},
      ctx_target_sha256 = identity_sha256 demo_identity, ctx_fence_required = False,
      ctx_fence_valid = False\<rparr>"

lemma demo_command_step:
  assumes "c = demo_admit \<or> c = demo_cancel"
    and "j_revision j = cmd_expected_revision c" and "j_state j = cmd_previous_state c"
    and "j_receipts j (cmd_operation_id c) = None"
  shows "\<exists>r. new_record ascii_externals c ''writer-1'' 5 None = Inr r
    \<and> journal_step ascii_externals demo_identity j (commit_to_journal j (plan_of c r))"
proof -
  have c: "command_wf ascii_externals c" "permits demo_writer c" "cmd_identity c = demo_identity"
    "oc_mutation_class (operation_contracts (cmd_operation_type c)) = ACCEPTED_AUTHORITY_MUTATION"
    "cmd_expected_revision c < max_safe_integer"
    "is_ok (validate_operation_contract ascii_externals (cmd_operation_type c)
      (id_aggregate_type (cmd_identity c)) (cmd_previous_state c) (cmd_next_state c)
      (cmd_projection_intents c))"
    using assms(1)
    by (auto simp: command_wf_def demo_admit_def demo_cancel_def opt_wf_def max_safe_integer_def
        projection_kinds_def nfc_def permits_def demo_writer_def validate_operation_contract_def
        demo_identity_def Let_def identity_wf_def)
  have w: "ctx_writer_id demo_writer \<noteq> []" "(0::int) \<le> 5" "(5::int) \<le> max_safe_integer"
    "opt_wf ascii_externals None"
    by (simp_all add: demo_writer_def max_safe_integer_def opt_wf_def)
  from evaluate_legal [OF ascii_externals_laws c(1,2) w(1) ascii_externals_nfc c(4-6) w(2-4)]
  obtain r where r: "new_record ascii_externals c (ctx_writer_id demo_writer) 5 None = Inr r"
    "evaluate_authority_commit ascii_externals demo_writer c (PInt (j_revision j)) (opt_str (j_state j))
      (j_receipts j (cmd_operation_id c)) (PInt 5) (opt_str None)
      = Inr \<lparr>eval_decision = accepted_decision, eval_commit_plan = Some (plan_of c r)\<rparr>"
    using assms(2-4) by auto
  have "journal_step ascii_externals demo_identity j (commit_to_journal j (plan_of c r))"
    by (rule commit [OF c(1,3) r(2)]) simp
  with r(1) show ?thesis by (auto simp: demo_writer_def)
qed

lemma demo_history:
  "\<exists>j. (journal_step ascii_externals demo_identity)\<^sup>*\<^sup>* empty_journal j
     \<and> j_state j = Some ''skipped'' \<and> length (j_records j) = 2"
proof -
  obtain r1 where r1: "new_record ascii_externals demo_admit ''writer-1'' 5 None = Inr r1"
    "journal_step ascii_externals demo_identity empty_journal
       (commit_to_journal empty_journal (plan_of demo_admit r1))"
    using demo_command_step [of demo_admit empty_journal]
    by (auto simp: empty_journal_def demo_admit_def)
  let ?j1 = "commit_to_journal empty_journal (plan_of demo_admit r1)"
  note f1 = new_record_fields [OF r1(1)]
  have "j_revision ?j1 = cmd_expected_revision demo_cancel" "j_state ?j1 = cmd_previous_state demo_cancel"
    "j_receipts ?j1 (cmd_operation_id demo_cancel) = None"
    using f1 by (simp_all add: commit_to_journal_def demo_cancel_def demo_admit_def empty_journal_def)
  then obtain r2 where r2: "new_record ascii_externals demo_cancel ''writer-1'' 5 None = Inr r2"
    "journal_step ascii_externals demo_identity ?j1 (commit_to_journal ?j1 (plan_of demo_cancel r2))"
    using demo_command_step [of demo_cancel ?j1] by blast
  let ?j2 = "commit_to_journal ?j1 (plan_of demo_cancel r2)"
  have "j_state ?j2 = Some ''skipped'' \<and> length (j_records ?j2) = 2"
    using new_record_fields(5) [OF r2(1)]
    by (simp add: commit_to_journal_def demo_cancel_def empty_journal_def)
  moreover have "(journal_step ascii_externals demo_identity)\<^sup>*\<^sup>* empty_journal ?j2"
    using r1(2) r2(2) by (meson converse_rtranclp_into_rtranclp rtranclp.rtrancl_refl)
  ultimately show ?thesis by blast
qed

theorem journal_history_sound_witness:
  "\<exists>j :: journal. j_state j = Some ''skipped'' \<and> j_revision j = 2 \<and> chained None 0 (j_records j)
     \<and> distinct (map rec_operation_id (j_records j))"
proof -
  obtain j where j: "(journal_step ascii_externals demo_identity)\<^sup>*\<^sup>* empty_journal j"
    "j_state j = Some ''skipped''" "length (j_records j) = 2"
    using demo_history by blast
  note h = journal_history_sound [OF j(1) rtranclp.rtrancl_refl]
  show ?thesis using h j(2,3) by (intro exI [of _ j]) simp
qed

theorem terminal_states_final_witness:
  "\<exists>j :: journal. j_state j = Some ''skipped'' \<and> (\<forall>k. (journal_step ascii_externals demo_identity)\<^sup>*\<^sup>* j k = (k = j))"
proof -
  obtain j where j: "(journal_step ascii_externals demo_identity)\<^sup>*\<^sup>* empty_journal j"
    "j_state j = Some ''skipped''"
    using demo_history by blast
  have "''skipped'' \<in> terminal_states" by (simp add: terminal_states_def)
  from terminal_states_final [OF j this] j(2) show ?thesis by blast
qed

theorem projection_applies_in_order_witness:
  "\<exists>rs cur log. length rs = 2 \<and> run_projection ascii_externals None rs = (cur, log)
     \<and> log = rs \<and> map rec_to_revision log = map PInt [1 .. int (length log)]"
proof -
  obtain j where j: "(journal_step ascii_externals demo_identity)\<^sup>*\<^sup>* empty_journal j"
    "length (j_records j) = 2"
    using demo_history by blast
  obtain cur log where run: "run_projection ascii_externals None (j_records j) = (cur, log)"
    by fastforce
  have "log = j_records j" using reachable_journal_replay [OF ascii_externals_laws(1) j(1)] run by simp
  with projection_applies_in_order [OF run] run j(2) show ?thesis
    by (intro exI [of _ "j_records j"] exI [of _ cur] exI [of _ log]) simp
qed

theorem journal_replay_complete_witness:
  "\<exists>j :: journal. length (j_records j) = 2
     \<and> snd (run_projection ascii_externals None (j_records j)) = j_records j"
proof -
  obtain j where j: "(journal_step ascii_externals demo_identity)\<^sup>*\<^sup>* empty_journal j"
    "length (j_records j) = 2"
    using demo_history by blast
  note h = journal_replay_complete [OF ascii_externals_laws(1) j(1)]
  show ?thesis using h j(2) by (intro exI [of _ j]) simp
qed

end
