(* ===== verification/JsonDumps.thy ===== *)
theory JsonDumps
  imports PyJson "HOL-Library.Char_ord" "HOL-Library.List_Lexorder"
begin

text \<open>
  \<open>json.dumps(value, sort_keys=True, separators=(",", ":"))\<close> of the Python standard library with its
  default \<open>ensure_ascii=True\<close>, on JSON-shaped values with string keys. Strings hold UTF-8, whose byte
  order is the code point order Python sorts keys by. The decimal text of a finite float
  (\<open>float.__repr__\<close>, the shortest text that reads back as the same double) is a parameter, and
  \<open>float_repr_plain\<close> says that it contains no JSON punctuation.

  The lemma that matters is unique readability: a scanner that counts brackets and skips strings
  finds the end of an encoded value, so the texts of the members of an object with given keys are
  determined by the text of the object.
\<close>

section \<open>Strings\<close>

text \<open>Code points of a UTF-8 byte sequence; bytes that start no sequence stand for themselves.\<close>

fun utf8_decode :: "nat list \<Rightarrow> nat list" where
  "utf8_decode [] = []"
| "utf8_decode (b # bs) =
     (if 240 \<le> b \<and> length bs \<ge> 3
      then ((b - 240) * 262144 + (bs ! 0 - 128) * 4096 + (bs ! 1 - 128) * 64 + (bs ! 2 - 128)) # utf8_decode (drop 3 bs)
      else if 224 \<le> b \<and> length bs \<ge> 2
      then ((b - 224) * 4096 + (bs ! 0 - 128) * 64 + (bs ! 1 - 128)) # utf8_decode (drop 2 bs)
      else if 192 \<le> b \<and> length bs \<ge> 1
      then ((b - 192) * 64 + (bs ! 0 - 128)) # utf8_decode (drop 1 bs)
      else b # utf8_decode bs)"

definition u_escape :: "nat \<Rightarrow> string" where
  "u_escape n = CHR 0x5C # CHR ''u'' # map (\<lambda>k. ''0123456789abcdef'' ! (n div 16 ^ k mod 16)) [3, 2, 1, 0]"

definition json_escape :: "nat \<Rightarrow> string" where
  "json_escape n =
     (if n = 34 then [CHR 0x5C, CHR 0x22]
      else if n = 92 then [CHR 0x5C, CHR 0x5C]
      else if n = 10 then [CHR 0x5C, CHR ''n'']
      else if n = 13 then [CHR 0x5C, CHR ''r'']
      else if n = 9 then [CHR 0x5C, CHR ''t'']
      else if n = 12 then [CHR 0x5C, CHR ''f'']
      else if n = 8 then [CHR 0x5C, CHR ''b'']
      else if 32 \<le> n \<and> n \<le> 126 then [char_of n]
      else if n < 65536 then u_escape n
      else u_escape (55296 + (n - 65536) div 1024 mod 1024) @ u_escape (56320 + (n - 65536) mod 1024))"

definition json_string :: "string \<Rightarrow> string" where
  "json_string s = CHR 0x22 # concat (map json_escape (utf8_decode (map of_char s))) @ [CHR 0x22]"

section \<open>Values\<close>

definition json_float :: "(pyfloat \<Rightarrow> string) \<Rightarrow> pyfloat \<Rightarrow> string" where
  "json_float repr x =
     (case x of NaN \<Rightarrow> ''NaN'' | PosInf \<Rightarrow> ''Infinity'' | NegInf \<Rightarrow> ''-Infinity'' | FinFloat _ _ \<Rightarrow> repr x)"

fun join_commas :: "string list \<Rightarrow> string" where
  "join_commas [] = []"
| "join_commas [t] = t"
| "join_commas (t # u # ts) = t @ '','' @ join_commas (u # ts)"

definition json_member :: "string \<times> string \<Rightarrow> string" where
  "json_member m = json_string (fst m) @ '':'' @ snd m"

fun json_dumps :: "(pyfloat \<Rightarrow> string) \<Rightarrow> json \<Rightarrow> string" where
  "json_dumps repr JNull = ''null''"
| "json_dumps repr (JBool b) = (if b then ''true'' else ''false'')"
| "json_dumps repr (JInt n) = dec_int n"
| "json_dumps repr (JFloat x) = json_float repr x"
| "json_dumps repr (JStr s) = json_string s"
| "json_dumps repr (JArr vs) = ''['' @ join_commas (map (json_dumps repr) vs) @ '']''"
| "json_dumps repr (JObj ms) =
     ''{'' @ join_commas (map json_member (sort_key fst (map (\<lambda>(k, v). (k, json_dumps repr v)) ms))) @ ''}''"

section \<open>Unique readability\<close>

definition json_punctuation :: "char set" where
  "json_punctuation = set ''[]{},'' \<union> {CHR 0x22}"

definition float_repr_plain :: "(pyfloat \<Rightarrow> string) \<Rightarrow> bool" where
  "float_repr_plain repr \<longleftrightarrow> (\<forall>m e. set (repr (FinFloat m e)) \<inter> json_punctuation = {})"

text \<open>
  \<open>scan_value d t\<close> reads on from the middle of a value at bracket depth \<open>d\<close>, and \<open>scan_string\<close> from
  the middle of a string; the rest of the input at the end of the value is returned.
\<close>

function scan_value :: "nat \<Rightarrow> string \<Rightarrow> string" and scan_string :: "nat \<Rightarrow> string \<Rightarrow> string" where
  "scan_value d [] = []"
| "scan_value d (c # cs) =
     (if c = CHR 0x22 then scan_string d cs
      else if c \<in> set ''[{'' then scan_value (Suc d) cs
      else if c \<in> set '']}'' then (if d = 0 then c # cs else scan_value (d - 1) cs)
      else if c = CHR '','' \<and> d = 0 then c # cs
      else scan_value d cs)"
| "scan_string d [] = []"
| "scan_string d (c # cs) =
     (if c = CHR 0x22 then scan_value d cs
      else if c = CHR 0x5C then scan_string d (tl cs)
      else scan_string d cs)"
  by pat_completeness auto
termination
  by (relation "measure (\<lambda>x. case x of Inl (d, t) \<Rightarrow> length t | Inr (d, t) \<Rightarrow> length t)") auto

lemma utf8_decode_ascii: "list_all (\<lambda>b. b < 128) bs \<Longrightarrow> utf8_decode bs = bs"
  by (induction bs rule: utf8_decode.induct) auto

lemma scan_plain:
  "set t \<inter> json_punctuation = {} \<Longrightarrow> scan_value d (t @ rest) = scan_value d rest"
  by (induction t) (auto simp: json_punctuation_def)

lemma scan_hex_digits:
  "scan_string d (map (\<lambda>k. ''0123456789abcdef'' ! (n div 16 ^ k mod 16)) ks @ rest) = scan_string d rest"
proof (induction ks)
  case (Cons k ks)
  have "''0123456789abcdef'' ! (n div 16 ^ k mod 16) \<in> set ''0123456789abcdef''"
    by (rule nth_mem) simp
  then have "''0123456789abcdef'' ! (n div 16 ^ k mod 16) \<noteq> CHR 0x22"
    "''0123456789abcdef'' ! (n div 16 ^ k mod 16) \<noteq> CHR 0x5C" by auto
  with Cons show ?case by (simp del: nth_Cons_numeral)
qed simp

lemma scan_u_escape: "scan_string d (u_escape n @ rest) = scan_string d rest"
  by (simp add: u_escape_def scan_hex_digits del: list.map)

lemma char_of_plain:
  fixes n :: nat
  assumes "n < 256" and "n \<noteq> 34" and "n \<noteq> 92"
  shows "char_of n \<noteq> CHR 0x22" "char_of n \<noteq> CHR 0x5C"
proof -
  have "of_char (char_of n :: char) = n" using assms(1) by simp
  moreover have "of_char (CHR 0x22) = (34 :: nat)" "of_char (CHR 0x5C) = (92 :: nat)" by simp_all
  ultimately show "char_of n \<noteq> CHR 0x22" "char_of n \<noteq> CHR 0x5C" using assms(2,3) by metis+
qed

lemma scan_json_escape: "scan_string d (json_escape n @ rest) = scan_string d rest"
  by (simp add: json_escape_def scan_u_escape char_of_plain)

lemma scan_json_string: "scan_value d (json_string s @ rest) = scan_value d rest"
proof -
  have "scan_string d (concat (map json_escape ns) @ CHR 0x22 # rest) = scan_value d rest" for ns
    by (induction ns) (simp_all add: scan_json_escape)
  then show ?thesis by (simp add: json_string_def)
qed

lemma scan_join_commas:
  assumes "\<And>t d rest. t \<in> set ts \<Longrightarrow> scan_value d (t @ rest) = scan_value d rest"
  shows "scan_value (Suc d) (join_commas ts @ rest) = scan_value (Suc d) rest"
  using assms by (induction ts rule: join_commas.induct) simp_all

lemma scan_json_dumps:
  assumes "float_repr_plain repr"
  shows "scan_value d (json_dumps repr v @ rest) = scan_value d rest"
proof (induction v arbitrary: d rest)
  case (JInt n)
  have "set (dec_int n) \<inter> json_punctuation = {}"
    by (auto simp: dec_int_def json_punctuation_def dest!: dec_nat_digits simp: is_digit_def)
  then show ?case by (simp add: scan_plain)
next
  case (JFloat x)
  have "set (json_float repr x) \<inter> json_punctuation = {}"
    using assms by (cases x) (auto simp: json_float_def float_repr_plain_def, auto simp: json_punctuation_def)
  then show ?case by (simp add: scan_plain)
next
  case (JArr vs)
  have "scan_value (Suc d) (join_commas (map (json_dumps repr) vs) @ '']'' @ rest) = scan_value (Suc d) ('']'' @ rest)"
    using JArr by (intro scan_join_commas) auto
  then show ?case by simp
next
  case (JObj ms)
  have "scan_value d (t @ rest) = scan_value d rest"
    if "t \<in> set (map json_member (sort_key fst (map (\<lambda>(k, v). (k, json_dumps repr v)) ms)))" for t d rest
  proof -
    from that obtain k v where "(k, v) \<in> set ms" "t = json_string k @ '':'' @ json_dumps repr v"
      by (auto simp: json_member_def)
    with JObj show ?thesis by (simp add: scan_json_string)
  qed
  then have "scan_value (Suc d) (join_commas (map json_member (sort_key fst (map (\<lambda>(k, v). (k, json_dumps repr v)) ms)))
      @ ''}'' @ rest) = scan_value (Suc d) (''}'' @ rest)"
    by (intro scan_join_commas)
  then show ?case by simp
qed (auto simp: scan_json_string intro: scan_plain simp: json_punctuation_def)

definition self_delimiting :: "string \<Rightarrow> bool" where
  "self_delimiting t \<longleftrightarrow> (\<forall>d rest. scan_value d (t @ rest) = scan_value d rest)"

lemma self_delimiting_json_dumps: "float_repr_plain repr \<Longrightarrow> self_delimiting (json_dumps repr v)"
  by (simp add: self_delimiting_def scan_json_dumps)

lemma self_delimiting_unique:
  assumes "self_delimiting t" and "self_delimiting u" and "t @ r = u @ q"
    and "r = [] \<or> hd r \<in> set '',}''" and "q = [] \<or> hd q \<in> set '',}''"
  shows "t = u \<and> r = q"
proof -
  have end_of: "scan_value 0 r = r" if "r = [] \<or> hd r \<in> set '',}''" for r
    using that by (cases r) auto
  have "r = scan_value 0 (t @ r)" using assms(1,4) end_of by (simp add: self_delimiting_def)
  also have "\<dots> = q" using assms(2,3,5) end_of by (simp add: self_delimiting_def)
  finally show ?thesis using assms(3) by simp
qed

text \<open>The member texts of an object are determined by the object's text and its keys.\<close>

lemma members_unique:
  assumes "list_all self_delimiting ts" and "list_all self_delimiting us"
    and "length ts = length ks" and "length us = length ks"
    and "join_commas (map json_member (zip ks ts)) = join_commas (map json_member (zip ks us))"
  shows "ts = us"
  using assms
proof (induction ks arbitrary: ts us)
  case (Cons k ks)
  obtain t ts' where ts: "ts = t # ts'" using Cons.prems by (cases ts) auto
  obtain u us' where us: "us = u # us'" using Cons.prems by (cases us) auto
  have join: "join_commas (map json_member (zip (k # ks) (v # vs))) =
      json_string k @ '':'' @ v @ (if vs = [] then [] else '','' @ join_commas (map json_member (zip ks vs)))"
    if "length vs = length ks" for v vs
    using that by (cases ks; cases vs) (simp_all add: json_member_def)
  have len: "length ts' = length ks" "length us' = length ks" using Cons.prems ts us by auto
  have "t @ (if ts' = [] then [] else '','' @ join_commas (map json_member (zip ks ts'))) =
      u @ (if us' = [] then [] else '','' @ join_commas (map json_member (zip ks us')))"
    using Cons.prems(5) unfolding ts us join [OF len(1)] join [OF len(2)] by simp
  then have "t = u \<and> (if ts' = [] then [] else '','' @ join_commas (map json_member (zip ks ts'))) =
      (if us' = [] then [] else '','' @ join_commas (map json_member (zip ks us')))"
    using Cons.prems(1,2) ts us by (intro self_delimiting_unique) auto
  moreover have "(ts' = []) = (us' = [])" using len by auto
  ultimately have "t = u" "join_commas (map json_member (zip ks ts')) = join_commas (map json_member (zip ks us'))"
    using len by (auto split: if_splits)
  with Cons.IH [of ts' us'] Cons.prems ts us len show ?case by simp
qed auto

lemma sort_key_sorted: "sorted (map f xs) \<Longrightarrow> sort_key f xs = xs"
  by (induction xs) (auto simp: insort_is_Cons)

end
