(* ===== verification/JsonRoundTrip.thy ===== *)
theory JsonRoundTrip
  imports JsonLoads JsonDumps
begin

text \<open>
  Reading back what \<open>json.dumps(value, sort_keys=True, separators=(",", ":"))\<close> wrote: on values with
  ASCII strings, safe integers and no floats \<open>json.loads\<close> returns the value with the members of every
  object in key order.
\<close>

fun json_plain :: "json \<Rightarrow> bool" where
  "json_plain JNull = True"
| "json_plain (JBool b) = True"
| "json_plain (JInt i) = (- max_safe_integer \<le> i \<and> i \<le> max_safe_integer)"
| "json_plain (JFloat f) = False"
| "json_plain (JStr s) = is_ascii s"
| "json_plain (JArr js) = list_all json_plain js"
| "json_plain (JObj kvs) = (distinct (map fst kvs) \<and> list_all (\<lambda>kv. is_ascii (fst kv) \<and> json_plain (snd kv)) kvs)"

fun sort_json :: "json \<Rightarrow> json" where
  "sort_json (JArr js) = JArr (map sort_json js)"
| "sort_json (JObj kvs) = JObj (sort_key fst (map (\<lambda>kv. (fst kv, sort_json (snd kv))) kvs))"
| "sort_json j = j"

section \<open>Strings\<close>

lemma hex_digit_nth: "d < 16 \<Longrightarrow> hex_digit (''0123456789abcdef'' ! d) = Some d"
proof -
  have "list_all (\<lambda>d. hex_digit (''0123456789abcdef'' ! d) = Some d) [0..<16]"
    by (simp add: upt_rec hex_digit_def Let_def)
  then show "d < 16 \<Longrightarrow> hex_digit (''0123456789abcdef'' ! d) = Some d" by (simp add: list_all_iff)
qed

lemma hex4_digits:
  assumes "hex_digit a = Some w" "hex_digit b = Some x" "hex_digit c = Some y" "hex_digit d = Some z"
  shows "hex4 (a # b # c # d # rest) = Some (w * 4096 + x * 256 + y * 16 + z)"
  using assms by (simp add: hex4_def)

lemma hex4_u_escape:
  assumes n: "n < 256"
  shows "hex4 (drop 2 (u_escape n) @ rest) = Some n"
proof -
  define h where "h k = ''0123456789abcdef'' ! (n div 16 ^ k mod 16)" for k
  have u: "drop 2 (u_escape n) @ rest = h 3 # h 2 # h 1 # h 0 # rest"
    by (simp only: u_escape_def h_def list.map drop_Suc_Cons numeral_2_eq_2 drop_0 append.simps)
  have h: "hex_digit (h k) = Some (n div 16 ^ k mod 16)" for k
    unfolding h_def by (rule hex_digit_nth) simp
  have "n div 16 ^ 3 mod 16 * 4096 + n div 16 ^ 2 mod 16 * 256 + n div 16 ^ 1 mod 16 * 16 + n div 16 ^ 0 mod 16 = n"
    using n by simp
  then show ?thesis unfolding u hex4_digits [OF h h h h] by (simp only:)
qed

lemma scan_u_escape_char:
  assumes "n < 128"
  shows "scan_chars acc (u_escape n @ rest) = scan_chars (char_of n # acc) rest"
proof -
  have esc: "u_escape n = CHR 0x5C # CHR ''u'' # drop 2 (u_escape n)" by (simp add: u_escape_def)
  have len: "length (drop 2 (u_escape n)) = 4" by (simp add: u_escape_def)
  have "scan_unicode (drop 2 (u_escape n) @ rest) = Some ([char_of n], rest)"
    using assms hex4_u_escape [of n rest] len by (simp add: scan_unicode_def Let_def utf8_encode_def)
  then show ?thesis using len by (subst esc) simp
qed

lemma scan_short_escapes:
  "list_all (\<lambda>n. json_escape n \<noteq> [] \<and> hd (json_escape n) = CHR 0x5C \<and> length (json_escape n) = 2
     \<and> hd (tl (json_escape n)) \<noteq> CHR ''u'' \<and> simple_escape (hd (tl (json_escape n))) = Some (char_of n))
     [34, 92, 10, 13, 9, 12, 8]"
  by code_simp

lemma scan_short_escape:
  assumes "n \<in> {34, 92, 10, 13, 9, 12, 8}"
  shows "scan_chars acc (json_escape n @ rest) = scan_chars (char_of n # acc) rest"
proof -
  from assms scan_short_escapes have "json_escape n \<noteq> []" "hd (json_escape n) = CHR 0x5C" "length (json_escape n) = 2"
    "hd (tl (json_escape n)) \<noteq> CHR ''u''" "simple_escape (hd (tl (json_escape n))) = Some (char_of n)"
    unfolding list_all_iff by auto
  then show ?thesis by (cases "json_escape n"; cases "tl (json_escape n)") auto
qed

lemma scan_escape:
  assumes "n < 128"
  shows "scan_chars acc (json_escape n @ rest) = scan_chars (char_of n # acc) rest"
proof (cases "n \<in> {34, 92, 10, 13, 9, 12, 8}")
  case True
  then show ?thesis by (rule scan_short_escape)
next
  case plain: False
  show ?thesis
  proof (cases "32 \<le> n \<and> n \<le> 126")
    case True
    then have "of_char (char_of n :: char) = n" by simp
    moreover have "char_of n \<noteq> CHR 0x22" "char_of n \<noteq> CHR 0x5C"
      by (rule char_of_plain; use plain True in simp)+
    ultimately show ?thesis using True plain by (simp add: json_escape_def)
  next
    case False
    with plain assms have "json_escape n = u_escape n" by (auto simp: json_escape_def)
    with scan_u_escape_char [OF assms] show ?thesis by simp
  qed
qed

lemma scan_escapes:
  "list_all (\<lambda>n. n < 128) ns \<Longrightarrow>
     scan_chars acc (concat (map json_escape ns) @ CHR 0x22 # rest) = Some (rev acc @ map char_of ns, rest)"
  by (induction ns arbitrary: acc) (simp_all add: scan_escape)

lemma scan_json_string_ascii:
  assumes "is_ascii s"
  shows "\<exists>t. json_string s = CHR 0x22 # t \<and> scan_chars [] (t @ rest) = Some (s, rest)"
proof -
  have ns: "list_all (\<lambda>n. n < 128) (map of_char s :: nat list)" using assms by (simp add: is_ascii_def list_all_iff)
  have "json_string s = CHR 0x22 # (concat (map json_escape (map of_char s)) @ [CHR 0x22])"
    by (simp add: json_string_def utf8_decode_ascii [OF ns])
  moreover have "scan_chars [] ((concat (map json_escape (map of_char s)) @ [CHR 0x22]) @ rest) = Some (s, rest)"
    using scan_escapes [OF ns, of "[]" rest] by (simp add: comp_def)
  ultimately show ?thesis by blast
qed

section \<open>Integers\<close>

lemma dec_nat_leading_zero: "hd (dec_nat n) = CHR ''0'' \<Longrightarrow> n = 0"
proof (induction n rule: dec_nat.induct)
  case (1 n)
  show ?case
  proof (cases "n < 10")
    case True
    with "1.prems" have "digit_char n = CHR ''0''" by (subst (asm) dec_nat.simps) simp
    then have "of_char (digit_char n) = (48 :: nat)" by simp
    with True show ?thesis by simp
  next
    case False
    have "hd (dec_nat n) = hd (dec_nat (n div 10))" using False by (subst dec_nat.simps) simp
    with "1.IH" "1.prems" False show ?thesis by simp
  qed
qed

lemma length_dec_nat: "n < 10 ^ Suc k \<Longrightarrow> length (dec_nat n) \<le> Suc k"
proof (induction k arbitrary: n)
  case 0
  then show ?case by (subst dec_nat.simps) simp
next
  case (Suc k)
  show ?case
  proof (cases "n < 10")
    case True
    then show ?thesis by (subst dec_nat.simps) simp
  next
    case False
    have "n div 10 < 10 ^ Suc k" using Suc.prems by (simp add: div_less_iff_less_mult)
    from Suc.IH [OF this] False show ?thesis by (subst dec_nat.simps) simp
  qed
qed

definition json_delimited :: "string \<Rightarrow> bool" where
  "json_delimited rest \<longleftrightarrow> rest = [] \<or> hd rest \<in> set '',]}''"

lemma scan_number_dec_int:
  assumes "- max_safe_integer \<le> i" and "i \<le> max_safe_integer" and "json_delimited rest"
  shows "scan_number (dec_int i @ rest) = Some (Inr (PInt i, rest))"
proof -
  define m where "m = nat \<bar>i\<bar>"
  obtain c cs where cs: "dec_nat m = c # cs" by (cases "dec_nat m") auto
  have digits: "list_all is_digit (c # cs)" using dec_nat_digits [of _ m] by (simp add: cs [symmetric] list_all_iff)
  have nodigit: "takeWhile is_digit rest = []" "scan_fraction rest = None" "scan_exponent rest = None"
    using assms(3) by (cases rest; auto simp: json_delimited_def is_digit_def scan_fraction_def scan_exponent_def)+
  have "m < 10 ^ Suc 15" using assms(1,2) by (simp add: m_def max_safe_integer_def)
  from length_dec_nat [OF this] have "\<not> int_digit_limit < length (c # cs)" by (simp add: cs int_digit_limit_def)
  then have tail: "number_tail neg (c # cs) rest = Inr (PInt (signed_int neg m), rest)" for neg
    using nodigit nat_of_dec_dec_nat [of m] by (simp add: number_tail_def cs)
  have zero: "c = CHR ''0'' \<Longrightarrow> cs = []"
    using dec_nat_leading_zero [of m] cs by (auto simp: dec_nat.simps)
  have ds: "(if c = CHR ''0'' then [hd (c # cs @ rest)] else takeWhile is_digit (c # cs @ rest)) = c # cs"
    using digits zero nodigit(1) by (auto simp: takeWhile_append2 list_all_iff)
  have unsigned: "unsigned_number neg (c # cs @ rest) = Some (Inr (PInt (signed_int neg m), rest))" for neg
    using digits tail [of neg]
    by (simp add: unsigned_number_def Let_def ds del: takeWhile.simps split del: if_split)
  show ?thesis
  proof (cases "i < 0")
    case True
    then have "dec_int i @ rest = CHR ''-'' # c # cs @ rest" by (simp add: dec_int_def cs [symmetric] m_def)
    with True unsigned [of True] show ?thesis by (simp add: scan_number_def Let_def signed_int_def m_def)
  next
    case False
    then have "dec_int i @ rest = c # cs @ rest" by (simp add: dec_int_def cs [symmetric] m_def)
    moreover have "c \<noteq> CHR ''-''" using digits digit_not_minus by auto
    ultimately show ?thesis
      using False unsigned [of False] by (simp add: scan_number_def Let_def signed_int_def m_def)
  qed
qed

section \<open>Values\<close>

text \<open>The first character of a value: never a blank, a closing bracket or a comma.\<close>

definition value_start :: "char \<Rightarrow> bool" where
  "value_start c \<longleftrightarrow> (of_char c :: nat) < 128 \<and> c \<notin> set ''],}'' \<and> c \<notin> {CHR '' '', CHR 0x09, CHR 0x0A, CHR 0x0D}"

lemma digit_value_start: "is_digit c \<Longrightarrow> value_start c"
  by (auto simp: is_digit_def value_start_def)

lemma dec_int_start: "\<exists>c cs. dec_int i = c # cs \<and> (is_digit c \<or> c = CHR ''-'')"
proof -
  obtain c cs where cs: "dec_nat (nat \<bar>i\<bar>) = c # cs" by (cases "dec_nat (nat \<bar>i\<bar>)") auto
  then have "is_digit c" using dec_nat_digits [of c "nat \<bar>i\<bar>"] by simp
  with cs show ?thesis by (cases "i < 0") (auto simp: dec_int_def)
qed

lemma json_dumps_start:
  assumes "json_plain v"
  shows "\<exists>c cs. json_dumps repr v = c # cs \<and> value_start c"
proof (cases v)
  case (JInt i)
  have "value_start CHR ''-''" by (simp add: value_start_def)
  with dec_int_start [of i] JInt show ?thesis by (auto dest: digit_value_start)
qed (use assms in \<open>auto simp: value_start_def json_string_def\<close>)

lemma skip_ws_start: "value_start c \<Longrightarrow> skip_ws (c # cs) = c # cs"
  by (simp add: skip_ws_def value_start_def)

lemma skip_ws_dumps: "json_plain v \<Longrightarrow> skip_ws (json_dumps repr v @ rest) = json_dumps repr v @ rest"
  using json_dumps_start [of v repr] by (auto simp: skip_ws_start)

lemma skip_ws_delimiter: "c \<in> {CHR '','', CHR 0x5D, CHR 0x7D, CHR '':'', CHR 0x22} \<Longrightarrow> skip_ws (c # cs) = c # cs"
  by (auto simp: skip_ws_def)

text \<open>\<open>reads_back v\<close>: with enough fuel the parser returns the value and leaves what follows.\<close>

definition reads_back :: "(pyfloat \<Rightarrow> string) \<Rightarrow> json \<Rightarrow> bool" where
  "reads_back repr v \<longleftrightarrow> (\<forall>n rest. 2 * length (json_dumps repr v) < n \<longrightarrow> json_delimited rest \<longrightarrow>
     parse_value n (json_dumps repr v @ rest) = Inr (py_of_json (sort_json v), rest))"

lemma parse_elements_dumps:
  assumes "list_all json_plain vs" and "list_all (reads_back repr) vs" and "vs \<noteq> []"
    and "2 * length (join_commas (map (json_dumps repr) vs)) + 3 < n"
  shows "parse_elements n xs (join_commas (map (json_dumps repr) vs) @ CHR 0x5D # rest)
    = Inr (PSeq (xs @ map (\<lambda>v. py_of_json (sort_json v)) vs), rest)"
  using assms
proof (induction vs arbitrary: n xs)
  case (Cons v vs)
  then obtain m where n: "n = Suc m" by (cases n) auto
  have v: "json_plain v" "reads_back repr v" using Cons.prems by simp_all
  show ?case
  proof (cases "vs = []")
    case True
    have "parse_value m (json_dumps repr v @ CHR 0x5D # rest) = Inr (py_of_json (sort_json v), CHR 0x5D # rest)"
      using v(2) Cons.prems(4) True by (simp add: reads_back_def n json_delimited_def)
    then show ?thesis by (simp add: True n skip_ws_delimiter)
  next
    case False
    then obtain w ws where vs: "vs = w # ws" by (cases vs) auto
    let ?tail = "join_commas (map (json_dumps repr) vs) @ CHR 0x5D # rest"
    have txt_eq: "join_commas (map (json_dumps repr) (v # vs)) @ CHR 0x5D # rest = json_dumps repr v @ CHR '','' # ?tail"
      by (simp add: vs)
    have len: "length (join_commas (map (json_dumps repr) (v # vs)))
        = length (json_dumps repr v) + 1 + length (join_commas (map (json_dumps repr) vs))" by (simp add: vs)
    have fst_ok: "parse_value m (json_dumps repr v @ CHR '','' # ?tail) = Inr (py_of_json (sort_json v), CHR '','' # ?tail)"
      using v(2) Cons.prems(4) len by (simp add: reads_back_def n json_delimited_def)
    have "json_plain w" using Cons.prems(1) vs by simp
    then obtain c cs where st: "json_dumps repr w = c # cs" "value_start c" using json_dumps_start by blast
    have "skip_ws ?tail = ?tail" using st by (cases ws) (simp_all add: vs skip_ws_start)
    moreover have "parse_elements m (xs @ [py_of_json (sort_json v)]) ?tail
        = Inr (PSeq ((xs @ [py_of_json (sort_json v)]) @ map (\<lambda>v. py_of_json (sort_json v)) vs), rest)"
      using Cons.prems len False by (intro Cons.IH) (auto simp: n)
    ultimately show ?thesis using fst_ok by (simp only: txt_eq n parse_elements.simps) (simp add: skip_ws_delimiter)
  qed
qed simp

lemma dict_put_fresh: "PStr k \<notin> fst ` set d \<Longrightarrow> dict_put d k v = d @ [(PStr k, v)]"
  unfolding dict_put_def by (induction d) auto

lemma parse_members_dumps:
  assumes "list_all (\<lambda>m. is_ascii (fst m) \<and> json_plain (snd m) \<and> reads_back repr (snd m)) ms"
    and "ms \<noteq> []" and "distinct (map fst ms)" and "\<forall>m \<in> set ms. PStr (fst m) \<notin> fst ` set d"
    and "2 * length (join_commas (map json_member (map (\<lambda>m. (fst m, json_dumps repr (snd m))) ms))) + 2 < n"
  shows "parse_members n d (join_commas (map json_member (map (\<lambda>m. (fst m, json_dumps repr (snd m))) ms)) @ CHR 0x7D # rest)
    = Inr (PMap (d @ map (\<lambda>m. (PStr (fst m), py_of_json (sort_json (snd m)))) ms), rest)"
  using assms
proof (induction ms arbitrary: n d)
  case (Cons m ms)
  obtain k v where m: "m = (k, v)" by (cases m)
  from Cons.prems obtain l where n: "n = Suc l" by (cases n) auto
  have v: "is_ascii k" "json_plain v" "reads_back repr v" and fresh: "PStr k \<notin> fst ` set d" using Cons.prems m by auto
  let ?join = "\<lambda>ms. join_commas (map json_member (map (\<lambda>m. (fst m, json_dumps repr (snd m))) ms))"
  define rest' where "rest' = (if ms = [] then CHR 0x7D # rest else CHR '','' # ?join ms @ CHR 0x7D # rest)"
  have txt_eq: "?join (m # ms) @ CHR 0x7D # rest = json_string k @ CHR '':'' # json_dumps repr v @ rest'"
    by (cases ms) (simp_all add: m json_member_def rest'_def)
  have len: "length (json_dumps repr v) + 3 + (if ms = [] then 0 else 1 + length (?join ms)) \<le> length (?join (m # ms))"
    by (cases ms) (simp_all add: m json_member_def json_string_def)
  obtain t where t: "json_string k = CHR 0x22 # t"
    "scan_chars [] (t @ CHR '':'' # json_dumps repr v @ rest') = Some (k, CHR '':'' # json_dumps repr v @ rest')"
    using scan_json_string_ascii [OF v(1), of "CHR '':'' # json_dumps repr v @ rest'"] by blast
  have fst_ok: "parse_value l (json_dumps repr v @ rest') = Inr (py_of_json (sort_json v), rest')"
    using v(3) Cons.prems(5) len by (simp add: reads_back_def n json_delimited_def rest'_def split: if_split_asm)
  have r': "skip_ws rest' = rest'" "rest' \<noteq> []" by (simp_all add: rest'_def skip_ws_delimiter)
  let ?d = "d @ [(PStr k, py_of_json (sort_json v))]"
  have step: "parse_members n d (?join (m # ms) @ CHR 0x7D # rest) =
      (if hd rest' = CHR 0x7D then Inr (PMap ?d, tl rest')
       else if hd rest' = CHR '','' then parse_members l ?d (skip_ws (tl rest')) else Inl JSONDecodeError)"
    by (simp only: txt_eq n parse_members.simps)
      (simp add: t fst_ok skip_ws_delimiter skip_ws_dumps [OF v(2)] r' dict_put_fresh [OF fresh])
  show ?case
  proof (cases "ms = []")
    case True
    with step show ?thesis by (simp add: rest'_def m)
  next
    case False
    have start: "skip_ws (?join ms @ CHR 0x7D # rest) = ?join ms @ CHR 0x7D # rest"
      using False by (cases ms; cases "tl ms") (auto simp: json_member_def json_string_def skip_ws_delimiter)
    have "parse_members l ?d (?join ms @ CHR 0x7D # rest)
        = Inr (PMap (?d @ map (\<lambda>m. (PStr (fst m), py_of_json (sort_json (snd m)))) ms), rest)"
      using Cons.prems len False m by (intro Cons.IH) (auto simp: n)
    with False show ?thesis by (simp only: step) (simp add: rest'_def start m del: map_map)
  qed
qed simp

lemma insort_key_map_snd:
  "insort_key fst (fst x, f (snd x)) (map (\<lambda>m. (fst m, f (snd m))) ys) = map (\<lambda>m. (fst m, f (snd m))) (insort_key fst x ys)"
  by (induction ys) auto

lemma sort_key_map_snd:
  "sort_key fst (map (\<lambda>m. (fst m, f (snd m))) xs) = map (\<lambda>m. (fst m, f (snd m))) (sort_key fst xs)"
  by (induction xs) (simp_all add: insort_key_map_snd)

lemma reads_backD:
  assumes "reads_back repr v" and "2 * length (json_dumps repr v) < n" and "json_delimited rest"
  shows "parse_value n (json_dumps repr v @ rest) = Inr (py_of_json (sort_json v), rest)"
  using assms unfolding reads_back_def by simp

lemma parse_words:
  "parse_value (Suc l) (''null'' @ rest) = Inr (PNone, rest)"
  "parse_value (Suc l) (''true'' @ rest) = Inr (PBool True, rest)"
  "parse_value (Suc l) (''false'' @ rest) = Inr (PBool False, rest)"
  by (simp_all add: scan_number_def unsigned_number_def is_digit_def scan_word_def json_words_def)

lemma reads_back_words: "reads_back repr JNull" "reads_back repr (JBool b)"
proof -
  have "parse_value n (w @ rest) = Inr (v, rest)"
    if "0 < n" "\<And>l. parse_value (Suc l) (w @ rest) = Inr (v, rest)" for n w v rest
    using that(2) [of "n - 1"] that(1) by (simp del: parse_value.simps)
  note word = this
  show "reads_back repr JNull"
    unfolding reads_back_def json_dumps.simps sort_json.simps py_of_json.simps
    by (intro allI impI, rule word [OF _ parse_words(1)]) simp
  show "reads_back repr (JBool b)"
    unfolding reads_back_def json_dumps.simps sort_json.simps py_of_json.simps
    by (cases b; simp only: if_True if_False; intro allI impI)
      (rule word [OF _ parse_words(2)], simp, rule word [OF _ parse_words(3)], simp)
qed

lemma parse_value_dumps: "json_plain v \<Longrightarrow> reads_back repr v"
proof (induction v)
  case (JInt i)
  show ?case unfolding reads_back_def
  proof (intro allI impI)
    fix n rest
    assume n: "2 * length (json_dumps repr (JInt i)) < n" and d: "json_delimited rest"
    then obtain l where "n = Suc l" by (cases n) auto
    moreover obtain c cs where "dec_int i = c # cs" and c: "is_digit c \<or> c = CHR ''-''" using dec_int_start by blast
    moreover from c have "c \<noteq> CHR 0x22" "c \<noteq> CHR 0x7B" "c \<noteq> CHR 0x5B" by (auto simp: is_digit_def)
    ultimately show "parse_value n (json_dumps repr (JInt i) @ rest) = Inr (py_of_json (sort_json (JInt i)), rest)"
      using scan_number_dec_int [OF _ _ d, of i] JInt.prems by simp
  qed
next
  case (JStr s)
  show ?case unfolding reads_back_def
  proof (intro allI impI)
    fix n rest
    assume "2 * length (json_dumps repr (JStr s)) < n"
    then obtain l where "n = Suc l" by (cases n) auto
    moreover obtain t where "json_string s = CHR 0x22 # t" "scan_chars [] (t @ rest) = Some (s, rest)"
      using scan_json_string_ascii [of s rest] JStr.prems by auto
    ultimately show "parse_value n (json_dumps repr (JStr s) @ rest) = Inr (py_of_json (sort_json (JStr s)), rest)"
      by simp
  qed
next
  case (JArr vs)
  have vs: "list_all json_plain vs" "list_all (reads_back repr) vs" using JArr by (auto simp: list_all_iff)
  show ?case unfolding reads_back_def
  proof (intro allI impI)
    fix n rest
    assume n: "2 * length (json_dumps repr (JArr vs)) < n"
    then obtain l where l: "n = Suc l" by (cases n) auto
    let ?t = "join_commas (map (json_dumps repr) vs) @ CHR 0x5D # rest"
    show "parse_value n (json_dumps repr (JArr vs) @ rest) = Inr (py_of_json (sort_json (JArr vs)), rest)"
    proof (cases vs)
      case Nil
      then show ?thesis by (simp add: l skip_ws_delimiter)
    next
      case (Cons w ws)
      obtain c cs where st: "json_dumps repr w = c # cs" "value_start c"
        using json_dumps_start [of w repr] vs(1) Cons by auto
      have t: "skip_ws ?t = ?t" "?t \<noteq> []" "hd ?t \<noteq> CHR 0x5D"
        using st by (cases ws; simp add: Cons skip_ws_start; simp add: value_start_def)+
      have "parse_elements l [] ?t = Inr (PSeq ([] @ map (\<lambda>v. py_of_json (sort_json v)) vs), rest)"
        using n l Cons by (intro parse_elements_dumps [OF vs]) auto
      with t show ?thesis by (simp add: l Let_def comp_def)
    qed
  qed
next
  case (JObj kvs)
  define ms where "ms = sort_key fst kvs"
  have sorted_texts: "sort_key fst (map (\<lambda>(k, v). (k, json_dumps repr v)) kvs) = map (\<lambda>m. (fst m, json_dumps repr (snd m))) ms"
    unfolding ms_def sort_key_map_snd [symmetric] by (simp only: case_prod_beta')
  have sorted_json: "sort_key fst (map (\<lambda>kv. (fst kv, sort_json (snd kv))) kvs) = map (\<lambda>m. (fst m, sort_json (snd m))) ms"
    unfolding ms_def by (rule sort_key_map_snd)
  have ms: "list_all (\<lambda>m. is_ascii (fst m) \<and> json_plain (snd m) \<and> reads_back repr (snd m)) ms"
    using JObj.prems JObj.IH by (fastforce simp: ms_def list_all_iff)
  have dist: "distinct (map fst ms)" using JObj.prems by (simp add: ms_def distinct_map)
  show ?case unfolding reads_back_def
  proof (intro allI impI)
    fix n rest
    assume n: "2 * length (json_dumps repr (JObj kvs)) < n"
    then obtain l where l: "n = Suc l" by (cases n) auto
    let ?t = "join_commas (map json_member (map (\<lambda>m. (fst m, json_dumps repr (snd m))) ms)) @ CHR 0x7D # rest"
    have txt_eq: "json_dumps repr (JObj kvs) @ rest = CHR 0x7B # ?t" by (simp only: json_dumps.simps sorted_texts) simp
    have obj: "py_of_json (sort_json (JObj kvs)) = PMap (map (\<lambda>m. (PStr (fst m), py_of_json (sort_json (snd m)))) ms)"
      by (simp only: sort_json.simps sorted_json) (simp add: comp_def)
    show "parse_value n (json_dumps repr (JObj kvs) @ rest) = Inr (py_of_json (sort_json (JObj kvs)), rest)"
    proof (cases "ms = []")
      case True
      then show ?thesis unfolding txt_eq obj l by (simp add: skip_ws_delimiter)
    next
      case False
      have t: "skip_ws ?t = ?t" "?t \<noteq> []" "hd ?t \<noteq> CHR 0x7D"
        using False by (cases ms; cases "tl ms"; auto simp: json_member_def json_string_def skip_ws_delimiter)+
      have "parse_members l [] ?t = Inr (PMap ([] @ map (\<lambda>m. (PStr (fst m), py_of_json (sort_json (snd m)))) ms), rest)"
        using n arg_cong [OF txt_eq, of length] l False by (intro parse_members_dumps [OF ms]) (auto simp: dist)
      with t show ?thesis unfolding txt_eq obj l by (simp add: Let_def)
    qed
  qed
qed (simp_all add: reads_back_words)

theorem json_loads_dumps:
  assumes "json_plain v"
  shows "json_loads (json_dumps repr v) = Inr (py_of_json (sort_json v))"
proof -
  obtain c cs where st: "json_dumps repr v = c # cs" "value_start c" using json_dumps_start [OF assms] by blast
  have "c \<noteq> char_of (239 :: nat)" using st(2) by (auto simp: value_start_def)
  then have "take 3 (json_dumps repr v) \<noteq> map char_of [239, 187, 191 :: nat]" by (simp add: st)
  moreover have "parse_value (2 * length (json_dumps repr v) + 1) (json_dumps repr v @ []) = Inr (py_of_json (sort_json v), [])"
    by (rule reads_backD [OF parse_value_dumps [OF assms]]) (simp_all add: json_delimited_def)
  moreover have "skip_ws (json_dumps repr v) = json_dumps repr v" using skip_ws_dumps [OF assms, of repr "[]"] by simp
  ultimately show ?thesis by (simp add: json_loads_def) (simp add: skip_ws_def)
qed

section \<open>Members in key order\<close>

lemma sort_key_again: "sort_key f (sort_key f xs) = sort_key f xs"
  by (rule sort_key_sorted) simp

lemma sort_json_members:
  "sort_json (JObj kvs) = JObj (map (\<lambda>kv. (fst kv, sort_json (snd kv))) (sort_key fst kvs))"
  by (simp add: sort_key_map_snd)

lemma sort_json_idem [simp]: "sort_json (sort_json j) = sort_json j"
proof (induction j)
  case (JObj kvs)
  have "sort_json (sort_json (snd kv)) = sort_json (snd kv)" if "kv \<in> set kvs" for kv
    using JObj.IH [of kv "snd kv"] that by (cases kv) simp
  then show ?case unfolding sort_json_members by (simp add: sort_key_map_snd sort_key_again)
qed simp_all

lemma json_plain_sort: "json_plain j \<Longrightarrow> json_plain (sort_json j)"
proof (induction j)
  case (JObj kvs)
  have "json_plain (sort_json (snd kv))" if "kv \<in> set kvs" for kv
    using JObj.IH [of kv "snd kv"] JObj.prems that by (cases kv) (auto simp: list_all_iff)
  with JObj.prems show ?case unfolding sort_json_members
    by (simp add: list_all_iff comp_def distinct_map del: sort_json.simps)
qed (simp_all add: list_all_iff)

lemma json_dumps_sort: "json_dumps repr (sort_json j) = json_dumps repr j"
proof (induction j)
  case (JObj kvs)
  have "json_dumps repr (sort_json (snd kv)) = json_dumps repr (snd kv)" if "kv \<in> set kvs" for kv
    using JObj.IH [of kv "snd kv"] that by (cases kv) simp
  then have eq: "map (\<lambda>kv. json_member (fst kv, json_dumps repr (sort_json (snd kv)))) (sort_key fst kvs)
      = map (\<lambda>kv. json_member (fst kv, json_dumps repr (snd kv))) (sort_key fst kvs)" by (intro map_cong) auto
  show ?case unfolding sort_json_members
    by (simp add: eq case_prod_unfold comp_def sort_key_map_snd [of "json_dumps repr"]
        sort_key_map_snd [of "\<lambda>v. json_dumps repr (sort_json v)"] sort_key_again del: sort_json.simps)
qed (simp_all add: comp_def cong: map_cong)

end
