(* ===== verification/AuthorityRoundTrip.thy ===== *)
theory AuthorityRoundTrip
  imports AuthorityStore AuthorityJournal JsonRoundTrip
begin

text \<open>
  What a commit writes, and reading it back. \<open>commit_writes\<close> are the four hashes as the accepted
  branch of \<open>src/hfa-core/src/hfa/lua/canonical_authority_commit.lua\<close> leaves them, with the arguments
  \<open>_commit_impl\<close> of \<open>redis_persistence.py\<close> passes: canonical texts of the record, the receipt and the
  transition index, each in an envelope with its SHA-1, and the head. The guards of the script, which
  decide whether the writes happen, are in CommitScript.

  Two encoders outside the repository are parameters: \<open>rfc8785.dumps\<close> (in \<open>externals\<close>), of which
  \<open>jcs_reads\<close> says that the text of a value reads back as that value with its keys in order and does not
  depend on that order, and the \<open>cjson.encode\<close> of Redis applied to an envelope, of which \<open>cjson_reads\<close> says the same. Both are
  stated for plain values: ASCII strings, safe integers, no floats.
\<close>

section \<open>Stored texts\<close>

definition canonical_text :: "externals \<Rightarrow> pyval \<Rightarrow> authority_error + string" where
  "canonical_text E v = canonical_json_bytes E v"

type_synonym envelope_encoder = "string \<Rightarrow> string \<Rightarrow> string"

definition storage_envelope :: "envelope_encoder \<Rightarrow> string \<Rightarrow> string" where
  "storage_envelope W payload_json = W payload_json (sha1_hexdigest payload_json)"

definition jcs_reads :: "externals \<Rightarrow> bool" where
  "jcs_reads E \<longleftrightarrow> (\<forall>j. json_wf E j \<longrightarrow> json_plain j \<longrightarrow>
     rfc8785_dumps E (sort_json j) = rfc8785_dumps E j
     \<and> (\<exists>b. rfc8785_dumps E j = Some b \<and> is_ascii b \<and> json_loads b = Inr (py_of_json (sort_json j))))"

definition cjson_reads :: "envelope_encoder \<Rightarrow> bool" where
  "cjson_reads W \<longleftrightarrow> (\<forall>p d. is_ascii p \<longrightarrow> is_ascii d \<longrightarrow>
     (\<exists>kvs. json_loads (W p d) = Inr (PMap kvs) \<and> fst ` set kvs = {PStr ''payload'', PStr ''storage_sha1''}
        \<and> dict_get kvs ''payload'' = Some (PStr p) \<and> dict_get kvs ''storage_sha1'' = Some (PStr d)))"

section \<open>The writes of an accepted commit\<close>

record stored_aggregate =
  sa_head :: "(string \<times> string) list"
  sa_indexes :: "(string \<times> string) list"
  sa_receipts :: "(string \<times> string) list"
  sa_records :: "(string \<times> string) list"

definition hset :: "(string \<times> string) list \<Rightarrow> (string \<times> string) list \<Rightarrow> (string \<times> string) list" where
  "hset fvs h = foldl (\<lambda>h (k, v). AList.update k v h) h fvs"

definition head_fields :: "ctr \<Rightarrow> string \<Rightarrow> string \<Rightarrow> (string \<times> string) list" where
  "head_fields r digest intents_json =
     [(''canonical_aggregate_identity_sha256'', str_of (rec_identity_sha256 r)),
      (''revision'', lua_tostring (int_of (rec_to_revision r))),
      (''state'', str_of (rec_next_state r)),
      (''state_is_null'', if rec_next_state r = PNone then ''1'' else ''0''),
      (''transition_id'', str_of (rec_transition_id r)),
      (''canonical_record_hash'', str_of (rec_record_hash r)),
      (''canonical_command_hash'', str_of (rec_command_hash r)),
      (''operation_id'', str_of (rec_operation_id r)),
      (''operation_digest'', digest),
      (''projection_intents_json'', intents_json),
      (''updated_at_ms'', dec_int (int_of (rec_committed_at_ms r)))]"

definition op_digest :: "ctr \<Rightarrow> string" where
  "op_digest r = component_digest [str_of (rec_operation_id r)]"

definition commit_writes :: "externals \<Rightarrow> envelope_encoder \<Rightarrow> ctr \<Rightarrow> operation_receipt \<Rightarrow> stored_aggregate
    \<Rightarrow> authority_error + stored_aggregate" where
  "commit_writes E W r rc st =
     rbind (rbind (record_payload E r) (canonical_text E)) (\<lambda>record_json.
     rbind (canonical_text E (receipt_payload rc)) (\<lambda>receipt_json.
     rbind (canonical_text E (transition_index_payload r)) (\<lambda>index_json.
     rbind (canonical_text E (PSeq (map thaw (rec_projection_intents r)))) (\<lambda>intents_json.
       Inr \<lparr>sa_head = hset (head_fields r (op_digest r) intents_json) (sa_head st),
            sa_indexes = hset [(str_of (rec_transition_id r), storage_envelope W index_json)] (sa_indexes st),
            sa_receipts = hset [(op_digest r, storage_envelope W receipt_json)] (sa_receipts st),
            sa_records = hset [(op_digest r, storage_envelope W record_json)] (sa_records st)\<rparr>))))"

definition empty_aggregate :: stored_aggregate where
  "empty_aggregate = \<lparr>sa_head = [], sa_indexes = [], sa_receipts = [], sa_records = []\<rparr>"

fun store_history :: "externals \<Rightarrow> envelope_encoder \<Rightarrow> stored_aggregate \<Rightarrow> ctr list \<Rightarrow> authority_error + stored_aggregate" where
  "store_history E W st [] = Inr st"
| "store_history E W st (r # rs) =
     rbind (commit_writes E W r (new_receipt r) st) (\<lambda>st'. store_history E W st' rs)"

definition hash_value :: "(string \<times> string) list \<Rightarrow> redis_value option" where
  "hash_value h = (if h = [] then None else Some (RHash h))"

definition view_of :: "keyspace \<Rightarrow> stored_aggregate \<Rightarrow> redis_view" where
  "view_of ks st key =
     (if key = aggregate_key ks then hash_value (sa_head st)
      else if key = transition_indexes_key ks then hash_value (sa_indexes st)
      else if key = receipts_key ks then hash_value (sa_receipts st)
      else if key = operation_records_key ks then hash_value (sa_records st)
      else None)"

section \<open>Stored records as JSON\<close>

definition jscalar :: "pyval \<Rightarrow> json" where
  "jscalar v = (case v of PStr s \<Rightarrow> JStr s | PInt i \<Rightarrow> JInt i | _ \<Rightarrow> JNull)"

definition is_scalar :: "pyval \<Rightarrow> bool" where
  "is_scalar v \<longleftrightarrow> v = PNone \<or> (\<exists>s. v = PStr s) \<or> (\<exists>i. v = PInt i)"

definition stored_json :: "ctr \<Rightarrow> json" where
  "stored_json r =
     JObj [(''schema_version'', jscalar (rec_schema_version r)),
           (''transition_id'', jscalar (rec_transition_id r)),
           (''aggregate_type'', JStr (aggregate_value (id_aggregate_type (rec_identity r)))),
           (''canonical_aggregate_identity'', identity_json (rec_identity r)),
           (''canonical_aggregate_identity_sha256'', jscalar (rec_identity_sha256 r)),
           (''from_revision'', jscalar (rec_from_revision r)),
           (''to_revision'', jscalar (rec_to_revision r)),
           (''operation_type'', jscalar (rec_operation_type r)),
           (''operation_id'', jscalar (rec_operation_id r)),
           (''canonical_command_hash'', jscalar (rec_command_hash r)),
           (''previous_state'', jscalar (rec_previous_state r)),
           (''next_state'', jscalar (rec_next_state r)),
           (''authoritative_metadata_changes'', rec_metadata_changes r),
           (''child_effects'', rec_child_effects r),
           (''causation_id'', jscalar (rec_causation_id r)),
           (''correlation_id'', jscalar (rec_correlation_id r)),
           (''writer_id'', jscalar (rec_writer_id r)),
           (''committed_at_ms'', jscalar (rec_committed_at_ms r)),
           (''durable_projection_intents'', JArr (rec_projection_intents r)),
           (''canonical_record_hash'', jscalar (rec_record_hash r))]"

text \<open>
  A record whose text can be stored and read: validated and plain. The text gives it back as it is when
  the members of its metadata, child effects and intents are already in key order; otherwise it gives
  back a record that differs in the order of its members.
\<close>

definition writable :: "externals \<Rightarrow> ctr \<Rightarrow> bool" where
  "writable E r \<longleftrightarrow>
     validate_record E r = Inr () \<and> identity_wf E (rec_identity r)
     \<and> json_wf E (stored_json r) \<and> json_plain (stored_json r)"

definition storable :: "externals \<Rightarrow> ctr \<Rightarrow> bool" where
  "storable E r \<longleftrightarrow>
     writable E r
     \<and> sort_json (rec_metadata_changes r) = rec_metadata_changes r
     \<and> sort_json (rec_child_effects r) = rec_child_effects r
     \<and> map sort_json (rec_projection_intents r) = rec_projection_intents r"

lemma storable_writable [intro]: "storable E r \<Longrightarrow> writable E r"
  by (simp add: storable_def)

lemma storable_all_writable [intro]: "list_all (storable E) rs \<Longrightarrow> list_all (writable E) rs"
  by (simp add: list_all_iff storable_def)

lemma jscalar_py: "is_scalar v \<Longrightarrow> py_of_json (jscalar v) = v"
  by (auto simp: is_scalar_def jscalar_def)

lemma jscalar_sort [simp]: "sort_json (jscalar v) = jscalar v"
  by (simp add: jscalar_def split: pyval.split)

lemma validated_scalars:
  assumes "validate_record E r = Inr ()"
  shows "is_scalar (rec_schema_version r)" "is_scalar (rec_transition_id r)" "is_scalar (rec_identity_sha256 r)"
    "is_scalar (rec_from_revision r)" "is_scalar (rec_to_revision r)" "is_scalar (rec_operation_type r)"
    "is_scalar (rec_operation_id r)" "is_scalar (rec_command_hash r)" "is_scalar (rec_record_hash r)"
    "is_scalar (rec_previous_state r)" "is_scalar (rec_next_state r)" "is_scalar (rec_causation_id r)"
    "is_scalar (rec_correlation_id r)" "is_scalar (rec_writer_id r)" "is_scalar (rec_committed_at_ms r)"
  using assms unfolding validate_record_def
  by (auto simp: rbind_Inr_iff result_simps is_scalar_def)

lemma stored_json_py:
  assumes "validate_record E r = Inr ()"
  shows "record_payload E r = Inr (py_of_json (stored_json r))"
  using assms validated_scalars [OF assms]
  by (simp add: record_payload_def stored_json_def immutable_payload_def map_items_def jscalar_py identity_json_py thaw_eq)

lemma map_of_sort_key:
  assumes "distinct (map fst kvs)"
  shows "map_of (sort_key fst kvs) = map_of kvs"
proof
  fix k
  have "distinct (map fst (sort_key fst kvs))" using assms by (simp add: distinct_map)
  then show "map_of (sort_key fst kvs) k = map_of kvs k"
    using assms by (metis map_of_eq_Some_iff option.exhaust set_sort)
qed

lemma dict_get_sorted:
  assumes "distinct (map fst kvs)"
  shows "dict_get (map_items (py_of_json (sort_json (JObj kvs)))) key
    = map_option (\<lambda>v. py_of_json (sort_json v)) (map_of kvs key)"
proof -
  let ?kvs = "map (\<lambda>kv. (fst kv, sort_json (snd kv))) kvs"
  have "map_of (map (\<lambda>kv. (PStr (fst kv), py_of_json (snd kv))) xs) (PStr key) = map_option py_of_json (map_of xs key)" for xs
    by (induction xs) auto
  moreover have "map_of (map (\<lambda>kv. (fst kv, sort_json (snd kv))) xs) key = map_option sort_json (map_of xs key)" for xs
    by (induction xs) auto
  moreover have "distinct (map fst ?kvs)" using assms by (simp add: comp_def)
  ultimately show ?thesis
    by (simp add: dict_get_def map_items_def map_of_sort_key option.map_comp comp_def)
qed

lemma stored_keys_distinct: "writable E r \<Longrightarrow> \<exists>kvs. stored_json r = JObj kvs \<and> distinct (map fst kvs)"
  by (simp add: writable_def stored_json_def)

text \<open>The fields of the object that reading the stored text gives.\<close>

lemma stored_field:
  assumes "writable E r"
  shows "dict_get (map_items (py_of_json (sort_json (stored_json r)))) key
    = map_option (\<lambda>v. py_of_json (sort_json v)) (case stored_json r of JObj kvs \<Rightarrow> map_of kvs key)"
proof -
  obtain kvs where "stored_json r = JObj kvs" "distinct (map fst kvs)" using stored_keys_distinct [OF assms] by blast
  then show ?thesis using dict_get_sorted [of kvs key] by simp
qed

lemma identity_read_back:
  assumes "identity_wf E i"
  shows "make_identity E (id_aggregate_type i) (PStr (id_run_id i)) (opt_str (id_task_id i)) = Inr i"
  using assms by (cases i) (auto simp: identity_wf_def make_identity_def nfc_def split: aggregate_type.splits option.splits)

lemma identity_from_stored:
  assumes "writable E r"
  shows "identity_from_payload E (map_items (py_of_json (sort_json (stored_json r)))) = Inr (rec_identity r)"
proof -
  let ?p = "map_items (py_of_json (sort_json (stored_json r)))" and ?i = "rec_identity r"
  have wf: "identity_wf E ?i" using assms by (simp add: writable_def)
  have t: "dict_get ?p ''aggregate_type'' = Some (PStr (aggregate_value (id_aggregate_type ?i)))"
    unfolding stored_field [OF assms] by (simp add: stored_json_def)
  have st: "dict_get ?p ''canonical_aggregate_identity'' = Some (py_of_json (sort_json (identity_json ?i)))"
    unfolding stored_field [OF assms] by (simp add: stored_json_def)
  obtain kvs where kvs: "identity_json ?i = JObj kvs" and d: "distinct (map fst kvs)" by (simp add: identity_json_def)
  define s where "s = map_items (py_of_json (sort_json (identity_json ?i)))"
  have m: "py_of_json (sort_json (identity_json ?i)) = PMap s" by (simp add: kvs map_items_def s_def)
  have "dict_get s ''run_id'' = Some (PStr (id_run_id ?i))"
    unfolding s_def kvs dict_get_sorted [OF d] using kvs by (auto simp: identity_json_def)
  moreover have "dict_get s ''task_id'' = Some (opt_str (id_task_id ?i))"
    unfolding s_def kvs dict_get_sorted [OF d] using kvs by (auto simp: identity_json_def opt_json_def opt_str_def split: option.splits)
  ultimately show ?thesis
    using t st m identity_read_back [OF wf]
    by (cases "id_aggregate_type ?i")
      (simp_all add: identity_from_payload_def dict_item_def dict_get_or_def coerce_aggregate_def)
qed

lemma freeze_stored: "json_wf E j \<Longrightarrow> freeze E (py_of_json j) = Inr j"
  by (simp add: freeze_def normalize_json_id freeze_norm_id)

lemma rtraverse_freeze_stored: "list_all (json_wf E) js \<Longrightarrow> rtraverse (freeze E) (map py_of_json js) = Inr js"
  by (induction js) (simp_all add: freeze_stored)

lemma writable_parts:
  assumes "writable E r"
  shows "json_wf E (rec_metadata_changes r)" "json_wf E (rec_child_effects r)"
    "list_all (json_wf E) (rec_projection_intents r)"
  using assms by (simp_all add: writable_def stored_json_def)

lemma decode_stored_record:
  assumes "storable E r"
  shows "decode_record E (map_items (py_of_json (sort_json (stored_json r)))) = Inr r"
proof -
  let ?p = "map_items (py_of_json (sort_json (stored_json r)))"
  have w: "writable E r" using assms by (rule storable_writable)
  then have val: "validate_record E r = Inr ()" by (simp add: writable_def)
  note f = stored_field [OF w] and sc = validated_scalars [OF val]
  have sorted: "sort_json (rec_metadata_changes r) = rec_metadata_changes r" "sort_json (rec_child_effects r) = rec_child_effects r"
    "map sort_json (rec_projection_intents r) = rec_projection_intents r" using assms by (simp_all add: storable_def)
  have scalar: "dict_get ?p k = Some v" if "(k, v) \<in> {(''schema_version'', rec_schema_version r),
      (''transition_id'', rec_transition_id r), (''canonical_aggregate_identity_sha256'', rec_identity_sha256 r),
      (''from_revision'', rec_from_revision r), (''to_revision'', rec_to_revision r),
      (''operation_type'', rec_operation_type r), (''operation_id'', rec_operation_id r),
      (''canonical_command_hash'', rec_command_hash r), (''canonical_record_hash'', rec_record_hash r),
      (''previous_state'', rec_previous_state r), (''next_state'', rec_next_state r),
      (''causation_id'', rec_causation_id r), (''correlation_id'', rec_correlation_id r),
      (''writer_id'', rec_writer_id r), (''committed_at_ms'', rec_committed_at_ms r)}" for k v
    using that unfolding f by (elim insertE) (simp_all add: stored_json_def jscalar_py sc)
  have nested: "dict_get ?p ''authoritative_metadata_changes'' = Some (py_of_json (rec_metadata_changes r))"
    "dict_get ?p ''child_effects'' = Some (py_of_json (rec_child_effects r))"
    "dict_get ?p ''durable_projection_intents'' = Some (PSeq (map py_of_json (rec_projection_intents r)))"
    unfolding f using sorted by (simp_all add: stored_json_def)
  show ?thesis
    unfolding decode_record_def identity_from_stored [OF w] dict_item_def dict_get_or_def
    by (simp add: scalar nested freeze_stored writable_parts [OF w] py_iter_def rtraverse_freeze_stored)
qed

lemma record_from_stored:
  assumes "storable E r"
  shows "record_from_payload E (map_items (py_of_json (sort_json (stored_json r)))) = Inr r"
proof -
  have "validate_record E r = Inr ()" using assms by (simp add: storable_def writable_def)
  then show ?thesis by (simp add: record_from_payload_def decode_stored_record [OF assms])
qed

section \<open>Receipts and indexes\<close>

definition receipt_json_of :: "ctr \<Rightarrow> json" where
  "receipt_json_of r =
     JObj [(''operation_id'', jscalar (rec_operation_id r)),
           (''canonical_command_hash'', jscalar (rec_command_hash r)),
           (''canonical_record_hash'', jscalar (rec_record_hash r)),
           (''transition_id'', jscalar (rec_transition_id r)),
           (''aggregate_revision'', jscalar (rec_to_revision r)),
           (''operation_type'', jscalar (rec_operation_type r)),
           (''committed_at_ms'', jscalar (rec_committed_at_ms r))]"

definition index_json_of :: "ctr \<Rightarrow> json" where
  "index_json_of r =
     JObj [(''transition_id'', jscalar (rec_transition_id r)),
           (''canonical_record_hash'', jscalar (rec_record_hash r)),
           (''operation_id'', jscalar (rec_operation_id r)),
           (''aggregate_revision'', jscalar (rec_to_revision r))]"

lemma receipt_index_py:
  assumes "validate_record E r = Inr ()"
  shows "py_of_json (receipt_json_of r) = receipt_payload (new_receipt r)"
    "py_of_json (index_json_of r) = transition_index_payload r"
  using validated_scalars [OF assms]
  by (simp_all add: receipt_json_of_def receipt_payload_def new_receipt_def index_json_of_def
      transition_index_payload_def jscalar_py)

lemma receipt_index_plain:
  assumes "nfc_laws E" and "writable E r"
  shows "json_wf E (receipt_json_of r) \<and> json_plain (receipt_json_of r)"
    "json_wf E (index_json_of r) \<and> json_plain (index_json_of r)"
proof -
  have "nfc_normalize E ''aggregate_revision'' = ''aggregate_revision''"
    by (rule nfc_ascii [OF assms(1)]) (simp add: is_ascii_def)
  then show "json_wf E (receipt_json_of r) \<and> json_plain (receipt_json_of r)"
    "json_wf E (index_json_of r) \<and> json_plain (index_json_of r)"
    using assms(2) by (simp_all add: writable_def stored_json_def receipt_json_of_def index_json_of_def is_ascii_def)
qed

lemma receipt_from_stored:
  assumes "nfc_laws E" and "writable E r"
  shows "receipt_from_payload E (map_items (py_of_json (sort_json (receipt_json_of r)))) = Inr (new_receipt r)"
proof -
  have val: "validate_record E r = Inr ()" using assms(2) by (simp add: writable_def)
  obtain kvs where kvs: "receipt_json_of r = JObj kvs" and d: "distinct (map fst kvs)" by (simp add: receipt_json_of_def)
  let ?p = "map_items (py_of_json (sort_json (receipt_json_of r)))"
  have g: "dict_get ?p k = Some v" if "(k, v) \<in> {(''operation_id'', rec_operation_id r),
      (''canonical_command_hash'', rec_command_hash r), (''canonical_record_hash'', rec_record_hash r),
      (''transition_id'', rec_transition_id r), (''aggregate_revision'', rec_to_revision r),
      (''operation_type'', rec_operation_type r), (''committed_at_ms'', rec_committed_at_ms r)}" for k v
    unfolding kvs dict_get_sorted [OF d]
    using that kvs [symmetric] by (elim insertE) (simp_all add: receipt_json_of_def jscalar_py validated_scalars [OF val])
  obtain op where "validate_receipt E (new_receipt r) = Inr op"
    using new_receipt_valid [OF assms(1), of r] val by (auto simp: is_ok_iff)
  then show ?thesis
    unfolding receipt_from_payload_def dict_item_def by (simp add: g new_receipt_def Let_def)
qed

lemma py_eq_refl_scalar: "is_scalar v \<Longrightarrow> py_eq v v"
  by (auto simp: is_scalar_def py_eq_scalar_def)

lemma py_eq_same_items:
  assumes "length xs = length ys" and "set xs = set ys" and "\<forall>x \<in> set xs. is_scalar (snd x)"
  shows "py_eq (PMap xs) (PMap ys)"
proof -
  have "\<exists>y \<in> set ys. fst x = fst y \<and> py_eq (snd x) (snd y)" if "x \<in> set xs" for x
    using that assms(2,3) by (intro bexI [of _ x]) (simp_all add: py_eq_refl_scalar)
  with assms(1) show ?thesis by simp
qed

lemma index_from_stored:
  assumes "writable E r"
  shows "validate_transition_index (map_items (py_of_json (sort_json (index_json_of r)))) r = Inr ()"
proof -
  have val: "validate_record E r = Inr ()" using assms by (simp add: writable_def)
  obtain ys where ys: "transition_index_payload r = PMap ys" "length ys = 4" "\<forall>y \<in> set ys. is_scalar (snd y)"
    using validated_scalars [OF val] by (simp add: transition_index_payload_def)
  let ?xs = "map_items (py_of_json (sort_json (index_json_of r)))"
  have "set ?xs = set (map_items (py_of_json (index_json_of r)))"
    by (simp add: index_json_of_def map_items_def image_comp comp_def del: sort_key_simps)
  then have "set ?xs = set ys" by (simp add: receipt_index_py [OF val] ys(1)) (simp add: map_items_def)
  moreover have "length ?xs = 4" by (simp add: index_json_of_def map_items_def)
  ultimately have "py_eq (PMap ?xs) (PMap ys)" using ys by (intro py_eq_same_items) auto
  then show ?thesis by (simp add: validate_transition_index_def ys(1) del: py_eq.simps)
qed

section \<open>Envelopes\<close>

lemma ascii_encodable: "is_ascii s \<Longrightarrow> utf8_encodable s"
  by (induction s rule: utf8_encodable.induct) (auto simp: is_ascii_def)

lemma canonical_text_reads:
  assumes "jcs_reads E" and "json_wf E j \<and> json_plain j"
  shows "\<exists>b. canonical_text E (py_of_json j) = Inr b \<and> is_ascii b \<and> json_loads b = Inr (py_of_json (sort_json j))"
proof -
  obtain b where "rfc8785_dumps E j = Some b" "is_ascii b" "json_loads b = Inr (py_of_json (sort_json j))"
    using assms unfolding jcs_reads_def by blast
  then show ?thesis using assms(2) by (simp add: canonical_text_def canonical_json_bytes_def normalize_json_id)
qed

lemma envelope_reads:
  assumes "cjson_reads W" and "is_ascii b" and "json_loads b = Inr (PMap d)"
  shows "decode_storage_envelope field_name (storage_envelope W b) = Inr (b, d)"
proof -
  have sha: "sha1_re (sha1_hexdigest b)" by simp
  then have "is_ascii (sha1_hexdigest b)" by (simp add: sha1_re_def lower_hex_ascii)
  with assms(1,2) obtain kvs where "json_loads (W b (sha1_hexdigest b)) = Inr (PMap kvs)"
    "fst ` set kvs = {PStr ''payload'', PStr ''storage_sha1''}" "dict_get kvs ''payload'' = Some (PStr b)"
    "dict_get kvs ''storage_sha1'' = Some (PStr (sha1_hexdigest b))"
    unfolding cjson_reads_def by blast
  with assms(2,3) show ?thesis
    by (simp add: decode_storage_envelope_def storage_envelope_def decode_object_def ascii_encodable)
qed

lemma object_text:
  assumes "jcs_reads E" and "json_wf E (JObj kvs) \<and> json_plain (JObj kvs)" and "py_of_json (JObj kvs) = v"
    and "cjson_reads W"
  obtains b where "canonical_text E v = Inr b"
    "\<And>fn. decode_storage_envelope fn (storage_envelope W b) = Inr (b, map_items (py_of_json (sort_json (JObj kvs))))"
proof -
  obtain b where b: "canonical_text E v = Inr b" "is_ascii b" "json_loads b = Inr (py_of_json (sort_json (JObj kvs)))"
    using canonical_text_reads [OF assms(1,2)] assms(3) by auto
  have "py_of_json (sort_json (JObj kvs)) = PMap (map_items (py_of_json (sort_json (JObj kvs))))"
    by (simp add: map_items_def)
  with b(3) have "json_loads b = Inr (PMap (map_items (py_of_json (sort_json (JObj kvs)))))" by simp
  from that [OF b(1) envelope_reads [OF assms(4) b(2) this]] show thesis by simp
qed

text \<open>Everything one commit writes reads back.\<close>

definition texts_of :: "externals \<Rightarrow> ctr \<Rightarrow> string \<Rightarrow> string \<Rightarrow> string \<Rightarrow> string \<Rightarrow> bool" where
  "texts_of E r rj cj ij pj \<longleftrightarrow>
     rbind (record_payload E r) (canonical_text E) = Inr rj
     \<and> canonical_text E (receipt_payload (new_receipt r)) = Inr cj
     \<and> canonical_text E (transition_index_payload r) = Inr ij
     \<and> canonical_text E (PSeq (map thaw (rec_projection_intents r))) = Inr pj"

lemma commit_texts:
  assumes "nfc_laws E" and "jcs_reads E" and "cjson_reads W" and "writable E r"
  obtains rj cj ij pj where "texts_of E r rj cj ij pj"
    "storable E r \<Longrightarrow> read_record E (storage_envelope W rj) = Inr r"
    "read_receipt E (storage_envelope W cj) = Inr (new_receipt r)"
    "check_index (storage_envelope W ij) r = Inr ()"
    "check_intents_json pj = Inr ()"
proof -
  have val: "validate_record E r = Inr ()" and wf: "json_wf E (stored_json r) \<and> json_plain (stored_json r)"
    using assms(4) by (simp_all add: writable_def)
  obtain ks1 ks2 ks3 where ks: "stored_json r = JObj ks1" "receipt_json_of r = JObj ks2" "index_json_of r = JObj ks3"
    by (simp add: stored_json_def receipt_json_of_def index_json_of_def)
  note plain = receipt_index_plain [OF assms(1,4)] and py = receipt_index_py [OF val]
  obtain rj where rj: "canonical_text E (py_of_json (stored_json r)) = Inr rj"
    "\<And>fn. decode_storage_envelope fn (storage_envelope W rj) = Inr (rj, map_items (py_of_json (sort_json (stored_json r))))"
    using object_text [OF assms(2) wf [unfolded ks] refl assms(3)] unfolding ks by blast
  obtain cj where cj: "canonical_text E (receipt_payload (new_receipt r)) = Inr cj"
    "\<And>fn. decode_storage_envelope fn (storage_envelope W cj) = Inr (cj, map_items (py_of_json (sort_json (receipt_json_of r))))"
    using object_text [OF assms(2) plain(1) [unfolded ks] py(1) [unfolded ks] assms(3)] unfolding ks by blast
  obtain ij where ij: "canonical_text E (transition_index_payload r) = Inr ij"
    "\<And>fn. decode_storage_envelope fn (storage_envelope W ij) = Inr (ij, map_items (py_of_json (sort_json (index_json_of r))))"
    using object_text [OF assms(2) plain(2) [unfolded ks] py(2) [unfolded ks] assms(3)] unfolding ks by blast
  have "json_wf E (JArr (rec_projection_intents r)) \<and> json_plain (JArr (rec_projection_intents r))"
    using wf by (simp add: stored_json_def)
  from canonical_text_reads [OF assms(2) this] obtain pj where
    pj: "canonical_text E (PSeq (map thaw (rec_projection_intents r))) = Inr pj" "check_intents_json pj = Inr ()"
    by (auto simp: check_intents_json_def)
  show thesis
  proof (rule that)
    show "texts_of E r rj cj ij pj" using rj(1) cj(1) ij(1) pj(1) stored_json_py [OF val] by (simp add: texts_of_def)
    show "read_record E (storage_envelope W rj) = Inr r" if "storable E r"
      by (simp add: read_record_def rj(2) record_from_stored [OF that])
    show "read_receipt E (storage_envelope W cj) = Inr (new_receipt r)"
      by (simp add: read_receipt_def cj(2) receipt_from_stored [OF assms(1,4)])
    show "check_index (storage_envelope W ij) r = Inr ()" by (simp add: check_index_def ij(2) index_from_stored [OF assms(4)])
    show "check_intents_json pj = Inr ()" by (rule pj(2))
  qed
qed

section \<open>Stored histories\<close>

definition text_or_empty :: "'e + string \<Rightarrow> string" where
  "text_or_empty m = (case m of Inl _ \<Rightarrow> [] | Inr t \<Rightarrow> t)"

definition record_entry :: "externals \<Rightarrow> envelope_encoder \<Rightarrow> ctr \<Rightarrow> string" where
  "record_entry E W r = storage_envelope W (text_or_empty (rbind (record_payload E r) (canonical_text E)))"

definition receipt_entry :: "externals \<Rightarrow> envelope_encoder \<Rightarrow> ctr \<Rightarrow> string" where
  "receipt_entry E W r = storage_envelope W (text_or_empty (canonical_text E (receipt_payload (new_receipt r))))"

definition index_entry :: "externals \<Rightarrow> envelope_encoder \<Rightarrow> ctr \<Rightarrow> string" where
  "index_entry E W r = storage_envelope W (text_or_empty (canonical_text E (transition_index_payload r)))"

definition intents_text :: "externals \<Rightarrow> ctr \<Rightarrow> string" where
  "intents_text E r = text_or_empty (canonical_text E (PSeq (map thaw (rec_projection_intents r))))"

definition head_of :: "externals \<Rightarrow> ctr list \<Rightarrow> (string \<times> string) list" where
  "head_of E rs = (if rs = [] then [] else head_fields (last rs) (op_digest (last rs)) (intents_text E (last rs)))"

definition tid_of :: "ctr \<Rightarrow> string" where
  "tid_of r = str_of (rec_transition_id r)"

definition stored_of :: "externals \<Rightarrow> envelope_encoder \<Rightarrow> ctr list \<Rightarrow> stored_aggregate" where
  "stored_of E W rs =
     \<lparr>sa_head = head_of E rs,
      sa_indexes = map (\<lambda>r. (tid_of r, index_entry E W r)) rs,
      sa_receipts = map (\<lambda>r. (op_digest r, receipt_entry E W r)) rs,
      sa_records = map (\<lambda>r. (op_digest r, record_entry E W r)) rs\<rparr>"

lemma entries_read:
  assumes "nfc_laws E" and "jcs_reads E" and "cjson_reads W" and "writable E r"
  shows "storable E r \<Longrightarrow> read_record E (record_entry E W r) = Inr r"
    "read_receipt E (receipt_entry E W r) = Inr (new_receipt r)"
    "check_index (index_entry E W r) r = Inr ()"
    "check_intents_json (intents_text E r) = Inr ()"
    "commit_writes E W r (new_receipt r) st =
       Inr \<lparr>sa_head = hset (head_fields r (op_digest r) (intents_text E r)) (sa_head st),
            sa_indexes = hset [(tid_of r, index_entry E W r)] (sa_indexes st),
            sa_receipts = hset [(op_digest r, receipt_entry E W r)] (sa_receipts st),
            sa_records = hset [(op_digest r, record_entry E W r)] (sa_records st)\<rparr>"
proof -
  obtain rj cj ij pj where t: "texts_of E r rj cj ij pj" and
    reads: "storable E r \<Longrightarrow> read_record E (storage_envelope W rj) = Inr r"
    "read_receipt E (storage_envelope W cj) = Inr (new_receipt r)"
    "check_index (storage_envelope W ij) r = Inr ()" "check_intents_json pj = Inr ()"
    using commit_texts [OF assms] by blast
  have e: "record_entry E W r = storage_envelope W rj" "receipt_entry E W r = storage_envelope W cj"
    "index_entry E W r = storage_envelope W ij" "intents_text E r = pj"
    using t by (simp_all add: texts_of_def record_entry_def receipt_entry_def index_entry_def intents_text_def text_or_empty_def)
  show "storable E r \<Longrightarrow> read_record E (record_entry E W r) = Inr r" "read_receipt E (receipt_entry E W r) = Inr (new_receipt r)"
    "check_index (index_entry E W r) r = Inr ()" "check_intents_json (intents_text E r) = Inr ()"
    using reads by (simp_all add: e)
  show "commit_writes E W r (new_receipt r) st =
       Inr \<lparr>sa_head = hset (head_fields r (op_digest r) (intents_text E r)) (sa_head st),
            sa_indexes = hset [(tid_of r, index_entry E W r)] (sa_indexes st),
            sa_receipts = hset [(op_digest r, receipt_entry E W r)] (sa_receipts st),
            sa_records = hset [(op_digest r, record_entry E W r)] (sa_records st)\<rparr>"
    using t unfolding texts_of_def commit_writes_def e tid_of_def by simp
qed

lemma hset_fresh: "k \<notin> fst ` set h \<Longrightarrow> hset [(k, v)] h = h @ [(k, v)]"
  by (simp add: hset_def update_fresh)

lemma hset_head: "hset (head_fields r d p) (head_of E rs) = head_fields r d p"
  by (simp add: hset_def head_of_def head_fields_def)

lemma store_history_append:
  "store_history E W st (rs @ [r]) = rbind (store_history E W st rs) (commit_writes E W r (new_receipt r))"
  by (induction rs arbitrary: st) (simp_all add: rbind_def split: sum.splits)

lemma store_history_shape:
  assumes "nfc_laws E" and "jcs_reads E" and "cjson_reads W" and "list_all (writable E) rs"
    and "distinct (map op_digest rs)" and "distinct (map tid_of rs)"
  shows "store_history E W empty_aggregate rs = Inr (stored_of E W rs)"
  using assms(4-6)
proof (induction rs rule: rev_induct)
  case Nil
  then show ?case by (simp add: empty_aggregate_def stored_of_def head_of_def)
next
  case (snoc r rs)
  have r: "writable E r" using snoc.prems by simp
  have "op_digest r \<notin> op_digest ` set rs" "tid_of r \<notin> tid_of ` set rs" using snoc.prems by auto
  then have "commit_writes E W r (new_receipt r) (stored_of E W rs) = Inr (stored_of E W (rs @ [r]))"
    by (simp add: entries_read(5) [OF assms(1-3) r] stored_of_def hset_head hset_fresh image_comp comp_def)
      (simp add: head_of_def)
  with snoc show ?case by (simp add: store_history_append)
qed

section \<open>Records with their members in order\<close>

text \<open>
  The canonical text of a record does not depend on the order of the members in its objects, so the record
  and its \<open>in_order\<close> form, which is what the text reads back as, are stored alike.
\<close>

lemma json_wf_sort: "json_wf E j \<Longrightarrow> json_wf E (sort_json j)"
proof (induction j)
  case (JObj kvs)
  have "json_wf E (sort_json (snd kv))" if "kv \<in> set kvs" for kv
    using JObj.IH [of kv "snd kv"] JObj.prems that by (cases kv) (auto simp: list_all_iff)
  with JObj.prems show ?case unfolding sort_json_members
    by (simp add: list_all_iff comp_def distinct_map del: sort_json.simps)
qed (simp_all add: list_all_iff)

lemma canonical_text_sort:
  assumes "jcs_reads E" and "json_wf E i \<and> json_plain i" and "json_wf E j \<and> json_plain j" and "sort_json i = sort_json j"
  shows "canonical_text E (py_of_json i) = canonical_text E (py_of_json j)"
proof -
  have "rfc8785_dumps E i = rfc8785_dumps E j" using assms unfolding jcs_reads_def by metis
  then show ?thesis using assms(2,3) by (simp add: canonical_text_def canonical_json_bytes_def normalize_json_id)
qed

definition in_order :: "ctr \<Rightarrow> ctr" where
  "in_order r = r\<lparr>rec_metadata_changes := sort_json (rec_metadata_changes r), rec_child_effects := sort_json (rec_child_effects r),
     rec_projection_intents := map sort_json (rec_projection_intents r)\<rparr>"

lemma in_order_simps [simp]:
  "rec_schema_version (in_order r) = rec_schema_version r" "rec_transition_id (in_order r) = rec_transition_id r"
  "rec_identity (in_order r) = rec_identity r" "rec_identity_sha256 (in_order r) = rec_identity_sha256 r"
  "rec_from_revision (in_order r) = rec_from_revision r" "rec_to_revision (in_order r) = rec_to_revision r"
  "rec_operation_type (in_order r) = rec_operation_type r" "rec_operation_id (in_order r) = rec_operation_id r"
  "rec_command_hash (in_order r) = rec_command_hash r" "rec_record_hash (in_order r) = rec_record_hash r"
  "rec_previous_state (in_order r) = rec_previous_state r" "rec_next_state (in_order r) = rec_next_state r"
  "rec_causation_id (in_order r) = rec_causation_id r" "rec_correlation_id (in_order r) = rec_correlation_id r"
  "rec_writer_id (in_order r) = rec_writer_id r" "rec_committed_at_ms (in_order r) = rec_committed_at_ms r"
  "new_receipt (in_order r) = new_receipt r" "op_digest (in_order r) = op_digest r" "tid_of (in_order r) = tid_of r"
  "transition_index_payload (in_order r) = transition_index_payload r"
  by (simp_all add: in_order_def new_receipt_def op_digest_def tid_of_def transition_index_payload_def)

lemma nfc_text: "nfc E ctx e v = Inr z \<Longrightarrow> \<exists>s. v = PStr s"
  by (cases v) (simp_all add: nfc_def)

lemma projection_kinds_sort:
  "projection_kinds_from E n kinds items = Inr ks \<Longrightarrow> list_all (json_wf E) items \<Longrightarrow>
     projection_kinds_from E n kinds (map sort_json items) = Inr ks"
proof (induction items arbitrary: n kinds)
  case (Cons item items)
  then obtain kvs where item: "item = JObj kvs" "distinct (map fst kvs)" by (cases item) auto
  have "map_of (map (\<lambda>kv. (fst kv, sort_json (snd kv))) xs) k = map_option sort_json (map_of xs k)" for xs k
    by (induction xs) auto
  then have m: "map_of (sort_key fst (map (\<lambda>kv. (fst kv, sort_json (snd kv))) kvs)) ''kind'' = map_option sort_json (map_of kvs ''kind'')"
    using item(2) by (simp add: map_of_sort_key comp_def)
  have "(case map_option sort_json o' of None \<Rightarrow> PNone | Some k \<Rightarrow> py_of_json k) = (case o' of None \<Rightarrow> PNone | Some k \<Rightarrow> py_of_json k)"
    if "nfc E ctx False (case o' of None \<Rightarrow> PNone | Some k \<Rightarrow> py_of_json k) = Inr z" for o' ctx z
    using nfc_text [OF that] by (cases o'; cases "the o'") auto
  with Cons item show ?case by (auto simp: m rbind_Inr_iff split: if_splits)
qed simp

lemma writable_parts_plain:
  assumes "writable E r"
  shows "json_plain (rec_metadata_changes r)" "json_plain (rec_child_effects r)" "list_all json_plain (rec_projection_intents r)"
  using assms by (simp_all add: writable_def stored_json_def)

definition hashed_json :: "ctr \<Rightarrow> json" where
  "hashed_json r = (case stored_json r of JObj kvs \<Rightarrow> JObj (butlast kvs) | j \<Rightarrow> j)"

lemma immutable_payload_json:
  assumes "validate_record E r = Inr ()"
  shows "immutable_payload r = py_of_json (hashed_json r)"
  using validated_scalars [OF assms]
  by (simp add: hashed_json_def stored_json_def immutable_payload_def jscalar_py identity_json_py thaw_eq)

lemma stored_json_in_order:
  "sort_json (stored_json (in_order r)) = sort_json (stored_json r)" "sort_json (hashed_json (in_order r)) = sort_json (hashed_json r)"
  by (simp_all add: stored_json_def hashed_json_def) (simp_all add: in_order_def comp_def)

lemma in_order_wf:
  assumes "writable E r"
  shows "json_wf E (stored_json (in_order r)) \<and> json_plain (stored_json (in_order r))"
    "json_wf E (hashed_json (in_order r)) \<and> json_plain (hashed_json (in_order r))"
    "json_wf E (hashed_json r) \<and> json_plain (hashed_json r)"
proof -
  have parts: "json_wf E (rec_metadata_changes (in_order r))" "json_plain (rec_metadata_changes (in_order r))"
    "json_wf E (rec_child_effects (in_order r))" "json_plain (rec_child_effects (in_order r))"
    "list_all (json_wf E) (rec_projection_intents (in_order r))" "list_all json_plain (rec_projection_intents (in_order r))"
    using writable_parts [OF assms] writable_parts_plain [OF assms]
    by (simp_all add: in_order_def json_wf_sort json_plain_sort list_all_iff)
  have "json_wf E (stored_json r) \<and> json_plain (stored_json r)" using assms by (simp add: writable_def)
  with parts show "json_wf E (stored_json (in_order r)) \<and> json_plain (stored_json (in_order r))"
    by (simp add: stored_json_def)
  with parts show "json_wf E (hashed_json (in_order r)) \<and> json_plain (hashed_json (in_order r))"
    by (simp add: stored_json_def hashed_json_def)
  show "json_wf E (hashed_json r) \<and> json_plain (hashed_json r)"
    using \<open>json_wf E (stored_json r) \<and> json_plain (stored_json r)\<close> by (simp add: stored_json_def hashed_json_def)
qed

lemma storable_in_order:
  assumes laws: "nfc_laws E" "jcs_reads E" and w: "writable E r"
  shows "storable E (in_order r)"
proof -
  have val: "validate_record E r = Inr ()" using w by (simp add: writable_def)
  have sc: "immutable_payload (in_order r) = py_of_json (hashed_json (in_order r))"
    using validated_scalars [OF val]
    by (simp add: hashed_json_def stored_json_def immutable_payload_def jscalar_py identity_json_py thaw_eq)
  have "canonical_text E (py_of_json (hashed_json (in_order r))) = canonical_text E (py_of_json (hashed_json r))"
    by (rule canonical_text_sort [OF laws(2) in_order_wf(2,3) [OF w] stored_json_in_order(2)])
  then have hash: "verify_hash E (in_order r) = verify_hash E r"
    by (simp add: verify_hash_def canonical_json_sha256_def sc immutable_payload_json [OF val] canonical_text_def split: sum.split)
  have "projection_kinds E (rec_projection_intents r) = Inr ks \<Longrightarrow> projection_kinds E (rec_projection_intents (in_order r)) = Inr ks" for ks
    using projection_kinds_sort writable_parts(3) [OF w] by (simp add: projection_kinds_def in_order_def)
  then have "validate_operation_contract E op ty ps ns (rec_projection_intents r) = Inr c \<Longrightarrow>
      validate_operation_contract E op ty ps ns (rec_projection_intents (in_order r)) = Inr c" for op ty ps ns c
    by (auto simp: validate_operation_contract_def Let_def rbind_Inr_iff split: if_splits)
  then have "validate_record E (in_order r) = Inr ()"
    using val unfolding validate_record_def hash by (auto simp: rbind_Inr_iff)
  then show ?thesis using in_order_wf(1) [OF w] w
    by (simp add: storable_def writable_def) (simp add: in_order_def comp_def)
qed

lemma in_order_texts:
  assumes laws: "nfc_laws E" "jcs_reads E" and w: "writable E r"
  shows "record_entry E W (in_order r) = record_entry E W r" "receipt_entry E W (in_order r) = receipt_entry E W r"
    "index_entry E W (in_order r) = index_entry E W r" "intents_text E (in_order r) = intents_text E r"
    "rbind (record_payload E (in_order r)) (canonical_text E) = rbind (record_payload E r) (canonical_text E)"
proof -
  have val: "validate_record E r = Inr ()" "validate_record E (in_order r) = Inr ()"
    using w storable_in_order [OF assms] by (simp_all add: writable_def storable_def)
  have wf: "json_wf E (stored_json r) \<and> json_plain (stored_json r)" using w by (simp add: writable_def)
  have "canonical_text E (py_of_json (stored_json (in_order r))) = canonical_text E (py_of_json (stored_json r))"
    by (rule canonical_text_sort [OF laws(2) in_order_wf(1) [OF w] wf stored_json_in_order(1)])
  then show p: "rbind (record_payload E (in_order r)) (canonical_text E) = rbind (record_payload E r) (canonical_text E)"
    by (simp add: stored_json_py [OF val(1)] stored_json_py [OF val(2)])
  show "record_entry E W (in_order r) = record_entry E W r" by (simp add: record_entry_def p)
  show "receipt_entry E W (in_order r) = receipt_entry E W r" "index_entry E W (in_order r) = index_entry E W r"
    by (simp_all add: receipt_entry_def index_entry_def)
  have "json_wf E (JArr (rec_projection_intents r)) \<and> json_plain (JArr (rec_projection_intents r))"
    "json_wf E (JArr (rec_projection_intents (in_order r))) \<and> json_plain (JArr (rec_projection_intents (in_order r)))"
    using writable_parts(3) [OF w] writable_parts_plain(3) [OF w] by (simp_all add: in_order_def list_all_iff json_wf_sort json_plain_sort)
  from canonical_text_sort [OF laws(2) this(2,1)]
  show "intents_text E (in_order r) = intents_text E r"
    by (simp add: intents_text_def thaw_eq [abs_def] in_order_def comp_def)
qed

lemma in_order_storable: "storable E r \<Longrightarrow> in_order r = r"
  by (simp add: storable_def in_order_def)

text \<open>Storing records and storing them with their members in order gives the same server.\<close>

lemma list_in_order:
  assumes laws: "nfc_laws E" "jcs_reads E" and w: "list_all (writable E) rs"
  shows "list_all (storable E) (map in_order rs)" "stored_of E W (map in_order rs) = stored_of E W rs"
    "chained st n (map in_order rs) = chained st n rs" "map op_digest (map in_order rs) = map op_digest rs"
    "map tid_of (map in_order rs) = map tid_of rs"
proof -
  show "list_all (storable E) (map in_order rs)" using w by (simp add: list_all_iff storable_in_order [OF laws])
  have e: "r \<in> set rs \<Longrightarrow> writable E r" for r using w by (simp add: list_all_iff)
  then have "head_of E (map in_order rs) = head_of E rs"
    using in_order_texts(4) [OF laws e, of "last rs"] by (simp add: head_of_def last_map) (simp add: head_fields_def tid_of_def)
  then show "stored_of E W (map in_order rs) = stored_of E W rs"
    using in_order_texts(1-3) [OF laws e] by (simp add: stored_of_def)
  show "chained st n (map in_order rs) = chained st n rs" by (induction rs arbitrary: st n) simp_all
  show "map op_digest (map in_order rs) = map op_digest rs" "map tid_of (map in_order rs) = map tid_of rs" by simp_all
qed

section \<open>Reading a stored history\<close>

definition row_of :: "ctr \<Rightarrow> historical_operation" where
  "row_of r = \<lparr>hist_revision = rec_to_revision r, hist_operation_digest = op_digest r,
     hist_record = r, hist_receipt = new_receipt r\<rparr>"

lemma new_receipt_matches': "receipt_matches (new_receipt r) r"
  by (simp add: receipt_matches_def new_receipt_def)

lemma operation_digest_op_digest:
  assumes "nfc_laws E" and "validate_record E r = Inr ()"
  shows "operation_digest (str_of (rec_operation_id r)) = Inr (op_digest r)"
proof -
  have "nfc_normalize E [] = []" by (rule nfc_ascii [OF assms(1)]) (simp add: is_ascii_def)
  then have "str_of (rec_operation_id r) \<noteq> []"
    using assms(2) unfolding validate_record_def by (auto simp: rbind_Inr_iff result_simps)
  then show ?thesis
    by (simp add: operation_digest_def nonempty_text_def op_digest_def component_digest_def length_prefixed_utf8_def)
qed

lemma history_row_stored:
  assumes "nfc_laws E" and "jcs_reads E" and "cjson_reads W" and "storable E r" and "rec_identity r = i"
    and "rec_operation_id r \<notin> seen_operation_ids seen" and "rec_transition_id r \<notin> seen_transition_ids seen"
    and "rec_to_revision r \<notin> seen_revisions seen"
    and "map_of receipts (op_digest r) = Some (receipt_entry E W r)"
    and "map_of indexes (tid_of r) = Some (index_entry E W r)"
  shows "history_row E i receipts indexes seen (op_digest r, record_entry E W r) = Inr (row_of r)"
proof -
  have val: "validate_record E r = Inr ()" using assms(4) by (simp add: storable_def writable_def)
  then have "verify_hash E r" "rec_identity_sha256 r = PStr (identity_sha256 i)"
    using assms(5) by (auto elim!: validate_record_okD)
  then show ?thesis
    using assms(4-10) entries_read(1-3) [OF assms(1-3) storable_writable [OF assms(4)]] operation_digest_op_digest [OF assms(1) val]
    unfolding history_row_def
    by (simp add: new_receipt_matches' tid_of_def row_of_def)
qed

lemma history_rows_stored:
  assumes laws: "nfc_laws E" "jcs_reads E" "cjson_reads W"
    and look: "\<And>r. r \<in> set rs \<Longrightarrow> map_of receipts (op_digest r) = Some (receipt_entry E W r)
          \<and> map_of indexes (tid_of r) = Some (index_entry E W r) \<and> storable E r \<and> rec_identity r = i"
    and "distinct (map rec_operation_id rs)" and "distinct (map rec_transition_id rs)" and "distinct (map rec_to_revision rs)"
    and "rec_operation_id ` set rs \<inter> seen_operation_ids seen = {}"
    and "rec_transition_id ` set rs \<inter> seen_transition_ids seen = {}"
    and "rec_to_revision ` set rs \<inter> seen_revisions seen = {}"
  shows "history_rows E i receipts indexes seen (map (\<lambda>r. (op_digest r, record_entry E W r)) rs) = Inr (map row_of rs)"
  using assms(4-)
proof (induction rs arbitrary: seen)
  case (Cons r rs)
  have "history_row E i receipts indexes seen (op_digest r, record_entry E W r) = Inr (row_of r)"
    using Cons.prems(1) [of r] Cons.prems(5-) by (intro history_row_stored [OF laws]) auto
  moreover have "history_rows E i receipts indexes (see (row_of r) seen) (map (\<lambda>r. (op_digest r, record_entry E W r)) rs)
      = Inr (map row_of rs)"
    using Cons.prems by (intro Cons.IH) (auto simp: see_def row_of_def)
  ultimately show ?case by simp
qed simp

lemma chained_revisions: "chained st n rs \<Longrightarrow> map (\<lambda>r. int_of (rec_to_revision r)) rs = [n + 1..n + int (length rs)]"
proof (induction rs arbitrary: st n)
  case (Cons r rs)
  then have "map (\<lambda>r. int_of (rec_to_revision r)) rs = [n + 1 + 1..n + 1 + int (length rs)]"
    using Cons.IH [of "opt_str_of (rec_next_state r)" "n + 1"] by (simp add: add.commute)
  moreover have "[n + 1..n + (1 + int (length rs))] = (n + 1) # [n + 1 + 1..n + 1 + int (length rs)]"
    by (subst upto_rec1) (auto simp: algebra_simps)
  ultimately show ?case using Cons.prems by simp
qed simp

lemma chained_last_revision:
  assumes "chained None 0 rs" and "rs \<noteq> []"
  shows "int_of (rec_to_revision (last rs)) = int (length rs)"
proof -
  have "int_of (rec_to_revision (last rs)) = last (map (\<lambda>r. int_of (rec_to_revision r)) rs)" using assms(2) by (simp add: last_map)
  also have "\<dots> = int (length rs)" unfolding chained_revisions [OF assms(1)] using assms(2) by (cases rs) (simp_all add: upto_rec2)
  finally show ?thesis .
qed

lemma next_state_opt:
  assumes "validate_record E r = Inr ()"
  shows "opt_str (opt_str_of (rec_next_state r)) = rec_next_state r"
  using assms unfolding validate_record_def by (auto simp: rbind_Inr_iff result_simps)

lemma chained_continuous:
  assumes "\<forall>r \<in> set rs. validate_record E r = Inr ()" and "chained st n rs"
    and "previous = None \<or> (\<exists>p. previous = Some p \<and> rec_next_state p = opt_str st)"
  shows "states_continuous previous rs = Inr ()"
  using assms
proof (induction rs arbitrary: previous st n)
  case (Cons r rs)
  have "states_continuous (Some r) rs = Inr ()"
    using Cons.prems next_state_opt [of E r] by (intro Cons.IH) auto
  with Cons.prems(2,3) show ?case by auto
qed simp

lemma map_of_entries:
  "distinct (map f rs) \<Longrightarrow> r \<in> set rs \<Longrightarrow> map_of (map (\<lambda>r. (f r, g r)) rs) (f r) = Some (g r)"
  by (induction rs) (auto, metis image_eqI)

lemma transition_id_revision:
  assumes "transition_id sha revision op = Inr t" and "transition_id sha' revision' op' = Inr t"
  shows "revision = revision'"
proof -
  from assms(1) obtain h r where 1: "sha256_re h" "revision = PInt r" "1 \<le> r"
    "t = ''ctr:v1:'' @ h @ '':'' @ dec_int r @ '':'' @ component_digest [op]" by (auto simp: transition_id_Inr_iff)
  from assms(2) obtain h' r' where 2: "sha256_re h'" "revision' = PInt r'" "1 \<le> r'"
    "t = ''ctr:v1:'' @ h' @ '':'' @ dec_int r' @ '':'' @ component_digest [op']" by (auto simp: transition_id_Inr_iff)
  from 1 2 have "h @ CHR '':'' # (dec_int r @ '':'' @ component_digest [op])
      = h' @ CHR '':'' # (dec_int r' @ '':'' @ component_digest [op'])" by simp
  from split_at_sep [OF this] sha256_re_no_colon 1(1) 2(1)
  have rest: "dec_int r @ CHR '':'' # component_digest [op] = dec_int r' @ CHR '':'' # component_digest [op']" by simp
  have "CHR '':'' \<notin> set (dec_int r)" "CHR '':'' \<notin> set (dec_int r')" using 1(3) 2(3) by (simp_all add: dec_int_def)
  from split_at_sep [OF rest this] have "dec_int r = dec_int r'" by simp
  with 1 2 show ?thesis by (simp add: dec_int_inj)
qed

lemma chained_transition_ids:
  assumes "\<forall>r \<in> set rs. validate_record E r = Inr ()" and "chained st n rs" and "0 \<le> n"
  shows "distinct (map tid_of rs)" "distinct (map rec_transition_id rs)" "distinct (map rec_to_revision rs)"
proof -
  have rev: "distinct (map (\<lambda>r. int_of (rec_to_revision r)) rs)" using chained_revisions [OF assms(2)] by simp
  then show "distinct (map rec_to_revision rs)" by (auto simp: distinct_map inj_on_def)
  have tid: "rec_transition_id r = PStr (tid_of r)" if "r \<in> set rs" for r
    using assms(1) that by (auto simp: tid_of_def elim!: validate_record_okD)
  have inj: "int_of (rec_to_revision r) = int_of (rec_to_revision q)"
    if "r \<in> set rs" "q \<in> set rs" "tid_of r = tid_of q" for r q
  proof -
    have "\<exists>oid. transition_id (rec_identity_sha256 r) (rec_to_revision r) oid = Inr (tid_of r)" if "r \<in> set rs" for r
      using assms(1) that by (auto simp: tid_of_def elim!: validate_record_okD)
    with that obtain o1 o2 where "transition_id (rec_identity_sha256 r) (rec_to_revision r) o1 = Inr (tid_of r)"
      "transition_id (rec_identity_sha256 q) (rec_to_revision q) o2 = Inr (tid_of r)" by metis
    then show ?thesis using transition_id_revision by metis
  qed
  have same: "r = q"
    if "r \<in> set rs" "q \<in> set rs" "int_of (rec_to_revision r) = int_of (rec_to_revision q)" for r q
    using rev that by (auto simp: distinct_map inj_on_def)
  have d: "distinct rs" using rev by (simp add: distinct_map)
  show "distinct (map tid_of rs)" unfolding distinct_map inj_on_def
    by (intro conjI ballI impI d) (rule same; use inj in blast)
  show "distinct (map rec_transition_id rs)" unfolding distinct_map inj_on_def
  proof (intro conjI ballI impI d)
    fix r q
    assume "r \<in> set rs" "q \<in> set rs" "rec_transition_id r = rec_transition_id q"
    moreover from this have "tid_of r = tid_of q" by (simp add: tid)
    ultimately show "r = q" by (intro same inj)
  qed
qed

section \<open>The stored head\<close>

lemma digits_of_literal_digits: "s \<noteq> [] \<Longrightarrow> list_all is_digit s \<Longrightarrow> digits_of_literal s = Some s"
proof (induction s rule: digits_of_literal.induct)
  case (3 c d s)
  have "\<not> is_digit CHR ''_''" by (simp add: is_digit_def)
  with 3 show ?case by auto
qed simp_all

lemma py_int_text_dec_int:
  assumes "0 \<le> n" and "n \<le> max_safe_integer"
  shows "py_int_text (dec_int n) = Inr n"
proof -
  let ?s = "dec_nat (nat n)"
  have digits: "list_all is_digit ?s" using dec_nat_digits by (auto simp: list_all_iff)
  have blank: "\<not> int_blank c" if "is_digit c" for c using that by (auto simp: is_digit_def int_blank_def)
  have "dropWhile int_blank ?s = ?s" "dropWhile int_blank (rev ?s) = rev ?s"
    using digits blank by (cases ?s; auto simp: list_all_iff)
      (cases "rev ?s"; use digits blank in \<open>auto simp: list_all_iff\<close>; metis list.set_intros(1) set_rev)
  then have strip: "strip_blanks ?s = ?s" by (simp add: strip_blanks_def)
  obtain c cs where c: "?s = c # cs" by (cases ?s) auto
  have "is_digit c" using digits c by simp
  then have "c \<noteq> CHR ''-''" "c \<noteq> CHR ''+''" by (auto simp: is_digit_def)
  moreover have "nat n < 10 ^ Suc 15" using assms by (simp add: max_safe_integer_def)
  from length_dec_nat [OF this] have "\<not> int_digit_limit < length ?s" by (simp add: int_digit_limit_def)
  moreover have "digits_of_literal ?s = Some ?s" by (rule digits_of_literal_digits) (simp_all add: digits)
  ultimately show ?thesis
    using assms(1) strip c nat_of_dec_dec_nat [of "nat n"]
    by (simp add: py_int_text_def Let_def dec_int_def signed_int_def)
qed

definition snapshot_of :: "externals \<Rightarrow> ctr \<Rightarrow> aggregate_snapshot" where
  "snapshot_of E r =
     \<lparr>snap_identity_sha256 = str_of (rec_identity_sha256 r), snap_revision = int_of (rec_to_revision r),
      snap_state = opt_str_of (rec_next_state r), snap_transition_id = tid_of r,
      snap_record_hash = str_of (rec_record_hash r), snap_command_hash = str_of (rec_command_hash r),
      snap_operation_id = str_of (rec_operation_id r), snap_operation_digest = op_digest r,
      snap_projection_intents_json = intents_text E r, snap_updated_at_ms = int_of (rec_committed_at_ms r)\<rparr>"

lemma validated_head_parts:
  assumes "nfc_laws E" and "validate_record E r = Inr ()"
  obtains tid oid ch rh ms n where
    "rec_transition_id r = PStr tid" "tid \<noteq> []" "rec_operation_id r = PStr oid" "oid \<noteq> []"
    "rec_command_hash r = PStr ch" "sha256_re ch" "rec_record_hash r = PStr rh" "sha256_re rh"
    "rec_committed_at_ms r = PInt ms" "0 \<le> ms" "ms \<le> max_safe_integer"
    "rec_to_revision r = PInt n" "1 \<le> n" "n \<le> max_safe_integer"
    "rec_identity_sha256 r = PStr (identity_sha256 (rec_identity r))"
    "rec_next_state r = PNone \<or> (\<exists>s. rec_next_state r = PStr s \<and> s \<noteq> [])"
proof -
  have e: "nfc_normalize E [] = []" by (rule nfc_ascii [OF assms(1)]) (simp add: is_ascii_def)
  have 1: "rec_next_state r = PNone \<or> (\<exists>s. rec_next_state r = PStr s \<and> s \<noteq> [])" "\<exists>oid. rec_operation_id r = PStr oid \<and> oid \<noteq> []"
    using assms(2) e unfolding validate_record_def by (auto simp: rbind_Inr_iff result_simps)
  from assms(2) show thesis
  proof (rule validate_record_okD)
    fix op f
    assume a: "rec_identity_sha256 r = PStr (identity_sha256 (rec_identity r))" "0 \<le> f" "f + 1 \<le> max_safe_integer"
      "rec_to_revision r = PInt (f + 1)"
      "\<exists>oid. rec_operation_id r = PStr oid \<and>
       transition_id (rec_identity_sha256 r) (rec_to_revision r) oid = Inr (str_of (rec_transition_id r))
       \<and> rec_transition_id r = PStr (str_of (rec_transition_id r))"
      "\<exists>h. rec_command_hash r = PStr h \<and> sha256_re h" "\<exists>h. rec_record_hash r = PStr h \<and> sha256_re h"
      "\<exists>ms. rec_committed_at_ms r = PInt ms \<and> 0 \<le> ms \<and> ms \<le> max_safe_integer"
    then have "\<exists>tid. rec_transition_id r = PStr tid \<and> tid \<noteq> []" using transition_id_ascii by blast
    with a 1 that show thesis by auto
  qed
qed

lemma snapshot_parses:
  assumes "nfc_laws E" and "validate_record E r = Inr ()" and "check_intents_json (intents_text E r) = Inr ()"
    and "int_of (rec_to_revision r) < 10 ^ 14"
  shows "parse_snapshot (head_fields r (op_digest r) (intents_text E r)) = Inr (snapshot_of E r)"
  using validated_head_parts [OF assms(1,2)]
proof cases
  case (1 tid oid ch rh ms n)
  have "operation_digest oid = Inr (op_digest r)" using operation_digest_op_digest [OF assms(1,2)] 1(3) by simp
  moreover have "sha256_re (op_digest r)" by (simp add: op_digest_def)
  moreover have "py_int_text (lua_tostring n) = Inr n" "py_int_text (dec_int ms) = Inr ms"
    using 1 assms(4) by (simp_all add: py_int_text_dec_int)
  ultimately show ?thesis
    using 1 assms(3)
    by (auto simp: parse_snapshot_def head_fields_def data_field_def snapshot_state_def sha256_text_def
        nonempty_text_def safe_int_value_def snapshot_of_def tid_of_def str_of_def)
qed

section \<open>Loading what was stored\<close>

lemma member_key_eq [simp]: "member_key a ks = member_key b ks \<longleftrightarrow> a = b"
  by (simp add: member_key_def)

lemma view_of_keys:
  "view_of ks st (aggregate_key ks) = hash_value (sa_head st)"
  "view_of ks st (transition_indexes_key ks) = hash_value (sa_indexes st)"
  "view_of ks st (receipts_key ks) = hash_value (sa_receipts st)"
  "view_of ks st (operation_records_key ks) = hash_value (sa_records st)"
  by (simp_all add: view_of_def aggregate_key_def transition_indexes_key_def receipts_key_def operation_records_key_def)

lemma view_type [simp]:
  "redis_type (Some (view_of ks st)) k = Inr (case view_of ks st k of None \<Rightarrow> ''none'' | Some (RHash _) \<Rightarrow> ''hash'' | Some (ROther q) \<Rightarrow> redis_kind_name q)"
  by (simp add: redis_type_def)

lemma snapshot_stored:
  assumes "nfc_laws E" and "validate_record E (last rs) = Inr ()" and "check_intents_json (intents_text E (last rs)) = Inr ()"
    and "int_of (rec_to_revision (last rs)) < 10 ^ 14" and "rs \<noteq> []" and "rec_identity (last rs) = i"
    and ks: "make_keyspace (identity_sha256 i) ns = Inr ks"
  shows "get_aggregate_snapshot ns i (Some (view_of ks (stored_of E W rs))) (Some (view_of ks (stored_of E W rs)))
    = Inr (Some (snapshot_of E (last rs)))"
proof -
  let ?h = "head_fields (last rs) (op_digest (last rs)) (intents_text E (last rs))"
  have h: "sa_head (stored_of E W rs) = ?h" using assms(5) by (simp add: stored_of_def head_of_def)
  have ne: "?h \<noteq> []" and keys: "fst ` set ?h = snapshot_fields"
    by (auto simp: head_fields_def snapshot_fields_def)
  have sha: "snap_identity_sha256 (snapshot_of E (last rs)) = identity_sha256 i"
    using assms(2,6) by (auto simp: snapshot_of_def elim!: validate_record_okD)
  show ?thesis
    using snapshot_parses [OF assms(1-4)] ks ne keys sha
    by (simp add: get_aggregate_snapshot_def redis_hgetall_def view_of_keys hash_value_def h type_in_def)
qed

lemma validate_stored_history:
  assumes laws: "nfc_laws E" "jcs_reads E" "cjson_reads W"
    and rs: "list_all (storable E) rs" "\<forall>r \<in> set rs. rec_identity r = i" "chained None 0 rs" "rs \<noteq> []"
    and dist: "distinct (map rec_operation_id rs)" "distinct (map op_digest rs)"
  shows "validate_history E i (snapshot_of E (last rs)) (sa_records (stored_of E W rs)) (sa_receipts (stored_of E W rs))
    (sa_indexes (stored_of E W rs)) = Inr (map row_of rs)"
proof -
  have val: "\<forall>r \<in> set rs. validate_record E r = Inr ()" using rs(1) by (simp add: list_all_iff storable_def writable_def)
  note ids = chained_transition_ids [OF val rs(3) order_refl]
  let ?receipts = "sa_receipts (stored_of E W rs)" and ?indexes = "sa_indexes (stored_of E W rs)"
  have rev: "map (\<lambda>r. int_of (rec_to_revision r)) rs = [1..int (length rs)]" using chained_revisions [OF rs(3)] by simp
  have last_rev: "snap_revision (snapshot_of E (last rs)) = int (length rs)"
    using chained_last_revision [OF rs(3,4)] by (simp add: snapshot_of_def)
  have rows: "history_rows E i ?receipts ?indexes nothing_seen (sa_records (stored_of E W rs)) = Inr (map row_of rs)"
    using rs(1,2) dist(2) ids(1)
    by (simp add: stored_of_def, intro history_rows_stored [OF laws])
      (auto simp: map_of_entries list_all_iff nothing_seen_def dist ids)
  have sorted: "sort_key (\<lambda>h. int_of (hist_revision h)) (map row_of rs) = map row_of rs"
    by (rule sort_key_sorted) (simp add: row_of_def comp_def rev)
  have tid: "rec_transition_id r = PStr (tid_of r)" if "r \<in> set rs" for r
    using val that by (auto simp: tid_of_def elim!: validate_record_okD)
  have head: "head_matches (last rs) (snapshot_of E (last rs))"
    using val rs(4) validated_head_parts [OF laws(1), of "last rs"]
  proof -
    have "validate_record E (last rs) = Inr ()" using val rs(4) by simp
    from validated_head_parts [OF laws(1) this] show ?thesis
      by cases (auto simp: head_matches_def snapshot_of_def tid_of_def)
  qed
  have "states_continuous None rs = Inr ()" using chained_continuous [OF val rs(3)] by simp
  moreover have "map hist_record (map row_of rs) = rs" by (simp add: row_of_def comp_def)
  moreover have "hist_record (last (map row_of rs)) = last rs" using rs(4) by (simp add: last_map row_of_def)
  moreover have "map (\<lambda>h. int_of (hist_revision h)) (map row_of rs) = [1..int (length rs)]"
    using rev by (simp add: row_of_def comp_def)
  moreover have "set (map fst ?receipts) = set (map hist_operation_digest (map row_of rs))"
    by (simp add: stored_of_def row_of_def image_comp comp_def)
  moreover have "set (map (\<lambda>x. PStr (fst x)) ?indexes) = set (map (\<lambda>h. rec_transition_id (hist_record h)) (map row_of rs))"
    using tid by (auto simp: stored_of_def row_of_def image_comp comp_def)
  moreover have "length (sa_records (stored_of E W rs)) = length rs" "length ?receipts = length rs" "length ?indexes = length rs"
    by (simp_all add: stored_of_def)
  ultimately show ?thesis
    unfolding validate_history_def Let_def last_rev rows using head sorted by (simp add: image_image)
qed

lemma load_stored_history:
  assumes laws: "nfc_laws E" "jcs_reads E" "cjson_reads W"
    and rs: "list_all (storable E) rs" "\<forall>r \<in> set rs. rec_identity r = i" "chained None 0 rs" "rs \<noteq> []"
    and dist: "distinct (map rec_operation_id rs)" "distinct (map op_digest rs)"
    and small: "length rs < 10 ^ 14" and ks: "make_keyspace (identity_sha256 i) ns = Inr ks"
  shows "load_aggregate_history E ns i (\<lambda>_. Some (view_of ks (stored_of E W rs)))
    = Inr (Some \<lparr>history_snapshot = snapshot_of E (last rs), history_operations = map row_of rs\<rparr>)"
proof -
  let ?v = "Some (view_of ks (stored_of E W rs))"
  have st: "storable E (last rs)" using rs(1,4) by (simp add: list_all_iff)
  then have val: "validate_record E (last rs) = Inr ()" by (simp add: storable_def writable_def)
  have "int_of (rec_to_revision (last rs)) = int (length rs)" by (rule chained_last_revision [OF rs(3,4)])
  then have snap: "get_aggregate_snapshot ns i ?v ?v = Inr (Some (snapshot_of E (last rs)))"
    using small rs(2,4) by (intro snapshot_stored [OF laws(1) val entries_read(4) [OF laws storable_writable [OF st]] _ rs(4) _ ks]) auto
  have ne: "sa_records (stored_of E W rs) \<noteq> []" "sa_receipts (stored_of E W rs) \<noteq> []" "sa_indexes (stored_of E W rs) \<noteq> []"
    using rs(4) by (simp_all add: stored_of_def)
  have "read_history E ns i (snapshot_of E (last rs)) (\<lambda>_. ?v) = Inr (map row_of rs)"
    using validate_stored_history [OF laws rs dist] ks ne
    by (simp add: read_history_def redis_hgetall_def view_of_keys hash_value_def)
  with snap show ?thesis by (simp add: load_aggregate_history_def)
qed

section \<open>Properties\<close>

text \<open>
  C27. What was committed loads back: after the writes of all commits of a reachable journal,
  \<open>load_aggregate_history\<close> returns exactly the records of the journal, each with the members of its objects
  in key order, under a head with the journal's revision and state. The operation digests must differ,
  which fails only on a SHA-256 collision.
\<close>

theorem committed_history_loads:
  assumes "nfc_laws E" and "jcs_reads E" and "cjson_reads W"
    and "(journal_step E i)\<^sup>*\<^sup>* empty_journal j" and "j_records j \<noteq> []" and "list_all (writable E) (j_records j)"
    and "distinct (map op_digest (j_records j))" and "j_revision j < 10 ^ 14"
    and "make_keyspace (identity_sha256 i) namespace = Inr ks"
  shows "\<exists>st h. store_history E W empty_aggregate (j_records j) = Inr st
    \<and> load_aggregate_history E namespace i (\<lambda>_. Some (view_of ks st)) = Inr (Some h)
    \<and> map hist_record (history_operations h) = map in_order (j_records j)
    \<and> map hist_receipt (history_operations h) = map new_receipt (j_records j)
    \<and> snap_revision (history_snapshot h) = j_revision j \<and> snap_state (history_snapshot h) = j_state j"
proof -
  let ?rs = "j_records j" and ?os = "map in_order (j_records j)"
  have inv: "journal_inv E i j" by (rule jrn.reachable_inv [OF refl assms(4)])
  then have j: "j_revision j = int (length ?rs)" "chained None 0 ?rs" "\<forall>r \<in> set ?rs. rec_identity r = i"
    "distinct (map rec_operation_id ?rs)" "j_state j = opt_str_of (rec_next_state (last ?rs))"
    using assms(5) unfolding journal_inv_def by auto
  note o = list_in_order [OF assms(1,2,6)]
  have val: "\<forall>r \<in> set ?rs. validate_record E r = Inr ()" using assms(6) by (simp add: list_all_iff writable_def)
  have "store_history E W empty_aggregate ?rs = Inr (stored_of E W ?rs)"
    using store_history_shape [OF assms(1-3,6,7)] chained_transition_ids(1) [OF val j(2)] by simp
  moreover have "load_aggregate_history E namespace i (\<lambda>_. Some (view_of ks (stored_of E W ?os)))
      = Inr (Some \<lparr>history_snapshot = snapshot_of E (last ?os), history_operations = map row_of ?os\<rparr>)"
  proof (rule load_stored_history [OF assms(1-3) o(1)])
    show "\<forall>r \<in> set ?os. rec_identity r = i" using j(3) by simp
    show "chained None 0 ?os" "distinct (map op_digest ?os)" using o(3) j(2) assms(7) unfolding o(4) by simp_all
    show "distinct (map rec_operation_id ?os)" using j(4) by (simp add: comp_def)
  qed (use assms(5,8,9) j(1) in simp_all)
  moreover have "int_of (rec_to_revision (last ?rs)) = int (length ?rs)" by (rule chained_last_revision [OF j(2) assms(5)])
  moreover have "last ?os = in_order (last ?rs)" using assms(5) by (simp add: last_map)
  ultimately show ?thesis
    using j(1,5) unfolding o(2) by (intro exI [of _ "stored_of E W ?rs"] exI conjI) (auto simp: row_of_def comp_def snapshot_of_def)
qed

text \<open>
  C25. A loaded history is sound, whatever the server held and however it changed between the ten
  calls: \<open>load_aggregate_history\<close> returns as many operations as the head's revision; the k-th one is a
  validated record of the aggregate that leads from revision k to k + 1 and starts in the state in
  which the one before it ended, with a valid receipt that agrees with it; no operation id repeats;
  the last record is the one the head names; and the head was the same after the members were read.
\<close>

theorem loaded_history_sound:
  assumes "load_aggregate_history E namespace i V = Inr (Some h)"
  shows "length (history_operations h) = nat (snap_revision (history_snapshot h))
    \<and> (\<forall>k < length (history_operations h).
      let r = hist_record (history_operations h ! k); rc = hist_receipt (history_operations h ! k) in
        validate_record E r = Inr () \<and> rec_identity r = i
        \<and> rec_from_revision r = PInt (int k) \<and> rec_to_revision r = PInt (int k + 1)
        \<and> (0 < k \<longrightarrow> rec_previous_state r = rec_next_state (hist_record (history_operations h ! (k - 1))))
        \<and> is_ok (validate_receipt E rc) \<and> receipt_matches rc r)
    \<and> distinct (map (\<lambda>x. rec_operation_id (hist_record x)) (history_operations h))
    \<and> head_matches (hist_record (last (history_operations h))) (history_snapshot h)
    \<and> get_aggregate_snapshot namespace i (V 8) (V 9) = Inr (Some (history_snapshot h))"
proof (intro conjI)
  obtain a b c where after: "get_aggregate_snapshot namespace i (V 8) (V 9) = Inr (Some (history_snapshot h))"
    and val: "validate_history E i (history_snapshot h) a b c = Inr (history_operations h)"
    using assms by (rule load_aggregate_history_Some)
  let ?ops = "history_operations h"
  note ok = validate_history_ok [OF val]
  from arg_cong [OF ok(3), of length] show len: "length ?ops = nat (snap_revision (history_snapshot h))" by simp
  show "distinct (map (\<lambda>x. rec_operation_id (hist_record x)) ?ops)" "head_matches (hist_record (last ?ops)) (history_snapshot h)"
    "get_aggregate_snapshot namespace i (V 8) (V 9) = Inr (Some (history_snapshot h))"
    using ok after by simp_all
  show "\<forall>k < length ?ops.
      let r = hist_record (?ops ! k); rc = hist_receipt (?ops ! k) in
        validate_record E r = Inr () \<and> rec_identity r = i
        \<and> rec_from_revision r = PInt (int k) \<and> rec_to_revision r = PInt (int k + 1)
        \<and> (0 < k \<longrightarrow> rec_previous_state r = rec_next_state (hist_record (?ops ! (k - 1))))
        \<and> is_ok (validate_receipt E rc) \<and> receipt_matches rc r"
  proof (intro allI impI)
    fix k
    assume k: "k < length ?ops"
    have row: "row_ok E i (?ops ! k)" using ok(1) k by (simp add: list_all_length)
    have "int_of (rec_to_revision (hist_record (?ops ! k))) = map (\<lambda>h. int_of (rec_to_revision (hist_record h))) ?ops ! k"
      using k by simp
    also have "\<dots> = int k + 1" unfolding ok(3) using k len by (simp add: nth_upto)
    finally have rev: "int_of (rec_to_revision (hist_record (?ops ! k))) = int k + 1" .
    have "0 < k \<longrightarrow> rec_previous_state (hist_record (?ops ! k)) = rec_next_state (hist_record (?ops ! (k - 1)))"
      using states_continuous_nth [OF ok(4), of "k - 1"] k by auto
    then show "let r = hist_record (?ops ! k); rc = hist_receipt (?ops ! k) in
        validate_record E r = Inr () \<and> rec_identity r = i
        \<and> rec_from_revision r = PInt (int k) \<and> rec_to_revision r = PInt (int k + 1)
        \<and> (0 < k \<longrightarrow> rec_previous_state r = rec_next_state (hist_record (?ops ! (k - 1))))
        \<and> is_ok (validate_receipt E rc) \<and> receipt_matches rc r"
      using row validated_revisions [of E "hist_record (?ops ! k)"] rev by (simp add: row_ok_def Let_def)
  qed
qed

section \<open>Witnesses\<close>

text \<open>An instance of the two encoders: the standard library's own encoder.\<close>

definition json_externals :: externals where
  "json_externals = \<lparr>nfc_normalize = (\<lambda>s. s), rfc8785_dumps = (\<lambda>j. Some (json_dumps (\<lambda>_. ''0.0'') j))\<rparr>"

definition json_envelope :: envelope_encoder where
  "json_envelope p d = json_dumps (\<lambda>_. ''0.0'') (JObj [(''payload'', JStr p), (''storage_sha1'', JStr d)])"

lemma hex_nth_ascii: "(of_char (''0123456789abcdef'' ! (n mod 16)) :: nat) < 128"
proof -
  have "is_ascii ''0123456789abcdef''" by (simp add: is_ascii_def)
  then show ?thesis by (rule is_ascii_mem) (rule nth_mem, simp)
qed

lemma u_escape_ascii: "is_ascii (u_escape n)"
  by (simp add: u_escape_def is_ascii_def hex_nth_ascii del: nth_Cons_numeral)

lemma json_escape_ascii: "is_ascii (json_escape n)"
proof -
  have "is_ascii (u_escape m)" for m by (rule u_escape_ascii)
  then show ?thesis unfolding json_escape_def by (auto simp: is_ascii_def)
qed

lemma json_string_is_ascii: "is_ascii (json_string s)"
proof -
  have "is_ascii (concat (map json_escape ns))" for ns
    by (induction ns) (simp_all add: json_escape_ascii, simp add: is_ascii_def)
  then show ?thesis unfolding json_string_def by (simp add: is_ascii_def)
qed

lemma join_commas_ascii: "\<forall>t \<in> set ts. is_ascii t \<Longrightarrow> is_ascii (join_commas ts)"
  by (induction ts rule: join_commas.induct) (simp_all add: is_ascii_def)

lemma json_dumps_ascii: "json_plain v \<Longrightarrow> is_ascii (json_dumps repr v)"
proof (induction v)
  case (JArr vs)
  then have "is_ascii (join_commas (map (json_dumps repr) vs))" by (intro join_commas_ascii) (auto simp: list_all_iff)
  then show ?case by (simp add: is_ascii_def)
next
  case (JObj kvs)
  have "is_ascii t" if "t \<in> set (map json_member (sort_key fst (map (\<lambda>(k, v). (k, json_dumps repr v)) kvs)))" for t
  proof -
    from that obtain k v where "(k, v) \<in> set kvs" "t = json_string k @ '':'' @ json_dumps repr v" by (auto simp: json_member_def)
    with JObj show ?thesis by (force simp: json_string_is_ascii list_all_iff is_ascii_def [of "'':''"] simp del: append.simps)
  qed
  then have "is_ascii (join_commas (map json_member (sort_key fst (map (\<lambda>(k, v). (k, json_dumps repr v)) kvs))))"
    by (intro join_commas_ascii) blast
  then show ?case by (simp add: is_ascii_def)
qed (simp_all add: json_string_is_ascii dec_int_ascii, simp_all add: is_ascii_def)

lemma json_externals_laws: "nfc_laws json_externals" "jcs_total json_externals" "jcs_reads json_externals" "cjson_reads json_envelope"
proof -
  show "nfc_laws json_externals" "jcs_total json_externals" by (simp_all add: json_externals_def nfc_laws_def jcs_total_def)
  show "jcs_reads json_externals"
    by (simp add: jcs_reads_def json_externals_def json_dumps_ascii json_loads_dumps json_dumps_sort)
  show "cjson_reads json_envelope"
    unfolding cjson_reads_def
  proof (intro allI impI)
    fix p d
    assume a: "is_ascii p" "is_ascii d"
    then have "json_plain (JObj [(''payload'', JStr p), (''storage_sha1'', JStr d)])" by (simp add: is_ascii_def [of "''payload''"] is_ascii_def [of "''storage_sha1''"])
    from json_loads_dumps [OF this] have "json_loads (json_envelope p d) =
        Inr (py_of_json (sort_json (JObj [(''payload'', JStr p), (''storage_sha1'', JStr d)])))"
      by (simp add: json_envelope_def)
    moreover have "sort_json (JObj [(''payload'', JStr p), (''storage_sha1'', JStr d)]) = JObj [(''payload'', JStr p), (''storage_sha1'', JStr d)]"
      by simp
    ultimately show "\<exists>kvs. json_loads (json_envelope p d) = Inr (PMap kvs) \<and> fst ` set kvs = {PStr ''payload'', PStr ''storage_sha1''}
        \<and> dict_get kvs ''payload'' = Some (PStr p) \<and> dict_get kvs ''storage_sha1'' = Some (PStr d)"
      by (simp add: dict_get_def)
  qed
qed

lemma json_externals_nfc [simp]: "nfc_normalize json_externals s = s"
  by (simp add: json_externals_def)

lemma demo_admitted:
  "\<exists>r. new_record json_externals demo_admit ''writer-1'' 5 None = Inr r
    \<and> journal_step json_externals demo_identity empty_journal (commit_to_journal empty_journal (plan_of demo_admit r))"
proof -
  have c: "command_wf json_externals demo_admit" "permits demo_writer demo_admit" "cmd_identity demo_admit = demo_identity"
    "oc_mutation_class (operation_contracts (cmd_operation_type demo_admit)) = ACCEPTED_AUTHORITY_MUTATION"
    "cmd_expected_revision demo_admit < max_safe_integer"
    "is_ok (validate_operation_contract json_externals (cmd_operation_type demo_admit)
      (id_aggregate_type (cmd_identity demo_admit)) (cmd_previous_state demo_admit) (cmd_next_state demo_admit)
      (cmd_projection_intents demo_admit))"
    by (auto simp: command_wf_def demo_admit_def opt_wf_def max_safe_integer_def
        projection_kinds_def nfc_def permits_def demo_writer_def validate_operation_contract_def
        demo_identity_def Let_def identity_wf_def)
  have w: "ctx_writer_id demo_writer \<noteq> []" "(0::int) \<le> 5" "(5::int) \<le> max_safe_integer" "opt_wf json_externals None"
    by (simp_all add: demo_writer_def max_safe_integer_def opt_wf_def)
  from evaluate_legal [OF json_externals_laws(1,2) c(1,2) w(1) json_externals_nfc c(4-6) w(2-4)]
  obtain r where r: "new_record json_externals demo_admit (ctx_writer_id demo_writer) 5 None = Inr r"
    "evaluate_authority_commit json_externals demo_writer demo_admit (PInt (j_revision empty_journal)) (opt_str (j_state empty_journal))
      (j_receipts empty_journal (cmd_operation_id demo_admit)) (PInt 5) (opt_str None)
      = Inr \<lparr>eval_decision = accepted_decision, eval_commit_plan = Some (plan_of demo_admit r)\<rparr>"
    by (auto simp: empty_journal_def demo_admit_def)
  have "journal_step json_externals demo_identity empty_journal (commit_to_journal empty_journal (plan_of demo_admit r))"
    by (rule commit [OF c(1,3) r(2)]) simp
  with r(1) show ?thesis by (auto simp: demo_writer_def)
qed

lemma demo_storable:
  assumes "new_record json_externals demo_admit ''writer-1'' 5 None = Inr r"
  shows "storable json_externals r"
proof -
  from assms obtain tid ch h where r: "r = (provisional_record demo_admit ch tid ''writer-1'' 5 None)\<lparr>rec_record_hash := PStr h\<rparr>"
    and ids: "transition_id (PStr (identity_sha256 (cmd_identity demo_admit))) (PInt (cmd_expected_revision demo_admit + 1))
       (cmd_operation_id demo_admit) = Inr tid"
      "command_hash json_externals demo_admit = Inr ch"
      "canonical_json_sha256 json_externals (immutable_payload (provisional_record demo_admit ch tid ''writer-1'' 5 None)) = Inr h"
    by (rule new_record_okD) blast
  have hs: "is_ascii tid" "sha256_re ch" "sha256_re h"
    using transition_id_ascii [OF ids(1)] canonical_json_sha256_re ids(2,3) by (auto simp: command_hash_def)
  have val: "validate_record json_externals r = Inr ()" by (rule new_record_fields(10) [OF assms])
  have ascii: "is_ascii (identity_sha256 i)" "is_ascii ch" "is_ascii h" for i
    using sha256_re_ascii hs identity_sha256_re by blast+
  show ?thesis
    using val hs(1) ascii
    by (simp add: storable_def writable_def)
      (simp add: r provisional_record_def demo_admit_def demo_identity_def stored_json_def jscalar_def identity_json_def
        opt_json_def max_safe_integer_def identity_wf_def, simp add: is_ascii_def)
qed

lemma demo_journal:
  "\<exists>j. (journal_step json_externals demo_identity)\<^sup>*\<^sup>* empty_journal j \<and> length (j_records j) = 1
     \<and> list_all (storable json_externals) (j_records j) \<and> j_revision j = 1 \<and> j_state j = Some ''ready''"
proof -
  obtain r where r: "new_record json_externals demo_admit ''writer-1'' 5 None = Inr r"
    "journal_step json_externals demo_identity empty_journal (commit_to_journal empty_journal (plan_of demo_admit r))"
    using demo_admitted by blast
  note f = new_record_fields [OF r(1)]
  show ?thesis
    using r(2) demo_storable [OF r(1)] f(5,7)
    by (intro exI [of _ "commit_to_journal empty_journal (plan_of demo_admit r)"])
      (auto simp: commit_to_journal_def empty_journal_def demo_admit_def)
qed

lemma demo_keyspace: "make_keyspace (identity_sha256 demo_identity) ''hfa:authority:v1''
    = Inr \<lparr>ks_identity_sha256 = identity_sha256 demo_identity, ks_namespace = ''hfa:authority:v1''\<rparr>"
  by (simp add: make_keyspace_def sha256_text_def)

theorem committed_history_loads_witness:
  "\<exists>st h. load_aggregate_history json_externals ''hfa:authority:v1'' demo_identity
       (\<lambda>_. Some (view_of \<lparr>ks_identity_sha256 = identity_sha256 demo_identity, ks_namespace = ''hfa:authority:v1''\<rparr> st))
       = Inr (Some h)
     \<and> snap_revision (history_snapshot h) = 1 \<and> length (history_operations h) = 1"
proof -
  obtain j where j: "(journal_step json_externals demo_identity)\<^sup>*\<^sup>* empty_journal j" "length (j_records j) = 1"
    "list_all (storable json_externals) (j_records j)" "j_revision j = 1"
    using demo_journal by blast
  obtain r where r: "j_records j = [r]" using j(2) by (cases "j_records j") auto
  have "j_records j \<noteq> []" "distinct (map op_digest (j_records j))" "j_revision j < 10 ^ 14" using r j(4) by simp_all
  from committed_history_loads [OF json_externals_laws(1,3,4) j(1) this(1) storable_all_writable [OF j(3)] this(2,3) demo_keyspace] j(4)
  show ?thesis using r by (metis length_map j(2))
qed

lemma demo_loaded:
  "\<exists>st h. load_aggregate_history json_externals ''hfa:authority:v1'' demo_identity
       (\<lambda>_. Some (view_of \<lparr>ks_identity_sha256 = identity_sha256 demo_identity, ks_namespace = ''hfa:authority:v1''\<rparr> st))
       = Inr (Some h) \<and> snap_revision (history_snapshot h) = 1"
proof -
  obtain j where j: "(journal_step json_externals demo_identity)\<^sup>*\<^sup>* empty_journal j" "length (j_records j) = 1"
    "list_all (storable json_externals) (j_records j)"
    using demo_journal by blast
  have inv: "journal_inv json_externals demo_identity j" by (rule jrn.reachable_inv [OF refl j(1)])
  have rs: "\<forall>r \<in> set (j_records j). rec_identity r = demo_identity" "chained None 0 (j_records j)" "j_records j \<noteq> []"
    "distinct (map rec_operation_id (j_records j))" "distinct (map op_digest (j_records j))" "length (j_records j) < 10 ^ 14"
    using inv j(2) by (auto simp: journal_inv_def length_Suc_conv)
  have "snap_revision (snapshot_of json_externals (last (j_records j))) = 1"
    using chained_last_revision [OF rs(2,3)] j(2) by (simp add: snapshot_of_def)
  with load_stored_history [OF json_externals_laws(1,3,4) j(3) rs demo_keyspace] show ?thesis by fastforce
qed

theorem loaded_history_sound_witness:
  "\<exists>V h. load_aggregate_history json_externals ''hfa:authority:v1'' demo_identity V = Inr (Some h)
     \<and> length (history_operations h) = 1
     \<and> rec_to_revision (hist_record (history_operations h ! 0)) = PInt 1"
proof -
  obtain st h where h: "load_aggregate_history json_externals ''hfa:authority:v1'' demo_identity
       (\<lambda>_. Some (view_of \<lparr>ks_identity_sha256 = identity_sha256 demo_identity, ks_namespace = ''hfa:authority:v1''\<rparr> st))
       = Inr (Some h)" "snap_revision (history_snapshot h) = 1"
    using demo_loaded by blast
  have len: "length (history_operations h) = 1" using loaded_history_sound [OF h(1)] h(2) by simp
  moreover have "rec_to_revision (hist_record (history_operations h ! 0)) = PInt 1"
    using loaded_history_sound [OF h(1)] len by (simp add: Let_def)
  ultimately show ?thesis using h(1) by blast
qed

end
