(* ===== verification/TaskOwners.thy ===== *)
theory TaskOwners
  imports AuthorityRoundTrip
begin

text \<open>
  The task owner inventory of \<open>src/hfa-core/src/hfa/authority/redis_persistence.py\<close>: the immutable
  owner value that binds a task id to the record that admitted it, its decoder, the integrity header,
  \<open>verify_task_owner\<close> and \<open>load_task_owner\<close>; and \<open>_parse_commit_result\<close>, which reads the reply of
  the commit script.

  An operation takes the replies of its Redis calls as arguments, in the order of the calls. The
  decoder is a loop over a byte position that a corrupt length can move backwards, so it is a partial
  function; the properties show that it returns on every encoded value and runs forever on a value as
  short as three bytes.
\<close>

section \<open>Owner values\<close>

definition task_owner_schema :: string where
  "task_owner_schema = ''task-owner:v1''"

definition task_owner_header_schema :: string where
  "task_owner_header_schema = ''task-owner-header:v1''"

definition task_owner_header_fields :: "string list" where
  "task_owner_header_fields =
     [''schema'', ''state'', ''namespace_id'', ''activated_at_ms'', ''inventory_sha256'', ''attestation_sha256'',
      ''owner_count'']"

definition task_owners_key :: "string \<Rightarrow> string" where
  "task_owners_key namespace = namespace @ '':task-owners''"

definition task_owner_header_key :: "string \<Rightarrow> string" where
  "task_owner_header_key namespace = namespace @ '':task-owner-header''"

definition length_prefix :: "string \<Rightarrow> string" where
  "length_prefix v = dec_nat (length v) @ '':'' @ v"

datatype owner_error =
    OwnerKeyError
  | OwnerTypeError
  | OwnerValueError string
  | TaskOwnerVerificationError string
  | OwnerPersistenceError string

text \<open>\<open>meta["tenant_id"] if hasattr(meta, "__getitem__") else None\<close> on frozen metadata.\<close>

definition tenant_of :: "json \<Rightarrow> owner_error + pyval" where
  "tenant_of meta =
     (case meta of
        JObj kvs \<Rightarrow> (case map_of kvs ''tenant_id'' of None \<Rightarrow> Inl OwnerKeyError | Some v \<Rightarrow> Inr (py_of_json v))
      | JArr _ \<Rightarrow> Inl OwnerTypeError
      | JStr _ \<Rightarrow> Inl OwnerTypeError
      | _ \<Rightarrow> Inr PNone)"

text \<open>\<open>str(x)\<close> of the committed time, which a validated record holds as an \<open>int\<close>.\<close>

definition owner_fields :: "ctr \<Rightarrow> pyval \<Rightarrow> string \<Rightarrow> pyval list" where
  "owner_fields r tenant digest =
     [PStr task_owner_schema, PStr (id_run_id (rec_identity r)), tenant, rec_identity_sha256 r, rec_operation_id r,
      PStr digest, rec_transition_id r, rec_record_hash r, rec_command_hash r,
      PStr (dec_int (int_of (rec_committed_at_ms r)))]"

definition nonempty_str :: "pyval \<Rightarrow> bool" where
  "nonempty_str v = (case v of PStr s \<Rightarrow> s \<noteq> [] | _ \<Rightarrow> False)"

definition task_owner_value :: "ctr \<Rightarrow> string \<Rightarrow> owner_error + string" where
  "task_owner_value r digest =
     rbind (tenant_of (rec_metadata_changes r)) (\<lambda>tenant.
       let fs = owner_fields r tenant digest in
       if \<not> list_all nonempty_str fs then Inl (OwnerValueError ''owner provenance fields must be non-empty strings'')
       else Inr (concat (map (\<lambda>f. length_prefix (str_of f)) fs)))"

section \<open>The decoder\<close>

text \<open>Python's slice bounds and \<open>bytes.index(b":", start)\<close>, with negative positions counted from the end.\<close>

definition slice_bound :: "string \<Rightarrow> int \<Rightarrow> nat" where
  "slice_bound s k = nat (if k < 0 then max 0 (k + int (length s)) else min k (int (length s)))"

definition py_slice :: "string \<Rightarrow> int \<Rightarrow> int \<Rightarrow> string" where
  "py_slice s a b = drop (slice_bound s a) (take (slice_bound s b) s)"

fun position :: "char \<Rightarrow> string \<Rightarrow> nat option" where
  "position c [] = None"
| "position c (d # s) = (if c = d then Some 0 else map_option Suc (position c s))"

definition index_colon :: "string \<Rightarrow> int \<Rightarrow> int option" where
  "index_colon s start =
     (let k = slice_bound s start in map_option (\<lambda>p. int (k + p)) (position CHR '':'' (drop k s)))"

text \<open>\<open>bytes.decode("utf-8")\<close> succeeds on well-formed UTF-8 only: no overlong forms, no surrogates.\<close>

definition continuation :: "char \<Rightarrow> bool" where
  "continuation c \<longleftrightarrow> 128 \<le> (of_char c :: nat) \<and> (of_char c :: nat) \<le> 191"

fun utf8_valid :: "string \<Rightarrow> bool" where
  "utf8_valid [] = True"
| "utf8_valid (a # s) =
     (let x = (of_char a :: nat) in
      if x < 128 then utf8_valid s
      else if 194 \<le> x \<and> x \<le> 223 then (case s of b # t \<Rightarrow> continuation b \<and> utf8_valid t | _ \<Rightarrow> False)
      else if 224 \<le> x \<and> x \<le> 239 then
        (case s of b # c # t \<Rightarrow>
           continuation b \<and> continuation c \<and> (x = 224 \<longrightarrow> 160 \<le> (of_char b :: nat)) \<and> (x = 237 \<longrightarrow> (of_char b :: nat) \<le> 159)
           \<and> utf8_valid t
         | _ \<Rightarrow> False)
      else if 240 \<le> x \<and> x \<le> 244 then
        (case s of b # c # d # t \<Rightarrow>
           continuation b \<and> continuation c \<and> continuation d \<and> (x = 240 \<longrightarrow> 144 \<le> (of_char b :: nat))
           \<and> (x = 244 \<longrightarrow> (of_char b :: nat) \<le> 143) \<and> utf8_valid t
         | _ \<Rightarrow> False)
      else False)"

text \<open>
  \<open>_decode_owner_value\<close>. The result is \<open>None\<close> when the loop does not end, an error when an iteration
  raises.
\<close>

partial_function (option) decode_owner_loop :: "string \<Rightarrow> int \<Rightarrow> string list \<Rightarrow> (owner_error + string list) option" where
  "decode_owner_loop raw pos out =
     (if pos < int (length raw) then
        (case index_colon raw pos of
           None \<Rightarrow> Some (Inl (OwnerValueError ''subsection not found''))
         | Some colon \<Rightarrow>
             (case py_int_text (py_slice raw pos colon) of
                Inl _ \<Rightarrow> Some (Inl (OwnerValueError ''int''))
              | Inr n \<Rightarrow>
                  (if \<not> utf8_valid (py_slice raw (colon + 1) (colon + 1 + n)) then Some (Inl (OwnerValueError ''utf-8''))
                   else decode_owner_loop raw (colon + 1 + n) (out @ [py_slice raw (colon + 1) (colon + 1 + n)]))))
      else Some (Inr out))"

definition decode_owner_value :: "string \<Rightarrow> (owner_error + string list) option" where
  "decode_owner_value v = decode_owner_loop v 0 []"

section \<open>Reading the inventory\<close>

record owner_binding =
  ob_run_id :: string
  ob_tenant_id :: string
  ob_task_identity_sha256 :: string
  ob_admit_operation_id :: string
  ob_admit_operation_digest :: string
  ob_admit_transition_id :: string
  ob_admit_record_hash :: string
  ob_admit_command_hash :: string
  ob_bound_at_ms :: string

text \<open>A reply is the value of a call, or \<open>Inl\<close> when the call raised.\<close>

definition reply :: "string \<Rightarrow> 'e + 'a \<Rightarrow> owner_error + 'a" where
  "reply message m = (case m of Inl _ \<Rightarrow> Inl (OwnerPersistenceError message) | Inr x \<Rightarrow> Inr x)"

definition header_ok :: "int \<Rightarrow> (string \<times> string) list \<Rightarrow> bool" where
  "header_ok ttl fs \<longleftrightarrow>
     ttl = - 1 \<and> fst ` set fs = set task_owner_header_fields
     \<and> data_field fs ''schema'' = task_owner_header_schema \<and> data_field fs ''state'' = ''ACTIVE''
     \<and> data_field fs ''owner_count'' \<noteq> [] \<and> list_all is_digit (data_field fs ''owner_count'')
     \<and> list_all (\<lambda>f. data_field fs f \<noteq> []) task_owner_header_fields"

definition read_task_owner_header :: "unit + string \<Rightarrow> unit + int \<Rightarrow> unit + (string \<times> string) list
    \<Rightarrow> owner_error + (string \<times> string) list option" where
  "read_task_owner_header kind ttl hash =
     rbind (reply ''task owner header read failed'' kind) (\<lambda>k.
       if k = ''none'' then Inr None
       else if k \<noteq> ''hash'' then Inl (TaskOwnerVerificationError ''task_owner_header_corrupt'')
       else rbind (reply ''task owner header read failed'' ttl) (\<lambda>t.
         rbind (reply ''task owner header read failed'' hash) (\<lambda>fs.
           if header_ok t fs then Inr (Some fs)
           else Inl (TaskOwnerVerificationError ''task_owner_header_corrupt''))))"

definition owner_count_of :: "(string \<times> string) list \<Rightarrow> int" where
  "owner_count_of header = int (nat_of_dec (data_field header ''owner_count''))"

definition task_owner_count :: "unit + string \<Rightarrow> unit + int \<Rightarrow> unit + (string \<times> string) list \<Rightarrow> owner_error + int" where
  "task_owner_count kind ttl hash =
     rbind (read_task_owner_header kind ttl hash) (\<lambda>header.
       case header of None \<Rightarrow> Inr (- 1) | Some fs \<Rightarrow> Inr (owner_count_of fs))"

record owner_replies =
  or_header_kind :: "unit + string"
  or_header_ttl :: "unit + int"
  or_header_hash :: "unit + (string \<times> string) list"
  or_owners_kind :: "unit + string"
  or_owners_len :: "unit + int"
  or_owners_ttl :: "unit + int"
  or_owner :: "unit + string option"

definition verify_task_owner :: "ctr \<Rightarrow> owner_replies \<Rightarrow> owner_error + unit" where
  "verify_task_owner r p =
     rbind (read_task_owner_header (or_header_kind p) (or_header_ttl p) (or_header_hash p)) (\<lambda>header.
       case header of
         None \<Rightarrow> Inl (TaskOwnerVerificationError ''task_owner_namespace_not_activated'')
       | Some fs \<Rightarrow>
           (case operation_digest (str_of (rec_operation_id r)) of
              Inl _ \<Rightarrow> Inl (OwnerValueError ''operation_id'')
            | Inr dig \<Rightarrow>
                rbind (task_owner_value r dig) (\<lambda>expected.
                rbind (reply ''task owner read failed'' (or_owners_kind p)) (\<lambda>k.
                rbind (if k = ''none'' then Inr 0 else reply ''task owner read failed'' (or_owners_len p)) (\<lambda>n.
                rbind (if k \<notin> {''none'', ''hash''} then Inl (TaskOwnerVerificationError ''task_owner_inventory_corrupt'')
                       else if k = ''hash'' then
                         rbind (reply ''task owner read failed'' (or_owners_ttl p)) (\<lambda>t.
                           rguard (t = - 1) (TaskOwnerVerificationError ''task_owner_inventory_corrupt''))
                       else Inr ()) (\<lambda>_.
                rbind (rguard (n = owner_count_of fs) (TaskOwnerVerificationError ''task_owner_inventory_loss_detected'')) (\<lambda>_.
                rbind (reply ''task owner read failed'' (or_owner p)) (\<lambda>stored.
                  case stored of
                    None \<Rightarrow> Inl (TaskOwnerVerificationError ''task_owner_binding_missing_for_canonical_task'')
                  | Some s \<Rightarrow> rguard (s = expected) (TaskOwnerVerificationError ''task_owner_provenance_mismatch'')))))))))"

definition binding_of :: "string list \<Rightarrow> owner_binding" where
  "binding_of f =
     \<lparr>ob_run_id = f ! 1, ob_tenant_id = f ! 2, ob_task_identity_sha256 = f ! 3, ob_admit_operation_id = f ! 4,
      ob_admit_operation_digest = f ! 5, ob_admit_transition_id = f ! 6, ob_admit_record_hash = f ! 7,
      ob_admit_command_hash = f ! 8, ob_bound_at_ms = f ! 9\<rparr>"

text \<open>\<open>load_task_owner\<close>; the outer \<open>None\<close> is a call that never returns.\<close>

definition load_task_owner :: "string \<Rightarrow> unit + string option \<Rightarrow> (owner_error + owner_binding option) option" where
  "load_task_owner task_id owner =
     (if task_id = [] then Some (Inl (OwnerValueError ''task_id''))
      else case owner of
        Inl _ \<Rightarrow> Some (Inl (OwnerPersistenceError ''task owner read failed''))
      | Inr None \<Rightarrow> Some (Inr None)
      | Inr (Some stored) \<Rightarrow>
          (case decode_owner_value stored of
             None \<Rightarrow> None
           | Some (Inl _) \<Rightarrow> Some (Inl (TaskOwnerVerificationError ''task_owner_binding_corrupt''))
           | Some (Inr f) \<Rightarrow>
               (if length f \<noteq> 10 \<or> f ! 0 \<noteq> task_owner_schema \<or> \<not> list_all (\<lambda>x. x \<noteq> []) f
                then Some (Inl (TaskOwnerVerificationError ''task_owner_binding_corrupt''))
                else Some (Inr (Some (binding_of f))))))"

section \<open>Replies of the commit script\<close>

datatype commit_status =
    CS_COMMITTED | CS_ALREADY_APPLIED | CS_IDEMPOTENCY_CONFLICT | CS_AGGREGATE_ALREADY_EXISTS_CONFLICT
  | CS_STALE_REVISION_CONFLICT | CS_FUTURE_REVISION_CONFLICT | CS_ILLEGAL_STATE_TRANSITION
  | CS_CANONICAL_RECORD_CORRUPTION_CONFLICT | CS_CONFLICT_EVIDENCE_STORE_UNAVAILABLE
  | CS_PREVALIDATION_RETRY_REQUIRED | CS_INVALID_COMMIT_PLAN

fun commit_status_value :: "commit_status \<Rightarrow> string" where
  "commit_status_value CS_COMMITTED = ''COMMITTED''"
| "commit_status_value CS_ALREADY_APPLIED = ''ALREADY_APPLIED''"
| "commit_status_value CS_IDEMPOTENCY_CONFLICT = ''IDEMPOTENCY_CONFLICT''"
| "commit_status_value CS_AGGREGATE_ALREADY_EXISTS_CONFLICT = ''AGGREGATE_ALREADY_EXISTS_CONFLICT''"
| "commit_status_value CS_STALE_REVISION_CONFLICT = ''STALE_REVISION_CONFLICT''"
| "commit_status_value CS_FUTURE_REVISION_CONFLICT = ''FUTURE_REVISION_CONFLICT''"
| "commit_status_value CS_ILLEGAL_STATE_TRANSITION = ''ILLEGAL_STATE_TRANSITION''"
| "commit_status_value CS_CANONICAL_RECORD_CORRUPTION_CONFLICT = ''CANONICAL_RECORD_CORRUPTION_CONFLICT''"
| "commit_status_value CS_CONFLICT_EVIDENCE_STORE_UNAVAILABLE = ''CONFLICT_EVIDENCE_STORE_UNAVAILABLE''"
| "commit_status_value CS_PREVALIDATION_RETRY_REQUIRED = ''PREVALIDATION_RETRY_REQUIRED''"
| "commit_status_value CS_INVALID_COMMIT_PLAN = ''INVALID_COMMIT_PLAN''"

definition all_commit_statuses :: "commit_status list" where
  "all_commit_statuses =
     [CS_COMMITTED, CS_ALREADY_APPLIED, CS_IDEMPOTENCY_CONFLICT, CS_AGGREGATE_ALREADY_EXISTS_CONFLICT,
      CS_STALE_REVISION_CONFLICT, CS_FUTURE_REVISION_CONFLICT, CS_ILLEGAL_STATE_TRANSITION,
      CS_CANONICAL_RECORD_CORRUPTION_CONFLICT, CS_CONFLICT_EVIDENCE_STORE_UNAVAILABLE,
      CS_PREVALIDATION_RETRY_REQUIRED, CS_INVALID_COMMIT_PLAN]"

text \<open>A script reply as the client returns it: nil, an integer, a string, or an array of these.\<close>

datatype reply_item = RNil | RInt int | RText string

datatype script_reply = Scalar reply_item | Items "reply_item list"

definition item_text :: "reply_item \<Rightarrow> string" where
  "item_text x = (case x of RNil \<Rightarrow> ''None'' | RInt n \<Rightarrow> dec_int n | RText s \<Rightarrow> s)"

definition item_at :: "reply_item list \<Rightarrow> nat \<Rightarrow> reply_item option" where
  "item_at xs k = (if k < length xs \<and> xs ! k \<noteq> RNil \<and> xs ! k \<noteq> RText [] then Some (xs ! k) else None)"

record commit_result =
  cr_status :: commit_status
  cr_transition_id :: "string option"
  cr_aggregate_revision :: "int option"
  cr_detail :: string

definition committed :: "commit_result \<Rightarrow> bool" where
  "committed c = (cr_status c = CS_COMMITTED)"

definition parse_commit_result :: "script_reply \<Rightarrow> store_error + commit_result" where
  "parse_commit_result raw =
     (case raw of
        Scalar _ \<Rightarrow> Inl (PersistenceError ''canonical authority Lua result must be a non-empty sequence'')
      | Items [] \<Rightarrow> Inl (PersistenceError ''canonical authority Lua result must be a non-empty sequence'')
      | Items (x # xs) \<Rightarrow>
          (case find (\<lambda>s. commit_status_value s = item_text x) all_commit_statuses of
             None \<Rightarrow> Inl (PersistenceError ''unknown canonical authority Lua result'')
           | Some status \<Rightarrow>
               rbind (case item_at (x # xs) 2 of
                        None \<Rightarrow> Inr None
                      | Some r \<Rightarrow> rbind (relabel (PersistenceError ''canonical authority Lua revision is invalid'')
                                    (py_int_text (item_text r))) (\<lambda>n. Inr (Some n))) (\<lambda>revision.
               Inr \<lparr>cr_status = status, cr_transition_id = map_option item_text (item_at (x # xs) 1),
                    cr_aggregate_revision = revision,
                    cr_detail = (case item_at (x # xs) 3 of None \<Rightarrow> [] | Some d \<Rightarrow> item_text d)\<rparr>)))"

section \<open>Decoding encoded values\<close>

lemma position_append: "c \<notin> set xs \<Longrightarrow> position c (xs @ c # ys) = Some (length xs)"
  by (induction xs) auto

lemma slice_bound_nat: "k \<le> length s \<Longrightarrow> slice_bound s (int k) = k"
  by (simp add: slice_bound_def)

lemma py_slice_middle: "py_slice (xs @ ys @ zs) (int (length xs)) (int (length xs + length ys)) = ys"
  by (simp add: py_slice_def slice_bound_nat del: of_nat_add)

lemma index_colon_middle:
  assumes "CHR '':'' \<notin> set ys"
  shows "index_colon (xs @ ys @ CHR '':'' # zs) (int (length xs)) = Some (int (length xs + length ys))"
  using assms by (simp add: index_colon_def slice_bound_nat position_append Let_def)

lemma decode_one:
  assumes "utf8_valid f" and "int (length f) \<le> max_safe_integer"
  shows "decode_owner_loop (pre @ length_prefix f @ rest) (int (length pre)) out
    = decode_owner_loop (pre @ length_prefix f @ rest) (int (length (pre @ length_prefix f))) (out @ [f])"
proof -
  let ?ds = "dec_nat (length f)" and ?raw = "pre @ length_prefix f @ rest"
  have raw: "?raw = pre @ ?ds @ CHR '':'' # f @ rest" "?raw = (pre @ ?ds @ '':'') @ f @ rest"
    by (simp_all add: length_prefix_def)
  have col: "index_colon ?raw (int (length pre)) = Some (int (length pre + length ?ds))"
    unfolding raw(1) by (rule index_colon_middle) simp
  have ds: "py_slice ?raw (int (length pre)) (int (length pre + length ?ds)) = ?ds"
    unfolding raw(1) by (rule py_slice_middle)
  have "py_int_text (dec_int (int (length f))) = Inr (int (length f))" by (rule py_int_text_dec_int) (use assms(2) in simp_all)
  then have n: "py_int_text ?ds = Inr (int (length f))" by (simp add: dec_int_def)
  have pos: "int (length pre + length ?ds) + 1 = int (length (pre @ ?ds @ '':''))" by simp
  have f: "py_slice ?raw (int (length pre + length ?ds) + 1) (int (length pre + length ?ds) + 1 + int (length f)) = f"
    unfolding pos of_nat_add [symmetric] raw(2) by (rule py_slice_middle)
  have lt: "int (length pre) < int (length ?raw)" by (simp add: length_prefix_def)
  have goal: "int (length pre + length ?ds) + 1 + int (length f) = int (length (pre @ length_prefix f))"
    by (simp add: length_prefix_def)
  show ?thesis
    by (subst decode_owner_loop.simps)
      (simp only: lt if_True col option.case ds n sum.case f assms(1) not_True_eq_False if_False, simp only: goal)
qed

lemma decode_all:
  assumes "list_all (\<lambda>f. utf8_valid f \<and> int (length f) \<le> max_safe_integer) fs"
  shows "decode_owner_loop (pre @ concat (map length_prefix fs)) (int (length pre)) out = Some (Inr (out @ fs))"
  using assms
proof (induction fs arbitrary: pre out)
  case Nil
  then show ?case by (subst decode_owner_loop.simps) simp
next
  case (Cons f fs)
  have "decode_owner_loop (pre @ concat (map length_prefix (f # fs))) (int (length pre)) out
      = decode_owner_loop ((pre @ length_prefix f) @ concat (map length_prefix fs)) (int (length (pre @ length_prefix f))) (out @ [f])"
    using decode_one [of f pre "concat (map length_prefix fs)" out] Cons.prems by simp
  with Cons.IH [of "pre @ length_prefix f" "out @ [f]"] Cons.prems show ?case by simp
qed

lemma decode_owner_value_encoded:
  assumes "list_all (\<lambda>f. utf8_valid f \<and> int (length f) \<le> max_safe_integer) fs"
  shows "decode_owner_value (concat (map length_prefix fs)) = Some (Inr fs)"
  using decode_all [OF assms, of "[]" "[]"] by (simp add: decode_owner_value_def)

lemma nonempty_str_of: "nonempty_str v \<Longrightarrow> str_of v \<noteq> []"
  by (cases v) (simp_all add: nonempty_str_def)

section \<open>Properties\<close>

definition owner_texts :: "ctr \<Rightarrow> string \<Rightarrow> string \<Rightarrow> string list" where
  "owner_texts r tenant digest = map str_of (owner_fields r (PStr tenant) digest)"

text \<open>
  C29. A verified owner loads: when \<open>verify_task_owner\<close> accepts the stored owner of a record's task,
  \<open>load_task_owner\<close> of the same stored value returns, and returns the binding of exactly that record:
  its run, its tenant, its identity digest, its operation, transition, hashes and time.
\<close>

theorem verified_owner_loads:
  assumes "verify_task_owner r p = Inr ()" and "task_id \<noteq> []"
    and "rec_metadata_changes r = JObj kvs" and "map_of kvs ''tenant_id'' = Some (JStr tenant)"
    and "operation_digest (str_of (rec_operation_id r)) = Inr digest"
    and "list_all (\<lambda>f. utf8_valid f \<and> int (length f) \<le> max_safe_integer) (owner_texts r tenant digest)"
  shows "load_task_owner task_id (or_owner p) =
    Some (Inr (Some \<lparr>ob_run_id = id_run_id (rec_identity r), ob_tenant_id = tenant,
      ob_task_identity_sha256 = str_of (rec_identity_sha256 r), ob_admit_operation_id = str_of (rec_operation_id r),
      ob_admit_operation_digest = digest, ob_admit_transition_id = str_of (rec_transition_id r),
      ob_admit_record_hash = str_of (rec_record_hash r), ob_admit_command_hash = str_of (rec_command_hash r),
      ob_bound_at_ms = dec_int (int_of (rec_committed_at_ms r))\<rparr>))"
proof -
  let ?fs = "owner_fields r (PStr tenant) digest"
  from assms(1) obtain v where v: "task_owner_value r digest = Inr v" and stored: "or_owner p = Inr (Some v)"
    unfolding verify_task_owner_def
    by (auto simp: rbind_Inr_iff assms(5) reply_def split: option.splits sum.splits)
  have ok: "list_all nonempty_str ?fs" and enc: "v = concat (map length_prefix (owner_texts r tenant digest))"
    using v assms(3,4) by (auto simp: task_owner_value_def tenant_of_def Let_def owner_texts_def comp_def split: if_splits)
  have "list_all (\<lambda>x. x \<noteq> []) (owner_texts r tenant digest)"
    using ok by (auto simp: owner_texts_def list_all_iff dest!: nonempty_str_of bspec)
  then show ?thesis
    unfolding stored load_task_owner_def enc
    using decode_owner_value_encoded [OF assms(6)] assms(2)
    by (simp add: owner_texts_def owner_fields_def binding_of_def del: concat.simps)
qed

text \<open>
  C30. The decoder of owner values need not end: on the three bytes \<open>-3:\<close> the length moves the
  position back to the start, so \<open>load_task_owner\<close> never returns, where a malformed value should be
  reported as a corrupt binding.
\<close>

theorem corrupt_owner_never_returns:
  "task_id \<noteq> [] \<Longrightarrow> load_task_owner task_id (Inr (Some ''-3:'')) = None"
proof -
  have col: "index_colon ''-3:'' 0 = Some 2" by (simp add: index_colon_def slice_bound_def Let_def)
  have n: "py_int_text (py_slice ''-3:'' 0 2) = Inr (- 3)" by code_simp
  have e: "py_slice ''-3:'' (2 + 1) (2 + 1 + - 3) = []" by (simp add: py_slice_def slice_bound_def)
  have "\<not> (raw = ''-3:'' \<and> pos = 0)" if "decode_owner_loop raw pos out = Some y" for raw pos out y
  proof (rule decode_owner_loop.raw_induct [OF _ that])
    fix loop :: "string \<Rightarrow> int \<Rightarrow> string list \<Rightarrow> (owner_error + string list) option" and raw pos out y
    assume "\<And>raw pos out y. loop raw pos out = Some y \<Longrightarrow> \<not> (raw = ''-3:'' \<and> pos = (0::int))"
    then have again: "loop ''-3:'' 0 out' \<noteq> Some y" for out' by blast
    assume "(if pos < int (length raw) then
        (case index_colon raw pos of
           None \<Rightarrow> Some (Inl (OwnerValueError ''subsection not found''))
         | Some colon \<Rightarrow>
             (case py_int_text (py_slice raw pos colon) of
                Inl _ \<Rightarrow> Some (Inl (OwnerValueError ''int''))
              | Inr n \<Rightarrow>
                  (if \<not> utf8_valid (py_slice raw (colon + 1) (colon + 1 + n)) then Some (Inl (OwnerValueError ''utf-8''))
                   else loop raw (colon + 1 + n) (out @ [py_slice raw (colon + 1) (colon + 1 + n)]))))
      else Some (Inr out)) = Some y"
    then show "\<not> (raw = ''-3:'' \<and> pos = 0)" using again col n e by auto
  qed
  then have "decode_owner_value ''-3:'' = None" by (cases "decode_owner_value ''-3:''") (auto simp: decode_owner_value_def)
  then show "task_id \<noteq> [] \<Longrightarrow> load_task_owner task_id (Inr (Some ''-3:'')) = None" by (simp add: load_task_owner_def)
qed

section \<open>Replies\<close>

text \<open>
  A reply of the commit script reads back: the four strings that \<open>result\<close> of the script returns
  for a status, an optional transition id, an optional revision below \<open>10^14\<close> and a detail are parsed
  into exactly these.
\<close>

theorem commit_reply_reads_back:
  assumes "\<forall>n. revision = Some n \<longrightarrow> 0 \<le> n \<and> n < 10 ^ 14" and "\<forall>t. tid = Some t \<longrightarrow> t \<noteq> []"
  shows "parse_commit_result (Items [RText (commit_status_value status),
      RText (case tid of None \<Rightarrow> [] | Some t \<Rightarrow> t),
      RText (case revision of None \<Rightarrow> [] | Some n \<Rightarrow> lua_tostring n), RText detail])
    = Inr \<lparr>cr_status = status, cr_transition_id = tid, cr_aggregate_revision = revision, cr_detail = detail\<rparr>"
proof -
  have st: "find (\<lambda>s. commit_status_value s = commit_status_value status) all_commit_statuses = Some status"
    by (cases status) (simp_all add: all_commit_statuses_def)
  have rev: "py_int_text (lua_tostring n) = Inr n \<and> lua_tostring n \<noteq> []" if "revision = Some n" for n
  proof -
    have n: "0 \<le> n" "n < 10 ^ 14" using assms(1) that by auto
    then show ?thesis using py_int_text_dec_int [of n] by (simp add: max_safe_integer_def)
  qed
  show ?thesis
    using assms(2) rev
    by (cases tid; cases revision; cases detail) (simp_all add: parse_commit_result_def item_text_def item_at_def st)
qed

section \<open>Witnesses\<close>

lemma ascii_utf8_valid: "is_ascii s \<Longrightarrow> utf8_valid s"
  by (induction s rule: utf8_valid.induct) (auto simp: is_ascii_def Let_def)

definition demo_owner_record :: ctr where
  "demo_owner_record =
     \<lparr>rec_schema_version = PStr ''ctr.v1'', rec_transition_id = PStr ''t'', rec_identity = demo_identity,
      rec_identity_sha256 = PStr ''i'', rec_from_revision = PInt 0, rec_to_revision = PInt 1,
      rec_operation_type = PStr ''TASK_ADMIT'', rec_operation_id = PStr ''admit-1'', rec_command_hash = PStr ''c'',
      rec_record_hash = PStr ''r'', rec_previous_state = PNone, rec_next_state = PStr ''ready'',
      rec_metadata_changes = JObj [(''tenant_id'', JStr ''acme'')], rec_child_effects = JNull,
      rec_causation_id = PNone, rec_correlation_id = PNone, rec_writer_id = PStr ''w'',
      rec_committed_at_ms = PInt 5, rec_projection_intents = []\<rparr>"

definition demo_replies :: "string \<Rightarrow> owner_replies" where
  "demo_replies stored =
     \<lparr>or_header_kind = Inr ''hash'', or_header_ttl = Inr (- 1),
      or_header_hash = Inr [(''schema'', ''task-owner-header:v1''), (''state'', ''ACTIVE''), (''namespace_id'', ''n''),
        (''activated_at_ms'', ''1''), (''inventory_sha256'', ''i''), (''attestation_sha256'', ''a''), (''owner_count'', ''1'')],
      or_owners_kind = Inr ''hash'', or_owners_len = Inr 1, or_owners_ttl = Inr (- 1), or_owner = Inr (Some stored)\<rparr>"

theorem verified_owner_loads_witness:
  "\<exists>p digest. verify_task_owner demo_owner_record p = Inr () \<and>
     load_task_owner ''task-1'' (or_owner p) =
       Some (Inr (Some \<lparr>ob_run_id = ''run-1'', ob_tenant_id = ''acme'', ob_task_identity_sha256 = ''i'',
         ob_admit_operation_id = ''admit-1'', ob_admit_operation_digest = digest, ob_admit_transition_id = ''t'',
         ob_admit_record_hash = ''r'', ob_admit_command_hash = ''c'', ob_bound_at_ms = ''5''\<rparr>))"
proof -
  define d where "d = component_digest [''admit-1'']"
  have dig: "operation_digest (str_of (rec_operation_id demo_owner_record)) = Inr d"
    by (simp add: demo_owner_record_def operation_digest_def nonempty_text_def d_def component_digest_def length_prefixed_utf8_def)
  have re: "sha256_re d" by (simp add: d_def)
  obtain v where v: "task_owner_value demo_owner_record d = Inr v"
    using sha256_re_nonempty [OF re]
    by (simp add: task_owner_value_def tenant_of_def demo_owner_record_def owner_fields_def nonempty_str_def
        task_owner_schema_def demo_identity_def)
  have ver: "verify_task_owner demo_owner_record (demo_replies v) = Inr ()"
    unfolding verify_task_owner_def dig
    by (auto simp: demo_replies_def read_task_owner_header_def reply_def header_ok_def task_owner_header_fields_def data_field_def
        task_owner_header_schema_def is_digit_def v owner_count_of_def nat_of_dec_def digit_val_def)
  have len: "length d = 64" and asc: "is_ascii d" using re by (simp add: sha256_re_def, rule sha256_re_ascii)
  have five: "dec_int 5 = ''5''" by code_simp
  have texts: "owner_texts demo_owner_record ''acme'' d =
      [''task-owner:v1'', ''run-1'', ''acme'', ''i'', ''admit-1'', d, ''t'', ''r'', ''c'', ''5'']"
    by (simp add: owner_texts_def owner_fields_def demo_owner_record_def demo_identity_def task_owner_schema_def five)
  have "is_ascii t \<Longrightarrow> utf8_valid t" for t by (rule ascii_utf8_valid)
  then have ok: "list_all (\<lambda>f. utf8_valid f \<and> int (length f) \<le> max_safe_integer) (owner_texts demo_owner_record ''acme'' d)"
    unfolding texts using asc len by (simp add: max_safe_integer_def)
  have meta: "rec_metadata_changes demo_owner_record = JObj [(''tenant_id'', JStr ''acme'')]"
    "map_of [(''tenant_id'', JStr ''acme'')] ''tenant_id'' = Some (JStr ''acme'')" by (simp_all add: demo_owner_record_def)
  have "load_task_owner ''task-1'' (or_owner (demo_replies v)) =
       Some (Inr (Some \<lparr>ob_run_id = ''run-1'', ob_tenant_id = ''acme'', ob_task_identity_sha256 = ''i'',
         ob_admit_operation_id = ''admit-1'', ob_admit_operation_digest = d, ob_admit_transition_id = ''t'',
         ob_admit_record_hash = ''r'', ob_admit_command_hash = ''c'', ob_bound_at_ms = ''5''\<rparr>))"
    using verified_owner_loads [OF ver _ meta dig ok, of "''task-1''"]
    by (simp add: demo_owner_record_def demo_identity_def five)
  with ver show ?thesis by blast
qed

theorem corrupt_owner_never_returns_witness: "load_task_owner ''task-1'' (Inr (Some ''-3:'')) = None"
  by (rule corrupt_owner_never_returns) simp

theorem commit_reply_reads_back_witness:
  "parse_commit_result (Items [RText ''COMMITTED'', RText ''ctr:v1:x'', RText ''7'', RText []])
     = Inr \<lparr>cr_status = CS_COMMITTED, cr_transition_id = Some ''ctr:v1:x'', cr_aggregate_revision = Some 7, cr_detail = []\<rparr>"
proof -
  have "lua_tostring 7 = ''7''" by code_simp
  then show ?thesis using commit_reply_reads_back [of "Some 7" "Some ''ctr:v1:x''" CS_COMMITTED "[]"] by simp
qed
end
