(* ===== verification/AuthorityEvidence.thy ===== *)
theory AuthorityEvidence
  imports AuthorityRoundTrip
begin

text \<open>
  Two further facts about the stored evidence of
  \<open>src/hfa-core/src/hfa/authority/redis_persistence.py\<close>: the keys of different aggregates are
  disjoint, and the two places that read a stored operation proof, the prevalidation of \<open>commit\<close>
  and \<open>load_receipt_probe\<close>, agree on what a valid proof is.
\<close>

section \<open>Two readers of the same evidence\<close>

text \<open>The evidence both readers look for in a server that does not change meanwhile.\<close>

definition stored_evidence :: "externals \<Rightarrow> keyspace \<Rightarrow> string \<Rightarrow> redis_view \<Rightarrow> ctr \<Rightarrow> operation_receipt \<Rightarrow> bool" where
  "stored_evidence E ks oid v r rc \<longleftrightarrow>
     (\<forall>key \<in> {receipts_key ks, operation_records_key ks, transition_indexes_key ks}.
        redis_type (Some v) key \<in> {Inr ''none'', Inr ''hash''})
     \<and> (\<exists>dig rr rd ri. operation_digest oid = Inr dig
        \<and> redis_hget (Some v) (receipts_key ks) dig = Inr (Some rr)
        \<and> redis_hget (Some v) (operation_records_key ks) dig = Inr (Some rd)
        \<and> decode_pair E rd rr = Inr (r, rc)
        \<and> redis_hget (Some v) (transition_indexes_key ks) (str_of (rec_transition_id r)) = Inr (Some ri)
        \<and> check_pair E ks oid r rc ri)"

lemma redis_type_some: "\<exists>t. redis_type (Some v) key = Inr t"
  by (simp add: redis_type_def)

lemma hget_ok: "redis_type (Some v) key \<in> {Inr ''none'', Inr ''hash''} \<Longrightarrow> \<exists>x. redis_hget (Some v) key f = Inr x"
proof -
  have "redis_kind_name k \<notin> {''none'', ''hash''}" for k by (cases k) simp_all
  then show "redis_type (Some v) key \<in> {Inr ''none'', Inr ''hash''} \<Longrightarrow> \<exists>x. redis_hget (Some v) key f = Inr x"
    by (auto simp: redis_type_def redis_hget_def redis_hgetall_def split: option.splits redis_value.splits)
qed

lemma raw_proof_valid_iff:
  "(\<exists>pv. prevalidate_raw_proof E ks oid rd rr (Some v) (Some v) = Inr pv \<and> pv_status pv = PV_VALID) \<longleftrightarrow>
     (\<exists>rd' rr' r rc ri. rd = Some rd' \<and> rr = Some rr' \<and> decode_pair E rd' rr' = Inr (r, rc)
        \<and> redis_type (Some v) (transition_indexes_key ks) \<in> {Inr ''none'', Inr ''hash''}
        \<and> redis_hget (Some v) (transition_indexes_key ks) (str_of (rec_transition_id r)) = Inr (Some ri)
        \<and> check_pair E ks oid r rc ri)"
proof -
  obtain t where t: "redis_type (Some v) (transition_indexes_key ks) = Inr t" using redis_type_some by blast
  show ?thesis
  proof (cases "rd = None \<or> rr = None")
    case True
    then show ?thesis by (cases rd; cases rr) (auto simp: prevalidate_raw_proof_def pv_absent_def pv_invalid_def)
  next
    case False
    then obtain rd' rr' where s: "rd = Some rd'" "rr = Some rr'" by auto
    show ?thesis
    proof (cases "decode_pair E rd' rr'")
      case (Inl e)
      then show ?thesis by (simp add: prevalidate_raw_proof_def s pv_invalid_def)
    next
      case (Inr x)
      obtain r rc where x: "x = (r, rc)" by (cases x)
      show ?thesis
      proof (cases "t \<in> {''none'', ''hash''}")
        case True
        with hget_ok [of v "transition_indexes_key ks"] t obtain y
          where y: "redis_hget (Some v) (transition_indexes_key ks) (str_of (rec_transition_id r)) = Inr y" by auto
        show ?thesis using True by (cases y) (auto simp: prevalidate_raw_proof_def s Inr x t y pv_invalid_def)
      next
        case False
        then show ?thesis by (auto simp: prevalidate_raw_proof_def s Inr x t pv_invalid_def)
      qed
    qed
  qed
qed

lemma operation_proof_valid_iff:
  "(\<exists>pv. prevalidate_operation_proof E ks oid (\<lambda>_. Some v) = Inr pv \<and> pv_status pv = PV_VALID)
     \<longleftrightarrow> (\<exists>r rc. stored_evidence E ks oid v r rc)"
proof (cases "operation_digest oid")
  case (Inl e)
  then show ?thesis by (simp add: prevalidate_operation_proof_def stored_evidence_def)
next
  case dig: (Inr dig)
  obtain a b where t: "redis_type (Some v) (receipts_key ks) = Inr a" "redis_type (Some v) (operation_records_key ks) = Inr b"
    using redis_type_some by metis
  show ?thesis
  proof (cases "a \<in> {''none'', ''hash''} \<and> b \<in> {''none'', ''hash''}")
    case True
    then obtain x y where h: "redis_hget (Some v) (receipts_key ks) dig = Inr x"
      "redis_hget (Some v) (operation_records_key ks) dig = Inr y"
      using hget_ok [of v "receipts_key ks" dig] hget_ok [of v "operation_records_key ks" dig] t by auto
    have "prevalidate_operation_proof E ks oid (\<lambda>_. Some v) = prevalidate_raw_proof E ks oid y x (Some v) (Some v)"
      using True by (auto simp: prevalidate_operation_proof_def dig t h)
    then show ?thesis
      using True raw_proof_valid_iff [of E ks oid y x v] by (auto simp: stored_evidence_def dig t h)
  next
    case False
    then have "prevalidate_operation_proof E ks oid (\<lambda>_. Some v) = Inr pv_absent"
      by (auto simp: prevalidate_operation_proof_def dig t)
    with False t show ?thesis by (auto simp: stored_evidence_def pv_absent_def)
  qed
qed

lemma decode_pair_commute:
  "decode_pair E rd rr = Inr (r, rc) \<longleftrightarrow>
     rbind (decode_storage_envelope ''operation receipt'' rr) (\<lambda>(_, rp).
     rbind (decode_storage_envelope ''canonical operation record'' rd) (\<lambda>(_, dp).
     rbind (receipt_from_payload E rp) (\<lambda>rc. rbind (record_from_payload E dp) (\<lambda>r. Inr (rc, r))))) = Inr (rc, r)"
  by (auto simp: decode_pair_def rbind_Inr_iff)

lemma record_transition_id_nonempty:
  assumes "nfc_laws E" and "record_from_payload E p = Inr r"
  shows "str_of (rec_transition_id r) \<noteq> []"
  using validated_head_parts [OF assms(1) record_from_payload_valid [OF assms(2)]] by (metis str_of_PStr)

lemma probe_from_raw_iff:
  assumes laws: "nfc_laws E"
  shows "(\<exists>probe. probe_from_raw E ks oid rr rd v = Inr (Some probe)) \<longleftrightarrow>
     (\<exists>r rc ri. decode_pair E rd rr = Inr (r, rc)
        \<and> redis_hget v (transition_indexes_key ks) (str_of (rec_transition_id r)) = Inr (Some ri)
        \<and> check_pair E ks oid r rc ri)"
proof (cases "decode_pair E rd rr")
  case (Inl e)
  then have "\<nexists>r rc. decode_pair E rd rr = Inr (r, rc)" by simp
  then show ?thesis unfolding decode_pair_commute by (auto simp: probe_from_raw_def rbind_Inr_iff)
next
  case (Inr x)
  obtain r rc where x: "x = (r, rc)" by (cases x)
  obtain p where "record_from_payload E p = Inr r" using Inr x by (auto simp: decode_pair_def rbind_Inr_iff)
  from record_transition_id_nonempty [OF laws this]
  have t: "nonempty_text ''transition_id'' (str_of (rec_transition_id r)) = Inr (str_of (rec_transition_id r))"
    by (simp add: nonempty_text_def)
  note dec = Inr [unfolded x decode_pair_commute]
  show ?thesis
    unfolding probe_from_raw_def dec using Inr x t
    by (auto simp: rbind_Inr_iff check_pair_def is_ok_iff Let_def split: option.splits)
qed

lemma probe_iff:
  assumes ks: "make_keyspace (identity_sha256 i) ns = Inr ks" and laws: "nfc_laws E"
  shows "(\<exists>probe. load_receipt_probe E ns i oid (\<lambda>_. Some v) = Inr (Some probe)) \<longleftrightarrow> (\<exists>r rc. stored_evidence E ks oid v r rc)"
proof (cases "operation_digest oid")
  case (Inl e)
  then show ?thesis by (auto simp: load_receipt_probe_def stored_evidence_def rbind_Inr_iff operation_digest_def nonempty_text_def split: if_splits)
next
  case dig: (Inr dig)
  then have ne: "nonempty_text ''operation_id'' oid = Inr oid" by (auto simp: operation_digest_def nonempty_text_def split: if_splits)
  obtain a b c where t: "redis_type (Some v) (receipts_key ks) = Inr a" "redis_type (Some v) (operation_records_key ks) = Inr b"
    "redis_type (Some v) (transition_indexes_key ks) = Inr c"
    using redis_type_some by metis
  show ?thesis
  proof (cases "a \<in> {''none'', ''hash''} \<and> b \<in> {''none'', ''hash''} \<and> c \<in> {''none'', ''hash''}")
    case False
    then have "\<nexists>probe. load_receipt_probe E ns i oid (\<lambda>_. Some v) = Inr (Some probe)"
      by (auto simp: load_receipt_probe_def ne ks dig t rbind_Inr_iff)
    with False t show ?thesis by (auto simp: stored_evidence_def)
  next
    case True
    then obtain x y where h: "redis_hget (Some v) (receipts_key ks) dig = Inr x"
      "redis_hget (Some v) (operation_records_key ks) dig = Inr y"
      using hget_ok [of v "receipts_key ks" dig] hget_ok [of v "operation_records_key ks" dig] t by auto
    have "load_receipt_probe E ns i oid (\<lambda>_. Some v) =
        (case (x, y) of (None, None) \<Rightarrow> Inr None | (Some rr, Some rd) \<Rightarrow> probe_from_raw E ks oid rr rd (Some v)
         | _ \<Rightarrow> Inl (CorruptionError ''stored receipt proof is incomplete''))"
      using True by (auto simp: load_receipt_probe_def ne ks dig t h)
    then have "(\<exists>probe. load_receipt_probe E ns i oid (\<lambda>_. Some v) = Inr (Some probe)) \<longleftrightarrow>
      (\<exists>rr rd r rc ri. x = Some rr \<and> y = Some rd \<and> decode_pair E rd rr = Inr (r, rc)
        \<and> redis_hget (Some v) (transition_indexes_key ks) (str_of (rec_transition_id r)) = Inr (Some ri)
        \<and> check_pair E ks oid r rc ri)"
      using probe_from_raw_iff [OF laws, of ks oid _ _ "Some v"] by (cases x; cases y) auto
    then show ?thesis using True t h dig by (auto simp: stored_evidence_def)
  qed
qed

section \<open>Keys\<close>

lemma make_keyspaceD:
  "make_keyspace sha ns = Inr ks \<Longrightarrow> ks = \<lparr>ks_identity_sha256 = sha, ks_namespace = ns\<rparr>
     \<and> sha256_re sha \<and> CHR 0x7B \<notin> set ns"
  by (auto simp: make_keyspace_def sha256_text_def rbind_Inr_iff split: if_splits)

lemma member_key_inj:
  assumes "make_keyspace sha ns = Inr ks" and "make_keyspace sha' ns' = Inr ks'" and "member_key p ks = member_key q ks'"
  shows "ks = ks' \<and> p = q"
proof -
  note k = make_keyspaceD [OF assms(1)] make_keyspaceD [OF assms(2)]
  have nb: "CHR 0x7D \<notin> set s" if "sha256_re s" for s
  proof -
    have "\<not> is_lower_hex CHR 0x7D" by (simp add: is_lower_hex_def)
    with that show ?thesis by (auto simp: sha256_re_def list_all_iff)
  qed
  have "(ns @ '':'') @ CHR 0x7B # (sha @ CHR 0x7D # '':'' @ p) = (ns' @ '':'') @ CHR 0x7B # (sha' @ CHR 0x7D # '':'' @ q)"
    using assms(3) k by (simp add: member_key_def hash_tag_def)
  from split_at_sep [OF this] k have "ns = ns'" and rest: "sha @ CHR 0x7D # '':'' @ p = sha' @ CHR 0x7D # '':'' @ q" by auto
  moreover from split_at_sep [OF rest] nb k have "sha = sha'" "p = q" by auto
  ultimately show ?thesis using k by simp
qed

lemmas member_keys = aggregate_key_def transition_indexes_key_def receipts_key_def operation_records_key_def
  transition_log_key_def outbox_key_def conflict_index_key_def conflicts_key_def operator_audits_key_def

section \<open>Properties\<close>

text \<open>
  Keys never meet: the eight commit keys of an aggregate are distinct, and the keys of two
  aggregates or of two namespaces have no member in common.
\<close>

theorem commit_keys_isolated:
  assumes "make_keyspace sha ns = Inr ks" and "make_keyspace sha' ns' = Inr ks'" and "sha \<noteq> sha' \<or> ns \<noteq> ns'"
  shows "distinct (commit_keys ks) \<and> set (commit_keys ks) \<inter> set (commit_keys ks') = {}"
proof -
  have "ks \<noteq> ks'" using make_keyspaceD [OF assms(1)] make_keyspaceD [OF assms(2)] assms(3) by auto
  then have "member_key p ks \<noteq> member_key q ks'" for p q using member_key_inj [OF assms(1,2)] by blast
  then show ?thesis by (auto simp: commit_keys_def member_keys)
qed

text \<open>
  The prevalidation that precedes a commit and \<open>load_receipt_probe\<close> accept the same evidence:
  on a server that does not change meanwhile, the first answers \<open>VALID\<close> exactly when the second
  returns a probe.
\<close>

theorem prevalidation_agrees_with_probe:
  assumes "nfc_laws E" and "make_keyspace (identity_sha256 i) namespace = Inr ks"
  shows "(\<exists>pv. prevalidate_operation_proof E ks operation_id (\<lambda>_. Some v) = Inr pv \<and> pv_status pv = PV_VALID)
    \<longleftrightarrow> (\<exists>probe. load_receipt_probe E namespace i operation_id (\<lambda>_. Some v) = Inr (Some probe))"
  unfolding operation_proof_valid_iff probe_iff [OF assms(2,1)] by (rule refl)

section \<open>Witnesses\<close>

theorem commit_keys_isolated_witness:
  "set (commit_keys \<lparr>ks_identity_sha256 = replicate 64 CHR ''0'', ks_namespace = ''hfa:authority:v1''\<rparr>)
     \<inter> set (commit_keys \<lparr>ks_identity_sha256 = replicate 64 CHR ''1'', ks_namespace = ''hfa:authority:v1''\<rparr>) = {}"
proof -
  have h: "sha256_re (replicate 64 c)" if "c \<in> {CHR ''0'', CHR ''1''}" for c
    using that by (auto simp: sha256_re_def list_all_iff is_lower_hex_def)
  have "replicate 64 CHR ''0'' \<noteq> replicate 64 CHR ''1''" by (simp add: replicate_eq_replicate)
  then show ?thesis
    using commit_keys_isolated [of "replicate 64 CHR ''0''" "''hfa:authority:v1''" _ "replicate 64 CHR ''1''" "''hfa:authority:v1''"]
    by (simp add: make_keyspace_def sha256_text_def h)
qed

theorem prevalidation_agrees_with_probe_witness:
  "\<nexists>pv. prevalidate_operation_proof json_externals
      \<lparr>ks_identity_sha256 = identity_sha256 demo_identity, ks_namespace = ''hfa:authority:v1''\<rparr> ''admit-1''
      (\<lambda>_. Some (\<lambda>_. None)) = Inr pv \<and> pv_status pv = PV_VALID"
proof -
  have "load_receipt_probe json_externals ''hfa:authority:v1'' demo_identity ''admit-1'' (\<lambda>_. Some (\<lambda>_. None)) = Inr None"
    by (simp add: load_receipt_probe_def demo_keyspace operation_digest_def nonempty_text_def redis_type_def redis_hget_def redis_hgetall_def)
  then show ?thesis
    using prevalidation_agrees_with_probe [OF json_externals_laws(1) demo_keyspace, of "''admit-1''" "\<lambda>_. None"] by auto
qed

end
