(* ===== verification/AuthorityCommit.thy ===== *)
theory AuthorityCommit
  imports TaskOwners AuthorityEvidence
begin

text \<open>
  The write side of \<open>src/hfa-core/src/hfa/authority/redis_persistence.py\<close>: the guards that prepare
  evidence of a parent aggregate for the commit script, the arguments of the script, the retry loop
  of \<open>commit\<close>, and \<open>validate_authority_head\<close> with its script
  \<open>src/hfa-core/src/hfa/lua/authority_head_validate.lua\<close>.

  Every read takes the view that the server showed at that call. A run of the commit script is an
  argument of the attempt that makes it: keys and arguments go in, a reply or a failure comes out, so
  what is shown of \<open>commit\<close> holds for whatever the script answers. The script that validates a head
  is a definition; it sees one state of the server, streams included. The \<open>cjson.decode\<close> of Redis is a
  parameter, of which \<open>cjson_decodes\<close> says that it reads back an envelope, and reads a plain object of
  bounded depth as \<open>json.loads\<close> does.
\<close>

section \<open>Errors\<close>

type_synonym commit_error = "authority_error + store_error"

definition lift_authority :: "authority_error + 'a \<Rightarrow> commit_error + 'a" where
  "lift_authority m = (case m of Inl e \<Rightarrow> Inl (Inl e) | Inr x \<Rightarrow> Inr x)"

definition lift_store :: "store_error + 'a \<Rightarrow> commit_error + 'a" where
  "lift_store m = (case m of Inl e \<Rightarrow> Inl (Inr e) | Inr x \<Rightarrow> Inr x)"

section \<open>Head witnesses and guards\<close>

text \<open>The three texts of a record and its receipt, in the order of the argument lists.\<close>

definition proof_texts :: "externals \<Rightarrow> ctr \<Rightarrow> operation_receipt \<Rightarrow> commit_error + string list" where
  "proof_texts E r rc =
     rbind (lift_authority (rbind (record_payload E r) (canonical_text E))) (\<lambda>record_json.
     rbind (lift_authority (canonical_text E (receipt_payload rc))) (\<lambda>receipt_json.
     rbind (lift_authority (canonical_text E (transition_index_payload r))) (\<lambda>index_json.
       Inr [record_json, receipt_json, index_json])))"

text \<open>
  \<open>_authority_head_guard\<close>: calls 0 and 1 read the head, calls 2 to 7 the proof of its operation.
\<close>

definition authority_head_guard :: "externals \<Rightarrow> string \<Rightarrow> aggregate_identity \<Rightarrow> bool \<Rightarrow> (nat \<Rightarrow> redis_view option)
    \<Rightarrow> commit_error + string list \<times> string list" where
  "authority_head_guard E namespace i allow_absent V =
     rbind (lift_store (get_aggregate_snapshot namespace i (V 0) (V 1))) (\<lambda>snapshot.
       case snapshot of
         None \<Rightarrow>
           (if allow_absent
            then rbind (lift_store (make_keyspace (identity_sha256 i) namespace)) (\<lambda>ks. Inr (take 6 (commit_keys ks), []))
            else Inl (Inr (CorruptionError ''parent canonical RUN head is missing'')))
       | Some snap \<Rightarrow>
           rbind (lift_store (load_receipt_probe E namespace i (snap_operation_id snap) (\<lambda>k. V (2 + k)))) (\<lambda>probe.
             case probe of
               Some p \<Rightarrow>
                 (case probe_store_record p of
                    None \<Rightarrow> Inl (Inr (CorruptionError ''parent canonical RUN proof is missing''))
                  | Some r \<Rightarrow>
                      rbind (lift_store (make_keyspace (identity_sha256 i) namespace)) (\<lambda>ks.
                      rbind (proof_texts E r (probe_receipt p)) (\<lambda>texts.
                        Inr (take 6 (commit_keys ks),
                          [identity_sha256 i, snap_operation_id snap, snap_operation_digest snap,
                           snap_transition_id snap, dec_int (snap_revision snap),
                           snap_command_hash snap, snap_record_hash snap] @ texts @
                          [(case snap_state snap of None \<Rightarrow> [] | Some s \<Rightarrow> s),
                           (if snap_state snap = None then ''1'' else ''0''),
                           snap_projection_intents_json snap, dec_int (snap_updated_at_ms snap)]))))
             | None \<Rightarrow> Inl (Inr (CorruptionError ''parent canonical RUN proof is missing''))))"

definition parent_run_guard :: "externals \<Rightarrow> string \<Rightarrow> string \<Rightarrow> bool \<Rightarrow> (nat \<Rightarrow> redis_view option)
    \<Rightarrow> commit_error + string list \<times> string list" where
  "parent_run_guard E namespace run_id allow_absent V =
     rbind (lift_authority (make_identity E RUN (PStr run_id) PNone)) (\<lambda>i.
       authority_head_guard E namespace i allow_absent V)"

definition authority_head_witness :: "externals \<Rightarrow> string \<Rightarrow> ctr \<Rightarrow> operation_receipt
    \<Rightarrow> commit_error + string list \<times> string list" where
  "authority_head_witness E namespace r rc =
     rbind (lift_store (make_keyspace (str_of (rec_identity_sha256 r)) namespace)) (\<lambda>ks.
     rbind (lift_store (operation_digest (str_of (rec_operation_id r)))) (\<lambda>digest.
     rbind (proof_texts E r rc) (\<lambda>texts.
     rbind (lift_authority (canonical_text E (PSeq (map thaw (rec_projection_intents r))))) (\<lambda>intents_json.
       Inr (take 6 (commit_keys ks),
         [str_of (rec_identity_sha256 r), str_of (rec_operation_id r), digest, str_of (rec_transition_id r),
          dec_int (int_of (rec_to_revision r)), str_of (rec_command_hash r), str_of (rec_record_hash r)] @ texts @
         [str_of (rec_next_state r), (if rec_next_state r = PNone then ''1'' else ''0''),
          intents_json, dec_int (int_of (rec_committed_at_ms r))])))))"

text \<open>\<open>json.loads(text)[key]\<close>, with the exceptions of both steps.\<close>

definition json_item :: "string \<Rightarrow> string \<Rightarrow> commit_error + pyval" where
  "json_item text key =
     (case json_loads text of
        Inr (PMap kvs) \<Rightarrow> (case dict_get kvs key of Some v \<Rightarrow> Inr v | None \<Rightarrow> Inl (Inr (StoreValueError key)))
      | Inr _ \<Rightarrow> Inl (Inr (StoreTypeError key))
      | Inl _ \<Rightarrow> Inl (Inr (StoreValueError key)))"

text \<open>
  \<open>_task_admit_parent_guard\<close>: calls 0 to 7 are the guard of the run, calls 8 to 13 the probe of its
  creation, which is skipped when the creation is still the head.
\<close>

definition task_admit_parent_guard :: "externals \<Rightarrow> string \<Rightarrow> string \<Rightarrow> (nat \<Rightarrow> redis_view option)
    \<Rightarrow> commit_error + string list \<times> string list \<times> string list" where
  "task_admit_parent_guard E namespace run_id V =
     rbind (parent_run_guard E namespace run_id True V) (\<lambda>(keys, guard).
       if guard = [] then Inr (keys, guard, [])
       else rbind (json_item (guard ! 7) ''operation_type'') (\<lambda>op.
         if op = PStr (operation_value RUN_CREATE) then Inr (keys, guard, [guard ! 2, guard ! 7, guard ! 8, guard ! 9])
         else rbind (lift_authority (make_identity E RUN (PStr run_id) PNone)) (\<lambda>i.
           rbind (lift_store (load_receipt_probe E namespace i (''run-create:v1:'' @ identity_sha256 i) (\<lambda>k. V (8 + k)))) (\<lambda>probe.
             case probe of
               Some p \<Rightarrow>
                 (case probe_store_record p of
                    None \<Rightarrow> Inl (Inr (CorruptionError ''parent canonical RUN_CREATE proof is missing''))
                  | Some r \<Rightarrow>
                      rbind (lift_store (operation_digest (str_of (rec_operation_id r)))) (\<lambda>digest.
                      rbind (proof_texts E r (probe_receipt p)) (\<lambda>texts. Inr (keys, guard, digest # texts))))
             | None \<Rightarrow> Inl (Inr (CorruptionError ''parent canonical RUN_CREATE proof is missing''))))))"

text \<open>\<open>str.strip\<close> on UTF-8 text: the code points for which \<open>str.isspace\<close> holds.\<close>

definition is_space_char :: "string \<Rightarrow> bool" where
  "is_space_char c \<longleftrightarrow>
     (let b = map (of_char :: char \<Rightarrow> nat) c in
        (length b = 1 \<and> (hd b \<in> {9, 10, 11, 12, 13, 28, 29, 30, 31, 32}))
        \<or> b \<in> {[194, 133], [194, 160], [225, 154, 128], [226, 128, 168], [226, 128, 169], [226, 128, 175],
               [226, 129, 159], [227, 128, 128]}
        \<or> (length b = 3 \<and> b ! 0 = 226 \<and> b ! 1 = 128 \<and> 128 \<le> b ! 2 \<and> b ! 2 \<le> 138))"

definition py_strip :: "string \<Rightarrow> string" where
  "py_strip s = concat (rev (dropWhile is_space_char (rev (dropWhile is_space_char (utf8_chars s)))))"

text \<open>
  \<open>run_terminate_task_guard\<close>: calls 0 to 13 resolve the creation of the run, calls 14 to 21 are the
  guard of its root task.
\<close>

definition root_task_of :: "string \<Rightarrow> string \<Rightarrow> commit_error + string" where
  "root_task_of run_id creation_json =
     rbind (json_item creation_json ''authoritative_metadata_changes'') (\<lambda>meta.
       case meta of
         PMap kvs \<Rightarrow>
           rbind (json_item creation_json ''operation_type'') (\<lambda>op.
             if op \<noteq> PStr (operation_value RUN_CREATE)
             then Inl (Inr (CorruptionError ''canonical RUN_CREATE root binding is invalid''))
             else rbind (json_item creation_json ''canonical_aggregate_identity'') (\<lambda>ident.
               case ident of
                 PMap s \<Rightarrow>
                   (case dict_get s ''run_id'' of
                      None \<Rightarrow> Inl (Inr (StoreValueError ''run_id''))
                    | Some run \<Rightarrow>
                        (case (run = PStr run_id, dict_get kvs ''root_task_id'') of
                           (True, Some (PStr root)) \<Rightarrow>
                             (if py_strip root = [] \<or> root \<noteq> py_strip root
                              then Inl (Inr (CorruptionError ''canonical RUN_CREATE root binding is invalid''))
                              else Inr root)
                         | _ \<Rightarrow> Inl (Inr (CorruptionError ''canonical RUN_CREATE root binding is invalid''))))
               | _ \<Rightarrow> Inl (Inr (StoreTypeError ''canonical_aggregate_identity''))))
       | _ \<Rightarrow> Inl (Inr (StoreTypeError ''authoritative_metadata_changes'')))"

definition run_terminate_task_guard :: "externals \<Rightarrow> string \<Rightarrow> string \<Rightarrow> (nat \<Rightarrow> redis_view option)
    \<Rightarrow> commit_error + string list \<times> string list \<times> string list" where
  "run_terminate_task_guard E namespace run_id V =
     rbind (task_admit_parent_guard E namespace run_id V) (\<lambda>(_, run_guard, creation).
       if run_guard = [] \<or> creation = [] then Inl (Inr (CorruptionError ''canonical RUN_CREATE root binding is missing''))
       else rbind (root_task_of run_id (creation ! 1)) (\<lambda>root.
         rbind (lift_authority (make_identity E TASK (PStr run_id) (PStr root))) (\<lambda>i.
         rbind (authority_head_guard E namespace i False (\<lambda>k. V (14 + k))) (\<lambda>(keys, guard).
           Inr (keys, guard, creation)))))"

section \<open>Commit\<close>

text \<open>
  One round of the loop of \<open>_commit_impl\<close>: the views of the two prevalidations and of the guard, and
  the script run.
\<close>

record attempt =
  at_operation :: "nat \<Rightarrow> redis_view option"
  at_head :: "nat \<Rightarrow> redis_view option"
  at_parent :: "nat \<Rightarrow> redis_view option"
  at_script :: "string list \<Rightarrow> string list \<Rightarrow> store_error + script_reply"

fun prevalidation_value :: "prevalidation_status \<Rightarrow> string" where
  "prevalidation_value PV_ABSENT = ''ABSENT''"
| "prevalidation_value PV_VALID = ''VALID''"
| "prevalidation_value PV_INVALID = ''INVALID''"

definition prevalidation_args :: "prevalidation \<Rightarrow> string list" where
  "prevalidation_args pv = [prevalidation_value (pv_status pv), pv_record_sha1 pv, pv_receipt_sha1 pv, pv_index_sha1 pv]"

definition flag :: "bool \<Rightarrow> string" where
  "flag b = (if b then ''1'' else ''0'')"

definition is_operation :: "ctr \<Rightarrow> operation_type \<Rightarrow> bool" where
  "is_operation r op \<longleftrightarrow> rec_operation_type r = PStr (operation_value op)"

definition parent_guard :: "externals \<Rightarrow> string \<Rightarrow> ctr \<Rightarrow> prevalidation \<Rightarrow> (nat \<Rightarrow> redis_view option)
    \<Rightarrow> commit_error + string list \<times> string list \<times> string list" where
  "parent_guard E namespace r pv V =
     (let run_id = id_run_id (rec_identity r) in
      if is_operation r TASK_ADMIT
        then (if pv_status pv = PV_ABSENT then task_admit_parent_guard E namespace run_id V else Inr ([], [], []))
      else if is_operation r RUN_TERMINATE
        then (if pv_status pv = PV_ABSENT then run_terminate_task_guard E namespace run_id V else Inr ([], [], []))
      else if is_operation r TASK_COMPLETE \<or> is_operation r TASK_FAIL
        then rbind (parent_run_guard E namespace run_id False V) (\<lambda>(keys, guard). Inr (keys, guard, []))
      else Inr ([], [], []))"

definition commit_args :: "externals \<Rightarrow> ctr \<Rightarrow> operation_receipt \<Rightarrow> bool \<Rightarrow> bool \<Rightarrow> prevalidation \<Rightarrow> prevalidation
    \<Rightarrow> string list \<Rightarrow> string list \<Rightarrow> commit_error + string list" where
  "commit_args E r rc root_binding owner_binding op_pv head_pv parent_args root_proof =
     rbind (lift_store (operation_digest (str_of (rec_operation_id r)))) (\<lambda>digest.
     rbind (lift_authority (canonical_text E (transition_index_payload r))) (\<lambda>index_json.
     rbind (lift_authority (rbind (record_payload E r) (canonical_text E))) (\<lambda>record_json.
     rbind (lift_authority (canonical_text E (receipt_payload rc))) (\<lambda>receipt_json.
     rbind (lift_authority (canonical_text E (PSeq (map thaw (rec_projection_intents r))))) (\<lambda>intents_json.
     rbind (lift_authority (canonical_text E (PSeq (map PStr parent_args)))) (\<lambda>parent_json.
     rbind (lift_authority (canonical_text E (PSeq (map PStr root_proof)))) (\<lambda>root_json.
       Inr ([str_of (rec_identity_sha256 r), dec_int (int_of (rec_from_revision r)), dec_int (int_of (rec_to_revision r)),
             flag (rec_previous_state r = PNone), str_of (rec_previous_state r),
             flag (rec_next_state r = PNone), str_of (rec_next_state r),
             str_of (rec_transition_id r), str_of (rec_record_hash r), str_of (rec_command_hash r),
             str_of (rec_operation_id r), digest, str_of (rec_operation_type r), dec_int (int_of (rec_committed_at_ms r)),
             index_json, record_json, receipt_json, intents_json,
             flag (is_operation r TASK_ADMIT \<or> is_operation r RUN_CREATE)]
            @ prevalidation_args op_pv @ prevalidation_args head_pv
            @ [parent_json, flag root_binding, root_json, flag owner_binding]))))))))"

definition commit_attempt :: "externals \<Rightarrow> string \<Rightarrow> keyspace \<Rightarrow> ctr \<Rightarrow> operation_receipt \<Rightarrow> bool \<Rightarrow> bool \<Rightarrow> attempt
    \<Rightarrow> commit_error + commit_result" where
  "commit_attempt E namespace ks r rc root_binding owner_binding a =
     rbind (lift_store (prevalidate_operation_proof E ks (str_of (rec_operation_id r)) (at_operation a))) (\<lambda>op_pv.
     rbind (lift_store (prevalidate_head_proof E ks (at_head a))) (\<lambda>head_pv.
     rbind (parent_guard E namespace r op_pv (at_parent a)) (\<lambda>(parent_keys, parent_args, root_proof).
     rbind (commit_args E r rc root_binding owner_binding op_pv head_pv parent_args root_proof) (\<lambda>args.
       let owner_keys = (if is_operation r TASK_ADMIT then [task_owners_key namespace, task_owner_header_key namespace] else [])
       in rbind (lift_store (at_script a (commit_keys ks @ parent_keys @ owner_keys) args)) (\<lambda>raw.
          lift_store (parse_commit_result raw))))))"

fun commit_attempts :: "(attempt \<Rightarrow> commit_error + commit_result) \<Rightarrow> attempt list \<Rightarrow> commit_error + commit_result" where
  "commit_attempts run [] =
     Inl (Inr (PersistenceError ''stored authority proof changed repeatedly during canonical commit''))"
| "commit_attempts run (a # as) =
     rbind (run a) (\<lambda>result.
       if cr_status result \<noteq> CS_PREVALIDATION_RETRY_REQUIRED then Inr result else commit_attempts run as)"

definition commit_impl :: "externals \<Rightarrow> string \<Rightarrow> commit_plan \<Rightarrow> bool \<Rightarrow> bool \<Rightarrow> (nat \<Rightarrow> attempt)
    \<Rightarrow> commit_error + commit_result" where
  "commit_impl E namespace plan root_binding owner_binding A =
     rbind (validate_plan E plan) (\<lambda>_.
     rbind (lift_store (make_keyspace (str_of (rec_identity_sha256 (plan_record plan))) namespace)) (\<lambda>ks.
       commit_attempts (commit_attempt E namespace ks (plan_record plan) (plan_receipt plan) root_binding owner_binding)
         (map A [0..<3])))"

definition commit :: "externals \<Rightarrow> string \<Rightarrow> commit_plan \<Rightarrow> bool \<Rightarrow> bool \<Rightarrow> (nat \<Rightarrow> attempt)
    \<Rightarrow> store_error + commit_result" where
  "commit E namespace plan root_binding owner_binding A =
     (case commit_impl E namespace plan root_binding owner_binding A of
        Inr res \<Rightarrow> Inr res
      | Inl (Inr e) \<Rightarrow> Inl (if is_persistence_error e then e else PersistenceError ''canonical authority commit failed'')
      | Inl (Inl _) \<Rightarrow> Inl (PersistenceError ''canonical authority commit failed''))"

section \<open>Validation of a head\<close>

text \<open>The server as a script sees it: values by key, and the entries of the streams in order.\<close>

record server =
  srv_view :: redis_view
  srv_streams :: "string \<Rightarrow> (string \<times> string) list list"

type_synonym json_decoder = "string \<Rightarrow> (string \<times> pyval) list option"

definition cjson_decodes :: "json_decoder \<Rightarrow> envelope_encoder \<Rightarrow> bool" where
  "cjson_decodes D W \<longleftrightarrow>
     (\<forall>p d. is_ascii p \<longrightarrow> is_ascii d \<longrightarrow>
        (\<exists>env. D (W p d) = Some env \<and> map_of env ''payload'' = Some (PStr p) \<and> map_of env ''storage_sha1'' = Some (PStr d)))
     \<and> (\<forall>b j kvs. json_plain j \<longrightarrow> json_depth j < 1000 \<longrightarrow> sort_json j = JObj kvs \<longrightarrow>
        json_loads b = Inr (py_of_json (sort_json j)) \<longrightarrow> D b = Some (map (\<lambda>kv. (fst kv, py_of_json (snd kv))) kvs))"

definition lua_type :: "server \<Rightarrow> string \<Rightarrow> string" where
  "lua_type srv key =
     (case srv_view srv key of None \<Rightarrow> ''none'' | Some (RHash _) \<Rightarrow> ''hash'' | Some (ROther k) \<Rightarrow> redis_kind_name k)"

definition lua_hash :: "server \<Rightarrow> string \<Rightarrow> (string \<times> string) list" where
  "lua_hash srv key = (case srv_view srv key of Some (RHash h) \<Rightarrow> h | _ \<Rightarrow> [])"

definition decode_envelope :: "json_decoder \<Rightarrow> string option \<Rightarrow> ((string \<times> pyval) list \<times> string) option" where
  "decode_envelope D raw =
     (case raw of
        None \<Rightarrow> None
      | Some text \<Rightarrow>
          (case D text of
             None \<Rightarrow> None
           | Some env \<Rightarrow>
               (case (map_of env ''payload'', map_of env ''storage_sha1'') of
                  (Some (PStr payload), Some (PStr digest)) \<Rightarrow>
                    (if sha1_hexdigest payload \<noteq> digest then None
                     else map_option (\<lambda>value. (value, payload)) (D payload))
                | _ \<Rightarrow> None)))"

definition stream_tail :: "server \<Rightarrow> string \<Rightarrow> (string \<times> string) list option" where
  "stream_tail srv key = (if srv_streams srv key = [] then None else Some (rev (last (srv_streams srv key))))"

definition proof_agrees :: "(string \<times> pyval) list \<Rightarrow> (string \<times> pyval) list \<Rightarrow> (string \<times> pyval) list
    \<Rightarrow> string \<Rightarrow> string \<Rightarrow> int \<Rightarrow> string \<Rightarrow> string \<Rightarrow> pyval \<Rightarrow> bool" where
  "proof_agrees rec rcpt idx operation_id tid revision rh ch state \<longleftrightarrow>
     map_of rec ''operation_id'' = Some (PStr operation_id) \<and> map_of rcpt ''operation_id'' = Some (PStr operation_id)
     \<and> map_of rec ''transition_id'' = Some (PStr tid) \<and> map_of rcpt ''transition_id'' = Some (PStr tid)
     \<and> map_of idx ''transition_id'' = Some (PStr tid) \<and> map_of rec ''to_revision'' = Some (PInt revision)
     \<and> map_of rcpt ''aggregate_revision'' = Some (PInt revision) \<and> map_of idx ''aggregate_revision'' = Some (PInt revision)
     \<and> map_of rec ''canonical_record_hash'' = Some (PStr rh)
     \<and> map_of rcpt ''canonical_record_hash'' = Some (PStr rh)
     \<and> map_of idx ''canonical_record_hash'' = Some (PStr rh)
     \<and> map_of rec ''canonical_command_hash'' = Some (PStr ch)
     \<and> map_of rcpt ''canonical_command_hash'' = Some (PStr ch)
     \<and> map_of rec ''next_state'' = Some state"

definition has_fields :: "(string \<times> string) list \<Rightarrow> (string \<times> string) list \<Rightarrow> bool" where
  "has_fields tail expected \<longleftrightarrow> list_all (\<lambda>(k, v). map_of tail k = Some v) expected"

definition streams_check :: "server \<Rightarrow> string list \<Rightarrow> string list \<Rightarrow> int \<Rightarrow> string \<Rightarrow> string \<Rightarrow> string \<times> string" where
  "streams_check srv keys argv n rec_text rcpt_text =
     (case stream_tail srv (keys ! 4) of
        None \<Rightarrow> (''INVALID'', ''transition_log_tail_mismatch'')
      | Some log_tail \<Rightarrow>
          (if \<not> has_fields log_tail
                [(''aggregate_revision'', lua_tostring n), (''transition_id'', argv ! 3),
                 (''canonical_record_hash'', argv ! 6), (''canonical_command_hash'', argv ! 5),
                 (''operation_id'', argv ! 1), (''operation_digest'', argv ! 2),
                 (''record_json'', rec_text), (''receipt_json'', rcpt_text)]
           then (''INVALID'', ''transition_log_tail_mismatch'')
           else (case stream_tail srv (keys ! 5) of
              None \<Rightarrow> (''INVALID'', ''outbox_tail_mismatch'')
            | Some outbox_tail \<Rightarrow>
                (if \<not> has_fields outbox_tail
                      [(''aggregate_revision'', lua_tostring n), (''transition_id'', argv ! 3),
                       (''canonical_record_hash'', argv ! 6), (''operation_id'', argv ! 1),
                       (''operation_digest'', argv ! 2), (''projection_intents_json'', argv ! 12)]
                 then (''INVALID'', ''outbox_tail_mismatch'')
                 else if map (\<lambda>k. int (length (lua_hash srv (keys ! k)))) [1, 2, 3] \<noteq> [n, n, n]
                      \<or> map (\<lambda>k. int (length (srv_streams srv (keys ! k)))) [4, 5] \<noteq> [n, n]
                 then (''INVALID'', ''historical_cardinality_mismatch'')
                 else (''VALID'', [])))))"

definition head_check :: "server \<Rightarrow> string list \<Rightarrow> string list \<Rightarrow> string + int" where
  "head_check srv keys argv =
     (let head = lua_hash srv (keys ! 0) in
      if map (\<lambda>k. lua_type srv (keys ! k)) [0, 1, 2, 3, 4, 5] \<noteq> [''hash'', ''hash'', ''hash'', ''hash'', ''stream'', ''stream'']
        then Inl ''authority_head_key_type_mismatch''
      else if length head \<noteq> 11 then Inl ''aggregate_snapshot_field_count_mismatch''
      else if \<not> fst ` set head \<subseteq> snapshot_fields then Inl ''aggregate_snapshot_field_set_mismatch''
      else (case map_of head ''revision'' of
          None \<Rightarrow> Inl ''aggregate_snapshot_incomplete_or_mismatch''
        | Some text \<Rightarrow>
            (case lua_tonumber text of
               None \<Rightarrow> Inl ''aggregate_snapshot_incomplete_or_mismatch''
             | Some n \<Rightarrow>
                 (if n < 1 \<or> lua_tonumber (argv ! 4) \<noteq> Some n
                     \<or> \<not> has_fields head
                         [(''canonical_aggregate_identity_sha256'', argv ! 0), (''operation_id'', argv ! 1),
                          (''operation_digest'', argv ! 2), (''transition_id'', argv ! 3),
                          (''canonical_command_hash'', argv ! 5), (''canonical_record_hash'', argv ! 6),
                          (''state'', argv ! 10), (''state_is_null'', argv ! 11),
                          (''projection_intents_json'', argv ! 12), (''updated_at_ms'', argv ! 13)]
                  then Inl ''aggregate_snapshot_incomplete_or_mismatch''
                  else Inr n))))"

definition authority_head_validate :: "json_decoder \<Rightarrow> server \<Rightarrow> string list \<Rightarrow> string list \<Rightarrow> string \<times> string" where
  "authority_head_validate D srv keys argv =
     (case head_check srv keys argv of
        Inl detail \<Rightarrow> (''INVALID'', detail)
      | Inr n \<Rightarrow>
          (case (decode_envelope D (map_of (lua_hash srv (keys ! 3)) (argv ! 2)),
                 decode_envelope D (map_of (lua_hash srv (keys ! 2)) (argv ! 2)),
                 decode_envelope D (map_of (lua_hash srv (keys ! 1)) (argv ! 3))) of
             (Some (rec, rec_text), Some (rcpt, rcpt_text), Some (idx, idx_text)) \<Rightarrow>
               (if rec_text \<noteq> argv ! 7 \<or> rcpt_text \<noteq> argv ! 8 \<or> idx_text \<noteq> argv ! 9
                then (''INVALID'', ''authority_head_exact_payload_mismatch'')
                else if \<not> proof_agrees rec rcpt idx (argv ! 1) (argv ! 3) n (argv ! 6) (argv ! 5)
                         (if argv ! 11 = ''1'' then PNone else PStr (argv ! 10))
                then (''INVALID'', ''authority_head_proof_mismatch'')
                else streams_check srv keys argv n rec_text rcpt_text)
           | _ \<Rightarrow> (''INVALID'', ''authority_head_proof_missing_or_invalid'')))"

text \<open>
  \<open>validate_authority_head\<close>: the script sees \<open>srv\<close> (\<open>None\<close> when the call fails), then the head is read
  again with the views \<open>v0\<close> and \<open>v1\<close>.
\<close>

record head_expectation =
  he_operation_id :: string
  he_operation_digest :: string
  he_transition_id :: string
  he_revision :: int
  he_command_hash :: string
  he_record_hash :: string
  he_record :: ctr
  he_receipt :: operation_receipt
  he_state :: "string option"
  he_projection_intents_json :: string
  he_updated_at_ms :: int

definition head_validate_args :: "externals \<Rightarrow> aggregate_identity \<Rightarrow> head_expectation \<Rightarrow> commit_error + string list" where
  "head_validate_args E i x =
     rbind (lift_store (nonempty_text ''expected_operation_id'' (he_operation_id x))) (\<lambda>_.
     rbind (lift_store (sha256_text ''expected_operation_digest'' (he_operation_digest x))) (\<lambda>_.
     rbind (lift_store (operation_digest (he_operation_id x))) (\<lambda>digest.
     rbind (rguard (he_operation_digest x = digest) (Inr (StoreValueError ''expected_operation_digest''))) (\<lambda>_.
     rbind (lift_store (nonempty_text ''expected_transition_id'' (he_transition_id x))) (\<lambda>_.
     rbind (lift_store (safe_int_value ''expected_revision'' 1 (he_revision x))) (\<lambda>_.
     rbind (lift_store (sha256_text ''expected_canonical_command_hash'' (he_command_hash x))) (\<lambda>_.
     rbind (lift_store (sha256_text ''expected_canonical_record_hash'' (he_record_hash x))) (\<lambda>_.
     rbind (lift_store (safe_int_value ''expected_updated_at_ms'' 0 (he_updated_at_ms x))) (\<lambda>_.
     rbind (proof_texts E (he_record x) (he_receipt x)) (\<lambda>texts.
     rbind (case he_state x of None \<Rightarrow> Inr [] | Some s \<Rightarrow> lift_store (nonempty_text ''expected_state'' s)) (\<lambda>state_text.
       Inr ([identity_sha256 i, he_operation_id x, he_operation_digest x, he_transition_id x, dec_int (he_revision x),
             he_command_hash x, he_record_hash x] @ texts @
            [state_text, flag (he_state x = None), he_projection_intents_json x, dec_int (he_updated_at_ms x)]))))))))))))"

definition validate_authority_head :: "externals \<Rightarrow> json_decoder \<Rightarrow> string \<Rightarrow> aggregate_identity \<Rightarrow> head_expectation
    \<Rightarrow> server option \<Rightarrow> redis_view option \<Rightarrow> redis_view option \<Rightarrow> commit_error + aggregate_snapshot" where
  "validate_authority_head E D namespace i x srv v0 v1 =
     rbind (head_validate_args E i x) (\<lambda>args.
     rbind (lift_store (make_keyspace (identity_sha256 i) namespace)) (\<lambda>ks.
       case srv of
         None \<Rightarrow> Inl (Inr (PersistenceError ''authority head validation execution failed''))
       | Some s \<Rightarrow>
           (case authority_head_validate D s (take 6 (commit_keys ks)) args of (status, detail) \<Rightarrow>
              if status \<noteq> ''VALID''
              then Inl (Inr (CorruptionError (if detail = [] then ''authority head validation failed'' else detail)))
              else rbind (lift_store (get_aggregate_snapshot namespace i v0 v1)) (\<lambda>snapshot.
                case snapshot of
                  None \<Rightarrow> Inl (Inr (CorruptionError ''authority head disappeared after validation''))
                | Some snap \<Rightarrow> Inr snap))))"

section \<open>The streams an accepted commit appends to\<close>

record stored_streams =
  ss_log :: "(string \<times> string) list list"
  ss_outbox :: "(string \<times> string) list list"

definition log_entry :: "ctr \<Rightarrow> string \<Rightarrow> string \<Rightarrow> (string \<times> string) list" where
  "log_entry r record_text0 receipt_text0 =
     [(''aggregate_revision'', lua_tostring (int_of (rec_to_revision r))),
      (''transition_id'', str_of (rec_transition_id r)),
      (''canonical_record_hash'', str_of (rec_record_hash r)),
      (''canonical_command_hash'', str_of (rec_command_hash r)),
      (''operation_id'', str_of (rec_operation_id r)),
      (''operation_digest'', op_digest r),
      (''operation_type'', str_of (rec_operation_type r)),
      (''committed_at_ms'', dec_int (int_of (rec_committed_at_ms r))),
      (''record_json'', record_text0), (''receipt_json'', receipt_text0)]"

definition outbox_entry :: "ctr \<Rightarrow> string \<Rightarrow> (string \<times> string) list" where
  "outbox_entry r intents_json =
     [(''aggregate_revision'', lua_tostring (int_of (rec_to_revision r))),
      (''transition_id'', str_of (rec_transition_id r)),
      (''canonical_record_hash'', str_of (rec_record_hash r)),
      (''operation_id'', str_of (rec_operation_id r)),
      (''operation_digest'', op_digest r),
      (''projection_intents_json'', intents_json),
      (''committed_at_ms'', dec_int (int_of (rec_committed_at_ms r)))]"

definition commit_appends :: "externals \<Rightarrow> ctr \<Rightarrow> operation_receipt \<Rightarrow> stored_streams \<Rightarrow> authority_error + stored_streams" where
  "commit_appends E r rc ss =
     rbind (rbind (record_payload E r) (canonical_text E)) (\<lambda>record_json.
     rbind (canonical_text E (receipt_payload rc)) (\<lambda>receipt_json.
     rbind (canonical_text E (PSeq (map thaw (rec_projection_intents r)))) (\<lambda>intents_json.
       Inr \<lparr>ss_log = ss_log ss @ [log_entry r record_json receipt_json],
            ss_outbox = ss_outbox ss @ [outbox_entry r intents_json]\<rparr>)))"

fun store_streams :: "externals \<Rightarrow> stored_streams \<Rightarrow> ctr list \<Rightarrow> authority_error + stored_streams" where
  "store_streams E ss [] = Inr ss"
| "store_streams E ss (r # rs) = rbind (commit_appends E r (new_receipt r) ss) (\<lambda>ss'. store_streams E ss' rs)"

definition empty_streams :: stored_streams where
  "empty_streams = \<lparr>ss_log = [], ss_outbox = []\<rparr>"

definition server_of :: "keyspace \<Rightarrow> stored_aggregate \<Rightarrow> stored_streams \<Rightarrow> server" where
  "server_of ks st ss =
     \<lparr>srv_view = (\<lambda>key.
        if key = transition_log_key ks then (if ss_log ss = [] then None else Some (ROther KStream))
        else if key = outbox_key ks then (if ss_outbox ss = [] then None else Some (ROther KStream))
        else view_of ks st key),
      srv_streams = (\<lambda>key.
        if key = transition_log_key ks then ss_log ss else if key = outbox_key ks then ss_outbox ss else [])\<rparr>"

end
