(* ===== verification/AuthorityHead.thy ===== *)
theory AuthorityHead
  imports AuthorityCommit
begin

text \<open>
  What the commits of an aggregate leave behind, and how the write side of the store uses it. The
  server after the commits of a journal is \<open>server_of\<close>: the four hashes of theory AuthorityRoundTrip
  and the two streams. The lemmas compute what the validation script, the guards and the receipt
  probe read there; the properties: the validator accepts exactly the newest record's witness, a guard
  read from the server is that witness, a stored operation is never planned again, and \<open>commit\<close>
  reports what the script answered.
\<close>

section \<open>Texts and witnesses of stored records\<close>

definition record_text :: "externals \<Rightarrow> ctr \<Rightarrow> string" where
  "record_text E r = text_or_empty (rbind (record_payload E r) (canonical_text E))"

definition receipt_text :: "externals \<Rightarrow> ctr \<Rightarrow> string" where
  "receipt_text E r = text_or_empty (canonical_text E (receipt_payload (new_receipt r)))"

definition index_text :: "externals \<Rightarrow> ctr \<Rightarrow> string" where
  "index_text E r = text_or_empty (canonical_text E (transition_index_payload r))"

lemma entry_texts:
  "record_entry E W r = storage_envelope W (record_text E r)"
  "receipt_entry E W r = storage_envelope W (receipt_text E r)"
  "index_entry E W r = storage_envelope W (index_text E r)"
  by (simp_all add: record_entry_def record_text_def receipt_entry_def receipt_text_def index_entry_def index_text_def)

lemma written_texts:
  assumes "nfc_laws E" and "jcs_reads E" and "cjson_reads W" and "writable E r"
  shows "rbind (record_payload E r) (canonical_text E) = Inr (record_text E r)"
    "canonical_text E (receipt_payload (new_receipt r)) = Inr (receipt_text E r)"
    "canonical_text E (transition_index_payload r) = Inr (index_text E r)"
    "canonical_text E (PSeq (map thaw (rec_projection_intents r))) = Inr (intents_text E r)"
proof -
  obtain rj cj ij pj where "texts_of E r rj cj ij pj" by (rule commit_texts [OF assms])
  then show "rbind (record_payload E r) (canonical_text E) = Inr (record_text E r)"
    "canonical_text E (receipt_payload (new_receipt r)) = Inr (receipt_text E r)"
    "canonical_text E (transition_index_payload r) = Inr (index_text E r)"
    "canonical_text E (PSeq (map thaw (rec_projection_intents r))) = Inr (intents_text E r)"
    by (simp_all only: texts_of_def record_text_def receipt_text_def index_text_def intents_text_def text_or_empty_def sum.case)
qed

definition head_argv :: "externals \<Rightarrow> ctr \<Rightarrow> string list" where
  "head_argv E r =
     [str_of (rec_identity_sha256 r), str_of (rec_operation_id r), op_digest r, tid_of r,
      dec_int (int_of (rec_to_revision r)), str_of (rec_command_hash r), str_of (rec_record_hash r),
      record_text E r, receipt_text E r, index_text E r,
      str_of (rec_next_state r), (if rec_next_state r = PNone then ''1'' else ''0''),
      intents_text E r, dec_int (int_of (rec_committed_at_ms r))]"

lemma lift_simps [simp]:
  "lift_store (Inr x) = Inr x" "lift_authority (Inr x) = Inr x"
  "lift_store (Inl e) = Inl (Inr e)" "lift_authority (Inl f) = Inl (Inl f)"
  by (simp_all add: lift_store_def lift_authority_def)

lemma lift_iffs [result_simps]:
  "lift_store m = Inr x \<longleftrightarrow> m = Inr x" "lift_authority n = Inr x \<longleftrightarrow> n = Inr x"
  by (cases m; simp) (cases n; simp)

lemma proof_texts_written:
  assumes "nfc_laws E" and "jcs_reads E" and "cjson_reads W" and "writable E r"
  shows "proof_texts E r (new_receipt r) = Inr [record_text E r, receipt_text E r, index_text E r]"
  by (simp add: proof_texts_def written_texts [OF assms])

lemma head_witness_written:
  assumes "nfc_laws E" and "jcs_reads E" and "cjson_reads W" and "writable E r"
    and "make_keyspace (identity_sha256 (rec_identity r)) ns = Inr ks"
  shows "authority_head_witness E ns r (new_receipt r) = Inr (take 6 (commit_keys ks), head_argv E r)"
proof -
  have val: "validate_record E r = Inr ()" using assms(4) by (simp add: writable_def)
  then have "rec_identity_sha256 r = PStr (identity_sha256 (rec_identity r))" by (rule validate_record_okD)
  then show ?thesis
    using assms(5) operation_digest_op_digest [OF assms(1) val] written_texts(4) [OF assms(1-4)]
    by (simp add: authority_head_witness_def proof_texts_written [OF assms(1-4)] head_argv_def tid_of_def)
qed

section \<open>Decoding stored entries in the script\<close>

lemma decode_stored:
  assumes "jcs_reads E" and "cjson_decodes D W" and "json_wf E j \<and> json_plain j" and "json_depth j < 1000"
    and "j = JObj kvs" and "canonical_text E (py_of_json j) = Inr b"
  shows "\<exists>fs. decode_envelope D (Some (storage_envelope W b)) = Some (fs, b)
    \<and> (\<forall>key. map_of fs key = dict_get (map_items (py_of_json (sort_json j))) key)"
proof -
  obtain b' where "canonical_text E (py_of_json j) = Inr b'" "is_ascii b'" "json_loads b' = Inr (py_of_json (sort_json j))"
    using canonical_text_reads [OF assms(1,3)] by blast
  then have b: "is_ascii b" "json_loads b = Inr (py_of_json (sort_json j))" using assms(6) by simp_all
  obtain kvs' where kvs': "sort_json j = JObj kvs'" using assms(5) by simp
  let ?fs = "map (\<lambda>kv. (fst kv, py_of_json (snd kv))) kvs'"
  have "D b = Some ?fs" using assms(2-4) b(2) kvs' unfolding cjson_decodes_def by blast
  moreover have "is_ascii (sha1_hexdigest b)"
    using sha1_hexdigest_re [of b] by (simp add: sha1_re_def lower_hex_ascii)
  then obtain env where "D (W b (sha1_hexdigest b)) = Some env" "map_of env ''payload'' = Some (PStr b)"
    "map_of env ''storage_sha1'' = Some (PStr (sha1_hexdigest b))"
    using assms(2) b(1) unfolding cjson_decodes_def by blast
  moreover have "map_of (map (\<lambda>kv. (PStr (fst kv), py_of_json (snd kv))) xs) (PStr key)
      = map_of (map (\<lambda>kv. (fst kv, py_of_json (snd kv))) xs) key" for xs key
    by (induction xs) auto
  ultimately show ?thesis
    by (intro exI [of _ ?fs]) (simp add: decode_envelope_def storage_envelope_def kvs' dict_get_def map_items_def)
qed

lemma json_depth_small: "json_depth (receipt_json_of r) < 1000" "json_depth (index_json_of r) < 1000"
proof -
  have "json_depth (jscalar v) = 0" for v by (simp add: jscalar_def split: pyval.split)
  then show "json_depth (receipt_json_of r) < 1000" "json_depth (index_json_of r) < 1000"
    by (simp_all add: receipt_json_of_def index_json_of_def)
qed

lemma entries_decode:
  assumes laws: "nfc_laws E" "jcs_reads E" "cjson_reads W" "cjson_decodes D W" and st: "writable E r"
    and depth: "json_depth (stored_json r) < 1000"
  obtains rec rcpt idx where
    "decode_envelope D (Some (record_entry E W r)) = Some (rec, record_text E r)"
    "decode_envelope D (Some (receipt_entry E W r)) = Some (rcpt, receipt_text E r)"
    "decode_envelope D (Some (index_entry E W r)) = Some (idx, index_text E r)"
    "proof_agrees rec rcpt idx (str_of (rec_operation_id r)) (tid_of r) (int_of (rec_to_revision r))
       (str_of (rec_record_hash r)) (str_of (rec_command_hash r)) (rec_next_state r)"
proof -
  have val: "validate_record E r = Inr ()" and wf: "json_wf E (stored_json r) \<and> json_plain (stored_json r)"
    using st by (simp_all add: writable_def)
  obtain k1 k2 k3 where k: "stored_json r = JObj k1" "receipt_json_of r = JObj k2" "index_json_of r = JObj k3"
    by (simp add: stored_json_def receipt_json_of_def index_json_of_def)
  note texts = written_texts [OF laws(1-3) st] and plain = receipt_index_plain [OF laws(1) st] and py = receipt_index_py [OF val]
  have "canonical_text E (py_of_json (stored_json r)) = Inr (record_text E r)"
    using texts(1) by (simp add: stored_json_py [OF val])
  from decode_stored [OF laws(2,4) wf depth k(1) this] obtain rec where
    rec: "decode_envelope D (Some (record_entry E W r)) = Some (rec, record_text E r)"
    "\<And>key. map_of rec key = dict_get (map_items (py_of_json (sort_json (stored_json r)))) key"
    by (auto simp: entry_texts)
  from decode_stored [OF laws(2,4) plain(1) json_depth_small(1) k(2)] texts(2) obtain rcpt where
    rcpt: "decode_envelope D (Some (receipt_entry E W r)) = Some (rcpt, receipt_text E r)"
    "\<And>key. map_of rcpt key = dict_get (map_items (py_of_json (sort_json (receipt_json_of r)))) key"
    by (auto simp: entry_texts py)
  from decode_stored [OF laws(2,4) plain(2) json_depth_small(2) k(3)] texts(3) obtain idx where
    idx: "decode_envelope D (Some (index_entry E W r)) = Some (idx, index_text E r)"
    "\<And>key. map_of idx key = dict_get (map_items (py_of_json (sort_json (index_json_of r)))) key"
    by (auto simp: entry_texts py)
  have d: "distinct (map fst k2)" "distinct (map fst k3)" using plain k by simp_all
  note sc = validated_scalars [OF val]
  from validated_head_parts [OF laws(1) val] have "proof_agrees rec rcpt idx (str_of (rec_operation_id r)) (tid_of r)
      (int_of (rec_to_revision r)) (str_of (rec_record_hash r)) (str_of (rec_command_hash r)) (rec_next_state r)"
  proof cases
    case (1 tid oid ch rh ms n)
    have rk: "map_of rec key = Some v" if "(key, v) \<in> {(''operation_id'', rec_operation_id r), (''transition_id'', rec_transition_id r),
        (''to_revision'', rec_to_revision r), (''canonical_record_hash'', rec_record_hash r),
        (''canonical_command_hash'', rec_command_hash r), (''next_state'', rec_next_state r)}" for key v
      unfolding rec(2) stored_field [OF st] using that sc by (elim insertE) (simp_all add: stored_json_def jscalar_py)
    have ck: "map_of rcpt key = Some v" if "(key, v) \<in> {(''operation_id'', rec_operation_id r), (''transition_id'', rec_transition_id r),
        (''aggregate_revision'', rec_to_revision r), (''canonical_record_hash'', rec_record_hash r),
        (''canonical_command_hash'', rec_command_hash r)}" for key v
      unfolding rcpt(2) k(2) dict_get_sorted [OF d(1)]
      using that sc k(2) [symmetric] by (elim insertE) (simp_all add: receipt_json_of_def jscalar_py)
    have ik: "map_of idx key = Some v" if "(key, v) \<in> {(''transition_id'', rec_transition_id r),
        (''aggregate_revision'', rec_to_revision r), (''canonical_record_hash'', rec_record_hash r)}" for key v
      unfolding idx(2) k(3) dict_get_sorted [OF d(2)]
      using that sc k(3) [symmetric] by (elim insertE) (simp_all add: index_json_of_def jscalar_py)
    show ?thesis unfolding proof_agrees_def using 1 by (simp add: rk ck ik tid_of_def)
  qed
  from that [OF rec(1) rcpt(1) idx(1) this] show thesis .
qed

section \<open>The server after a history\<close>

definition streams_of :: "externals \<Rightarrow> ctr list \<Rightarrow> stored_streams" where
  "streams_of E rs =
     \<lparr>ss_log = map (\<lambda>r. log_entry r (record_text E r) (receipt_text E r)) rs,
      ss_outbox = map (\<lambda>r. outbox_entry r (intents_text E r)) rs\<rparr>"

lemma store_streams_append:
  "store_streams E ss (rs @ [r]) = rbind (store_streams E ss rs) (commit_appends E r (new_receipt r))"
  by (induction rs arbitrary: ss) (simp_all add: rbind_def split: sum.splits)

lemma store_streams_shape:
  assumes "nfc_laws E" and "jcs_reads E" and "cjson_reads W" and "list_all (writable E) rs"
  shows "store_streams E empty_streams rs = Inr (streams_of E rs)"
  using assms(4)
proof (induction rs rule: rev_induct)
  case Nil
  then show ?case by (simp add: empty_streams_def streams_of_def)
next
  case (snoc r rs)
  have "writable E r" using snoc.prems by simp
  from written_texts [OF assms(1-3) this] have
    "commit_appends E r (new_receipt r) (streams_of E rs) = Inr (streams_of E (rs @ [r]))"
    by (simp add: commit_appends_def streams_of_def)
  with snoc show ?case by (simp add: store_streams_append)
qed

lemma commit_keys_nth:
  "take 6 (commit_keys ks) ! 0 = aggregate_key ks" "take 6 (commit_keys ks) ! 1 = transition_indexes_key ks"
  "take 6 (commit_keys ks) ! 2 = receipts_key ks" "take 6 (commit_keys ks) ! 3 = operation_records_key ks"
  "take 6 (commit_keys ks) ! 4 = transition_log_key ks" "take 6 (commit_keys ks) ! 5 = outbox_key ks"
  by (simp_all add: commit_keys_def)

lemmas key_defs = aggregate_key_def transition_indexes_key_def receipts_key_def operation_records_key_def
  transition_log_key_def outbox_key_def

lemma server_of_hashes:
  "srv_view (server_of ks st ss) (aggregate_key ks) = hash_value (sa_head st)"
  "srv_view (server_of ks st ss) (transition_indexes_key ks) = hash_value (sa_indexes st)"
  "srv_view (server_of ks st ss) (receipts_key ks) = hash_value (sa_receipts st)"
  "srv_view (server_of ks st ss) (operation_records_key ks) = hash_value (sa_records st)"
  by (simp_all add: server_of_def view_of_keys) (simp_all add: key_defs)

lemma server_of_streams:
  "srv_streams (server_of ks st ss) (transition_log_key ks) = ss_log ss"
  "srv_streams (server_of ks st ss) (outbox_key ks) = ss_outbox ss"
  "ss_log ss \<noteq> [] \<Longrightarrow> srv_view (server_of ks st ss) (transition_log_key ks) = Some (ROther KStream)"
  "ss_outbox ss \<noteq> [] \<Longrightarrow> srv_view (server_of ks st ss) (outbox_key ks) = Some (ROther KStream)"
  by (simp_all add: server_of_def) (simp_all add: key_defs)

lemma hash_of_value: "h \<noteq> [] \<Longrightarrow> srv_view srv k = hash_value h \<Longrightarrow> lua_hash srv k = h \<and> lua_type srv k = ''hash''"
  by (simp add: lua_hash_def lua_type_def hash_value_def)

lemma map_of_stored: "r \<in> set rs \<Longrightarrow> distinct (map f rs) \<Longrightarrow> map_of (map (\<lambda>r. (f r, g r)) rs) (f r) = Some (g r)"
  by (rule map_of_is_SomeI) (auto simp: comp_def)

lemma stored_of_fields:
  "rs \<noteq> [] \<Longrightarrow> sa_head (stored_of E W rs) = head_fields (last rs) (op_digest (last rs)) (intents_text E (last rs))"
  "sa_indexes (stored_of E W rs) = map (\<lambda>r. (tid_of r, index_entry E W r)) rs"
  "sa_receipts (stored_of E W rs) = map (\<lambda>r. (op_digest r, receipt_entry E W r)) rs"
  "sa_records (stored_of E W rs) = map (\<lambda>r. (op_digest r, record_entry E W r)) rs"
  by (simp_all add: stored_of_def head_of_def)

lemma stored_hashes:
  fixes E W ks
  assumes "rs \<noteq> []"
  defines "srv \<equiv> server_of ks (stored_of E W rs) (streams_of E rs)"
  shows "lua_hash srv (aggregate_key ks) = head_fields (last rs) (op_digest (last rs)) (intents_text E (last rs))"
    "lua_hash srv (transition_indexes_key ks) = map (\<lambda>r. (tid_of r, index_entry E W r)) rs"
    "lua_hash srv (receipts_key ks) = map (\<lambda>r. (op_digest r, receipt_entry E W r)) rs"
    "lua_hash srv (operation_records_key ks) = map (\<lambda>r. (op_digest r, record_entry E W r)) rs"
    "lua_type srv (aggregate_key ks) = ''hash''" "lua_type srv (transition_indexes_key ks) = ''hash''"
    "lua_type srv (receipts_key ks) = ''hash''" "lua_type srv (operation_records_key ks) = ''hash''"
    "lua_type srv (transition_log_key ks) = ''stream''" "lua_type srv (outbox_key ks) = ''stream''"
proof -
  note st = stored_of_fields(1) [OF assms(1), where E = E and W = W] stored_of_fields(2-4) [where E = E and W = W and rs = rs]
  have ne: "head_fields (last rs) (op_digest (last rs)) (intents_text E (last rs)) \<noteq> []" by (simp add: head_fields_def)
  note v = server_of_hashes [of ks "stored_of E W rs" "streams_of E rs", folded srv_def, unfolded st]
  show "lua_hash srv (aggregate_key ks) = head_fields (last rs) (op_digest (last rs)) (intents_text E (last rs))"
    "lua_type srv (aggregate_key ks) = ''hash''" using hash_of_value [OF ne v(1)] by simp_all
  show "lua_hash srv (transition_indexes_key ks) = map (\<lambda>r. (tid_of r, index_entry E W r)) rs"
    "lua_type srv (transition_indexes_key ks) = ''hash''" using hash_of_value [OF _ v(2)] assms(1) by simp_all
  show "lua_hash srv (receipts_key ks) = map (\<lambda>r. (op_digest r, receipt_entry E W r)) rs"
    "lua_type srv (receipts_key ks) = ''hash''" using hash_of_value [OF _ v(3)] assms(1) by simp_all
  show "lua_hash srv (operation_records_key ks) = map (\<lambda>r. (op_digest r, record_entry E W r)) rs"
    "lua_type srv (operation_records_key ks) = ''hash''" using hash_of_value [OF _ v(4)] assms(1) by simp_all
  show "lua_type srv (transition_log_key ks) = ''stream''" "lua_type srv (outbox_key ks) = ''stream''"
    using server_of_streams(3,4) [of "streams_of E rs" ks "stored_of E W rs"] assms(1)
    by (simp_all add: srv_def lua_type_def streams_of_def)
qed

lemma head_argv_nth:
  "head_argv E r ! 0 = str_of (rec_identity_sha256 r)" "head_argv E r ! 1 = str_of (rec_operation_id r)"
  "head_argv E r ! 2 = op_digest r" "head_argv E r ! 3 = tid_of r"
  "head_argv E r ! 4 = dec_int (int_of (rec_to_revision r))" "head_argv E r ! 5 = str_of (rec_command_hash r)"
  "head_argv E r ! 6 = str_of (rec_record_hash r)" "head_argv E r ! 7 = record_text E r"
  "head_argv E r ! 8 = receipt_text E r" "head_argv E r ! 9 = index_text E r"
  "head_argv E r ! 10 = str_of (rec_next_state r)"
  "head_argv E r ! 11 = (if rec_next_state r = PNone then ''1'' else ''0'')"
  "head_argv E r ! 12 = intents_text E r" "head_argv E r ! 13 = dec_int (int_of (rec_committed_at_ms r))"
  by (simp_all add: head_argv_def)

lemma head_check_latest:
  assumes "rs \<noteq> []" and "1 \<le> int_of (rec_to_revision (last rs))" and "int_of (rec_to_revision (last rs)) < 10 ^ 14"
  shows "head_check (server_of ks (stored_of E W rs) (streams_of E rs)) (take 6 (commit_keys ks)) (head_argv E (last rs))
    = Inr (int_of (rec_to_revision (last rs)))"
proof -
  let ?h = "head_fields (last rs) (op_digest (last rs)) (intents_text E (last rs))"
  have "length ?h = 11" "fst ` set ?h \<subseteq> snapshot_fields" by (auto simp: head_fields_def snapshot_fields_def)
  moreover have "map_of ?h ''revision'' = Some (lua_tostring (int_of (rec_to_revision (last rs))))" by (simp add: head_fields_def)
  moreover have "has_fields ?h
      [(''canonical_aggregate_identity_sha256'', str_of (rec_identity_sha256 (last rs))), (''operation_id'', str_of (rec_operation_id (last rs))),
       (''operation_digest'', op_digest (last rs)), (''transition_id'', tid_of (last rs)),
       (''canonical_command_hash'', str_of (rec_command_hash (last rs))), (''canonical_record_hash'', str_of (rec_record_hash (last rs))),
       (''state'', str_of (rec_next_state (last rs))), (''state_is_null'', if rec_next_state (last rs) = PNone then ''1'' else ''0''),
       (''projection_intents_json'', intents_text E (last rs)), (''updated_at_ms'', dec_int (int_of (rec_committed_at_ms (last rs))))]"
    by (simp add: has_fields_def head_fields_def tid_of_def)
  ultimately show ?thesis
    using assms(2,3)
    by (simp add: head_check_def Let_def commit_keys_nth [unfolded One_nat_def] head_argv_nth [unfolded One_nat_def] stored_hashes [OF assms(1)] del: take_Cons_numeral take_Cons')
qed

lemma head_check_newer:
  assumes "rs \<noteq> []" and "tid_of r \<noteq> tid_of (last rs)"
  shows "\<exists>detail. head_check (server_of ks (stored_of E W rs) (streams_of E rs)) (take 6 (commit_keys ks)) (head_argv E r) = Inl detail"
proof -
  let ?h = "head_fields (last rs) (op_digest (last rs)) (intents_text E (last rs))"
  have "\<not> has_fields ?h fs" if "(''transition_id'', tid_of r) \<in> set fs" for fs
    using that assms(2) unfolding has_fields_def list_all_iff by (force simp: head_fields_def tid_of_def)
  then show ?thesis
    by (simp add: head_check_def Let_def commit_keys_nth [unfolded One_nat_def] head_argv_nth [unfolded One_nat_def]
        stored_hashes [OF assms(1)] del: take_Cons_numeral take_Cons' split: option.split)
qed

lemma streams_check_latest:
  assumes "rs \<noteq> []" and "int_of (rec_to_revision (last rs)) = int (length rs)"
  shows "streams_check (server_of ks (stored_of E W rs) (streams_of E rs)) (take 6 (commit_keys ks)) (head_argv E (last rs))
    (int_of (rec_to_revision (last rs))) (record_text E (last rs)) (receipt_text E (last rs)) = (''VALID'', [])"
proof -
  let ?srv = "server_of ks (stored_of E W rs) (streams_of E rs)" and ?r = "last rs"
  have tails: "stream_tail ?srv (transition_log_key ks) = Some (rev (log_entry ?r (record_text E ?r) (receipt_text E ?r)))"
    "stream_tail ?srv (outbox_key ks) = Some (rev (outbox_entry ?r (intents_text E ?r)))"
    and lens: "length (srv_streams ?srv (transition_log_key ks)) = length rs" "length (srv_streams ?srv (outbox_key ks)) = length rs"
    using assms(1) by (simp_all add: stream_tail_def server_of_streams streams_of_def last_map)
  have "has_fields (rev (log_entry ?r t u)) [(''aggregate_revision'', lua_tostring (int_of (rec_to_revision ?r))), (''transition_id'', tid_of ?r),
       (''canonical_record_hash'', str_of (rec_record_hash ?r)), (''canonical_command_hash'', str_of (rec_command_hash ?r)),
       (''operation_id'', str_of (rec_operation_id ?r)), (''operation_digest'', op_digest ?r), (''record_json'', t), (''receipt_json'', u)]" for t u
    by (simp add: has_fields_def log_entry_def tid_of_def)
  moreover have "has_fields (rev (outbox_entry ?r t)) [(''aggregate_revision'', lua_tostring (int_of (rec_to_revision ?r))), (''transition_id'', tid_of ?r),
       (''canonical_record_hash'', str_of (rec_record_hash ?r)), (''operation_id'', str_of (rec_operation_id ?r)),
       (''operation_digest'', op_digest ?r), (''projection_intents_json'', t)]" for t
    by (simp add: has_fields_def outbox_entry_def tid_of_def)
  ultimately show ?thesis
    using assms(2) lens
    by (simp add: streams_check_def tails commit_keys_nth [unfolded One_nat_def] head_argv_nth [unfolded One_nat_def]
        stored_hashes [OF assms(1)] del: take_Cons_numeral take_Cons')
qed

lemma in_order_head:
  assumes laws: "nfc_laws E" "jcs_reads E" and w: "writable E r"
  shows "head_argv E (in_order r) = head_argv E r" "log_entry (in_order r) t u = log_entry r t u"
    "outbox_entry (in_order r) t = outbox_entry r t" "record_text E (in_order r) = record_text E r"
    "receipt_text E (in_order r) = receipt_text E r"
  using in_order_texts(4,5) [OF laws w]
  by (simp_all add: head_argv_def record_text_def receipt_text_def index_text_def log_entry_def outbox_entry_def)

lemma streams_in_order:
  assumes laws: "nfc_laws E" "jcs_reads E" and w: "list_all (writable E) rs"
  shows "streams_of E (map in_order rs) = streams_of E rs"
  using in_order_head [OF laws] in_order_texts(4) [OF laws] w by (simp add: streams_of_def list_all_iff)

text \<open>The script accepts the witness of the newest record and no other.\<close>

lemma head_validate_latest:
  assumes laws: "nfc_laws E" "jcs_reads E" "cjson_reads W" "cjson_decodes D W"
    and rs: "list_all (writable E) rs" "chained None 0 rs" "rs \<noteq> []"
    and dist: "distinct (map op_digest rs)" "distinct (map tid_of rs)"
    and small: "length rs < 10 ^ 14" and depth: "json_depth (stored_json (last rs)) < 1000"
  shows "authority_head_validate D (server_of ks (stored_of E W rs) (streams_of E rs)) (take 6 (commit_keys ks))
    (head_argv E (last rs)) = (''VALID'', [])"
proof -
  let ?r = "last rs"
  have mem: "?r \<in> set rs" and st: "writable E ?r" using rs(1,3) by (simp_all add: list_all_iff)
  have val: "validate_record E ?r = Inr ()" using st by (simp add: writable_def)
  have rev: "int_of (rec_to_revision ?r) = int (length rs)" by (rule chained_last_revision [OF rs(2,3)])
  then have rev1: "1 \<le> int_of (rec_to_revision ?r)" "int_of (rec_to_revision ?r) < 10 ^ 14"
    using rs(3) small by (cases rs; simp)+
  obtain rec rcpt idx where dec: "decode_envelope D (Some (record_entry E W ?r)) = Some (rec, record_text E ?r)"
    "decode_envelope D (Some (receipt_entry E W ?r)) = Some (rcpt, receipt_text E ?r)"
    "decode_envelope D (Some (index_entry E W ?r)) = Some (idx, index_text E ?r)"
    "proof_agrees rec rcpt idx (str_of (rec_operation_id ?r)) (tid_of ?r) (int_of (rec_to_revision ?r))
       (str_of (rec_record_hash ?r)) (str_of (rec_command_hash ?r)) (rec_next_state ?r)"
    by (rule entries_decode [OF laws st depth])
  have state: "(if rec_next_state ?r = PNone then PNone else PStr (str_of (rec_next_state ?r))) = rec_next_state ?r"
    by (rule validated_head_parts [OF laws(1) val]) (auto simp: str_of_def)
  show ?thesis
    using dec state
    by (simp add: authority_head_validate_def head_check_latest [OF rs(3) rev1] commit_keys_nth [unfolded One_nat_def]
        head_argv_nth [unfolded One_nat_def] stored_hashes [OF rs(3)] map_of_stored [OF mem] dist
        streams_check_latest [OF rs(3) rev] del: take_Cons_numeral take_Cons' split: if_splits)
qed

text \<open>The head check reads the six keys it is given and nothing else.\<close>

lemma head_validate_frame:
  assumes "length keys = 6" and "\<And>k. k \<in> set keys \<Longrightarrow> srv_view s k = srv_view t k \<and> srv_streams s k = srv_streams t k"
  shows "authority_head_validate D s keys own = authority_head_validate D t keys own"
proof -
  have at: "lua_type s (keys ! n) = lua_type t (keys ! n) \<and> lua_hash s (keys ! n) = lua_hash t (keys ! n)
      \<and> stream_tail s (keys ! n) = stream_tail t (keys ! n) \<and> srv_streams s (keys ! n) = srv_streams t (keys ! n)"
    if "n < 6" for n
    using assms(2) [of "keys ! n"] assms(1) that by (simp add: lua_type_def lua_hash_def stream_tail_def)
  have types: "map (\<lambda>k. lua_type s (keys ! k)) [0, 1, 2, 3, 4, 5] = map (\<lambda>k. lua_type t (keys ! k)) [0, 1, 2, 3, 4, 5]"
    and counts: "map (\<lambda>k. int (length (lua_hash s (keys ! k)))) [1, 2, 3] = map (\<lambda>k. int (length (lua_hash t (keys ! k)))) [1, 2, 3]"
      "map (\<lambda>k. int (length (srv_streams s (keys ! k)))) [4, 5] = map (\<lambda>k. int (length (srv_streams t (keys ! k)))) [4, 5]"
    using at by simp_all
  have h: "lua_hash s (keys ! 0) = lua_hash t (keys ! 0)" "lua_hash s (keys ! 1) = lua_hash t (keys ! 1)"
    "lua_hash s (keys ! 2) = lua_hash t (keys ! 2)" "lua_hash s (keys ! 3) = lua_hash t (keys ! 3)"
    "stream_tail s (keys ! 4) = stream_tail t (keys ! 4)" "stream_tail s (keys ! 5) = stream_tail t (keys ! 5)"
    using at by simp_all
  have head: "head_check s keys own = head_check t keys own"
    unfolding head_check_def types h by (rule refl)
  have streams: "streams_check s keys own n a b = streams_check t keys own n a b" for n a b
    unfolding streams_check_def counts h by (rule refl)
  show ?thesis unfolding authority_head_validate_def h head streams by (rule refl)
qed

section \<open>Reading the evidence of a stored history\<close>


lemma stored_views:
  assumes "rs \<noteq> []"
  shows "redis_hgetall (Some (srv_view (server_of ks (stored_of E W rs) (streams_of E rs)))) (aggregate_key ks)
      = Inr (head_fields (last rs) (op_digest (last rs)) (intents_text E (last rs)))"
    "redis_hgetall (Some (srv_view (server_of ks (stored_of E W rs) (streams_of E rs)))) (transition_indexes_key ks)
      = Inr (map (\<lambda>r. (tid_of r, index_entry E W r)) rs)"
    "redis_hgetall (Some (srv_view (server_of ks (stored_of E W rs) (streams_of E rs)))) (receipts_key ks)
      = Inr (map (\<lambda>r. (op_digest r, receipt_entry E W r)) rs)"
    "redis_hgetall (Some (srv_view (server_of ks (stored_of E W rs) (streams_of E rs)))) (operation_records_key ks)
      = Inr (map (\<lambda>r. (op_digest r, record_entry E W r)) rs)"
    "k \<in> {aggregate_key ks, transition_indexes_key ks, receipts_key ks, operation_records_key ks} \<Longrightarrow>
      redis_type (Some (srv_view (server_of ks (stored_of E W rs) (streams_of E rs)))) k = Inr ''hash''"
proof -
  have h: "head_fields (last rs) (op_digest (last rs)) (intents_text E (last rs)) \<noteq> []" by (simp add: head_fields_def)
  note v = server_of_hashes [of ks "stored_of E W rs" "streams_of E rs"]
  note st = stored_of_fields [where E = E and W = W and rs = rs]
  show "redis_hgetall (Some (srv_view (server_of ks (stored_of E W rs) (streams_of E rs)))) (aggregate_key ks)
      = Inr (head_fields (last rs) (op_digest (last rs)) (intents_text E (last rs)))"
    using h assms by (simp add: redis_hgetall_def v hash_value_def st)
  show "redis_hgetall (Some (srv_view (server_of ks (stored_of E W rs) (streams_of E rs)))) (transition_indexes_key ks)
      = Inr (map (\<lambda>r. (tid_of r, index_entry E W r)) rs)"
    "redis_hgetall (Some (srv_view (server_of ks (stored_of E W rs) (streams_of E rs)))) (receipts_key ks)
      = Inr (map (\<lambda>r. (op_digest r, receipt_entry E W r)) rs)"
    "redis_hgetall (Some (srv_view (server_of ks (stored_of E W rs) (streams_of E rs)))) (operation_records_key ks)
      = Inr (map (\<lambda>r. (op_digest r, record_entry E W r)) rs)"
    using assms by (simp_all add: redis_hgetall_def v hash_value_def st)
  show "k \<in> {aggregate_key ks, transition_indexes_key ks, receipts_key ks, operation_records_key ks} \<Longrightarrow>
      redis_type (Some (srv_view (server_of ks (stored_of E W rs) (streams_of E rs)))) k = Inr ''hash''"
    using assms h by (auto simp: redis_type_def v hash_value_def st)
qed

lemma stored_probe_loads:
  assumes laws: "nfc_laws E" "jcs_reads E" "cjson_reads W"
    and rs: "list_all (storable E) rs" "r \<in> set rs" "rec_identity r = i"
    and dist: "distinct (map op_digest rs)" "distinct (map tid_of rs)"
    and ks: "make_keyspace (identity_sha256 i) ns = Inr ks"
  shows "load_receipt_probe E ns i (str_of (rec_operation_id r))
      (\<lambda>_. Some (srv_view (server_of ks (stored_of E W rs) (streams_of E rs))))
    = Inr (Some \<lparr>probe_receipt = new_receipt r, probe_store_record = Some r\<rparr>)"
proof -
  let ?v = "Some (srv_view (server_of ks (stored_of E W rs) (streams_of E rs)))"
  have ne: "rs \<noteq> []" using rs(2) by auto
  have st: "storable E r" using rs(1,2) by (simp add: list_all_iff)
  then have w: "writable E r" by (rule storable_writable)
  then have val: "validate_record E r = Inr ()" by (simp add: writable_def)
  note reads = entries_read(1) [OF laws w st] entries_read(2,3) [OF laws w] and views = stored_views [OF ne, where ks = ks and E = E and W = W]
  have dec: "decode_pair E (record_entry E W r) (receipt_entry E W r) = Inr (r, new_receipt r)"
    using reads(1,2) by (auto simp: read_record_def read_receipt_def decode_pair_def rbind_Inr_iff)
  have tid: "nonempty_text ''transition_id'' (str_of (rec_transition_id r)) = Inr (tid_of r)"
    by (rule validated_head_parts [OF laws(1) val]) (simp add: nonempty_text_def tid_of_def)
  have hg: "redis_hget ?v (transition_indexes_key ks) (tid_of r) = Inr (Some (index_entry E W r))"
    "redis_hget ?v (receipts_key ks) (op_digest r) = Inr (Some (receipt_entry E W r))"
    "redis_hget ?v (operation_records_key ks) (op_digest r) = Inr (Some (record_entry E W r))"
    by (simp_all add: redis_hget_def views map_of_stored [OF rs(2)] dist)
  have sha: "ks_identity_sha256 ks = identity_sha256 i" using make_keyspaceD [OF ks] by simp
  have oid: "rec_operation_id r = PStr (str_of (rec_operation_id r))" "str_of (rec_operation_id r) \<noteq> []"
    by (rule validated_head_parts [OF laws(1) val]; simp)+
  have "validate_stored_duplicate_proof E \<lparr>probe_receipt = new_receipt r, probe_store_record = Some r\<rparr> (ks_identity_sha256 ks)
      (str_of (rec_operation_id r)) = Inr (new_receipt r, r)"
    unfolding validate_stored_duplicate_proof_Inr_iff
  proof (intro conjI)
    show "rec_identity_sha256 r = PStr (ks_identity_sha256 ks)"
      by (rule validated_head_parts [OF laws(1) val]) (simp add: sha rs(3))
    show "is_ok (validate_receipt E (new_receipt r))" by (rule new_receipt_valid [OF laws(1)]) (simp add: val)
    show "rcpt_operation_id (new_receipt r) = PStr (str_of (rec_operation_id r))" using oid(1) by (simp add: new_receipt_def)
  qed (simp_all add: val oid(1) [symmetric] new_receipt_matches')
  then have "probe_from_raw E ks (str_of (rec_operation_id r)) (receipt_entry E W r) (record_entry E W r) ?v
      = Inr (Some \<lparr>probe_receipt = new_receipt r, probe_store_record = Some r\<rparr>)"
    unfolding probe_from_raw_def dec [unfolded decode_pair_commute] using tid hg(1) reads(3) by simp
  then show ?thesis
    using oid(2) ks operation_digest_op_digest [OF laws(1) val]
    by (simp add: load_receipt_probe_def nonempty_text_def views hg)
qed

lemma stored_snapshot_reads:
  assumes laws: "nfc_laws E" "jcs_reads E" "cjson_reads W"
    and rs: "list_all (storable E) rs" "\<forall>r \<in> set rs. rec_identity r = i" "chained None 0 rs" "rs \<noteq> []"
    and small: "length rs < 10 ^ 14" and ks: "make_keyspace (identity_sha256 i) ns = Inr ks"
  defines "v \<equiv> Some (srv_view (server_of ks (stored_of E W rs) (streams_of E rs)))"
  shows "get_aggregate_snapshot ns i v v = Inr (Some (snapshot_of E (last rs)))"
proof -
  have st: "storable E (last rs)" using rs(1,4) by (simp add: list_all_iff)
  then have val: "validate_record E (last rs) = Inr ()" by (simp add: storable_def writable_def)
  have "get_aggregate_snapshot ns i v v
      = get_aggregate_snapshot ns i (Some (view_of ks (stored_of E W rs))) (Some (view_of ks (stored_of E W rs)))"
    by (simp add: get_aggregate_snapshot_def ks v_def redis_type_def redis_hgetall_def server_of_hashes view_of_keys)
  also have "\<dots> = Inr (Some (snapshot_of E (last rs)))"
    using small chained_last_revision [OF rs(3,4)] rs(2,4)
    by (intro snapshot_stored [OF laws(1) val entries_read(4) [OF laws storable_writable [OF st]] _ rs(4) _ ks]) auto
  finally show ?thesis .
qed

lemma head_guard_stored:
  assumes laws: "nfc_laws E" "jcs_reads E" "cjson_reads W"
    and rs: "list_all (storable E) rs" "\<forall>r \<in> set rs. rec_identity r = i" "chained None 0 rs" "rs \<noteq> []"
    and dist: "distinct (map op_digest rs)" "distinct (map tid_of rs)"
    and small: "length rs < 10 ^ 14" and ks: "make_keyspace (identity_sha256 i) ns = Inr ks"
  shows "authority_head_guard E ns i allow_absent (\<lambda>_. Some (srv_view (server_of ks (stored_of E W rs) (streams_of E rs))))
    = Inr (take 6 (commit_keys ks), head_argv E (last rs))"
proof -
  have mem: "last rs \<in> set rs" "rec_identity (last rs) = i" using rs(2,4) by simp_all
  have st: "storable E (last rs)" using rs(1) mem by (simp add: list_all_iff)
  then have val: "validate_record E (last rs) = Inr ()" by (simp add: storable_def writable_def)
  have sha: "str_of (rec_identity_sha256 (last rs)) = identity_sha256 i"
    by (rule validated_head_parts [OF laws(1) val]) (simp add: mem)
  have state: "(case opt_str_of (rec_next_state (last rs)) of None \<Rightarrow> [] | Some s \<Rightarrow> s) = str_of (rec_next_state (last rs))"
    "opt_str_of (rec_next_state (last rs)) = None \<longleftrightarrow> rec_next_state (last rs) = PNone"
    by (rule validated_head_parts [OF laws(1) val]; auto simp: str_of_def opt_str_of_def)+
  show ?thesis
    using stored_probe_loads [OF laws rs(1) mem dist ks] ks sha state
    by (simp add: authority_head_guard_def stored_snapshot_reads [OF laws rs small ks] snapshot_of_def
        proof_texts_written [OF laws storable_writable [OF st]] head_argv_def)
qed

section \<open>Properties\<close>

lemma journal_stored:
  assumes laws: "nfc_laws E" "jcs_reads E" "cjson_reads W"
    and j: "(journal_step E i)\<^sup>*\<^sup>* empty_journal j" "list_all (writable E) (j_records j)" "distinct (map op_digest (j_records j))"
  shows "chained None 0 (j_records j)" "\<forall>r \<in> set (j_records j). rec_identity r = i" "distinct (map tid_of (j_records j))"
    "j_revision j = int (length (j_records j))"
    "store_history E W empty_aggregate (j_records j) = Inr (stored_of E W (j_records j))"
    "store_streams E empty_streams (j_records j) = Inr (streams_of E (j_records j))"
proof -
  have inv: "journal_inv E i j" by (rule jrn.reachable_inv [OF refl j(1)])
  then show c: "chained None 0 (j_records j)" "\<forall>r \<in> set (j_records j). rec_identity r = i" "j_revision j = int (length (j_records j))"
    unfolding journal_inv_def by auto
  have val: "\<forall>r \<in> set (j_records j). validate_record E r = Inr ()" using j(2) by (simp add: list_all_iff writable_def)
  show t: "distinct (map tid_of (j_records j))" using chained_transition_ids(1) [OF val c(1)] by simp
  show "store_history E W empty_aggregate (j_records j) = Inr (stored_of E W (j_records j))"
    by (rule store_history_shape [OF laws j(2,3) t])
  show "store_streams E empty_streams (j_records j) = Inr (streams_of E (j_records j))"
    by (rule store_streams_shape [OF laws j(2)])
qed

text \<open>
  C28. The head validator accepts exactly the newest record: after the writes and appends of all
  commits of a reachable journal, the witness that \<open>authority_head_witness\<close> builds for the k-th record
  is accepted by the validation script when the record is the last one, and refused otherwise. A
  projection that evaluated an older record thus cannot pass as current.
\<close>

theorem head_witness_valid_iff_latest:
  assumes "nfc_laws E" and "jcs_reads E" and "cjson_reads W" and "cjson_decodes D W"
    and "(journal_step E i)\<^sup>*\<^sup>* empty_journal j" and "list_all (writable E) (j_records j)"
    and "distinct (map op_digest (j_records j))" and "j_revision j < 10 ^ 14"
    and "list_all (\<lambda>r. json_depth (stored_json r) < 1000) (j_records j)"
    and "make_keyspace (identity_sha256 i) namespace = Inr ks" and "k < length (j_records j)"
  shows "\<exists>st ss keys args. store_history E W empty_aggregate (j_records j) = Inr st
    \<and> store_streams E empty_streams (j_records j) = Inr ss
    \<and> authority_head_witness E namespace (j_records j ! k) (new_receipt (j_records j ! k)) = Inr (keys, args)
    \<and> (fst (authority_head_validate D (server_of ks st ss) keys args) = ''VALID'' \<longleftrightarrow> k + 1 = length (j_records j))"
proof -
  let ?rs = "j_records j" and ?r = "j_records j ! k"
  note f = journal_stored [OF assms(1-3,5-7)]
  have r: "writable E ?r" "rec_identity ?r = i" "?rs \<noteq> []"
    using assms(6,11) f(2) by (auto simp: list_all_length)
  have wit: "authority_head_witness E namespace ?r (new_receipt ?r) = Inr (take 6 (commit_keys ks), head_argv E ?r)"
    by (rule head_witness_written [OF assms(1-3) r(1)]) (simp add: r(2) assms(10))
  let ?res = "authority_head_validate D (server_of ks (stored_of E W ?rs) (streams_of E ?rs)) (take 6 (commit_keys ks)) (head_argv E ?r)"
  have "fst ?res = ''VALID'' \<longleftrightarrow> k + 1 = length ?rs"
  proof (cases "k + 1 = length ?rs")
    case True
    then have last: "?r = last ?rs" using r(3) by (simp add: last_conv_nth flip: True)
    have "length ?rs < 10 ^ 14" using assms(8) f(4) by simp
    moreover have "json_depth (stored_json (last ?rs)) < 1000" using assms(9) r(3) by (simp add: list_all_iff)
    ultimately show ?thesis
      using True head_validate_latest [OF assms(1-4,6) f(1) r(3) assms(7) f(3)] unfolding last by simp
  next
    case False
    have "last ?rs = ?rs ! (length ?rs - 1)" using r(3) by (simp add: last_conv_nth)
    then have "tid_of ?r \<noteq> tid_of (last ?rs)"
      using nth_eq_iff_index_eq [OF f(3), of k "length ?rs - 1"] assms(11) False by simp
    from head_check_newer [OF r(3) this, of ks E W] False show ?thesis by (auto simp: authority_head_validate_def)
  qed
  with wit f(5,6) show ?thesis by blast
qed

text \<open>
  The guard that a commit prepares by reading a parent aggregate and the witness that a writer
  builds from its own record are the same evidence: on a server with the commits of a reachable
  journal, \<open>_authority_head_guard\<close> returns the keys and arguments of \<open>authority_head_witness\<close> for the
  newest record.
\<close>

theorem guard_is_witness_of_head:
  assumes "nfc_laws E" and "jcs_reads E" and "cjson_reads W"
    and "(journal_step E i)\<^sup>*\<^sup>* empty_journal j" and "j_records j \<noteq> []" and "list_all (writable E) (j_records j)"
    and "distinct (map op_digest (j_records j))" and "j_revision j < 10 ^ 14"
    and "make_keyspace (identity_sha256 i) namespace = Inr ks"
  shows "\<exists>st ss guard. store_history E W empty_aggregate (j_records j) = Inr st
    \<and> store_streams E empty_streams (j_records j) = Inr ss
    \<and> authority_head_guard E namespace i allow_absent (\<lambda>_. Some (srv_view (server_of ks st ss))) = Inr guard
    \<and> authority_head_witness E namespace (last (j_records j)) (new_receipt (last (j_records j))) = Inr guard"
proof -
  let ?rs = "j_records j" and ?os = "map in_order (j_records j)"
  note f = journal_stored [OF assms(1-4,6,7)] and o = list_in_order [OF assms(1,2,6)] streams_in_order [OF assms(1,2,6)]
  have r: "writable E (last ?rs)" "rec_identity (last ?rs) = i" "last ?os = in_order (last ?rs)"
    using assms(5,6) f(2) by (auto simp: list_all_iff last_map)
  have "authority_head_guard E namespace i allow_absent (\<lambda>_. Some (srv_view (server_of ks (stored_of E W ?os) (streams_of E ?os))))
    = Inr (take 6 (commit_keys ks), head_argv E (last ?os))"
  proof (rule head_guard_stored [OF assms(1-3) o(1)])
    show "\<forall>r \<in> set ?os. rec_identity r = i" using f(2) by simp
    show "chained None 0 ?os" using o(3) f(1) by simp
    show "distinct (map op_digest ?os)" "distinct (map tid_of ?os)" using assms(7) f(3) unfolding o(4,5) by simp_all
  qed (use assms(5,8,9) f(4) in simp_all)
  then have "authority_head_guard E namespace i allow_absent (\<lambda>_. Some (srv_view (server_of ks (stored_of E W ?rs) (streams_of E ?rs))))
    = Inr (take 6 (commit_keys ks), head_argv E (last ?rs))"
    unfolding o(2,6) r(3) in_order_head(1) [OF assms(1,2) r(1)] .
  with head_witness_written [OF assms(1-3) r(1)] r(2) assms(9) f(5,6) show ?thesis by metis
qed

text \<open>
  C23. Exactly once through the store: for every record of a reachable journal whose commits are
  stored, \<open>load_receipt_probe\<close> finds its evidence, and a permitted command that repeats its operation
  id is then answered from it, at any head: \<open>ALREADY_APPLIED\<close> for the same command hash,
  \<open>IDEMPOTENCY_CONFLICT\<close> for another, and never with a plan.
\<close>

theorem stored_operation_answers:
  assumes "nfc_laws E" and "jcs_reads E" and "cjson_reads W"
    and "(journal_step E i)\<^sup>*\<^sup>* empty_journal j" and "list_all (writable E) (j_records j)"
    and "distinct (map op_digest (j_records j))" and "make_keyspace (identity_sha256 i) namespace = Inr ks"
    and "r \<in> set (j_records j)" and "cmd_identity c = i" and "rec_operation_id r = PStr (cmd_operation_id c)"
    and "command_hash E c = Inr ch" and "permits x c"
    and "is_ok (safe_int ''current_revision'' 0 n)" and "is_ok (opt_nfc E ''current_state'' s)"
    and "is_ok (safe_int ''committed_at_ms'' 0 ms)" and "is_ok (opt_nfc E ''correlation_id'' corr)"
  shows "\<exists>st ss p ev. store_history E W empty_aggregate (j_records j) = Inr st
    \<and> store_streams E empty_streams (j_records j) = Inr ss
    \<and> load_receipt_probe E namespace i (cmd_operation_id c) (\<lambda>_. Some (srv_view (server_of ks st ss))) = Inr (Some p)
    \<and> evaluate_authority_commit E x c n s (Some p) ms corr = Inr ev \<and> eval_commit_plan ev = None
    \<and> dec_code (eval_decision ev) = (if rec_command_hash r = PStr ch then ALREADY_APPLIED else IDEMPOTENCY_CONFLICT)"
proof -
  let ?rs = "j_records j" and ?os = "map in_order (j_records j)" and ?r = "in_order r"
  note f = journal_stored [OF assms(1-6)] and o = list_in_order [OF assms(1,2,5)] streams_in_order [OF assms(1,2,5)]
  have i: "rec_identity ?r = i" and val: "validate_record E ?r = Inr ()"
    using f(2) assms(8) o(1) by (auto simp: list_all_iff storable_def writable_def)
  let ?p = "\<lparr>probe_receipt = new_receipt ?r, probe_store_record = Some ?r\<rparr>"
  have mem: "?r \<in> set ?os" using assms(8) by simp
  have "distinct (map op_digest ?os)" "distinct (map tid_of ?os)" using assms(6) f(3) unfolding o(4,5) by simp_all
  from stored_probe_loads [OF assms(1-3) o(1) mem i this assms(7)]
  have probe: "load_receipt_probe E namespace i (cmd_operation_id c)
      (\<lambda>_. Some (srv_view (server_of ks (stored_of E W ?rs) (streams_of E ?rs)))) = Inr (Some ?p)"
    unfolding o(2,6) using assms(10) by simp
  have "validate_stored_duplicate_proof E ?p (identity_sha256 (cmd_identity c)) (cmd_operation_id c) = Inr (new_receipt ?r, ?r)"
    using new_receipt_valid [OF assms(1), of ?r] val assms(9,10) i new_receipt_matches' [of ?r]
    by (auto simp: validate_stored_duplicate_proof_Inr_iff elim!: validate_record_okD)
  moreover have "evaluate_authority_commit E x c n s (Some ?p) ms corr = resolve_receipt E c ?p"
    using assms(12-16) by (auto simp: evaluate_authority_commit_def is_ok_iff)
  ultimately have "\<exists>ev. evaluate_authority_commit E x c n s (Some ?p) ms corr = Inr ev \<and> eval_commit_plan ev = None
    \<and> dec_code (eval_decision ev) = (if rec_command_hash r = PStr ch then ALREADY_APPLIED else IDEMPOTENCY_CONFLICT)"
    using assms(11) by (simp add: resolve_receipt_def refuse_def)
  with probe f(5,6) show ?thesis by blast
qed

definition asks_retry :: "commit_error + commit_result \<Rightarrow> bool" where
  "asks_retry m \<longleftrightarrow> (\<exists>x. m = Inr x \<and> cr_status x = CS_PREVALIDATION_RETRY_REQUIRED)"

lemma first_of_Cons:
  "(\<exists>before b after. a # as = before @ b # after \<and> list_all Q before \<and> R b) \<longleftrightarrow>
     R a \<or> Q a \<and> (\<exists>before b after. as = before @ b # after \<and> list_all Q before \<and> R b)" (is "?L \<longleftrightarrow> ?R")
proof
  assume ?L
  then obtain before b after where "a # as = before @ b # after" "list_all Q before" "R b" by blast
  then show ?R by (cases before) auto
next
  assume ?R
  then consider "R a" | before b after where "Q a" "as = before @ b # after" "list_all Q before" "R b" by blast
  then show ?L
  proof cases
    case 1
    then show ?thesis by (intro exI [of _ "[]"] exI [of _ a] exI [of _ as]) simp
  next
    case 2
    then show ?thesis by (intro exI [of _ "a # before"] exI [of _ b] exI [of _ after]) simp
  qed
qed

lemma commit_attempts_Inr_iff:
  "commit_attempts run as = Inr res \<longleftrightarrow>
     (\<exists>before a after. as = before @ a # after \<and> list_all (\<lambda>b. asks_retry (run b)) before
       \<and> run a = Inr res \<and> \<not> asks_retry (run a))"
proof (induction as)
  case (Cons a as)
  show ?case
    unfolding first_of_Cons Cons.IH [symmetric] by (cases "run a") (auto simp: asks_retry_def)
qed simp

text \<open>
  What \<open>commit\<close> reports is what the script answered: it returns a result exactly when the plan
  passes validation, the namespace is a valid key prefix, and one of at most three attempts was
  answered with this result and not with a request to retry, all attempts before it having been
  answered with such a request. Every other outcome is one of the persistence errors, whatever the
  server, the encoder or the evidence did.
\<close>

theorem commit_reports_script_answer:
  "(commit E namespace plan root_binding owner_binding A = Inr res \<longleftrightarrow>
     validate_plan E plan = Inr () \<and>
     (\<exists>ks before a after. make_keyspace (str_of (rec_identity_sha256 (plan_record plan))) namespace = Inr ks
        \<and> [A 0, A 1, A 2] = before @ a # after
        \<and> list_all (\<lambda>b. asks_retry (commit_attempt E namespace ks (plan_record plan) (plan_receipt plan)
             root_binding owner_binding b)) before
        \<and> commit_attempt E namespace ks (plan_record plan) (plan_receipt plan) root_binding owner_binding a = Inr res
        \<and> cr_status res \<noteq> CS_PREVALIDATION_RETRY_REQUIRED))
   \<and> (case commit E namespace plan root_binding owner_binding A of Inl e \<Rightarrow> is_persistence_error e | Inr _ \<Rightarrow> True)"
proof
  let ?run = "\<lambda>ks. commit_attempt E namespace ks (plan_record plan) (plan_receipt plan) root_binding owner_binding"
  have answered: "?run ks a = Inr res \<and> \<not> asks_retry (?run ks a) \<longleftrightarrow>
      ?run ks a = Inr res \<and> cr_status res \<noteq> CS_PREVALIDATION_RETRY_REQUIRED" for ks a
    by (auto simp: asks_retry_def)
  have three: "map A [0..<3] = [A 0, A 1, A 2]" by (simp add: upt_rec numeral_2_eq_2 numeral_3_eq_3)
  have "commit E namespace plan root_binding owner_binding A = Inr res \<longleftrightarrow>
      commit_impl E namespace plan root_binding owner_binding A = Inr res"
    by (simp add: commit_def split: sum.split)
  also have "\<dots> \<longleftrightarrow> validate_plan E plan = Inr () \<and>
     (\<exists>ks before a after. make_keyspace (str_of (rec_identity_sha256 (plan_record plan))) namespace = Inr ks
        \<and> [A 0, A 1, A 2] = before @ a # after
        \<and> list_all (\<lambda>b. asks_retry (commit_attempt E namespace ks (plan_record plan) (plan_receipt plan)
             root_binding owner_binding b)) before
        \<and> commit_attempt E namespace ks (plan_record plan) (plan_receipt plan) root_binding owner_binding a = Inr res
        \<and> cr_status res \<noteq> CS_PREVALIDATION_RETRY_REQUIRED)"
    unfolding commit_impl_def three rbind_Inr_iff lift_iffs commit_attempts_Inr_iff answered by auto
  finally show "commit E namespace plan root_binding owner_binding A = Inr res \<longleftrightarrow> validate_plan E plan = Inr () \<and>
     (\<exists>ks before a after. make_keyspace (str_of (rec_identity_sha256 (plan_record plan))) namespace = Inr ks
        \<and> [A 0, A 1, A 2] = before @ a # after
        \<and> list_all (\<lambda>b. asks_retry (commit_attempt E namespace ks (plan_record plan) (plan_receipt plan)
             root_binding owner_binding b)) before
        \<and> commit_attempt E namespace ks (plan_record plan) (plan_receipt plan) root_binding owner_binding a = Inr res
        \<and> cr_status res \<noteq> CS_PREVALIDATION_RETRY_REQUIRED)" .
  show "case commit E namespace plan root_binding owner_binding A of Inl e \<Rightarrow> is_persistence_error e | Inr _ \<Rightarrow> True"
    by (simp add: commit_def is_persistence_error_def split: sum.split)
qed

section \<open>Witnesses\<close>

definition json_fields :: json_decoder where
  "json_fields b =
     (case json_loads b of
        Inr (PMap kvs) \<Rightarrow> Some (map (\<lambda>kv. (str_of (fst kv), snd kv)) kvs)
      | _ \<Rightarrow> None)"

lemma json_fields_law: "cjson_decodes json_fields json_envelope"
  unfolding cjson_decodes_def
proof (intro conjI allI impI)
  fix p d
  assume "is_ascii p" and "is_ascii d"
  with json_externals_laws(4) obtain kvs where kvs: "json_loads (json_envelope p d) = Inr (PMap kvs)"
    "fst ` set kvs = {PStr ''payload'', PStr ''storage_sha1''}"
    "dict_get kvs ''payload'' = Some (PStr p)" "dict_get kvs ''storage_sha1'' = Some (PStr d)"
    unfolding cjson_reads_def by blast
  have fields: "map_of (map (\<lambda>kv. (str_of (fst kv), snd kv)) xs) key = map_of xs (PStr key)"
    if "\<forall>kv \<in> set xs. \<exists>t. fst kv = PStr t" for xs key
    using that by (induction xs) auto
  have "\<forall>kv \<in> set kvs. \<exists>t. fst kv = PStr t" using kvs(2) by (metis image_eqI insertE singletonD)
  from fields [OF this] show "\<exists>env. json_fields (json_envelope p d) = Some env \<and> map_of env ''payload'' = Some (PStr p)
      \<and> map_of env ''storage_sha1'' = Some (PStr d)"
    using kvs(1,3,4) by (simp add: json_fields_def dict_get_def)
next
  fix b j kvs
  assume "sort_json j = JObj kvs" and "json_loads b = Inr (py_of_json (sort_json j))"
  then show "json_fields b = Some (map (\<lambda>kv. (fst kv, py_of_json (snd kv))) kvs)"
    by (simp add: json_fields_def comp_def)
qed

text \<open>The journal with one admitted task, with all that the properties ask of it.\<close>

lemma demo_stored_journal:
  obtains j r where "(journal_step json_externals demo_identity)\<^sup>*\<^sup>* empty_journal j" "j_records j = [r]"
    "list_all (writable json_externals) (j_records j)" "distinct (map op_digest (j_records j))" "j_revision j < 10 ^ 14"
    "list_all (\<lambda>r. json_depth (stored_json r) < 1000) (j_records j)"
    "new_record json_externals demo_admit ''writer-1'' 5 None = Inr r"
proof -
  obtain r where r: "new_record json_externals demo_admit ''writer-1'' 5 None = Inr r"
    "journal_step json_externals demo_identity empty_journal (commit_to_journal empty_journal (plan_of demo_admit r))"
    using demo_admitted by blast
  let ?j = "commit_to_journal empty_journal (plan_of demo_admit r)"
  have rs: "j_records ?j = [r]" by (simp add: commit_to_journal_def empty_journal_def)
  have rev: "j_revision ?j = 1" using new_record_fields(5,7) [OF r(1)] by (simp add: commit_to_journal_def empty_journal_def demo_admit_def)
  from r(1) obtain tid ch h where "r = (provisional_record demo_admit ch tid ''writer-1'' 5 None)\<lparr>rec_record_hash := PStr h\<rparr>"
    by (rule new_record_okD) blast
  then have "json_depth (stored_json r) < 1000"
    by (simp add: provisional_record_def demo_admit_def demo_identity_def stored_json_def jscalar_def identity_json_def opt_json_def)
  with that [of ?j r] r rs rev storable_writable [OF demo_storable [OF r(1)]] show thesis by auto
qed

theorem head_witness_valid_iff_latest_witness:
  "\<exists>srv r keys args. authority_head_witness json_externals ''hfa:authority:v1'' r (new_receipt r) = Inr (keys, args)
     \<and> fst (authority_head_validate json_fields srv keys args) = ''VALID''"
proof -
  obtain j r where j: "(journal_step json_externals demo_identity)\<^sup>*\<^sup>* empty_journal j" "j_records j = [r]"
    "list_all (writable json_externals) (j_records j)" "distinct (map op_digest (j_records j))" "j_revision j < 10 ^ 14"
    "list_all (\<lambda>r. json_depth (stored_json r) < 1000) (j_records j)"
    by (rule demo_stored_journal)
  from head_witness_valid_iff_latest [OF json_externals_laws(1,3,4) json_fields_law j(1,3-6) demo_keyspace, of 0] j(2)
  show ?thesis by auto
qed

theorem guard_is_witness_of_head_witness:
  "\<exists>v r guard. authority_head_guard json_externals ''hfa:authority:v1'' demo_identity False (\<lambda>_. Some v) = Inr guard
     \<and> authority_head_witness json_externals ''hfa:authority:v1'' r (new_receipt r) = Inr guard"
proof -
  obtain j r where j: "(journal_step json_externals demo_identity)\<^sup>*\<^sup>* empty_journal j" "j_records j = [r]"
    "list_all (writable json_externals) (j_records j)" "distinct (map op_digest (j_records j))" "j_revision j < 10 ^ 14"
    by (rule demo_stored_journal)
  have "j_records j \<noteq> []" using j(2) by simp
  from guard_is_witness_of_head [OF json_externals_laws(1,3,4) j(1) this j(3-5) demo_keyspace, of False]
  show ?thesis by blast
qed

theorem stored_operation_answers_witness:
  "\<exists>v p ev. load_receipt_probe json_externals ''hfa:authority:v1'' demo_identity (cmd_operation_id demo_admit) (\<lambda>_. Some v)
      = Inr (Some p)
     \<and> evaluate_authority_commit json_externals demo_writer demo_admit (PInt 7) (PStr ''done'') (Some p) (PInt 9) PNone = Inr ev
     \<and> dec_code (eval_decision ev) = ALREADY_APPLIED"
proof -
  obtain j r where j: "(journal_step json_externals demo_identity)\<^sup>*\<^sup>* empty_journal j" "j_records j = [r]"
    "list_all (writable json_externals) (j_records j)" "distinct (map op_digest (j_records j))"
    and r: "new_record json_externals demo_admit ''writer-1'' 5 None = Inr r"
    by (rule demo_stored_journal)
  obtain ch where ch: "command_hash json_externals demo_admit = Inr ch" "rec_command_hash r = PStr ch"
    using new_record_fields(3) [OF r] by blast
  have c: "cmd_identity demo_admit = demo_identity" "permits demo_writer demo_admit"
    by (simp_all add: demo_admit_def permits_def demo_writer_def demo_identity_def)
  have ok: "is_ok (safe_int ''current_revision'' 0 (PInt 7))" "is_ok (opt_nfc json_externals ''current_state'' (PStr ''done''))"
    "is_ok (safe_int ''committed_at_ms'' 0 (PInt 9))" "is_ok (opt_nfc json_externals ''correlation_id'' PNone)"
    by (simp_all add: safe_int_def opt_nfc_def nfc_def max_safe_integer_def json_externals_def)
  have "r \<in> set (j_records j)" "rec_operation_id r = PStr (cmd_operation_id demo_admit)"
    using j(2) new_record_fields [OF r] by auto
  from stored_operation_answers [OF json_externals_laws(1,3,4) j(1,3,4) demo_keyspace this(1) c(1) this(2) ch(1) c(2) ok] ch(2)
  show ?thesis by auto
qed

end
