(* ===== verification/AuthorityConflicts.thy ===== *)
theory AuthorityConflicts
  imports AuthorityHead
begin

text \<open>
  Durable conflict evidence: \<open>record_authority_conflict\<close> and \<open>record_conflict\<close> of
  \<open>src/hfa-core/src/hfa/authority/redis_persistence.py\<close>, with the script
  \<open>src/hfa-core/src/hfa/lua/authority_conflict_record.lua\<close>. The evidence of an aggregate is a pair of
  keys, an index hash with a counter and an append-only stream. A call of the script is one step of the
  server under a \<open>delivery\<close>; the \<open>cjson\<close> library is a pair of parameters, encoder and decoder, of which
  \<open>cjson_inverts\<close> says that decoding an encoded flat object gives its members back.

  The lemmas: the script keeps the pair consistent, and over any sequence of recorded conflicts the
  stream holds every conflict once, in the order of first occurrence, whatever replies were lost; a
  conflict that is recorded again is answered as before and changes nothing.
\<close>

section \<open>The conflict script\<close>

record conflict_args =
  ca_identity_sha :: string
  ca_operation_id :: string
  ca_operation_digest :: string
  ca_incoming_command_hash :: string
  ca_stored_command_hash :: string
  ca_conflict_type :: string
  ca_detail_code :: string
  ca_observed_at_ms :: string
  ca_existing_transition_id :: string
  ca_revision :: string
  ca_detail :: string

type_synonym cjson_encoder = "json \<Rightarrow> string"

definition cjson_inverts :: "json_decoder \<Rightarrow> cjson_encoder \<Rightarrow> bool" where
  "cjson_inverts D C \<longleftrightarrow> (\<forall>kvs. json_plain (JObj kvs) \<longrightarrow> list_all (\<lambda>kv. json_depth (snd kv) = 0) kvs \<longrightarrow>
     (\<exists>fs. D (C (JObj kvs)) = Some fs \<and> (\<forall>key. map_of fs key = map_option py_of_json (map_of kvs key))))"

definition count_field :: string where
  "count_field = ''__authority_conflict_count''"

definition conflict_id :: "conflict_args \<Rightarrow> string" where
  "conflict_id a =
     sha1_hexdigest (concat (map length_prefix
       [ca_identity_sha a, ca_operation_id a, ca_incoming_command_hash a, ca_stored_command_hash a,
        ca_conflict_type a, ca_detail_code a]))"

definition text_or_null :: "string \<Rightarrow> json" where
  "text_or_null t = (if t = [] then JNull else JStr t)"

definition number_member :: "string \<Rightarrow> string \<Rightarrow> (string \<times> json) list" where
  "number_member name t = (case lua_tonumber t of None \<Rightarrow> [] | Some n \<Rightarrow> [(name, JInt n)])"

definition conflict_payload :: "conflict_args \<Rightarrow> json" where
  "conflict_payload a =
     JObj ([(''conflict_id'', JStr (conflict_id a)), (''conflict_type'', JStr (ca_conflict_type a)),
            (''detail_code'', JStr (ca_detail_code a)),
            (''canonical_aggregate_identity_sha256'', JStr (ca_identity_sha a)),
            (''operation_id'', JStr (ca_operation_id a)), (''operation_digest'', JStr (ca_operation_digest a)),
            (''incoming_command_hash'', JStr (ca_incoming_command_hash a)),
            (''stored_command_hash'', text_or_null (ca_stored_command_hash a)),
            (''existing_transition_id'', text_or_null (ca_existing_transition_id a))]
           @ (if ca_revision a = [] then [(''aggregate_revision'', JNull)] else number_member ''aggregate_revision'' (ca_revision a))
           @ number_member ''observed_at_ms'' (ca_observed_at_ms a) @ [(''detail'', JStr (ca_detail a))])"

definition conflict_entry :: "conflict_args \<Rightarrow> string \<Rightarrow> (string \<times> string) list" where
  "conflict_entry a payload =
     [(''conflict_id'', conflict_id a), (''conflict_type'', ca_conflict_type a), (''detail_code'', ca_detail_code a),
      (''operation_id'', ca_operation_id a), (''operation_digest'', ca_operation_digest a),
      (''incoming_command_hash'', ca_incoming_command_hash a), (''stored_command_hash'', ca_stored_command_hash a),
      (''existing_transition_id'', ca_existing_transition_id a), (''aggregate_revision'', ca_revision a),
      (''observed_at_ms'', ca_observed_at_ms a), (''detail'', ca_detail a), (''conflict_json'', payload)]"

definition conflict_result :: "string \<Rightarrow> string \<Rightarrow> string \<Rightarrow> string \<Rightarrow> script_reply" where
  "conflict_result status tid revision detail = Items [RText status, RText tid, RText revision, RText detail]"

definition evidence_unavailable :: "string \<Rightarrow> script_reply" where
  "evidence_unavailable detail = conflict_result ''CONFLICT_EVIDENCE_STORE_UNAVAILABLE'' [] [] detail"

text \<open>The checks on the pair of keys; the result is the number of recorded conflicts.\<close>

definition conflict_count :: "server \<Rightarrow> string \<Rightarrow> string \<Rightarrow> string + int" where
  "conflict_count srv ikey skey =
     (let index_kind = lua_type srv ikey; stream_kind = lua_type srv skey in
      if index_kind \<noteq> ''none'' \<and> index_kind \<noteq> ''hash'' then Inl ''conflict_index_type_mismatch''
      else if stream_kind \<noteq> ''none'' \<and> stream_kind \<noteq> ''stream'' then Inl ''conflict_stream_type_mismatch''
      else if (index_kind = ''none'') \<noteq> (stream_kind = ''none'') then Inl ''authority_conflict_pair_missing_member''
      else if index_kind = ''none'' then Inr 0
      else (case map_of (lua_hash srv ikey) count_field of
          None \<Rightarrow> Inl ''authority_conflict_count_missing_or_invalid''
        | Some t \<Rightarrow>
            (case lua_tonumber t of
               None \<Rightarrow> Inl ''authority_conflict_count_missing_or_invalid''
             | Some n \<Rightarrow>
                 (if n < 0 then Inl ''authority_conflict_count_missing_or_invalid''
                  else if int (length (lua_hash srv ikey)) \<noteq> n + 1 \<or> int (length (srv_streams srv skey)) \<noteq> n
                  then Inl ''authority_conflict_pair_cardinality_mismatch''
                  else Inr n))))"

definition same_conflict :: "conflict_args \<Rightarrow> (string \<times> pyval) list \<Rightarrow> bool" where
  "same_conflict a existing \<longleftrightarrow>
     map_of existing ''conflict_id'' = Some (PStr (conflict_id a))
     \<and> map_of existing ''conflict_type'' = Some (PStr (ca_conflict_type a))
     \<and> map_of existing ''detail_code'' = Some (PStr (ca_detail_code a))
     \<and> map_of existing ''canonical_aggregate_identity_sha256'' = Some (PStr (ca_identity_sha a))
     \<and> map_of existing ''operation_id'' = Some (PStr (ca_operation_id a))
     \<and> map_of existing ''operation_digest'' = Some (PStr (ca_operation_digest a))
     \<and> map_of existing ''incoming_command_hash'' = Some (PStr (ca_incoming_command_hash a))
     \<and> map_of existing ''stored_command_hash'' = Some (py_of_json (text_or_null (ca_stored_command_hash a)))"

definition conflict_record_script :: "cjson_encoder \<Rightarrow> json_decoder \<Rightarrow> string \<Rightarrow> string \<Rightarrow> conflict_args
    \<Rightarrow> server \<Rightarrow> server \<times> (string + script_reply)" where
  "conflict_record_script C D ikey skey a srv =
     (case conflict_count srv ikey skey of
        Inl detail \<Rightarrow> (srv, Inr (evidence_unavailable detail))
      | Inr n \<Rightarrow>
          (let index = lua_hash srv ikey; payload = C (conflict_payload a);
               answer = conflict_result (ca_conflict_type a) (ca_existing_transition_id a) (ca_revision a) (ca_detail a)
           in case map_of index (conflict_id a) of
             None \<Rightarrow>
               (\<lparr>srv_view = (srv_view srv)
                   (ikey \<mapsto> RHash (AList.update count_field (lua_tostring (n + 1)) (AList.update (conflict_id a) payload index)),
                    skey \<mapsto> ROther KStream),
                 srv_streams = (srv_streams srv)(skey := srv_streams srv skey @ [conflict_entry a payload])\<rparr>,
                Inr answer)
           | Some stored \<Rightarrow>
               (case D stored of
                  None \<Rightarrow> (srv, Inl ''cjson'')
                | Some existing \<Rightarrow>
                    (srv, Inr (if same_conflict a existing then answer
                               else evidence_unavailable ''authority_conflict_index_identity_mismatch'')))))"

section \<open>Operations of the store\<close>

record conflict =
  cf_status :: commit_status
  cf_operation_id :: string
  cf_incoming_command_hash :: string
  cf_observed_at_ms :: int
  cf_detail_code :: string
  cf_stored_command_hash :: "string option"
  cf_existing_transition_id :: "string option"
  cf_aggregate_revision :: "int option"
  cf_detail :: string

definition durable_conflicts :: "commit_status list" where
  "durable_conflicts =
     [CS_IDEMPOTENCY_CONFLICT, CS_AGGREGATE_ALREADY_EXISTS_CONFLICT, CS_STALE_REVISION_CONFLICT,
      CS_FUTURE_REVISION_CONFLICT, CS_ILLEGAL_STATE_TRANSITION, CS_CANONICAL_RECORD_CORRUPTION_CONFLICT]"

definition optional :: "('a \<Rightarrow> store_error + 'a) \<Rightarrow> 'a option \<Rightarrow> store_error + 'a option" where
  "optional f v = (case v of None \<Rightarrow> Inr None | Some x \<Rightarrow> rbind (f x) (\<lambda>y. Inr (Some y)))"

definition text_or_blank :: "string option \<Rightarrow> string" where
  "text_or_blank v = (case v of None \<Rightarrow> [] | Some t \<Rightarrow> t)"

definition conflict_args_of :: "aggregate_identity \<Rightarrow> conflict \<Rightarrow> store_error + conflict_args" where
  "conflict_args_of i c =
     rbind (rguard (cf_status c \<in> set durable_conflicts) (StoreValueError ''status'')) (\<lambda>_.
     rbind (nonempty_text ''operation_id'' (cf_operation_id c)) (\<lambda>oid.
     rbind (sha256_text ''incoming_command_hash'' (cf_incoming_command_hash c)) (\<lambda>incoming.
     rbind (safe_int_value ''observed_at_ms'' 0 (cf_observed_at_ms c)) (\<lambda>ms.
     rbind (nonempty_text ''detail_code'' (cf_detail_code c)) (\<lambda>code.
     rbind (optional (sha256_text ''stored_command_hash'') (cf_stored_command_hash c)) (\<lambda>stored.
     rbind (optional (nonempty_text ''existing_transition_id'') (cf_existing_transition_id c)) (\<lambda>tid.
     rbind (optional (safe_int_value ''aggregate_revision'' 1) (cf_aggregate_revision c)) (\<lambda>rev.
     rbind (operation_digest oid) (\<lambda>digest.
       Inr \<lparr>ca_identity_sha = identity_sha256 i, ca_operation_id = oid, ca_operation_digest = digest,
            ca_incoming_command_hash = incoming, ca_stored_command_hash = text_or_blank stored,
            ca_conflict_type = commit_status_value (cf_status c), ca_detail_code = code,
            ca_observed_at_ms = dec_int ms, ca_existing_transition_id = text_or_blank tid,
            ca_revision = text_or_blank (map_option dec_int rev), ca_detail = cf_detail c\<rparr>)))))))))"

definition record_authority_conflict :: "cjson_encoder \<Rightarrow> json_decoder \<Rightarrow> string \<Rightarrow> delivery \<Rightarrow> aggregate_identity
    \<Rightarrow> conflict \<Rightarrow> server \<Rightarrow> server \<times> (store_error + commit_result)" where
  "record_authority_conflict C D namespace net i c srv =
     (case rbind (conflict_args_of i c) (\<lambda>a. rbind (make_keyspace (identity_sha256 i) namespace) (\<lambda>ks. Inr (a, ks))) of
        Inl e \<Rightarrow> (srv, Inl e)
      | Inr (a, ks) \<Rightarrow>
          (case redis_call net (conflict_record_script C D (conflict_index_key ks) (conflicts_key ks) a) srv of
             (srv', Inl _) \<Rightarrow> (srv', Inl (PersistenceError ''authority conflict script execution failed''))
           | (srv', Inr raw) \<Rightarrow> (srv', parse_commit_result raw)))"

text \<open>\<open>record_conflict\<close>: an operator's note; \<open>entry_id\<close> is the id that the server gives the entry.\<close>

definition record_conflict :: "externals \<Rightarrow> string \<Rightarrow> aggregate_identity \<Rightarrow> string \<Rightarrow> string \<Rightarrow> int \<Rightarrow> pyval \<Rightarrow> string
    \<Rightarrow> server \<Rightarrow> server \<times> (commit_error + string)" where
  "record_conflict E namespace i conflict_type operation_id observed_at_ms detail entry_id srv =
     (case rbind (lift_store (nonempty_text ''conflict_type'' conflict_type)) (\<lambda>_.
           rbind (lift_store (nonempty_text ''operation_id'' operation_id)) (\<lambda>_.
           rbind (lift_store (safe_int_value ''observed_at_ms'' 0 observed_at_ms)) (\<lambda>_.
           rbind (lift_authority (canonical_text E (if detail \<in> {PNone, PMap []} then PMap [] else detail))) (\<lambda>payload.
           rbind (lift_store (make_keyspace (identity_sha256 i) namespace)) (\<lambda>ks. Inr (payload, ks)))))) of
        Inl e \<Rightarrow> (srv, Inl e)
      | Inr (payload, ks) \<Rightarrow>
          (let key = operator_audits_key ks in
           if lua_type srv key \<noteq> ''none'' \<and> lua_type srv key \<noteq> ''stream'' then (srv, Inl (Inr RedisFailure))
           else (\<lparr>srv_view = (srv_view srv)(key \<mapsto> ROther KStream),
                  srv_streams = (srv_streams srv)(key := srv_streams srv key @
                    [[(''conflict_type'', conflict_type), (''operation_id'', operation_id),
                      (''observed_at_ms'', dec_int observed_at_ms), (''detail_json'', payload), (''origin'', ''OPERATOR_NOTE'')]])\<rparr>,
                 Inr entry_id)))"

section \<open>The pair of evidence keys\<close>

definition entry_ids :: "server \<Rightarrow> string \<Rightarrow> string list" where
  "entry_ids srv skey = map (\<lambda>e. data_field e ''conflict_id'') (srv_streams srv skey)"

definition pair_holds :: "server \<Rightarrow> string \<Rightarrow> string \<Rightarrow> string list \<Rightarrow> bool" where
  "pair_holds srv ikey skey ids \<longleftrightarrow>
     distinct ids \<and> list_all sha1_re ids \<and> entry_ids srv skey = ids
     \<and> (if ids = [] then srv_view srv ikey = None \<and> srv_view srv skey = None
        else srv_view srv skey = Some (ROther KStream)
          \<and> (\<exists>h. srv_view srv ikey = Some (RHash h) \<and> distinct (map fst h)
               \<and> fst ` set h = insert count_field (set ids)
               \<and> map_of h count_field = Some (lua_tostring (int (length ids)))))"

lemma count_field_not_id: "sha1_re x \<Longrightarrow> x \<noteq> count_field"
  by (auto simp: sha1_re_def count_field_def)

lemma conflict_id_re [simp]: "sha1_re (conflict_id a)"
  by (simp add: conflict_id_def)

lemma pair_holds_count:
  assumes "pair_holds srv ikey skey ids" and "length ids < 10 ^ 14"
  shows "conflict_count srv ikey skey = Inr (int (length ids))"
proof (cases "ids = []")
  case True
  then show ?thesis using assms(1) by (simp add: pair_holds_def conflict_count_def lua_type_def Let_def)
next
  case False
  then obtain h where h: "srv_view srv ikey = Some (RHash h)" "distinct (map fst h)" "fst ` set h = insert count_field (set ids)"
    "map_of h count_field = Some (lua_tostring (int (length ids)))" "srv_view srv skey = Some (ROther KStream)"
    using assms(1) by (auto simp: pair_holds_def)
  have ids: "distinct ids" "count_field \<notin> set ids" "length (srv_streams srv skey) = length ids"
    using assms(1) count_field_not_id by (auto simp: pair_holds_def list_all_iff entry_ids_def)
  have "length h = card (fst ` set h)" using h(2) by (metis distinct_card length_map set_map)
  also have "\<dots> = Suc (length ids)" using ids by (simp add: h(3) distinct_card)
  finally show ?thesis using h assms(2) ids(3) by (simp add: conflict_count_def lua_type_def lua_hash_def Let_def)
qed

definition note_id :: "string list \<Rightarrow> string \<Rightarrow> string list" where
  "note_id ids x = (if x \<in> set ids then ids else ids @ [x])"

lemma set_keys_update: "fst ` set (AList.update k v h) = insert k (fst ` set h)"
  by (induction h) auto

lemma pair_holds_script:
  assumes pair: "pair_holds srv ikey skey ids" and len: "length ids + 1 < 10 ^ 14" and ne: "ikey \<noteq> skey"
  shows "pair_holds (fst (conflict_record_script C D ikey skey a srv)) ikey skey (note_id ids (conflict_id a))"
proof -
  note count = pair_holds_count [OF pair]
  have keys: "fst ` set (lua_hash srv ikey) = (if ids = [] then {} else insert count_field (set ids))"
    using pair unfolding pair_holds_def by (cases "ids = []") (simp_all add: lua_hash_def, elim conjE exE, simp)
  then have mem: "map_of (lua_hash srv ikey) (conflict_id a) = None \<longleftrightarrow> conflict_id a \<notin> set ids"
    using count_field_not_id [OF conflict_id_re, of a] unfolding map_of_eq_None_iff by auto
  show ?thesis
  proof (cases "conflict_id a \<in> set ids")
    case True
    then obtain stored where "map_of (lua_hash srv ikey) (conflict_id a) = Some stored" using mem by auto
    then have "fst (conflict_record_script C D ikey skey a srv) = srv"
      using count len by (simp add: conflict_record_script_def Let_def split: option.split)
    then show ?thesis using pair True by (simp add: note_id_def)
  next
    case False
    then have none: "map_of (lua_hash srv ikey) (conflict_id a) = None" using mem by simp
    let ?p = "C (conflict_payload a)"
    let ?h = "AList.update count_field (lua_tostring (int (length ids) + 1)) (AList.update (conflict_id a) ?p (lua_hash srv ikey))"
    have srv': "fst (conflict_record_script C D ikey skey a srv) =
        \<lparr>srv_view = (srv_view srv)(ikey \<mapsto> RHash ?h, skey \<mapsto> ROther KStream),
         srv_streams = (srv_streams srv)(skey := srv_streams srv skey @ [conflict_entry a ?p])\<rparr>"
      using count len none by (simp add: conflict_record_script_def Let_def)
    have old: "insert count_field (fst ` set (lua_hash srv ikey)) = insert count_field (set ids)" by (simp add: keys)
    have dist: "distinct (map fst (lua_hash srv ikey))"
      using pair by (auto simp: pair_holds_def lua_hash_def split: if_splits)
    have "distinct (map fst ?h)" using dist by (simp add: distinct_keys_update)
    moreover have "fst ` set ?h = insert count_field (set (ids @ [conflict_id a]))"
      using old by (auto simp: set_keys_update)
    moreover have "map_of ?h count_field = Some (lua_tostring (int (length (ids @ [conflict_id a]))))"
      by (simp add: map_of_update add.commute)
    moreover have "data_field (conflict_entry a ?p) ''conflict_id'' = conflict_id a"
      by (simp add: data_field_def conflict_entry_def)
    ultimately show ?thesis
      using pair False ne by (simp add: srv' pair_holds_def note_id_def entry_ids_def)
  qed
qed

section \<open>Sequences of recorded conflicts\<close>

fun record_all :: "cjson_encoder \<Rightarrow> json_decoder \<Rightarrow> string \<Rightarrow> aggregate_identity \<Rightarrow> server \<Rightarrow> (delivery \<times> conflict) list \<Rightarrow> server" where
  "record_all C D namespace i srv [] = srv"
| "record_all C D namespace i srv ((net, c) # cs) =
     record_all C D namespace i (fst (record_authority_conflict C D namespace net i c srv)) cs"

text \<open>The ids of the conflicts that reach the server, and the list of ids without repetitions.\<close>

definition delivered_ids :: "aggregate_identity \<Rightarrow> (delivery \<times> conflict) list \<Rightarrow> string list" where
  "delivered_ids i cs =
     concat (map (\<lambda>(net, c). case conflict_args_of i c of
       Inr a \<Rightarrow> if net = Request_lost then [] else [conflict_id a] | Inl _ \<Rightarrow> []) cs)"

lemma record_authority_conflict_server:
  assumes "make_keyspace (identity_sha256 i) ns = Inr ks"
  shows "fst (record_authority_conflict C D ns net i c srv) =
    (case conflict_args_of i c of
       Inl _ \<Rightarrow> srv
     | Inr a \<Rightarrow> if net = Request_lost then srv
                else fst (conflict_record_script C D (conflict_index_key ks) (conflicts_key ks) a srv))"
  using assms
  by (cases net) (auto simp: record_authority_conflict_def split: sum.split prod.split)

lemma evidence_keys_differ: "conflict_index_key ks \<noteq> conflicts_key ks"
  by (simp add: conflict_index_key_def conflicts_key_def)

lemma record_all_pair:
  assumes "make_keyspace (identity_sha256 i) ns = Inr ks"
    and "pair_holds srv (conflict_index_key ks) (conflicts_key ks) ids" and "length ids + length cs < 10 ^ 14"
  shows "pair_holds (record_all C D ns i srv cs) (conflict_index_key ks) (conflicts_key ks) (foldl note_id ids (delivered_ids i cs))"
  using assms(2,3)
proof (induction cs arbitrary: srv ids)
  case (Cons nc cs)
  obtain net c where nc: "nc = (net, c)" by (cases nc)
  show ?case
  proof (cases "\<exists>a. conflict_args_of i c = Inr a \<and> net \<noteq> Request_lost")
    case True
    then obtain a where a: "conflict_args_of i c = Inr a" "net \<noteq> Request_lost" by blast
    have "pair_holds (fst (record_authority_conflict C D ns net i c srv)) (conflict_index_key ks) (conflicts_key ks)
        (note_id ids (conflict_id a))"
      using pair_holds_script [OF Cons.prems(1) _ evidence_keys_differ] Cons.prems(2) a
      by (simp add: record_authority_conflict_server [OF assms(1)])
    moreover have "length (note_id ids (conflict_id a)) + length cs < 10 ^ 14" using Cons.prems(2) by (simp add: note_id_def)
    ultimately show ?thesis using Cons.IH a by (simp add: nc delivered_ids_def)
  next
    case False
    then have "fst (record_authority_conflict C D ns net i c srv) = srv"
      by (auto simp: record_authority_conflict_server [OF assms(1)] split: sum.split)
    moreover have "delivered_ids i (nc # cs) = delivered_ids i cs"
      using False by (auto simp: delivered_ids_def nc split: sum.split)
    ultimately show ?thesis using Cons nc by simp
  qed
qed (simp add: delivered_ids_def)

text \<open>
  Conflict evidence is deduplicated and complete: whatever conflicts are recorded for an
  aggregate and whichever requests or replies are lost, the stream then holds exactly one entry for
  every conflict that reached the server, in the order of first arrival, and the index and its counter
  agree with it, so the next call finds the pair consistent.
\<close>

theorem conflict_evidence_deduplicated:
  assumes "make_keyspace (identity_sha256 i) namespace = Inr ks"
    and "srv_view srv (conflict_index_key ks) = None" and "srv_view srv (conflicts_key ks) = None"
    and "srv_streams srv (conflicts_key ks) = []" and "length cs < 10 ^ 14"
  shows "let srv' = record_all C D namespace i srv cs; ids = foldl note_id [] (delivered_ids i cs) in
    entry_ids srv' (conflicts_key ks) = ids \<and> distinct ids \<and> set ids = set (delivered_ids i cs)
    \<and> conflict_count srv' (conflict_index_key ks) (conflicts_key ks) = Inr (int (length ids))"
proof -
  have "pair_holds srv (conflict_index_key ks) (conflicts_key ks) []"
    using assms(2-4) by (simp add: pair_holds_def entry_ids_def)
  from record_all_pair [OF assms(1) this] assms(5)
  have pair: "pair_holds (record_all C D namespace i srv cs) (conflict_index_key ks) (conflicts_key ks) (foldl note_id [] (delivered_ids i cs))"
    by simp
  have "set (foldl note_id ys xs) = set ys \<union> set xs" for xs ys
    by (induction xs arbitrary: ys) (auto simp: note_id_def)
  moreover have len: "length (foldl note_id ys xs) \<le> length ys + length xs" for xs ys
  proof (induction xs arbitrary: ys)
    case (Cons x xs)
    from Cons [of "note_id ys x"] show ?case by (simp add: note_id_def split: if_splits)
  qed simp
  moreover have "length (delivered_ids i cs) \<le> length cs"
    by (induction cs) (auto simp: delivered_ids_def split: sum.split)
  ultimately show ?thesis
    using pair pair_holds_count [OF pair] len [of "[]" "delivered_ids i cs"] assms(5)
    by (simp add: Let_def pair_holds_def)
qed


lemma conflict_args_of_fields:
  assumes "conflict_args_of i c = Inr a"
  shows "ca_conflict_type a = commit_status_value (cf_status c)" "cf_status c \<in> set durable_conflicts"
    "ca_existing_transition_id a = text_or_blank (cf_existing_transition_id c)"
    "ca_revision a = text_or_blank (map_option dec_int (cf_aggregate_revision c))" "ca_detail a = cf_detail c"
    "ca_operation_id a = cf_operation_id c" "ca_detail_code a = cf_detail_code c"
    "is_ascii (ca_identity_sha a)" "is_ascii (ca_operation_digest a)" "is_ascii (ca_incoming_command_hash a)"
    "is_ascii (ca_stored_command_hash a)"
    "\<exists>ms. ca_observed_at_ms a = dec_int ms \<and> 0 \<le> ms \<and> ms \<le> max_safe_integer"
    "\<forall>n. cf_aggregate_revision c = Some n \<longrightarrow> 1 \<le> n \<and> n \<le> max_safe_integer"
    "\<forall>t. cf_existing_transition_id c = Some t \<longrightarrow> t \<noteq> []"
proof -
  have blank: "is_ascii (text_or_blank None)" by (simp add: text_or_blank_def is_ascii_def)
  have some: "text_or_blank (Some t) = t" for t by (simp add: text_or_blank_def)
  have dig: "operation_digest t = Inr d \<Longrightarrow> sha256_re d" for t d by (auto simp: operation_digest_def rbind_Inr_iff)
  from assms show "ca_conflict_type a = commit_status_value (cf_status c)" "cf_status c \<in> set durable_conflicts"
    "ca_existing_transition_id a = text_or_blank (cf_existing_transition_id c)"
    "ca_revision a = text_or_blank (map_option dec_int (cf_aggregate_revision c))" "ca_detail a = cf_detail c"
    "ca_operation_id a = cf_operation_id c" "ca_detail_code a = cf_detail_code c"
    "is_ascii (ca_identity_sha a)" "is_ascii (ca_operation_digest a)" "is_ascii (ca_incoming_command_hash a)"
    "is_ascii (ca_stored_command_hash a)"
    "\<exists>ms. ca_observed_at_ms a = dec_int ms \<and> 0 \<le> ms \<and> ms \<le> max_safe_integer"
    "\<forall>n. cf_aggregate_revision c = Some n \<longrightarrow> 1 \<le> n \<and> n \<le> max_safe_integer"
    "\<forall>t. cf_existing_transition_id c = Some t \<longrightarrow> t \<noteq> []"
    by (auto simp: conflict_args_of_def rbind_Inr_iff result_simps nonempty_text_def sha256_text_def safe_int_value_def
        optional_def blank some dest!: dig intro: sha256_re_ascii identity_sha256_re split: option.splits if_splits)
qed


lemma status_ascii: "is_ascii (commit_status_value s)"
  by (cases s) (simp_all add: is_ascii_def)

lemma conflict_payload_plain:
  assumes "conflict_args_of i c = Inr a" and "is_ascii (cf_operation_id c)" and "is_ascii (cf_detail_code c)"
    and "is_ascii (cf_detail c)" and "\<forall>t. cf_existing_transition_id c = Some t \<longrightarrow> is_ascii t"
  shows "json_plain (conflict_payload a)"
proof -
  note f = conflict_args_of_fields [OF assms(1)]
  obtain ms where ms: "ca_observed_at_ms a = dec_int ms" "0 \<le> ms" "ms \<le> max_safe_integer" using f(12) by blast
  have id: "is_ascii (conflict_id a)" using conflict_id_re [of a] by (simp add: sha1_re_def lower_hex_ascii)
  have tid: "is_ascii (ca_existing_transition_id a)"
    using f(3) assms(5) by (cases "cf_existing_transition_id c") (auto simp: text_or_blank_def is_ascii_def)
  have null: "json_plain (text_or_null t)" if "is_ascii t" for t using that by (simp add: text_or_null_def)
  have rev: "(if ca_revision a = [] then [(''aggregate_revision'', JNull)] else number_member ''aggregate_revision'' (ca_revision a)) =
      [(''aggregate_revision'', case cf_aggregate_revision c of None \<Rightarrow> JNull | Some n \<Rightarrow> JInt n)]"
    by (cases "cf_aggregate_revision c") (simp_all add: f(4) text_or_blank_def number_member_def)
  have rp: "json_plain (case cf_aggregate_revision c of None \<Rightarrow> JNull | Some n \<Rightarrow> JInt n)"
    using f(13) by (cases "cf_aggregate_revision c") (auto simp: max_safe_integer_def)
  have "json_plain (JInt ms)" using ms by (simp add: max_safe_integer_def)
  then show ?thesis
    unfolding conflict_payload_def rev
    using id tid rp ms f(8-11) assms(2-4) status_ascii [of "cf_status c"]
    by (simp add: number_member_def f(1,5-7) null) (simp add: is_ascii_def)
qed

lemma stored_conflict_matches:
  assumes "cjson_inverts D C" and "json_plain (conflict_payload a)"
  shows "\<exists>fs. D (C (conflict_payload a)) = Some fs \<and> same_conflict a fs"
proof -
  obtain kvs where kvs: "conflict_payload a = JObj kvs" "list_all (\<lambda>kv. json_depth (snd kv) = 0) kvs"
    by (simp add: conflict_payload_def number_member_def text_or_null_def split: option.split)
  with assms obtain fs where fs: "D (C (JObj kvs)) = Some fs" "\<And>key. map_of fs key = map_option py_of_json (map_of kvs key)"
    unfolding cjson_inverts_def by metis
  have "same_conflict a fs" unfolding same_conflict_def fs(2) using kvs(1) by (auto simp: conflict_payload_def)
  with fs(1) kvs show ?thesis by auto
qed

definition conflict_answer :: "conflict \<Rightarrow> commit_result" where
  "conflict_answer c = \<lparr>cr_status = cf_status c, cr_transition_id = cf_existing_transition_id c,
     cr_aggregate_revision = cf_aggregate_revision c, cr_detail = cf_detail c\<rparr>"

lemma conflict_reply_parses:
  assumes "conflict_args_of i c = Inr a"
  shows "parse_commit_result (conflict_result (ca_conflict_type a) (ca_existing_transition_id a) (ca_revision a) (ca_detail a))
    = Inr (conflict_answer c)"
proof -
  note f = conflict_args_of_fields [OF assms]
  have st: "find (\<lambda>s. commit_status_value s = commit_status_value (cf_status c)) all_commit_statuses = Some (cf_status c)"
    by (cases "cf_status c") (simp_all add: all_commit_statuses_def)
  have rev: "py_int_text (dec_int n) = Inr n" if "cf_aggregate_revision c = Some n" for n
    using f(13) that by (intro py_int_text_dec_int) auto
  show ?thesis
    using f(14) rev
    by (cases "cf_existing_transition_id c"; cases "cf_aggregate_revision c"; cases "cf_detail c = []")
      (simp_all add: conflict_result_def parse_commit_result_def item_text_def item_at_def f(1,3-5) text_or_blank_def st conflict_answer_def)
qed

text \<open>
  Recording a conflict twice is recording it once: when the evidence pair is consistent and
  does not hold the conflict yet, the first call stores it and answers with the conflict's own status,
  transition, revision and detail; a second call gives the same answer and leaves the server as it is.
\<close>

theorem conflict_recorded_once:
  assumes "cjson_inverts D C" and "make_keyspace (identity_sha256 i) namespace = Inr ks" and "conflict_args_of i c = Inr a"
    and "is_ascii (cf_operation_id c)" and "is_ascii (cf_detail_code c)" and "is_ascii (cf_detail c)"
    and "\<forall>t. cf_existing_transition_id c = Some t \<longrightarrow> is_ascii t"
    and "pair_holds srv (conflict_index_key ks) (conflicts_key ks) ids" and "length ids + 1 < 10 ^ 14"
    and "conflict_id a \<notin> set ids"
  shows "\<exists>srv'. record_authority_conflict C D namespace Delivered i c srv = (srv', Inr (conflict_answer c))
    \<and> entry_ids srv' (conflicts_key ks) = ids @ [conflict_id a]
    \<and> record_authority_conflict C D namespace Delivered i c srv' = (srv', Inr (conflict_answer c))"
proof -
  let ?i = "conflict_index_key ks" and ?s = "conflicts_key ks" and ?id = "conflict_id a"
  define srv' where "srv' = fst (conflict_record_script C D ?i ?s a srv)"
  have pair': "pair_holds srv' ?i ?s (ids @ [?id])"
    using pair_holds_script [OF assms(8,9) evidence_keys_differ, of C D a] assms(10) by (simp add: srv'_def note_id_def)
  have count: "conflict_count srv ?i ?s = Inr (int (length ids))" "conflict_count srv' ?i ?s = Inr (int (length ids) + 1)"
    using pair_holds_count [OF assms(8)] pair_holds_count [OF pair'] assms(9) by (simp_all add: add.commute)
  have none: "map_of (lua_hash srv ?i) ?id = None"
  proof -
    have "fst ` set (lua_hash srv ?i) \<subseteq> insert count_field (set ids)"
      using assms(8) unfolding pair_holds_def by (cases "ids = []") (simp_all add: lua_hash_def, elim conjE exE, simp)
    then show ?thesis using assms(10) count_field_not_id [OF conflict_id_re, of a] unfolding map_of_eq_None_iff by auto
  qed
  let ?answer = "conflict_result (ca_conflict_type a) (ca_existing_transition_id a) (ca_revision a) (ca_detail a)"
  have first: "conflict_record_script C D ?i ?s a srv = (srv', Inr ?answer)"
    using count(1) none by (simp add: srv'_def conflict_record_script_def Let_def)
  have "map_of (lua_hash srv' ?i) ?id = Some (C (conflict_payload a))"
    using count(1) none evidence_keys_differ [of ks] count_field_not_id [OF conflict_id_re, of a]
    by (simp add: srv'_def conflict_record_script_def Let_def lua_hash_def map_of_update)
  moreover obtain fs where "D (C (conflict_payload a)) = Some fs" "same_conflict a fs"
    using stored_conflict_matches [OF assms(1) conflict_payload_plain [OF assms(3-7)]] by blast
  ultimately have second: "conflict_record_script C D ?i ?s a srv' = (srv', Inr ?answer)"
    using count(2) by (simp add: conflict_record_script_def Let_def)
  have "entry_ids srv' ?s = ids @ [?id]" using pair' by (simp add: pair_holds_def)
  then show ?thesis
    using first second assms(2,3) conflict_reply_parses [OF assms(3)]
    by (intro exI [of _ srv']) (simp add: record_authority_conflict_def)
qed

section \<open>Witnesses\<close>

definition demo_conflict :: conflict where
  "demo_conflict = \<lparr>cf_status = CS_STALE_REVISION_CONFLICT, cf_operation_id = ''op-7'',
     cf_incoming_command_hash = replicate 64 (CHR ''a''), cf_observed_at_ms = 12, cf_detail_code = ''stale'',
     cf_stored_command_hash = None, cf_existing_transition_id = None, cf_aggregate_revision = Some 3, cf_detail = []\<rparr>"

definition empty_server :: server where
  "empty_server = \<lparr>srv_view = (\<lambda>_. None), srv_streams = (\<lambda>_. [])\<rparr>"

definition cjson_dumps :: cjson_encoder where
  "cjson_dumps j = json_dumps (\<lambda>_. ''0.0'') j"

lemma cjson_dumps_law: "cjson_inverts json_fields cjson_dumps"
  unfolding cjson_inverts_def
proof (intro allI impI)
  fix kvs
  assume plain: "json_plain (JObj kvs)" and flat: "list_all (\<lambda>kv. json_depth (snd kv) = 0) kvs"
  have "sort_json v = v" if "json_depth v = 0" for v using that by (cases v) simp_all
  then have "map (\<lambda>kv. (fst kv, sort_json (snd kv))) kvs = kvs"
    using flat by (intro map_idI) (simp add: list_all_iff)
  then have "json_loads (cjson_dumps (JObj kvs)) = Inr (py_of_json (JObj (sort_key fst kvs)))"
    using json_loads_dumps [OF plain] by (simp add: cjson_dumps_def)
  moreover have "map_of (map (\<lambda>kv. (fst kv, py_of_json (snd kv))) xs) key = map_option py_of_json (map_of xs key)"
    for xs :: "(string \<times> json) list" and key
    by (induction xs) auto
  moreover have "map_of (sort_key fst kvs) = map_of kvs" using plain by (intro map_of_sort_key) simp
  ultimately show "\<exists>fs. json_fields (cjson_dumps (JObj kvs)) = Some fs
      \<and> (\<forall>key. map_of fs key = map_option py_of_json (map_of kvs key))"
    by (simp add: json_fields_def comp_def)
qed

lemma demo_conflict_args: "\<exists>a. conflict_args_of demo_identity demo_conflict = Inr a"
proof -
  have "sha256_re (replicate 64 (CHR ''a''))" by (simp add: sha256_re_def list_all_iff is_lower_hex_def)
  then show ?thesis
    by (simp add: conflict_args_of_def demo_conflict_def durable_conflicts_def nonempty_text_def sha256_text_def
        safe_int_value_def max_safe_integer_def optional_def operation_digest_def)
qed

theorem conflict_evidence_deduplicated_witness:
  "conflict_count (record_all cjson_dumps json_fields ''hfa:authority:v1'' demo_identity empty_server
      [(Delivered, demo_conflict), (Request_lost, demo_conflict), (Reply_lost, demo_conflict)])
    (conflict_index_key \<lparr>ks_identity_sha256 = identity_sha256 demo_identity, ks_namespace = ''hfa:authority:v1''\<rparr>)
    (conflicts_key \<lparr>ks_identity_sha256 = identity_sha256 demo_identity, ks_namespace = ''hfa:authority:v1''\<rparr>) = Inr 1"
proof -
  let ?cs = "[(Delivered, demo_conflict), (Request_lost, demo_conflict), (Reply_lost, demo_conflict)]"
  obtain a where "conflict_args_of demo_identity demo_conflict = Inr a" using demo_conflict_args by blast
  then have "foldl note_id [] (delivered_ids demo_identity ?cs) = [conflict_id a]"
    by (simp add: delivered_ids_def note_id_def)
  with conflict_evidence_deduplicated [OF demo_keyspace, of empty_server ?cs cjson_dumps json_fields]
  show ?thesis by (simp add: empty_server_def Let_def del: record_all.simps)
qed

theorem conflict_recorded_once_witness:
  "\<exists>srv'. record_authority_conflict cjson_dumps json_fields ''hfa:authority:v1'' Delivered demo_identity demo_conflict empty_server
      = (srv', Inr (conflict_answer demo_conflict))
    \<and> record_authority_conflict cjson_dumps json_fields ''hfa:authority:v1'' Delivered demo_identity demo_conflict srv'
      = (srv', Inr (conflict_answer demo_conflict))"
proof -
  obtain a where a: "conflict_args_of demo_identity demo_conflict = Inr a" using demo_conflict_args by blast
  have asc: "is_ascii (cf_operation_id demo_conflict)" "is_ascii (cf_detail_code demo_conflict)" "is_ascii (cf_detail demo_conflict)"
    "\<forall>t. cf_existing_transition_id demo_conflict = Some t \<longrightarrow> is_ascii t"
    by (simp_all add: demo_conflict_def is_ascii_def)
  have "pair_holds empty_server ikey skey []" for ikey skey by (simp add: pair_holds_def entry_ids_def empty_server_def)
  from conflict_recorded_once [OF cjson_dumps_law demo_keyspace a asc this] show ?thesis by auto
qed

end
