(* ===== verification/CommitScript.thy ===== *)
theory CommitScript
  imports AuthorityConflicts
begin

text \<open>
  The script \<open>src/hfa-core/src/hfa/lua/canonical_authority_commit.lua\<close>, in the order of its text: the
  checks of the arguments, the conflict evidence pair, the incoming payloads, the owner inventory, the
  receipt-first resolution of a repeated operation, the guards on a parent run or a root task, the
  guards on the head, and the writes.

  Everything before the writes only reads, so a guard is a function of the server that returns a
  value or stops: with a raised Lua error, with an answer, or with a conflict, whose evidence is then
  recorded. The run of the script takes the server to the server after it and an error or an answer.
  The Lua runtime of Redis is a parameter (\<open>lua_lib\<close>): \<open>cjson.decode\<close> under \<open>pcall\<close> (a number with an
  integral value is a \<open>JInt\<close>), \<open>cjson.encode\<close>, \<open>tostring\<close> and the conversion to a command argument for
  values that are neither strings nor integers, and the answers of \<open>PTTL\<close>. The script is called with at
  least eight keys and 31 arguments, and arguments 28 and 30 hold arrays of strings; an array with any
  other member is read as a missing guard.
\<close>

section \<open>Lua values\<close>

record lua_lib =
  lb_decode :: "string \<Rightarrow> json option"
  lb_encode :: "json \<Rightarrow> string"
  lb_show :: "json \<Rightarrow> string"
  lb_arg :: "json \<Rightarrow> string"
  lb_pttl :: "string \<Rightarrow> int"

datatype stop =
    Raise string
  | Answer string string string string
  | Conflict string "json option" "string option" string string

text \<open>A table field; a string has the string library behind it, in which none of the names occurs.\<close>

fun lua_field :: "json \<Rightarrow> string \<Rightarrow> json option" where
  "lua_field (JObj kvs) k = map_of kvs k"
| "lua_field _ k = None"

fun is_table :: "json \<Rightarrow> bool" where
  "is_table (JObj kvs) = True"
| "is_table (JArr js) = True"
| "is_table _ = False"

definition lua_index :: "json option \<Rightarrow> string \<Rightarrow> stop + json option" where
  "lua_index v k =
     (case v of
        Some (JObj kvs) \<Rightarrow> Inr (map_of kvs k)
      | Some (JArr js) \<Rightarrow> Inr None
      | Some (JStr s) \<Rightarrow> Inr None
      | _ \<Rightarrow> Inl (Raise ''attempt to index a non-table value''))"

text \<open>Equality of decoded values; two tables are never the same object.\<close>

definition lua_same :: "json option \<Rightarrow> json option \<Rightarrow> bool" where
  "lua_same a b \<longleftrightarrow> a = b \<and> (case a of None \<Rightarrow> True | Some v \<Rightarrow> \<not> is_table v)"

definition decode_table :: "lua_lib \<Rightarrow> string \<Rightarrow> json option" where
  "decode_table L raw = (case lb_decode L raw of None \<Rightarrow> None | Some v \<Rightarrow> if is_table v then Some v else None)"

definition object_fields :: "lua_lib \<Rightarrow> json_decoder" where
  "object_fields L raw =
     (case decode_table L raw of
        None \<Rightarrow> None
      | Some (JObj kvs) \<Rightarrow> Some (map (\<lambda>kv. (fst kv, py_of_json (snd kv))) kvs)
      | Some _ \<Rightarrow> Some [])"

text \<open>The members of an array of strings; the length of a table without integer keys is zero.\<close>

definition text_of :: "json \<Rightarrow> string option" where
  "text_of v = (case v of JStr s \<Rightarrow> Some s | _ \<Rightarrow> None)"

definition table_texts :: "json \<Rightarrow> string list option" where
  "table_texts v =
     (case v of
        JArr js \<Rightarrow> if list_all (\<lambda>x. text_of x \<noteq> None) js then Some (map (the \<circ> text_of) js) else None
      | _ \<Rightarrow> Some [])"

definition decode_texts :: "lua_lib \<Rightarrow> string \<Rightarrow> string list option" where
  "decode_texts L raw = (case decode_table L raw of None \<Rightarrow> None | Some v \<Rightarrow> table_texts v)"

section \<open>Structural checks\<close>

fun all_of :: "(stop + bool) list \<Rightarrow> stop + bool" where
  "all_of [] = Inr True"
| "all_of (c # cs) = rbind c (\<lambda>b. if b then all_of cs else Inr False)"

definition safe_nonneg :: "int \<Rightarrow> bool" where
  "safe_nonneg n \<longleftrightarrow> 0 \<le> n \<and> n \<le> 9007199254740991"

definition exact_nonnegative_integer :: "json option \<Rightarrow> stop + bool" where
  "exact_nonnegative_integer v =
     (case v of
        None \<Rightarrow> Inr False
      | Some (JBool False) \<Rightarrow> Inr False
      | Some (JInt n) \<Rightarrow> Inr (safe_nonneg n)
      | Some (JFloat f) \<Rightarrow> Inr False
      | _ \<Rightarrow> Inl (Raise ''attempt to compare number with another type''))"

definition nonempty_string :: "json option \<Rightarrow> bool" where
  "nonempty_string v = (case v of Some (JStr s) \<Rightarrow> s \<noteq> [] | _ \<Rightarrow> False)"

definition sha256_hex_ok :: "json option \<Rightarrow> bool" where
  "sha256_hex_ok v = (case v of Some (JStr s) \<Rightarrow> sha256_re s | _ \<Rightarrow> False)"

definition sha1_hex_ok :: "json option \<Rightarrow> bool" where
  "sha1_hex_ok v = (case v of Some (JStr s) \<Rightarrow> sha1_re s | _ \<Rightarrow> False)"

definition nullable_string_ok :: "json option \<Rightarrow> bool" where
  "nullable_string_ok v = (case v of Some JNull \<Rightarrow> True | Some (JStr s) \<Rightarrow> True | _ \<Rightarrow> False)"

definition exact_keys :: "json option \<Rightarrow> string list \<Rightarrow> nat \<Rightarrow> bool" where
  "exact_keys v allowed n =
     (case v of
        Some (JObj kvs) \<Rightarrow> list_all (\<lambda>kv. fst kv \<in> set allowed) kvs \<and> length (remdups (map fst kvs)) = n
      | Some (JArr js) \<Rightarrow> js = [] \<and> n = 0
      | _ \<Rightarrow> False)"

definition record_keys :: "string list" where
  "record_keys =
     [''schema_version'', ''transition_id'', ''aggregate_type'', ''canonical_aggregate_identity'',
      ''canonical_aggregate_identity_sha256'', ''from_revision'', ''to_revision'', ''operation_type'', ''operation_id'',
      ''canonical_command_hash'', ''previous_state'', ''next_state'', ''authoritative_metadata_changes'',
      ''child_effects'', ''causation_id'', ''correlation_id'', ''writer_id'', ''committed_at_ms'',
      ''durable_projection_intents'', ''canonical_record_hash'']"

definition receipt_keys :: "string list" where
  "receipt_keys =
     [''operation_id'', ''canonical_command_hash'', ''canonical_record_hash'', ''transition_id'', ''aggregate_revision'',
      ''operation_type'', ''committed_at_ms'']"

definition index_keys :: "string list" where
  "index_keys = [''transition_id'', ''canonical_record_hash'', ''operation_id'', ''aggregate_revision'']"

definition identity_keys :: "string list" where
  "identity_keys = [''aggregate_type'', ''run_id'', ''task_id'']"

definition envelope_keys :: "string list" where
  "envelope_keys = [''payload'', ''storage_sha1'']"

text \<open>The identity is a table once its keys are checked, so \<open>lua_field\<close> reads it.\<close>

definition identity_member :: "json \<Rightarrow> string \<Rightarrow> json option" where
  "identity_member v k = (case lua_field v ''canonical_aggregate_identity'' of None \<Rightarrow> None | Some i \<Rightarrow> lua_field i k)"

definition consecutive :: "json option \<Rightarrow> json option \<Rightarrow> bool" where
  "consecutive a b = (case (a, b) of (Some (JInt m), Some (JInt n)) \<Rightarrow> n = m + 1 | _ \<Rightarrow> False)"

definition validate_record_structure :: "json \<Rightarrow> stop + bool" where
  "validate_record_structure v = all_of
     [Inr (exact_keys (Some v) record_keys 20),
      Inr (lua_field v ''schema_version'' = Some (JStr ''ctr.v1'')),
      Inr (nonempty_string (lua_field v ''transition_id'')),
      Inr (lua_field v ''aggregate_type'' \<in> {Some (JStr ''task''), Some (JStr ''run'')}),
      Inr (exact_keys (lua_field v ''canonical_aggregate_identity'') identity_keys 3),
      Inr (identity_member v ''aggregate_type'' = lua_field v ''aggregate_type''),
      Inr (nonempty_string (identity_member v ''run_id'')),
      Inr (sha256_hex_ok (lua_field v ''canonical_aggregate_identity_sha256'')),
      exact_nonnegative_integer (lua_field v ''from_revision''),
      exact_nonnegative_integer (lua_field v ''to_revision''),
      Inr (consecutive (lua_field v ''from_revision'') (lua_field v ''to_revision'')),
      Inr (nonempty_string (lua_field v ''operation_type'')),
      Inr (nonempty_string (lua_field v ''operation_id'')),
      Inr (sha256_hex_ok (lua_field v ''canonical_command_hash'')),
      Inr (sha256_hex_ok (lua_field v ''canonical_record_hash'')),
      Inr (nullable_string_ok (lua_field v ''previous_state'')),
      Inr (nullable_string_ok (lua_field v ''next_state'')),
      Inr (nullable_string_ok (lua_field v ''causation_id'')),
      Inr (nullable_string_ok (lua_field v ''correlation_id'')),
      Inr (nonempty_string (lua_field v ''writer_id'')),
      exact_nonnegative_integer (lua_field v ''committed_at_ms''),
      Inr (case lua_field v ''durable_projection_intents'' of None \<Rightarrow> False | Some t \<Rightarrow> is_table t),
      Inr (if lua_field v ''aggregate_type'' = Some (JStr ''task'') then nonempty_string (identity_member v ''task_id'')
           else identity_member v ''task_id'' = Some JNull)]"

definition at_least_one :: "json option \<Rightarrow> bool" where
  "at_least_one v = (case v of Some (JInt n) \<Rightarrow> 1 \<le> n | _ \<Rightarrow> False)"

definition validate_receipt_structure :: "json \<Rightarrow> stop + bool" where
  "validate_receipt_structure v = all_of
     [Inr (exact_keys (Some v) receipt_keys 7),
      Inr (nonempty_string (lua_field v ''operation_id'')),
      Inr (sha256_hex_ok (lua_field v ''canonical_command_hash'')),
      Inr (sha256_hex_ok (lua_field v ''canonical_record_hash'')),
      Inr (nonempty_string (lua_field v ''transition_id'')),
      exact_nonnegative_integer (lua_field v ''aggregate_revision''),
      Inr (at_least_one (lua_field v ''aggregate_revision'')),
      Inr (nonempty_string (lua_field v ''operation_type'')),
      exact_nonnegative_integer (lua_field v ''committed_at_ms'')]"

definition validate_index_structure :: "json \<Rightarrow> stop + bool" where
  "validate_index_structure v = all_of
     [Inr (exact_keys (Some v) index_keys 4),
      Inr (nonempty_string (lua_field v ''transition_id'')),
      Inr (sha256_hex_ok (lua_field v ''canonical_record_hash'')),
      Inr (nonempty_string (lua_field v ''operation_id'')),
      exact_nonnegative_integer (lua_field v ''aggregate_revision''),
      Inr (at_least_one (lua_field v ''aggregate_revision''))]"

section \<open>Stored proofs\<close>

definition envelope_of :: "lua_lib \<Rightarrow> string \<Rightarrow> string" where
  "envelope_of L payload =
     lb_encode L (JObj [(''payload'', JStr payload), (''storage_sha1'', JStr (sha1_hexdigest payload))])"

definition open_envelope :: "lua_lib \<Rightarrow> string option \<Rightarrow> (string \<times> json) option" where
  "open_envelope L raw =
     (case raw of
        None \<Rightarrow> None
      | Some text \<Rightarrow>
          (case decode_table L text of
             None \<Rightarrow> None
           | Some env \<Rightarrow>
               (case (exact_keys (Some env) envelope_keys 2, lua_field env ''payload'', lua_field env ''storage_sha1'') of
                  (True, Some (JStr payload), Some (JStr digest)) \<Rightarrow>
                    (if sha1_re digest \<and> digest = sha1_hexdigest payload
                     then map_option (Pair payload) (decode_table L payload) else None)
                | _ \<Rightarrow> None)))"

record stored_proof =
  pf_record_payload :: string
  pf_receipt_payload :: string
  pf_index_payload :: string
  pf_record :: json
  pf_receipt :: json

definition proof_consistent :: "json \<Rightarrow> json \<Rightarrow> json \<Rightarrow> string \<Rightarrow> string \<Rightarrow> bool" where
  "proof_consistent r rc ix expected_identity expected_operation_id \<longleftrightarrow>
     lua_field r ''canonical_aggregate_identity_sha256'' = Some (JStr expected_identity)
     \<and> lua_field r ''operation_id'' = Some (JStr expected_operation_id)
     \<and> lua_field rc ''operation_id'' = Some (JStr expected_operation_id)
     \<and> lua_field rc ''operation_type'' = lua_field r ''operation_type''
     \<and> lua_field rc ''aggregate_revision'' = lua_field r ''to_revision''
     \<and> lua_field rc ''transition_id'' = lua_field r ''transition_id''
     \<and> lua_field rc ''canonical_command_hash'' = lua_field r ''canonical_command_hash''
     \<and> lua_field rc ''canonical_record_hash'' = lua_field r ''canonical_record_hash''
     \<and> lua_field rc ''committed_at_ms'' = lua_field r ''committed_at_ms''
     \<and> lua_field ix ''transition_id'' = lua_field r ''transition_id''
     \<and> lua_field ix ''canonical_record_hash'' = lua_field r ''canonical_record_hash''
     \<and> lua_field ix ''operation_id'' = lua_field r ''operation_id''
     \<and> lua_field ix ''aggregate_revision'' = lua_field r ''to_revision''"

definition validate_proof :: "lua_lib \<Rightarrow> string option \<Rightarrow> string option \<Rightarrow> string option \<Rightarrow> string \<Rightarrow> string
    \<Rightarrow> stop + (string + stored_proof)" where
  "validate_proof L record_raw receipt_raw index_raw expected_identity expected_operation_id =
     (case (open_envelope L record_raw, open_envelope L receipt_raw, open_envelope L index_raw) of
        (Some (rec_text, r), Some (rcpt_text, rc), Some (idx_text, ix)) \<Rightarrow>
          rbind (all_of [validate_record_structure r, validate_receipt_structure rc, validate_index_structure ix]) (\<lambda>ok.
            Inr (if \<not> ok then Inl ''stored_proof_semantic_invalid''
                 else if \<not> proof_consistent r rc ix expected_identity expected_operation_id
                 then Inl ''stored_receipt_record_index_mismatch''
                 else Inr \<lparr>pf_record_payload = rec_text, pf_receipt_payload = rcpt_text,
                           pf_index_payload = idx_text, pf_record = r, pf_receipt = rc\<rparr>))
      | _ \<Rightarrow> Inr (Inl ''stored_storage_integrity_mismatch''))"

section \<open>Arguments\<close>

record commit_argv =
  av_identity_sha :: string
  av_expected_revision :: string
  av_next_revision :: string
  av_previous_is_null :: string
  av_previous_state :: string
  av_next_is_null :: string
  av_next_state :: string
  av_transition_id :: string
  av_record_hash :: string
  av_command_hash :: string
  av_operation_id :: string
  av_operation_digest :: string
  av_operation_type :: string
  av_committed_at_ms :: string
  av_index_json :: string
  av_record_json :: string
  av_receipt_json :: string
  av_intents_json :: string
  av_is_create :: string
  av_op_status :: string
  av_op_record_sha1 :: string
  av_op_receipt_sha1 :: string
  av_op_index_sha1 :: string
  av_head_status :: string
  av_head_record_sha1 :: string
  av_head_receipt_sha1 :: string
  av_head_index_sha1 :: string
  av_parent_guard :: string
  av_root_required :: string
  av_creation_proof :: string
  av_owner_mode :: string

definition read_argv :: "string list \<Rightarrow> commit_argv" where
  "read_argv a =
     \<lparr>av_identity_sha = a ! 0, av_expected_revision = a ! 1, av_next_revision = a ! 2, av_previous_is_null = a ! 3,
      av_previous_state = a ! 4, av_next_is_null = a ! 5, av_next_state = a ! 6, av_transition_id = a ! 7,
      av_record_hash = a ! 8, av_command_hash = a ! 9, av_operation_id = a ! 10, av_operation_digest = a ! 11,
      av_operation_type = a ! 12, av_committed_at_ms = a ! 13, av_index_json = a ! 14, av_record_json = a ! 15,
      av_receipt_json = a ! 16, av_intents_json = a ! 17, av_is_create = a ! 18, av_op_status = a ! 19,
      av_op_record_sha1 = a ! 20, av_op_receipt_sha1 = a ! 21, av_op_index_sha1 = a ! 22, av_head_status = a ! 23,
      av_head_record_sha1 = a ! 24, av_head_receipt_sha1 = a ! 25, av_head_index_sha1 = a ! 26,
      av_parent_guard = a ! 27, av_root_required = a ! 28, av_creation_proof = a ! 29, av_owner_mode = a ! 30\<rparr>"

text \<open>The numbers among the arguments: expected revision, next revision and commit time.\<close>

definition safe_number :: "string \<Rightarrow> int option" where
  "safe_number t = (case lua_tonumber t of None \<Rightarrow> None | Some n \<Rightarrow> if safe_nonneg n then Some n else None)"

definition refuse_with :: "string \<Rightarrow> string \<Rightarrow> stop + 'a" where
  "refuse_with status detail = Inl (Answer status [] [] detail)"

definition invalid_plan :: "string \<Rightarrow> stop + 'a" where
  "invalid_plan = refuse_with ''INVALID_COMMIT_PLAN''"

definition retry :: "string \<Rightarrow> stop + 'a" where
  "retry = refuse_with ''PREVALIDATION_RETRY_REQUIRED''"

definition illegal :: "string \<Rightarrow> stop + 'a" where
  "illegal = refuse_with ''ILLEGAL_STATE_TRANSITION''"

definition corrupt :: "string \<Rightarrow> stop + 'a" where
  "corrupt = refuse_with ''CANONICAL_RECORD_CORRUPTION_CONFLICT''"

definition corruption_conflict :: "json option \<Rightarrow> string option \<Rightarrow> string \<Rightarrow> string \<Rightarrow> stop + 'a" where
  "corruption_conflict stored existing revision detail =
     Inl (Conflict ''CANONICAL_RECORD_CORRUPTION_CONFLICT'' stored existing revision detail)"

definition require_that :: "bool \<Rightarrow> stop + unit \<Rightarrow> stop + unit" where
  "require_that ok otherwise = (if ok then Inr () else otherwise)"

definition prevalidation_status_ok :: "string \<Rightarrow> bool" where
  "prevalidation_status_ok t \<longleftrightarrow> t \<in> {''ABSENT'', ''VALID'', ''INVALID''}"

record commit_numbers =
  cn_expected :: int
  cn_next :: int
  cn_committed_at :: int

definition check_arguments :: "commit_argv \<Rightarrow> stop + commit_numbers" where
  "check_arguments av =
     (case (safe_number (av_expected_revision av), safe_number (av_next_revision av)) of
        (Some m, Some n) \<Rightarrow>
          rbind (require_that (n = m + 1) (invalid_plan ''non_contiguous_revision'')) (\<lambda>_.
          case safe_number (av_committed_at_ms av) of
            None \<Rightarrow> invalid_plan ''invalid_committed_at_ms''
          | Some ms \<Rightarrow>
              rbind (require_that (av_previous_is_null av \<in> {''0'', ''1''}) (invalid_plan ''invalid_previous_null_flag'')) (\<lambda>_.
              rbind (require_that (av_next_is_null av \<in> {''0'', ''1''}) (invalid_plan ''invalid_next_null_flag'')) (\<lambda>_.
              rbind (require_that (sha256_re (av_identity_sha av) \<and> sha256_re (av_record_hash av) \<and> sha256_re (av_command_hash av)
                  \<and> sha256_re (av_operation_digest av) \<and> av_transition_id av \<noteq> [] \<and> av_operation_id av \<noteq> []
                  \<and> av_operation_type av \<noteq> [] \<and> prevalidation_status_ok (av_op_status av)
                  \<and> prevalidation_status_ok (av_head_status av))
                (invalid_plan ''invalid_identity_hash_or_prevalidation_fields'')) (\<lambda>_.
                Inr \<lparr>cn_expected = m, cn_next = n, cn_committed_at = ms\<rparr>))))
      | _ \<Rightarrow> invalid_plan ''non_contiguous_revision'')"

section \<open>Conflict evidence\<close>

definition conflict_pair_state :: "server \<Rightarrow> string \<Rightarrow> string \<Rightarrow> string + int" where
  "conflict_pair_state srv ikey skey =
     (let index_kind = lua_type srv ikey; stream_kind = lua_type srv skey in
      if index_kind \<noteq> ''none'' \<and> index_kind \<noteq> ''hash'' then Inl ''conflict_index_type_mismatch''
      else if stream_kind \<noteq> ''none'' \<and> stream_kind \<noteq> ''stream'' then Inl ''conflict_stream_type_mismatch''
      else if (index_kind = ''none'') \<noteq> (stream_kind = ''none'') then Inl ''authority_conflict_pair_missing_member''
      else if index_kind = ''none'' then Inr 0
      else (case map_of (lua_hash srv ikey) count_field of
          None \<Rightarrow> Inl ''authority_conflict_count_missing_or_invalid''
        | Some t \<Rightarrow>
            (case safe_number t of
               None \<Rightarrow> Inl ''authority_conflict_count_missing_or_invalid''
             | Some n \<Rightarrow>
                 (if int (length (lua_hash srv ikey)) \<noteq> n + 1 \<or> int (length (srv_streams srv skey)) \<noteq> n
                  then Inl ''authority_conflict_pair_cardinality_mismatch''
                  else Inr n))))"

text \<open>
  A stored command hash comes from a head field or, unvalidated, from a decoded record. \<open>nil\<close> and
  \<open>false\<close> count as absent; \<open>string.len\<close> accepts strings and numbers only.
\<close>

definition hash_text :: "lua_lib \<Rightarrow> json option \<Rightarrow> string option" where
  "hash_text L v =
     (case v of
        None \<Rightarrow> Some []
      | Some (JBool False) \<Rightarrow> Some []
      | Some (JStr s) \<Rightarrow> Some s
      | Some (JInt n) \<Rightarrow> Some (lua_tostring n)
      | Some (JFloat f) \<Rightarrow> Some (lb_show L (JFloat f))
      | _ \<Rightarrow> None)"

definition hash_json :: "json option \<Rightarrow> json" where
  "hash_json v = (case v of None \<Rightarrow> JNull | Some (JBool False) \<Rightarrow> JNull | Some x \<Rightarrow> x)"

definition hash_argument :: "lua_lib \<Rightarrow> json option \<Rightarrow> string" where
  "hash_argument L v =
     (case v of None \<Rightarrow> [] | Some (JBool False) \<Rightarrow> [] | Some (JStr s) \<Rightarrow> s | Some x \<Rightarrow> lb_arg L x)"

definition or_empty :: "string option \<Rightarrow> string" where
  "or_empty t = (case t of None \<Rightarrow> [] | Some s \<Rightarrow> s)"

definition emitted_id :: "commit_argv \<Rightarrow> string \<Rightarrow> string \<Rightarrow> string \<Rightarrow> string" where
  "emitted_id av ctype stored_text detail =
     sha1_hexdigest (concat (map length_prefix
       [av_identity_sha av, av_operation_id av, av_command_hash av, stored_text, ctype, detail]))"

definition emitted_payload :: "commit_argv \<Rightarrow> int \<Rightarrow> string \<Rightarrow> string \<Rightarrow> json option \<Rightarrow> string option \<Rightarrow> string \<Rightarrow> json" where
  "emitted_payload av ms cid ctype stored existing detail =
     JObj [(''conflict_id'', JStr cid), (''conflict_type'', JStr ctype), (''detail_code'', JStr detail),
           (''canonical_aggregate_identity_sha256'', JStr (av_identity_sha av)), (''operation_id'', JStr (av_operation_id av)),
           (''operation_digest'', JStr (av_operation_digest av)), (''incoming_command_hash'', JStr (av_command_hash av)),
           (''stored_command_hash'', hash_json stored),
           (''existing_transition_id'', (case existing of None \<Rightarrow> JNull | Some t \<Rightarrow> JStr t)),
           (''observed_at_ms'', JInt ms), (''detail'', JStr detail)]"

definition emitted_entry :: "lua_lib \<Rightarrow> commit_argv \<Rightarrow> string \<Rightarrow> string \<Rightarrow> json option \<Rightarrow> string option \<Rightarrow> string \<Rightarrow> string
    \<Rightarrow> (string \<times> string) list" where
  "emitted_entry L av cid ctype stored existing detail payload =
     [(''conflict_id'', cid), (''conflict_type'', ctype), (''detail_code'', detail),
      (''operation_id'', av_operation_id av), (''operation_digest'', av_operation_digest av),
      (''incoming_command_hash'', av_command_hash av), (''stored_command_hash'', hash_argument L stored),
      (''existing_transition_id'', or_empty existing), (''observed_at_ms'', av_committed_at_ms av),
      (''detail'', detail), (''conflict_json'', payload)]"

definition same_emitted :: "commit_argv \<Rightarrow> string \<Rightarrow> string \<Rightarrow> json option \<Rightarrow> string \<Rightarrow> json \<Rightarrow> bool" where
  "same_emitted av cid ctype stored detail existing \<longleftrightarrow>
     lua_field existing ''conflict_id'' = Some (JStr cid) \<and> lua_field existing ''conflict_type'' = Some (JStr ctype)
     \<and> lua_field existing ''detail_code'' = Some (JStr detail)
     \<and> lua_field existing ''canonical_aggregate_identity_sha256'' = Some (JStr (av_identity_sha av))
     \<and> lua_field existing ''operation_id'' = Some (JStr (av_operation_id av))
     \<and> lua_field existing ''operation_digest'' = Some (JStr (av_operation_digest av))
     \<and> lua_field existing ''incoming_command_hash'' = Some (JStr (av_command_hash av))
     \<and> lua_field existing ''stored_command_hash'' = Some (hash_json stored)"

definition emit_conflict :: "lua_lib \<Rightarrow> string list \<Rightarrow> commit_argv \<Rightarrow> int \<Rightarrow> int \<Rightarrow> string \<Rightarrow> json option \<Rightarrow> string option
    \<Rightarrow> string \<Rightarrow> string \<Rightarrow> server \<Rightarrow> server \<times> (string + script_reply)" where
  "emit_conflict L keys av ms n ctype stored existing revision detail srv =
     (case hash_text L stored of
        None \<Rightarrow> (srv, Inl ''bad argument to len'')
      | Some stored_text \<Rightarrow>
          (let cid = emitted_id av ctype stored_text detail;
               payload = lb_encode L (emitted_payload av ms cid ctype stored existing detail);
               index = lua_hash srv (keys ! 6);
               answer = conflict_result ctype (or_empty existing) revision detail
           in case map_of index cid of
                None \<Rightarrow>
                  (\<lparr>srv_view = (srv_view srv)
                      (keys ! 6 \<mapsto> RHash (AList.update count_field (lua_tostring (n + 1)) (AList.update cid payload index)),
                       keys ! 7 \<mapsto> ROther KStream),
                    srv_streams = (srv_streams srv)
                      (keys ! 7 := srv_streams srv (keys ! 7) @ [emitted_entry L av cid ctype stored existing detail payload])\<rparr>,
                   Inr answer)
              | Some text \<Rightarrow>
                  (srv, Inr (case decode_table L text of
                     None \<Rightarrow> evidence_unavailable ''authority_conflict_index_identity_mismatch''
                   | Some e \<Rightarrow> if same_emitted av cid ctype stored detail e then answer
                       else evidence_unavailable ''authority_conflict_index_identity_mismatch''))))"

section \<open>Incoming payloads\<close>

definition demand :: "stop + bool \<Rightarrow> stop + unit \<Rightarrow> stop + unit" where
  "demand c otherwise = rbind c (\<lambda>ok. require_that ok otherwise)"

definition structure_ok :: "(json \<Rightarrow> stop + bool) \<Rightarrow> json option \<Rightarrow> stop + bool" where
  "structure_ok f v = (case v of None \<Rightarrow> Inr False | Some t \<Rightarrow> f t)"

definition has_members :: "json \<Rightarrow> (string \<times> json) list \<Rightarrow> bool" where
  "has_members v expected \<longleftrightarrow> list_all (\<lambda>(k, x). lua_field v k = Some x) expected"

definition incoming_record :: "lua_lib \<Rightarrow> commit_argv \<Rightarrow> commit_numbers \<Rightarrow> stop + json" where
  "incoming_record L av cn =
     (let ix = decode_table L (av_index_json av); r = decode_table L (av_record_json av);
          rc = decode_table L (av_receipt_json av); intents = decode_table L (av_intents_json av)
      in rbind (demand (structure_ok validate_index_structure ix) (invalid_plan ''transition_index_json_invalid'')) (\<lambda>_.
         rbind (demand (structure_ok validate_record_structure r) (invalid_plan ''record_json_invalid'')) (\<lambda>_.
         rbind (demand (structure_ok validate_receipt_structure rc) (invalid_plan ''receipt_json_invalid'')) (\<lambda>_.
         rbind (require_that (intents \<noteq> None) (invalid_plan ''projection_intents_json_invalid'')) (\<lambda>_.
         rbind (require_that (has_members (the ix)
             [(''transition_id'', JStr (av_transition_id av)), (''canonical_record_hash'', JStr (av_record_hash av)),
              (''operation_id'', JStr (av_operation_id av)), (''aggregate_revision'', JInt (cn_next cn))])
           (invalid_plan ''transition_index_argument_mismatch'')) (\<lambda>_.
         rbind (require_that (has_members (the r)
             [(''canonical_aggregate_identity_sha256'', JStr (av_identity_sha av)), (''from_revision'', JInt (cn_expected cn)),
              (''to_revision'', JInt (cn_next cn)), (''transition_id'', JStr (av_transition_id av)),
              (''canonical_record_hash'', JStr (av_record_hash av)), (''canonical_command_hash'', JStr (av_command_hash av)),
              (''operation_id'', JStr (av_operation_id av)), (''operation_type'', JStr (av_operation_type av)),
              (''committed_at_ms'', JInt (cn_committed_at cn))])
           (invalid_plan ''record_argument_mismatch'')) (\<lambda>_.
         rbind (require_that (has_members (the rc)
             [(''operation_id'', JStr (av_operation_id av)), (''operation_type'', JStr (av_operation_type av)),
              (''aggregate_revision'', JInt (cn_next cn)), (''transition_id'', JStr (av_transition_id av)),
              (''canonical_record_hash'', JStr (av_record_hash av)), (''canonical_command_hash'', JStr (av_command_hash av)),
              (''committed_at_ms'', JInt (cn_committed_at cn))])
           (invalid_plan ''receipt_argument_mismatch'')) (\<lambda>_. Inr (the r)))))))))"

section \<open>The owner inventory\<close>

definition hget :: "server \<Rightarrow> string \<Rightarrow> string \<Rightarrow> string option" where
  "hget srv key field = map_of (lua_hash srv key) field"

definition owner_key :: "string list \<Rightarrow> string" where
  "owner_key keys = keys ! (length keys - 2)"

definition header_key :: "string list \<Rightarrow> string" where
  "header_key keys = keys ! (length keys - 1)"

definition ends_with :: "string \<Rightarrow> string \<Rightarrow> bool" where
  "ends_with t s \<longleftrightarrow> drop (length s - length t) s = t"

definition nonempty_hash_field :: "server \<Rightarrow> string \<Rightarrow> string \<Rightarrow> bool" where
  "nonempty_hash_field srv key f = (case hget srv key f of None \<Rightarrow> False | Some t \<Rightarrow> t \<noteq> [])"

datatype header_state = NoHeader | CorruptHeader | ActiveHeader int

definition read_header :: "lua_lib \<Rightarrow> server \<Rightarrow> string \<Rightarrow> header_state" where
  "read_header L srv key =
     (if lua_type srv key = ''none'' then NoHeader
      else if lua_type srv key \<noteq> ''hash'' \<or> length (lua_hash srv key) \<noteq> 7 \<or> lb_pttl L key \<noteq> -1 then CorruptHeader
      else (case hget srv key ''owner_count'' of
          None \<Rightarrow> CorruptHeader
        | Some t \<Rightarrow>
            (case safe_number t of
               None \<Rightarrow> CorruptHeader
             | Some n \<Rightarrow>
                 (if hget srv key ''schema'' = Some task_owner_header_schema \<and> hget srv key ''state'' = Some ''ACTIVE''
                     \<and> lua_tostring n = t
                     \<and> list_all (nonempty_hash_field srv key)
                         [''namespace_id'', ''activated_at_ms'', ''inventory_sha256'', ''attestation_sha256'']
                  then ActiveHeader n else CorruptHeader))))"

definition owners_inventory_ok :: "lua_lib \<Rightarrow> server \<Rightarrow> string \<Rightarrow> int \<Rightarrow> bool" where
  "owners_inventory_ok L srv key n =
     (if lua_type srv key = ''none'' then n = 0
      else lua_type srv key = ''hash'' \<and> lb_pttl L key = -1 \<and> int (length (lua_hash srv key)) = n)"

definition owner_value_for :: "commit_argv \<Rightarrow> json \<Rightarrow> (string \<times> string) option" where
  "owner_value_for av r =
     (case (identity_member r ''run_id'', identity_member r ''task_id'', lua_field r ''authoritative_metadata_changes'') of
        (Some (JStr run_id), Some (JStr task_id), Some meta) \<Rightarrow>
          (case lua_field meta ''tenant_id'' of
             Some (JStr tenant) \<Rightarrow>
               (if run_id = [] \<or> task_id = [] \<or> tenant = [] then None
                else Some (concat (map length_prefix
                       [task_owner_schema, run_id, tenant, av_identity_sha av, av_operation_id av, av_operation_digest av,
                        av_transition_id av, av_record_hash av, av_command_hash av, av_committed_at_ms av]), task_id))
           | _ \<Rightarrow> None)
      | _ \<Rightarrow> None)"

definition admit_owner :: "lua_lib \<Rightarrow> server \<Rightarrow> string list \<Rightarrow> commit_argv \<Rightarrow> json \<Rightarrow> stop + (string \<times> string) option" where
  "admit_owner L srv keys av r =
     (if av_operation_type av \<noteq> ''TASK_ADMIT'' then Inr None
      else rbind (require_that (av_owner_mode av \<in> {''0'', ''1''} \<and> length keys \<in> {10, 16}
               \<and> ends_with '':task-owner-header'' (header_key keys) \<and> ends_with '':task-owners'' (owner_key keys))
             (invalid_plan ''task_owner_keys_invalid'')) (\<lambda>_.
           if av_owner_mode av = ''0''
           then rbind (require_that (read_header L srv (header_key keys) = NoHeader)
                  (illegal ''task_owner_legacy_writer_fenced'')) (\<lambda>_. Inr None)
           else (case read_header L srv (header_key keys) of
               NoHeader \<Rightarrow> illegal ''task_owner_namespace_not_activated''
             | CorruptHeader \<Rightarrow> corrupt ''task_owner_header_corrupt''
             | ActiveHeader n \<Rightarrow>
                 rbind (require_that (owners_inventory_ok L srv (owner_key keys) n)
                   (corrupt ''task_owner_inventory_loss_detected'')) (\<lambda>_.
                 case owner_value_for av r of
                   None \<Rightarrow> invalid_plan ''task_owner_metadata_invalid''
                 | Some owner \<Rightarrow> Inr (Some owner)))))"

function owner_fields_of :: "string \<Rightarrow> string list option" where
  "owner_fields_of s =
     (if s = [] then Some []
      else (case position CHR '':'' s of
          None \<Rightarrow> None
        | Some p \<Rightarrow>
            (case lua_tonumber (take p s) of
               None \<Rightarrow> None
             | Some n \<Rightarrow>
                 (if n < 0 \<or> length s < p + 1 + nat n then None
                  else map_option (Cons (take (nat n) (drop (p + 1) s))) (owner_fields_of (drop (p + 1 + nat n) s))))))"
  by pat_completeness auto
termination by (relation "measure length") auto

declare owner_fields_of.simps [simp del]

definition decode_owner :: "string \<Rightarrow> string list option" where
  "decode_owner s =
     (case owner_fields_of s of
        None \<Rightarrow> None
      | Some f \<Rightarrow> if length f = 10 \<and> hd f = task_owner_schema then Some f else None)"

text \<open>The first allocation of a task id: the binding to write, or a refusal.\<close>

definition owner_allocation :: "server \<Rightarrow> string list \<Rightarrow> commit_argv \<Rightarrow> json \<Rightarrow> (string \<times> string) option \<Rightarrow> stop + unit" where
  "owner_allocation srv keys av r owner =
     (case owner of
        None \<Rightarrow> Inr ()
      | Some (val, task_id) \<Rightarrow>
          (case hget srv (owner_key keys) task_id of
             Some stored \<Rightarrow>
               (case decode_owner stored of
                  None \<Rightarrow> corrupt ''task_owner_binding_corrupt''
                | Some f \<Rightarrow>
                    (if f ! 3 = av_identity_sha av \<and> identity_member r ''run_id'' = Some (JStr (f ! 1))
                        \<and> (case lua_field r ''authoritative_metadata_changes'' of
                             None \<Rightarrow> False | Some meta \<Rightarrow> lua_field meta ''tenant_id'' = Some (JStr (f ! 2)))
                     then corrupt ''task_owner_binding_without_canonical_admission''
                     else illegal ''task_owner_conflict''))
           | None \<Rightarrow>
               require_that (srv_view srv (keys ! 0) = None \<and> lua_hash srv (keys ! 1) = [] \<and> lua_hash srv (keys ! 2) = []
                   \<and> lua_hash srv (keys ! 3) = [] \<and> srv_streams srv (keys ! 4) = [] \<and> srv_streams srv (keys ! 5) = [])
                 (corrupt ''task_owner_binding_missing_for_canonical_task'')))"

section \<open>Repeated operations\<close>

definition raw_sha1_of :: "string option \<Rightarrow> string" where
  "raw_sha1_of raw = (case raw of None \<Rightarrow> [] | Some t \<Rightarrow> sha1_hexdigest t)"

text \<open>\<open>tostring\<close> of a decoded revision, blank for \<open>nil\<close> and \<open>false\<close>.\<close>

definition revision_text :: "lua_lib \<Rightarrow> json option \<Rightarrow> string" where
  "revision_text L v =
     (case v of
        None \<Rightarrow> [] | Some (JBool False) \<Rightarrow> [] | Some (JStr s) \<Rightarrow> s | Some (JInt n) \<Rightarrow> lua_tostring n | Some x \<Rightarrow> lb_show L x)"

definition field_text :: "json \<Rightarrow> string \<Rightarrow> string" where
  "field_text v k = (case lua_field v k of Some (JStr s) \<Rightarrow> s | _ \<Rightarrow> [])"

definition owner_binding_error :: "server \<Rightarrow> string list \<Rightarrow> (string \<times> string) option \<Rightarrow> string option" where
  "owner_binding_error srv keys owner =
     (case owner of
        None \<Rightarrow> None
      | Some (val, task_id) \<Rightarrow>
          (case hget srv (owner_key keys) task_id of
             None \<Rightarrow> Some ''task_owner_binding_missing_for_canonical_task''
           | Some stored \<Rightarrow> if stored = val then None else Some ''task_owner_provenance_mismatch''))"

definition answer_repeated :: "lua_lib \<Rightarrow> server \<Rightarrow> string list \<Rightarrow> commit_argv \<Rightarrow> (string \<times> string) option \<Rightarrow> stored_proof \<Rightarrow> stop" where
  "answer_repeated L srv keys av owner pf =
     (let tid = field_text (pf_receipt pf) ''transition_id'';
          revision = revision_text L (lua_field (pf_receipt pf) ''aggregate_revision'');
          stored = lua_field (pf_receipt pf) ''canonical_command_hash''
      in if stored \<noteq> Some (JStr (av_command_hash av)) then Conflict ''IDEMPOTENCY_CONFLICT'' stored (Some tid) revision []
         else if pf_record_payload pf = av_record_json av \<and> pf_receipt_payload pf = av_receipt_json av
              \<and> pf_index_payload pf = av_index_json av
         then (case owner_binding_error srv keys owner of
                 None \<Rightarrow> Answer ''ALREADY_APPLIED'' tid revision []
               | Some detail \<Rightarrow> Answer ''CANONICAL_RECORD_CORRUPTION_CONFLICT'' tid revision detail)
         else Conflict ''CANONICAL_RECORD_CORRUPTION_CONFLICT'' stored (Some tid) revision ''exact_duplicate_payload_mismatch'')"

definition resolve_repeated :: "lua_lib \<Rightarrow> server \<Rightarrow> string list \<Rightarrow> commit_argv \<Rightarrow> (string \<times> string) option \<Rightarrow> stop + unit" where
  "resolve_repeated L srv keys av owner =
     (let receipt_raw = hget srv (keys ! 2) (av_operation_digest av);
          record_raw = hget srv (keys ! 3) (av_operation_digest av)
      in if receipt_raw = None \<and> record_raw = None
         then require_that (av_op_status av = ''ABSENT'') (retry ''operation_proof_disappeared'')
         else
           rbind (require_that (av_op_status av \<noteq> ''ABSENT'') (retry ''operation_proof_appeared'')) (\<lambda>_.
           rbind (require_that (raw_sha1_of record_raw = av_op_record_sha1 av \<and> raw_sha1_of receipt_raw = av_op_receipt_sha1 av)
             (retry ''operation_proof_changed'')) (\<lambda>_.
           rbind (require_that (av_op_status av \<noteq> ''INVALID'')
             (corruption_conflict None None [] ''stored_proof_canonical_validation_failed'')) (\<lambda>_.
           rbind (require_that (av_op_status av = ''VALID'') (invalid_plan ''operation_prevalidation_status_invalid'')) (\<lambda>_.
           rbind (require_that (receipt_raw \<noteq> None \<and> record_raw \<noteq> None)
             (corruption_conflict None None [] ''stored_receipt_proof_incomplete'')) (\<lambda>_.
           case open_envelope L record_raw of
             None \<Rightarrow> corruption_conflict None None [] ''stored_record_envelope_invalid''
           | Some (pre_text, pre) \<Rightarrow>
               (case lua_field pre ''transition_id'' of
                  Some (JStr tid) \<Rightarrow>
                    (let index_raw = hget srv (keys ! 1) tid;
                         fail = corruption_conflict (lua_field pre ''canonical_command_hash'') (Some tid)
                                  (revision_text L (lua_field pre ''to_revision''))
                     in rbind (require_that (raw_sha1_of index_raw = av_op_index_sha1 av) (retry ''operation_index_changed'')) (\<lambda>_.
                        rbind (require_that (index_raw \<noteq> None) (fail ''stored_transition_index_missing'')) (\<lambda>_.
                        rbind (validate_proof L record_raw receipt_raw index_raw (av_identity_sha av) (av_operation_id av)) (\<lambda>p.
                        case p of Inl e \<Rightarrow> fail e | Inr pf \<Rightarrow> Inl (answer_repeated L srv keys av owner pf)))))
                | _ \<Rightarrow> corruption_conflict None None [] ''stored_record_envelope_invalid'')))))))"

section \<open>Guards on a parent run and a root task\<close>

definition parent_keys :: "string list \<Rightarrow> string list" where
  "parent_keys keys = take 6 (drop 8 keys)"

definition expected_creation :: "lua_lib \<Rightarrow> string list \<Rightarrow> string \<Rightarrow> stop + json" where
  "expected_creation L creation detail =
     (let v = decode_table L (creation ! 1)
      in rbind (demand (structure_ok validate_record_structure v) (invalid_plan detail)) (\<lambda>_. Inr (the v)))"

text \<open>The stored proof of the operation that created the run, or the refusal \<open>otherwise\<close>.\<close>

definition stored_creation :: "lua_lib \<Rightarrow> server \<Rightarrow> string \<Rightarrow> string \<Rightarrow> string \<Rightarrow> string \<Rightarrow> string list \<Rightarrow> json \<Rightarrow> stop + json
    \<Rightarrow> stop + json" where
  "stored_creation L srv ikey rckey rkey identity creation v otherwise =
     rbind (validate_proof L (hget srv rkey (creation ! 0)) (hget srv rckey (creation ! 0))
              (hget srv ikey (field_text v ''transition_id'')) identity (field_text v ''operation_id'')) (\<lambda>p.
       case p of
         Inl _ \<Rightarrow> otherwise
       | Inr pf \<Rightarrow>
           (if pf_record_payload pf = creation ! 1 \<and> pf_receipt_payload pf = creation ! 2
               \<and> pf_index_payload pf = creation ! 3
            then Inr (pf_record pf) else otherwise))"

definition is_run_creation :: "json \<Rightarrow> json \<Rightarrow> bool" where
  "is_run_creation origin r \<longleftrightarrow>
     lua_field origin ''operation_type'' = Some (JStr ''RUN_CREATE'')
     \<and> lua_field origin ''aggregate_type'' = Some (JStr ''run'')
     \<and> lua_field origin ''from_revision'' = Some (JInt 0) \<and> lua_field origin ''to_revision'' = Some (JInt 1)
     \<and> identity_member origin ''run_id'' = identity_member r ''run_id''"

definition check_parent_head :: "lua_lib \<Rightarrow> server \<Rightarrow> string list \<Rightarrow> string list \<Rightarrow> string \<Rightarrow> stop + unit" where
  "check_parent_head L srv keys guard label =
     (let checked = authority_head_validate (object_fields L) srv (parent_keys keys) guard
      in require_that (fst checked = ''VALID'') (corrupt (label @ snd checked)))"

definition parent_head_changed :: "server \<Rightarrow> string list \<Rightarrow> string list \<Rightarrow> bool" where
  "parent_head_changed srv keys guard \<longleftrightarrow>
     lua_type srv (keys ! 8) = ''hash'' \<and> hget srv (keys ! 8) ''revision'' \<noteq> Some (guard ! 4)"

definition root_binding :: "commit_argv \<Rightarrow> string list \<Rightarrow> json \<Rightarrow> json option \<Rightarrow> stop + unit" where
  "root_binding av guard r root =
     (case root of
        None \<Rightarrow> require_that (av_root_required av \<noteq> ''1'') (illegal ''parent_run_root_binding_required'')
      | Some v \<Rightarrow>
          rbind (require_that (nonempty_string root) (corrupt ''parent_run_root_binding_invalid'')) (\<lambda>_.
          rbind (require_that (identity_member r ''task_id'' = Some v) (illegal ''parent_run_root_task_mismatch'')) (\<lambda>_.
            require_that (guard ! 10 \<in> {''pending'', ''running''}) (illegal ''parent_run_not_nonterminal''))))"

definition admit_parent_guard :: "lua_lib \<Rightarrow> server \<Rightarrow> string list \<Rightarrow> commit_argv \<Rightarrow> json \<Rightarrow> stop + unit" where
  "admit_parent_guard L srv keys av r =
     (case (decode_texts L (av_parent_guard av), decode_texts L (av_creation_proof av)) of
        (Some guard, Some creation) \<Rightarrow>
          rbind (require_that (length keys = 16 \<and> av_root_required av \<in> {''0'', ''1''})
            (invalid_plan ''task_admit_parent_guard_missing'')) (\<lambda>_.
          if guard = []
          then rbind (require_that (list_all (\<lambda>k. srv_view srv k = None) (parent_keys keys))
                 (retry ''parent_run_proof_appeared'')) (\<lambda>_.
                 require_that (av_root_required av \<noteq> ''1'') (illegal ''parent_run_root_binding_required''))
          else
            rbind (require_that (length guard = 14 \<and> length creation = 4)
              (invalid_plan ''parent_run_create_guard_missing'')) (\<lambda>_.
            rbind (require_that (\<not> parent_head_changed srv keys guard) (retry ''parent_run_head_changed'')) (\<lambda>_.
            rbind (check_parent_head L srv keys guard ''parent_run_'') (\<lambda>_.
            rbind (expected_creation L creation ''parent_run_create_guard_invalid'') (\<lambda>v.
            rbind (stored_creation L srv (keys ! 9) (keys ! 10) (keys ! 11) (guard ! 0) creation v
                     (corrupt ''parent_run_create_proof_changed'')) (\<lambda>origin.
            rbind (require_that (is_run_creation origin r) (corrupt ''parent_run_create_identity_mismatch'')) (\<lambda>_.
            rbind (lua_index (lua_field origin ''authoritative_metadata_changes'') ''root_task_id'') (\<lambda>root.
              root_binding av guard r root))))))))
      | _ \<Rightarrow> invalid_plan ''task_admit_parent_guard_missing'')"

text \<open>\<open>type(x) == "table" and x.k or nil\<close>, and the only row of a one-element array.\<close>

definition table_member :: "json option \<Rightarrow> string \<Rightarrow> json option" where
  "table_member v k =
     (case v of
        None \<Rightarrow> None
      | Some t \<Rightarrow> (case lua_field t k of Some (JBool False) \<Rightarrow> None | x \<Rightarrow> x))"

definition single_row :: "json option \<Rightarrow> json option" where
  "single_row v = (case v of Some (JArr [row]) \<Rightarrow> if is_table row then Some row else None | _ \<Rightarrow> None)"

definition text_value :: "json option \<Rightarrow> string \<Rightarrow> bool" where
  "text_value v t \<longleftrightarrow> v = Some (JStr t)"

definition terminal_evidence_matches :: "string list \<Rightarrow> json \<Rightarrow> json \<Rightarrow> json option \<Rightarrow> string \<Rightarrow> bool" where
  "terminal_evidence_matches guard bound row evidence next_state \<longleftrightarrow>
     text_value (lua_field bound ''identity_sha256'') (guard ! 0)
     \<and> text_value (lua_field bound ''operation_id'') (guard ! 1)
     \<and> text_value (lua_field bound ''transition_id'') (guard ! 3)
     \<and> lua_field bound ''revision'' = map_option JInt (lua_tonumber (guard ! 4))
     \<and> text_value (lua_field bound ''canonical_command_hash'') (guard ! 5)
     \<and> text_value (lua_field bound ''canonical_record_hash'') (guard ! 6)
     \<and> text_value (lua_field bound ''state'') (guard ! 10)
     \<and> text_value (lua_field row ''state'') (guard ! 10)
     \<and> next_state = guard ! 10
     \<and> text_value (table_member evidence ''final_state'') (guard ! 10)
     \<and> table_member evidence ''task_count'' = Some (JInt 1)
     \<and> table_member evidence ''skipped_count'' = Some (JInt 0)
     \<and> table_member evidence ''done_count'' = Some (JInt (if guard ! 10 = ''done'' then 1 else 0))
     \<and> table_member evidence ''failed_count'' = Some (JInt (if guard ! 10 = ''failed'' then 1 else 0))"

definition terminate_guard :: "lua_lib \<Rightarrow> server \<Rightarrow> string list \<Rightarrow> commit_argv \<Rightarrow> json \<Rightarrow> stop + unit" where
  "terminate_guard L srv keys av r =
     (case (decode_texts L (av_parent_guard av), decode_texts L (av_creation_proof av)) of
        (Some guard, Some creation) \<Rightarrow>
          rbind (require_that (length keys = 14 \<and> length guard = 14 \<and> length creation = 4)
            (invalid_plan ''root_task_guard_missing'')) (\<lambda>_.
          rbind (expected_creation L creation ''run_create_guard_invalid'') (\<lambda>v.
          rbind (stored_creation L srv (keys ! 1) (keys ! 2) (keys ! 3) (av_identity_sha av) creation v
                   (corrupt ''run_create_proof_changed'')) (\<lambda>origin.
          rbind (lua_index (lua_field origin ''authoritative_metadata_changes'') ''root_task_id'') (\<lambda>root.
          rbind (require_that (is_run_creation origin r \<and> nonempty_string root)
            (illegal ''run_root_binding_required'')) (\<lambda>_.
          rbind (check_parent_head L srv keys guard ''root_task_'') (\<lambda>_.
          let task = decode_table L (guard ! 7); metadata = lua_field r ''authoritative_metadata_changes'' in
          rbind (lua_index metadata ''terminal_evidence'') (\<lambda>evidence.
          let bound = table_member evidence ''canonical_task''; row = single_row (table_member evidence ''tasks'') in
          rbind (require_that (task \<noteq> None \<and> text_value (lua_field (the task) ''aggregate_type'') ''task'')
            (illegal ''canonical_root_task_mismatch'')) (\<lambda>_.
          rbind (lua_index (lua_field (the task) ''canonical_aggregate_identity'') ''run_id'') (\<lambda>task_run.
          rbind (lua_index (lua_field (the task) ''canonical_aggregate_identity'') ''task_id'') (\<lambda>task_id.
          rbind (lua_index metadata ''tenant_id'') (\<lambda>tenant.
          rbind (lua_index metadata ''run_id'') (\<lambda>run_id.
          rbind (lua_index (lua_field origin ''authoritative_metadata_changes'') ''tenant_id'') (\<lambda>origin_tenant.
          rbind (require_that (lua_same task_run (identity_member origin ''run_id'') \<and> lua_same task_id root
               \<and> (case bound of None \<Rightarrow> False | Some b \<Rightarrow> is_table b) \<and> row \<noteq> None
               \<and> lua_same (lua_field (the row) ''task_id'') root
               \<and> lua_same tenant origin_tenant \<and> lua_same run_id (identity_member origin ''run_id''))
            (illegal ''canonical_root_task_mismatch'')) (\<lambda>_.
          rbind (require_that (guard ! 10 = ''done'' \<and> text_value (lua_field (the task) ''operation_type'') ''TASK_COMPLETE''
               \<or> guard ! 10 = ''failed'' \<and> text_value (lua_field (the task) ''operation_type'') ''TASK_FAIL'')
            (illegal ''canonical_root_task_not_terminal'')) (\<lambda>_.
            require_that (terminal_evidence_matches guard (the bound) (the row) evidence (av_next_state av))
              (illegal ''canonical_root_task_evidence_mismatch''))))))))))))))))
      | _ \<Rightarrow> invalid_plan ''root_task_guard_missing'')"

definition complete_guard :: "lua_lib \<Rightarrow> server \<Rightarrow> string list \<Rightarrow> commit_argv \<Rightarrow> stop + unit" where
  "complete_guard L srv keys av =
     (case decode_texts L (av_parent_guard av) of
        None \<Rightarrow> invalid_plan ''parent_run_guard_missing''
      | Some guard \<Rightarrow>
          rbind (require_that (length keys = 14 \<and> length guard = 14) (invalid_plan ''parent_run_guard_missing'')) (\<lambda>_.
          rbind (require_that (\<not> parent_head_changed srv keys guard) (retry ''parent_run_head_changed'')) (\<lambda>_.
          rbind (check_parent_head L srv keys guard ''parent_run_'') (\<lambda>_.
            require_that (guard ! 10 \<in> {''pending'', ''running''}) (illegal ''parent_run_not_nonterminal'')))))"

definition relation_guard :: "lua_lib \<Rightarrow> server \<Rightarrow> string list \<Rightarrow> commit_argv \<Rightarrow> json \<Rightarrow> (string \<times> string) option \<Rightarrow> stop + unit" where
  "relation_guard L srv keys av r owner =
     (if av_operation_type av = ''TASK_ADMIT''
      then rbind (admit_parent_guard L srv keys av r) (\<lambda>_. owner_allocation srv keys av r owner)
      else if av_operation_type av = ''RUN_TERMINATE'' then terminate_guard L srv keys av r
      else if av_operation_type av \<in> {''TASK_COMPLETE'', ''TASK_FAIL''} then complete_guard L srv keys av
      else Inr ())"

section \<open>The head\<close>

definition sha_field :: "(string \<times> string) list \<Rightarrow> string \<Rightarrow> bool" where
  "sha_field h k = (case map_of h k of None \<Rightarrow> False | Some t \<Rightarrow> sha256_re t)"

definition text_field :: "(string \<times> string) list \<Rightarrow> string \<Rightarrow> bool" where
  "text_field h k = (case map_of h k of None \<Rightarrow> False | Some t \<Rightarrow> t \<noteq> [])"

definition snapshot_complete :: "(string \<times> string) list \<Rightarrow> commit_argv \<Rightarrow> int \<Rightarrow> bool" where
  "snapshot_complete h av revision \<longleftrightarrow>
     1 \<le> revision \<and> map_of h ''canonical_aggregate_identity_sha256'' = Some (av_identity_sha av)
     \<and> map_of h ''state'' \<noteq> None \<and> map_of h ''state_is_null'' \<in> {Some ''0'', Some ''1''}
     \<and> text_field h ''transition_id'' \<and> sha_field h ''canonical_record_hash'' \<and> sha_field h ''canonical_command_hash''
     \<and> text_field h ''operation_id'' \<and> sha_field h ''operation_digest''
     \<and> map_of h ''projection_intents_json'' \<noteq> None
     \<and> (case map_of h ''updated_at_ms'' of None \<Rightarrow> False | Some t \<Rightarrow> safe_number t \<noteq> None)"

definition head_proof_matches :: "(string \<times> string) list \<Rightarrow> int \<Rightarrow> json \<Rightarrow> bool" where
  "head_proof_matches h revision r \<longleftrightarrow>
     lua_field r ''to_revision'' = Some (JInt revision)
     \<and> lua_field r ''transition_id'' = map_option JStr (map_of h ''transition_id'')
     \<and> lua_field r ''canonical_record_hash'' = map_option JStr (map_of h ''canonical_record_hash'')
     \<and> lua_field r ''canonical_command_hash'' = map_option JStr (map_of h ''canonical_command_hash'')
     \<and> lua_field r ''operation_id'' = map_option JStr (map_of h ''operation_id'')"

definition tail_matches :: "server \<Rightarrow> string \<Rightarrow> (string \<times> string) list \<Rightarrow> bool" where
  "tail_matches srv key expected =
     (case stream_tail srv key of None \<Rightarrow> False | Some tail \<Rightarrow> has_fields tail expected)"

definition existing_head_guard :: "lua_lib \<Rightarrow> server \<Rightarrow> string list \<Rightarrow> commit_argv \<Rightarrow> int \<Rightarrow> stop + unit" where
  "existing_head_guard L srv keys av revision =
     (let h = lua_hash srv (keys ! 0); f = (\<lambda>k. or_empty (map_of h k));
          fail = corruption_conflict (map_option JStr (map_of h ''canonical_command_hash'')) (map_of h ''transition_id'')
                   (lua_tostring revision);
          record_raw = hget srv (keys ! 3) (f ''operation_digest''); receipt_raw = hget srv (keys ! 2) (f ''operation_digest'');
          index_raw = hget srv (keys ! 1) (f ''transition_id'')
      in rbind (require_that (length h = 11) (fail ''aggregate_snapshot_field_count_mismatch'')) (\<lambda>_.
         rbind (require_that (snapshot_complete h av revision) (fail ''aggregate_snapshot_incomplete'')) (\<lambda>_.
         rbind (require_that (raw_sha1_of record_raw = av_head_record_sha1 av \<and> raw_sha1_of receipt_raw = av_head_receipt_sha1 av
             \<and> raw_sha1_of index_raw = av_head_index_sha1 av) (retry ''aggregate_head_proof_changed'')) (\<lambda>_.
         rbind (require_that (av_head_status av \<noteq> ''INVALID'') (fail ''aggregate_head_canonical_validation_failed'')) (\<lambda>_.
         rbind (require_that (av_head_status av = ''VALID'') (invalid_plan ''head_prevalidation_status_invalid'')) (\<lambda>_.
         rbind (require_that (record_raw \<noteq> None \<and> receipt_raw \<noteq> None \<and> index_raw \<noteq> None)
           (fail ''aggregate_head_proof_missing'')) (\<lambda>_.
         rbind (validate_proof L record_raw receipt_raw index_raw (av_identity_sha av) (f ''operation_id'')) (\<lambda>p.
         case p of
           Inl e \<Rightarrow> fail e
         | Inr pf \<Rightarrow>
             rbind (require_that (head_proof_matches h revision (pf_record pf)) (fail ''aggregate_head_proof_mismatch'')) (\<lambda>_.
             rbind (require_that (tail_matches srv (keys ! 4)
                 [(''aggregate_revision'', lua_tostring revision), (''transition_id'', f ''transition_id''),
                  (''canonical_record_hash'', f ''canonical_record_hash''),
                  (''canonical_command_hash'', f ''canonical_command_hash''), (''operation_id'', f ''operation_id''),
                  (''operation_digest'', f ''operation_digest''), (''record_json'', pf_record_payload pf),
                  (''receipt_json'', pf_receipt_payload pf)])
               (fail ''transition_log_tail_mismatch'')) (\<lambda>_.
             rbind (require_that (tail_matches srv (keys ! 5)
                 [(''aggregate_revision'', lua_tostring revision), (''transition_id'', f ''transition_id''),
                  (''canonical_record_hash'', f ''canonical_record_hash''), (''operation_id'', f ''operation_id''),
                  (''operation_digest'', f ''operation_digest''),
                  (''projection_intents_json'', f ''projection_intents_json'')])
               (fail ''outbox_tail_mismatch'')) (\<lambda>_.
               require_that (list_all (\<lambda>k. int (length (lua_hash srv (keys ! k))) = revision) [1, 2, 3]
                   \<and> list_all (\<lambda>k. int (length (srv_streams srv (keys ! k))) = revision) [4, 5])
                 (fail ''historical_cardinality_mismatch''))))))))))))"

definition head_guard :: "lua_lib \<Rightarrow> server \<Rightarrow> string list \<Rightarrow> commit_argv \<Rightarrow> stop + int" where
  "head_guard L srv keys av =
     (let present = (srv_view srv (keys ! 0) \<noteq> None); raw = hget srv (keys ! 0) ''revision'';
          revision = (case raw of None \<Rightarrow> 0 | Some t \<Rightarrow> (case lua_tonumber t of None \<Rightarrow> 0 | Some n \<Rightarrow> n))
      in rbind (require_that (present \<or> av_head_status av = ''ABSENT'') (retry ''aggregate_head_disappeared'')) (\<lambda>_.
         rbind (require_that (\<not> present \<or> av_head_status av \<noteq> ''ABSENT'') (retry ''aggregate_head_appeared'')) (\<lambda>_.
         rbind (require_that (\<not> present \<or> raw \<noteq> None) (corruption_conflict None None [] ''aggregate_revision_missing'')) (\<lambda>_.
         rbind (require_that (safe_nonneg revision) (corruption_conflict None None [] ''aggregate_revision_invalid'')) (\<lambda>_.
         rbind (if present then existing_head_guard L srv keys av revision else Inr ()) (\<lambda>_.
           Inr revision))))))"

definition revision_guard :: "server \<Rightarrow> string list \<Rightarrow> commit_argv \<Rightarrow> commit_numbers \<Rightarrow> int \<Rightarrow> stop + unit" where
  "revision_guard srv keys av cn revision =
     (let h = lua_hash srv (keys ! 0); shown = lua_tostring revision in
      if revision < cn_expected cn then Inl (Answer ''FUTURE_REVISION_CONFLICT'' [] shown [])
      else if revision > cn_expected cn
      then (if av_is_create av = ''1'' \<and> cn_expected cn = 0
            then Inl (Conflict ''AGGREGATE_ALREADY_EXISTS_CONFLICT'' (map_option JStr (map_of h ''canonical_command_hash''))
                   (map_of h ''transition_id'') shown [])
            else Inl (Answer ''STALE_REVISION_CONFLICT'' [] shown []))
      else Inr ())"

definition previous_state_ok :: "server \<Rightarrow> string list \<Rightarrow> commit_argv \<Rightarrow> int \<Rightarrow> bool" where
  "previous_state_ok srv keys av revision =
     (let h = lua_hash srv (keys ! 0); has_state = (map_of h ''state'' \<noteq> None);
          is_null = (map_of h ''state_is_null'' = Some ''1'')
      in if av_previous_is_null av = ''1''
         then (if revision \<noteq> 0 then has_state \<and> is_null else has_state \<longrightarrow> is_null)
         else has_state \<and> \<not> is_null \<and> map_of h ''state'' = Some (av_previous_state av))"

section \<open>The script\<close>

definition commit_guards :: "lua_lib \<Rightarrow> server \<Rightarrow> string list \<Rightarrow> commit_argv \<Rightarrow> commit_numbers
    \<Rightarrow> stop + (string \<times> string) option" where
  "commit_guards L srv keys av cn =
     rbind (require_that (list_all (\<lambda>k. lua_type srv (keys ! k) \<in> {''none'', ''hash''}) [0, 1, 2, 3]
         \<and> list_all (\<lambda>k. lua_type srv (keys ! k) \<in> {''none'', ''stream''}) [4, 5])
       (corruption_conflict None None [] ''redis_key_type_mismatch'')) (\<lambda>_.
     rbind (incoming_record L av cn) (\<lambda>r.
     rbind (admit_owner L srv keys av r) (\<lambda>owner.
     rbind (resolve_repeated L srv keys av owner) (\<lambda>_.
     rbind (relation_guard L srv keys av r owner) (\<lambda>_.
     rbind (require_that (hget srv (keys ! 1) (av_transition_id av) = None)
       (corruption_conflict None (Some (av_transition_id av)) [] ''transition_index_collision'')) (\<lambda>_.
     rbind (head_guard L srv keys av) (\<lambda>revision.
     rbind (revision_guard srv keys av cn revision) (\<lambda>_.
     rbind (require_that (previous_state_ok srv keys av revision)
       (Inl (Answer ''ILLEGAL_STATE_TRANSITION'' [] (lua_tostring revision) ''previous_state_mismatch''))) (\<lambda>_.
       Inr owner)))))))))"

definition put_hash :: "string \<Rightarrow> (string \<times> string) list \<Rightarrow> server \<Rightarrow> server" where
  "put_hash key fvs srv = srv\<lparr>srv_view := (srv_view srv)(key \<mapsto> RHash (hset fvs (lua_hash srv key)))\<rparr>"

definition append_stream :: "string \<Rightarrow> (string \<times> string) list \<Rightarrow> server \<Rightarrow> server" where
  "append_stream key entry srv =
     srv\<lparr>srv_view := (srv_view srv)(key \<mapsto> ROther KStream), srv_streams := (srv_streams srv)(key := srv_streams srv key @ [entry])\<rparr>"

definition incremented :: "string option \<Rightarrow> string" where
  "incremented raw = dec_int (1 + (case raw of None \<Rightarrow> 0 | Some t \<Rightarrow> (case lua_tonumber t of None \<Rightarrow> 0 | Some n \<Rightarrow> n)))"

definition write_owner :: "string list \<Rightarrow> (string \<times> string) option \<Rightarrow> server \<Rightarrow> server" where
  "write_owner keys owner srv =
     (case owner of
        None \<Rightarrow> srv
      | Some (val, task_id) \<Rightarrow>
          (let srv1 = put_hash (owner_key keys) [(task_id, val)] srv
           in put_hash (header_key keys) [(''owner_count'', incremented (hget srv1 (header_key keys) ''owner_count''))] srv1))"

definition head_values :: "commit_argv \<Rightarrow> commit_numbers \<Rightarrow> (string \<times> string) list" where
  "head_values av cn =
     [(''canonical_aggregate_identity_sha256'', av_identity_sha av), (''revision'', lua_tostring (cn_next cn)),
      (''state'', av_next_state av), (''state_is_null'', av_next_is_null av), (''transition_id'', av_transition_id av),
      (''canonical_record_hash'', av_record_hash av), (''canonical_command_hash'', av_command_hash av),
      (''operation_id'', av_operation_id av), (''operation_digest'', av_operation_digest av),
      (''projection_intents_json'', av_intents_json av), (''updated_at_ms'', av_committed_at_ms av)]"

definition log_values :: "commit_argv \<Rightarrow> commit_numbers \<Rightarrow> (string \<times> string) list" where
  "log_values av cn =
     [(''aggregate_revision'', lua_tostring (cn_next cn)), (''transition_id'', av_transition_id av),
      (''canonical_record_hash'', av_record_hash av), (''canonical_command_hash'', av_command_hash av),
      (''operation_id'', av_operation_id av), (''operation_digest'', av_operation_digest av),
      (''operation_type'', av_operation_type av), (''committed_at_ms'', av_committed_at_ms av),
      (''record_json'', av_record_json av), (''receipt_json'', av_receipt_json av)]"

definition outbox_values :: "commit_argv \<Rightarrow> commit_numbers \<Rightarrow> (string \<times> string) list" where
  "outbox_values av cn =
     [(''aggregate_revision'', lua_tostring (cn_next cn)), (''transition_id'', av_transition_id av),
      (''canonical_record_hash'', av_record_hash av), (''operation_id'', av_operation_id av),
      (''operation_digest'', av_operation_digest av), (''projection_intents_json'', av_intents_json av),
      (''committed_at_ms'', av_committed_at_ms av)]"

definition write_commit :: "lua_lib \<Rightarrow> string list \<Rightarrow> commit_argv \<Rightarrow> commit_numbers \<Rightarrow> (string \<times> string) option \<Rightarrow> server \<Rightarrow> server" where
  "write_commit L keys av cn owner srv =
     append_stream (keys ! 5) (outbox_values av cn)
       (append_stream (keys ! 4) (log_values av cn)
         (put_hash (keys ! 0) (head_values av cn)
           (put_hash (keys ! 3) [(av_operation_digest av, envelope_of L (av_record_json av))]
             (put_hash (keys ! 2) [(av_operation_digest av, envelope_of L (av_receipt_json av))]
               (put_hash (keys ! 1) [(av_transition_id av, envelope_of L (av_index_json av))]
                 (write_owner keys owner srv))))))"

definition commit_script :: "lua_lib \<Rightarrow> string list \<Rightarrow> string list \<Rightarrow> server \<Rightarrow> server \<times> (string + script_reply)" where
  "commit_script L keys argv srv =
     (let av = read_argv argv in
      case rbind (check_arguments av) (\<lambda>cn.
             case conflict_pair_state srv (keys ! 6) (keys ! 7) of
               Inl detail \<Rightarrow> refuse_with ''CONFLICT_EVIDENCE_STORE_UNAVAILABLE'' detail
             | Inr n \<Rightarrow> Inr (cn, n)) of
        Inl (Answer status tid revision detail) \<Rightarrow> (srv, Inr (conflict_result status tid revision detail))
      | Inl (Raise e) \<Rightarrow> (srv, Inl e)
      | Inl (Conflict _ _ _ _ _) \<Rightarrow> (srv, Inl ''conflict before its evidence pair was read'')
      | Inr (cn, n) \<Rightarrow>
          (case commit_guards L srv keys av cn of
             Inl (Answer status tid revision detail) \<Rightarrow> (srv, Inr (conflict_result status tid revision detail))
           | Inl (Raise e) \<Rightarrow> (srv, Inl e)
           | Inl (Conflict ctype stored existing revision detail) \<Rightarrow>
               emit_conflict L keys av (cn_committed_at cn) n ctype stored existing revision detail srv
           | Inr owner \<Rightarrow>
               (write_commit L keys av cn owner srv,
                Inr (conflict_result ''COMMITTED'' (av_transition_id av) (lua_tostring (cn_next cn)) []))))"

section \<open>Refusals\<close>

text \<open>Every stop of a guard refuses: its status is not \<open>COMMITTED\<close>.\<close>

fun refusing :: "stop \<Rightarrow> bool" where
  "refusing (Raise e) = True"
| "refusing (Answer status tid revision detail) = (status \<noteq> ''COMMITTED'')"
| "refusing (Conflict ctype stored existing revision detail) = (ctype \<noteq> ''COMMITTED'')"

definition refuses :: "stop + 'a \<Rightarrow> bool" where
  "refuses m \<longleftrightarrow> (case m of Inl s \<Rightarrow> refusing s | Inr _ \<Rightarrow> True)"

named_theorems refuses_intros

lemma refuses_basic [refuses_intros]:
  "refuses (Inr x)" "refuses (invalid_plan d)" "refuses (retry d)" "refuses (illegal d)" "refuses (corrupt d)"
  "refuses (corruption_conflict stored existing revision d)"
  by (simp_all add: refuses_def invalid_plan_def retry_def illegal_def corrupt_def refuse_with_def corruption_conflict_def)

lemma refuses_rbind [refuses_intros]: "refuses m \<Longrightarrow> (\<And>x. refuses (f x)) \<Longrightarrow> refuses (rbind m f)"
  by (cases m) (simp_all add: refuses_def)

lemma refuses_require [refuses_intros]: "refuses e \<Longrightarrow> refuses (require_that b e)"
  by (simp add: require_that_def refuses_basic)

lemma refuses_if [refuses_intros]: "refuses a \<Longrightarrow> refuses b \<Longrightarrow> refuses (if c then a else b)"
  by simp

lemma refuses_cases [refuses_intros]:
  "refuses a \<Longrightarrow> (\<And>x. refuses (f x)) \<Longrightarrow> refuses (case opt of None \<Rightarrow> a | Some x \<Rightarrow> f x)"
  "(\<And>x. refuses (g x)) \<Longrightarrow> (\<And>y. refuses (h y)) \<Longrightarrow> refuses (case s of Inl x \<Rightarrow> g x | Inr y \<Rightarrow> h y)"
  "(\<And>x y. refuses (q x y)) \<Longrightarrow> refuses (case p of (x, y) \<Rightarrow> q x y)"
  "refuses a \<Longrightarrow> (\<And>t. refuses (f1 t)) \<Longrightarrow> refuses (case js of JStr t \<Rightarrow> f1 t | _ \<Rightarrow> a)"
  by (simp_all split: option.split sum.split prod.split json.split)

lemma refuses_all_of [refuses_intros]: "list_all refuses cs \<Longrightarrow> refuses (all_of cs)"
  by (induction cs) (auto simp: refuses_basic intro!: refuses_intros)

lemma refuses_numbers [refuses_intros]: "refuses (exact_nonnegative_integer v)" "refuses (lua_index v k)"
  by (simp_all add: refuses_def exact_nonnegative_integer_def lua_index_def split: option.split json.split bool.split)

lemma refuses_structures [refuses_intros]:
  "refuses (validate_record_structure v)" "refuses (validate_receipt_structure v)" "refuses (validate_index_structure v)"
  unfolding validate_record_structure_def validate_receipt_structure_def validate_index_structure_def
  by (rule refuses_all_of, simp add: refuses_numbers refuses_basic)+

lemma refuses_validate_proof [refuses_intros]: "refuses (validate_proof L a b c i oid)"
  unfolding validate_proof_def by (intro refuses_intros) (simp add: refuses_structures)

lemma refuses_structure_ok [refuses_intros]: "(\<And>t. refuses (f t)) \<Longrightarrow> refuses (structure_ok f v)"
  unfolding structure_ok_def by (intro refuses_intros)

lemma refuses_demand [refuses_intros]: "refuses c \<Longrightarrow> refuses e \<Longrightarrow> refuses (demand c e)"
  unfolding demand_def by (intro refuses_intros)

lemma refuses_check_arguments: "refuses (check_arguments av)"
  unfolding check_arguments_def by (intro refuses_intros)

lemma refuses_incoming [refuses_intros]: "refuses (incoming_record L av cn)"
  unfolding incoming_record_def Let_def by (intro refuses_intros)

lemma refuses_admit_owner [refuses_intros]: "refuses (admit_owner L srv keys av r)"
  unfolding admit_owner_def by (auto intro!: refuses_intros split: header_state.split)

lemma refuses_owner_allocation [refuses_intros]: "refuses (owner_allocation srv keys av r owner)"
  unfolding owner_allocation_def by (intro refuses_intros)

lemma refuses_resolve [refuses_intros]: "refuses (resolve_repeated L srv keys av owner)"
proof -
  have "refusing (answer_repeated L srv keys av owner pf)" for pf
    by (simp add: answer_repeated_def Let_def split: option.split)
  then have "refuses (Inl (answer_repeated L srv keys av owner pf))" for pf by (simp add: refuses_def)
  then show ?thesis unfolding resolve_repeated_def Let_def by (intro refuses_intros)
qed

lemma refuses_relation [refuses_intros]: "refuses (relation_guard L srv keys av r owner)"
  unfolding relation_guard_def admit_parent_guard_def terminate_guard_def complete_guard_def expected_creation_def
    stored_creation_def check_parent_head_def root_binding_def Let_def
  by (intro refuses_intros)

lemma refuses_head [refuses_intros]: "refuses (head_guard L srv keys av)"
  unfolding head_guard_def existing_head_guard_def Let_def by (intro refuses_intros)

lemma refuses_commit_guards: "refuses (commit_guards L srv keys av cn)"
proof -
  have "refuses (revision_guard srv keys av cn revision)" for revision
    by (simp add: revision_guard_def Let_def refuses_def)
  moreover have "refuses (Inl (Answer ''ILLEGAL_STATE_TRANSITION'' [] t d) :: stop + unit)" for t d by (simp add: refuses_def)
  ultimately show ?thesis unfolding commit_guards_def by (intro refuses_intros)
qed

end
