(* ===== verification/ScriptLoader.thy ===== *)
theory ScriptLoader
  imports RedisOps
begin

text \<open>
  The script loader \<open>src/hfa-core/src/hfa/lua/loader.py\<close>: a script is loaded once and called by its
  digest; when the server has lost it, it is loaded again and called once more; a server that knows
  neither \<open>SCRIPT LOAD\<close> nor \<open>EVALSHA\<close> is sent the text.

  The body of a script is a function on the state of the server, an argument \<open>X\<close> here: the digest names
  the text, the text names the body. Each call has a fate: it is served, it does not run and the
  client sees an exception with some message, or it runs and the client sees an exception. Messages
  are ASCII. The file system is outside the model: the texts of the files are given.
\<close>

section \<open>The server\<close>

record 's host =
  host_data :: 's
  host_scripts :: "string list"

datatype fate = Served | Not_run string | Ran_unseen string

type_synonym ('s, 'a) body = "'s \<Rightarrow> 's \<times> (string + 'a)"

definition noscript_message :: string where
  "noscript_message = ''NOSCRIPT No matching script. Please use EVAL.''"

definition run_body :: "('s, 'a) body \<Rightarrow> 's host \<Rightarrow> 's host \<times> (string + 'a)" where
  "run_body X h = (case X (host_data h) of (d, r) \<Rightarrow> (h\<lparr>host_data := d\<rparr>, r))"

definition under_fate :: "fate \<Rightarrow> ('s host \<Rightarrow> 's host \<times> (string + 'a)) \<Rightarrow> 's host \<Rightarrow> 's host \<times> (string + 'a)" where
  "under_fate f serve h =
     (case f of Served \<Rightarrow> serve h | Not_run m \<Rightarrow> (h, Inl m) | Ran_unseen m \<Rightarrow> (fst (serve h), Inl m))"

definition evalsha :: "('s, 'a) body \<Rightarrow> string \<Rightarrow> 's host \<Rightarrow> 's host \<times> (string + 'a)" where
  "evalsha X digest h = (if digest \<in> set (host_scripts h) then run_body X h else (h, Inl noscript_message))"

definition script_load :: "string \<Rightarrow> 's host \<Rightarrow> 's host \<times> (string + string)" where
  "script_load source h =
     (h\<lparr>host_scripts := List.insert (sha1_hexdigest source) (host_scripts h)\<rparr>, Inr (sha1_hexdigest source))"

definition eval_text :: "('s, 'a) body \<Rightarrow> string \<Rightarrow> 's host \<Rightarrow> 's host \<times> (string + 'a)" where
  "eval_text X source h = run_body X (fst (script_load source h))"

section \<open>Classification of errors\<close>

definition lower_char :: "char \<Rightarrow> char" where
  "lower_char c = (if 65 \<le> (of_char c :: nat) \<and> (of_char c :: nat) \<le> 90 then char_of ((of_char c :: nat) + 32) else c)"

fun starts_with :: "string \<Rightarrow> string \<Rightarrow> bool" where
  "starts_with [] s = True"
| "starts_with (p # ps) [] = False"
| "starts_with (p # ps) (c # cs) = (p = c \<and> starts_with ps cs)"

fun contains_text :: "string \<Rightarrow> string \<Rightarrow> bool" where
  "contains_text p [] = (p = [])"
| "contains_text p (c # cs) = (starts_with p (c # cs) \<or> contains_text p cs)"

definition is_noscript_error :: "string \<Rightarrow> bool" where
  "is_noscript_error e \<longleftrightarrow>
     (let msg = map lower_char e in contains_text ''noscript'' msg \<or> contains_text ''no matching script'' msg)"

definition is_fakeredis_error :: "string \<Rightarrow> bool" where
  "is_fakeredis_error e \<longleftrightarrow>
     (let msg = map lower_char e in
        contains_text ''unknown command'' msg
        \<or> (contains_text ''eval'' msg \<and> contains_text ''not supported'' msg)
        \<or> contains_text ''script_load'' msg
        \<or> contains_text ''evalsha'' msg \<and> contains_text ''not'' msg)"

section \<open>The loader\<close>

text \<open>The texts of the files that \<open>load\<close> and \<open>_reload\<close> read: the script and its named helpers.\<close>

record loader =
  ld_body :: string
  ld_helpers :: "(string \<times> string) list"
  ld_sha :: "string option"
  ld_source :: "string option"

datatype loader_error = LoaderValueError string | LoaderRuntimeError string | CallRaised string

definition is_identifier_char :: "char \<Rightarrow> bool" where
  "is_identifier_char c \<longleftrightarrow>
     is_digit c \<or> c = CHR ''_'' \<or> (65 \<le> (of_char c :: nat) \<and> (of_char c :: nat) \<le> 90)
     \<or> (97 \<le> (of_char c :: nat) \<and> (of_char c :: nat) \<le> 122)"

definition ascii_identifier :: "string \<Rightarrow> bool" where
  "ascii_identifier s \<longleftrightarrow> s \<noteq> [] \<and> list_all is_identifier_char s \<and> \<not> is_digit (hd s)"

text \<open>The text a script is loaded with: its helpers as local functions before it.\<close>

definition embedded_text :: "(string \<times> string) list \<Rightarrow> string \<Rightarrow> string" where
  "embedded_text helpers body =
     concat (map (\<lambda>(name, t). ''local function '' @ name @ ''(KEYS, ARGV)'' @ [CHR 0x0A] @ t @ [CHR 0x0A] @ ''end'' @ [CHR 0x0A]) helpers)
     @ body"

definition script_text :: "loader \<Rightarrow> string" where
  "script_text ld = embedded_text (ld_helpers ld) (ld_body ld)"

lemma script_text_update [simp]:
  "script_text (ld\<lparr>ld_source := x\<rparr>) = script_text ld" "script_text (ld\<lparr>ld_sha := y\<rparr>) = script_text ld"
  by (simp_all add: script_text_def)

definition make_loader :: "(string \<times> string) list \<Rightarrow> string \<Rightarrow> loader_error + loader" where
  "make_loader helpers body =
     (if \<exists>h \<in> set helpers. \<not> ascii_identifier (fst h)
      then Inl (LoaderValueError ''Lua helper names must be ASCII identifiers'')
      else Inr \<lparr>ld_body = body, ld_helpers = helpers, ld_sha = None, ld_source = None\<rparr>)"

definition load_script :: "fate \<Rightarrow> loader \<times> 's host \<Rightarrow> (loader \<times> 's host) \<times> (loader_error + unit)" where
  "load_script f = (\<lambda>(ld, h).
     (let source = script_text ld;
          ld' = ld\<lparr>ld_source := Some source\<rparr> in
      case under_fate f (script_load source) h of
        (h', Inr digest) \<Rightarrow> ((ld'\<lparr>ld_sha := Some digest\<rparr>, h'), Inr ())
      | (h', Inl m) \<Rightarrow>
          (if is_fakeredis_error m then ((ld', h'), Inr ())
           else ((ld', h'), Inl (LoaderRuntimeError ''LuaScriptLoader.load failed'')))))"

text \<open>Without a stored source \<open>_reload\<close> takes the script file as it is, without its helpers.\<close>

definition reload_script :: "fate \<Rightarrow> loader \<times> 's host \<Rightarrow> (loader \<times> 's host) \<times> (loader_error + unit)" where
  "reload_script f = (\<lambda>(ld, h).
     (let source = (case ld_source ld of None \<Rightarrow> ld_body ld | Some t \<Rightarrow> t);
          ld' = ld\<lparr>ld_source := Some source\<rparr> in
      case under_fate f (script_load source) h of
        (h', Inr digest) \<Rightarrow> ((ld'\<lparr>ld_sha := Some digest\<rparr>, h'), Inr ())
      | (h', Inl m) \<Rightarrow> ((ld', h'), Inl (CallRaised m))))"

definition as_call :: "loader \<Rightarrow> 's host \<times> (string + 'a) \<Rightarrow> (loader \<times> 's host) \<times> (loader_error + 'a)" where
  "as_call ld hr = ((ld, fst hr), case snd hr of Inl m \<Rightarrow> Inl (CallRaised m) | Inr x \<Rightarrow> Inr x)"

text \<open>
  No caller in the modelled components passes a fallback. The three fates are those of the calls in
  order. A digest is only stored after the source, so \<open>ld_source\<close> is there whenever \<open>EVAL\<close> needs it.
\<close>

definition loader_run :: "('s, 'a) body \<Rightarrow> (nat \<Rightarrow> fate) \<Rightarrow> loader \<times> 's host \<Rightarrow> (loader \<times> 's host) \<times> (loader_error + 'a)" where
  "loader_run X net = (\<lambda>(ld, h).
     (case ld_sha ld of
        None \<Rightarrow>
          (case ld_source ld of
             Some source \<Rightarrow>
               (if source = [] then ((ld, h), Inl (LoaderRuntimeError ''LuaScriptLoader not loaded''))
                else as_call ld (under_fate (net 0) (eval_text X source) h))
           | None \<Rightarrow> ((ld, h), Inl (LoaderRuntimeError ''LuaScriptLoader not loaded'')))
      | Some digest \<Rightarrow>
          (case under_fate (net 0) (evalsha X digest) h of
             (h1, Inr x) \<Rightarrow> ((ld, h1), Inr x)
           | (h1, Inl m) \<Rightarrow>
               (if is_noscript_error m
                then (case reload_script (net 1) (ld, h1) of
                        ((ld', h2), Inl e) \<Rightarrow> ((ld', h2), Inl e)
                      | ((ld', h2), Inr u) \<Rightarrow>
                          as_call ld' (under_fate (net 2) (evalsha X (case ld_sha ld' of None \<Rightarrow> [] | Some t \<Rightarrow> t)) h2))
                else if is_fakeredis_error m
                then as_call ld (under_fate (net 1) (eval_text X (case ld_source ld of None \<Rightarrow> [] | Some t \<Rightarrow> t)) h1)
                else ((ld, h1), Inl (CallRaised m))))))"

section \<open>At most one run\<close>

text \<open>A message after which the loader calls the script again.\<close>

definition retried_error :: "string \<Rightarrow> bool" where
  "retried_error m \<longleftrightarrow> is_noscript_error m \<or> is_fakeredis_error m"

text \<open>The script ran at most once: the data are the old ones or those after one run.\<close>

definition at_most_once :: "('s, 'a) body \<Rightarrow> 's host \<Rightarrow> 's host \<Rightarrow> bool" where
  "at_most_once X h h' \<longleftrightarrow> host_data h' = host_data h \<or> host_data h' = fst (X (host_data h))"

lemma host_simps [simp]:
  "host_data (fst (run_body X h)) = fst (X (host_data h))"
  "host_data (fst (script_load t h)) = host_data h"
  "host_data (fst (eval_text X t h)) = fst (X (host_data h))"
  "snd (run_body X h) = snd (X (host_data h))" "snd (eval_text X t h) = snd (X (host_data h))"
  "snd (script_load t h) = Inr (sha1_hexdigest t)"
  by (simp_all add: run_body_def script_load_def eval_text_def split: prod.split)

lemma evalsha_data: "host_data (fst (evalsha X t h)) = (if t \<in> set (host_scripts h) then fst (X (host_data h)) else host_data h)"
  by (simp add: evalsha_def)

lemma under_fate_cases:
  assumes "under_fate f serve h = (h', r)"
  shows "(h' = h \<and> (\<exists>m. r = Inl m)) \<or> h' = fst (serve h)"
  using assms by (auto simp: under_fate_def split: fate.splits)

lemma load_script_data:
  assumes "load_script f (ld, h) = ((ld', h'), r)"
  shows "host_data h' = host_data h"
proof -
  obtain h1 r1 where u: "under_fate f (script_load (script_text ld)) h = (h1, r1)" by fastforce
  then have "host_data h1 = host_data h" by (auto dest!: under_fate_cases)
  with assms u show ?thesis by (auto simp: load_script_def Let_def split: sum.splits if_splits)
qed

lemma reload_script_data:
  assumes "reload_script f (ld, h) = ((ld', h'), r)"
  shows "host_data h' = host_data h"
proof -
  obtain h1 r1 where u: "under_fate f (script_load (case ld_source ld of None \<Rightarrow> ld_body ld | Some t \<Rightarrow> t)) h = (h1, r1)" by fastforce
  then have "host_data h1 = host_data h" by (auto dest!: under_fate_cases)
  with assms u show ?thesis by (auto simp: reload_script_def Let_def split: sum.splits)
qed

lemma as_call_iff: "as_call ld hr = ((ld', h'), r) \<longleftrightarrow> ld' = ld \<and> h' = fst hr \<and> r = (case snd hr of Inl m \<Rightarrow> Inl (CallRaised m) | Inr x \<Rightarrow> Inr x)"
  by (auto simp: as_call_def)

lemma under_fate_data:
  "host_data (fst (under_fate f serve h)) = host_data h \<or> host_data (fst (under_fate f serve h)) = host_data (fst (serve h))"
  by (simp add: under_fate_def split: fate.split)

text \<open>The first call either leaves the data alone or ran the script and was not retried.\<close>

lemma first_call:
  assumes "under_fate f (evalsha X digest) h = (h1, Inl m)" and "retried_error m"
    and fate: "\<And>m. f = Ran_unseen m \<Longrightarrow> \<not> retried_error m"
    and own: "\<And>m. snd (X (host_data h)) = Inl m \<Longrightarrow> \<not> retried_error m"
  shows "host_data h1 = host_data h"
  using assms by (auto simp: under_fate_def evalsha_def run_body_def split: fate.splits if_splits prod.splits)

lemma loader_run_once:
  assumes run: "loader_run X net (ld, h) = ((ld', h'), r)"
    and fate: "\<And>m. net 0 = Ran_unseen m \<Longrightarrow> \<not> retried_error m"
    and own: "\<And>m. snd (X (host_data h)) = Inl m \<Longrightarrow> \<not> retried_error m"
  shows "at_most_once X h h'"
proof (cases "ld_sha ld")
  case None
  then show ?thesis using run under_fate_data [of "net 0" "eval_text X (the (ld_source ld))" h]
    by (auto simp: loader_run_def at_most_once_def as_call_iff split: option.splits if_splits)
next
  case (Some digest)
  obtain h1 r1 where first: "under_fate (net 0) (evalsha X digest) h = (h1, r1)" by fastforce
  have once: "at_most_once X h h1"
    using under_fate_data [of "net 0" "evalsha X digest" h] first by (auto simp: at_most_once_def evalsha_data split: if_splits)
  show ?thesis
  proof (cases "\<exists>m. r1 = Inl m \<and> retried_error m")
    case False
    with run Some first have "h' = h1"
      by (auto simp: loader_run_def retried_error_def split: sum.splits)
    with once show ?thesis by simp
  next
    case True
    then obtain m where m: "r1 = Inl m" "retried_error m" by blast
    have same: "host_data h1 = host_data h" using first_call first m fate own by blast
    show ?thesis
    proof (cases "is_noscript_error m")
      case False
      with run Some first m show ?thesis
        using under_fate_data [of "net 1" "eval_text X (case ld_source ld of None \<Rightarrow> [] | Some t \<Rightarrow> t)" h1] same
        by (auto simp: loader_run_def at_most_once_def as_call_iff retried_error_def)
    next
      case True
      obtain ld2 h2 r2 where rel: "reload_script (net 1) (ld, h1) = ((ld2, h2), r2)" by (metis surj_pair)
      then have same2: "host_data h2 = host_data h" using same reload_script_data by fastforce
      show ?thesis
        using run Some first m True rel same2
          under_fate_data [of "net 2" "evalsha X (case ld_sha ld2 of None \<Rightarrow> [] | Some t \<Rightarrow> t)" h2]
        by (auto simp: loader_run_def at_most_once_def as_call_iff evalsha_data split: sum.splits if_splits)
    qed
  qed
qed

text \<open>A reply the client sees is the reply of the one run.\<close>

lemma served_reply:
  assumes "under_fate f (evalsha X digest) h = (h1, Inr x)"
  shows "host_data h1 = fst (X (host_data h))" "snd (X (host_data h)) = Inr x"
  using assms by (auto simp: under_fate_def evalsha_def run_body_def split: fate.splits if_splits prod.splits)

lemma served_text_reply:
  assumes "under_fate f (eval_text X t) h = (h1, Inr x)"
  shows "host_data h1 = fst (X (host_data h))" "snd (X (host_data h)) = Inr x"
proof -
  have "(h1, Inr x) = eval_text X t h" using assms by (auto simp: under_fate_def split: fate.splits)
  then show "host_data h1 = fst (X (host_data h))" "snd (X (host_data h)) = Inr x"
    by (metis fst_conv host_simps(3), metis snd_conv host_simps(5))
qed

lemma as_call_Inr: "as_call ld hr = ((ld', h'), Inr x) \<longleftrightarrow> ld' = ld \<and> hr = (h', Inr x)"
  by (cases hr; cases "snd hr") (auto simp: as_call_iff)

lemma loader_run_reply:
  assumes run: "loader_run X net (ld, h) = ((ld', h'), Inr x)"
    and fate: "\<And>m. net 0 = Ran_unseen m \<Longrightarrow> \<not> retried_error m"
    and own: "\<And>m. snd (X (host_data h)) = Inl m \<Longrightarrow> \<not> retried_error m"
  shows "host_data h' = fst (X (host_data h)) \<and> snd (X (host_data h)) = Inr x"
proof (cases "ld_sha ld")
  case None
  then show ?thesis using run
    by (auto simp: loader_run_def as_call_Inr dest: served_text_reply split: option.splits if_splits)
next
  case (Some digest)
  obtain h1 r1 where first: "under_fate (net 0) (evalsha X digest) h = (h1, r1)" by fastforce
  show ?thesis
  proof (cases r1)
    case (Inr y)
    with run Some first have eq: "h' = h1" "y = x" by (auto simp: loader_run_def)
    from first Inr eq have "under_fate (net 0) (evalsha X digest) h = (h', Inr x)" by simp
    then show ?thesis by (auto dest: served_reply)
  next
    case (Inl m)
    have r: "retried_error m" using run Some first Inl by (auto simp: loader_run_def retried_error_def split: if_splits)
    have same: "host_data h1 = host_data h" using first_call first Inl r fate own by blast
    show ?thesis
    proof (cases "is_noscript_error m")
      case False
      with run Some first Inl same show ?thesis
        by (auto simp: loader_run_def as_call_Inr dest: served_text_reply split: if_splits)
    next
      case True
      obtain ld2 h2 r2 where rel: "reload_script (net 1) (ld, h1) = ((ld2, h2), r2)" by (metis surj_pair)
      then have same2: "host_data h2 = host_data h" using same reload_script_data by fastforce
      then show ?thesis
        using run Some first Inl True rel
        by (auto simp: loader_run_def as_call_Inr dest: served_reply split: sum.splits)
    qed
  qed
qed

section \<open>Property\<close>

text \<open>
  C21. One call of the loader runs its script at most once, over lost requests, lost replies and a server
  that has forgotten the script, as long as no exception seen after a run reads like a missing script; and
  a reply that reaches the caller is the reply of that one run.
\<close>

theorem script_runs_at_most_once:
  assumes "loader_run X net (ld, h) = ((ld', h'), r)"
    and "\<And>m. net 0 = Ran_unseen m \<Longrightarrow> \<not> retried_error m"
    and "\<And>m. snd (X (host_data h)) = Inl m \<Longrightarrow> \<not> retried_error m"
  shows "at_most_once X h h' \<and> (case r of Inl e \<Rightarrow> True | Inr x \<Rightarrow> host_data h' = fst (X (host_data h)) \<and> snd (X (host_data h)) = Inr x)"
proof (cases r)
  case (Inl e)
  then show ?thesis using loader_run_once [OF assms] by simp
next
  case (Inr x)
  with loader_run_once [OF assms] loader_run_reply [OF assms(1) [unfolded Inr] assms(2,3)] show ?thesis by simp
qed

text \<open>A counter whose script was flushed: the call loads it again and counts once.\<close>

definition count_script :: "(nat, nat) body" where
  "count_script n = (Suc n, Inr (Suc n))"

theorem script_runs_at_most_once_witness:
  "\<exists>ld' h'. loader_run count_script (\<lambda>_. Served) (\<lparr>ld_body = ''return'', ld_helpers = [], ld_sha = Some ''0'', ld_source = Some ''return''\<rparr>,
       \<lparr>host_data = 0, host_scripts = []\<rparr>) = ((ld', h'), Inr 1) \<and> host_data h' = 1"
proof -
  let ?ld = "\<lparr>ld_body = ''return'', ld_helpers = [], ld_sha = Some ''0'', ld_source = Some ''return''\<rparr>" and ?h = "\<lparr>host_data = 0 :: nat, host_scripts = []\<rparr>"
  have ns: "is_noscript_error noscript_message" by code_simp
  obtain ld' h' r where run: "loader_run count_script (\<lambda>_. Served) (?ld, ?h) = ((ld', h'), r)" by (metis surj_pair)
  then have r: "r = Inr 1"
    by (auto simp: loader_run_def under_fate_def evalsha_def ns reload_script_def script_load_def Let_def as_call_iff run_body_def
        count_script_def)
  from script_runs_at_most_once [OF run] r run show ?thesis by (auto simp: count_script_def)
qed

end
