(* ===== verification/AdmissionReservation.thy ===== *)
theory AdmissionReservation
  imports CommitScript JsonDumps ScriptLoader
begin

text \<open>
  The admission resource reservation: \<open>src/hfa-core/src/hfa/governance/admission_resource_reservation.py\<close>
  and its script \<open>src/hfa-core/src/hfa/lua/admission_resource_reservation.lua\<close>.

  A run reserves one concurrent-run slot, its estimated cost and one inflight slot of its tenant, under
  a receipt keyed by the operation that creates the run. The receipt moves from RESERVED to FINALIZED
  when the creation is committed and to SETTLED when the run has ended, or from RESERVED to RELEASED
  when the creation failed.

  The server is the one the commit scripts see, with the texts of string keys and the replies of
  \<open>TTL\<close>. The manager calls the script through the loader of \<open>ScriptLoader\<close>.
\<close>

section \<open>Checked values\<close>

datatype resource_error =
    ResourceValueError string
  | ReservationError string
  | ReservationConflictError string
  | ResourceCallError string

definition required_exact_text :: "externals \<Rightarrow> string \<Rightarrow> pyval \<Rightarrow> resource_error + string" where
  "required_exact_text E name v =
     (case v of
        PStr s \<Rightarrow>
          (if s = [] then Inl (ResourceValueError (name @ '' must not be empty''))
           else if s \<noteq> py_strip s then Inl (ResourceValueError (name @ '' must not contain surrounding whitespace''))
           else if nfc_normalize E s \<noteq> s then Inl (ResourceValueError (name @ '' must already be NFC-normalized''))
           else Inr s)
      | _ \<Rightarrow> Inl (ResourceValueError (name @ '' must be a string'')))"

definition required_sha256_text :: "externals \<Rightarrow> string \<Rightarrow> pyval \<Rightarrow> resource_error + string" where
  "required_sha256_text E name v =
     rbind (required_exact_text E name v) (\<lambda>s.
       if sha256_re s then Inr s else Inl (ResourceValueError (name @ '' must be lowercase SHA-256'')))"

definition safe_integer :: "string \<Rightarrow> int \<Rightarrow> pyval \<Rightarrow> resource_error + int" where
  "safe_integer name lo v =
     (case v of
        PInt n \<Rightarrow>
          (if n < lo \<or> n > max_safe_integer
           then Inl (ResourceValueError (name @ '' is outside the safe integer domain'')) else Inr n)
      | _ \<Rightarrow> Inl (ResourceValueError (name @ '' must be an exact integer'')))"

definition optional_limit :: "string \<Rightarrow> pyval \<Rightarrow> resource_error + int" where
  "optional_limit name v = (if v = PNone then Inr (-1) else safe_integer name 0 v)"

definition prefixed_sha256 :: "string \<Rightarrow> string \<Rightarrow> bool" where
  "prefixed_sha256 p s \<longleftrightarrow> take (length p) s = p \<and> sha256_re (drop (length p) s)"

definition create_operation_re :: "string \<Rightarrow> bool" where
  "create_operation_re = prefixed_sha256 ''run-create:v1:''"

definition terminate_operation_re :: "string \<Rightarrow> bool" where
  "terminate_operation_re = prefixed_sha256 ''run-terminate:v1:''"

section \<open>Inputs and proofs\<close>

record reservation =
  rsv_operation_id :: string
  rsv_run_id :: string
  rsv_tenant_id :: string
  rsv_cost :: int
  rsv_version :: int

definition make_reservation :: "externals \<Rightarrow> pyval \<Rightarrow> pyval \<Rightarrow> pyval \<Rightarrow> pyval \<Rightarrow> pyval \<Rightarrow> resource_error + reservation" where
  "make_reservation E operation_id run_id tenant_id cost version =
     rbind (required_exact_text E ''operation_id'' operation_id) (\<lambda>op.
     if \<not> create_operation_re op
     then Inl (ResourceValueError ''operation_id must match ^run-create:v1:[0-9a-f]{64}$'')
     else rbind (required_exact_text E ''run_id'' run_id) (\<lambda>run.
       rbind (required_exact_text E ''tenant_id'' tenant_id) (\<lambda>tenant.
       rbind (safe_integer ''estimated_cost_cents'' 0 cost) (\<lambda>c.
       rbind (safe_integer ''reservation_version'' 1 version) (\<lambda>v.
         if v \<noteq> 1 then Inl (ResourceValueError ''reservation_version must be 1'')
         else Inr \<lparr>rsv_operation_id = op, rsv_run_id = run, rsv_tenant_id = tenant, rsv_cost = c, rsv_version = v\<rparr>)))))"

definition reservation_proof :: "reservation \<Rightarrow> string" where
  "reservation_proof r =
     component_digest [''admission-resource-reservation'', dec_int (rsv_version r), rsv_operation_id r, rsv_run_id r,
       rsv_tenant_id r, dec_int (rsv_cost r)]"

record settlement =
  stl_create_operation_id :: string
  stl_run_id :: string
  stl_tenant_id :: string
  stl_cost :: int
  stl_reservation_proof :: string
  stl_terminate_operation_id :: string
  stl_terminal_proof :: string
  stl_transition_id :: string
  stl_record_hash :: string
  stl_command_hash :: string
  stl_revision :: int
  stl_final_state :: string

text \<open>The twelve fields as the caller passes them, in the order of the class.\<close>

definition make_settlement :: "externals \<Rightarrow> pyval \<Rightarrow> pyval \<Rightarrow> pyval \<Rightarrow> pyval \<Rightarrow> pyval \<Rightarrow> pyval \<Rightarrow> pyval \<Rightarrow> pyval
    \<Rightarrow> pyval \<Rightarrow> pyval \<Rightarrow> pyval \<Rightarrow> pyval \<Rightarrow> resource_error + settlement" where
  "make_settlement E create_id run_id tenant_id cost proof terminate_id terminal tid rh ch revision final =
     rbind (required_exact_text E ''run_create_operation_id'' create_id) (\<lambda>c_op.
     if \<not> create_operation_re c_op then Inl (ResourceValueError ''run_create_operation_id is invalid'')
     else rbind (required_exact_text E ''run_terminate_operation_id'' terminate_id) (\<lambda>t_op.
     if \<not> terminate_operation_re t_op then Inl (ResourceValueError ''run_terminate_operation_id is invalid'')
     else rbind (required_exact_text E ''run_id'' run_id) (\<lambda>run.
     rbind (required_exact_text E ''tenant_id'' tenant_id) (\<lambda>tenant.
     rbind (safe_integer ''estimated_cost_cents'' 0 cost) (\<lambda>c.
     rbind (required_sha256_text E ''run_create_reservation_proof_sha256'' proof) (\<lambda>rp.
     rbind (make_reservation E (PStr c_op) (PStr run) (PStr tenant) (PInt c) (PInt 1)) (\<lambda>expected.
     if rp \<noteq> reservation_proof expected
     then Inl (ResourceValueError ''run_create reservation proof does not match immutable input'')
     else rbind (required_sha256_text E ''terminal_proof_sha256'' terminal) (\<lambda>tp.
     rbind (required_sha256_text E ''canonical_record_hash'' rh) (\<lambda>record_hash.
     rbind (required_sha256_text E ''canonical_command_hash'' ch) (\<lambda>cmd_hash.
     rbind (required_exact_text E ''canonical_transition_id'' tid) (\<lambda>t.
     rbind (safe_integer ''canonical_revision'' 1 revision) (\<lambda>n.
     rbind (required_exact_text E ''final_state'' final) (\<lambda>f.
     if f \<notin> {''done'', ''failed''} then Inl (ResourceValueError ''final_state must be done or failed'')
     else Inr \<lparr>stl_create_operation_id = c_op, stl_run_id = run, stl_tenant_id = tenant, stl_cost = c,
               stl_reservation_proof = rp, stl_terminate_operation_id = t_op, stl_terminal_proof = tp,
               stl_transition_id = t, stl_record_hash = record_hash, stl_command_hash = cmd_hash,
               stl_revision = n, stl_final_state = f\<rparr>)))))))))))))"

definition settlement_proof :: "settlement \<Rightarrow> string" where
  "settlement_proof s =
     component_digest [''admission-resource-settlement'', stl_create_operation_id s, stl_run_id s, stl_tenant_id s,
       dec_int (stl_cost s), stl_reservation_proof s, stl_terminate_operation_id s, stl_terminal_proof s,
       stl_transition_id s, stl_record_hash s, stl_command_hash s, dec_int (stl_revision s), stl_final_state s]"

section \<open>Keys\<close>

definition concurrent_run_key :: "string \<Rightarrow> string" where
  "concurrent_run_key tenant = ''hfa:quota:'' @ tenant @ '':concurrent_runs''"

definition budget_reserved_key :: "string \<Rightarrow> string" where
  "budget_reserved_key tenant = ''hfa:quota:'' @ tenant @ '':budget_reserved_cents''"

definition tenant_inflight :: "string \<Rightarrow> string" where
  "tenant_inflight tenant = ''hfa:tenant:'' @ tenant @ '':inflight''"

definition reservation_receipt_key :: "string \<Rightarrow> string" where
  "reservation_receipt_key operation_id = ''hfa:admission:resource-reservation:v1:'' @ sha256_hexdigest operation_id"

definition resource_keys :: "string \<Rightarrow> string \<Rightarrow> string list" where
  "resource_keys operation_id tenant =
     [reservation_receipt_key operation_id, concurrent_run_key tenant, budget_reserved_key tenant, tenant_inflight tenant]"

section \<open>The server\<close>

record resource_server = server +
  srv_text :: "string \<Rightarrow> string"
  srv_ttl :: "string \<Rightarrow> int"

definition base_server :: "resource_server \<Rightarrow> server" where
  "base_server s = server.truncate s"

definition type_name :: "resource_server \<Rightarrow> string \<Rightarrow> string" where
  "type_name s key = lua_type (base_server s) key"

definition receipt_hash :: "resource_server \<Rightarrow> string \<Rightarrow> (string \<times> string) list" where
  "receipt_hash s key = lua_hash (base_server s) key"

text \<open>A write keeps the time to live of a key and gives a new key none.\<close>

definition kept_ttl :: "resource_server \<Rightarrow> string \<Rightarrow> string \<Rightarrow> int" where
  "kept_ttl s key = (srv_ttl s)(key := if srv_view s key = None then -1 else srv_ttl s key)"

definition put_text :: "string \<Rightarrow> string \<Rightarrow> resource_server \<Rightarrow> resource_server" where
  "put_text key t s =
     s\<lparr>srv_view := (srv_view s)(key \<mapsto> ROther KString), srv_text := (srv_text s)(key := t), srv_ttl := kept_ttl s key\<rparr>"

definition put_receipt :: "string \<Rightarrow> (string \<times> string) list \<Rightarrow> resource_server \<Rightarrow> resource_server" where
  "put_receipt key fvs s =
     s\<lparr>srv_view := (srv_view s)(key \<mapsto> RHash (hset fvs (receipt_hash s key))), srv_ttl := kept_ttl s key\<rparr>"

definition set_ttl :: "string \<Rightarrow> int \<Rightarrow> resource_server \<Rightarrow> resource_server" where
  "set_ttl key n s = s\<lparr>srv_ttl := (srv_ttl s)(key := n)\<rparr>"

definition counter_text :: "resource_server \<Rightarrow> string \<Rightarrow> string" where
  "counter_text s key = (if srv_view s key = None then ''0'' else srv_text s key)"

definition incr_by :: "string \<Rightarrow> int \<Rightarrow> resource_server \<Rightarrow> resource_server" where
  "incr_by key d s =
     (case parse_dec (counter_text s key) of None \<Rightarrow> s | Some n \<Rightarrow> put_text key (dec_int (n + d)) s)"

section \<open>Checks of the script\<close>

definition decimal_integer :: "string \<Rightarrow> int \<Rightarrow> int option" where
  "decimal_integer raw lo =
     (if raw = ''0'' \<or> (raw \<noteq> [] \<and> list_all is_digit raw \<and> hd raw \<noteq> CHR ''0'')
      then (let n = int (nat_of_dec raw) in if n < lo \<or> n > max_safe_integer then None else Some n)
      else None)"

definition script_limit :: "string \<Rightarrow> int option" where
  "script_limit raw = (if raw = ''-1'' then Some (-1) else decimal_integer raw 0)"

definition read_initial_counter :: "resource_server \<Rightarrow> string \<Rightarrow> int option" where
  "read_initial_counter s key =
     (if type_name s key = ''none'' then Some 0
      else if type_name s key \<noteq> ''string'' \<or> srv_ttl s key \<noteq> -1 then None
      else decimal_integer (srv_text s key) 0)"

definition read_active_counter :: "resource_server \<Rightarrow> string \<Rightarrow> int option" where
  "read_active_counter s key =
     (if type_name s key \<noteq> ''string'' \<or> srv_ttl s key \<noteq> -1 then None else decimal_integer (srv_text s key) 0)"

definition active_resource_ownership :: "resource_server \<Rightarrow> string list \<Rightarrow> int \<Rightarrow> bool" where
  "active_resource_ownership s keys cost =
     (case (read_active_counter s (keys ! 1), read_active_counter s (keys ! 2), read_active_counter s (keys ! 3)) of
        (Some c, Some b, Some i) \<Rightarrow> \<not> (c < 1 \<or> b < cost \<or> i < 1)
      | _ \<Rightarrow> False)"

definition argument :: "string list \<Rightarrow> nat \<Rightarrow> string" where
  "argument argv n = (if n \<le> length argv then argv ! (n - 1) else [])"

definition authority_suffixes :: "string list" where
  "authority_suffixes = [''aggregate'', ''transition-indexes'', ''receipts'', ''operation-records'', ''log'', ''outbox'']"

text \<open>The head and counter keys belong to the identity of the witness and to the tenant.\<close>

definition keys_bound :: "string list \<Rightarrow> string \<Rightarrow> string \<Rightarrow> bool" where
  "keys_bound keys identity tenant \<longleftrightarrow>
     drop 4 keys = map (\<lambda>s. ''hfa:authority:v1:{'' @ identity @ ''}:'' @ s) authority_suffixes
     \<and> keys ! 1 = concurrent_run_key tenant \<and> keys ! 2 = budget_reserved_key tenant \<and> keys ! 3 = tenant_inflight tenant"

definition witness_of :: "lua_lib \<Rightarrow> string \<Rightarrow> string list option" where
  "witness_of L raw =
     (case decode_texts L raw of None \<Rightarrow> None | Some w \<Rightarrow> if length w = 14 then Some w else None)"

definition run_identity_is :: "json option \<Rightarrow> string \<Rightarrow> bool" where
  "run_identity_is v run_id \<longleftrightarrow>
     (case v of
        None \<Rightarrow> False
      | Some i \<Rightarrow> is_table i \<and> lua_field i ''aggregate_type'' = Some (JStr ''run'')
          \<and> lua_field i ''run_id'' = Some (JStr run_id) \<and> lua_field i ''task_id'' = Some JNull)"

definition created_pending :: "json \<Rightarrow> string \<Rightarrow> string \<Rightarrow> int \<Rightarrow> bool" where
  "created_pending r run_id tenant cost \<longleftrightarrow>
     run_identity_is (lua_field r ''canonical_aggregate_identity'') run_id
     \<and> lua_field r ''operation_type'' = Some (JStr ''RUN_CREATE'')
     \<and> lua_field r ''from_revision'' = Some (JInt 0) \<and> lua_field r ''to_revision'' = Some (JInt 1)
     \<and> lua_field r ''previous_state'' = Some JNull \<and> lua_field r ''next_state'' = Some (JStr ''pending'')
     \<and> (case lua_field r ''authoritative_metadata_changes'' of
          None \<Rightarrow> False
        | Some m \<Rightarrow> is_table m \<and> lua_field m ''run_id'' = Some (JStr run_id) \<and> lua_field m ''tenant_id'' = Some (JStr tenant)
            \<and> lua_field m ''estimated_cost_cents'' = Some (JInt cost))"

definition head_valid :: "lua_lib \<Rightarrow> resource_server \<Rightarrow> string list \<Rightarrow> string list \<Rightarrow> bool" where
  "head_valid L s keys own \<longleftrightarrow>
     fst (authority_head_validate (object_fields L) (base_server s) (take 6 (drop 4 keys)) own) = ''VALID''"

definition finalize_proof_ok :: "lua_lib \<Rightarrow> resource_server \<Rightarrow> string list \<Rightarrow> string list \<Rightarrow> int \<Rightarrow> bool" where
  "finalize_proof_ok L s keys argv cost \<longleftrightarrow>
     length keys = 10 \<and> length argv = 13
     \<and> (case witness_of L (argument argv 13) of
          None \<Rightarrow> False
        | Some own \<Rightarrow>
            (case decode_table L (own ! 7) of
               None \<Rightarrow> False
             | Some r \<Rightarrow>
                 created_pending r (argument argv 3) (argument argv 4) cost
                 \<and> own ! 1 = argument argv 2 \<and> argument argv 2 = ''run-create:v1:'' @ own ! 0
                 \<and> own ! 4 = ''1'' \<and> own ! 10 = ''pending'' \<and> own ! 11 = ''0''
                 \<and> keys_bound keys (own ! 0) (argument argv 4) \<and> head_valid L s keys own))"

definition settle_arguments_ok :: "string list \<Rightarrow> bool" where
  "settle_arguments_ok argv \<longleftrightarrow>
     terminate_operation_re (argument argv 13) \<and> sha256_re (argument argv 14) \<and> argument argv 15 \<noteq> []
     \<and> sha256_re (argument argv 16) \<and> sha256_re (argument argv 17) \<and> decimal_integer (argument argv 18) 1 \<noteq> None
     \<and> argument argv 19 \<in> {''done'', ''failed''} \<and> sha256_re (argument argv 20)"

definition terminal_record_ok :: "string list \<Rightarrow> string list \<Rightarrow> json \<Rightarrow> bool" where
  "terminal_record_ok argv own r \<longleftrightarrow>
     run_identity_is (lua_field r ''canonical_aggregate_identity'') (argument argv 3)
     \<and> lua_field r ''operation_type'' = Some (JStr ''RUN_TERMINATE'') \<and> own ! 1 = argument argv 13
     \<and> own ! 3 = argument argv 15 \<and> own ! 4 = argument argv 18 \<and> own ! 5 = argument argv 17 \<and> own ! 6 = argument argv 16
     \<and> own ! 10 = argument argv 19 \<and> own ! 11 = ''0''
     \<and> (case lua_field r ''authoritative_metadata_changes'' of
          None \<Rightarrow> False
        | Some m \<Rightarrow> is_table m \<and> lua_field m ''run_id'' = Some (JStr (argument argv 3))
            \<and> lua_field m ''tenant_id'' = Some (JStr (argument argv 4))
            \<and> (case lua_field m ''terminal_evidence'' of
                 None \<Rightarrow> False
               | Some e \<Rightarrow> is_table e \<and> lua_field e ''terminal_proof_sha256'' = Some (JStr (argument argv 14))
                   \<and> lua_field e ''final_state'' = Some (JStr (argument argv 19))))"

definition origin_ok :: "lua_lib \<Rightarrow> string list \<Rightarrow> string list \<Rightarrow> string list \<Rightarrow> json \<Rightarrow> json \<Rightarrow> int \<Rightarrow> bool" where
  "origin_ok L argv own creation r origin cost \<longleftrightarrow>
     creation ! 0 = own ! 0 \<and> creation ! 1 = argument argv 2 \<and> argument argv 2 = ''run-create:v1:'' @ own ! 0
     \<and> creation ! 4 = ''1'' \<and> creation ! 10 = ''pending'' \<and> creation ! 11 = ''0''
     \<and> created_pending origin (argument argv 3) (argument argv 4) cost
     \<and> lua_field origin ''operation_id'' = Some (JStr (argument argv 2))
     \<and> lua_field r ''from_revision'' = Some (JInt 1) \<and> lua_field r ''to_revision'' = Some (JInt 2)
     \<and> lua_field r ''previous_state'' = Some (JStr ''pending'')
     \<and> (case (decode_table L (creation ! 8), decode_table L (creation ! 9)) of
          (Some rc, Some ix) \<Rightarrow>
            lua_field rc ''operation_type'' = Some (JStr ''RUN_CREATE'')
            \<and> lua_field rc ''operation_id'' = Some (JStr (argument argv 2))
            \<and> lua_field origin ''transition_id'' = Some (JStr (creation ! 3))
            \<and> lua_field rc ''transition_id'' = Some (JStr (creation ! 3))
            \<and> lua_field ix ''transition_id'' = Some (JStr (creation ! 3))
            \<and> lua_field rc ''aggregate_revision'' = Some (JInt 1) \<and> lua_field ix ''aggregate_revision'' = Some (JInt 1)
            \<and> lua_field origin ''canonical_command_hash'' = Some (JStr (creation ! 5))
            \<and> lua_field rc ''canonical_command_hash'' = Some (JStr (creation ! 5))
            \<and> lua_field origin ''canonical_record_hash'' = Some (JStr (creation ! 6))
            \<and> lua_field rc ''canonical_record_hash'' = Some (JStr (creation ! 6))
            \<and> lua_field ix ''canonical_record_hash'' = Some (JStr (creation ! 6))
        | _ \<Rightarrow> False)"

definition exact_envelope :: "lua_lib \<Rightarrow> resource_server \<Rightarrow> string \<Rightarrow> string \<Rightarrow> string \<Rightarrow> bool" where
  "exact_envelope L s key field expected \<longleftrightarrow>
     (case map_of (receipt_hash s key) field of
        None \<Rightarrow> False
      | Some raw \<Rightarrow>
          (case decode_table L raw of
             None \<Rightarrow> False
           | Some env \<Rightarrow> lua_field env ''payload'' = Some (JStr expected)
               \<and> lua_field env ''storage_sha1'' = Some (JStr (sha1_hexdigest expected))))"

definition settle_proof_ok :: "lua_lib \<Rightarrow> resource_server \<Rightarrow> string list \<Rightarrow> string list \<Rightarrow> int \<Rightarrow> bool" where
  "settle_proof_ok L s keys argv cost \<longleftrightarrow>
     length keys = 10 \<and> length argv = 22
     \<and> (case (witness_of L (argument argv 21), witness_of L (argument argv 22)) of
          (Some own, Some creation) \<Rightarrow>
            (case (decode_table L (own ! 7), decode_table L (creation ! 7)) of
               (Some r, Some origin) \<Rightarrow>
                 terminal_record_ok argv own r \<and> origin_ok L argv own creation r origin cost
                 \<and> keys_bound keys (own ! 0) (argument argv 4) \<and> head_valid L s keys own
                 \<and> exact_envelope L s (keys ! 7) (creation ! 2) (creation ! 7)
                 \<and> exact_envelope L s (keys ! 6) (creation ! 2) (creation ! 8)
                 \<and> exact_envelope L s (keys ! 5) (creation ! 3) (creation ! 9)
             | _ \<Rightarrow> False)
        | _ \<Rightarrow> False)"

section \<open>The script\<close>

type_synonym reservation_reply = "string \<times> string \<times> string"

definition refused :: "string \<Rightarrow> string \<Rightarrow> resource_server \<Rightarrow> resource_server \<times> (string + reservation_reply)" where
  "refused status state s = (s, Inr (status, state, ''0''))"

definition checked_cost :: "string list \<Rightarrow> int option" where
  "checked_cost argv =
     (if argument argv 1 \<notin> {''reserve'', ''finalize'', ''release'', ''settle''}
         \<or> \<not> create_operation_re (argument argv 2) \<or> argument argv 3 = [] \<or> argument argv 4 = []
         \<or> decimal_integer (argument argv 6) 1 \<noteq> Some 1 \<or> decimal_integer (argument argv 8) 0 = None
         \<or> script_limit (argument argv 9) = None \<or> script_limit (argument argv 10) = None
         \<or> script_limit (argument argv 11) = None
         \<or> decimal_integer (argument argv 12) 1 = None \<or> \<not> sha256_re (argument argv 7)
      then None else decimal_integer (argument argv 5) 0)"

definition receipt_field :: "resource_server \<Rightarrow> string \<Rightarrow> string \<Rightarrow> string option" where
  "receipt_field s key f = map_of (receipt_hash s key) f"

definition field_list_is :: "resource_server \<Rightarrow> string \<Rightarrow> string list \<Rightarrow> string list \<Rightarrow> bool" where
  "field_list_is s key names vs \<longleftrightarrow> map (receipt_field s key) names = map Some vs"

definition immutable_fields :: "string list" where
  "immutable_fields =
     [''operation_id'', ''run_id'', ''tenant_id'', ''estimated_cost_cents'', ''reservation_version'', ''proof_sha256'']"

definition settlement_fields :: "string list" where
  "settlement_fields =
     [''run_terminate_operation_id'', ''terminal_proof_sha256'', ''canonical_transition_id'', ''canonical_record_hash'',
      ''canonical_command_hash'', ''canonical_revision'', ''final_state'', ''settlement_proof_sha256'']"

definition arguments :: "string list \<Rightarrow> nat \<Rightarrow> nat \<Rightarrow> string list" where
  "arguments argv first_no last_no = map (argument argv) [first_no..<Suc last_no]"

definition give_back :: "string list \<Rightarrow> int \<Rightarrow> resource_server \<Rightarrow> resource_server" where
  "give_back keys cost s = incr_by (keys ! 3) (-1) (incr_by (keys ! 2) (- cost) (incr_by (keys ! 1) (-1) s))"

definition take_up :: "string list \<Rightarrow> int \<Rightarrow> resource_server \<Rightarrow> resource_server" where
  "take_up keys cost s = incr_by (keys ! 3) 1 (incr_by (keys ! 2) cost (incr_by (keys ! 1) 1 s))"

definition settle_receipt :: "string list \<Rightarrow> string list \<Rightarrow> int \<Rightarrow> string \<Rightarrow> resource_server
    \<Rightarrow> resource_server \<times> (string + reservation_reply)" where
  "settle_receipt keys argv cost state s =
     (if state = ''SETTLED''
      then (if field_list_is s (keys ! 0) settlement_fields (arguments argv 13 20)
            then refused ''already_settled'' state s else refused ''reservation_conflict'' state s)
      else if state \<noteq> ''FINALIZED'' then refused ''reservation_state_conflict'' state s
      else if srv_ttl s (keys ! 0) \<noteq> -1 then refused ''resource_state_conflict'' state s
      else if \<not> active_resource_ownership s keys cost then refused ''resource_state_conflict'' state s
      else (set_ttl (keys ! 0) (-1)
              (put_receipt (keys ! 0)
                 ([(''state'', ''SETTLED''), (''settled_at_ms'', argument argv 8)]
                  @ zip settlement_fields (arguments argv 13 20))
                 (give_back keys cost s)),
            Inr (''settled'', ''SETTLED'', ''1'')))"

definition reserve_receipt :: "string list \<Rightarrow> int \<Rightarrow> string \<Rightarrow> resource_server
    \<Rightarrow> resource_server \<times> (string + reservation_reply)" where
  "reserve_receipt keys cost state s =
     (if state = ''RELEASED''
      then (if srv_ttl s (keys ! 0) \<le> 0 then refused ''reservation_conflict'' state s
            else refused ''already_released'' state s)
      else if state = ''SETTLED'' then refused ''reservation_state_conflict'' state s
      else if srv_ttl s (keys ! 0) \<noteq> -1 then refused ''resource_state_conflict'' state s
      else if \<not> active_resource_ownership s keys cost then refused ''resource_state_conflict'' state s
      else if state = ''FINALIZED'' then refused ''already_finalized'' state s
      else refused ''already_reserved'' state s)"

definition finalize_receipt :: "string list \<Rightarrow> string list \<Rightarrow> int \<Rightarrow> string \<Rightarrow> resource_server
    \<Rightarrow> resource_server \<times> (string + reservation_reply)" where
  "finalize_receipt keys argv cost state s =
     (if state = ''RELEASED'' then refused ''reservation_state_conflict'' state s
      else if state = ''SETTLED'' then refused ''reservation_state_conflict'' state s
      else if srv_ttl s (keys ! 0) \<noteq> -1 then refused ''resource_state_conflict'' state s
      else if \<not> active_resource_ownership s keys cost then refused ''resource_state_conflict'' state s
      else if state = ''FINALIZED'' then refused ''already_finalized'' state s
      else (set_ttl (keys ! 0) (-1)
              (put_receipt (keys ! 0) [(''state'', ''FINALIZED''), (''finalized_at_ms'', argument argv 8)] s),
            Inr (''finalized'', ''FINALIZED'', ''0'')))"

definition release_receipt :: "string list \<Rightarrow> string list \<Rightarrow> int \<Rightarrow> string \<Rightarrow> resource_server
    \<Rightarrow> resource_server \<times> (string + reservation_reply)" where
  "release_receipt keys argv cost state s =
     (if state = ''RELEASED''
      then (if srv_ttl s (keys ! 0) \<le> 0 then refused ''reservation_conflict'' state s
            else refused ''already_released'' state s)
      else if state = ''SETTLED'' then refused ''reservation_state_conflict'' state s
      else if state = ''FINALIZED'' then refused ''reservation_state_conflict'' state s
      else if srv_ttl s (keys ! 0) \<noteq> -1 then refused ''resource_state_conflict'' state s
      else if \<not> active_resource_ownership s keys cost then refused ''resource_state_conflict'' state s
      else (set_ttl (keys ! 0) (the (decimal_integer (argument argv 12) 1))
              (put_receipt (keys ! 0) [(''state'', ''RELEASED''), (''released_at_ms'', argument argv 8)]
                 (give_back keys cost s)),
            Inr (''released'', ''RELEASED'', ''1'')))"

definition known_states :: "string list" where
  "known_states = [''RESERVED'', ''FINALIZED'', ''RELEASED'', ''SETTLED'']"

definition existing_receipt :: "string list \<Rightarrow> string list \<Rightarrow> int \<Rightarrow> resource_server
    \<Rightarrow> resource_server \<times> (string + reservation_reply)" where
  "existing_receipt keys argv cost s =
     (case receipt_field s (keys ! 0) ''state'' of
        None \<Rightarrow> refused ''reservation_conflict'' [] s
      | Some state \<Rightarrow>
          (if \<not> field_list_is s (keys ! 0) immutable_fields (arguments argv 2 7) then refused ''reservation_conflict'' state s
           else if state \<notin> set known_states then refused ''reservation_conflict'' state s
           else if argument argv 1 = ''settle'' then settle_receipt keys argv cost state s
           else if argument argv 1 = ''reserve'' then reserve_receipt keys cost state s
           else if argument argv 1 = ''finalize'' then finalize_receipt keys argv cost state s
           else release_receipt keys argv cost state s))"

definition over_limit :: "int option \<Rightarrow> int \<Rightarrow> bool" where
  "over_limit lim n \<longleftrightarrow> (case lim of None \<Rightarrow> True | Some l \<Rightarrow> 0 \<le> l \<and> l < n)"

definition first_reservation :: "string list \<Rightarrow> string list \<Rightarrow> int \<Rightarrow> resource_server
    \<Rightarrow> resource_server \<times> (string + reservation_reply)" where
  "first_reservation keys argv cost s =
     (case (read_initial_counter s (keys ! 1), read_initial_counter s (keys ! 2), read_initial_counter s (keys ! 3)) of
        (Some concurrent, Some budget, Some inflight) \<Rightarrow>
          (if concurrent > max_safe_integer - 1 \<or> inflight > max_safe_integer - 1 \<or> cost > max_safe_integer - budget
           then refused ''resource_state_conflict'' [] s
           else if over_limit (script_limit (argument argv 9)) (concurrent + 1)
           then refused ''concurrent_run_quota_exceeded'' [] s
           else if over_limit (script_limit (argument argv 10)) (budget + cost) then refused ''budget_exceeded'' [] s
           else if over_limit (script_limit (argument argv 11)) (inflight + 1) then refused ''tenant_inflight_exceeded'' [] s
           else (set_ttl (keys ! 0) (-1)
                   (put_receipt (keys ! 0)
                      (zip immutable_fields (arguments argv 2 7)
                       @ [(''state'', ''RESERVED''), (''created_at_ms'', argument argv 8), (''finalized_at_ms'', []),
                          (''released_at_ms'', [])])
                      (take_up keys cost s)),
                 Inr (''reserved'', ''RESERVED'', ''1'')))
      | _ \<Rightarrow> refused ''resource_state_conflict'' [] s)"

text \<open>The script is called with at least four keys.\<close>

definition reservation_script :: "lua_lib \<Rightarrow> string list \<Rightarrow> string list \<Rightarrow> resource_server
    \<Rightarrow> resource_server \<times> (string + reservation_reply)" where
  "reservation_script L keys argv s =
     (case checked_cost argv of
        None \<Rightarrow> refused ''invalid_input'' [] s
      | Some cost \<Rightarrow>
          (if argument argv 1 = ''finalize'' \<and> \<not> finalize_proof_ok L s keys argv cost
           then refused ''canonical_run_create_proof_conflict'' [] s
           else if argument argv 1 = ''settle'' \<and> \<not> settle_arguments_ok argv then refused ''invalid_input'' [] s
           else if argument argv 1 = ''settle'' \<and> \<not> settle_proof_ok L s keys argv cost
           then refused ''canonical_run_terminate_proof_conflict'' [] s
           else if type_name s (keys ! 0) \<notin> {''none'', ''hash''} then refused ''reservation_conflict'' [] s
           else if type_name s (keys ! 0) = ''hash'' then existing_receipt keys argv cost s
           else if argument argv 1 \<noteq> ''reserve'' then refused ''reservation_missing'' [] s
           else first_reservation keys argv cost s))"

section \<open>The manager\<close>

record manager =
  mg_loader :: loader
  mg_initialised :: bool
  mg_released_ttl :: int

type_synonym managed = "manager \<times> resource_server host"

definition make_reservation_manager :: "loader \<Rightarrow> pyval \<Rightarrow> resource_error + manager" where
  "make_reservation_manager ld ttl =
     rbind (safe_integer ''released_receipt_ttl_seconds'' 1 ttl) (\<lambda>n.
       Inr \<lparr>mg_loader = ld, mg_initialised = False, mg_released_ttl = n\<rparr>)"

definition loader_message :: "loader_error \<Rightarrow> string" where
  "loader_message e = (case e of LoaderValueError m \<Rightarrow> m | LoaderRuntimeError m \<Rightarrow> m | CallRaised m \<Rightarrow> m)"

definition through_loader :: "(loader \<times> resource_server host \<Rightarrow> (loader \<times> resource_server host) \<times> (loader_error + 'a))
    \<Rightarrow> managed \<Rightarrow> managed \<times> (resource_error + 'a)" where
  "through_loader f = (\<lambda>(M, h).
     (case f (mg_loader M, h) of
        ((ld, h'), Inl e) \<Rightarrow> ((M\<lparr>mg_loader := ld\<rparr>, h'), Inl (ResourceCallError (loader_message e)))
      | ((ld, h'), Inr x) \<Rightarrow> ((M\<lparr>mg_loader := ld\<rparr>, h'), Inr x)))"

definition initialise_manager :: "fate \<Rightarrow> managed \<Rightarrow> managed \<times> (resource_error + unit)" where
  "initialise_manager f = (\<lambda>(M, h).
     (if mg_initialised M then ((M, h), Inr ())
      else (case through_loader (load_script f) (M, h) of
              ((M', h'), Inl e) \<Rightarrow> ((M', h'), Inl e)
            | ((M', h'), Inr u) \<Rightarrow> ((M'\<lparr>mg_initialised := True\<rparr>, h'), Inr ()))))"

definition now_ms_of :: "pyval \<Rightarrow> pyval \<Rightarrow> resource_error + int" where
  "now_ms_of clock v = safe_integer ''now_ms'' 0 (if v = PNone then clock else v)"

definition checked_receipt_key :: "externals \<Rightarrow> string \<Rightarrow> resource_error + string" where
  "checked_receipt_key E operation_id =
     rbind (required_exact_text E ''operation_id'' (PStr operation_id)) (\<lambda>op.
     if create_operation_re op then Inr (reservation_receipt_key op)
     else Inl (ResourceValueError ''operation_id must match ^run-create:v1:[0-9a-f]{64}$''))"

definition checked_resource_keys :: "externals \<Rightarrow> string \<Rightarrow> string \<Rightarrow> resource_error + string list" where
  "checked_resource_keys E operation_id tenant =
     rbind (checked_receipt_key E operation_id) (\<lambda>key.
     rbind (required_exact_text E ''tenant_id'' (PStr tenant)) (\<lambda>t.
       Inr [key, concurrent_run_key t, budget_reserved_key t, tenant_inflight t]))"

definition witness_json :: "string list \<Rightarrow> string" where
  "witness_json ws =
     ''['' @ (case ws of [] \<Rightarrow> [] | w # vs \<Rightarrow> json_string w @ concat (map (\<lambda>v. '', '' @ json_string v) vs)) @ '']''"

text \<open>Lifting of a computation that does not touch the state.\<close>

definition pure_step :: "'e + 'a \<Rightarrow> ('a \<Rightarrow> 's \<Rightarrow> 's \<times> ('e + 'b)) \<Rightarrow> 's \<Rightarrow> 's \<times> ('e + 'b)" where
  "pure_step m f s = (case m of Inl e \<Rightarrow> (s, Inl e) | Inr x \<Rightarrow> f x s)"

record reservation_result =
  rr_status :: string
  rr_operation_id :: string
  rr_proof :: string
  rr_mutated :: bool
  rr_state :: string

definition reservation_ok :: "reservation_result \<Rightarrow> bool" where
  "reservation_ok res \<longleftrightarrow>
     rr_status res \<in> {''reserved'', ''already_reserved'', ''finalized'', ''already_finalized'', ''released'',
       ''already_released'', ''settled'', ''already_settled''}"

definition settlement_ok :: "reservation_result \<Rightarrow> bool" where
  "settlement_ok res \<longleftrightarrow> rr_status res \<in> {''settled'', ''already_settled''}"

definition parse_reply :: "string \<Rightarrow> string \<Rightarrow> reservation_reply \<Rightarrow> reservation_result" where
  "parse_reply operation_id proof = (\<lambda>(status, state, mutated).
     \<lparr>rr_status = status, rr_operation_id = operation_id, rr_proof = proof, rr_mutated = (mutated = ''1''),
      rr_state = state\<rparr>)"

text \<open>
  Fate 0 is that of \<open>SCRIPT LOAD\<close>, the others are those of the loader. The arguments of \<open>execute\<close> after
  the reservation are the limits, the head keys and the witness.
\<close>

definition call_script :: "lua_lib \<Rightarrow> (nat \<Rightarrow> fate) \<Rightarrow> string list \<Rightarrow> string list \<Rightarrow> managed
    \<Rightarrow> managed \<times> (resource_error + reservation_reply)" where
  "call_script L net keys argv = through_loader (loader_run (reservation_script L keys argv) (\<lambda>i. net (Suc i)))"

definition reservation_argv :: "string \<Rightarrow> reservation \<Rightarrow> int \<Rightarrow> int \<Rightarrow> int \<Rightarrow> int \<Rightarrow> int \<Rightarrow> string list \<Rightarrow> string list" where
  "reservation_argv action r now c b i ttl witness =
     [action, rsv_operation_id r, rsv_run_id r, rsv_tenant_id r, dec_int (rsv_cost r), dec_int (rsv_version r),
      reservation_proof r, dec_int now, dec_int c, dec_int b, dec_int i, dec_int ttl]
     @ (if action = ''finalize'' then [witness_json witness] else [])"

definition settlement_argv :: "settlement \<Rightarrow> int \<Rightarrow> int \<Rightarrow> string list \<Rightarrow> string list \<Rightarrow> string list" where
  "settlement_argv st now ttl witness creation =
     [''settle'', stl_create_operation_id st, stl_run_id st, stl_tenant_id st, dec_int (stl_cost st), ''1'',
      stl_reservation_proof st, dec_int now, ''-1'', ''-1'', ''-1'', dec_int ttl,
      stl_terminate_operation_id st, stl_terminal_proof st, stl_transition_id st, stl_record_hash st,
      stl_command_hash st, dec_int (stl_revision st), stl_final_state st, settlement_proof st,
      witness_json witness, witness_json creation]"

definition execute :: "externals \<Rightarrow> lua_lib \<Rightarrow> (nat \<Rightarrow> fate) \<Rightarrow> string \<Rightarrow> reservation \<Rightarrow> int \<Rightarrow> pyval \<Rightarrow> pyval \<Rightarrow> pyval
    \<Rightarrow> string list \<Rightarrow> string list \<Rightarrow> managed \<Rightarrow> managed \<times> (resource_error + reservation_result)" where
  "execute E L net action r now concurrent budget inflight head_keys witness =
     sbind (initialise_manager (net 0)) (\<lambda>u.
     pure_step (checked_resource_keys E (rsv_operation_id r) (rsv_tenant_id r)) (\<lambda>keys.
     pure_step (optional_limit ''concurrent_run_limit'' concurrent) (\<lambda>c.
     pure_step (optional_limit ''budget_limit_cents'' budget) (\<lambda>b.
     pure_step (optional_limit ''tenant_inflight_limit'' inflight) (\<lambda>i (M, h).
       sbind (call_script L net (keys @ head_keys)
         (reservation_argv action r now c b i (mg_released_ttl M) witness))
       (\<lambda>rep. sreturn (parse_reply (rsv_operation_id r) (reservation_proof r) rep)) (M, h))))))"

definition reserve_once :: "externals \<Rightarrow> lua_lib \<Rightarrow> (nat \<Rightarrow> fate) \<Rightarrow> pyval \<Rightarrow> reservation \<Rightarrow> pyval \<Rightarrow> pyval \<Rightarrow> pyval \<Rightarrow> pyval
    \<Rightarrow> managed \<Rightarrow> managed \<times> (resource_error + reservation_result)" where
  "reserve_once E L net clock r concurrent budget inflight now =
     pure_step (now_ms_of clock now) (\<lambda>ms. execute E L net ''reserve'' r ms concurrent budget inflight [] [])"

definition finalize_once :: "externals \<Rightarrow> lua_lib \<Rightarrow> (nat \<Rightarrow> fate) \<Rightarrow> pyval \<Rightarrow> reservation \<Rightarrow> pyval \<Rightarrow> string list \<Rightarrow> string list
    \<Rightarrow> managed \<Rightarrow> managed \<times> (resource_error + reservation_result)" where
  "finalize_once E L net clock r now head_keys witness =
     pure_step (now_ms_of clock now) (\<lambda>ms. execute E L net ''finalize'' r ms PNone PNone PNone head_keys witness)"

definition release_once :: "externals \<Rightarrow> lua_lib \<Rightarrow> (nat \<Rightarrow> fate) \<Rightarrow> pyval \<Rightarrow> reservation \<Rightarrow> pyval
    \<Rightarrow> managed \<Rightarrow> managed \<times> (resource_error + reservation_result)" where
  "release_once E L net clock r now =
     pure_step (now_ms_of clock now) (\<lambda>ms. execute E L net ''release'' r ms PNone PNone PNone [] [])"

definition settle_once :: "externals \<Rightarrow> lua_lib \<Rightarrow> (nat \<Rightarrow> fate) \<Rightarrow> pyval \<Rightarrow> settlement \<Rightarrow> pyval \<Rightarrow> string list \<Rightarrow> string list
    \<Rightarrow> string list \<Rightarrow> managed \<Rightarrow> managed \<times> (resource_error + reservation_result)" where
  "settle_once E L net clock st now head_keys witness creation =
     sbind (initialise_manager (net 0)) (\<lambda>u.
     pure_step (now_ms_of clock now) (\<lambda>ms.
     pure_step (checked_resource_keys E (stl_create_operation_id st) (stl_tenant_id st)) (\<lambda>keys (M, h).
       sbind (call_script L net (keys @ head_keys)
         (settlement_argv st ms (mg_released_ttl M) witness creation))
       (\<lambda>rep. sreturn (parse_reply (stl_create_operation_id st) (settlement_proof st) rep)) (M, h))))"

section \<open>Reads\<close>

record reservation_receipt =
  rc_reservation :: reservation
  rc_proof :: string
  rc_state :: string
  rc_created_at_ms :: int
  rc_finalized_at_ms :: "int option"
  rc_released_at_ms :: "int option"
  rc_settled_at_ms :: "int option"
  rc_settlement_proof :: string
  rc_terminate_operation_id :: string
  rc_terminal_proof :: string
  rc_transition_id :: string
  rc_record_hash :: string
  rc_command_hash :: string
  rc_revision :: "int option"
  rc_final_state :: string

definition receipt_value :: "(string \<times> string) list \<Rightarrow> string \<Rightarrow> string" where
  "receipt_value h f = (case map_of h f of None \<Rightarrow> [] | Some v \<Rightarrow> v)"

text \<open>\<open>_safe_integer(int(text), name, minimum)\<close>; a \<open>ValueError\<close> becomes a conflict.\<close>

definition stored_integer :: "string \<Rightarrow> int \<Rightarrow> string \<Rightarrow> resource_error + int" where
  "stored_integer name lo t =
     (case py_int_text t of
        Inl e \<Rightarrow> Inl (ReservationConflictError ''stored reservation lifecycle metadata is invalid'')
      | Inr n \<Rightarrow>
          (case safe_integer name lo (PInt n) of
             Inl e \<Rightarrow> Inl (ReservationConflictError ''stored reservation lifecycle metadata is invalid'')
           | Inr m \<Rightarrow> Inr m))"

definition optional_integer :: "(string \<times> string) list \<Rightarrow> string \<Rightarrow> int \<Rightarrow> resource_error + int option" where
  "optional_integer h f lo =
     (if receipt_value h f = [] then Inr None
      else rbind (stored_integer f lo (receipt_value h f)) (\<lambda>n. Inr (Some n)))"

definition settled_evidence_ok :: "externals \<Rightarrow> (string \<times> string) list \<Rightarrow> int option \<Rightarrow> int option \<Rightarrow> bool" where
  "settled_evidence_ok E h revision settled_at \<longleftrightarrow>
     is_ok (required_exact_text E ''run_terminate_operation_id'' (PStr (receipt_value h ''run_terminate_operation_id'')))
     \<and> terminate_operation_re (receipt_value h ''run_terminate_operation_id'')
     \<and> is_ok (required_sha256_text E ''terminal_proof_sha256'' (PStr (receipt_value h ''terminal_proof_sha256'')))
     \<and> is_ok (required_exact_text E ''canonical_transition_id'' (PStr (receipt_value h ''canonical_transition_id'')))
     \<and> is_ok (required_sha256_text E ''canonical_record_hash'' (PStr (receipt_value h ''canonical_record_hash'')))
     \<and> is_ok (required_sha256_text E ''canonical_command_hash'' (PStr (receipt_value h ''canonical_command_hash'')))
     \<and> is_ok (required_sha256_text E ''settlement_proof_sha256'' (PStr (receipt_value h ''settlement_proof_sha256'')))
     \<and> revision \<noteq> None \<and> receipt_value h ''final_state'' \<in> {''done'', ''failed''} \<and> settled_at \<noteq> None"

text \<open>\<open>HGETALL\<close> of a missing key is empty; of a key of another type an error of the server.\<close>

definition get_receipt :: "externals \<Rightarrow> resource_server \<Rightarrow> reservation \<Rightarrow> resource_error + reservation_receipt option" where
  "get_receipt E s r =
     rbind (checked_receipt_key E (rsv_operation_id r)) (\<lambda>key.
     if type_name s key \<notin> {''none'', ''hash''} then Inl (ResourceCallError ''WRONGTYPE'')
     else if receipt_hash s key = [] then Inr None
     else if \<not> field_list_is s key immutable_fields
               [rsv_operation_id r, rsv_run_id r, rsv_tenant_id r, dec_int (rsv_cost r), dec_int (rsv_version r), reservation_proof r]
     then Inl (ReservationConflictError ''stored reservation receipt conflicts with immutable proof'')
     else (let h = receipt_hash s key in
       case map_of h ''created_at_ms'' of
         None \<Rightarrow> Inl (ReservationConflictError ''stored reservation lifecycle metadata is invalid'')
       | Some created_text \<Rightarrow>
           rbind (stored_integer ''created_at_ms'' 0 created_text) (\<lambda>created.
           rbind (optional_integer h ''finalized_at_ms'' 0) (\<lambda>finalized.
           rbind (optional_integer h ''released_at_ms'' 0) (\<lambda>released.
           rbind (optional_integer h ''settled_at_ms'' 0) (\<lambda>settled.
           rbind (optional_integer h ''canonical_revision'' 1) (\<lambda>revision.
             if receipt_value h ''state'' \<notin> set known_states
             then Inl (ReservationConflictError ''stored reservation state is invalid'')
             else if receipt_value h ''state'' = ''SETTLED'' \<and> \<not> settled_evidence_ok E h revision settled
             then Inl (ReservationConflictError ''stored settlement evidence is invalid'')
             else Inr (Some
               \<lparr>rc_reservation = r, rc_proof = reservation_proof r, rc_state = receipt_value h ''state'',
                rc_created_at_ms = created, rc_finalized_at_ms = finalized, rc_released_at_ms = released,
                rc_settled_at_ms = settled, rc_settlement_proof = receipt_value h ''settlement_proof_sha256'',
                rc_terminate_operation_id = receipt_value h ''run_terminate_operation_id'',
                rc_terminal_proof = receipt_value h ''terminal_proof_sha256'',
                rc_transition_id = receipt_value h ''canonical_transition_id'',
                rc_record_hash = receipt_value h ''canonical_record_hash'',
                rc_command_hash = receipt_value h ''canonical_command_hash'', rc_revision = revision,
                rc_final_state = receipt_value h ''final_state''\<rparr>)))))))) "

text \<open>
  A counter as the snapshot reads it; \<open>MGET\<close> gives \<open>None\<close> for a key that holds no string. Python's
  \<open>isdecimal\<close> also takes the decimal digits of other scripts, which no counter holds.
\<close>

definition decode_counter :: "string option \<Rightarrow> resource_error + int" where
  "decode_counter v =
     (case v of
        None \<Rightarrow> Inr 0
      | Some t \<Rightarrow>
          (if t = [] \<or> \<not> list_all is_digit t
           then Inl (ReservationConflictError ''resource counter is not a non-negative integer'')
           else rbind (case py_int_text t of Inl e \<Rightarrow> Inl (ResourceValueError ''int'') | Inr n \<Rightarrow> Inr n)
                  (\<lambda>n. safe_integer ''resource_counter'' 0 (PInt n))))"

definition counter_value :: "resource_server \<Rightarrow> string \<Rightarrow> string option" where
  "counter_value s key = (if srv_view s key = Some (ROther KString) then Some (srv_text s key) else None)"

record resource_snapshot =
  rs_concurrent_runs :: int
  rs_budget_reserved :: int
  rs_tenant_inflight :: int

definition get_resource_snapshot :: "externals \<Rightarrow> resource_server \<Rightarrow> pyval \<Rightarrow> resource_error + resource_snapshot" where
  "get_resource_snapshot E s tenant_id =
     rbind (required_exact_text E ''tenant_id'' tenant_id) (\<lambda>tenant.
     rbind (decode_counter (counter_value s (concurrent_run_key tenant))) (\<lambda>c.
     rbind (decode_counter (counter_value s (budget_reserved_key tenant))) (\<lambda>b.
     rbind (decode_counter (counter_value s (tenant_inflight tenant))) (\<lambda>i.
       Inr \<lparr>rs_concurrent_runs = c, rs_budget_reserved = b, rs_tenant_inflight = i\<rparr>))))"

end
