(* ===== verification/RunCreateCommand.thy ===== *)
theory RunCreateCommand
  imports AdmissionReservation AuthorityEvaluation
begin

text \<open>
  The inputs and the command of a run admission: the first half of
  \<open>src/hfa-control/src/hfa_control/run_create_authority.py\<close>.

  A request is normalised field by field, the normalised input is the metadata of a \<open>RUN_CREATE\<close>
  command, and the stored record gives the input back. Every rejection is a \<open>ValueError\<close>; its text is
  reduced to the name of the field. Mappings have the keys a Python dictionary has: no two are equal.
\<close>

section \<open>Checked values\<close>

datatype run_error = RunValueError string

definition run_contract :: "authority_error + 'a \<Rightarrow> run_error + 'a" where
  "run_contract m = (case m of Inl e \<Rightarrow> Inl (RunValueError ''contract'') | Inr x \<Rightarrow> Inr x)"

definition parse_run_create_binding_flag :: "string option \<Rightarrow> run_error + bool" where
  "parse_run_create_binding_flag value =
     (let normalized = (case value of None \<Rightarrow> [] | Some t \<Rightarrow> map lower_char (py_strip t)) in
      if normalized \<in> {''1'', ''true'', ''yes'', ''on''} then Inr True
      else if normalized \<in> {'''', ''0'', ''false'', ''no'', ''off''} then Inr False
      else Inl (RunValueError ''HFA_CANONICAL_RUN_CREATE_BINDING''))"

definition required_text :: "externals \<Rightarrow> string \<Rightarrow> bool \<Rightarrow> pyval \<Rightarrow> run_error + string" where
  "required_text E name allow_empty v =
     (case v of
        PStr s \<Rightarrow>
          (if s \<noteq> py_strip s then Inl (RunValueError name)
           else if \<not> allow_empty \<and> nfc_normalize E s = [] then Inl (RunValueError name)
           else Inr (nfc_normalize E s))
      | _ \<Rightarrow> Inl (RunValueError name))"

definition required_sha256 :: "externals \<Rightarrow> string \<Rightarrow> pyval \<Rightarrow> run_error + string" where
  "required_sha256 E name v =
     rbind (required_text E name False v) (\<lambda>s. if sha256_re s then Inr s else Inl (RunValueError name))"

text \<open>The value of an integral float; \<open>FinFloat m e\<close> is \<open>m * 2 ^ e\<close>.\<close>

definition integral_float :: "pyfloat \<Rightarrow> int option" where
  "integral_float f =
     (case f of
        FinFloat m e \<Rightarrow>
          (if 0 \<le> e then Some (m * 2 ^ nat e)
           else if m mod 2 ^ nat (- e) = 0 then Some (m div 2 ^ nat (- e)) else None)
      | _ \<Rightarrow> None)"

definition exact_safe_integer :: "string \<Rightarrow> int \<Rightarrow> pyval \<Rightarrow> run_error + int" where
  "exact_safe_integer name lo v =
     (case (case v of PInt n \<Rightarrow> Some n | PFloat f \<Rightarrow> integral_float f | _ \<Rightarrow> None) of
        None \<Rightarrow> Inl (RunValueError name)
      | Some n \<Rightarrow> (if n < lo \<or> max_safe_integer < n then Inl (RunValueError name) else Inr n))"

definition optional_safe_limit :: "string \<Rightarrow> pyval \<Rightarrow> run_error + int option" where
  "optional_safe_limit name v =
     (if v = PNone then Inr None else rbind (exact_safe_integer name 0 v) (\<lambda>n. Inr (Some n)))"

text \<open>\<open>_normalize_json\<close>: the members of a mapping in the order of their normalised keys.\<close>

fun normalize_payload :: "externals \<Rightarrow> pyval \<Rightarrow> run_error + json" where
  "normalize_payload E PNone = Inr JNull"
| "normalize_payload E (PBool b) = Inr (JBool b)"
| "normalize_payload E (PStr s) = Inr (JStr (nfc_normalize E s))"
| "normalize_payload E (PInt n) =
     rbind (exact_safe_integer ''payload'' (- max_safe_integer) (PInt n)) (\<lambda>m. Inr (JInt m))"
| "normalize_payload E (PFloat f) = (if is_finite f then Inr (JFloat f) else Inl (RunValueError ''payload''))"
| "normalize_payload E (PMap kvs) =
     rbind (rtraverse (\<lambda>kv. rbind (required_text E ''payload'' False (fst kv)) (\<lambda>key.
              rbind (normalize_payload E (snd kv)) (\<lambda>j. Inr (key, j)))) kvs) (\<lambda>items.
       if distinct (map fst items) then Inr (JObj (sort_key fst items)) else Inl (RunValueError ''payload''))"
| "normalize_payload E (PSeq xs) = rbind (rtraverse (normalize_payload E) xs) (\<lambda>js. Inr (JArr js))"
| "normalize_payload E (PBytes b) = Inl (RunValueError ''payload'')"
| "normalize_payload E (POther t) = Inl (RunValueError ''payload'')"

section \<open>Identity\<close>

definition run_create_identity :: "externals \<Rightarrow> pyval \<Rightarrow> run_error + aggregate_identity" where
  "run_create_identity E run_id =
     rbind (required_text E ''run_id'' False run_id) (\<lambda>r. run_contract (make_identity E RUN (PStr r) PNone))"

definition run_create_operation_id :: "externals \<Rightarrow> pyval \<Rightarrow> run_error + string" where
  "run_create_operation_id E run_id =
     rbind (run_create_identity E run_id) (\<lambda>i. Inr (''run-create:v1:'' @ identity_sha256 i))"

section \<open>Inputs\<close>

text \<open>\<open>RunCreateAuthorityInput\<close> as it is passed, and normalised.\<close>

record run_create_raw =
  rw_run_id :: pyval
  rw_tenant_id :: pyval
  rw_agent_type :: pyval
  rw_priority :: pyval
  rw_payload :: pyval
  rw_cost :: pyval
  rw_region :: pyval
  rw_placement :: pyval
  rw_created_at_ms :: pyval
  rw_control_stream :: pyval
  rw_state_ttl :: pyval
  rw_root_task_id :: pyval

record run_create =
  rn_run_id :: string
  rn_tenant_id :: string
  rn_agent_type :: string
  rn_priority :: int
  rn_payload :: "(string \<times> json) list"
  rn_cost :: int
  rn_region :: string
  rn_placement :: string
  rn_created_at_ms :: int
  rn_control_stream :: string
  rn_state_ttl :: int
  rn_root_task_id :: "string option"

definition raw_of :: "run_create \<Rightarrow> run_create_raw" where
  "raw_of v =
     \<lparr>rw_run_id = PStr (rn_run_id v), rw_tenant_id = PStr (rn_tenant_id v), rw_agent_type = PStr (rn_agent_type v),
      rw_priority = PInt (rn_priority v), rw_payload = py_of_json (JObj (rn_payload v)), rw_cost = PInt (rn_cost v),
      rw_region = PStr (rn_region v), rw_placement = PStr (rn_placement v), rw_created_at_ms = PInt (rn_created_at_ms v),
      rw_control_stream = PStr (rn_control_stream v), rw_state_ttl = PInt (rn_state_ttl v),
      rw_root_task_id = opt_str (rn_root_task_id v)\<rparr>"

definition optional_text :: "externals \<Rightarrow> string \<Rightarrow> pyval \<Rightarrow> run_error + string option" where
  "optional_text E name v =
     (if v = PNone then Inr None else rbind (required_text E name False v) (\<lambda>s. Inr (Some s)))"

definition normalize_object :: "externals \<Rightarrow> pyval \<Rightarrow> run_error + (string \<times> json) list" where
  "normalize_object E v =
     rbind (normalize_payload E v) (\<lambda>j. case j of JObj kvs \<Rightarrow> Inr kvs | _ \<Rightarrow> Inl (RunValueError ''payload''))"

definition normalize_run_create_input :: "externals \<Rightarrow> run_create_raw \<Rightarrow> run_error + run_create" where
  "normalize_run_create_input E v =
     rbind (normalize_object E (rw_payload v)) (\<lambda>payload.
     rbind (optional_text E ''root_task_id'' (rw_root_task_id v)) (\<lambda>root.
     rbind (required_text E ''run_id'' False (rw_run_id v)) (\<lambda>run.
     rbind (required_text E ''tenant_id'' False (rw_tenant_id v)) (\<lambda>tenant.
     rbind (required_text E ''agent_type'' False (rw_agent_type v)) (\<lambda>agent.
     rbind (exact_safe_integer ''priority'' 0 (rw_priority v)) (\<lambda>priority.
     rbind (exact_safe_integer ''estimated_cost_cents'' 0 (rw_cost v)) (\<lambda>cost.
     rbind (required_text E ''preferred_region'' True (rw_region v)) (\<lambda>region.
     rbind (required_text E ''preferred_placement'' False (rw_placement v)) (\<lambda>placement.
     rbind (exact_safe_integer ''created_at_ms'' 0 (rw_created_at_ms v)) (\<lambda>created.
     rbind (required_text E ''control_stream'' False (rw_control_stream v)) (\<lambda>stream.
     rbind (exact_safe_integer ''run_state_ttl_seconds'' 1 (rw_state_ttl v)) (\<lambda>ttl.
       Inr \<lparr>rn_run_id = run, rn_tenant_id = tenant, rn_agent_type = agent, rn_priority = priority, rn_payload = payload,
            rn_cost = cost, rn_region = region, rn_placement = placement, rn_created_at_ms = created,
            rn_control_stream = stream, rn_state_ttl = ttl, rn_root_task_id = root\<rparr>))))))))))))"

section \<open>Command and context\<close>

definition create_metadata :: "run_create \<Rightarrow> (string \<times> json) list" where
  "create_metadata v =
     [(''run_id'', JStr (rn_run_id v)), (''tenant_id'', JStr (rn_tenant_id v)), (''agent_type'', JStr (rn_agent_type v)),
      (''priority'', JInt (rn_priority v)), (''payload'', JObj (rn_payload v)), (''estimated_cost_cents'', JInt (rn_cost v)),
      (''preferred_region'', JStr (rn_region v)), (''preferred_placement'', JStr (rn_placement v)),
      (''created_at_ms'', JInt (rn_created_at_ms v)), (''control_stream'', JStr (rn_control_stream v)),
      (''run_state_ttl_seconds'', JInt (rn_state_ttl v)), (''legacy_projection_state'', JStr ''admitted'')]
     @ (case rn_root_task_id v of None \<Rightarrow> [] | Some t \<Rightarrow> [(''root_task_id'', JStr t)])"

definition status_intent :: "run_create \<Rightarrow> (string \<times> json) list" where
  "status_intent v =
     [(''kind'', JStr ''RUN_STATUS_PROJECTION''), (''legacy_state'', JStr ''admitted''),
      (''control_stream'', JStr (rn_control_stream v))]"

definition build_run_create_command :: "externals \<Rightarrow> run_create_raw \<Rightarrow> run_error + authority_command" where
  "build_run_create_command E value =
     rbind (normalize_run_create_input E value) (\<lambda>v.
     rbind (run_create_identity E (PStr (rn_run_id v))) (\<lambda>i.
       run_contract (make_command E i (PStr ''RUN_CREATE'') (PStr (''run-create:v1:'' @ identity_sha256 i)) (PInt 0) PNone
         (PStr ''pending'') (py_of_json (JObj (create_metadata v))) (py_of_json (JObj (create_metadata v))) (PMap [])
         [py_of_json (JObj (status_intent v))] PNone)))"

definition run_create_writer :: string where
  "run_create_writer = ''hfa-control/run-create-writer:v1''"

definition build_run_create_context :: "externals \<Rightarrow> authority_command \<Rightarrow> run_error + authority_context" where
  "build_run_create_context E c =
     (if cmd_operation_type c \<noteq> RUN_CREATE then Inl (RunValueError ''operation_type'')
      else run_contract (make_context E (PStr run_create_writer) {RUN_CREATE} (PStr (identity_sha256 (cmd_identity c)))
             (PBool False) (PBool True)))"

section \<open>The input behind a record\<close>

definition metadata_get :: "(string \<times> json) list \<Rightarrow> string \<Rightarrow> pyval" where
  "metadata_get kvs k = (case map_of kvs k of None \<Rightarrow> PNone | Some j \<Rightarrow> thaw j)"

definition raw_of_metadata :: "(string \<times> json) list \<Rightarrow> run_create_raw" where
  "raw_of_metadata m =
     \<lparr>rw_run_id = metadata_get m ''run_id'', rw_tenant_id = metadata_get m ''tenant_id'',
      rw_agent_type = metadata_get m ''agent_type'', rw_priority = metadata_get m ''priority'',
      rw_payload = metadata_get m ''payload'', rw_cost = metadata_get m ''estimated_cost_cents'',
      rw_region = metadata_get m ''preferred_region'', rw_placement = metadata_get m ''preferred_placement'',
      rw_created_at_ms = metadata_get m ''created_at_ms'', rw_control_stream = metadata_get m ''control_stream'',
      rw_state_ttl = metadata_get m ''run_state_ttl_seconds'', rw_root_task_id = metadata_get m ''root_task_id''\<rparr>"

definition input_from_record :: "externals \<Rightarrow> ctr \<Rightarrow> run_error + run_create" where
  "input_from_record E r =
     (if rec_operation_type r \<noteq> PStr ''RUN_CREATE'' then Inl (RunValueError ''operation'')
      else if id_aggregate_type (rec_identity r) \<noteq> RUN then Inl (RunValueError ''aggregate_type'')
      else if rec_from_revision r \<noteq> PInt 0 \<or> rec_to_revision r \<noteq> PInt 1 then Inl (RunValueError ''revision'')
      else if rec_previous_state r \<noteq> PNone \<or> rec_next_state r \<noteq> PStr ''pending'' then Inl (RunValueError ''state'')
      else if rec_writer_id r \<noteq> PStr run_create_writer then Inl (RunValueError ''writer'')
      else case rec_metadata_changes r of
        JObj m \<Rightarrow>
          rbind (normalize_run_create_input E (raw_of_metadata m)) (\<lambda>v.
          if metadata_get m ''legacy_projection_state'' \<noteq> PStr ''admitted'' then Inl (RunValueError ''projection state'')
          else rbind (build_run_create_command E (raw_of v)) (\<lambda>c.
            if rec_operation_id r \<noteq> PStr (cmd_operation_id c) then Inl (RunValueError ''operation identity'')
            else rbind (run_contract (command_hash E c)) (\<lambda>h.
              if rec_command_hash r \<noteq> PStr h then Inl (RunValueError ''command proof'') else Inr v)))
      | _ \<Rightarrow> Inl (RunValueError ''metadata''))"

definition resource_reservation_from_record :: "externals \<Rightarrow> ctr \<Rightarrow> (run_error + resource_error) + reservation" where
  "resource_reservation_from_record E r =
     (case input_from_record E r of
        Inl e \<Rightarrow> Inl (Inl e)
      | Inr v \<Rightarrow>
          (case make_reservation E (rec_operation_id r) (PStr (rn_run_id v)) (PStr (rn_tenant_id v)) (PInt (rn_cost v)) (PInt 1) of
             Inl e \<Rightarrow> Inl (Inr e)
           | Inr q \<Rightarrow> Inr q))"


section \<open>The checks, inverted\<close>

text \<open>Unicode normalisation keeps a text that has no surrounding blanks without surrounding blanks.\<close>

definition nfc_keeps_strip :: "externals \<Rightarrow> bool" where
  "nfc_keeps_strip E \<longleftrightarrow> (\<forall>s. py_strip s = s \<longrightarrow> py_strip (nfc_normalize E s) = nfc_normalize E s)"

definition checked_text :: "externals \<Rightarrow> string \<Rightarrow> bool" where
  "checked_text E s \<longleftrightarrow> py_strip s = s \<and> nfc_normalize E s = s"

lemma run_contract_Inr_iff [result_simps]: "run_contract m = Inr x \<longleftrightarrow> m = Inr x"
  by (cases m) (simp_all add: run_contract_def)

lemma required_text_Inr_iff [result_simps]:
  "required_text E n ae v = Inr s \<longleftrightarrow> (\<exists>r. v = PStr r \<and> py_strip r = r \<and> s = nfc_normalize E r \<and> (ae \<or> s \<noteq> []))"
  by (cases v) (auto simp: required_text_def eq_commute [of _ "py_strip _"])

lemma required_text_checked:
  assumes "nfc_laws E" and "nfc_keeps_strip E" and "required_text E n ae v = Inr s"
  shows "checked_text E s"
  using assms by (auto simp: result_simps checked_text_def nfc_keeps_strip_def nfc_idem)

lemma required_text_again [simp]:
  assumes "checked_text E s" and "ae \<or> s \<noteq> []"
  shows "required_text E n ae (PStr s) = Inr s"
  using assms by (auto simp: result_simps checked_text_def)

lemma exact_safe_integer_range:
  "exact_safe_integer n lo v = Inr i \<Longrightarrow> lo \<le> i \<and> i \<le> max_safe_integer"
  by (auto simp: exact_safe_integer_def split: option.splits if_splits)

lemma exact_safe_integer_again [simp]:
  "lo \<le> i \<Longrightarrow> i \<le> max_safe_integer \<Longrightarrow> exact_safe_integer n lo (PInt i) = Inr i"
  by (simp add: exact_safe_integer_def)

lemma optional_text_Inr_iff [result_simps]:
  "optional_text E n v = Inr s \<longleftrightarrow>
     (v = PNone \<and> s = None) \<or> (\<exists>t. v \<noteq> PNone \<and> required_text E n False v = Inr t \<and> s = Some t)"
  by (auto simp: optional_text_def rbind_Inr_iff)

section \<open>Normal payloads\<close>

text \<open>The values \<open>_normalize_json\<close> returns: members sorted by key, keys without surrounding blanks.\<close>

fun payload_normal :: "externals \<Rightarrow> json \<Rightarrow> bool" where
  "payload_normal E JNull = True"
| "payload_normal E (JBool b) = True"
| "payload_normal E (JInt i) = (- max_safe_integer \<le> i \<and> i \<le> max_safe_integer)"
| "payload_normal E (JFloat f) = is_finite f"
| "payload_normal E (JStr s) = (nfc_normalize E s = s)"
| "payload_normal E (JArr js) = list_all (payload_normal E) js"
| "payload_normal E (JObj kvs) =
     (distinct (map fst kvs) \<and> sorted (map fst kvs)
      \<and> list_all (\<lambda>kv. fst kv \<noteq> [] \<and> checked_text E (fst kv) \<and> payload_normal E (snd kv)) kvs)"

lemma payload_normal_wf: "payload_normal E j \<Longrightarrow> json_wf E j"
proof (induction j)
  case (JObj kvs)
  have "json_wf E (snd kv)" if "kv \<in> set kvs" for kv
    using JObj.IH [of kv "snd kv"] JObj.prems that by (cases kv) (auto simp: list_all_iff)
  with JObj.prems show ?case by (auto simp: list_all_iff checked_text_def)
qed (auto simp: list_all_iff)

lemma normalize_payload_normal:
  assumes laws: "nfc_laws E" "nfc_keeps_strip E"
  shows "normalize_payload E v = Inr j \<Longrightarrow> payload_normal E j"
  using laws
proof (induction E v arbitrary: j rule: normalize_payload.induct)
  case (4 E n)
  then show ?case by (auto simp: rbind_Inr_iff dest: exact_safe_integer_range)
next
  case (6 E kvs)
  then obtain items where
    items: "rtraverse (\<lambda>kv. rbind (required_text E ''payload'' False (fst kv)) (\<lambda>key.
              rbind (normalize_payload E (snd kv)) (\<lambda>j. Inr (key, j)))) kvs = Inr items"
    and d: "distinct (map fst items)" and j: "j = JObj (sort_key fst items)"
    by (auto simp: rbind_Inr_iff split: if_splits)
  have "fst it \<noteq> [] \<and> checked_text E (fst it) \<and> payload_normal E (snd it)" if "it \<in> set items" for it
  proof -
    from rtraverse_imgD [OF items that] obtain kv key i where
      kv: "kv \<in> set kvs" "required_text E ''payload'' False (fst kv) = Inr key"
      "normalize_payload E (snd kv) = Inr i" "it = (key, i)"
      by (auto simp: rbind_Inr_iff)
    then show ?thesis
      using 6(1) [OF kv(1,2) kv(3)] 6(3,4) required_text_checked [OF 6(3,4) kv(2)]
      by (auto simp: required_text_Inr_iff)
  qed
  moreover have "distinct (map fst (sort_key fst items))" using d by (simp add: distinct_map)
  ultimately show ?case by (simp add: j list_all_iff)
next
  case (7 E xs)
  then obtain js where js: "rtraverse (normalize_payload E) xs = Inr js" "j = JArr js" by (auto simp: rbind_Inr_iff)
  then show ?case using 7 by (auto simp: list_all_iff dest!: rtraverse_imgD [OF js(1)])
qed (auto simp: nfc_idem split: if_splits)

lemma normalize_payload_again: "payload_normal E j \<Longrightarrow> normalize_payload E (py_of_json j) = Inr j"
proof (induction j)
  case (JArr js)
  then have "rtraverse (normalize_payload E) (map py_of_json js) = Inr (map (\<lambda>x. x) js)"
    by (induction js) auto
  then show ?case by simp
next
  case (JObj kvs)
  have "normalize_payload E (py_of_json (snd kv)) = Inr (snd kv)" if "kv \<in> set kvs" for kv
    using JObj.IH [of kv "snd kv"] JObj.prems that by (cases kv) (auto simp: list_all_iff)
  moreover have "fst kv \<noteq> [] \<and> checked_text E (fst kv)" if "kv \<in> set kvs" for kv
    using JObj.prems that by (auto simp: list_all_iff)
  ultimately have "rtraverse (\<lambda>kv. rbind (required_text E ''payload'' False (fst kv)) (\<lambda>key.
              rbind (normalize_payload E (snd kv)) (\<lambda>j. Inr (key, j))))
      (map (\<lambda>kv. (PStr (fst kv), py_of_json (snd kv))) kvs) = Inr kvs"
    by (induction kvs) auto
  moreover have "sort_key fst kvs = kvs" using JObj.prems by (intro sort_key_sorted) simp
  ultimately show ?case using JObj.prems by simp
qed (auto simp: exact_safe_integer_def)

section \<open>Normal inputs\<close>

definition safe_natural :: "int \<Rightarrow> int \<Rightarrow> bool" where
  "safe_natural lo n \<longleftrightarrow> lo \<le> n \<and> n \<le> max_safe_integer"

definition run_create_normal :: "externals \<Rightarrow> run_create \<Rightarrow> bool" where
  "run_create_normal E v \<longleftrightarrow>
     (\<forall>s \<in> {rn_run_id v, rn_tenant_id v, rn_agent_type v, rn_placement v, rn_control_stream v}
         \<union> set_option (rn_root_task_id v). s \<noteq> [] \<and> checked_text E s)
     \<and> checked_text E (rn_region v)
     \<and> (\<forall>n \<in> {rn_priority v, rn_cost v, rn_created_at_ms v}. safe_natural 0 n) \<and> safe_natural 1 (rn_state_ttl v)
     \<and> payload_normal E (JObj (rn_payload v))"

lemma normalize_object_Inr_iff: "normalize_object E v = Inr kvs \<longleftrightarrow> normalize_payload E v = Inr (JObj kvs)"
  by (cases "normalize_payload E v") (auto simp: normalize_object_def split: json.splits)

lemma run_create_normal_intro:
  assumes laws: "nfc_laws E" "nfc_keeps_strip E" and ok: "normalize_run_create_input E raw = Inr v"
  shows "run_create_normal E v"
proof -
  have t: "required_text E n False x = Inr s \<Longrightarrow> s \<noteq> [] \<and> checked_text E s" for n x s
    using required_text_checked [OF laws] by (auto simp: required_text_Inr_iff)
  have o: "optional_text E n x = Inr s \<Longrightarrow> t' \<in> set_option s \<Longrightarrow> t' \<noteq> [] \<and> checked_text E t'" for n x s t'
    using t by (auto simp: optional_text_Inr_iff)
  have i: "exact_safe_integer n lo x = Inr k \<Longrightarrow> safe_natural lo k" for n lo x k
    by (auto simp: safe_natural_def dest: exact_safe_integer_range)
  show ?thesis
    using ok unfolding normalize_run_create_input_def rbind_Inr_iff
    by (auto simp: run_create_normal_def normalize_object_Inr_iff dest: t o i required_text_checked [OF laws]
        simp del: payload_normal.simps intro: normalize_payload_normal [OF laws])
qed

lemma optional_text_again:
  "(\<And>t. s = Some t \<Longrightarrow> t \<noteq> [] \<and> checked_text E t) \<Longrightarrow> optional_text E n (opt_str s) = Inr s"
  by (cases s) (auto simp: optional_text_def)

lemma normalize_again:
  assumes "run_create_normal E v"
  shows "normalize_run_create_input E (raw_of v) = Inr v"
proof -
  have "normalize_object E (py_of_json (JObj (rn_payload v))) = Inr (rn_payload v)"
    using assms unfolding normalize_object_Inr_iff run_create_normal_def by (intro normalize_payload_again) simp
  moreover have "optional_text E ''root_task_id'' (opt_str (rn_root_task_id v)) = Inr (rn_root_task_id v)"
    using assms by (intro optional_text_again) (auto simp: run_create_normal_def)
  ultimately show ?thesis
    using assms unfolding normalize_run_create_input_def raw_of_def
    by (simp add: run_create_normal_def safe_natural_def del: py_of_json.simps)
qed

end
