(* ===== verification/AdmissionAccounting.thy ===== *)
theory AdmissionAccounting
  imports AdmissionReservation
begin

text \<open>
  Accounting of admission resources: in every state that manager calls, expiry, lost script caches and
  writers of other keys can reach, the three counters of a tenant are the number, the total cost and
  the number of its receipts that are RESERVED or FINALIZED. A receipt that holds resources can
  therefore always be released or settled, and a reservation never passes a limit.
\<close>

section \<open>Protected keys\<close>

definition receipt_prefix :: string where
  "receipt_prefix = ''hfa:admission:resource-reservation:v1:''"

definition is_receipt_key :: "string \<Rightarrow> bool" where
  "is_receipt_key k \<longleftrightarrow> (\<exists>d. k = receipt_prefix @ d)"

definition counter_keys :: "string \<Rightarrow> string list" where
  "counter_keys tenant = [concurrent_run_key tenant, budget_reserved_key tenant, tenant_inflight tenant]"

definition is_protected :: "string \<Rightarrow> bool" where
  "is_protected k \<longleftrightarrow> is_receipt_key k \<or> (\<exists>t. k \<in> set (counter_keys t))"

lemma receipt_key_is [simp]: "is_receipt_key (reservation_receipt_key op)"
  by (auto simp: is_receipt_key_def reservation_receipt_key_def receipt_prefix_def)

lemma append_eq_last: "length a = length b \<Longrightarrow> xs @ a = ys @ b \<longleftrightarrow> xs = ys \<and> a = b"
  by simp

lemma suffixes_differ: "t @ '':concurrent_runs'' \<noteq> u @ '':budget_reserved_cents''"
proof
  assume "t @ '':concurrent_runs'' = u @ '':budget_reserved_cents''"
  then have "rev (t @ '':concurrent_runs'') = rev (u @ '':budget_reserved_cents'')" by simp
  then show False by simp
qed

lemma counter_keys_differ [simp]:
  "concurrent_run_key t = concurrent_run_key u \<longleftrightarrow> t = u"
  "budget_reserved_key t = budget_reserved_key u \<longleftrightarrow> t = u"
  "tenant_inflight t = tenant_inflight u \<longleftrightarrow> t = u"
  "concurrent_run_key t \<noteq> budget_reserved_key u" "budget_reserved_key u \<noteq> concurrent_run_key t"
  "concurrent_run_key t \<noteq> tenant_inflight u" "tenant_inflight u \<noteq> concurrent_run_key t"
  "budget_reserved_key t \<noteq> tenant_inflight u" "tenant_inflight u \<noteq> budget_reserved_key t"
  by (auto simp: concurrent_run_key_def budget_reserved_key_def tenant_inflight_def suffixes_differ dest: sym)

lemma receipt_not_counter [simp]:
  "is_receipt_key k \<Longrightarrow> k \<noteq> concurrent_run_key t" "is_receipt_key k \<Longrightarrow> k \<noteq> budget_reserved_key t"
  "is_receipt_key k \<Longrightarrow> k \<noteq> tenant_inflight t"
  "\<not> is_receipt_key (concurrent_run_key t)" "\<not> is_receipt_key (budget_reserved_key t)" "\<not> is_receipt_key (tenant_inflight t)"
  by (auto simp: is_receipt_key_def receipt_prefix_def concurrent_run_key_def budget_reserved_key_def tenant_inflight_def)

section \<open>Reading the server after a write\<close>

lemma decimal_dec_int [simp]: "0 \<le> n \<Longrightarrow> n \<le> max_safe_integer \<Longrightarrow> decimal_integer (dec_int n) 0 = Some n"
proof -
  assume n: "0 \<le> n" "n \<le> max_safe_integer"
  have "dec_int n = dec_nat (nat n)" using n by (simp add: dec_int_def)
  moreover have "list_all is_digit (dec_nat (nat n))" by (auto simp: list_all_iff dest: dec_nat_digits)
  moreover have "dec_nat (nat n) = ''0'' \<or> hd (dec_nat (nat n)) \<noteq> CHR ''0''"
  proof (cases "nat n = 0")
    case True
    have "dec_nat 0 = ''0''" by code_simp
    with True show ?thesis by simp
  next
    case False
    then have "hd (dec_nat (nat n)) \<noteq> CHR ''0''" by (intro notI) (drule dec_nat_leading_zero, simp)
    then show ?thesis by (rule disjI2)
  qed
  moreover have "int (nat_of_dec (dec_nat (nat n))) = n" using n by simp
  ultimately show ?thesis using n by (simp only: decimal_integer_def Let_def dec_nat_nonempty) auto
qed

lemma decimal_integer_bounds: "decimal_integer t lo = Some n \<Longrightarrow> lo \<le> n \<and> n \<le> max_safe_integer"
  by (auto simp: decimal_integer_def Let_def split: if_splits)

lemma decimal_integer_parse: "decimal_integer t lo = Some n \<Longrightarrow> parse_dec t = Some n"
  by (auto simp: decimal_integer_def parse_dec_def Let_def digit_not_minus is_digit_def split: if_splits list.splits)

lemma server_write_simps [simp]:
  "srv_view (put_text k t s) = (srv_view s)(k \<mapsto> ROther KString)"
  "srv_text (put_text k t s) = (srv_text s)(k := t)"
  "srv_ttl (put_text k t s) = kept_ttl s k"
  "srv_view (put_receipt k fvs s) = (srv_view s)(k \<mapsto> RHash (hset fvs (receipt_hash s k)))"
  "srv_text (put_receipt k fvs s) = srv_text s"
  "srv_ttl (put_receipt k fvs s) = kept_ttl s k"
  "srv_view (set_ttl k n s) = srv_view s" "srv_text (set_ttl k n s) = srv_text s"
  "srv_ttl (set_ttl k n s) = (srv_ttl s)(k := n)"
  by (simp_all add: put_text_def put_receipt_def set_ttl_def)

lemma base_view [simp]: "srv_view (base_server s) = srv_view s"
  by (simp add: base_server_def server.truncate_def)

lemma type_name_def': "type_name s k = (case srv_view s k of None \<Rightarrow> ''none'' | Some (RHash _) \<Rightarrow> ''hash'' | Some (ROther x) \<Rightarrow> redis_kind_name x)"
  by (simp add: type_name_def lua_type_def)

lemma receipt_hash_def': "receipt_hash s k = (case srv_view s k of Some (RHash h) \<Rightarrow> h | _ \<Rightarrow> [])"
  by (simp add: receipt_hash_def lua_hash_def)

lemma kind_string_iff [simp]: "redis_kind_name x = ''string'' \<longleftrightarrow> x = KString" "redis_kind_name x \<noteq> ''none''" "redis_kind_name x \<noteq> ''hash''"
  by (cases x; simp)+

lemma read_initial_iff: "read_initial_counter s k = Some n \<longleftrightarrow>
    (srv_view s k = None \<and> n = 0 \<or> srv_view s k = Some (ROther KString) \<and> srv_ttl s k = -1 \<and> decimal_integer (srv_text s k) 0 = Some n)"
  by (auto simp: read_initial_counter_def type_name_def' split: option.splits redis_value.splits)

lemma read_active_iff: "read_active_counter s k = Some n \<longleftrightarrow>
    srv_view s k = Some (ROther KString) \<and> srv_ttl s k = -1 \<and> decimal_integer (srv_text s k) 0 = Some n"
  by (auto simp: read_active_counter_def type_name_def' split: option.splits redis_value.splits)

lemma incr_by_counter:
  assumes "read_initial_counter s k = Some n" and "0 \<le> n + d" "n + d \<le> max_safe_integer"
  shows "read_active_counter (incr_by k d s) k = Some (n + d)"
proof -
  have "parse_dec ''0'' = Some 0" by code_simp
  then have "parse_dec (counter_text s k) = Some n"
    using assms(1) by (auto simp: read_initial_iff counter_text_def dest: decimal_integer_parse)
  moreover have "srv_view s k \<noteq> None \<Longrightarrow> srv_ttl s k = -1" using assms(1) by (auto simp: read_initial_iff)
  ultimately show ?thesis using assms by (simp add: read_active_iff incr_by_def kept_ttl_def)
qed

lemma incr_by_frame: "k' \<noteq> k \<Longrightarrow> srv_view (incr_by k d s) k' = srv_view s k' \<and> srv_text (incr_by k d s) k' = srv_text s k'
    \<and> srv_ttl (incr_by k d s) k' = srv_ttl s k'"
  by (simp add: incr_by_def kept_ttl_def split: option.split)

lemma active_initial: "read_active_counter s k = Some n \<Longrightarrow> read_initial_counter s k = Some n"
  by (simp add: read_active_iff read_initial_iff)

text \<open>Two servers agree on a key.\<close>

definition same_at :: "string \<Rightarrow> resource_server \<Rightarrow> resource_server \<Rightarrow> bool" where
  "same_at k s s' \<longleftrightarrow> srv_view s' k = srv_view s k \<and> srv_text s' k = srv_text s k \<and> srv_ttl s' k = srv_ttl s k"

lemma same_at_reads:
  assumes "same_at k s s'"
  shows "read_initial_counter s' k = read_initial_counter s k" "read_active_counter s' k = read_active_counter s k"
    "type_name s' k = type_name s k" "receipt_hash s' k = receipt_hash s k" "receipt_field s' k f = receipt_field s k f"
    "srv_view s' k = srv_view s k" "srv_ttl s' k = srv_ttl s k"
  using assms
  by (simp_all add: same_at_def read_initial_counter_def read_active_counter_def type_name_def' receipt_hash_def' receipt_field_def)

lemma same_at_trans: "same_at k s s' \<Longrightarrow> same_at k s' s'' \<Longrightarrow> same_at k s s''"
  by (simp add: same_at_def)

lemma same_at_writes [simp]:
  "k' \<noteq> k \<Longrightarrow> same_at k' s (incr_by k d s)" "k' \<noteq> k \<Longrightarrow> same_at k' s (put_receipt k fvs s)"
  "k' \<noteq> k \<Longrightarrow> same_at k' s (set_ttl k n s)" "same_at k s s"
  by (simp_all add: same_at_def incr_by_frame kept_ttl_def)

lemma incr_by_initial: "k' \<noteq> k \<Longrightarrow> read_initial_counter (incr_by k d s) k' = read_initial_counter s k'"
  by (rule same_at_reads(1)) simp

section \<open>Holdings\<close>

definition holding_states :: "string list" where
  "holding_states = [''RESERVED'', ''FINALIZED'']"

definition receipt_state :: "resource_server \<Rightarrow> string \<Rightarrow> string" where
  "receipt_state s k = receipt_value (receipt_hash s k) ''state''"

definition receipt_cost :: "resource_server \<Rightarrow> string \<Rightarrow> int" where
  "receipt_cost s k =
     (case decimal_integer (receipt_value (receipt_hash s k) ''estimated_cost_cents'') 0 of None \<Rightarrow> 0 | Some n \<Rightarrow> n)"

text \<open>The receipts of a tenant that hold resources.\<close>

definition held :: "resource_server \<Rightarrow> string \<Rightarrow> string set" where
  "held s tenant =
     {k. is_receipt_key k \<and> srv_view s k \<noteq> None \<and> receipt_value (receipt_hash s k) ''tenant_id'' = tenant
       \<and> receipt_state s k \<in> set holding_states}"

definition receipts_ok :: "resource_server \<Rightarrow> bool" where
  "receipts_ok s \<longleftrightarrow>
     (\<forall>k. is_receipt_key k \<longrightarrow> srv_view s k \<noteq> None \<longrightarrow>
        type_name s k = ''hash''
        \<and> decimal_integer (receipt_value (receipt_hash s k) ''estimated_cost_cents'') 0 \<noteq> None
        \<and> receipt_state s k \<in> set known_states
        \<and> (receipt_state s k \<noteq> ''RELEASED'' \<longrightarrow> srv_ttl s k = -1))"

definition counter_is :: "resource_server \<Rightarrow> string \<Rightarrow> int \<Rightarrow> bool \<Rightarrow> bool" where
  "counter_is s k n present \<longleftrightarrow> read_initial_counter s k = Some n \<and> (present \<longrightarrow> srv_view s k \<noteq> None)"

definition tenant_ok :: "resource_server \<Rightarrow> string \<Rightarrow> bool" where
  "tenant_ok s tenant \<longleftrightarrow>
     finite (held s tenant)
     \<and> counter_is s (concurrent_run_key tenant) (int (card (held s tenant))) (held s tenant \<noteq> {})
     \<and> counter_is s (budget_reserved_key tenant) (\<Sum>k \<in> held s tenant. receipt_cost s k) (held s tenant \<noteq> {})
     \<and> counter_is s (tenant_inflight tenant) (int (card (held s tenant))) (held s tenant \<noteq> {})"

definition accounted :: "resource_server \<Rightarrow> bool" where
  "accounted s \<longleftrightarrow> receipts_ok s \<and> (\<forall>tenant. tenant_ok s tenant)"

lemma hset_map_of: "distinct (map fst fvs) \<Longrightarrow> map_of (hset fvs h) = map_of h ++ map_of fvs"
proof (induction fvs arbitrary: h)
  case (Cons kv fvs)
  obtain k v where kv: "kv = (k, v)" by fastforce
  from Cons have "map_of (hset fvs (AList.update k v h)) = (map_of h)(k \<mapsto> v) ++ map_of fvs"
    by (simp add: update_conv')
  moreover have "map_of fvs k = None" using Cons.prems kv by (simp add: map_of_eq_None_iff)
  ultimately show ?case using kv by (auto simp: hset_def map_add_def fun_eq_iff split: option.split)
qed (simp add: hset_def)

lemma frame_held:
  assumes "\<And>k. is_receipt_key k \<Longrightarrow> same_at k s s'"
  shows "held s' t = held s t" "k \<in> held s t \<Longrightarrow> receipt_cost s' k = receipt_cost s k"
  by (auto simp: held_def receipt_state_def receipt_cost_def same_at_reads [OF assms])

lemma frame_receipts_ok:
  assumes "\<And>k. is_receipt_key k \<Longrightarrow> same_at k s s'" and "receipts_ok s"
  shows "receipts_ok s'"
  using assms(2) by (simp add: receipts_ok_def receipt_state_def same_at_reads [OF assms(1)])

lemma counter_is_frame: "same_at k s s' \<Longrightarrow> counter_is s' k n p = counter_is s k n p"
  by (simp add: counter_is_def same_at_reads)

lemma frame_accounted:
  assumes same: "\<And>k. is_protected k \<Longrightarrow> same_at k s s'" and ok: "accounted s"
  shows "accounted s'"
proof -
  have rk: "is_receipt_key k \<Longrightarrow> same_at k s s'" for k using same by (auto simp: is_protected_def)
  have ck: "k \<in> set (counter_keys t) \<Longrightarrow> same_at k s s'" for k t using same by (auto simp: is_protected_def)
  have "tenant_ok s' t" for t
  proof -
    have h: "held s' t = held s t" using rk by (rule frame_held(1))
    have c: "sum (receipt_cost s') (held s t) = sum (receipt_cost s) (held s t)"
      using rk by (intro sum.cong refl frame_held(2))
    show ?thesis using ok ck [of "concurrent_run_key t" t] ck [of "budget_reserved_key t" t] ck [of "tenant_inflight t" t]
      by (simp add: accounted_def tenant_ok_def counter_keys_def h c counter_is_frame)
  qed
  with ok frame_receipts_ok [OF rk] show ?thesis by (auto simp: accounted_def)
qed

section \<open>Taking up and giving back\<close>

definition own_call :: "string list \<Rightarrow> string list \<Rightarrow> bool" where
  "own_call keys argv \<longleftrightarrow> (\<exists>head_keys. keys = resource_keys (argument argv 2) (argument argv 4) @ head_keys)"

lemma resource_keys_nth [simp]:
  "(resource_keys op t @ hk) ! 0 = reservation_receipt_key op"
  "(resource_keys op t @ hk) ! Suc 0 = concurrent_run_key t"
  "(resource_keys op t @ hk) ! 2 = budget_reserved_key t" "(resource_keys op t @ hk) ! 3 = tenant_inflight t"
  by (simp_all add: resource_keys_def numeral_2_eq_2 numeral_3_eq_3)

lemma argument_lists:
  "arguments argv 2 7 = [argument argv 2, argument argv 3, argument argv 4, argument argv 5, argument argv 6, argument argv 7]"
  "arguments argv 13 20 = [argument argv 13, argument argv 14, argument argv 15, argument argv 16, argument argv 17,
     argument argv 18, argument argv 19, argument argv 20]"
  by (simp_all add: arguments_def upt_rec)

definition three_counters :: "resource_server \<Rightarrow> string \<Rightarrow> int \<Rightarrow> int \<Rightarrow> bool" where
  "three_counters s t n b \<longleftrightarrow>
     read_active_counter s (concurrent_run_key t) = Some n \<and> read_active_counter s (budget_reserved_key t) = Some b
     \<and> read_active_counter s (tenant_inflight t) = Some n"

definition adjusted :: "string \<Rightarrow> int \<Rightarrow> int \<Rightarrow> resource_server \<Rightarrow> resource_server" where
  "adjusted t e d s = incr_by (tenant_inflight t) e (incr_by (budget_reserved_key t) d (incr_by (concurrent_run_key t) e s))"

lemma adjusted_counters:
  assumes "read_initial_counter s (concurrent_run_key t) = Some n" "read_initial_counter s (budget_reserved_key t) = Some b"
    "read_initial_counter s (tenant_inflight t) = Some n"
    and "0 \<le> n + e" "n + e \<le> max_safe_integer" "0 \<le> b + d" "b + d \<le> max_safe_integer"
  shows "three_counters (adjusted t e d s) t (n + e) (b + d)"
proof -
  let ?s1 = "incr_by (concurrent_run_key t) e s"
  let ?s2 = "incr_by (budget_reserved_key t) d ?s1"
  have 1: "read_active_counter ?s1 (concurrent_run_key t) = Some (n + e)" using assms by (intro incr_by_counter)
  have b1: "read_initial_counter ?s1 (budget_reserved_key t) = Some b"
    and i1: "read_initial_counter ?s1 (tenant_inflight t) = Some n"
    using assms(1-3) by (simp_all add: incr_by_initial)
  have 2: "read_active_counter ?s2 (budget_reserved_key t) = Some (b + d)" using b1 assms by (intro incr_by_counter)
  have i2: "read_initial_counter ?s2 (tenant_inflight t) = Some n"
    using i1 by (simp add: incr_by_initial)
  have 3: "read_active_counter (adjusted t e d s) (tenant_inflight t) = Some (n + e)"
    unfolding adjusted_def using i2 assms by (intro incr_by_counter)
  have "same_at (concurrent_run_key t) ?s1 (adjusted t e d s)" "same_at (budget_reserved_key t) ?s2 (adjusted t e d s)"
    unfolding adjusted_def by (simp_all add: same_at_def incr_by_frame)
  from this [THEN same_at_reads(2)] 1 2 3 show ?thesis by (simp add: three_counters_def)
qed

lemma adjusted_frame: "k \<notin> set (counter_keys t) \<Longrightarrow> same_at k s (adjusted t e d s)"
  by (simp add: adjusted_def counter_keys_def same_at_def incr_by_frame)

text \<open>A receipt moves into or out of the active states while the counters move with it.\<close>

lemma accounted_move:
  assumes ok: "accounted s" and k: "is_receipt_key k"
    and frame: "\<And>k'. is_protected k' \<Longrightarrow> k' \<noteq> k \<Longrightarrow> k' \<notin> set (counter_keys t) \<Longrightarrow> same_at k' s s'"
    and counters: "three_counters s' t (int (card H)) (sum (receipt_cost s') H)"
    and H: "H = (if active then insert k (held s t) else held s t - {k})"
    and view: "type_name s' k = ''hash''"
    and tenant: "receipt_value (receipt_hash s' k) ''tenant_id'' = t"
    and cost: "decimal_integer (receipt_value (receipt_hash s' k) ''estimated_cost_cents'') 0 \<noteq> None"
    and state: "receipt_state s' k \<in> set known_states" "receipt_state s' k \<in> set holding_states \<longleftrightarrow> active"
    and ttl: "receipt_state s' k \<noteq> ''RELEASED'' \<Longrightarrow> srv_ttl s' k = -1"
    and before: "\<And>u. k \<in> held s u \<Longrightarrow> u = t"
  shows "accounted s'"
proof -
  have rk: "same_at k' s s'" if "is_receipt_key k'" "k' \<noteq> k" for k'
    using that by (intro frame) (auto simp: is_protected_def counter_keys_def)
  have same: "k' \<in> held s' u \<longleftrightarrow> k' \<in> held s u" "receipt_cost s' k' = receipt_cost s k'" if "k' \<noteq> k" "is_receipt_key k'" for k' u
    using that by (simp_all add: held_def receipt_state_def receipt_cost_def same_at_reads [OF rk [OF that(2) that(1)]])
  have rc: "k' \<in> held s' u \<Longrightarrow> is_receipt_key k'" "k' \<in> held s u \<Longrightarrow> is_receipt_key k'" for k' u by (auto simp: held_def)
  have view': "srv_view s' k \<noteq> None" using view by (auto simp: type_name_def' split: option.splits)
  have kh: "k \<in> held s' u \<longleftrightarrow> active \<and> u = t" for u
    using k view' tenant state by (auto simp: held_def)
  have "k' \<in> held s' t \<longleftrightarrow> k' \<in> H" for k'
  proof (cases "k' = k")
    case True
    with kh H show ?thesis by simp
  next
    case False
    with same(1) [of k' t] rc [of k' t] H show ?thesis by auto
  qed
  then have ht: "held s' t = H" by blast
  have hu: "held s' u = held s u" if "u \<noteq> t" for u
  proof -
    have "k' \<in> held s' u \<longleftrightarrow> k' \<in> held s u" for k'
    proof (cases "k' = k")
      case True
      with kh before [of u] that show ?thesis by auto
    next
      case False
      with same(1) [of k' u] rc [of k' u] show ?thesis by auto
    qed
    then show ?thesis by blast
  qed
  have cu: "receipt_cost s' k' = receipt_cost s k'" if "k' \<in> held s u" "u \<noteq> t" for k' u
    using that before [of u] same(2) [of k'] rc by blast
  have "receipts_ok s'"
  proof (unfold receipts_ok_def, intro allI impI)
    fix k' assume k': "is_receipt_key k'" "srv_view s' k' \<noteq> None"
    show "type_name s' k' = ''hash'' \<and> decimal_integer (receipt_value (receipt_hash s' k') ''estimated_cost_cents'') 0 \<noteq> None
        \<and> receipt_state s' k' \<in> set known_states \<and> (receipt_state s' k' \<noteq> ''RELEASED'' \<longrightarrow> srv_ttl s' k' = -1)"
    proof (cases "k' = k")
      case True
      with view cost state ttl show ?thesis by auto
    next
      case False
      have "srv_view s k' \<noteq> None" using k' by (simp add: same_at_reads [OF rk [OF k'(1) False]])
      then show ?thesis using k' ok
        by (simp add: accounted_def receipts_ok_def receipt_state_def same_at_reads [OF rk [OF k'(1) False]])
    qed
  qed
  moreover have "tenant_ok s' u" for u
  proof (cases "u = t")
    case True
    have "finite (held s t)" using ok by (simp add: accounted_def tenant_ok_def)
    then have "finite H" using H by simp
    moreover have "counter_is s' (concurrent_run_key t) (int (card H)) p" "counter_is s' (tenant_inflight t) (int (card H)) p"
      "counter_is s' (budget_reserved_key t) (sum (receipt_cost s') H) p" for p
      using counters by (auto simp: three_counters_def counter_is_def read_active_iff read_initial_iff)
    ultimately show ?thesis using True ht by (simp add: tenant_ok_def)
  next
    case False
    have "same_at c s s'" if "c \<in> set (counter_keys u)" for c
      using that False k by (intro frame) (auto simp: is_protected_def counter_keys_def)
    then have "same_at (concurrent_run_key u) s s'" "same_at (budget_reserved_key u) s s'" "same_at (tenant_inflight u) s s'"
      by (simp_all add: counter_keys_def)
    moreover have "sum (receipt_cost s') (held s u) = sum (receipt_cost s) (held s u)"
      using False by (intro sum.cong refl cu)
    ultimately show ?thesis using ok
      by (simp add: accounted_def tenant_ok_def counter_keys_def hu [OF False] counter_is_frame)
  qed
  ultimately show ?thesis by (simp add: accounted_def)
qed

section \<open>What a run of the script does\<close>

definition matched :: "string list \<Rightarrow> string list \<Rightarrow> string \<Rightarrow> resource_server \<Rightarrow> bool" where
  "matched keys argv state s \<longleftrightarrow>
     type_name s (keys ! 0) = ''hash'' \<and> receipt_field s (keys ! 0) ''state'' = Some state
     \<and> field_list_is s (keys ! 0) immutable_fields (arguments argv 2 7) \<and> srv_ttl s (keys ! 0) = -1"

text \<open>The fields with which a receipt is closed or finalized, and its time to live afterwards.\<close>

definition settled_values :: "string list \<Rightarrow> (string \<times> string) list" where
  "settled_values argv = [(''state'', ''SETTLED''), (''settled_at_ms'', argument argv 8)] @ zip settlement_fields (arguments argv 13 20)"

definition released_values :: "string list \<Rightarrow> (string \<times> string) list" where
  "released_values argv = [(''state'', ''RELEASED''), (''released_at_ms'', argument argv 8)]"

definition finalized_values :: "string list \<Rightarrow> (string \<times> string) list" where
  "finalized_values argv = [(''state'', ''FINALIZED''), (''finalized_at_ms'', argument argv 8)]"

definition reserved_values :: "string list \<Rightarrow> (string \<times> string) list" where
  "reserved_values argv =
     zip immutable_fields (arguments argv 2 7)
     @ [(''state'', ''RESERVED''), (''created_at_ms'', argument argv 8), (''finalized_at_ms'', []), (''released_at_ms'', [])]"

definition closed :: "string list \<Rightarrow> (string \<times> string) list \<Rightarrow> int \<Rightarrow> int \<Rightarrow> resource_server \<Rightarrow> resource_server" where
  "closed keys fvs n cost s = set_ttl (keys ! 0) n (put_receipt (keys ! 0) fvs (give_back keys cost s))"

definition refusal :: "string + reservation_reply \<Rightarrow> bool" where
  "refusal r \<longleftrightarrow> (\<exists>status state. r = Inr (status, state, ''0'') \<and> status \<notin> {''reserved'', ''finalized'', ''released'', ''settled''})"

lemma refused_iff: "refused status state s = (s', r) \<longleftrightarrow> s' = s \<and> r = Inr (status, state, ''0'')"
  by (auto simp: refused_def)

lemma settle_receipt_cases:
  assumes "settle_receipt keys argv cost state s = (s', r)"
  obtains "s' = s" "refusal r"
  | "state = ''FINALIZED''" "srv_ttl s (keys ! 0) = -1" "active_resource_ownership s keys cost"
    "s' = closed keys (settled_values argv) (-1) cost s" "r = Inr (''settled'', ''SETTLED'', ''1'')"
  using assms
  by (auto simp: settle_receipt_def refused_iff refusal_def closed_def settled_values_def split: if_splits)

lemma reserve_receipt_cases:
  assumes "reserve_receipt keys cost state s = (s', r)"
  shows "s' = s \<and> refusal r"
  using assms by (auto simp: reserve_receipt_def refused_iff refusal_def split: if_splits)

lemma finalize_receipt_cases:
  assumes "finalize_receipt keys argv cost state s = (s', r)"
  obtains "s' = s" "refusal r"
  | "state \<noteq> ''RELEASED''" "state \<noteq> ''SETTLED''" "state \<noteq> ''FINALIZED''" "srv_ttl s (keys ! 0) = -1"
    "active_resource_ownership s keys cost"
    "s' = set_ttl (keys ! 0) (-1) (put_receipt (keys ! 0) (finalized_values argv) s)" "r = Inr (''finalized'', ''FINALIZED'', ''0'')"
  using assms by (auto simp: finalize_receipt_def refused_iff refusal_def finalized_values_def split: if_splits)

lemma release_receipt_cases:
  assumes "release_receipt keys argv cost state s = (s', r)"
  obtains "s' = s" "refusal r"
  | "state \<noteq> ''RELEASED''" "state \<noteq> ''SETTLED''" "state \<noteq> ''FINALIZED''" "srv_ttl s (keys ! 0) = -1"
    "active_resource_ownership s keys cost"
    "s' = closed keys (released_values argv) (the (decimal_integer (argument argv 12) 1)) cost s"
    "r = Inr (''released'', ''RELEASED'', ''1'')"
  using assms by (auto simp: release_receipt_def refused_iff refusal_def closed_def released_values_def split: if_splits)

lemma reservation_script_cases [consumes 1, case_names refused reserved settled finalized released]:
  assumes run: "reservation_script L keys argv s = (s', r)"
  obtains "s' = s" "refusal r"
  | cost c b i where "checked_cost argv = Some cost" "argument argv 1 = ''reserve''" "type_name s (keys ! 0) = ''none''"
      "read_initial_counter s (keys ! 1) = Some c" "read_initial_counter s (keys ! 2) = Some b"
      "read_initial_counter s (keys ! 3) = Some i"
      "c + 1 \<le> max_safe_integer" "i + 1 \<le> max_safe_integer" "b + cost \<le> max_safe_integer"
      "\<not> over_limit (script_limit (argument argv 9)) (c + 1)" "\<not> over_limit (script_limit (argument argv 10)) (b + cost)"
      "\<not> over_limit (script_limit (argument argv 11)) (i + 1)"
      "s' = set_ttl (keys ! 0) (-1) (put_receipt (keys ! 0) (reserved_values argv) (take_up keys cost s))"
      "r = Inr (''reserved'', ''RESERVED'', ''1'')"
  | cost where "checked_cost argv = Some cost" "argument argv 1 = ''settle''" "settle_arguments_ok argv"
      "settle_proof_ok L s keys argv cost" "matched keys argv ''FINALIZED'' s" "active_resource_ownership s keys cost"
      "s' = closed keys (settled_values argv) (-1) cost s" "r = Inr (''settled'', ''SETTLED'', ''1'')"
  | cost where "checked_cost argv = Some cost" "argument argv 1 = ''finalize''"
      "finalize_proof_ok L s keys argv cost" "matched keys argv ''RESERVED'' s" "active_resource_ownership s keys cost"
      "s' = set_ttl (keys ! 0) (-1) (put_receipt (keys ! 0) (finalized_values argv) s)" "r = Inr (''finalized'', ''FINALIZED'', ''0'')"
  | cost where "checked_cost argv = Some cost" "argument argv 1 = ''release''"
      "matched keys argv ''RESERVED'' s" "active_resource_ownership s keys cost"
      "s' = closed keys (released_values argv) (the (decimal_integer (argument argv 12) 1)) cost s"
      "r = Inr (''released'', ''RELEASED'', ''1'')"
proof (cases "checked_cost argv")
  case None
  with run show thesis by (intro that(1)) (auto simp: reservation_script_def refused_iff refusal_def)
next
  case (Some cost)
  have action: "argument argv 1 \<in> {''reserve'', ''finalize'', ''release'', ''settle''}"
    using Some by (simp add: checked_cost_def split: if_splits)
  let ?a = "argument argv 1"
  consider (stop) "s' = s" "refusal r"
    | (first) "?a = ''reserve''" "type_name s (keys ! 0) = ''none''" "first_reservation keys argv cost s = (s', r)"
    | (existing) "type_name s (keys ! 0) = ''hash''" "existing_receipt keys argv cost s = (s', r)"
        "?a = ''finalize'' \<Longrightarrow> finalize_proof_ok L s keys argv cost"
        "?a = ''settle'' \<Longrightarrow> settle_arguments_ok argv \<and> settle_proof_ok L s keys argv cost"
    using run Some by (auto simp: reservation_script_def refused_iff refusal_def split: if_splits)
  then show thesis
  proof cases
    case stop
    then show thesis by (rule that(1))
  next
    case first
    from first(3) show thesis
      using first(1,2) Some that(1) that(2) [of cost]
      by (auto simp: first_reservation_def refused_iff refusal_def reserved_values_def split: option.splits if_splits)
  next
    case existing
    show thesis
    proof (cases "s' = s \<and> refusal r")
      case True
      then show thesis by (auto intro: that(1))
    next
      case False
      obtain state where st: "receipt_field s (keys ! 0) ''state'' = Some state" "state \<in> set known_states"
          "field_list_is s (keys ! 0) immutable_fields (arguments argv 2 7)"
          "(if ?a = ''settle'' then settle_receipt keys argv cost state s
            else if ?a = ''reserve'' then reserve_receipt keys cost state s
            else if ?a = ''finalize'' then finalize_receipt keys argv cost state s
            else release_receipt keys argv cost state s) = (s', r)"
        using existing(2) False
        by (auto simp: existing_receipt_def refused_iff refusal_def split: option.splits if_splits)
      have m: "srv_ttl s (keys ! 0) = -1 \<Longrightarrow> matched keys argv state s"
        using existing(1) st by (simp add: matched_def)
      consider "?a = ''settle''" | "?a = ''reserve''" | "?a = ''finalize''" | "?a = ''release''" using action by auto
      then show thesis
      proof cases
        case 1
        with st(4) have "settle_receipt keys argv cost state s = (s', r)" by simp
        then show thesis
          using False m existing(4) [OF 1] by (cases rule: settle_receipt_cases) (auto intro: that(3) [OF Some 1])
      next
        case 2
        with st(4) have "reserve_receipt keys cost state s = (s', r)" by simp
        with False show thesis using reserve_receipt_cases by blast
      next
        case 3
        with st(4) have "finalize_receipt keys argv cost state s = (s', r)" by simp
        then show thesis
          using False m existing(3) [OF 3] st(2)
          by (cases rule: finalize_receipt_cases) (auto simp: known_states_def intro: that(4) [OF Some 3])
      next
        case 4
        with st(4) have "release_receipt keys argv cost state s = (s', r)" by simp
        then show thesis
          using False m st(2)
          by (cases rule: release_receipt_cases) (auto simp: known_states_def intro: that(5) [OF Some 4])
      qed
    qed
  qed
qed

section \<open>A run keeps the accounts\<close>

lemma checked_cost_Some: "checked_cost argv = Some cost \<Longrightarrow> decimal_integer (argument argv 5) 0 = Some cost"
  by (simp add: checked_cost_def split: if_splits)

lemma own_call_keys:
  assumes "own_call keys argv"
  shows "keys ! 0 = reservation_receipt_key (argument argv 2)" "is_receipt_key (keys ! 0)"
    "keys ! Suc 0 = concurrent_run_key (argument argv 4)" "keys ! 2 = budget_reserved_key (argument argv 4)"
    "keys ! 3 = tenant_inflight (argument argv 4)"
  using assms by (auto simp: own_call_def)

lemma matched_receipt:
  assumes "matched keys argv state s"
  shows "srv_view s (keys ! 0) \<noteq> None" "type_name s (keys ! 0) = ''hash''" "receipt_state s (keys ! 0) = state"
    "receipt_value (receipt_hash s (keys ! 0)) ''tenant_id'' = argument argv 4"
    "receipt_value (receipt_hash s (keys ! 0)) ''estimated_cost_cents'' = argument argv 5"
    "receipt_value (receipt_hash s (keys ! 0)) ''operation_id'' = argument argv 2"
    "receipt_value (receipt_hash s (keys ! 0)) ''run_id'' = argument argv 3"
    "srv_ttl s (keys ! 0) = -1"
  using assms
  by (auto simp: matched_def receipt_state_def receipt_value_def receipt_field_def field_list_is_def immutable_fields_def
      argument_lists type_name_def' split: option.splits)

lemma matched_held:
  assumes "own_call keys argv" "matched keys argv state s" "state \<in> set holding_states"
  shows "keys ! 0 \<in> held s (argument argv 4)"
  using matched_receipt [OF assms(2)] own_call_keys(2) [OF assms(1)] assms(3) by (simp add: held_def)

lemma matched_cost:
  assumes "matched keys argv state s" "checked_cost argv = Some cost"
  shows "receipt_cost s (keys ! 0) = cost"
  using matched_receipt(5) [OF assms(1)] checked_cost_Some [OF assms(2)] by (simp add: receipt_cost_def)

lemma give_back_adjusted:
  "own_call keys argv \<Longrightarrow> give_back keys cost s = adjusted (argument argv 4) (-1) (- cost) s"
  "own_call keys argv \<Longrightarrow> take_up keys cost s = adjusted (argument argv 4) 1 cost s"
  by (simp_all add: give_back_def take_up_def adjusted_def own_call_keys)

lemma value_lists:
  "settled_values argv =
     [(''state'', ''SETTLED''), (''settled_at_ms'', argument argv 8), (''run_terminate_operation_id'', argument argv 13),
      (''terminal_proof_sha256'', argument argv 14), (''canonical_transition_id'', argument argv 15),
      (''canonical_record_hash'', argument argv 16), (''canonical_command_hash'', argument argv 17),
      (''canonical_revision'', argument argv 18), (''final_state'', argument argv 19),
      (''settlement_proof_sha256'', argument argv 20)]"
  "reserved_values argv =
     [(''operation_id'', argument argv 2), (''run_id'', argument argv 3), (''tenant_id'', argument argv 4),
      (''estimated_cost_cents'', argument argv 5), (''reservation_version'', argument argv 6),
      (''proof_sha256'', argument argv 7), (''state'', ''RESERVED''), (''created_at_ms'', argument argv 8),
      (''finalized_at_ms'', []), (''released_at_ms'', [])]"
  by (simp_all add: settled_values_def reserved_values_def settlement_fields_def immutable_fields_def argument_lists)

lemma receipt_value_hset:
  "distinct (map fst fvs) \<Longrightarrow> receipt_value (hset fvs h) f = (case map_of fvs f of None \<Rightarrow> receipt_value h f | Some v \<Rightarrow> v)"
  by (simp add: receipt_value_def hset_map_of map_add_def split: option.split)

lemma written_receipt [simp]:
  "receipt_hash (set_ttl k n (put_receipt k fvs s)) k = hset fvs (receipt_hash s k)"
  "type_name (set_ttl k n (put_receipt k fvs s)) k = ''hash''"
  by (simp_all add: receipt_hash_def' type_name_def')

lemma closing_values:
  assumes "fvs \<in> {settled_values argv, released_values argv, finalized_values argv}"
  shows "distinct (map fst fvs)" "map_of fvs ''tenant_id'' = None" "map_of fvs ''estimated_cost_cents'' = None"
  using assms by (auto simp: value_lists released_values_def finalized_values_def)

lemma hash_of_adjusted: "is_receipt_key k \<Longrightarrow> receipt_hash (adjusted t e d s) k = receipt_hash s k"
  by (rule same_at_reads(4), rule adjusted_frame) (auto simp: counter_keys_def)

lemma receipt_write_frame:
  "k' \<noteq> k \<Longrightarrow> same_at k' s (set_ttl k n (put_receipt k fvs s))"
  by (simp add: same_at_def kept_ttl_def)

lemma three_counters_write:
  assumes "three_counters s t n b" "is_receipt_key k"
  shows "three_counters (set_ttl k m (put_receipt k fvs s)) t n b"
proof -
  have "read_active_counter (set_ttl k m (put_receipt k fvs s)) c = read_active_counter s c" if "c \<in> set (counter_keys t)" for c
    using that assms(2) by (intro same_at_reads(2) receipt_write_frame) (auto simp: counter_keys_def)
  then show ?thesis using assms(1) by (simp add: three_counters_def counter_keys_def)
qed

lemma held_receipt_key: "k \<in> held s t \<Longrightarrow> is_receipt_key k"
  by (simp add: held_def)

lemma held_unique: "k \<in> held s t \<Longrightarrow> k \<in> held s u \<Longrightarrow> u = t"
  by (simp add: held_def)

lemma held_cost_nonneg: "0 \<le> receipt_cost s k"
  by (auto simp: receipt_cost_def split: option.split dest: decimal_integer_bounds)

lemma tenant_counters:
  assumes "accounted s" "k \<in> held s t"
  shows "three_counters s t (int (card (held s t))) (sum (receipt_cost s) (held s t))"
proof -
  have "tenant_ok s t" "held s t \<noteq> {}" using assms by (auto simp: accounted_def)
  then show ?thesis by (auto simp: tenant_ok_def counter_is_def three_counters_def read_initial_iff read_active_iff)
qed

text \<open>Whoever holds a receipt finds its resources in the counters.\<close>

lemma held_owned:
  assumes "accounted s" "own_call keys argv" "k \<in> held s (argument argv 4)"
  shows "active_resource_ownership s keys (receipt_cost s k)"
proof -
  have f: "finite (held s (argument argv 4))" using assms(1) by (simp add: accounted_def tenant_ok_def)
  have "0 < card (held s (argument argv 4))" using f assms(3) by (auto simp: card_gt_0_iff)
  moreover have "receipt_cost s k \<le> sum (receipt_cost s) (held s (argument argv 4))"
    using f assms(3) held_cost_nonneg by (intro member_le_sum) auto
  ultimately show ?thesis using tenant_counters [OF assms(1,3)]
    by (simp add: active_resource_ownership_def three_counters_def own_call_keys [OF assms(2)])
qed

lemma closed_accounted:
  assumes ok: "accounted s" and own: "own_call keys argv" and m: "matched keys argv state s"
    and active: "state \<in> set holding_states" and cost: "checked_cost argv = Some cost"
    and fvs: "fvs = settled_values argv \<and> n = -1 \<or> fvs = released_values argv"
  shows "accounted (closed keys fvs n cost s)"
proof -
  let ?k = "keys ! 0" and ?t = "argument argv 4"
  let ?s1 = "adjusted ?t (-1) (- cost) s"
  let ?s' = "closed keys fvs n cost s"
  let ?H = "held s ?t - {?k}"
  have s': "?s' = set_ttl ?k n (put_receipt ?k fvs ?s1)" by (simp add: closed_def give_back_adjusted [OF own])
  have rk: "is_receipt_key ?k" using own by (rule own_call_keys)
  have kin: "?k \<in> held s ?t" using own m active by (rule matched_held)
  have f: "finite (held s ?t)" using ok by (simp add: accounted_def tenant_ok_def)
  have kc: "receipt_cost s ?k = cost" using m cost by (rule matched_cost)
  have dist: "distinct (map fst fvs)" "map_of fvs ''tenant_id'' = None" "map_of fvs ''estimated_cost_cents'' = None"
    using closing_values [of fvs argv] fvs by auto
  have sum: "sum (receipt_cost s) ?H = sum (receipt_cost s) (held s ?t) - cost"
    using f kin kc by (simp add: sum_diff1)
  have card: "int (card ?H) = int (card (held s ?t)) - 1"
    using f kin card_gt_0_iff [of "held s ?t"] by (auto simp: card_Diff_singleton_if of_nat_diff)
  have three: "three_counters s ?t (int (card (held s ?t))) (sum (receipt_cost s) (held s ?t))"
    using ok kin by (rule tenant_counters)
  then have bounds: "int (card (held s ?t)) \<le> max_safe_integer" "sum (receipt_cost s) (held s ?t) \<le> max_safe_integer"
    by (auto simp: three_counters_def read_active_iff dest!: decimal_integer_bounds)
  have pos: "0 \<le> sum (receipt_cost s) ?H" "0 \<le> cost" using held_cost_nonneg [of s] kc by (auto intro: sum_nonneg)
  have "three_counters ?s1 ?t (int (card (held s ?t)) + - 1) (sum (receipt_cost s) (held s ?t) + - cost)"
    using three bounds pos card sum
    by (intro adjusted_counters) (auto simp: three_counters_def intro: active_initial)
  then have c1: "three_counters ?s' ?t (int (card ?H)) (sum (receipt_cost s) ?H)"
    unfolding s' using rk card sum by (auto intro: three_counters_write)
  have other: "receipt_cost ?s' k' = receipt_cost s k'" if "k' \<in> ?H" for k'
    using that receipt_write_frame [of k' ?k ?s1 n fvs] hash_of_adjusted [OF held_receipt_key [of k' s ?t]]
    by (auto simp: receipt_cost_def s' dest!: same_at_reads(4))
  have "sum (receipt_cost ?s') ?H = sum (receipt_cost s) ?H" using other by (intro sum.cong refl)
  with c1 have counters: "three_counters ?s' ?t (int (card ?H)) (sum (receipt_cost ?s') ?H)" by simp
  have after: "receipt_value (receipt_hash ?s' ?k) f = (case map_of fvs f of None \<Rightarrow> receipt_value (receipt_hash s ?k) f | Some v \<Rightarrow> v)" for f
    by (simp only: s' written_receipt receipt_value_hset [OF dist(1)] hash_of_adjusted [OF rk])
  have state: "receipt_state ?s' ?k \<in> {''SETTLED'', ''RELEASED''}"
    using fvs by (auto simp: receipt_state_def after value_lists released_values_def)
  show ?thesis
  proof (rule accounted_move [OF ok rk _ counters])
    show "same_at k' s ?s'" if "k' \<noteq> ?k" "k' \<notin> set (counter_keys ?t)" for k'
      unfolding s' using that by (intro same_at_trans [OF adjusted_frame receipt_write_frame])
    show "?H = (if False then insert ?k (held s ?t) else held s ?t - {?k})" by simp
    show "type_name ?s' ?k = ''hash''" by (simp add: s')
    show "receipt_value (receipt_hash ?s' ?k) ''tenant_id'' = ?t" using matched_receipt(4) [OF m] dist by (simp add: after)
    show "decimal_integer (receipt_value (receipt_hash ?s' ?k) ''estimated_cost_cents'') 0 \<noteq> None"
      using matched_receipt(5) [OF m] dist checked_cost_Some [OF cost] by (simp add: after)
    show "receipt_state ?s' ?k \<in> set known_states" "receipt_state ?s' ?k \<in> set holding_states \<longleftrightarrow> False"
      using state by (auto simp: known_states_def holding_states_def)
    show "srv_ttl ?s' ?k = -1" if "receipt_state ?s' ?k \<noteq> ''RELEASED''"
      using that fvs by (auto simp: receipt_state_def receipt_value_hset released_values_def closed_def)
  qed (use held_unique [OF kin] in auto)
qed

lemma reserved_accounted:
  assumes ok: "accounted s" and own: "own_call keys argv" and cost: "checked_cost argv = Some cost"
    and fresh: "type_name s (keys ! 0) = ''none''"
    and c: "read_initial_counter s (keys ! 1) = Some c" "c + 1 \<le> max_safe_integer"
    and b: "read_initial_counter s (keys ! 2) = Some b" "b + cost \<le> max_safe_integer"
    and i: "read_initial_counter s (keys ! 3) = Some i" "i + 1 \<le> max_safe_integer"
  shows "accounted (set_ttl (keys ! 0) n (put_receipt (keys ! 0) (reserved_values argv) (take_up keys cost s)))
      \<or> n \<noteq> -1" (is "accounted ?s' \<or> _")
proof (cases "n = -1")
  case n: True
  let ?k = "keys ! 0" and ?t = "argument argv 4"
  let ?s1 = "adjusted ?t 1 cost s"
  let ?H = "insert ?k (held s ?t)"
  have s': "?s' = set_ttl ?k (-1) (put_receipt ?k (reserved_values argv) ?s1)" by (simp add: n give_back_adjusted [OF own])
  have rk: "is_receipt_key ?k" using own by (rule own_call_keys)
  have none: "srv_view s ?k = None" using fresh by (auto simp: type_name_def' split: option.splits redis_value.splits)
  then have kout: "?k \<notin> held s u" for u by (simp add: held_def)
  have t: "tenant_ok s ?t" using ok by (simp add: accounted_def)
  then have f: "finite (held s ?t)" by (simp add: tenant_ok_def)
  have ci: "c = int (card (held s ?t))" "i = c" and bs: "b = sum (receipt_cost s) (held s ?t)"
    using t c(1) b(1) i(1) by (simp_all add: tenant_ok_def counter_is_def own_call_keys [OF own])
  have cost0: "0 \<le> cost" using checked_cost_Some [OF cost] by (auto dest: decimal_integer_bounds)
  have "three_counters ?s1 ?t (c + 1) (b + cost)"
    using c b i ci cost0 held_cost_nonneg [of s] bs
    by (intro adjusted_counters) (auto simp: own_call_keys [OF own] intro!: add_nonneg_nonneg sum_nonneg)
  then have c1: "three_counters ?s' ?t (c + 1) (b + cost)" unfolding s' using rk by (intro three_counters_write)
  have other: "receipt_cost ?s' k' = receipt_cost s k'" if "k' \<in> held s ?t" for k'
  proof -
    have "k' \<noteq> ?k" using that kout [of ?t] by auto
    then have "receipt_hash ?s' k' = receipt_hash ?s1 k'" unfolding s' by (intro same_at_reads(4) receipt_write_frame)
    then show ?thesis by (simp add: receipt_cost_def hash_of_adjusted [OF held_receipt_key [OF that]])
  qed
  have kc: "receipt_cost ?s' ?k = cost" using checked_cost_Some [OF cost] by (simp add: receipt_cost_def receipt_value_hset value_lists)
  have "sum (receipt_cost ?s') ?H = b + cost"
    using f kout [of ?t] kc bs other by (simp add: sum.cong [OF refl other])
  moreover have "int (card ?H) = c + 1" using f kout [of ?t] ci by simp
  ultimately have counters: "three_counters ?s' ?t (int (card ?H)) (sum (receipt_cost ?s') ?H)" using c1 by simp
  have "accounted ?s'"
  proof (rule accounted_move [OF ok rk _ counters])
    show "same_at k' s ?s'" if "k' \<noteq> ?k" "k' \<notin> set (counter_keys ?t)" for k'
      unfolding s' using that by (intro same_at_trans [OF adjusted_frame receipt_write_frame])
    show "?H = (if True then insert ?k (held s ?t) else held s ?t - {?k})" by simp
    show "type_name ?s' ?k = ''hash''" by (simp add: s')
    show "receipt_value (receipt_hash ?s' ?k) ''tenant_id'' = ?t" by (simp add: receipt_value_hset value_lists)
    show "decimal_integer (receipt_value (receipt_hash ?s' ?k) ''estimated_cost_cents'') 0 \<noteq> None"
      using checked_cost_Some [OF cost] by (simp add: receipt_value_hset value_lists)
    show "receipt_state ?s' ?k \<in> set known_states" "receipt_state ?s' ?k \<in> set holding_states \<longleftrightarrow> True"
      by (auto simp: receipt_state_def receipt_value_hset value_lists known_states_def holding_states_def)
    show "srv_ttl ?s' ?k = -1" by (simp add: s')
  qed (use kout in auto)
  then show ?thesis ..
qed simp

lemma finalized_accounted:
  assumes ok: "accounted s" and own: "own_call keys argv" and m: "matched keys argv ''RESERVED'' s"
    and cost: "checked_cost argv = Some cost"
  shows "accounted (set_ttl (keys ! 0) (-1) (put_receipt (keys ! 0) (finalized_values argv) s))" (is "accounted ?s'")
proof -
  let ?k = "keys ! 0" and ?t = "argument argv 4"
  have rk: "is_receipt_key ?k" using own by (rule own_call_keys)
  have kin: "?k \<in> held s ?t" using own m by (rule matched_held) (simp add: holding_states_def)
  have dist: "distinct (map fst (finalized_values argv))" "map_of (finalized_values argv) ''tenant_id'' = None"
    "map_of (finalized_values argv) ''estimated_cost_cents'' = None"
    using closing_values [of "finalized_values argv" argv] by auto
  have same: "receipt_cost ?s' k' = receipt_cost s k'" for k'
  proof (cases "k' = ?k")
    case True
    with dist(3) show ?thesis by (simp add: receipt_cost_def receipt_value_hset dist(1))
  next
    case False
    then show ?thesis using receipt_write_frame [of k' ?k s "-1" "finalized_values argv"]
      by (auto simp: receipt_cost_def dest!: same_at_reads(4))
  qed
  have counters: "three_counters ?s' ?t (int (card (held s ?t))) (sum (receipt_cost ?s') (held s ?t))"
    using tenant_counters [OF ok kin] rk by (simp add: same three_counters_write)
  show ?thesis
  proof (rule accounted_move [OF ok rk _ counters])
    show "same_at k' s ?s'" if "k' \<noteq> ?k" for k' using that by (rule receipt_write_frame)
    show "held s ?t = (if True then insert ?k (held s ?t) else held s ?t - {?k})" using kin by auto
    show "receipt_value (receipt_hash ?s' ?k) ''tenant_id'' = ?t" using matched_receipt(4) [OF m] dist by (simp add: receipt_value_hset)
    show "decimal_integer (receipt_value (receipt_hash ?s' ?k) ''estimated_cost_cents'') 0 \<noteq> None"
      using matched_receipt(5) [OF m] dist checked_cost_Some [OF cost] by (simp add: receipt_value_hset)
    show "receipt_state ?s' ?k \<in> set known_states" "receipt_state ?s' ?k \<in> set holding_states \<longleftrightarrow> True"
      by (auto simp: receipt_state_def receipt_value_hset finalized_values_def known_states_def holding_states_def)
  qed (use held_unique [OF kin] in auto)
qed

lemma script_accounted:
  assumes "accounted s" "own_call keys argv" "reservation_script L keys argv s = (s', r)"
  shows "accounted s'"
  using assms(3)
proof (cases rule: reservation_script_cases)
  case refused
  with assms(1) show ?thesis by simp
next
  case (reserved cost c b i)
  then show ?thesis using reserved_accounted [OF assms(1,2) reserved(1) reserved(3,4,7,5,9,6,8), of "-1"] by simp
next
  case (settled cost)
  then show ?thesis using closed_accounted [OF assms(1,2) settled(5) _ settled(1), of "settled_values argv" "-1"] by (simp add: holding_states_def)
next
  case (finalized cost)
  then show ?thesis using finalized_accounted [OF assms(1,2) finalized(4,1)] by simp
next
  case (released cost)
  then show ?thesis using closed_accounted [OF assms(1,2) released(3) _ released(1), of "released_values argv"] by (simp add: holding_states_def)
qed

section \<open>Calls of the manager\<close>

text \<open>A loader call runs the body some number of times, so it keeps whatever one run keeps.\<close>

lemma loader_run_keeps:
  assumes run: "loader_run X net (ld, h) = ((ld', h'), r)"
    and keeps: "\<And>d. P d \<Longrightarrow> P (fst (X d))" and ok: "P (host_data h)"
  shows "P (host_data h')"
proof -
  have call: "P (host_data (fst (under_fate f (evalsha X t) g)))" "P (host_data (fst (under_fate f (eval_text X t) g)))"
    if "P (host_data g)" for f t g
    using that keeps [OF that] by (simp_all add: under_fate_def evalsha_def split: fate.split)
  have rel: "P (host_data h2)" if "reload_script f (ld, g) = ((ld2, h2), r2)" "P (host_data g)" for f g ld2 h2 r2
    using that reload_script_data [OF that(1)] by simp
  show ?thesis
  proof (cases "ld_sha ld")
    case None
    with run ok call(2) [of h "net 0"] show ?thesis by (auto simp: loader_run_def as_call_iff split: option.splits if_splits)
  next
    case (Some digest)
    obtain h1 r1 where first: "under_fate (net 0) (evalsha X digest) h = (h1, r1)" by fastforce
    have 1: "P (host_data h1)" using call(1) [OF ok, of "net 0" digest] first by simp
    obtain ld2 h2 r2 where again: "reload_script (net 1) (ld, h1) = ((ld2, h2), r2)" by (metis surj_pair)
    have 2: "P (host_data h2)" using again 1 by (rule rel)
    let ?g1 = "fst (under_fate (net 1) (eval_text X (case ld_source ld of None \<Rightarrow> [] | Some t \<Rightarrow> t)) h1)"
    let ?g2 = "fst (under_fate (net 2) (evalsha X (case ld_sha ld2 of None \<Rightarrow> [] | Some t \<Rightarrow> t)) h2)"
    have cases: "h' = h1 \<or> h' = h2 \<or> h' = ?g1 \<or> h' = ?g2"
    proof (cases r1)
      case (Inr y)
      with run Some first show ?thesis by (simp add: loader_run_def)
    next
      case (Inl m)
      with run Some first again show ?thesis
        by (cases r2; cases "is_noscript_error m"; cases "is_fakeredis_error m") (simp_all add: loader_run_def as_call_iff)
    qed
    have 3: "P (host_data ?g1)" "P (host_data ?g2)" by (rule call(2), rule 1) (rule call(1), rule 2)
    from cases show ?thesis
    proof (elim disjE)
    qed (simp_all only: 1 2 3)
  qed
qed

lemma through_loader_iff:
  "through_loader f (M, h) = ((M', h'), r) \<longleftrightarrow>
     (\<exists>ld x. f (mg_loader M, h) = ((ld, h'), x) \<and> M' = M\<lparr>mg_loader := ld\<rparr>
        \<and> r = (case x of Inl e \<Rightarrow> Inl (ResourceCallError (loader_message e)) | Inr y \<Rightarrow> Inr y))"
  by (auto simp: through_loader_def split: prod.splits sum.splits)

lemma initialise_manager_data:
  assumes "initialise_manager f (M, h) = ((M', h'), r)"
  shows "host_data h' = host_data h" "mg_released_ttl M' = mg_released_ttl M"
proof -
  have "host_data h' = host_data h \<and> mg_released_ttl M' = mg_released_ttl M"
  proof (cases "mg_initialised M")
    case False
    obtain ld h1 x where l: "load_script f (mg_loader M, h) = ((ld, h1), x)" by (metis surj_pair)
    then have "host_data h1 = host_data h" by (rule load_script_data)
    moreover from l False assms have "h' = h1" "mg_released_ttl M' = mg_released_ttl M"
      by (auto simp: initialise_manager_def through_loader_def split: sum.splits)
    ultimately show ?thesis by simp
  qed (use assms in \<open>simp add: initialise_manager_def\<close>)
  then show "host_data h' = host_data h" "mg_released_ttl M' = mg_released_ttl M" by auto
qed

lemma call_script_keeps:
  assumes "call_script L net keys argv (M, h) = ((M', h'), r)"
    and "\<And>d. P d \<Longrightarrow> P (fst (reservation_script L keys argv d))" and "P (host_data h)"
  shows "P (host_data h')"
proof -
  obtain ld x where "loader_run (reservation_script L keys argv) (\<lambda>i. net (Suc i)) (mg_loader M, h) = ((ld, h'), x)"
    using assms(1) by (auto simp: call_script_def through_loader_iff)
  then show ?thesis using assms(2,3) by (rule loader_run_keeps)
qed

lemma sbind_split:
  assumes "sbind m f S = (S', r)"
  obtains e where "m S = (S', Inl e)" "r = Inl e" | x S1 where "m S = (S1, Inr x)" "f x S1 = (S', r)"
  using assms by (auto simp: sbind_def split: prod.splits sum.splits)

lemma pure_step_split:
  assumes "pure_step m f S = (S', r)"
  obtains e where "m = Inl e" "S' = S" "r = Inl e" | x where "m = Inr x" "f x S = (S', r)"
  using assms by (auto simp: pure_step_def split: sum.splits)

lemma checked_receipt_key_Inr: "checked_receipt_key E op = Inr key \<Longrightarrow> key = reservation_receipt_key op"
  by (auto simp: checked_receipt_key_def rbind_Inr_iff required_exact_text_def split: if_splits pyval.splits)

lemma checked_resource_keys_Inr:
  assumes "checked_resource_keys E op tenant = Inr keys"
  shows "keys = resource_keys op tenant" "required_exact_text E ''tenant_id'' (PStr tenant) = Inr tenant"
    "checked_receipt_key E op = Inr (reservation_receipt_key op)"
  using assms
  by (auto simp: checked_resource_keys_def rbind_Inr_iff resource_keys_def required_exact_text_def
      dest: checked_receipt_key_Inr split: if_splits)

lemma execute_cases:
  assumes "execute E L net action r now c b i hk w (M, h) = (S', res)"
  obtains M' h' e where "S' = (M', h')" "host_data h' = host_data h" "res = Inl e"
  | M1 h1 M' h' x cl bl il where "initialise_manager (net 0) (M, h) = ((M1, h1), Inr ())"
      "optional_limit ''concurrent_run_limit'' c = Inr cl" "optional_limit ''budget_limit_cents'' b = Inr bl"
      "optional_limit ''tenant_inflight_limit'' i = Inr il" "S' = (M', h')"
      "checked_resource_keys E (rsv_operation_id r) (rsv_tenant_id r) = Inr (resource_keys (rsv_operation_id r) (rsv_tenant_id r))"
      "call_script L net (resource_keys (rsv_operation_id r) (rsv_tenant_id r) @ hk)
         (reservation_argv action r now cl bl il (mg_released_ttl M1) w) (M1, h1) = ((M', h'), x)"
      "res = (case x of Inl e \<Rightarrow> Inl e | Inr rep \<Rightarrow> Inr (parse_reply (rsv_operation_id r) (reservation_proof r) rep))"
proof -
  note that' = that
  from assms show thesis unfolding execute_def
  proof (cases rule: sbind_split)
    case (1 e)
    obtain M' h' where "S' = (M', h')" by fastforce
    with 1 have "initialise_manager (net 0) (M, h) = ((M', h'), Inl e)" by simp
    then have "host_data h' = host_data h" by (rule initialise_manager_data)
    with 1 \<open>S' = (M', h')\<close> show thesis by (intro that'(1))
  next
    case (2 u S1)
    obtain M1 h1 where S1: "S1 = (M1, h1)" by fastforce
    with 2(1) have i1: "initialise_manager (net 0) (M, h) = ((M1, h1), Inr ())" by simp
    then have d: "host_data h1 = host_data h" by (rule initialise_manager_data)
    show thesis
      using 2(2) unfolding S1
    proof (elim pure_step_split)
      fix keys cl bl il
      assume k: "checked_resource_keys E (rsv_operation_id r) (rsv_tenant_id r) = Inr keys"
        and lims: "optional_limit ''concurrent_run_limit'' c = Inr cl" "optional_limit ''budget_limit_cents'' b = Inr bl"
          "optional_limit ''tenant_inflight_limit'' i = Inr il"
        and run: "(case (M1, h1) of (M, h) \<Rightarrow> sbind (call_script L net (keys @ hk)
           (reservation_argv action r now cl bl il (mg_released_ttl M) w))
           (\<lambda>rep. sreturn (parse_reply (rsv_operation_id r) (reservation_proof r) rep)) (M, h)) = (S', res)"
      have keys: "keys = resource_keys (rsv_operation_id r) (rsv_tenant_id r)" using k by (rule checked_resource_keys_Inr)
      obtain M' h' x where call: "call_script L net (resource_keys (rsv_operation_id r) (rsv_tenant_id r) @ hk)
          (reservation_argv action r now cl bl il (mg_released_ttl M1) w) (M1, h1) = ((M', h'), x)"
        by (metis surj_pair)
      show thesis
      proof (rule that'(2) [OF i1 lims _ _ call])
        show "S' = (M', h')"
          "res = (case x of Inl e \<Rightarrow> Inl e | Inr rep \<Rightarrow> Inr (parse_reply (rsv_operation_id r) (reservation_proof r) rep))"
          using run call by (auto simp: keys sbind_def split: sum.splits)
      qed (use k keys in simp)
    qed (auto intro: that'(1) d)
  qed
qed

lemma reservation_argv_nth:
  "argument (reservation_argv action r now c b i ttl w) 1 = action"
  "argument (reservation_argv action r now c b i ttl w) 2 = rsv_operation_id r"
  "argument (reservation_argv action r now c b i ttl w) 3 = rsv_run_id r"
  "argument (reservation_argv action r now c b i ttl w) 4 = rsv_tenant_id r"
  "argument (reservation_argv action r now c b i ttl w) 5 = dec_int (rsv_cost r)"
  "argument (reservation_argv action r now c b i ttl w) 6 = dec_int (rsv_version r)"
  "argument (reservation_argv action r now c b i ttl w) 7 = reservation_proof r"
  "argument (reservation_argv action r now c b i ttl w) 8 = dec_int now"
  "argument (reservation_argv action r now c b i ttl w) 9 = dec_int c"
  "argument (reservation_argv action r now c b i ttl w) 10 = dec_int b"
  "argument (reservation_argv action r now c b i ttl w) 11 = dec_int i"
  "argument (reservation_argv action r now c b i ttl w) 12 = dec_int ttl"
  by (simp_all add: reservation_argv_def argument_def)

lemma settlement_argv_nth:
  "argument (settlement_argv st now ttl w cw) 1 = ''settle''"
  "argument (settlement_argv st now ttl w cw) 2 = stl_create_operation_id st"
  "argument (settlement_argv st now ttl w cw) 4 = stl_tenant_id st"
  by (simp_all add: settlement_argv_def argument_def)

lemma own_reservation_call: "own_call (resource_keys (rsv_operation_id r) (rsv_tenant_id r) @ hk) (reservation_argv action r now c b i ttl w)"
  by (auto simp: own_call_def reservation_argv_nth)

lemma own_settlement_call: "own_call (resource_keys (stl_create_operation_id st) (stl_tenant_id st) @ hk) (settlement_argv st now ttl w cw)"
  by (auto simp: own_call_def settlement_argv_nth)

text \<open>What every run of the script on the manager's own keys keeps, every call of the manager keeps.\<close>

lemma execute_keeps:
  assumes "execute E L net action r now c b i hk w (M, h) = ((M', h'), res)"
    and keeps: "\<And>keys argv d. own_call keys argv \<Longrightarrow> P d \<Longrightarrow> P (fst (reservation_script L keys argv d))"
    and ok: "P (host_data h)"
  shows "P (host_data h')"
  using assms(1)
proof (cases rule: execute_cases)
  case (1 M2 h2 e)
  with ok show ?thesis by simp
next
  case (2 M1 h1 M2 h2 x cl bl il)
  have "P (host_data h1)" using ok initialise_manager_data(1) [OF 2(1)] by simp
  with 2(5,7) show ?thesis by (auto intro: call_script_keeps keeps own_reservation_call)
qed

lemma settle_once_cases:
  assumes "settle_once E L net clock st now hk w cw (M, h) = (S', res)"
  obtains M' h' e where "S' = (M', h')" "host_data h' = host_data h" "res = Inl e"
  | M1 h1 M' h' x ms where "initialise_manager (net 0) (M, h) = ((M1, h1), Inr ())" "now_ms_of clock now = Inr ms" "S' = (M', h')"
      "call_script L net (resource_keys (stl_create_operation_id st) (stl_tenant_id st) @ hk)
         (settlement_argv st ms (mg_released_ttl M1) w cw) (M1, h1) = ((M', h'), x)"
      "res = (case x of Inl e \<Rightarrow> Inl e | Inr rep \<Rightarrow> Inr (parse_reply (stl_create_operation_id st) (settlement_proof st) rep))"
proof -
  from assms show thesis unfolding settle_once_def
  proof (cases rule: sbind_split)
    case (1 e)
    obtain M' h' where S': "S' = (M', h')" by fastforce
    with 1 have "initialise_manager (net 0) (M, h) = ((M', h'), Inl e)" by simp
    then have "host_data h' = host_data h" by (rule initialise_manager_data)
    with 1 S' show thesis by (intro that(1))
  next
    case (2 u S1)
    obtain M1 h1 where S1: "S1 = (M1, h1)" by fastforce
    with 2(1) have i1: "initialise_manager (net 0) (M, h) = ((M1, h1), Inr ())" by simp
    then have d: "host_data h1 = host_data h" by (rule initialise_manager_data)
    show thesis
      using 2(2) unfolding S1
    proof (elim pure_step_split)
      fix keys ms
      assume ms: "now_ms_of clock now = Inr ms"
        and k: "checked_resource_keys E (stl_create_operation_id st) (stl_tenant_id st) = Inr keys"
        and run: "(case (M1, h1) of (M, h) \<Rightarrow> sbind (call_script L net (keys @ hk) (settlement_argv st ms (mg_released_ttl M) w cw))
           (\<lambda>rep. sreturn (parse_reply (stl_create_operation_id st) (settlement_proof st) rep)) (M, h)) = (S', res)"
      have keys: "keys = resource_keys (stl_create_operation_id st) (stl_tenant_id st)" using k by (rule checked_resource_keys_Inr)
      obtain M' h' x where call: "call_script L net (resource_keys (stl_create_operation_id st) (stl_tenant_id st) @ hk)
          (settlement_argv st ms (mg_released_ttl M1) w cw) (M1, h1) = ((M', h'), x)"
        by (metis surj_pair)
      show thesis
      proof (rule that(2) [OF i1 ms _ call])
        show "S' = (M', h')"
          "res = (case x of Inl e \<Rightarrow> Inl e | Inr rep \<Rightarrow> Inr (parse_reply (stl_create_operation_id st) (settlement_proof st) rep))"
          using run call by (auto simp: keys sbind_def split: sum.splits)
      qed
    qed (auto intro: that(1) d)
  qed
qed

lemma settle_once_keeps:
  assumes "settle_once E L net clock st now hk w cw (M, h) = ((M', h'), res)"
    and keeps: "\<And>keys argv d. own_call keys argv \<Longrightarrow> P d \<Longrightarrow> P (fst (reservation_script L keys argv d))"
    and ok: "P (host_data h)"
  shows "P (host_data h')"
  using assms(1)
proof (cases rule: settle_once_cases)
  case (1 M2 h2 e)
  with ok show ?thesis by simp
next
  case (2 M1 h1 M2 h2 x ms)
  have "P (host_data h1)" using ok initialise_manager_data(1) [OF 2(1)] by simp
  with 2(3,4) show ?thesis by (auto intro: call_script_keeps keeps own_settlement_call)
qed

section \<open>Steps\<close>

text \<open>
  Calls of any manager with any arguments over any network, time passing, expiry, a lost script cache,
  another manager taking over, and writers of keys outside the reservation's.
\<close>

definition drop_key :: "string \<Rightarrow> resource_server \<Rightarrow> resource_server" where
  "drop_key k s = s\<lparr>srv_view := (srv_view s)(k := None)\<rparr>"

definition expiring :: "string \<Rightarrow> resource_server \<Rightarrow> bool" where
  "expiring k s \<longleftrightarrow> srv_view s k \<noteq> None \<and> 0 \<le> srv_ttl s k"

inductive managed_step :: "externals \<Rightarrow> lua_lib \<Rightarrow> managed \<Rightarrow> managed \<Rightarrow> bool" for E L where
  reserve: "reserve_once E L net clock r c b i now S = (S', res) \<Longrightarrow> managed_step E L S S'"
| finalize: "finalize_once E L net clock r now hk w S = (S', res) \<Longrightarrow> managed_step E L S S'"
| release: "release_once E L net clock r now S = (S', res) \<Longrightarrow> managed_step E L S S'"
| settle: "settle_once E L net clock st now hk w cw S = (S', res) \<Longrightarrow> managed_step E L S S'"
| expire: "expiring k (host_data h) \<Longrightarrow> managed_step E L (M, h) (M, h\<lparr>host_data := drop_key k (host_data h)\<rparr>)"
| tick: "expiring k (host_data h) \<Longrightarrow> 0 \<le> n \<Longrightarrow> managed_step E L (M, h) (M, h\<lparr>host_data := set_ttl k n (host_data h)\<rparr>)"
| other: "(\<And>k. is_protected k \<Longrightarrow> same_at k (host_data h) d) \<Longrightarrow>
    managed_step E L (M, h) (M', h\<lparr>host_data := d, host_scripts := scripts\<rparr>)"

definition no_reservations :: "managed \<Rightarrow> bool" where
  "no_reservations S \<longleftrightarrow> (\<forall>k. is_protected k \<longrightarrow> srv_view (host_data (snd S)) k = None)"

definition managed_accounts :: "managed \<Rightarrow> bool" where
  "managed_accounts S \<longleftrightarrow> accounted (host_data (snd S))"

lemma no_reservations_accounted: "no_reservations S \<Longrightarrow> managed_accounts S"
proof -
  assume "no_reservations S"
  then have none: "is_protected k \<Longrightarrow> srv_view (host_data (snd S)) k = None" for k by (simp add: no_reservations_def)
  then have "held (host_data (snd S)) t = {}" for t by (auto simp: held_def is_protected_def)
  then show ?thesis using none
    by (auto simp: managed_accounts_def accounted_def receipts_ok_def tenant_ok_def is_protected_def counter_keys_def
        counter_is_def read_initial_iff)
qed

lemma expiring_protected:
  assumes "accounted s" "expiring k s" "is_protected k"
  shows "is_receipt_key k" "receipt_state s k = ''RELEASED''"
proof -
  have "srv_ttl s c = -1 \<or> srv_view s c = None" if "c \<in> set (counter_keys t)" for c t
  proof -
    have "\<exists>n. read_initial_counter s c = Some n"
      using assms(1) that by (auto simp: accounted_def tenant_ok_def counter_is_def counter_keys_def)
    then show ?thesis by (auto simp: read_initial_iff)
  qed
  with assms(2,3) show rk: "is_receipt_key k" by (fastforce simp: is_protected_def expiring_def)
  show "receipt_state s k = ''RELEASED''"
    using assms(1,2) rk by (fastforce simp: accounted_def receipts_ok_def expiring_def)
qed

text \<open>A receipt that holds nothing may go, or count down, without touching the accounts.\<close>

lemma idle_receipt_accounted:
  assumes ok: "accounted s" and k: "is_receipt_key k" "receipt_state s k = ''RELEASED''"
    and frame: "\<And>k'. k' \<noteq> k \<Longrightarrow> same_at k' s s'"
    and at: "srv_view s' k = None \<or> srv_view s' k = srv_view s k"
  shows "accounted s'"
proof -
  have rk: "is_receipt_key k' \<Longrightarrow> k' \<noteq> k \<Longrightarrow> same_at k' s s'" for k' using frame .
  have gone: "srv_view s' k = srv_view s k \<Longrightarrow> receipt_hash s' k = receipt_hash s k \<and> type_name s' k = type_name s k"
    by (simp add: receipt_hash_def' type_name_def')
  have out: "k \<notin> held s u" for u using k(2) by (simp add: held_def holding_states_def)
  have out': "k \<notin> held s' u" for u
  proof (cases "srv_view s' k = None")
    case False
    with at have "receipt_state s' k = receipt_state s k" using gone by (simp add: receipt_state_def)
    with k(2) show ?thesis by (simp add: held_def holding_states_def)
  qed (simp add: held_def)
  have eq: "k' \<in> held s' u \<longleftrightarrow> k' \<in> held s u" for k' u
  proof (cases "k' = k")
    case True
    with out out' show ?thesis by simp
  next
    case False
    then show ?thesis by (simp add: held_def receipt_state_def same_at_reads [OF frame])
  qed
  then have h: "held s' u = held s u" for u by blast
  have c: "receipt_cost s' k' = receipt_cost s k'" if "k' \<in> held s u" for k' u
  proof -
    have "k' \<noteq> k" using that out by blast
    then show ?thesis by (simp add: receipt_cost_def same_at_reads [OF frame])
  qed
  have "receipts_ok s'"
  proof (unfold receipts_ok_def, intro allI impI)
    fix k' assume k': "is_receipt_key k'" "srv_view s' k' \<noteq> None"
    show "type_name s' k' = ''hash'' \<and> decimal_integer (receipt_value (receipt_hash s' k') ''estimated_cost_cents'') 0 \<noteq> None
        \<and> receipt_state s' k' \<in> set known_states \<and> (receipt_state s' k' \<noteq> ''RELEASED'' \<longrightarrow> srv_ttl s' k' = -1)"
    proof (cases "k' = k")
      case True
      with k' at have "srv_view s' k = srv_view s k" "srv_view s k \<noteq> None" by auto
      with True gone k ok show ?thesis by (auto simp: accounted_def receipts_ok_def receipt_state_def)
    next
      case False
      with k' ok show ?thesis
        by (simp add: accounted_def receipts_ok_def receipt_state_def same_at_reads [OF frame])
    qed
  qed
  moreover have "tenant_ok s' u" for u
  proof -
    have "same_at c s s'" if "c \<in> set (counter_keys u)" for c using that k(1) by (intro frame) (auto simp: counter_keys_def)
    then have "same_at (concurrent_run_key u) s s'" "same_at (budget_reserved_key u) s s'" "same_at (tenant_inflight u) s s'"
      by (simp_all add: counter_keys_def)
    moreover have "sum (receipt_cost s') (held s u) = sum (receipt_cost s) (held s u)" by (intro sum.cong refl c)
    ultimately show ?thesis using ok by (simp add: accounted_def tenant_ok_def h counter_is_frame)
  qed
  ultimately show ?thesis by (simp add: accounted_def)
qed

lemma passing_accounted:
  assumes "accounted s" "expiring k s"
  shows "accounted (drop_key k s)" "accounted (set_ttl k n s)"
proof -
  have f: "same_at k' s (drop_key k s)" "same_at k' s (set_ttl k n s)" if "k' \<noteq> k" for k'
    using that by (simp_all add: same_at_def drop_key_def)
  have a: "accounted s'" if "s' \<in> {drop_key k s, set_ttl k n s}" for s'
  proof (cases "is_protected k")
    case True
    have "srv_view s' k = None \<or> srv_view s' k = srv_view s k" using that by (auto simp: drop_key_def)
    with f that show ?thesis
      by (intro idle_receipt_accounted [OF assms(1) expiring_protected [OF assms True]]) auto
  next
    case False
    then have "is_protected k' \<Longrightarrow> k' \<noteq> k" for k' by blast
    with f that show ?thesis by (intro frame_accounted [OF _ assms(1)]) auto
  qed
  show "accounted (drop_key k s)" "accounted (set_ttl k n s)" by (rule a, simp)+
qed

lemma managed_step_accounts:
  assumes "managed_step E L S S'" "managed_accounts S"
  shows "managed_accounts S'"
proof -
  have keeps: "accounted (fst (reservation_script L keys argv d))" if "own_call keys argv" "accounted d" for keys argv d
    using that script_accounted [of d keys argv L] by (metis surj_pair fst_conv)
  obtain M h where S: "S = (M, h)" by fastforce
  obtain M' h' where S': "S' = (M', h')" by fastforce
  have a: "accounted (host_data h)" using assms(2) by (simp add: managed_accounts_def S)
  have ex: "accounted (host_data h')" if "execute E L net action r ms c b i hk w (M, h) = ((M', h'), res)"
    for net action r ms c b i hk w res
    using that keeps a by (rule execute_keeps)
  have "accounted (host_data h')"
    using assms(1) unfolding S S'
  proof cases
    case (reserve net clock r c b i now res)
    then show ?thesis using a ex by (auto simp: reserve_once_def elim!: pure_step_split)
  next
    case (finalize net clock r now hk w res)
    then show ?thesis using a ex by (auto simp: finalize_once_def elim!: pure_step_split)
  next
    case (release net clock r now res)
    then show ?thesis using a ex by (auto simp: release_once_def elim!: pure_step_split)
  next
    case (settle net clock st now hk w cw res)
    then show ?thesis using keeps a by (rule settle_once_keeps)
  next
    case (expire k)
    with a show ?thesis by (simp add: passing_accounted)
  next
    case (tick k n)
    with a show ?thesis by (simp add: passing_accounted)
  next
    case (other d scripts)
    with a show ?thesis by (auto intro: frame_accounted)
  qed
  then show ?thesis by (simp add: managed_accounts_def S')
qed

interpretation accounts: invariant_system no_reservations "managed_step E L" managed_accounts
  by unfold_locales (auto intro: no_reservations_accounted managed_step_accounts)

end
