(* ===== verification/CommitEffects.thy ===== *)
theory CommitEffects
  imports CommitScript
begin

text \<open>
  What a run of the commit script does to the server: the outcomes of a run, what its guards establish,
  what its writes change, and the history that any sequence of runs leaves behind for one aggregate.
\<close>

section \<open>Outcomes of a run\<close>

definition is_committed :: "string + script_reply \<Rightarrow> bool" where
  "is_committed ans \<longleftrightarrow> (\<exists>tid revision detail. ans = Inr (conflict_result ''COMMITTED'' tid revision detail))"

lemma require_Inr_iff [result_simps]: "require_that b e = Inr u \<longleftrightarrow> b \<or> e = Inr u"
  by (simp add: require_that_def)

lemma not_Inl_iff: "(\<forall>a. x \<noteq> Inl a) \<longleftrightarrow> (\<exists>b. x = Inr b)" "(\<forall>b. x \<noteq> Inr b) \<longleftrightarrow> (\<exists>a. x = Inl a)"
  by (cases x; auto)+

lemma stops_not_Inr [simp]:
  "invalid_plan d \<noteq> Inr x" "retry d \<noteq> Inr x" "illegal d \<noteq> Inr x" "corrupt d \<noteq> Inr x"
  "corruption_conflict stored existing revision d \<noteq> Inr x" "refuse_with status d \<noteq> Inr x"
  by (simp_all add: invalid_plan_def retry_def illegal_def corrupt_def refuse_with_def corruption_conflict_def)

lemma refuses_Inl: "refuses m \<Longrightarrow> m = Inl s \<Longrightarrow> refusing s"
  by (simp add: refuses_def)

lemma conflict_result_status: "conflict_result s t r d = conflict_result s' t' r' d' \<longleftrightarrow> s = s' \<and> t = t' \<and> r = r' \<and> d = d'"
  by (simp add: conflict_result_def)

lemma emit_not_committed:
  assumes "emit_conflict L keys av ms n ctype stored existing revision detail srv = (srv', ans)" and "ctype \<noteq> ''COMMITTED''"
  shows "\<not> is_committed ans"
  using assms
  by (auto simp: emit_conflict_def is_committed_def Let_def conflict_result_status evidence_unavailable_def
      split: option.splits if_splits)

lemma commit_script_cases [consumes 1, case_names committed refused conflict]:
  assumes "commit_script L keys argv srv = (srv', ans)"
  obtains cn n owner where "check_arguments (read_argv argv) = Inr cn"
      "conflict_pair_state srv (keys ! 6) (keys ! 7) = Inr n"
      "commit_guards L srv keys (read_argv argv) cn = Inr owner"
      "srv' = write_commit L keys (read_argv argv) cn owner srv"
      "ans = Inr (conflict_result ''COMMITTED'' (av_transition_id (read_argv argv)) (lua_tostring (cn_next cn)) [])"
  | "srv' = srv" "\<not> is_committed ans"
  | ms n ctype stored existing revision detail where "conflict_pair_state srv (keys ! 6) (keys ! 7) = Inr n"
      "emit_conflict L keys (read_argv argv) ms n ctype stored existing revision detail srv = (srv', ans)"
      "\<not> is_committed ans"
proof -
  let ?av = "read_argv argv"
  let ?pre = "rbind (check_arguments ?av) (\<lambda>cn. case conflict_pair_state srv (keys ! 6) (keys ! 7) of
       Inl detail \<Rightarrow> refuse_with ''CONFLICT_EVIDENCE_STORE_UNAVAILABLE'' detail | Inr n \<Rightarrow> Inr (cn, n))"
  have unav: "refuses (refuse_with ''CONFLICT_EVIDENCE_STORE_UNAVAILABLE'' d :: stop + 'a)" for d
    by (simp add: refuses_def refuse_with_def)
  have pre: "refuses ?pre"
    by (intro refuses_rbind refuses_check_arguments refuses_cases(2) unav refuses_basic(1))
  show thesis
  proof (cases ?pre)
    case (Inl stop)
    then have "refusing stop" using pre by (rule refuses_Inl [rotated])
    with assms Inl show thesis
      by (intro that(2)) (auto simp: commit_script_def Let_def is_committed_def conflict_result_status split: stop.splits)
  next
    case (Inr p)
    obtain cn n where p: "p = (cn, n)" by (cases p)
    have cn: "check_arguments ?av = Inr cn" "conflict_pair_state srv (keys ! 6) (keys ! 7) = Inr n"
      using Inr p by (auto simp: rbind_Inr_iff not_Inl_iff split: sum.split_asm)
    show thesis
    proof (cases "commit_guards L srv keys ?av cn")
      case (Inr owner)
      with assms \<open>?pre = Inr p\<close> p cn show thesis by (intro that(1)) (auto simp: commit_script_def Let_def)
    next
      case (Inl stop)
      have r: "refusing stop" using refuses_commit_guards Inl by (rule refuses_Inl)
      show thesis
      proof (cases stop)
        case (Conflict ctype stored existing revision detail)
        have "emit_conflict L keys ?av (cn_committed_at cn) n ctype stored existing revision detail srv = (srv', ans)"
          using assms \<open>?pre = Inr p\<close> p Inl Conflict by (simp add: commit_script_def Let_def)
        moreover from this r Conflict have "\<not> is_committed ans" by (intro emit_not_committed) auto
        ultimately show thesis using cn(2) by (intro that(3))
      qed (use assms \<open>?pre = Inr p\<close> p Inl r in \<open>intro that(2);
             auto simp: commit_script_def Let_def is_committed_def conflict_result_status\<close>)+
    qed
  qed
qed

section \<open>What the guards establish\<close>

lemma resolve_repeated_Inr:
  assumes "resolve_repeated L srv keys av owner = Inr u"
  shows "hget srv (keys ! 2) (av_operation_digest av) = None" "hget srv (keys ! 3) (av_operation_digest av) = None"
proof -
  have "hget srv (keys ! 2) (av_operation_digest av) = None \<and> hget srv (keys ! 3) (av_operation_digest av) = None"
  proof (rule ccontr)
    assume "\<not> ?thesis"
    with assms show False
      by (auto simp: not_Inl_iff resolve_repeated_def Let_def rbind_Inr_iff require_Inr_iff split: option.split_asm json.split_asm sum.split_asm)
  qed
  then show "hget srv (keys ! 2) (av_operation_digest av) = None" "hget srv (keys ! 3) (av_operation_digest av) = None" by auto
qed

lemma existing_head_guard_counts:
  assumes "existing_head_guard L srv keys av revision = Inr u"
  shows "list_all (\<lambda>k. int (length (lua_hash srv (keys ! k))) = revision) [1, 2, 3]"
    and "list_all (\<lambda>k. int (length (srv_streams srv (keys ! k))) = revision) [4, 5]"
    and "1 \<le> revision"
  using assms
  by (auto simp: not_Inl_iff existing_head_guard_def Let_def rbind_Inr_iff require_Inr_iff snapshot_complete_def split: sum.split_asm)

lemma head_guard_Inr:
  assumes "head_guard L srv keys av = Inr revision"
  shows "srv_view srv (keys ! 0) = None \<Longrightarrow> revision = 0"
    and "srv_view srv (keys ! 0) \<noteq> None \<Longrightarrow> 1 \<le> revision
      \<and> list_all (\<lambda>k. int (length (lua_hash srv (keys ! k))) = revision) [1, 2, 3]
      \<and> list_all (\<lambda>k. int (length (srv_streams srv (keys ! k))) = revision) [4, 5]"
  using assms existing_head_guard_counts [of L srv keys av revision]
  by (auto simp: head_guard_def Let_def rbind_Inr_iff require_Inr_iff hget_def lua_hash_def)

lemma check_arguments_Inr:
  assumes "check_arguments av = Inr cn"
  shows "safe_number (av_expected_revision av) = Some (cn_expected cn)" "cn_next cn = cn_expected cn + 1"
  using assms by (auto simp: check_arguments_def rbind_Inr_iff require_Inr_iff split: option.splits)

text \<open>The facts that a commit rests on, for the revision \<open>n\<close> of the head.\<close>

lemma commit_guards_Inr:
  assumes "commit_guards L srv keys av cn = Inr owner"
  shows "hget srv (keys ! 1) (av_transition_id av) = None"
    and "hget srv (keys ! 2) (av_operation_digest av) = None" and "hget srv (keys ! 3) (av_operation_digest av) = None"
    and "srv_view srv (keys ! 0) = None \<Longrightarrow> cn_expected cn = 0"
    and "srv_view srv (keys ! 0) \<noteq> None \<Longrightarrow> 1 \<le> cn_expected cn
      \<and> list_all (\<lambda>k. int (length (lua_hash srv (keys ! k))) = cn_expected cn) [1, 2, 3]
      \<and> list_all (\<lambda>k. int (length (srv_streams srv (keys ! k))) = cn_expected cn) [4, 5]"
    and "previous_state_ok srv keys av (cn_expected cn)"
    and "owner \<noteq> None \<Longrightarrow> length keys \<in> {10, 16} \<and> av_operation_type av = ''TASK_ADMIT'' \<and> av_owner_mode av = ''1''"
    and "owner = Some (val, task_id) \<Longrightarrow> hget srv (owner_key keys) task_id = None"
proof -
  from assms obtain r revision where
    own: "admit_owner L srv keys av r = Inr owner" and rep: "resolve_repeated L srv keys av owner = Inr ()"
    and rel: "relation_guard L srv keys av r owner = Inr ()" and tid: "hget srv (keys ! 1) (av_transition_id av) = None"
    and head: "head_guard L srv keys av = Inr revision" and rev: "revision_guard srv keys av cn revision = Inr ()"
    and state: "previous_state_ok srv keys av revision"
    by (auto simp: commit_guards_def rbind_Inr_iff require_Inr_iff)
  have eq: "revision = cn_expected cn" using rev by (auto simp: revision_guard_def Let_def split: if_splits)
  show "hget srv (keys ! 1) (av_transition_id av) = None" by (rule tid)
  show "hget srv (keys ! 2) (av_operation_digest av) = None" "hget srv (keys ! 3) (av_operation_digest av) = None"
    using resolve_repeated_Inr [OF rep] by simp_all
  show "srv_view srv (keys ! 0) = None \<Longrightarrow> cn_expected cn = 0"
    "srv_view srv (keys ! 0) \<noteq> None \<Longrightarrow> 1 \<le> cn_expected cn
      \<and> list_all (\<lambda>k. int (length (lua_hash srv (keys ! k))) = cn_expected cn) [1, 2, 3]
      \<and> list_all (\<lambda>k. int (length (srv_streams srv (keys ! k))) = cn_expected cn) [4, 5]"
    using head_guard_Inr [OF head] eq by simp_all
  show "previous_state_ok srv keys av (cn_expected cn)" using state eq by simp
  show admit: "owner \<noteq> None \<Longrightarrow> length keys \<in> {10, 16} \<and> av_operation_type av = ''TASK_ADMIT'' \<and> av_owner_mode av = ''1''"
    using own by (auto simp: admit_owner_def rbind_Inr_iff require_Inr_iff split: if_splits)
  show "owner = Some (val, task_id) \<Longrightarrow> hget srv (owner_key keys) task_id = None"
    using rel admit
    by (auto simp: relation_guard_def rbind_Inr_iff owner_allocation_def split: option.splits if_splits)
qed

section \<open>What the writes change\<close>

lemma put_hash_lookup [simp]:
  "lua_hash (put_hash k fvs s) k' = (if k' = k then hset fvs (lua_hash s k) else lua_hash s k')"
  "srv_view (put_hash k fvs s) k' = (if k' = k then Some (RHash (hset fvs (lua_hash s k))) else srv_view s k')"
  "srv_streams (put_hash k fvs s) = srv_streams s"
  by (simp_all add: put_hash_def lua_hash_def)

lemma append_stream_lookup [simp]:
  "lua_hash (append_stream k e s) k' = (if k' = k then [] else lua_hash s k')"
  "srv_view (append_stream k e s) k' = (if k' = k then Some (ROther KStream) else srv_view s k')"
  "srv_streams (append_stream k e s) k' = (if k' = k then srv_streams s k @ [e] else srv_streams s k')"
  by (simp_all add: append_stream_def lua_hash_def)

lemma write_owner_frame:
  assumes "owner \<noteq> None \<longrightarrow> k \<noteq> owner_key keys \<and> k \<noteq> header_key keys"
  shows "lua_hash (write_owner keys owner s) k = lua_hash s k" "srv_view (write_owner keys owner s) k = srv_view s k"
    "srv_streams (write_owner keys owner s) = srv_streams s"
  using assms by (auto simp: write_owner_def Let_def split: option.split prod.split)

lemma keys_apart:
  assumes "distinct keys" and "8 \<le> length keys"
  shows "i < 8 \<Longrightarrow> j < 8 \<Longrightarrow> keys ! i = keys ! j \<longleftrightarrow> i = j"
    and "10 \<le> length keys \<Longrightarrow> i < 8 \<Longrightarrow> keys ! i \<noteq> owner_key keys \<and> keys ! i \<noteq> header_key keys"
    and "10 \<le> length keys \<Longrightarrow> owner_key keys \<noteq> header_key keys"
  using assms by (auto simp: owner_key_def header_key_def nth_eq_iff_index_eq)

lemma write_commit_effect:
  fixes s cn av L
  assumes keys: "distinct keys" "8 \<le> length keys" and owner: "owner \<noteq> None \<longrightarrow> 10 \<le> length keys"
  defines "s' \<equiv> write_commit L keys av cn owner s"
  shows "lua_hash s' (keys ! 0) = hset (head_values av cn) (lua_hash s (keys ! 0))"
    and "lua_hash s' (keys ! 1) = hset [(av_transition_id av, envelope_of L (av_index_json av))] (lua_hash s (keys ! 1))"
    and "lua_hash s' (keys ! 2) = hset [(av_operation_digest av, envelope_of L (av_receipt_json av))] (lua_hash s (keys ! 2))"
    and "lua_hash s' (keys ! 3) = hset [(av_operation_digest av, envelope_of L (av_record_json av))] (lua_hash s (keys ! 3))"
    and "srv_streams s' (keys ! 4) = srv_streams s (keys ! 4) @ [log_values av cn]"
    and "srv_streams s' (keys ! 5) = srv_streams s (keys ! 5) @ [outbox_values av cn]"
    and "srv_view s' (keys ! 0) = Some (RHash (hset (head_values av cn) (lua_hash s (keys ! 0))))"
    and "\<lbrakk>k \<notin> set (take 6 keys); owner \<noteq> None \<longrightarrow> k \<noteq> owner_key keys \<and> k \<noteq> header_key keys\<rbrakk>
      \<Longrightarrow> srv_view s' k = srv_view s k \<and> srv_streams s' k = srv_streams s k"
proof -
  have apart: "owner \<noteq> None \<longrightarrow> keys ! i \<noteq> owner_key keys \<and> keys ! i \<noteq> header_key keys" if "i < 8" for i
    using keys_apart(2) [OF keys _ that] owner by blast
  note f = write_owner_frame [OF apart]
  note k = keys_apart(1) [OF keys]
  show "lua_hash s' (keys ! 0) = hset (head_values av cn) (lua_hash s (keys ! 0))"
    "lua_hash s' (keys ! 1) = hset [(av_transition_id av, envelope_of L (av_index_json av))] (lua_hash s (keys ! 1))"
    "lua_hash s' (keys ! 2) = hset [(av_operation_digest av, envelope_of L (av_receipt_json av))] (lua_hash s (keys ! 2))"
    "lua_hash s' (keys ! 3) = hset [(av_operation_digest av, envelope_of L (av_record_json av))] (lua_hash s (keys ! 3))"
    "srv_streams s' (keys ! 4) = srv_streams s (keys ! 4) @ [log_values av cn]"
    "srv_streams s' (keys ! 5) = srv_streams s (keys ! 5) @ [outbox_values av cn]"
    "srv_view s' (keys ! 0) = Some (RHash (hset (head_values av cn) (lua_hash s (keys ! 0))))"
    unfolding s'_def write_commit_def
    by (simp_all add: k [of _ "0::nat"] k [of _ 1, unfolded One_nat_def] k [of _ 2] k [of _ 3] k [of _ 4] k [of _ 5] f
        write_owner_frame(3) [OF apart [of 0]])
  assume out: "k \<notin> set (take 6 keys)" and own: "owner \<noteq> None \<longrightarrow> k \<noteq> owner_key keys \<and> k \<noteq> header_key keys"
  have "k \<noteq> keys ! i" if "i < 6" for i
    using out nth_mem [of i "take 6 keys"] that keys(2) by auto
  then have "k \<noteq> keys ! 0" "k \<noteq> keys ! 1" "k \<noteq> keys ! 2" "k \<noteq> keys ! 3" "k \<noteq> keys ! 4" "k \<noteq> keys ! 5" by simp_all
  then show "srv_view s' k = srv_view s k \<and> srv_streams s' k = srv_streams s k"
    unfolding s'_def write_commit_def by (simp add: write_owner_frame [OF own])
qed

section \<open>All or nothing\<close>

lemma emit_frame:
  assumes "emit_conflict L keys av ms n ctype stored existing revision detail srv = (srv', ans)"
    and "k \<noteq> keys ! 6" and "k \<noteq> keys ! 7"
  shows "srv_view srv' k = srv_view srv k" "srv_streams srv' k = srv_streams srv k"
  using assms by (auto simp: emit_conflict_def Let_def split: option.split_asm)

definition head_revision :: "server \<Rightarrow> string list \<Rightarrow> int \<Rightarrow> bool" where
  "head_revision srv keys n \<longleftrightarrow>
     (if srv_view srv (keys ! 0) = None then n = 0
      else 1 \<le> n \<and> list_all (\<lambda>k. int (length (lua_hash srv (keys ! k))) = n) [1, 2, 3]
        \<and> list_all (\<lambda>k. int (length (srv_streams srv (keys ! k))) = n) [4, 5])"

lemma commit_script_effect:
  assumes "commit_script L keys argv srv = (srv', ans)" and "distinct keys" and "8 \<le> length keys"
  shows "if is_committed ans then
      (let av = read_argv argv in
       \<exists>cn owner. safe_number (av_expected_revision av) = Some (cn_expected cn) \<and> cn_next cn = cn_expected cn + 1
         \<and> head_revision srv keys (cn_expected cn) \<and> previous_state_ok srv keys av (cn_expected cn)
         \<and> hget srv (keys ! 1) (av_transition_id av) = None \<and> hget srv (keys ! 2) (av_operation_digest av) = None
         \<and> hget srv (keys ! 3) (av_operation_digest av) = None
         \<and> lua_hash srv' (keys ! 0) = hset (head_values av cn) (lua_hash srv (keys ! 0))
         \<and> lua_hash srv' (keys ! 1) = lua_hash srv (keys ! 1) @ [(av_transition_id av, envelope_of L (av_index_json av))]
         \<and> lua_hash srv' (keys ! 2) = lua_hash srv (keys ! 2) @ [(av_operation_digest av, envelope_of L (av_receipt_json av))]
         \<and> lua_hash srv' (keys ! 3) = lua_hash srv (keys ! 3) @ [(av_operation_digest av, envelope_of L (av_record_json av))]
         \<and> srv_streams srv' (keys ! 4) = srv_streams srv (keys ! 4) @ [log_values av cn]
         \<and> srv_streams srv' (keys ! 5) = srv_streams srv (keys ! 5) @ [outbox_values av cn]
         \<and> (owner \<longrightarrow> av_operation_type av = ''TASK_ADMIT'' \<and> av_owner_mode av = ''1'')
         \<and> (\<forall>k. k \<notin> set (take 6 keys) \<and> (owner \<longrightarrow> k \<noteq> owner_key keys \<and> k \<noteq> header_key keys)
              \<longrightarrow> srv_view srv' k = srv_view srv k \<and> srv_streams srv' k = srv_streams srv k))
    else \<forall>k. k \<noteq> keys ! 6 \<and> k \<noteq> keys ! 7 \<longrightarrow> srv_view srv' k = srv_view srv k \<and> srv_streams srv' k = srv_streams srv k"
  using assms(1)
proof (cases rule: commit_script_cases)
  case (committed cn n owner)
  note g = commit_guards_Inr [OF committed(3)] and c = check_arguments_Inr [OF committed(1)]
  have "owner \<noteq> None \<longrightarrow> 10 \<le> length keys" using g(7) by auto
  note w = write_commit_effect [OF assms(2,3) this, where s = srv and cn = cn and av = "read_argv argv" and L = L,
      folded committed(4)]
  have fresh: "k \<notin> fst ` set h" if "map_of h k = None" for k and h :: "(string \<times> string) list"
    using that by (simp add: map_of_eq_None_iff)
  note fresh = hset_fresh [OF fresh [OF g(1) [unfolded hget_def]]] hset_fresh [OF fresh [OF g(2) [unfolded hget_def]]]
    hset_fresh [OF fresh [OF g(3) [unfolded hget_def]]]
  have head: "head_revision srv keys (cn_expected cn)" using g(4,5) unfolding head_revision_def by presburger
  have "is_committed ans" using committed(5) by (auto simp: is_committed_def)
  then show ?thesis
    unfolding Let_def if_P [OF \<open>is_committed ans\<close>]
    using c head g(1-3,6,7) w(1) w(2-4) [unfolded fresh] w(5,6,8)
    by (intro exI [of _ cn] exI [of _ "owner \<noteq> None"] conjI) blast+
next
  case refused
  then show ?thesis by simp
next
  case (conflict ms n ctype stored existing revision detail)
  then show ?thesis using emit_frame [OF conflict(2)] by simp
qed

text \<open>
  C3. A run of the commit script writes everything or nothing. When it answers \<open>COMMITTED\<close>, the head was at
  the revision and in the state that the command expects, with one index, receipt, record, log and
  outbox entry per revision; the transition id and the operation digest were new; the record, receipt,
  index, log and outbox entry and the head are written, and no key of another aggregate changes. Any
  other answer, a Lua error included, leaves every key as it was except the pair that holds conflict
  evidence. This holds for every server and every argument list.
\<close>


theorem commit_all_or_nothing:
  assumes "commit_script L keys argv srv = (srv', ans)" and "distinct keys" and "8 \<le> length keys"
  shows "if is_committed ans then
      (let av = read_argv argv in
       \<exists>cn owner. safe_number (av_expected_revision av) = Some (cn_expected cn) \<and> cn_next cn = cn_expected cn + 1
         \<and> head_revision srv keys (cn_expected cn) \<and> previous_state_ok srv keys av (cn_expected cn)
         \<and> hget srv (keys ! 1) (av_transition_id av) = None \<and> hget srv (keys ! 2) (av_operation_digest av) = None
         \<and> hget srv (keys ! 3) (av_operation_digest av) = None
         \<and> lua_hash srv' (keys ! 0) = hset (head_values av cn) (lua_hash srv (keys ! 0))
         \<and> lua_hash srv' (keys ! 1) = lua_hash srv (keys ! 1) @ [(av_transition_id av, envelope_of L (av_index_json av))]
         \<and> lua_hash srv' (keys ! 2) = lua_hash srv (keys ! 2) @ [(av_operation_digest av, envelope_of L (av_receipt_json av))]
         \<and> lua_hash srv' (keys ! 3) = lua_hash srv (keys ! 3) @ [(av_operation_digest av, envelope_of L (av_record_json av))]
         \<and> srv_streams srv' (keys ! 4) = srv_streams srv (keys ! 4) @ [log_values av cn]
         \<and> srv_streams srv' (keys ! 5) = srv_streams srv (keys ! 5) @ [outbox_values av cn]
         \<and> (owner \<longrightarrow> av_operation_type av = ''TASK_ADMIT'' \<and> av_owner_mode av = ''1'')
         \<and> (\<forall>k. k \<notin> set (take 6 keys) \<and> (owner \<longrightarrow> k \<noteq> owner_key keys \<and> k \<noteq> header_key keys)
              \<longrightarrow> srv_view srv' k = srv_view srv k \<and> srv_streams srv' k = srv_streams srv k))
    else \<forall>k. k \<noteq> keys ! 6 \<and> k \<noteq> keys ! 7 \<longrightarrow> srv_view srv' k = srv_view srv k \<and> srv_streams srv' k = srv_streams srv k"
  by (rule commit_script_effect [OF assms])

section \<open>The history that runs leave behind\<close>

text \<open>
  A step runs the commit script for one aggregate, with any arguments and any further keys, or the
  conflict script for it.
\<close>

inductive commit_step :: "lua_lib \<Rightarrow> cjson_encoder \<Rightarrow> json_decoder \<Rightarrow> keyspace \<Rightarrow> server \<Rightarrow> server \<Rightarrow> bool" for L C D ks where
  commit_run: "commit_script L (commit_keys ks @ rest) argv s = (t, ans) \<Longrightarrow> distinct (commit_keys ks @ rest)
    \<Longrightarrow> commit_step L C D ks s t"
| conflict_run: "conflict_record_script C D (conflict_index_key ks) (conflicts_key ks) a s = (t, ans)
    \<Longrightarrow> commit_step L C D ks s t"

definition entry_field :: "string \<Rightarrow> (string \<times> string) list \<Rightarrow> string" where
  "entry_field k e = or_empty (map_of e k)"

definition log_of :: "keyspace \<Rightarrow> server \<Rightarrow> (string \<times> string) list list" where
  "log_of ks s = srv_streams s (transition_log_key ks)"

definition outbox_of :: "keyspace \<Rightarrow> server \<Rightarrow> (string \<times> string) list list" where
  "outbox_of ks s = srv_streams s (outbox_key ks)"

text \<open>
  The five collections of an aggregate describe one history: revision \<open>n\<close> in the n-th entry of the log,
  its transition id in the indexes and in the outbox, its operation digest among receipts and records,
  no id and no digest twice, and the head at the last entry.
\<close>

definition aggregate_inv :: "keyspace \<Rightarrow> server \<Rightarrow> bool" where
  "aggregate_inv ks s \<longleftrightarrow>
     map (entry_field ''aggregate_revision'') (log_of ks s) = map (\<lambda>n. lua_tostring (int n)) [1..<Suc (length (log_of ks s))]
     \<and> map (entry_field ''transition_id'') (log_of ks s) = map fst (lua_hash s (transition_indexes_key ks))
     \<and> map (entry_field ''transition_id'') (outbox_of ks s) = map fst (lua_hash s (transition_indexes_key ks))
     \<and> map (entry_field ''operation_digest'') (log_of ks s) = map fst (lua_hash s (receipts_key ks))
     \<and> map fst (lua_hash s (operation_records_key ks)) = map fst (lua_hash s (receipts_key ks))
     \<and> distinct (map fst (lua_hash s (transition_indexes_key ks)))
     \<and> distinct (map fst (lua_hash s (receipts_key ks)))
     \<and> (if log_of ks s = [] then srv_view s (aggregate_key ks) = None
        else hget s (aggregate_key ks) ''revision'' = Some (lua_tostring (int (length (log_of ks s))))
          \<and> hget s (aggregate_key ks) ''transition_id'' = Some (entry_field ''transition_id'' (last (log_of ks s))))"

definition history_kept :: "keyspace \<Rightarrow> server \<Rightarrow> server \<Rightarrow> bool" where
  "history_kept ks s t \<longleftrightarrow>
     prefix (log_of ks s) (log_of ks t) \<and> prefix (outbox_of ks s) (outbox_of ks t)
     \<and> (\<forall>k \<in> {transition_indexes_key ks, receipts_key ks, operation_records_key ks}. prefix (lua_hash s k) (lua_hash t k))"

definition aggregate_absent :: "keyspace \<Rightarrow> server \<Rightarrow> bool" where
  "aggregate_absent ks s \<longleftrightarrow> (\<forall>k \<in> set (take 6 (commit_keys ks)). srv_view s k = None \<and> srv_streams s k = [])"

lemma commit_keys_index:
  "(commit_keys ks @ rest) ! 0 = aggregate_key ks" "(commit_keys ks @ rest) ! 1 = transition_indexes_key ks"
  "(commit_keys ks @ rest) ! 2 = receipts_key ks" "(commit_keys ks @ rest) ! 3 = operation_records_key ks"
  "(commit_keys ks @ rest) ! 4 = transition_log_key ks" "(commit_keys ks @ rest) ! 5 = outbox_key ks"
  "(commit_keys ks @ rest) ! 6 = conflict_index_key ks" "(commit_keys ks @ rest) ! 7 = conflicts_key ks"
  "length (commit_keys ks) = 8"
  by (simp_all add: commit_keys_def)

lemma head_values_fields:
  "map_of (hset (head_values av cn) h) ''revision'' = Some (lua_tostring (cn_next cn))"
  "map_of (hset (head_values av cn) h) ''transition_id'' = Some (av_transition_id av)"
  by (simp_all add: hset_def head_values_def map_of_update)

lemma entry_values:
  "entry_field ''aggregate_revision'' (log_values av cn) = lua_tostring (cn_next cn)"
  "entry_field ''transition_id'' (log_values av cn) = av_transition_id av"
  "entry_field ''operation_digest'' (log_values av cn) = av_operation_digest av"
  "entry_field ''transition_id'' (outbox_values av cn) = av_transition_id av"
  by (simp_all add: entry_field_def log_values_def outbox_values_def or_empty_def)

text \<open>A step leaves the aggregate as it is, or commits one revision to it.\<close>

lemma commit_step_cases:
  assumes "commit_step L C D ks s t"
  obtains (same) "\<forall>k \<in> set (take 6 (commit_keys ks)). srv_view t k = srv_view s k \<and> srv_streams t k = srv_streams s k"
  | (committed) av cn where "head_revision s (commit_keys ks) (cn_expected cn)" "cn_next cn = cn_expected cn + 1"
      "hget s (transition_indexes_key ks) (av_transition_id av) = None" "hget s (receipts_key ks) (av_operation_digest av) = None"
      "lua_hash t (aggregate_key ks) = hset (head_values av cn) (lua_hash s (aggregate_key ks))"
      "lua_hash t (transition_indexes_key ks) = lua_hash s (transition_indexes_key ks) @ [(av_transition_id av, envelope_of L (av_index_json av))]"
      "lua_hash t (receipts_key ks) = lua_hash s (receipts_key ks) @ [(av_operation_digest av, envelope_of L (av_receipt_json av))]"
      "lua_hash t (operation_records_key ks) = lua_hash s (operation_records_key ks) @ [(av_operation_digest av, envelope_of L (av_record_json av))]"
      "log_of ks t = log_of ks s @ [log_values av cn]" "outbox_of ks t = outbox_of ks s @ [outbox_values av cn]"
  using assms
proof cases
  case (commit_run rest argv ans)
  have dist: "\<And>k. k \<in> set (take 6 (commit_keys ks)) \<Longrightarrow> k \<noteq> conflict_index_key ks \<and> k \<noteq> conflicts_key ks"
    using commit_run(2) by (auto simp: commit_keys_def)
  have hr: "head_revision s (commit_keys ks @ rest) n = head_revision s (commit_keys ks) n" for n
    by (simp add: head_revision_def nth_append commit_keys_index(9))
  have "8 \<le> length (commit_keys ks @ rest)" by (simp add: commit_keys_index(9))
  note e = commit_script_effect [OF commit_run(1,2) this, unfolded commit_keys_index]
  show thesis
  proof (cases "is_committed ans")
    case True
    from e [unfolded Let_def if_P [OF True]] obtain cn where
      "head_revision s (commit_keys ks @ rest) (cn_expected cn)" "cn_next cn = cn_expected cn + 1"
      "hget s (transition_indexes_key ks) (av_transition_id (read_argv argv)) = None"
      "hget s (receipts_key ks) (av_operation_digest (read_argv argv)) = None"
      "lua_hash t (aggregate_key ks) = hset (head_values (read_argv argv) cn) (lua_hash s (aggregate_key ks))"
      "lua_hash t (transition_indexes_key ks) = lua_hash s (transition_indexes_key ks)
         @ [(av_transition_id (read_argv argv), envelope_of L (av_index_json (read_argv argv)))]"
      "lua_hash t (receipts_key ks) = lua_hash s (receipts_key ks)
         @ [(av_operation_digest (read_argv argv), envelope_of L (av_receipt_json (read_argv argv)))]"
      "lua_hash t (operation_records_key ks) = lua_hash s (operation_records_key ks)
         @ [(av_operation_digest (read_argv argv), envelope_of L (av_record_json (read_argv argv)))]"
      "srv_streams t (transition_log_key ks) = srv_streams s (transition_log_key ks) @ [log_values (read_argv argv) cn]"
      "srv_streams t (outbox_key ks) = srv_streams s (outbox_key ks) @ [outbox_values (read_argv argv) cn]"
      by blast
    then show thesis unfolding hr by (intro that(2)) (simp_all add: log_of_def outbox_of_def)
  next
    case False
    with e dist show thesis by (intro that(1)) auto
  qed
next
  case (conflict_run a ans)
  have "k \<noteq> conflict_index_key ks \<and> k \<noteq> conflicts_key ks" if "k \<in> set (take 6 (commit_keys ks))" for k
    using that by (auto simp: commit_keys_def key_defs conflict_index_key_def conflicts_key_def member_key_eq)
  with conflict_run show thesis
    by (intro that(1)) (auto simp: conflict_record_script_def Let_def split: sum.split_asm option.split_asm)
qed

lemma same_aggregate:
  assumes "\<forall>k \<in> set (take 6 (commit_keys ks)). srv_view t k = srv_view s k \<and> srv_streams t k = srv_streams s k"
  shows "log_of ks t = log_of ks s" "outbox_of ks t = outbox_of ks s"
    "lua_hash t (transition_indexes_key ks) = lua_hash s (transition_indexes_key ks)"
    "lua_hash t (receipts_key ks) = lua_hash s (receipts_key ks)"
    "lua_hash t (operation_records_key ks) = lua_hash s (operation_records_key ks)"
    "srv_view t (aggregate_key ks) = srv_view s (aggregate_key ks)"
    "lua_hash t (aggregate_key ks) = lua_hash s (aggregate_key ks)"
  using assms by (simp_all add: log_of_def outbox_of_def lua_hash_def commit_keys_def)

lemma prefix_trans_pair: "history_kept ks s t \<Longrightarrow> history_kept ks t u \<Longrightarrow> history_kept ks s u"
  by (auto simp: history_kept_def)

lemma step_keeps_history:
  assumes "commit_step L C D ks s t"
  shows "history_kept ks s t"
  using assms
proof (cases rule: commit_step_cases)
  case same
  show ?thesis by (simp add: history_kept_def same_aggregate [OF same])
next
  case (committed av cn)
  have "prefix (lua_hash s k) (lua_hash t k)" if "k \<in> {transition_indexes_key ks, receipts_key ks, operation_records_key ks}" for k
    using that committed(6-8) by (elim insertE) simp_all
  then show ?thesis unfolding history_kept_def committed(9,10) by simp
qed

lemma aggregate_inv_absent: "aggregate_absent ks s \<Longrightarrow> aggregate_inv ks s"
  by (simp add: aggregate_absent_def aggregate_inv_def log_of_def outbox_of_def lua_hash_def commit_keys_def)

lemma aggregate_inv_step:
  assumes inv: "aggregate_inv ks s" and "commit_step L C D ks s t"
  shows "aggregate_inv ks t"
  using assms(2)
proof (cases rule: commit_step_cases)
  case same
  from inv show ?thesis unfolding aggregate_inv_def hget_def same_aggregate [OF same] .
next
  case (committed av cn)
  have n: "cn_expected cn = int (length (log_of ks s))"
  proof (cases "log_of ks s = []")
    case True
    with inv have "srv_view s (aggregate_key ks) = None" by (simp add: aggregate_inv_def)
    with committed(1) True show ?thesis by (simp add: head_revision_def commit_keys_def)
  next
    case False
    with inv have "hget s (aggregate_key ks) ''revision'' \<noteq> None" by (simp add: aggregate_inv_def)
    then have "srv_view s (aggregate_key ks) \<noteq> None"
      by (cases "srv_view s (aggregate_key ks)") (simp_all add: hget_def lua_hash_def)
    with committed(1) show ?thesis by (simp add: head_revision_def commit_keys_def log_of_def)
  qed
  have new: "av_transition_id av \<notin> fst ` set (lua_hash s (transition_indexes_key ks))"
    "av_operation_digest av \<notin> fst ` set (lua_hash s (receipts_key ks))"
    using committed(3,4) by (simp_all add: hget_def map_of_eq_None_iff)
  show ?thesis
    using inv new committed(2) n
    unfolding aggregate_inv_def hget_def committed(5-10)
    by (simp add: entry_values head_values_fields add.commute)
qed

interpretation script: monotone_system "aggregate_absent ks" "commit_step L C D ks" "aggregate_inv ks" "history_kept ks"
  for L C D ks
proof unfold_locales
  show "aggregate_absent ks s \<Longrightarrow> aggregate_inv ks s" for s by (rule aggregate_inv_absent)
  show "aggregate_inv ks s \<Longrightarrow> commit_step L C D ks s t \<Longrightarrow> aggregate_inv ks t" for s t by (rule aggregate_inv_step)
  show "history_kept ks s s" for s by (simp add: history_kept_def)
  show "history_kept ks s t \<Longrightarrow> history_kept ks t u \<Longrightarrow> history_kept ks s u" for s t u by (rule prefix_trans_pair)
  show "aggregate_inv ks s \<Longrightarrow> commit_step L C D ks s t \<Longrightarrow> history_kept ks s t" for s t by (rule step_keeps_history)
qed

text \<open>
  C4. Whatever scripts run for an aggregate, with whatever arguments and in whatever order, the server
  holds one history of it: the log numbers its entries 1, 2, 3, ..., the head stands at the last one,
  transition ids in log, indexes and outbox and operation digests in log, receipts and records are the
  same lists without repetition, and what was written once stays as it was written, in its place.
\<close>

theorem one_history_per_aggregate:
  assumes "aggregate_absent ks s0" and "(commit_step L C D ks)\<^sup>*\<^sup>* s0 s" and "(commit_step L C D ks)\<^sup>*\<^sup>* s t"
  shows "aggregate_inv ks s \<and> history_kept ks s t"
  using script.reachable_inv [OF assms(1,2)] script.steps_le [OF assms(3)] by blast

end
