(* ===== verification/CommitRefinement.thy ===== *)
theory CommitRefinement
  imports CommitEffects
begin

text \<open>
  The store refines the journal: \<open>commit\<close> and the run of the Lua script that it makes take the stored
  form of a journal to the stored form of the journal with one more record. The first half shows that
  every check of the script passes on what the Python side stores and sends, for an operation whose
  guards read no other aggregate; the second half compares the writes. The last section runs the
  script on a concrete commit.
\<close>

section \<open>The Lua runtime and the encoders of the Python side\<close>

definition lua_envelope :: "lua_lib \<Rightarrow> envelope_encoder" where
  "lua_envelope L p d = lb_encode L (JObj [(''payload'', JStr p), (''storage_sha1'', JStr d)])"

text \<open>
  \<open>cjson.decode\<close> reads a text as \<open>json.loads\<close> does, for plain values nested less than 1000 levels, and
  an encoded envelope reads back in both languages.
\<close>

definition lua_reads :: "lua_lib \<Rightarrow> bool" where
  "lua_reads L \<longleftrightarrow>
     cjson_reads (lua_envelope L)
     \<and> (\<forall>b j. json_plain j \<longrightarrow> json_depth j < 1000 \<longrightarrow> json_loads b = Inr (py_of_json (sort_json j))
          \<longrightarrow> lb_decode L b = Some (sort_json j))
     \<and> (\<forall>p d. is_ascii p \<longrightarrow> is_ascii d \<longrightarrow>
          (\<exists>kvs. lb_decode L (lua_envelope L p d) = Some (JObj kvs) \<and> fst ` set kvs = {''payload'', ''storage_sha1''}
             \<and> map_of kvs ''payload'' = Some (JStr p) \<and> map_of kvs ''storage_sha1'' = Some (JStr d)))"

lemma storage_envelope_lua: "storage_envelope (lua_envelope L) b = envelope_of L b"
  by (simp add: storage_envelope_def lua_envelope_def envelope_of_def)

lemma sorted_member:
  assumes "distinct (map fst kvs)"
  shows "lua_field (sort_json (JObj kvs)) k = map_option sort_json (map_of kvs k)"
proof -
  have "map_of (map (\<lambda>kv. (fst kv, sort_json (snd kv))) xs) k = map_option sort_json (map_of xs k)" for xs
    by (induction xs) auto
  with assms show ?thesis by (simp add: map_of_sort_key comp_def)
qed

lemma sorted_keys:
  assumes "distinct (map fst kvs)"
  shows "exact_keys (Some (sort_json (JObj kvs))) ks n \<longleftrightarrow> fst ` set kvs \<subseteq> set ks \<and> length kvs = n"
proof -
  let ?ys = "map (\<lambda>kv. (fst kv, sort_json (snd kv))) kvs"
  have "distinct (map fst ?ys)" using assms by (simp add: comp_def)
  then have "distinct (map fst (sort_key fst ?ys))" by (simp only: distinct_map distinct_sort set_sort)
  then have "length (remdups (map fst (sort_key fst ?ys))) = length kvs" by (simp only: distinct_remdups_id length_map length_sort)
  moreover have "fst ` set (sort_key fst ?ys) = fst ` set kvs" by (simp only: set_sort set_map image_image fst_conv)
  then have "list_all (\<lambda>kv. fst kv \<in> set ks) (sort_key fst ?ys) \<longleftrightarrow> fst ` set kvs \<subseteq> set ks"
    by (simp only: list_all_iff image_subset_iff [symmetric])
  ultimately show ?thesis by (simp add: exact_keys_def)
qed

lemma open_stored:
  assumes L: "lua_reads L" and "json_plain j" and "json_depth j < 1000" and "is_table (sort_json j)"
    and "json_loads b = Inr (py_of_json (sort_json j))" and "is_ascii b"
  shows "decode_table L b = Some (sort_json j)" "open_envelope L (Some (envelope_of L b)) = Some (b, sort_json j)"
proof -
  show dec: "decode_table L b = Some (sort_json j)" using assms by (simp add: lua_reads_def decode_table_def)
  have "is_ascii (sha1_hexdigest b)"
    using sha1_hexdigest_re [of b] by (simp add: sha1_re_def lower_hex_ascii)
  with L assms(6) obtain kvs where kvs: "lb_decode L (lua_envelope L b (sha1_hexdigest b)) = Some (JObj kvs)"
    "fst ` set kvs = {''payload'', ''storage_sha1''}"
    "map_of kvs ''payload'' = Some (JStr b)" "map_of kvs ''storage_sha1'' = Some (JStr (sha1_hexdigest b))"
    unfolding lua_reads_def by blast
  have "length (remdups (map fst kvs)) = card (set (map fst kvs))" by (rule length_remdups_card_conv)
  also have "\<dots> = 2" using kvs(2) by simp
  finally have "exact_keys (Some (JObj kvs)) envelope_keys 2"
    using kvs(2) by (auto simp: exact_keys_def list_all_iff envelope_keys_def)
  with kvs dec show "open_envelope L (Some (envelope_of L b)) = Some (b, sort_json j)"
    by (simp add: open_envelope_def envelope_of_def lua_envelope_def decode_table_def)
qed

text \<open>The decoder of the head check reads the same texts.\<close>

lemma object_fields_decode:
  assumes "lua_reads L"
  shows "cjson_decodes (object_fields L) (lua_envelope L)"
  unfolding cjson_decodes_def
proof (intro conjI allI impI)
  fix p d assume "is_ascii p" "is_ascii d"
  then obtain kvs where kvs: "lb_decode L (lua_envelope L p d) = Some (JObj kvs)"
    "map_of kvs ''payload'' = Some (JStr p)" "map_of kvs ''storage_sha1'' = Some (JStr d)"
    using assms unfolding lua_reads_def by blast
  have "map_of (map (\<lambda>kv. (fst kv, py_of_json (snd kv))) xs) k = map_option py_of_json (map_of xs k)"
    for xs :: "(string \<times> json) list" and k
    by (induction xs) auto
  then show "\<exists>env. object_fields L (lua_envelope L p d) = Some env \<and> map_of env ''payload'' = Some (PStr p)
      \<and> map_of env ''storage_sha1'' = Some (PStr d)"
    using kvs by (simp add: object_fields_def decode_table_def)
next
  fix b j kvs assume a: "json_plain j" "json_depth j < 1000" "sort_json j = JObj kvs" "json_loads b = Inr (py_of_json (sort_json j))"
  then have "lb_decode L b = Some (JObj kvs)" using assms unfolding lua_reads_def by metis
  then show "object_fields L b = Some (map (\<lambda>kv. (fst kv, py_of_json (snd kv))) kvs)"
    by (simp add: object_fields_def decode_table_def)
qed

section \<open>What the script reads of a stored record\<close>

lemma nullable_jscalar: "v = PNone \<or> (\<exists>s. v = PStr s) \<Longrightarrow> nullable_string_ok (Some (jscalar v))"
  by (auto simp: nullable_string_ok_def jscalar_def)

lemma validated_texts:
  assumes "nfc_laws E" and "validate_record E r = Inr ()"
  obtains op w where "rec_operation_type r = PStr (operation_value op)" "rec_writer_id r = PStr w" "w \<noteq> []"
    "\<And>v. v \<in> {rec_previous_state r, rec_next_state r, rec_causation_id r, rec_correlation_id r} \<Longrightarrow> v = PNone \<or> (\<exists>s. v = PStr s)"
proof -
  have "nfc_normalize E [] = []" by (rule nfc_ascii [OF assms(1)]) (simp add: is_ascii_def)
  with assms(2) have "\<exists>op. rec_operation_type r = PStr (operation_value op)" "\<exists>w. rec_writer_id r = PStr w \<and> w \<noteq> []"
    "\<forall>v \<in> {rec_previous_state r, rec_next_state r, rec_causation_id r, rec_correlation_id r}. v = PNone \<or> (\<exists>s. v = PStr s)"
    unfolding validate_record_def by (auto simp: rbind_Inr_iff result_simps coerce_operation_Inr_iff)
  then show thesis using that by blast
qed

text \<open>The members of a stored record, its identity and its receipt and index, as Lua sees them.\<close>

lemma record_members:
  assumes "writable E r"
  shows "lua_field (sort_json (stored_json r)) k
    = (case stored_json r of JObj kvs \<Rightarrow> map_option sort_json (map_of kvs k) | _ \<Rightarrow> None)"
proof -
  obtain kvs where "stored_json r = JObj kvs" "distinct (map fst kvs)" using stored_keys_distinct [OF assms] by blast
  then show ?thesis using sorted_member [of kvs k] by simp
qed

lemma operation_value_nonempty: "operation_value op \<noteq> []"
  by (cases op) simp_all

lemma aggregate_value_cases: "aggregate_value ty = (if ty = TASK then ''task'' else ''run'')"
  by (cases ty) simp_all

lemma all_of_True: "all_of cs = Inr True \<longleftrightarrow> list_all (\<lambda>c. c = Inr True) cs"
  by (induction cs) (auto simp: rbind_Inr_iff)

lemma exact_JInt: "exact_nonnegative_integer (Some (JInt n)) = Inr (safe_nonneg n)"
  by (simp add: exact_nonnegative_integer_def)

text \<open>The values of the members, for a validated record.\<close>

definition member_values :: "ctr \<Rightarrow> (string \<times> json) list" where
  "member_values r =
     [(''schema_version'', JStr ''ctr.v1''), (''transition_id'', JStr (tid_of r)),
      (''aggregate_type'', JStr (aggregate_value (id_aggregate_type (rec_identity r)))),
      (''canonical_aggregate_identity'', sort_json (identity_json (rec_identity r))),
      (''canonical_aggregate_identity_sha256'', JStr (identity_sha256 (rec_identity r))),
      (''from_revision'', JInt (int_of (rec_to_revision r) - 1)), (''to_revision'', JInt (int_of (rec_to_revision r))),
      (''operation_type'', JStr (str_of (rec_operation_type r))), (''operation_id'', JStr (str_of (rec_operation_id r))),
      (''canonical_command_hash'', JStr (str_of (rec_command_hash r))),
      (''canonical_record_hash'', JStr (str_of (rec_record_hash r))),
      (''previous_state'', jscalar (rec_previous_state r)), (''next_state'', jscalar (rec_next_state r)),
      (''causation_id'', jscalar (rec_causation_id r)), (''correlation_id'', jscalar (rec_correlation_id r)),
      (''writer_id'', JStr (str_of (rec_writer_id r))), (''committed_at_ms'', JInt (int_of (rec_committed_at_ms r))),
      (''durable_projection_intents'', sort_json (JArr (rec_projection_intents r)))]"

lemma validated_values:
  assumes "nfc_laws E" and "validate_record E r = Inr ()"
  shows "rec_schema_version r = PStr ''ctr.v1''" "rec_transition_id r = PStr (tid_of r)" "tid_of r \<noteq> []"
    "rec_identity_sha256 r = PStr (identity_sha256 (rec_identity r))"
    "rec_from_revision r = PInt (int_of (rec_to_revision r) - 1)" "rec_to_revision r = PInt (int_of (rec_to_revision r))"
    "safe_nonneg (int_of (rec_to_revision r) - 1)" "safe_nonneg (int_of (rec_to_revision r))" "1 \<le> int_of (rec_to_revision r)"
    "rec_operation_type r = PStr (str_of (rec_operation_type r))" "str_of (rec_operation_type r) \<noteq> []"
    "rec_operation_id r = PStr (str_of (rec_operation_id r))" "str_of (rec_operation_id r) \<noteq> []"
    "rec_command_hash r = PStr (str_of (rec_command_hash r))" "sha256_re (str_of (rec_command_hash r))"
    "rec_record_hash r = PStr (str_of (rec_record_hash r))" "sha256_re (str_of (rec_record_hash r))"
    "rec_writer_id r = PStr (str_of (rec_writer_id r))" "str_of (rec_writer_id r) \<noteq> []"
    "rec_committed_at_ms r = PInt (int_of (rec_committed_at_ms r))" "safe_nonneg (int_of (rec_committed_at_ms r))"
proof -
  from assms(2) obtain f where f: "rec_from_revision r = PInt f" "rec_to_revision r = PInt (f + 1)" "0 \<le> f" "f + 1 \<le> max_safe_integer"
    and schema: "rec_schema_version r = PStr ''ctr.v1''" by (rule validate_record_okD) blast
  from schema show "rec_schema_version r = PStr ''ctr.v1''" .
  from f show "rec_from_revision r = PInt (int_of (rec_to_revision r) - 1)" "rec_to_revision r = PInt (int_of (rec_to_revision r))"
    "safe_nonneg (int_of (rec_to_revision r) - 1)" "safe_nonneg (int_of (rec_to_revision r))" "1 \<le> int_of (rec_to_revision r)"
    by (simp_all add: safe_nonneg_def max_safe_integer_def)
  obtain op w where "rec_operation_type r = PStr (operation_value op)" "rec_writer_id r = PStr w" "w \<noteq> []"
    by (rule validated_texts [OF assms])
  then show "rec_operation_type r = PStr (str_of (rec_operation_type r))" "str_of (rec_operation_type r) \<noteq> []"
    "rec_writer_id r = PStr (str_of (rec_writer_id r))" "str_of (rec_writer_id r) \<noteq> []"
    by (simp_all add: operation_value_nonempty)
  show "rec_transition_id r = PStr (tid_of r)" "tid_of r \<noteq> []" "rec_identity_sha256 r = PStr (identity_sha256 (rec_identity r))"
    "rec_operation_id r = PStr (str_of (rec_operation_id r))" "str_of (rec_operation_id r) \<noteq> []"
    "rec_command_hash r = PStr (str_of (rec_command_hash r))" "sha256_re (str_of (rec_command_hash r))"
    "rec_record_hash r = PStr (str_of (rec_record_hash r))" "sha256_re (str_of (rec_record_hash r))"
    "rec_committed_at_ms r = PInt (int_of (rec_committed_at_ms r))" "safe_nonneg (int_of (rec_committed_at_ms r))"
    by (rule validated_head_parts [OF assms]; simp add: tid_of_def safe_nonneg_def max_safe_integer_def)+
qed

lemma jscalar_values [simp]: "jscalar (PStr s) = JStr s" "jscalar (PInt n) = JInt n" "jscalar PNone = JNull"
  by (simp_all add: jscalar_def)

lemma stored_member_values:
  assumes "nfc_laws E" and "writable E r" and "map_of (member_values r) k = Some v"
  shows "lua_field (sort_json (stored_json r)) k = Some v"
proof -
  have val: "validate_record E r = Inr ()" using assms(2) by (simp add: writable_def)
  note v = validated_values [OF assms(1) val]
  have j: "jscalar (rec_schema_version r) = JStr ''ctr.v1''" "jscalar (rec_transition_id r) = JStr (tid_of r)"
    "jscalar (rec_identity_sha256 r) = JStr (identity_sha256 (rec_identity r))"
    "jscalar (rec_from_revision r) = JInt (int_of (rec_to_revision r) - 1)"
    "jscalar (rec_to_revision r) = JInt (int_of (rec_to_revision r))"
    "jscalar (rec_operation_type r) = JStr (str_of (rec_operation_type r))"
    "jscalar (rec_operation_id r) = JStr (str_of (rec_operation_id r))"
    "jscalar (rec_command_hash r) = JStr (str_of (rec_command_hash r))"
    "jscalar (rec_record_hash r) = JStr (str_of (rec_record_hash r))"
    "jscalar (rec_writer_id r) = JStr (str_of (rec_writer_id r))"
    "jscalar (rec_committed_at_ms r) = JInt (int_of (rec_committed_at_ms r))"
    by (subst v, simp)+
  show ?thesis
    using assms(3) unfolding record_members [OF assms(2)]
    by (auto simp: member_values_def stored_json_def j split: if_splits)
qed

text \<open>The identity inside a stored record.\<close>

lemma identity_members:
  "lua_field (sort_json (identity_json i)) ''aggregate_type'' = Some (JStr (aggregate_value (id_aggregate_type i)))"
  "lua_field (sort_json (identity_json i)) ''run_id'' = Some (JStr (id_run_id i))"
  "lua_field (sort_json (identity_json i)) ''task_id'' = Some (opt_json (id_task_id i))"
  "exact_keys (Some (sort_json (identity_json i))) identity_keys 3"
proof -
  let ?kvs = "[(''aggregate_type'', JStr (aggregate_value (id_aggregate_type i))),
           (''run_id'', JStr (id_run_id i)), (''task_id'', opt_json (id_task_id i))]"
  have d: "distinct (map fst ?kvs)" by simp
  have o: "sort_json (opt_json t) = opt_json t" for t by (simp add: opt_json_def split: option.split)
  show "lua_field (sort_json (identity_json i)) ''aggregate_type'' = Some (JStr (aggregate_value (id_aggregate_type i)))"
    "lua_field (sort_json (identity_json i)) ''run_id'' = Some (JStr (id_run_id i))"
    "lua_field (sort_json (identity_json i)) ''task_id'' = Some (opt_json (id_task_id i))"
    unfolding identity_json_def sorted_member [OF d] by (simp_all add: o)
  show "exact_keys (Some (sort_json (identity_json i))) identity_keys 3"
    unfolding identity_json_def sorted_keys [OF d] by (simp add: identity_keys_def)
qed

lemma stored_members:
  assumes "nfc_laws E" and "writable E r"
  shows "lua_field (sort_json (stored_json r)) ''schema_version'' = Some (JStr ''ctr.v1'')"
    "lua_field (sort_json (stored_json r)) ''transition_id'' = Some (JStr (tid_of r))"
    "lua_field (sort_json (stored_json r)) ''aggregate_type'' = Some (JStr (aggregate_value (id_aggregate_type (rec_identity r))))"
    "lua_field (sort_json (stored_json r)) ''canonical_aggregate_identity'' = Some (sort_json (identity_json (rec_identity r)))"
    "lua_field (sort_json (stored_json r)) ''canonical_aggregate_identity_sha256'' = Some (JStr (identity_sha256 (rec_identity r)))"
    "lua_field (sort_json (stored_json r)) ''from_revision'' = Some (JInt (int_of (rec_to_revision r) - 1))"
    "lua_field (sort_json (stored_json r)) ''to_revision'' = Some (JInt (int_of (rec_to_revision r)))"
    "lua_field (sort_json (stored_json r)) ''operation_type'' = Some (JStr (str_of (rec_operation_type r)))"
    "lua_field (sort_json (stored_json r)) ''operation_id'' = Some (JStr (str_of (rec_operation_id r)))"
    "lua_field (sort_json (stored_json r)) ''canonical_command_hash'' = Some (JStr (str_of (rec_command_hash r)))"
    "lua_field (sort_json (stored_json r)) ''canonical_record_hash'' = Some (JStr (str_of (rec_record_hash r)))"
    "lua_field (sort_json (stored_json r)) ''previous_state'' = Some (jscalar (rec_previous_state r))"
    "lua_field (sort_json (stored_json r)) ''next_state'' = Some (jscalar (rec_next_state r))"
    "lua_field (sort_json (stored_json r)) ''causation_id'' = Some (jscalar (rec_causation_id r))"
    "lua_field (sort_json (stored_json r)) ''correlation_id'' = Some (jscalar (rec_correlation_id r))"
    "lua_field (sort_json (stored_json r)) ''writer_id'' = Some (JStr (str_of (rec_writer_id r)))"
    "lua_field (sort_json (stored_json r)) ''committed_at_ms'' = Some (JInt (int_of (rec_committed_at_ms r)))"
    "lua_field (sort_json (stored_json r)) ''durable_projection_intents'' = Some (sort_json (JArr (rec_projection_intents r)))"
  by (rule stored_member_values [OF assms]; simp add: member_values_def)+

lemma record_keys_stored:
  assumes "writable E r"
  shows "exact_keys (Some (sort_json (stored_json r))) record_keys 20"
proof -
  obtain kvs where kvs: "stored_json r = JObj kvs" "distinct (map fst kvs)" using stored_keys_distinct [OF assms] by blast
  then have "map fst kvs = [''schema_version'', ''transition_id'', ''aggregate_type'', ''canonical_aggregate_identity'',
      ''canonical_aggregate_identity_sha256'', ''from_revision'', ''to_revision'', ''operation_type'', ''operation_id'',
      ''canonical_command_hash'', ''previous_state'', ''next_state'', ''authoritative_metadata_changes'', ''child_effects'',
      ''causation_id'', ''correlation_id'', ''writer_id'', ''committed_at_ms'', ''durable_projection_intents'',
      ''canonical_record_hash'']" by (auto simp: stored_json_def)
  moreover have "length kvs = length (map fst kvs)" by simp
  ultimately have "fst ` set kvs \<subseteq> set record_keys \<and> length kvs = 20"
    unfolding set_map [symmetric] by (simp add: record_keys_def)
  then show ?thesis unfolding kvs(1) sorted_keys [OF kvs(2)] .
qed

lemma identity_member_stored:
  assumes "nfc_laws E" and "writable E r"
  shows "identity_member (sort_json (stored_json r)) ''aggregate_type'' = Some (JStr (aggregate_value (id_aggregate_type (rec_identity r))))"
    "identity_member (sort_json (stored_json r)) ''run_id'' = Some (JStr (id_run_id (rec_identity r)))"
    "identity_member (sort_json (stored_json r)) ''task_id'' = Some (opt_json (id_task_id (rec_identity r)))"
  unfolding identity_member_def stored_members [OF assms] option.case by (rule identity_members)+

lemma checks_True:
  "nonempty_string (Some (JStr s)) = (s \<noteq> [])" "sha256_hex_ok (Some (JStr s)) = sha256_re s"
  "consecutive (Some (JInt m)) (Some (JInt n)) = (n = m + 1)"
  by (simp_all add: nonempty_string_def sha256_hex_ok_def consecutive_def)

lemma record_structure_stored:
  assumes "nfc_laws E" and "writable E r"
  shows "validate_record_structure (sort_json (stored_json r)) = Inr True"
proof -
  let ?v = "sort_json (stored_json r)" and ?i = "rec_identity r"
  have val: "validate_record E r = Inr ()" and wf: "identity_wf E ?i" using assms(2) by (simp_all add: writable_def)
  note v = validated_values [OF assms(1) val]
  have null: "nullable_string_ok (Some (jscalar v))"
    if "v \<in> {rec_previous_state r, rec_next_state r, rec_causation_id r, rec_correlation_id r}" for v
    by (rule validated_texts [OF assms(1) val]) (rule nullable_jscalar, use that in blast)
  have task: "(if Some (JStr (aggregate_value (id_aggregate_type ?i))) = Some (JStr ''task'') then nonempty_string (Some (opt_json (id_task_id ?i)))
      else Some (opt_json (id_task_id ?i)) = Some JNull)"
    using wf by (auto simp: identity_wf_def nonempty_string_def opt_json_def aggregate_value_cases split: option.splits)
  have ty: "Some (JStr (aggregate_value (id_aggregate_type ?i))) \<in> {Some (JStr ''task''), Some (JStr ''run'')}"
    by (simp add: aggregate_value_cases)
  have run: "id_run_id ?i \<noteq> []" using wf by (simp add: identity_wf_def)
  have seq: "is_table (sort_json (JArr (rec_projection_intents r)))" by simp
  show ?thesis
    unfolding validate_record_structure_def all_of_True stored_members [OF assms] identity_member_stored [OF assms]
      exact_JInt checks_True list.pred_inject
    using ty run v(3,7,8,11,13,15,17,19,21) record_keys_stored [OF assms(2)] identity_members(4)
    by (simp only: null eqTrueI [OF task] eqTrueI [OF seq] list.pred_inject insertI1 insertI2 identity_sha256_re option.case is_table.simps simp_thms diff_add_cancel)
qed

text \<open>Receipts and indexes.\<close>

definition receipt_values :: "ctr \<Rightarrow> (string \<times> json) list" where
  "receipt_values r =
     [(''operation_id'', JStr (str_of (rec_operation_id r))), (''canonical_command_hash'', JStr (str_of (rec_command_hash r))),
      (''canonical_record_hash'', JStr (str_of (rec_record_hash r))), (''transition_id'', JStr (tid_of r)),
      (''aggregate_revision'', JInt (int_of (rec_to_revision r))), (''operation_type'', JStr (str_of (rec_operation_type r))),
      (''committed_at_ms'', JInt (int_of (rec_committed_at_ms r)))]"

definition index_values :: "ctr \<Rightarrow> (string \<times> json) list" where
  "index_values r =
     [(''transition_id'', JStr (tid_of r)), (''canonical_record_hash'', JStr (str_of (rec_record_hash r))),
      (''operation_id'', JStr (str_of (rec_operation_id r))), (''aggregate_revision'', JInt (int_of (rec_to_revision r)))]"

lemma receipt_index_values:
  assumes "nfc_laws E" and "validate_record E r = Inr ()"
  shows "receipt_json_of r = JObj (receipt_values r)" "index_json_of r = JObj (index_values r)"
proof -
  note v = validated_values [OF assms]
  have j: "jscalar (rec_transition_id r) = JStr (tid_of r)"
    "jscalar (rec_to_revision r) = JInt (int_of (rec_to_revision r))"
    "jscalar (rec_operation_type r) = JStr (str_of (rec_operation_type r))"
    "jscalar (rec_operation_id r) = JStr (str_of (rec_operation_id r))"
    "jscalar (rec_command_hash r) = JStr (str_of (rec_command_hash r))"
    "jscalar (rec_record_hash r) = JStr (str_of (rec_record_hash r))"
    "jscalar (rec_committed_at_ms r) = JInt (int_of (rec_committed_at_ms r))"
    by (subst v, simp)+
  show "receipt_json_of r = JObj (receipt_values r)" "index_json_of r = JObj (index_values r)"
    by (simp_all only: receipt_json_of_def index_json_of_def receipt_values_def index_values_def j)
qed

lemma receipt_index_members:
  assumes "nfc_laws E" and "validate_record E r = Inr ()"
  shows "lua_field (sort_json (receipt_json_of r)) k = map_of (receipt_values r) k"
    "lua_field (sort_json (index_json_of r)) k = map_of (index_values r) k"
    "exact_keys (Some (sort_json (receipt_json_of r))) receipt_keys 7"
    "exact_keys (Some (sort_json (index_json_of r))) index_keys 4"
proof -
  have d: "distinct (map fst (receipt_values r))" "distinct (map fst (index_values r))"
    by (simp_all add: receipt_values_def index_values_def)
  note e = receipt_index_values [OF assms]
  show "lua_field (sort_json (receipt_json_of r)) k = map_of (receipt_values r) k"
    unfolding e sorted_member [OF d(1)] by (simp add: receipt_values_def)
  show "lua_field (sort_json (index_json_of r)) k = map_of (index_values r) k"
    unfolding e sorted_member [OF d(2)] by (simp add: index_values_def)
  show "exact_keys (Some (sort_json (receipt_json_of r))) receipt_keys 7"
    unfolding e sorted_keys [OF d(1)] by (simp add: receipt_values_def receipt_keys_def)
  show "exact_keys (Some (sort_json (index_json_of r))) index_keys 4"
    unfolding e sorted_keys [OF d(2)] by (simp add: index_values_def index_keys_def)
qed

lemma receipt_index_structure:
  assumes "nfc_laws E" and "validate_record E r = Inr ()"
  shows "validate_receipt_structure (sort_json (receipt_json_of r)) = Inr True"
    "validate_index_structure (sort_json (index_json_of r)) = Inr True"
  using validated_values [OF assms]
  by (simp_all add: validate_receipt_structure_def validate_index_structure_def all_of_True receipt_index_members [OF assms]
      receipt_values_def index_values_def nonempty_string_def sha256_hex_ok_def exact_JInt at_least_one_def)

lemma proof_consistent_stored:
  assumes "nfc_laws E" and "writable E r"
  shows "proof_consistent (sort_json (stored_json r)) (sort_json (receipt_json_of r)) (sort_json (index_json_of r))
     (identity_sha256 (rec_identity r)) (str_of (rec_operation_id r))"
proof -
  have val: "validate_record E r = Inr ()" using assms(2) by (simp add: writable_def)
  show ?thesis
    unfolding proof_consistent_def
    by (simp add: stored_members [OF assms] receipt_index_members [OF assms(1) val] receipt_values_def index_values_def)
qed

text \<open>The three texts of a record, as the script decodes them.\<close>

lemma stored_texts_decode:
  assumes "nfc_laws E" and "jcs_reads E" and "lua_reads L" and "writable E r" and "json_depth (stored_json r) < 1000"
  shows "decode_table L (record_text E r) = Some (sort_json (stored_json r))"
    "decode_table L (receipt_text E r) = Some (sort_json (receipt_json_of r))"
    "decode_table L (index_text E r) = Some (sort_json (index_json_of r))"
    "open_envelope L (Some (envelope_of L (record_text E r))) = Some (record_text E r, sort_json (stored_json r))"
    "open_envelope L (Some (envelope_of L (receipt_text E r))) = Some (receipt_text E r, sort_json (receipt_json_of r))"
    "open_envelope L (Some (envelope_of L (index_text E r))) = Some (index_text E r, sort_json (index_json_of r))"
proof -
  have val: "validate_record E r = Inr ()" and wf: "json_wf E (stored_json r) \<and> json_plain (stored_json r)"
    using assms(4) by (simp_all add: writable_def)
  have W: "cjson_reads (lua_envelope L)" using assms(3) by (simp add: lua_reads_def)
  note texts = written_texts [OF assms(1,2) W assms(4)] and plain = receipt_index_plain [OF assms(1,4)] and py = receipt_index_py [OF val]
  have tab: "is_table (sort_json (stored_json r))" "is_table (sort_json (receipt_json_of r))" "is_table (sort_json (index_json_of r))"
    by (simp_all add: stored_json_def receipt_json_of_def index_json_of_def)
  have reads: "is_ascii b \<and> json_loads b = Inr (py_of_json (sort_json j))"
    if "json_wf E j \<and> json_plain j" "canonical_text E (py_of_json j) = Inr b" for j b
    using canonical_text_reads [OF assms(2) that(1)] that(2) by auto
  have "canonical_text E (py_of_json (stored_json r)) = Inr (record_text E r)"
    using texts(1) by (simp add: stored_json_py [OF val])
  then have 1: "is_ascii (record_text E r)" "json_loads (record_text E r) = Inr (py_of_json (sort_json (stored_json r)))"
    using reads [OF wf] by simp_all
  have 2: "is_ascii (receipt_text E r)" "json_loads (receipt_text E r) = Inr (py_of_json (sort_json (receipt_json_of r)))"
    using reads [OF plain(1)] texts(2) py by simp_all
  have 3: "is_ascii (index_text E r)" "json_loads (index_text E r) = Inr (py_of_json (sort_json (index_json_of r)))"
    using reads [OF plain(2)] texts(3) py by simp_all
  note o1 = open_stored [OF assms(3) _ assms(5) tab(1) 1(2,1)] and o2 = open_stored [OF assms(3) _ json_depth_small(1) tab(2) 2(2,1)]
    and o3 = open_stored [OF assms(3) _ json_depth_small(2) tab(3) 3(2,1)]
  show "decode_table L (record_text E r) = Some (sort_json (stored_json r))"
    "open_envelope L (Some (envelope_of L (record_text E r))) = Some (record_text E r, sort_json (stored_json r))"
    using o1 wf by simp_all
  show "decode_table L (receipt_text E r) = Some (sort_json (receipt_json_of r))"
    "open_envelope L (Some (envelope_of L (receipt_text E r))) = Some (receipt_text E r, sort_json (receipt_json_of r))"
    using o2 plain(1) by simp_all
  show "decode_table L (index_text E r) = Some (sort_json (index_json_of r))"
    "open_envelope L (Some (envelope_of L (index_text E r))) = Some (index_text E r, sort_json (index_json_of r))"
    using o3 plain(2) by simp_all
qed

section \<open>The arguments of a commit\<close>

definition commit_argv_of :: "externals \<Rightarrow> ctr \<Rightarrow> bool \<Rightarrow> bool \<Rightarrow> prevalidation \<Rightarrow> prevalidation \<Rightarrow> string \<Rightarrow> string list" where
  "commit_argv_of E r rb ob op_pv head_pv e =
     [identity_sha256 (rec_identity r), dec_int (int_of (rec_to_revision r) - 1), dec_int (int_of (rec_to_revision r)),
      flag (rec_previous_state r = PNone), str_of (rec_previous_state r), flag (rec_next_state r = PNone), str_of (rec_next_state r),
      tid_of r, str_of (rec_record_hash r), str_of (rec_command_hash r), str_of (rec_operation_id r), op_digest r,
      str_of (rec_operation_type r), dec_int (int_of (rec_committed_at_ms r)), index_text E r, record_text E r, receipt_text E r,
      intents_text E r, flag (is_operation r TASK_ADMIT \<or> is_operation r RUN_CREATE),
      prevalidation_value (pv_status op_pv), pv_record_sha1 op_pv, pv_receipt_sha1 op_pv, pv_index_sha1 op_pv,
      prevalidation_value (pv_status head_pv), pv_record_sha1 head_pv, pv_receipt_sha1 head_pv, pv_index_sha1 head_pv,
      e, flag rb, e, flag ob]"

lemma commit_args_stored:
  assumes "nfc_laws E" and "jcs_reads E" and "lua_reads L" and "writable E r"
  obtains e where "\<And>rb ob op_pv head_pv. commit_args E r (new_receipt r) rb ob op_pv head_pv [] []
    = Inr (commit_argv_of E r rb ob op_pv head_pv e)"
proof -
  have val: "validate_record E r = Inr ()" using assms(4) by (simp add: writable_def)
  have W: "cjson_reads (lua_envelope L)" using assms(3) by (simp add: lua_reads_def)
  obtain e where e: "canonical_text E (PSeq []) = Inr e"
    using canonical_text_reads [OF assms(2), of "JArr []"] by auto
  note v = validated_values [OF assms(1) val] and t = written_texts [OF assms(1,2) W assms(4), unfolded thaw_eq [abs_def]]
  have "str_of (rec_identity_sha256 r) = identity_sha256 (rec_identity r)" "int_of (rec_from_revision r) = int_of (rec_to_revision r) - 1"
    by (subst v, simp)+
  with e have "commit_args E r (new_receipt r) rb ob op_pv head_pv [] [] = Inr (commit_argv_of E r rb ob op_pv head_pv e)"
    for rb ob op_pv head_pv
    by (simp add: commit_args_def t operation_digest_op_digest [OF assms(1) val] commit_argv_of_def prevalidation_args_def tid_of_def)
  then show thesis by (rule that)
qed

lemma read_argv_of:
  "read_argv (commit_argv_of E r rb ob op_pv head_pv e) =
     \<lparr>av_identity_sha = identity_sha256 (rec_identity r), av_expected_revision = dec_int (int_of (rec_to_revision r) - 1),
      av_next_revision = dec_int (int_of (rec_to_revision r)), av_previous_is_null = flag (rec_previous_state r = PNone),
      av_previous_state = str_of (rec_previous_state r), av_next_is_null = flag (rec_next_state r = PNone),
      av_next_state = str_of (rec_next_state r), av_transition_id = tid_of r, av_record_hash = str_of (rec_record_hash r),
      av_command_hash = str_of (rec_command_hash r), av_operation_id = str_of (rec_operation_id r),
      av_operation_digest = op_digest r, av_operation_type = str_of (rec_operation_type r),
      av_committed_at_ms = dec_int (int_of (rec_committed_at_ms r)), av_index_json = index_text E r, av_record_json = record_text E r,
      av_receipt_json = receipt_text E r, av_intents_json = intents_text E r,
      av_is_create = flag (is_operation r TASK_ADMIT \<or> is_operation r RUN_CREATE),
      av_op_status = prevalidation_value (pv_status op_pv), av_op_record_sha1 = pv_record_sha1 op_pv,
      av_op_receipt_sha1 = pv_receipt_sha1 op_pv, av_op_index_sha1 = pv_index_sha1 op_pv,
      av_head_status = prevalidation_value (pv_status head_pv), av_head_record_sha1 = pv_record_sha1 head_pv,
      av_head_receipt_sha1 = pv_receipt_sha1 head_pv, av_head_index_sha1 = pv_index_sha1 head_pv,
      av_parent_guard = e, av_root_required = flag rb, av_creation_proof = e, av_owner_mode = flag ob\<rparr>"
  by (simp add: read_argv_def commit_argv_of_def)

lemma safe_number_dec_int: "safe_nonneg n \<Longrightarrow> safe_number (dec_int n) = Some n"
  by (simp add: safe_number_def lua_tonumber_def)

definition numbers_of :: "ctr \<Rightarrow> commit_numbers" where
  "numbers_of r = \<lparr>cn_expected = int_of (rec_to_revision r) - 1, cn_next = int_of (rec_to_revision r),
     cn_committed_at = int_of (rec_committed_at_ms r)\<rparr>"

lemma prevalidation_value_ok [simp]: "prevalidation_status_ok (prevalidation_value s)"
  by (cases s) (simp_all add: prevalidation_status_ok_def)

lemma flag_ok [simp]: "flag b \<in> {''0'', ''1''}" "flag b = ''1'' \<longleftrightarrow> b" "flag b = ''0'' \<longleftrightarrow> \<not> b"
  by (simp_all add: flag_def)

lemma op_digest_re [simp]: "sha256_re (op_digest r)"
  by (simp add: op_digest_def)

lemma check_arguments_stored:
  assumes "nfc_laws E" and "validate_record E r = Inr ()"
  shows "check_arguments (read_argv (commit_argv_of E r rb ob op_pv head_pv e)) = Inr (numbers_of r)"
  using validated_values [OF assms]
  by (simp add: check_arguments_def read_argv_of safe_number_dec_int require_that_def numbers_of_def)

lemma intents_table:
  assumes "nfc_laws E" and "jcs_reads E" and "lua_reads L" and "writable E r" and "json_depth (stored_json r) < 1000"
  shows "decode_table L (intents_text E r) \<noteq> None"
proof -
  let ?j = "JArr (rec_projection_intents r)"
  have W: "cjson_reads (lua_envelope L)" using assms(3) by (simp add: lua_reads_def)
  have plain: "json_wf E ?j \<and> json_plain ?j" using assms(4) by (simp add: writable_def stored_json_def)
  have "\<exists>kvs. stored_json r = JObj kvs \<and> (''durable_projection_intents'', ?j) \<in> set kvs" by (simp add: stored_json_def)
  then obtain kvs where kvs: "stored_json r = JObj kvs" "(''durable_projection_intents'', ?j) \<in> set kvs" by blast
  have "json_depth ?j \<in> set (map (\<lambda>kv. json_depth (snd kv)) kvs)" using kvs(2) by force
  from fold_max_ge [OF this, of 0] assms(5) kvs(1) have depth: "json_depth ?j < 1000" by simp
  have "canonical_text E (py_of_json ?j) = Inr (intents_text E r)"
    using written_texts(4) [OF assms(1,2) W assms(4)] by (simp add: thaw_eq [abs_def])
  with canonical_text_reads [OF assms(2) plain] have "json_loads (intents_text E r) = Inr (py_of_json (sort_json ?j))" "is_ascii (intents_text E r)"
    by auto
  from open_stored(1) [OF assms(3) _ depth _ this] plain show ?thesis by simp
qed

lemma incoming_record_stored:
  assumes "nfc_laws E" and "jcs_reads E" and "lua_reads L" and "writable E r" and "json_depth (stored_json r) < 1000"
  shows "incoming_record L (read_argv (commit_argv_of E r rb ob op_pv head_pv e)) (numbers_of r) = Inr (sort_json (stored_json r))"
proof -
  have val: "validate_record E r = Inr ()" using assms(4) by (simp add: writable_def)
  have it: "\<exists>t. decode_table L (intents_text E r) = Some t" using intents_table [OF assms] by auto
  show ?thesis
    using it
    by (auto simp: incoming_record_def read_argv_of Let_def stored_texts_decode(1-3) [OF assms] demand_def structure_ok_def
        receipt_index_structure [OF assms(1) val] record_structure_stored [OF assms(1,4)] require_that_def has_members_def
        receipt_index_members [OF assms(1) val] stored_members [OF assms(1,4)] receipt_values_def index_values_def numbers_of_def)
qed

text \<open>The witness of a written record is made of ASCII texts.\<close>

lemma written_texts_ascii:
  assumes laws: "nfc_laws E" "jcs_reads E" "cjson_reads W" and w: "writable E r"
  shows "is_ascii (record_text E r)" "is_ascii (receipt_text E r)" "is_ascii (index_text E r)" "is_ascii (intents_text E r)"
proof -
  have val: "validate_record E r = Inr ()" and wf: "json_wf E (stored_json r) \<and> json_plain (stored_json r)"
    using w by (simp_all add: writable_def)
  have ascii: "is_ascii b" if "json_wf E j \<and> json_plain j" "canonical_text E (py_of_json j) = Inr b" for j b
    using canonical_text_reads [OF laws(2) that(1)] that(2) by auto
  note t = written_texts [OF laws w] and plain = receipt_index_plain [OF laws(1) w] and py = receipt_index_py [OF val]
  have ints: "json_wf E (JArr (rec_projection_intents r)) \<and> json_plain (JArr (rec_projection_intents r))"
    using wf by (simp add: stored_json_def)
  show "is_ascii (record_text E r)" by (rule ascii [OF wf]) (use t(1) in \<open>simp add: stored_json_py [OF val]\<close>)
  show "is_ascii (receipt_text E r)" "is_ascii (index_text E r)"
    by (rule ascii [OF plain(1)], simp add: py t(2)) (rule ascii [OF plain(2)], simp add: py t(3))
  show "is_ascii (intents_text E r)" by (rule ascii [OF ints]) (use t(4) in \<open>simp add: thaw_eq [abs_def]\<close>)
qed

lemma head_argv_ascii:
  assumes laws: "nfc_laws E" "jcs_reads E" "cjson_reads W" and w: "writable E r"
  shows "list_all is_ascii (head_argv E r)"
proof -
  have val: "validate_record E r = Inr ()" and plain: "json_plain (stored_json r)" using w by (simp_all add: writable_def)
  have ascii: "is_ascii (str_of x)" if "json_plain (jscalar x)" for x
    using that by (cases x) (simp_all add: str_of_def is_ascii_def [of "[]"])
  have p: "json_plain (jscalar (rec_identity_sha256 r))" "json_plain (jscalar (rec_operation_id r))" "json_plain (jscalar (rec_transition_id r))"
    "json_plain (jscalar (rec_command_hash r))" "json_plain (jscalar (rec_record_hash r))" "json_plain (jscalar (rec_next_state r))"
    using plain by (simp_all add: stored_json_def)
  have "is_ascii (op_digest r)" by (rule sha256_re_ascii) simp
  moreover have "is_ascii ''0''" "is_ascii ''1''" by (simp_all add: is_ascii_def)
  ultimately show ?thesis
    using p [THEN ascii] written_texts_ascii [OF assms] dec_int_ascii by (simp add: head_argv_def tid_of_def)
qed

section \<open>The server of a stored history\<close>

lemma commit_keys_at:
  "commit_keys ks ! 0 = aggregate_key ks" "commit_keys ks ! 1 = transition_indexes_key ks"
  "commit_keys ks ! 2 = receipts_key ks" "commit_keys ks ! 3 = operation_records_key ks"
  "commit_keys ks ! 4 = transition_log_key ks" "commit_keys ks ! 5 = outbox_key ks"
  "commit_keys ks ! 6 = conflict_index_key ks" "commit_keys ks ! 7 = conflicts_key ks" "length (commit_keys ks) = 8"
  by (simp_all add: commit_keys_def)

definition stored_server :: "externals \<Rightarrow> lua_lib \<Rightarrow> keyspace \<Rightarrow> ctr list \<Rightarrow> server" where
  "stored_server E L ks rs = server_of ks (stored_of E (lua_envelope L) rs) (streams_of E rs)"

lemma stored_server_empty:
  "srv_view (stored_server E L ks []) k = None" "srv_streams (stored_server E L ks []) k = []"
  by (simp_all add: stored_server_def server_of_def view_of_def stored_of_def head_of_def hash_value_def streams_of_def)

lemma stored_server_hashes:
  "lua_hash (stored_server E L ks rs) (transition_indexes_key ks) = map (\<lambda>r. (tid_of r, envelope_of L (index_text E r))) rs"
  "lua_hash (stored_server E L ks rs) (receipts_key ks) = map (\<lambda>r. (op_digest r, envelope_of L (receipt_text E r))) rs"
  "lua_hash (stored_server E L ks rs) (operation_records_key ks) = map (\<lambda>r. (op_digest r, envelope_of L (record_text E r))) rs"
proof -
  have "lua_hash (stored_server E L ks rs) (transition_indexes_key ks) = map (\<lambda>r. (tid_of r, envelope_of L (index_text E r))) rs
    \<and> lua_hash (stored_server E L ks rs) (receipts_key ks) = map (\<lambda>r. (op_digest r, envelope_of L (receipt_text E r))) rs
    \<and> lua_hash (stored_server E L ks rs) (operation_records_key ks) = map (\<lambda>r. (op_digest r, envelope_of L (record_text E r))) rs"
  proof (cases "rs = []")
    case True
    then show ?thesis by (simp add: lua_hash_def stored_server_empty)
  next
    case False
    then show ?thesis unfolding stored_server_def stored_hashes [OF False] by (simp add: entry_texts storage_envelope_lua)
  qed
  then show "lua_hash (stored_server E L ks rs) (transition_indexes_key ks) = map (\<lambda>r. (tid_of r, envelope_of L (index_text E r))) rs"
    "lua_hash (stored_server E L ks rs) (receipts_key ks) = map (\<lambda>r. (op_digest r, envelope_of L (receipt_text E r))) rs"
    "lua_hash (stored_server E L ks rs) (operation_records_key ks) = map (\<lambda>r. (op_digest r, envelope_of L (record_text E r))) rs"
    by simp_all
qed

lemma stored_server_head:
  assumes "rs \<noteq> []"
  shows "lua_hash (stored_server E L ks rs) (aggregate_key ks) = head_fields (last rs) (op_digest (last rs)) (intents_text E (last rs))"
    "srv_view (stored_server E L ks rs) (aggregate_key ks) \<noteq> None"
proof -
  show "lua_hash (stored_server E L ks rs) (aggregate_key ks) = head_fields (last rs) (op_digest (last rs)) (intents_text E (last rs))"
    unfolding stored_server_def by (rule stored_hashes(1) [OF assms])
  then show "srv_view (stored_server E L ks rs) (aggregate_key ks) \<noteq> None"
    by (cases "srv_view (stored_server E L ks rs) (aggregate_key ks)") (simp_all add: lua_hash_def head_fields_def)
qed

lemma stored_server_streams:
  "srv_streams (stored_server E L ks rs) (transition_log_key ks) = map (\<lambda>r. log_entry r (record_text E r) (receipt_text E r)) rs"
  "srv_streams (stored_server E L ks rs) (outbox_key ks) = map (\<lambda>r. outbox_entry r (intents_text E r)) rs"
  by (simp_all add: stored_server_def server_of_streams streams_of_def)

lemma stored_server_types:
  "lua_type (stored_server E L ks rs) (aggregate_key ks) = (if rs = [] then ''none'' else ''hash'')"
  "lua_type (stored_server E L ks rs) (transition_indexes_key ks) = (if rs = [] then ''none'' else ''hash'')"
  "lua_type (stored_server E L ks rs) (receipts_key ks) = (if rs = [] then ''none'' else ''hash'')"
  "lua_type (stored_server E L ks rs) (operation_records_key ks) = (if rs = [] then ''none'' else ''hash'')"
  "lua_type (stored_server E L ks rs) (transition_log_key ks) = (if rs = [] then ''none'' else ''stream'')"
  "lua_type (stored_server E L ks rs) (outbox_key ks) = (if rs = [] then ''none'' else ''stream'')"
  "lua_type (stored_server E L ks rs) (conflict_index_key ks) = ''none''"
  "lua_type (stored_server E L ks rs) (conflicts_key ks) = ''none''"
proof -
  have e: "lua_type (stored_server E L ks []) k = ''none''" for k by (simp add: lua_type_def stored_server_empty)
  show "lua_type (stored_server E L ks rs) (aggregate_key ks) = (if rs = [] then ''none'' else ''hash'')"
    "lua_type (stored_server E L ks rs) (transition_indexes_key ks) = (if rs = [] then ''none'' else ''hash'')"
    "lua_type (stored_server E L ks rs) (receipts_key ks) = (if rs = [] then ''none'' else ''hash'')"
    "lua_type (stored_server E L ks rs) (operation_records_key ks) = (if rs = [] then ''none'' else ''hash'')"
    "lua_type (stored_server E L ks rs) (transition_log_key ks) = (if rs = [] then ''none'' else ''stream'')"
    "lua_type (stored_server E L ks rs) (outbox_key ks) = (if rs = [] then ''none'' else ''stream'')"
    using stored_hashes(5-10) [of rs ks E "lua_envelope L", folded stored_server_def] e by auto
  show "lua_type (stored_server E L ks rs) (conflict_index_key ks) = ''none''"
    "lua_type (stored_server E L ks rs) (conflicts_key ks) = ''none''"
    by (simp_all add: lua_type_def stored_server_def server_of_def view_of_def key_defs conflict_index_key_def conflicts_key_def)
qed

text \<open>The same server through the client's Redis calls.\<close>

lemma redis_kind_name_other: "redis_kind_name k \<noteq> ''none''" "redis_kind_name k \<noteq> ''hash''"
  by (cases k; simp)+

lemma lua_type_redis: "redis_type (Some (srv_view srv)) k = Inr (lua_type srv k)"
  by (simp add: redis_type_def lua_type_def)

lemma lua_hash_redis:
  "lua_type srv k \<in> {''none'', ''hash''} \<Longrightarrow> redis_hget (Some (srv_view srv)) k f = Inr (map_of (lua_hash srv k) f)"
  "lua_type srv k \<in> {''none'', ''hash''} \<Longrightarrow> redis_hgetall (Some (srv_view srv)) k = Inr (lua_hash srv k)"
  by (auto simp: redis_hget_def redis_hgetall_def lua_type_def lua_hash_def redis_kind_name_other split: option.split redis_value.split)

lemma stored_fresh:
  assumes "op_digest r \<notin> op_digest ` set rs"
  shows "hget (stored_server E L ks rs) (receipts_key ks) (op_digest r) = None"
    "hget (stored_server E L ks rs) (operation_records_key ks) (op_digest r) = None"
  using assms by (auto simp: hget_def stored_server_hashes map_of_eq_None_iff image_image)

lemma stored_found:
  assumes "q \<in> set rs" and "distinct (map op_digest rs)" and "distinct (map tid_of rs)"
  shows "hget (stored_server E L ks rs) (transition_indexes_key ks) (tid_of q) = Some (envelope_of L (index_text E q))"
    "hget (stored_server E L ks rs) (receipts_key ks) (op_digest q) = Some (envelope_of L (receipt_text E q))"
    "hget (stored_server E L ks rs) (operation_records_key ks) (op_digest q) = Some (envelope_of L (record_text E q))"
  unfolding hget_def stored_server_hashes by (rule map_of_stored [OF assms(1)]; rule assms)+

section \<open>The prevalidations of a commit\<close>

text \<open>What the proofs below ask of the history on the server and of the runtimes.\<close>

definition history_ok :: "externals \<Rightarrow> lua_lib \<Rightarrow> aggregate_identity \<Rightarrow> ctr list \<Rightarrow> bool" where
  "history_ok E L i rs \<longleftrightarrow>
     nfc_laws E \<and> jcs_reads E \<and> lua_reads L \<and> list_all (writable E) rs
     \<and> list_all (\<lambda>r. json_depth (stored_json r) < 1000) rs \<and> (\<forall>r \<in> set rs. rec_identity r = i)
     \<and> chained None 0 rs \<and> distinct (map op_digest rs) \<and> int (length rs) < 10 ^ 14"

lemma history_okD:
  assumes "history_ok E L i rs"
  shows "nfc_laws E" "jcs_reads E" "lua_reads L" "cjson_reads (lua_envelope L)" "list_all (writable E) rs"
    "list_all (\<lambda>r. json_depth (stored_json r) < 1000) rs" "\<forall>r \<in> set rs. rec_identity r = i" "chained None 0 rs"
    "distinct (map op_digest rs)" "distinct (map tid_of rs)" "int (length rs) < 10 ^ 14"
proof -
  show "nfc_laws E" "jcs_reads E" "lua_reads L" "cjson_reads (lua_envelope L)" "list_all (writable E) rs"
    "list_all (\<lambda>r. json_depth (stored_json r) < 1000) rs" "\<forall>r \<in> set rs. rec_identity r = i"
    "distinct (map op_digest rs)" "int (length rs) < 10 ^ 14" and c: "chained None 0 rs"
    using assms by (auto simp: history_ok_def lua_reads_def)
  have "\<forall>r \<in> set rs. validate_record E r = Inr ()" using assms by (simp add: history_ok_def list_all_iff writable_def)
  from chained_transition_ids(1) [OF this c] show "distinct (map tid_of rs)" by simp
qed

lemma history_ok_last:
  assumes "history_ok E L i rs" and "rs \<noteq> []"
  shows "last rs \<in> set rs" "writable E (last rs)" "validate_record E (last rs) = Inr ()" "rec_identity (last rs) = i"
    "json_depth (stored_json (last rs)) < 1000" "int_of (rec_to_revision (last rs)) = int (length rs)"
proof -
  show m: "last rs \<in> set rs" using assms(2) by simp
  show "writable E (last rs)" "rec_identity (last rs) = i" "json_depth (stored_json (last rs)) < 1000"
    using history_okD [OF assms(1)] m by (simp_all add: list_all_iff)
  then show "validate_record E (last rs) = Inr ()" by (simp add: writable_def)
  show "int_of (rec_to_revision (last rs)) = int (length rs)" using chained_last_revision history_okD(8) [OF assms(1)] assms(2) by blast
qed

definition head_prevalidation :: "externals \<Rightarrow> lua_lib \<Rightarrow> ctr list \<Rightarrow> prevalidation" where
  "head_prevalidation E L rs =
     (if rs = [] then pv_absent
      else \<lparr>pv_status = PV_VALID, pv_record_sha1 = sha1_hexdigest (envelope_of L (record_text E (last rs))),
            pv_receipt_sha1 = sha1_hexdigest (envelope_of L (receipt_text E (last rs))),
            pv_index_sha1 = sha1_hexdigest (envelope_of L (index_text E (last rs)))\<rparr>)"

lemma operation_prevalidated:
  assumes "nfc_laws E" and "validate_record E r = Inr ()" and "op_digest r \<notin> op_digest ` set rs"
  shows "prevalidate_operation_proof E ks (str_of (rec_operation_id r)) (\<lambda>_. Some (srv_view (stored_server E L ks rs))) = Inr pv_absent"
  using stored_fresh [OF assms(3), of E L ks]
  by (simp add: prevalidate_operation_proof_def operation_digest_op_digest [OF assms(1,2)] lua_type_redis stored_server_types
      lua_hash_redis hget_def prevalidate_raw_proof_def)

lemma head_prevalidated:
  assumes H: "history_ok E L i rs" and ks: "make_keyspace (identity_sha256 i) ns = Inr ks"
  shows "prevalidate_head_proof E ks (\<lambda>_. Some (srv_view (stored_server E L ks rs))) = Inr (head_prevalidation E L rs)"
proof (cases "rs = []")
  case True
  then show ?thesis by (simp add: prevalidate_head_proof_def lua_type_redis stored_server_types head_prevalidation_def)
next
  case False
  let ?q = "last rs" and ?srv = "stored_server E L ks rs" and ?o = "in_order (last rs)"
  note h = history_okD [OF H] and q = history_ok_last [OF H False]
  let ?h = "head_fields ?q (op_digest ?q) (intents_text E ?q)"
  have o: "storable E ?o" "validate_record E ?o = Inr ()"
    using storable_in_order [OF h(1,2) q(2)] by (simp_all add: storable_def writable_def)
  have reads: "read_record E (envelope_of L (record_text E ?q)) = Inr ?o"
    "read_receipt E (envelope_of L (receipt_text E ?q)) = Inr (new_receipt ?q)"
    "check_index (envelope_of L (index_text E ?q)) ?o = Inr ()"
    using entries_read(1) [OF h(1,2,4) storable_writable [OF o(1)] o(1)] entries_read(2,3) [OF h(1,2,4) storable_writable [OF o(1)]]
    unfolding in_order_texts(1-3) [OF h(1,2) q(2)] by (simp_all add: entry_texts storage_envelope_lua)
  then have dec: "decode_pair E (envelope_of L (record_text E ?q)) (envelope_of L (receipt_text E ?q)) = Inr (?o, new_receipt ?q)"
    by (auto simp: read_record_def read_receipt_def decode_pair_def rbind_Inr_iff)
  have sha: "ks_identity_sha256 ks = identity_sha256 i" using make_keyspaceD [OF ks] by simp
  note v = validated_values [OF h(1) q(3)]
  have "validate_stored_duplicate_proof E \<lparr>probe_receipt = new_receipt ?q, probe_store_record = Some ?o\<rparr> (ks_identity_sha256 ks)
      (str_of (rec_operation_id ?q)) = Inr (new_receipt ?q, ?o)"
    unfolding validate_stored_duplicate_proof_Inr_iff
  proof (intro conjI)
    show "rec_identity_sha256 ?o = PStr (ks_identity_sha256 ks)" by (simp, subst v(4)) (simp add: sha q(4))
    show "receipt_matches (new_receipt ?q) ?o" using new_receipt_matches' [of ?o] by simp
    show "is_ok (validate_receipt E (new_receipt ?q))" by (rule new_receipt_valid [OF h(1)]) (simp add: q(3))
    show "rcpt_operation_id (new_receipt ?q) = PStr (str_of (rec_operation_id ?q))" using v(12) by (simp add: new_receipt_def)
  qed (simp_all add: o v(12) [symmetric])
  then have pair: "check_pair E ks (str_of (rec_operation_id ?q)) ?o (new_receipt ?q) (envelope_of L (index_text E ?q))"
    by (simp add: check_pair_def reads(3))
  have fields: "fst ` set ?h = snapshot_fields" "?h \<noteq> []" by (auto simp: head_fields_def snapshot_fields_def)
  have data: "data_field ?h ''operation_id'' = str_of (rec_operation_id ?q)" "data_field ?h ''operation_digest'' = op_digest ?q"
    "data_field ?h ''transition_id'' = tid_of ?q" by (simp_all add: data_field_def head_fields_def tid_of_def)
  have found: "map_of (lua_hash ?srv (receipts_key ks)) (op_digest ?q) = Some (envelope_of L (receipt_text E ?q))"
    "map_of (lua_hash ?srv (operation_records_key ks)) (op_digest ?q) = Some (envelope_of L (record_text E ?q))"
    "map_of (lua_hash ?srv (transition_indexes_key ks)) (tid_of ?q) = Some (envelope_of L (index_text E ?q))"
    using stored_found [OF q(1) h(9,10), of E L ks] by (simp_all add: hget_def)
  show ?thesis
    using fields(2) v(3,13) False pair
    by (simp add: prevalidate_head_proof_def lua_type_redis stored_server_types lua_hash_redis stored_server_head(1) [OF False]
        fields(1) data operation_digest_op_digest [OF h(1) q(3)] found prevalidate_raw_proof_def dec tid_of_def [symmetric]
        head_prevalidation_def raw_sha1_def)
qed

section \<open>The guards let the next commit through\<close>

text \<open>The next record of a history, whose operation needs no other aggregate.\<close>

definition guarded_operations :: "operation_type set" where
  "guarded_operations = {TASK_ADMIT, TASK_COMPLETE, TASK_FAIL, RUN_TERMINATE}"

definition next_record :: "externals \<Rightarrow> aggregate_identity \<Rightarrow> ctr list \<Rightarrow> ctr \<Rightarrow> bool" where
  "next_record E i rs r \<longleftrightarrow>
     writable E r \<and> json_depth (stored_json r) < 1000 \<and> rec_identity r = i \<and> chained None 0 (rs @ [r])
     \<and> op_digest r \<notin> op_digest ` set rs \<and> tid_of r \<notin> tid_of ` set rs
     \<and> (\<forall>op \<in> guarded_operations. \<not> is_operation r op)"

definition next_argv :: "externals \<Rightarrow> lua_lib \<Rightarrow> ctr list \<Rightarrow> ctr \<Rightarrow> bool \<Rightarrow> bool \<Rightarrow> string \<Rightarrow> commit_argv" where
  "next_argv E L rs r rb ob e = read_argv (commit_argv_of E r rb ob pv_absent (head_prevalidation E L rs) e)"

lemma next_argv_status:
  "av_op_status (next_argv E L rs r rb ob e) = ''ABSENT''"
  "av_head_status (next_argv E L rs r rb ob e) = (if rs = [] then ''ABSENT'' else ''VALID'')"
  "rs \<noteq> [] \<Longrightarrow> av_head_record_sha1 (next_argv E L rs r rb ob e) = sha1_hexdigest (envelope_of L (record_text E (last rs)))"
  "rs \<noteq> [] \<Longrightarrow> av_head_receipt_sha1 (next_argv E L rs r rb ob e) = sha1_hexdigest (envelope_of L (receipt_text E (last rs)))"
  "rs \<noteq> [] \<Longrightarrow> av_head_index_sha1 (next_argv E L rs r rb ob e) = sha1_hexdigest (envelope_of L (index_text E (last rs)))"
  by (simp_all add: next_argv_def read_argv_of head_prevalidation_def pv_absent_def)

lemma next_argv_parts:
  "av_identity_sha (next_argv E L rs r rb ob e) = identity_sha256 (rec_identity r)"
  "av_operation_digest (next_argv E L rs r rb ob e) = op_digest r" "av_transition_id (next_argv E L rs r rb ob e) = tid_of r"
  "av_operation_type (next_argv E L rs r rb ob e) = str_of (rec_operation_type r)"
  "av_previous_is_null (next_argv E L rs r rb ob e) = flag (rec_previous_state r = PNone)"
  "av_previous_state (next_argv E L rs r rb ob e) = str_of (rec_previous_state r)"
  by (simp_all add: next_argv_def read_argv_of)

lemma next_record_revision:
  "next_record E i rs r \<Longrightarrow> int_of (rec_to_revision r) = int (length rs) + 1"
  by (simp add: next_record_def chained_append)

lemma unguarded_operation:
  assumes "next_record E i rs r" and "validate_record E r = Inr ()"
  shows "str_of (rec_operation_type r) \<notin> {''TASK_ADMIT'', ''TASK_COMPLETE'', ''TASK_FAIL'', ''RUN_TERMINATE''}"
proof -
  from assms(2) obtain op where "rec_operation_type r = PStr (operation_value op)" by (rule validate_record_okD) blast
  with assms(1) show ?thesis by (simp add: next_record_def guarded_operations_def is_operation_def)
qed

lemma tail_of_log:
  assumes "rs \<noteq> []"
  shows "stream_tail (stored_server E L ks rs) (transition_log_key ks)
      = Some (rev (log_entry (last rs) (record_text E (last rs)) (receipt_text E (last rs))))"
    "stream_tail (stored_server E L ks rs) (outbox_key ks) = Some (rev (outbox_entry (last rs) (intents_text E (last rs))))"
  using assms by (simp_all add: stream_tail_def stored_server_streams last_map)

lemma stored_proof_validates:
  assumes H: "history_ok E L i rs" and ne: "rs \<noteq> []"
  shows "validate_proof L (Some (envelope_of L (record_text E (last rs)))) (Some (envelope_of L (receipt_text E (last rs))))
      (Some (envelope_of L (index_text E (last rs)))) (identity_sha256 i) (str_of (rec_operation_id (last rs)))
    = Inr (Inr \<lparr>pf_record_payload = record_text E (last rs), pf_receipt_payload = receipt_text E (last rs),
        pf_index_payload = index_text E (last rs), pf_record = sort_json (stored_json (last rs)),
        pf_receipt = sort_json (receipt_json_of (last rs))\<rparr>)"
proof -
  note h = history_okD [OF H] and q = history_ok_last [OF H ne]
  show ?thesis
    using proof_consistent_stored [OF h(1) q(2)] q(4)
    by (simp add: validate_proof_def stored_texts_decode [OF h(1-3) q(2,5)] record_structure_stored [OF h(1) q(2)]
        receipt_index_structure [OF h(1) q(3)])
qed

lemma head_snapshot_complete:
  assumes H: "history_ok E L i rs" and ne: "rs \<noteq> []" and "av_identity_sha av = identity_sha256 i"
  shows "snapshot_complete (head_fields (last rs) (op_digest (last rs)) (intents_text E (last rs))) av (int (length rs))"
proof -
  let ?q = "last rs"
  note h = history_okD [OF H] and q = history_ok_last [OF H ne]
  note v = validated_values [OF h(1) q(3)]
  have sha: "str_of (rec_identity_sha256 ?q) = identity_sha256 i" by (subst v(4)) (simp add: q(4))
  have tid: "str_of (rec_transition_id ?q) \<noteq> []" using v(3) by (simp add: tid_of_def)
  have len: "1 \<le> int (length rs)" using ne by (cases rs) simp_all
  show ?thesis
    using v(13,15,17,21) tid sha assms(3) len
    by (simp add: snapshot_complete_def head_fields_def text_field_def sha_field_def safe_number_dec_int)
qed

lemma existing_head_passes:
  assumes H: "history_ok E L i rs" and ne: "rs \<noteq> []" and r: "rec_identity r = i"
  shows "existing_head_guard L (stored_server E L ks rs) (commit_keys ks) (next_argv E L rs r rb ob e) (int (length rs)) = Inr ()"
proof -
  let ?q = "last rs" and ?srv = "stored_server E L ks rs" and ?av = "next_argv E L rs r rb ob e"
  let ?h = "head_fields ?q (op_digest ?q) (intents_text E ?q)"
  note h = history_okD [OF H] and q = history_ok_last [OF H ne]
  note v = validated_values [OF h(1) q(3)]
  have hd: "map_of ?h ''operation_digest'' = Some (op_digest ?q)" "map_of ?h ''transition_id'' = Some (tid_of ?q)"
    "map_of ?h ''operation_id'' = Some (str_of (rec_operation_id ?q))" "map_of ?h ''canonical_record_hash'' = Some (str_of (rec_record_hash ?q))"
    "map_of ?h ''canonical_command_hash'' = Some (str_of (rec_command_hash ?q))"
    "map_of ?h ''projection_intents_json'' = Some (intents_text E ?q)" "length ?h = 11"
    by (simp_all add: head_fields_def tid_of_def)
  have match: "head_proof_matches ?h (int (length rs)) (sort_json (stored_json ?q))"
    by (simp add: head_proof_matches_def hd(1-5) stored_members [OF h(1) q(2)] q(6))
  have tails: "tail_matches ?srv (transition_log_key ks)
       [(''aggregate_revision'', lua_tostring (int (length rs))), (''transition_id'', tid_of ?q),
        (''canonical_record_hash'', str_of (rec_record_hash ?q)), (''canonical_command_hash'', str_of (rec_command_hash ?q)),
        (''operation_id'', str_of (rec_operation_id ?q)), (''operation_digest'', op_digest ?q),
        (''record_json'', record_text E ?q), (''receipt_json'', receipt_text E ?q)]"
    "tail_matches ?srv (outbox_key ks)
       [(''aggregate_revision'', lua_tostring (int (length rs))), (''transition_id'', tid_of ?q),
        (''canonical_record_hash'', str_of (rec_record_hash ?q)), (''operation_id'', str_of (rec_operation_id ?q)),
        (''operation_digest'', op_digest ?q), (''projection_intents_json'', intents_text E ?q)]"
    unfolding tail_matches_def tail_of_log [OF ne]
    by (simp_all add: has_fields_def log_entry_def outbox_entry_def q(6) tid_of_def)
  show ?thesis
    unfolding existing_head_guard_def Let_def commit_keys_at [unfolded One_nat_def] commit_keys_at stored_server_head(1) [OF ne] hd or_empty_def option.case
      stored_found [OF q(1) h(9,10)] next_argv_status(2) next_argv_status(3-5) [OF ne] raw_sha1_of_def
      next_argv_parts(1) r stored_proof_validates [OF H ne]
    using head_snapshot_complete [OF H ne, of ?av] ne match tails r
    by (simp add: require_that_def next_argv_parts(1) commit_keys_at [unfolded One_nat_def] commit_keys_at stored_server_hashes stored_server_streams)
qed

lemma head_guard_passes:
  assumes H: "history_ok E L i rs" and r: "rec_identity r = i"
  shows "head_guard L (stored_server E L ks rs) (commit_keys ks) (next_argv E L rs r rb ob e) = Inr (int (length rs))"
proof (cases "rs = []")
  case True
  then show ?thesis
    by (simp add: head_guard_def commit_keys_at stored_server_empty next_argv_status hget_def lua_hash_def require_that_def safe_nonneg_def)
next
  case False
  note h = history_okD [OF H] and q = history_ok_last [OF H False]
  have small: "int (length rs) < 10 ^ 14" using h(11) .
  then have "lua_tonumber (lua_tostring (int (length rs))) = Some (int (length rs))"
    by (simp add: lua_tostring_def lua_tonumber_def)
  moreover have "hget (stored_server E L ks rs) (aggregate_key ks) ''revision'' = Some (lua_tostring (int (length rs)))"
    by (simp add: hget_def stored_server_head(1) [OF False] head_fields_def q(6))
  moreover have "safe_nonneg (int (length rs))" using small by (simp add: safe_nonneg_def)
  ultimately show ?thesis
    using False stored_server_head(2) [OF False] existing_head_passes [OF H False r]
    by (simp add: head_guard_def commit_keys_at next_argv_status require_that_def)
qed

lemma previous_state_matches:
  assumes H: "history_ok E L i rs" and r: "next_record E i rs r"
  shows "previous_state_ok (stored_server E L ks rs) (commit_keys ks) (next_argv E L rs r rb ob e) (int (length rs))"
proof (cases "rs = []")
  case True
  with r have "rec_previous_state r = PNone" by (simp add: next_record_def opt_str_def)
  with True show ?thesis
    by (simp add: previous_state_ok_def commit_keys_at stored_server_empty next_argv_parts lua_hash_def)
next
  case False
  note h = history_okD [OF H] and q = history_ok_last [OF H False]
  have "rec_previous_state r = rec_next_state (last rs)"
    using r False next_state_opt [OF q(3)] by (simp add: next_record_def chained_append)
  then show ?thesis
    using False
    by (simp add: previous_state_ok_def commit_keys_at stored_server_head(1) [OF False] next_argv_parts head_fields_def Let_def)
qed

lemma commit_guards_pass:
  assumes H: "history_ok E L i rs" and r: "next_record E i rs r"
  shows "commit_guards L (stored_server E L ks rs) (commit_keys ks) (next_argv E L rs r rb ob e) (numbers_of r) = Inr None"
proof -
  let ?srv = "stored_server E L ks rs" and ?av = "next_argv E L rs r rb ob e"
  note h = history_okD [OF H]
  have st: "writable E r" "json_depth (stored_json r) < 1000" "rec_identity r = i" using r by (simp_all add: next_record_def)
  have fresh: "op_digest r \<notin> op_digest ` set rs" "tid_of r \<notin> tid_of ` set rs" using r by (simp_all add: next_record_def)
  have val: "validate_record E r = Inr ()" using st(1) by (simp add: writable_def)
  have op: "av_operation_type ?av \<notin> {''TASK_ADMIT'', ''TASK_COMPLETE'', ''TASK_FAIL'', ''RUN_TERMINATE''}"
    using unguarded_operation [OF r val] by (simp add: next_argv_parts)
  have types: "list_all (\<lambda>k. lua_type ?srv (commit_keys ks ! k) \<in> {''none'', ''hash''}) [0, 1, 2, 3]"
    "list_all (\<lambda>k. lua_type ?srv (commit_keys ks ! k) \<in> {''none'', ''stream''}) [4, 5]"
    by (simp_all add: commit_keys_at [unfolded One_nat_def] commit_keys_at stored_server_types)
  have inc: "incoming_record L ?av (numbers_of r) = Inr (sort_json (stored_json r))"
    unfolding next_argv_def by (rule incoming_record_stored [OF h(1-3) st(1,2)])
  have rep: "resolve_repeated L ?srv (commit_keys ks) ?av None = Inr ()"
    using stored_fresh [OF fresh(1), of E L ks]
    by (simp add: resolve_repeated_def commit_keys_at next_argv_parts next_argv_status require_that_def)
  have tid: "hget ?srv (commit_keys ks ! 1) (av_transition_id ?av) = None"
    using fresh(2) by (auto simp: commit_keys_at [unfolded One_nat_def] next_argv_parts hget_def stored_server_hashes map_of_eq_None_iff image_image)
  have own: "admit_owner L ?srv (commit_keys ks) ?av (sort_json (stored_json r)) = Inr None"
    using op by (simp add: admit_owner_def)
  have rel: "relation_guard L ?srv (commit_keys ks) ?av (sort_json (stored_json r)) None = Inr ()"
    using op by (simp add: relation_guard_def)
  have rev: "revision_guard ?srv (commit_keys ks) ?av (numbers_of r) (int (length rs)) = Inr ()"
    using next_record_revision [OF r] by (simp add: revision_guard_def numbers_of_def Let_def)
  show ?thesis
    using types tid previous_state_matches [OF H r, of ks rb ob e]
    by (simp only: commit_guards_def require_that_def conj_absorb simp_thms if_True rbind_simps inc own rep rel
        head_guard_passes [OF H st(3)] rev)
qed

section \<open>The writes extend the history\<close>

lemma stored_server_view:
  "srv_view (stored_server E L ks rs) k =
     (if k \<in> {transition_log_key ks, outbox_key ks} then if rs = [] then None else Some (ROther KStream)
      else if k = aggregate_key ks then hash_value (head_of E rs)
      else if k = transition_indexes_key ks then hash_value (map (\<lambda>r. (tid_of r, envelope_of L (index_text E r))) rs)
      else if k = receipts_key ks then hash_value (map (\<lambda>r. (op_digest r, envelope_of L (receipt_text E r))) rs)
      else if k = operation_records_key ks then hash_value (map (\<lambda>r. (op_digest r, envelope_of L (record_text E r))) rs)
      else None)"
  "srv_streams (stored_server E L ks rs) k =
     (if k = transition_log_key ks then map (\<lambda>r. log_entry r (record_text E r) (receipt_text E r)) rs
      else if k = outbox_key ks then map (\<lambda>r. outbox_entry r (intents_text E r)) rs else [])"
  by (simp_all add: stored_server_def server_of_def view_of_def stored_of_def streams_of_def entry_texts storage_envelope_lua)

lemma stored_server_head_hash: "lua_hash (stored_server E L ks rs) (aggregate_key ks) = head_of E rs"
proof (cases "rs = []")
  case True
  then show ?thesis by (simp add: lua_hash_def stored_server_empty head_of_def)
qed (simp add: stored_server_head(1) head_of_def)

lemma next_values:
  assumes "nfc_laws E" and "validate_record E r = Inr ()"
  shows "head_values (next_argv E L rs r rb ob e) (numbers_of r) = head_fields r (op_digest r) (intents_text E r)"
    "log_values (next_argv E L rs r rb ob e) (numbers_of r) = log_entry r (record_text E r) (receipt_text E r)"
    "outbox_values (next_argv E L rs r rb ob e) (numbers_of r) = outbox_entry r (intents_text E r)"
proof -
  have "str_of (rec_identity_sha256 r) = identity_sha256 (rec_identity r)"
    by (subst validated_values(4) [OF assms]) simp
  then show "head_values (next_argv E L rs r rb ob e) (numbers_of r) = head_fields r (op_digest r) (intents_text E r)"
    "log_values (next_argv E L rs r rb ob e) (numbers_of r) = log_entry r (record_text E r) (receipt_text E r)"
    "outbox_values (next_argv E L rs r rb ob e) (numbers_of r) = outbox_entry r (intents_text E r)"
    by (simp_all add: head_values_def log_values_def outbox_values_def head_fields_def log_entry_def outbox_entry_def
        next_argv_def read_argv_of numbers_of_def flag_def tid_of_def)
qed

lemma keys_differ:
  "distinct [aggregate_key ks, transition_indexes_key ks, receipts_key ks, operation_records_key ks, transition_log_key ks, outbox_key ks]"
  "distinct [outbox_key ks, transition_log_key ks, operation_records_key ks, receipts_key ks, transition_indexes_key ks, aggregate_key ks]"
  by (simp_all add: key_defs)

lemma write_commit_extends:
  assumes H: "history_ok E L i rs" and r: "next_record E i rs r"
  shows "write_commit L (commit_keys ks) (next_argv E L rs r rb ob e) (numbers_of r) None (stored_server E L ks rs)
    = stored_server E L ks (rs @ [r])"
proof -
  let ?av = "next_argv E L rs r rb ob e" and ?srv = "stored_server E L ks rs"
  let ?t = "write_commit L (commit_keys ks) ?av (numbers_of r) None ?srv" and ?u = "stored_server E L ks (rs @ [r])"
  note h = history_okD [OF H]
  have fresh: "op_digest r \<notin> op_digest ` set rs" "tid_of r \<notin> tid_of ` set rs" using r by (simp_all add: next_record_def)
  have val: "validate_record E r = Inr ()" using r by (simp add: next_record_def writable_def)
  have texts: "av_index_json ?av = index_text E r" "av_receipt_json ?av = receipt_text E r" "av_record_json ?av = record_text E r"
    by (simp_all add: next_argv_def read_argv_of)
  have hashes: "hset [(tid_of r, x)] (lua_hash ?srv (transition_indexes_key ks)) = lua_hash ?srv (transition_indexes_key ks) @ [(tid_of r, x)]"
    "hset [(op_digest r, x)] (lua_hash ?srv (receipts_key ks)) = lua_hash ?srv (receipts_key ks) @ [(op_digest r, x)]"
    "hset [(op_digest r, x)] (lua_hash ?srv (operation_records_key ks)) = lua_hash ?srv (operation_records_key ks) @ [(op_digest r, x)]"
    for x unfolding stored_server_hashes by (rule hset_fresh; use fresh in \<open>simp add: image_image\<close>)+
  have head: "head_of E (rs @ [r]) = head_fields r (op_digest r) (intents_text E r)" "hash_value (head_fields r (op_digest r) (intents_text E r)) = Some (RHash (head_fields r (op_digest r) (intents_text E r)))"
    by (simp_all add: head_of_def hash_value_def head_fields_def)
  have "srv_view ?t k = srv_view ?u k \<and> srv_streams ?t k = srv_streams ?u k" for k
    using keys_differ [of ks]
    unfolding write_commit_def write_owner_def option.case put_hash_lookup append_stream_lookup stored_server_view commit_keys_at [unfolded One_nat_def] commit_keys_at
      next_argv_parts texts next_values [OF h(1) val]
    by (simp add: hashes [unfolded stored_server_hashes] stored_server_hashes stored_server_head_hash hset_head head
        hash_value_def [of "_ @ _"])
  then have "srv_view ?t = srv_view ?u" "srv_streams ?t = srv_streams ?u" by blast+
  then show ?thesis by (cases ?t; cases ?u; simp)
qed

section \<open>A commit extends the stored journal\<close>

text \<open>One round of \<open>commit\<close> with the whole server to itself.\<close>

definition attempt_on :: "lua_lib \<Rightarrow> server \<Rightarrow> attempt" where
  "attempt_on L srv =
     \<lparr>at_operation = (\<lambda>_. Some (srv_view srv)), at_head = (\<lambda>_. Some (srv_view srv)), at_parent = (\<lambda>_. Some (srv_view srv)),
      at_script = (\<lambda>keys args. case snd (commit_script L keys args srv) of Inl _ \<Rightarrow> Inl RedisFailure | Inr ans \<Rightarrow> Inr ans)\<rparr>"

lemma script_commits:
  assumes H: "history_ok E L i rs" and r: "next_record E i rs r"
  shows "commit_script L (commit_keys ks) (commit_argv_of E r rb ob pv_absent (head_prevalidation E L rs) e) (stored_server E L ks rs)
    = (stored_server E L ks (rs @ [r]),
       Inr (conflict_result ''COMMITTED'' (tid_of r) (lua_tostring (int_of (rec_to_revision r))) []))"
proof -
  note h = history_okD [OF H]
  have val: "validate_record E r = Inr ()" using r by (simp add: next_record_def writable_def)
  have pair: "conflict_pair_state (stored_server E L ks rs) (conflict_index_key ks) (conflicts_key ks) = Inr 0"
    by (simp add: conflict_pair_state_def stored_server_types)
  show ?thesis
    using pair check_arguments_stored [OF h(1) val, of rb ob pv_absent "head_prevalidation E L rs" e]
      commit_guards_pass [OF H r, of ks rb ob e] write_commit_extends [OF H r, of ks rb ob e]
    by (simp add: commit_script_def commit_keys_at next_argv_def [symmetric]) (simp add: next_argv_parts numbers_of_def)
qed

lemma commit_on_stored:
  assumes H: "history_ok E L i rs" and r: "next_record E i rs r" and ks: "make_keyspace (identity_sha256 i) ns = Inr ks"
    and plan: "plan_record plan = r" "plan_receipt plan = new_receipt r" "plan_identity plan = rec_identity r"
      "plan_revision plan = rec_to_revision r" and small: "int (length rs) + 1 < 10 ^ 14"
  shows "commit E ns plan rb ob (\<lambda>_. attempt_on L (stored_server E L ks rs))
    = Inr \<lparr>cr_status = CS_COMMITTED, cr_transition_id = Some (tid_of r),
        cr_aggregate_revision = Some (int_of (rec_to_revision r)), cr_detail = []\<rparr>"
proof -
  note h = history_okD [OF H]
  have st: "writable E r" "rec_identity r = i" "op_digest r \<notin> op_digest ` set rs" using r by (simp_all add: next_record_def)
  have val: "validate_record E r = Inr ()" using st(1) by (simp add: writable_def)
  note v = validated_values [OF h(1) val] and rev = next_record_revision [OF r]
  obtain e where args: "\<And>rb ob op_pv head_pv. commit_args E r (new_receipt r) rb ob op_pv head_pv [] []
    = Inr (commit_argv_of E r rb ob op_pv head_pv e)" by (rule commit_args_stored [OF h(1-3) st(1)]) blast
  have sha: "str_of (rec_identity_sha256 r) = identity_sha256 i" by (subst v(4)) (simp add: st(2))
  have ok: "validate_plan E plan = Inr ()"
    using val new_receipt_valid [OF h(1), of r] new_receipt_matches'
    by (auto simp: validate_plan_def Let_def plan is_ok_iff)
  have unguarded: "\<not> is_operation r TASK_ADMIT" "\<not> is_operation r TASK_COMPLETE" "\<not> is_operation r TASK_FAIL"
    "\<not> is_operation r RUN_TERMINATE" using r by (simp_all add: next_record_def guarded_operations_def)
  have reply: "parse_commit_result (conflict_result ''COMMITTED'' (tid_of r) (lua_tostring (int_of (rec_to_revision r))) [])
      = Inr \<lparr>cr_status = CS_COMMITTED, cr_transition_id = Some (tid_of r),
          cr_aggregate_revision = Some (int_of (rec_to_revision r)), cr_detail = []\<rparr>"
    using commit_reply_reads_back [of "Some (int_of (rec_to_revision r))" "Some (tid_of r)" CS_COMMITTED "[]"] v(3) rev small
    by (simp add: conflict_result_def)
  have "commit_attempt E ns ks r (new_receipt r) rb ob (attempt_on L (stored_server E L ks rs))
      = Inr \<lparr>cr_status = CS_COMMITTED, cr_transition_id = Some (tid_of r),
          cr_aggregate_revision = Some (int_of (rec_to_revision r)), cr_detail = []\<rparr>"
    by (simp add: commit_attempt_def attempt_on_def operation_prevalidated [OF h(1) val st(3)] head_prevalidated [OF H ks]
        parent_guard_def unguarded args script_commits [OF H r] reply)
  moreover have "map (\<lambda>_. a) [0..<3] = [a, a, a]" for a :: attempt by (simp add: upt_rec)
  ultimately show ?thesis by (simp add: commit_def commit_impl_def ok plan sha ks)
qed

text \<open>
  C2. The store refines the journal. Take a reachable journal whose commits are on the server, and a
  command that the evaluator accepts at its head, for any operation that reads no other aggregate. Then
  \<open>commit\<close> of the plan answers \<open>COMMITTED\<close> with the new transition id and revision at its first attempt,
  and the run of the Lua script that it makes, with the arguments that \<open>commit\<close> computes, leaves the
  server exactly as the journal with the new record is stored: head, indexes, receipts, records, log
  and outbox.
\<close>

theorem commit_extends_journal:
  assumes "nfc_laws E" and "jcs_reads E" and "lua_reads L" and "(journal_step E i)\<^sup>*\<^sup>* empty_journal j"
    and "command_wf E c" and "cmd_identity c = i"
    and "evaluate_authority_commit E x c (PInt (j_revision j)) (opt_str (j_state j)) (j_receipts j (cmd_operation_id c)) ms corr = Inr ev"
    and "eval_commit_plan ev = Some plan" and "cmd_operation_type c \<notin> guarded_operations"
    and "list_all (\<lambda>r. writable E r \<and> json_depth (stored_json r) < 1000) (j_records (commit_to_journal j plan))"
    and "distinct (map op_digest (j_records (commit_to_journal j plan)))" and "j_revision (commit_to_journal j plan) < 10 ^ 14"
    and "make_keyspace (identity_sha256 i) namespace = Inr ks"
  shows "\<exists>st ss st' ss' head_pv args.
      store_history E (lua_envelope L) empty_aggregate (j_records j) = Inr st \<and> store_streams E empty_streams (j_records j) = Inr ss
    \<and> store_history E (lua_envelope L) empty_aggregate (j_records (commit_to_journal j plan)) = Inr st'
    \<and> store_streams E empty_streams (j_records (commit_to_journal j plan)) = Inr ss'
    \<and> commit E namespace plan rb ob (\<lambda>_. attempt_on L (server_of ks st ss))
        = Inr \<lparr>cr_status = CS_COMMITTED, cr_transition_id = Some (str_of (rec_transition_id (plan_record plan))),
            cr_aggregate_revision = Some (j_revision j + 1), cr_detail = []\<rparr>
    \<and> prevalidate_head_proof E ks (\<lambda>_. Some (srv_view (server_of ks st ss))) = Inr head_pv
    \<and> commit_args E (plan_record plan) (plan_receipt plan) rb ob pv_absent head_pv [] [] = Inr args
    \<and> fst (commit_script L (commit_keys ks) args (server_of ks st ss)) = server_of ks st' ss'"
proof -
  let ?rs = "j_records j" and ?j' = "commit_to_journal j plan" and ?r = "plan_record plan"
  have W: "cjson_reads (lua_envelope L)" using assms(3) by (simp add: lua_reads_def)
  from evaluate_plan_recordD [OF assms(7,8)] obtain w m k r where nr: "new_record E c w m k = Inr r" and plan: "plan = plan_of c r" by blast
  note f = new_record_fields [OF nr]
  have recs: "j_records ?j' = ?rs @ [r]" by (simp add: commit_to_journal_def plan plan_of_def)
  have "journal_step E i j ?j'" by (rule journal_step.commit [OF assms(5-8)])
  with assms(4) have reach: "(journal_step E i)\<^sup>*\<^sup>* empty_journal ?j'" by (rule rtranclp.rtrancl_into_rtrancl)
  have st: "list_all (writable E) (?rs @ [r])" using assms(10) by (simp add: list_all_iff recs)
  then have st0: "list_all (writable E) ?rs" by simp
  have d0: "distinct (map op_digest ?rs)" using assms(11) by (simp add: recs)
  note J = journal_stored [OF assms(1,2) W assms(4) st0 d0]
    and J' = journal_stored [OF assms(1,2) W reach st [folded recs] assms(11), unfolded recs]
  have small: "int (length ?rs) + 1 < 10 ^ 14" using assms(12) J'(4) recs by simp
  have H: "history_ok E L i ?rs"
    using assms(1-3,10) st0 J(1,2) d0 small by (simp add: history_ok_def list_all_iff recs)
  have "\<not> is_operation r op" if "op \<in> guarded_operations" for op
    using that assms(9) f(8) by (auto simp: is_operation_def operation_value_inj)
  then have next_r: "next_record E i ?rs r"
    using st assms(10,11) J'(1-3) f(9) assms(6) by (auto simp: next_record_def list_all_iff recs)
  have parts: "plan_record plan = r" "plan_receipt plan = new_receipt r" "plan_identity plan = rec_identity r"
    "plan_revision plan = rec_to_revision r" using f(9) by (simp_all add: plan plan_of_def)
  have rev: "int_of (rec_to_revision r) = j_revision j + 1" using next_record_revision [OF next_r] J(4) by simp
  have "writable E r" using st by simp
  obtain e where "\<And>rb ob op_pv head_pv. commit_args E r (new_receipt r) rb ob op_pv head_pv [] []
    = Inr (commit_argv_of E r rb ob op_pv head_pv e)" by (rule commit_args_stored [OF assms(1-3) \<open>writable E r\<close>]) blast
  then show ?thesis
    using J(5,6) J'(5,6) commit_on_stored [OF H next_r assms(13) parts small, of rb ob] head_prevalidated [OF H assms(13)]
      script_commits [OF H next_r, of ks rb ob e] rev
    by (simp add: recs parts stored_server_def tid_of_def)
qed

section \<open>Witnesses\<close>

text \<open>A Lua runtime made of the standard library's encoder and of the decoder modelled here.\<close>

fun json_of_py :: "pyval \<Rightarrow> json" where
  "json_of_py (PBool b) = JBool b"
| "json_of_py (PInt n) = JInt n"
| "json_of_py (PFloat x) = JFloat x"
| "json_of_py (PStr s) = JStr s"
| "json_of_py (PSeq vs) = JArr (map json_of_py vs)"
| "json_of_py (PMap kvs) = JObj (map (\<lambda>kv. (str_of (fst kv), json_of_py (snd kv))) kvs)"
| "json_of_py _ = JNull"

lemma json_of_py_inverts: "json_of_py (py_of_json j) = j"
proof (induction j)
  case (JArr js)
  then show ?case by (simp add: map_idI)
next
  case (JObj kvs)
  then show ?case by (auto simp: comp_def intro!: map_idI)
qed simp_all

definition json_lua :: lua_lib where
  "json_lua =
     \<lparr>lb_decode = (\<lambda>b. case json_loads b of Inl _ \<Rightarrow> None | Inr v \<Rightarrow> Some (json_of_py v)),
      lb_encode = json_dumps (\<lambda>_. ''0.0''), lb_show = (\<lambda>_. []), lb_arg = (\<lambda>_. []), lb_pttl = (\<lambda>_. -1)\<rparr>"

lemma json_lua_envelope: "lua_envelope json_lua = json_envelope"
  by (simp add: fun_eq_iff lua_envelope_def json_envelope_def json_lua_def)

lemma json_lua_reads: "lua_reads json_lua"
proof -
  have env: "lb_decode json_lua (json_envelope p d) = Some (JObj [(''payload'', JStr p), (''storage_sha1'', JStr d)])"
    if "is_ascii p" "is_ascii d" for p d
  proof -
    have "json_plain (JObj [(''payload'', JStr p), (''storage_sha1'', JStr d)])"
      using that by (simp add: is_ascii_def [of "''payload''"] is_ascii_def [of "''storage_sha1''"])
    from json_loads_dumps [OF this] show ?thesis by (simp add: json_envelope_def json_lua_def)
  qed
  show ?thesis
    unfolding lua_reads_def json_lua_envelope
  proof (intro conjI allI impI)
    show "cjson_reads json_envelope" by (rule json_externals_laws(4))
  next
    fix b j
    assume "json_loads b = Inr (py_of_json (sort_json j))"
    then show "lb_decode json_lua b = Some (sort_json j)" by (simp add: json_lua_def json_of_py_inverts)
  next
    fix p d
    assume "is_ascii p" "is_ascii d"
    from env [OF this] show "\<exists>kvs. lb_decode json_lua (json_envelope p d) = Some (JObj kvs) \<and> fst ` set kvs = {''payload'', ''storage_sha1''}
        \<and> map_of kvs ''payload'' = Some (JStr p) \<and> map_of kvs ''storage_sha1'' = Some (JStr d)" by auto
  qed
qed

text \<open>The creation of a run, on the empty server.\<close>

definition demo_run :: aggregate_identity where
  "demo_run = \<lparr>id_aggregate_type = RUN, id_run_id = ''run-1'', id_task_id = None\<rparr>"

definition demo_create :: authority_command where
  "demo_create =
     \<lparr>cmd_identity = demo_run, cmd_operation_type = RUN_CREATE, cmd_operation_id = ''create-1'',
      cmd_expected_revision = 0, cmd_previous_state = None, cmd_next_state = Some ''pending'',
      cmd_payload = JNull, cmd_metadata_changes = JNull, cmd_child_effects = JNull,
      cmd_projection_intents = [JObj [(''kind'', JStr ''RUN_STATUS_PROJECTION'')]], cmd_causation_id = None\<rparr>"

definition run_writer :: authority_context where
  "run_writer =
     \<lparr>ctx_writer_id = ''writer-1'', ctx_allowed_operations = {RUN_CREATE},
      ctx_target_sha256 = identity_sha256 demo_run, ctx_fence_required = False, ctx_fence_valid = False\<rparr>"

definition demo_run_keys :: keyspace where
  "demo_run_keys = \<lparr>ks_identity_sha256 = identity_sha256 demo_run, ks_namespace = ''hfa:authority:v1''\<rparr>"

lemma demo_run_keyspace: "make_keyspace (identity_sha256 demo_run) ''hfa:authority:v1'' = Inr demo_run_keys"
  by (simp add: make_keyspace_def sha256_text_def demo_run_keys_def)

lemma demo_create_wf: "command_wf json_externals demo_create" "cmd_identity demo_create = demo_run"
    "cmd_operation_type demo_create \<notin> guarded_operations"
  by (simp_all add: command_wf_def demo_create_def opt_wf_def max_safe_integer_def demo_run_def identity_wf_def
      projection_kinds_def nfc_def guarded_operations_def)

lemma demo_create_accepted:
  obtains ev r where "new_record json_externals demo_create ''writer-1'' 5 None = Inr r"
    "evaluate_authority_commit json_externals run_writer demo_create (PInt (j_revision empty_journal)) (opt_str (j_state empty_journal))
      (j_receipts empty_journal (cmd_operation_id demo_create)) (PInt 5) PNone = Inr ev"
    "eval_commit_plan ev = Some (plan_of demo_create r)"
proof -
  have c: "permits run_writer demo_create"
    "oc_mutation_class (operation_contracts (cmd_operation_type demo_create)) = ACCEPTED_AUTHORITY_MUTATION"
    "cmd_expected_revision demo_create < max_safe_integer"
    "is_ok (validate_operation_contract json_externals (cmd_operation_type demo_create)
      (id_aggregate_type (cmd_identity demo_create)) (cmd_previous_state demo_create) (cmd_next_state demo_create)
      (cmd_projection_intents demo_create))"
    by (auto simp: demo_create_def max_safe_integer_def projection_kinds_def nfc_def permits_def run_writer_def
        validate_operation_contract_def demo_run_def Let_def)
  have w: "ctx_writer_id run_writer \<noteq> []" "(0::int) \<le> 5" "(5::int) \<le> max_safe_integer" "opt_wf json_externals None"
    by (simp_all add: run_writer_def max_safe_integer_def opt_wf_def)
  from evaluate_legal [OF json_externals_laws(1,2) demo_create_wf(1) c(1) w(1) json_externals_nfc c(2-4) w(2-4)] that
  show thesis by (auto simp: empty_journal_def demo_create_def run_writer_def opt_str_def)
qed

lemma demo_create_storable:
  assumes "new_record json_externals demo_create ''writer-1'' 5 None = Inr r"
  shows "storable json_externals r" "json_depth (stored_json r) < 1000"
proof -
  from assms obtain tid ch h where r: "r = (provisional_record demo_create ch tid ''writer-1'' 5 None)\<lparr>rec_record_hash := PStr h\<rparr>"
    and ids: "transition_id (PStr (identity_sha256 (cmd_identity demo_create))) (PInt (cmd_expected_revision demo_create + 1))
       (cmd_operation_id demo_create) = Inr tid"
      "command_hash json_externals demo_create = Inr ch"
      "canonical_json_sha256 json_externals (immutable_payload (provisional_record demo_create ch tid ''writer-1'' 5 None)) = Inr h"
    by (rule new_record_okD) blast
  have hs: "is_ascii tid" "sha256_re ch" "sha256_re h"
    using transition_id_ascii [OF ids(1)] canonical_json_sha256_re ids(2,3) by (auto simp: command_hash_def)
  have val: "validate_record json_externals r = Inr ()" by (rule new_record_fields(10) [OF assms])
  have ascii: "is_ascii (identity_sha256 i)" "is_ascii ch" "is_ascii h" for i
    using sha256_re_ascii hs identity_sha256_re by blast+
  show "storable json_externals r"
    using val hs(1) ascii
    by (simp add: storable_def writable_def)
      (simp add: r provisional_record_def demo_create_def demo_run_def stored_json_def jscalar_def identity_json_def
        opt_json_def max_safe_integer_def identity_wf_def, simp add: is_ascii_def)
  show "json_depth (stored_json r) < 1000"
    by (simp add: r provisional_record_def demo_create_def demo_run_def stored_json_def jscalar_def identity_json_def opt_json_def)
qed

theorem commit_extends_journal_witness:
  "\<exists>plan st ss. store_history json_externals json_envelope empty_aggregate [] = Inr st \<and> store_streams json_externals empty_streams [] = Inr ss
     \<and> commit json_externals ''hfa:authority:v1'' plan False False (\<lambda>_. attempt_on json_lua (server_of demo_run_keys st ss))
       = Inr \<lparr>cr_status = CS_COMMITTED, cr_transition_id = Some (str_of (rec_transition_id (plan_record plan))),
           cr_aggregate_revision = Some 1, cr_detail = []\<rparr>"
proof -
  obtain ev r where r: "new_record json_externals demo_create ''writer-1'' 5 None = Inr r"
    "evaluate_authority_commit json_externals run_writer demo_create (PInt (j_revision empty_journal)) (opt_str (j_state empty_journal))
      (j_receipts empty_journal (cmd_operation_id demo_create)) (PInt 5) PNone = Inr ev"
    "eval_commit_plan ev = Some (plan_of demo_create r)" by (rule demo_create_accepted)
  have "list_all (\<lambda>r. writable json_externals r \<and> json_depth (stored_json r) < 1000) (j_records (commit_to_journal empty_journal (plan_of demo_create r)))"
    "distinct (map op_digest (j_records (commit_to_journal empty_journal (plan_of demo_create r))))"
    "j_revision (commit_to_journal empty_journal (plan_of demo_create r)) < 10 ^ 14"
    using storable_writable [OF demo_create_storable(1) [OF r(1)]] demo_create_storable(2) [OF r(1)] new_record_fields(7) [OF r(1)]
    by (simp_all add: commit_to_journal_def plan_of_def empty_journal_def demo_create_def)
  from commit_extends_journal [OF json_externals_laws(1,3) json_lua_reads rtranclp.rtrancl_refl demo_create_wf(1,2) r(2,3) demo_create_wf(3) this
      demo_run_keyspace, of False False]
  show ?thesis
    by (intro exI [of _ "plan_of demo_create r"]) (auto simp: empty_journal_def json_lua_envelope)
qed

text \<open>The same run of the script, for the properties of \<open>CommitEffects\<close>.\<close>

lemma demo_committed_run:
  obtains argv r ans where
    "commit_script json_lua (commit_keys demo_run_keys) argv (stored_server json_externals json_lua demo_run_keys [])
      = (stored_server json_externals json_lua demo_run_keys [r], ans)" "is_committed ans"
proof -
  obtain ev r where r: "new_record json_externals demo_create ''writer-1'' 5 None = Inr r" by (rule demo_create_accepted)
  note f = new_record_fields [OF r]
  have H: "history_ok json_externals json_lua demo_run []"
    using json_externals_laws json_lua_reads by (simp add: history_ok_def)
  have "next_record json_externals demo_run [] r"
    using storable_writable [OF demo_create_storable(1) [OF r]] demo_create_storable(2) [OF r] f(4,6-9) by (simp add: next_record_def demo_create_def guarded_operations_def is_operation_def)
  from script_commits [OF H this, of demo_run_keys False False "[]"] show thesis
    by (intro that) (auto simp: is_committed_def)
qed

lemma demo_run_distinct: "distinct (commit_keys demo_run_keys)"
  by (simp add: commit_keys_def key_defs conflict_index_key_def conflicts_key_def)

theorem commit_all_or_nothing_witness:
  "\<exists>argv srv' ans. commit_script json_lua (commit_keys demo_run_keys) argv (stored_server json_externals json_lua demo_run_keys []) = (srv', ans)
     \<and> is_committed ans \<and> length (srv_streams srv' (outbox_key demo_run_keys)) = 1"
proof -
  obtain argv r ans where run: "commit_script json_lua (commit_keys demo_run_keys) argv (stored_server json_externals json_lua demo_run_keys [])
      = (stored_server json_externals json_lua demo_run_keys [r], ans)" "is_committed ans" by (rule demo_committed_run)
  have "8 \<le> length (commit_keys demo_run_keys)" by (simp add: commit_keys_at)
  from commit_all_or_nothing [OF run(1) demo_run_distinct this] run(2)
  have "length (srv_streams (stored_server json_externals json_lua demo_run_keys [r]) (outbox_key demo_run_keys)) = 1"
    by (auto simp: Let_def commit_keys_at stored_server_empty)
  with run show ?thesis by blast
qed

theorem one_history_per_aggregate_witness:
  "\<exists>s. aggregate_inv demo_run_keys s \<and> length (log_of demo_run_keys s) = 1
     \<and> history_kept demo_run_keys (stored_server json_externals json_lua demo_run_keys []) s"
proof -
  let ?s0 = "stored_server json_externals json_lua demo_run_keys []"
  obtain argv r ans where run: "commit_script json_lua (commit_keys demo_run_keys) argv ?s0
      = (stored_server json_externals json_lua demo_run_keys [r], ans)" by (rule demo_committed_run)
  have "commit_step json_lua (\<lambda>_. []) (\<lambda>_. None) demo_run_keys ?s0 (stored_server json_externals json_lua demo_run_keys [r])"
    using commit_run [of json_lua demo_run_keys "[]"] run demo_run_distinct by simp
  then have step: "(commit_step json_lua (\<lambda>_. []) (\<lambda>_. None) demo_run_keys)\<^sup>*\<^sup>* ?s0 (stored_server json_externals json_lua demo_run_keys [r])" by blast
  have absent: "aggregate_absent demo_run_keys ?s0" by (simp add: aggregate_absent_def stored_server_empty)
  from one_history_per_aggregate [OF absent step rtranclp.rtrancl_refl] one_history_per_aggregate [OF absent rtranclp.rtrancl_refl step]
  show ?thesis by (intro exI [of _ "stored_server json_externals json_lua demo_run_keys [r]"]) (simp add: log_of_def stored_server_streams)
qed

end
