(* ===== verification/AdmissionProperties.thy ===== *)
theory AdmissionProperties
  imports AdmissionAccounting CommitRefinement
begin

text \<open>
  What a client of the reservation manager relies on: the snapshot of a tenant is what its receipts
  hold, limits are respected, a held reservation can be given back, finalization and settlement rest
  on accepted records of the canonical authority, and a receipt reads back as it was written.
\<close>

section \<open>Replies\<close>

lemmas resource_keys_plain [simp] = resource_keys_nth [where hk = "[]", unfolded append_Nil2]

text \<open>No exception seen after a run of the script asks the loader for another run.\<close>

definition plain_net :: "(nat \<Rightarrow> fate) \<Rightarrow> bool" where
  "plain_net net \<longleftrightarrow> (\<forall>i m. net i = Ran_unseen m \<longrightarrow> \<not> retried_error m)"

lemma script_answers: "\<exists>rep. snd (reservation_script L keys argv s) = Inr rep"
proof -
  obtain s' r where run: "reservation_script L keys argv s = (s', r)" by fastforce
  then have "\<exists>rep. r = Inr rep" by (cases rule: reservation_script_cases) (auto simp: refusal_def)
  with run show ?thesis by simp
qed

lemma call_script_reply:
  assumes "call_script L net keys argv (M, h) = ((M', h'), Inr rep)" "plain_net net"
  shows "reservation_script L keys argv (host_data h) = (host_data h', Inr rep)"
proof -
  obtain ld x where lr: "loader_run (reservation_script L keys argv) (\<lambda>i. net (Suc i)) (mg_loader M, h) = ((ld, h'), x)"
      "Inr rep = (case x of Inl e \<Rightarrow> Inl (ResourceCallError (loader_message e)) | Inr y \<Rightarrow> Inr y)"
    using assms(1) by (auto simp: call_script_def through_loader_iff)
  then have run: "loader_run (reservation_script L keys argv) (\<lambda>i. net (Suc i)) (mg_loader M, h) = ((ld, h'), Inr rep)"
    by (cases x) auto
  have "host_data h' = fst (reservation_script L keys argv (host_data h))
      \<and> snd (reservation_script L keys argv (host_data h)) = Inr rep"
    using run
  proof (rule loader_run_reply)
    show "\<not> retried_error m" if "net (Suc 0) = Ran_unseen m" for m using that assms(2) by (simp add: plain_net_def)
    show "\<not> retried_error m" if "snd (reservation_script L keys argv (host_data h)) = Inl m" for m
      using that script_answers [of L keys argv "host_data h"] by auto
  qed
  then show ?thesis by (metis surj_pair fst_conv snd_conv)
qed

lemma execute_reply:
  assumes "execute E L net action r now c b i hk w (M, h) = ((M', h'), Inr res)" "plain_net net"
  obtains cl bl il ttl rep where "optional_limit ''concurrent_run_limit'' c = Inr cl" "optional_limit ''budget_limit_cents'' b = Inr bl"
    "optional_limit ''tenant_inflight_limit'' i = Inr il"
    "reservation_script L (resource_keys (rsv_operation_id r) (rsv_tenant_id r) @ hk)
       (reservation_argv action r now cl bl il ttl w) (host_data h) = (host_data h', Inr rep)"
    "res = parse_reply (rsv_operation_id r) (reservation_proof r) rep"
    "checked_receipt_key E (rsv_operation_id r) = Inr (reservation_receipt_key (rsv_operation_id r))"
  using assms(1)
proof (cases rule: execute_cases)
  case (2 M1 h1 M2 h2 x cl bl il)
  from 2(8) obtain rep where x: "x = Inr rep" "res = parse_reply (rsv_operation_id r) (reservation_proof r) rep"
    by (cases x) auto
  have "reservation_script L (resource_keys (rsv_operation_id r) (rsv_tenant_id r) @ hk)
       (reservation_argv action r now cl bl il (mg_released_ttl M1) w) (host_data h1) = (host_data h2, Inr rep)"
    using 2(7) x assms(2) by (auto intro: call_script_reply)
  with 2(2-5) x(2) initialise_manager_data(1) [OF 2(1)] checked_resource_keys_Inr(3) [OF 2(6)] show thesis
    by (intro that) auto
qed simp

lemma reservation_script_status:
  assumes "reservation_script L keys argv s = (s', Inr (status, state, mutated))"
    and "status \<in> {''reserved'', ''finalized'', ''released'', ''settled''}"
  shows "\<not> refusal (Inr (status, state, mutated))"
  using assms(2) by (auto simp: refusal_def)

section \<open>The served network\<close>

definition served_net :: "nat \<Rightarrow> fate" where
  "served_net = (\<lambda>_. Served)"

definition loader_ready :: "loader \<Rightarrow> bool" where
  "loader_ready ld \<longleftrightarrow>
     script_text ld \<noteq> [] \<and> ld_source ld \<in> {None, Some (script_text ld)} \<and> (ld_sha ld \<noteq> None \<longrightarrow> ld_source ld \<noteq> None)"

definition manager_ready :: "manager \<Rightarrow> bool" where
  "manager_ready M \<longleftrightarrow>
     loader_ready (mg_loader M) \<and> (mg_initialised M \<longrightarrow> ld_source (mg_loader M) \<noteq> None)
     \<and> 1 \<le> mg_released_ttl M \<and> mg_released_ttl M \<le> max_safe_integer"

lemma noscript_is_noscript: "is_noscript_error noscript_message"
  by code_simp

lemma served_fate [simp]: "under_fate Served serve h = serve h"
  by (simp add: under_fate_def)

lemma loader_run_served:
  assumes "loader_ready ld" "ld_source ld \<noteq> None" "snd (X (host_data h)) = Inr x"
  obtains ld' h' where "loader_run X (\<lambda>_. Served) (ld, h) = ((ld', h'), Inr x)" "host_data h' = fst (X (host_data h))"
proof (cases "ld_sha ld")
  case None
  obtain h' r where e: "eval_text X (script_text ld) h = (h', r)" by fastforce
  then have "host_data h' = fst (X (host_data h))" "r = Inr x"
    using host_simps(3) [of X "script_text ld" h] host_simps(5) [of X "script_text ld" h] assms(3) by simp_all
  moreover have "ld_source ld = Some (script_text ld)" "script_text ld \<noteq> []" using assms(1,2) by (auto simp: loader_ready_def)
  ultimately show thesis using None e assms(3) by (intro that) (auto simp: loader_run_def as_call_def)
next
  case (Some digest)
  show thesis
  proof (cases "digest \<in> set (host_scripts h)")
    case True
    obtain h' r where e: "run_body X h = (h', r)" by fastforce
    then have "host_data h' = fst (X (host_data h))" "r = Inr x"
      using host_simps(1) [of X h] host_simps(4) [of X h] assms(3) by simp_all
    with Some True e show thesis by (intro that) (auto simp: loader_run_def evalsha_def)
  next
    case False
    let ?t = "script_text ld"
    let ?h1 = "h\<lparr>host_scripts := List.insert (sha1_hexdigest ?t) (host_scripts h)\<rparr>"
    have src: "ld_source ld = Some ?t" using assms(1,2) by (auto simp: loader_ready_def)
    obtain h' r where e: "run_body X ?h1 = (h', r)" by fastforce
    then have "host_data h' = fst (X (host_data h))" "r = Inr x"
      using host_simps(1) [of X ?h1] host_simps(4) [of X ?h1] assms(3) by simp_all
    moreover have "evalsha X (sha1_hexdigest ?t) ?h1 = run_body X ?h1" by (simp add: evalsha_def)
    ultimately show thesis using Some False src e
      by (intro that) (auto simp: loader_run_def evalsha_def noscript_is_noscript reload_script_def script_load_def as_call_def Let_def)
  qed
qed

lemma initialise_served:
  assumes "manager_ready M"
  obtains M1 h1 where "initialise_manager Served (M, h) = ((M1, h1), Inr ())" "manager_ready M1"
    "ld_source (mg_loader M1) \<noteq> None" "host_data h1 = host_data h" "mg_released_ttl M1 = mg_released_ttl M"
proof (cases "mg_initialised M")
  case True
  with assms show thesis by (intro that [of M h]) (auto simp: initialise_manager_def manager_ready_def)
next
  case False
  let ?ld = "(mg_loader M)\<lparr>ld_source := Some (script_text (mg_loader M)), ld_sha := Some (sha1_hexdigest (script_text (mg_loader M)))\<rparr>"
  show thesis using assms False
    by (intro that [of "M\<lparr>mg_loader := ?ld, mg_initialised := True\<rparr>" "fst (script_load (script_text (mg_loader M)) h)"])
      (auto simp: initialise_manager_def through_loader_def load_script_def script_load_def manager_ready_def loader_ready_def Let_def)
qed

lemma call_script_served:
  assumes "manager_ready M" "ld_source (mg_loader M) \<noteq> None" "reservation_script L keys argv (host_data h) = (s', Inr rep)"
  obtains M' h' where "call_script L served_net keys argv (M, h) = ((M', h'), Inr rep)" "host_data h' = s'"
proof -
  obtain ld' h' where "loader_run (reservation_script L keys argv) (\<lambda>_. Served) (mg_loader M, h) = ((ld', h'), Inr rep)"
    "host_data h' = fst (reservation_script L keys argv (host_data h))"
    using assms by (auto simp: manager_ready_def intro: loader_run_served [of "mg_loader M" "reservation_script L keys argv" h rep])
  with assms(3) show thesis by (intro that) (auto simp: call_script_def through_loader_def served_net_def)
qed

section \<open>Reservations as the caller makes them\<close>

definition reservation_wf :: "externals \<Rightarrow> reservation \<Rightarrow> bool" where
  "reservation_wf E r \<longleftrightarrow>
     required_exact_text E ''operation_id'' (PStr (rsv_operation_id r)) = Inr (rsv_operation_id r)
     \<and> create_operation_re (rsv_operation_id r)
     \<and> required_exact_text E ''run_id'' (PStr (rsv_run_id r)) = Inr (rsv_run_id r)
     \<and> required_exact_text E ''tenant_id'' (PStr (rsv_tenant_id r)) = Inr (rsv_tenant_id r)
     \<and> 0 \<le> rsv_cost r \<and> rsv_cost r \<le> max_safe_integer \<and> rsv_version r = 1"

lemma required_exact_text_Inr: "required_exact_text E name v = Inr s \<longleftrightarrow>
    v = PStr s \<and> s \<noteq> [] \<and> s = py_strip s \<and> nfc_normalize E s = s"
  by (auto simp: required_exact_text_def split: pyval.splits)

lemma safe_integer_Inr: "safe_integer name lo v = Inr n \<longleftrightarrow> v = PInt n \<and> lo \<le> n \<and> n \<le> max_safe_integer"
  by (auto simp: safe_integer_def split: pyval.splits)

lemma make_reservation_wf: "make_reservation E a b c d e = Inr r \<Longrightarrow> reservation_wf E r"
  by (auto simp: make_reservation_def rbind_Inr_iff reservation_wf_def required_exact_text_Inr safe_integer_Inr split: if_splits)

lemma limit_text: "optional_limit name (PInt c) = Inr n \<Longrightarrow> n = c \<and> script_limit (dec_int c) = Some c \<and> 0 \<le> c"
proof -
  assume "optional_limit name (PInt c) = Inr n"
  then have c: "n = c" "0 \<le> c" "c \<le> max_safe_integer" by (auto simp: optional_limit_def safe_integer_Inr)
  have "dec_int (-1) = ''-1''" by code_simp
  then have "dec_int c \<noteq> ''-1''" using c(2) dec_int_inj [of c "-1"] by auto
  with c show ?thesis by (simp add: script_limit_def)
qed

lemma limits_of_argv:
  "script_limit ''-1'' = Some (-1)" "dec_int (-1) = ''-1''"
  by (simp add: script_limit_def) code_simp

lemma decimal_one: "decimal_integer (dec_int 1) 1 = Some 1"
  by code_simp

lemma decimal_positive: "1 \<le> n \<Longrightarrow> n \<le> max_safe_integer \<Longrightarrow> decimal_integer (dec_int n) 1 = Some n"
proof -
  assume n: "1 \<le> n" "n \<le> max_safe_integer"
  then have "decimal_integer (dec_int n) 0 = Some n" by simp
  with n show ?thesis by (auto simp: decimal_integer_def Let_def split: if_splits)
qed

lemma reservation_proof_re: "sha256_re (reservation_proof r)"
  by (simp add: reservation_proof_def)

lemma required_nonempty: "required_exact_text E name (PStr s) = Inr s \<Longrightarrow> s \<noteq> []"
  by (simp add: required_exact_text_Inr)

lemma checked_cost_of:
  assumes "reservation_wf E r" "action \<in> {''reserve'', ''finalize'', ''release''}" "0 \<le> ms" "ms \<le> max_safe_integer"
    "1 \<le> ttl" "ttl \<le> max_safe_integer"
    "script_limit (dec_int c) \<noteq> None" "script_limit (dec_int b) \<noteq> None" "script_limit (dec_int i) \<noteq> None"
  shows "checked_cost (reservation_argv action r ms c b i ttl w) = Some (rsv_cost r)"
  using assms
  by (auto simp: checked_cost_def reservation_argv_nth reservation_argv_nth(1) [unfolded One_nat_def] reservation_wf_def decimal_positive reservation_proof_re decimal_one
      dest!: required_nonempty)

lemma adjusted_each:
  assumes "read_initial_counter s (concurrent_run_key t) = Some n" "read_initial_counter s (budget_reserved_key t) = Some b"
    "read_initial_counter s (tenant_inflight t) = Some k"
    and "0 \<le> n + e" "n + e \<le> max_safe_integer" "0 \<le> b + d" "b + d \<le> max_safe_integer" "0 \<le> k + e" "k + e \<le> max_safe_integer"
  shows "read_active_counter (adjusted t e d s) (concurrent_run_key t) = Some (n + e)"
    "read_active_counter (adjusted t e d s) (budget_reserved_key t) = Some (b + d)"
    "read_active_counter (adjusted t e d s) (tenant_inflight t) = Some (k + e)"
proof -
  let ?s1 = "incr_by (concurrent_run_key t) e s"
  let ?s2 = "incr_by (budget_reserved_key t) d ?s1"
  have 1: "read_active_counter ?s1 (concurrent_run_key t) = Some (n + e)" using assms by (intro incr_by_counter)
  have 2: "read_active_counter ?s2 (budget_reserved_key t) = Some (b + d)"
    using assms by (intro incr_by_counter) (simp_all add: incr_by_initial)
  show "read_active_counter (adjusted t e d s) (tenant_inflight t) = Some (k + e)"
    unfolding adjusted_def using assms by (intro incr_by_counter) (simp_all add: incr_by_initial)
  have "same_at (concurrent_run_key t) ?s1 (adjusted t e d s)" "same_at (budget_reserved_key t) ?s2 (adjusted t e d s)"
    unfolding adjusted_def by (simp_all add: same_at_def incr_by_frame)
  from this [THEN same_at_reads(2)] 1 2
  show "read_active_counter (adjusted t e d s) (concurrent_run_key t) = Some (n + e)"
    "read_active_counter (adjusted t e d s) (budget_reserved_key t) = Some (b + d)" by simp_all
qed

text \<open>Canonical decimals are the ones \<open>str\<close> writes.\<close>

lemma digit_char_val: "is_digit c \<Longrightarrow> digit_char (digit_val c) = c"
  by (auto simp: digit_char_def digit_val_def is_digit_def)

lemma digit_val_less: "is_digit c \<Longrightarrow> digit_val c < 10"
  by (auto simp: digit_val_def is_digit_def)

lemma limits_zero: "digit_char 0 = CHR ''0''"
  by code_simp

lemma canonical_decimal:
  "t \<noteq> [] \<Longrightarrow> list_all is_digit t \<Longrightarrow> hd t \<noteq> CHR ''0'' \<Longrightarrow> dec_nat (nat_of_dec t) = t \<and> 0 < nat_of_dec t"
proof (induction t rule: rev_induct)
  case (snoc c t)
  have c: "is_digit c" using snoc.prems by simp
  show ?case
  proof (cases "t = []")
    case True
    have "digit_val c \<noteq> 0"
    proof
      assume "digit_val c = 0"
      then have "c = CHR ''0''" using digit_char_val [OF c] limits_zero by simp
      then show False using snoc.prems True by simp
    qed
    then have "0 < digit_val c" by simp
    with True c show ?thesis
      by (subst dec_nat.simps) (simp add: nat_of_dec_def digit_char_val digit_val_less)
  next
    case False
    with snoc have t: "dec_nat (nat_of_dec t) = t" "0 < nat_of_dec t" by auto
    from t c digit_val_less [OF c] show ?thesis
      by (subst dec_nat.simps) (simp add: nat_of_dec_snoc digit_char_val)
  qed
qed simp

lemma decimal_integer_text: "decimal_integer t 0 = Some n \<Longrightarrow> t = dec_int n"
proof -
  assume d: "decimal_integer t 0 = Some n"
  then have n: "n = int (nat_of_dec t)" by (simp add: decimal_integer_def Let_def split: if_splits)
  have "dec_nat (nat_of_dec t) = t"
  proof (cases "t = ''0''")
    case True
    have "dec_nat (nat_of_dec ''0'') = ''0''" by code_simp
    with True show ?thesis by simp
  next
    case False
    with d have "t \<noteq> []" "list_all is_digit t" "hd t \<noteq> CHR ''0''" by (auto simp: decimal_integer_def split: if_splits)
    then show ?thesis by (rule canonical_decimal [THEN conjunct1])
  qed
  with n show ?thesis by (simp add: dec_int_def)
qed

lemma decode_counter_is:
  assumes "counter_is s k n p"
  shows "decode_counter (counter_value s k) = Inr n"
proof (cases "srv_view s k")
  case None
  with assms show ?thesis by (simp add: counter_is_def read_initial_iff counter_value_def decode_counter_def)
next
  case (Some v)
  with assms have v: "v = ROther KString" "decimal_integer (srv_text s k) 0 = Some n" by (auto simp: counter_is_def read_initial_iff)
  have b: "0 \<le> n" "n \<le> max_safe_integer" using v(2) by (auto dest: decimal_integer_bounds)
  have t: "srv_text s k = dec_int n" using v(2) by (rule decimal_integer_text)
  have "dec_int n = dec_nat (nat n)" using b by (simp add: dec_int_def)
  then have "list_all is_digit (dec_int n)" by (auto simp: list_all_iff dest: dec_nat_digits)
  with Some v t b show ?thesis
    by (simp add: counter_value_def decode_counter_def py_int_text_dec_int safe_integer_def)
qed

lemma get_receipt_Some:
  assumes "get_receipt E s r = Inr (Some rc)" and "checked_receipt_key E (rsv_operation_id r) = Inr k"
  shows "type_name s k = ''hash''" "receipt_field s k ''state'' = Some (rc_state rc)"
    "field_list_is s k immutable_fields
       [rsv_operation_id r, rsv_run_id r, rsv_tenant_id r, dec_int (rsv_cost r), dec_int (rsv_version r), reservation_proof r]"
proof -
  have hash: "receipt_hash s k \<noteq> []" "type_name s k \<in> {''none'', ''hash''}"
    and f: "field_list_is s k immutable_fields
       [rsv_operation_id r, rsv_run_id r, rsv_tenant_id r, dec_int (rsv_cost r), dec_int (rsv_version r), reservation_proof r]"
    and st: "rc_state rc = receipt_value (receipt_hash s k) ''state''" "rc_state rc \<in> set known_states"
    using assms by (auto simp: get_receipt_def rbind_Inr_iff Let_def split: if_splits option.splits)
  show "type_name s k = ''hash''" using hash by (auto simp: type_name_def' receipt_hash_def' split: option.splits redis_value.splits)
  show "receipt_field s k ''state'' = Some (rc_state rc)"
    using st by (auto simp: receipt_value_def receipt_field_def known_states_def split: option.splits)
qed (use assms in \<open>auto simp: get_receipt_def rbind_Inr_iff split: if_splits\<close>)

lemma closed_held:
  assumes own: "own_call keys argv" and m: "matched keys argv state s" and cost: "checked_cost argv = Some cost"
    and fvs: "fvs \<in> {settled_values argv, released_values argv}"
  shows "held (closed keys fvs n cost s) t = held s t - {keys ! 0}"
proof -
  let ?k = "keys ! 0"
  have rk: "is_receipt_key ?k" using own by (rule own_call_keys)
  let ?s1 = "adjusted (argument argv 4) (-1) (- cost) s"
  have s': "closed keys fvs n cost s = set_ttl ?k n (put_receipt ?k fvs ?s1)" by (simp add: closed_def give_back_adjusted [OF own])
  have "receipt_state (closed keys fvs n cost s) ?k \<in> {''SETTLED'', ''RELEASED''}"
    using fvs by (auto simp: s' receipt_state_def receipt_value_hset value_lists released_values_def)
  then have out: "?k \<notin> held (closed keys fvs n cost s) t" by (auto simp: held_def holding_states_def)
  have eq: "k' \<in> held (closed keys fvs n cost s) t \<longleftrightarrow> k' \<in> held s t" if "k' \<noteq> ?k" for k'
  proof (cases "is_receipt_key k'")
    case True
    then have "k' \<notin> set (counter_keys (argument argv 4))" by (auto simp: counter_keys_def)
    then have "same_at k' s (closed keys fvs n cost s)"
      unfolding s' by (intro same_at_trans [OF adjusted_frame receipt_write_frame [OF that]])
    note same_at_reads(4,6) [OF this]
    then show ?thesis by (simp only: held_def receipt_state_def mem_Collect_eq)
  qed (simp add: held_def)
  show ?thesis
  proof (rule set_eqI)
    fix x
    show "x \<in> held (closed keys fvs n cost s) t \<longleftrightarrow> x \<in> held s t - {?k}"
      using out eq [of x] by (cases "x = ?k") simp_all
  qed
qed

section \<open>Granting\<close>

text \<open>In accounted states a new reservation within the limits is granted.\<close>

lemma reserve_granted:
  assumes ok: "accounted (host_data h)" and ready: "manager_ready M" and wf: "reservation_wf E r"
    and ms: "now_ms_of clock now = Inr ms" and absent: "srv_view (host_data h) (reservation_receipt_key (rsv_operation_id r)) = None"
    and c: "int (card (held (host_data h) (rsv_tenant_id r))) + 1 \<le> c" "c \<le> max_safe_integer"
    and b: "(\<Sum>k \<in> held (host_data h) (rsv_tenant_id r). receipt_cost (host_data h) k) + rsv_cost r \<le> b" "b \<le> max_safe_integer"
    and i: "int (card (held (host_data h) (rsv_tenant_id r))) + 1 \<le> i" "i \<le> max_safe_integer"
  obtains M' h' res where "reserve_once E L served_net clock r (PInt c) (PInt b) (PInt i) now (M, h) = ((M', h'), Inr res)"
    "rr_status res = ''reserved''"
proof -
  let ?k = "reservation_receipt_key (rsv_operation_id r)" and ?t = "rsv_tenant_id r" and ?s = "host_data h"
  let ?keys = "resource_keys (rsv_operation_id r) ?t @ []"
  let ?argv = "reservation_argv ''reserve'' r ms c b i (mg_released_ttl M) []"
  have pos: "0 \<le> c" "0 \<le> b" "0 \<le> i"
    using c b i wf held_cost_nonneg [of ?s] sum_nonneg [of "held ?s ?t" "receipt_cost ?s"] by (auto simp: reservation_wf_def)
  have lims: "optional_limit n (PInt c) = Inr c" "optional_limit n (PInt b) = Inr b" "optional_limit n (PInt i) = Inr i" for n
    using pos c b i by (simp_all add: optional_limit_def safe_integer_Inr)
  note sl = lims [THEN limit_text, THEN conjunct2, THEN conjunct1]
  have mb: "0 \<le> ms" "ms \<le> max_safe_integer" using ms by (auto simp: now_ms_of_def safe_integer_Inr)
  have cost: "checked_cost ?argv = Some (rsv_cost r)"
    using ready wf mb sl by (intro checked_cost_of) (auto simp: manager_ready_def)
  have t: "tenant_ok ?s ?t" using ok by (simp add: accounted_def)
  have none: "type_name ?s ?k = ''none''" using absent by (simp add: type_name_def')
  have "\<exists>s'. reservation_script L ?keys ?argv ?s = (s', Inr (''reserved'', ''RESERVED'', ''1''))"
    using cost none t c b i sl
    by (simp add: reservation_script_def first_reservation_def tenant_ok_def counter_is_def reservation_argv_nth
        reservation_argv_nth(1) [unfolded One_nat_def] over_limit_def)
  then obtain s' where run: "reservation_script L ?keys ?argv ?s = (s', Inr (''reserved'', ''RESERVED'', ''1''))" ..
  obtain M1 h1 where i1: "initialise_manager Served (M, h) = ((M1, h1), Inr ())" "manager_ready M1"
    "ld_source (mg_loader M1) \<noteq> None" "host_data h1 = ?s" "mg_released_ttl M1 = mg_released_ttl M"
    using ready by (rule initialise_served)
  obtain M2 h2 where call: "call_script L served_net ?keys ?argv (M1, h1) = ((M2, h2), Inr (''reserved'', ''RESERVED'', ''1''))" "host_data h2 = s'"
    using call_script_served [OF i1(2,3)] run i1(4) by metis
  have kk: "checked_resource_keys E (rsv_operation_id r) ?t = Inr (resource_keys (rsv_operation_id r) ?t)"
    using wf by (simp add: checked_resource_keys_def checked_receipt_key_def reservation_wf_def resource_keys_def)
  have "reserve_once E L served_net clock r (PInt c) (PInt b) (PInt i) now (M, h)
      = ((M2, h2), Inr (parse_reply (rsv_operation_id r) (reservation_proof r) (''reserved'', ''RESERVED'', ''1'')))"
    using i1(1,5) call(1) ms kk lims
    by (simp add: reserve_once_def execute_def pure_step_def sbind_def served_net_def)
  then show thesis by (intro that) (auto simp: parse_reply_def)
qed

section \<open>Finalized and settled receipts stay\<close>

definition settled_le :: "resource_server \<Rightarrow> resource_server \<Rightarrow> bool" where
  "settled_le s s' \<longleftrightarrow>
     (\<forall>k. is_receipt_key k \<longrightarrow> srv_view s k \<noteq> None \<longrightarrow> receipt_state s k \<in> {''FINALIZED'', ''SETTLED''} \<longrightarrow>
        srv_view s' k \<noteq> None \<and> receipt_state s' k \<in> {''FINALIZED'', ''SETTLED''}
        \<and> (\<forall>f \<in> set immutable_fields. receipt_value (receipt_hash s' k) f = receipt_value (receipt_hash s k) f)
        \<and> (receipt_state s k = ''SETTLED'' \<longrightarrow> receipt_hash s' k = receipt_hash s k))"

lemma settled_le_refl: "settled_le s s"
  by (simp add: settled_le_def)

lemma settled_le_trans: "settled_le s s' \<Longrightarrow> settled_le s' s'' \<Longrightarrow> settled_le s s''"
  unfolding settled_le_def receipt_state_def by (metis insert_iff)

lemma settled_le_frame:
  assumes "\<And>k. is_receipt_key k \<Longrightarrow> srv_view s k \<noteq> None \<Longrightarrow> receipt_state s k \<in> {''FINALIZED'', ''SETTLED''} \<Longrightarrow> same_at k s s'"
  shows "settled_le s s'"
  unfolding settled_le_def
proof (intro allI impI)
  fix k assume k: "is_receipt_key k" "srv_view s k \<noteq> None" "receipt_state s k \<in> {''FINALIZED'', ''SETTLED''}"
  note eq = same_at_reads(4,6) [OF assms [OF k]]
  show "srv_view s' k \<noteq> None \<and> receipt_state s' k \<in> {''FINALIZED'', ''SETTLED''}
      \<and> (\<forall>f \<in> set immutable_fields. receipt_value (receipt_hash s' k) f = receipt_value (receipt_hash s k) f)
      \<and> (receipt_state s k = ''SETTLED'' \<longrightarrow> receipt_hash s' k = receipt_hash s k)"
    using k unfolding receipt_state_def eq by simp
qed

lemma script_settled_le:
  assumes own: "own_call keys argv" and run: "reservation_script L keys argv s = (s', r)"
  shows "settled_le s s'"
proof -
  let ?k = "keys ! 0"
  have rk: "is_receipt_key ?k" using own by (rule own_call_keys)
  have adj: "same_at k s (set_ttl ?k n (put_receipt ?k fvs (adjusted t e d s)))" if "is_receipt_key k" "k \<noteq> ?k" for k n fvs t e d
  proof -
    have "k \<notin> set (counter_keys t)" using that(1) by (auto simp: counter_keys_def)
    then show ?thesis by (intro same_at_trans [OF adjusted_frame receipt_write_frame [OF that(2)]])
  qed
  from run show ?thesis
  proof (cases rule: reservation_script_cases)
    case refused
    then show ?thesis by (simp add: settled_le_refl)
  next
    case (reserved cost c b i)
    then have "srv_view s ?k = None" by (auto simp: type_name_def' split: option.splits redis_value.splits)
    with adj show ?thesis unfolding reserved(13) give_back_adjusted [OF own] by (intro settled_le_frame) metis
  next
    case (settled cost)
    show ?thesis
      unfolding settled_le_def
    proof (intro allI impI)
      fix k assume k: "is_receipt_key k" "srv_view s k \<noteq> None" "receipt_state s k \<in> {''FINALIZED'', ''SETTLED''}"
      let ?s1 = "adjusted (argument argv 4) (-1) (- cost) s"
      have s': "s' = set_ttl ?k (-1) (put_receipt ?k (settled_values argv) ?s1)"
        by (simp add: settled(7) closed_def give_back_adjusted [OF own])
      show "srv_view s' k \<noteq> None \<and> receipt_state s' k \<in> {''FINALIZED'', ''SETTLED''}
          \<and> (\<forall>f \<in> set immutable_fields. receipt_value (receipt_hash s' k) f = receipt_value (receipt_hash s k) f)
          \<and> (receipt_state s k = ''SETTLED'' \<longrightarrow> receipt_hash s' k = receipt_hash s k)"
      proof (cases "k = ?k")
        case True
        have "receipt_state s ?k = ''FINALIZED''" using settled(5) by (rule matched_receipt)
        moreover have "receipt_hash s' ?k = hset (settled_values argv) (receipt_hash s ?k)"
          by (simp only: s' written_receipt hash_of_adjusted [OF rk])
        moreover have "srv_view s' ?k \<noteq> None" by (simp add: s')
        ultimately show ?thesis using True
          by (simp add: receipt_state_def receipt_value_hset value_lists immutable_fields_def)
      next
        case False
        note eq = same_at_reads(4,6) [OF adj [OF k(1) False, of "-1" "settled_values argv" "argument argv 4" "-1" "- cost"]]
        show ?thesis using k unfolding receipt_state_def s' eq by simp
      qed
    qed
  next
    case (finalized cost)
    have "receipt_state s ?k = ''RESERVED''" using finalized(4) by (rule matched_receipt)
    then have "receipt_state s k \<in> {''FINALIZED'', ''SETTLED''} \<Longrightarrow> k \<noteq> ?k" for k by auto
    then show ?thesis unfolding finalized(6) by (intro settled_le_frame receipt_write_frame)
  next
    case (released cost)
    have "receipt_state s ?k = ''RESERVED''" using released(3) by (rule matched_receipt)
    then have "receipt_state s k \<in> {''FINALIZED'', ''SETTLED''} \<Longrightarrow> k \<noteq> ?k" for k by auto
    with adj show ?thesis unfolding released(5) closed_def give_back_adjusted [OF own] by (intro settled_le_frame) metis
  qed
qed

definition managed_le :: "managed \<Rightarrow> managed \<Rightarrow> bool" where
  "managed_le S S' \<longleftrightarrow> settled_le (host_data (snd S)) (host_data (snd S'))"

lemma managed_step_le:
  assumes "managed_step E L S S'" "managed_accounts S"
  shows "managed_le S S'"
proof -
  obtain M h where S: "S = (M, h)" by fastforce
  obtain M' h' where S': "S' = (M', h')" by fastforce
  let ?P = "settled_le (host_data h)"
  have keeps: "?P (fst (reservation_script L keys argv d))" if "own_call keys argv" "?P d" for keys argv d
    using that script_settled_le [of keys argv L d] settled_le_trans by (metis surj_pair fst_conv)
  have a: "accounted (host_data h)" using assms(2) by (simp add: managed_accounts_def S)
  have ex: "?P (host_data h')" if "execute E L net action r ms c b i hk w (M, h) = ((M', h'), res)"
    for net action r ms c b i hk w res
    using that keeps settled_le_refl by (rule execute_keeps)
  have idle: "?P s'" if "expiring k (host_data h)" "\<And>k'. k' \<noteq> k \<Longrightarrow> same_at k' (host_data h) s'" for k s'
  proof (rule settled_le_frame)
    fix k' assume k': "is_receipt_key k'" "receipt_state (host_data h) k' \<in> {''FINALIZED'', ''SETTLED''}"
    have "k' \<noteq> k" using expiring_protected [OF a that(1)] k' by (auto simp: is_protected_def)
    then show "same_at k' (host_data h) s'" by (rule that(2))
  qed
  have "?P (host_data h')"
    using assms(1) unfolding S S'
  proof cases
    case (reserve net clock r c b i now res)
    then show ?thesis using settled_le_refl ex by (auto simp: reserve_once_def elim!: pure_step_split)
  next
    case (finalize net clock r now hk w res)
    then show ?thesis using settled_le_refl ex by (auto simp: finalize_once_def elim!: pure_step_split)
  next
    case (release net clock r now res)
    then show ?thesis using settled_le_refl ex by (auto simp: release_once_def elim!: pure_step_split)
  next
    case (settle net clock st now hk w cw res)
    then show ?thesis using keeps settled_le_refl by (rule settle_once_keeps)
  next
    case (expire k)
    then show ?thesis by (auto intro: idle simp: same_at_def drop_key_def)
  next
    case (tick k n)
    then show ?thesis by (auto intro: idle simp: same_at_def)
  next
    case (other d scripts)
    then show ?thesis by (auto intro: settled_le_frame simp: is_protected_def)
  qed
  then show ?thesis by (simp add: managed_le_def S S')
qed

interpretation lifecycle: monotone_system no_reservations "managed_step E L" managed_accounts managed_le
  by unfold_locales
    (auto simp: managed_le_def intro: settled_le_refl settled_le_trans managed_step_le [unfolded managed_le_def])

section \<open>Evidence\<close>

text \<open>What a finalization rests on: the head of the run's own aggregate is the accepted creation of this run.\<close>

definition creation_evidence :: "lua_lib \<Rightarrow> resource_server \<Rightarrow> reservation \<Rightarrow> string list \<Rightarrow> string list \<Rightarrow> bool" where
  "creation_evidence L s r head_keys witness \<longleftrightarrow>
     (\<exists>own created. witness_of L (witness_json witness) = Some own \<and> decode_table L (own ! 7) = Some created
        \<and> created_pending created (rsv_run_id r) (rsv_tenant_id r) (rsv_cost r)
        \<and> own ! 1 = rsv_operation_id r \<and> rsv_operation_id r = ''run-create:v1:'' @ own ! 0
        \<and> head_keys = map (\<lambda>x. ''hfa:authority:v1:{'' @ own ! 0 @ ''}:'' @ x) authority_suffixes
        \<and> fst (authority_head_validate (object_fields L) (base_server s) head_keys own) = ''VALID'')"

text \<open>
  What a settlement rests on: the head is the accepted termination of the run with this terminal proof and
  final state, and the creation that reserved the resources is stored in the same aggregate.
\<close>

definition termination_evidence :: "lua_lib \<Rightarrow> resource_server \<Rightarrow> settlement \<Rightarrow> string list \<Rightarrow> string list \<Rightarrow> string list \<Rightarrow> bool" where
  "termination_evidence L s st head_keys witness creation_witness \<longleftrightarrow>
     (\<exists>own creation terminated created meta terminal.
        witness_of L (witness_json witness) = Some own \<and> witness_of L (witness_json creation_witness) = Some creation
        \<and> decode_table L (own ! 7) = Some terminated \<and> decode_table L (creation ! 7) = Some created
        \<and> lua_field terminated ''operation_type'' = Some (JStr ''RUN_TERMINATE'')
        \<and> lua_field terminated ''authoritative_metadata_changes'' = Some meta
        \<and> lua_field meta ''terminal_evidence'' = Some terminal
        \<and> lua_field terminal ''terminal_proof_sha256'' = Some (JStr (stl_terminal_proof st))
        \<and> lua_field terminal ''final_state'' = Some (JStr (stl_final_state st))
        \<and> own ! 1 = stl_terminate_operation_id st \<and> own ! 3 = stl_transition_id st
        \<and> created_pending created (stl_run_id st) (stl_tenant_id st) (stl_cost st)
        \<and> creation ! 1 = stl_create_operation_id st \<and> creation ! 0 = own ! 0
        \<and> head_keys = map (\<lambda>x. ''hfa:authority:v1:{'' @ own ! 0 @ ''}:'' @ x) authority_suffixes
        \<and> fst (authority_head_validate (object_fields L) (base_server s) head_keys own) = ''VALID''
        \<and> exact_envelope L s (head_keys ! 3) (creation ! 2) (creation ! 7))"

lemma resource_keys_rest:
  "length (resource_keys op t @ hk) = 4 + length hk" "drop 4 (resource_keys op t @ hk) = hk"
  by (simp_all add: resource_keys_def)

lemma finalize_proof_evidence:
  assumes "finalize_proof_ok L s (resource_keys (rsv_operation_id r) (rsv_tenant_id r) @ hk)
      (reservation_argv ''finalize'' r now c b i ttl w) (rsv_cost r)"
  shows "creation_evidence L s r hk w"
proof -
  have 13: "argument (reservation_argv ''finalize'' r now c b i ttl w) 13 = witness_json w"
    by (simp add: reservation_argv_def argument_def)
  obtain own created where own: "witness_of L (witness_json w) = Some own" "decode_table L (own ! 7) = Some created"
    "created_pending created (rsv_run_id r) (rsv_tenant_id r) (rsv_cost r)" "own ! Suc 0 = rsv_operation_id r"
    "rsv_operation_id r = ''run-create:v1:'' @ own ! 0"
    "keys_bound (resource_keys (rsv_operation_id r) (rsv_tenant_id r) @ hk) (own ! 0) (rsv_tenant_id r)"
    "head_valid L s (resource_keys (rsv_operation_id r) (rsv_tenant_id r) @ hk) own"
    using assms by (auto simp: finalize_proof_ok_def 13 reservation_argv_nth split: option.splits)
  have hk: "hk = map (\<lambda>x. ''hfa:authority:v1:{'' @ own ! 0 @ ''}:'' @ x) authority_suffixes"
    using own(6) [unfolded keys_bound_def resource_keys_rest] by (rule conjunct1)
  then have six: "take 6 hk = hk" by (simp add: authority_suffixes_def)
  have "fst (authority_head_validate (object_fields L) (base_server s) hk own) = ''VALID''"
    using own(7) by (simp only: head_valid_def resource_keys_rest six)
  with own hk show ?thesis unfolding creation_evidence_def by (intro exI [of _ own] exI [of _ created]) simp
qed

lemma settlement_argv_more:
  "argument (settlement_argv st now ttl w cw) 3 = stl_run_id st" "argument (settlement_argv st now ttl w cw) 5 = dec_int (stl_cost st)"
  "argument (settlement_argv st now ttl w cw) 13 = stl_terminate_operation_id st"
  "argument (settlement_argv st now ttl w cw) 14 = stl_terminal_proof st"
  "argument (settlement_argv st now ttl w cw) 15 = stl_transition_id st"
  "argument (settlement_argv st now ttl w cw) 19 = stl_final_state st"
  "argument (settlement_argv st now ttl w cw) 21 = witness_json w"
  "argument (settlement_argv st now ttl w cw) 22 = witness_json cw"
  by (simp_all add: settlement_argv_def argument_def)

lemma settle_proof_evidence:
  assumes "settle_proof_ok L s (resource_keys (stl_create_operation_id st) (stl_tenant_id st) @ hk)
      (settlement_argv st now ttl w cw) (stl_cost st)"
  shows "termination_evidence L s st hk w cw"
proof -
  let ?keys = "resource_keys (stl_create_operation_id st) (stl_tenant_id st) @ hk"
  obtain own creation r origin where own: "witness_of L (witness_json w) = Some own" "witness_of L (witness_json cw) = Some creation"
    "decode_table L (own ! 7) = Some r" "decode_table L (creation ! 7) = Some origin"
    "terminal_record_ok (settlement_argv st now ttl w cw) own r"
    "origin_ok L (settlement_argv st now ttl w cw) own creation r origin (stl_cost st)"
    "keys_bound ?keys (own ! 0) (stl_tenant_id st)" "head_valid L s ?keys own" "exact_envelope L s (?keys ! 7) (creation ! 2) (creation ! 7)"
    using assms by (auto simp: settle_proof_ok_def settlement_argv_nth settlement_argv_more split: option.splits)
  have hk: "hk = map (\<lambda>x. ''hfa:authority:v1:{'' @ own ! 0 @ ''}:'' @ x) authority_suffixes"
    using own(7) [unfolded keys_bound_def resource_keys_rest] by (rule conjunct1)
  then have six: "take 6 hk = hk" by (simp add: authority_suffixes_def)
  have "?keys ! 7 = hk ! 3" by (simp add: resource_keys_def nth_append)
  moreover have "fst (authority_head_validate (object_fields L) (base_server s) hk own) = ''VALID''"
    using own(8) by (simp only: head_valid_def resource_keys_rest six)
  moreover obtain m e where "lua_field r ''operation_type'' = Some (JStr ''RUN_TERMINATE'')"
      "lua_field r ''authoritative_metadata_changes'' = Some m" "lua_field m ''terminal_evidence'' = Some e"
      "lua_field e ''terminal_proof_sha256'' = Some (JStr (stl_terminal_proof st))"
      "lua_field e ''final_state'' = Some (JStr (stl_final_state st))"
      "own ! 1 = stl_terminate_operation_id st" "own ! 3 = stl_transition_id st"
    using own(5) by (auto simp: terminal_record_ok_def settlement_argv_more split: option.splits)
  moreover have "created_pending origin (stl_run_id st) (stl_tenant_id st) (stl_cost st)" "creation ! 1 = stl_create_operation_id st"
      "creation ! 0 = own ! 0"
    using own(6) by (simp_all add: origin_ok_def settlement_argv_nth settlement_argv_more)
  ultimately show ?thesis unfolding termination_evidence_def using own(1-4,9) hk
    by (intro exI [of _ own] exI [of _ creation] exI [of _ r] exI [of _ origin] exI [of _ m] exI [of _ e]) simp
qed

lemma checked_cost_is:
  "checked_cost (reservation_argv action r now c b i ttl w) = Some cost \<Longrightarrow> cost = rsv_cost r"
  "checked_cost (settlement_argv st now ttl w cw) = Some cost \<Longrightarrow> cost = stl_cost st"
  by (drule checked_cost_Some, drule decimal_integer_parse, simp add: reservation_argv_nth settlement_argv_more)+

lemma unproved_finalize:
  assumes "\<not> finalize_proof_ok L s keys (reservation_argv ''finalize'' r now c b i ttl w) (rsv_cost r)"
  shows "reservation_script L keys (reservation_argv ''finalize'' r now c b i ttl w) s \<in>
    {refused ''invalid_input'' [] s, refused ''canonical_run_create_proof_conflict'' [] s}"
  using assms checked_cost_is(1) [of "''finalize''" r now c b i ttl w]
  by (auto simp: reservation_script_def reservation_argv_nth reservation_argv_nth(1) [unfolded One_nat_def] split: option.splits)

lemma unproved_settle:
  assumes "\<not> settle_proof_ok L s keys (settlement_argv st now ttl w cw) (stl_cost st)"
  shows "reservation_script L keys (settlement_argv st now ttl w cw) s \<in>
    {refused ''invalid_input'' [] s, refused ''canonical_run_terminate_proof_conflict'' [] s}"
  using assms checked_cost_is(2) [of st now ttl w cw]
  by (auto simp: reservation_script_def settlement_argv_nth settlement_argv_nth(1) [unfolded One_nat_def] split: option.splits)

section \<open>The receipt after a grant\<close>

lemma receipt_after_reserve:
  assumes "plain_net net"
    and "reserve_once E L net clock r c b i now (M, h) = ((M', h'), Inr res)"
    and "rr_status res = ''reserved''"
    and "now_ms_of clock now = Inr ms"
  shows "get_receipt E (host_data h') r = Inr (Some
    \<lparr>rc_reservation = r, rc_proof = reservation_proof r, rc_state = ''RESERVED'', rc_created_at_ms = ms,
     rc_finalized_at_ms = None, rc_released_at_ms = None, rc_settled_at_ms = None, rc_settlement_proof = [],
     rc_terminate_operation_id = [], rc_terminal_proof = [], rc_transition_id = [], rc_record_hash = [],
     rc_command_hash = [], rc_revision = None, rc_final_state = []\<rparr>)"
proof -
  let ?k = "reservation_receipt_key (rsv_operation_id r)"
  have "execute E L net ''reserve'' r ms c b i [] [] (M, h) = ((M', h'), Inr res)"
    using assms(2,4) by (auto simp: reserve_once_def pure_step_def)
  then obtain cl bl il ttl rep where
    run: "reservation_script L (resource_keys (rsv_operation_id r) (rsv_tenant_id r) @ []) (reservation_argv ''reserve'' r ms cl bl il ttl [])
        (host_data h) = (host_data h', Inr rep)"
    and res: "res = parse_reply (rsv_operation_id r) (reservation_proof r) rep"
    and key: "checked_receipt_key E (rsv_operation_id r) = Inr ?k"
    using assms(1) by (elim execute_reply) blast
  have st: "fst rep = ''reserved''" using res assms(3) by (simp add: parse_reply_def split: prod.splits)
  have ms: "0 \<le> ms" "ms \<le> max_safe_integer" using assms(4) by (auto simp: now_ms_of_def safe_integer_Inr)
  let ?argv = "reservation_argv ''reserve'' r ms cl bl il ttl []"
  from run show ?thesis
  proof (cases rule: reservation_script_cases)
    case (reserved cost c0 b0 i0)
    have "srv_view (host_data h) ?k = None"
      using reserved(3) by (auto simp: type_name_def' split: option.splits redis_value.splits)
    moreover have "same_at ?k (host_data h) (take_up (resource_keys (rsv_operation_id r) (rsv_tenant_id r) @ []) cost (host_data h))"
      by (simp add: take_up_def adjusted_frame [unfolded adjusted_def] counter_keys_def)
    ultimately have "receipt_hash (take_up (resource_keys (rsv_operation_id r) (rsv_tenant_id r) @ []) cost (host_data h)) ?k = []"
      by (simp add: same_at_reads(4)) (simp add: receipt_hash_def')
    then have hash: "receipt_hash (host_data h') ?k = hset (reserved_values ?argv) []" and type: "type_name (host_data h') ?k = ''hash''"
      using reserved(13) by simp_all
    have d: "distinct (map fst (reserved_values ?argv))" by (simp add: value_lists)
    have look: "map_of (receipt_hash (host_data h') ?k) = map_of (reserved_values ?argv)"
      using hash by (simp add: hset_map_of [OF d])
    then have nonempty: "receipt_hash (host_data h') ?k \<noteq> []" by (auto simp: value_lists fun_eq_iff) (metis option.distinct(1))
    have val: "receipt_value (receipt_hash (host_data h') ?k) f = (case map_of (reserved_values ?argv) f of None \<Rightarrow> [] | Some v \<Rightarrow> v)" for f
      by (simp add: receipt_value_def look)
    show ?thesis
      using nonempty type ms
      by (simp add: get_receipt_def key field_list_is_def receipt_field_def look value_lists reservation_argv_nth immutable_fields_def
          stored_integer_def py_int_text_dec_int safe_integer_def optional_integer_def val known_states_def)
  qed (use st in \<open>auto simp: refusal_def\<close>)
qed

section \<open>Properties\<close>

text \<open>
  C17. In every reachable state the snapshot of a tenant is its receipts: the number, the total cost and
  again the number of those that are RESERVED or FINALIZED.
\<close>

theorem snapshot_counts_receipts:
  assumes "no_reservations S" and "(managed_step E L)\<^sup>*\<^sup>* S (M, h)"
    and "required_exact_text E ''tenant_id'' tenant_id = Inr tenant"
  shows "finite (held (host_data h) tenant)
    \<and> get_resource_snapshot E (host_data h) tenant_id = Inr
        \<lparr>rs_concurrent_runs = int (card (held (host_data h) tenant)),
         rs_budget_reserved = (\<Sum>k \<in> held (host_data h) tenant. receipt_cost (host_data h) k),
         rs_tenant_inflight = int (card (held (host_data h) tenant))\<rparr>"
proof -
  have "managed_accounts (M, h)" using assms(1,2) by (rule accounts.reachable_inv)
  then have t: "tenant_ok (host_data h) tenant" by (simp add: managed_accounts_def accounted_def)
  have "decode_counter (counter_value (host_data h) k) = Inr n" if "counter_is (host_data h) k n p" for k n p
    using that by (rule decode_counter_is)
  with t assms(3) show ?thesis by (auto simp: tenant_ok_def get_resource_snapshot_def rbind_Inr_iff)
qed

text \<open>C19. A reservation that is granted keeps every counter of the tenant within its limit.\<close>

theorem reserve_respects_limits:
  assumes "plain_net net"
    and "reserve_once E L net clock r (PInt c) (PInt b) (PInt i) now (M, h) = ((M', h'), Inr res)"
    and "rr_status res = ''reserved''"
  shows "\<exists>n m k. read_active_counter (host_data h') (concurrent_run_key (rsv_tenant_id r)) = Some n \<and> n \<le> c
    \<and> read_active_counter (host_data h') (budget_reserved_key (rsv_tenant_id r)) = Some m \<and> m \<le> b
    \<and> read_active_counter (host_data h') (tenant_inflight (rsv_tenant_id r)) = Some k \<and> k \<le> i
    \<and> read_initial_counter (host_data h) (concurrent_run_key (rsv_tenant_id r)) = Some (n - 1)
    \<and> read_initial_counter (host_data h) (budget_reserved_key (rsv_tenant_id r)) = Some (m - rsv_cost r)
    \<and> read_initial_counter (host_data h) (tenant_inflight (rsv_tenant_id r)) = Some (k - 1)"
proof -
  let ?t = "rsv_tenant_id r" and ?op = "rsv_operation_id r" and ?s = "host_data h"
  obtain ms where "execute E L net ''reserve'' r ms (PInt c) (PInt b) (PInt i) [] [] (M, h) = ((M', h'), Inr res)"
    using assms(2) by (auto simp: reserve_once_def elim!: pure_step_split)
  then obtain ttl rep where lims: "script_limit (dec_int c) = Some c" "script_limit (dec_int b) = Some b"
      "script_limit (dec_int i) = Some i" "0 \<le> c" "0 \<le> b" "0 \<le> i"
    and run: "reservation_script L (resource_keys ?op ?t @ []) (reservation_argv ''reserve'' r ms c b i ttl []) ?s = (host_data h', Inr rep)"
    and res: "res = parse_reply ?op (reservation_proof r) rep"
    using assms(1) by (elim execute_reply) (auto dest!: limit_text)
  have st: "fst rep = ''reserved''" using res assms(3) by (simp add: parse_reply_def split: prod.splits)
  from run show ?thesis
  proof (cases rule: reservation_script_cases)
    case (reserved cost c0 b0 i0)
    have cost: "cost = rsv_cost r" "0 \<le> cost"
      using checked_cost_Some [OF reserved(1)] decimal_integer_parse [of "dec_int (rsv_cost r)" 0 cost]
      by (auto simp: reservation_argv_nth dest: decimal_integer_bounds)
    have old: "read_initial_counter ?s (concurrent_run_key ?t) = Some c0" "read_initial_counter ?s (budget_reserved_key ?t) = Some b0"
      "read_initial_counter ?s (tenant_inflight ?t) = Some i0"
      using reserved(4-6) by simp_all
    have pos: "0 \<le> c0" "0 \<le> b0" "0 \<le> i0"
      using old by (auto simp: read_initial_iff dest: decimal_integer_bounds)
    let ?s1 = "take_up (resource_keys ?op ?t @ []) cost ?s"
    have s1: "?s1 = adjusted ?t 1 cost ?s"
      by (simp add: take_up_def adjusted_def)
    have 1: "read_active_counter ?s1 (concurrent_run_key ?t) = Some (c0 + 1)" "read_active_counter ?s1 (budget_reserved_key ?t) = Some (b0 + cost)"
      "read_active_counter ?s1 (tenant_inflight ?t) = Some (i0 + 1)"
      unfolding s1 using adjusted_each [OF old] pos cost(2) reserved(7-9) by simp_all
    have same: "read_active_counter (host_data h') k = read_active_counter ?s1 k" if "k \<in> set (counter_keys ?t)" for k
      unfolding reserved(13) using that by (intro same_at_reads(2) receipt_write_frame) (auto simp: counter_keys_def)
    have "read_active_counter (host_data h') (concurrent_run_key ?t) = Some (c0 + 1)"
      "read_active_counter (host_data h') (budget_reserved_key ?t) = Some (b0 + cost)"
      "read_active_counter (host_data h') (tenant_inflight ?t) = Some (i0 + 1)"
      using 1 same by (simp_all add: counter_keys_def)
    moreover have "c0 + 1 \<le> c" "b0 + cost \<le> b" "i0 + 1 \<le> i"
      using reserved(10-12) lims by (simp_all add: reservation_argv_nth over_limit_def)
    ultimately show ?thesis using old cost(1) by (intro exI [of _ "c0 + 1"] exI [of _ "b0 + cost"] exI [of _ "i0 + 1"]) simp
  qed (use st in \<open>auto simp: refusal_def\<close>)
qed

text \<open>after a granted reservation the receipt reads back as the caller's reservation, RESERVED at the caller's time.\<close>

theorem reserved_receipt_reads_back:
  assumes "plain_net net"
    and "reserve_once E L net clock r c b i now (M, h) = ((M', h'), Inr res)"
    and "rr_status res = ''reserved''"
    and "now_ms_of clock now = Inr ms"
  shows "get_receipt E (host_data h') r = Inr (Some
    \<lparr>rc_reservation = r, rc_proof = reservation_proof r, rc_state = ''RESERVED'', rc_created_at_ms = ms,
     rc_finalized_at_ms = None, rc_released_at_ms = None, rc_settled_at_ms = None, rc_settlement_proof = [],
     rc_terminate_operation_id = [], rc_terminal_proof = [], rc_transition_id = [], rc_record_hash = [],
     rc_command_hash = [], rc_revision = None, rc_final_state = []\<rparr>)"
  by (rule receipt_after_reserve [OF assms])

text \<open>What a finalize or release call of a reservation whose receipt is still RESERVED finds in the store.\<close>

lemma held_receipt_call:
  fixes hk w :: "string list"
  assumes ok: "accounted s" and ready: "manager_ready M" and wf: "reservation_wf E q"
    and rc: "get_receipt E s q = Inr (Some rc)" "rc_state rc = ''RESERVED''"
    and t: "0 \<le> t" "t \<le> max_safe_integer" and act: "act \<in> {''finalize'', ''release''}"
  defines "k \<equiv> reservation_receipt_key (rsv_operation_id q)"
    and "keys \<equiv> resource_keys (rsv_operation_id q) (rsv_tenant_id q) @ hk"
    and "argv \<equiv> reservation_argv act q t (-1) (-1) (-1) (mg_released_ttl M) w"
  shows "type_name s k = ''hash'' \<and> field_list_is s k immutable_fields (arguments argv 2 7)
    \<and> receipt_field s k ''state'' = Some ''RESERVED'' \<and> srv_ttl s k = -1 \<and> matched keys argv ''RESERVED'' s
    \<and> checked_cost argv = Some (rsv_cost q) \<and> k \<in> held s (rsv_tenant_id q)
    \<and> active_resource_ownership s keys (rsv_cost q)"
proof -
  have key: "checked_receipt_key E (rsv_operation_id q) = Inr k"
    using wf by (simp add: checked_receipt_key_def reservation_wf_def k_def)
  have own: "own_call keys argv" unfolding keys_def argv_def by (rule own_reservation_call)
  have at: "keys ! 0 = k" by (simp add: keys_def k_def)
  have rec: "type_name s k = ''hash''" "field_list_is s k immutable_fields (arguments argv 2 7)"
    "receipt_field s k ''state'' = Some ''RESERVED''"
    using get_receipt_Some [OF rc(1) key] rc(2) by (simp_all add: argv_def argument_lists reservation_argv_nth)
  have view: "srv_view s k \<noteq> None" using rec(1) by (auto simp: type_name_def' split: option.splits)
  have "receipt_state s k = ''RESERVED''" using rec(3) by (simp add: receipt_state_def receipt_value_def receipt_field_def)
  then have ttl: "srv_ttl s k = -1" using ok view by (auto simp: accounted_def receipts_ok_def k_def)
  have m: "matched keys argv ''RESERVED'' s" using rec ttl by (simp add: matched_def at)
  have cost: "checked_cost argv = Some (rsv_cost q)"
    using ready wf t act unfolding argv_def by (intro checked_cost_of) (auto simp: manager_ready_def limits_of_argv)
  have kin: "k \<in> held s (rsv_tenant_id q)"
    using matched_held [OF own m] act by (auto simp: holding_states_def argv_def reservation_argv_nth at)
  have "active_resource_ownership s keys (rsv_cost q)"
    using held_owned [OF ok own, of k] kin matched_cost [OF m cost] by (simp add: argv_def reservation_argv_nth at)
  with rec ttl m cost kin show ?thesis by simp
qed

lemma checked_resource_keys_of: "reservation_wf E q \<Longrightarrow>
  checked_resource_keys E (rsv_operation_id q) (rsv_tenant_id q) = Inr (resource_keys (rsv_operation_id q) (rsv_tenant_id q))"
  by (simp add: checked_resource_keys_def checked_receipt_key_def reservation_wf_def resource_keys_def)

lemma served_script_call:
  assumes "manager_ready M" and "reservation_script L keys argv (host_data h) = (s', Inr rep)"
  obtains M1 h1 M2 h2 where "initialise_manager Served (M, h) = ((M1, h1), Inr ())" "mg_released_ttl M1 = mg_released_ttl M"
    "call_script L served_net keys argv (M1, h1) = ((M2, h2), Inr rep)" "host_data h2 = s'"
proof -
  obtain M1 h1 where i: "initialise_manager Served (M, h) = ((M1, h1), Inr ())" "manager_ready M1"
    "ld_source (mg_loader M1) \<noteq> None" "host_data h1 = host_data h" "mg_released_ttl M1 = mg_released_ttl M"
    using assms(1) by (rule initialise_served)
  obtain M2 h2 where "call_script L served_net keys argv (M1, h1) = ((M2, h2), Inr rep)" "host_data h2 = s'"
    using call_script_served [OF i(2,3)] assms(2) i(4) by metis
  with i(1,5) show thesis by (rule that)
qed

text \<open>
  A reservation that is still only RESERVED can be given back: in every reachable state, over a network
  that serves its calls, the release succeeds and exactly this receipt stops holding resources.
\<close>

theorem held_receipt_can_be_released:
  assumes "no_reservations S" and "(managed_step E L)\<^sup>*\<^sup>* S (M, h)"
    and "manager_ready M" and "reservation_wf E r"
    and "get_receipt E (host_data h) r = Inr (Some rc)" and "rc_state rc = ''RESERVED''"
    and "now_ms_of clock now = Inr ms"
  shows "\<exists>M' h' res. release_once E L served_net clock r now (M, h) = ((M', h'), Inr res)
    \<and> rr_status res = ''released'' \<and> rr_mutated res
    \<and> held (host_data h') (rsv_tenant_id r) = held (host_data h) (rsv_tenant_id r) - {reservation_receipt_key (rsv_operation_id r)}"
proof -
  let ?k = "reservation_receipt_key (rsv_operation_id r)" and ?t = "rsv_tenant_id r" and ?s = "host_data h"
  let ?keys = "resource_keys (rsv_operation_id r) ?t @ []"
  let ?argv = "reservation_argv ''release'' r ms (-1) (-1) (-1) (mg_released_ttl M) []"
  have ok: "accounted ?s" using accounts.reachable_inv [OF assms(1,2)] by (simp add: managed_accounts_def)
  have ms: "0 \<le> ms" "ms \<le> max_safe_integer" using assms(7) by (auto simp: now_ms_of_def safe_integer_Inr)
  note call = held_receipt_call [OF ok assms(3-6) ms, where act = "''release''" and hk = "[]" and w = "[]"]
  define s' where "s' = closed ?keys (released_values ?argv) (the (decimal_integer (argument ?argv 12) 1)) (rsv_cost r) ?s"
  have run: "reservation_script L ?keys ?argv ?s = (s', Inr (''released'', ''RELEASED'', ''1''))"
    using call
    by (simp add: reservation_script_def existing_receipt_def release_receipt_def s'_def closed_def released_values_def known_states_def
        reservation_argv_nth reservation_argv_nth(1) [unfolded One_nat_def])
  obtain M1 h1 M2 h2 where served: "initialise_manager Served (M, h) = ((M1, h1), Inr ())" "mg_released_ttl M1 = mg_released_ttl M"
    "call_script L served_net ?keys ?argv (M1, h1) = ((M2, h2), Inr (''released'', ''RELEASED'', ''1''))" "host_data h2 = s'"
    using assms(3) run by (rule served_script_call)
  have rel: "release_once E L served_net clock r now (M, h)
      = ((M2, h2), Inr (parse_reply (rsv_operation_id r) (reservation_proof r) (''released'', ''RELEASED'', ''1'')))"
    using served(1-3) assms(7) checked_resource_keys_of [OF assms(4)]
    by (simp add: release_once_def execute_def pure_step_def sbind_def served_net_def optional_limit_def)
  have m: "matched ?keys ?argv ''RESERVED'' ?s" and cost: "checked_cost ?argv = Some (rsv_cost r)" using call by simp_all
  have h': "held s' ?t = held ?s ?t - {?k}"
    using closed_held [OF own_reservation_call m cost, of "released_values ?argv"] call by (simp add: s'_def reservation_argv_nth)
  show ?thesis using rel h' served(4) by (auto simp: parse_reply_def)
qed

text \<open>
  C20. Where the accounts hold, a receipt that was finalized is never lost, released or reused: whatever
  happens later it stays
  FINALIZED or SETTLED with the same operation, run, tenant, cost, version and proof, and once SETTLED it
  never changes again.
\<close>

theorem finalized_receipts_stay:
  assumes "accounted (host_data h)" and "(managed_step E L)\<^sup>*\<^sup>* (M, h) (M', h')"
    and "is_receipt_key k" and "srv_view (host_data h) k \<noteq> None"
    and "receipt_state (host_data h) k \<in> {''FINALIZED'', ''SETTLED''}"
  shows "srv_view (host_data h') k \<noteq> None \<and> receipt_state (host_data h') k \<in> {''FINALIZED'', ''SETTLED''}
    \<and> list_all (\<lambda>f. receipt_value (receipt_hash (host_data h') k) f = receipt_value (receipt_hash (host_data h) k) f) immutable_fields
    \<and> (receipt_hash (host_data h') k = receipt_hash (host_data h) k \<or> receipt_state (host_data h) k = ''FINALIZED'')"
proof -
  have "managed_le (M, h) (M', h')"
    using assms(2) by (rule lifecycle.steps_le) (simp add: managed_accounts_def assms(1))
  then show ?thesis using assms(3-5) by (auto simp: managed_le_def settled_le_def list_all_iff)
qed

text \<open>
  C18. Without an accepted creation of this very run at the head of its aggregate, finalization changes
  nothing and is refused, whatever the receipt says.
\<close>

theorem finalize_needs_creation:
  assumes "plain_net net"
    and "finalize_once E L net clock r now head_keys witness (M, h) = ((M', h'), Inr res)"
    and "\<not> creation_evidence L (host_data h) r head_keys witness"
  shows "host_data h' = host_data h \<and> \<not> reservation_ok res \<and> \<not> rr_mutated res"
proof -
  obtain ms where "execute E L net ''finalize'' r ms PNone PNone PNone head_keys witness (M, h) = ((M', h'), Inr res)"
    using assms(2) by (auto simp: finalize_once_def elim!: pure_step_split)
  then obtain cl bl il ttl rep where
    run: "reservation_script L (resource_keys (rsv_operation_id r) (rsv_tenant_id r) @ head_keys)
        (reservation_argv ''finalize'' r ms cl bl il ttl witness) (host_data h) = (host_data h', Inr rep)"
    and res: "res = parse_reply (rsv_operation_id r) (reservation_proof r) rep"
    using assms(1) by (elim execute_reply) blast
  have "\<not> finalize_proof_ok L (host_data h) (resource_keys (rsv_operation_id r) (rsv_tenant_id r) @ head_keys)
      (reservation_argv ''finalize'' r ms cl bl il ttl witness) (rsv_cost r)"
    using assms(3) finalize_proof_evidence by blast
  from unproved_finalize [OF this] run res show ?thesis
    by (auto simp: refused_def parse_reply_def reservation_ok_def)
qed

text \<open>
  Without an accepted termination of the run at the head of its aggregate, and the stored creation
  that reserved the resources, settlement changes nothing and is refused.
\<close>

theorem settle_needs_termination:
  assumes "plain_net net"
    and "settle_once E L net clock st now head_keys witness creation_witness (M, h) = ((M', h'), Inr res)"
    and "\<not> termination_evidence L (host_data h) st head_keys witness creation_witness"
  shows "host_data h' = host_data h \<and> \<not> settlement_ok res \<and> \<not> rr_mutated res"
  using assms(2)
proof (cases rule: settle_once_cases)
  case (2 M1 h1 M2 h2 x ms)
  from 2(5) obtain rep where x: "x = Inr rep" "res = parse_reply (stl_create_operation_id st) (settlement_proof st) rep"
    by (cases x) auto
  have run: "reservation_script L (resource_keys (stl_create_operation_id st) (stl_tenant_id st) @ head_keys)
       (settlement_argv st ms (mg_released_ttl M1) witness creation_witness) (host_data h) = (host_data h', Inr rep)"
    using 2(3,4) x assms(1) initialise_manager_data(1) [OF 2(1)] by (auto dest: call_script_reply)
  have "\<not> settle_proof_ok L (host_data h) (resource_keys (stl_create_operation_id st) (stl_tenant_id st) @ head_keys)
      (settlement_argv st ms (mg_released_ttl M1) witness creation_witness) (stl_cost st)"
    using assms(3) settle_proof_evidence by blast
  from unproved_settle [OF this] run x(2) show ?thesis
    by (auto simp: refused_def parse_reply_def settlement_ok_def)
qed simp

text \<open>the proof of a reservation binds all of it: equal proofs mean equal reservations, or SHA-256 collides.\<close>

theorem reservation_proof_binds:
  assumes "reservation_wf E r" and "reservation_wf E r'" and "reservation_proof r = reservation_proof r'"
    and "length (rsv_run_id r) < 2 ^ 64" and "length (rsv_tenant_id r) < 2 ^ 64"
    and "length (rsv_run_id r') < 2 ^ 64" and "length (rsv_tenant_id r') < 2 ^ 64"
  shows "r = r' \<or> (\<exists>x y. sha256_collision x y)"
proof -
  let ?cs = "\<lambda>r. [''admission-resource-reservation'', dec_int (rsv_version r), rsv_operation_id r, rsv_run_id r,
       rsv_tenant_id r, dec_int (rsv_cost r)]"
  have len: "length c < 2 ^ 64" if "c \<in> set (?cs q)" "reservation_wf E q" "length (rsv_run_id q) < 2 ^ 64" "length (rsv_tenant_id q) < 2 ^ 64" for c q
  proof -
    have d: "length (dec_int n) < 2 ^ 64" if "0 \<le> n" "n \<le> max_safe_integer" for n
    proof -
      have "nat n < 10 ^ Suc 15" using that by (simp add: max_safe_integer_def)
      from length_dec_nat [OF this] that show ?thesis by (simp add: dec_int_def)
    qed
    have "length (rsv_operation_id q) = 78"
      using that(2) by (auto simp: reservation_wf_def create_operation_re_def prefixed_sha256_def sha256_re_def)
    with that d [of "rsv_cost q"] d [of 1] show ?thesis by (auto simp: reservation_wf_def max_safe_integer_def)
  qed
  have "?cs r = ?cs r' \<or> sha256_collision (concat (map length_prefixed_utf8 (?cs r))) (concat (map length_prefixed_utf8 (?cs r')))"
    using assms len [of _ r] len [of _ r'] by (intro component_digest_eqD) (auto simp: reservation_proof_def)
  then show ?thesis
  proof
    assume "?cs r = ?cs r'"
    then have "r = r'" by (simp add: dec_int_inj)
    then show ?thesis ..
  qed blast
qed

section \<open>Witnesses\<close>

definition demo_reservation :: reservation where
  "demo_reservation =
     \<lparr>rsv_operation_id = ''run-create:v1:'' @ replicate 64 (CHR ''0''), rsv_run_id = ''run-1'', rsv_tenant_id = ''acme'',
      rsv_cost = 40, rsv_version = 1\<rparr>"

definition demo_manager :: manager where
  "demo_manager =
     \<lparr>mg_loader = \<lparr>ld_body = ''return'', ld_helpers = [], ld_sha = None, ld_source = None\<rparr>, mg_initialised = False, mg_released_ttl = 604800\<rparr>"

definition demo_host :: "resource_server host" where
  "demo_host =
     \<lparr>host_data = \<lparr>srv_view = (\<lambda>_. None), srv_streams = (\<lambda>_. []), srv_text = (\<lambda>_. []), srv_ttl = (\<lambda>_. -1)\<rparr>, host_scripts = []\<rparr>"

lemma demo_make: "make_reservation json_externals (PStr (rsv_operation_id demo_reservation)) (PStr ''run-1'') (PStr ''acme'') (PInt 40) (PInt 1)
    = Inr demo_reservation"
  by code_simp

lemma demo_wf: "reservation_wf json_externals demo_reservation"
  using demo_make by (rule make_reservation_wf)

lemma demo_ready: "manager_ready demo_manager"
  by (simp add: manager_ready_def loader_ready_def script_text_def embedded_text_def demo_manager_def max_safe_integer_def)

lemma demo_fresh: "no_reservations (demo_manager, demo_host)"
  by (simp add: no_reservations_def demo_host_def)

lemma demo_accounted: "accounted (host_data demo_host)"
  using no_reservations_accounted [OF demo_fresh] by (simp add: managed_accounts_def)

lemma demo_tenant: "rsv_tenant_id demo_reservation = ''acme''" "rsv_cost demo_reservation = 40"
    "rsv_run_id demo_reservation = ''run-1''" "rsv_version demo_reservation = 1"
  by (simp_all add: demo_reservation_def)

lemma demo_nothing_held: "held (host_data demo_host) t = {}"
  by (simp add: held_def demo_host_def)

lemma demo_now: "now_ms_of (PInt 7) PNone = Inr 7"
  by (simp add: now_ms_of_def safe_integer_def max_safe_integer_def)

lemma served_plain: "plain_net served_net"
  by (simp add: plain_net_def served_net_def)

lemma demo_reserved:
  obtains M h res where "reserve_once json_externals json_lua served_net (PInt 7) demo_reservation (PInt 5) (PInt 100) (PInt 5) PNone
      (demo_manager, demo_host) = ((M, h), Inr res)" "rr_status res = ''reserved''"
proof -
  have absent: "srv_view (host_data demo_host) (reservation_receipt_key (rsv_operation_id demo_reservation)) = None"
    by (simp add: demo_host_def)
  have "int (card (held (host_data demo_host) (rsv_tenant_id demo_reservation))) + 1 \<le> 5" "(5 :: int) \<le> max_safe_integer"
    "(\<Sum>k \<in> held (host_data demo_host) (rsv_tenant_id demo_reservation). receipt_cost (host_data demo_host) k)
        + rsv_cost demo_reservation \<le> 100" "(100 :: int) \<le> max_safe_integer"
    by (simp_all add: demo_nothing_held demo_tenant max_safe_integer_def)
  from reserve_granted [OF demo_accounted demo_ready demo_wf demo_now absent this this(1,2)] that show thesis by blast
qed

theorem reserve_respects_limits_witness:
  "\<exists>M h n. read_active_counter (host_data h) (concurrent_run_key ''acme'') = Some n \<and> n \<le> 5
     \<and> fst (reserve_once json_externals json_lua served_net (PInt 7) demo_reservation (PInt 5) (PInt 100) (PInt 5) PNone
         (demo_manager, demo_host)) = (M, h)"
proof -
  obtain M h res where r: "reserve_once json_externals json_lua served_net (PInt 7) demo_reservation (PInt 5) (PInt 100) (PInt 5) PNone
      (demo_manager, demo_host) = ((M, h), Inr res)" "rr_status res = ''reserved''" by (rule demo_reserved)
  from reserve_respects_limits [OF served_plain this] r(1) show ?thesis by (auto simp: demo_tenant)
qed

theorem reserved_receipt_reads_back_witness:
  "\<exists>M h rc. get_receipt json_externals (host_data h) demo_reservation = Inr (Some rc) \<and> rc_state rc = ''RESERVED''
     \<and> rc_created_at_ms rc = 7
     \<and> fst (reserve_once json_externals json_lua served_net (PInt 7) demo_reservation (PInt 5) (PInt 100) (PInt 5) PNone
         (demo_manager, demo_host)) = (M, h)"
proof -
  obtain M h res where r: "reserve_once json_externals json_lua served_net (PInt 7) demo_reservation (PInt 5) (PInt 100) (PInt 5) PNone
      (demo_manager, demo_host) = ((M, h), Inr res)" "rr_status res = ''reserved''" by (rule demo_reserved)
  from reserved_receipt_reads_back [OF served_plain this demo_now] r(1) show ?thesis by auto
qed

lemma demo_reachable:
  obtains h rc where "(managed_step json_externals json_lua)\<^sup>*\<^sup>* (demo_manager, demo_host) (demo_manager, h)"
    "get_receipt json_externals (host_data h) demo_reservation = Inr (Some rc)" "rc_state rc = ''RESERVED''"
proof -
  obtain M h res where r: "reserve_once json_externals json_lua served_net (PInt 7) demo_reservation (PInt 5) (PInt 100) (PInt 5) PNone
      (demo_manager, demo_host) = ((M, h), Inr res)" "rr_status res = ''reserved''" by (rule demo_reserved)
  have "managed_step json_externals json_lua (demo_manager, demo_host) (M, h)" using r(1) by (rule managed_step.reserve)
  moreover have "managed_step json_externals json_lua (M, h) (demo_manager, h\<lparr>host_data := host_data h, host_scripts := host_scripts h\<rparr>)"
    by (rule managed_step.other) simp
  ultimately have "(managed_step json_externals json_lua)\<^sup>*\<^sup>* (demo_manager, demo_host) (demo_manager, h)" by simp
  then show thesis using receipt_after_reserve [OF served_plain r demo_now] by (rule that) simp
qed

lemma demo_key: "checked_receipt_key json_externals (rsv_operation_id demo_reservation)
    = Inr (reservation_receipt_key (rsv_operation_id demo_reservation))"
  using demo_wf by (simp add: reservation_wf_def checked_receipt_key_def)

lemma demo_matched:
  assumes "accounted (host_data h)" "get_receipt json_externals (host_data h) demo_reservation = Inr (Some rc)" "rc_state rc = ''RESERVED''"
  shows "matched (resource_keys (rsv_operation_id demo_reservation) ''acme'' @ hk)
      (reservation_argv action demo_reservation ms c b i ttl w) ''RESERVED'' (host_data h)"
proof -
  let ?k = "reservation_receipt_key (rsv_operation_id demo_reservation)"
  note g = get_receipt_Some [OF assms(2) demo_key]
  have "receipt_state (host_data h) ?k = ''RESERVED''" "srv_view (host_data h) ?k \<noteq> None"
    using g assms(3) by (auto simp: receipt_state_def receipt_value_def receipt_field_def type_name_def' split: option.splits)
  then have "srv_ttl (host_data h) ?k = -1" using assms(1) by (auto simp: accounted_def receipts_ok_def)
  with g assms(3) show ?thesis by (simp add: matched_def argument_lists reservation_argv_nth)
qed

theorem snapshot_counts_receipts_witness:
  "\<exists>M h. (managed_step json_externals json_lua)\<^sup>*\<^sup>* (demo_manager, demo_host) (M, h) \<and> held (host_data h) ''acme'' \<noteq> {}
     \<and> get_resource_snapshot json_externals (host_data h) (PStr ''acme'') = Inr
        \<lparr>rs_concurrent_runs = int (card (held (host_data h) ''acme'')),
         rs_budget_reserved = (\<Sum>k \<in> held (host_data h) ''acme''. receipt_cost (host_data h) k),
         rs_tenant_inflight = int (card (held (host_data h) ''acme''))\<rparr>"
proof -
  obtain h rc where r: "(managed_step json_externals json_lua)\<^sup>*\<^sup>* (demo_manager, demo_host) (demo_manager, h)"
    "get_receipt json_externals (host_data h) demo_reservation = Inr (Some rc)" "rc_state rc = ''RESERVED''" by (rule demo_reachable)
  have "accounted (host_data h)" using accounts.reachable_inv [OF demo_fresh r(1)] by (simp add: managed_accounts_def)
  from matched_held [OF own_reservation_call demo_matched [OF this r(2,3), folded demo_tenant]]
  have "held (host_data h) ''acme'' \<noteq> {}" by (auto simp: reservation_argv_nth holding_states_def demo_tenant)
  moreover have "required_exact_text json_externals ''tenant_id'' (PStr ''acme'') = Inr ''acme''"
    using demo_wf by (simp add: reservation_wf_def demo_tenant)
  ultimately show ?thesis using snapshot_counts_receipts [OF demo_fresh r(1)] r(1) by blast
qed

theorem held_receipt_can_be_released_witness:
  "\<exists>h M' h' res. release_once json_externals json_lua served_net (PInt 7) demo_reservation PNone (demo_manager, h) = ((M', h'), Inr res)
     \<and> rr_status res = ''released''"
proof -
  obtain h rc where r: "(managed_step json_externals json_lua)\<^sup>*\<^sup>* (demo_manager, demo_host) (demo_manager, h)"
    "get_receipt json_externals (host_data h) demo_reservation = Inr (Some rc)" "rc_state rc = ''RESERVED''" by (rule demo_reachable)
  from held_receipt_can_be_released [OF demo_fresh r(1) demo_ready demo_wf r(2,3) demo_now] show ?thesis by blast
qed

theorem finalized_receipts_stay_witness:
  "\<exists>s. receipt_state s (reservation_receipt_key (rsv_operation_id demo_reservation)) = ''FINALIZED''
     \<and> srv_view s (reservation_receipt_key (rsv_operation_id demo_reservation)) \<noteq> None"
proof -
  obtain h rc where r: "(managed_step json_externals json_lua)\<^sup>*\<^sup>* (demo_manager, demo_host) (demo_manager, h)"
    "get_receipt json_externals (host_data h) demo_reservation = Inr (Some rc)" "rc_state rc = ''RESERVED''" by (rule demo_reachable)
  have ok: "accounted (host_data h)" using accounts.reachable_inv [OF demo_fresh r(1)] by (simp add: managed_accounts_def)
  let ?argv = "reservation_argv ''finalize'' demo_reservation 8 (-1) (-1) (-1) 604800 []"
  let ?keys = "resource_keys (rsv_operation_id demo_reservation) (rsv_tenant_id demo_reservation) @ []"
  let ?s = "set_ttl (?keys ! 0) (-1) (put_receipt (?keys ! 0) (finalized_values ?argv) (host_data h))"
  have m: "matched ?keys ?argv ''RESERVED'' (host_data h)" using demo_matched [OF ok r(2,3), where hk = "[]"] by (simp add: demo_tenant)
  have "checked_cost ?argv = Some (rsv_cost demo_reservation)"
    using demo_wf by (intro checked_cost_of) (auto simp: limits_of_argv max_safe_integer_def)
  from finalized_accounted [OF ok own_reservation_call m this] have acc: "accounted ?s" .
  have st: "receipt_state ?s (?keys ! 0) = ''FINALIZED''"
    by (simp add: receipt_state_def receipt_value_hset finalized_values_def)
  from finalized_receipts_stay [of "demo_host\<lparr>host_data := ?s\<rparr>" json_externals json_lua demo_manager demo_manager "demo_host\<lparr>host_data := ?s\<rparr>" "?keys ! 0"]
  have "srv_view ?s (?keys ! 0) \<noteq> None" using acc st by simp
  with st show ?thesis by (intro exI [of _ ?s]) simp
qed

lemma demo_resource_keys: "checked_resource_keys json_externals (rsv_operation_id demo_reservation) ''acme''
    = Inr (resource_keys (rsv_operation_id demo_reservation) ''acme'')"
  using demo_wf by (simp add: checked_resource_keys_def demo_key reservation_wf_def demo_tenant resource_keys_def)

lemma demo_call:
  obtains M1 h1 M2 h2 rep where "initialise_manager Served (demo_manager, demo_host) = ((M1, h1), Inr ())"
    "mg_released_ttl M1 = 604800" "call_script json_lua served_net keys argv (M1, h1) = ((M2, h2), Inr rep)"
proof -
  obtain M1 h1 where i: "initialise_manager Served (demo_manager, demo_host) = ((M1, h1), Inr ())" "manager_ready M1"
    "ld_source (mg_loader M1) \<noteq> None" "mg_released_ttl M1 = 604800"
    using initialise_served [OF demo_ready, of demo_host] by (metis demo_manager_def manager.select_convs(3))
  obtain s' rep where "reservation_script json_lua keys argv (host_data h1) = (s', Inr rep)"
    using script_answers [of json_lua keys argv "host_data h1"] by (metis surj_pair snd_conv)
  from call_script_served [OF i(2,3) this] i show thesis by (metis that)
qed

lemma no_witness: "witness_of json_lua (witness_json []) = None"
  by code_simp

theorem finalize_needs_creation_witness:
  "\<exists>M h res. finalize_once json_externals json_lua served_net (PInt 7) demo_reservation PNone [] [] (demo_manager, demo_host) = ((M, h), Inr res)
     \<and> host_data h = host_data demo_host \<and> \<not> reservation_ok res"
proof -
  obtain M1 h1 M2 h2 rep where c: "initialise_manager Served (demo_manager, demo_host) = ((M1, h1), Inr ())" "mg_released_ttl M1 = 604800"
    "call_script json_lua served_net (resource_keys (rsv_operation_id demo_reservation) ''acme'')
       (reservation_argv ''finalize'' demo_reservation 7 (-1) (-1) (-1) 604800 []) (M1, h1) = ((M2, h2), Inr rep)"
    by (rule demo_call)
  then have run: "finalize_once json_externals json_lua served_net (PInt 7) demo_reservation PNone [] [] (demo_manager, demo_host)
      = ((M2, h2), Inr (parse_reply (rsv_operation_id demo_reservation) (reservation_proof demo_reservation) rep))"
    by (simp add: finalize_once_def execute_def pure_step_def demo_now sbind_def served_net_def optional_limit_def demo_resource_keys demo_tenant)
  have "\<not> creation_evidence json_lua (host_data demo_host) demo_reservation [] []"
    by (simp add: creation_evidence_def no_witness)
  from finalize_needs_creation [OF served_plain run this] run show ?thesis by blast
qed

definition demo_settlement :: settlement where
  "demo_settlement =
     \<lparr>stl_create_operation_id = rsv_operation_id demo_reservation, stl_run_id = ''run-1'', stl_tenant_id = ''acme'', stl_cost = 40,
      stl_reservation_proof = replicate 64 (CHR ''0''), stl_terminate_operation_id = ''run-terminate:v1:'' @ replicate 64 (CHR ''0''),
      stl_terminal_proof = replicate 64 (CHR ''0''), stl_transition_id = ''t'', stl_record_hash = replicate 64 (CHR ''0''),
      stl_command_hash = replicate 64 (CHR ''0''), stl_revision = 2, stl_final_state = ''done''\<rparr>"

theorem settle_needs_termination_witness:
  "\<exists>M h res. settle_once json_externals json_lua served_net (PInt 7) demo_settlement PNone [] [] [] (demo_manager, demo_host) = ((M, h), Inr res)
     \<and> host_data h = host_data demo_host \<and> \<not> settlement_ok res"
proof -
  obtain M1 h1 M2 h2 rep where c: "initialise_manager Served (demo_manager, demo_host) = ((M1, h1), Inr ())" "mg_released_ttl M1 = 604800"
    "call_script json_lua served_net (resource_keys (rsv_operation_id demo_reservation) ''acme'')
       (settlement_argv demo_settlement 7 604800 [] []) (M1, h1) = ((M2, h2), Inr rep)"
    by (rule demo_call)
  have ids: "stl_create_operation_id demo_settlement = rsv_operation_id demo_reservation" "stl_tenant_id demo_settlement = ''acme''"
    by (simp_all add: demo_settlement_def)
  from c have run: "settle_once json_externals json_lua served_net (PInt 7) demo_settlement PNone [] [] [] (demo_manager, demo_host)
      = ((M2, h2), Inr (parse_reply (stl_create_operation_id demo_settlement) (settlement_proof demo_settlement) rep))"
    by (simp add: settle_once_def pure_step_def demo_now sbind_def served_net_def ids demo_resource_keys)
  have "\<not> termination_evidence json_lua (host_data demo_host) demo_settlement [] [] []"
    by (simp add: termination_evidence_def no_witness)
  from settle_needs_termination [OF served_plain run this] run show ?thesis by blast
qed

theorem reservation_proof_binds_witness:
  "\<exists>r. reservation_wf json_externals r \<and> (r = demo_reservation \<or> (\<exists>x y. sha256_collision x y))"
proof -
  have "length (rsv_run_id demo_reservation) < 2 ^ 64" "length (rsv_tenant_id demo_reservation) < 2 ^ 64"
    by (simp_all add: demo_tenant)
  from reservation_proof_binds [OF demo_wf demo_wf refl this this] show ?thesis
    using demo_wf by (intro exI [of _ demo_reservation]) simp
qed

end
