(* ===== verification/RunCreateRecord.thy ===== *)
theory RunCreateRecord
  imports RunCreateCommand AdmissionProperties AuthorityRoundTrip
begin

text \<open>
  What a run admission commits: the command of a normalised input in explicit form, its acceptance
  by the evaluator, and the way back from the record.
\<close>

section \<open>The command in explicit form\<close>

definition run_identity :: "run_create \<Rightarrow> aggregate_identity" where
  "run_identity v = \<lparr>id_aggregate_type = RUN, id_run_id = rn_run_id v, id_task_id = None\<rparr>"

definition run_command :: "run_create \<Rightarrow> authority_command" where
  "run_command v =
     \<lparr>cmd_identity = run_identity v, cmd_operation_type = RUN_CREATE,
      cmd_operation_id = ''run-create:v1:'' @ identity_sha256 (run_identity v), cmd_expected_revision = 0,
      cmd_previous_state = None, cmd_next_state = Some ''pending'', cmd_payload = JObj (create_metadata v),
      cmd_metadata_changes = JObj (create_metadata v), cmd_child_effects = JObj [],
      cmd_projection_intents = [JObj (status_intent v)], cmd_causation_id = None\<rparr>"

definition run_context :: "run_create \<Rightarrow> authority_context" where
  "run_context v =
     \<lparr>ctx_writer_id = run_create_writer, ctx_allowed_operations = {RUN_CREATE},
      ctx_target_sha256 = identity_sha256 (run_identity v), ctx_fence_required = False, ctx_fence_valid = True\<rparr>"

lemma run_create_nonempty:
  assumes "run_create_normal E v"
  shows "rn_run_id v \<noteq> []" "checked_text E (rn_run_id v)" "nfc_normalize E (rn_run_id v) = rn_run_id v"
    "checked_text E (rn_tenant_id v)" "rn_tenant_id v \<noteq> []"
  using assms by (simp_all add: run_create_normal_def checked_text_def)

lemma run_create_identity_normal:
  assumes "run_create_normal E v"
  shows "run_create_identity E (PStr (rn_run_id v)) = Inr (run_identity v)"
  using run_create_nonempty [OF assms]
  by (simp add: run_create_identity_def make_identity_def run_identity_def run_contract_def nfc_def)

lemma run_identity_wf: "run_create_normal E v \<Longrightarrow> identity_wf E (run_identity v)"
  using run_create_nonempty by (simp add: identity_wf_def run_identity_def)

lemma freeze_json: "json_wf E j \<Longrightarrow> freeze E (py_of_json j) = Inr j"
  by (simp add: freeze_def normalize_json_id freeze_norm_id)

lemma ascii_words:
  "is_ascii ''admitted''" "is_ascii ''pending''" "is_ascii ''RUN_STATUS_PROJECTION''" "is_ascii ''run-create:v1:''"
  "is_ascii run_create_writer"
  by (simp_all add: is_ascii_def run_create_writer_def)

lemma create_metadata_wf:
  assumes laws: "nfc_laws E" and v: "run_create_normal E v"
  shows "json_wf E (JObj (create_metadata v))"
proof (rule json_wf_ascii_keys [OF laws])
  show "distinct (map fst (create_metadata v))" by (simp add: create_metadata_def split: option.split)
  show "list_all (\<lambda>k. k \<noteq> [] \<and> is_ascii k) (map fst (create_metadata v))"
    by (simp add: create_metadata_def is_ascii_def split: option.split)
  have "json_wf E (JObj (rn_payload v))" using v by (intro payload_normal_wf) (simp add: run_create_normal_def)
  then show "list_all (json_wf E) (map snd (create_metadata v))"
    using v nfc_ascii [OF laws ascii_words(1)]
    by (auto simp: create_metadata_def run_create_normal_def checked_text_def safe_natural_def max_safe_integer_def
        split: option.split simp del: json_wf.simps(7))
qed

lemma status_intent_wf:
  assumes laws: "nfc_laws E" and v: "run_create_normal E v"
  shows "json_wf E (JObj (status_intent v))"
proof (rule json_wf_ascii_keys [OF laws])
  show "list_all (json_wf E) (map snd (status_intent v))"
    using v nfc_ascii [OF laws ascii_words(1)] nfc_ascii [OF laws ascii_words(3)]
    by (simp add: status_intent_def run_create_normal_def checked_text_def)
qed (simp_all add: status_intent_def is_ascii_def)

lemma status_intent_kinds:
  assumes "nfc_laws E"
  shows "projection_kinds E [JObj (status_intent v)] = Inr [''RUN_STATUS_PROJECTION'']"
  using nfc_ascii [OF assms ascii_words(3)] by (simp add: projection_kinds_def status_intent_def nfc_def)

lemma build_of_normal:
  assumes laws: "nfc_laws E" and ok: "normalize_run_create_input E raw = Inr v" and v: "run_create_normal E v"
  shows "build_run_create_command E raw = Inr (run_command v)"
proof -
  have "is_ascii (''run-create:v1:'' @ identity_sha256 (run_identity v))"
    using ascii_words(4) sha256_re_ascii [OF identity_sha256_re] by (simp only: is_ascii_append)
  then have op: "nfc E ''operation_id'' False (PStr (''run-create:v1:'' @ identity_sha256 (run_identity v)))
      = Inr (''run-create:v1:'' @ identity_sha256 (run_identity v))"
    using nfc_ascii [OF laws] by (simp add: nfc_def del: append.simps)
  have "coerce_operation (PStr ''RUN_CREATE'') = Inr RUN_CREATE" using coerce_operation_value [of RUN_CREATE] by simp
  moreover have "opt_nfc E ''intended_next_state'' (PStr ''pending'') = Inr (Some ''pending'')"
    using nfc_ascii [OF laws ascii_words(2)] by (simp add: opt_nfc_def nfc_def)
  moreover have "freeze E (PMap []) = Inr (JObj [])" using freeze_json [of E "JObj []"] by simp
  moreover have "rtraverse (freeze E) [py_of_json (JObj (status_intent v))] = Inr [JObj (status_intent v)]"
    using freeze_json [OF status_intent_wf [OF laws v]] by (simp del: py_of_json.simps)
  ultimately show ?thesis
    using ok op run_create_identity_normal [OF v] freeze_json [OF create_metadata_wf [OF laws v]] status_intent_kinds [OF laws]
    by (simp add: build_run_create_command_def make_command_def safe_int_def max_safe_integer_def opt_nfc_def [of _ _ PNone]
        run_contract_def run_command_def del: py_of_json.simps append.simps)
qed

lemma build_inverse:
  assumes laws: "nfc_laws E" "nfc_keeps_strip E" and c: "build_run_create_command E raw = Inr c"
  obtains v where "normalize_run_create_input E raw = Inr v" "run_create_normal E v" "c = run_command v"
proof -
  from c obtain v where v: "normalize_run_create_input E raw = Inr v"
    by (auto simp: build_run_create_command_def rbind_Inr_iff)
  have n: "run_create_normal E v" by (rule run_create_normal_intro [OF laws v])
  from that [OF v n] show thesis using build_of_normal [OF laws(1) v n] c by simp
qed

lemma context_of_command:
  assumes "nfc_laws E"
  shows "build_run_create_context E (run_command v) = Inr (run_context v)"
  using nfc_ascii [OF assms ascii_words(5)]
  by (simp add: build_run_create_context_def make_context_def run_command_def run_context_def run_contract_def nfc_def
      sha256_hex_def exact_bool_def run_create_writer_def)

lemma run_command_wf:
  assumes laws: "nfc_laws E" and v: "run_create_normal E v"
  shows "command_wf E (run_command v)"
proof -
  have "is_ascii (''run-create:v1:'' @ identity_sha256 (run_identity v))"
    using ascii_words(4) sha256_re_ascii [OF identity_sha256_re] by (simp only: is_ascii_append)
  then show ?thesis
    using run_identity_wf [OF v] create_metadata_wf [OF laws v] status_intent_wf [OF laws v] status_intent_kinds [OF laws]
      nfc_ascii [OF laws] ascii_words(2)
    by (simp add: command_wf_def run_command_def opt_wf_def max_safe_integer_def del: json_wf.simps(7) append.simps)
      simp
qed

section \<open>The way back\<close>

lemma metadata_of_create:
  "metadata_get (create_metadata v) ''legacy_projection_state'' = PStr ''admitted''"
  "raw_of_metadata (create_metadata v) = raw_of v"
  by (simp_all add: raw_of_metadata_def raw_of_def metadata_get_def create_metadata_def thaw_eq split: option.split)

lemma run_create_record_fields:
  assumes r: "new_record E (run_command v) run_create_writer ms corr = Inr r"
  obtains ch where "command_hash E (run_command v) = Inr ch" "rec_command_hash r = PStr ch"
    "rec_operation_type r = PStr ''RUN_CREATE''" "rec_identity r = run_identity v" "rec_from_revision r = PInt 0"
    "rec_to_revision r = PInt 1" "rec_previous_state r = PNone" "rec_next_state r = PStr ''pending''"
    "rec_writer_id r = PStr run_create_writer" "rec_metadata_changes r = JObj (create_metadata v)"
    "rec_operation_id r = PStr (''run-create:v1:'' @ identity_sha256 (run_identity v))"
proof -
  obtain tid ch h where ch: "command_hash E (run_command v) = Inr ch"
    and r': "r = (provisional_record (run_command v) ch tid run_create_writer ms corr)\<lparr>rec_record_hash := PStr h\<rparr>"
    by (rule new_record_okD [OF r])
  show thesis by (rule that [OF ch]) (simp_all add: r' provisional_record_def run_command_def)
qed

lemma input_of_new_record:
  assumes laws: "nfc_laws E" and v: "run_create_normal E v"
    and r: "new_record E (run_command v) run_create_writer ms corr = Inr r"
  shows "input_from_record E r = Inr v"
proof -
  have "normalize_run_create_input E (raw_of v) = Inr v" by (rule normalize_again [OF v])
  moreover from this have "build_run_create_command E (raw_of v) = Inr (run_command v)"
    by (intro build_of_normal [OF laws _ v])
  moreover obtain ch where "command_hash E (run_command v) = Inr ch" "rec_command_hash r = PStr ch"
    "rec_operation_type r = PStr ''RUN_CREATE''" "rec_identity r = run_identity v" "rec_from_revision r = PInt 0"
    "rec_to_revision r = PInt 1" "rec_previous_state r = PNone" "rec_next_state r = PStr ''pending''"
    "rec_writer_id r = PStr run_create_writer" "rec_metadata_changes r = JObj (create_metadata v)"
    "rec_operation_id r = PStr (''run-create:v1:'' @ identity_sha256 (run_identity v))"
    by (rule run_create_record_fields [OF r])
  ultimately show ?thesis
    by (simp add: input_from_record_def metadata_of_create run_contract_def)
      (simp add: run_identity_def run_command_def)
qed


lemma run_create_planned:
  assumes laws: "nfc_laws E" "jcs_total E" and n: "run_create_normal E v" and ms: "0 \<le> ms" "ms \<le> max_safe_integer"
  shows "\<exists>r. new_record E (run_command v) (ctx_writer_id (run_context v)) ms None = Inr r
    \<and> evaluate_authority_commit E (run_context v) (run_command v) (PInt 0) PNone None (PInt ms) PNone
      = Inr \<lparr>eval_decision = accepted_decision, eval_commit_plan = Some (plan_of (run_command v) r)\<rparr>"
proof -
  have w: "ctx_writer_id (run_context v) \<noteq> []" "nfc_normalize E (ctx_writer_id (run_context v)) = ctx_writer_id (run_context v)"
    using nfc_ascii [OF laws(1) ascii_words(5)] by (simp_all add: run_context_def run_create_writer_def)
  have p: "permits (run_context v) (run_command v)" by (simp add: permits_def run_context_def run_command_def)
  have k: "oc_mutation_class (operation_contracts (cmd_operation_type (run_command v))) = ACCEPTED_AUTHORITY_MUTATION"
    "cmd_expected_revision (run_command v) < max_safe_integer"
    by (simp_all add: run_command_def max_safe_integer_def)
  have o: "is_ok (validate_operation_contract E (cmd_operation_type (run_command v)) (id_aggregate_type (cmd_identity (run_command v)))
      (cmd_previous_state (run_command v)) (cmd_next_state (run_command v)) (cmd_projection_intents (run_command v)))"
    using status_intent_kinds [OF laws(1), of v]
    by (simp add: run_command_def run_identity_def validate_operation_contract_def Let_def)
  have "opt_wf E None" by (simp add: opt_wf_def)
  from evaluate_legal [OF laws run_command_wf [OF laws(1) n] p w k o ms this] show ?thesis
    by (simp add: run_command_def)
qed

section \<open>The reservation behind a record\<close>

definition admission_of :: "run_create \<Rightarrow> reservation" where
  "admission_of v =
     \<lparr>rsv_operation_id = ''run-create:v1:'' @ identity_sha256 (run_identity v), rsv_run_id = rn_run_id v,
      rsv_tenant_id = rn_tenant_id v, rsv_cost = rn_cost v, rsv_version = 1\<rparr>"

lemma utf8_chars_ascii: "is_ascii s \<Longrightarrow> utf8_chars s = map (\<lambda>c. [c]) s"
proof (induction s)
  case (Cons c s)
  then have "is_ascii s" by (simp add: is_ascii_def)
  moreover have "\<not> is_continuation d" if "(of_char d :: nat) < 128" for d using that by (simp add: is_continuation_def)
  then have "takeWhile is_continuation s = []" "dropWhile is_continuation s = s"
    using \<open>is_ascii s\<close> by (cases s; simp add: is_ascii_def)+
  ultimately show ?case using Cons.IH by simp
qed simp

lemma py_strip_ascii:
  assumes "is_ascii s" and "s \<noteq> []" and "\<not> is_space_char [hd s]" and "\<not> is_space_char [last s]"
  shows "py_strip s = s"
proof -
  have concat: "concat (map (\<lambda>c. [c]) xs) = xs" for xs :: string by (induction xs) auto
  have left: "dropWhile is_space_char (map (\<lambda>c. [c]) s) = map (\<lambda>c. [c]) s" using assms(2,3) by (cases s) auto
  have "dropWhile is_space_char (map (\<lambda>c. [c]) (rev s)) = map (\<lambda>c. [c]) (rev s)"
    using assms(2,4) by (cases "rev s") (auto simp: last_rev [symmetric] hd_rev)
  then show ?thesis by (simp add: py_strip_def utf8_chars_ascii [OF assms(1)] left rev_map concat)
qed

lemma create_operation_checked:
  assumes laws: "nfc_laws E" and h: "sha256_re h"
  shows "required_exact_text E n (PStr (''run-create:v1:'' @ h)) = Inr (''run-create:v1:'' @ h)"
proof -
  have a: "is_ascii (''run-create:v1:'' @ h)" using ascii_words(4) sha256_re_ascii [OF h] by (simp only: is_ascii_append)
  have "h \<noteq> []" using h by (auto simp: sha256_re_def)
  then have "is_lower_hex (last (''run-create:v1:'' @ h))" using h by (simp add: sha256_re_def list_all_iff)
  moreover have "\<not> is_space_char [c]" if "is_lower_hex c" for c
    using that unfolding is_lower_hex_def by (auto simp: is_space_char_def)
  ultimately have "py_strip (''run-create:v1:'' @ h) = ''run-create:v1:'' @ h"
    using a by (intro py_strip_ascii) (simp_all add: is_space_char_def)
  then show ?thesis using nfc_ascii [OF laws a] by (simp add: required_exact_text_def)
qed

lemma exact_text_checked [simp]: "checked_text E s \<Longrightarrow> s \<noteq> [] \<Longrightarrow> required_exact_text E n (PStr s) = Inr s"
  by (simp add: required_exact_text_def checked_text_def)

lemma admission_made:
  assumes laws: "nfc_laws E" and v: "run_create_normal E v"
  shows "make_reservation E (PStr (rsv_operation_id (admission_of v))) (PStr (rn_run_id v)) (PStr (rn_tenant_id v))
      (PInt (rn_cost v)) (PInt 1) = Inr (admission_of v)"
proof -
  have "create_operation_re (''run-create:v1:'' @ identity_sha256 (run_identity v))"
    by (simp add: create_operation_re_def prefixed_sha256_def)
  moreover have "safe_integer n 0 (PInt (rn_cost v)) = Inr (rn_cost v)" for n
    using v by (simp add: safe_integer_def run_create_normal_def safe_natural_def)
  moreover have "safe_integer n 1 (PInt 1) = Inr 1" for n by (simp add: safe_integer_def max_safe_integer_def)
  ultimately show ?thesis
    using create_operation_checked [OF laws identity_sha256_re] run_create_nonempty [OF v]
    by (simp add: make_reservation_def admission_of_def del: append.simps)
qed

section \<open>Canonical texts of plain inputs\<close>

definition plain_input :: "run_create \<Rightarrow> bool" where
  "plain_input v \<longleftrightarrow> list_all json_plain (map snd (create_metadata v))"

definition command_text :: "externals \<Rightarrow> run_create \<Rightarrow> string" where
  "command_text E v = the (rfc8785_dumps E (command_json (run_command v)))"

lemma sort_json_normal: "payload_normal E j \<Longrightarrow> sort_json j = j"
proof (induction j)
  case (JArr js)
  then show ?case by (auto simp: list_all_iff intro: map_idI)
next
  case (JObj kvs)
  have "sort_json (snd kv) = snd kv" if "kv \<in> set kvs" for kv
    using JObj.IH [of kv "snd kv"] JObj.prems that by (cases kv) (auto simp: list_all_iff)
  then have "map (\<lambda>kv. (fst kv, sort_json (snd kv))) kvs = kvs" by (intro map_idI) simp
  moreover have "sort_key fst kvs = kvs" using JObj.prems by (intro sort_key_sorted) simp
  ultimately show ?case by simp
qed simp_all

lemma py_of_json_inj: "py_of_json i = py_of_json j \<longleftrightarrow> i = j"
proof
  show "py_of_json i = py_of_json j \<Longrightarrow> i = j"
  proof (induction i arbitrary: j)
    case (JArr xs)
    from JArr.prems obtain ys where j: "j = JArr ys" "map py_of_json xs = map py_of_json ys" by (cases j) auto
    have "x = y" if "x \<in> set xs" "py_of_json x = py_of_json y" for x y using JArr.IH that by blast
    then have "xs = ys" by (intro list.inj_map_strong [OF _ j(2)])
    then show ?case by (simp add: j)
  next
    case (JObj xs)
    from JObj.prems obtain ys where j: "j = JObj ys"
      "map (\<lambda>kv. (PStr (fst kv), py_of_json (snd kv))) xs = map (\<lambda>kv. (PStr (fst kv), py_of_json (snd kv))) ys"
      by (cases j) auto
    have "x = y" if "x \<in> set xs" "(PStr (fst x), py_of_json (snd x)) = (PStr (fst y), py_of_json (snd y))" for x y
      using JObj.IH [of x "snd x"] that by (cases x; cases y) auto
    then have "xs = ys" using j(2) by (intro list.inj_map_strong [OF _ j(2)]) blast
    then show ?case by (simp add: j)
  next
    case JNull then show ?case by (cases j) auto
  next
    case (JBool x) then show ?case by (cases j) auto
  next
    case (JInt x) then show ?case by (cases j) auto
  next
    case (JFloat x) then show ?case by (cases j) auto
  next
    case (JStr x) then show ?case by (cases j) auto
  qed
qed simp


lemma plain_input_parts:
  assumes "plain_input v"
  shows "json_plain (JObj (create_metadata v))" "is_ascii (rn_run_id v)" "is_ascii (rn_control_stream v)"
    "json_plain (JObj (rn_payload v))"
proof -
  show "json_plain (JObj (create_metadata v))"
    using assms by (auto simp: plain_input_def create_metadata_def is_ascii_def split: option.split simp del: json_plain.simps(7))
      (simp_all add: list_all_iff is_ascii_def)
  show "is_ascii (rn_run_id v)" "is_ascii (rn_control_stream v)" "json_plain (JObj (rn_payload v))"
    using assms by (simp_all add: plain_input_def create_metadata_def del: json_plain.simps(7))
qed

lemma json_plain_ascii_keys:
  assumes "distinct (map fst kvs)" and "list_all is_ascii (map fst kvs)" and "list_all json_plain (map snd kvs)"
  shows "json_plain (JObj kvs)"
  using assms by (auto simp: list_all_iff)

lemma run_command_plain:
  assumes "plain_input v"
  shows "json_plain (command_json (run_command v))"
  unfolding command_json_def
proof (rule json_plain_ascii_keys, goal_cases)
  case 1
  show ?case by simp
next
  case 2
  show ?case by (simp add: is_ascii_def)
next
  case 3
  have "is_ascii (''run-create:v1:'' @ identity_sha256 (run_identity v))"
    using ascii_words(4) sha256_re_ascii [OF identity_sha256_re] by (simp only: is_ascii_append)
  moreover have "json_plain (identity_json (run_identity v))"
    unfolding identity_json_def
    by (rule json_plain_ascii_keys)
      (use plain_input_parts(2) [OF assms] in \<open>simp_all add: run_identity_def opt_json_def is_ascii_def\<close>)
  moreover have "json_plain (JObj (status_intent v))"
    unfolding status_intent_def
    by (rule json_plain_ascii_keys) (use plain_input_parts(3) [OF assms] in \<open>simp_all add: is_ascii_def\<close>)
  moreover have "is_ascii ''run''" "is_ascii ''RUN_CREATE''" by (simp_all add: is_ascii_def)
  ultimately show ?case
    using plain_input_parts(1) [OF assms] sha256_re_ascii [OF identity_sha256_re [of "run_identity v"]] ascii_words(2)
    by (simp add: run_command_def opt_json_def max_safe_integer_def del: json_plain.simps(7) append.simps)
      (simp add: run_identity_def)
qed

text \<open>The input is determined by the members of the metadata, whatever their order.\<close>

lemma metadata_determines:
  assumes v: "run_create_normal E v" and w: "run_create_normal E w"
    and eq: "py_of_json (sort_json (JObj (create_metadata v))) = py_of_json (sort_json (JObj (create_metadata w)))"
  shows "v = w"
proof -
  have d: "distinct (map fst (create_metadata u))" for u by (simp add: create_metadata_def split: option.split)
  have m: "map_option (\<lambda>j. py_of_json (sort_json j)) (map_of (create_metadata v) k)
      = map_option (\<lambda>j. py_of_json (sort_json j)) (map_of (create_metadata w) k)" for k
    using dict_get_sorted [OF d, of v k] dict_get_sorted [OF d, of w k] eq by simp
  have root: "map_of (create_metadata u) ''root_task_id'' = map_option JStr (rn_root_task_id u)" for u
    by (simp add: create_metadata_def split: option.split)
  have "payload_normal E (JObj (rn_payload v))" "payload_normal E (JObj (rn_payload w))"
    using v w by (simp_all add: run_create_normal_def)
  then have "sort_json (JObj (rn_payload v)) = JObj (rn_payload v)" "sort_json (JObj (rn_payload w)) = JObj (rn_payload w)"
    by (simp_all only: sort_json_normal)
  then have "rn_payload v = rn_payload w"
    using m [of "''payload''"] by (simp add: create_metadata_def py_of_json_inj del: sort_json.simps(2) py_of_json.simps(7))
  moreover have "rn_root_task_id v = rn_root_task_id w"
    using m [of "''root_task_id''"] unfolding root by (cases "rn_root_task_id v"; cases "rn_root_task_id w") simp_all
  ultimately show ?thesis
    using m [of "''run_id''"] m [of "''tenant_id''"] m [of "''agent_type''"] m [of "''priority''"] m [of "''estimated_cost_cents''"]
      m [of "''preferred_region''"] m [of "''preferred_placement''"] m [of "''created_at_ms''"] m [of "''control_stream''"]
      m [of "''run_state_ttl_seconds''"]
    by (cases v; cases w) (simp add: create_metadata_def)
qed

lemma command_hash_text:
  assumes laws: "nfc_laws E" "jcs_reads E" and v: "run_create_normal E v" "plain_input v"
  shows "command_hash E (run_command v) = Inr (sha256_hexdigest (command_text E v))"
    "json_loads (command_text E v) = Inr (py_of_json (sort_json (command_json (run_command v))))"
proof -
  have wf: "json_wf E (command_json (run_command v))" by (rule command_json_wf [OF laws(1) run_command_wf [OF laws(1) v(1)]])
  then obtain b where b: "rfc8785_dumps E (command_json (run_command v)) = Some b"
    "json_loads b = Inr (py_of_json (sort_json (command_json (run_command v))))"
    using laws(2) run_command_plain [OF v(2)] unfolding jcs_reads_def by blast
  have "normalize_json E ''$'' (command_hash_payload (run_command v)) = Inr (command_json (run_command v))"
    using wf by (metis command_json_py normalize_json_id)
  then show "command_hash E (run_command v) = Inr (sha256_hexdigest (command_text E v))"
    using b(1) by (simp add: command_hash_def canonical_json_sha256_def canonical_json_bytes_def command_text_def)
  show "json_loads (command_text E v) = Inr (py_of_json (sort_json (command_json (run_command v))))"
    using b by (simp add: command_text_def)
qed

lemma command_text_determines:
  assumes laws: "nfc_laws E" "jcs_reads E" and v: "run_create_normal E v" "plain_input v"
    and w: "run_create_normal E w" "plain_input w" and eq: "command_text E v = command_text E w"
  shows "v = w"
proof -
  define rows where "rows = (\<lambda>u. case command_json (run_command u) of JObj kvs \<Rightarrow> kvs | _ \<Rightarrow> [])"
  have rows: "command_json (run_command u) = JObj (rows u)" "distinct (map fst (rows u))"
    "map_of (rows u) ''authoritative_metadata_changes'' = Some (JObj (create_metadata u))" for u
    by (simp_all add: rows_def command_json_def) (simp add: run_command_def)
  have same: "py_of_json (sort_json (JObj (rows v))) = py_of_json (sort_json (JObj (rows w)))"
    using command_hash_text(2) [OF laws v] command_hash_text(2) [OF laws w] eq by (simp add: rows del: sort_json.simps py_of_json.simps)
  have "py_of_json (sort_json (JObj (create_metadata v))) = py_of_json (sort_json (JObj (create_metadata w)))"
    using dict_get_sorted [OF rows(2) [of v], of "''authoritative_metadata_changes''"]
      dict_get_sorted [OF rows(2) [of w], of "''authoritative_metadata_changes''"]
    unfolding same rows(3) by (simp del: sort_json.simps py_of_json.simps)
  then show ?thesis by (rule metadata_determines [OF v(1) w(1)])
qed

end
