(* ===== verification/RunCreateProjection.thy ===== *)
theory RunCreateProjection
  imports RunCreateCommand AdmissionReservation JsonLoads JsonDumps
begin

text \<open>
  The projection of an admitted run: the event of \<open>_stable_event_fields\<close>, the manager
  \<open>RunCreateProjectionManager\<close> of \<open>src/hfa-control/src/hfa_control/run_create_authority.py\<close> and its
  script \<open>src/hfa-core/src/hfa/lua/run_create_projection.lua\<close>, with \<open>serialize_event\<close> of
  \<open>src/hfa-core/src/hfa/events/codec.py\<close> on the dataclass \<open>RunAdmittedEvent\<close>.

  The decimal text of a float is the parameter \<open>repr\<close>. The server chooses the id of a new stream entry
  and how far \<open>MAXLEN ~\<close> trims: the parameter \<open>stream_rules\<close>, with the documented bounds as
  \<open>stream_laws\<close>.
\<close>

section \<open>The event\<close>

text \<open>A payload is sorted at every level, so the encoder that sorts keys prints it in its own order.\<close>

definition event_seconds :: "int \<Rightarrow> pyfloat" where
  "event_seconds ms = round_ratio (nat ms) 1000"

definition event_digest :: "string \<Rightarrow> string" where
  "event_digest operation_id = sha256_hexdigest (''run-admitted-event:v1:'' @ operation_id)"

definition admitted_event :: "(pyfloat \<Rightarrow> string) \<Rightarrow> run_create \<Rightarrow> string \<Rightarrow> (string \<times> string) list" where
  "admitted_event repr v operation_id =
     [(''event_id'', event_digest operation_id), (''timestamp'', repr (event_seconds (rn_created_at_ms v))),
      (''trace_parent'', []), (''trace_state'', []), (''event_type'', ''RunAdmitted''), (''run_id'', rn_run_id v),
      (''tenant_id'', rn_tenant_id v), (''agent_type'', rn_agent_type v), (''priority'', dec_int (rn_priority v)),
      (''preferred_region'', rn_region v), (''preferred_placement'', rn_placement v),
      (''payload'', json_dumps repr (JObj (rn_payload v))), (''estimated_cost_cents'', dec_int (rn_cost v)),
      (''admitted_at'', repr (event_seconds (rn_created_at_ms v)))]"

definition stable_event_fields :: "externals \<Rightarrow> (pyfloat \<Rightarrow> string) \<Rightarrow> run_create \<Rightarrow> string \<Rightarrow> run_error + (string \<times> string) list" where
  "stable_event_fields E repr v operation_id =
     rbind (normalize_run_create_input E (raw_of v)) (\<lambda>w. Inr (admitted_event repr w operation_id))"

section \<open>Streams of the server\<close>

record stream_rules =
  new_entry_id :: "resource_server \<Rightarrow> string \<Rightarrow> string"
  trimmed :: "int \<Rightarrow> (string \<times> string) list list \<Rightarrow> (string \<times> string) list list"

definition stream_laws :: "stream_rules \<Rightarrow> bool" where
  "stream_laws R \<longleftrightarrow>
     (\<forall>s key. new_entry_id R s key \<noteq> [])
     \<and> (\<forall>n xs. suffix (trimmed R n xs) xs \<and> min (nat n) (length xs) \<le> length (trimmed R n xs))"

definition xadd :: "stream_rules \<Rightarrow> string \<Rightarrow> int \<Rightarrow> (string \<times> string) list \<Rightarrow> resource_server \<Rightarrow> resource_server" where
  "xadd R key maxlen entry s =
     s\<lparr>srv_view := (srv_view s)(key \<mapsto> ROther KStream),
       srv_streams := (srv_streams s)(key := trimmed R maxlen (srv_streams s key @ [entry])),
       srv_ttl := kept_ttl s key\<rparr>"

definition set_expiring :: "string \<Rightarrow> string \<Rightarrow> int \<Rightarrow> resource_server \<Rightarrow> resource_server" where
  "set_expiring key t ttl s = set_ttl key ttl (put_text key t s)"

section \<open>The script\<close>

type_synonym projection_reply = "string \<times> string \<times> string"

definition projection_conflict :: "string \<Rightarrow> resource_server \<Rightarrow> resource_server \<times> (string + projection_reply)" where
  "projection_conflict detail s = (s, Inr (''canonical_run_create_evidence_conflict'', [], detail))"

definition projection_proof_fields :: "string list" where
  "projection_proof_fields =
     [''operation_id'', ''reservation_proof_sha256'', ''canonical_transition_id'', ''canonical_record_hash'',
      ''canonical_command_hash'', ''canonical_revision'', ''run_id'', ''tenant_id'', ''legacy_state'', ''event_payload_hash'']"

definition projection_proof :: "string list \<Rightarrow> string list" where
  "projection_proof argv = arguments argv 1 9 @ [argument argv 11]"

fun field_pairs :: "string list \<Rightarrow> (string \<times> string) list" where
  "field_pairs (k # v # rest) = (k, v) # field_pairs rest"
| "field_pairs _ = []"

definition last_field :: "(string \<times> string) list \<Rightarrow> string \<Rightarrow> string" where
  "last_field fvs name = (case map_of (rev fvs) name of None \<Rightarrow> [] | Some t \<Rightarrow> t)"

definition is_admission_of :: "string \<Rightarrow> (string \<times> string) list \<Rightarrow> bool" where
  "is_admission_of run_id fvs \<longleftrightarrow>
     last_field fvs ''event_type'' = ''RunAdmitted'' \<and> last_field fvs ''run_id'' = run_id"

text \<open>
  The arguments that have to be numbers. Lua's \<open>tonumber\<close> accepts other spellings of a number besides
  decimal numerals; the manager passes \<open>str\<close> of an integer, so they count as no number here.
\<close>

definition projection_numbers :: "string list \<Rightarrow> string + int \<times> int \<times> nat" where
  "projection_numbers argv =
     (let positive = (\<lambda>n. case lua_tonumber (argument argv n) of None \<Rightarrow> None | Some k \<Rightarrow> if 0 < k then Some k else None) in
      case positive 10 of
        None \<Rightarrow> Inl ''invalid_state_ttl''
      | Some ttl \<Rightarrow>
          (case positive 12 of
             None \<Rightarrow> Inl ''invalid_stream_maxlen''
           | Some maxlen \<Rightarrow>
               (case positive 13 of
                  None \<Rightarrow> Inl ''invalid_event_field_count''
                | Some n \<Rightarrow>
                    (if int (length argv) \<noteq> 14 + n * 2 then Inl ''event_field_arity_mismatch'' else Inr (ttl, maxlen, nat n)))))"

definition projection_witness :: "lua_lib \<Rightarrow> string list \<Rightarrow> string list \<Rightarrow> string + string list" where
  "projection_witness L keys argv =
     (if length keys \<noteq> 9 then Inl ''canonical_run_create_proof_missing''
      else case decode_table L (argument argv 14) of
        Some (JArr js) \<Rightarrow>
          (if length js \<noteq> 14 then Inl ''canonical_run_create_proof_missing''
           else case table_texts (JArr js) of
             None \<Rightarrow> Inl ''canonical_run_create_proof_invalid''
           | Some own \<Rightarrow> Inr own)
      | _ \<Rightarrow> Inl ''canonical_run_create_proof_missing'')"

definition projection_proof_ok :: "string list \<Rightarrow> string list \<Rightarrow> bool" where
  "projection_proof_ok argv own \<longleftrightarrow>
     own ! 1 = argument argv 1 \<and> own ! 3 = argument argv 3 \<and> own ! 4 = argument argv 6 \<and> own ! 5 = argument argv 5
     \<and> own ! 6 = argument argv 4 \<and> own ! 10 = ''pending'' \<and> own ! 11 = ''0'' \<and> argument argv 6 = ''1''"

definition projected_already :: "string list \<Rightarrow> string list \<Rightarrow> resource_server \<Rightarrow> resource_server \<times> (string + projection_reply)" where
  "projected_already keys argv s =
     (if \<not> field_list_is s (keys ! 0) projection_proof_fields (projection_proof argv)
      then projection_conflict ''projection_receipt_proof_mismatch'' s
      else case receipt_field s (keys ! 0) ''stream_entry_id'' of
        None \<Rightarrow> projection_conflict ''projection_receipt_missing_stream_entry_id'' s
      | Some entry \<Rightarrow>
          (if entry = [] then projection_conflict ''projection_receipt_missing_stream_entry_id'' s
           else (s, Inr (''canonical_run_create_already_projected'', entry, []))))"

definition project_effects :: "stream_rules \<Rightarrow> string list \<Rightarrow> string list \<Rightarrow> int \<Rightarrow> int \<Rightarrow> resource_server \<Rightarrow> resource_server" where
  "project_effects R keys argv ttl maxlen s =
     set_ttl (keys ! 0) (-1)
       (put_receipt (keys ! 0)
          (zip projection_proof_fields (projection_proof argv) @ [(''stream_entry_id'', new_entry_id R s (keys ! 2))])
          (set_expiring (keys ! 1) (argument argv 9) ttl (xadd R (keys ! 2) maxlen (field_pairs (drop 14 argv)) s)))"

text \<open>
  \<open>SET key value EX ttl\<close> fails when the time in milliseconds does not fit a signed 64-bit integer. The script
  runs it after \<open>XADD\<close>, and a script that fails keeps what it has written, so the event stays and neither
  state nor receipt follow.
\<close>

definition ex_limit :: int where
  "ex_limit = 9223372036854775"

definition project_writes :: "stream_rules \<Rightarrow> string list \<Rightarrow> string list \<Rightarrow> int \<Rightarrow> int \<Rightarrow> resource_server
    \<Rightarrow> resource_server \<times> (string + projection_reply)" where
  "project_writes R keys argv ttl maxlen s =
     (if ex_limit < ttl
      then (xadd R (keys ! 2) maxlen (field_pairs (drop 14 argv)) s, Inl ''ERR invalid expire time in set'')
      else (project_effects R keys argv ttl maxlen s, Inr (''run_admitted'', new_entry_id R s (keys ! 2), [])))"

definition project_first :: "stream_rules \<Rightarrow> lua_lib \<Rightarrow> string list \<Rightarrow> string list \<Rightarrow> int \<Rightarrow> int \<Rightarrow> resource_server
    \<Rightarrow> resource_server \<times> (string + projection_reply)" where
  "project_first R L keys argv ttl maxlen s =
     (case projection_witness L keys argv of
        Inl detail \<Rightarrow> projection_conflict detail s
      | Inr own \<Rightarrow>
          (if \<not> projection_proof_ok argv own then projection_conflict ''canonical_run_create_proof_mismatch'' s
           else if fst (authority_head_validate (object_fields L) (base_server s) (drop 3 keys) own) \<noteq> ''VALID''
           then projection_conflict ''canonical_run_create_proof_conflict'' s
           else if type_name s (keys ! 1) \<noteq> ''none''
           then projection_conflict ''legacy_run_state_exists_without_projection_receipt'' s
           else if type_name s (keys ! 2) \<notin> {''none'', ''stream''} then projection_conflict ''control_stream_wrong_type'' s
           else if type_name s (keys ! 2) = ''stream''
             \<and> (\<exists>entry \<in> set (srv_streams s (keys ! 2)). is_admission_of (argument argv 7) entry)
           then projection_conflict ''legacy_run_event_exists_without_projection_receipt'' s
           else project_writes R keys argv ttl maxlen s))"

definition projection_script :: "stream_rules \<Rightarrow> lua_lib \<Rightarrow> string list \<Rightarrow> string list \<Rightarrow> resource_server
    \<Rightarrow> resource_server \<times> (string + projection_reply)" where
  "projection_script R L keys argv s =
     (case projection_numbers argv of
        Inl detail \<Rightarrow> projection_conflict detail s
      | Inr (ttl, maxlen, n) \<Rightarrow>
          (if type_name s (keys ! 0) \<notin> {''none'', ''hash''} then projection_conflict ''projection_receipt_wrong_type'' s
           else if type_name s (keys ! 0) = ''hash'' then projected_already keys argv s
           else project_first R L keys argv ttl maxlen s))"

section \<open>The manager\<close>

record projector =
  pm_loader :: loader
  pm_initialised :: bool

record projection_input =
  pj_operation_id :: pyval
  pj_reservation_proof :: pyval
  pj_transition_id :: pyval
  pj_record_hash :: pyval
  pj_command_hash :: pyval
  pj_revision :: pyval
  pj_run_id :: pyval
  pj_tenant_id :: pyval
  pj_legacy_state :: pyval
  pj_state_ttl :: pyval
  pj_control_stream :: pyval
  pj_event_fields :: "(string \<times> string) list"
  pj_head_keys :: "string list"
  pj_head_witness :: "string list"

record projection_result =
  po_status :: string
  po_entry_id :: string
  po_projected :: bool

datatype projection_error =
    ProjectionRejected run_error
  | ProjectionNotCanonical authority_error
  | ProjectionCallFailed string
  | EvidenceConflict string bool

definition run_state_key :: "string \<Rightarrow> string" where
  "run_state_key run_id = ''hfa:run:state:'' @ run_id"

definition stream_maxlen :: int where
  "stream_maxlen = 100000"

definition projection_receipt_key :: "externals \<Rightarrow> pyval \<Rightarrow> run_error + string" where
  "projection_receipt_key E operation_id =
     rbind (required_text E ''operation_id'' False operation_id) (\<lambda>op.
       Inr (''hfa:run-create:projection:v1:'' @ sha256_hexdigest op))"

definition checked_event :: "externals \<Rightarrow> (string \<times> string) list \<Rightarrow> run_error + (string \<times> string) list" where
  "checked_event E fvs =
     rbind (rtraverse (\<lambda>kv. rbind (required_text E ''event field name'' False (PStr (fst kv))) (\<lambda>k.
              rbind (required_text E ''event_fields'' True (PStr (snd kv))) (\<lambda>t. Inr (k, t)))) fvs)
       (\<lambda>items. Inr (fold (\<lambda>kt d. AList.update (fst kt) (snd kt) d) items []))"

definition rejected :: "run_error + 'a \<Rightarrow> projection_error + 'a" where
  "rejected m = (case m of Inl e \<Rightarrow> Inl (ProjectionRejected e) | Inr x \<Rightarrow> Inr x)"

definition event_hash :: "externals \<Rightarrow> (string \<times> string) list \<Rightarrow> projection_error + string" where
  "event_hash E fvs =
     (case canonical_json_bytes E (PMap (map (\<lambda>kt. (PStr (fst kt), PStr (snd kt))) fvs)) of
        Inl e \<Rightarrow> Inl (ProjectionNotCanonical e) | Inr b \<Rightarrow> Inr (sha256_hexdigest b))"

definition compact_texts :: "string list \<Rightarrow> string" where
  "compact_texts ws = ''['' @ join_commas (map json_string ws) @ '']''"

text \<open>The checks of \<open>project\<close>, up to the keys and arguments of the call.\<close>

definition projection_call :: "externals \<Rightarrow> projection_input \<Rightarrow> projection_error + string list \<times> string list" where
  "projection_call E x =
     rbind (rejected (required_text E ''operation_id'' False (pj_operation_id x))) (\<lambda>op.
     rbind (rejected (required_sha256 E ''reservation_proof_sha256'' (pj_reservation_proof x))) (\<lambda>proof.
     rbind (rejected (required_text E ''canonical_transition_id'' False (pj_transition_id x))) (\<lambda>tid.
     rbind (rejected (required_sha256 E ''canonical_record_hash'' (pj_record_hash x))) (\<lambda>rh.
     rbind (rejected (required_sha256 E ''canonical_command_hash'' (pj_command_hash x))) (\<lambda>ch.
     rbind (rejected (exact_safe_integer ''canonical_revision'' 1 (pj_revision x))) (\<lambda>revision.
     rbind (rejected (required_text E ''run_id'' False (pj_run_id x))) (\<lambda>run.
     rbind (rejected (required_text E ''tenant_id'' False (pj_tenant_id x))) (\<lambda>tenant.
     rbind (rejected (required_text E ''legacy_state'' False (pj_legacy_state x))) (\<lambda>legacy.
     rbind (rejected (exact_safe_integer ''state_ttl_seconds'' 1 (pj_state_ttl x))) (\<lambda>ttl.
     rbind (rejected (required_text E ''control_stream'' False (pj_control_stream x))) (\<lambda>stream.
     rbind (rejected (run_create_operation_id E (PStr run))) (\<lambda>expected.
     rbind (rguard (op = expected) (ProjectionRejected (RunValueError ''operation_id''))) (\<lambda>_.
     rbind (rguard (revision = 1) (ProjectionRejected (RunValueError ''canonical_revision''))) (\<lambda>_.
     rbind (rguard (legacy = ''admitted'') (ProjectionRejected (RunValueError ''legacy_state''))) (\<lambda>_.
     rbind (rejected (checked_event E (pj_event_fields x))) (\<lambda>fvs.
     rbind (rguard (map_of fvs ''event_type'' = Some ''RunAdmitted'') (ProjectionRejected (RunValueError ''event_type''))) (\<lambda>_.
     rbind (rguard (map_of fvs ''run_id'' = Some run \<and> map_of fvs ''tenant_id'' = Some tenant)
       (ProjectionRejected (RunValueError ''event identity''))) (\<lambda>_.
     rbind (event_hash E fvs) (\<lambda>h.
     rbind (rejected (projection_receipt_key E (PStr op))) (\<lambda>key.
       Inr ([key, run_state_key run, stream] @ pj_head_keys x,
            [op, proof, tid, rh, ch, dec_int revision, run, tenant, legacy, dec_int ttl, h, dec_int stream_maxlen,
             dec_nat (length fvs), compact_texts (pj_head_witness x)]
            @ concat (map (\<lambda>kt. [fst kt, snd kt]) fvs))))))))))))))))))))))"

definition projection_answer :: "projection_reply \<Rightarrow> projection_error + projection_result" where
  "projection_answer rep =
     (case rep of (status, entry, detail) \<Rightarrow>
        if status = ''run_admitted'' then Inr \<lparr>po_status = status, po_entry_id = entry, po_projected = True\<rparr>
        else if status = ''canonical_run_create_already_projected''
        then Inr \<lparr>po_status = status, po_entry_id = entry, po_projected = False\<rparr>
        else if status = ''canonical_run_create_evidence_conflict'' then Inl (EvidenceConflict detail True)
        else Inl (EvidenceConflict ''unknown RUN_CREATE projection status'' True))"

definition with_projector :: "(loader \<times> resource_server host \<Rightarrow> (loader \<times> resource_server host) \<times> (loader_error + 'a))
    \<Rightarrow> projector \<times> resource_server host \<Rightarrow> (projector \<times> resource_server host) \<times> (projection_error + 'a)" where
  "with_projector f = (\<lambda>(P, h).
     (case f (pm_loader P, h) of
        ((ld, h'), Inl e) \<Rightarrow> ((P\<lparr>pm_loader := ld\<rparr>, h'), Inl (ProjectionCallFailed (loader_message e)))
      | ((ld, h'), Inr x) \<Rightarrow> ((P\<lparr>pm_loader := ld\<rparr>, h'), Inr x)))"

definition initialise_projector :: "fate \<Rightarrow> projector \<times> resource_server host
    \<Rightarrow> (projector \<times> resource_server host) \<times> (projection_error + unit)" where
  "initialise_projector f = (\<lambda>(P, h).
     (if pm_initialised P then ((P, h), Inr ())
      else (case with_projector (load_script f) (P, h) of
              ((P', h'), Inl e) \<Rightarrow> ((P', h'), Inl e)
            | ((P', h'), Inr u) \<Rightarrow> ((P'\<lparr>pm_initialised := True\<rparr>, h'), Inr ()))))"

text \<open>Fate 0 is that of \<open>SCRIPT LOAD\<close>, the others are those of the loader.\<close>

definition project :: "externals \<Rightarrow> stream_rules \<Rightarrow> lua_lib \<Rightarrow> (nat \<Rightarrow> fate) \<Rightarrow> projection_input
    \<Rightarrow> projector \<times> resource_server host \<Rightarrow> (projector \<times> resource_server host) \<times> (projection_error + projection_result)" where
  "project E R L net x =
     pure_step (projection_call E x) (\<lambda>(keys, argv).
       sbind (initialise_projector (net 0)) (\<lambda>u.
       sbind (with_projector (loader_run (projection_script R L keys argv) (\<lambda>i. net (Suc i)))) (\<lambda>rep.
       pure_step (projection_answer rep) sreturn)))"

section \<open>Branches of the script\<close>

lemma safe_expire: "ttl \<le> max_safe_integer \<Longrightarrow> project_writes R keys argv ttl maxlen s
    = (project_effects R keys argv ttl maxlen s, Inr (''run_admitted'', new_entry_id R s (keys ! 2), []))"
  by (simp add: project_writes_def ex_limit_def max_safe_integer_def)

lemma projection_script_cases:
  assumes run: "projection_script R L keys argv s = (s', r)"
  obtains (refused) d where "s' = s" "r = Inr (''canonical_run_create_evidence_conflict'', [], d)"
  | (already) entry where "s' = s" "r = Inr (''canonical_run_create_already_projected'', entry, [])"
      "type_name s (keys ! 0) = ''hash''" "field_list_is s (keys ! 0) projection_proof_fields (projection_proof argv)"
      "receipt_field s (keys ! 0) ''stream_entry_id'' = Some entry" "entry \<noteq> []"
  | (expire) ttl maxlen n where "r = Inl ''ERR invalid expire time in set''" "projection_numbers argv = Inr (ttl, maxlen, n)" "ex_limit < ttl"
  | (projected) ttl maxlen n own where "r = Inr (''run_admitted'', new_entry_id R s (keys ! 2), [])"
      "s' = project_effects R keys argv ttl maxlen s"
      "projection_numbers argv = Inr (ttl, maxlen, n)" "type_name s (keys ! 0) = ''none''"
      "projection_witness L keys argv = Inr own" "projection_proof_ok argv own"
      "fst (authority_head_validate (object_fields L) (base_server s) (drop 3 keys) own) = ''VALID''"
      "type_name s (keys ! 1) = ''none''" "type_name s (keys ! 2) \<in> {''none'', ''stream''}"
      "type_name s (keys ! 2) = ''stream'' \<Longrightarrow> \<not> (\<exists>entry \<in> set (srv_streams s (keys ! 2)). is_admission_of (argument argv 7) entry)"
      "ttl \<le> ex_limit"
proof (cases "projection_numbers argv")
  case (Inl d)
  then show thesis using run by (intro refused [of d]) (simp_all add: projection_script_def projection_conflict_def)
next
  case (Inr q)
  obtain ttl maxlen n where q: "q = (ttl, maxlen, n)" by (cases q)
  note N = Inr [unfolded q]
  consider (wrong) "type_name s (keys ! 0) \<notin> {''none'', ''hash''}" | (hash) "type_name s (keys ! 0) = ''hash''"
    | (none) "type_name s (keys ! 0) = ''none''" by blast
  then show thesis
  proof cases
    case wrong
    then show thesis using run N
      by (intro refused [of "''projection_receipt_wrong_type''"]) (auto simp: projection_script_def projection_conflict_def)
  next
    case hash
    then have "projected_already keys argv s = (s', r)" using run N by (simp add: projection_script_def)
    then show thesis using hash unfolding projected_already_def
      by (auto simp: projection_conflict_def split: if_splits option.splits intro: refused already)
  next
    case none
    then have run': "project_first R L keys argv ttl maxlen s = (s', r)" using run N by (simp add: projection_script_def)
    show thesis
    proof (cases "projection_witness L keys argv")
      case (Inl d)
      then show thesis using run' by (intro refused [of d]) (simp_all add: project_first_def projection_conflict_def)
    next
      case (Inr own)
      then show thesis using run' none N unfolding project_first_def
        by (auto simp: projection_conflict_def project_writes_def not_less split: if_splits intro: refused expire projected)
    qed
  qed
qed


end
