(* ===== verification/RunCreateSaga.thy ===== *)
theory RunCreateSaga
  imports RunCreateRecord RunCreateProjection AuthorityConflicts TaskOwners
begin

text \<open>
  The driver of a run admission: \<open>RunCreateAuthorityBinding\<close> of
  \<open>src/hfa-control/src/hfa_control/run_create_authority.py\<close>.

  \<open>admit\<close> awaits one service after the other, and between two calls anything may happen. So it is a
  program: each constructor of \<open>saga\<close> is one awaited call with its arguments and a continuation that takes
  the reply, an exception of the call included. \<open>replay\<close> runs a program against a list of events, each a
  call together with its reply, so a property of all lists that replay holds of every run, whatever the
  services answer. The services themselves are modelled in AdmissionReservation, AuthorityStore,
  AuthorityCommit, AuthorityConflicts and RunCreateProjection.

  Of the text of an error only the literal part is kept. A Redis command that fails is \<open>None\<close>.
\<close>

section \<open>Errors\<close>

datatype admit_error =
    RequestRejected run_error
  | ReservationRejected resource_error
  | EvaluationRejected authority_error
  | WitnessRejected commit_error
  | AuthorityConflict string string bool
  | FootprintConflict string bool
  | ProjectionPending string
  | ResourceFailed string string

text \<open>\<open>status\<close>, \<open>canonical_commit_durable\<close> and \<open>resource_status\<close> of a \<open>RunCreateAuthorityError\<close>.\<close>

fun admit_status :: "admit_error \<Rightarrow> string option" where
  "admit_status (AuthorityConflict st d durable) = Some st"
| "admit_status (FootprintConflict d durable) = Some ''canonical_run_create_evidence_conflict''"
| "admit_status (ProjectionPending d) = Some ''canonical_projection_pending''"
| "admit_status (ResourceFailed rs d) =
     Some (if rs = ''resource_state_conflict'' then ''resource_state_conflict'' else ''resource_reservation_conflict'')"
| "admit_status _ = None"

fun commit_durable :: "admit_error \<Rightarrow> bool option" where
  "commit_durable (AuthorityConflict st d durable) = Some durable"
| "commit_durable (FootprintConflict d durable) = Some durable"
| "commit_durable (ProjectionPending d) = Some True"
| "commit_durable (ResourceFailed rs d) = Some False"
| "commit_durable _ = None"

section \<open>Programs\<close>

datatype service = Reservations | Store | Projections

datatype 'a saga =
    Done 'a
  | Raise admit_error
  | Initialise service "string + unit \<Rightarrow> 'a saga"
  | Reserve reservation "int option" "int option" "int option" "resource_error + reservation_result \<Rightarrow> 'a saga"
  | Get_receipt reservation "resource_error + reservation_receipt option \<Rightarrow> 'a saga"
  | Get_snapshot aggregate_identity "store_error + aggregate_snapshot option \<Rightarrow> 'a saga"
  | Get_probe aggregate_identity string "store_error + receipt_probe option \<Rightarrow> 'a saga"
  | Key_exists string "bool option \<Rightarrow> 'a saga"
  | Key_type string "string option \<Rightarrow> 'a saga"
  | Stream_range string "(string \<times> string) list list option \<Rightarrow> 'a saga"
  | Commit commit_plan "commit_error + commit_result \<Rightarrow> 'a saga"
  | Validate_head aggregate_identity head_expectation "commit_error + aggregate_snapshot \<Rightarrow> 'a saga"
  | Record_conflict aggregate_identity conflict "store_error + commit_result \<Rightarrow> 'a saga"
  | Release reservation "resource_error + reservation_result \<Rightarrow> 'a saga"
  | Finalize reservation "string list" "string list" "resource_error + reservation_result \<Rightarrow> 'a saga"
  | Project projection_input "projection_error + projection_result \<Rightarrow> 'a saga"

datatype event =
    Initialised service "string + unit"
  | Reserved reservation "int option" "int option" "int option" "resource_error + reservation_result"
  | Receipt_read reservation "resource_error + reservation_receipt option"
  | Snapshot_read aggregate_identity "store_error + aggregate_snapshot option"
  | Probe_read aggregate_identity string "store_error + receipt_probe option"
  | Existence_read string "bool option"
  | Type_read string "string option"
  | Stream_read string "(string \<times> string) list list option"
  | Committed commit_plan "commit_error + commit_result"
  | Head_validated aggregate_identity head_expectation "commit_error + aggregate_snapshot"
  | Conflict_recorded aggregate_identity conflict "store_error + commit_result"
  | Released reservation "resource_error + reservation_result"
  | Finalized reservation "string list" "string list" "resource_error + reservation_result"
  | Projected projection_input "projection_error + projection_result"

text \<open>Continue a program with \<open>f\<close> when it returns and with \<open>g\<close> when it raises.\<close>

primrec saga_handle :: "'a saga \<Rightarrow> ('a \<Rightarrow> 'b saga) \<Rightarrow> (admit_error \<Rightarrow> 'b saga) \<Rightarrow> 'b saga" where
  "saga_handle (Done x) f g = f x"
| "saga_handle (Raise e) f g = g e"
| "saga_handle (Initialise s k) f g = Initialise s (\<lambda>a. saga_handle (k a) f g)"
| "saga_handle (Reserve q x y z k) f g = Reserve q x y z (\<lambda>a. saga_handle (k a) f g)"
| "saga_handle (Get_receipt q k) f g = Get_receipt q (\<lambda>a. saga_handle (k a) f g)"
| "saga_handle (Get_snapshot i k) f g = Get_snapshot i (\<lambda>a. saga_handle (k a) f g)"
| "saga_handle (Get_probe i t k) f g = Get_probe i t (\<lambda>a. saga_handle (k a) f g)"
| "saga_handle (Key_exists t k) f g = Key_exists t (\<lambda>a. saga_handle (k a) f g)"
| "saga_handle (Key_type t k) f g = Key_type t (\<lambda>a. saga_handle (k a) f g)"
| "saga_handle (Stream_range t k) f g = Stream_range t (\<lambda>a. saga_handle (k a) f g)"
| "saga_handle (Commit p k) f g = Commit p (\<lambda>a. saga_handle (k a) f g)"
| "saga_handle (Validate_head i x k) f g = Validate_head i x (\<lambda>a. saga_handle (k a) f g)"
| "saga_handle (Record_conflict i c k) f g = Record_conflict i c (\<lambda>a. saga_handle (k a) f g)"
| "saga_handle (Release q k) f g = Release q (\<lambda>a. saga_handle (k a) f g)"
| "saga_handle (Finalize q ks w k) f g = Finalize q ks w (\<lambda>a. saga_handle (k a) f g)"
| "saga_handle (Project x k) f g = Project x (\<lambda>a. saga_handle (k a) f g)"

abbreviation saga_bind :: "'a saga \<Rightarrow> ('a \<Rightarrow> 'b saga) \<Rightarrow> 'b saga" where
  "saga_bind p f \<equiv> saga_handle p f Raise"

text \<open>The run of a program that makes exactly these calls and gets exactly these replies.\<close>

primrec replay :: "'a saga \<Rightarrow> event list \<Rightarrow> (admit_error + 'a) option" where
  "replay (Done x) tr = (if tr = [] then Some (Inr x) else None)"
| "replay (Raise e) tr = (if tr = [] then Some (Inl e) else None)"
| "replay (Initialise s k) tr =
     (case tr of Initialised s' a # es \<Rightarrow> if s' = s then replay (k a) es else None | _ \<Rightarrow> None)"
| "replay (Reserve q x y z k) tr =
     (case tr of Reserved q' x' y' z' a # es \<Rightarrow> if q' = q \<and> x' = x \<and> y' = y \<and> z' = z then replay (k a) es else None | _ \<Rightarrow> None)"
| "replay (Get_receipt q k) tr =
     (case tr of Receipt_read q' a # es \<Rightarrow> if q' = q then replay (k a) es else None | _ \<Rightarrow> None)"
| "replay (Get_snapshot i k) tr =
     (case tr of Snapshot_read i' a # es \<Rightarrow> if i' = i then replay (k a) es else None | _ \<Rightarrow> None)"
| "replay (Get_probe i t k) tr =
     (case tr of Probe_read i' t' a # es \<Rightarrow> if i' = i \<and> t' = t then replay (k a) es else None | _ \<Rightarrow> None)"
| "replay (Key_exists t k) tr =
     (case tr of Existence_read t' a # es \<Rightarrow> if t' = t then replay (k a) es else None | _ \<Rightarrow> None)"
| "replay (Key_type t k) tr =
     (case tr of Type_read t' a # es \<Rightarrow> if t' = t then replay (k a) es else None | _ \<Rightarrow> None)"
| "replay (Stream_range t k) tr =
     (case tr of Stream_read t' a # es \<Rightarrow> if t' = t then replay (k a) es else None | _ \<Rightarrow> None)"
| "replay (Commit p k) tr =
     (case tr of Committed p' a # es \<Rightarrow> if p' = p then replay (k a) es else None | _ \<Rightarrow> None)"
| "replay (Validate_head i x k) tr =
     (case tr of Head_validated i' x' a # es \<Rightarrow> if i' = i \<and> x' = x then replay (k a) es else None | _ \<Rightarrow> None)"
| "replay (Record_conflict i c k) tr =
     (case tr of Conflict_recorded i' c' a # es \<Rightarrow> if i' = i \<and> c' = c then replay (k a) es else None | _ \<Rightarrow> None)"
| "replay (Release q k) tr =
     (case tr of Released q' a # es \<Rightarrow> if q' = q then replay (k a) es else None | _ \<Rightarrow> None)"
| "replay (Finalize q ks w k) tr =
     (case tr of Finalized q' ks' w' a # es \<Rightarrow> if q' = q \<and> ks' = ks \<and> w' = w then replay (k a) es else None | _ \<Rightarrow> None)"
| "replay (Project x k) tr =
     (case tr of Projected x' a # es \<Rightarrow> if x' = x then replay (k a) es else None | _ \<Rightarrow> None)"

section \<open>Runs\<close>

lemma replay_ends [simp]:
  "replay (Done x) tr = Some r \<longleftrightarrow> tr = [] \<and> r = Inr x"
  "replay (Raise e) tr = Some r \<longleftrightarrow> tr = [] \<and> r = Inl e"
  by auto

lemma replay_calls [simp]:
  "replay (Initialise s k1) tr = Some r \<longleftrightarrow> (\<exists>a es. tr = Initialised s a # es \<and> replay (k1 a) es = Some r)"
  "replay (Reserve q x y z k2) tr = Some r \<longleftrightarrow> (\<exists>a es. tr = Reserved q x y z a # es \<and> replay (k2 a) es = Some r)"
  "replay (Get_receipt q k3) tr = Some r \<longleftrightarrow> (\<exists>a es. tr = Receipt_read q a # es \<and> replay (k3 a) es = Some r)"
  "replay (Get_snapshot i k4) tr = Some r \<longleftrightarrow> (\<exists>a es. tr = Snapshot_read i a # es \<and> replay (k4 a) es = Some r)"
  "replay (Get_probe i t k5) tr = Some r \<longleftrightarrow> (\<exists>a es. tr = Probe_read i t a # es \<and> replay (k5 a) es = Some r)"
  "replay (Key_exists t k6) tr = Some r \<longleftrightarrow> (\<exists>a es. tr = Existence_read t a # es \<and> replay (k6 a) es = Some r)"
  "replay (Key_type t k7) tr = Some r \<longleftrightarrow> (\<exists>a es. tr = Type_read t a # es \<and> replay (k7 a) es = Some r)"
  "replay (Stream_range t k8) tr = Some r \<longleftrightarrow> (\<exists>a es. tr = Stream_read t a # es \<and> replay (k8 a) es = Some r)"
  "replay (Commit p k9) tr = Some r \<longleftrightarrow> (\<exists>a es. tr = Committed p a # es \<and> replay (k9 a) es = Some r)"
  "replay (Validate_head i hx k10) tr = Some r \<longleftrightarrow> (\<exists>a es. tr = Head_validated i hx a # es \<and> replay (k10 a) es = Some r)"
  "replay (Record_conflict i cf k11) tr = Some r \<longleftrightarrow> (\<exists>a es. tr = Conflict_recorded i cf a # es \<and> replay (k11 a) es = Some r)"
  "replay (Release q k12) tr = Some r \<longleftrightarrow> (\<exists>a es. tr = Released q a # es \<and> replay (k12 a) es = Some r)"
  "replay (Finalize q ks w k13) tr = Some r \<longleftrightarrow> (\<exists>a es. tr = Finalized q ks w a # es \<and> replay (k13 a) es = Some r)"
  "replay (Project px k14) tr = Some r \<longleftrightarrow> (\<exists>a es. tr = Projected px a # es \<and> replay (k14 a) es = Some r)"
  by (auto split: list.splits event.splits if_splits)

declare replay.simps [simp del]

text \<open>A run of a composition is a run of its first part, followed by a run of the part that this one chose.\<close>

definition continues :: "('a \<Rightarrow> 'b saga) \<Rightarrow> (admit_error \<Rightarrow> 'b saga) \<Rightarrow> admit_error + 'a \<Rightarrow> 'b saga" where
  "continues f g m = (case m of Inl e \<Rightarrow> g e | Inr x \<Rightarrow> f x)"

lemma call_append:
  assumes "\<And>a es. P a es = (\<exists>t1 t2 m. es = t1 @ t2 \<and> R a t1 m \<and> C m t2)"
  shows "(\<exists>a es. tr = E a # es \<and> P a es) = (\<exists>t1 t2 m. tr = t1 @ t2 \<and> (\<exists>a es. t1 = E a # es \<and> R a es m) \<and> C m t2)"
  unfolding assms by (metis append_Cons)

lemma replay_handle:
  "replay (saga_handle p f g) tr = Some r \<longleftrightarrow>
     (\<exists>t1 t2 m. tr = t1 @ t2 \<and> replay p t1 = Some m \<and> replay (continues f g m) t2 = Some r)"
proof (induction p arbitrary: tr)
  case (Done x)
  then show ?case by (auto simp: continues_def)
next
  case (Raise x)
  then show ?case by (auto simp: continues_def)
qed (simp only: saga_handle.simps replay_calls, rule call_append, blast)+

lemma continues_simps [simp]: "continues f g (Inr x) = f x" "continues f g (Inl e) = g e"
  by (simp_all add: continues_def)

lemma replay_bindE:
  assumes "replay (saga_handle p f g) tr = Some r"
  obtains (raised) t1 t2 e where "tr = t1 @ t2" "replay p t1 = Some (Inl e)" "replay (g e) t2 = Some r"
  | (returned) t1 t2 x where "tr = t1 @ t2" "replay p t1 = Some (Inr x)" "replay (f x) t2 = Some r"
proof -
  from assms obtain t1 t2 m where "tr = t1 @ t2" "replay p t1 = Some m" "replay (continues f g m) t2 = Some r"
    unfolding replay_handle by blast
  then show thesis by (cases m) (auto intro: raised returned)
qed

lemma replay_bindI:
  "replay p t1 = Some (Inr x) \<Longrightarrow> replay (f x) t2 = Some r \<Longrightarrow> replay (saga_handle p f g) (t1 @ t2) = Some r"
  unfolding replay_handle by (intro exI [of _ t1] exI [of _ t2] exI [of _ "Inr x"]) simp

section \<open>The binding\<close>

record binding =
  bd_namespace :: string
  bd_control_stream :: string
  bd_state_ttl :: int
  bd_initialised :: bool

definition make_binding :: "externals \<Rightarrow> string \<Rightarrow> pyval \<Rightarrow> pyval \<Rightarrow> run_error + binding" where
  "make_binding E namespace control_stream ttl =
     rbind (required_text E ''control_stream'' False control_stream) (\<lambda>stream.
     rbind (exact_safe_integer ''run_state_ttl_seconds'' 1 ttl) (\<lambda>n.
       Inr \<lparr>bd_namespace = namespace, bd_control_stream = stream, bd_state_ttl = n, bd_initialised = False\<rparr>))"

text \<open>\<open>initialise\<close> sets \<open>_initialised\<close> once the three services have answered.\<close>

definition initialise_service :: "service \<Rightarrow> unit saga" where
  "initialise_service s =
     Initialise s (\<lambda>a. case a of
        Inl m \<Rightarrow> Raise (AuthorityConflict ''canonical_run_create_configuration_conflict'' m False)
      | Inr u \<Rightarrow> Done ())"

definition initialise :: "binding \<Rightarrow> unit saga" where
  "initialise b =
     (if bd_initialised b then Done ()
      else saga_bind (initialise_service Reservations) (\<lambda>_.
           saga_bind (initialise_service Store) (\<lambda>_. initialise_service Projections)))"

definition binding_after :: "binding \<Rightarrow> event list \<Rightarrow> binding" where
  "binding_after b tr = b\<lparr>bd_initialised := bd_initialised b \<or> Initialised Projections (Inr ()) \<in> set tr\<rparr>"

section \<open>Steps of the driver\<close>

text \<open>A check that raises outside every \<open>try\<close>.\<close>

definition checked :: "('e \<Rightarrow> admit_error) \<Rightarrow> 'e + 'a \<Rightarrow> 'a saga" where
  "checked wrap m = (case m of Inl e \<Rightarrow> Raise (wrap e) | Inr x \<Rightarrow> Done x)"

definition continuity_error :: "aggregate_snapshot option \<Rightarrow> receipt_probe option \<Rightarrow> string option" where
  "continuity_error snapshot probe =
     (case (snapshot, probe) of
        (None, None) \<Rightarrow> None
      | (Some s, Some p) \<Rightarrow>
          (case probe_store_record p of
             None \<Rightarrow> Some ''receipt_record_missing''
           | Some r \<Rightarrow>
               (let rc = probe_receipt p in
                if PStr (snap_operation_id s) = rcpt_operation_id rc \<and> rcpt_operation_id rc = rec_operation_id r
                  \<and> PStr (snap_transition_id s) = rcpt_transition_id rc \<and> rcpt_transition_id rc = rec_transition_id r
                  \<and> PStr (snap_command_hash s) = rcpt_command_hash rc \<and> rcpt_command_hash rc = rec_command_hash r
                  \<and> PStr (snap_record_hash s) = rcpt_record_hash rc \<and> rcpt_record_hash rc = rec_record_hash r
                  \<and> PInt (snap_revision s) = rcpt_aggregate_revision rc \<and> rcpt_aggregate_revision rc = rec_to_revision r
                  \<and> opt_str (snap_state s) = rec_next_state r
                then None else Some ''snapshot_receipt_continuity_mismatch''))
      | _ \<Rightarrow> Some ''snapshot_receipt_presence_mismatch'')"

definition persistence_status :: "store_error \<Rightarrow> string" where
  "persistence_status e =
     (case e of CorruptionError m \<Rightarrow> ''CANONICAL_RECORD_CORRUPTION_CONFLICT'' | _ \<Rightarrow> ''CONFLICT_EVIDENCE_STORE_UNAVAILABLE'')"

definition commit_error_status :: "commit_error \<Rightarrow> string" where
  "commit_error_status e = (case e of Inl a \<Rightarrow> ''CONFLICT_EVIDENCE_STORE_UNAVAILABLE'' | Inr se \<Rightarrow> persistence_status se)"

definition run_meta_key :: "string \<Rightarrow> string" where
  "run_meta_key run_id = ''hfa:run:meta:'' @ run_id"

definition inspection_failed :: "'a saga" where
  "inspection_failed = Raise (FootprintConflict ''legacy RUN footprint inspection failed'' False)"

definition footprint_in_stream :: "string \<Rightarrow> string \<Rightarrow> bool saga" where
  "footprint_in_stream stream run_id =
     Key_type stream (\<lambda>t. case t of
        None \<Rightarrow> inspection_failed
      | Some kind \<Rightarrow>
          (if kind \<notin> {''none'', ''stream''} then Raise (FootprintConflict ''control stream has wrong Redis type'' False)
           else if kind = ''stream''
           then Stream_range stream (\<lambda>es. case es of
                  None \<Rightarrow> inspection_failed
                | Some entries \<Rightarrow> Done (\<exists>fs \<in> set entries. map_of fs ''event_type'' = Some ''RunAdmitted''
                                                      \<and> map_of fs ''run_id'' = Some run_id))
           else Done False))"

definition legacy_footprint_exists :: "string \<Rightarrow> string \<Rightarrow> bool saga" where
  "legacy_footprint_exists stream run_id =
     Key_exists (run_state_key run_id) (\<lambda>a. case a of
        None \<Rightarrow> inspection_failed
      | Some True \<Rightarrow> Done True
      | Some False \<Rightarrow>
          Key_exists (run_meta_key run_id) (\<lambda>m. case m of
             None \<Rightarrow> inspection_failed
           | Some True \<Rightarrow> Done True
           | Some False \<Rightarrow> footprint_in_stream stream run_id))"

text \<open>What \<open>_validate_exact_head\<close> passes; it is built inside the \<open>try\<close>.\<close>

definition exact_head :: "externals \<Rightarrow> binding \<Rightarrow> ctr \<Rightarrow> operation_receipt \<Rightarrow> commit_error + head_expectation" where
  "exact_head E b r rc =
     rbind (lift_store (make_keyspace (str_of (rec_identity_sha256 r)) (bd_namespace b))) (\<lambda>ks.
     rbind (lift_store (operation_digest (str_of (rec_operation_id r)))) (\<lambda>digest.
     rbind (lift_authority (canonical_text E (PSeq (map thaw (rec_projection_intents r))))) (\<lambda>intents_json.
       Inr \<lparr>he_operation_id = str_of (rec_operation_id r), he_operation_digest = digest,
            he_transition_id = str_of (rec_transition_id r), he_revision = int_of (rec_to_revision r),
            he_command_hash = str_of (rec_command_hash r), he_record_hash = str_of (rec_record_hash r),
            he_record = r, he_receipt = rc, he_state = opt_str_of (rec_next_state r),
            he_projection_intents_json = intents_json, he_updated_at_ms = int_of (rec_committed_at_ms r)\<rparr>)))"

definition head_refused :: "commit_error \<Rightarrow> unit saga" where
  "head_refused e = Raise (AuthorityConflict (commit_error_status e) ''authority head validation failed'' True)"

definition validate_exact_head :: "externals \<Rightarrow> binding \<Rightarrow> ctr \<Rightarrow> operation_receipt \<Rightarrow> unit saga" where
  "validate_exact_head E b r rc =
     (case exact_head E b r rc of
        Inl e \<Rightarrow> head_refused e
      | Inr x \<Rightarrow> Validate_head (rec_identity r) x (\<lambda>a. case a of Inl e \<Rightarrow> head_refused e | Inr snap \<Rightarrow> Done ()))"

definition release_if_owned :: "reservation \<Rightarrow> bool \<Rightarrow> unit saga" where
  "release_if_owned q created_here =
     (if \<not> created_here then Done ()
      else Release q (\<lambda>a. case a of
        Inl e \<Rightarrow> Raise (ResourceFailed ''resource_state_conflict'' ''precommit release failed'')
      | Inr res \<Rightarrow>
          (if rr_status res \<notin> {''released'', ''already_released''} \<or> rr_state res \<noteq> ''RELEASED''
           then Raise (ResourceFailed (rr_status res) ''precommit release did not reach RELEASED'')
           else Done ())))"

definition validate_reservation_result :: "reservation_result \<Rightarrow> bool saga" where
  "validate_reservation_result res =
     (case map_of [(''reserved'', (''RESERVED'', True)), (''already_reserved'', (''RESERVED'', False)),
                   (''already_finalized'', (''FINALIZED'', False))] (rr_status res) of
        None \<Rightarrow> Raise (ResourceFailed (rr_status res) ''resource reservation rejected RUN_CREATE'')
      | Some (expected_state, expected_mutation) \<Rightarrow>
          (if rr_state res \<noteq> expected_state \<or> rr_mutated res \<noteq> expected_mutation
           then Raise (ResourceFailed ''reservation_state_conflict''
                  ''resource reservation status/state/mutation contract is inconsistent'')
           else Done (rr_status res = ''reserved'')))"

fun decision_value :: "decision_code \<Rightarrow> string" where
  "decision_value ACCEPTED = ''ACCEPTED''"
| "decision_value AUTHORITY_ENTRY_REJECTED = ''AUTHORITY_ENTRY_REJECTED''"
| "decision_value ALREADY_APPLIED = ''ALREADY_APPLIED''"
| "decision_value IDEMPOTENCY_CONFLICT = ''IDEMPOTENCY_CONFLICT''"
| "decision_value AGGREGATE_ALREADY_EXISTS_CONFLICT = ''AGGREGATE_ALREADY_EXISTS_CONFLICT''"
| "decision_value STALE_REVISION_CONFLICT = ''STALE_REVISION_CONFLICT''"
| "decision_value FUTURE_REVISION_CONFLICT = ''FUTURE_REVISION_CONFLICT''"
| "decision_value ILLEGAL_STATE_TRANSITION = ''ILLEGAL_STATE_TRANSITION''"
| "decision_value CANONICAL_RECORD_CORRUPTION_CONFLICT = ''CANONICAL_RECORD_CORRUPTION_CONFLICT''"
| "decision_value OPERATION_NOT_AUTHORITY_MUTATION = ''OPERATION_NOT_AUTHORITY_MUTATION''"
| "decision_value UNSUPPORTED_LEGACY_OPERATION = ''UNSUPPORTED_LEGACY_OPERATION''"

definition status_of_decision :: "decision_code \<Rightarrow> commit_status option" where
  "status_of_decision code = find (\<lambda>s. commit_status_value s = decision_value code) all_commit_statuses"

definition policy_conflict :: "authority_command \<Rightarrow> string \<Rightarrow> int \<Rightarrow> decision_code \<Rightarrow> commit_status
    \<Rightarrow> aggregate_snapshot option \<Rightarrow> receipt_probe option \<Rightarrow> conflict" where
  "policy_conflict c command_sha created_at_ms code status snapshot probe =
     (let r = (case probe of None \<Rightarrow> None | Some p \<Rightarrow> probe_store_record p) in
      \<lparr>cf_status = status, cf_operation_id = cmd_operation_id c, cf_incoming_command_hash = command_sha,
       cf_observed_at_ms = created_at_ms, cf_detail_code = ''policy_'' @ map lower_char (decision_value code),
       cf_stored_command_hash = map_option (\<lambda>x. str_of (rec_command_hash x)) r,
       cf_existing_transition_id = map_option (\<lambda>x. str_of (rec_transition_id x)) r,
       cf_aggregate_revision = map_option snap_revision snapshot,
       cf_detail = ''canonical policy blocked RUN_CREATE projection''\<rparr>)"

definition evidence_unrecorded :: "'a saga" where
  "evidence_unrecorded = Raise (AuthorityConflict ''CONFLICT_EVIDENCE_STORE_UNAVAILABLE'' ''conflict evidence not recorded'' False)"

definition record_policy_conflict :: "externals \<Rightarrow> authority_command \<Rightarrow> int \<Rightarrow> decision_code
    \<Rightarrow> aggregate_snapshot option \<Rightarrow> receipt_probe option \<Rightarrow> unit saga" where
  "record_policy_conflict E c created_at_ms code snapshot probe =
     (case status_of_decision code of
        None \<Rightarrow> Raise (AuthorityConflict (decision_value code) ''canonical policy blocked RUN_CREATE'' False)
      | Some status \<Rightarrow>
          (case command_hash E c of
             Inl e \<Rightarrow> evidence_unrecorded
           | Inr command_sha \<Rightarrow>
               Record_conflict (cmd_identity c) (policy_conflict c command_sha created_at_ms code status snapshot probe)
                 (\<lambda>a. case a of Inl e \<Rightarrow> evidence_unrecorded | Inr res \<Rightarrow> Done ())))"

definition proof_unavailable :: "'a saga" where
  "proof_unavailable = Raise (AuthorityConflict ''CONFLICT_EVIDENCE_STORE_UNAVAILABLE'' ''ambiguous commit proof unavailable'' False)"

definition different_proof :: "'a saga" where
  "different_proof = Raise (AuthorityConflict ''IDEMPOTENCY_CONFLICT'' ''ambiguous commit resolved to different canonical proof'' True)"

definition resolve_with :: "externals \<Rightarrow> binding \<Rightarrow> authority_command \<Rightarrow> aggregate_snapshot option \<Rightarrow> receipt_probe option
    \<Rightarrow> (ctr \<times> operation_receipt) option saga" where
  "resolve_with E b c snapshot probe =
     (case continuity_error snapshot probe of
        Some d \<Rightarrow> Raise (AuthorityConflict ''CANONICAL_RECORD_CORRUPTION_CONFLICT'' d (probe \<noteq> None))
      | None \<Rightarrow>
     (case probe of
        None \<Rightarrow> Done None
      | Some p \<Rightarrow>
          (case probe_store_record p of
             None \<Rightarrow> different_proof
           | Some r \<Rightarrow>
               saga_bind (checked EvaluationRejected (command_hash E c)) (\<lambda>command_sha.
               if rec_command_hash r \<noteq> PStr command_sha then different_proof
               else saga_bind (validate_exact_head E b r (probe_receipt p)) (\<lambda>_. Done (Some (r, probe_receipt p)))))))"

definition resolve_from :: "externals \<Rightarrow> binding \<Rightarrow> authority_command \<Rightarrow> aggregate_snapshot option
    \<Rightarrow> (ctr \<times> operation_receipt) option saga" where
  "resolve_from E b c snapshot =
     Get_probe (cmd_identity c) (cmd_operation_id c) (\<lambda>a. case a of
        Inl e \<Rightarrow> proof_unavailable
      | Inr probe \<Rightarrow> resolve_with E b c snapshot probe)"

definition resolve_ambiguous_commit :: "externals \<Rightarrow> binding \<Rightarrow> authority_command
    \<Rightarrow> (ctr \<times> operation_receipt) option saga" where
  "resolve_ambiguous_commit E b c =
     Get_snapshot (cmd_identity c) (\<lambda>a. case a of
        Inl e \<Rightarrow> proof_unavailable
      | Inr snapshot \<Rightarrow> resolve_from E b c snapshot)"

section \<open>Admission\<close>

text \<open>The attributes of a request; a missing one has the default of \<open>getattr\<close>.\<close>

record admit_request =
  aq_run_id :: pyval
  aq_tenant_id :: pyval
  aq_agent_type :: pyval
  aq_priority :: pyval
  aq_payload :: pyval
  aq_cost :: pyval
  aq_region :: pyval
  aq_placement :: pyval
  aq_root_task_id :: pyval

record admit_limits =
  al_inflight :: pyval
  al_concurrent :: pyval
  al_budget :: pyval

text \<open>The checked request, and the checked limits as \<open>(inflight, concurrent, budget)\<close>.\<close>

record checked_request =
  cq_run_id :: string
  cq_tenant_id :: string
  cq_agent_type :: string
  cq_priority :: int
  cq_payload :: "(string \<times> json) list"
  cq_cost :: int
  cq_region :: string
  cq_placement :: string
  cq_root_task_id :: "string option"

definition check_request :: "externals \<Rightarrow> admit_request \<Rightarrow> run_error + checked_request" where
  "check_request E q =
     rbind (required_text E ''run_id'' False (aq_run_id q)) (\<lambda>run.
     rbind (required_text E ''tenant_id'' False (aq_tenant_id q)) (\<lambda>tenant.
     rbind (required_text E ''agent_type'' False (aq_agent_type q)) (\<lambda>agent.
     rbind (exact_safe_integer ''priority'' 0 (aq_priority q)) (\<lambda>priority.
     rbind (normalize_object E (aq_payload q)) (\<lambda>payload.
     rbind (exact_safe_integer ''estimated_cost_cents'' 0 (aq_cost q)) (\<lambda>cost.
     rbind (required_text E ''preferred_region'' True (aq_region q)) (\<lambda>region.
     rbind (required_text E ''preferred_placement'' False (aq_placement q)) (\<lambda>placement.
     rbind (optional_text E ''root_task_id'' (aq_root_task_id q)) (\<lambda>root.
       Inr \<lparr>cq_run_id = run, cq_tenant_id = tenant, cq_agent_type = agent, cq_priority = priority, cq_payload = payload,
            cq_cost = cost, cq_region = region, cq_placement = placement, cq_root_task_id = root\<rparr>)))))))))"

definition check_limits :: "admit_limits \<Rightarrow> run_error + int option \<times> int option \<times> int option" where
  "check_limits l =
     rbind (optional_safe_limit ''tenant_inflight_limit'' (al_inflight l)) (\<lambda>i.
     rbind (optional_safe_limit ''concurrent_run_limit'' (al_concurrent l)) (\<lambda>c.
     rbind (optional_safe_limit ''budget_limit_cents'' (al_budget l)) (\<lambda>b. Inr (i, c, b))))"

text \<open>The input of the command: the time is that of the reservation receipt, and stream and time to live
  are those of the stored record when there is one.\<close>

definition admission_raw :: "binding \<Rightarrow> checked_request \<Rightarrow> int \<Rightarrow> run_create option \<Rightarrow> run_create_raw" where
  "admission_raw b q created_at_ms template =
     \<lparr>rw_run_id = PStr (cq_run_id q), rw_tenant_id = PStr (cq_tenant_id q), rw_agent_type = PStr (cq_agent_type q),
      rw_priority = PInt (cq_priority q), rw_payload = py_of_json (JObj (cq_payload q)), rw_cost = PInt (cq_cost q),
      rw_region = PStr (cq_region q), rw_placement = PStr (cq_placement q), rw_created_at_ms = PInt created_at_ms,
      rw_control_stream = PStr (case template of None \<Rightarrow> bd_control_stream b | Some t \<Rightarrow> rn_control_stream t),
      rw_state_ttl = PInt (case template of None \<Rightarrow> bd_state_ttl b | Some t \<Rightarrow> rn_state_ttl t),
      rw_root_task_id = opt_str (cq_root_task_id q)\<rparr>"

definition definitive_conflicts :: "commit_status list" where
  "definitive_conflicts =
     [CS_IDEMPOTENCY_CONFLICT, CS_AGGREGATE_ALREADY_EXISTS_CONFLICT, CS_STALE_REVISION_CONFLICT,
      CS_FUTURE_REVISION_CONFLICT, CS_ILLEGAL_STATE_TRANSITION, CS_INVALID_COMMIT_PLAN]"

text \<open>Commit of an accepted plan, up to the record and receipt that stand in the store.\<close>

definition commit_admission :: "externals \<Rightarrow> binding \<Rightarrow> reservation \<Rightarrow> bool \<Rightarrow> authority_command \<Rightarrow> commit_plan
    \<Rightarrow> (ctr \<times> operation_receipt) saga" where
  "commit_admission E b q created_here c plan =
     Commit plan (\<lambda>a. case a of
       Inl e \<Rightarrow>
         saga_bind (resolve_ambiguous_commit E b c) (\<lambda>found. case found of
           None \<Rightarrow>
             saga_bind (release_if_owned q created_here) (\<lambda>_.
               Raise (AuthorityConflict ''CONFLICT_EVIDENCE_STORE_UNAVAILABLE'' ''canonical commit failed and absence was proven'' False))
         | Some proof \<Rightarrow> Done proof)
     | Inr persisted \<Rightarrow>
         (if cr_status persisted = CS_COMMITTED then Done (plan_record plan, plan_receipt plan)
          else if cr_status persisted = CS_ALREADY_APPLIED
          then saga_bind (resolve_ambiguous_commit E b c) (\<lambda>found. case found of
                 None \<Rightarrow> Raise (AuthorityConflict ''CANONICAL_RECORD_CORRUPTION_CONFLICT''
                           ''ALREADY_APPLIED did not resolve to exact canonical proof'' False)
               | Some proof \<Rightarrow> Done proof)
          else saga_bind (if cr_status persisted \<in> set definitive_conflicts then release_if_owned q created_here else Done ()) (\<lambda>_.
                 Raise (AuthorityConflict (commit_status_value (cr_status persisted)) (cr_detail persisted) False))))"

text \<open>What follows the evaluation, by its decision.\<close>

definition settle_decision :: "externals \<Rightarrow> binding \<Rightarrow> reservation \<Rightarrow> bool \<Rightarrow> authority_command \<Rightarrow> int
    \<Rightarrow> aggregate_snapshot option \<Rightarrow> receipt_probe option \<Rightarrow> authority_evaluation \<Rightarrow> (ctr \<times> operation_receipt) saga" where
  "settle_decision E b q created_here c created_at_ms snapshot probe ev =
     (let code = dec_code (eval_decision ev) in
      if code = ALREADY_APPLIED
      then (case probe of
              Some p \<Rightarrow>
                (case probe_store_record p of
                   Some r \<Rightarrow> saga_bind (validate_exact_head E b r (probe_receipt p)) (\<lambda>_. Done (r, probe_receipt p))
                 | None \<Rightarrow> Raise (AuthorityConflict ''CANONICAL_RECORD_CORRUPTION_CONFLICT'' ''duplicate RUN_CREATE proof is incomplete'' True))
            | None \<Rightarrow> Raise (AuthorityConflict ''CANONICAL_RECORD_CORRUPTION_CONFLICT'' ''duplicate RUN_CREATE proof is incomplete'' True))
      else if code = ACCEPTED
      then (case eval_commit_plan ev of
              None \<Rightarrow> saga_bind (release_if_owned q created_here) (\<lambda>_.
                Raise (AuthorityConflict ''AUTHORITY_ENTRY_REJECTED'' ''accepted RUN_CREATE has no commit plan'' False))
            | Some plan \<Rightarrow> commit_admission E b q created_here c plan)
      else saga_bind (release_if_owned q created_here) (\<lambda>_.
           saga_bind (record_policy_conflict E c created_at_ms code snapshot probe) (\<lambda>_.
             Raise (AuthorityConflict (decision_value code) ''canonical policy blocked RUN_CREATE'' (probe \<noteq> None)))))"

record binding_result =
  br_status :: string
  br_run_id :: string
  br_entry_id :: string
  br_first_projection :: bool
  br_transition_id :: pyval
  br_record_hash :: pyval
  br_command_hash :: pyval
  br_revision :: pyval

definition projection_of :: "ctr \<Rightarrow> reservation \<Rightarrow> run_create \<Rightarrow> (string \<times> string) list \<Rightarrow> string list \<Rightarrow> string list
    \<Rightarrow> projection_input" where
  "projection_of r q v event_fields keys witness =
     \<lparr>pj_operation_id = rec_operation_id r, pj_reservation_proof = PStr (reservation_proof q),
      pj_transition_id = rec_transition_id r, pj_record_hash = rec_record_hash r, pj_command_hash = rec_command_hash r,
      pj_revision = rec_to_revision r, pj_run_id = PStr (rn_run_id v), pj_tenant_id = PStr (rn_tenant_id v),
      pj_legacy_state = PStr ''admitted'', pj_state_ttl = PInt (rn_state_ttl v), pj_control_stream = PStr (rn_control_stream v),
      pj_event_fields = event_fields, pj_head_keys = keys, pj_head_witness = witness\<rparr>"

text \<open>After the commit: validation, finalization, projection.\<close>

definition publish_admission :: "externals \<Rightarrow> (pyfloat \<Rightarrow> string) \<Rightarrow> binding \<Rightarrow> reservation \<Rightarrow> ctr \<Rightarrow> operation_receipt
    \<Rightarrow> binding_result saga" where
  "publish_admission E repr b q r rc =
     saga_bind (validate_exact_head E b r rc) (\<lambda>_.
     case input_from_record E r of
       Inl e \<Rightarrow> Raise (ProjectionPending ''canonical RUN_CREATE record cannot drive projection'')
     | Inr v \<Rightarrow>
     saga_bind (checked WitnessRejected (authority_head_witness E (bd_namespace b) r rc)) (\<lambda>(keys, witness).
     Finalize q keys witness (\<lambda>a. case a of
       Inl e \<Rightarrow> Raise (ProjectionPending ''resource finalization failed after canonical commit'')
     | Inr res \<Rightarrow>
         (if rr_status res \<notin> {''finalized'', ''already_finalized''} \<or> rr_state res \<noteq> ''FINALIZED''
          then Raise (ProjectionPending ''resource receipt did not reach FINALIZED after canonical commit'')
          else
     saga_bind (checked RequestRejected (stable_event_fields E repr v (str_of (rec_operation_id r)))) (\<lambda>event_fields.
     Project (projection_of r q v event_fields keys witness) (\<lambda>a. case a of
       Inl e \<Rightarrow> Raise (ProjectionPending ''legacy admitted projection failed'')
     | Inr po \<Rightarrow>
         Done \<lparr>br_status = po_status po, br_run_id = rn_run_id v, br_entry_id = po_entry_id po,
               br_first_projection = po_projected po, br_transition_id = rec_transition_id r,
               br_record_hash = rec_record_hash r, br_command_hash = rec_command_hash r, br_revision = rec_to_revision r\<rparr>))))))"

text \<open>Between the reservation and the evaluation: evidence, command, legacy footprint.\<close>

definition refuse_footprint :: "binding \<Rightarrow> reservation \<Rightarrow> bool \<Rightarrow> string \<Rightarrow> unit saga" where
  "refuse_footprint b q created_here run_id =
     saga_handle (legacy_footprint_exists (bd_control_stream b) run_id)
       (\<lambda>found.
          if found
          then saga_bind (release_if_owned q created_here) (\<lambda>_. Raise (FootprintConflict ''legacy_RUN_CREATE_footprint_conflict'' False))
          else Done ())
       (\<lambda>e. saga_bind (release_if_owned q created_here) (\<lambda>_. Raise e))"

definition read_evidence :: "aggregate_identity \<Rightarrow> string \<Rightarrow> (aggregate_snapshot option \<times> receipt_probe option) saga" where
  "read_evidence i operation_id =
     Get_snapshot i (\<lambda>a. case a of
       Inl e \<Rightarrow> Raise (AuthorityConflict (persistence_status e) ''canonical evidence unavailable'' False)
     | Inr snapshot \<Rightarrow>
     Get_probe i operation_id (\<lambda>a. case a of
       Inl e \<Rightarrow> Raise (AuthorityConflict (persistence_status e) ''canonical evidence unavailable'' False)
     | Inr probe \<Rightarrow> Done (snapshot, probe)))"

definition committed_template :: "externals \<Rightarrow> receipt_probe option \<Rightarrow> run_create option saga" where
  "committed_template E probe =
     (case probe of
        None \<Rightarrow> Done None
      | Some p \<Rightarrow>
          (case probe_store_record p of
             None \<Rightarrow> Done None
           | Some r \<Rightarrow>
               (case input_from_record E r of
                  Inl e \<Rightarrow> Raise (AuthorityConflict ''CANONICAL_RECORD_CORRUPTION_CONFLICT'' ''canonical record unreadable'' True)
                | Inr v \<Rightarrow> Done (Some v))))"

text \<open>The legacy footprint of a run without evidence, then the evaluation.\<close>

definition evaluate_admission :: "externals \<Rightarrow> binding \<Rightarrow> reservation \<Rightarrow> bool \<Rightarrow> string \<Rightarrow> run_create \<Rightarrow> authority_command
    \<Rightarrow> authority_context \<Rightarrow> aggregate_snapshot option \<Rightarrow> receipt_probe option \<Rightarrow> int \<Rightarrow> (ctr \<times> operation_receipt) saga" where
  "evaluate_admission E b rsv created_here run_id v c x snapshot probe created_at_ms =
     saga_bind (if snapshot = None \<and> probe = None then refuse_footprint b rsv created_here run_id else Done ()) (\<lambda>_.
     saga_bind (checked EvaluationRejected (evaluate_authority_commit E x c
         (PInt (case snapshot of None \<Rightarrow> 0 | Some s \<Rightarrow> snap_revision s))
         (case snapshot of None \<Rightarrow> PNone | Some s \<Rightarrow> opt_str (snap_state s)) probe (PInt created_at_ms) PNone)) (\<lambda>ev.
       settle_decision E b rsv created_here c (rn_created_at_ms v) snapshot probe ev))"

text \<open>The plan of the admission: evidence, command, legacy footprint, evaluation, commit.\<close>

definition decide_admission :: "externals \<Rightarrow> binding \<Rightarrow> checked_request \<Rightarrow> reservation \<Rightarrow> bool \<Rightarrow> int
    \<Rightarrow> (ctr \<times> operation_receipt) saga" where
  "decide_admission E b q rsv created_here created_at_ms =
     saga_bind (checked RequestRejected (run_create_identity E (PStr (cq_run_id q)))) (\<lambda>i.
     saga_bind (read_evidence i (rsv_operation_id rsv)) (\<lambda>(snapshot, probe).
     saga_bind (committed_template E probe) (\<lambda>template.
     saga_bind (checked RequestRejected (normalize_run_create_input E (admission_raw b q created_at_ms template))) (\<lambda>v.
     saga_bind (checked RequestRejected (build_run_create_command E (raw_of v))) (\<lambda>c.
     saga_bind (checked RequestRejected (build_run_create_context E c)) (\<lambda>x.
     case continuity_error snapshot probe of
       Some d \<Rightarrow> Raise (AuthorityConflict ''CANONICAL_RECORD_CORRUPTION_CONFLICT'' d (probe \<noteq> None))
     | None \<Rightarrow>
       evaluate_admission E b rsv created_here (cq_run_id q) v c x snapshot probe created_at_ms))))))"

definition reserve_admission :: "reservation \<Rightarrow> int option \<times> int option \<times> int option \<Rightarrow> (bool \<times> int) saga" where
  "reserve_admission rsv limits =
     (case limits of (inflight, concurrent, budget) \<Rightarrow>
     Reserve rsv concurrent budget inflight (\<lambda>a. case a of
       Inl e \<Rightarrow> Raise (ResourceFailed ''resource_state_conflict'' ''resource reservation failed'')
     | Inr res \<Rightarrow>
     saga_bind (validate_reservation_result res) (\<lambda>created_here.
     Get_receipt rsv (\<lambda>a. case a of
       Inl e \<Rightarrow> Raise (ResourceFailed ''reservation_conflict'' ''resource receipt unreadable'')
     | Inr None \<Rightarrow> Raise (ResourceFailed ''reservation_state_conflict'' ''resource receipt is missing after reservation'')
     | Inr (Some receipt) \<Rightarrow> Done (created_here, rc_created_at_ms receipt)))))"

definition admit :: "externals \<Rightarrow> (pyfloat \<Rightarrow> string) \<Rightarrow> binding \<Rightarrow> admit_request \<Rightarrow> admit_limits \<Rightarrow> binding_result saga" where
  "admit E repr b request l =
     saga_bind (checked RequestRejected (check_request E request)) (\<lambda>q.
     saga_bind (checked RequestRejected (check_limits l)) (\<lambda>limits.
     saga_bind (initialise b) (\<lambda>_.
     saga_bind (checked RequestRejected (run_create_operation_id E (PStr (cq_run_id q)))) (\<lambda>operation_id.
     saga_bind (checked ReservationRejected (make_reservation E (PStr operation_id) (PStr (cq_run_id q)) (PStr (cq_tenant_id q))
         (PInt (cq_cost q)) (PInt 1))) (\<lambda>rsv.
     saga_bind (reserve_admission rsv limits) (\<lambda>(created_here, created_at_ms).
     saga_bind (decide_admission E b q rsv created_here created_at_ms) (\<lambda>(r, rc).
       publish_admission E repr b rsv r rc)))))))"

end
