(* ===== verification/SagaProperties.thy ===== *)
theory SagaProperties
  imports RunCreateSaga
begin

text \<open>
  What every run of \<open>admit\<close> does, whatever the services answer: when resources are released, in which
  order the effects come, and what an error says about the commit.
\<close>

section \<open>Traces\<close>

text \<open>The calls that neither reserve, commit, release, finalize nor project.\<close>

fun calm :: "event \<Rightarrow> bool" where
  "calm (Reserved q x y z a) = False"
| "calm (Committed p a) = False"
| "calm (Released q a) = False"
| "calm (Finalized q ks w a) = False"
| "calm (Projected x a) = False"
| "calm _ = True"

text \<open>
  Every commit was refused for good, or it failed and right after it the snapshot of \<open>i\<close> and the receipt of
  the operation \<open>op\<close> of \<open>i\<close> were read and both were absent; and no commit follows a release.
\<close>

fun is_commit :: "event \<Rightarrow> bool" where
  "is_commit (Committed p a) = True"
| "is_commit _ = False"

fun commits_refuted :: "aggregate_identity \<Rightarrow> string \<Rightarrow> event list \<Rightarrow> bool" where
  "commits_refuted i op [] = True"
| "commits_refuted i op (Committed p a # t) =
     ((case a of
         Inr c \<Rightarrow> cr_status c \<in> set definitive_conflicts
       | Inl e \<Rightarrow> take 2 t = [Snapshot_read i (Inr None), Probe_read i op (Inr None)])
      \<and> commits_refuted i op t)"
| "commits_refuted i op (Released q a # t) = list_all (\<lambda>e. \<not> is_commit e) t"
| "commits_refuted i op (_ # t) = commits_refuted i op t"

definition refuted :: "event list \<Rightarrow> bool" where
  "refuted t \<longleftrightarrow> (\<exists>i op. commits_refuted i op t)"

text \<open>What a run has seen of the committed record: its own commit, or the stored proof.\<close>

definition commit_accepted :: "event list \<Rightarrow> ctr \<Rightarrow> operation_receipt \<Rightarrow> bool" where
  "commit_accepted t r rc \<longleftrightarrow>
     (\<exists>p c. Committed p (Inr c) \<in> set t \<and> cr_status c = CS_COMMITTED \<and> r = plan_record p \<and> rc = plan_receipt p)"

definition proof_read :: "event list \<Rightarrow> ctr option \<Rightarrow> operation_receipt \<Rightarrow> bool" where
  "proof_read t r rc \<longleftrightarrow> (\<exists>i op p. Probe_read i op (Inr (Some p)) \<in> set t \<and> r = probe_store_record p \<and> rc = probe_receipt p)"

definition evidence_seen :: "event list \<Rightarrow> bool" where
  "evidence_seen t \<longleftrightarrow> (\<exists>r rc. commit_accepted t r rc) \<or> (\<exists>r rc. proof_read t r rc)"

lemma commit_accepted_simps [simp]:
  "\<not> commit_accepted [] r rc"
  "commit_accepted (e # t) r rc \<longleftrightarrow>
     (\<exists>p c. e = Committed p (Inr c) \<and> cr_status c = CS_COMMITTED \<and> r = plan_record p \<and> rc = plan_receipt p) \<or> commit_accepted t r rc"
  "commit_accepted (t @ t') r rc \<longleftrightarrow> commit_accepted t r rc \<or> commit_accepted t' r rc"
  by (auto simp: commit_accepted_def)

lemma proof_read_simps [simp]:
  "\<not> proof_read [] r rc"
  "proof_read (e # t) r rc \<longleftrightarrow>
     (\<exists>i op p. e = Probe_read i op (Inr (Some p)) \<and> r = probe_store_record p \<and> rc = probe_receipt p) \<or> proof_read t r rc"
  "proof_read (t @ t') r rc \<longleftrightarrow> proof_read t r rc \<or> proof_read t' r rc"
  unfolding proof_read_def set_append set_simps by blast+

lemma evidence_append [simp]: "evidence_seen (t @ t') \<longleftrightarrow> evidence_seen t \<or> evidence_seen t'"
  by (auto simp: evidence_seen_def)

lemma evidence_probe: "Probe_read i op (Inr (Some p)) \<in> set t \<Longrightarrow> evidence_seen t"
  unfolding evidence_seen_def proof_read_def by blast

lemma calm_not_accepted: "list_all calm t \<Longrightarrow> \<not> commit_accepted t r rc"
  by (auto simp: commit_accepted_def list_all_iff)

lemma calm_commits: "list_all calm t \<Longrightarrow> list_all (\<lambda>e. \<not> is_commit e) t"
  by (auto simp: list_all_iff elim!: is_commit.elims)

lemma calm_commits_refuted: "list_all calm t \<Longrightarrow> commits_refuted i op (t @ t') = commits_refuted i op t'"
  by (induction i op t rule: commits_refuted.induct) auto

lemma calm_refuted: "list_all calm t \<Longrightarrow> refuted (t @ t') = refuted t'"
  by (simp add: refuted_def calm_commits_refuted)

lemma refuted_Nil [simp]: "refuted []"
  by (simp add: refuted_def)

lemma refuted_skip:
  "refuted (Reserved q x y z a # t) = refuted t" "refuted (Receipt_read q b # t) = refuted t"
  by (simp_all add: refuted_def)

lemma calm_refuted_all: "list_all calm t \<Longrightarrow> refuted t"
  using calm_refuted [of t "[]"] by simp

lemma take_two: "take 2 t = [x, y] \<Longrightarrow> 2 \<le> length t"
  by (cases t; cases "tl t") auto

lemma calm_refuted_set [simp]: "\<forall>e \<in> set t. calm e \<Longrightarrow> refuted t"
  using calm_refuted_all [of t] by (simp add: list_all_iff)

lemma released_refuted: "commits_refuted i op t \<Longrightarrow> commits_refuted i op (t @ [Released q a])"
  by (induction i op t rule: commits_refuted.induct) (auto dest: take_two split: sum.splits)

lemma refuted_release [simp]: "refuted t \<Longrightarrow> refuted (t @ [Released q a])"
  unfolding refuted_def by (blast intro: released_refuted)

lemma refuted_released_calm: "list_all calm t \<Longrightarrow> refuted (Released q a # t)"
  by (simp add: refuted_def calm_commits)

lemma refuted_absent: "refuted [Committed p (Inl e), Snapshot_read i (Inr None), Probe_read i op (Inr None)]"
  unfolding refuted_def by (intro exI [of _ i] exI [of _ op]) simp

lemma refuted_conflict [simp]: "cr_status c \<in> set definitive_conflicts \<Longrightarrow> refuted [Committed p (Inr c)]"
  by (simp add: refuted_def)

lemma not_definitive [simp]: "CS_COMMITTED \<notin> set definitive_conflicts" "CS_ALREADY_APPLIED \<notin> set definitive_conflicts"
  by (simp_all add: definitive_conflicts_def)

section \<open>Runs of the steps\<close>

lemmas replies = split_sum_ex split_option_ex ex_bool_eq

lemma run_checked [simp]:
  "replay (checked w m) t = Some r \<longleftrightarrow> t = [] \<and> r = (case m of Inl e \<Rightarrow> Inl (w e) | Inr x \<Rightarrow> Inr x)"
  by (cases m) (simp_all add: checked_def)

lemma handle_checked [simp]:
  "saga_handle (checked w m) f g = (case m of Inl e \<Rightarrow> g (w e) | Inr x \<Rightarrow> f x)"
  by (cases m) (simp_all add: checked_def)

lemma run_initialise:
  assumes "replay (initialise b) t = Some m"
  shows "list_all calm t \<and> (\<forall>e. m = Inl e \<longrightarrow> commit_durable e = Some False)"
  using assms
  by (auto simp: initialise_def initialise_service_def replay_handle replies split: if_split_asm)

lemma run_exact_head:
  assumes "replay (validate_exact_head E b r rc) t = Some m"
  shows "list_all calm t \<and> (\<forall>e. m = Inl e \<longrightarrow> commit_durable e = Some True)
    \<and> (m = Inr () \<longrightarrow> (\<exists>x s. exact_head E b r rc = Inr x \<and> t = [Head_validated (rec_identity r) x (Inr s)]))"
  using assms by (auto simp: validate_exact_head_def head_refused_def replies split: sum.split_asm)

lemma run_exact_head_then:
  assumes "replay (saga_bind (validate_exact_head E b r rc) k) t = Some m"
  obtains (refused) e where "m = Inl e" "commit_durable e = Some True" "list_all calm t"
  | (valid) x s t' where "exact_head E b r rc = Inr x" "t = Head_validated (rec_identity r) x (Inr s) # t'"
      "replay (k ()) t' = Some m"
  using assms
proof (cases rule: replay_bindE)
  case (raised t1 t2 e)
  with run_exact_head [OF raised(2)] show thesis by (intro refused [of e]) auto
next
  case (returned t1 t2 u)
  with run_exact_head [OF returned(2)] show thesis by (auto intro: valid)
qed

lemma run_release:
  assumes "replay (release_if_owned q created_here) t = Some m"
  shows "\<not> created_here \<and> t = [] \<and> m = Inr ()
    \<or> created_here \<and> (\<exists>a. t = [Released q a]) \<and> (\<forall>e. m = Inl e \<longrightarrow> commit_durable e = Some False)"
  using assms by (auto simp: release_if_owned_def replies split: if_split_asm)

lemma run_release_then:
  assumes "replay (saga_bind (release_if_owned q created_here) (\<lambda>_. Raise e)) t = Some m"
  obtains "\<not> created_here" "t = []" "m = Inl e"
  | a e' where "created_here" "t = [Released q a]" "m = Inl e'" "e' = e \<or> commit_durable e' = Some False"
  using assms
proof (cases rule: replay_bindE)
  case (raised t1 t2 e')
  with run_release [OF raised(2)] that(2) [of _ e'] show thesis by auto
next
  case (returned t1 t2 u)
  with run_release [OF returned(2)] that show thesis by auto
qed

lemma run_footprint:
  assumes "replay (legacy_footprint_exists stream run_id) t = Some m"
  shows "list_all calm t \<and> (\<forall>e. m = Inl e \<longrightarrow> commit_durable e = Some False)"
  using assms
  by (auto simp: legacy_footprint_exists_def footprint_in_stream_def inspection_failed_def replies split: if_split_asm)

lemma run_policy_conflict:
  assumes "replay (record_policy_conflict E c ms code snapshot probe) t = Some m"
  shows "list_all calm t \<and> (\<forall>e. m = Inl e \<longrightarrow> commit_durable e = Some False)"
  using assms by (auto simp: record_policy_conflict_def evidence_unrecorded_def replies split: option.split_asm sum.split_asm)

lemma run_evidence:
  assumes "replay (read_evidence i op) t = Some m"
  shows "list_all calm t \<and> (\<forall>e. m = Inl e \<longrightarrow> commit_durable e = Some False)
    \<and> (\<forall>snapshot probe. m = Inr (snapshot, probe) \<longrightarrow> t = [Snapshot_read i (Inr snapshot), Probe_read i op (Inr probe)])"
  using assms by (auto simp: read_evidence_def replies)

lemma run_template:
  assumes "replay (committed_template E probe) t = Some m"
  shows "t = [] \<and> (\<forall>e. m = Inl e \<longrightarrow> commit_durable e = Some True \<and> probe \<noteq> None)"
  using assms by (auto simp: committed_template_def split: option.split_asm sum.split_asm)

lemma continuity_presence: "continuity_error s p = None \<Longrightarrow> p = None \<longleftrightarrow> s = None"
  by (auto simp: continuity_error_def split: option.split_asm)

lemma run_resolve_with:
  assumes "replay (resolve_with E b c snapshot probe) t = Some m"
  obtains (raised) e where "m = Inl e" "list_all calm t" "commit_durable e = Some True \<longrightarrow> probe \<noteq> None"
  | (absent) "m = Inr None" "t = []" "snapshot = None" "probe = None"
  | (found) r p where "m = Inr (Some (r, probe_receipt p))" "list_all calm t" "probe = Some p" "probe_store_record p = Some r"
proof (cases "continuity_error snapshot probe")
  case (Some d)
  then show thesis using assms by (intro raised) (auto simp: resolve_with_def)
next
  case None
  note presence = continuity_presence [OF None]
  show thesis
  proof (cases probe)
    case None
    then show thesis using assms presence \<open>continuity_error snapshot probe = None\<close> by (intro absent) (auto simp: resolve_with_def)
  next
    case (Some p)
    note probe = Some
    show thesis
    proof (cases "probe_store_record p")
      case None
      then show thesis using assms probe \<open>continuity_error snapshot probe = None\<close>
        by (intro raised) (auto simp: resolve_with_def different_proof_def)
    next
      case (Some r)
      have run: "replay (case command_hash E c of Inl e \<Rightarrow> Raise (EvaluationRejected e)
          | Inr h \<Rightarrow> (if rec_command_hash r \<noteq> PStr h then different_proof
              else saga_bind (validate_exact_head E b r (probe_receipt p)) (\<lambda>_. Done (Some (r, probe_receipt p))))) t = Some m"
        using assms probe Some \<open>continuity_error snapshot probe = None\<close> by (simp add: resolve_with_def)
      consider "t = []" "\<exists>e. m = Inl e"
        | "replay (saga_bind (validate_exact_head E b r (probe_receipt p)) (\<lambda>_. Done (Some (r, probe_receipt p)))) t = Some m"
        using run by (auto simp: different_proof_def split: sum.split_asm if_split_asm)
      then show thesis
      proof cases
        case 1
        then show thesis using probe by (auto intro: raised)
      next
        case 2
        then show thesis using probe Some by (cases rule: run_exact_head_then) (auto intro: raised found)
      qed
    qed
  qed
qed

text \<open>A run of \<open>resolve_ambiguous_commit\<close>: the proof was unavailable, or both sides of it were read.\<close>

lemma run_resolve:
  assumes "replay (resolve_ambiguous_commit E b c) t = Some m"
  obtains (raised) e where "m = Inl e" "list_all calm t" "commit_durable e = Some True \<longrightarrow> evidence_seen t"
  | (absent) "m = Inr None" "t = [Snapshot_read (cmd_identity c) (Inr None), Probe_read (cmd_identity c) (cmd_operation_id c) (Inr None)]"
  | (found) r rc where "m = Inr (Some (r, rc))" "list_all calm t" "proof_read t (Some r) rc"
proof -
  from assms obtain a es where t: "t = Snapshot_read (cmd_identity c) a # es"
    and es: "replay (case a of Inl e \<Rightarrow> proof_unavailable | Inr snapshot \<Rightarrow> resolve_from E b c snapshot) es = Some m"
    unfolding resolve_ambiguous_commit_def replay_calls by blast
  show thesis
  proof (cases a)
    case (Inl e)
    then show thesis using t es by (intro raised) (auto simp: proof_unavailable_def)
  next
    case (Inr snapshot)
    with es obtain a' es' where es': "es = Probe_read (cmd_identity c) (cmd_operation_id c) a' # es'"
      and rest: "replay (case a' of Inl e \<Rightarrow> proof_unavailable | Inr probe \<Rightarrow> resolve_with E b c snapshot probe) es' = Some m"
      by (auto simp: resolve_from_def)
    show thesis
    proof (cases a')
      case (Inl e)
      then show thesis using t es' rest by (intro raised) (auto simp: proof_unavailable_def)
    next
      case (Inr probe)
      from rest have "replay (resolve_with E b c snapshot probe) es' = Some m" by (simp add: Inr)
      then show thesis
      proof (cases rule: run_resolve_with)
        case (raised e)
        have "evidence_seen t" if "probe \<noteq> None" using that by (auto simp: t es' Inr intro!: evidence_probe)
        then show thesis using raised t es' by (intro that(1)) auto
      next
        case absent
        then show thesis using t es' Inr \<open>a = Inr snapshot\<close> by (intro that(2)) auto
      next
        case (found r p)
        then show thesis using t es' Inr by (intro that(3)) auto
      qed
    qed
  qed
qed


section \<open>From the reservation to the stored record\<close>

text \<open>
  What a part of the driver that decides and commits does: it touches no other reservation, releases only
  what this run reserved and only to end in an error, with every commit refuted; it never raises after an
  accepted commit; an error that claims durability has evidence; what it returns was committed or read; and it gives back
  what this run reserved when the commit is refused for good.
\<close>

definition stage :: "reservation \<Rightarrow> bool \<Rightarrow> event list \<Rightarrow> admit_error + ctr \<times> operation_receipt \<Rightarrow> bool" where
  "stage q created_here t m \<longleftrightarrow>
     (\<forall>e \<in> set t. calm e \<or> (\<exists>p a. e = Committed p a) \<or> (\<exists>a. e = Released q a))
     \<and> (\<forall>a. Released q a \<in> set t \<longrightarrow> created_here \<and> refuted t \<and> (\<exists>e. m = Inl e))
     \<and> (\<forall>e. m = Inl e \<longrightarrow> (\<forall>r rc. \<not> commit_accepted t r rc) \<and> (commit_durable e = Some True \<longrightarrow> evidence_seen t))
     \<and> (\<forall>r rc. m = Inr (r, rc) \<longrightarrow> commit_accepted t r rc \<or> proof_read t (Some r) rc)
     \<and> (\<forall>p c. created_here \<and> Committed p (Inr c) \<in> set t \<and> cr_status c \<in> set definitive_conflicts \<longrightarrow> (\<exists>a. Released q a \<in> set t))"

lemma stage_calm_raise:
  "list_all calm t \<Longrightarrow> commit_durable e \<noteq> Some True \<or> evidence_seen t \<Longrightarrow> stage q ch t (Inl e)"
  by (auto simp: stage_def list_all_iff calm_not_accepted)

lemma stage_calm_found: "list_all calm t \<Longrightarrow> proof_read t (Some r) rc \<Longrightarrow> stage q ch t (Inr (r, rc))"
  by (auto simp: stage_def list_all_iff)

lemma stage_append:
  assumes "list_all calm t1" and "stage q ch t2 m"
  shows "stage q ch (t1 @ t2) m"
  using assms by (auto simp: stage_def list_all_iff calm_not_accepted calm_refuted)

lemma stage_calm_release:
  assumes "list_all calm t1" and "t2 = [] \<or> ch \<and> (\<exists>a. t2 = [Released q a])" and "commit_durable e = Some False"
  shows "stage q ch (t1 @ t2) (Inl e)"
proof -
  have "Released q a \<notin> set t1" for a using assms(1) by (auto simp: list_all_iff)
  then show ?thesis
    using assms calm_refuted_all [OF assms(1)] calm_not_accepted [OF assms(1)] by (auto simp: stage_def list_all_iff)
qed

lemma stage_release:
  assumes "replay (saga_bind (release_if_owned q ch) (\<lambda>_. Raise e)) t2 = Some m"
    and "\<forall>e \<in> set t1. calm e \<or> (\<exists>p a. e = Committed p a)" and "ch \<longrightarrow> refuted t1"
    and "\<forall>r rc. \<not> commit_accepted t1 r rc" and "commit_durable e = Some True \<longrightarrow> evidence_seen t1"
  shows "stage q ch (t1 @ t2) m"
  using assms(1)
proof (cases rule: run_release_then)
  case 1
  then show ?thesis using assms(2-5) by (auto simp: stage_def)
next
  case (2 a e')
  then show ?thesis using assms(2-5) by (auto simp: stage_def)
qed

lemma run_commit:
  assumes "replay (commit_admission E b q ch c plan) t = Some m"
  shows "stage q ch t m"
proof -
  obtain a es where t: "t = Committed plan a # es" using assms by (auto simp: commit_admission_def)
  show ?thesis
  proof (cases a)
    case (Inl e)
    have "replay (saga_bind (resolve_ambiguous_commit E b c) (\<lambda>found. case found of
           None \<Rightarrow> saga_bind (release_if_owned q ch) (\<lambda>_.
               Raise (AuthorityConflict ''CONFLICT_EVIDENCE_STORE_UNAVAILABLE'' ''canonical commit failed and absence was proven'' False))
         | Some proof \<Rightarrow> Done proof)) es = Some m"
      using assms unfolding commit_admission_def t Inl replay_calls by simp
    then show ?thesis
    proof (cases rule: replay_bindE)
      case (raised t1 t2 e)
      from raised(2) show ?thesis
        by (cases rule: run_resolve) (use raised t Inl in \<open>auto simp: stage_def list_all_iff calm_not_accepted evidence_seen_def\<close>)
    next
      case (returned t1 t2 x)
      from returned(2) show ?thesis
      proof (cases rule: run_resolve)
        case absent
        have "stage q ch ((Committed plan a # t1) @ t2) m"
        proof (rule stage_release)
          show "replay (saga_bind (release_if_owned q ch) (\<lambda>_.
             Raise (AuthorityConflict ''CONFLICT_EVIDENCE_STORE_UNAVAILABLE'' ''canonical commit failed and absence was proven'' False))) t2 = Some m"
            using returned(3) absent(1) by simp
          show "ch \<longrightarrow> refuted (Committed plan a # t1)" using absent Inl by (simp add: refuted_absent)
        qed (use absent Inl in \<open>auto simp: calm_not_accepted list_all_iff\<close>)
        then show ?thesis using t returned(1) by simp
      next
        case (found r rc)
        then show ?thesis using returned t Inl by (auto simp: stage_def list_all_iff)
      qed simp
    qed
  next
    case (Inr persisted)
    note ok = Inr
    consider (committed) "cr_status persisted = CS_COMMITTED" | (applied) "cr_status persisted = CS_ALREADY_APPLIED"
      | (other) "cr_status persisted \<notin> {CS_COMMITTED, CS_ALREADY_APPLIED}" by blast
    then show ?thesis
    proof cases
      case committed
      then show ?thesis using assms ok by (auto simp: commit_admission_def t stage_def)
    next
      case applied
      have "replay (saga_bind (resolve_ambiguous_commit E b c) (\<lambda>found. case found of
                 None \<Rightarrow> Raise (AuthorityConflict ''CANONICAL_RECORD_CORRUPTION_CONFLICT''
                           ''ALREADY_APPLIED did not resolve to exact canonical proof'' False)
               | Some proof \<Rightarrow> Done proof)) es = Some m"
        using assms applied unfolding commit_admission_def t ok replay_calls by simp
      then show ?thesis
      proof (cases rule: replay_bindE)
        case (raised t1 t2 e)
        from raised(2) show ?thesis
          by (cases rule: run_resolve) (use raised t applied ok in \<open>auto simp: stage_def list_all_iff calm_not_accepted evidence_seen_def\<close>)
      next
        case (returned t1 t2 x)
        from returned(2) show ?thesis
          by (cases rule: run_resolve)
            (use returned t applied ok in \<open>auto simp: stage_def list_all_iff calm_not_accepted\<close>)
      qed
    next
      case other
      let ?e = "AuthorityConflict (commit_status_value (cr_status persisted)) (cr_detail persisted) False"
      have run: "replay (saga_bind (if cr_status persisted \<in> set definitive_conflicts then release_if_owned q ch else Done ())
          (\<lambda>_. Raise ?e)) es = Some m"
        using assms other unfolding commit_admission_def t ok replay_calls by simp
      show ?thesis
      proof (cases "cr_status persisted \<in> set definitive_conflicts")
        case True
        with run have "replay (saga_bind (release_if_owned q ch) (\<lambda>_. Raise ?e)) es = Some m" by simp
        then have "stage q ch ([Committed plan a] @ es) m"
          by (rule stage_release) (use other ok True in auto)
        then show ?thesis by (simp add: t)
      next
        case False
        with run other ok show ?thesis by (auto simp: t stage_def)
      qed
    qed
  qed
qed

lemma run_settle:
  assumes "replay (settle_decision E b q ch c ms snapshot probe ev) t = Some m"
    and applied: "dec_code (eval_decision ev) = ALREADY_APPLIED \<Longrightarrow> probe \<noteq> None"
    and seen: "\<And>p. probe = Some p \<Longrightarrow> Probe_read i op (Inr (Some p)) \<in> set t0" and "list_all calm t0"
  shows "stage q ch (t0 @ t) m"
proof -
  have evidence: "evidence_seen t0" if "probe \<noteq> None" using that seen evidence_probe by blast
  let ?code = "dec_code (eval_decision ev)"
  consider (applied) p r where "probe = Some p" "probe_store_record p = Some r"
      "replay (saga_bind (validate_exact_head E b r (probe_receipt p)) (\<lambda>_. Done (r, probe_receipt p))) t = Some m"
    | (incomplete) "t = []" "m = Inl (AuthorityConflict ''CANONICAL_RECORD_CORRUPTION_CONFLICT'' ''duplicate RUN_CREATE proof is incomplete'' True)"
        "?code = ALREADY_APPLIED"
    | (unplanned) "replay (saga_bind (release_if_owned q ch) (\<lambda>_.
                Raise (AuthorityConflict ''AUTHORITY_ENTRY_REJECTED'' ''accepted RUN_CREATE has no commit plan'' False))) t = Some m"
    | (planned) plan where "replay (commit_admission E b q ch c plan) t = Some m"
    | (refused) "replay (saga_bind (release_if_owned q ch) (\<lambda>_.
           saga_bind (record_policy_conflict E c ms ?code snapshot probe) (\<lambda>_.
             Raise (AuthorityConflict (decision_value ?code) ''canonical policy blocked RUN_CREATE'' (probe \<noteq> None))))) t = Some m"
    using assms(1) unfolding settle_decision_def Let_def
    by (cases "?code = ALREADY_APPLIED"; cases "?code = ACCEPTED") (auto split: option.split_asm)
  then show ?thesis
  proof cases
    case applied
    then have "proof_read t0 (Some r) (probe_receipt p)" using seen [of p] by (force simp: proof_read_def)
    with applied(3) assms(4) evidence applied(1) show ?thesis
      by (cases rule: run_exact_head_then) (auto intro!: stage_calm_raise stage_calm_found)
  next
    case incomplete
    then show ?thesis using evidence assms(4) applied by (auto intro!: stage_calm_raise)
  next
    case unplanned
    then show ?thesis
      by (rule stage_release) (use assms(4) in \<open>auto simp: list_all_iff calm_not_accepted calm_refuted_all\<close>)
  next
    case planned
    from run_commit [OF this] show ?thesis by (rule stage_append [OF assms(4)])
  next
    case refused
    then show ?thesis
    proof (cases rule: replay_bindE)
      case (raised t1 t2 e)
      from run_release [OF raised(2)] raised assms(4) show ?thesis
        by (auto simp: stage_def list_all_iff calm_not_accepted calm_refuted_all)
    next
      case (returned t1 t2 u)
      from returned(3) have "list_all calm t2 \<and> (\<exists>e. m = Inl e \<and> (commit_durable e = Some True \<longrightarrow> probe \<noteq> None))"
        by (cases rule: replay_bindE) (auto dest!: run_policy_conflict)
      moreover from this have "refuted t2" "\<And>a. refuted (Released q a # t2)" by (simp_all add: calm_refuted_all refuted_released_calm)
      ultimately show ?thesis using run_release [OF returned(2)] returned(1) evidence assms(4)
        by (auto simp: stage_def list_all_iff calm_not_accepted calm_refuted)
    qed
  qed
qed

lemma applied_needs_proof:
  assumes "evaluate_authority_commit E x c rv st probe ms corr = Inr ev" and "dec_code (eval_decision ev) = ALREADY_APPLIED"
  shows "probe \<noteq> None"
  using assms
  by (auto simp: evaluate_authority_commit_def evaluate_fresh_def refuse_def decision_def accepted_decision_def Let_def rbind_Inr_iff
      split: if_split_asm option.split_asm)

lemma run_footprint_guard:
  assumes "replay (refuse_footprint b q ch run_id) t = Some m"
  shows "m = Inr () \<and> list_all calm t
    \<or> (\<exists>e t1 t2. m = Inl e \<and> commit_durable e = Some False \<and> t = t1 @ t2 \<and> list_all calm t1
        \<and> (t2 = [] \<or> (ch \<and> (\<exists>a. t2 = [Released q a]))))"
  using assms unfolding refuse_footprint_def
proof (cases rule: replay_bindE)
  case (raised t1 t2 e)
  note f = run_footprint [OF raised(2)]
  from raised(3) show ?thesis
    by (cases rule: run_release_then) (use f raised(1) in \<open>auto intro: exI [of _ t1] exI [of _ t2]\<close>)
next
  case (returned t1 t2 found)
  note f = run_footprint [OF returned(2)]
  show ?thesis
  proof (cases found)
    case True
    with returned(3) have "replay (saga_bind (release_if_owned q ch) (\<lambda>_.
        Raise (FootprintConflict ''legacy_RUN_CREATE_footprint_conflict'' False))) t2 = Some m" by simp
    then show ?thesis
      by (cases rule: run_release_then) (use f returned(1) in \<open>auto intro: exI [of _ t1] exI [of _ t2]\<close>)
  next
    case False
    then show ?thesis using returned f by simp
  qed
qed

lemma run_evaluate:
  assumes "replay (evaluate_admission E b rsv ch run_id v c x snapshot probe ms) t = Some m"
    and t0: "list_all calm t0" "\<And>p. probe = Some p \<Longrightarrow> Probe_read i op (Inr (Some p)) \<in> set t0"
  shows "stage rsv ch (t0 @ t) m"
proof -
  let ?ev = "evaluate_authority_commit E x c (PInt (case snapshot of None \<Rightarrow> 0 | Some s \<Rightarrow> snap_revision s))
      (case snapshot of None \<Rightarrow> PNone | Some s \<Rightarrow> opt_str (snap_state s)) probe (PInt ms) PNone"
  have tail: "stage rsv ch ((t0 @ t1) @ t2) m" if "list_all calm t1"
    and "replay (saga_bind (checked EvaluationRejected ?ev) (\<lambda>ev. settle_decision E b rsv ch c (rn_created_at_ms v) snapshot probe ev)) t2 = Some m"
    for t1 t2
  proof (cases ?ev)
    case (Inl e)
    then show ?thesis using that t0(1) by (auto intro!: stage_calm_raise)
  next
    case (Inr ev)
    with that have "replay (settle_decision E b rsv ch c (rn_created_at_ms v) snapshot probe ev) t2 = Some m" by simp
    then show ?thesis
      by (rule run_settle [where i = i and op = op]) (use applied_needs_proof [OF Inr] t0 that(1) in auto)
  qed
  from assms(1) show ?thesis unfolding evaluate_admission_def
  proof (cases rule: replay_bindE)
    case (raised t1 t2 e)
    then have "replay (refuse_footprint b rsv ch run_id) t1 = Some (Inl e)" "m = Inl e" "t2 = []"
      by (auto split: if_split_asm)
    from run_footprint_guard [OF this(1)] obtain t3 t4 where g: "commit_durable e = Some False" "t1 = t3 @ t4" "list_all calm t3"
      "t4 = [] \<or> ch \<and> (\<exists>a. t4 = [Released rsv a])" by auto
    have "stage rsv ch ((t0 @ t3) @ t4) (Inl e)"
      by (rule stage_calm_release) (use g t0(1) in auto)
    then show ?thesis using raised(1) g(2) \<open>m = Inl e\<close> \<open>t2 = []\<close> by simp
  next
    case (returned t1 t2 u)
    then have "list_all calm t1" using run_footprint_guard [of b rsv ch run_id t1] by (auto split: if_split_asm)
    from tail [OF this returned(3)] show ?thesis using returned(1) by simp
  qed
qed

lemma run_decide:
  assumes "replay (decide_admission E b q rsv ch ms) t = Some m"
  shows "stage rsv ch t m"
proof (cases "run_create_identity E (PStr (cq_run_id q))")
  case (Inl e)
  then show ?thesis using assms by (auto simp: decide_admission_def intro!: stage_calm_raise)
next
  case (Inr i)
  show ?thesis using assms unfolding decide_admission_def Inr handle_checked sum.case
  proof (cases rule: replay_bindE)
    case (raised t1 t2 e)
    then show ?thesis using run_evidence [OF raised(2)] by (auto intro!: stage_calm_raise)
  next
    case (returned t0 t2 z)
    obtain snapshot probe where z: "z = (snapshot, probe)" by (cases z)
    note t = returned(1)
    have t0: "list_all calm t0" "t0 = [Snapshot_read i (Inr snapshot), Probe_read i (rsv_operation_id rsv) (Inr probe)]"
      using run_evidence [OF returned(2)] z by auto
    then have evidence: "evidence_seen t0" if "probe \<noteq> None" using that evidence_probe by fastforce
    from returned(3) show ?thesis unfolding z prod.case
    proof (cases rule: replay_bindE)
      case (raised t3 t4 e)
      then show ?thesis using run_template [OF raised(2)] t t0(1) evidence by (auto intro!: stage_calm_raise)
    next
      case (returned t3 t4 template)
      have t3: "t3 = []" using run_template [OF returned(2)] by simp
      consider (raised) e where "t4 = []" "m = Inl e" "commit_durable e = Some True \<longrightarrow> probe \<noteq> None"
        | (go) v c x where "replay (evaluate_admission E b rsv ch (cq_run_id q) v c x snapshot probe ms) t4 = Some m"
        using returned(3) by (auto split: sum.split_asm option.split_asm)
      then show ?thesis
      proof cases
        case raised
        then show ?thesis using returned(1) t3 t t0(1) evidence by (auto intro!: stage_calm_raise)
      next
        case go
        show ?thesis unfolding t returned(1) t3 append_Nil
          by (rule run_evaluate [OF go t0(1), of i "rsv_operation_id rsv"]) (simp add: t0(2))
      qed
    qed
  qed
qed


section \<open>The whole admission\<close>

lemma run_reserve:
  assumes "replay (reserve_admission rsv (i, c, b)) t = Some m"
  shows "(\<exists>e a. m = Inl e \<and> commit_durable e = Some False
      \<and> (t = [Reserved rsv c b i a] \<or> (\<exists>a'. t = [Reserved rsv c b i a, Receipt_read rsv a'])))
    \<or> (\<exists>ch ms res rc. m = Inr (ch, ms) \<and> t = [Reserved rsv c b i (Inr res), Receipt_read rsv (Inr (Some rc))]
        \<and> (ch \<longleftrightarrow> rr_status res = ''reserved'') \<and> ms = rc_created_at_ms rc \<and> rr_state res \<in> {''RESERVED'', ''FINALIZED''})"
  using assms
  by (auto simp: reserve_admission_def validate_reservation_result_def replies split: option.split_asm if_split_asm)

text \<open>Where a run stood when it published: the record was validated, finalized and projected, in this order.\<close>

definition published :: "externals \<Rightarrow> (pyfloat \<Rightarrow> string) \<Rightarrow> binding \<Rightarrow> reservation \<Rightarrow> ctr \<Rightarrow> operation_receipt \<Rightarrow> event list
    \<Rightarrow> binding_result \<Rightarrow> bool" where
  "published E repr b q r rc t res \<longleftrightarrow>
     (\<exists>x s v keys witness fin event_fields po.
        t = [Head_validated (rec_identity r) x (Inr s), Finalized q keys witness (Inr fin),
             Projected (projection_of r q v event_fields keys witness) (Inr po)]
        \<and> exact_head E b r rc = Inr x \<and> input_from_record E r = Inr v
        \<and> authority_head_witness E (bd_namespace b) r rc = Inr (keys, witness)
        \<and> rr_status fin \<in> {''finalized'', ''already_finalized''} \<and> rr_state fin = ''FINALIZED''
        \<and> stable_event_fields E repr v (str_of (rec_operation_id r)) = Inr event_fields
        \<and> res = \<lparr>br_status = po_status po, br_run_id = rn_run_id v, br_entry_id = po_entry_id po,
               br_first_projection = po_projected po, br_transition_id = rec_transition_id r,
               br_record_hash = rec_record_hash r, br_command_hash = rec_command_hash r, br_revision = rec_to_revision r\<rparr>)"

lemma run_publish:
  assumes "replay (publish_admission E repr b q r rc) t = Some m"
  shows "\<exists>e. m = Inl e \<and> commit_durable e \<noteq> Some False \<and> (\<forall>ev \<in> set t. calm ev \<or> (\<exists>ks w a. ev = Finalized q ks w a) \<or> (\<exists>x a. ev = Projected x a))
    \<or> (\<exists>res. m = Inr res \<and> published E repr b q r rc t res)"
  using assms unfolding publish_admission_def
proof (cases rule: run_exact_head_then)
  case (refused e)
  then show ?thesis by (auto simp: list_all_iff)
next
  case (valid x s t')
  show ?thesis
  proof (cases "input_from_record E r")
    case (Inl e)
    then show ?thesis using valid by auto
  next
    case (Inr v)
    note v = Inr
    show ?thesis
    proof (cases "authority_head_witness E (bd_namespace b) r rc")
      case (Inl e)
      then show ?thesis using valid v by auto
    next
      case (Inr kw)
      obtain keys witness where kw: "kw = (keys, witness)" by (cases kw)
      then show ?thesis using valid v Inr
        by (auto simp: published_def split_sum_ex split: sum.split_asm if_split_asm)
    qed
  qed
qed

definition reservation_steps :: "reservation \<Rightarrow> reservation_result \<Rightarrow> event list \<Rightarrow> bool" where
  "reservation_steps q res t \<longleftrightarrow>
     (\<exists>x y z rc. t = [Reserved q x y z (Inr res), Receipt_read q (Inr (Some rc))]) \<and> rr_state res \<in> {''RESERVED'', ''FINALIZED''}"

lemma steps_in: "reservation_steps q res t \<Longrightarrow> \<exists>x y z. Reserved q x y z (Inr res) \<in> set t"
  by (auto simp: reservation_steps_def)

lemma run_admit:
  assumes "replay (admit E repr b request l) tr = Some m"
  obtains (early) e where "m = Inl e" "commit_durable e \<noteq> Some True"
      "\<forall>ev \<in> set tr. calm ev \<or> (\<exists>q x y z a. ev = Reserved q x y z a)"
  | (undecided) t0 t1 t2 q res e where "tr = t0 @ t1 @ t2" "list_all calm t0" "reservation_steps q res t1"
      "m = Inl e" "stage q (rr_status res = ''reserved'') t2 (Inl e)"
  | (decided) t0 t1 t2 t3 q res r rc where "tr = t0 @ t1 @ t2 @ t3" "list_all calm t0" "reservation_steps q res t1"
      "stage q (rr_status res = ''reserved'') t2 (Inr (r, rc))" "replay (publish_admission E repr b q r rc) t3 = Some m"
proof -
  consider (raised) e where "m = Inl e" "tr = []" "commit_durable e \<noteq> Some True"
    | (go) q limits where "replay (saga_bind (initialise b) (\<lambda>_.
         saga_bind (checked RequestRejected (run_create_operation_id E (PStr (cq_run_id q)))) (\<lambda>operation_id.
         saga_bind (checked ReservationRejected (make_reservation E (PStr operation_id) (PStr (cq_run_id q)) (PStr (cq_tenant_id q))
             (PInt (cq_cost q)) (PInt 1))) (\<lambda>rsv.
         saga_bind (reserve_admission rsv limits) (\<lambda>(created_here, created_at_ms).
         saga_bind (decide_admission E b q rsv created_here created_at_ms) (\<lambda>(r, rc).
           publish_admission E repr b rsv r rc)))))) tr = Some m"
    using assms unfolding admit_def handle_checked
    by (cases "check_request E request"; cases "check_limits l") auto
  then show thesis
  proof cases
    case raised
    then show thesis by (intro early) auto
  next
    case go
    from go show thesis
    proof (cases rule: replay_bindE)
      case (raised t1 t2 e)
      then show thesis using run_initialise [OF raised(2)] by (intro early) (auto simp: list_all_iff)
    next
      case (returned t0 t1 u)
      note t0 = returned(1) run_initialise [OF returned(2), THEN conjunct1]
      consider (raised) e where "m = Inl e" "t1 = []" "commit_durable e = None"
        | (reserve) rsv where "replay (saga_bind (reserve_admission rsv limits) (\<lambda>(created_here, created_at_ms).
             saga_bind (decide_admission E b q rsv created_here created_at_ms) (\<lambda>(r, rc).
             publish_admission E repr b rsv r rc))) t1 = Some m"
        using returned(3) by (auto split: sum.split_asm)
      then show thesis
      proof cases
        case raised
        then show thesis using t0 by (intro early) (auto simp: list_all_iff)
      next
        case reserve
        obtain i c bl where lim: "limits = (i, c, bl)" by (cases limits)
        from reserve show thesis
        proof (cases rule: replay_bindE)
          case (raised t2 t3 e)
          then show thesis using run_reserve [OF raised(2) [unfolded lim]] t0 by (intro early) (auto simp: list_all_iff)
        next
          case (returned t2 t3 z)
          obtain ch ms res rc where res: "z = (ch, ms)" "t2 = [Reserved rsv c bl i (Inr res), Receipt_read rsv (Inr (Some rc))]"
            "ch \<longleftrightarrow> rr_status res = ''reserved''" "rr_state res \<in> {''RESERVED'', ''FINALIZED''}"
            using run_reserve [OF returned(2) [unfolded lim]] by auto
          have steps: "reservation_steps rsv res t2" using res by (auto simp: reservation_steps_def)
          have t1: "t1 = t2 @ t3" by (rule returned(1))
          from returned(3) show thesis unfolding res(1) prod.case
          proof (cases rule: replay_bindE)
            case (raised t4 t5 e)
            with t0 t1 res(3) run_decide [OF raised(2)] steps show thesis
              by (intro undecided [of t0 t2 t4 rsv res e]) simp_all
          next
            case (returned t4 t5 w)
            obtain r rc' where w: "w = (r, rc')" by (cases w)
            from t0 t1 res(3) run_decide [OF returned(2)] steps returned w show thesis
              by (intro decided [of t0 t2 t4 t5 rsv res r rc']) simp_all
          qed
        qed
      qed
    qed
  qed
qed

lemma decided_keeps:
  assumes "list_all calm t0" and "reservation_steps q res t1" and "stage q ch t2 (Inr (r, rc))"
    and "replay (publish_admission E repr b q r rc) t3 = Some m"
  shows "Released q' a \<notin> set (t0 @ t1 @ t2 @ t3)"
proof -
  have "Released q' a \<notin> set (t0 @ t1 @ t2)"
    using assms(1-3) by (fastforce simp: reservation_steps_def stage_def list_all_iff)
  moreover have "Released q' a \<notin> set t3" using run_publish [OF assms(4)] by (auto simp: published_def)
  ultimately show ?thesis by simp
qed

section \<open>Which operation the calls are about\<close>

text \<open>Every call a program can make, whatever the replies were, satisfies \<open>P\<close> together with any reply.\<close>

primrec emits :: "(event \<Rightarrow> bool) \<Rightarrow> 'a saga \<Rightarrow> bool" where
  "emits P (Done x) = True"
| "emits P (Raise e) = True"
| "emits P (Initialise s k) = (\<forall>a. P (Initialised s a) \<and> emits P (k a))"
| "emits P (Reserve q x y z k) = (\<forall>a. P (Reserved q x y z a) \<and> emits P (k a))"
| "emits P (Get_receipt q k) = (\<forall>a. P (Receipt_read q a) \<and> emits P (k a))"
| "emits P (Get_snapshot i k) = (\<forall>a. P (Snapshot_read i a) \<and> emits P (k a))"
| "emits P (Get_probe i t k) = (\<forall>a. P (Probe_read i t a) \<and> emits P (k a))"
| "emits P (Key_exists t k) = (\<forall>a. P (Existence_read t a) \<and> emits P (k a))"
| "emits P (Key_type t k) = (\<forall>a. P (Type_read t a) \<and> emits P (k a))"
| "emits P (Stream_range t k) = (\<forall>a. P (Stream_read t a) \<and> emits P (k a))"
| "emits P (Commit p k) = (\<forall>a. P (Committed p a) \<and> emits P (k a))"
| "emits P (Validate_head i x k) = (\<forall>a. P (Head_validated i x a) \<and> emits P (k a))"
| "emits P (Record_conflict i c k) = (\<forall>a. P (Conflict_recorded i c a) \<and> emits P (k a))"
| "emits P (Release q k) = (\<forall>a. P (Released q a) \<and> emits P (k a))"
| "emits P (Finalize q ks w k) = (\<forall>a. P (Finalized q ks w a) \<and> emits P (k a))"
| "emits P (Project x k) = (\<forall>a. P (Projected x a) \<and> emits P (k a))"

lemma emits_replay: "emits P p \<Longrightarrow> replay p tr = Some m \<Longrightarrow> list_all P tr"
  by (induction p arbitrary: tr) (simp_all, (metis list.pred_inject(2) rangeI)+)

lemma emits_handle:
  "emits P p \<Longrightarrow> (\<And>x. emits P (f x)) \<Longrightarrow> (\<And>e. emits P (g e)) \<Longrightarrow> emits P (saga_handle p f g)"
  by (induction p) auto

lemma emits_checked [simp]: "emits P (checked w m)"
  by (cases m) (simp_all add: checked_def)

text \<open>
  A call that names a reservation names \<open>q\<close>; what is read as evidence is the snapshot of the aggregate \<open>i\<close> and
  the receipt of the operation of \<open>q\<close> there; and a plan that is committed is for that operation of \<open>i\<close>.
\<close>

fun about :: "reservation \<Rightarrow> aggregate_identity \<Rightarrow> event \<Rightarrow> bool" where
  "about q i (Reserved q' x y z a) = (q' = q)"
| "about q i (Receipt_read q' a) = (q' = q)"
| "about q i (Snapshot_read j a) = (j = i)"
| "about q i (Probe_read j op a) = (j = i \<and> op = rsv_operation_id q)"
| "about q i (Committed p a) = (rec_identity (plan_record p) = i \<and> rec_operation_id (plan_record p) = PStr (rsv_operation_id q))"
| "about q i (Released q' a) = (q' = q)"
| "about q i (Finalized q' ks w a) = (q' = q)"
| "about q i _ = True"

text \<open>The reservation and the aggregate of a checked request.\<close>

definition made_for :: "externals \<Rightarrow> checked_request \<Rightarrow> reservation \<Rightarrow> aggregate_identity \<Rightarrow> bool" where
  "made_for E rq q i \<longleftrightarrow>
     run_create_identity E (PStr (cq_run_id rq)) = Inr i
     \<and> make_reservation E (PStr (''run-create:v1:'' @ identity_sha256 i)) (PStr (cq_run_id rq)) (PStr (cq_tenant_id rq))
         (PInt (cq_cost rq)) (PInt 1) = Inr q"

lemma exact_text_again:
  "required_exact_text E n (PStr s) = Inr t \<Longrightarrow> t = s \<and> s \<noteq> [] \<and> checked_text E s"
  by (auto simp: required_exact_text_def checked_text_def split: if_split_asm)

lemma made_forD:
  assumes "made_for E rq q i"
  shows "rsv_operation_id q = ''run-create:v1:'' @ identity_sha256 i" "rsv_run_id q = cq_run_id rq"
    "checked_text E (rsv_operation_id q)" "checked_text E (cq_run_id rq)" "cq_run_id rq \<noteq> []"
  using assms by (auto simp: made_for_def make_reservation_def rbind_Inr_iff dest!: exact_text_again split: if_split_asm)

text \<open>The command of the request is for that operation of that aggregate.\<close>

lemma made_command:
  assumes "made_for E rq q i" and "normalize_run_create_input E (admission_raw b rq ms template) = Inr v"
    and "build_run_create_command E (raw_of v) = Inr c"
  shows "cmd_identity c = i \<and> cmd_operation_id c = rsv_operation_id q"
proof -
  note m = made_forD [OF assms(1)]
  have run: "rn_run_id v = cq_run_id rq"
    using assms(2) m(4,5) by (auto simp: normalize_run_create_input_def admission_raw_def rbind_Inr_iff)
  have "\<exists>w j. normalize_run_create_input E (raw_of v) = Inr w \<and> run_create_identity E (PStr (rn_run_id w)) = Inr j
      \<and> cmd_identity c = j \<and> nfc E ''operation_id'' False (PStr (''run-create:v1:'' @ identity_sha256 j)) = Inr (cmd_operation_id c)"
    using assms(3) by (auto simp: build_run_create_command_def rbind_Inr_iff run_contract_Inr_iff make_command_def)
  then obtain w j where w: "normalize_run_create_input E (raw_of v) = Inr w" "run_create_identity E (PStr (rn_run_id w)) = Inr j"
    "cmd_identity c = j" "nfc E ''operation_id'' False (PStr (''run-create:v1:'' @ identity_sha256 j)) = Inr (cmd_operation_id c)" by blast
  have "rn_run_id w = cq_run_id rq"
    using w(1) run m(4,5) by (auto simp: normalize_run_create_input_def raw_of_def rbind_Inr_iff)
  then have "j = i" using w(2) assms(1) by (simp add: made_for_def)
  then show ?thesis using w(3,4) m(1,3) by (auto simp: nfc_Inr_iff checked_text_def)
qed

lemma planned_about:
  assumes "evaluate_authority_commit E x c n st probe ms corr = Inr ev" and "eval_commit_plan ev = Some plan"
    and "cmd_identity c = i" "cmd_operation_id c = rsv_operation_id q"
  shows "about q i (Committed plan a)"
proof -
  obtain n' s k m where "evaluate_fresh E x c n' s m k = Inr ev" using assms(1,2) by (rule evaluate_planD)
  then obtain r where r: "new_record E c (ctx_writer_id x) m k = Inr r" "plan = plan_of c r"
    using evaluate_fresh_planD [OF _ assms(2)] by blast
  then show ?thesis using new_record_fields(2,9) [OF r(1)] assms(3,4) by (simp add: plan_of_def)
qed

lemma about_release [simp]: "emits (about q i) (release_if_owned q ch)"
  by (auto simp: release_if_owned_def split: sum.split)

lemma about_head [simp]: "emits (about q i) (validate_exact_head E b r rc)"
  by (auto simp: validate_exact_head_def head_refused_def split: sum.split)

lemma about_resolve:
  assumes "cmd_identity c = i" and "cmd_operation_id c = rsv_operation_id q"
  shows "emits (about q i) (resolve_ambiguous_commit E b c)"
  using assms
  by (auto simp: resolve_ambiguous_commit_def resolve_from_def resolve_with_def proof_unavailable_def different_proof_def
      split: sum.split option.split intro!: emits_handle)

lemma about_commit:
  assumes "cmd_identity c = i" and "cmd_operation_id c = rsv_operation_id q" and "\<And>a. about q i (Committed plan a)"
  shows "emits (about q i) (commit_admission E b q ch c plan)"
  using assms(3) about_resolve [OF assms(1,2)]
  by (auto simp: commit_admission_def split: sum.split option.split intro!: emits_handle)

lemma about_policy [simp]: "emits (about q i) (record_policy_conflict E c ms code snapshot probe)"
  by (auto simp: record_policy_conflict_def evidence_unrecorded_def split: option.split sum.split)

lemma about_footprint [simp]: "emits (about q i) (legacy_footprint_exists stream run_id)"
  by (auto simp: legacy_footprint_exists_def footprint_in_stream_def inspection_failed_def split: option.split bool.split)

lemma about_evaluate:
  assumes c: "cmd_identity c = i" "cmd_operation_id c = rsv_operation_id q"
  shows "emits (about q i) (evaluate_admission E b q ch run_id v c x snapshot probe ms)"
proof -
  have settle: "emits (about q i) (settle_decision E b q ch c t snapshot probe ev)"
    if "evaluate_authority_commit E x c n st probe m corr = Inr ev" for ev n st m corr t
    using about_commit [OF c, where plan = "the (eval_commit_plan ev)"] planned_about [OF that _ c]
    by (auto simp: settle_decision_def Let_def split: option.split intro!: emits_handle about_commit [OF c])
  let ?ev = "evaluate_authority_commit E x c (PInt (case snapshot of None \<Rightarrow> 0 | Some s \<Rightarrow> snap_revision s))
      (case snapshot of None \<Rightarrow> PNone | Some s \<Rightarrow> opt_str (snap_state s)) probe (PInt ms) PNone"
  have tail: "emits (about q i) (saga_bind (checked EvaluationRejected ?ev)
      (\<lambda>ev. settle_decision E b q ch c (rn_created_at_ms v) snapshot probe ev))"
    using settle by (cases ?ev) simp_all
  have "emits (about q i) (refuse_footprint b q ch run_id)"
    by (auto simp: refuse_footprint_def intro!: emits_handle)
  then have "emits (about q i) (if snapshot = None \<and> probe = None then refuse_footprint b q ch run_id else Done ())"
    by simp
  from emits_handle [OF this tail] show ?thesis by (simp add: evaluate_admission_def)
qed

lemma about_decide:
  assumes made: "made_for E rq q i"
  shows "emits (about q i) (decide_admission E b rq q ch ms)"
proof -
  have i: "run_create_identity E (PStr (cq_run_id rq)) = Inr i" using made by (simp add: made_for_def)
  have evidence: "emits (about q i) (read_evidence i (rsv_operation_id q))"
    by (auto simp: read_evidence_def split: sum.split)
  have template: "emits (about q i) (committed_template E probe)" for probe
    by (auto simp: committed_template_def split: option.split sum.split)
  show ?thesis
    unfolding decide_admission_def i handle_checked sum.case
    by (auto split: sum.split option.split prod.split intro!: emits_handle evidence template
        about_evaluate [OF made_command [OF made, THEN conjunct1] made_command [OF made, THEN conjunct2]])
qed

lemma about_publish: "emits (about q i) (publish_admission E repr b q r rc)"
  by (auto simp: publish_admission_def split: sum.split intro!: emits_handle)

lemma about_reserve: "emits (about q i) (reserve_admission q limits)"
  by (auto simp: reserve_admission_def validate_reservation_result_def split: prod.split sum.split option.split intro!: emits_handle)

lemma about_initialise: "emits (about q i) (initialise b)"
  by (auto simp: initialise_def initialise_service_def split: sum.split intro!: emits_handle)

text \<open>A run of \<open>admit\<close> stops before it reserves, or all its calls are about the operation of its request.\<close>

lemma admit_about:
  assumes "replay (admit E repr b request l) tr = Some m"
  obtains (early) e where "m = Inl e" "list_all calm tr" "commit_durable e \<noteq> Some True"
  | (about) rq q i where "check_request E request = Inr rq" "made_for E rq q i" "list_all (about q i) tr"
proof -
  consider (raised) e where "m = Inl e" "tr = []" "commit_durable e \<noteq> Some True"
    | (go) rq limits where "check_request E request = Inr rq" "replay (saga_bind (initialise b) (\<lambda>_.
         saga_bind (checked RequestRejected (run_create_operation_id E (PStr (cq_run_id rq)))) (\<lambda>operation_id.
         saga_bind (checked ReservationRejected (make_reservation E (PStr operation_id) (PStr (cq_run_id rq)) (PStr (cq_tenant_id rq))
             (PInt (cq_cost rq)) (PInt 1))) (\<lambda>rsv.
         saga_bind (reserve_admission rsv limits) (\<lambda>(created_here, created_at_ms).
         saga_bind (decide_admission E b rq rsv created_here created_at_ms) (\<lambda>(r, rc).
           publish_admission E repr b rsv r rc)))))) tr = Some m"
    using assms unfolding admit_def handle_checked
    by (cases "check_request E request"; cases "check_limits l") auto
  then show thesis
  proof cases
    case raised
    then show thesis by (intro early) auto
  next
    case go
    show thesis
    proof (cases "\<exists>q i. made_for E rq q i")
      case True
      then obtain q i where made: "made_for E rq q i" by blast
      then have checks: "run_create_operation_id E (PStr (cq_run_id rq)) = Inr (''run-create:v1:'' @ identity_sha256 i)"
        "make_reservation E (PStr (''run-create:v1:'' @ identity_sha256 i)) (PStr (cq_run_id rq)) (PStr (cq_tenant_id rq))
         (PInt (cq_cost rq)) (PInt 1) = Inr q"
        by (simp_all add: made_for_def run_create_operation_id_def)
      have "list_all (about q i) tr"
        by (rule emits_replay [OF _ go(2)], rule emits_handle [OF about_initialise], simp_all only: handle_checked checks sum.case emits.simps)
          (auto split: prod.split intro!: emits_handle about_reserve about_decide [OF made] about_publish)
      then show thesis by (rule about [OF go(1) made])
    next
      case False
      from go(2) show thesis
      proof (cases rule: replay_bindE)
        case (raised t1 t2 e)
        then show thesis using run_initialise [OF raised(2)] by (intro early) auto
      next
        case (returned t1 t2 u)
        then obtain e where "t2 = []" "m = Inl e" "commit_durable e = None"
          using False by (auto simp: made_for_def run_create_operation_id_def rbind_def split: sum.splits)
        then show thesis using run_initialise [OF returned(2)] returned(1) by (intro early [of e]) auto
      qed
    qed
  qed
qed

lemma refuted_about:
  assumes "commits_refuted j op t" and "list_all (about q i) t"
  shows "commits_refuted i (rsv_operation_id q) t"
  using assms
proof (induction j op t rule: commits_refuted.induct)
  case (2 j op p a t)
  have "j = i \<and> op = rsv_operation_id q" if "take 2 t = [Snapshot_read j (Inr None), Probe_read j op (Inr None)]"
  proof -
    have "set (take 2 t) \<subseteq> set t" by (rule set_take_subset)
    then have "Probe_read j op (Inr None) \<in> set t" using that by auto
    then show ?thesis using 2(3) by (auto simp: list_all_iff)
  qed
  then show ?case using 2 by (cases a) auto
qed auto

section \<open>Properties\<close>

definition reserved_here :: "reservation \<Rightarrow> event list \<Rightarrow> bool" where
  "reserved_here q tr \<longleftrightarrow> (\<exists>x y z res. Reserved q x y z (Inr res) \<in> set tr \<and> rr_status res = ''reserved'')"

definition publishing :: "event \<Rightarrow> bool" where
  "publishing e \<longleftrightarrow> (\<exists>q ks w a. e = Finalized q ks w a) \<or> (\<exists>x a. e = Projected x a)"

lemma released_runs:
  assumes "replay (admit E repr b request l) tr = Some m" and "Released q a \<in> set tr"
  shows "reserved_here q tr \<and> (\<exists>e. m = Inl e) \<and> list_all (\<lambda>ev. \<not> publishing ev) tr \<and> refuted tr"
  using assms(1)
proof (cases rule: run_admit)
  case (early e)
  then show ?thesis using assms(2) by fastforce
next
  case (undecided t0 t1 t2 q' res e)
  have "refuted tr \<longleftrightarrow> refuted t2"
    using undecided(1-3) by (auto simp: reservation_steps_def calm_refuted refuted_skip)
  moreover have "q' = q \<and> rr_status res = ''reserved'' \<and> refuted t2"
    using undecided assms(2) by (fastforce simp: reservation_steps_def stage_def list_all_iff)
  moreover from steps_in [OF undecided(3)] obtain x y z where "Reserved q' x y z (Inr res) \<in> set tr" using undecided(1) by auto
  with \<open>q' = q \<and> rr_status res = ''reserved'' \<and> refuted t2\<close> have "reserved_here q tr" unfolding reserved_here_def by blast
  moreover have "list_all (\<lambda>ev. \<not> publishing ev) tr"
    using undecided by (fastforce simp: publishing_def reservation_steps_def stage_def list_all_iff)
  ultimately show ?thesis using undecided(4) by blast
next
  case (decided t0 t1 t2 t3 q' res r rc)
  with decided_keeps [OF decided(2-5)] show ?thesis using assms(2) by simp
qed

text \<open>An accepted commit or the stored receipt of the operation.\<close>

definition durable_evidence :: "aggregate_identity \<Rightarrow> string \<Rightarrow> event list \<Rightarrow> bool" where
  "durable_evidence i op tr \<longleftrightarrow>
     (\<exists>p c. Committed p (Inr c) \<in> set tr \<and> cr_status c = CS_COMMITTED
        \<and> rec_identity (plan_record p) = i \<and> rec_operation_id (plan_record p) = PStr op)
     \<or> (\<exists>p. Probe_read i op (Inr (Some p)) \<in> set tr)"

lemma evidence_about:
  assumes "evidence_seen tr" and "list_all (about q i) tr"
  shows "durable_evidence i (rsv_operation_id q) tr"
  using assms unfolding evidence_seen_def commit_accepted_def proof_read_def durable_evidence_def list_all_iff
  by (metis about.simps(4,5))

lemma failed_runs:
  assumes "replay (admit E repr b request l) tr = Some (Inl e)"
  shows "(\<forall>r rc. commit_accepted tr r rc \<longrightarrow> commit_durable e \<noteq> Some False \<and> (\<forall>q a. Released q a \<notin> set tr))
    \<and> (commit_durable e = Some True \<longrightarrow> evidence_seen tr)"
  using assms
proof (cases rule: run_admit)
  case (early e')
  then show ?thesis by (fastforce simp: commit_accepted_def)
next
  case (undecided t0 t1 t2 q res e')
  have "\<not> commit_accepted tr r rc" for r rc
    using undecided by (auto simp: reservation_steps_def stage_def calm_not_accepted)
  then show ?thesis using undecided by (auto simp: stage_def)
next
  case (decided t0 t1 t2 t3 q res r rc)
  have "evidence_seen t2" using decided(4) by (auto simp: stage_def evidence_seen_def)
  moreover have "commit_durable e \<noteq> Some False" using run_publish [OF decided(5)] by auto
  moreover have "Released q' a \<notin> set tr" for q' a using decided_keeps [OF decided(2-5)] decided(1) by simp
  ultimately show ?thesis using decided(1) by simp
qed

text \<open>
  C8. What a run of \<open>admit\<close> has seen when it releases. It made the released reservation itself, it ends in an
  error, and it never finalizes or projects. With \<open>i\<close> the aggregate of the run of this reservation, the
  evidence it read is that of \<open>i\<close> and of the operation of the reservation, what it tried to commit is
  that operation, and every commit it tried was refused for good, or failed and right after it the snapshot
  of \<open>i\<close> and the receipt of the operation were read and both were absent; after the release it commits
  nothing. This is what the driver checks; \<open>conflicting_admission_strands_run\<close> shows that it does not protect
  another run that shares the reservation.
\<close>

theorem release_only_when_refuted:
  assumes "replay (admit E repr b request l) tr = Some m" and "Released q a \<in> set tr"
  shows "\<exists>i. run_create_identity E (PStr (rsv_run_id q)) = Inr i \<and> rsv_operation_id q = ''run-create:v1:'' @ identity_sha256 i
    \<and> list_all (about q i) tr \<and> reserved_here q tr \<and> (\<exists>e. m = Inl e) \<and> list_all (\<lambda>ev. \<not> publishing ev) tr
    \<and> commits_refuted i (rsv_operation_id q) tr"
proof -
  obtain rq q' i where made: "made_for E rq q' i" and ab: "list_all (about q' i) tr"
    using assms(1) by (rule admit_about) (use assms(2) in \<open>auto simp: list_all_iff\<close>)
  have q: "q' = q" using ab assms(2) by (auto simp: list_all_iff)
  have "reserved_here q tr \<and> (\<exists>e. m = Inl e) \<and> list_all (\<lambda>ev. \<not> publishing ev) tr \<and> refuted tr"
    using assms by (rule released_runs)
  moreover from this have "commits_refuted i (rsv_operation_id q) tr"
    using refuted_about ab unfolding q refuted_def by blast
  ultimately show ?thesis using made_forD [OF made] made ab unfolding q
    by (intro exI [of _ i]) (simp add: made_for_def)
qed

text \<open>
  C9. What a successful admission is. Its calls come in this order: the reservation and its receipt, the
  commit or the stored proof of an earlier one, the validation of the head, the finalization of the same
  reservation, the projection. All of them carry one record, the one that was committed or read, and its
  own head witness; the result names that record.
\<close>

theorem admission_effects_in_order:
  assumes "replay (admit E repr b request l) tr = Some (Inr res)"
  shows "\<exists>t0 t1 t2 t3 q rres r rc. tr = t0 @ t1 @ t2 @ t3 \<and> list_all calm t0 \<and> reservation_steps q rres t1
    \<and> (\<forall>e \<in> set t2. calm e \<or> (\<exists>p a. e = Committed p a))
    \<and> (commit_accepted t2 r rc \<or> proof_read t2 (Some r) rc) \<and> published E repr b q r rc t3 res"
  using assms
proof (cases rule: run_admit)
  case (decided t0 t1 t2 t3 q rres r rc)
  moreover have "published E repr b q r rc t3 res" using run_publish [OF decided(5)] by auto
  moreover have "\<forall>e \<in> set t2. calm e \<or> (\<exists>p a. e = Committed p a)" "commit_accepted t2 r rc \<or> proof_read t2 (Some r) rc"
    using decided(4) by (auto simp: stage_def)
  ultimately show ?thesis by blast
qed auto

text \<open>
  C11. What an error says about the commit. After an accepted commit no error claims that the commit is not
  durable, and nothing is released. An error that claims a durable commit comes from a run whose own commit of
  the operation of the request was accepted, or that read the stored receipt of this operation in the
  aggregate of the request. (An error that denies it can be wrong: the commit may have taken effect although
  its reply was lost and its evidence could not be read.)
\<close>

theorem errors_report_durability:
  assumes "replay (admit E repr b request l) tr = Some (Inl e)"
  shows "(\<forall>r rc. commit_accepted tr r rc \<longrightarrow> commit_durable e \<noteq> Some False \<and> (\<forall>q a. Released q a \<notin> set tr))
    \<and> (commit_durable e = Some True \<longrightarrow>
        (\<exists>rq i. check_request E request = Inr rq \<and> run_create_identity E (PStr (cq_run_id rq)) = Inr i
           \<and> durable_evidence i (''run-create:v1:'' @ identity_sha256 i) tr))"
proof (intro conjI impI)
  show "\<forall>r rc. commit_accepted tr r rc \<longrightarrow> commit_durable e \<noteq> Some False \<and> (\<forall>q a. Released q a \<notin> set tr)"
    using failed_runs [OF assms] by blast
  assume durable: "commit_durable e = Some True"
  from assms show "\<exists>rq i. check_request E request = Inr rq \<and> run_create_identity E (PStr (cq_run_id rq)) = Inr i
      \<and> durable_evidence i (''run-create:v1:'' @ identity_sha256 i) tr"
  proof (cases rule: admit_about)
    case (early e')
    with durable show ?thesis by simp
  next
    case (about rq q i)
    have "durable_evidence i (rsv_operation_id q) tr"
      using evidence_about [OF _ about(3)] failed_runs [OF assms] durable by blast
    then show ?thesis using about(1,2) made_forD(1) [OF about(2)] by (auto simp: made_for_def)
  qed
qed

end
