(* ===== verification/RunCreateProperties.thy ===== *)
theory RunCreateProperties
  imports RunCreateRecord
begin

text \<open>
  Properties of the inputs and the command of a run admission: normalisation is stable, a normalised
  request is accepted on an empty aggregate, the stored record gives the request and its reservation
  back, and the command hash determines the request.
\<close>

text \<open>
  Normalising a request is stable. A request that \<open>normalize_run_create_input\<close> has accepted is
  accepted again unchanged, the members of its payload are in key order at every level, and its command
  is the command of the request it came from.
\<close>

theorem normalised_request_is_stable:
  assumes "nfc_laws E" and "nfc_keeps_strip E" and "normalize_run_create_input E raw = Inr v"
  shows "normalize_run_create_input E (raw_of v) = Inr v \<and> payload_normal E (JObj (rn_payload v))
    \<and> build_run_create_command E (raw_of v) = build_run_create_command E raw"
proof -
  have n: "run_create_normal E v" by (rule run_create_normal_intro [OF assms])
  then show ?thesis
    using normalize_again [OF n] build_of_normal [OF assms(1) _ n] assms(3) by (simp add: run_create_normal_def)
qed

text \<open>
  A normalised request is accepted on an aggregate that does not exist: the command and the entry
  context can be built, the operation id is \<open>run-create:v1:\<close> and the digest of the identity, and the
  evaluator plans revision 1 in state \<open>pending\<close>.
\<close>

theorem normalised_request_is_accepted:
  assumes laws: "nfc_laws E" "nfc_keeps_strip E" "jcs_total E" and v: "normalize_run_create_input E raw = Inr v"
    and ms: "0 \<le> ms" "ms \<le> max_safe_integer"
  shows "\<exists>c x r. build_run_create_command E raw = Inr c \<and> build_run_create_context E c = Inr x
    \<and> run_create_operation_id E (PStr (rn_run_id v)) = Inr (cmd_operation_id c)
    \<and> evaluate_authority_commit E x c (PInt 0) PNone None (PInt ms) PNone
        = Inr \<lparr>eval_decision = accepted_decision, eval_commit_plan = Some (plan_of c r)\<rparr>
    \<and> rec_to_revision r = PInt 1 \<and> rec_next_state r = PStr ''pending''"
proof -
  have n: "run_create_normal E v" by (rule run_create_normal_intro [OF laws(1,2) v])
  have c: "build_run_create_command E raw = Inr (run_command v)" by (rule build_of_normal [OF laws(1) v n])
  obtain r where r: "new_record E (run_command v) (ctx_writer_id (run_context v)) ms None = Inr r"
    "evaluate_authority_commit E (run_context v) (run_command v) (PInt 0) PNone None (PInt ms) PNone
      = Inr \<lparr>eval_decision = accepted_decision, eval_commit_plan = Some (plan_of (run_command v) r)\<rparr>"
    using run_create_planned [OF laws(1,3) n ms] by blast
  have "rec_to_revision r = PInt 1 \<and> rec_next_state r = PStr ''pending''"
    using r(1) run_create_record_fields unfolding run_context_def authority_context.simps by metis
  moreover have "run_create_operation_id E (PStr (rn_run_id v)) = Inr (cmd_operation_id (run_command v))"
    using run_create_identity_normal [OF n] by (simp add: run_create_operation_id_def run_command_def)
  ultimately show ?thesis using c context_of_command [OF laws(1)] r(2) by blast
qed

text \<open>
  C14. The committed record gives the request back. \<open>_input_from_record\<close> of the record of a
  \<open>RUN_CREATE\<close> returns the normalised request it was built from, and
  \<open>resource_reservation_from_run_create_record\<close> the reservation of its operation, tenant and cost.
\<close>

theorem record_gives_request_back:
  assumes laws: "nfc_laws E" "nfc_keeps_strip E" and v: "normalize_run_create_input E raw = Inr v"
    and c: "build_run_create_command E raw = Inr c" and x: "build_run_create_context E c = Inr x"
    and r: "new_record E c (ctx_writer_id x) ms corr = Inr r"
  shows "input_from_record E r = Inr v \<and> resource_reservation_from_record E r = Inr (admission_of v)"
proof -
  have n: "run_create_normal E v" by (rule run_create_normal_intro [OF laws v])
  have c': "c = run_command v" using build_of_normal [OF laws(1) v n] c by simp
  have "x = run_context v" using context_of_command [OF laws(1), of v] x by (simp add: c')
  then have x': "ctx_writer_id x = run_create_writer" by (simp add: run_context_def)
  have r': "new_record E (run_command v) run_create_writer ms corr = Inr r" using r by (simp add: c' x')
  have i: "input_from_record E r = Inr v" by (rule input_of_new_record [OF laws(1) n r'])
  have "rec_operation_id r = PStr (rsv_operation_id (admission_of v))"
    by (rule run_create_record_fields [OF r']) (simp add: admission_of_def)
  then show ?thesis using i admission_made [OF laws(1) n] by (simp add: resource_reservation_from_record_def)
qed

text \<open>
  C13. The command hash binds the request. Two normalised requests with integer numbers and ASCII texts
  whose commands have the same hash are the same request, unless the two canonical texts are a
  SHA-256 collision; so a request that differs anywhere is not taken for a replay.
\<close>

theorem command_hash_binds_request:
  assumes laws: "nfc_laws E" "nfc_keeps_strip E" "jcs_reads E"
    and v: "normalize_run_create_input E raw = Inr v" "plain_input v"
    and w: "normalize_run_create_input E raw' = Inr w" "plain_input w"
    and c: "build_run_create_command E raw = Inr c" and d: "build_run_create_command E raw' = Inr d"
    and eq: "command_hash E c = command_hash E d"
  shows "v = w \<or> sha256_collision (command_text E v) (command_text E w)"
proof -
  have n: "run_create_normal E v" "run_create_normal E w"
    using run_create_normal_intro [OF laws(1,2)] v(1) w(1) by blast+
  have "c = run_command v" "d = run_command w"
    using build_of_normal [OF laws(1) v(1) n(1)] build_of_normal [OF laws(1) w(1) n(2)] c d by simp_all
  then have h: "sha256_hexdigest (command_text E v) = sha256_hexdigest (command_text E w)"
    using eq command_hash_text(1) [OF laws(1,3) n(1) v(2)] command_hash_text(1) [OF laws(1,3) n(2) w(2)] by simp
  show ?thesis
  proof (cases "command_text E v = command_text E w")
    case True
    then show ?thesis using command_text_determines [OF laws(1,3) n(1) v(2) n(2) w(2)] by blast
  qed (simp add: sha256_collision_def h)
qed

section \<open>Witnesses\<close>

text \<open>A request with a float priority and a payload whose members are not in key order.\<close>

definition demo_request :: run_create_raw where
  "demo_request =
     \<lparr>rw_run_id = PStr ''run-1'', rw_tenant_id = PStr ''acme'', rw_agent_type = PStr ''coder'', rw_priority = PFloat (FinFloat 5 0),
      rw_payload = PMap [(PStr ''z'', PInt 1), (PStr ''a'', PSeq [PNone])], rw_cost = PInt 40, rw_region = PStr [],
      rw_placement = PStr ''LEAST_LOADED'', rw_created_at_ms = PInt 7, rw_control_stream = PStr ''hfa:control'',
      rw_state_ttl = PInt 60, rw_root_task_id = PNone\<rparr>"

definition demo_input :: run_create where
  "demo_input =
     \<lparr>rn_run_id = ''run-1'', rn_tenant_id = ''acme'', rn_agent_type = ''coder'', rn_priority = 5,
      rn_payload = [(''a'', JArr [JNull]), (''z'', JInt 1)], rn_cost = 40, rn_region = [], rn_placement = ''LEAST_LOADED'',
      rn_created_at_ms = 7, rn_control_stream = ''hfa:control'', rn_state_ttl = 60, rn_root_task_id = None\<rparr>"

lemma demo_texts:
  "py_strip ''run-1'' = ''run-1''" "py_strip ''acme'' = ''acme''" "py_strip ''coder'' = ''coder''" "py_strip [] = []"
  "py_strip ''LEAST_LOADED'' = ''LEAST_LOADED''" "py_strip ''hfa:control'' = ''hfa:control''" "py_strip ''z'' = ''z''"
  "py_strip ''a'' = ''a''"
  by (simp_all add: py_strip_def is_space_char_def is_continuation_def)

lemma json_externals_strip [simp]: "nfc_keeps_strip json_externals"
  by (simp add: nfc_keeps_strip_def)

lemma demo_normalised: "normalize_run_create_input json_externals demo_request = Inr demo_input"
  by (simp add: normalize_run_create_input_def demo_request_def demo_input_def normalize_object_def required_text_def demo_texts
      exact_safe_integer_def integral_float_def max_safe_integer_def optional_text_def)


lemma demo_normal: "run_create_normal json_externals demo_input"
  by (rule run_create_normal_intro [OF json_externals_laws(1) json_externals_strip demo_normalised])

theorem normalised_request_is_stable_witness:
  "normalize_run_create_input json_externals (raw_of demo_input) = Inr demo_input
    \<and> map fst (rn_payload demo_input) = [''a'', ''z'']"
  using normalised_request_is_stable [OF json_externals_laws(1) json_externals_strip demo_normalised]
  by (simp add: demo_input_def)

theorem normalised_request_is_accepted_witness:
  "\<exists>c x r. build_run_create_command json_externals demo_request = Inr c \<and> build_run_create_context json_externals c = Inr x
    \<and> evaluate_authority_commit json_externals x c (PInt 0) PNone None (PInt 7) PNone
        = Inr \<lparr>eval_decision = accepted_decision, eval_commit_plan = Some (plan_of c r)\<rparr>"
proof -
  have "(0::int) \<le> 7" "(7::int) \<le> max_safe_integer" by (simp_all add: max_safe_integer_def)
  from normalised_request_is_accepted [OF json_externals_laws(1) json_externals_strip json_externals_laws(2) demo_normalised this]
  show ?thesis by blast
qed

theorem record_gives_request_back_witness:
  "\<exists>r. new_record json_externals (run_command demo_input) run_create_writer 7 None = Inr r
    \<and> input_from_record json_externals r = Inr demo_input
    \<and> resource_reservation_from_record json_externals r = Inr (admission_of demo_input)"
proof -
  have "(0::int) \<le> 7" "(7::int) \<le> max_safe_integer" by (simp_all add: max_safe_integer_def)
  from run_create_planned [OF json_externals_laws(1,2) demo_normal this] obtain r where
    r: "new_record json_externals (run_command demo_input) (ctx_writer_id (run_context demo_input)) 7 None = Inr r" by blast
  have c: "build_run_create_command json_externals demo_request = Inr (run_command demo_input)"
    by (rule build_of_normal [OF json_externals_laws(1) demo_normalised demo_normal])
  from record_gives_request_back [OF json_externals_laws(1) json_externals_strip demo_normalised c
      context_of_command [OF json_externals_laws(1)] r] r
  show ?thesis by (auto simp: run_context_def)
qed

lemma demo_plain: "plain_input demo_input"
  by (simp add: plain_input_def create_metadata_def demo_input_def is_ascii_def max_safe_integer_def)

text \<open>The request as it was passed and as it was normalised.\<close>

theorem command_hash_binds_request_witness:
  "\<exists>c. build_run_create_command json_externals demo_request = Inr c
    \<and> build_run_create_command json_externals (raw_of demo_input) = Inr c
    \<and> (demo_input = demo_input \<or> sha256_collision (command_text json_externals demo_input) (command_text json_externals demo_input))"
proof -
  have again: "normalize_run_create_input json_externals (raw_of demo_input) = Inr demo_input"
    by (rule normalize_again [OF demo_normal])
  have c: "build_run_create_command json_externals demo_request = Inr (run_command demo_input)"
    "build_run_create_command json_externals (raw_of demo_input) = Inr (run_command demo_input)"
    by (rule build_of_normal [OF json_externals_laws(1) _ demo_normal], rule demo_normalised again)+
  from command_hash_binds_request [OF json_externals_laws(1) json_externals_strip json_externals_laws(3) demo_normalised demo_plain
      again demo_plain c refl] c
  show ?thesis by blast
qed

end
