(* ===== verification/SagaScenarios.thy ===== *)
theory SagaScenarios
  imports SagaProperties RunCreateProperties
begin

text \<open>
  Runs of \<open>admit\<close> in full: the first admission of a run, its completion by a second attempt, and two
  admissions that share a reservation; with the witnesses for the properties of all runs.
\<close>

section \<open>Evidence of a run record\<close>

lemma stored_json_wf:
  assumes laws: "nfc_laws E" and v: "run_create_normal E v" and ms: "0 \<le> ms" "ms \<le> max_safe_integer"
    and r: "new_record E (run_command v) run_create_writer ms None = Inr r"
  shows "json_wf E (stored_json r)" "json_wf E (receipt_json_of r)" "json_wf E (index_json_of r)"
    "json_wf E (JArr (rec_projection_intents r))"
proof -
  from r obtain tid ch h where r': "r = (provisional_record (run_command v) ch tid run_create_writer ms None)\<lparr>rec_record_hash := PStr h\<rparr>"
    and ids: "transition_id (PStr (identity_sha256 (cmd_identity (run_command v)))) (PInt (cmd_expected_revision (run_command v) + 1))
       (cmd_operation_id (run_command v)) = Inr tid"
      "command_hash E (run_command v) = Inr ch"
      "canonical_json_sha256 E (immutable_payload (provisional_record (run_command v) ch tid run_create_writer ms None)) = Inr h"
    by (rule new_record_okD) blast
  have "sha256_re ch" "sha256_re h" using canonical_json_sha256_re ids(2,3) by (auto simp: command_hash_def)
  then have ascii: "is_ascii tid" "is_ascii ch" "is_ascii h" "is_ascii (identity_sha256 i)" "is_ascii run_create_writer"
    "is_ascii (''run-create:v1:'' @ identity_sha256 i)" for i
    using transition_id_ascii [OF ids(1)] sha256_re_ascii [OF identity_sha256_re] ascii_words(4,5) sha256_re_ascii
    by (simp_all only: is_ascii_append)
  note keep = nfc_ascii [OF laws]
  have words: "nfc_normalize E ''ctr.v1'' = ''ctr.v1''" "nfc_normalize E ''run'' = ''run''" "nfc_normalize E ''RUN_CREATE'' = ''RUN_CREATE''"
    "nfc_normalize E ''pending'' = ''pending''"
    by (rule keep; simp add: is_ascii_def)+
  have identity: "json_wf E (identity_json (run_identity v))"
  proof (unfold identity_json_def, rule json_wf_ascii_keys [OF laws], goal_cases)
    case 1 show ?case by simp
  next
    case 2 show ?case by (simp add: is_ascii_def)
  next
    case 3 show ?case using words run_create_nonempty [OF v] by (simp add: run_identity_def opt_json_def)
  qed
  have m: "json_wf E (JObj (create_metadata v))" "json_wf E (JObj (status_intent v))"
    by (rule create_metadata_wf [OF laws v], rule status_intent_wf [OF laws v])
  have j: "json_wf E (jscalar (rec_schema_version r))" "json_wf E (jscalar (rec_transition_id r))"
    "json_wf E (jscalar (rec_identity_sha256 r))" "json_wf E (jscalar (rec_from_revision r))" "json_wf E (jscalar (rec_to_revision r))"
    "json_wf E (jscalar (rec_operation_type r))" "json_wf E (jscalar (rec_operation_id r))" "json_wf E (jscalar (rec_command_hash r))"
    "json_wf E (jscalar (rec_previous_state r))" "json_wf E (jscalar (rec_next_state r))" "json_wf E (jscalar (rec_causation_id r))"
    "json_wf E (jscalar (rec_correlation_id r))" "json_wf E (jscalar (rec_writer_id r))" "json_wf E (jscalar (rec_committed_at_ms r))"
    "json_wf E (jscalar (rec_record_hash r))"
    using words keep ascii ms
    by (simp_all add: r' provisional_record_def run_command_def jscalar_def max_safe_integer_def del: append.simps)
  show "json_wf E (receipt_json_of r)" unfolding receipt_json_of_def
    by (rule json_wf_ascii_keys [OF laws]) (use j in \<open>simp_all add: is_ascii_def\<close>)
  show "json_wf E (index_json_of r)" unfolding index_json_of_def
    by (rule json_wf_ascii_keys [OF laws]) (use j in \<open>simp_all add: is_ascii_def\<close>)
  show intents: "json_wf E (JArr (rec_projection_intents r))"
    using m(2) by (simp add: r' provisional_record_def run_command_def del: json_wf.simps(7))
  have rest: "json_wf E (rec_metadata_changes r)" "json_wf E (rec_child_effects r)" "json_wf E (identity_json (rec_identity r))"
    "id_aggregate_type (rec_identity r) = RUN"
    using m(1) identity by (simp_all add: r' provisional_record_def run_command_def run_identity_def del: json_wf.simps(7)) simp
  show "json_wf E (stored_json r)" unfolding stored_json_def
    by (rule json_wf_ascii_keys [OF laws]) (use j rest intents words in \<open>simp_all add: is_ascii_def del: json_wf.simps(6,7)\<close>)
qed

lemma canonical_text_total:
  assumes "jcs_total E" and "json_wf E j"
  shows "\<exists>b. canonical_text E (py_of_json j) = Inr b"
proof -
  obtain b where "rfc8785_dumps E j = Some b" using assms by (auto simp: jcs_total_def)
  then show ?thesis by (simp add: canonical_text_def canonical_json_bytes_def normalize_json_id [OF assms(2)])
qed

text \<open>The exact head and the witness of the record of a normalised request can always be built.\<close>

lemma run_record_evidence:
  assumes laws: "nfc_laws E" "jcs_total E" and v: "run_create_normal E v" and ms: "0 \<le> ms" "ms \<le> max_safe_integer"
    and r: "new_record E (run_command v) run_create_writer ms None = Inr r"
    and ks: "make_keyspace (identity_sha256 (run_identity v)) (bd_namespace b) = Inr ks"
  obtains x keys witness where "exact_head E b r (new_receipt r) = Inr x"
    "authority_head_witness E (bd_namespace b) r (new_receipt r) = Inr (keys, witness)"
proof -
  have val: "validate_record E r = Inr ()" using r by (rule new_record_okD)
  note wf = stored_json_wf [OF laws(1) v ms r] and py = receipt_index_py [OF val]
  obtain b1 b2 b3 b4 where texts: "canonical_text E (py_of_json (stored_json r)) = Inr b1" "canonical_text E (py_of_json (receipt_json_of r)) = Inr b2"
    "canonical_text E (py_of_json (index_json_of r)) = Inr b3" "canonical_text E (py_of_json (JArr (rec_projection_intents r))) = Inr b4"
    using canonical_text_total [OF laws(2)] wf by metis
  obtain ch where f: "rec_operation_id r = PStr (''run-create:v1:'' @ identity_sha256 (run_identity v))" "rec_identity r = run_identity v"
    by (rule run_create_record_fields [OF r]) blast
  have sha: "rec_identity_sha256 r = PStr (identity_sha256 (run_identity v))"
    using val f(2) by (auto elim!: validate_record_okD)
  obtain d where d: "operation_digest (str_of (rec_operation_id r)) = Inr d"
    by (simp add: f(1) operation_digest_def nonempty_text_def)
  have intents: "canonical_text E (PSeq (map thaw (rec_projection_intents r))) = Inr b4"
    using texts(4) by (simp add: thaw_eq [abs_def])
  have "\<exists>x. exact_head E b r (new_receipt r) = Inr x"
    using ks sha d intents by (simp add: exact_head_def lift_store_def lift_authority_def)
  moreover have "\<exists>kw. authority_head_witness E (bd_namespace b) r (new_receipt r) = Inr kw"
    using ks sha d intents texts py stored_json_py [OF val]
    by (simp add: authority_head_witness_def proof_texts_def lift_store_def lift_authority_def)
  ultimately show thesis using that by (metis surj_pair)
qed

section \<open>Composing runs\<close>

lemma admit_runs:
  assumes q: "check_request E request = Inr q" and l: "check_limits l = Inr (i, c, bl)" and b: "bd_initialised b"
    and op: "run_create_operation_id E (PStr (cq_run_id q)) = Inr op"
    and rsv: "make_reservation E (PStr op) (PStr (cq_run_id q)) (PStr (cq_tenant_id q)) (PInt (cq_cost q)) (PInt 1) = Inr rsv"
    and ok: "(rr_status res, rr_state res, rr_mutated res) \<in> {(''reserved'', ''RESERVED'', True), (''already_reserved'', ''RESERVED'', False),
      (''already_finalized'', ''FINALIZED'', False)}"
    and decide: "replay (decide_admission E b q rsv (rr_status res = ''reserved'') (rc_created_at_ms rc)) t2 = Some m"
  shows "m = Inl e \<Longrightarrow> replay (admit E repr b request l) ([Reserved rsv c bl i (Inr res), Receipt_read rsv (Inr (Some rc))] @ t2) = Some (Inl e)"
    and "m = Inr (r, rcp) \<Longrightarrow> replay (publish_admission E repr b rsv r rcp) t3 = Some n \<Longrightarrow>
      replay (admit E repr b request l) ([Reserved rsv c bl i (Inr res), Receipt_read rsv (Inr (Some rc))] @ t2 @ t3) = Some n"
proof -
  have reserve: "replay (reserve_admission rsv (i, c, bl)) [Reserved rsv c bl i (Inr res), Receipt_read rsv (Inr (Some rc))]
      = Some (Inr (rr_status res = ''reserved'', rc_created_at_ms rc))"
    using ok by (auto simp: reserve_admission_def validate_reservation_result_def)
  let ?k = "\<lambda>(created_here, created_at_ms). saga_bind (decide_admission E b q rsv created_here created_at_ms) (\<lambda>(r, rc).
       publish_admission E repr b rsv r rc)"
  have admit: "admit E repr b request l = saga_bind (reserve_admission rsv (i, c, bl)) ?k"
    using q l b op rsv by (simp add: admit_def initialise_def)
  show "replay (admit E repr b request l) ([Reserved rsv c bl i (Inr res), Receipt_read rsv (Inr (Some rc))] @ t2) = Some (Inl e)" if "m = Inl e"
    unfolding admit
  proof (rule replay_bindI [OF reserve], simp)
    show "replay (saga_bind (decide_admission E b q rsv (rr_status res = ''reserved'') (rc_created_at_ms rc))
       (\<lambda>(r, rc). publish_admission E repr b rsv r rc)) t2 = Some (Inl e)"
      unfolding replay_handle using decide that by (intro exI [of _ t2] exI [of _ "[]"] exI [of _ "Inl e"]) simp
  qed
  show "replay (admit E repr b request l) ([Reserved rsv c bl i (Inr res), Receipt_read rsv (Inr (Some rc))] @ t2 @ t3) = Some n"
    if "m = Inr (r, rcp)" "replay (publish_admission E repr b rsv r rcp) t3 = Some n"
    unfolding admit
    by (rule replay_bindI [OF reserve], simp, rule replay_bindI [of _ t2 "(r, rcp)"]) (use decide that in simp_all)
qed

text \<open>An admission that finds neither evidence nor a legacy footprint goes on to commit the plan.\<close>

definition fresh_reads :: "binding \<Rightarrow> run_create \<Rightarrow> event list" where
  "fresh_reads b v =
     [Snapshot_read (run_identity v) (Inr None), Probe_read (run_identity v) (rsv_operation_id (admission_of v)) (Inr None),
      Existence_read (run_state_key (rn_run_id v)) (Some False), Existence_read (run_meta_key (rn_run_id v)) (Some False),
      Type_read (bd_control_stream b) (Some ''none'')]"

lemma fresh_decision:
  assumes laws: "nfc_laws E" "jcs_total E" and v: "run_create_normal E v"
    and raw: "normalize_run_create_input E (admission_raw b q (rn_created_at_ms v) None) = Inr v" and id: "cq_run_id q = rn_run_id v"
    and r: "new_record E (run_command v) run_create_writer (rn_created_at_ms v) None = Inr r"
  shows "replay (commit_admission E b (admission_of v) ch (run_command v) (plan_of (run_command v) r)) t = Some m \<Longrightarrow>
    replay (decide_admission E b q (admission_of v) ch (rn_created_at_ms v)) (fresh_reads b v @ t) = Some m"
proof -
  have ms: "0 \<le> rn_created_at_ms v" "rn_created_at_ms v \<le> max_safe_integer" using v by (simp_all add: run_create_normal_def safe_natural_def)
  have ev: "evaluate_authority_commit E (run_context v) (run_command v) (PInt 0) PNone None (PInt (rn_created_at_ms v)) PNone
      = Inr \<lparr>eval_decision = accepted_decision, eval_commit_plan = Some (plan_of (run_command v) r)\<rparr>"
    using run_create_planned [OF laws v ms] r by (auto simp: run_context_def)
  have build: "build_run_create_command E (raw_of v) = Inr (run_command v)" "build_run_create_context E (run_command v) = Inr (run_context v)"
    "run_create_identity E (PStr (cq_run_id q)) = Inr (run_identity v)"
    using build_of_normal [OF laws(1) normalize_again [OF v] v] context_of_command [OF laws(1)] run_create_identity_normal [OF v] id by simp_all
  assume "replay (commit_admission E b (admission_of v) ch (run_command v) (plan_of (run_command v) r)) t = Some m"
  then show ?thesis
    using raw build ev id
    by (simp add: decide_admission_def read_evidence_def committed_template_def continuity_error_def evaluate_admission_def
        refuse_footprint_def legacy_footprint_exists_def footprint_in_stream_def settle_decision_def accepted_decision_def decision_def
        fresh_reads_def Let_def)
qed

text \<open>With the stream and the time to live of the stored record, the request normalises as it first did.\<close>

lemma template_normalises:
  assumes v: "run_create_normal E v" and raw: "normalize_run_create_input E (admission_raw b q (rn_created_at_ms v) None) = Inr v"
  shows "normalize_run_create_input E (admission_raw b' q (rn_created_at_ms v) (Some v)) = Inr v"
proof -
  have "required_text E ''control_stream'' False (PStr (rn_control_stream v)) = Inr (rn_control_stream v)"
    "exact_safe_integer ''run_state_ttl_seconds'' 1 (PInt (rn_state_ttl v)) = Inr (rn_state_ttl v)"
    using v by (simp_all add: run_create_normal_def safe_natural_def)
  with raw show ?thesis
    unfolding normalize_run_create_input_def by (auto simp: admission_raw_def rbind_Inr_iff)
qed

lemma stored_decision:
  assumes laws: "nfc_laws E" "jcs_total E" and v: "run_create_normal E v"
    and raw: "normalize_run_create_input E (admission_raw b q (rn_created_at_ms v) None) = Inr v" and id: "cq_run_id q = rn_run_id v"
    and r: "new_record E (run_command v) run_create_writer (rn_created_at_ms v) None = Inr r"
    and p: "p = \<lparr>probe_receipt = new_receipt r, probe_store_record = Some r\<rparr>"
    and cont: "continuity_error (Some snap) (Some p) = None" and head: "exact_head E b' r (new_receipt r) = Inr x"
  shows "replay (decide_admission E b' q (admission_of v) ch (rn_created_at_ms v))
    [Snapshot_read (run_identity v) (Inr (Some snap)), Probe_read (run_identity v) (rsv_operation_id (admission_of v)) (Inr (Some p)),
     Head_validated (rec_identity r) x (Inr s)] = Some (Inr (r, new_receipt r))"
proof -
  have ms: "0 \<le> rn_created_at_ms v" "rn_created_at_ms v \<le> max_safe_integer" using v by (simp_all add: run_create_normal_def safe_natural_def)
  have build: "build_run_create_command E (raw_of v) = Inr (run_command v)" "build_run_create_context E (run_command v) = Inr (run_context v)"
    "run_create_identity E (PStr (cq_run_id q)) = Inr (run_identity v)"
    using build_of_normal [OF laws(1) normalize_again [OF v] v] context_of_command [OF laws(1)] run_create_identity_normal [OF v] id by simp_all
  obtain ch' where h: "command_hash E (run_command v) = Inr ch'" "rec_command_hash r = PStr ch'"
    "rec_to_revision r = PInt 1" "rec_next_state r = PStr ''pending''"
    by (rule run_create_record_fields [OF r]) blast
  have sn: "snap_revision snap = 1" "snap_state snap = Some ''pending''"
    using cont h(3,4) by (auto simp: continuity_error_def p opt_str_def Let_def new_receipt_def split: if_split_asm option.split_asm)
  have pending: "opt_nfc E ''current_state'' (opt_str (Some ''pending'')) = Inr (Some ''pending'')"
    using nfc_ascii [OF laws(1) ascii_words(2)] by (simp add: opt_nfc_def nfc_def opt_str_def)
  have pv: "p = stored_probe (plan_of (run_command v) r)" by (simp add: p stored_probe_def plan_of_def)
  have "resolve_receipt E (run_command v) p
      = refuse ((decision ALREADY_APPLIED)\<lparr>dec_return_existing_transition_id := Some (rec_transition_id r)\<rparr>)"
    unfolding pv using resolve_stored_probe [OF laws(1) r refl refl h(1)] h(2) by simp
  then have ev: "evaluate_authority_commit E (run_context v) (run_command v) (PInt 1) (opt_str (Some ''pending'')) (Some p)
      (PInt (rn_created_at_ms v)) PNone
      = Inr \<lparr>eval_decision = (decision ALREADY_APPLIED)\<lparr>dec_return_existing_transition_id := Some (rec_transition_id r)\<rparr>, eval_commit_plan = None\<rparr>"
    using ms pending
    by (simp add: evaluate_authority_commit_def safe_int_def opt_nfc_def [of _ _ PNone] refuse_def max_safe_integer_def permits_def
        run_context_def run_command_def)
  have "dec_code ((decision ALREADY_APPLIED)\<lparr>dec_return_existing_transition_id := x\<rparr>) = ALREADY_APPLIED" for x by (simp add: decision_def)
  then show ?thesis
    using template_normalises [OF v raw, of b'] build ev cont head input_of_new_record [OF laws(1) v r] sn p
    by (simp add: decide_admission_def read_evidence_def committed_template_def evaluate_admission_def settle_decision_def
        validate_exact_head_def)
qed

lemma publish_runs:
  assumes head: "exact_head E b r (new_receipt r) = Inr x" and i: "input_from_record E r = Inr v"
    and w: "authority_head_witness E (bd_namespace b) r (new_receipt r) = Inr (keys, witness)"
    and f: "stable_event_fields E repr v (str_of (rec_operation_id r)) = Inr fields'"
  shows "rr_status fin \<in> {''finalized'', ''already_finalized''} \<Longrightarrow> rr_state fin = ''FINALIZED'' \<Longrightarrow>
    replay (publish_admission E repr b q r (new_receipt r))
      [Head_validated (rec_identity r) x (Inr s), Finalized q keys witness (Inr fin), Projected (projection_of r q v fields' keys witness) (Inr po)]
    = Some (Inr \<lparr>br_status = po_status po, br_run_id = rn_run_id v, br_entry_id = po_entry_id po,
        br_first_projection = po_projected po, br_transition_id = rec_transition_id r,
        br_record_hash = rec_record_hash r, br_command_hash = rec_command_hash r, br_revision = rec_to_revision r\<rparr>)"
    and "rr_status fin \<notin> {''finalized'', ''already_finalized''} \<Longrightarrow>
    replay (publish_admission E repr b q r (new_receipt r)) [Head_validated (rec_identity r) x (Inr s), Finalized q keys witness (Inr fin)]
    = Some (Inl (ProjectionPending ''resource receipt did not reach FINALIZED after canonical commit''))"
  using assms by (auto simp: publish_admission_def validate_exact_head_def)

text \<open>The checked request and the input that is normalised from it agree.\<close>

lemma request_input:
  assumes laws: "nfc_laws E" "nfc_keeps_strip E" and q: "check_request E request = Inr q"
    and v: "normalize_run_create_input E (admission_raw b q ms tpl) = Inr v"
  shows "rn_run_id v = cq_run_id q" "rn_tenant_id v = cq_tenant_id q" "rn_cost v = cq_cost q" "rn_created_at_ms v = ms"
    "run_create_normal E v"
    "run_create_operation_id E (PStr (cq_run_id q)) = Inr (rsv_operation_id (admission_of v))"
    "make_reservation E (PStr (rsv_operation_id (admission_of v))) (PStr (cq_run_id q)) (PStr (cq_tenant_id q)) (PInt (cq_cost q)) (PInt 1)
      = Inr (admission_of v)"
proof -
  have "nfc_normalize E (cq_run_id q) = cq_run_id q" "nfc_normalize E (cq_tenant_id q) = cq_tenant_id q"
    using q nfc_idem [OF laws(1)] by (auto simp: check_request_def rbind_Inr_iff required_text_Inr_iff)
  then show eq: "rn_run_id v = cq_run_id q" "rn_tenant_id v = cq_tenant_id q" "rn_cost v = cq_cost q" "rn_created_at_ms v = ms"
    using v unfolding normalize_run_create_input_def
    by (auto simp: admission_raw_def rbind_Inr_iff required_text_Inr_iff exact_safe_integer_def split: if_split_asm)
  show n: "run_create_normal E v" by (rule run_create_normal_intro [OF laws v])
  show "run_create_operation_id E (PStr (cq_run_id q)) = Inr (rsv_operation_id (admission_of v))"
    using run_create_identity_normal [OF n] by (simp add: run_create_operation_id_def admission_of_def eq(1) [symmetric])
  show "make_reservation E (PStr (rsv_operation_id (admission_of v))) (PStr (cq_run_id q)) (PStr (cq_tenant_id q)) (PInt (cq_cost q)) (PInt 1)
      = Inr (admission_of v)"
    using admission_made [OF laws(1) n] by (simp add: eq)
qed

lemma event_fields_of: "run_create_normal E v \<Longrightarrow> stable_event_fields E repr v op = Inr (admitted_event repr v op)"
  using normalize_again by (simp add: stable_event_fields_def)

section \<open>Completion\<close>

definition result_of :: "ctr \<Rightarrow> run_create \<Rightarrow> projection_result \<Rightarrow> binding_result" where
  "result_of r v po =
     \<lparr>br_status = po_status po, br_run_id = rn_run_id v, br_entry_id = po_entry_id po, br_first_projection = po_projected po,
      br_transition_id = rec_transition_id r, br_record_hash = rec_record_hash r, br_command_hash = rec_command_hash r,
      br_revision = rec_to_revision r\<rparr>"

text \<open>
  C10. An admission that was interrupted after its commit is completed by a second attempt. Whatever the first
  attempt did after it had reserved at \<open>ms\<close> and committed its record, the same request through any binding,
  with another control stream and time to live if need be, builds the command of the stored record again;
  with services that answer, it is not a conflict but finalizes, projects and returns that record.
\<close>

theorem interrupted_admission_completes:
  assumes laws: "nfc_laws E" "nfc_keeps_strip E" "jcs_total E"
    and q: "check_request E request = Inr q" and l: "check_limits l = Inr (i, c, bl)" and b': "bd_initialised b'"
    and first: "normalize_run_create_input E (admission_raw b q ms None) = Inr v"
    and r: "new_record E (run_command v) run_create_writer ms None = Inr r"
    and ks: "make_keyspace (identity_sha256 (run_identity v)) (bd_namespace b') = Inr ks"
    and res: "(rr_status res, rr_state res, rr_mutated res) \<in> {(''already_reserved'', ''RESERVED'', False), (''already_finalized'', ''FINALIZED'', False)}"
    and rc: "rc_created_at_ms rc = ms"
    and p: "p = \<lparr>probe_receipt = new_receipt r, probe_store_record = Some r\<rparr>" and cont: "continuity_error (Some snap) (Some p) = None"
    and fin: "rr_status fin \<in> {''finalized'', ''already_finalized''}" "rr_state fin = ''FINALIZED''"
  shows "\<exists>x keys witness. replay (admit E repr b' request l)
      [Reserved (admission_of v) c bl i (Inr res), Receipt_read (admission_of v) (Inr (Some rc)),
       Snapshot_read (run_identity v) (Inr (Some snap)), Probe_read (run_identity v) (rsv_operation_id (admission_of v)) (Inr (Some p)),
       Head_validated (run_identity v) x (Inr s), Head_validated (run_identity v) x (Inr s'),
       Finalized (admission_of v) keys witness (Inr fin),
       Projected (projection_of r (admission_of v) v (admitted_event repr v (rsv_operation_id (admission_of v))) keys witness) (Inr po)]
    = Some (Inr (result_of r v po))"
proof -
  note v = request_input [OF laws(1,2) q first]
  have ms: "0 \<le> ms" "ms \<le> max_safe_integer" using v(4,5) by (simp_all add: run_create_normal_def safe_natural_def)
  obtain x keys witness where x: "exact_head E b' r (new_receipt r) = Inr x"
    "authority_head_witness E (bd_namespace b') r (new_receipt r) = Inr (keys, witness)"
    by (rule run_record_evidence [OF laws(1,3) v(5) ms r ks])
  obtain ch where f: "rec_identity r = run_identity v" "rec_operation_id r = PStr (rsv_operation_id (admission_of v))"
    by (rule run_create_record_fields [OF r]) (simp add: admission_of_def)
  have decide: "replay (decide_admission E b' q (admission_of v) (rr_status res = ''reserved'') (rc_created_at_ms rc))
    [Snapshot_read (run_identity v) (Inr (Some snap)), Probe_read (run_identity v) (rsv_operation_id (admission_of v)) (Inr (Some p)),
     Head_validated (rec_identity r) x (Inr s)] = Some (Inr (r, new_receipt r))"
    using stored_decision [OF laws(1,3) v(5), of b q r p snap b' x] first r p cont x(1) v(1,4) rc by simp
  have publish: "replay (publish_admission E repr b' (admission_of v) r (new_receipt r))
      [Head_validated (rec_identity r) x (Inr s'), Finalized (admission_of v) keys witness (Inr fin),
       Projected (projection_of r (admission_of v) v (admitted_event repr v (rsv_operation_id (admission_of v))) keys witness) (Inr po)]
    = Some (Inr (result_of r v po))"
    unfolding result_of_def
    by (rule publish_runs(1) [OF x(1) input_of_new_record [OF laws(1) v(5) r] x(2)])
      (use fin f(2) event_fields_of [OF v(5)] in auto)
  have "(rr_status res, rr_state res, rr_mutated res) \<in> {(''reserved'', ''RESERVED'', True), (''already_reserved'', ''RESERVED'', False),
      (''already_finalized'', ''FINALIZED'', False)}" using res by blast
  from admit_runs(2) [OF q l b' v(6,7) this decide refl publish] show ?thesis by (auto simp: f(1))
qed

section \<open>A released reservation\<close>

lemma release_marks:
  assumes "reservation_script L keys argv s = (s', Inr (''released'', st, mutated))"
  shows "receipt_field s' (keys ! 0) ''state'' = Some ''RELEASED''"
  using assms
proof (cases rule: reservation_script_cases)
  case (released cost)
  then have "s' = set_ttl (keys ! 0) (the (decimal_integer (argument argv 12) 1))
      (put_receipt (keys ! 0) (released_values argv) (give_back keys cost s))"
    by (simp add: closed_def)
  moreover have "distinct (map fst (released_values argv))" "map_of (released_values argv) ''state'' = Some ''RELEASED''"
    using closing_values(1) [of "released_values argv" argv] by (auto simp: released_values_def)
  ultimately show ?thesis by (simp add: receipt_field_def hset_map_of map_add_def)
qed (auto simp: refusal_def)

lemma finalize_refused:
  assumes "reservation_script L keys argv s = (s', Inr (status, st, mutated))"
    and "receipt_field s (keys ! 0) ''state'' = Some ''RELEASED''" and "argument argv 1 = ''finalize''"
  shows "status \<notin> {''finalized'', ''already_finalized''} \<and> s' = s"
proof -
  have "finalize_receipt keys argv cost ''RELEASED'' s = refused ''reservation_state_conflict'' ''RELEASED'' s" for cost
    by (simp add: finalize_receipt_def)
  then show ?thesis
    using assms by (auto simp: reservation_script_def existing_receipt_def refused_def split: option.split_asm if_split_asm)
qed

lemma released_not_finalized:
  assumes net: "plain_net net" "plain_net net'"
    and rel: "release_once E L net clock q now (M, h) = ((M1, h1), Inr rel)" "rr_status rel = ''released''"
    and fin: "finalize_once E L net' clock' q now' hk witness (N, h1) = ((N1, h2), Inr fin)"
  shows "rr_status fin \<notin> {''finalized'', ''already_finalized''} \<and> host_data h2 = host_data h1"
proof -
  let ?keys = "resource_keys (rsv_operation_id q) (rsv_tenant_id q)"
  obtain ms where "execute E L net ''release'' q ms PNone PNone PNone [] [] (M, h) = ((M1, h1), Inr rel)"
    using rel(1) by (auto simp: release_once_def elim!: pure_step_split)
  then obtain argv rep where r: "reservation_script L (?keys @ []) argv (host_data h) = (host_data h1, Inr rep)"
    "rel = parse_reply (rsv_operation_id q) (reservation_proof q) rep"
    using net(1) by (elim execute_reply) blast
  obtain a b where "rep = (''released'', a, b)" using r(2) rel(2) by (cases rep) (simp add: parse_reply_def)
  with r(1) have marked: "receipt_field (host_data h1) (?keys ! 0) ''state'' = Some ''RELEASED''" using release_marks by fastforce
  obtain ms' where "execute E L net' ''finalize'' q ms' PNone PNone PNone hk witness (N, h1) = ((N1, h2), Inr fin)"
    using fin by (auto simp: finalize_once_def elim!: pure_step_split)
  then obtain cl bl il ttl rep' where f: "reservation_script L (?keys @ hk) (reservation_argv ''finalize'' q ms' cl bl il ttl witness) (host_data h1)
      = (host_data h2, Inr rep')" "fin = parse_reply (rsv_operation_id q) (reservation_proof q) rep'"
    using net(2) by (elim execute_reply) blast
  obtain st a b where "rep' = (st, a, b)" by (cases rep')
  with finalize_refused [OF f(1) [unfolded this]] marked f(2) show ?thesis
    by (simp add: parse_reply_def reservation_argv_nth reservation_argv_nth(1) [unfolded One_nat_def] resource_keys_def)
qed

section \<open>Two admissions of one run\<close>

lemma publish_unfinalized:
  assumes "replay (publish_admission E repr b q r rc) t = Some m" and "Finalized q' keys witness (Inr fin) \<in> set t"
    and "rr_status fin \<notin> {''finalized'', ''already_finalized''}"
  shows "m = Inl (ProjectionPending ''resource receipt did not reach FINALIZED after canonical commit'')"
  using assms(1) unfolding publish_admission_def
proof (cases rule: run_exact_head_then)
  case (refused e)
  then show ?thesis using assms(2) by (auto simp: list_all_iff)
next
  case (valid x s t')
  have t': "Finalized q' keys witness (Inr fin) \<in> set t'" using assms(2) valid(2) by simp
  show ?thesis
  proof (cases "input_from_record E r")
    case (Inl e)
    then show ?thesis using valid t' by auto
  next
    case (Inr v)
    note v = Inr
    show ?thesis
    proof (cases "authority_head_witness E (bd_namespace b) r rc")
      case (Inl e)
      then show ?thesis using valid v t' by auto
    next
      case (Inr kw)
      obtain ks w where kw: "kw = (ks, w)" by (cases kw)
      with valid v Inr obtain a es where es: "t' = Finalized q ks w a # es" by auto
      show ?thesis
      proof (cases a)
        case (Inl e)
        then show ?thesis using valid v \<open>authority_head_witness E (bd_namespace b) r rc = Inr kw\<close> kw es t' by auto
      next
        case (Inr res)
        have rest: "replay (if rr_status res \<notin> {''finalized'', ''already_finalized''} \<or> rr_state res \<noteq> ''FINALIZED''
            then Raise (ProjectionPending ''resource receipt did not reach FINALIZED after canonical commit'')
            else saga_bind (checked RequestRejected (stable_event_fields E repr v (str_of (rec_operation_id r)))) (\<lambda>fields'.
              Project (projection_of r q v fields' ks w) (\<lambda>a. case a of
                Inl e \<Rightarrow> Raise (ProjectionPending ''legacy admitted projection failed'')
              | Inr po \<Rightarrow> Done (result_of r v po)))) es = Some m"
          using valid(3) v \<open>authority_head_witness E (bd_namespace b) r rc = Inr kw\<close> kw es Inr
          unfolding result_of_def by (simp split del: if_split cong: if_cong)
        show ?thesis
        proof (cases "rr_status res \<notin> {''finalized'', ''already_finalized''} \<or> rr_state res \<noteq> ''FINALIZED''")
          case True
          with rest show ?thesis by (simp only: if_True replay_ends)
        next
          case False
          then have "\<forall>ev \<in> set es. \<exists>x a. ev = Projected x a"
            using rest unfolding if_not_P [OF False] handle_checked
            by (simp split: sum.split_asm) (erule exE conjE, rename_tac f x, case_tac x; auto)
          moreover have "Finalized q' keys witness (Inr fin) \<in> set es" using t' es False assms(3) Inr by auto
          ultimately show ?thesis by blast
        qed
      qed
    qed
  qed
qed

lemma run_unfinalized:
  assumes "replay (admit E repr b request l) tr = Some m" and "Finalized q keys witness (Inr fin) \<in> set tr"
    and "rr_status fin \<notin> {''finalized'', ''already_finalized''}"
  shows "evidence_seen tr \<and> m = Inl (ProjectionPending ''resource receipt did not reach FINALIZED after canonical commit'')"
  using assms(1)
proof (cases rule: run_admit)
  case (early e)
  then show ?thesis using assms(2) by fastforce
next
  case (undecided t0 t1 t2 q' res e)
  then have "\<not> publishing ev" if "ev \<in> set tr" for ev
    using that by (fastforce simp: publishing_def reservation_steps_def stage_def list_all_iff)
  then show ?thesis using assms(2) by (fastforce simp: publishing_def)
next
  case (decided t0 t1 t2 t3 q' res r rc)
  have "Finalized q keys witness (Inr fin) \<notin> set (t0 @ t1 @ t2)"
    using decided(2-4) by (fastforce simp: reservation_steps_def stage_def list_all_iff)
  then have "Finalized q keys witness (Inr fin) \<in> set t3" using assms(2) decided(1) by auto
  with publish_unfinalized [OF decided(5)] assms(3)
  have "m = Inl (ProjectionPending ''resource receipt did not reach FINALIZED after canonical commit'')" by blast
  moreover have "evidence_seen t2" using decided(4) by (auto simp: stage_def evidence_seen_def)
  ultimately show ?thesis using decided(1) by simp
qed

lemma parts_events:
  assumes t0: "list_all calm t0" and t1: "reservation_steps q' res' t1" and t2: "stage q' ch t2 m"
  shows "Reserved q x y z (Inr res) \<in> set (t0 @ t1 @ t2) \<Longrightarrow> q' = q \<and> res' = res"
    and "Committed p a \<in> set (t0 @ t1 @ t2) \<Longrightarrow> Committed p a \<in> set t2"
proof -
  have "Reserved q x y z (Inr res) \<notin> set t0" "Committed p a \<notin> set t0" using t0 by (auto simp: list_all_iff)
  moreover have "\<forall>e \<in> set t2. calm e \<or> (\<exists>p a. e = Committed p a) \<or> (\<exists>a. e = Released q' a)" using t2 by (simp add: stage_def)
  then have "Reserved q x y z (Inr res) \<notin> set t2" by fastforce
  moreover have "Committed p a \<notin> set t1" using t1 by (auto simp: reservation_steps_def)
  moreover have "Reserved q x y z (Inr res) \<in> set t1 \<Longrightarrow> q' = q \<and> res' = res" using t1 by (auto simp: reservation_steps_def)
  ultimately show "Reserved q x y z (Inr res) \<in> set (t0 @ t1 @ t2) \<Longrightarrow> q' = q \<and> res' = res"
    "Committed p a \<in> set (t0 @ t1 @ t2) \<Longrightarrow> Committed p a \<in> set t2" by auto
qed

lemma run_refused_releases:
  assumes "replay (admit E repr b request l) tr = Some m" and "Reserved q x y z (Inr res) \<in> set tr" "rr_status res = ''reserved''"
    and "Committed plan (Inr c) \<in> set tr" "cr_status c \<in> set definitive_conflicts"
  shows "\<exists>a. Released q a \<in> set tr"
  using assms(1)
proof (cases rule: run_admit)
  case (early e)
  then show ?thesis using assms(4) by fastforce
next
  case (undecided t0 t1 t2 q' res' e)
  then have "q' = q \<and> res' = res" "Committed plan (Inr c) \<in> set t2"
    using assms(2,4) parts_events [OF undecided(2,3,5)] undecided(1) by blast+
  then show ?thesis using undecided(1,5) assms(3,5) by (auto simp: stage_def)
next
  case (decided t0 t1 t2 t3 q' res' r rc)
  have "Reserved q x y z (Inr res) \<notin> set t3" "Committed plan (Inr c) \<notin> set t3"
    using run_publish [OF decided(5)] by (auto simp: published_def)
  then have "q' = q \<and> res' = res" "Committed plan (Inr c) \<in> set t2"
    using assms(2,4) parts_events [OF decided(2-4)] decided(1) by (metis append.assoc Un_iff set_append)+
  then show ?thesis using decided(1,4) assms(3,5) by (auto simp: stage_def)
qed

text \<open>
  C12. Two admissions of one run with the same tenant and cost share a reservation, here through two managers on
  one server. When the one that made the reservation is told \<open>IDEMPOTENCY_CONFLICT\<close>, it releases it although
  the other one's commit stands; the other one's finalization is then refused by the script without a write,
  and its admission stops at \<open>canonical_projection_pending\<close> with the record committed.
\<close>

theorem conflicting_admission_strands_run:
  assumes A: "replay (admit E repr bA requestA lA) trA = Some mA" "Reserved q x y z (Inr res) \<in> set trA" "rr_status res = ''reserved''"
      "Committed plan (Inr c) \<in> set trA" "cr_status c = CS_IDEMPOTENCY_CONFLICT"
    and B: "replay (admit E repr bB requestB lB) trB = Some mB" "Finalized q keys witness (Inr fin) \<in> set trB"
    and net: "plain_net net" "plain_net net'"
    and release: "\<And>a. Released q a \<in> set trA \<Longrightarrow>
      \<exists>rel. a = Inr rel \<and> rr_status rel = ''released'' \<and> release_once E L net clock q now (MA, h) = ((MA', h'), Inr rel)"
    and finalize: "finalize_once E L net' clock' q now' keys witness (MB, h') = ((MB', h''), Inr fin)"
  shows "evidence_seen trB \<and> mB = Inl (ProjectionPending ''resource receipt did not reach FINALIZED after canonical commit'')
    \<and> host_data h'' = host_data h'"
proof -
  have "cr_status c \<in> set definitive_conflicts" using A(5) by (simp add: definitive_conflicts_def)
  then obtain a where "Released q a \<in> set trA" using run_refused_releases [OF A(1-4)] by blast
  then obtain rel where "release_once E L net clock q now (MA, h) = ((MA', h'), Inr rel)" "rr_status rel = ''released''" using release by blast
  from released_not_finalized [OF net this finalize] run_unfinalized [OF B] show ?thesis by blast
qed

end
