(* ===== verification/SagaDemo.thy ===== *)
theory SagaDemo
  imports SagaScenarios
begin

text \<open>
  Concrete runs of \<open>admit\<close>: a run that is admitted, one that is refused after its reservation, one that stops
  before its projection, a retry, and two admissions that meet at the reservation manager.
\<close>

section \<open>Replies\<close>

definition demo_binding :: binding where
  "demo_binding = \<lparr>bd_namespace = ''hfa:authority:v1'', bd_control_stream = ''hfa:control'', bd_state_ttl = 60, bd_initialised = True\<rparr>"

text \<open>The request of \<open>demo_input\<close> with priority \<open>p\<close>.\<close>

definition demo_admission :: "int \<Rightarrow> admit_request" where
  "demo_admission p =
     \<lparr>aq_run_id = PStr ''run-1'', aq_tenant_id = PStr ''acme'', aq_agent_type = PStr ''coder'', aq_priority = PInt p,
      aq_payload = PMap [(PStr ''z'', PInt 1), (PStr ''a'', PSeq [PNone])], aq_cost = PInt 40, aq_region = PStr [],
      aq_placement = PStr ''LEAST_LOADED'', aq_root_task_id = PNone\<rparr>"

definition demo_checked :: "int \<Rightarrow> checked_request" where
  "demo_checked p =
     \<lparr>cq_run_id = ''run-1'', cq_tenant_id = ''acme'', cq_agent_type = ''coder'', cq_priority = p,
      cq_payload = [(''a'', JArr [JNull]), (''z'', JInt 1)], cq_cost = 40, cq_region = [], cq_placement = ''LEAST_LOADED'',
      cq_root_task_id = None\<rparr>"

definition demo_run_input :: "int \<Rightarrow> run_create" where
  "demo_run_input p = demo_input\<lparr>rn_priority := p\<rparr>"

definition demo_limits :: admit_limits where
  "demo_limits = \<lparr>al_inflight = PNone, al_concurrent = PNone, al_budget = PNone\<rparr>"

definition demo_granted :: "string \<Rightarrow> string \<Rightarrow> bool \<Rightarrow> reservation_result" where
  "demo_granted status state mutated =
     \<lparr>rr_status = status, rr_operation_id = rsv_operation_id (admission_of demo_input),
      rr_proof = reservation_proof (admission_of demo_input), rr_mutated = mutated, rr_state = state\<rparr>"

definition demo_receipt :: reservation_receipt where
  "demo_receipt =
     \<lparr>rc_reservation = admission_of demo_input, rc_proof = reservation_proof (admission_of demo_input), rc_state = ''RESERVED'',
      rc_created_at_ms = 7, rc_finalized_at_ms = None, rc_released_at_ms = None, rc_settled_at_ms = None, rc_settlement_proof = [],
      rc_terminate_operation_id = [], rc_terminal_proof = [], rc_transition_id = [], rc_record_hash = [], rc_command_hash = [],
      rc_revision = None, rc_final_state = []\<rparr>"

definition demo_answer :: "commit_status \<Rightarrow> commit_result" where
  "demo_answer st = \<lparr>cr_status = st, cr_transition_id = None, cr_aggregate_revision = None, cr_detail = []\<rparr>"

lemma demo_replies [simp]:
  "rr_status (demo_granted status state mutated) = status" "rr_state (demo_granted status state mutated) = state"
  "rr_mutated (demo_granted status state mutated) = mutated" "rc_created_at_ms demo_receipt = 7" "cr_status (demo_answer st) = st"
  by (simp_all add: demo_granted_def demo_receipt_def demo_answer_def)

lemma demo_checks:
  assumes "0 \<le> p" "p \<le> max_safe_integer"
  shows "check_request json_externals (demo_admission p) = Inr (demo_checked p)" "check_limits demo_limits = Inr (None, None, None)"
    "normalize_run_create_input json_externals (admission_raw demo_binding (demo_checked p) 7 None) = Inr (demo_run_input p)"
  using assms
  by (simp_all add: check_request_def demo_admission_def demo_checked_def check_limits_def demo_limits_def optional_safe_limit_def
      normalize_run_create_input_def admission_raw_def demo_binding_def demo_run_input_def demo_input_def normalize_object_def
      required_text_def demo_texts exact_safe_integer_def max_safe_integer_def optional_text_def opt_str_def)

lemma demo_run_input_simps [simp]:
  "admission_of (demo_run_input p) = admission_of demo_input" "run_identity (demo_run_input p) = run_identity demo_input"
  "rn_created_at_ms (demo_run_input p) = 7" "rn_run_id (demo_run_input p) = ''run-1''"
  by (simp_all add: demo_run_input_def demo_input_def admission_of_def run_identity_def)

lemma demo_run_keys_exist: "\<exists>ks. make_keyspace (identity_sha256 (run_identity demo_input)) (bd_namespace demo_binding) = Inr ks"
  by (simp add: make_keyspace_def sha256_text_def demo_binding_def)

text \<open>Everything an admission of \<open>demo_admission p\<close> computes, and its run up to the reply of the commit.\<close>

definition demo_before :: "int \<Rightarrow> event list" where
  "demo_before p =
     [Reserved (admission_of demo_input) None None None (Inr (demo_granted ''reserved'' ''RESERVED'' True)),
      Receipt_read (admission_of demo_input) (Inr (Some demo_receipt))] @ fresh_reads demo_binding (demo_run_input p)"

lemma demo_admitting:
  assumes "0 \<le> p" "p \<le> max_safe_integer"
  obtains r x keys witness where
    "new_record json_externals (run_command (demo_run_input p)) run_create_writer 7 None = Inr r"
    "input_from_record json_externals r = Inr (demo_run_input p)"
    "rec_operation_id r = PStr (rsv_operation_id (admission_of demo_input))"
    "exact_head json_externals demo_binding r (new_receipt r) = Inr x"
    "authority_head_witness json_externals (bd_namespace demo_binding) r (new_receipt r) = Inr (keys, witness)"
    "\<And>t e. replay (commit_admission json_externals demo_binding (admission_of demo_input) True (run_command (demo_run_input p))
        (plan_of (run_command (demo_run_input p)) r)) t = Some (Inl e) \<Longrightarrow>
      replay (admit json_externals repr demo_binding (demo_admission p) demo_limits) (demo_before p @ t) = Some (Inl e)"
    "\<And>t t' n. replay (commit_admission json_externals demo_binding (admission_of demo_input) True (run_command (demo_run_input p))
        (plan_of (run_command (demo_run_input p)) r)) t = Some (Inr (r, new_receipt r)) \<Longrightarrow>
      replay (publish_admission json_externals repr demo_binding (admission_of demo_input) r (new_receipt r)) t' = Some n \<Longrightarrow>
      replay (admit json_externals repr demo_binding (demo_admission p) demo_limits) (demo_before p @ t @ t') = Some n"
proof -
  note laws = json_externals_laws(1) json_externals_strip json_externals_laws(2)
  note checks = demo_checks [OF assms]
  note v = request_input [OF laws(1,2) checks(1,3)]
  have ms: "(0::int) \<le> 7" "(7::int) \<le> max_safe_integer" by (simp_all add: max_safe_integer_def)
  from run_create_planned [OF laws(1,3) v(5) ms] obtain r where
    r: "new_record json_externals (run_command (demo_run_input p)) run_create_writer 7 None = Inr r"
    by (auto simp: run_context_def)
  obtain ks where ks: "make_keyspace (identity_sha256 (run_identity (demo_run_input p))) (bd_namespace demo_binding) = Inr ks"
    using demo_run_keys_exist by auto
  obtain x keys witness where e: "exact_head json_externals demo_binding r (new_receipt r) = Inr x"
    "authority_head_witness json_externals (bd_namespace demo_binding) r (new_receipt r) = Inr (keys, witness)"
    by (rule run_record_evidence [OF laws(1,3) v(5) ms r ks])
  have op: "rec_operation_id r = PStr (rsv_operation_id (admission_of demo_input))"
    by (rule run_create_record_fields [OF r]) (simp add: admission_of_def)
  have init: "bd_initialised demo_binding" by (simp add: demo_binding_def)
  have id: "cq_run_id (demo_checked p) = rn_run_id (demo_run_input p)" using v(1) by simp
  let ?g = "demo_granted ''reserved'' ''RESERVED'' True"
  have ok: "(rr_status ?g, rr_state ?g, rr_mutated ?g) \<in> {(''reserved'', ''RESERVED'', True), (''already_reserved'', ''RESERVED'', False),
      (''already_finalized'', ''FINALIZED'', False)}" by simp
  have decide: "replay (decide_admission json_externals demo_binding (demo_checked p) (admission_of (demo_run_input p)) (rr_status ?g = ''reserved'')
      (rc_created_at_ms demo_receipt)) (fresh_reads demo_binding (demo_run_input p) @ t) = Some m"
    if "replay (commit_admission json_externals demo_binding (admission_of demo_input) True (run_command (demo_run_input p))
        (plan_of (run_command (demo_run_input p)) r)) t = Some m" for t m
    using fresh_decision [OF laws(1,3) v(5), of demo_binding "demo_checked p" r True t m] checks(3) id r that by simp
  note runs = admit_runs [OF checks(1,2) init v(6,7) ok decide]
  show thesis
  proof (rule that [OF r input_of_new_record [OF laws(1) v(5) r] op e], goal_cases)
    case (1 t e)
    from runs(1) [OF 1 refl] show ?case by (simp add: demo_before_def)
  next
    case (2 t t' n)
    from runs(2) [OF 2(1) refl] 2(2) show ?case by (simp add: demo_before_def)
  qed
qed

section \<open>Witnesses\<close>

lemma five [simp]: "(5::int) \<le> max_safe_integer" "(6::int) \<le> max_safe_integer"
  by (simp_all add: max_safe_integer_def)

definition demo_after_refusal :: "int \<Rightarrow> commit_plan \<Rightarrow> reservation_result \<Rightarrow> event list" where
  "demo_after_refusal p plan rel =
     demo_before p @ [Committed plan (Inr (demo_answer CS_IDEMPOTENCY_CONFLICT)), Released (admission_of demo_input) (Inr rel)]"

lemma demo_refused:
  assumes "0 \<le> p" "p \<le> max_safe_integer" "rr_status rel = ''released''" "rr_state rel = ''RELEASED''"
  shows "\<exists>plan. replay (admit json_externals repr demo_binding (demo_admission p) demo_limits) (demo_after_refusal p plan rel)
    = Some (Inl (AuthorityConflict ''IDEMPOTENCY_CONFLICT'' [] False))"
proof -
  obtain r where run: "\<And>t e. replay (commit_admission json_externals demo_binding (admission_of demo_input) True (run_command (demo_run_input p))
        (plan_of (run_command (demo_run_input p)) r)) t = Some (Inl e) \<Longrightarrow>
      replay (admit json_externals repr demo_binding (demo_admission p) demo_limits) (demo_before p @ t) = Some (Inl e)"
    by (rule demo_admitting [OF assms(1,2)]) blast
  show ?thesis unfolding demo_after_refusal_def
    by (intro exI [of _ "plan_of (run_command (demo_run_input p)) r"] run)
      (simp add: commit_admission_def definitive_conflicts_def release_if_owned_def assms(3,4) demo_answer_def)
qed

theorem release_only_when_refuted_witness:
  "\<exists>plan i. let tr = demo_after_refusal 5 plan (demo_granted ''released'' ''RELEASED'' True) in
     replay (admit json_externals (\<lambda>_. ''5.0'') demo_binding (demo_admission 5) demo_limits) tr
       = Some (Inl (AuthorityConflict ''IDEMPOTENCY_CONFLICT'' [] False))
     \<and> run_create_identity json_externals (PStr (rsv_run_id (admission_of demo_input))) = Inr i
     \<and> list_all (about (admission_of demo_input) i) tr \<and> reserved_here (admission_of demo_input) tr
     \<and> list_all (\<lambda>ev. \<not> publishing ev) tr \<and> commits_refuted i (rsv_operation_id (admission_of demo_input)) tr"
proof -
  let ?rel = "demo_granted ''released'' ''RELEASED'' True"
  obtain plan where run: "replay (admit json_externals (\<lambda>_. ''5.0'') demo_binding (demo_admission 5) demo_limits) (demo_after_refusal 5 plan ?rel)
      = Some (Inl (AuthorityConflict ''IDEMPOTENCY_CONFLICT'' [] False))"
    using demo_refused [of 5 ?rel] by auto
  have "Released (admission_of demo_input) (Inr ?rel) \<in> set (demo_after_refusal 5 plan ?rel)" by (simp add: demo_after_refusal_def)
  from release_only_when_refuted [OF run this] run show ?thesis unfolding Let_def by blast
qed

text \<open>The run that commits, finalizes with \<open>fin\<close> and, when that finalized, projects.\<close>

lemma demo_published:
  assumes "0 \<le> p" "p \<le> max_safe_integer"
  obtains plan i x keys witness pj r where
    "\<And>fin s po. rr_status fin \<in> {''finalized'', ''already_finalized''} \<Longrightarrow> rr_state fin = ''FINALIZED'' \<Longrightarrow>
      replay (admit json_externals repr demo_binding (demo_admission p) demo_limits)
        (demo_before p @ [Committed plan (Inr (demo_answer CS_COMMITTED)), Head_validated i x (Inr s),
          Finalized (admission_of demo_input) keys witness (Inr fin), Projected pj (Inr po)]) = Some (Inr (result_of r (demo_run_input p) po))"
    "\<And>fin s. rr_status fin \<notin> {''finalized'', ''already_finalized''} \<Longrightarrow>
      replay (admit json_externals repr demo_binding (demo_admission p) demo_limits)
        (demo_before p @ [Committed plan (Inr (demo_answer CS_COMMITTED)), Head_validated i x (Inr s),
          Finalized (admission_of demo_input) keys witness (Inr fin)])
      = Some (Inl (ProjectionPending ''resource receipt did not reach FINALIZED after canonical commit''))"
proof -
  obtain r x keys witness where r: "input_from_record json_externals r = Inr (demo_run_input p)"
    "rec_operation_id r = PStr (rsv_operation_id (admission_of demo_input))"
    "exact_head json_externals demo_binding r (new_receipt r) = Inr x"
    "authority_head_witness json_externals (bd_namespace demo_binding) r (new_receipt r) = Inr (keys, witness)"
    and runs: "\<And>t t' n. replay (commit_admission json_externals demo_binding (admission_of demo_input) True (run_command (demo_run_input p))
        (plan_of (run_command (demo_run_input p)) r)) t = Some (Inr (r, new_receipt r)) \<Longrightarrow>
      replay (publish_admission json_externals repr demo_binding (admission_of demo_input) r (new_receipt r)) t' = Some n \<Longrightarrow>
      replay (admit json_externals repr demo_binding (demo_admission p) demo_limits) (demo_before p @ t @ t') = Some n"
    by (rule demo_admitting [OF assms]) blast
  let ?plan = "plan_of (run_command (demo_run_input p)) r"
  have c: "replay (commit_admission json_externals demo_binding (admission_of demo_input) True (run_command (demo_run_input p)) ?plan)
      [Committed ?plan (Inr (demo_answer CS_COMMITTED))] = Some (Inr (r, new_receipt r))"
    by (simp add: commit_admission_def plan_of_def)
  note laws = json_externals_laws(1) json_externals_strip
  have "run_create_normal json_externals (demo_run_input p)"
    by (rule request_input [OF laws demo_checks(1,3) [OF assms]])
  then have f: "stable_event_fields json_externals repr (demo_run_input p) (str_of (rec_operation_id r))
      = Inr (admitted_event repr (demo_run_input p) (rsv_operation_id (admission_of demo_input)))"
    by (simp add: event_fields_of r(2))
  note publish = publish_runs [OF r(3,1,4) f, folded result_of_def]
  note run = runs [OF c publish(1), unfolded append_Cons append_Nil] runs [OF c publish(2), unfolded append_Cons append_Nil]
  show thesis by (rule that, rule run(1), assumption+, rule run(2), assumption)
qed

theorem admission_effects_in_order_witness:
  "\<exists>tr res. replay (admit json_externals (\<lambda>_. ''5.0'') demo_binding (demo_admission 5) demo_limits) tr = Some (Inr res)
    \<and> (\<exists>t0 t1 t2 t3 q rres r rc. tr = t0 @ t1 @ t2 @ t3 \<and> list_all calm t0 \<and> reservation_steps q rres t1
      \<and> (\<forall>e \<in> set t2. calm e \<or> (\<exists>p a. e = Committed p a))
      \<and> (commit_accepted t2 r rc \<or> proof_read t2 (Some r) rc)
      \<and> published json_externals (\<lambda>_. ''5.0'') demo_binding q r rc t3 res)"
proof -
  let ?fin = "demo_granted ''finalized'' ''FINALIZED'' True"
  obtain tr res where run: "replay (admit json_externals (\<lambda>_. ''5.0'') demo_binding (demo_admission 5) demo_limits) tr = Some (Inr res)"
  proof (rule demo_published [of 5])
    fix plan i x keys witness pj r
    assume run: "\<And>fin s po. rr_status fin \<in> {''finalized'', ''already_finalized''} \<Longrightarrow> rr_state fin = ''FINALIZED'' \<Longrightarrow>
      replay (admit json_externals (\<lambda>_. ''5.0'') demo_binding (demo_admission 5) demo_limits)
        (demo_before 5 @ [Committed plan (Inr (demo_answer CS_COMMITTED)), Head_validated i x (Inr s),
          Finalized (admission_of demo_input) keys witness (Inr fin), Projected pj (Inr po)]) = Some (Inr (result_of r (demo_run_input 5) po))"
    show thesis by (rule that [OF run [of ?fin]]) simp_all
  qed simp_all
  from admission_effects_in_order [OF run] run show ?thesis by blast
qed

theorem errors_report_durability_witness:
  "\<exists>tr e. replay (admit json_externals (\<lambda>_. ''5.0'') demo_binding (demo_admission 5) demo_limits) tr = Some (Inl e)
    \<and> commit_durable e = Some True
    \<and> (\<exists>rq i. check_request json_externals (demo_admission 5) = Inr rq \<and> run_create_identity json_externals (PStr (cq_run_id rq)) = Inr i
        \<and> durable_evidence i (''run-create:v1:'' @ identity_sha256 i) tr)"
proof -
  let ?fin = "demo_granted ''resource_state_conflict'' ''ABSENT'' False"
  obtain tr d where run: "replay (admit json_externals (\<lambda>_. ''5.0'') demo_binding (demo_admission 5) demo_limits) tr
      = Some (Inl (ProjectionPending d))"
  proof (rule demo_published [of 5])
    fix plan i x keys witness
    assume run: "\<And>fin s. rr_status fin \<notin> {''finalized'', ''already_finalized''} \<Longrightarrow>
      replay (admit json_externals (\<lambda>_. ''5.0'') demo_binding (demo_admission 5) demo_limits)
        (demo_before 5 @ [Committed plan (Inr (demo_answer CS_COMMITTED)), Head_validated i x (Inr s),
          Finalized (admission_of demo_input) keys witness (Inr fin)])
      = Some (Inl (ProjectionPending ''resource receipt did not reach FINALIZED after canonical commit''))"
    show thesis by (rule that [OF run [of ?fin]]) simp
  qed simp_all
  from errors_report_durability [OF run] run show ?thesis by (intro exI [of _ tr] exI [of _ "ProjectionPending d"]) (simp only: commit_durable.simps simp_thms)
qed

text \<open>The retry goes through a binding with another stream and time to live, after the admission stopped at its commit.\<close>

definition demo_moved_binding :: binding where
  "demo_moved_binding = demo_binding\<lparr>bd_control_stream := ''hfa:moved'', bd_state_ttl := 120\<rparr>"

definition demo_snapshot :: "ctr \<Rightarrow> aggregate_snapshot" where
  "demo_snapshot r =
     \<lparr>snap_identity_sha256 = str_of (rec_identity_sha256 r), snap_revision = 1, snap_state = Some ''pending'',
      snap_transition_id = str_of (rec_transition_id r), snap_record_hash = str_of (rec_record_hash r),
      snap_command_hash = str_of (rec_command_hash r), snap_operation_id = str_of (rec_operation_id r), snap_operation_digest = [],
      snap_projection_intents_json = [], snap_updated_at_ms = 7\<rparr>"

lemma demo_continuous:
  assumes "new_record E (run_command v) w ms None = Inr r"
  shows "continuity_error (Some (demo_snapshot r)) (Some \<lparr>probe_receipt = new_receipt r, probe_store_record = Some r\<rparr>) = None"
proof -
  obtain tid ch h where "r = (provisional_record (run_command v) ch tid w ms None)\<lparr>rec_record_hash := PStr h\<rparr>"
    by (rule new_record_okD [OF assms]) blast
  then show ?thesis
    by (simp add: continuity_error_def demo_snapshot_def new_receipt_def provisional_record_def run_command_def opt_str_def Let_def)
qed

theorem interrupted_admission_completes_witness:
  "\<exists>r v po tr. replay (admit json_externals (\<lambda>_. ''5.0'') demo_moved_binding (demo_admission 5) demo_limits) tr = Some (Inr (result_of r v po))
    \<and> new_record json_externals (run_command v) run_create_writer 7 None = Inr r \<and> rn_control_stream v = ''hfa:control''"
proof -
  note laws = json_externals_laws(1) json_externals_strip json_externals_laws(2)
  have five': "(0::int) \<le> 5" "(5::int) \<le> max_safe_integer" by simp_all
  obtain r where r: "new_record json_externals (run_command (demo_run_input 5)) run_create_writer 7 None = Inr r"
    by (rule demo_admitting [OF five']) blast
  have raw: "normalize_run_create_input json_externals (admission_raw demo_moved_binding (demo_checked 5) 7 (Some (demo_run_input 5)))
      = Inr (demo_run_input 5)"
    using template_normalises [OF request_input(5) [OF laws(1,2) demo_checks(1,3) [OF five']], of demo_binding "demo_checked 5" demo_moved_binding]
      demo_checks(3) [OF five'] by simp
  have init: "bd_initialised demo_moved_binding" by (simp add: demo_moved_binding_def demo_binding_def)
  obtain ks where ks: "make_keyspace (identity_sha256 (run_identity (demo_run_input 5))) (bd_namespace demo_moved_binding) = Inr ks"
    using demo_run_keys_exist by (auto simp: demo_moved_binding_def)
  let ?res = "demo_granted ''already_reserved'' ''RESERVED'' False" and ?fin = "demo_granted ''finalized'' ''FINALIZED'' True"
  let ?po = "\<lparr>po_status = ''projected'', po_entry_id = ''7-0'', po_projected = True\<rparr>"
  have "(rr_status ?res, rr_state ?res, rr_mutated ?res) \<in> {(''already_reserved'', ''RESERVED'', False), (''already_finalized'', ''FINALIZED'', False)}"
    "rr_status ?fin \<in> {''finalized'', ''already_finalized''}" "rr_state ?fin = ''FINALIZED''" "rc_created_at_ms demo_receipt = 7" by simp_all
  from interrupted_admission_completes [OF laws demo_checks(1,2) [OF five'] init demo_checks(3) [OF five'] r ks this(1,4) refl
      demo_continuous [OF r] this(2,3), of "\<lambda>_. ''5.0''" "demo_snapshot r" "demo_snapshot r" ?po]
  have "\<exists>tr. replay (admit json_externals (\<lambda>_. ''5.0'') demo_moved_binding (demo_admission 5) demo_limits) tr
      = Some (Inr (result_of r (demo_run_input 5) ?po))" by blast
  moreover have "rn_control_stream (demo_run_input 5) = ''hfa:control''" by (simp add: demo_run_input_def demo_input_def)
  ultimately show ?thesis using r by (intro exI [of _ r] exI [of _ "demo_run_input 5"] exI [of _ ?po]) blast
qed

text \<open>The server after the reservation, the release by one manager, and the finalization that another one asks for.\<close>

lemma demo_admission_wf: "reservation_wf json_externals (admission_of demo_input)"
  using admission_made [OF json_externals_laws(1) demo_normal] by (rule make_reservation_wf)

lemma release_state:
  assumes net: "plain_net net" and rel: "release_once E L net clock q now (M, h) = ((M', h'), Inr rel)" "rr_status rel = ''released''"
  shows "rr_state rel = ''RELEASED''"
proof -
  obtain ms where "execute E L net ''release'' q ms PNone PNone PNone [] [] (M, h) = ((M', h'), Inr rel)"
    using rel(1) by (auto simp: release_once_def elim!: pure_step_split)
  then obtain keys argv rep where r: "reservation_script L keys argv (host_data h) = (host_data h', Inr rep)"
    "rel = parse_reply (rsv_operation_id q) (reservation_proof q) rep"
    using net by (elim execute_reply) blast
  from r(1) show ?thesis
    by (cases rule: reservation_script_cases) (use r(2) rel(2) in \<open>auto simp: parse_reply_def refusal_def split: prod.splits\<close>)
qed

lemma demo_release:
  obtains h M' h' rel where
    "release_once json_externals json_lua served_net (PInt 7) (admission_of demo_input) PNone (demo_manager, h) = ((M', h'), Inr rel)"
    "rr_status rel = ''released''" "rr_state rel = ''RELEASED''"
proof -
  let ?q = "admission_of demo_input"
  have absent: "srv_view (host_data demo_host) (reservation_receipt_key (rsv_operation_id ?q)) = None" by (simp add: demo_host_def)
  have "int (card (held (host_data demo_host) (rsv_tenant_id ?q))) + 1 \<le> 5" "(5 :: int) \<le> max_safe_integer"
    "(\<Sum>k \<in> held (host_data demo_host) (rsv_tenant_id ?q). receipt_cost (host_data demo_host) k) + rsv_cost ?q \<le> 100"
    "(100 :: int) \<le> max_safe_integer"
    by (simp_all add: demo_nothing_held admission_of_def demo_input_def max_safe_integer_def)
  from reserve_granted [OF demo_accounted demo_ready demo_admission_wf demo_now absent this this(1,2)]
  obtain M h res where r: "reserve_once json_externals json_lua served_net (PInt 7) ?q (PInt 5) (PInt 100) (PInt 5) PNone
      (demo_manager, demo_host) = ((M, h), Inr res)" "rr_status res = ''reserved''" by blast
  have "managed_step json_externals json_lua (demo_manager, demo_host) (M, h)" using r(1) by (rule managed_step.reserve)
  moreover have "managed_step json_externals json_lua (M, h) (demo_manager, h\<lparr>host_data := host_data h, host_scripts := host_scripts h\<rparr>)"
    by (rule managed_step.other) simp
  ultimately have "(managed_step json_externals json_lua)\<^sup>*\<^sup>* (demo_manager, demo_host) (demo_manager, h)" by simp
  from held_receipt_can_be_released [OF demo_fresh this demo_ready demo_admission_wf receipt_after_reserve [OF served_plain r demo_now] _ demo_now]
  obtain M' h' rel where rel: "release_once json_externals json_lua served_net (PInt 7) ?q PNone (demo_manager, h) = ((M', h'), Inr rel)"
    "rr_status rel = ''released''" by auto
  then show thesis using release_state [OF served_plain] by (blast intro: that)
qed

lemma demo_finalize:
  obtains M' h' fin where "finalize_once json_externals json_lua served_net (PInt 7) (admission_of demo_input) PNone keys witness (demo_manager, h)
      = ((M', h'), Inr fin)"
proof -
  let ?q = "admission_of demo_input"
  have keys: "checked_resource_keys json_externals (rsv_operation_id ?q) (rsv_tenant_id ?q) = Inr (resource_keys (rsv_operation_id ?q) (rsv_tenant_id ?q))"
    using demo_admission_wf by (simp add: checked_resource_keys_def checked_receipt_key_def reservation_wf_def resource_keys_def)
  let ?keys = "resource_keys (rsv_operation_id ?q) (rsv_tenant_id ?q) @ keys"
  obtain M1 h1 where i: "initialise_manager Served (demo_manager, h) = ((M1, h1), Inr ())" "manager_ready M1"
    "ld_source (mg_loader M1) \<noteq> None" by (rule initialise_served [OF demo_ready])
  let ?argv = "reservation_argv ''finalize'' ?q 7 (-1) (-1) (-1) (mg_released_ttl M1) witness"
  obtain s' rep where "reservation_script json_lua ?keys ?argv (host_data h1) = (s', Inr rep)"
    using script_answers [of json_lua ?keys ?argv "host_data h1"] by (metis surj_pair snd_conv)
  then obtain M2 h2 where "call_script json_lua served_net ?keys ?argv (M1, h1) = ((M2, h2), Inr rep)"
    using call_script_served [OF i(2,3)] by blast
  then have "finalize_once json_externals json_lua served_net (PInt 7) ?q PNone keys witness (demo_manager, h)
      = ((M2, h2), Inr (parse_reply (rsv_operation_id ?q) (reservation_proof ?q) rep))"
    using i(1) by (simp add: finalize_once_def execute_def pure_step_def demo_now sbind_def served_net_def optional_limit_def keys)
  then show thesis by (rule that)
qed

theorem conflicting_admission_strands_run_witness:
  "\<exists>trA trB h' MB' h'' rel fin keys witness.
     Released (admission_of demo_input) (Inr rel) \<in> set trA \<and> Finalized (admission_of demo_input) keys witness (Inr fin) \<in> set trB
     \<and> replay (admit json_externals (\<lambda>_. ''5.0'') demo_binding (demo_admission 6) demo_limits) trA
       = Some (Inl (AuthorityConflict ''IDEMPOTENCY_CONFLICT'' [] False))
     \<and> replay (admit json_externals (\<lambda>_. ''5.0'') demo_binding (demo_admission 5) demo_limits) trB
       = Some (Inl (ProjectionPending ''resource receipt did not reach FINALIZED after canonical commit''))
     \<and> evidence_seen trB
     \<and> finalize_once json_externals json_lua served_net (PInt 7) (admission_of demo_input) PNone keys witness (demo_manager, h')
       = ((MB', h''), Inr fin)
     \<and> host_data h'' = host_data h'"
proof -
  let ?q = "admission_of demo_input" and ?A = "admit json_externals (\<lambda>_. ''5.0'') demo_binding (demo_admission 6) demo_limits"
  let ?B = "admit json_externals (\<lambda>_. ''5.0'') demo_binding (demo_admission 5) demo_limits"
  obtain h MA' h' rel where rel:
    "release_once json_externals json_lua served_net (PInt 7) ?q PNone (demo_manager, h) = ((MA', h'), Inr rel)"
    "rr_status rel = ''released''" "rr_state rel = ''RELEASED''" by (rule demo_release)
  obtain plan where A: "replay ?A (demo_after_refusal 6 plan rel) = Some (Inl (AuthorityConflict ''IDEMPOTENCY_CONFLICT'' [] False))"
    using demo_refused [of 6 rel] rel(2,3) by auto
  obtain planB i x keys witness where pending: "\<And>fin s. rr_status fin \<notin> {''finalized'', ''already_finalized''} \<Longrightarrow>
      replay ?B (demo_before 5 @ [Committed planB (Inr (demo_answer CS_COMMITTED)), Head_validated i x (Inr s), Finalized ?q keys witness (Inr fin)])
      = Some (Inl (ProjectionPending ''resource receipt did not reach FINALIZED after canonical commit''))"
    by (rule demo_published [of 5]) (simp_all, blast)
  obtain MB' h'' fin where fin: "finalize_once json_externals json_lua served_net (PInt 7) ?q PNone keys witness (demo_manager, h') = ((MB', h''), Inr fin)"
    by (rule demo_finalize)
  define trA where "trA = demo_after_refusal 6 plan rel"
  define trB where "trB = demo_before 5 @ [Committed planB (Inr (demo_answer CS_COMMITTED)), Head_validated i x (Inr undefined), Finalized ?q keys witness (Inr fin)]"
  have st: "rr_status fin \<notin> {''finalized'', ''already_finalized''}"
    using released_not_finalized [OF served_plain served_plain rel(1,2) fin] ..
  have inA: "Reserved ?q None None None (Inr (demo_granted ''reserved'' ''RESERVED'' True)) \<in> set trA"
    "Committed plan (Inr (demo_answer CS_IDEMPOTENCY_CONFLICT)) \<in> set trA" "Released ?q (Inr rel) \<in> set trA"
    and only: "Released ?q a \<in> set trA \<Longrightarrow> a = Inr rel" for a
    by (auto simp: trA_def demo_after_refusal_def demo_before_def fresh_reads_def)
  have release: "\<exists>rel'. a = Inr rel' \<and> rr_status rel' = ''released''
      \<and> release_once json_externals json_lua served_net (PInt 7) ?q PNone (demo_manager, h) = ((MA', h'), Inr rel')"
    if "Released ?q a \<in> set trA" for a using only [OF that] rel(1,2) by blast
  have inB: "Finalized ?q keys witness (Inr fin) \<in> set trB" by (simp add: trB_def)
  have B: "replay ?B trB = Some (Inl (ProjectionPending ''resource receipt did not reach FINALIZED after canonical commit''))"
    unfolding trB_def by (rule pending [OF st])
  from conflicting_admission_strands_run [OF A [folded trA_def] inA(1) _ inA(2) _ B inB served_plain served_plain release fin]
  have "evidence_seen trB \<and> host_data h'' = host_data h'" by simp
  then show ?thesis using A [folded trA_def] B inA(3) inB fin
    by (intro exI [of _ trA] exI [of _ trB] exI [of _ h'] exI [of _ MB'] exI [of _ h''] exI [of _ rel] exI [of _ fin] exI [of _ keys]
        exI [of _ witness]) simp
qed

end
