(* ===== verification/ProjectionProperties.thy ===== *)
theory ProjectionProperties
  imports RunCreateProjection RunCreateProperties AdmissionProperties
begin

text \<open>
  Properties of the run projection: an event is published at most once for a receipt key whatever is
  called in between, a repeated call is answered from the receipt without a write, a call with other
  evidence is refused, and the first call publishes exactly one event, one state and one receipt.
\<close>

section \<open>What a projection writes\<close>

text \<open>The keys of the three values a call writes are different.\<close>

definition keys_apart :: "string list \<Rightarrow> bool" where
  "keys_apart keys \<longleftrightarrow> keys ! 0 \<noteq> keys ! 1 \<and> keys ! 0 \<noteq> keys ! 2 \<and> keys ! 1 \<noteq> keys ! 2"

definition projection_values :: "string list \<Rightarrow> string \<Rightarrow> (string \<times> string) list" where
  "projection_values argv entry = zip projection_proof_fields (projection_proof argv) @ [(''stream_entry_id'', entry)]"

lemma type_name_cases:
  "type_name s k = (case srv_view s k of None \<Rightarrow> ''none'' | Some (RHash h) \<Rightarrow> ''hash'' | Some (ROther j) \<Rightarrow> redis_kind_name j)"
  by (simp add: type_name_def base_server_def lua_type_def server.defs)

lemma receipt_hash_cases: "receipt_hash s k = (case srv_view s k of Some (RHash h) \<Rightarrow> h | _ \<Rightarrow> [])"
  by (simp add: receipt_hash_def base_server_def lua_hash_def server.defs)

lemma written_view:
  assumes "keys_apart keys"
  shows "srv_view (project_effects R keys argv ttl maxlen s) k =
      (if k = keys ! 0 then Some (RHash (hset (projection_values argv (new_entry_id R s (keys ! 2))) (receipt_hash s (keys ! 0))))
       else if k = keys ! 1 then Some (ROther KString)
       else if k = keys ! 2 then Some (ROther KStream) else srv_view s k)"
    "srv_streams (project_effects R keys argv ttl maxlen s) k =
      (if k = keys ! 2 then trimmed R maxlen (srv_streams s k @ [field_pairs (drop 14 argv)]) else srv_streams s k)"
    "srv_text (project_effects R keys argv ttl maxlen s) k = (if k = keys ! 1 then argument argv 9 else srv_text s k)"
    "srv_ttl (project_effects R keys argv ttl maxlen s) (keys ! 1) = ttl"
    "srv_ttl (project_effects R keys argv ttl maxlen s) (keys ! 0) = -1"
  using assms
  by (auto simp: project_effects_def set_expiring_def xadd_def set_ttl_def put_text_def put_receipt_def receipt_hash_cases
      keys_apart_def projection_values_def kept_ttl_def)

lemma projection_proof_length [simp]: "length (projection_proof argv) = 10"
  by (simp add: projection_proof_def arguments_def)

lemma projection_values_look:
  "map fst (projection_values argv entry) = projection_proof_fields @ [''stream_entry_id'']"
  "map (map_of (projection_values argv entry)) projection_proof_fields = map Some (projection_proof argv)"
  "map_of (projection_values argv entry) ''stream_entry_id'' = Some entry"
proof -
  obtain a b c d e f g h i j where p: "projection_proof argv = [a, b, c, d, e, f, g, h, i, j]"
    by (simp add: projection_proof_def arguments_def upt_rec numeral_eq_Suc)
  show "map fst (projection_values argv entry) = projection_proof_fields @ [''stream_entry_id'']"
    "map (map_of (projection_values argv entry)) projection_proof_fields = map Some (projection_proof argv)"
    "map_of (projection_values argv entry) ''stream_entry_id'' = Some entry"
    by (simp_all add: projection_values_def p projection_proof_fields_def)
qed

lemma receipt_after_projection:
  fixes R :: stream_rules and argv :: "string list" and ttl maxlen :: int and s :: resource_server
  assumes "keys_apart keys"
  defines "s' \<equiv> project_effects R keys argv ttl maxlen s"
  shows "type_name s' (keys ! 0) = ''hash''"
    "field_list_is s' (keys ! 0) projection_proof_fields vs \<longleftrightarrow> vs = projection_proof argv"
    "receipt_field s' (keys ! 0) ''stream_entry_id'' = Some (new_entry_id R s (keys ! 2))"
proof -
  let ?vs = "projection_values argv (new_entry_id R s (keys ! 2))"
  have d: "distinct (map fst ?vs)" by (simp add: projection_values_look(1) projection_proof_fields_def)
  have look: "receipt_field s' (keys ! 0) f = (map_of (receipt_hash s (keys ! 0)) ++ map_of ?vs) f" for f
    by (simp add: receipt_field_def receipt_hash_cases [of "project_effects R keys argv ttl maxlen s"] s'_def written_view(1) [OF assms(1)] hset_map_of [OF d])
  show "type_name s' (keys ! 0) = ''hash''" by (simp add: type_name_cases s'_def written_view(1) [OF assms(1)])
  have "map (receipt_field s' (keys ! 0)) projection_proof_fields = map (map_of ?vs) projection_proof_fields"
  proof (rule map_cong [OF refl])
    fix f assume "f \<in> set projection_proof_fields"
    then have "f \<in> set (map fst ?vs)" unfolding projection_values_look(1) by simp
    then have "map_of ?vs f \<noteq> None" by (simp add: map_of_eq_None_iff)
    then show "receipt_field s' (keys ! 0) f = map_of ?vs f" by (auto simp: look map_add_def)
  qed
  then show "field_list_is s' (keys ! 0) projection_proof_fields vs \<longleftrightarrow> vs = projection_proof argv"
    unfolding field_list_is_def projection_values_look(2)
    by (auto dest: map_injective)
  show "receipt_field s' (keys ! 0) ''stream_entry_id'' = Some (new_entry_id R s (keys ! 2))"
    by (simp add: look map_add_def projection_values_look(3))
qed


section \<open>Runs\<close>

text \<open>
  A run of the server: calls of the script by any caller, with other writes in between that leave the
  projection receipts alone. The keys of a call are those the manager passes: the receipt key has its
  own prefix, the two other keys have not and differ, and the time to live is one that \<open>SET\<close> takes.
\<close>

definition projection_key :: "string \<Rightarrow> bool" where
  "projection_key k \<longleftrightarrow> take 26 k = ''hfa:run-create:projection:''"

definition keyed_call :: "string list \<Rightarrow> bool" where
  "keyed_call keys \<longleftrightarrow> projection_key (keys ! 0) \<and> \<not> projection_key (keys ! 1) \<and> \<not> projection_key (keys ! 2) \<and> keys ! 1 \<noteq> keys ! 2"

definition settable_time :: "string list \<Rightarrow> bool" where
  "settable_time argv \<longleftrightarrow> (\<forall>ttl. lua_tonumber (argument argv 10) = Some ttl \<longrightarrow> ttl \<le> ex_limit)"

definition keeps_receipts :: "(resource_server \<Rightarrow> resource_server) \<Rightarrow> bool" where
  "keeps_receipts f \<longleftrightarrow> (\<forall>s k. projection_key k \<longrightarrow> srv_view (f s) k = srv_view s k)"

type_synonym projection_event = "(resource_server \<Rightarrow> resource_server) \<times> string list \<times> string list"

definition event_ok :: "projection_event \<Rightarrow> bool" where
  "event_ok e \<longleftrightarrow> keeps_receipts (fst e) \<and> keyed_call (fst (snd e)) \<and> settable_time (snd (snd e))"

lemma event_ok_triple [simp]:
  "event_ok (other, keys, argv) \<longleftrightarrow> keeps_receipts other \<and> keyed_call keys \<and> settable_time argv"
  by (simp add: event_ok_def)

text \<open>Each call for the receipt key \<open>k\<close>: the server before, the call, the server after and the reply.\<close>

type_synonym projection_call = "resource_server \<times> string list \<times> string list \<times> resource_server \<times> (string + projection_reply)"

fun projection_calls :: "stream_rules \<Rightarrow> lua_lib \<Rightarrow> string \<Rightarrow> projection_event list \<Rightarrow> resource_server \<Rightarrow> projection_call list" where
  "projection_calls R L k [] s = []"
| "projection_calls R L k ((other, keys, argv) # es) s =
     (case projection_script R L keys argv (other s) of
        (s', r) \<Rightarrow> (if keys ! 0 = k then [(other s, keys, argv, s', r)] else []) @ projection_calls R L k es s')"

fun writing :: "projection_call \<Rightarrow> bool" where
  "writing (s, keys, argv, s', r) \<longleftrightarrow> s' \<noteq> s"

text \<open>The server after a call that appends its event to the stream, and the reply.\<close>

fun publishes :: "stream_rules \<Rightarrow> projection_call \<Rightarrow> bool" where
  "publishes R (s, keys, argv, s', r) \<longleftrightarrow>
     (\<exists>maxlen. lua_tonumber (argument argv 12) = Some maxlen
        \<and> srv_streams s' = (srv_streams s)(keys ! 2 := trimmed R maxlen (srv_streams s (keys ! 2) @ [field_pairs (drop 14 argv)])))
     \<and> r = Inr (''run_admitted'', new_entry_id R s (keys ! 2), [])"

lemma keyed_apart: "keyed_call keys \<Longrightarrow> keys_apart keys"
  by (auto simp: keyed_call_def keys_apart_def)

lemma type_name_view: "srv_view s k = srv_view s' k \<Longrightarrow> type_name s k = type_name s' k"
  by (simp add: type_name_cases)

text \<open>A call writes nothing, or it finds no receipt, publishes and leaves one.\<close>

lemma projection_call_effect:
  assumes run: "projection_script R L keys argv s = (s', r)" and keyed: "keyed_call keys" and time: "settable_time argv"
  obtains (silent) "s' = s" "\<And>e d. r \<noteq> Inr (''run_admitted'', e, d)"
  | (published) "type_name s (keys ! 0) = ''none''" "type_name s' (keys ! 0) = ''hash''" "publishes R (s, keys, argv, s', r)"
      "\<And>k. k \<notin> {keys ! 0, keys ! 1, keys ! 2} \<Longrightarrow> srv_view s' k = srv_view s k"
  using run
proof (cases rule: projection_script_cases)
  case (refused d)
  then show ?thesis by (intro silent) simp_all
next
  case (already entry)
  then show ?thesis by (intro silent) simp_all
next
  case (expire ttl maxlen n)
  then show ?thesis using time by (auto simp: projection_numbers_def Let_def settable_time_def split: option.splits if_splits)
next
  case (projected ttl maxlen n own)
  note w = written_view [OF keyed_apart [OF keyed], of R argv ttl maxlen s, folded projected(2)]
  have "lua_tonumber (argument argv 12) = Some maxlen"
    using projected(3) by (auto simp: projection_numbers_def Let_def split: option.splits if_splits)
  moreover have "srv_streams s' = (srv_streams s)(keys ! 2 := trimmed R maxlen (srv_streams s (keys ! 2) @ [field_pairs (drop 14 argv)]))"
    by (rule ext) (simp add: w(2))
  ultimately have "publishes R (s, keys, argv, s', r)" using projected(1) by simp
  moreover have "type_name s' (keys ! 0) = ''hash''" by (simp add: type_name_cases w(1))
  moreover have "srv_view s' k = srv_view s k" if "k \<notin> {keys ! 0, keys ! 1, keys ! 2}" for k using that by (simp add: w(1))
  ultimately show ?thesis using projected(4) by (intro published)
qed

text \<open>A receipt that is there stays as it is.\<close>

lemma receipt_stays:
  assumes run: "projection_script R L keys argv s = (s', r)" and keyed: "keyed_call keys" "settable_time argv"
    and k: "projection_key k" "type_name s k = ''hash''"
  shows "type_name s' k = ''hash''"
  using run keyed
proof (cases rule: projection_call_effect)
  case published
  have "k \<noteq> keys ! 1" "k \<noteq> keys ! 2" "k \<noteq> keys ! 0" using keyed k published(1) by (auto simp: keyed_call_def)
  then have "srv_view s' k = srv_view s k" using published(4) by simp
  from type_name_view [OF this] show ?thesis using k(2) by simp
qed (use k in simp)

lemma calls_after_receipt:
  assumes "list_all event_ok es" and "projection_key k" and "type_name s k = ''hash''"
  shows "filter writing (projection_calls R L k es s) = []"
  using assms(1,3)
proof (induction es arbitrary: s)
  case (Cons e es)
  obtain other keys argv where e: "e = (other, keys, argv)" by (cases e) auto
  have ok: "keeps_receipts other" "keyed_call keys" "settable_time argv" "list_all event_ok es" using Cons.prems(1) by (simp_all add: e)
  obtain s' r where run: "projection_script R L keys argv (other s) = (s', r)" by (cases "projection_script R L keys argv (other s)")
  have hash: "type_name (other s) k = ''hash''"
    using ok(1) assms(2) Cons.prems(2) type_name_view unfolding keeps_receipts_def by metis
  have rest: "filter writing (projection_calls R L k es s') = []"
    by (rule Cons.IH [OF ok(4) receipt_stays [OF run ok(2,3) assms(2) hash]])
  have "s' = other s" if "keys ! 0 = k"
    using run ok(2,3) by (cases rule: projection_call_effect) (use that hash in simp_all)
  then show ?case using rest by (auto simp: e run)
qed simp

lemma calls_write_once:
  assumes "list_all event_ok es" and "projection_key k"
  shows "length (filter writing (projection_calls R L k es s)) \<le> 1"
  using assms(1)
proof (induction es arbitrary: s)
  case (Cons e es)
  obtain other keys argv where e: "e = (other, keys, argv)" by (cases e) auto
  have ok: "keyed_call keys" "settable_time argv" "list_all event_ok es" using Cons.prems by (simp_all add: e)
  obtain s' r where run: "projection_script R L keys argv (other s) = (s', r)" by (cases "projection_script R L keys argv (other s)")
  have IH: "length (filter writing (projection_calls R L k es s')) \<le> 1" by (rule Cons.IH [OF ok(3)])
  have "filter writing (projection_calls R L k es s') = []" if "keys ! 0 = k" "s' \<noteq> other s"
    using run ok(1,2)
  proof (cases rule: projection_call_effect)
    case published
    then show ?thesis using that(1) by (intro calls_after_receipt [OF ok(3) assms(2)]) simp
  qed (use that in simp)
  with IH show ?case by (auto simp: e run)
qed simp

lemma calls_publish_or_not:
  assumes "list_all event_ok es" and "c \<in> set (projection_calls R L k es s)"
  shows "if writing c then publishes R c else (\<forall>e d. snd (snd (snd (snd c))) \<noteq> Inr (''run_admitted'', e, d))"
  using assms
proof (induction es arbitrary: s)
  case (Cons e es)
  obtain other keys argv where e: "e = (other, keys, argv)" by (cases e) auto
  have ok: "keyed_call keys" "settable_time argv" "list_all event_ok es" using Cons.prems(1) by (simp_all add: e)
  obtain s' r where run: "projection_script R L keys argv (other s) = (s', r)" by (cases "projection_script R L keys argv (other s)")
  consider "c = (other s, keys, argv, s', r)" | "c \<in> set (projection_calls R L k es s')"
    using Cons.prems(2) by (auto simp: e run split: if_splits)
  then show ?case
  proof cases
    case 1
    have "s' \<noteq> other s" if "type_name (other s) (keys ! 0) = ''none''" "type_name s' (keys ! 0) = ''hash''" using that by auto
    with run ok(1,2) show ?thesis by (cases rule: projection_call_effect) (auto simp: 1)
  next
    case 2
    then show ?thesis by (rule Cons.IH [OF ok(3)])
  qed
qed simp

text \<open>The calls of the manager are such calls when its stream is neither a receipt nor the state of the run.\<close>

lemma manager_call_ok:
  assumes "projection_call E x = Inr (keys, argv)" and "\<not> projection_key (keys ! 2)" and "keys ! 1 \<noteq> keys ! 2"
  shows "event_ok ((\<lambda>s. s), keys, argv)"
proof -
  have keys: "projection_key (keys ! 0)" "\<not> projection_key (keys ! 1)"
    using assms(1)
    by (auto simp: projection_call_def rbind_Inr_iff rejected_def projection_receipt_key_def run_state_key_def projection_key_def
        split: sum.splits)
  obtain ttl where "argument argv 10 = dec_int ttl" "ttl \<le> max_safe_integer"
    using assms(1)
    by (auto simp: projection_call_def rbind_Inr_iff rejected_def argument_def dest: exact_safe_integer_range split: sum.splits)
  then have "settable_time argv" by (simp add: settable_time_def ex_limit_def max_safe_integer_def)
  then show ?thesis using keys assms(2,3) by (simp add: keyed_call_def keeps_receipts_def)
qed

section \<open>Properties\<close>

text \<open>
  C15. The admission of a run is published at most once. Take any run of the projection script, whatever the
  arguments of its callers and whatever else is written in between that leaves the projection receipts alone;
  only the receipt keys must have their prefix, the two other keys of a call must differ and not have it,
  and the time to live must be one that Redis accepts (\<open>manager_call_ok\<close>: the calls of the manager are such
  unless its control stream is named like a receipt or the state of the run). Then at most one call for a
  receipt key changes the server at all; that call appends exactly its event, once, to its stream and to no
  other stream, and answers \<open>run_admitted\<close>; no other call answers so.
\<close>

theorem admission_published_at_most_once:
  assumes "list_all event_ok es" and "projection_key k"
  shows "length (filter writing (projection_calls R L k es s)) \<le> 1
    \<and> (\<forall>c \<in> set (projection_calls R L k es s).
          if writing c then publishes R c else (\<forall>e d. snd (snd (snd (snd c))) \<noteq> Inr (''run_admitted'', e, d)))"
  using calls_write_once [OF assms] calls_publish_or_not [OF assms(1)] by blast

text \<open>
  What the first projection writes. It is only reached with a valid authority head, no legacy state
  and no admission event of the run in the stream; it appends exactly the event of the call to the
  control stream (which the server may trim from the left), sets the state of the run with its time to
  live, writes the receipt, and leaves every other key as it was.
\<close>

theorem projection_writes_once_and_only:
  assumes R: "stream_laws R" and keys: "keys_apart keys"
    and run: "projection_script R L keys argv s = (s', Inr (''run_admitted'', entry, detail))"
  shows "srv_view s (keys ! 0) = None \<and> srv_view s (keys ! 1) = None
    \<and> (\<exists>own. projection_witness L keys argv = Inr own
        \<and> fst (authority_head_validate (object_fields L) (base_server s) (drop 3 keys) own) = ''VALID'')
    \<and> (srv_view s (keys ! 2) \<noteq> None \<longrightarrow> (\<forall>e \<in> set (srv_streams s (keys ! 2)). \<not> is_admission_of (argument argv 7) e))
    \<and> suffix (srv_streams s' (keys ! 2)) (srv_streams s (keys ! 2) @ [field_pairs (drop 14 argv)])
    \<and> last (srv_streams s' (keys ! 2)) = field_pairs (drop 14 argv)
    \<and> srv_text s' (keys ! 1) = argument argv 9 \<and> Some (srv_ttl s' (keys ! 1)) = lua_tonumber (argument argv 10)
    \<and> field_list_is s' (keys ! 0) projection_proof_fields (projection_proof argv) \<and> srv_ttl s' (keys ! 0) = -1
    \<and> (\<forall>k. k \<notin> {keys ! 0, keys ! 1, keys ! 2} \<longrightarrow>
          srv_view s' k = srv_view s k \<and> srv_text s' k = srv_text s k \<and> srv_streams s' k = srv_streams s k)"
  using run
proof (cases rule: projection_script_cases)
  case (projected ttl maxlen n own)
  note w = written_view [OF keys, of R argv ttl maxlen s, folded projected(2)]
  have none: "srv_view s k = None" if "type_name s k = ''none''" for k
  proof (cases "srv_view s k")
    case (Some x)
    then show ?thesis using that by (cases x) (auto simp: type_name_cases elim: redis_kind_name.elims)
  qed simp
  have kind: "type_name s (keys ! 2) = ''stream''" if "srv_view s (keys ! 2) \<noteq> None"
    using that none projected(9) by auto
  have num: "lua_tonumber (argument argv 10) = Some ttl" "0 < maxlen"
    using projected(3) by (auto simp: projection_numbers_def Let_def split: option.splits if_splits)
  let ?xs = "srv_streams s (keys ! 2) @ [field_pairs (drop 14 argv)]"
  have suf: "suffix (trimmed R maxlen ?xs) ?xs" and long: "min (nat maxlen) (length ?xs) \<le> length (trimmed R maxlen ?xs)"
    using R unfolding stream_laws_def by blast+
  have "trimmed R maxlen ?xs \<noteq> []" using long num(2) by auto
  then have "last (trimmed R maxlen ?xs) = field_pairs (drop 14 argv)"
    using suf by (metis last_appendR last_snoc suffix_def)
  then show ?thesis
    using suf none [OF projected(4)] none [OF projected(8)] projected(5,7,10) kind num(1) w
      receipt_after_projection(2) [OF keys, of R argv ttl maxlen s, folded projected(2)] keys
    by (auto simp: keys_apart_def)
qed simp_all

text \<open>
  A repeated projection is answered from its receipt. After a first projection the same call, with any
  head keys and whatever the head has become, returns the same entry id and writes nothing; a call for the
  same receipt with other evidence (another transition, hash, run, tenant, state or event) is refused and
  writes nothing.
\<close>

theorem projection_replay_reads_receipt:
  assumes R: "stream_laws R" and keys: "keys_apart keys"
    and run: "projection_script R L keys argv s = (s', Inr (''run_admitted'', entry, detail))"
    and same: "keys' ! 0 = keys ! 0" and numbers: "is_ok (projection_numbers argv')"
  shows "projection_script R L keys' argv' s' =
    (if projection_proof argv' = projection_proof argv
     then (s', Inr (''canonical_run_create_already_projected'', entry, []))
     else (s', Inr (''canonical_run_create_evidence_conflict'', [], ''projection_receipt_proof_mismatch'')))"
  using run
proof (cases rule: projection_script_cases)
  case (projected ttl maxlen n own)
  note r = receipt_after_projection [OF keys, of R argv ttl maxlen s, folded projected(2)]
  obtain ttl' maxlen' n' where "projection_numbers argv' = Inr (ttl', maxlen', n')" using numbers by (auto simp: is_ok_iff)
  moreover have "entry \<noteq> []" "entry = new_entry_id R s (keys ! 2)" using R projected(1) by (auto simp: stream_laws_def)
  ultimately show ?thesis
    using r by (simp add: projection_script_def projected_already_def same projection_conflict_def)
qed simp_all

end
