(* ===== verification/ProjectionDemo.thy ===== *)
theory ProjectionDemo
  imports ProjectionProperties CommitRefinement
begin

text \<open>
  Concrete instances of the projection properties, on a server that holds the canonical creation of one
  run, stored by the model of the commit.
\<close>

section \<open>A projecting call\<close>

text \<open>A server that holds the creation of a run and nothing else, and the call that projects it.\<close>

lemma one_text: "dec_int 1 = ''1''"
  by code_simp

lemma demo_create_argv:
  assumes r: "new_record json_externals demo_create ''writer-1'' 5 None = Inr r"
  shows "list_all is_ascii (head_argv json_externals r)" "length (head_argv json_externals r) = 14"
    "head_argv json_externals r ! 1 = ''create-1''" "head_argv json_externals r ! 4 = ''1''"
    "head_argv json_externals r ! 10 = ''pending''" "head_argv json_externals r ! 11 = ''0''"
proof -
  obtain tid ch h where r': "r = (provisional_record demo_create ch tid ''writer-1'' 5 None)\<lparr>rec_record_hash := PStr h\<rparr>"
    and ids: "transition_id (PStr (identity_sha256 (cmd_identity demo_create))) (PInt (cmd_expected_revision demo_create + 1))
       (cmd_operation_id demo_create) = Inr tid"
      "command_hash json_externals demo_create = Inr ch"
      "canonical_json_sha256 json_externals (immutable_payload (provisional_record demo_create ch tid ''writer-1'' 5 None)) = Inr h"
    by (rule new_record_okD [OF r]) blast
  have f: "str_of (rec_identity_sha256 r) = identity_sha256 demo_run" "str_of (rec_operation_id r) = ''create-1''" "tid_of r = tid"
    "int_of (rec_to_revision r) = 1" "str_of (rec_command_hash r) = ch" "str_of (rec_record_hash r) = h"
    "rec_next_state r = PStr ''pending''" "str_of (rec_next_state r) = ''pending''"
    by (simp_all add: r' provisional_record_def demo_create_def tid_of_def int_of_def)
  show "list_all is_ascii (head_argv json_externals r)"
    by (rule head_argv_ascii [OF json_externals_laws(1,3,4) storable_writable [OF demo_create_storable(1) [OF r]]])
  show "length (head_argv json_externals r) = 14" "head_argv json_externals r ! 1 = ''create-1''"
    "head_argv json_externals r ! 4 = ''1''" "head_argv json_externals r ! 10 = ''pending''" "head_argv json_externals r ! 11 = ''0''"
    by (simp_all add: head_argv_def f one_text)
qed

definition demo_rules :: stream_rules where
  "demo_rules = \<lparr>new_entry_id = (\<lambda>s k. ''1-0''), trimmed = (\<lambda>n xs. drop (length xs - nat n) xs)\<rparr>"

lemma demo_rules_laws: "stream_laws demo_rules"
  by (auto simp: stream_laws_def demo_rules_def suffix_drop)

definition demo_projection_server :: "ctr \<Rightarrow> resource_server" where
  "demo_projection_server r =
     server.extend (stored_server json_externals json_lua demo_run_keys [r]) \<lparr>srv_text = (\<lambda>_. []), srv_ttl = (\<lambda>_. -1)\<rparr>"

definition demo_projection_keys :: "string list" where
  "demo_projection_keys =
     [''hfa:run-create:projection:v1:d'', ''hfa:run:state:run-1'', ''hfa:control''] @ take 6 (commit_keys demo_run_keys)"

definition demo_projection_argv :: "string list \<Rightarrow> string list" where
  "demo_projection_argv own =
     [''create-1'', ''p'', own ! 3, own ! 6, own ! 5, ''1'', ''run-1'', ''acme'', ''admitted'', ''60'', ''h'', ''100000'', ''2'',
      compact_texts own, ''event_type'', ''RunAdmitted'', ''run_id'', ''run-1'']"


lemma compact_reads:
  assumes L: "lua_reads L" and ws: "list_all is_ascii ws"
  shows "decode_table L (compact_texts ws) = Some (JArr (map JStr ws))"
proof -
  let ?j = "JArr (map JStr ws)"
  have text_is: "compact_texts ws = json_dumps (\<lambda>_. ''0.0'') ?j" by (simp add: compact_texts_def comp_def)
  have plain: "json_plain ?j" using ws by (simp add: list_all_iff)
  have "fold max (map json_depth (map JStr ws)) a = a" for a :: nat by (induction ws) simp_all
  then have depth: "json_depth ?j < 1000" by simp
  have decodes: "json_plain j \<Longrightarrow> json_depth j < 1000 \<Longrightarrow> json_loads b = Inr (py_of_json (sort_json j)) \<Longrightarrow> lb_decode L b = Some (sort_json j)" for b j
    using L unfolding lua_reads_def by blast
  have "lb_decode L (compact_texts ws) = Some (sort_json ?j)"
    unfolding text_is by (rule decodes [OF plain depth json_loads_dumps [OF plain]])
  then show ?thesis by (simp add: decode_table_def comp_def)
qed

lemma demo_own_keys:
  assumes "k \<in> set (commit_keys demo_run_keys)"
  shows "take 14 k = ''hfa:authority:''"
  using assms by (auto simp: commit_keys_def key_defs member_key_def hash_tag_def demo_run_keys_def conflict_index_key_def conflicts_key_def)

lemma foreign_view:
  assumes "take 14 k \<noteq> ''hfa:authority:''"
  shows "k \<noteq> transition_log_key demo_run_keys" "k \<noteq> outbox_key demo_run_keys" "view_of demo_run_keys st k = None"
  using assms demo_own_keys [of k] by (auto simp: view_of_def commit_keys_def)

lemma demo_projected:
  obtains r s' where "projection_script demo_rules json_lua demo_projection_keys (demo_projection_argv (head_argv json_externals r))
    (demo_projection_server r) = (s', Inr (''run_admitted'', ''1-0'', []))"
proof -
  obtain r where r: "new_record json_externals demo_create ''writer-1'' 5 None = Inr r" by (rule demo_create_accepted)
  let ?own = "head_argv json_externals r" and ?s = "demo_projection_server r"
  note own = demo_create_argv [OF r] and st = storable_writable [OF demo_create_storable(1) [OF r]] demo_create_storable(2) [OF r]
  have "rec_from_revision r = PInt 0" "rec_previous_state r = PNone"
    using new_record_fields [OF r] by (simp_all add: demo_create_def)
  then have chain: "chained None 0 [r]" using st(1) new_record_fields [OF r] by (simp add: writable_def demo_create_def)
  have base: "base_server ?s = server_of demo_run_keys (stored_of json_externals json_envelope [r]) (streams_of json_externals [r])"
    by (simp add: base_server_def demo_projection_server_def stored_server_def json_lua_envelope server.defs)
  have "authority_head_validate (object_fields json_lua) (base_server ?s) (drop 3 demo_projection_keys) ?own = (''VALID'', [])"
    using head_validate_latest [OF json_externals_laws(1,3,4) object_fields_decode [OF json_lua_reads, unfolded json_lua_envelope], of "[r]" demo_run_keys] st chain
    by (simp add: base demo_projection_keys_def)
  moreover have "projection_witness json_lua demo_projection_keys (demo_projection_argv ?own) = Inr ?own"
    using compact_reads [OF json_lua_reads own(1)] own(2)
    by (simp add: projection_witness_def demo_projection_keys_def demo_projection_argv_def argument_def commit_keys_def table_texts_def
        text_of_def comp_def list_all_iff)
  moreover have "projection_numbers (demo_projection_argv ?own) = Inr (60, 100000, 2)"
    by (simp add: projection_numbers_def demo_projection_argv_def argument_def lua_tonumber_def parse_dec_def is_digit_def nat_of_dec_def
        digit_val_def)
  moreover have "projection_proof_ok (demo_projection_argv ?own) ?own"
    using own by (simp add: projection_proof_ok_def demo_projection_argv_def argument_def)
  moreover have "type_name ?s k = ''none''" if "take 14 k \<noteq> ''hfa:authority:''" for k
    using that
    by (simp add: type_name_cases demo_projection_server_def stored_server_def server_of_def server.defs foreign_view)
  then have "type_name ?s (demo_projection_keys ! n) = ''none''" if "n \<in> {0, 1, 2}" for n
    using that by (auto simp: demo_projection_keys_def)
  ultimately have "projection_script demo_rules json_lua demo_projection_keys (demo_projection_argv ?own) ?s
      = (project_effects demo_rules demo_projection_keys (demo_projection_argv ?own) 60 100000 ?s, Inr (''run_admitted'', ''1-0'', []))"
    by (simp add: projection_script_def project_first_def safe_expire max_safe_integer_def) (simp add: demo_rules_def)
  then show thesis by (rule that)
qed


lemma demo_projection_keyed: "keyed_call demo_projection_keys" "projection_key (demo_projection_keys ! 0)"
  by (simp_all add: keyed_call_def projection_key_def demo_projection_keys_def)

theorem admission_published_at_most_once_witness:
  "\<exists>es s. list_all event_ok es \<and> length (projection_calls demo_rules json_lua (demo_projection_keys ! 0) es s) = 2
    \<and> length (filter writing (projection_calls demo_rules json_lua (demo_projection_keys ! 0) es s)) = 1"
proof -
  obtain r s' where run: "projection_script demo_rules json_lua demo_projection_keys (demo_projection_argv (head_argv json_externals r))
      (demo_projection_server r) = (s', Inr (''run_admitted'', ''1-0'', []))" by (rule demo_projected)
  let ?argv = "demo_projection_argv (head_argv json_externals r)" and ?s = "demo_projection_server r"
  let ?es = "[(\<lambda>s. s, demo_projection_keys, ?argv), (\<lambda>s. s, demo_projection_keys, ?argv)]"
  let ?calls = "projection_calls demo_rules json_lua (demo_projection_keys ! 0) ?es ?s"
  have "settable_time ?argv"
    by (simp add: settable_time_def demo_projection_argv_def argument_def lua_tonumber_def parse_dec_def is_digit_def nat_of_dec_def
        digit_val_def ex_limit_def)
  then have ok: "list_all event_ok ?es" by (simp add: keeps_receipts_def demo_projection_keyed(1))
  note once = admission_published_at_most_once [OF ok demo_projection_keyed(2), of demo_rules json_lua ?s]
  obtain c cs where calls: "?calls = c # cs" "length cs = 1" "snd (snd (snd (snd c))) = Inr (''run_admitted'', ''1-0'', [])"
    by (simp add: run split: prod.split)
  then have "writing c" using once by (metis list.set_intros(1))
  then have "length (filter writing ?calls) = 1" using once calls(1) by simp
  with ok calls show ?thesis by (intro exI [of _ ?es] exI [of _ ?s]) simp
qed

theorem projection_writes_once_and_only_witness:
  "\<exists>r s'. projection_script demo_rules json_lua demo_projection_keys (demo_projection_argv (head_argv json_externals r))
      (demo_projection_server r) = (s', Inr (''run_admitted'', ''1-0'', []))
    \<and> last (srv_streams s' ''hfa:control'') = [(''event_type'', ''RunAdmitted''), (''run_id'', ''run-1'')]
    \<and> srv_text s' ''hfa:run:state:run-1'' = ''admitted''"
proof -
  obtain r s' where run: "projection_script demo_rules json_lua demo_projection_keys (demo_projection_argv (head_argv json_externals r))
      (demo_projection_server r) = (s', Inr (''run_admitted'', ''1-0'', []))" by (rule demo_projected)
  from projection_writes_once_and_only [OF demo_rules_laws keyed_apart [OF demo_projection_keyed(1)] run] run
  show ?thesis by (auto simp: demo_projection_keys_def demo_projection_argv_def argument_def)
qed

theorem projection_replay_reads_receipt_witness:
  "\<exists>keys argv s'. projection_script demo_rules json_lua keys argv s' = (s', Inr (''canonical_run_create_already_projected'', ''1-0'', []))"
proof -
  obtain r s' where run: "projection_script demo_rules json_lua demo_projection_keys (demo_projection_argv (head_argv json_externals r))
      (demo_projection_server r) = (s', Inr (''run_admitted'', ''1-0'', []))" by (rule demo_projected)
  have "is_ok (projection_numbers (demo_projection_argv (head_argv json_externals r)))"
    using run by (auto simp: projection_script_def projection_conflict_def is_ok_iff split: sum.splits)
  from projection_replay_reads_receipt [OF demo_rules_laws keyed_apart [OF demo_projection_keyed(1)] run refl this]
  show ?thesis by auto
qed

end
