(* ===== verification/CommittedAdmission.thy ===== *)
theory CommittedAdmission
  imports SagaDemo ProjectionDemo
begin

text \<open>
  The admission of a run over the whole path: the command of a normalised request, its evaluation, the
  commit of its plan by the Lua script, what the server then gives back, and the projection. The
  components are composed as \<open>RunCreateAuthorityBinding\<close> composes them; nothing of the record is assumed but
  that the texts of the request are ASCII, its numbers integers and its payload less than 990 levels deep:
  the JSON library of Redis reads 1000, and the record puts a few levels around the payload.
\<close>

section \<open>The record of a request can be stored\<close>

lemma admission_record_plain:
  assumes v: "plain_input v" and ms: "0 \<le> ms" "ms \<le> max_safe_integer"
    and r: "new_record E (run_command v) run_create_writer ms None = Inr r"
  shows "json_plain (stored_json r)"
proof -
  obtain tid ch h where r': "r = (provisional_record (run_command v) ch tid run_create_writer ms None)\<lparr>rec_record_hash := PStr h\<rparr>"
    and ids: "transition_id (PStr (identity_sha256 (cmd_identity (run_command v)))) (PInt (cmd_expected_revision (run_command v) + 1))
       (cmd_operation_id (run_command v)) = Inr tid"
      "command_hash E (run_command v) = Inr ch"
      "canonical_json_sha256 E (immutable_payload (provisional_record (run_command v) ch tid run_create_writer ms None)) = Inr h"
    by (rule new_record_okD [OF r]) blast
  have "sha256_re ch" "sha256_re h" using canonical_json_sha256_re ids(2,3) by (auto simp: command_hash_def)
  then have ascii: "is_ascii tid" "is_ascii ch" "is_ascii h" "is_ascii (identity_sha256 i)" "is_ascii run_create_writer"
    "is_ascii (''run-create:v1:'' @ identity_sha256 i)" for i
    using transition_id_ascii [OF ids(1)] sha256_re_ascii [OF identity_sha256_re] ascii_words(4,5) sha256_re_ascii
    by (simp_all only: is_ascii_append)
  note parts = plain_input_parts [OF v]
  have identity: "json_plain (identity_json (run_identity v))"
    unfolding identity_json_def
    by (rule json_plain_ascii_keys) (use parts(2) in \<open>simp_all add: run_identity_def opt_json_def is_ascii_def\<close>)
  have status: "json_plain (JObj (status_intent v))"
    unfolding status_intent_def
    by (rule json_plain_ascii_keys) (use parts(3) in \<open>simp_all add: is_ascii_def\<close>)
  have words: "is_ascii ''run''" "is_ascii ''RUN_CREATE''" "is_ascii ''ctr.v1''" by (simp_all add: is_ascii_def)
  show ?thesis
    unfolding stored_json_def
  proof (rule json_plain_ascii_keys, goal_cases)
    case 1
    show ?case by simp
  next
    case 2
    show ?case by (simp add: is_ascii_def)
  next
    case 3
    show ?case
      using ascii words ascii_words(2) identity status parts(1) ms
      by (simp add: r' provisional_record_def run_command_def jscalar_def max_safe_integer_def del: json_plain.simps(7) append.simps)
        (simp add: run_identity_def)
  qed
qed

lemma fold_max_le: "fold max xs (a :: nat) \<le> n \<longleftrightarrow> a \<le> n \<and> (\<forall>x \<in> set xs. x \<le> n)"
  by (induction xs arbitrary: a) auto

lemma object_depth: "json_depth (JObj kvs) \<le> Suc n \<longleftrightarrow> (\<forall>kv \<in> set kvs. json_depth (snd kv) \<le> n)"
  by (auto simp: fold_max_le)

lemma admission_record_depth:
  assumes deep: "json_depth (JObj (rn_payload v)) < 990"
    and r: "new_record E (run_command v) run_create_writer ms None = Inr r"
  shows "json_depth (stored_json r) < 1000"
proof -
  have s: "json_depth (jscalar x) \<le> n" for x n by (simp add: jscalar_def split: pyval.split)
  have m: "json_depth (JObj (create_metadata v)) \<le> Suc 990"
    unfolding object_depth using deep by (auto simp: create_metadata_def simp del: json_depth.simps(2) split: option.splits)
  have i: "json_depth (JObj (status_intent v)) \<le> Suc 990" "json_depth (identity_json j) \<le> Suc 991" for j
    unfolding identity_json_def object_depth by (simp_all add: status_intent_def opt_json_def split: option.split)
  obtain tid ch h where r': "r = (provisional_record (run_command v) ch tid run_create_writer ms None)\<lparr>rec_record_hash := PStr h\<rparr>"
    by (rule new_record_okD [OF r])
  have rest: "json_depth (rec_metadata_changes r) \<le> Suc 991" "json_depth (rec_child_effects r) \<le> Suc 991"
    "json_depth (JArr (rec_projection_intents r)) \<le> Suc 991" "json_depth (identity_json (rec_identity r)) \<le> Suc 991"
    using m i by (simp_all add: r' provisional_record_def run_command_def del: json_depth.simps(2)) simp
  have "json_depth (stored_json r) \<le> Suc (Suc 991)"
    unfolding stored_json_def object_depth using s rest by (simp del: json_depth.simps(1,2))
  then show ?thesis by simp
qed

lemma admission_record_writable:
  assumes laws: "nfc_laws E" and v: "run_create_normal E v" "plain_input v" and ms: "0 \<le> ms" "ms \<le> max_safe_integer"
    and r: "new_record E (run_command v) run_create_writer ms None = Inr r"
  shows "writable E r"
  using stored_json_wf(1) [OF laws v(1) ms r] admission_record_plain [OF v(2) ms r] new_record_fields(9,10) [OF r]
    run_identity_wf [OF v(1)]
  by (simp add: writable_def run_command_def)

lemma admission_record_next:
  assumes laws: "nfc_laws E" and v: "run_create_normal E v" "plain_input v" "json_depth (JObj (rn_payload v)) < 990"
    and ms: "0 \<le> ms" "ms \<le> max_safe_integer" and r: "new_record E (run_command v) run_create_writer ms None = Inr r"
  shows "next_record E (run_identity v) [] r"
  using admission_record_writable [OF laws v(1,2) ms r] admission_record_depth [OF v(3) r] new_record_fields(4,6-9) [OF r]
  by (simp add: next_record_def run_command_def guarded_operations_def is_operation_def)

section \<open>What the record in key order says\<close>

lemma metadata_in_order:
  assumes "run_create_normal E v"
  obtains m where "sort_json (JObj (create_metadata v)) = JObj m" "\<And>k. metadata_get m k = metadata_get (create_metadata v) k"
proof -
  have d: "distinct (map fst (create_metadata v))" by (simp add: create_metadata_def split: option.split)
  obtain m where m: "sort_json (JObj (create_metadata v)) = JObj m" by simp
  have "payload_normal E (JObj (rn_payload v))" using assms by (simp add: run_create_normal_def)
  then have "sort_json (JObj (rn_payload v)) = JObj (rn_payload v)" by (rule sort_json_normal)
  then have sorted: "sort_json j = j" if "j \<in> snd ` set (create_metadata v)" for j
    using that by (auto simp: create_metadata_def simp del: sort_json.simps(2) split: option.splits)
  have "map_of m k = map_option sort_json (map_of (create_metadata v) k)" for k
    using sorted_member [OF d, of k] by (simp add: m del: sort_json.simps(2))
  also have "\<dots> k = map_of (create_metadata v) k" for k
    using sorted by (cases "map_of (create_metadata v) k") (auto dest!: map_of_SomeD, force)
  finally show thesis by (intro that [OF m]) (simp add: metadata_get_def)
qed

lemma input_in_order:
  assumes laws: "nfc_laws E" and v: "run_create_normal E v"
    and r: "new_record E (run_command v) run_create_writer ms corr = Inr r"
  shows "input_from_record E (in_order r) = Inr v" "resource_reservation_from_record E (in_order r) = Inr (admission_of v)"
proof -
  obtain m where m: "sort_json (JObj (create_metadata v)) = JObj m" "\<And>k. metadata_get m k = metadata_get (create_metadata v) k"
    by (rule metadata_in_order [OF v]) blast
  have f: "rec_metadata_changes r = JObj (create_metadata v)" "rec_operation_id r = PStr (rsv_operation_id (admission_of v))"
    by (rule run_create_record_fields [OF r], simp add: admission_of_def)+
  have "rec_metadata_changes (in_order r) = JObj m" using m(1) by (simp add: in_order_def f(1))
  moreover have "raw_of_metadata m = raw_of_metadata (create_metadata v)" by (simp add: raw_of_metadata_def m(2))
  ultimately show i: "input_from_record E (in_order r) = Inr v"
    using input_of_new_record [OF laws v r] by (simp add: input_from_record_def f(1) m(2) cong: if_cong)
  show "resource_reservation_from_record E (in_order r) = Inr (admission_of v)"
    using i admission_made [OF laws v] by (simp add: resource_reservation_from_record_def f(2))
qed

section \<open>What the server gives back\<close>

text \<open>Reading a history depends only on the four hashes of the aggregate.\<close>

lemma load_history_frame:
  assumes ks: "make_keyspace (identity_sha256 i) ns = Inr ks"
    and same: "\<And>k. k \<in> {aggregate_key ks, transition_indexes_key ks, receipts_key ks, operation_records_key ks} \<Longrightarrow> v k = w k"
  shows "load_aggregate_history E ns i (\<lambda>_. Some v) = load_aggregate_history E ns i (\<lambda>_. Some w)"
proof -
  have "redis_type (Some v) k = redis_type (Some w) k \<and> redis_hgetall (Some v) k = redis_hgetall (Some w) k"
    if "k \<in> {aggregate_key ks, transition_indexes_key ks, receipts_key ks, operation_records_key ks}" for k
    using same [OF that] by (simp add: redis_type_def redis_hgetall_def)
  then have reads: "redis_type (Some v) (aggregate_key ks) = redis_type (Some w) (aggregate_key ks)"
    "redis_hgetall (Some v) (aggregate_key ks) = redis_hgetall (Some w) (aggregate_key ks)"
    "redis_type (Some v) (transition_indexes_key ks) = redis_type (Some w) (transition_indexes_key ks)"
    "redis_hgetall (Some v) (transition_indexes_key ks) = redis_hgetall (Some w) (transition_indexes_key ks)"
    "redis_type (Some v) (receipts_key ks) = redis_type (Some w) (receipts_key ks)"
    "redis_hgetall (Some v) (receipts_key ks) = redis_hgetall (Some w) (receipts_key ks)"
    "redis_type (Some v) (operation_records_key ks) = redis_type (Some w) (operation_records_key ks)"
    "redis_hgetall (Some v) (operation_records_key ks) = redis_hgetall (Some w) (operation_records_key ks)"
    by blast+
  have snap: "get_aggregate_snapshot ns i (Some v) (Some v) = get_aggregate_snapshot ns i (Some w) (Some w)"
    unfolding get_aggregate_snapshot_def ks rbind_simps reads by (rule refl)
  have hist: "read_history E ns i snap (\<lambda>_. Some v) = read_history E ns i snap (\<lambda>_. Some w)" for snap
    unfolding read_history_def ks rbind_simps reads by (rule refl)
  show ?thesis unfolding load_aggregate_history_def snap hist by (rule refl)
qed

lemma stored_history_loads:
  assumes laws: "nfc_laws E" "jcs_reads E" "lua_reads L" and w: "writable E r" "rec_identity r = i" "chained None 0 [r]"
    and ks: "make_keyspace (identity_sha256 i) ns = Inr ks"
  shows "load_aggregate_history E ns i (\<lambda>_. Some (srv_view (stored_server E L ks [r])))
    = Inr (Some \<lparr>history_snapshot = snapshot_of E (in_order r), history_operations = [row_of (in_order r)]\<rparr>)"
proof -
  let ?W = "lua_envelope L"
  have W: "cjson_reads ?W" using laws(3) by (simp add: lua_reads_def)
  have "list_all (writable E) [r]" using w(1) by simp
  note o = list_in_order [OF laws(1,2) this]
  have "load_aggregate_history E ns i (\<lambda>_. Some (view_of ks (stored_of E ?W (map in_order [r]))))
      = Inr (Some \<lparr>history_snapshot = snapshot_of E (last (map in_order [r])), history_operations = map row_of (map in_order [r])\<rparr>)"
    by (rule load_stored_history [OF laws(1,2) W o(1)]) (use w o(3) ks in simp_all)
  moreover have "srv_view (stored_server E L ks [r]) k = view_of ks (stored_of E ?W [r]) k"
    if "k \<in> {aggregate_key ks, transition_indexes_key ks, receipts_key ks, operation_records_key ks}" for k
    using that keys_differ(1) [of ks] by (auto simp: stored_server_def server_of_def)
  ultimately show ?thesis
    using load_history_frame [OF ks, of "srv_view (stored_server E L ks [r])" "view_of ks (stored_of E ?W [r])" E] o(2)
    by simp
qed

lemma stored_head_valid:
  assumes laws: "nfc_laws E" "jcs_reads E" "lua_reads L" and w: "writable E r" "chained None 0 [r]" "json_depth (stored_json r) < 1000"
  shows "authority_head_validate (object_fields L) (stored_server E L ks [r]) (take 6 (commit_keys ks)) (head_argv E r) = (''VALID'', [])"
proof -
  have W: "cjson_reads (lua_envelope L)" using laws(3) by (simp add: lua_reads_def)
  show ?thesis
    using head_validate_latest [OF laws(1,2) W object_fields_decode [OF laws(3)], of "[r]" ks] w
    by (simp add: stored_server_def)
qed

lemma empty_server: "server_of ks empty_aggregate empty_streams = stored_server E L ks []"
  by (simp add: stored_server_def stored_of_def streams_of_def head_of_def empty_aggregate_def empty_streams_def)

text \<open>
  C5. A committed admission reads back. The command of any normalised request with ASCII texts, integer
  numbers and a payload less than 990 levels deep is accepted on an aggregate that does not exist; \<open>commit\<close> of its plan answers \<open>COMMITTED\<close> at
  revision 1; and from the server as the Lua script left it the history loads as one record whose input is
  the request and whose reservation is that of the admission, and the head is valid for the witness with
  which the reservation is finalized and the run projected.
\<close>

theorem committed_admission_reads_back:
  assumes laws: "nfc_laws E" "nfc_keeps_strip E" "jcs_total E" "jcs_reads E" "lua_reads L"
    and v: "normalize_run_create_input E raw = Inr v" "plain_input v" "json_depth (JObj (rn_payload v)) < 990"
    and ms: "0 \<le> ms" "ms \<le> max_safe_integer" and ks: "make_keyspace (identity_sha256 (run_identity v)) namespace = Inr ks"
  shows "\<exists>c x plan args h keys witness.
      build_run_create_command E raw = Inr c \<and> build_run_create_context E c = Inr x
    \<and> evaluate_authority_commit E x c (PInt 0) PNone None (PInt ms) PNone
        = Inr \<lparr>eval_decision = accepted_decision, eval_commit_plan = Some plan\<rparr>
    \<and> commit E namespace plan rb ob (\<lambda>_. attempt_on L (server_of ks empty_aggregate empty_streams))
        = Inr \<lparr>cr_status = CS_COMMITTED, cr_transition_id = Some (str_of (rec_transition_id (plan_record plan))),
            cr_aggregate_revision = Some 1, cr_detail = []\<rparr>
    \<and> commit_args E (plan_record plan) (plan_receipt plan) rb ob pv_absent pv_absent [] [] = Inr args
    \<and> authority_head_witness E namespace (plan_record plan) (plan_receipt plan) = Inr (keys, witness)
    \<and> (let srv = fst (commit_script L (commit_keys ks) args (server_of ks empty_aggregate empty_streams)) in
        load_aggregate_history E namespace (cmd_identity c) (\<lambda>_. Some (srv_view srv)) = Inr (Some h)
      \<and> map (\<lambda>x. input_from_record E (hist_record x)) (history_operations h) = [Inr v]
      \<and> map (\<lambda>x. resource_reservation_from_record E (hist_record x)) (history_operations h) = [Inr (admission_of v)]
      \<and> authority_head_validate (object_fields L) srv keys witness = (''VALID'', []))"
proof -
  have n: "run_create_normal E v" by (rule run_create_normal_intro [OF laws(1,2) v(1)])
  have c: "build_run_create_command E raw = Inr (run_command v)" by (rule build_of_normal [OF laws(1) v(1) n])
  obtain r where "new_record E (run_command v) (ctx_writer_id (run_context v)) ms None = Inr r"
    and ev: "evaluate_authority_commit E (run_context v) (run_command v) (PInt 0) PNone None (PInt ms) PNone
      = Inr \<lparr>eval_decision = accepted_decision, eval_commit_plan = Some (plan_of (run_command v) r)\<rparr>"
    using run_create_planned [OF laws(1,3) n ms] by blast
  then have r: "new_record E (run_command v) run_create_writer ms None = Inr r" by (simp add: run_context_def)
  note w = admission_record_writable [OF laws(1) n v(2) ms r] and next_r = admission_record_next [OF laws(1) n v(2,3) ms r]
    and f = new_record_fields [OF r]
  have i: "rec_identity r = run_identity v" "cmd_identity (run_command v) = run_identity v" "rec_to_revision r = PInt 1"
    using f(7,9) by (simp_all add: run_command_def)
  have W: "cjson_reads (lua_envelope L)" using laws(5) by (simp add: lua_reads_def)
  have chain: "chained None 0 [r]" "json_depth (stored_json r) < 1000" using next_r by (simp_all add: next_record_def)
  have H: "history_ok E L (run_identity v) []" using laws by (simp add: history_ok_def)
  have plan: "plan_record (plan_of (run_command v) r) = r" "plan_receipt (plan_of (run_command v) r) = new_receipt r"
    "plan_identity (plan_of (run_command v) r) = rec_identity r" "plan_revision (plan_of (run_command v) r) = rec_to_revision r"
    by (simp_all add: plan_of_def i)
  have small: "int (length ([] :: ctr list)) + 1 < 10 ^ 14" by simp
  obtain e where args: "\<And>rb ob op_pv head_pv. commit_args E r (new_receipt r) rb ob op_pv head_pv [] []
    = Inr (commit_argv_of E r rb ob op_pv head_pv e)" by (rule commit_args_stored [OF laws(1,4,5) w]) blast
  have srv: "fst (commit_script L (commit_keys ks) (commit_argv_of E r rb ob pv_absent pv_absent e) (stored_server E L ks []))
    = stored_server E L ks [r]"
    using script_commits [OF H next_r, of ks rb ob e] by (simp add: head_prevalidation_def)
  have head: "authority_head_witness E namespace r (new_receipt r) = Inr (take 6 (commit_keys ks), head_argv E r)"
    by (rule head_witness_written [OF laws(1,4) W w]) (simp add: i ks)
  show ?thesis
    by (rule exI [of _ "run_command v"], rule exI [of _ "run_context v"], rule exI [of _ "plan_of (run_command v) r"])
      (use c context_of_command [OF laws(1)] ev commit_on_stored [OF H next_r ks plan small, of rb ob]
         stored_history_loads [OF laws(1,4,5) w i(1) chain(1) ks] input_in_order [OF laws(1) n r] stored_head_valid [OF laws(1,4,5) w chain]
       in \<open>simp add: plan args head empty_server [of ks E L] srv i row_of_def tid_of_def Let_def\<close>)
qed

section \<open>The call that projects the run\<close>

lemma checked_ascii:
  assumes "nfc_laws E" and "is_ascii s" and "s \<noteq> []" and "\<not> is_space_char [hd s]" and "\<not> is_space_char [last s]"
  shows "checked_text E s"
  using nfc_ascii [OF assms(1,2)] py_strip_ascii [OF assms(2-5)] by (simp add: checked_text_def)

lemma no_space: "is_lower_hex c \<Longrightarrow> \<not> is_space_char [c]" "is_digit c \<Longrightarrow> \<not> is_space_char [c]"
  by (auto simp: is_lower_hex_def is_digit_def is_space_char_def)

lemma checked_prefixed_sha:
  assumes "nfc_laws E" and "is_ascii p" and "p = [] \<or> \<not> is_space_char [hd p]" and "sha256_re h"
  shows "checked_text E (p @ h)"
proof -
  have h: "h \<noteq> []" "list_all is_lower_hex h" using assms(4) by (auto simp: sha256_re_def)
  then have "is_lower_hex (hd h)" "is_lower_hex (last h)" by (simp_all add: list_all_iff)
  then show ?thesis
    using assms h(1) sha256_re_ascii [OF assms(4)]
    by (intro checked_ascii) (auto simp: no_space(1) hd_append)
qed

lemma checked_number: "nfc_laws E \<Longrightarrow> 0 \<le> n \<Longrightarrow> checked_text E (dec_int n)"
proof -
  assume laws: "nfc_laws E" and "0 \<le> n"
  then have d: "list_all is_digit (dec_int n)" by (auto simp: dec_int_def list_all_iff dest: dec_nat_digits)
  have "is_digit (hd (dec_int n))" "is_digit (last (dec_int n))" using d by (simp_all add: list_all_iff)
  then show ?thesis using checked_ascii [OF laws dec_int_ascii dec_int_nonempty] no_space(2) by blast
qed

lemma checked_empty: "nfc_laws E \<Longrightarrow> checked_text E []"
  using nfc_ascii [of E "[]"] by (simp add: checked_text_def is_ascii_def py_strip_def)

lemma space_literals:
  "\<not> is_space_char ''r''" "\<not> is_space_char ''c''" "\<not> is_space_char ''a''" "\<not> is_space_char ''R''" "\<not> is_space_char ''d''"
  "\<not> is_space_char ''{''" "\<not> is_space_char ''}''" "\<not> is_space_char ''e''" "\<not> is_space_char ''t''" "\<not> is_space_char ''p''"
  "\<not> is_space_char ''y''" "\<not> is_space_char ''n''" "\<not> is_space_char ''s''"
  by (simp_all add: is_space_char_def)

lemma transition_text_checked:
  assumes "nfc_laws E" and "validate_record E r = Inr ()"
  shows "checked_text E (tid_of r)" "tid_of r \<noteq> []"
proof -
  obtain oid where "transition_id (rec_identity_sha256 r) (rec_to_revision r) oid = Inr (tid_of r)"
    using assms(2) by (auto simp: tid_of_def elim!: validate_record_okD)
  then obtain h n where t: "tid_of r = (''ctr:v1:'' @ h @ '':'' @ dec_int n @ '':'') @ component_digest [oid]" "sha256_re h"
    by (auto simp: transition_id_Inr_iff)
  then show "tid_of r \<noteq> []" by simp
  have "is_ascii (''ctr:v1:'' @ h @ '':'' @ dec_int n @ '':'')"
    using sha256_re_ascii [OF t(2)] dec_int_ascii [of n] by (simp add: is_ascii_def)
  then show "checked_text E (tid_of r)"
    unfolding t(1) by (rule checked_prefixed_sha [OF assms(1)]) (simp_all add: space_literals)
qed

text \<open>Every field of the event passes the check of the manager.\<close>

lemma event_texts_checked:
  assumes laws: "nfc_laws E" and v: "run_create_normal E v" "is_ascii (json_dumps repr (JObj (rn_payload v)))"
    and repr: "\<And>x. checked_text E (repr x)"
  shows "list_all (\<lambda>kt. checked_text E (fst kt) \<and> fst kt \<noteq> [] \<and> checked_text E (snd kt)) (admitted_event repr v op)"
proof -
  have names: "checked_text E n" if "n \<in> set (map fst (admitted_event repr v op))" for n
    by (rule checked_ascii [OF laws]) (use that in \<open>auto simp: admitted_event_def is_ascii_def space_literals\<close>)
  have texts: "checked_text E (rn_run_id v)" "checked_text E (rn_tenant_id v)" "checked_text E (rn_agent_type v)"
    "checked_text E (rn_region v)" "checked_text E (rn_placement v)" "0 \<le> rn_priority v" "0 \<le> rn_cost v"
    using v(1) by (simp_all add: run_create_normal_def safe_natural_def)
  have "checked_text E ([] @ event_digest op)" by (rule checked_prefixed_sha [OF laws]) (simp_all add: event_digest_def is_ascii_def)
  then have digest: "checked_text E (event_digest op)" by simp
  have payload: "checked_text E (json_dumps repr (JObj (rn_payload v)))"
    by (rule checked_ascii [OF laws v(2)]) (simp_all add: space_literals)
  have word: "checked_text E ''RunAdmitted''" by (rule checked_ascii [OF laws]) (simp_all add: is_ascii_def space_literals)
  show ?thesis
    using names texts digest payload word checked_empty [OF laws] checked_number [OF laws] repr
    by (simp add: admitted_event_def)
qed

lemma checked_event_same:
  assumes "list_all (\<lambda>kt. checked_text E (fst kt) \<and> fst kt \<noteq> [] \<and> checked_text E (snd kt)) fvs" and "distinct (map fst fvs)"
  shows "checked_event E fvs = Inr fvs"
proof -
  have "rtraverse (\<lambda>kv. rbind (required_text E ''event field name'' False (PStr (fst kv))) (\<lambda>k.
              rbind (required_text E ''event_fields'' True (PStr (snd kv))) (\<lambda>t. Inr (k, t)))) fvs = Inr (map (\<lambda>x. x) fvs)"
    using assms(1) by (induction fvs) auto
  moreover have "fold (\<lambda>kt d. AList.update (fst kt) (snd kt) d) xs ys = ys @ xs" if "distinct (map fst (ys @ xs))" for xs ys :: "(string \<times> string) list"
    using that by (induction xs arbitrary: ys) (simp_all add: update_fresh)
  ultimately show ?thesis using assms(2) by (simp add: checked_event_def)
qed

lemma event_hashed:
  assumes "jcs_total E" and "list_all (\<lambda>kt. checked_text E (fst kt) \<and> fst kt \<noteq> [] \<and> checked_text E (snd kt)) fvs" and "distinct (map fst fvs)"
  shows "\<exists>h. event_hash E fvs = Inr h"
proof -
  let ?j = "JObj (map (\<lambda>kt. (fst kt, JStr (snd kt))) fvs)"
  have "json_wf E ?j" using assms(2,3) by (auto simp: list_all_iff checked_text_def comp_def)
  then obtain b where "canonical_text E (py_of_json ?j) = Inr b" using canonical_text_total [OF assms(1)] by blast
  then show ?thesis by (auto simp: event_hash_def canonical_text_def comp_def)
qed

text \<open>The keys and arguments of the call that publishes the run.\<close>

definition admitted_receipt_key :: "run_create \<Rightarrow> string" where
  "admitted_receipt_key v = ''hfa:run-create:projection:v1:'' @ sha256_hexdigest (rsv_operation_id (admission_of v))"

definition admitted_argv :: "(pyfloat \<Rightarrow> string) \<Rightarrow> run_create \<Rightarrow> ctr \<Rightarrow> string \<Rightarrow> string list \<Rightarrow> string list" where
  "admitted_argv repr v r h own =
     [rsv_operation_id (admission_of v), reservation_proof (admission_of v), tid_of r, str_of (rec_record_hash r),
      str_of (rec_command_hash r), ''1'', rn_run_id v, rn_tenant_id v, ''admitted'', dec_int (rn_state_ttl v), h,
      dec_int stream_maxlen, dec_nat 14, compact_texts own]
     @ concat (map (\<lambda>kt. [fst kt, snd kt]) (admitted_event repr v (rsv_operation_id (admission_of v))))"

lemma projection_call_of_record:
  assumes laws: "nfc_laws E" "jcs_total E" and v: "run_create_normal E v" "is_ascii (json_dumps repr (JObj (rn_payload v)))"
    and r: "new_record E (run_command v) run_create_writer ms None = Inr r" and repr: "\<And>x. checked_text E (repr x)"
  obtains h where "event_hash E (admitted_event repr v (rsv_operation_id (admission_of v))) = Inr h" "projection_call E (projection_of r (admission_of v) v
        (admitted_event repr v (rsv_operation_id (admission_of v))) hk own)
      = Inr ([admitted_receipt_key v, run_state_key (rn_run_id v), rn_control_stream v] @ hk, admitted_argv repr v r h own)"
proof -
  let ?op = "rsv_operation_id (admission_of v)" and ?fvs = "admitted_event repr v (rsv_operation_id (admission_of v))"
  note ev = event_texts_checked [OF laws(1) v repr, where op = ?op]
  have d: "distinct (map fst ?fvs)" by (simp add: admitted_event_def)
  obtain h where h: "event_hash E ?fvs = Inr h" using event_hashed [OF laws(2) ev d] by blast
  have val: "validate_record E r = Inr ()" using r by (rule new_record_okD)
  note f = validated_values [OF laws(1) val] and t = transition_text_checked [OF laws(1) val]
  have op: "rec_operation_id r = PStr ?op" "rec_to_revision r = PInt 1"
    using new_record_fields(2,7) [OF r] by (simp_all add: admission_of_def run_command_def)
  have sha: "checked_text E x \<and> x \<noteq> []" if "sha256_re x" for x
    using checked_prefixed_sha [OF laws(1), of "[]" x] that by (auto simp: is_ascii_def sha256_re_def)
  have sha_ok: "required_sha256 E n (PStr x) = Inr x" if "sha256_re x" for n x
    using that sha by (simp add: required_sha256_def)
  have hashes: "required_sha256 E n (rec_record_hash r) = Inr (str_of (rec_record_hash r))"
    "required_sha256 E n (rec_command_hash r) = Inr (str_of (rec_command_hash r))" for n
    by (subst f(16), rule sha_ok [OF f(17)], subst f(14), rule sha_ok [OF f(15)])
  have "checked_text E ?op"
    using checked_prefixed_sha [OF laws(1) ascii_words(4) _ identity_sha256_re [of "run_identity v"]]
    by (simp add: admission_of_def space_literals)
  moreover have "?op \<noteq> []" by (simp add: admission_of_def)
  moreover have "sha256_re (reservation_proof (admission_of v))" by (simp add: reservation_proof_def)
  moreover have "checked_text E ''admitted''" by (rule checked_ascii [OF laws(1) ascii_words(1)]) (simp_all add: space_literals)
  moreover have "run_create_operation_id E (PStr (rn_run_id v)) = Inr ?op"
    using run_create_identity_normal [OF v(1)] by (simp add: run_create_operation_id_def admission_of_def)
  moreover have "rn_tenant_id v \<noteq> []" "rn_run_id v \<noteq> []" "rn_control_stream v \<noteq> []" "checked_text E (rn_run_id v)"
    "checked_text E (rn_tenant_id v)" "checked_text E (rn_control_stream v)" "1 \<le> rn_state_ttl v" "rn_state_ttl v \<le> max_safe_integer"
    using v(1) by (simp_all add: run_create_normal_def safe_natural_def)
  moreover have "map_of ?fvs ''event_type'' = Some ''RunAdmitted''" "map_of ?fvs ''run_id'' = Some (rn_run_id v)"
    "map_of ?fvs ''tenant_id'' = Some (rn_tenant_id v)" "length ?fvs = 14"
    by (simp_all add: admitted_event_def)
  moreover have "rec_transition_id r = PStr (tid_of r)" by (rule f)
  ultimately have "projection_call E (projection_of r (admission_of v) v ?fvs hk own)
      = Inr ([admitted_receipt_key v, run_state_key (rn_run_id v), rn_control_stream v] @ hk, admitted_argv repr v r h own)"
    using t checked_event_same [OF ev d] h
    by (simp add: projection_call_def projection_of_def op rejected_def sha_ok hashes projection_receipt_key_def
        max_safe_integer_def one_text admitted_receipt_key_def admitted_argv_def)
  with h show thesis by (rule that)
qed

lemma field_pairs_concat: "field_pairs (concat (map (\<lambda>kt. [fst kt, snd kt]) fvs)) = fvs"
  by (induction fvs) simp_all

lemma admitted_argv_parts:
  "argument (admitted_argv repr v r h own) 1 = rsv_operation_id (admission_of v)"
  "argument (admitted_argv repr v r h own) 3 = tid_of r" "argument (admitted_argv repr v r h own) 4 = str_of (rec_record_hash r)"
  "argument (admitted_argv repr v r h own) 5 = str_of (rec_command_hash r)" "argument (admitted_argv repr v r h own) 6 = ''1''"
  "argument (admitted_argv repr v r h own) 7 = rn_run_id v" "argument (admitted_argv repr v r h own) 9 = ''admitted''"
  "argument (admitted_argv repr v r h own) 10 = dec_int (rn_state_ttl v)" "argument (admitted_argv repr v r h own) 12 = dec_int stream_maxlen"
  "argument (admitted_argv repr v r h own) 13 = dec_nat 14" "argument (admitted_argv repr v r h own) 14 = compact_texts own"
  "drop 14 (admitted_argv repr v r h own) = concat (map (\<lambda>kt. [fst kt, snd kt]) (admitted_event repr v (rsv_operation_id (admission_of v))))"
  "length (admitted_argv repr v r h own) = 42"
  by (simp_all add: admitted_argv_def argument_def del: dec_nat.simps) (simp add: admitted_event_def)

lemma admitted_numbers:
  assumes "run_create_normal E v"
  shows "projection_numbers (admitted_argv repr v r h own) = Inr (rn_state_ttl v, stream_maxlen, 14)"
proof -
  have "1 \<le> rn_state_ttl v" using assms by (simp add: run_create_normal_def safe_natural_def)
  moreover have "lua_tonumber (dec_nat 14) = Some 14" using parse_dec_dec_int [of 14] by (simp add: lua_tonumber_def dec_int_def del: dec_nat.simps)
  ultimately show ?thesis by (simp add: projection_numbers_def Let_def admitted_argv_parts lua_tonumber_def stream_maxlen_def)
qed

text \<open>The script publishes the call of a manager whose witness the authority keys confirm.\<close>

lemma admitted_call_published:
  assumes L: "lua_reads L" and n: "run_create_normal E v" and r: "new_record E (run_command v) run_create_writer ms None = Inr r"
    and own: "list_all is_ascii (head_argv E r)" and hk: "length hk = 6"
    and head: "authority_head_validate (object_fields L) (base_server s) hk (head_argv E r) = (''VALID'', [])"
    and fresh: "type_name s (admitted_receipt_key v) = ''none''" "type_name s (run_state_key (rn_run_id v)) = ''none''"
      "type_name s (rn_control_stream v) \<in> {''none'', ''stream''}"
      "\<forall>entry \<in> set (srv_streams s (rn_control_stream v)). \<not> is_admission_of (rn_run_id v) entry"
  shows "projection_script R L ([admitted_receipt_key v, run_state_key (rn_run_id v), rn_control_stream v] @ hk)
      (admitted_argv repr v r h (head_argv E r)) s
    = (project_effects R ([admitted_receipt_key v, run_state_key (rn_run_id v), rn_control_stream v] @ hk)
        (admitted_argv repr v r h (head_argv E r)) (rn_state_ttl v) stream_maxlen s,
       Inr (''run_admitted'', new_entry_id R s (rn_control_stream v), []))"
proof -
  let ?own = "head_argv E r"
  let ?keys = "[admitted_receipt_key v, run_state_key (rn_run_id v), rn_control_stream v] @ hk" and ?argv = "admitted_argv repr v r h ?own"
  note f = new_record_fields [OF r]
  have "projection_witness L ?keys ?argv = Inr ?own"
    using compact_reads [OF L own] hk
    by (simp add: projection_witness_def admitted_argv_parts table_texts_def text_of_def comp_def list_all_iff)
      (simp add: head_argv_def)
  moreover have "projection_numbers ?argv = Inr (rn_state_ttl v, stream_maxlen, 14)" by (rule admitted_numbers [OF n])
  moreover have "projection_proof_ok ?argv ?own"
    using f(2,5,7) by (simp add: projection_proof_ok_def admitted_argv_parts admitted_argv_parts(1) [unfolded One_nat_def] head_argv_def admission_of_def run_command_def one_text)
  ultimately show ?thesis
    using head fresh n by (auto simp: projection_script_def project_first_def admitted_argv_parts safe_expire run_create_normal_def safe_natural_def)
qed

text \<open>
  C7. A committed admission is projected. On any server whose six authority keys still hold what the commit
  wrote, with no projection of the run and no event of it in its control stream, the manager builds its
  call from the record and the witness of the head, and the script answers \<open>run_admitted\<close>: it appends
  the admission event to the control stream, sets the state of the run to \<open>admitted\<close>, and leaves the
  authority keys as they were.
\<close>

theorem committed_admission_projects:
  assumes laws: "nfc_laws E" "nfc_keeps_strip E" "jcs_total E" "jcs_reads E" "lua_reads L" and repr: "\<And>x. checked_text E (repr x)"
    and v: "normalize_run_create_input E raw = Inr v" "plain_input v" "json_depth (JObj (rn_payload v)) < 990"
    and ms: "0 \<le> ms" "ms \<le> max_safe_integer" and ks: "make_keyspace (identity_sha256 (run_identity v)) namespace = Inr ks"
    and r: "new_record E (run_command v) run_create_writer ms None = Inr r"
    and kept: "\<And>k. k \<in> set (take 6 (commit_keys ks)) \<Longrightarrow>
      srv_view s k = srv_view (stored_server E L ks [r]) k \<and> srv_streams s k = srv_streams (stored_server E L ks [r]) k"
    and fresh: "type_name s (admitted_receipt_key v) = ''none''" "type_name s (run_state_key (rn_run_id v)) = ''none''"
      "type_name s (rn_control_stream v) \<in> {''none'', ''stream''}"
      "\<forall>entry \<in> set (srv_streams s (rn_control_stream v)). \<not> is_admission_of (rn_run_id v) entry"
    and apart: "distinct ([admitted_receipt_key v, run_state_key (rn_run_id v), rn_control_stream v] @ take 6 (commit_keys ks))"
  shows "\<exists>hk own keys argv s'. authority_head_witness E namespace r (new_receipt r) = Inr (hk, own)
    \<and> projection_call E (projection_of r (admission_of v) v (admitted_event repr v (rsv_operation_id (admission_of v))) hk own)
        = Inr (keys, argv)
    \<and> projection_script R L keys argv s = (s', Inr (''run_admitted'', new_entry_id R s (rn_control_stream v), []))
    \<and> srv_streams s' (rn_control_stream v) = trimmed R stream_maxlen
        (srv_streams s (rn_control_stream v) @ [admitted_event repr v (rsv_operation_id (admission_of v))])
    \<and> srv_text s' (run_state_key (rn_run_id v)) = ''admitted'' \<and> srv_ttl s' (run_state_key (rn_run_id v)) = rn_state_ttl v
    \<and> (\<forall>k \<in> set (take 6 (commit_keys ks)). srv_view s' k = srv_view s k \<and> srv_streams s' k = srv_streams s k)"
proof -
  have n: "run_create_normal E v" by (rule run_create_normal_intro [OF laws(1,2) v(1)])
  have W: "cjson_reads (lua_envelope L)" using laws(5) by (simp add: lua_reads_def)
  note w = admission_record_writable [OF laws(1) n v(2) ms r] and next_r = admission_record_next [OF laws(1) n v(2,3) ms r]
    and f = new_record_fields [OF r]
  have chain: "chained None 0 [r]" "json_depth (stored_json r) < 1000" using next_r by (simp_all add: next_record_def)
  let ?hk = "take 6 (commit_keys ks)" and ?own = "head_argv E r" and ?st = "rn_control_stream v"
  have head: "authority_head_witness E namespace r (new_receipt r) = Inr (?hk, ?own)"
    by (rule head_witness_written [OF laws(1,4) W w]) (use f(9) ks in \<open>simp add: run_command_def\<close>)
  obtain h where call: "projection_call E (projection_of r (admission_of v) v (admitted_event repr v (rsv_operation_id (admission_of v))) ?hk ?own)
      = Inr ([admitted_receipt_key v, run_state_key (rn_run_id v), ?st] @ ?hk, admitted_argv repr v r h ?own)"
    by (rule projection_call_of_record [OF laws(1,3) n json_dumps_ascii [OF plain_input_parts(4) [OF v(2)]] r repr])
  let ?keys = "[admitted_receipt_key v, run_state_key (rn_run_id v), ?st] @ ?hk" and ?argv = "admitted_argv repr v r h ?own"
  have len: "length ?hk = 6" by (simp add: commit_keys_at)
  have "authority_head_validate (object_fields L) (base_server s) ?hk ?own = (''VALID'', [])"
    using head_validate_frame [OF len, of "base_server s" "stored_server E L ks [r]"] kept stored_head_valid [OF laws(1,4,5) w chain]
    by (simp add: base_server_def server.defs)
  note run = admitted_call_published [OF laws(5) n r head_argv_ascii [OF laws(1,4) W w] len this fresh, of R repr h]
  have keys: "keys_apart ?keys" using apart by (simp add: keys_apart_def)
  note effects = written_view [OF keys, of R ?argv "rn_state_ttl v" stream_maxlen s]
  show ?thesis
    using head call run effects(2) [of ?st] effects(3) [of "run_state_key (rn_run_id v)"] effects(4) effects(1,2) apart
    by (intro exI [of _ ?hk] exI [of _ ?own] exI [of _ ?keys] exI [of _ ?argv]
        exI [of _ "project_effects R ?keys ?argv (rn_state_ttl v) stream_maxlen s"])
      (auto simp: admitted_argv_parts field_pairs_concat)
qed

section \<open>The call that finalizes the reservation\<close>

text \<open>A witness as the manager prints it, with a blank after each comma, reads back.\<close>

lemma parse_spaced_texts:
  assumes "list_all is_ascii (w # vs)"
    and "2 * length (json_string w @ concat (map (\<lambda>v. '', '' @ json_string v) vs)) + 3 < n"
  shows "parse_elements n xs (json_string w @ concat (map (\<lambda>v. '', '' @ json_string v) vs) @ CHR 0x5D # rest)
    = Inr (PSeq (xs @ map PStr (w # vs)), rest)"
  using assms
proof (induction vs arbitrary: n xs w)
  case Nil
  then obtain m where n: "n = Suc m" by (cases n) auto
  have "reads_back (\<lambda>_. []) (JStr w)" by (rule parse_value_dumps) (use Nil.prems(1) in simp)
  from reads_backD [OF this, of m "CHR 0x5D # rest"] have "parse_value m (json_string w @ CHR 0x5D # rest) = Inr (PStr w, CHR 0x5D # rest)"
    using Nil.prems(2) by (simp add: n json_delimited_def)
  then show ?case by (simp add: n skip_ws_delimiter)
next
  case (Cons v vs)
  then obtain m where n: "n = Suc m" by (cases n) auto
  let ?tail = "json_string v @ concat (map (\<lambda>v. '', '' @ json_string v) vs) @ CHR 0x5D # rest"
  have txt_eq: "json_string w @ concat (map (\<lambda>v. '', '' @ json_string v) (v # vs)) @ CHR 0x5D # rest
      = json_string w @ CHR '','' # CHR '' '' # ?tail" by simp
  have "reads_back (\<lambda>_. []) (JStr w)" by (rule parse_value_dumps) (use Cons.prems(1) in simp)
  from reads_backD [OF this, of m "CHR '','' # CHR '' '' # ?tail"]
  have fst_ok: "parse_value m (json_string w @ CHR '','' # CHR '' '' # ?tail) = Inr (PStr w, CHR '','' # CHR '' '' # ?tail)"
    using Cons.prems(2) by (simp add: n json_delimited_def)
  have skip: "skip_ws (CHR '' '' # ?tail) = ?tail" by (simp add: skip_ws_def json_string_def)
  have "parse_elements m (xs @ [PStr w]) ?tail = Inr (PSeq ((xs @ [PStr w]) @ map PStr (v # vs)), rest)"
    using Cons.prems by (intro Cons.IH) (auto simp: n)
  with fst_ok skip show ?case by (simp only: txt_eq n parse_elements.simps) (simp add: skip_ws_delimiter)
qed

lemma witness_json_loads:
  assumes "list_all is_ascii ws"
  shows "json_loads (witness_json ws) = Inr (PSeq (map PStr ws))"
proof -
  let ?t = "tl (witness_json ws)"
  have split: "witness_json ws = CHR 0x5B # ?t" by (simp add: witness_json_def)
  define m where "m = 2 * length (witness_json ws)"
  have "parse_value (Suc m) (CHR 0x5B # ?t) = Inr (PSeq (map PStr ws), [])"
  proof (cases ws)
    case Nil
    then show ?thesis by (simp add: witness_json_def skip_ws_delimiter)
  next
    case (Cons w vs)
    have t: "?t = json_string w @ concat (map (\<lambda>v. '', '' @ json_string v) vs) @ [CHR 0x5D]" by (simp add: witness_json_def Cons)
    have skip: "skip_ws ?t = ?t" "?t \<noteq> []" "hd ?t \<noteq> CHR 0x5D" by (simp_all add: t json_string_def skip_ws_delimiter)
    have "parse_elements m [] ?t = Inr (PSeq ([] @ map PStr (w # vs)), [])"
      unfolding t using assms by (intro parse_spaced_texts) (simp_all add: m_def Cons witness_json_def)
    with skip show ?thesis by (simp add: Let_def Cons)
  qed
  moreover have "skip_ws (witness_json ws) = witness_json ws" by (subst (1 2) split) (simp add: skip_ws_def)
  moreover have "(of_char CHR 0x5B :: nat) \<noteq> of_char (char_of (239 :: nat) :: char)" by simp
  then have "CHR 0x5B \<noteq> char_of (239 :: nat)" by metis
  then have "take 3 (witness_json ws) \<noteq> map char_of [239, 187, 191 :: nat]" by (subst split) simp
  ultimately show ?thesis unfolding json_loads_def m_def split [symmetric] by (simp add: skip_ws_def)
qed

lemma witness_decodes:
  assumes L: "lua_reads L" and ws: "list_all is_ascii ws" "length ws = 14"
  shows "witness_of L (witness_json ws) = Some ws"
proof -
  let ?j = "JArr (map JStr ws)"
  have plain: "json_plain ?j" using ws by (simp add: list_all_iff)
  have "fold max (map json_depth (map JStr xs)) a = a" for a :: nat and xs by (induction xs) simp_all
  then have depth: "json_depth ?j < 1000" by simp
  have sort: "sort_json ?j = ?j" by (simp add: comp_def)
  have decodes: "json_plain j \<Longrightarrow> json_depth j < 1000 \<Longrightarrow> json_loads b = Inr (py_of_json (sort_json j)) \<Longrightarrow> lb_decode L b = Some (sort_json j)" for b j
    using L unfolding lua_reads_def by blast
  have "lb_decode L (witness_json ws) = Some (sort_json ?j)"
    by (rule decodes [OF plain depth]) (use witness_json_loads [OF ws(1)] in \<open>simp add: comp_def\<close>)
  then show ?thesis using ws(2)
    unfolding sort by (simp add: witness_of_def decode_texts_def decode_table_def table_texts_def text_of_def comp_def list_all_iff)
qed

lemma admission_created_pending:
  assumes laws: "nfc_laws E" and n: "run_create_normal E v" and w: "writable E r"
    and r: "new_record E (run_command v) run_create_writer ms None = Inr r"
  shows "created_pending (sort_json (stored_json r)) (rsv_run_id (admission_of v)) (rsv_tenant_id (admission_of v)) (rsv_cost (admission_of v))"
proof -
  note m = stored_members [OF laws w] and f = new_record_fields [OF r]
  have d: "distinct (map fst (create_metadata v))" by (simp add: create_metadata_def split: option.split)
  have id: "rec_identity r = run_identity v" using f(9) by (simp add: run_command_def)
  have meta: "rec_metadata_changes r = JObj (create_metadata v)" by (rule run_create_record_fields [OF r])
  have "lua_field (sort_json (stored_json r)) ''authoritative_metadata_changes'' = Some (sort_json (JObj (create_metadata v)))"
    unfolding record_members [OF w] by (simp add: stored_json_def meta)
  moreover have "lua_field (sort_json (JObj (create_metadata v))) k = map_option sort_json (map_of (create_metadata v) k)" for k
    by (rule sorted_member [OF d])
  moreover have "is_table (sort_json (JObj (create_metadata v)))" "is_table (sort_json (identity_json (run_identity v)))"
    by (simp_all add: identity_json_def)
  ultimately show ?thesis
    using identity_members(1-3) [of "run_identity v"] f(4,5,7,8)
    by (simp add: created_pending_def run_identity_is_def m id admission_of_def run_command_def opt_str_def del: sort_json.simps(2))
      (simp add: run_identity_def opt_json_def create_metadata_def)
qed

lemma authority_keys_text:
  assumes "make_keyspace sha ''hfa:authority:v1'' = Inr ks"
  shows "take 6 (commit_keys ks) = map (\<lambda>x. ''hfa:authority:v1:{'' @ sha @ ''}:'' @ x) authority_suffixes"
  using make_keyspaceD [OF assms] by (simp add: commit_keys_def key_defs member_key_def hash_tag_def authority_suffixes_def)

lemma admission_finalize_proof:
  assumes laws: "nfc_laws E" "jcs_reads E" "lua_reads L" and n: "run_create_normal E v" and w: "writable E r"
    and r: "new_record E (run_command v) run_create_writer ms None = Inr r" and depth: "json_depth (stored_json r) < 1000"
    and ks: "make_keyspace (identity_sha256 (run_identity v)) ''hfa:authority:v1'' = Inr ks"
    and kept: "\<And>k. k \<in> set (take 6 (commit_keys ks)) \<Longrightarrow>
      srv_view s k = srv_view (stored_server E L ks [r]) k \<and> srv_streams s k = srv_streams (stored_server E L ks [r]) k"
  shows "finalize_proof_ok L s (resource_keys (rsv_operation_id (admission_of v)) (rsv_tenant_id (admission_of v)) @ take 6 (commit_keys ks))
      (reservation_argv ''finalize'' (admission_of v) now c b i ttl (head_argv E r)) (rsv_cost (admission_of v))"
proof -
  let ?hk = "take 6 (commit_keys ks)" and ?own = "head_argv E r" and ?q = "admission_of v"
  let ?argv = "reservation_argv ''finalize'' ?q now c b i ttl ?own" and ?keys = "resource_keys (rsv_operation_id ?q) (rsv_tenant_id ?q) @ take 6 (commit_keys ks)"
  have W: "cjson_reads (lua_envelope L)" using laws(3) by (simp add: lua_reads_def)
  note f = new_record_fields [OF r]
  have chain: "chained None 0 [r]" using f(4,6,7) by (simp add: run_command_def)
  have len: "length ?hk = 6" by (simp add: commit_keys_at)
  have own: "?own ! 0 = identity_sha256 (run_identity v)" "?own ! 1 = rsv_operation_id ?q" "?own ! 4 = ''1''" "?own ! 7 = record_text E r"
    "?own ! 10 = ''pending''" "?own ! 11 = ''0''" "length ?own = 14"
    using f(1,2,5,7) by (simp_all add: head_argv_def admission_of_def run_command_def one_text opt_str_def)
  have op: "rsv_operation_id ?q = ''run-create:v1:'' @ identity_sha256 (run_identity v)" by (simp add: admission_of_def)
  have wit: "witness_of L (argument ?argv 13) = Some ?own"
    using witness_decodes [OF laws(3) head_argv_ascii [OF laws(1,2) W w] own(7)] by (simp add: reservation_argv_def argument_def)
  have dec: "decode_table L (record_text E r) = Some (sort_json (stored_json r))"
    by (rule stored_texts_decode(1) [OF laws w depth])
  have head: "authority_head_validate (object_fields L) (base_server s) ?hk ?own = (''VALID'', [])"
    using head_validate_frame [OF len, of "base_server s" "stored_server E L ks [r]"] kept stored_head_valid [OF laws w chain depth]
    by (simp add: base_server_def server.defs)
  have bound: "keys_bound ?keys (?own ! 0) (rsv_tenant_id ?q)"
    unfolding keys_bound_def own(1) resource_keys_rest authority_keys_text [OF ks] by (simp add: resource_keys_def)
  have valid: "head_valid L s ?keys ?own" using head len unfolding head_valid_def resource_keys_rest by simp
  have lens: "length ?keys = 10" "length ?argv = 13" unfolding resource_keys_rest by (simp_all add: commit_keys_at reservation_argv_def)
  have args: "argument ?argv 2 = rsv_operation_id ?q" "argument ?argv 3 = rsv_run_id ?q" "argument ?argv 4 = rsv_tenant_id ?q"
    by (simp_all add: reservation_argv_def argument_def)
  show ?thesis
    unfolding finalize_proof_ok_def wit option.case own dec args
    using lens bound valid admission_created_pending [OF laws(1) n w r] by (simp only: own op simp_thms)
qed

text \<open>
  C6. A committed admission is finalized. In every reachable state of the reservations in which that of the
  run is still RESERVED and the authority keys hold what the commit wrote, over a network that serves its
  calls, finalizing with the witness of the head answers \<open>finalized\<close>, makes the receipt FINALIZED, and
  leaves the authority keys as they were.
\<close>

theorem committed_admission_finalizes:
  assumes laws: "nfc_laws E" "nfc_keeps_strip E" "jcs_reads E" "lua_reads L"
    and v: "normalize_run_create_input E raw = Inr v" "plain_input v" "json_depth (JObj (rn_payload v)) < 990"
    and ms: "0 \<le> ms" "ms \<le> max_safe_integer"
    and ks: "make_keyspace (identity_sha256 (run_identity v)) ''hfa:authority:v1'' = Inr ks"
    and r: "new_record E (run_command v) run_create_writer ms None = Inr r"
    and reach: "no_reservations S" "(managed_step E L)\<^sup>*\<^sup>* S (M, h)" and ready: "manager_ready M"
    and held: "get_receipt E (host_data h) (admission_of v) = Inr (Some rc)" "rc_state rc = ''RESERVED''"
    and kept: "\<And>k. k \<in> set (take 6 (commit_keys ks)) \<Longrightarrow> srv_view (host_data h) k = srv_view (stored_server E L ks [r]) k
      \<and> srv_streams (host_data h) k = srv_streams (stored_server E L ks [r]) k"
    and now: "now_ms_of clock now = Inr t"
  shows "\<exists>hk own M' h' res. authority_head_witness E ''hfa:authority:v1'' r (new_receipt r) = Inr (hk, own)
    \<and> finalize_once E L served_net clock (admission_of v) now hk own (M, h) = ((M', h'), Inr res)
    \<and> rr_status res = ''finalized'' \<and> rr_state res = ''FINALIZED''
    \<and> receipt_state (host_data h') (reservation_receipt_key (rsv_operation_id (admission_of v))) = ''FINALIZED''
    \<and> (\<forall>k \<in> set (take 6 (commit_keys ks)). srv_view (host_data h') k = srv_view (host_data h) k
        \<and> srv_streams (host_data h') k = srv_streams (host_data h) k)"
proof -
  let ?q = "admission_of v" and ?hk = "take 6 (commit_keys ks)" and ?own = "head_argv E r" and ?s = "host_data h"
  let ?k = "reservation_receipt_key (rsv_operation_id ?q)" and ?t = "rsv_tenant_id ?q"
  let ?keys = "resource_keys (rsv_operation_id ?q) ?t @ ?hk"
  let ?argv = "reservation_argv ''finalize'' ?q t (-1) (-1) (-1) (mg_released_ttl M) ?own"
  have n: "run_create_normal E v" by (rule run_create_normal_intro [OF laws(1,2) v(1)])
  have W: "cjson_reads (lua_envelope L)" using laws(4) by (simp add: lua_reads_def)
  note w = admission_record_writable [OF laws(1) n v(2) ms r] and depth = admission_record_depth [OF v(3) r]
  have head: "authority_head_witness E ''hfa:authority:v1'' r (new_receipt r) = Inr (?hk, ?own)"
    by (rule head_witness_written [OF laws(1,3) W w]) (use new_record_fields(9) [OF r] ks in \<open>simp add: run_command_def\<close>)
  have wf: "reservation_wf E ?q" by (rule make_reservation_wf [OF admission_made [OF laws(1) n]])
  have ok: "accounted ?s" using accounts.reachable_inv [OF reach] by (simp add: managed_accounts_def)
  have t: "0 \<le> t" "t \<le> max_safe_integer" using now by (auto simp: now_ms_of_def safe_integer_Inr)
  have proof_ok: "finalize_proof_ok L ?s ?keys ?argv (rsv_cost ?q)"
    by (rule admission_finalize_proof [OF laws(1,3,4) n w r depth ks kept])
  define s' where "s' = set_ttl ?k (-1) (put_receipt ?k [(''state'', ''FINALIZED''), (''finalized_at_ms'', argument ?argv 8)] ?s)"
  have run: "reservation_script L ?keys ?argv ?s = (s', Inr (''finalized'', ''FINALIZED'', ''0''))"
    using held_receipt_call [OF ok ready wf held t, where act = "''finalize''" and hk = ?hk and w = ?own] proof_ok
    by (simp add: reservation_script_def existing_receipt_def finalize_receipt_def s'_def known_states_def
        reservation_argv_nth reservation_argv_nth(1) [unfolded One_nat_def])
  obtain M1 h1 M2 h2 where served: "initialise_manager Served (M, h) = ((M1, h1), Inr ())" "mg_released_ttl M1 = mg_released_ttl M"
    "call_script L served_net ?keys ?argv (M1, h1) = ((M2, h2), Inr (''finalized'', ''FINALIZED'', ''0''))" "host_data h2 = s'"
    using ready run by (rule served_script_call)
  have fin: "finalize_once E L served_net clock ?q now ?hk ?own (M, h)
      = ((M2, h2), Inr (parse_reply (rsv_operation_id ?q) (reservation_proof ?q) (''finalized'', ''FINALIZED'', ''0'')))"
    using served(1-3) now checked_resource_keys_of [OF wf]
    by (simp add: finalize_once_def execute_def pure_step_def sbind_def served_net_def optional_limit_def)
  have st: "receipt_state s' ?k = ''FINALIZED''" by (simp add: s'_def receipt_state_def receipt_value_hset)
  have "?k \<notin> set ?hk" unfolding authority_keys_text [OF ks] by (auto simp: reservation_receipt_key_def authority_suffixes_def)
  then have "srv_view s' k = srv_view ?s k \<and> srv_streams s' k = srv_streams ?s k" if "k \<in> set ?hk" for k
    using that by (auto simp: s'_def set_ttl_def put_receipt_def)
  with head fin st served(4) show ?thesis by (auto simp: parse_reply_def)
qed

section \<open>Witnesses\<close>

lemma demo_shallow: "json_depth (JObj (rn_payload demo_input)) < 990"
  by (simp add: demo_input_def)

lemma demo_input_identity: "run_identity demo_input = demo_run"
  by (simp add: run_identity_def demo_input_def demo_run_def)

lemma demo_admission_keys: "make_keyspace (identity_sha256 (run_identity demo_input)) ''hfa:authority:v1'' = Inr demo_run_keys"
  unfolding demo_input_identity by (rule demo_run_keyspace)

lemma seven: "(0::int) \<le> 7" "(7::int) \<le> max_safe_integer"
  by (simp_all add: max_safe_integer_def)

lemma demo_admission_record:
  obtains r where "new_record json_externals (run_command demo_input) run_create_writer 7 None = Inr r"
  using run_create_planned [OF json_externals_laws(1,2) demo_normal seven] by (auto simp: run_context_def)

theorem committed_admission_reads_back_witness:
  "\<exists>plan args. commit json_externals ''hfa:authority:v1'' plan False False (\<lambda>_. attempt_on json_lua (server_of demo_run_keys empty_aggregate empty_streams))
      = Inr \<lparr>cr_status = CS_COMMITTED, cr_transition_id = Some (str_of (rec_transition_id (plan_record plan))),
          cr_aggregate_revision = Some 1, cr_detail = []\<rparr>
    \<and> (\<exists>h. load_aggregate_history json_externals ''hfa:authority:v1'' demo_run
          (\<lambda>_. Some (srv_view (fst (commit_script json_lua (commit_keys demo_run_keys) args (server_of demo_run_keys empty_aggregate empty_streams)))))
          = Inr (Some h)
        \<and> map (\<lambda>x. input_from_record json_externals (hist_record x)) (history_operations h) = [Inr demo_input])"
proof -
  from committed_admission_reads_back [OF json_externals_laws(1) json_externals_strip json_externals_laws(2,3) json_lua_reads
      demo_normalised demo_plain demo_shallow seven demo_admission_keys, of False False]
  obtain c plan args h where 1: "build_run_create_command json_externals demo_request = Inr c"
    "commit json_externals ''hfa:authority:v1'' plan False False (\<lambda>_. attempt_on json_lua (server_of demo_run_keys empty_aggregate empty_streams))
      = Inr \<lparr>cr_status = CS_COMMITTED, cr_transition_id = Some (str_of (rec_transition_id (plan_record plan))),
          cr_aggregate_revision = Some 1, cr_detail = []\<rparr>"
    "load_aggregate_history json_externals ''hfa:authority:v1'' (cmd_identity c)
          (\<lambda>_. Some (srv_view (fst (commit_script json_lua (commit_keys demo_run_keys) args (server_of demo_run_keys empty_aggregate empty_streams)))))
          = Inr (Some h)"
    "map (\<lambda>x. input_from_record json_externals (hist_record x)) (history_operations h) = [Inr demo_input]"
    unfolding Let_def by (elim exE conjE) (rule that, assumption+)
  have "c = run_command demo_input" using 1(1) build_of_normal [OF json_externals_laws(1) demo_normalised demo_normal] by simp
  then have "cmd_identity c = demo_run" by (simp add: run_command_def demo_input_identity)
  with 1 show ?thesis by (metis (no_types, lifting))
qed

lemma demo_six: "k \<in> set (take 6 (commit_keys demo_run_keys)) \<Longrightarrow> take 14 k = ''hfa:authority:''"
  by (rule demo_own_keys) (rule in_set_takeD)

lemma demo_receipt_key: "take 14 (admitted_receipt_key demo_input) = ''hfa:run-create''"
  by (simp add: admitted_receipt_key_def)

theorem committed_admission_projects_witness:
  "\<exists>r keys argv s'. new_record json_externals (run_command demo_input) run_create_writer 7 None = Inr r
    \<and> projection_script demo_rules json_lua keys argv (demo_projection_server r) = (s', Inr (''run_admitted'', ''1-0'', []))
    \<and> srv_text s' (run_state_key ''run-1'') = ''admitted''"
proof -
  obtain r where r: "new_record json_externals (run_command demo_input) run_create_writer 7 None = Inr r" by (rule demo_admission_record)
  let ?s = "demo_projection_server r" and ?rk = "admitted_receipt_key demo_input" and ?st = "run_state_key (rn_run_id demo_input)"
  have none: "type_name ?s k = ''none''" "srv_streams ?s k = []" if "take 14 k \<noteq> ''hfa:authority:''" for k
    using that
    by (simp_all add: type_name_cases demo_projection_server_def stored_server_def server_of_def server.defs foreign_view)
  have names: "rn_control_stream demo_input = ''hfa:control''" "rn_run_id demo_input = ''run-1''" by (simp_all add: demo_input_def)
  have far: "take 14 ?rk \<noteq> ''hfa:authority:''" "take 14 ?st \<noteq> ''hfa:authority:''" "take 14 (rn_control_stream demo_input) \<noteq> ''hfa:authority:''"
    by (simp_all add: demo_receipt_key names run_state_key_def)
  then have out: "x \<notin> set (take 6 (commit_keys demo_run_keys))" if "x \<in> {?rk, ?st, rn_control_stream demo_input}" for x
    using demo_six [of x] that by auto
  have "distinct [?rk, ?st, rn_control_stream demo_input]"
    using demo_receipt_key by (auto simp: names run_state_key_def)
  moreover have "distinct (take 6 (commit_keys demo_run_keys))" by (rule distinct_take [OF demo_run_distinct])
  ultimately have apart: "distinct ([?rk, ?st, rn_control_stream demo_input] @ take 6 (commit_keys demo_run_keys))"
    using out by auto
  have kept: "srv_view ?s k = srv_view (stored_server json_externals json_lua demo_run_keys [r]) k
      \<and> srv_streams ?s k = srv_streams (stored_server json_externals json_lua demo_run_keys [r]) k" for k
    by (simp add: demo_projection_server_def server.defs)
  have repr: "checked_text json_externals ''0.5''" by (simp add: checked_text_def py_strip_def is_space_char_def is_continuation_def)
  have quiet: "type_name ?s (rn_control_stream demo_input) \<in> {''none'', ''stream''}"
    "\<forall>entry \<in> set (srv_streams ?s (rn_control_stream demo_input)). \<not> is_admission_of (rn_run_id demo_input) entry"
    using none [OF far(3)] by simp_all
  from committed_admission_projects [OF json_externals_laws(1) json_externals_strip json_externals_laws(2,3) json_lua_reads, where repr = "\<lambda>_. ''0.5''",
      OF repr demo_normalised demo_plain demo_shallow seven demo_admission_keys r kept none(1) [OF far(1)] none(1) [OF far(2)] quiet apart,
      of demo_rules] r
  show ?thesis by (auto simp: demo_rules_def names)
qed

text \<open>The reservation is made first, then the commit is stored beside it.\<close>

lemma get_receipt_frame:
  assumes "checked_receipt_key E (rsv_operation_id q) = Inr k" and "same_at k s s'"
  shows "get_receipt E s' q = get_receipt E s q"
proof -
  have reads: "type_name s' k = type_name s k" "receipt_hash s' k = receipt_hash s k" "receipt_field s' k = receipt_field s k"
    using same_at_reads [OF assms(2)] by (simp_all add: fun_eq_iff)
  have "field_list_is s' k fs vs = field_list_is s k fs vs" for fs vs by (simp add: field_list_is_def reads)
  note reads = reads this
  show ?thesis unfolding get_receipt_def assms(1) rbind_simps reads by (rule refl)
qed

theorem committed_admission_finalizes_witness:
  "\<exists>r h M' h' res hk own. new_record json_externals (run_command demo_input) run_create_writer 7 None = Inr r
    \<and> finalize_once json_externals json_lua served_net (PInt 7) (admission_of demo_input) PNone hk own (demo_manager, h) = ((M', h'), Inr res)
    \<and> rr_status res = ''finalized''"
proof -
  let ?q = "admission_of demo_input" and ?hk = "take 6 (commit_keys demo_run_keys)"
  obtain r where r: "new_record json_externals (run_command demo_input) run_create_writer 7 None = Inr r" by (rule demo_admission_record)
  let ?srv = "stored_server json_externals json_lua demo_run_keys [r]"
  have absent: "srv_view (host_data demo_host) (reservation_receipt_key (rsv_operation_id ?q)) = None" by (simp add: demo_host_def)
  have "int (card (held (host_data demo_host) (rsv_tenant_id ?q))) + 1 \<le> 5" "(5 :: int) \<le> max_safe_integer"
    "(\<Sum>k \<in> held (host_data demo_host) (rsv_tenant_id ?q). receipt_cost (host_data demo_host) k) + rsv_cost ?q \<le> 100"
    "(100 :: int) \<le> max_safe_integer"
    by (simp_all add: demo_nothing_held admission_of_def demo_input_def max_safe_integer_def)
  from reserve_granted [OF demo_accounted demo_ready demo_admission_wf demo_now absent this this(1,2)]
  obtain M h res where res: "reserve_once json_externals json_lua served_net (PInt 7) ?q (PInt 5) (PInt 100) (PInt 5) PNone
      (demo_manager, demo_host) = ((M, h), Inr res)" "rr_status res = ''reserved''" by blast
  define d where "d = (host_data h)\<lparr>srv_view := (\<lambda>k. if k \<in> set ?hk then srv_view ?srv k else srv_view (host_data h) k),
      srv_streams := (\<lambda>k. if k \<in> set ?hk then srv_streams ?srv k else srv_streams (host_data h) k)\<rparr>"
  have "k \<notin> set ?hk" if "is_protected k" for k
    using demo_six [of k] that
    by (auto simp: is_protected_def is_receipt_key_def receipt_prefix_def counter_keys_def concurrent_run_key_def budget_reserved_key_def tenant_inflight_def)
  then have same: "same_at k (host_data h) d" if "is_protected k" for k using that by (simp add: d_def same_at_def)
  let ?h = "h\<lparr>host_data := d, host_scripts := []\<rparr>"
  have "managed_step json_externals json_lua (demo_manager, demo_host) (M, h)" using res(1) by (rule managed_step.reserve)
  moreover have "managed_step json_externals json_lua (M, h) (demo_manager, ?h)" by (rule managed_step.other [OF same])
  ultimately have reach: "(managed_step json_externals json_lua)\<^sup>*\<^sup>* (demo_manager, demo_host) (demo_manager, ?h)" by simp
  have key: "checked_receipt_key json_externals (rsv_operation_id ?q) = Inr (reservation_receipt_key (rsv_operation_id ?q))"
    using demo_admission_wf by (simp add: checked_receipt_key_def reservation_wf_def)
  have "same_at (reservation_receipt_key (rsv_operation_id ?q)) (host_data h) d" by (rule same) (simp add: is_protected_def)
  from get_receipt_frame [OF key this] receipt_after_reserve [OF served_plain res demo_now]
  obtain rc where rc: "get_receipt json_externals (host_data ?h) ?q = Inr (Some rc)" "rc_state rc = ''RESERVED''" by auto
  have kept: "srv_view (host_data ?h) k = srv_view ?srv k \<and> srv_streams (host_data ?h) k = srv_streams ?srv k" if "k \<in> set ?hk" for k
    using that by (simp add: d_def)
  from committed_admission_finalizes [OF json_externals_laws(1) json_externals_strip json_externals_laws(3) json_lua_reads
      demo_normalised demo_plain demo_shallow seven demo_admission_keys r demo_fresh reach demo_ready rc kept demo_now] r
  show ?thesis by blast
qed

end
