(* ===== verification/FloatPayloads.thy ===== *)
theory FloatPayloads
  imports CommittedAdmission
begin

text \<open>
  An integral float in the payload of a run. The encoder of RFC 8785 prints \<open>1.0\<close> as \<open>1\<close>, so the record of
  the request and the record of the same request with the integer in its place have the same canonical
  texts, the same hashes and the same entries on the server. The record that is read back is the second
  one. The event of the run is printed by \<open>json.dumps\<close>, which writes \<open>1.0\<close> for the float and \<open>1\<close> for the
  integer: a retry after the projection, from the stored record, passes another event hash and is
  refused.
\<close>

section \<open>Integral floats as integers\<close>

text \<open>
  What the encoder makes of floats: \<open>whole\<close> puts the integer in the place of every float that has one in the
  safe range, and \<open>jcs_integers\<close> is the number format of RFC 8785 on those.
\<close>

fun whole :: "json \<Rightarrow> json" where
  "whole (JFloat f) =
     (case integral_float f of
        Some n \<Rightarrow> if - max_safe_integer \<le> n \<and> n \<le> max_safe_integer then JInt n else JFloat f
      | None \<Rightarrow> JFloat f)"
| "whole (JArr js) = JArr (map whole js)"
| "whole (JObj kvs) = JObj (map (\<lambda>kv. (fst kv, whole (snd kv))) kvs)"
| "whole j = j"

definition jcs_integers :: "externals \<Rightarrow> bool" where
  "jcs_integers E \<longleftrightarrow> (\<forall>j. json_wf E j \<longrightarrow> rfc8785_dumps E (whole j) = rfc8785_dumps E j)"

lemma whole_plain: "json_plain j \<Longrightarrow> whole j = j"
proof (induction j)
  case (JArr js)
  then show ?case by (auto simp: list_all_iff intro: map_idI)
next
  case (JObj kvs)
  have "whole (snd kv) = snd kv" if "kv \<in> set kvs" for kv
    using JObj.IH [of kv "snd kv"] JObj.prems that by (cases kv) (auto simp: list_all_iff)
  then show ?case by (auto intro: map_idI)
qed simp_all

text \<open>Members that are the same in an object without floats are left alone.\<close>

lemma whole_members:
  assumes "list_all2 (\<lambda>kv kw. fst kv = fst kw \<and> (snd kv = snd kw \<or> whole (snd kv) = snd kw)) kvs kws"
    and "list_all json_plain (map snd kws)"
  shows "whole (JObj kvs) = JObj kws"
proof -
  from assms have "map (\<lambda>kv. (fst kv, whole (snd kv))) kvs = kws"
    by (induction rule: list_all2_induct) (auto simp: whole_plain)
  then show ?thesis by simp
qed

lemma same_text:
  assumes "jcs_integers E" and "json_wf E j" and "json_wf E (whole j)"
  shows "canonical_text E (py_of_json j) = canonical_text E (py_of_json (whole j))"
  using assms by (simp add: canonical_text_def canonical_json_bytes_def normalize_json_id jcs_integers_def)

section \<open>The request with the integers\<close>

text \<open>A request and the same one with integers in the place of the integral floats of its payload.\<close>

definition integer_twin :: "externals \<Rightarrow> run_create \<Rightarrow> run_create \<Rightarrow> bool" where
  "integer_twin E v w \<longleftrightarrow>
     run_create_normal E v \<and> run_create_normal E w \<and> plain_input w
     \<and> w = v\<lparr>rn_payload := rn_payload w\<rparr> \<and> whole (JObj (rn_payload v)) = JObj (rn_payload w)"

lemma twin_names:
  assumes "integer_twin E v w"
  shows "run_identity w = run_identity v" "status_intent w = status_intent v" "admission_of w = admission_of v"
    "admitted_receipt_key w = admitted_receipt_key v" "rn_run_id w = rn_run_id v" "rn_state_ttl w = rn_state_ttl v"
    "rn_control_stream w = rn_control_stream v" "rn_tenant_id w = rn_tenant_id v"
proof -
  obtain x where "w = v\<lparr>rn_payload := x\<rparr>" using assms by (auto simp: integer_twin_def)
  then show "run_identity w = run_identity v" "status_intent w = status_intent v" "admission_of w = admission_of v"
    "admitted_receipt_key w = admitted_receipt_key v" "rn_run_id w = rn_run_id v" "rn_state_ttl w = rn_state_ttl v"
    "rn_control_stream w = rn_control_stream v" "rn_tenant_id w = rn_tenant_id v"
    by (simp_all add: run_identity_def status_intent_def admission_of_def admitted_receipt_key_def)
qed

lemma whole_metadata:
  assumes "integer_twin E v w"
  shows "whole (JObj (create_metadata v)) = JObj (create_metadata w)"
proof (rule whole_members)
  obtain x where w: "w = v\<lparr>rn_payload := x\<rparr>" and "whole (JObj (rn_payload v)) = JObj x"
    using assms by (auto simp: integer_twin_def simp del: whole.simps(3))
  then show "list_all2 (\<lambda>kv kw. fst kv = fst kw \<and> (snd kv = snd kw \<or> whole (snd kv) = snd kw)) (create_metadata v) (create_metadata w)"
    by (simp add: create_metadata_def w del: whole.simps(3) split: option.split)
  show "list_all json_plain (map snd (create_metadata w))"
    using assms by (simp add: integer_twin_def plain_input_def)
qed

lemma plain_rows: "json_plain (JObj kvs) \<Longrightarrow> list_all json_plain (map snd kvs)"
  by (auto simp: list_all_iff)

lemma whole_command:
  assumes "integer_twin E v w"
  shows "whole (command_json (run_command v)) = command_json (run_command w)"
proof -
  have "json_plain (command_json (run_command w))" by (rule run_command_plain) (use assms in \<open>simp add: integer_twin_def\<close>)
  note p = plain_rows [OF this [unfolded command_json_def]]
  show ?thesis
    unfolding command_json_def
    by (rule whole_members [OF _ p]) (use whole_metadata [OF assms] in \<open>simp add: run_command_def twin_names [OF assms] del: whole.simps(3)\<close>)
qed

lemma same_command_hash:
  assumes laws: "nfc_laws E" and jcs: "jcs_integers E" and twin: "integer_twin E v w"
  shows "command_hash E (run_command v) = command_hash E (run_command w)"
proof -
  have n: "run_create_normal E v" "run_create_normal E w" using twin by (simp_all add: integer_twin_def)
  note wf = command_json_wf [OF laws run_command_wf [OF laws n(1)]] command_json_wf [OF laws run_command_wf [OF laws n(2)]]
  have "canonical_text E (py_of_json (command_json (run_command v))) = canonical_text E (py_of_json (command_json (run_command w)))"
    using same_text [OF jcs wf(1)] wf(2) by (simp add: whole_command [OF twin])
  then show ?thesis by (simp add: command_hash_def canonical_json_sha256_def canonical_text_def command_json_py)
qed

section \<open>The two records\<close>

text \<open>The members of a stored record before its hash.\<close>

lemma stored_rows:
  obtains rows where "stored_json r = JObj (rows @ [(''canonical_record_hash'', jscalar (rec_record_hash r))])" "hashed_json r = JObj rows"
  by (rule that [of "case hashed_json r of JObj kvs \<Rightarrow> kvs | _ \<Rightarrow> []"]) (simp_all add: hashed_json_def stored_json_def)

lemma whole_records:
  assumes meta: "whole (rec_metadata_changes r) = m" and plain: "json_plain (stored_json (r\<lparr>rec_metadata_changes := m, rec_record_hash := h\<rparr>))"
  shows "whole (hashed_json r) = hashed_json (r\<lparr>rec_metadata_changes := m, rec_record_hash := h\<rparr>)"
    "h = rec_record_hash r \<Longrightarrow> whole (stored_json r) = stored_json (r\<lparr>rec_metadata_changes := m, rec_record_hash := h\<rparr>)"
proof -
  let ?r = "r\<lparr>rec_metadata_changes := m, rec_record_hash := h\<rparr>"
  obtain rows where rows: "stored_json ?r = JObj (rows @ [(''canonical_record_hash'', jscalar (rec_record_hash ?r))])" "hashed_json ?r = JObj rows"
    by (rule stored_rows)
  have p: "list_all json_plain (map snd (rows @ [(''canonical_record_hash'', jscalar (rec_record_hash ?r))]))"
    using plain unfolding rows by (rule plain_rows)
  obtain rows' where rows': "stored_json r = JObj (rows' @ [(''canonical_record_hash'', jscalar (rec_record_hash r))])" "hashed_json r = JObj rows'"
    by (rule stored_rows)
  have "list_all2 (\<lambda>kv kw. fst kv = fst kw \<and> (snd kv = snd kw \<or> whole (snd kv) = snd kw)) rows' rows"
    using rows(2) rows'(2) meta by (auto simp: hashed_json_def stored_json_def)
  note all = this whole_members
  from all(2) [OF all(1)] p show "whole (hashed_json r) = hashed_json ?r" by (simp add: rows rows' del: whole.simps(3))
  assume "h = rec_record_hash r"
  then show "whole (stored_json r) = stored_json ?r"
    unfolding rows rows' by (intro whole_members [OF _ p] list_all2_appendI all(1)) simp
qed

text \<open>
  The record of the request and that of its twin differ in the metadata alone, and their canonical texts
  are the same.
\<close>

lemma twin_records:
  assumes laws: "nfc_laws E" "jcs_total E" and jcs: "jcs_integers E" and twin: "integer_twin E v w"
    and ms: "0 \<le> ms" "ms \<le> max_safe_integer" and r: "new_record E (run_command v) run_create_writer ms None = Inr r"
  shows "new_record E (run_command w) run_create_writer ms None = Inr (r\<lparr>rec_metadata_changes := JObj (create_metadata w)\<rparr>)"
    "canonical_text E (py_of_json (stored_json r))
      = canonical_text E (py_of_json (stored_json (r\<lparr>rec_metadata_changes := JObj (create_metadata w)\<rparr>)))"
proof -
  have n: "run_create_normal E v" "run_create_normal E w" and pw: "plain_input w" using twin by (simp_all add: integer_twin_def)
  obtain r' where r': "new_record E (run_command w) run_create_writer ms None = Inr r'"
    using run_create_planned [OF laws n(2) ms] by (auto simp: run_context_def)
  note names = twin_names [OF twin] and wf = stored_json_wf(1) [OF laws(1) n(1) ms r] stored_json_wf(1) [OF laws(1) n(2) ms r']
  have plain: "json_plain (stored_json r')" by (rule admission_record_plain [OF pw ms r'])
  obtain tid ch h where r1: "r = (provisional_record (run_command v) ch tid run_create_writer ms None)\<lparr>rec_record_hash := PStr h\<rparr>"
    and v1: "transition_id (PStr (identity_sha256 (cmd_identity (run_command v)))) (PInt (cmd_expected_revision (run_command v) + 1))
       (cmd_operation_id (run_command v)) = Inr tid" "command_hash E (run_command v) = Inr ch"
      "canonical_json_sha256 E (immutable_payload (provisional_record (run_command v) ch tid run_create_writer ms None)) = Inr h"
    by (rule new_record_okD [OF r]) blast
  obtain tid' ch' h' where r2: "r' = (provisional_record (run_command w) ch' tid' run_create_writer ms None)\<lparr>rec_record_hash := PStr h'\<rparr>"
    and v2: "transition_id (PStr (identity_sha256 (cmd_identity (run_command w)))) (PInt (cmd_expected_revision (run_command w) + 1))
       (cmd_operation_id (run_command w)) = Inr tid'" "command_hash E (run_command w) = Inr ch'"
      "canonical_json_sha256 E (immutable_payload (provisional_record (run_command w) ch' tid' run_create_writer ms None)) = Inr h'"
    by (rule new_record_okD [OF r']) blast
  have same: "ch' = ch" "tid' = tid"
    using v1(1,2) v2(1,2) same_command_hash [OF laws(1) jcs twin] by (simp_all add: run_command_def names)
  let ?M = "JObj (create_metadata w)"
  have eq: "r' = r\<lparr>rec_metadata_changes := ?M, rec_record_hash := PStr h'\<rparr>"
    by (simp add: r1 r2 same provisional_record_def run_command_def names)
  have meta: "whole (rec_metadata_changes r) = ?M"
    using whole_metadata [OF twin] by (simp add: r1 provisional_record_def run_command_def del: whole.simps(3))
  note records = whole_records [OF meta plain [unfolded eq]]
  have hashed_wf: "json_wf E (hashed_json x)" if "json_wf E (stored_json x)" for x
  proof -
    obtain rows where "stored_json x = JObj (rows @ [(''canonical_record_hash'', jscalar (rec_record_hash x))])" "hashed_json x = JObj rows"
      by (rule stored_rows)
    with that show ?thesis by simp
  qed
  have "canonical_text E (py_of_json (hashed_json r)) = canonical_text E (py_of_json (hashed_json r'))"
    using same_text [OF jcs hashed_wf [OF wf(1)]] hashed_wf [OF wf(2)] records(1) by (simp add: eq)
  then have "canonical_json_sha256 E (immutable_payload r) = canonical_json_sha256 E (immutable_payload r')"
    by (simp add: immutable_payload_json [OF new_record_fields(10) [OF r]] immutable_payload_json [OF new_record_fields(10) [OF r']]
        canonical_json_sha256_def canonical_text_def)
  then have h: "h' = h" using v1(3) v2(3) by (simp add: r1 r2)
  have eq': "r' = r\<lparr>rec_metadata_changes := ?M\<rparr>" by (simp add: eq h) (simp add: r1)
  with r' show "new_record E (run_command w) run_create_writer ms None = Inr (r\<lparr>rec_metadata_changes := ?M\<rparr>)" by simp
  have "whole (stored_json r) = stored_json r'" unfolding eq by (rule records(2)) (simp add: h r1)
  then show "canonical_text E (py_of_json (stored_json r)) = canonical_text E (py_of_json (stored_json (r\<lparr>rec_metadata_changes := ?M\<rparr>)))"
    using same_text [OF jcs wf(1)] wf(2) by (simp add: eq')
qed

text \<open>So the server holds the same bytes for both, and the witness of the head is the same.\<close>

lemma twin_stored:
  assumes laws: "nfc_laws E" "jcs_total E" and jcs: "jcs_integers E" and twin: "integer_twin E v w"
    and ms: "0 \<le> ms" "ms \<le> max_safe_integer" and r: "new_record E (run_command v) run_create_writer ms None = Inr r"
  defines "r' \<equiv> r\<lparr>rec_metadata_changes := JObj (create_metadata w)\<rparr>"
  shows "stored_server E L ks [r] = stored_server E L ks [r']" "head_argv E r = head_argv E r'"
    "authority_head_witness E namespace r (new_receipt r) = authority_head_witness E namespace r' (new_receipt r')"
proof -
  note t = twin_records [OF laws jcs twin ms r, folded r'_def]
  have payload: "rbind (record_payload E r) (canonical_text E) = rbind (record_payload E r') (canonical_text E)"
    using t(2) by (simp add: stored_json_py [OF new_record_fields(10) [OF r]] stored_json_py [OF new_record_fields(10) [OF t(1)]])
  have fields: "rec_identity r' = rec_identity r" "rec_identity_sha256 r' = rec_identity_sha256 r" "rec_operation_id r' = rec_operation_id r"
    "rec_transition_id r' = rec_transition_id r" "rec_to_revision r' = rec_to_revision r" "rec_command_hash r' = rec_command_hash r"
    "rec_record_hash r' = rec_record_hash r" "rec_next_state r' = rec_next_state r" "rec_committed_at_ms r' = rec_committed_at_ms r"
    "rec_projection_intents r' = rec_projection_intents r" "rec_operation_type r' = rec_operation_type r" "new_receipt r' = new_receipt r"
    by (simp_all add: r'_def new_receipt_def)
  have texts: "record_text E r' = record_text E r" "receipt_text E r' = receipt_text E r" "index_text E r' = index_text E r"
    "intents_text E r' = intents_text E r" "op_digest r' = op_digest r" "tid_of r' = tid_of r"
    "record_entry E W r' = record_entry E W r" "receipt_entry E W r' = receipt_entry E W r" "index_entry E W r' = index_entry E W r" for W
    by (simp_all add: record_text_def receipt_text_def index_text_def intents_text_def op_digest_def tid_of_def record_entry_def
        receipt_entry_def index_entry_def transition_index_payload_def fields payload)
  show "head_argv E r = head_argv E r'" by (simp add: head_argv_def texts fields)
  show "stored_server E L ks [r] = stored_server E L ks [r']"
    by (simp add: stored_server_def stored_of_def streams_of_def head_of_def head_fields_def log_entry_def outbox_entry_def texts fields)
  have "proof_texts E r (new_receipt r) = proof_texts E r' (new_receipt r')"
    by (simp add: proof_texts_def payload fields transition_index_payload_def)
  then show "authority_head_witness E namespace r (new_receipt r) = authority_head_witness E namespace r' (new_receipt r')"
    by (simp add: authority_head_witness_def fields)
qed

section \<open>The two events\<close>

text \<open>A payload with an integral float \<open>n.0\<close> at the key \<open>k\<close>, and the one with the integer there.\<close>

definition payload_with :: "(string \<times> json) list \<Rightarrow> string \<Rightarrow> json \<Rightarrow> (string \<times> json) list \<Rightarrow> (string \<times> json) list" where
  "payload_with before k j after = before @ (k, j) # after"

lemma payload_twin:
  assumes v: "run_create_normal E v" and payload: "rn_payload v = payload_with before k (JFloat (FinFloat n 0)) after"
    and w: "w = v\<lparr>rn_payload := payload_with before k (JInt n) after\<rparr>" and plain: "plain_input w"
  shows "integer_twin E v w"
proof -
  have n: "- max_safe_integer \<le> n" "n \<le> max_safe_integer"
    using plain_input_parts(4) [OF plain] by (simp_all add: w payload_with_def)
  then have "run_create_normal E w" using v by (auto simp: run_create_normal_def payload w payload_with_def)
  moreover have "list_all json_plain (map snd (before @ (k, JInt n) # after))"
    using plain_rows [OF plain_input_parts(4) [OF plain]] by (simp add: w payload_with_def)
  then have "whole (JObj (payload_with before k (JFloat (FinFloat n 0)) after)) = JObj (payload_with before k (JInt n) after)"
    unfolding payload_with_def using n
    by (intro whole_members) (simp_all add: list_all2_appendI list.rel_refl integral_float_def)
  ultimately show ?thesis using v plain by (simp add: integer_twin_def payload w del: whole.simps(3))
qed

text \<open>\<open>json.dumps\<close> writes two characters more for the float.\<close>

lemma length_join_commas: "length (join_commas ts) = sum_list (map length ts) + (length ts - 1)"
  by (induction ts rule: join_commas.induct) auto

lemma payload_texts:
  assumes "sorted (map fst (payload_with before k (JInt n) after))" and "repr (FinFloat n 0) = dec_int n @ ''.0''"
  shows "length (json_dumps repr (JObj (payload_with before k (JFloat (FinFloat n 0)) after)))
    = length (json_dumps repr (JObj (payload_with before k (JInt n) after))) + 2"
proof -
  let ?f = "\<lambda>(k, v). (k, json_dumps repr v)"
  have s: "sort_key fst (map ?f (payload_with before k j after)) = map ?f (payload_with before k j after)" for j
    using assms(1) by (intro sort_key_sorted) (simp add: payload_with_def comp_def case_prod_beta)
  show ?thesis
    unfolding json_dumps.simps s by (simp add: payload_with_def length_join_commas json_member_def json_float_def assms(2))
qed

lemma payload_text_ascii:
  assumes plain: "list_all json_plain (map snd (before @ after))" "list_all is_ascii (map fst (before @ (k, JInt n) # after))"
    and repr: "is_ascii (repr (FinFloat n 0))"
  shows "is_ascii (json_dumps repr (JObj (payload_with before k (JFloat (FinFloat n 0)) after)))"
proof -
  let ?p = "payload_with before k (JFloat (FinFloat n 0)) after"
  have "is_ascii (json_dumps repr j)" if "j \<in> set (map snd ?p)" for j
    using that plain(1) repr json_dumps_ascii by (auto simp: payload_with_def list_all_iff json_float_def)
  moreover have "is_ascii x" if "x \<in> set (map fst ?p)" for x
    using that plain(2) by (auto simp: payload_with_def list_all_iff)
  ultimately have "is_ascii t" if "t \<in> set (map json_member (sort_key fst (map (\<lambda>(k, v). (k, json_dumps repr v)) ?p)))" for t
    using that by (force simp: json_member_def json_string_is_ascii is_ascii_def [of "'':''"] simp del: append.simps)
  then have "is_ascii (join_commas (map json_member (sort_key fst (map (\<lambda>(k, v). (k, json_dumps repr v)) ?p))))"
    by (intro join_commas_ascii) blast
  then show ?thesis by (simp add: is_ascii_def)
qed

lemma event_canonical:
  assumes laws: "nfc_laws E" "jcs_reads E" and v: "run_create_normal E v" "is_ascii (json_dumps repr (JObj (rn_payload v)))"
    and repr: "\<And>x. checked_text E (repr x)" "\<And>x. is_ascii (repr x)"
    and names: "is_ascii (rn_run_id v)" "is_ascii (rn_tenant_id v)" "is_ascii (rn_agent_type v)" "is_ascii (rn_region v)" "is_ascii (rn_placement v)"
    and h: "event_hash E (admitted_event repr v op) = Inr h"
  obtains b where "h = sha256_hexdigest b"
    "json_loads b = Inr (py_of_json (sort_json (JObj (map (\<lambda>kt. (fst kt, JStr (snd kt))) (admitted_event repr v op)))))"
proof -
  let ?j = "JObj (map (\<lambda>kt. (fst kt, JStr (snd kt))) (admitted_event repr v op))"
  have d: "distinct (map fst (admitted_event repr v op))" by (simp add: admitted_event_def)
  have wf: "json_wf E ?j"
    using event_texts_checked [OF laws(1) v repr(1), where op = op] d by (auto simp: list_all_iff checked_text_def comp_def)
  have "list_all is_ascii (map fst (admitted_event repr v op))" by (simp add: admitted_event_def is_ascii_def)
  moreover have "is_ascii (event_digest op)" by (simp add: event_digest_def sha256_re_ascii)
  then have "list_all is_ascii (map snd (admitted_event repr v op))"
    using v(2) repr(2) names dec_int_ascii by (simp add: admitted_event_def is_ascii_def [of "[]"] is_ascii_def [of "''RunAdmitted''"] del: json_dumps.simps(7))
  ultimately have plain: "json_plain ?j" using d by (auto simp: list_all_iff comp_def)
  obtain b where b: "rfc8785_dumps E ?j = Some b" "json_loads b = Inr (py_of_json (sort_json ?j))"
    using laws(2) wf plain unfolding jcs_reads_def by blast
  have "normalize_json E ''$'' (py_of_json ?j) = Inr ?j" by (rule normalize_json_id [OF wf])
  then have "h = sha256_hexdigest b"
    using h b(1) by (simp add: event_hash_def canonical_json_bytes_def comp_def)
  with b(2) show thesis by (intro that)
qed

text \<open>Requests whose payloads print differently have different event hashes.\<close>

lemma events_differ:
  assumes laws: "nfc_laws E" "jcs_reads E" and twin: "integer_twin E v w"
    and ascii: "is_ascii (json_dumps repr (JObj (rn_payload v)))" and repr: "\<And>x. checked_text E (repr x)" "\<And>x. is_ascii (repr x)"
    and differ: "json_dumps repr (JObj (rn_payload v)) \<noteq> json_dumps repr (JObj (rn_payload w))"
    and h: "event_hash E (admitted_event repr v op) = Inr h" "event_hash E (admitted_event repr w op) = Inr h'"
  shows "h \<noteq> h' \<or> (\<exists>x y. sha256_collision x y)"
proof -
  obtain p where w: "w = v\<lparr>rn_payload := p\<rparr>" using twin by (auto simp: integer_twin_def)
  have n: "run_create_normal E v" "run_create_normal E w" "plain_input w" using twin by (simp_all add: integer_twin_def)
  have names: "is_ascii (rn_run_id v)" "is_ascii (rn_tenant_id v)" "is_ascii (rn_agent_type v)" "is_ascii (rn_region v)" "is_ascii (rn_placement v)"
    using n(3) by (simp_all add: plain_input_def create_metadata_def w del: json_plain.simps(7))
  have ascii': "is_ascii (json_dumps repr (JObj (rn_payload w)))" by (rule json_dumps_ascii [OF plain_input_parts(4) [OF n(3)]])
  have names': "is_ascii (rn_run_id w)" "is_ascii (rn_tenant_id w)" "is_ascii (rn_agent_type w)" "is_ascii (rn_region w)" "is_ascii (rn_placement w)"
    using names by (simp_all add: w)
  define rows where "rows = (\<lambda>u. map (\<lambda>kt. (fst kt, JStr (snd kt))) (admitted_event repr u op))"
  obtain b where b: "h = sha256_hexdigest b" "json_loads b = Inr (py_of_json (sort_json (JObj (rows v))))"
    unfolding rows_def by (rule event_canonical [OF laws n(1) ascii repr names h(1)])
  obtain b' where b': "h' = sha256_hexdigest b'" "json_loads b' = Inr (py_of_json (sort_json (JObj (rows w))))"
    unfolding rows_def by (rule event_canonical [OF laws n(2) ascii' repr names' h(2)])
  have "b \<noteq> b'"
  proof
    assume "b = b'"
    with b(2) b'(2) have same: "py_of_json (sort_json (JObj (rows v))) = py_of_json (sort_json (JObj (rows w)))" by simp
    have d: "distinct (map fst (rows u))" for u by (simp add: rows_def admitted_event_def)
    have look: "map_of (rows u) ''payload'' = Some (JStr (json_dumps repr (JObj (rn_payload u))))" for u
      by (simp add: rows_def admitted_event_def del: json_dumps.simps)
    have "json_dumps repr (JObj (rn_payload v)) = json_dumps repr (JObj (rn_payload w))"
      using dict_get_sorted [OF d [of v], of "''payload''"] dict_get_sorted [OF d [of w], of "''payload''"]
      unfolding same look by (simp del: sort_json.simps(2) py_of_json.simps(7) json_dumps.simps)
    with differ show False by simp
  qed
  then show ?thesis using b(1) b'(1) by (auto simp: sha256_collision_def)
qed

section \<open>Property\<close>

text \<open>
  C16. A payload with an integral float makes a retry of its admission fail. Take a request one member of
  whose payload is the float \<open>n.0\<close>, and for the rest of ASCII texts and integers, and any server that holds
  the record of the request as its commit writes it and no projection of the run (as for a committed
  admission without floats). Then the projection of the record is published. The history read from the
  server afterwards is one record with the same hashes, from which the request comes back with the integer
  \<open>n\<close> in the place of the float. So the retry, which builds its event from that record, passes another
  event hash, whatever head and witness it has, and the script refuses it with
  \<open>projection_receipt_proof_mismatch\<close> although it is the same admission, unless two texts exhibit a SHA-256
  collision. Of the libraries the claim uses that RFC 8785 prints an integral float as its integer and that
  Python prints it with \<open>.0\<close>; the receipt key, the state key and the control stream are taken to differ
  from each other and from the authority keys.
\<close>

theorem integral_float_splits_event:
  assumes laws: "nfc_laws E" "jcs_total E" "jcs_reads E" "lua_reads L" "stream_laws R" and jcs: "jcs_integers E"
    and repr: "\<And>x. checked_text E (repr x)" "\<And>x. is_ascii (repr x)" "repr (FinFloat n 0) = dec_int n @ ''.0''"
    and v: "run_create_normal E v" and payload: "rn_payload v = before @ (k, JFloat (FinFloat n 0)) # after"
    and w: "w = v\<lparr>rn_payload := before @ (k, JInt n) # after\<rparr>" and plain: "plain_input w" "json_depth (JObj (rn_payload w)) < 990"
    and ms: "0 \<le> ms" "ms \<le> max_safe_integer" and ks: "make_keyspace (identity_sha256 (run_identity v)) namespace = Inr ks"
    and r: "new_record E (run_command v) run_create_writer ms None = Inr r"
    and kept: "\<And>key. key \<in> set (take 6 (commit_keys ks)) \<Longrightarrow>
      srv_view s key = srv_view (stored_server E L ks [r]) key \<and> srv_streams s key = srv_streams (stored_server E L ks [r]) key"
    and fresh: "type_name s (admitted_receipt_key v) = ''none''" "type_name s (run_state_key (rn_run_id v)) = ''none''"
      "type_name s (rn_control_stream v) \<in> {''none'', ''stream''}"
      "\<forall>entry \<in> set (srv_streams s (rn_control_stream v)). \<not> is_admission_of (rn_run_id v) entry"
    and apart: "distinct ([admitted_receipt_key v, run_state_key (rn_run_id v), rn_control_stream v] @ take 6 (commit_keys ks))"
  shows "\<exists>hk own fvs keys argv s' entry h r2 fvs2.
    input_from_record E r = Inr v \<and> authority_head_witness E namespace r (new_receipt r) = Inr (hk, own)
    \<and> stable_event_fields E repr v (rsv_operation_id (admission_of v)) = Inr fvs
    \<and> projection_call E (projection_of r (admission_of v) v fvs hk own) = Inr (keys, argv)
    \<and> projection_script R L keys argv s = (s', Inr (''run_admitted'', entry, []))
    \<and> load_aggregate_history E namespace (run_identity v) (\<lambda>_. Some (srv_view s')) = Inr (Some h)
    \<and> map hist_record (history_operations h) = [r2]
    \<and> rec_command_hash r2 = rec_command_hash r \<and> rec_record_hash r2 = rec_record_hash r
    \<and> input_from_record E r2 = Inr w \<and> stable_event_fields E repr w (rsv_operation_id (admission_of w)) = Inr fvs2
    \<and> (\<forall>hk2 own2. \<exists>keys2 argv2. projection_call E (projection_of r2 (admission_of w) w fvs2 hk2 own2) = Inr (keys2, argv2)
        \<and> (projection_script R L keys2 argv2 s'
             = (s', Inr (''canonical_run_create_evidence_conflict'', [], ''projection_receipt_proof_mismatch''))
           \<or> (\<exists>x y. sha256_collision x y)))"
proof -
  have twin: "integer_twin E v w"
    by (rule payload_twin [OF v _ _ plain(1)]) (simp_all add: payload w payload_with_def)
  note names = twin_names [OF twin]
  have nw: "run_create_normal E w" using twin by (simp add: integer_twin_def)
  define r' where "r' = r\<lparr>rec_metadata_changes := JObj (create_metadata w)\<rparr>"
  note rec = twin_records(1) [OF laws(1,2) jcs twin ms r, folded r'_def]
  note stored = twin_stored [OF laws(1,2) jcs twin ms r, folded r'_def]
  note wr = admission_record_writable [OF laws(1) nw plain(1) ms rec] and nx = admission_record_next [OF laws(1) nw plain ms rec]
  have chain: "chained None 0 [r']" "json_depth (stored_json r') < 1000" using nx by (simp_all add: next_record_def)
  have W: "cjson_reads (lua_envelope L)" using laws(4) by (simp add: lua_reads_def)
  have id: "rec_identity r' = run_identity v" using new_record_fields(9) [OF rec] by (simp add: run_command_def names)
  let ?hk = "take 6 (commit_keys ks)" and ?op = "rsv_operation_id (admission_of v)" and ?st = "rn_control_stream v"
  have head: "authority_head_witness E namespace r (new_receipt r) = Inr (?hk, head_argv E r)"
    unfolding stored by (rule head_witness_written [OF laws(1,3) W wr]) (simp add: id ks)
  have sorted: "sorted (map fst (payload_with before k (JInt n) after))"
    using nw by (simp add: run_create_normal_def w payload_with_def)
  have rows: "list_all json_plain (map snd (before @ after))" "list_all is_ascii (map fst (before @ (k, JInt n) # after))"
    using plain_input_parts(4) [OF plain(1)] by (auto simp: w list_all_iff)
  have ascii: "is_ascii (json_dumps repr (JObj (rn_payload v)))"
    using payload_text_ascii [OF rows repr(2)] by (simp add: payload payload_with_def del: json_dumps.simps)
  have ascii': "is_ascii (json_dumps repr (JObj (rn_payload w)))" by (rule json_dumps_ascii [OF plain_input_parts(4) [OF plain(1)]])
  have differ: "json_dumps repr (JObj (rn_payload v)) \<noteq> json_dumps repr (JObj (rn_payload w))"
    using payload_texts [where repr = repr, OF sorted repr(3)] by (auto simp: payload w payload_with_def simp del: json_dumps.simps)
  obtain h where h: "event_hash E (admitted_event repr v ?op) = Inr h"
    and call: "projection_call E (projection_of r (admission_of v) v (admitted_event repr v ?op) ?hk (head_argv E r))
      = Inr ([admitted_receipt_key v, run_state_key (rn_run_id v), ?st] @ ?hk, admitted_argv repr v r h (head_argv E r))"
    by (rule projection_call_of_record [OF laws(1,2) v ascii r repr(1)])
  let ?keys = "[admitted_receipt_key v, run_state_key (rn_run_id v), ?st] @ ?hk" and ?argv = "admitted_argv repr v r h (head_argv E r)"
  have len: "length ?hk = 6" by (simp add: commit_keys_at)
  have "authority_head_validate (object_fields L) (base_server s) ?hk (head_argv E r) = (''VALID'', [])"
    using head_validate_frame [OF len, of "base_server s" "stored_server E L ks [r]"] kept stored_head_valid [OF laws(1,3,4) wr chain]
    by (simp add: base_server_def server.defs stored(1,2))
  moreover have "list_all is_ascii (head_argv E r)" unfolding stored(2) by (rule head_argv_ascii [OF laws(1,3) W wr])
  ultimately have run: "projection_script R L ?keys ?argv s
      = (project_effects R ?keys ?argv (rn_state_ttl v) stream_maxlen s, Inr (''run_admitted'', new_entry_id R s ?st, []))"
    by (intro admitted_call_published [OF laws(4) v r _ len _ fresh])
  define s' where "s' = project_effects R ?keys ?argv (rn_state_ttl v) stream_maxlen s"
  have keys: "keys_apart ?keys" using apart by (simp add: keys_apart_def)
  have "srv_view s' key = srv_view (stored_server E L ks [r]) key" if "key \<in> set ?hk" for key
    using written_view(1) [OF keys, of R ?argv "rn_state_ttl v" stream_maxlen s key] kept [OF that] apart that
    by (auto simp: s'_def)
  then have "load_aggregate_history E namespace (run_identity v) (\<lambda>_. Some (srv_view s'))
      = load_aggregate_history E namespace (run_identity v) (\<lambda>_. Some (srv_view (stored_server E L ks [r'])))"
    unfolding stored(1) by (intro load_history_frame [OF ks]) (auto simp: commit_keys_def)
  then have load: "load_aggregate_history E namespace (run_identity v) (\<lambda>_. Some (srv_view s'))
      = Inr (Some \<lparr>history_snapshot = snapshot_of E (in_order r'), history_operations = [row_of (in_order r')]\<rparr>)"
    using stored_history_loads [OF laws(1,3,4) wr id chain(1) ks] by simp
  have again: "\<exists>keys2 argv2. projection_call E (projection_of (in_order r') (admission_of w) w (admitted_event repr w ?op) hk2 own2) = Inr (keys2, argv2)
      \<and> (projection_script R L keys2 argv2 s'
           = (s', Inr (''canonical_run_create_evidence_conflict'', [], ''projection_receipt_proof_mismatch''))
         \<or> (\<exists>x y. sha256_collision x y))" for hk2 own2
  proof -
    obtain h2 where h2: "event_hash E (admitted_event repr w ?op) = Inr h2"
      and call2: "projection_call E (projection_of r' (admission_of w) w (admitted_event repr w ?op) hk2 own2)
        = Inr ([admitted_receipt_key w, run_state_key (rn_run_id w), rn_control_stream w] @ hk2, admitted_argv repr w r' h2 own2)"
      by (rule projection_call_of_record [OF laws(1,2) nw ascii' rec repr(1), unfolded names(3)]) (unfold names(3))
    have "projection_of (in_order r') (admission_of w) w (admitted_event repr w ?op) hk2 own2
        = projection_of r' (admission_of w) w (admitted_event repr w ?op) hk2 own2"
      by (simp add: projection_of_def in_order_def)
    moreover have "projection_proof (admitted_argv repr w r' h2 own2) \<noteq> projection_proof ?argv" if "h2 \<noteq> h"
      using that by (simp add: projection_proof_def argument_def admitted_argv_def)
    then have "projection_script R L ([admitted_receipt_key w, run_state_key (rn_run_id w), rn_control_stream w] @ hk2) (admitted_argv repr w r' h2 own2) s'
        = (s', Inr (''canonical_run_create_evidence_conflict'', [], ''projection_receipt_proof_mismatch''))" if "h2 \<noteq> h"
      using projection_replay_reads_receipt [OF laws(5) keys run, of "[admitted_receipt_key w, run_state_key (rn_run_id w), rn_control_stream w] @ hk2"
          "admitted_argv repr w r' h2 own2"] that
      by (simp add: s'_def names admitted_numbers [OF nw])
    ultimately show ?thesis
      using call2 events_differ [OF laws(1,3) twin ascii repr(1,2) differ h h2] by metis
  qed
  have events: "stable_event_fields E repr v ?op = Inr (admitted_event repr v ?op)" "stable_event_fields E repr w ?op = Inr (admitted_event repr w ?op)"
    by (simp_all add: stable_event_fields_def normalize_again [OF v] normalize_again [OF nw])
  let ?h = "\<lparr>history_snapshot = snapshot_of E (in_order r'), history_operations = [row_of (in_order r')]\<rparr>"
  have hist: "map hist_record (history_operations ?h) = [in_order r']" by (simp add: row_of_def)
  have hashes: "rec_command_hash (in_order r') = rec_command_hash r" "rec_record_hash (in_order r') = rec_record_hash r"
    by (simp_all add: in_order_def r'_def)
  have every: "\<forall>hk2 own2. \<exists>keys2 argv2. projection_call E (projection_of (in_order r') (admission_of v) w (admitted_event repr w ?op) hk2 own2) = Inr (keys2, argv2)
      \<and> (projection_script R L keys2 argv2 s'
           = (s', Inr (''canonical_run_create_evidence_conflict'', [], ''projection_receipt_proof_mismatch''))
         \<or> (\<exists>x y. sha256_collision x y))"
    using again unfolding names(3) by blast
  show ?thesis
    unfolding names(3)
    by (intro exI conjI, rule input_of_new_record [OF laws(1) v r], rule head, rule events(1), rule call, rule run [folded s'_def],
        rule load, rule hist, rule hashes(1), rule hashes(2), rule input_in_order(1) [OF laws(1) nw rec], rule events(2), rule every)
qed

section \<open>Witness\<close>

text \<open>An encoder that prints integral floats as integers, as RFC 8785 does.\<close>

definition number_text :: "pyfloat \<Rightarrow> string" where
  "number_text f = (case integral_float f of Some n \<Rightarrow> dec_int n | None \<Rightarrow> ''0.5'')"

definition number_externals :: externals where
  "number_externals = \<lparr>nfc_normalize = (\<lambda>s. s), rfc8785_dumps = (\<lambda>j. Some (json_dumps number_text j))\<rparr>"

lemma number_dumps_whole: "json_wf number_externals j \<Longrightarrow> json_dumps number_text (whole j) = json_dumps number_text j"
proof (induction j)
  case (JFloat f)
  then show ?case
    by (cases f) (auto simp: json_float_def number_text_def integral_float_def is_finite_def split: option.split)
next
  case (JArr js)
  then have eq: "map (\<lambda>x. json_dumps number_text (whole x)) js = map (json_dumps number_text) js" by (auto simp: list_all_iff)
  show ?case by (simp add: comp_def eq)
next
  case (JObj kvs)
  have "json_dumps number_text (whole (snd kv)) = json_dumps number_text (snd kv)" if "kv \<in> set kvs" for kv
    using JObj.IH [of kv "snd kv"] JObj.prems that by (cases kv) (auto simp: list_all_iff)
  then have "map (\<lambda>(k, v). (k, json_dumps number_text v)) (map (\<lambda>kv. (fst kv, whole (snd kv))) kvs)
      = map (\<lambda>(k, v). (k, json_dumps number_text v)) kvs" by (auto simp: case_prod_beta)
  then show ?case by (simp only: whole.simps json_dumps.simps)
qed simp_all

lemma number_externals_laws:
  "nfc_laws number_externals" "jcs_total number_externals" "jcs_reads number_externals" "jcs_integers number_externals"
proof -
  show "nfc_laws number_externals" "jcs_total number_externals" by (simp_all add: number_externals_def nfc_laws_def jcs_total_def)
  show "jcs_reads number_externals"
    by (simp add: jcs_reads_def number_externals_def json_dumps_ascii json_loads_dumps json_dumps_sort)
  show "jcs_integers number_externals"
    using number_dumps_whole by (simp add: jcs_integers_def) (simp add: number_externals_def)
qed

definition demo_repr :: "pyfloat \<Rightarrow> string" where
  "demo_repr f = (if f = FinFloat 1 0 then ''1.0'' else ''0.5'')"

definition float_input :: run_create where
  "float_input = demo_input\<lparr>rn_payload := [(''x'', JFloat (FinFloat 1 0))]\<rparr>"

definition integer_input :: run_create where
  "integer_input = demo_input\<lparr>rn_payload := [(''x'', JInt 1)]\<rparr>"

theorem integral_float_splits_event_witness:
  "\<exists>r s s' r2 keys2 argv2. new_record number_externals (run_command float_input) run_create_writer 7 None = Inr r
    \<and> input_from_record number_externals r = Inr float_input \<and> input_from_record number_externals r2 = Inr integer_input
    \<and> (\<exists>keys argv entry. projection_script demo_rules json_lua keys argv s = (s', Inr (''run_admitted'', entry, [])))
    \<and> (projection_script demo_rules json_lua keys2 argv2 s'
          = (s', Inr (''canonical_run_create_evidence_conflict'', [], ''projection_receipt_proof_mismatch''))
       \<or> (\<exists>x y. sha256_collision x y))"
proof -
  have x: "py_strip ''x'' = ''x''" by (simp add: py_strip_def is_space_char_def is_continuation_def)
  have v: "run_create_normal number_externals float_input"
    by (simp add: run_create_normal_def float_input_def demo_input_def checked_text_def demo_texts number_externals_def safe_natural_def
        max_safe_integer_def is_finite_def x)
  have plain: "plain_input integer_input" "json_depth (JObj (rn_payload integer_input)) < 990"
    by (simp_all add: plain_input_def create_metadata_def integer_input_def demo_input_def is_ascii_def max_safe_integer_def)
  have id: "run_identity float_input = demo_run" by (simp add: float_input_def run_identity_def demo_input_def demo_run_def)
  obtain r where r: "new_record number_externals (run_command float_input) run_create_writer 7 None = Inr r"
    using run_create_planned [OF number_externals_laws(1,2) v seven] by (auto simp: run_context_def)
  define s :: resource_server where
    "s = server.extend (stored_server number_externals json_lua demo_run_keys [r]) \<lparr>srv_text = (\<lambda>_. []), srv_ttl = (\<lambda>_. -1)\<rparr>"
  let ?rk = "admitted_receipt_key float_input" and ?st = "run_state_key (rn_run_id float_input)"
  have none: "type_name s k = ''none''" "srv_streams s k = []" if "take 14 k \<noteq> ''hfa:authority:''" for k
    using that by (simp_all add: type_name_cases s_def stored_server_def server_of_def server.defs foreign_view)
  have names: "rn_control_stream float_input = ''hfa:control''" "rn_run_id float_input = ''run-1''"
    by (simp_all add: float_input_def demo_input_def)
  have rk: "take 14 ?rk = ''hfa:run-create''" by (simp add: admitted_receipt_key_def)
  have far: "take 14 ?rk \<noteq> ''hfa:authority:''" "take 14 ?st \<noteq> ''hfa:authority:''" "take 14 (rn_control_stream float_input) \<noteq> ''hfa:authority:''"
    by (simp_all add: rk names run_state_key_def)
  then have out: "x \<notin> set (take 6 (commit_keys demo_run_keys))" if "x \<in> {?rk, ?st, rn_control_stream float_input}" for x
    using demo_six [of x] that by auto
  have "distinct [?rk, ?st, rn_control_stream float_input]"
    using rk by (auto simp: names run_state_key_def)
  moreover have "distinct (take 6 (commit_keys demo_run_keys))" by (rule distinct_take [OF demo_run_distinct])
  ultimately have apart: "distinct ([?rk, ?st, rn_control_stream float_input] @ take 6 (commit_keys demo_run_keys))"
    using out by auto
  have kept: "srv_view s k = srv_view (stored_server number_externals json_lua demo_run_keys [r]) k
      \<and> srv_streams s k = srv_streams (stored_server number_externals json_lua demo_run_keys [r]) k" for k
    by (simp add: s_def server.defs)
  have repr: "checked_text number_externals (demo_repr f)" "is_ascii (demo_repr f)" "demo_repr (FinFloat 1 0) = dec_int 1 @ ''.0''" for f
    by (simp_all add: demo_repr_def checked_text_def number_externals_def py_strip_def is_space_char_def is_continuation_def is_ascii_def
        one_text)
  have quiet: "type_name s (rn_control_stream float_input) \<in> {''none'', ''stream''}"
    "\<forall>entry \<in> set (srv_streams s (rn_control_stream float_input)). \<not> is_admission_of (rn_run_id float_input) entry"
    using none [OF far(3)] by simp_all
  have payload: "rn_payload float_input = [] @ (''x'', JFloat (FinFloat 1 0)) # []"
    "integer_input = float_input\<lparr>rn_payload := [] @ (''x'', JInt 1) # []\<rparr>"
    by (simp_all add: float_input_def integer_input_def)
  from integral_float_splits_event [where repr = demo_repr and n = 1 and before = "[]" and after = "[]" and k = "''x''",
      OF number_externals_laws(1-3) json_lua_reads demo_rules_laws number_externals_laws(4) repr v payload
        plain seven demo_run_keyspace [folded id] r kept none(1) [OF far(1)] none(1) [OF far(2)] quiet apart] r
  show ?thesis by blast
qed

end
