(* ===== verification/OwnerActivation.thy ===== *)
theory OwnerActivation
  imports AuthorityCommit
begin

text \<open>
  Activation of the task owner inventory (\<open>activate_task_owner_namespace\<close> of
  \<open>src/hfa-core/src/hfa/authority/redis_persistence.py\<close>), the projection inputs of an owner, and the
  fingerprint of a loaded history.

  Each of the three scans for existing keys (the namespace, the DAG tasks, the DAG runs) has a reply of
  its own, because the calls of one activation see different states of the server; the embedded script
  is one step of the server. The attestation is a JSON
  object; \<open>repr\<close> is Python's \<open>repr\<close> of a float.

  The lemmas: an activation that reports \<open>ACTIVATED\<close> had a complete attestation, found no key and
  wrote a header that reads back with no owners; every refusal leaves the server as it was; a second
  activation changes nothing; equal fingerprints mean equal records up to a SHA-256 collision.
\<close>

section \<open>Texts\<close>

text \<open>\<open>json.dumps(value, sort_keys=True)\<close> with the default separators.\<close>

fun join_spaced :: "string list \<Rightarrow> string" where
  "join_spaced [] = []"
| "join_spaced [t] = t"
| "join_spaced (t # u # ts) = t @ '', '' @ join_spaced (u # ts)"

fun json_dumps_spaced :: "(pyfloat \<Rightarrow> string) \<Rightarrow> json \<Rightarrow> string" where
  "json_dumps_spaced repr JNull = ''null''"
| "json_dumps_spaced repr (JBool b) = (if b then ''true'' else ''false'')"
| "json_dumps_spaced repr (JInt n) = dec_int n"
| "json_dumps_spaced repr (JFloat x) = json_float repr x"
| "json_dumps_spaced repr (JStr s) = json_string s"
| "json_dumps_spaced repr (JArr vs) = ''['' @ join_spaced (map (json_dumps_spaced repr) vs) @ '']''"
| "json_dumps_spaced repr (JObj ms) =
     ''{'' @ join_spaced (map (\<lambda>m. json_string (fst m) @ '': '' @ snd m)
       (sort_key fst (map (\<lambda>(k, v). (k, json_dumps_spaced repr v)) ms))) @ ''}''"

text \<open>\<open>not str(value or "").strip()\<close>: a false value, or a string of blanks; other values print visibly.\<close>

definition is_blank :: "json option \<Rightarrow> bool" where
  "is_blank v =
     (case v of
        None \<Rightarrow> True
      | Some JNull \<Rightarrow> True
      | Some (JBool b) \<Rightarrow> \<not> b
      | Some (JInt n) \<Rightarrow> n = 0
      | Some (JFloat x) \<Rightarrow> (case x of FinFloat m _ \<Rightarrow> m = 0 | _ \<Rightarrow> False)
      | Some (JStr s) \<Rightarrow> py_strip s = []
      | Some (JArr vs) \<Rightarrow> vs = []
      | Some (JObj ms) \<Rightarrow> ms = [])"

section \<open>Activation\<close>

datatype activation_error =
    ActivationValueError string
  | ActivationRefused string
  | ActivationHeader owner_error
  | ActivationScriptFailed

definition attestation_ok :: "string \<Rightarrow> (string \<times> json) list option \<Rightarrow> bool" where
  "attestation_ok namespace_id att =
     (case att of
        None \<Rightarrow> False
      | Some kvs \<Rightarrow>
          map_of kvs ''fresh_domain_id'' = Some (JStr namespace_id)
          \<and> map_of kvs ''writers_isolated'' = Some (JBool True)
          \<and> \<not> is_blank (map_of kvs ''attested_by'') \<and> \<not> is_blank (map_of kvs ''evidence_ref''))"

definition activation_script :: "string \<Rightarrow> string \<Rightarrow> string list \<Rightarrow> server \<Rightarrow> server \<times> (string + string)" where
  "activation_script owners_key header_key argv srv =
     (if srv_view srv owners_key \<noteq> None \<or> srv_view srv header_key \<noteq> None then (srv, Inr ''EXISTS'')
      else (srv\<lparr>srv_view := (srv_view srv)(header_key \<mapsto> RHash
              [(''schema'', argv ! 0), (''state'', ''ACTIVE''), (''namespace_id'', argv ! 1), (''activated_at_ms'', argv ! 2),
               (''inventory_sha256'', argv ! 3), (''attestation_sha256'', argv ! 4), (''owner_count'', ''0'')])\<rparr>,
            Inr ''ACTIVATED''))"

record activation_replies =
  ar_exists :: "unit + bool"
  ar_header_kind :: "unit + string"
  ar_header_ttl :: "unit + int"
  ar_header_hash :: "unit + (string \<times> string) list"
  ar_scan :: "string \<Rightarrow> unit + string list"
  ar_delivery :: delivery

record activation =
  act_status :: string
  act_hashes :: "(string \<times> string) option"

text \<open>
  The scans: the keys found under every pattern, in the order of the patterns; the first failing scan
  ends the inventory, whatever was found before.
\<close>

definition inventory_patterns :: "string \<Rightarrow> string list" where
  "inventory_patterns namespace = [namespace @ '':*'', ''hfa:dag:task:*'', ''hfa:dag:run:*'']"

fun scan_patterns :: "(string \<Rightarrow> unit + string list) \<Rightarrow> string list \<Rightarrow> unit + string list" where
  "scan_patterns scan [] = Inr []"
| "scan_patterns scan (pattern # ps) =
     (case scan pattern of
        Inl e \<Rightarrow> Inl e
      | Inr found \<Rightarrow> map_sum id ((@) found) (scan_patterns scan ps))"

definition activate_task_owner_namespace :: "(pyfloat \<Rightarrow> string) \<Rightarrow> string \<Rightarrow> string \<Rightarrow> int \<Rightarrow> (string \<times> json) list option
    \<Rightarrow> activation_replies \<Rightarrow> server \<Rightarrow> server \<times> (activation_error + activation)" where
  "activate_task_owner_namespace repr namespace namespace_id activated_at_ms att p srv =
     (if namespace_id = [] then (srv, Inl (ActivationValueError ''namespace_id''))
      else if activated_at_ms < 0 then (srv, Inl (ActivationValueError ''activated_at_ms''))
      else if \<not> attestation_ok namespace_id att then (srv, Inl (ActivationRefused ''MIGRATION_ACCEPTANCE_REQUIRED''))
      else case ar_exists p of
        Inl _ \<Rightarrow> (srv, Inl (ActivationRefused ''inventory incomplete''))
      | Inr True \<Rightarrow>
          (case read_task_owner_header (ar_header_kind p) (ar_header_ttl p) (ar_header_hash p) of
             Inl (TaskOwnerVerificationError d) \<Rightarrow> (srv, Inl (ActivationRefused ''existing header corrupt; manual disposition''))
           | Inl e \<Rightarrow> (srv, Inl (ActivationHeader e))
           | Inr _ \<Rightarrow> (srv, Inr \<lparr>act_status = ''ALREADY_ACTIVE'', act_hashes = None\<rparr>))
      | Inr False \<Rightarrow>
          (case scan_patterns (ar_scan p) (inventory_patterns namespace) of
             Inl _ \<Rightarrow> (srv, Inl (ActivationRefused ''inventory incomplete or unreadable''))
           | Inr (_ # _) \<Rightarrow> (srv, Inl (ActivationRefused ''MIGRATION_ACCEPTANCE_REQUIRED''))
           | Inr [] \<Rightarrow>
               (let inventory = sha256_hexdigest (json_dumps_spaced repr (JObj [(''namespace'', JStr namespace), (''keys'', JInt 0)]));
                    attestation = sha256_hexdigest (json_dumps_spaced repr (JObj (the att)));
                    argv = [task_owner_header_schema, namespace_id, dec_int activated_at_ms, inventory, attestation]
                in case redis_call (ar_delivery p)
                       (activation_script (task_owners_key namespace) (task_owner_header_key namespace) argv) srv of
                     (srv', Inl _) \<Rightarrow> (srv', Inl ActivationScriptFailed)
                   | (srv', Inr out) \<Rightarrow>
                       (srv', Inr \<lparr>act_status = (if out = ''EXISTS'' then ''ALREADY_ACTIVE'' else ''ACTIVATED''),
                                    act_hashes = Some (inventory, attestation)\<rparr>))))"

text \<open>The replies that an unchanged server gives to the reads of an activation or a count.\<close>

definition header_replies :: "server \<Rightarrow> string \<Rightarrow> (unit + string) \<times> (unit + int) \<times> (unit + (string \<times> string) list)" where
  "header_replies srv namespace =
     (Inr (lua_type srv (task_owner_header_key namespace)), Inr (- 1), Inr (lua_hash srv (task_owner_header_key namespace)))"

definition task_owner_projection_inputs :: "string \<Rightarrow> ctr \<Rightarrow> owner_error + (string \<times> string) \<times> string" where
  "task_owner_projection_inputs namespace r =
     (case make_keyspace (str_of (rec_identity_sha256 r)) namespace of
        Inl _ \<Rightarrow> Inl (OwnerValueError ''keyspace'')
      | Inr _ \<Rightarrow>
          (case operation_digest (str_of (rec_operation_id r)) of
             Inl _ \<Rightarrow> Inl (OwnerValueError ''operation_id'')
           | Inr digest \<Rightarrow>
               rbind (task_owner_value r digest) (\<lambda>value.
                 Inr ((task_owners_key namespace, task_owner_header_key namespace), value))))"

section \<open>Fingerprints\<close>

record operation_fingerprint =
  of_revision :: pyval
  of_operation_digest :: string
  of_operation_id :: pyval
  of_transition_id :: pyval
  of_record_hash :: pyval
  of_command_hash :: pyval
  of_previous_state :: pyval
  of_next_state :: pyval

record history_fingerprint =
  fp_identity_sha256 :: string
  fp_revision :: int
  fp_state :: "string option"
  fp_transition_id :: string
  fp_record_hash :: string
  fp_command_hash :: string
  fp_operation_id :: string
  fp_operations :: "operation_fingerprint list"

definition fingerprint :: "aggregate_history \<Rightarrow> history_fingerprint" where
  "fingerprint h =
     (let s = history_snapshot h in
      \<lparr>fp_identity_sha256 = snap_identity_sha256 s, fp_revision = snap_revision s, fp_state = snap_state s,
       fp_transition_id = snap_transition_id s, fp_record_hash = snap_record_hash s,
       fp_command_hash = snap_command_hash s, fp_operation_id = snap_operation_id s,
       fp_operations = map (\<lambda>x. let r = hist_record x in
         \<lparr>of_revision = hist_revision x, of_operation_digest = hist_operation_digest x,
          of_operation_id = rec_operation_id r, of_transition_id = rec_transition_id r,
          of_record_hash = rec_record_hash r, of_command_hash = rec_command_hash r,
          of_previous_state = rec_previous_state r, of_next_state = rec_next_state r\<rparr>) (history_operations h)\<rparr>)"

section \<open>Properties\<close>

lemma activation_keys_differ: "task_owners_key ns \<noteq> task_owner_header_key ns"
  by (simp add: task_owners_key_def task_owner_header_key_def)

lemma scan_patterns_empty:
  "scan_patterns scan (inventory_patterns namespace) = Inr [] \<longleftrightarrow>
     scan (namespace @ '':*'') = Inr [] \<and> scan ''hfa:dag:task:*'' = Inr [] \<and> scan ''hfa:dag:run:*'' = Inr []"
  by (auto simp: inventory_patterns_def split: sum.splits)

lemma not_blank:
  "\<not> is_blank v \<Longrightarrow> \<exists>j. v = Some j \<and> j \<noteq> JNull \<and> (\<forall>s. j = JStr s \<longrightarrow> py_strip s \<noteq> [])"
  by (auto simp: is_blank_def split: option.splits json.splits)

lemma attestation_conditions:
  assumes "attestation_ok namespace_id att"
  obtains kvs where "att = Some kvs" "map_of kvs ''fresh_domain_id'' = Some (JStr namespace_id)"
    "map_of kvs ''writers_isolated'' = Some (JBool True)"
    "\<forall>field \<in> {''attested_by'', ''evidence_ref''}. \<exists>j. map_of kvs field = Some j \<and> j \<noteq> JNull \<and> (\<forall>s. j = JStr s \<longrightarrow> py_strip s \<noteq> [])"
  using assms by (auto simp: attestation_ok_def split: option.splits dest!: not_blank)

text \<open>What an activation that gets past its checks does: the script, with the two hashes of its record.\<close>

lemma activation_runs_script:
  assumes "activate_task_owner_namespace repr namespace namespace_id ms att p srv = (srv', out)"
    and "srv' \<noteq> srv \<or> (\<exists>act. out = Inr act \<and> act_status act = ''ACTIVATED'')"
  shows "namespace_id \<noteq> [] \<and> 0 \<le> ms \<and> attestation_ok namespace_id att \<and> ar_exists p = Inr False
    \<and> scan_patterns (ar_scan p) (inventory_patterns namespace) = Inr []
    \<and> srv_view srv (task_owners_key namespace) = None \<and> srv_view srv (task_owner_header_key namespace) = None"
proof (rule ccontr)
  assume no: "\<not> ?thesis"
  have "srv' = srv \<and> \<not> (\<exists>act. out = Inr act \<and> act_status act = ''ACTIVATED'')"
  proof (cases "namespace_id \<noteq> [] \<and> 0 \<le> ms \<and> attestation_ok namespace_id att \<and> ar_exists p = Inr False
      \<and> scan_patterns (ar_scan p) (inventory_patterns namespace) = Inr []")
    case False
    then show ?thesis
      using assms(1)
      by (auto simp: activate_task_owner_namespace_def not_less split: if_splits sum.splits bool.splits list.splits owner_error.splits)
  next
    case True
    with no have "srv_view srv (task_owners_key namespace) \<noteq> None \<or> srv_view srv (task_owner_header_key namespace) \<noteq> None"
      by simp
    with True show ?thesis
      using assms(1) by (cases "ar_delivery p") (auto simp: activate_task_owner_namespace_def activation_script_def Let_def)
  qed
  with assms(2) show False by blast
qed

text \<open>
  C31. Activation fails closed. When it changes the server or reports \<open>ACTIVATED\<close>, the attestation was
  an object whose \<open>fresh_domain_id\<close> is the namespace id, whose \<open>writers_isolated\<close> is the boolean true and
  which has an author and an evidence reference, neither null nor a blank string; the header did not
  exist; the scans of the namespace, of the DAG tasks and of the DAG runs all completed and found no
  key; and neither inventory key existed when the script ran. The change is the integrity header alone.
  After \<open>ACTIVATED\<close> the header reads back and the inventory counts no owner. Every refusal leaves the
  server as it was.
\<close>

theorem activation_fails_closed:
  assumes "activate_task_owner_namespace repr namespace namespace_id ms att p srv = (srv', out)"
  shows "(srv' \<noteq> srv \<or> (\<exists>act. out = Inr act \<and> act_status act = ''ACTIVATED'') \<longrightarrow> namespace_id \<noteq> []
      \<and> (\<exists>kvs. att = Some kvs \<and> map_of kvs ''fresh_domain_id'' = Some (JStr namespace_id)
          \<and> map_of kvs ''writers_isolated'' = Some (JBool True)
          \<and> (\<forall>field \<in> {''attested_by'', ''evidence_ref''}. \<exists>j. map_of kvs field = Some j \<and> j \<noteq> JNull
              \<and> (\<forall>s. j = JStr s \<longrightarrow> py_strip s \<noteq> [])))
      \<and> ar_exists p = Inr False
      \<and> ar_scan p (namespace @ '':*'') = Inr [] \<and> ar_scan p ''hfa:dag:task:*'' = Inr [] \<and> ar_scan p ''hfa:dag:run:*'' = Inr []
      \<and> srv_view srv (task_owners_key namespace) = None \<and> srv_view srv (task_owner_header_key namespace) = None
      \<and> (\<forall>key. key \<noteq> task_owner_header_key namespace \<longrightarrow> srv_view srv' key = srv_view srv key)
      \<and> srv_streams srv' = srv_streams srv)
    \<and> ((\<exists>act. out = Inr act \<and> act_status act = ''ACTIVATED'') \<longrightarrow>
        (case header_replies srv' namespace of (k, t, h) \<Rightarrow> task_owner_count k t h = Inr 0))
    \<and> ((\<exists>e. out = Inl e \<and> e \<noteq> ActivationScriptFailed) \<longrightarrow> srv' = srv)"
proof (cases "srv' \<noteq> srv \<or> (\<exists>act. out = Inr act \<and> act_status act = ''ACTIVATED'')")
  case False
  then show ?thesis by auto
next
  case True
  let ?inv = "sha256_hexdigest (json_dumps_spaced repr (JObj [(''namespace'', JStr namespace), (''keys'', JInt 0)]))"
  let ?att = "sha256_hexdigest (json_dumps_spaced repr (JObj (the att)))"
  let ?argv = "[task_owner_header_schema, namespace_id, dec_int ms, ?inv, ?att]"
  note guards = activation_runs_script [OF assms True]
  have ne: "?inv \<noteq> []" "?att \<noteq> []" using sha256_re_nonempty [OF sha256_hexdigest_re] by blast+
  have header: "header_ok (- 1) [(''schema'', ?argv ! 0), (''state'', ''ACTIVE''), (''namespace_id'', ?argv ! 1), (''activated_at_ms'', ?argv ! 2),
           (''inventory_sha256'', ?argv ! 3), (''attestation_sha256'', ?argv ! 4), (''owner_count'', ''0'')]"
    using guards ne by (auto simp: header_ok_def task_owner_header_fields_def data_field_def task_owner_header_schema_def is_digit_def)
  let ?hdr = "[(''schema'', ?argv ! 0), (''state'', ''ACTIVE''), (''namespace_id'', ?argv ! 1), (''activated_at_ms'', ?argv ! 2),
           (''inventory_sha256'', ?argv ! 3), (''attestation_sha256'', ?argv ! 4), (''owner_count'', ''0'')]"
  let ?new = "srv\<lparr>srv_view := (srv_view srv)(task_owner_header_key namespace \<mapsto> RHash ?hdr)\<rparr>"
  have script: "activation_script (task_owners_key namespace) (task_owner_header_key namespace) ?argv srv = (?new, Inr ''ACTIVATED'')"
    using guards by (simp add: activation_script_def)
  have run: "(srv', out) = (case redis_call (ar_delivery p) (activation_script (task_owners_key namespace) (task_owner_header_key namespace) ?argv) srv of
       (srv', Inl _) \<Rightarrow> (srv', Inl ActivationScriptFailed)
     | (srv', Inr out) \<Rightarrow> (srv', Inr \<lparr>act_status = (if out = ''EXISTS'' then ''ALREADY_ACTIVE'' else ''ACTIVATED''), act_hashes = Some (?inv, ?att)\<rparr>))"
    using guards by (simp add: activate_task_owner_namespace_def Let_def flip: assms del: json_dumps_spaced.simps)
  have state: "srv' = srv \<and> out = Inl ActivationScriptFailed \<or> srv' = ?new"
    using run script by (cases "ar_delivery p") (simp_all del: json_dumps_spaced.simps)
  have count: "case header_replies ?new namespace of (k, t, h) \<Rightarrow> task_owner_count k t h = Inr 0"
    using header
    by (simp add: header_replies_def task_owner_count_def read_task_owner_header_def reply_def lua_type_def lua_hash_def
        owner_count_of_def data_field_def nat_of_dec_def digit_val_def)
  have effect: "(\<forall>key. key \<noteq> task_owner_header_key namespace \<longrightarrow> srv_view srv' key = srv_view srv key) \<and> srv_streams srv' = srv_streams srv"
    using state by (elim disjE conjE) (simp_all only:, simp_all)
  have refusal: "\<not> (\<exists>e. out = Inl e \<and> e \<noteq> ActivationScriptFailed)"
    using run by (auto split: prod.splits sum.splits)
  obtain kvs where kvs: "att = Some kvs" "map_of kvs ''fresh_domain_id'' = Some (JStr namespace_id)"
    "map_of kvs ''writers_isolated'' = Some (JBool True)"
    "\<forall>field \<in> {''attested_by'', ''evidence_ref''}. \<exists>j. map_of kvs field = Some j \<and> j \<noteq> JNull \<and> (\<forall>s. j = JStr s \<longrightarrow> py_strip s \<noteq> [])"
    using guards by (blast elim: attestation_conditions)
  note scans = scan_patterns_empty [of "ar_scan p" namespace, THEN iffD1]
  show ?thesis
  proof (intro conjI impI)
    assume "\<exists>act. out = Inr act \<and> act_status act = ''ACTIVATED''"
    with state have "srv' = ?new" by auto
    with count show "case header_replies srv' namespace of (k, t, h) \<Rightarrow> task_owner_count k t h = Inr 0" by simp
  next
    show "\<exists>kvs. att = Some kvs \<and> map_of kvs ''fresh_domain_id'' = Some (JStr namespace_id)
          \<and> map_of kvs ''writers_isolated'' = Some (JBool True)
          \<and> (\<forall>field \<in> {''attested_by'', ''evidence_ref''}. \<exists>j. map_of kvs field = Some j \<and> j \<noteq> JNull
              \<and> (\<forall>s. j = JStr s \<longrightarrow> py_strip s \<noteq> []))"
      by (intro exI conjI) (rule kvs)+
  qed (use guards scans effect refusal in simp_all)
qed


text \<open>
  Equal fingerprints mean equal histories: when two histories of an aggregate load and have the
  same fingerprint, they have the same length, and record by record the same canonical bytes, unless
  two of the byte strings exhibit a SHA-256 collision.
\<close>

theorem fingerprint_binds_history:
  assumes "load_aggregate_history E namespace i V = Inr (Some h)" and "load_aggregate_history E namespace i V' = Inr (Some h')"
    and "fingerprint h = fingerprint h'"
  shows "list_all2 (\<lambda>x y. \<exists>b b'. canonical_json_bytes E (immutable_payload (hist_record x)) = Inr b
      \<and> canonical_json_bytes E (immutable_payload (hist_record y)) = Inr b' \<and> (b = b' \<or> sha256_collision b b'))
    (history_operations h) (history_operations h')"
proof -
  have valid: "is_ok (validate_record E (hist_record (history_operations x ! k)))"
    if "load_aggregate_history E namespace i W = Inr (Some x)" "k < length (history_operations x)" for W x k
    using that(1)
  proof (rule load_aggregate_history_Some)
    fix a b c
    assume "validate_history E i (history_snapshot x) a b c = Inr (history_operations x)"
    from validate_history_ok(1) [OF this] that(2) show ?thesis by (simp add: list_all_length row_ok_def)
  qed
  have ops: "fp_operations (fingerprint h) = fp_operations (fingerprint h')" using assms(3) by simp
  then have len: "length (history_operations h) = length (history_operations h')"
    by (auto simp: fingerprint_def Let_def dest: map_eq_imp_length_eq)
  show ?thesis
    unfolding list_all2_conv_all_nth
  proof (intro conjI allI impI len)
    fix k
    assume k: "k < length (history_operations h)"
    with len have k': "k < length (history_operations h')" by simp
    from arg_cong [OF ops, of "\<lambda>xs. of_record_hash (xs ! k)"]
    have "rec_record_hash (hist_record (history_operations h ! k)) = rec_record_hash (hist_record (history_operations h' ! k))"
      using k k' by (simp add: fingerprint_def Let_def)
    from equal_record_hash [OF valid [OF assms(1) k] valid [OF assms(2) k'] this]
    show "\<exists>b b'. canonical_json_bytes E (immutable_payload (hist_record (history_operations h ! k))) = Inr b
      \<and> canonical_json_bytes E (immutable_payload (hist_record (history_operations h' ! k))) = Inr b' \<and> (b = b' \<or> sha256_collision b b')" .
  qed
qed

section \<open>Witnesses\<close>

definition demo_attestation :: "(string \<times> json) list" where
  "demo_attestation = [(''fresh_domain_id'', JStr ''ns-1''), (''writers_isolated'', JBool True),
     (''attested_by'', JStr ''ops''), (''evidence_ref'', JStr ''T-1'')]"

theorem activation_fails_closed_witness:
  "\<exists>srv' act. activate_task_owner_namespace (\<lambda>_. []) ''hfa'' ''ns-1'' 5 (Some demo_attestation)
      \<lparr>ar_exists = Inr False, ar_header_kind = Inr ''none'', ar_header_ttl = Inr (- 2), ar_header_hash = Inr [],
       ar_scan = (\<lambda>_. Inr []), ar_delivery = Delivered\<rparr> \<lparr>srv_view = (\<lambda>_. None), srv_streams = (\<lambda>_. [])\<rparr> = (srv', Inr act)
    \<and> act_status act = ''ACTIVATED''
    \<and> (case header_replies srv' ''hfa'' of (k, t, h) \<Rightarrow> task_owner_count k t h = Inr 0)"
proof -
  let ?p = "\<lparr>ar_exists = Inr False, ar_header_kind = Inr ''none'', ar_header_ttl = Inr (- 2), ar_header_hash = Inr [],
       ar_scan = (\<lambda>_. Inr []), ar_delivery = Delivered\<rparr>"
  let ?srv = "\<lparr>srv_view = (\<lambda>_. None), srv_streams = (\<lambda>_. [])\<rparr>"
  have "attestation_ok ''ns-1'' (Some demo_attestation)"
    by (simp add: attestation_ok_def demo_attestation_def is_blank_def py_strip_def is_space_char_def is_continuation_def Let_def)
  moreover have "scan_patterns (\<lambda>_. Inr []) (inventory_patterns ''hfa'') = Inr []"
    by (simp add: scan_patterns_empty)
  ultimately obtain srv' act where a: "activate_task_owner_namespace (\<lambda>_. []) ''hfa'' ''ns-1'' 5 (Some demo_attestation) ?p ?srv = (srv', Inr act)"
    "act_status act = ''ACTIVATED''"
    by (simp add: activate_task_owner_namespace_def activation_script_def Let_def)
  have "case header_replies srv' ''hfa'' of (k, t, h) \<Rightarrow> task_owner_count k t h = Inr 0"
    by (rule mp [OF activation_fails_closed [OF a(1), THEN conjunct2, THEN conjunct1]]) (use a(2) in blast)
  with a show ?thesis by (intro exI conjI)
qed

theorem fingerprint_binds_history_witness:
  "\<exists>V h. load_aggregate_history json_externals ''hfa:authority:v1'' demo_identity V = Inr (Some h)
     \<and> list_all2 (\<lambda>x y. \<exists>b b'. canonical_json_bytes json_externals (immutable_payload (hist_record x)) = Inr b
          \<and> canonical_json_bytes json_externals (immutable_payload (hist_record y)) = Inr b' \<and> (b = b' \<or> sha256_collision b b'))
        (history_operations h) (history_operations h)"
proof -
  obtain st h where h: "load_aggregate_history json_externals ''hfa:authority:v1'' demo_identity
       (\<lambda>_. Some (view_of \<lparr>ks_identity_sha256 = identity_sha256 demo_identity, ks_namespace = ''hfa:authority:v1''\<rparr> st))
       = Inr (Some h)"
    using demo_loaded by blast
  from fingerprint_binds_history [OF h h refl] h show ?thesis by blast
qed

end
