(* ===== verification/BudgetGuard.thy ===== *)
theory BudgetGuard
  imports RedisOps
begin

text \<open>
  The per-run budget of \<open>src/hfa-core/src/hfa/governance/budget_guard.py\<close>. The server state and the
  Redis commands are parameters (theory RedisOps); the four Lua scripts embedded in the file and all
  methods of \<open>BudgetGuard\<close> are definitions. An operation returns the new server state with either
  the raised exception or the result. \<open>net k\<close> is the fate of the \<open>k\<close>-th Redis call of an operation.
  \<open>debit\<close> is composed of \<open>debit_precheck\<close> (the limit read and the check script) and
  \<open>debit_commit\<close> (the debit script), because these are separate server calls between which other
  clients run.

  The lemmas: what a debit does on every branch and under every delivery fault, that each operation
  touches the three keys of its run only, the cap on the spent counter along every history of
  operations, that a frozen budget cannot be spent, round trips through recovery and reading, and
  the two-client schedule in which the separate check lets the counter pass the limit.
\<close>

section \<open>Currency conversion\<close>

text \<open>Round to 53 significant bits, ties to even: the result of an IEEE-754 double operation.\<close>

definition round53 :: "nat \<Rightarrow> nat" where
  "round53 n =
     (let k = bit_len n - 53; q = n div 2 ^ k; r = n mod 2 ^ k
      in (if 2 * r > 2 ^ k \<or> 2 * r = 2 ^ k \<and> odd q then q + 1 else q) * 2 ^ k)"

definition ceil_shift :: "nat \<Rightarrow> int \<Rightarrow> nat" where
  "ceil_shift m e = (if 0 \<le> e then m * 2 ^ nat e else (m + 2 ^ nat (- e) - 1) div 2 ^ nat (- e))"

datatype budget_error =
    TypeError string
  | ValueError string
  | OverflowError string
  | BudgetExhaustedError string string int int
  | BudgetGuardError string

definition usd_to_cents :: "pyfloat \<Rightarrow> budget_error + int" where
  "usd_to_cents usd =
     (case usd of
        FinFloat m e \<Rightarrow>
          (if m < 0 then Inl (ValueError ''usd must be non-negative'')
           else let p = round53 (nat m * 100)
                in if int (bit_len p) + e > 1024 then Inl (OverflowError ''ceil of infinity'')
                   else Inr (max 1 (int (ceil_shift p e))))
      | NegInf \<Rightarrow> Inl (ValueError ''usd must be non-negative'')
      | PosInf \<Rightarrow> Inl (OverflowError ''ceil of infinity'')
      | NaN \<Rightarrow> Inl (ValueError ''ceil of nan''))"

section \<open>Data\<close>

datatype budget_status = ACTIVE | EXHAUSTED | FROZEN

fun budget_status_value :: "budget_status \<Rightarrow> string" where
  "budget_status_value ACTIVE = ''active''"
| "budget_status_value EXHAUSTED = ''exhausted''"
| "budget_status_value FROZEN = ''frozen''"

definition budget_status_of :: "string \<Rightarrow> budget_status option" where
  "budget_status_of s = find (\<lambda>st. budget_status_value st = s) [ACTIVE, EXHAUSTED, FROZEN]"

record budget_state =
  bs_tenant_id :: string
  bs_run_id :: string
  bs_spent_cents :: int
  bs_limit_cents :: int
  bs_status :: budget_status
  bs_remaining_cents :: int

definition make_budget_state :: "string \<Rightarrow> string \<Rightarrow> int \<Rightarrow> int \<Rightarrow> budget_status \<Rightarrow> budget_state" where
  "make_budget_state tenant_id run_id spent lim status =
     \<lparr>bs_tenant_id = tenant_id, bs_run_id = run_id, bs_spent_cents = spent, bs_limit_cents = lim,
      bs_status = status, bs_remaining_cents = max 0 (lim - spent)\<rparr>"

type_synonym environ = "string \<Rightarrow> string option"

definition false_values :: "string list" where
  "false_values = ['''', ''0'', ''false'', ''False'', ''no'', ''NO'', ''off'', ''OFF'']"

definition is_strict_mode_enabled :: "environ \<Rightarrow> bool" where
  "is_strict_mode_enabled env =
     (let fallback = (case env ''IRONCLAD_STRICT_MODE'' of None \<Rightarrow> ''0'' | Some v \<Rightarrow> v);
          flag = (case env ''IRON_STRICT_MODE'' of None \<Rightarrow> fallback | Some v \<Rightarrow> v)
      in flag \<notin> set false_values)"

text \<open>\<open>bg_loaded\<close> says that \<open>initialise\<close> cached the script digests.\<close>

record budget_guard =
  bg_prefix :: string
  bg_fail_open :: bool
  bg_loaded :: bool

definition make_budget_guard :: "environ \<Rightarrow> string \<Rightarrow> bool \<Rightarrow> budget_guard" where
  "make_budget_guard env key_prefix fail_open =
     \<lparr>bg_prefix = key_prefix,
      bg_fail_open = (if fail_open \<and> is_strict_mode_enabled env then False else fail_open),
      bg_loaded = False\<rparr>"

text \<open>
  Four \<open>SCRIPT LOAD\<close> calls; the guard counts as initialised once the first digest is stored, even
  when a later call fails.
\<close>

definition initialise :: "(nat \<Rightarrow> delivery) \<Rightarrow> budget_guard \<Rightarrow> budget_guard \<times> (budget_error + unit)" where
  "initialise net G =
     (let G' = (if net 0 = Delivered then G\<lparr>bg_loaded := True\<rparr> else G)
      in if \<forall>k \<in> set [0..<4]. net k = Delivered then (G', Inr ())
         else (G', Inl (BudgetGuardError ''Failed to load Lua scripts'')))"

definition budget_base :: "budget_guard \<Rightarrow> string \<Rightarrow> string \<Rightarrow> string" where
  "budget_base G tenant_id run_id = bg_prefix G @ '':'' @ tenant_id @ '':'' @ run_id"

definition limit_key :: "budget_guard \<Rightarrow> string \<Rightarrow> string \<Rightarrow> string" where
  "limit_key G tenant_id run_id = budget_base G tenant_id run_id @ '':limit_cents''"

definition spent_key :: "budget_guard \<Rightarrow> string \<Rightarrow> string \<Rightarrow> string" where
  "spent_key G tenant_id run_id = budget_base G tenant_id run_id @ '':spent_cents''"

definition status_key :: "budget_guard \<Rightarrow> string \<Rightarrow> string \<Rightarrow> string" where
  "status_key G tenant_id run_id = budget_base G tenant_id run_id @ '':status''"

section \<open>Lua scripts\<close>

definition lua_or :: "string option \<Rightarrow> string \<Rightarrow> string" where
  "lua_or reply dflt = (case reply of None \<Rightarrow> dflt | Some v \<Rightarrow> v)"

definition debit_script ::
  "'s redis_ops \<Rightarrow> string \<Rightarrow> string \<Rightarrow> string \<Rightarrow> string \<Rightarrow> 's \<Rightarrow> 's \<times> (string + (string \<times> string))" where
  "debit_script R key1 key2 argv1 argv2 s =
     (case (lua_tonumber (lua_or (redis_get R s key1) ''0''), lua_tonumber argv1) of
        (Some current, Some amount) \<Rightarrow>
          (let new_spent = current + amount;
               s1 = redis_set R s key1 (lua_tostring new_spent)
           in case lua_tonumber argv2 of
                None \<Rightarrow> (s1, Inl ''attempt to compare nil with number'')
              | Some lim \<Rightarrow>
                  (if new_spent \<ge> lim
                   then (redis_set R s1 key2 ''exhausted'', Inr (lua_tostring new_spent, ''exhausted''))
                   else ((if redis_get R s1 key2 \<noteq> Some ''frozen''
                          then redis_set R s1 key2 ''active'' else s1),
                         Inr (lua_tostring new_spent, ''active''))))
      | _ \<Rightarrow> (s, Inl ''attempt to perform arithmetic on a nil value''))"

definition check_script ::
  "'s redis_ops \<Rightarrow> string \<Rightarrow> string \<Rightarrow> string \<Rightarrow> string \<Rightarrow> 's \<Rightarrow> 's \<times> (string + int)" where
  "check_script R key1 key2 argv1 argv2 s =
     (let status = lua_or (redis_get R s key2) ''active''
      in if status = ''frozen'' \<or> status = ''exhausted'' then (s, Inr 0)
         else case (lua_tonumber (lua_or (redis_get R s key1) ''0''), lua_tonumber argv1, lua_tonumber argv2) of
                (Some current, Some amount, Some lim) \<Rightarrow>
                  (if current + amount > lim then (s, Inr 0) else (s, Inr 1))
              | _ \<Rightarrow> (s, Inl ''attempt to perform arithmetic on a nil value''))"

definition freeze_script :: "'s redis_ops \<Rightarrow> string \<Rightarrow> 's \<Rightarrow> 's \<times> (string + int)" where
  "freeze_script R key1 s = (redis_set R s key1 ''frozen'', Inr 1)"

definition reset_script :: "'s redis_ops \<Rightarrow> string \<Rightarrow> string \<Rightarrow> 's \<Rightarrow> 's \<times> (string + int)" where
  "reset_script R key1 key2 s =
     (redis_set R (redis_set R s key1 ''0'') key2 ''active'', Inr 1)"

section \<open>Operations\<close>

text \<open>A Redis call of a guard method: any exception becomes one that the method handles.\<close>

definition guard_call :: "string \<Rightarrow> delivery \<Rightarrow> ('s \<Rightarrow> 's \<times> (string + 'a)) \<Rightarrow> 's \<Rightarrow> 's \<times> (budget_error + 'a)" where
  "guard_call msg d f s =
     (case redis_call d f s of (s', Inl _) \<Rightarrow> (s', Inl (BudgetGuardError msg)) | (s', Inr x) \<Rightarrow> (s', Inr x))"

definition set_budget ::
  "'s redis_ops \<Rightarrow> budget_guard \<Rightarrow> delivery \<Rightarrow> string \<Rightarrow> string \<Rightarrow> pyval \<Rightarrow> bool \<Rightarrow> 's \<Rightarrow> 's \<times> (budget_error + unit)" where
  "set_budget R G d tenant_id run_id limit_cents reset_spent s =
     (case py_int_like limit_cents of
        None \<Rightarrow> (s, Inl (TypeError ''limit_cents must be int''))
      | Some n \<Rightarrow>
          (if n \<le> 0 then (s, Inl (ValueError ''limit_cents must be positive''))
           else guard_call ''set_budget Redis failure'' d
                  (\<lambda>s. let s1 = redis_set R s (limit_key G tenant_id run_id) (py_str_int limit_cents)
                       in ((if reset_spent
                            then redis_set R (redis_set R s1 (spent_key G tenant_id run_id) ''0'')
                                   (status_key G tenant_id run_id) ''active''
                            else redis_setnx R (redis_setnx R s1 (spent_key G tenant_id run_id) ''0'')
                                   (status_key G tenant_id run_id) ''active''),
                           Inr ())) s))"

definition get_limit_cents ::
  "'s redis_ops \<Rightarrow> delivery \<Rightarrow> string \<Rightarrow> 's \<Rightarrow> 's \<times> (budget_error + int)" where
  "get_limit_cents R d key =
     sbind (guard_call ''redis'' d (\<lambda>s. (s, Inr (redis_get R s key))))
       (\<lambda>raw. case raw of
          None \<Rightarrow> sraise (BudgetGuardError ''Budget not initialised'')
        | Some t \<Rightarrow> (case py_int_of_str t of None \<Rightarrow> sraise (ValueError ''int'') | Some n \<Rightarrow> sreturn n))"

text \<open>\<open>int(raw or 0)\<close>.\<close>

definition int_or_zero :: "string option \<Rightarrow> int option" where
  "int_or_zero raw = (case raw of None \<Rightarrow> Some 0 | Some t \<Rightarrow> if t = [] then Some 0 else py_int_of_str t)"

text \<open>\<open>raw or dflt\<close> on an optional string: Python takes the empty string for false as well.\<close>

definition str_or :: "string option \<Rightarrow> string \<Rightarrow> string" where
  "str_or raw dflt = (case raw of None \<Rightarrow> dflt | Some v \<Rightarrow> if v = [] then dflt else v)"

definition debit_precheck ::
  "'s redis_ops \<Rightarrow> budget_guard \<Rightarrow> (nat \<Rightarrow> delivery) \<Rightarrow> string \<Rightarrow> string \<Rightarrow> pyval \<Rightarrow> int \<Rightarrow> 's \<Rightarrow> 's \<times> (budget_error + int)" where
  "debit_precheck R G net tenant_id run_id amount_cents n =
     sbind (get_limit_cents R (net 0) (limit_key G tenant_id run_id))
       (\<lambda>lim. sbind (guard_call ''redis'' (net 1)
            (check_script R (spent_key G tenant_id run_id) (status_key G tenant_id run_id)
               (py_str_int amount_cents) (dec_int lim)))
         (\<lambda>can_spend. if can_spend \<noteq> 0 then sreturn lim
            else sbind (guard_call ''redis'' (net 2) (\<lambda>s. (s, Inr (redis_get R s (spent_key G tenant_id run_id)))))
                   (\<lambda>raw. case int_or_zero raw of
                      None \<Rightarrow> sraise (ValueError ''int'')
                    | Some current \<Rightarrow>
                        sraise (BudgetExhaustedError tenant_id run_id n (max 0 (lim - current))))))"

definition debit_commit ::
  "'s redis_ops \<Rightarrow> budget_guard \<Rightarrow> delivery \<Rightarrow> string \<Rightarrow> string \<Rightarrow> pyval \<Rightarrow> int \<Rightarrow> 's \<Rightarrow> 's \<times> (budget_error + budget_state)" where
  "debit_commit R G d tenant_id run_id amount_cents lim =
     sbind (guard_call ''redis'' d
         (debit_script R (spent_key G tenant_id run_id) (status_key G tenant_id run_id)
            (py_str_int amount_cents) (dec_int lim)))
       (\<lambda>(spent_text, status_text).
          case (py_int_of_str spent_text, budget_status_of status_text) of
            (Some spent, Some status) \<Rightarrow> sreturn (make_budget_state tenant_id run_id spent lim status)
          | _ \<Rightarrow> sraise (ValueError ''int''))"

definition int_max_sentinel :: int where
  "int_max_sentinel = 2147483647"

definition debit ::
  "'s redis_ops \<Rightarrow> environ \<Rightarrow> budget_guard \<Rightarrow> (nat \<Rightarrow> delivery) \<Rightarrow> string \<Rightarrow> string \<Rightarrow> pyval \<Rightarrow> 's
     \<Rightarrow> 's \<times> (budget_error + budget_state)" where
  "debit R env G net tenant_id run_id amount_cents s =
     (case py_int_like amount_cents of
        None \<Rightarrow> (s, Inl (TypeError ''amount_cents must be int''))
      | Some n \<Rightarrow>
          (if n < 1 then (s, Inl (ValueError ''amount_cents must be at least 1''))
           else if \<not> bg_loaded G then (s, Inl (BudgetGuardError ''BudgetGuard not initialised''))
           else case sbind (debit_precheck R G net tenant_id run_id amount_cents n)
                       (debit_commit R G (net 2) tenant_id run_id amount_cents) s of
                  (s', Inr state) \<Rightarrow> (s', Inr state)
                | (s', Inl (BudgetExhaustedError t r a rem)) \<Rightarrow> (s', Inl (BudgetExhaustedError t r a rem))
                | (s', Inl _) \<Rightarrow>
                    (if bg_fail_open G \<and> \<not> is_strict_mode_enabled env
                     then (s', Inr (make_budget_state tenant_id run_id 0 int_max_sentinel ACTIVE))
                     else (s', Inl (BudgetGuardError ''debit Redis failure'')))))"

definition get_state ::
  "'s redis_ops \<Rightarrow> budget_guard \<Rightarrow> delivery \<Rightarrow> string \<Rightarrow> string \<Rightarrow> 's \<Rightarrow> 's \<times> (budget_error + budget_state)" where
  "get_state R G d tenant_id run_id =
     sbind (guard_call ''get_state Redis failure'' d
         (\<lambda>s. (s, Inr (redis_get R s (limit_key G tenant_id run_id), redis_get R s (spent_key G tenant_id run_id),
                        redis_get R s (status_key G tenant_id run_id)))))
       (\<lambda>(limit_raw, spent_raw, status_raw).
          case limit_raw of
            None \<Rightarrow> sraise (BudgetGuardError ''Budget not initialised'')
          | Some lt \<Rightarrow>
              (case (int_or_zero spent_raw, py_int_of_str lt,
                     budget_status_of (str_or status_raw ''active'')) of
                 (Some spent, Some lim, Some status) \<Rightarrow>
                   sreturn (make_budget_state tenant_id run_id spent lim status)
               | _ \<Rightarrow> sraise (BudgetGuardError ''get_state Redis failure'')))"

definition freeze_budget ::
  "'s redis_ops \<Rightarrow> budget_guard \<Rightarrow> delivery \<Rightarrow> string \<Rightarrow> string \<Rightarrow> 's \<Rightarrow> 's \<times> (budget_error + unit)" where
  "freeze_budget R G d tenant_id run_id s =
     (if \<not> bg_loaded G then (s, Inl (BudgetGuardError ''BudgetGuard not initialised''))
      else sbind (guard_call ''freeze Redis failure'' d (freeze_script R (status_key G tenant_id run_id)))
             (\<lambda>_. sreturn ()) s)"

definition reset_budget ::
  "'s redis_ops \<Rightarrow> budget_guard \<Rightarrow> delivery \<Rightarrow> string \<Rightarrow> string \<Rightarrow> 's \<Rightarrow> 's \<times> (budget_error + unit)" where
  "reset_budget R G d tenant_id run_id s =
     (if \<not> bg_loaded G then (s, Inl (BudgetGuardError ''BudgetGuard not initialised''))
      else sbind (guard_call ''reset Redis failure'' d
               (reset_script R (spent_key G tenant_id run_id) (status_key G tenant_id run_id)))
             (\<lambda>_. sreturn ()) s)"

definition recover_run ::
  "'s redis_ops \<Rightarrow> budget_guard \<Rightarrow> delivery \<Rightarrow> string \<Rightarrow> string \<Rightarrow> pyval \<Rightarrow> pyval \<Rightarrow> 's \<Rightarrow> 's \<times> (budget_error + unit)" where
  "recover_run R G d tenant_id run_id limit_cents spent_cents s =
     (case (py_int_like limit_cents, py_int_like spent_cents) of
        (None, _) \<Rightarrow> (s, Inl (TypeError ''limit_cents must be int''))
      | (_, None) \<Rightarrow> (s, Inl (TypeError ''spent_cents must be int''))
      | (Some lim, Some spent) \<Rightarrow>
          guard_call ''recover_run Redis failure'' d
            (\<lambda>s. (redis_set R
                    (redis_set R (redis_set R s (limit_key G tenant_id run_id) (py_str_int limit_cents))
                       (spent_key G tenant_id run_id) (py_str_int spent_cents))
                    (status_key G tenant_id run_id) (if spent \<ge> lim then ''exhausted'' else ''active''),
                  Inr ())) s)"

section \<open>Keys\<close>

definition budget_keys :: "budget_guard \<Rightarrow> string \<Rightarrow> string \<Rightarrow> string set" where
  "budget_keys G t r = {limit_key G t r, spent_key G t r, status_key G t r}"

lemmas budget_key_defs = limit_key_def spent_key_def status_key_def

lemma budget_keys_distinct [simp]:
  "limit_key G t r \<noteq> spent_key G t r" "spent_key G t r \<noteq> limit_key G t r"
  "limit_key G t r \<noteq> status_key G t r" "status_key G t r \<noteq> limit_key G t r"
  "spent_key G t r \<noteq> status_key G t r" "status_key G t r \<noteq> spent_key G t r"
  by (simp_all add: budget_key_defs)

lemma last_sep_unique:
  assumes "xs @ c # ys = us @ c # vs" and "c \<notin> set ys" and "c \<notin> set vs"
  shows "xs = us \<and> ys = vs"
proof -
  from assms(1) have "rev ys @ c # rev xs = rev vs @ c # rev us"
    by (metis append.assoc append_Cons append_Nil rev.simps(2) rev_append)
  then have "rev ys = rev vs \<and> rev xs = rev us"
    by (rule split_at_sep) (use assms(2,3) in auto)
  then show ?thesis by simp
qed

lemma budget_base_inj:
  assumes "CHR '':'' \<notin> set t" and "CHR '':'' \<notin> set t'" and "budget_base G t r = budget_base G t' r'"
  shows "t = t' \<and> r = r'"
  using assms split_at_sep [of t "CHR '':''" r t' r'] by (simp add: budget_base_def)

lemma budget_keys_base:
  assumes "k \<in> budget_keys G t r" and "k \<in> budget_keys G t' r'"
  shows "budget_base G t r = budget_base G t' r'"
proof -
  have "\<exists>sfx. CHR '':'' \<notin> set sfx \<and> k = budget_base G t r @ CHR '':'' # sfx" if "k \<in> budget_keys G t r" for t r
    using that by (auto simp: budget_keys_def budget_key_defs)
  with assms obtain x y where "CHR '':'' \<notin> set x" "k = budget_base G t r @ CHR '':'' # x"
    "CHR '':'' \<notin> set y" "k = budget_base G t' r' @ CHR '':'' # y" by metis
  then show ?thesis using last_sep_unique [of "budget_base G t r" "CHR '':''" x "budget_base G t' r'" y] by simp
qed

lemma budget_keys_disjoint:
  assumes "CHR '':'' \<notin> set t" and "CHR '':'' \<notin> set t'" and "(t, r) \<noteq> (t', r')"
  shows "budget_keys G t r \<inter> budget_keys G t' r' = {}"
  using assms budget_keys_base budget_base_inj by blast

section \<open>The cells of a run\<close>

text \<open>
  The abstraction of a run's three keys: limit, spent counter and status. \<open>abs_debit\<close> is what a
  debit promises: denied when the budget is not active or the amount does not fit, otherwise the
  counter grows and the status is exhausted exactly when the limit is reached.
\<close>

definition budget_cells :: "'s redis_ops \<Rightarrow> budget_guard \<Rightarrow> string \<Rightarrow> string \<Rightarrow> 's \<Rightarrow> int \<Rightarrow> int \<Rightarrow> budget_status \<Rightarrow> bool" where
  "budget_cells R G t r s lim spent st \<longleftrightarrow>
     redis_get R s (limit_key G t r) = Some (dec_int lim)
     \<and> redis_get R s (spent_key G t r) = Some (dec_int spent)
     \<and> redis_get R s (status_key G t r) = Some (budget_status_value st)"

definition status_after :: "int \<Rightarrow> int \<Rightarrow> budget_status" where
  "status_after lim spent = (if spent \<ge> lim then EXHAUSTED else ACTIVE)"

definition abs_debit :: "int \<Rightarrow> int \<Rightarrow> budget_status \<Rightarrow> int \<Rightarrow> (int \<times> budget_status) option" where
  "abs_debit lim spent st n =
     (if st \<noteq> ACTIVE \<or> spent + n > lim then None else Some (spent + n, status_after lim (spent + n)))"

lemma budget_status_value_inj [simp]: "budget_status_value a = budget_status_value b \<longleftrightarrow> a = b"
  by (cases a; cases b) simp_all

lemma budget_status_of_value [simp]: "budget_status_of (budget_status_value st) = Some st"
  by (cases st) (simp_all add: budget_status_of_def)

lemma budget_status_of_texts [simp]:
  "budget_status_of ''active'' = Some ACTIVE" "budget_status_of ''exhausted'' = Some EXHAUSTED"
  by (simp_all add: budget_status_of_def)

lemma guard_call_cases:
  "guard_call msg d f s =
     (case d of
        Delivered \<Rightarrow> (case f s of (s', Inl _) \<Rightarrow> (s', Inl (BudgetGuardError msg)) | (s', Inr x) \<Rightarrow> (s', Inr x))
      | Request_lost \<Rightarrow> (s, Inl (BudgetGuardError msg))
      | Reply_lost \<Rightarrow> (fst (f s), Inl (BudgetGuardError msg)))"
  by (simp add: guard_call_def split: delivery.splits)

lemma int_or_zero_dec [simp]: "int_or_zero (Some (dec_int n)) = Some n"
  by (simp add: int_or_zero_def)

lemma lua_or_Some [simp]: "lua_or (Some v) x = v"
  by (simp add: lua_or_def)

lemma lua_tonumber_bool [simp]: "lua_tonumber (py_str_int (PBool b)) = None"
  by (simp add: lua_tonumber_def py_str_int_def parse_dec_def is_digit_def)

lemma get_limit_cents_eval:
  assumes "redis_get R s key = Some (dec_int lim)"
  shows "get_limit_cents R d key s = (if d = Delivered then (s, Inr lim) else (s, Inl (BudgetGuardError ''redis'')))"
  using assms by (cases d) (simp_all add: get_limit_cents_def sbind_def guard_call_cases)

lemma check_script_eval:
  assumes "budget_cells R G t r s lim spent st"
  shows "check_script R (spent_key G t r) (status_key G t r) (py_str_int a) (dec_int lim) s =
    (s, if st \<noteq> ACTIVE then Inr 0
        else case lua_tonumber (py_str_int a) of
               None \<Rightarrow> Inl ''attempt to perform arithmetic on a nil value''
             | Some n \<Rightarrow> Inr (if spent + n > lim then 0 else 1))"
  using assms by (cases st) (auto simp: check_script_def budget_cells_def split: option.splits)

text \<open>
  The debit script looks at the status only while the limit is not reached: on an active budget, or
  when the new counter reaches the limit, it stores the status that belongs to the counter.
\<close>

lemma debit_script_eval:
  assumes laws: "redis_laws R" and cells: "budget_cells R G t r s lim spent st"
    and n: "\<bar>spent + n\<bar> < 10 ^ 14" and st: "st = ACTIVE \<or> lim \<le> spent + n"
  shows "\<exists>s'. debit_script R (spent_key G t r) (status_key G t r) (dec_int n) (dec_int lim) s
      = (s', Inr (dec_int (spent + n), budget_status_value (status_after lim (spent + n))))
    \<and> budget_cells R G t r s' lim (spent + n) (status_after lim (spent + n))
    \<and> (\<forall>k. k \<notin> budget_keys G t r \<longrightarrow> redis_get R s' k = redis_get R s k)"
  using cells n st
  by (auto simp: debit_script_def budget_cells_def status_after_def redis_get_set [OF laws] Let_def budget_keys_def)

section \<open>A debit under every delivery\<close>

lemma debit_precheck_state [simp]: "fst (debit_precheck R G net t r a n s) = s"
  by (auto simp: debit_precheck_def get_limit_cents_def sbind_def guard_call_cases check_script_def Let_def
      split: delivery.splits option.splits sum.splits prod.splits)

lemma debit_precheck_Inr:
  assumes cells: "budget_cells R G t r s lim spent st"
    and ok: "debit_precheck R G net t r a n s = (s', Inr lim')"
  shows "\<exists>m. s' = s \<and> lim' = lim \<and> st = ACTIVE \<and> lua_tonumber (py_str_int a) = Some m \<and> spent + m \<le> lim"
proof -
  have lim: "redis_get R s (limit_key G t r) = Some (dec_int lim)" using cells by (simp add: budget_cells_def)
  show ?thesis
    using ok
    by (auto simp: debit_precheck_def sbind_def get_limit_cents_eval [OF lim] guard_call_cases
        check_script_eval [OF cells] split: if_splits delivery.splits option.splits prod.splits sum.splits)
qed

lemma debit_precheck_delivered:
  assumes cells: "budget_cells R G t r s lim spent st" and net: "\<And>k. net k = Delivered"
  shows "debit_precheck R G net t r (PInt n) n s =
    (s, if abs_debit lim spent st n = None
        then Inl (BudgetExhaustedError t r n (max 0 (lim - spent))) else Inr lim)"
proof -
  have lim: "redis_get R s (limit_key G t r) = Some (dec_int lim)"
    and sp: "redis_get R s (spent_key G t r) = Some (dec_int spent)" using cells by (simp_all add: budget_cells_def)
  note chk = check_script_eval [OF cells, of "PInt n", unfolded wire_numbers option.case]
  show ?thesis
    by (simp add: debit_precheck_def sbind_def get_limit_cents_eval [OF lim] net guard_call_cases
        chk abs_debit_def sp)
qed

lemma debit_commit_eval:
  assumes laws: "redis_laws R" and cells: "budget_cells R G t r s lim spent st"
    and n: "\<bar>spent + n\<bar> < 10 ^ 14" and st: "st = ACTIVE \<or> lim \<le> spent + n"
  shows "\<exists>s'. debit_commit R G d t r (PInt n) lim s =
      (if d = Delivered
       then (s', Inr (make_budget_state t r (spent + n) lim (status_after lim (spent + n))))
       else (if d = Reply_lost then s' else s, Inl (BudgetGuardError ''redis'')))
    \<and> budget_cells R G t r s' lim (spent + n) (status_after lim (spent + n))
    \<and> (\<forall>k. k \<notin> budget_keys G t r \<longrightarrow> redis_get R s' k = redis_get R s k)"
proof -
  obtain s' where s': "debit_script R (spent_key G t r) (status_key G t r) (dec_int n) (dec_int lim) s
      = (s', Inr (dec_int (spent + n), budget_status_value (status_after lim (spent + n))))"
    "budget_cells R G t r s' lim (spent + n) (status_after lim (spent + n))"
    "\<forall>k. k \<notin> budget_keys G t r \<longrightarrow> redis_get R s' k = redis_get R s k"
    using debit_script_eval [OF laws cells n st] by blast
  show ?thesis
    by (intro exI [of _ s']) (cases d; simp add: debit_commit_def sbind_def guard_call_cases s' wire_numbers)
qed

lemma debit_effect:
  assumes laws: "redis_laws R" and cells: "budget_cells R G t r s lim spent st"
    and range: "0 \<le> spent" "lim < 10 ^ 14"
    and run: "debit R env G net t r a s = (s', res)"
  shows "s' = s \<or> (\<exists>n. py_int_like a = Some n \<and> 1 \<le> n \<and> st = ACTIVE \<and> spent + n \<le> lim
            \<and> budget_cells R G t r s' lim (spent + n) (status_after lim (spent + n))
            \<and> (\<forall>k. k \<notin> budget_keys G t r \<longrightarrow> redis_get R s' k = redis_get R s k))"
proof (rule ccontr)
  assume no: "\<not> ?thesis"
  obtain n where n: "py_int_like a = Some n" "1 \<le> n" "bg_loaded G"
    using run no by (auto simp: debit_def split: option.splits if_splits)
  obtain p where p: "debit_precheck R G net t r a n s = (s, p)"
    by (metis debit_precheck_state prod.collapse)
  show False
  proof (cases p)
    case (Inl e)
    with p n run no show False
      by (auto simp: debit_def sbind_def split: budget_error.splits if_splits)
  next
    case (Inr lim')
    with p obtain m where m: "lim' = lim" "st = ACTIVE" "lua_tonumber (py_str_int a) = Some m" "spent + m \<le> lim"
      using debit_precheck_Inr [OF cells] by metis
    have a: "a = PInt n"
      using n(1) m(3) by (auto simp: py_int_like_def split: pyval.splits if_splits)
    with m n have "\<bar>spent + n\<bar> < 10 ^ 14" "spent + n \<le> lim" using range by auto
    moreover note cells
    ultimately obtain u where u: "debit_commit R G (net 2) t r (PInt n) lim s =
      (if net 2 = Delivered
       then (u, Inr (make_budget_state t r (spent + n) lim (status_after lim (spent + n))))
       else (if net 2 = Reply_lost then u else s, Inl (BudgetGuardError ''redis'')))"
      "budget_cells R G t r u lim (spent + n) (status_after lim (spent + n))"
      "\<forall>k. k \<notin> budget_keys G t r \<longrightarrow> redis_get R u k = redis_get R s k"
      using debit_commit_eval [OF laws] m(2) by metis
    have "s' = u \<or> s' = s"
      using run p Inr m n a u(1) by (auto simp: debit_def sbind_def split: if_splits)
    with u(2,3) no n m(2) \<open>spent + n \<le> lim\<close> show False by auto
  qed
qed

lemma debit_delivered:
  assumes laws: "redis_laws R" and cells: "budget_cells R G t r s lim spent st"
    and range: "0 \<le> spent" "lim < 10 ^ 14" and "1 \<le> n" "bg_loaded G" and net: "\<And>k. net k = Delivered"
  shows "case abs_debit lim spent st n of
      None \<Rightarrow> debit R env G net t r (PInt n) s = (s, Inl (BudgetExhaustedError t r n (max 0 (lim - spent))))
    | Some (spent', st') \<Rightarrow> \<exists>s'. debit R env G net t r (PInt n) s = (s', Inr (make_budget_state t r spent' lim st'))
        \<and> budget_cells R G t r s' lim spent' st'
        \<and> (\<forall>k. k \<notin> budget_keys G t r \<longrightarrow> redis_get R s' k = redis_get R s k)"
proof (cases "abs_debit lim spent st n")
  case None
  then show ?thesis
    using assms(5,6) debit_precheck_delivered [where net = net and n = n, OF cells net] by (simp add: debit_def sbind_def)
next
  case (Some q)
  then have st: "st = ACTIVE" "q = (spent + n, status_after lim (spent + n))" "spent + n \<le> lim"
    by (auto simp: abs_debit_def split: if_splits)
  with range assms(5) have "\<bar>spent + n\<bar> < 10 ^ 14" by auto
  from debit_commit_eval [OF laws cells this, of "net 2"] st(1)
  obtain u where u: "debit_commit R G (net 2) t r (PInt n) lim s =
      (u, Inr (make_budget_state t r (spent + n) lim (status_after lim (spent + n))))"
    "budget_cells R G t r u lim (spent + n) (status_after lim (spent + n))"
    "\<forall>k. k \<notin> budget_keys G t r \<longrightarrow> redis_get R u k = redis_get R s k"
    by (auto simp: net)
  have "debit R env G net t r (PInt n) s = (u, Inr (make_budget_state t r (spent + n) lim (status_after lim (spent + n))))"
    using assms(5,6) debit_precheck_delivered [where net = net and n = n, OF cells net] Some u(1) by (simp add: debit_def sbind_def)
  with Some st(2) u(2,3) show ?thesis by auto
qed

section \<open>Histories of operations\<close>

datatype budget_op =
    SetBudget string string pyval bool
  | Debit string string pyval
  | GetState string string
  | Freeze string string
  | Reset string string
  | Recover string string pyval pyval

fun op_run :: "budget_op \<Rightarrow> string \<times> string" where
  "op_run (SetBudget t r _ _) = (t, r)"
| "op_run (Debit t r _) = (t, r)"
| "op_run (GetState t r) = (t, r)"
| "op_run (Freeze t r) = (t, r)"
| "op_run (Reset t r) = (t, r)"
| "op_run (Recover t r _ _) = (t, r)"

fun run_op :: "'s redis_ops \<Rightarrow> environ \<Rightarrow> budget_guard \<Rightarrow> (nat \<Rightarrow> delivery) \<Rightarrow> budget_op \<Rightarrow> 's \<Rightarrow> 's" where
  "run_op R env G net (SetBudget t r lim reset) s = fst (set_budget R G (net 0) t r lim reset s)"
| "run_op R env G net (Debit t r a) s = fst (debit R env G net t r a s)"
| "run_op R env G net (GetState t r) s = fst (get_state R G (net 0) t r s)"
| "run_op R env G net (Freeze t r) s = fst (freeze_budget R G (net 0) t r s)"
| "run_op R env G net (Reset t r) s = fst (reset_budget R G (net 0) t r s)"
| "run_op R env G net (Recover t r lim spent) s = fst (recover_run R G (net 0) t r lim spent s)"

text \<open>The limits that are configured and the amounts that are recovered stay within a cap.\<close>

fun op_within :: "int \<Rightarrow> budget_op \<Rightarrow> bool" where
  "op_within cap (SetBudget _ _ lim _) = (\<exists>n \<le> cap. lim = PInt n)"
| "op_within cap (Recover _ _ lim spent) = (\<exists>n m. lim = PInt n \<and> spent = PInt m \<and> n \<le> cap \<and> 0 \<le> m \<and> m \<le> cap)"
| "op_within cap _ = True"

inductive budget_step :: "'s redis_ops \<Rightarrow> environ \<Rightarrow> budget_guard \<Rightarrow> int \<Rightarrow> 's \<Rightarrow> 's \<Rightarrow> bool" for R env G cap where
  op: "CHR '':'' \<notin> set (fst (op_run oper)) \<Longrightarrow> op_within cap oper \<Longrightarrow>
    budget_step R env G cap s (run_op R env G net oper s)"

inductive_cases budget_stepE: "budget_step R env G cap s s'"

definition budget_ok :: "'s redis_ops \<Rightarrow> budget_guard \<Rightarrow> string \<Rightarrow> string \<Rightarrow> int \<Rightarrow> 's \<Rightarrow> bool" where
  "budget_ok R G t r cap s \<longleftrightarrow>
     (redis_get R s (limit_key G t r) = None
        \<and> (\<forall>v. redis_get R s (spent_key G t r) = Some v \<longrightarrow> (\<exists>n. v = dec_int n \<and> 0 \<le> n \<and> n \<le> cap))
        \<and> (\<forall>v. redis_get R s (status_key G t r) = Some v \<longrightarrow> (\<exists>st. v = budget_status_value st)))
     \<or> (\<exists>lim spent st. budget_cells R G t r s lim spent st \<and> lim \<le> cap \<and> 0 \<le> spent \<and> spent \<le> cap)"

lemma guard_call_fst: "fst (guard_call msg d f s) = (if d = Request_lost then s else fst (f s))"
  by (cases d) (simp_all add: guard_call_cases split: prod.splits sum.splits)

lemma sbind_fst_return: "fst (sbind m (\<lambda>x. sreturn (f x)) s) = fst (m s)"
  by (simp add: sbind_def split: prod.splits sum.splits)

lemma dec_int_zero: "''0'' = dec_int 0"
  by code_simp

lemma get_state_fst [simp]: "fst (get_state R G d t r s) = s"
  by (auto simp: get_state_def sbind_def guard_call_cases split: delivery.splits option.splits prod.splits sum.splits)

lemma debit_script_frame:
  assumes "redis_laws R" and "k \<noteq> k1" and "k \<noteq> k2"
  shows "redis_get R (fst (debit_script R k1 k2 a b s)) k = redis_get R s k"
  using assms by (auto simp: debit_script_def Let_def redis_get_set split: option.splits)

lemma debit_commit_frame:
  assumes "redis_laws R" and "k \<notin> budget_keys G t r"
  shows "redis_get R (fst (debit_commit R G d t r a lim s)) k = redis_get R s k"
proof -
  have "fst (debit_commit R G d t r a lim s) =
      fst (guard_call ''redis'' d (debit_script R (spent_key G t r) (status_key G t r) (py_str_int a) (dec_int lim)) s)"
    by (auto simp: debit_commit_def sbind_def split: prod.splits sum.splits option.splits)
  then show ?thesis using assms by (simp add: guard_call_fst debit_script_frame budget_keys_def)
qed

lemma debit_fst:
  "fst (debit R env G net t r a s) =
     (case py_int_like a of
        None \<Rightarrow> s
      | Some n \<Rightarrow> if n < 1 \<or> \<not> bg_loaded G then s
          else case snd (debit_precheck R G net t r a n s) of
                 Inl _ \<Rightarrow> s
               | Inr lim \<Rightarrow> fst (debit_commit R G (net 2) t r a lim s))"
proof (cases "py_int_like a")
  case (Some n)
  obtain p where "debit_precheck R G net t r a n s = (s, p)"
    by (metis debit_precheck_state prod.collapse)
  with Some show ?thesis
    by (cases p) (simp_all add: debit_def sbind_def split: prod.splits sum.splits budget_error.splits)
qed (simp add: debit_def)

lemma debit_frame:
  assumes "redis_laws R" and "k \<notin> budget_keys G t r"
  shows "redis_get R (fst (debit R env G net t r a s)) k = redis_get R s k"
  using debit_commit_frame [OF assms] by (simp add: debit_fst split: option.splits sum.splits)

lemma run_op_frame:
  assumes "redis_laws R" and "op_run oper = (t, r)" and "k \<notin> budget_keys G t r"
  shows "redis_get R (run_op R env G net oper s) k = redis_get R s k"
  using assms
  by (cases oper)
     (auto simp: debit_frame set_budget_def freeze_budget_def reset_budget_def recover_run_def guard_call_fst
        sbind_fst_return freeze_script_def reset_script_def redis_get_set redis_get_setnx budget_keys_def Let_def
        split: option.splits)

lemma budget_ok_frame:
  assumes "\<And>k. k \<in> budget_keys G t r \<Longrightarrow> redis_get R s' k = redis_get R s k"
  shows "budget_ok R G t r cap s' \<longleftrightarrow> budget_ok R G t r cap s"
  using assms by (simp add: budget_ok_def budget_cells_def budget_keys_def)

lemma debit_no_limit:
  assumes "redis_get R s (limit_key G t r) = None"
  shows "fst (debit R env G net t r a s) = s"
proof -
  have "snd (debit_precheck R G net t r a n s) \<noteq> Inr lim" for n lim
    using assms
    by (cases "net 0") (simp_all add: debit_precheck_def get_limit_cents_def sbind_def guard_call_cases)
  then show ?thesis by (auto simp: debit_fst split: option.splits sum.splits)
qed

lemma budget_ok_debit:
  assumes laws: "redis_laws R" and cap: "cap < 10 ^ 14" and ok: "budget_ok R G t r cap s"
  shows "budget_ok R G t r cap (fst (debit R env G net t r a s))"
proof (cases "redis_get R s (limit_key G t r)")
  case None
  then show ?thesis using ok by (simp add: debit_no_limit)
next
  case (Some v)
  with ok obtain lim spent st where c: "budget_cells R G t r s lim spent st" "lim \<le> cap" "0 \<le> spent" "spent \<le> cap"
    by (auto simp: budget_ok_def)
  with cap have "lim < 10 ^ 14" by simp
  obtain s' res where run: "debit R env G net t r a s = (s', res)" by fastforce
  from debit_effect [OF laws c(1,3) \<open>lim < 10 ^ 14\<close> run] show ?thesis
  proof (elim disjE exE conjE)
    assume "s' = s"
    with run ok show ?thesis by simp
  next
    fix n
    assume "1 \<le> n" "spent + n \<le> lim" "budget_cells R G t r s' lim (spent + n) (status_after lim (spent + n))"
    then show ?thesis using run c unfolding budget_ok_def
      by (intro disjI2 exI [of _ lim] exI [of _ "spent + n"] exI [of _ "status_after lim (spent + n)"]) auto
  qed
qed

lemma budget_ok_set:
  assumes laws: "redis_laws R" and ok: "budget_ok R G t r cap s" and "0 \<le> cap" "n \<le> cap"
  shows "budget_ok R G t r cap (fst (set_budget R G d t r (PInt n) reset s))"
  using ok assms(3,4) unfolding budget_ok_def budget_cells_def set_budget_def
  by (auto simp: guard_call_fst redis_get_set [OF laws] redis_get_setnx [OF laws] Let_def dec_int_zero dec_int_inj
      simp flip: budget_status_value.simps)

lemma budget_ok_recover:
  assumes laws: "redis_laws R" and ok: "budget_ok R G t r cap s" and "n \<le> cap" "0 \<le> m" "m \<le> cap"
  shows "budget_ok R G t r cap (fst (recover_run R G d t r (PInt n) (PInt m) s))"
proof (cases "d = Request_lost")
  case False
  let ?s = "fst (recover_run R G d t r (PInt n) (PInt m) s)"
  have "budget_cells R G t r ?s n m (status_after n m)"
    using False
    by (simp add: recover_run_def guard_call_fst redis_get_set [OF laws] budget_cells_def status_after_def)
  with assms show ?thesis unfolding budget_ok_def by blast
qed (simp add: recover_run_def guard_call_fst ok)

lemma budget_ok_freeze:
  assumes laws: "redis_laws R" and ok: "budget_ok R G t r cap s"
  shows "budget_ok R G t r cap (fst (freeze_budget R G d t r s))"
  using ok unfolding budget_ok_def budget_cells_def freeze_budget_def
  by (auto simp: guard_call_fst sbind_fst_return freeze_script_def redis_get_set [OF laws] dec_int_inj
      simp flip: budget_status_value.simps)

lemma budget_ok_reset:
  assumes laws: "redis_laws R" and ok: "budget_ok R G t r cap s" and "0 \<le> cap"
  shows "budget_ok R G t r cap (fst (reset_budget R G d t r s))"
  using ok assms(3) unfolding budget_ok_def budget_cells_def reset_budget_def
  by (auto simp: guard_call_fst sbind_fst_return reset_script_def redis_get_set [OF laws] dec_int_inj dec_int_zero
      simp flip: budget_status_value.simps)

lemma budget_ok_run_op:
  assumes laws: "redis_laws R" and cap: "0 \<le> cap" "cap < 10 ^ 14" and ok: "budget_ok R G t r cap s"
    and op: "op_run oper = (t, r)" "op_within cap oper"
  shows "budget_ok R G t r cap (run_op R env G net oper s)"
  using op
  by (cases oper)
     (auto simp: ok budget_ok_debit [OF laws cap(2) ok] budget_ok_freeze [OF laws ok] budget_ok_reset [OF laws ok cap(1)]
        intro: budget_ok_set [OF laws ok cap(1)] budget_ok_recover [OF laws ok])

definition budget_premises :: "'s redis_ops \<Rightarrow> string \<Rightarrow> int \<Rightarrow> bool" where
  "budget_premises R t cap \<longleftrightarrow> redis_laws R \<and> CHR '':'' \<notin> set t \<and> 0 \<le> cap \<and> cap < 10 ^ 14"

interpretation bud: invariant_system
  "\<lambda>s. budget_premises R t cap \<and> (\<forall>k \<in> budget_keys G t r. redis_get R s k = None)"
  "budget_step R env G cap"
  "\<lambda>s. budget_premises R t cap \<and> budget_ok R G t r cap s"
  for R :: "'s redis_ops" and env G t r cap
proof
  fix s :: 's
  assume "budget_premises R t cap \<and> (\<forall>k \<in> budget_keys G t r. redis_get R s k = None)"
  then show "budget_premises R t cap \<and> budget_ok R G t r cap s"
    by (simp add: budget_ok_def budget_keys_def)
next
  fix s s' :: 's
  assume ok: "budget_premises R t cap \<and> budget_ok R G t r cap s" and step: "budget_step R env G cap s s'"
  then have p: "redis_laws R" "CHR '':'' \<notin> set t" "0 \<le> cap" "cap < 10 ^ 14" by (simp_all add: budget_premises_def)
  from step show "budget_premises R t cap \<and> budget_ok R G t r cap s'"
  proof cases
    case (op oper net)
    obtain t' r' where tr: "op_run oper = (t', r')" by fastforce
    show ?thesis
    proof (cases "(t', r') = (t, r)")
      case True
      with op tr p ok show ?thesis by (simp add: budget_ok_run_op)
    next
      case False
      with op tr p have "budget_keys G t' r' \<inter> budget_keys G t r = {}" by (intro budget_keys_disjoint) auto
      then have "redis_get R s' k = redis_get R s k" if "k \<in> budget_keys G t r" for k
        using op run_op_frame [OF p(1) tr] that by blast
      then have "budget_ok R G t r cap s' = budget_ok R G t r cap s" by (rule budget_ok_frame)
      with ok show ?thesis by simp
    qed
  qed
qed

section \<open>Properties\<close>

text \<open>
  C32. A debit whose calls are all answered does exactly what the budget promises, for limits below
  \<open>10 ^ 14\<close> cents (from there on Lua prints numbers with an exponent): it is refused with the
  remaining amount and leaves the server untouched when the budget is frozen, exhausted or too small,
  and otherwise adds the amount, sets the status to exhausted exactly when the limit is reached,
  returns this state and writes no key but the three of its run. When the tenant id has no colon these
  are no keys of another run of any colon-free tenant; with colons runs can share keys
  (\<open>budget_keys_isolation\<close>).
\<close>

theorem debit_refines_abs_debit:
  assumes "redis_laws R" and "budget_cells R G t r s lim spent st" and "0 \<le> spent" and "lim < 10 ^ 14"
    and "1 \<le> n" and "bg_loaded G"
  shows "case abs_debit lim spent st n of
      None \<Rightarrow> debit R env G (\<lambda>_. Delivered) t r (PInt n) s
                = (s, Inl (BudgetExhaustedError t r n (max 0 (lim - spent))))
    | Some (spent', st') \<Rightarrow>
        \<exists>s'. debit R env G (\<lambda>_. Delivered) t r (PInt n) s = (s', Inr (make_budget_state t r spent' lim st'))
          \<and> budget_cells R G t r s' lim spent' st'
          \<and> (\<forall>k. k \<notin> {limit_key G t r, spent_key G t r, status_key G t r} \<longrightarrow> redis_get R s' k = redis_get R s k)
          \<and> (\<forall>t' r'. CHR '':'' \<notin> set t \<and> CHR '':'' \<notin> set t' \<and> (t', r') \<noteq> (t, r) \<longrightarrow>
               redis_get R s' (limit_key G t' r') = redis_get R s (limit_key G t' r')
               \<and> redis_get R s' (spent_key G t' r') = redis_get R s (spent_key G t' r')
               \<and> redis_get R s' (status_key G t' r') = redis_get R s (status_key G t' r'))"
proof -
  have others: "k \<notin> budget_keys G t r"
    if "CHR '':'' \<notin> set t" "CHR '':'' \<notin> set t'" "(t', r') \<noteq> (t, r)" "k \<in> budget_keys G t' r'" for t' r' k
    using budget_keys_disjoint [OF that(1,2), of r r' G] that(3,4) by blast
  show ?thesis
  proof (cases "abs_debit lim spent st n")
    case None
    then show ?thesis using debit_delivered [OF assms refl, of env] by simp
  next
    case (Some q)
    obtain spent' st' where q: "q = (spent', st')" by fastforce
    from debit_delivered [OF assms refl, of env] obtain s' where s':
      "debit R env G (\<lambda>_. Delivered) t r (PInt n) s = (s', Inr (make_budget_state t r spent' lim st'))"
      "budget_cells R G t r s' lim spent' st'"
      and frame: "\<forall>k. k \<notin> budget_keys G t r \<longrightarrow> redis_get R s' k = redis_get R s k"
      by (auto simp: Some q)
    show ?thesis
      unfolding Some q option.case prod.case
    proof (intro exI [of _ s'] conjI allI impI, rule s', rule s')
      fix k
      assume "k \<notin> {limit_key G t r, spent_key G t r, status_key G t r}"
      then show "redis_get R s' k = redis_get R s k" using frame by (simp only: budget_keys_def simp_thms)
    next
      fix t' r'
      assume colon_free: "CHR '':'' \<notin> set t \<and> CHR '':'' \<notin> set t' \<and> (t', r') \<noteq> (t, r)"
      have same: "redis_get R s' k = redis_get R s k" if "k \<in> budget_keys G t' r'" for k
        using frame others [OF _ _ _ that] colon_free by (simp only: simp_thms)
      show "redis_get R s' (limit_key G t' r') = redis_get R s (limit_key G t' r')"
        "redis_get R s' (spent_key G t' r') = redis_get R s (spent_key G t' r')"
        "redis_get R s' (status_key G t' r') = redis_get R s (status_key G t' r')"
        by (rule same, simp add: budget_keys_def)+
    qed
  qed
qed

text \<open>
  Under every pattern of lost requests and lost replies, any history of budget operations on any
  runs of colon-free tenants keeps a run's spent counter between zero and the largest limit ever
  configured: operations of one client after another never overspend.
\<close>

theorem spent_never_exceeds_cap:
  assumes "redis_laws R" and "CHR '':'' \<notin> set t" and "0 \<le> cap" and "cap < 10 ^ 14"
    and "\<forall>k \<in> budget_keys G t r. redis_get R s k = None" and "(budget_step R env G cap)\<^sup>*\<^sup>* s s'"
    and "redis_get R s' (spent_key G t r) = Some v"
  shows "\<exists>n. v = dec_int n \<and> 0 \<le> n \<and> n \<le> cap"
proof -
  have "budget_premises R t cap \<and> (\<forall>k \<in> budget_keys G t r. redis_get R s k = None)"
    using assms(1-5) by (simp add: budget_premises_def)
  then have "budget_premises R t cap \<and> budget_ok R G t r cap s'"
    by (rule bud.reachable_inv [OF _ assms(6)])
  with assms(7) show ?thesis by (auto simp: budget_ok_def budget_cells_def)
qed

text \<open>
  Fail-closed: when the guard does not fail open, or strict mode is on, a debit reports success
  only if the server durably counted the amount within the limit and the reported state is the
  stored one. Every other outcome is an exception.
\<close>

theorem debit_success_is_durable:
  assumes "redis_laws R" and "budget_cells R G t r s lim spent st" and "0 \<le> spent" and "lim < 10 ^ 14"
    and "\<not> bg_fail_open G \<or> is_strict_mode_enabled env"
    and "debit R env G net t r a s = (s', Inr state)"
  shows "\<exists>n. py_int_like a = Some n \<and> 1 \<le> n \<and> bs_spent_cents state = spent + n \<and> spent + n \<le> lim
    \<and> bs_limit_cents state = lim \<and> budget_cells R G t r s' lim (spent + n) (bs_status state)"
proof -
  obtain n where n: "py_int_like a = Some n" "1 \<le> n" "bg_loaded G"
    using assms(6) by (auto simp: debit_def split: option.splits if_splits)
  obtain p where p: "debit_precheck R G net t r a n s = (s, p)"
    by (metis debit_precheck_state prod.collapse)
  have "\<exists>l. p = Inr l \<and> debit_commit R G (net 2) t r a l s = (s', Inr state)"
    using assms(5,6) n p
    by (cases p) (auto simp: debit_def sbind_def split: prod.splits sum.splits budget_error.splits if_splits)
  then obtain m where m: "debit_commit R G (net 2) t r a lim s = (s', Inr state)" "st = ACTIVE"
    "lua_tonumber (py_str_int a) = Some m" "spent + m \<le> lim"
    using p debit_precheck_Inr [OF assms(2)] by metis
  have a: "a = PInt n" "m = n"
    using n(1) m(3) by (auto simp: py_int_like_def split: pyval.splits if_splits)
  have "\<bar>spent + n\<bar> < 10 ^ 14" using m(4) a n(2) assms(3,4) by auto
  from debit_commit_eval [OF assms(1,2) this, of "net 2"] m(1,2,4) n a show ?thesis
    by (auto simp: make_budget_state_def split: if_splits)
qed


text \<open>
  Freezing is an emergency stop: on a frozen budget no debit succeeds and nothing is counted,
  under any delivery, and neither a debit nor raising the limit lifts the freeze.
\<close>

theorem frozen_budget_cannot_be_spent:
  assumes "redis_laws R" and "budget_cells R G t r s lim spent FROZEN" and "\<not> bg_fail_open G"
  shows "fst (debit R env G net t r a s) = s \<and> (\<exists>e. snd (debit R env G net t r a s) = Inl e)
    \<and> (\<exists>lim'. budget_cells R G t r (fst (set_budget R G d t r (PInt n) False s)) lim' spent FROZEN)"
proof -
  have "\<exists>e. snd (debit_precheck R G net t r a n s) = Inl e" for n
  proof (rule ccontr)
    assume "\<not> ?thesis"
    then obtain l where "snd (debit_precheck R G net t r a n s) = Inr l"
      by (cases "snd (debit_precheck R G net t r a n s)") auto
    then have "debit_precheck R G net t r a n s = (s, Inr l)" by (metis debit_precheck_state prod.collapse)
    from debit_precheck_Inr [OF assms(2) this] show False by simp
  qed
  then have pre: "\<exists>e. debit_precheck R G net t r a n s = (s, Inl e)" for n
    by (metis debit_precheck_state prod.collapse)
  have 1: "\<exists>e. debit R env G net t r a s = (s, Inl e)"
  proof (cases "py_int_like a")
    case (Some n)
    with pre [of n] assms(3) show ?thesis by (auto simp: debit_def sbind_def split: budget_error.splits)
  qed (simp add: debit_def)
  have 2: "\<exists>lim'. budget_cells R G t r (fst (set_budget R G d t r (PInt n) False s)) lim' spent FROZEN"
    using assms(2)
    by (cases "n \<le> 0 \<or> d = Request_lost")
       (auto simp: set_budget_def guard_call_fst budget_cells_def redis_get_set [OF assms(1)]
          redis_get_setnx [OF assms(1)] Let_def)
  from 1 2 show ?thesis by auto
qed

text \<open>
  Recovery round trip: after a delivered \<open>recover_run\<close> the state read back is the recovered one,
  exhausted exactly when the recovered spend reaches the limit.
\<close>

theorem recover_then_get_state:
  assumes "redis_laws R"
  shows "get_state R G Delivered t r (fst (recover_run R G Delivered t r (PInt lim) (PInt spent) s))
    = (fst (recover_run R G Delivered t r (PInt lim) (PInt spent) s),
       Inr (make_budget_state t r spent lim (status_after lim spent)))"
  using assms
  by (simp add: recover_run_def guard_call_cases get_state_def sbind_def redis_get_set str_or_def status_after_def)

text \<open>
  C33. The check and the debit of one \<open>debit\<close> are two server calls. When two clients interleave them
  (both check, then both debit), both debits succeed although together they exceed the limit: any
  two amounts that fit alone but not together do so on an active budget with a limit below
  \<open>5 * 10 ^ 13\<close> cents, also when the first debit takes all that is left and the second one meets an
  exhausted budget.
\<close>

theorem interleaved_debits_overspend:
  assumes "redis_laws R" and "budget_cells R G t r s lim spent ACTIVE" and "0 \<le> spent" and "lim < 5 * 10 ^ 13"
    and "1 \<le> a" "1 \<le> b" "spent + a \<le> lim" "spent + b \<le> lim" "lim < spent + a + b"
  shows "\<exists>s1 s2. debit_precheck R G (\<lambda>_. Delivered) t r (PInt a) a s = (s, Inr lim)
    \<and> debit_precheck R G (\<lambda>_. Delivered) t r (PInt b) b s = (s, Inr lim)
    \<and> debit_commit R G Delivered t r (PInt a) lim s
        = (s1, Inr (make_budget_state t r (spent + a) lim (if spent + a < lim then ACTIVE else EXHAUSTED)))
    \<and> debit_commit R G Delivered t r (PInt b) lim s1
        = (s2, Inr (make_budget_state t r (spent + a + b) lim EXHAUSTED))
    \<and> budget_cells R G t r s2 lim (spent + a + b) EXHAUSTED"
proof -
  have pa: "debit_precheck R G (\<lambda>_. Delivered) t r (PInt a) a s = (s, Inr lim)"
    and pb: "debit_precheck R G (\<lambda>_. Delivered) t r (PInt b) b s = (s, Inr lim)"
    using debit_precheck_delivered [where net = "\<lambda>_. Delivered", OF assms(2) refl] assms(7,8)
    by (simp_all add: abs_debit_def)
  have range: "\<bar>spent + a\<bar> < 10 ^ 14" "\<bar>spent + a + b\<bar> < 10 ^ 14" using assms by auto
  have after: "status_after lim (spent + a) = (if spent + a < lim then ACTIVE else EXHAUSTED)"
    "status_after lim (spent + a + b) = EXHAUSTED"
    using assms(9) by (simp_all add: status_after_def)
  obtain s1 where s1: "debit_commit R G Delivered t r (PInt a) lim s
      = (s1, Inr (make_budget_state t r (spent + a) lim (status_after lim (spent + a))))"
      "budget_cells R G t r s1 lim (spent + a) (status_after lim (spent + a))"
    using debit_commit_eval [OF assms(1,2) range(1), of Delivered] by auto
  obtain s2 where s2: "debit_commit R G Delivered t r (PInt b) lim s1
      = (s2, Inr (make_budget_state t r (spent + a + b) lim (status_after lim (spent + a + b))))"
      "budget_cells R G t r s2 lim (spent + a + b) (status_after lim (spent + a + b))"
    using debit_commit_eval [OF assms(1) s1(2) range(2), of Delivered] assms(9) by auto
  from pa pb s1(1) s2 show ?thesis unfolding after by blast
qed

text \<open>
  Runs whose tenant ids contain a colon can share keys: the budget of run \<open>c\<close> of tenant \<open>a:b\<close>
  is the budget of run \<open>b:c\<close> of tenant \<open>a\<close>, whereas colon-free tenants never share a key.
\<close>

theorem budget_keys_isolation:
  "budget_keys G ''a:b'' ''c'' = budget_keys G ''a'' ''b:c''
   \<and> (\<forall>t r t' r'. CHR '':'' \<notin> set t \<and> CHR '':'' \<notin> set t' \<and> (t, r) \<noteq> (t', r')
        \<longrightarrow> budget_keys G t r \<inter> budget_keys G t' r' = {})"
  using budget_keys_disjoint by (auto simp: budget_keys_def budget_key_defs budget_base_def)

section \<open>Rounding of the conversion\<close>

declare bit_len.simps [simp del]

lemma bit_len_bounds: "0 < n \<Longrightarrow> 2 ^ (bit_len n - 1) \<le> n \<and> n < 2 ^ bit_len n"
proof (induction n rule: bit_len.induct)
  case (1 n)
  show ?case
  proof (cases "n div 2 = 0")
    case True
    with 1(2) have "n = 1" by auto
    then show ?thesis by (simp add: bit_len.simps)
  next
    case False
    then have "0 < bit_len (n div 2)" by (subst bit_len.simps) simp
    then obtain j where j: "bit_len (n div 2) = Suc j" by (cases "bit_len (n div 2)") auto
    have b: "bit_len n = Suc (Suc j)" using 1(2) j by (subst bit_len.simps) simp
    have "2 ^ j \<le> n div 2" "n div 2 < 2 ^ Suc j" using 1(1) 1(2) False j by auto
    with b show ?thesis by auto
  qed
qed

lemma round53_error: "2 ^ 53 * n \<le> 2 ^ 53 * round53 n + n" "2 ^ 53 * round53 n \<le> 2 ^ 53 * n + n"
proof -
  define k where "k = bit_len n - 53"
  define q r where "q = n div 2 ^ k" and "r = n mod 2 ^ k"
  have n: "n = q * 2 ^ k + r" "r < 2 ^ k" by (simp_all only: q_def r_def div_mult_mod_eq) simp
  have big: "2 ^ (52 + k) \<le> n" if "0 < k"
  proof -
    have "bit_len n = 53 + k" using that by (simp add: k_def)
    moreover from this have "0 < n" by (cases "n = 0") (simp_all add: bit_len.simps [of 0])
    ultimately show ?thesis using bit_len_bounds [of n] by simp
  qed
  have def: "round53 n = (if 2 * r > 2 ^ k \<or> 2 * r = 2 ^ k \<and> odd q then q + 1 else q) * 2 ^ k"
    by (simp add: round53_def Let_def k_def q_def r_def)
  have "2 ^ 53 * n \<le> 2 ^ 53 * round53 n + n \<and> 2 ^ 53 * round53 n \<le> 2 ^ 53 * n + n"
  proof (cases "k = 0")
    case True
    with n def show ?thesis by simp
  next
    case False
    with big have b: "(2::nat) ^ 52 * 2 ^ k \<le> n" by (simp add: power_add)
    have "2 * round53 n \<le> 2 * n + 2 ^ k" "2 * n \<le> 2 * round53 n + 2 ^ k"
      using n unfolding def by (auto split: if_splits)
    then have "2 ^ 52 * (2 * round53 n) \<le> 2 ^ 52 * (2 * n + 2 ^ k)" "2 ^ 52 * (2 * n) \<le> 2 ^ 52 * (2 * round53 n + 2 ^ k)"
      by (simp_all only: mult_le_mono2)
    with b show ?thesis by simp
  qed
  then show "2 ^ 53 * n \<le> 2 ^ 53 * round53 n + n" "2 ^ 53 * round53 n \<le> 2 ^ 53 * n + n" by auto
qed

lemma ceil_div_bounds:
  fixes m d :: nat
  assumes "0 < d"
  shows "m \<le> (m + d - 1) div d * d" "(m + d - 1) div d * d < m + d"
proof -
  have "(m + d - 1) div d * d + (m + d - 1) mod d = m + d - 1" by (simp only: div_mult_mod_eq)
  moreover have "(m + d - 1) mod d < d" using assms by simp
  ultimately show "m \<le> (m + d - 1) div d * d" "(m + d - 1) div d * d < m + d" using assms by linarith+
qed

lemma ceil_shift_bounds:
  "m \<le> ceil_shift m (- int k) * 2 ^ k" "ceil_shift m (- int k) * 2 ^ k < m + 2 ^ k"
proof -
  have "ceil_shift m (- int k) = (m + 2 ^ k - 1) div 2 ^ k" by (cases "k = 0") (simp_all add: ceil_shift_def)
  then show "m \<le> ceil_shift m (- int k) * 2 ^ k" "ceil_shift m (- int k) * 2 ^ k < m + 2 ^ k"
    using ceil_div_bounds [of "2 ^ k" m] by simp_all
qed

text \<open>
  Conversion from dollars charges at least one cent and is the ceiling of the exact amount up to
  the rounding of one double-precision product: for \<open>m / 2 ^ k\<close> dollars the charge \<open>c\<close> is at least
  \<open>100 * m / 2 ^ k\<close> less one part in \<open>2 ^ 53\<close>, and less than one cent above it plus one part in
  \<open>2 ^ 53\<close>.
\<close>

theorem usd_to_cents_bounds:
  assumes "usd_to_cents (FinFloat m (- int k)) = Inr c"
  shows "1 \<le> c \<and> (2 ^ 53 - 1) * (100 * m) \<le> 2 ^ 53 * (c * 2 ^ k)
    \<and> (c = 1 \<or> 2 ^ 53 * ((c - 1) * 2 ^ k) < (2 ^ 53 + 1) * (100 * m))"
proof -
  have m: "0 \<le> m" and c: "c = max 1 (int (ceil_shift (round53 (nat m * 100)) (- int k)))"
    using assms by (auto simp: usd_to_cents_def Let_def split: if_splits)
  obtain n where n: "m = int n" using m nonneg_int_cases by blast
  define p where "p = round53 (n * 100)"
  define d where "d = ceil_shift p (- int k)"
  have cd: "c = max 1 (int d)" using c n by (simp add: p_def d_def)
  have p: "2 ^ 53 * (n * 100) \<le> 2 ^ 53 * p + n * 100" "2 ^ 53 * p \<le> 2 ^ 53 * (n * 100) + n * 100"
    unfolding p_def by (rule round53_error)+
  have d: "p \<le> d * 2 ^ k" "d * 2 ^ k < p + 2 ^ k"
    unfolding d_def by (rule ceil_shift_bounds)+
  have "2 ^ 53 * (n * 100) \<le> 2 ^ 53 * (d * 2 ^ k) + n * 100" using p(1) mult_le_mono2 [OF d(1), of "2 ^ 53"] by linarith
  then have "int (2 ^ 53 * (n * 100)) \<le> int (2 ^ 53 * (d * 2 ^ k) + n * 100)" by (simp only: of_nat_le_iff)
  then have lo: "(2 ^ 53 - 1) * (100 * m) \<le> 2 ^ 53 * (int d * 2 ^ k)" using n by simp
  have mono: "int d * 2 ^ k \<le> c * 2 ^ k" using cd by (intro mult_right_mono) auto
  have hi: "2 ^ 53 * ((c - 1) * 2 ^ k) < (2 ^ 53 + 1) * (100 * m)" if "c \<noteq> 1"
  proof -
    have cd': "c = int d" using cd that by auto
    have "int (d * 2 ^ k) < int (p + 2 ^ k)" using d(2) by (simp only: of_nat_less_iff)
    then have "(c - 1) * 2 ^ k < int p" using cd' by (simp add: algebra_simps)
    moreover have "int (2 ^ 53 * p) \<le> int (2 ^ 53 * (n * 100) + n * 100)" using p(2) by (simp only: of_nat_le_iff)
    ultimately show ?thesis using n by simp
  qed
  have "1 \<le> c" using cd by simp
  moreover have "(2 ^ 53 - 1) * (100 * m) \<le> 2 ^ 53 * (c * 2 ^ k)" by (rule order_trans [OF lo mult_left_mono [OF mono]]) simp
  ultimately show ?thesis using hi by blast
qed

text \<open>The double nearest to 1.1 dollars is charged as 111 cents.\<close>

lemma usd_to_cents_above_exact: "usd_to_cents (FinFloat 2476979795053773 (- 51)) = Inr 111"
  by (simp add: usd_to_cents_def round53_def bit_len.simps Let_def ceil_shift_def)

section \<open>Witnesses\<close>

text \<open>A five-dollar budget on an in-memory server.\<close>

definition demo_guard :: budget_guard where
  "demo_guard = \<lparr>bg_prefix = ''budget'', bg_fail_open = False, bg_loaded = True\<rparr>"

definition demo_server :: kv where
  "demo_server = fst (set_budget map_redis demo_guard Delivered ''acme'' ''run-1'' (PInt 500) False [])"

lemma demo_cells: "budget_cells map_redis demo_guard ''acme'' ''run-1'' demo_server 500 0 ACTIVE"
  by code_simp

lemma demo_guard_simps [simp]: "bg_loaded demo_guard" "\<not> bg_fail_open demo_guard"
  by (simp_all add: demo_guard_def)

theorem debit_refines_abs_debit_witness:
  "\<exists>s'. debit map_redis Map.empty demo_guard (\<lambda>_. Delivered) ''acme'' ''run-1'' (PInt 120) demo_server
     = (s', Inr (make_budget_state ''acme'' ''run-1'' 120 500 ACTIVE))"
  using debit_refines_abs_debit [OF map_redis_laws demo_cells, of 120 Map.empty]
  by (auto simp: abs_debit_def status_after_def)

theorem spent_never_exceeds_cap_witness:
  "\<exists>s'. (budget_step map_redis Map.empty demo_guard 500)\<^sup>*\<^sup>* [] s'
     \<and> redis_get map_redis s' (spent_key demo_guard ''acme'' ''run-1'') = Some (dec_int 0)
     \<and> (\<exists>n. dec_int 0 = dec_int n \<and> 0 \<le> n \<and> n \<le> 500)"
proof -
  have "budget_step map_redis Map.empty demo_guard 500 []
      (run_op map_redis Map.empty demo_guard (\<lambda>_. Delivered) (SetBudget ''acme'' ''run-1'' (PInt 500) False) [])"
    by (rule budget_step.op) simp_all
  then have run: "(budget_step map_redis Map.empty demo_guard 500)\<^sup>*\<^sup>* [] demo_server"
    by (simp add: demo_server_def r_into_rtranclp)
  have spent: "redis_get map_redis demo_server (spent_key demo_guard ''acme'' ''run-1'') = Some (dec_int 0)"
    using demo_cells by (simp add: budget_cells_def)
  have "\<forall>k \<in> budget_keys demo_guard ''acme'' ''run-1''. redis_get map_redis [] k = None"
    by (simp add: map_redis_def)
  from spent_never_exceeds_cap [OF map_redis_laws _ _ _ this run spent] run spent show ?thesis by auto
qed

theorem debit_success_is_durable_witness:
  "\<exists>s' state. debit map_redis Map.empty demo_guard (\<lambda>_. Delivered) ''acme'' ''run-1'' (PInt 120) demo_server = (s', Inr state)
     \<and> (\<exists>n. py_int_like (PInt 120) = Some n \<and> bs_spent_cents state = 0 + n
          \<and> budget_cells map_redis demo_guard ''acme'' ''run-1'' s' 500 (0 + n) (bs_status state))"
proof -
  obtain s' state where run:
    "debit map_redis Map.empty demo_guard (\<lambda>_. Delivered) ''acme'' ''run-1'' (PInt 120) demo_server = (s', Inr state)"
    using debit_delivered [where n = 120 and env = Map.empty and net = "\<lambda>_. Delivered", OF map_redis_laws demo_cells]
    by (auto simp: abs_debit_def)
  from debit_success_is_durable [OF map_redis_laws demo_cells _ _ _ run] run show ?thesis by auto
qed

theorem frozen_budget_cannot_be_spent_witness:
  "\<exists>s. budget_cells map_redis demo_guard ''acme'' ''run-1'' s 500 0 FROZEN
     \<and> fst (debit map_redis Map.empty demo_guard (\<lambda>_. Reply_lost) ''acme'' ''run-1'' (PInt 1) s) = s"
proof -
  let ?s = "fst (freeze_budget map_redis demo_guard Delivered ''acme'' ''run-1'' demo_server)"
  have "budget_cells map_redis demo_guard ''acme'' ''run-1'' ?s 500 0 FROZEN" by code_simp
  with frozen_budget_cannot_be_spent [OF map_redis_laws this, of Map.empty "\<lambda>_. Reply_lost" "PInt 1"]
  show ?thesis by auto
qed

theorem recover_then_get_state_witness:
  "snd (get_state map_redis demo_guard Delivered ''acme'' ''run-1''
      (fst (recover_run map_redis demo_guard Delivered ''acme'' ''run-1'' (PInt 500) (PInt 500) demo_server)))
   = Inr (make_budget_state ''acme'' ''run-1'' 500 500 EXHAUSTED)"
  using recover_then_get_state [OF map_redis_laws, of demo_guard "''acme''" "''run-1''" 500 500 demo_server]
  by (simp add: status_after_def)

theorem interleaved_debits_overspend_witness:
  "\<exists>s2. budget_cells map_redis demo_guard ''acme'' ''run-1'' s2 500 900 EXHAUSTED"
  using interleaved_debits_overspend [OF map_redis_laws demo_cells, of 500 400] by auto

theorem budget_keys_isolation_witness:
  "budget_keys demo_guard ''acme'' ''run-1'' \<inter> budget_keys demo_guard ''acme'' ''run-2'' = {}"
  using budget_keys_isolation [of demo_guard] by simp

theorem usd_to_cents_bounds_witness:
  "usd_to_cents (FinFloat 2476979795053773 (- int 51)) = Inr 111
   \<and> (2 ^ 53 - 1) * (100 * 2476979795053773) \<le> 2 ^ 53 * ((111::int) * 2 ^ 51)"
  using usd_to_cents_bounds [of 2476979795053773 51 111] usd_to_cents_above_exact by simp

end
