(* ===== verification/LedgerKeys.thy ===== *)
theory LedgerKeys
  imports RedisOps
begin

text \<open>
  The keys of the signed ledger: the interface \<open>KeyProvider\<close> and its implementation
  \<open>Ed25519EnvKeyProvider\<close> of \<open>src/hfa-core/src/hfa/governance/signed_ledger_v1.py\<close>.

  A provider has state: it loads its keys at first use and keeps them, and the first signature can
  change its key id. Signing, verifying and \<open>key_id\<close> are therefore functions of the provider's state.
  Ed25519 and the PEM parsers come from the package \<open>cryptography\<close>: the parameter \<open>ed25519\<close>, whose law
  \<open>ed25519_law\<close> says that what a key signed verifies under its public key. \<open>hfa.core.config.settings\<close> is
  the parameter \<open>settings\<close>: the attribute values, or None when the configuration cannot be loaded.

  \<open>steady_keys\<close> is what a ledger relies on: the key id stays what it is, and what was signed verifies.
  The provider keeps it when its key id is not the default one or \<open>HFA_LEDGER_KEY_ID\<close> is not set, and
  the public key it is given belongs to its private key.
\<close>

section \<open>The interface\<close>

datatype key_error =
    KeyProviderError string
  | SettingsError

record 'k key_provider =
  kp_sign :: "'k \<Rightarrow> char list \<Rightarrow> 'k \<times> (key_error + char list)"
  kp_verify :: "'k \<Rightarrow> char list \<Rightarrow> char list \<Rightarrow> 'k \<times> (key_error + bool)"
  kp_key_id :: "'k \<Rightarrow> string"

text \<open>
  \<open>ok\<close> holds of the states of a provider in use, \<open>ready\<close> of those that have signed;
  \<open>accepted m sg\<close> says that \<open>sg\<close> is a signature of \<open>m\<close>.
\<close>

locale steady_keys =
  fixes K :: "'k key_provider" and ok :: "'k \<Rightarrow> bool" and ready :: "'k \<Rightarrow> bool"
    and accepted :: "char list \<Rightarrow> char list \<Rightarrow> bool"
  assumes sign_keeps: "ok k \<Longrightarrow> kp_sign K k m = (k', res) \<Longrightarrow>
      ok k' \<and> kp_key_id K k' = kp_key_id K k \<and> (ready k \<longrightarrow> ready k')"
    and sign_accepted: "ok k \<Longrightarrow> kp_sign K k m = (k', Inr sg) \<Longrightarrow> ready k' \<and> accepted m sg"
    and verify_keeps: "ok k \<Longrightarrow> ready k \<Longrightarrow> kp_verify K k m sg = (k', valid) \<Longrightarrow> ok k' \<and> ready k'"
    and verify_accepts: "ok k \<Longrightarrow> ready k \<Longrightarrow> kp_verify K k m sg = (k', valid) \<Longrightarrow> accepted m sg \<Longrightarrow> valid = Inr True"

section \<open>Configuration\<close>

type_synonym settings = "(string \<Rightarrow> string option) option"

text \<open>
  \<open>base64.b64decode\<close> without validation: characters outside the alphabet are skipped, a padded quad
  ends the text, an unfinished quad is an error. The state is the position in the quad, the bits left
  over and the number of padding characters seen.
\<close>

definition b64_val :: "char \<Rightarrow> nat option" where
  "b64_val c =
     (let n = of_char c
      in if 65 \<le> n \<and> n \<le> 90 then Some (n - 65)
         else if 97 \<le> n \<and> n \<le> 122 then Some (n - 71)
         else if 48 \<le> n \<and> n \<le> 57 then Some (n + 4)
         else if n = 43 then Some 62
         else if n = 47 then Some 63
         else None)"

fun b64_scan :: "nat \<Rightarrow> nat \<Rightarrow> nat \<Rightarrow> char list \<Rightarrow> char list option" where
  "b64_scan quad left pads [] = (if quad = 0 then Some [] else None)"
| "b64_scan quad left pads (c # cs) =
     (if c = CHR ''='' then
        (if quad < 2 then b64_scan quad left pads cs
         else if 4 \<le> quad + (pads + 1) then Some []
         else b64_scan quad left (pads + 1) cs)
      else case b64_val c of
        None \<Rightarrow> b64_scan quad left pads cs
      | Some v \<Rightarrow>
          (if quad = 0 then b64_scan 1 v 0 cs
           else if quad = 1 then map_option ((#) (char_of (4 * left + v div 16))) (b64_scan 2 (v mod 16) 0 cs)
           else if quad = 2 then map_option ((#) (char_of (16 * left + v div 4))) (b64_scan 3 (v mod 4) 0 cs)
           else map_option ((#) (char_of (64 * left + v))) (b64_scan 0 0 0 cs)))"

text \<open>Text that is not ASCII is refused before it is decoded.\<close>

definition b64decode :: "string \<Rightarrow> char list option" where
  "b64decode s = (if list_all (\<lambda>c. of_char c < (128 :: nat)) s then b64_scan 0 0 0 s else None)"

definition read_b64_env :: "settings \<Rightarrow> string \<Rightarrow> key_error + char list" where
  "read_b64_env settings var_name =
     (case settings of
        None \<Rightarrow> Inl SettingsError
      | Some setting \<Rightarrow>
          (case setting var_name of
             None \<Rightarrow> Inl (KeyProviderError ''Config setting not set'')
           | Some val \<Rightarrow>
               (if val = [] then Inl (KeyProviderError ''Config setting not set'')
                else case b64decode val of
                       None \<Rightarrow> Inl (KeyProviderError ''Failed to base64-decode config setting'')
                     | Some pem \<Rightarrow> Inr pem)))"

text \<open>\<open>pem or self._read_b64_env(var_name)\<close>.\<close>

definition pem_or_env :: "settings \<Rightarrow> char list option \<Rightarrow> string \<Rightarrow> key_error + char list" where
  "pem_or_env settings given var_name =
     (case given of
        None \<Rightarrow> read_b64_env settings var_name
      | Some pem \<Rightarrow> if pem = [] then read_b64_env settings var_name else Inr pem)"

section \<open>Ed25519 keys from the environment\<close>

text \<open>
  The library: the two PEM parsers, the public key of a private key, signing, and verifying. None is
  an exception of the library; \<open>ed_verify\<close> is false when \<open>verify\<close> raises.
\<close>

record ('sk, 'pk) ed25519 =
  ed_installed :: bool
  ed_load_private :: "char list \<Rightarrow> 'sk option"
  ed_load_public :: "char list \<Rightarrow> 'pk option"
  ed_public :: "'sk \<Rightarrow> 'pk"
  ed_sign :: "'sk \<Rightarrow> char list \<Rightarrow> char list option"
  ed_verify :: "'pk \<Rightarrow> char list \<Rightarrow> char list \<Rightarrow> bool"

definition ed25519_law :: "('sk, 'pk) ed25519 \<Rightarrow> bool" where
  "ed25519_law L \<longleftrightarrow> (\<forall>sk m sg. ed_sign L sk m = Some sg \<longrightarrow> ed_verify L (ed_public L sk) sg m)"

record ('sk, 'pk) env_keys =
  ek_private_pem :: "char list option"
  ek_public_pem :: "char list option"
  ek_key_id :: string
  ek_private_key :: "'sk option"
  ek_public_key :: "'pk option"

definition make_env_keys :: "char list option \<Rightarrow> char list option \<Rightarrow> string \<Rightarrow> ('sk, 'pk) env_keys" where
  "make_env_keys private_pem public_pem key_id =
     \<lparr>ek_private_pem = private_pem, ek_public_pem = public_pem, ek_key_id = key_id,
      ek_private_key = None, ek_public_key = None\<rparr>"

text \<open>
  The key is stored before the configuration is asked for a key id: when the configuration cannot be
  loaded, the call fails and the key stays.
\<close>

definition load_private_key ::
  "('sk, 'pk) ed25519 \<Rightarrow> settings \<Rightarrow> ('sk, 'pk) env_keys \<Rightarrow> ('sk, 'pk) env_keys \<times> (key_error + 'sk)" where
  "load_private_key L settings k =
     (case ek_private_key k of
        Some key \<Rightarrow> (k, Inr key)
      | None \<Rightarrow>
          (if \<not> ed_installed L then (k, Inl (KeyProviderError ''cryptography package required''))
           else case pem_or_env settings (ek_private_pem k) ''HFA_LEDGER_PRIVATE_KEY_B64'' of
             Inl e \<Rightarrow> (k, Inl e)
           | Inr pem \<Rightarrow>
               (case ed_load_private L pem of
                  None \<Rightarrow> (k, Inl (KeyProviderError ''Invalid private key PEM''))
                | Some key \<Rightarrow>
                    (let k = k\<lparr>ek_private_key := Some key\<rparr>
                     in if ek_key_id k = ''default'' then
                          (case settings of
                             None \<Rightarrow> (k, Inl (KeyProviderError ''Invalid private key PEM''))
                           | Some setting \<Rightarrow>
                               (case setting ''HFA_LEDGER_KEY_ID'' of
                                  None \<Rightarrow> (k, Inr key)
                                | Some env_id \<Rightarrow> ((if env_id = [] then k else k\<lparr>ek_key_id := env_id\<rparr>), Inr key)))
                        else (k, Inr key)))))"

definition load_public_key ::
  "('sk, 'pk) ed25519 \<Rightarrow> settings \<Rightarrow> ('sk, 'pk) env_keys \<Rightarrow> ('sk, 'pk) env_keys \<times> (key_error + 'pk)" where
  "load_public_key L settings k =
     (case ek_public_key k of
        Some key \<Rightarrow> (k, Inr key)
      | None \<Rightarrow>
          (if \<not> ed_installed L then (k, Inl (KeyProviderError ''cryptography package required''))
           else case (ek_public_pem k, ek_private_key k) of
             (None, Some private_key) \<Rightarrow>
               (k\<lparr>ek_public_key := Some (ed_public L private_key)\<rparr>, Inr (ed_public L private_key))
           | _ \<Rightarrow>
               (case pem_or_env settings (ek_public_pem k) ''HFA_LEDGER_PUBLIC_KEY_B64'' of
                  Inl e \<Rightarrow> (k, Inl e)
                | Inr pem \<Rightarrow>
                    (case ed_load_public L pem of
                       None \<Rightarrow> (k, Inl (KeyProviderError ''Invalid public key PEM''))
                     | Some key \<Rightarrow> (k\<lparr>ek_public_key := Some key\<rparr>, Inr key)))))"

definition env_sign ::
  "('sk, 'pk) ed25519 \<Rightarrow> settings \<Rightarrow> ('sk, 'pk) env_keys \<Rightarrow> char list \<Rightarrow> ('sk, 'pk) env_keys \<times> (key_error + char list)" where
  "env_sign L settings k data =
     sbind (load_private_key L settings) (\<lambda>private_key.
       case ed_sign L private_key data of
         None \<Rightarrow> sraise (KeyProviderError ''Signing failed'')
       | Some sg \<Rightarrow> sreturn sg) k"

definition env_verify ::
  "('sk, 'pk) ed25519 \<Rightarrow> settings \<Rightarrow> ('sk, 'pk) env_keys \<Rightarrow> char list \<Rightarrow> char list \<Rightarrow> ('sk, 'pk) env_keys \<times> (key_error + bool)" where
  "env_verify L settings k data signature =
     sbind (load_public_key L settings) (\<lambda>public_key. sreturn (ed_verify L public_key signature data)) k"

definition env_key_provider :: "('sk, 'pk) ed25519 \<Rightarrow> settings \<Rightarrow> ('sk, 'pk) env_keys key_provider" where
  "env_key_provider L settings =
     \<lparr>kp_sign = env_sign L settings, kp_verify = env_verify L settings, kp_key_id = ek_key_id\<rparr>"

section \<open>When the keys are steady\<close>

text \<open>The private key that a provider built with \<open>private_pem\<close> loads.\<close>

definition loads_private :: "('sk, 'pk) ed25519 \<Rightarrow> settings \<Rightarrow> char list option \<Rightarrow> 'sk \<Rightarrow> bool" where
  "loads_private L settings private_pem key \<longleftrightarrow>
     (\<exists>pem. pem_or_env settings private_pem ''HFA_LEDGER_PRIVATE_KEY_B64'' = Inr pem \<and> ed_load_private L pem = Some key)"

definition loads_public :: "('sk, 'pk) ed25519 \<Rightarrow> settings \<Rightarrow> char list option \<Rightarrow> 'pk \<Rightarrow> bool" where
  "loads_public L settings public_pem key \<longleftrightarrow>
     (\<exists>pem. pem_or_env settings public_pem ''HFA_LEDGER_PUBLIC_KEY_B64'' = Inr pem \<and> ed_load_public L pem = Some key)"

text \<open>
  The public key belongs to the private key: none is given, so that it is derived, or the one that
  loads is the public key of the private key.
\<close>

definition keys_match :: "('sk, 'pk) ed25519 \<Rightarrow> settings \<Rightarrow> char list option \<Rightarrow> char list option \<Rightarrow> bool" where
  "keys_match L settings private_pem public_pem \<longleftrightarrow>
     public_pem = None
     \<or> (\<forall>key. loads_private L settings private_pem key \<longrightarrow> loads_public L settings public_pem (ed_public L key))"

text \<open>The key id that the provider starts with is the one it keeps.\<close>

definition key_id_fixed :: "settings \<Rightarrow> string \<Rightarrow> bool" where
  "key_id_fixed settings key_id \<longleftrightarrow>
     key_id \<noteq> ''default''
     \<or> (case settings of None \<Rightarrow> True | Some setting \<Rightarrow> setting ''HFA_LEDGER_KEY_ID'' \<in> {None, Some []})"

lemma loads_private_unique:
  "loads_private L settings p a \<Longrightarrow> loads_private L settings p b \<Longrightarrow> a = b"
  by (auto simp: loads_private_def)

lemma loads_public_unique:
  "loads_public L settings p a \<Longrightarrow> loads_public L settings p b \<Longrightarrow> a = b"
  by (auto simp: loads_public_def)

definition env_keys_ok ::
  "('sk, 'pk) ed25519 \<Rightarrow> settings \<Rightarrow> char list option \<Rightarrow> char list option \<Rightarrow> string \<Rightarrow> ('sk, 'pk) env_keys \<Rightarrow> bool" where
  "env_keys_ok L settings priv pub key_id k \<longleftrightarrow>
     ed25519_law L \<and> keys_match L settings priv pub \<and> key_id_fixed settings key_id
     \<and> ek_private_pem k = priv \<and> ek_public_pem k = pub \<and> ek_key_id k = key_id
     \<and> (\<forall>key. ek_private_key k = Some key \<longrightarrow> ed_installed L \<and> loads_private L settings priv key)
     \<and> (\<forall>pk key. ek_public_key k = Some pk \<longrightarrow> loads_private L settings priv key \<longrightarrow> pk = ed_public L key)"

definition env_ready :: "('sk, 'pk) env_keys \<Rightarrow> bool" where
  "env_ready k \<longleftrightarrow> ek_private_key k \<noteq> None"

definition signed_with :: "('sk, 'pk) ed25519 \<Rightarrow> settings \<Rightarrow> char list option \<Rightarrow> char list \<Rightarrow> char list \<Rightarrow> bool" where
  "signed_with L settings priv m sg \<longleftrightarrow> (\<exists>key. loads_private L settings priv key \<and> ed_sign L key m = Some sg)"

lemma make_env_keys_ok:
  "ed25519_law L \<Longrightarrow> keys_match L settings priv pub \<Longrightarrow> key_id_fixed settings key_id \<Longrightarrow>
     env_keys_ok L settings priv pub key_id (make_env_keys priv pub key_id)"
  by (simp add: env_keys_ok_def make_env_keys_def)

lemma load_private_key_ok:
  assumes "env_keys_ok L settings priv pub key_id k" and "load_private_key L settings k = (k', res)"
  shows "env_keys_ok L settings priv pub key_id k' \<and> (env_ready k \<longrightarrow> env_ready k')
    \<and> (\<forall>key. res = Inr key \<longrightarrow> env_ready k' \<and> loads_private L settings priv key)"
  using assms
  by (auto simp: load_private_key_def env_keys_ok_def env_ready_def key_id_fixed_def Let_def
      intro: loads_private_def [THEN iffD2]
      split: option.splits if_splits sum.splits)

lemma load_public_key_ok:
  assumes ok: "env_keys_ok L settings priv pub key_id k" and ready: "env_ready k"
    and load: "load_public_key L settings k = (k', res)"
  shows "env_keys_ok L settings priv pub key_id k' \<and> env_ready k'
    \<and> (\<exists>key. loads_private L settings priv key \<and> res = Inr (ed_public L key))"
proof -
  obtain key where key: "ek_private_key k = Some key" "ed_installed L" "loads_private L settings priv key"
    using ok ready by (auto simp: env_keys_ok_def env_ready_def)
  show ?thesis
  proof (cases "ek_public_key k")
    case (Some pk)
    with ok key(3) have "pk = ed_public L key" by (auto simp: env_keys_ok_def)
    with ok ready load key Some show ?thesis by (auto simp: load_public_key_def)
  next
    case none: None
    have "k' = k\<lparr>ek_public_key := Some (ed_public L key)\<rparr> \<and> res = Inr (ed_public L key)"
    proof (cases pub)
      case None
      with ok load key none show ?thesis by (simp add: load_public_key_def env_keys_ok_def)
    next
      case (Some pem)
      with ok key have "loads_public L settings pub (ed_public L key)"
        by (auto simp: env_keys_ok_def keys_match_def)
      with Some ok load key none show ?thesis
        by (auto simp: load_public_key_def env_keys_ok_def loads_public_def)
    qed
    moreover have "env_keys_ok L settings priv pub key_id (k\<lparr>ek_public_key := Some (ed_public L key)\<rparr>)"
      using ok key(3) unfolding env_keys_ok_def by (auto intro: arg_cong [where f = "ed_public L"] loads_private_unique)
    ultimately show ?thesis using ready key(3) by (auto simp: env_ready_def)
  qed
qed

interpretation env: steady_keys "env_key_provider L settings" "env_keys_ok L settings priv pub key_id"
  env_ready "signed_with L settings priv" for L :: "('sk, 'pk) ed25519" and settings priv pub key_id
proof
  fix k k' :: "('sk, 'pk) env_keys" and m sg :: "char list" and res and vres :: "key_error + bool"
  assume ok: "env_keys_ok L settings priv pub key_id k"
  {
    assume sign: "kp_sign (env_key_provider L settings) k m = (k', res)"
    obtain k1 r where load: "load_private_key L settings k = (k1, r)" by fastforce
    have "k' = k1" and r: "\<And>sg. res = Inr sg \<Longrightarrow> \<exists>key. r = Inr key \<and> ed_sign L key m = Some sg"
      using sign load
      by (auto simp: env_key_provider_def env_sign_def sbind_def sreturn_def sraise_def split: sum.splits option.splits)
    with load_private_key_ok [OF ok load] ok
    show "env_keys_ok L settings priv pub key_id k' \<and> kp_key_id (env_key_provider L settings) k' = kp_key_id (env_key_provider L settings) k
        \<and> (env_ready k \<longrightarrow> env_ready k')"
      by (auto simp: env_key_provider_def env_keys_ok_def)
  }
  {
    assume sign: "kp_sign (env_key_provider L settings) k m = (k', Inr sg)"
    obtain k1 r where load: "load_private_key L settings k = (k1, r)" by fastforce
    have "k' = k1 \<and> (\<exists>key. r = Inr key \<and> ed_sign L key m = Some sg)"
      using sign load
      by (auto simp: env_key_provider_def env_sign_def sbind_def sreturn_def sraise_def split: sum.splits option.splits)
    with load_private_key_ok [OF ok load] show "env_ready k' \<and> signed_with L settings priv m sg"
      by (auto simp: signed_with_def)
  }
  assume ready: "env_ready k" and verify: "kp_verify (env_key_provider L settings) k m sg = (k', vres)"
  obtain k1 r where load: "load_public_key L settings k = (k1, r)" by fastforce
  from load_public_key_ok [OF ok ready load] obtain key where
    key: "env_keys_ok L settings priv pub key_id k1" "env_ready k1" "loads_private L settings priv key" "r = Inr (ed_public L key)"
    by blast
  have res: "k' = k1" "vres = Inr (ed_verify L (ed_public L key) sg m)"
    using verify load key(4) by (simp_all add: env_key_provider_def env_verify_def sbind_def sreturn_def)
  with key show "env_keys_ok L settings priv pub key_id k' \<and> env_ready k'" by simp
  {
    assume "signed_with L settings priv m sg"
    then obtain key' where "loads_private L settings priv key'" "ed_sign L key' m = Some sg" by (auto simp: signed_with_def)
    with loads_private_unique [OF key(3)] have "ed_sign L key m = Some sg" by metis
    with ok res(2) show "vres = Inr True" by (simp add: env_keys_ok_def ed25519_law_def)
  }
qed

end
