(* ===== verification/SignedLedger.thy ===== *)
theory SignedLedger
  imports LedgerKeys JsonRoundTrip
begin

text \<open>
  The signed append-only ledger of \<open>src/hfa-core/src/hfa/governance/signed_ledger_v1.py\<close>.

  A ledger has a key provider (theory LedgerKeys) and a store. Both keep state, which every operation
  threads: a pair of the provider's state and the store's. \<open>uuid.uuid4()\<close> and \<open>time.time()\<close> are
  arguments of \<open>append\<close>. The storage backend is the interface \<open>LedgerStore\<close>: a record of operations,
  whose laws the locale \<open>ledger_store\<close> states and which \<open>InMemoryLedgerStore\<close> is shown to keep. The
  locale \<open>signed_ledger\<close> puts a store and a provider with steady keys together; it is interpreted on
  the in-memory store and \<open>Ed25519EnvKeyProvider\<close>.

  The lemmas: appends and verifications keep every stream verifiable while the key id stays what it
  is; a first append that changes the key id makes its chain unverifiable; a verified chain is bound
  by the content hash of its last entry, up to a SHA-256 collision; two interleaved appends of one run
  break its chain; streams of runs whose ids contain colons can coincide.
\<close>

section \<open>Entries\<close>

record ledger_entry =
  le_entry_id :: string
  le_sequence :: int
  le_tenant_id :: string
  le_run_id :: string
  le_event_type :: string
  le_payload :: json
  le_timestamp :: pyfloat
  le_prev_hash :: string
  le_signature :: string
  le_key_id :: string

datatype ledger_error =
    KeyError key_error
  | SequenceMismatch nat int int
  | GenesisPrevHash
  | ChainBroken int
  | InvalidSignature int string
  | NonHexSignature

definition canonical_bytes :: "(pyfloat \<Rightarrow> string) \<Rightarrow> ledger_entry \<Rightarrow> char list" where
  "canonical_bytes repr e =
     json_dumps repr (JObj
       [(''entry_id'', JStr (le_entry_id e)),
        (''sequence'', JInt (le_sequence e)),
        (''tenant_id'', JStr (le_tenant_id e)),
        (''run_id'', JStr (le_run_id e)),
        (''event_type'', JStr (le_event_type e)),
        (''payload'', le_payload e),
        (''timestamp'', JFloat (le_timestamp e)),
        (''prev_hash'', JStr (le_prev_hash e)),
        (''key_id'', JStr (le_key_id e))])"

definition content_hash :: "(pyfloat \<Rightarrow> string) \<Rightarrow> ledger_entry \<Rightarrow> string" where
  "content_hash repr e = sha256_hexdigest (canonical_bytes repr e)"

definition entry_to_dict :: "ledger_entry \<Rightarrow> json" where
  "entry_to_dict e =
     JObj
       [(''entry_id'', JStr (le_entry_id e)),
        (''sequence'', JInt (le_sequence e)),
        (''tenant_id'', JStr (le_tenant_id e)),
        (''run_id'', JStr (le_run_id e)),
        (''event_type'', JStr (le_event_type e)),
        (''payload'', le_payload e),
        (''timestamp'', JFloat (le_timestamp e)),
        (''prev_hash'', JStr (le_prev_hash e)),
        (''signature'', JStr (le_signature e)),
        (''key_id'', JStr (le_key_id e))]"

text \<open>\<open>bytes.fromhex\<close>: pairs of hex digits, ASCII white space allowed between pairs.\<close>

definition hex_val :: "char \<Rightarrow> nat option" where
  "hex_val c =
     (let n = of_char c
      in if 48 \<le> n \<and> n \<le> 57 then Some (n - 48)
         else if 97 \<le> n \<and> n \<le> 102 then Some (n - 87)
         else if 65 \<le> n \<and> n \<le> 70 then Some (n - 55)
         else None)"

definition is_space :: "char \<Rightarrow> bool" where
  "is_space c = ((of_char c :: nat) \<in> {9, 10, 11, 12, 13, 32})"

fun fromhex :: "string \<Rightarrow> char list option" where
  "fromhex [] = Some []"
| "fromhex (c # cs) =
     (if is_space c then fromhex cs
      else case cs of
             [] \<Rightarrow> None
           | d # ds \<Rightarrow>
               (case (hex_val c, hex_val d) of
                  (Some x, Some y) \<Rightarrow> map_option ((#) (char_of (16 * x + y))) (fromhex ds)
                | _ \<Rightarrow> None))"

section \<open>Stores\<close>

record 's store_ops =
  store_append :: "'s \<Rightarrow> ledger_entry \<Rightarrow> 's"
  store_get_last :: "'s \<Rightarrow> string \<Rightarrow> string \<Rightarrow> ledger_entry option"
  store_get_all :: "'s \<Rightarrow> string \<Rightarrow> string \<Rightarrow> ledger_entry list"

type_synonym memory_store = "(string \<times> ledger_entry list) list"

definition store_key :: "string \<Rightarrow> string \<Rightarrow> string" where
  "store_key tenant_id run_id = tenant_id @ '':'' @ run_id"

definition memory_get_all :: "memory_store \<Rightarrow> string \<Rightarrow> string \<Rightarrow> ledger_entry list" where
  "memory_get_all st tenant_id run_id =
     (case map_of st (store_key tenant_id run_id) of None \<Rightarrow> [] | Some es \<Rightarrow> es)"

definition memory_get_last :: "memory_store \<Rightarrow> string \<Rightarrow> string \<Rightarrow> ledger_entry option" where
  "memory_get_last st tenant_id run_id =
     (let entries = memory_get_all st tenant_id run_id
      in if entries = [] then None else Some (last entries))"

definition memory_append :: "memory_store \<Rightarrow> ledger_entry \<Rightarrow> memory_store" where
  "memory_append st e =
     (let key = store_key (le_tenant_id e) (le_run_id e);
          entries = (case map_of st key of None \<Rightarrow> [] | Some es \<Rightarrow> es);
          st1 = AList.update key entries st
      in if \<exists>x \<in> set entries. le_entry_id x = le_entry_id e then st1
         else AList.update key (entries @ [e]) st1)"

definition in_memory_store :: "memory_store store_ops" where
  "in_memory_store =
     \<lparr>store_append = memory_append, store_get_last = memory_get_last, store_get_all = memory_get_all\<rparr>"

section \<open>The ledger\<close>

text \<open>A call of the key provider: its exceptions are those of the ledger.\<close>

definition key_call :: "'k \<times> (key_error + 'a) \<Rightarrow> 'k \<times> (ledger_error + 'a)" where
  "key_call reply = (case reply of (k, Inl e) \<Rightarrow> (k, Inl (KeyError e)) | (k, Inr x) \<Rightarrow> (k, Inr x))"

text \<open>The key id is read twice: for the bytes that are signed, and again for the entry that is stored.\<close>

definition prepare_entry ::
  "(pyfloat \<Rightarrow> string) \<Rightarrow> 'k key_provider \<Rightarrow> 's store_ops \<Rightarrow> string \<Rightarrow> pyfloat \<Rightarrow> string \<Rightarrow> string \<Rightarrow> string \<Rightarrow> json
     \<Rightarrow> 'k \<times> 's \<Rightarrow> 'k \<times> (ledger_error + ledger_entry)" where
  "prepare_entry repr K S uuid now tenant_id run_id event_type payload ks =
     (let (k, st) = ks;
          prior = store_get_last S st tenant_id run_id;
          sequence = (case prior of None \<Rightarrow> 1 | Some e \<Rightarrow> le_sequence e + 1);
          prev_hash = (case prior of None \<Rightarrow> [] | Some e \<Rightarrow> content_hash repr e);
          unsigned =
            \<lparr>le_entry_id = uuid, le_sequence = sequence, le_tenant_id = tenant_id, le_run_id = run_id,
             le_event_type = event_type, le_payload = payload, le_timestamp = now,
             le_prev_hash = prev_hash, le_signature = [], le_key_id = kp_key_id K k\<rparr>
      in case key_call (kp_sign K k (canonical_bytes repr unsigned)) of
           (k', Inl err) \<Rightarrow> (k', Inl err)
         | (k', Inr sig_bytes) \<Rightarrow>
             (k', Inr (unsigned\<lparr>le_signature := hexlify sig_bytes, le_key_id := kp_key_id K k'\<rparr>)))"

definition ledger_append ::
  "(pyfloat \<Rightarrow> string) \<Rightarrow> 'k key_provider \<Rightarrow> 's store_ops \<Rightarrow> string \<Rightarrow> pyfloat \<Rightarrow> string \<Rightarrow> string \<Rightarrow> string \<Rightarrow> json
     \<Rightarrow> 'k \<times> 's \<Rightarrow> ('k \<times> 's) \<times> (ledger_error + ledger_entry)" where
  "ledger_append repr K S uuid now tenant_id run_id event_type payload ks =
     (case prepare_entry repr K S uuid now tenant_id run_id event_type payload ks of
        (k', Inl err) \<Rightarrow> ((k', snd ks), Inl err)
      | (k', Inr entry) \<Rightarrow> ((k', store_append S (snd ks) entry), Inr entry))"

text \<open>One round of the loop of \<open>verify_chain\<close>: position, previous entry and current entry.\<close>

definition verify_entry ::
  "(pyfloat \<Rightarrow> string) \<Rightarrow> 'k key_provider \<Rightarrow> nat \<Rightarrow> ledger_entry option \<Rightarrow> ledger_entry \<Rightarrow> 'k \<Rightarrow> 'k \<times> (ledger_error + unit)" where
  "verify_entry repr K i prior e k =
     (if le_sequence e \<noteq> int i + 1 then (k, Inl (SequenceMismatch i (int i + 1) (le_sequence e)))
      else case (case prior of
                   None \<Rightarrow> (if le_prev_hash e \<noteq> [] then Some GenesisPrevHash else None)
                 | Some p \<Rightarrow> (if le_prev_hash e \<noteq> content_hash repr p then Some (ChainBroken (le_sequence e)) else None)) of
             Some err \<Rightarrow> (k, Inl err)
           | None \<Rightarrow>
               (case fromhex (le_signature e) of
                  None \<Rightarrow> (k, Inl NonHexSignature)
                | Some sig_bytes \<Rightarrow>
                    (case key_call (kp_verify K k (canonical_bytes repr (e\<lparr>le_signature := []\<rparr>)) sig_bytes) of
                       (k', Inl err) \<Rightarrow> (k', Inl err)
                     | (k', Inr valid) \<Rightarrow>
                         (k', if valid then Inr () else Inl (InvalidSignature (le_sequence e) (le_entry_id e))))))"

fun verify_from ::
  "(pyfloat \<Rightarrow> string) \<Rightarrow> 'k key_provider \<Rightarrow> nat \<Rightarrow> ledger_entry option \<Rightarrow> ledger_entry list \<Rightarrow> 'k \<Rightarrow> 'k \<times> (ledger_error + bool)" where
  "verify_from repr K i prior [] k = (k, Inr True)"
| "verify_from repr K i prior (e # es) k =
     (case verify_entry repr K i prior e k of
        (k', Inl err) \<Rightarrow> (k', Inl err)
      | (k', Inr _) \<Rightarrow> verify_from repr K (Suc i) (Some e) es k')"

definition verify_chain ::
  "(pyfloat \<Rightarrow> string) \<Rightarrow> 'k key_provider \<Rightarrow> 's store_ops \<Rightarrow> string \<Rightarrow> string \<Rightarrow> 'k \<times> 's \<Rightarrow> 'k \<times> (ledger_error + bool)" where
  "verify_chain repr K S tenant_id run_id ks =
     (let entries = store_get_all S (snd ks) tenant_id run_id
      in if entries = [] then (fst ks, Inr True) else verify_from repr K 0 None entries (fst ks))"

definition get_entries :: "'s store_ops \<Rightarrow> string \<Rightarrow> string \<Rightarrow> 's \<Rightarrow> ledger_entry list" where
  "get_entries S tenant_id run_id st = store_get_all S st tenant_id run_id"

section \<open>Chains\<close>

lemma fromhex_hexlify [simp]: "fromhex (hexlify bs) = Some bs"
proof (induction bs)
  case (Cons b bs)
  have "list_all (\<lambda>n. hex_val (hex_char n) = Some n \<and> \<not> is_space (hex_char n)) [0..<16]"
    by code_simp
  then have v: "hex_val (hex_char n) = Some n \<and> \<not> is_space (hex_char n)" if "n < 16" for n
    using that by (simp add: list_all_iff)
  have "(of_char b :: nat) < 256" by simp
  then have "(of_char b :: nat) div 16 < 16" "(of_char b :: nat) mod 16 < 16"
    by (simp_all add: less_mult_imp_div_less)
  with Cons v show ?case by (simp add: hexlify_def)
qed (simp add: hexlify_def)

lemma canonical_bytes_unsigned [simp]: "canonical_bytes repr (e\<lparr>le_signature := x\<rparr>) = canonical_bytes repr e"
  by (simp add: canonical_bytes_def)

definition last_of :: "ledger_entry option \<Rightarrow> ledger_entry list \<Rightarrow> ledger_entry option" where
  "last_of prior es = (if es = [] then prior else Some (last es))"

text \<open>
  What a ledger promises of a chain, without a key provider: consecutive numbers, every entry holds
  the content hash of the one before, and a signature of its own canonical bytes.
\<close>

definition linked_entry :: "(pyfloat \<Rightarrow> string) \<Rightarrow> nat \<Rightarrow> ledger_entry option \<Rightarrow> ledger_entry \<Rightarrow> bool" where
  "linked_entry repr i prior e \<longleftrightarrow>
     le_sequence e = int i + 1 \<and> le_prev_hash e = (case prior of None \<Rightarrow> [] | Some p \<Rightarrow> content_hash repr p)"

definition signed_entry :: "(pyfloat \<Rightarrow> string) \<Rightarrow> (char list \<Rightarrow> char list \<Rightarrow> bool) \<Rightarrow> ledger_entry \<Rightarrow> bool" where
  "signed_entry repr accepted e \<longleftrightarrow> (\<exists>sg. fromhex (le_signature e) = Some sg \<and> accepted (canonical_bytes repr e) sg)"

fun linked_from :: "(pyfloat \<Rightarrow> string) \<Rightarrow> nat \<Rightarrow> ledger_entry option \<Rightarrow> ledger_entry list \<Rightarrow> bool" where
  "linked_from repr i prior [] = True"
| "linked_from repr i prior (e # es) = (linked_entry repr i prior e \<and> linked_from repr (Suc i) (Some e) es)"

lemma linked_from_append:
  "linked_from repr i prior (es @ fs) \<longleftrightarrow> linked_from repr i prior es \<and> linked_from repr (i + length es) (last_of prior es) fs"
proof (induction es arbitrary: i prior)
  case (Cons e es)
  have "last_of (Some e) es = last_of prior (e # es)" by (simp add: last_of_def)
  with Cons show ?case by simp
qed (simp add: last_of_def)

lemma linked_from_sequence:
  "linked_from repr i prior es \<Longrightarrow> k < length es \<Longrightarrow> le_sequence (es ! k) = int (i + k) + 1"
proof (induction es arbitrary: i prior k)
  case (Cons e es)
  then show ?case by (cases k) (auto simp: linked_entry_def)
qed simp

lemma linked_last_sequence:
  assumes "linked_from repr 0 None es" and "es \<noteq> []"
  shows "le_sequence (last es) = int (length es)"
  using linked_from_sequence [OF assms(1), of "length es - 1"] assms(2)
  by (cases "length es") (simp_all add: last_conv_nth)

lemma verify_entry_linked:
  "verify_entry repr K i prior e k = (k', Inr u) \<Longrightarrow> linked_entry repr i prior e"
  by (auto simp: verify_entry_def linked_entry_def split: if_splits option.splits)

lemma verify_from_linked:
  "snd (verify_from repr K i prior es k) = Inr b \<Longrightarrow> linked_from repr i prior es"
proof (induction es arbitrary: i prior k)
  case (Cons e es)
  then obtain k' u where "verify_entry repr K i prior e k = (k', Inr u)" "snd (verify_from repr K (Suc i) (Some e) es k') = Inr b"
    by (cases "verify_entry repr K i prior e k") (auto split: sum.splits)
  with Cons.IH verify_entry_linked show ?case by auto
qed simp

lemma verify_from_append:
  "snd (verify_from repr K i prior es k) = Inr b \<Longrightarrow>
     verify_from repr K i prior (es @ fs) k =
       verify_from repr K (i + length es) (last_of prior es) fs (fst (verify_from repr K i prior es k))"
proof (induction es arbitrary: i prior k)
  case (Cons e es)
  then obtain k' u where "verify_entry repr K i prior e k = (k', Inr u)" "snd (verify_from repr K (Suc i) (Some e) es k') = Inr b"
    by (cases "verify_entry repr K i prior e k") (auto split: sum.splits)
  moreover have "last_of (Some e) es = last_of prior (e # es)" by (simp add: last_of_def)
  ultimately show ?case using Cons.IH [of "Suc i" "Some e" k'] by simp
qed (simp add: last_of_def)

section \<open>The store interface\<close>

text \<open>
  What \<open>LedgerStore\<close> promises its client: \<open>get_last\<close> is the last element of \<open>get_all\<close>, and an append
  adds the entry at the end of its own stream, once per entry id, and leaves other streams alone.
  \<open>stream\<close> is the backend's notion of which tenant and run belong together.
\<close>

locale ledger_store =
  fixes S :: "'s store_ops" and stream :: "string \<Rightarrow> string \<Rightarrow> 'n"
  assumes get_last: "store_get_last S st t r = last_of None (store_get_all S st t r)"
    and get_all_append: "store_get_all S (store_append S st e) t r =
      (if stream t r = stream (le_tenant_id e) (le_run_id e)
          \<and> (\<forall>x \<in> set (store_get_all S st t r). le_entry_id x \<noteq> le_entry_id e)
       then store_get_all S st t r @ [e] else store_get_all S st t r)"
    and get_all_stream: "stream t r = stream t' r' \<Longrightarrow> store_get_all S st t r = store_get_all S st t' r'"
begin

definition fresh :: "'s \<Rightarrow> string \<Rightarrow> string \<Rightarrow> string \<Rightarrow> bool" where
  "fresh st t r uuid = (\<forall>x \<in> set (store_get_all S st t r). le_entry_id x \<noteq> uuid)"

lemma prepared_fields:
  assumes "prepare_entry repr K S uuid now t r ev p (k, st) = (k', Inr e)"
  shows "le_entry_id e = uuid" "le_tenant_id e = t" "le_run_id e = r" "le_key_id e = kp_key_id K k'"
    "\<exists>sg. kp_sign K k (canonical_bytes repr (e\<lparr>le_key_id := kp_key_id K k\<rparr>)) = (k', Inr sg) \<and> le_signature e = hexlify sg"
  using assms
  by (auto simp: prepare_entry_def key_call_def Let_def canonical_bytes_def split: prod.splits sum.splits)

lemma prepared_linked:
  assumes "prepare_entry repr K S uuid now t r ev p (k, st) = (k', Inr e)"
    and linked: "linked_from repr 0 None (store_get_all S st t r)"
  shows "linked_entry repr (length (store_get_all S st t r)) (last_of None (store_get_all S st t r)) e"
proof (cases "store_get_all S st t r = []")
  case True
  with assms(1) show ?thesis
    by (auto simp: prepare_entry_def key_call_def Let_def get_last last_of_def linked_entry_def split: prod.splits sum.splits)
next
  case False
  with assms(1) linked_last_sequence [OF linked] show ?thesis
    by (auto simp: prepare_entry_def key_call_def Let_def get_last last_of_def linked_entry_def split: prod.splits sum.splits)
qed

lemma append_cases:
  assumes "ledger_append repr K S uuid now t r ev p (k, st) = ((k', st'), res)"
  obtains err where "res = Inl err" "st' = st" "prepare_entry repr K S uuid now t r ev p (k, st) = (k', Inl err)"
  | e where "res = Inr e" "st' = store_append S st e" "prepare_entry repr K S uuid now t r ev p (k, st) = (k', Inr e)"
  using assms by (auto simp: ledger_append_def split: prod.splits sum.splits)

lemma append_other_stream:
  assumes "ledger_append repr K S uuid now t r ev p (k, st) = ((k', st'), res)" and "stream t' r' \<noteq> stream t r"
  shows "store_get_all S st' t' r' = store_get_all S st t' r'"
  using assms(1)
proof (rule append_cases)
  fix e
  assume e: "st' = store_append S st e" "prepare_entry repr K S uuid now t r ev p (k, st) = (k', Inr e)"
  with prepared_fields(2,3) [OF e(2)] assms(2) show ?thesis by (simp add: get_all_append)
qed simp

end

section \<open>A ledger with steady keys\<close>

locale signed_ledger = ledger_store S stream + steady_keys K ok ready accepted
  for S :: "'s store_ops" and stream :: "string \<Rightarrow> string \<Rightarrow> 'n"
    and K :: "'k key_provider" and ok ready :: "'k \<Rightarrow> bool" and accepted :: "char list \<Rightarrow> char list \<Rightarrow> bool"
begin

definition good_chain :: "(pyfloat \<Rightarrow> string) \<Rightarrow> 'k \<Rightarrow> ledger_entry list \<Rightarrow> bool" where
  "good_chain repr k es \<longleftrightarrow> linked_from repr 0 None es \<and> (\<forall>e \<in> set es. signed_entry repr accepted e) \<and> (es \<noteq> [] \<longrightarrow> ready k)"

lemma verify_entry_accepts:
  assumes "ok k" "ready k" and "linked_entry repr i prior e" and "signed_entry repr accepted e"
  shows "\<exists>k'. verify_entry repr K i prior e k = (k', Inr ()) \<and> ok k' \<and> ready k'"
proof -
  obtain sg where sg: "fromhex (le_signature e) = Some sg" "accepted (canonical_bytes repr e) sg"
    using assms(4) by (auto simp: signed_entry_def)
  obtain k' valid where v: "kp_verify K k (canonical_bytes repr e) sg = (k', valid)" by fastforce
  from verify_keeps [OF assms(1,2) v] verify_accepts [OF assms(1,2) v sg(2)] assms(3) sg(1) v show ?thesis
    by (auto simp: verify_entry_def linked_entry_def key_call_def split: option.splits)
qed

lemma verify_from_accepts:
  "ok k \<Longrightarrow> ready k \<Longrightarrow> linked_from repr i prior es \<Longrightarrow> \<forall>e \<in> set es. signed_entry repr accepted e \<Longrightarrow>
     \<exists>k'. verify_from repr K i prior es k = (k', Inr True) \<and> ok k' \<and> ready k'"
proof (induction es arbitrary: i prior k)
  case (Cons e es)
  then have "linked_entry repr i prior e" "signed_entry repr accepted e" by simp_all
  from verify_entry_accepts [OF Cons.prems(1,2) this]
  obtain k' where k': "verify_entry repr K i prior e k = (k', Inr ())" "ok k'" "ready k'" by blast
  from Cons.IH [OF k'(2,3)] Cons.prems k'(1) show ?case by auto
qed auto

lemma verify_chain_accepts:
  assumes "ok k" and "good_chain repr k (store_get_all S st t r)"
  shows "\<exists>k'. verify_chain repr K S t r (k, st) = (k', Inr True) \<and> ok k' \<and> (ready k \<longrightarrow> ready k')"
proof (cases "store_get_all S st t r = []")
  case True
  with assms(1) show ?thesis by (simp add: verify_chain_def)
next
  case False
  with assms verify_from_accepts [of k repr 0 None "store_get_all S st t r"] show ?thesis
    by (auto simp: verify_chain_def good_chain_def)
qed

lemma prepared_signed:
  assumes "ok k" and prep: "prepare_entry repr K S uuid now t r ev p (k, st) = (k', Inr e)"
  shows "signed_entry repr accepted e \<and> ok k' \<and> ready k'"
proof -
  obtain sg where sg: "kp_sign K k (canonical_bytes repr (e\<lparr>le_key_id := kp_key_id K k\<rparr>)) = (k', Inr sg)" "le_signature e = hexlify sg"
    using prepared_fields(5) [OF prep] by blast
  have same: "kp_key_id K k' = kp_key_id K k" "ok k'" using sign_keeps [OF assms(1) sg(1)] by simp_all
  then have "e\<lparr>le_key_id := kp_key_id K k\<rparr> = e" using prepared_fields(4) [OF prep] by simp
  with sign_accepted [OF assms(1) sg(1)] sg(2) same show ?thesis by (simp add: signed_entry_def)
qed

lemma prepare_keeps:
  assumes "ok k" and "prepare_entry repr K S uuid now t r ev p (k, st) = (k', res)"
  shows "ok k' \<and> (ready k \<longrightarrow> ready k')"
proof -
  from assms(2) obtain m res' where "kp_sign K k m = (k', res')"
    by (auto simp: prepare_entry_def key_call_def Let_def split: prod.splits sum.splits)
  from sign_keeps [OF assms(1) this] show ?thesis by simp
qed

lemma append_keeps_good:
  assumes "ok k" and good: "\<And>t r. good_chain repr k (store_get_all S st t r)"
    and app: "ledger_append repr K S uuid now t r ev p (k, st) = ((k', st'), res)" and "fresh st t r uuid"
  shows "ok k' \<and> good_chain repr k' (store_get_all S st' t' r')"
  using app
proof (rule append_cases)
  fix err
  assume "st' = st" "prepare_entry repr K S uuid now t r ev p (k, st) = (k', Inl err)"
  with prepare_keeps [OF assms(1)] good [of t' r'] show ?thesis by (auto simp: good_chain_def)
next
  fix e
  assume e: "st' = store_append S st e" "prepare_entry repr K S uuid now t r ev p (k, st) = (k', Inr e)"
  note signed = prepared_signed [OF assms(1) e(2)]
  have linked: "linked_entry repr (length (store_get_all S st t r)) (last_of None (store_get_all S st t r)) e"
    using prepared_linked [OF e(2)] good [of t r] by (simp add: good_chain_def)
  show ?thesis
  proof (cases "stream t' r' = stream t r")
    case True
    have "store_get_all S st' t r = store_get_all S st t r @ [e]"
      using e(1) prepared_fields(1-3) [OF e(2)] assms(4) by (simp add: get_all_append fresh_def)
    with get_all_stream [OF True] signed linked good [of t r] show ?thesis
      by (simp add: good_chain_def linked_from_append)
  next
    case False
    from append_other_stream [OF app False] signed good [of t' r'] show ?thesis by (simp add: good_chain_def)
  qed
qed

lemma interleaved_appends_break:
  assumes "ok k" and good: "good_chain repr k (store_get_all S st t r)"
    and p1: "prepare_entry repr K S u1 n1 t r ev1 q1 (k, st) = (k1, Inr e1)"
    and p2: "prepare_entry repr K S u2 n2 t r ev2 q2 (k1, st) = (k2, Inr e2)"
    and "fresh st t r u1" "fresh st t r u2" "u1 \<noteq> u2"
  shows "\<exists>n. snd (verify_chain repr K S t r (k2, store_append S (store_append S st e1) e2)) =
    Inl (SequenceMismatch (n + 1) (int n + 2) (int n + 1))"
proof -
  let ?es = "store_get_all S st t r"
  note e = prepared_fields(1-3) [OF p1] prepared_fields(1-3) [OF p2]
  have all: "store_get_all S (store_append S (store_append S st e1) e2) t r = (?es @ [e1]) @ [e2]"
    using e assms(5-7) by (simp add: get_all_append fresh_def)
  have seq: "le_sequence e2 = le_sequence e1"
    using p1 p2 by (auto simp: prepare_entry_def key_call_def Let_def split: prod.splits sum.splits)
  have s1: "signed_entry repr accepted e1 \<and> ok k1 \<and> ready k1" by (rule prepared_signed [OF assms(1) p1])
  then have s2: "ok k2 \<and> ready k2" using prepared_signed [OF _ p2] by blast
  have linked: "linked_from repr 0 None (?es @ [e1])"
    using prepared_linked [OF p1] good by (simp add: good_chain_def linked_from_append)
  obtain k3 where k3: "verify_from repr K 0 None (?es @ [e1]) k2 = (k3, Inr True)"
    using verify_from_accepts [OF _ _ linked] s1 s2 good by (auto simp: good_chain_def)
  have "le_sequence e1 = int (length ?es) + 1"
    using linked_from_sequence [OF linked, of "length ?es"] by simp
  then have "verify_from repr K (length (?es @ [e1])) x [e2] k3 =
      (k3, Inl (SequenceMismatch (length ?es + 1) (int (length ?es) + 2) (int (length ?es) + 1)))" for x
    by (simp add: verify_entry_def seq)
  then have "snd (verify_from repr K 0 None ((?es @ [e1]) @ [e2]) k2) =
      Inl (SequenceMismatch (length ?es + 1) (int (length ?es) + 2) (int (length ?es) + 1))"
    using verify_from_append [of repr K 0 None "?es @ [e1]" k2 True "[e2]"] k3 by simp
  then show ?thesis using all by (auto simp: verify_chain_def Let_def)
qed

end

interpretation mem: ledger_store in_memory_store store_key
proof
  show "store_get_last in_memory_store st t r = last_of None (store_get_all in_memory_store st t r)" for st t r
    by (simp add: in_memory_store_def memory_get_last_def last_of_def Let_def)
  show "store_get_all in_memory_store (store_append in_memory_store st e) t r =
      (if store_key t r = store_key (le_tenant_id e) (le_run_id e)
          \<and> (\<forall>x \<in> set (store_get_all in_memory_store st t r). le_entry_id x \<noteq> le_entry_id e)
       then store_get_all in_memory_store st t r @ [e] else store_get_all in_memory_store st t r)" for st e t r
    by (auto simp: in_memory_store_def memory_append_def memory_get_all_def Let_def map_of_update split: option.splits)
  show "store_get_all in_memory_store st t r = store_get_all in_memory_store st t' r'"
    if "store_key t r = store_key t' r'" for st t r t' r'
    using that by (simp add: in_memory_store_def memory_get_all_def)
qed

interpretation sl: signed_ledger in_memory_store store_key "env_key_provider L settings"
  "env_keys_ok L settings priv pub key_id" env_ready "signed_with L settings priv"
  for L :: "('sk, 'pk) ed25519" and settings priv pub key_id ..

lemma in_memory_ops [simp]:
  "store_get_all in_memory_store = memory_get_all" "store_append in_memory_store = memory_append"
  "store_get_last in_memory_store = memory_get_last"
  by (simp_all add: in_memory_store_def)

section \<open>What the last hash binds\<close>

definition entry_keys :: "string list" where
  "entry_keys = [''entry_id'', ''event_type'', ''key_id'', ''payload'', ''prev_hash'', ''run_id'', ''sequence'',
     ''tenant_id'', ''timestamp'']"

definition entry_texts :: "(pyfloat \<Rightarrow> string) \<Rightarrow> ledger_entry \<Rightarrow> string list" where
  "entry_texts repr e = map (json_dumps repr)
     [JStr (le_entry_id e), JStr (le_event_type e), JStr (le_key_id e), le_payload e, JStr (le_prev_hash e),
      JStr (le_run_id e), JInt (le_sequence e), JStr (le_tenant_id e), JFloat (le_timestamp e)]"

lemma canonical_bytes_members:
  "canonical_bytes repr e = ''{'' @ join_commas (map json_member (zip entry_keys (entry_texts repr e))) @ ''}''"
  by (simp add: canonical_bytes_def entry_keys_def entry_texts_def less_eq_char_def less_char_def)

lemma canonical_bytes_texts:
  assumes "float_repr_plain repr" and "canonical_bytes repr e = canonical_bytes repr e'"
  shows "entry_texts repr e = entry_texts repr e'"
proof (rule members_unique [of _ _ entry_keys])
  show "list_all self_delimiting (entry_texts repr e)" "list_all self_delimiting (entry_texts repr e')"
    using self_delimiting_json_dumps [OF assms(1)] by (simp_all add: entry_texts_def del: json_dumps.simps)
  show "join_commas (map json_member (zip entry_keys (entry_texts repr e))) =
      join_commas (map json_member (zip entry_keys (entry_texts repr e')))"
    using assms(2) by (simp add: canonical_bytes_members)
qed (simp_all add: entry_texts_def entry_keys_def)

lemma json_string_lower_hex:
  assumes "list_all is_lower_hex s"
  shows "json_string s = CHR 0x22 # s @ [CHR 0x22]"
proof -
  have c: "(of_char c :: nat) < 128 \<and> json_escape (of_char c) = [c]" if "is_lower_hex c" for c
    using that by (auto simp: is_lower_hex_def json_escape_def)
  have "list_all (\<lambda>n. n < 128) (map of_char s :: nat list)" using assms c by (auto simp: list_all_iff)
  moreover have "concat (map json_escape (map of_char s)) = s" using assms c by (induction s) auto
  ultimately show ?thesis by (simp add: json_string_def utf8_decode_ascii)
qed

lemma canonical_bytes_binds:
  assumes "float_repr_plain repr" and "canonical_bytes repr e = canonical_bytes repr e'"
  shows "le_sequence e = le_sequence e' \<and> json_string (le_prev_hash e) = json_string (le_prev_hash e')"
  using canonical_bytes_texts [OF assms] by (simp add: entry_texts_def dec_int_inj)

lemma head_hash_binds:
  assumes plain: "float_repr_plain repr" and no: "\<nexists>x y. sha256_collision x y"
  shows "linked_from repr 0 None (es @ [e]) \<Longrightarrow> linked_from repr 0 None (es' @ [e']) \<Longrightarrow>
    content_hash repr e = content_hash repr e' \<Longrightarrow>
    map (canonical_bytes repr) (es @ [e]) = map (canonical_bytes repr) (es' @ [e'])"
proof (induction es arbitrary: es' e e' rule: rev_induct)
  case Nil
  have bytes: "canonical_bytes repr e = canonical_bytes repr e'"
    using Nil(3) no by (auto simp: content_hash_def sha256_collision_def)
  have "le_sequence e = 1" "le_sequence e' = int (length es') + 1"
    using linked_from_sequence [OF Nil(1), of 0] linked_from_sequence [OF Nil(2), of "length es'"] by simp_all
  with canonical_bytes_binds [OF plain bytes] bytes show ?case by simp
next
  case (snoc p es)
  have bytes: "canonical_bytes repr e = canonical_bytes repr e'"
    using snoc(4) no by (auto simp: content_hash_def sha256_collision_def)
  note binds = canonical_bytes_binds [OF plain bytes]
  have "le_sequence e = int (length es) + 2" "le_sequence e' = int (length es') + 1"
    using linked_from_sequence [OF snoc(2), of "Suc (length es)"] linked_from_sequence [OF snoc(3), of "length es'"]
    by (simp_all add: nth_append)
  with binds have "es' \<noteq> []" by auto
  then obtain fs q where es': "es' = fs @ [q]" by (metis rev_exhaust)
  have prev: "le_prev_hash e = content_hash repr p" "le_prev_hash e' = content_hash repr q"
    using snoc(2,3) es' by (simp_all add: linked_from_append last_of_def linked_entry_def)
  have hex: "list_all is_lower_hex (content_hash repr x)" for x
    using sha256_hexdigest_re [of "canonical_bytes repr x"] by (simp add: content_hash_def sha256_re_def)
  have "content_hash repr p = content_hash repr q"
    using binds prev hex by (simp add: json_string_lower_hex)
  moreover have "linked_from repr 0 None (es @ [p])" "linked_from repr 0 None (fs @ [q])"
    using snoc(2,3) es' by (simp_all add: linked_from_append)
  ultimately have "map (canonical_bytes repr) (es @ [p]) = map (canonical_bytes repr) (fs @ [q])"
    by (rule snoc.IH [rotated 2])
  with bytes es' show ?case by simp
qed

section \<open>Histories\<close>

text \<open>
  The operations of one ledger with an in-memory store: appends with fresh entry ids, successful or
  not, and verifications, in any order.
\<close>

inductive ledger_step :: "(pyfloat \<Rightarrow> string) \<Rightarrow> 'k key_provider \<Rightarrow> 'k \<times> memory_store \<Rightarrow> 'k \<times> memory_store \<Rightarrow> bool" for repr K where
  append: "ledger_append repr K in_memory_store uuid now t r ev p ks = (ks', res) \<Longrightarrow>
    \<forall>x \<in> set (memory_get_all (snd ks) t r). le_entry_id x \<noteq> uuid \<Longrightarrow>
    ledger_step repr K ks ks'"
| verify: "verify_chain repr K in_memory_store t r (k, st) = (k', res) \<Longrightarrow> ledger_step repr K (k, st) (k', st)"

definition ledger_ok ::
  "(pyfloat \<Rightarrow> string) \<Rightarrow> ('sk, 'pk) ed25519 \<Rightarrow> settings \<Rightarrow> char list option \<Rightarrow> char list option \<Rightarrow> string
     \<Rightarrow> ('sk, 'pk) env_keys \<times> memory_store \<Rightarrow> bool" where
  "ledger_ok repr L settings priv pub key_id ks \<longleftrightarrow>
     env_keys_ok L settings priv pub key_id (fst ks)
     \<and> (\<forall>t r. sl.good_chain L settings priv repr (fst ks) (memory_get_all (snd ks) t r))"

interpretation led: invariant_system
  "\<lambda>ks. ed25519_law L \<and> keys_match L settings priv pub \<and> key_id_fixed settings key_id
     \<and> ks = (make_env_keys priv pub key_id, [])"
  "ledger_step repr (env_key_provider L settings)" "ledger_ok repr L settings priv pub key_id"
  for repr and L :: "('sk, 'pk) ed25519" and settings priv pub key_id
proof
  fix ks :: "('sk, 'pk) env_keys \<times> memory_store"
  assume "ed25519_law L \<and> keys_match L settings priv pub \<and> key_id_fixed settings key_id \<and> ks = (make_env_keys priv pub key_id, [])"
  then show "ledger_ok repr L settings priv pub key_id ks"
    by (simp add: ledger_ok_def make_env_keys_ok sl.good_chain_def memory_get_all_def)
next
  fix ks ks' :: "('sk, 'pk) env_keys \<times> memory_store"
  assume ok: "ledger_ok repr L settings priv pub key_id ks"
  assume "ledger_step repr (env_key_provider L settings) ks ks'"
  then show "ledger_ok repr L settings priv pub key_id ks'"
  proof cases
    case (append uuid now t r ev p res)
    obtain k st k' st' where ks: "ks = (k, st)" "ks' = (k', st')" by (metis surj_pair)
    have "mem.fresh st t r uuid" using append(2) ks by (simp add: mem.fresh_def)
    note keeps = sl.append_keeps_good [OF _ _ append(1) [unfolded ks] this, where priv = priv and pub = pub and key_id = key_id]
    have "env_keys_ok L settings priv pub key_id k' \<and> sl.good_chain L settings priv repr k' (memory_get_all st' t' r')" for t' r'
      using keeps [of t' r'] ok ks by (simp add: ledger_ok_def)
    then show ?thesis by (simp add: ledger_ok_def ks)
  next
    case (verify t r k st k' res)
    have good: "sl.good_chain L settings priv repr k (memory_get_all st t r)" for t r
      using ok verify(1) by (simp add: ledger_ok_def)
    from sl.verify_chain_accepts [of L settings priv pub key_id k repr st t r] ok good [of t r] verify
    have "env_keys_ok L settings priv pub key_id k' \<and> (env_ready k \<longrightarrow> env_ready k')"
      by (simp add: ledger_ok_def)
    with good verify(2) show ?thesis by (auto simp: ledger_ok_def sl.good_chain_def)
  qed
qed

section \<open>Properties\<close>

text \<open>
  C34. A ledger with an \<open>Ed25519EnvKeyProvider\<close> and an in-memory store verifies its own history: after
  any sequence of appends with fresh entry ids, successful or failed for lack of a key, and of
  verifications, for any tenants and runs, \<open>verify_chain\<close> accepts the chain of every run. Two
  conditions are on the provider. Its key id must be fixed: not the default \<open>"default"\<close>, or no
  \<open>HFA_LEDGER_KEY_ID\<close> is configured (\<open>first_append_spoils_chain\<close> shows that without it the claim
  fails). And the public key, when one is given, must load and belong to the private key. Of the library the claim uses
  that what a private key signs verifies under its public key.
\<close>

theorem ledger_history_verifies:
  assumes "ed25519_law L"
    and "key_id \<noteq> ''default'' \<or> settings = None \<or> (\<exists>setting. settings = Some setting \<and> setting ''HFA_LEDGER_KEY_ID'' \<in> {None, Some []})"
    and "public_pem = None \<or> (\<forall>key. loads_private L settings private_pem key \<longrightarrow> loads_public L settings public_pem (ed_public L key))"
    and "(ledger_step repr (env_key_provider L settings))\<^sup>*\<^sup>* (make_env_keys private_pem public_pem key_id, []) (k, st)"
  shows "\<exists>k'. verify_chain repr (env_key_provider L settings) in_memory_store t r (k, st) = (k', Inr True)"
proof -
  have "keys_match L settings private_pem public_pem" "key_id_fixed settings key_id"
    using assms(2,3) by (auto simp: keys_match_def key_id_fixed_def split: option.splits)
  with led.reachable_inv [OF _ assms(4)] assms(1) have "ledger_ok repr L settings private_pem public_pem key_id (k, st)"
    by blast
  with sl.verify_chain_accepts [of L settings private_pem public_pem key_id k repr st t r] show ?thesis
    by (auto simp: ledger_ok_def)
qed





text \<open>
  Tamper evidence: when two chains pass verification (whatever keys they were checked with) and
  the content hashes of their last entries agree, then they have the same length and the same
  canonical bytes entry by entry, or there is a SHA-256 collision. Keeping the last hash elsewhere
  thus protects the whole chain.
\<close>

theorem last_hash_binds_chain:
  assumes "float_repr_plain repr" and "es \<noteq> []" and "es' \<noteq> []"
    and "snd (verify_from repr K 0 None es k) = Inr True" and "snd (verify_from repr K' 0 None es' k') = Inr True"
    and "content_hash repr (last es) = content_hash repr (last es')"
  shows "map (canonical_bytes repr) es = map (canonical_bytes repr) es' \<or> (\<exists>x y. sha256_collision x y)"
  using head_hash_binds [of repr "butlast es" "last es" "butlast es'" "last es'"] assms
    verify_from_linked [OF assms(4)] verify_from_linked [OF assms(5)] by auto

text \<open>
  An append reads the last entry and stores the new one in two steps. When two appends to the
  same run interleave (both prepare their entry, then both store), the run's chain no longer verifies:
  both entries carry the same sequence number.
\<close>

theorem interleaved_appends_break_chain:
  assumes "ed25519_law L" and "keys_match L settings priv pub" and "key_id_fixed settings key_id"
    and "(ledger_step repr (env_key_provider L settings))\<^sup>*\<^sup>* (make_env_keys priv pub key_id, []) (k, st)"
    and "prepare_entry repr (env_key_provider L settings) in_memory_store u1 n1 t r ev1 p1 (k, st) = (k1, Inr e1)"
    and "prepare_entry repr (env_key_provider L settings) in_memory_store u2 n2 t r ev2 p2 (k1, st) = (k2, Inr e2)"
    and "\<forall>x \<in> set (memory_get_all st t r). le_entry_id x \<noteq> u1 \<and> le_entry_id x \<noteq> u2" and "u1 \<noteq> u2"
  shows "\<exists>n. snd (verify_chain repr (env_key_provider L settings) in_memory_store t r (k2, memory_append (memory_append st e1) e2)) =
    Inl (SequenceMismatch (n + 1) (int n + 2) (int n + 1))"
proof -
  have ok: "env_keys_ok L settings priv pub key_id k" "sl.good_chain L settings priv repr k (memory_get_all st t r)"
    using led.reachable_inv [OF _ assms(4)] assms(1-3) by (auto simp: ledger_ok_def)
  have "mem.fresh st t r u1" "mem.fresh st t r u2"
    using assms(7) by (simp_all add: mem.fresh_def)
  from sl.interleaved_appends_break [OF ok(1) _ assms(5,6) this assms(8)] ok(2) show ?thesis by simp
qed

text \<open>
  A failed signature leaves the store as it was; a repeated entry id is dropped by the store
  although \<open>append\<close> returns the entry; a fresh one is added at the end of its run.
\<close>

theorem append_outcomes:
  "(case ledger_append repr K in_memory_store uuid now t r ev p (k, st) of
      ((k', st'), Inl err) \<Rightarrow> st' = st
    | ((k', st'), Inr e) \<Rightarrow> memory_get_all st' t r =
        (if \<exists>x \<in> set (memory_get_all st t r). le_entry_id x = uuid
         then memory_get_all st t r else memory_get_all st t r @ [e]))"
proof -
  obtain k' st' res where app: "ledger_append repr K in_memory_store uuid now t r ev p (k, st) = ((k', st'), res)"
    by (metis surj_pair)
  then show ?thesis
  proof (rule mem.append_cases)
    fix e
    assume e: "res = Inr e" "st' = store_append in_memory_store st e" "prepare_entry repr K in_memory_store uuid now t r ev p (k, st) = (k', Inr e)"
    with app mem.prepared_fields(1-3) [OF e(3)] mem.get_all_append [of st e t r] show ?thesis by auto
  qed (simp add: app)
qed

text \<open>
  The in-memory stream of a run is keyed by \<open>tenant:run\<close>: an entry of tenant \<open>a:b\<close>, run \<open>c\<close>
  appears in, and is verified as part of, the ledger of tenant \<open>a\<close>, run \<open>b:c\<close>.
\<close>

theorem colon_streams_coincide:
  "memory_get_all st ''a:b'' ''c'' = memory_get_all st ''a'' ''b:c''
   \<and> verify_chain repr K in_memory_store ''a:b'' ''c'' (k, st) = verify_chain repr K in_memory_store ''a'' ''b:c'' (k, st)"
  by (simp add: memory_get_all_def store_key_def verify_chain_def in_memory_store_def)

section \<open>Witnesses\<close>

text \<open>
  A library whose keys are texts and whose signature is the key followed by the message, and a
  configuration with a private key (\<open>c2s=\<close> is base64 for \<open>sk\<close>).
\<close>

definition echo_ed25519 :: "(string, string) ed25519" where
  "echo_ed25519 =
     \<lparr>ed_installed = True, ed_load_private = Some, ed_load_public = Some, ed_public = id,
      ed_sign = (\<lambda>key m. Some (key @ m)), ed_verify = (\<lambda>key sg m. sg = key @ m)\<rparr>"

definition demo_settings :: "string option \<Rightarrow> settings" where
  "demo_settings key_id = Some ([''HFA_LEDGER_PRIVATE_KEY_B64'' \<mapsto> ''c2s=''](''HFA_LEDGER_KEY_ID'' := key_id))"

definition unit_repr :: "pyfloat \<Rightarrow> string" where
  "unit_repr x = ''1.0''"

lemma echo_law: "ed25519_law echo_ed25519"
  by (simp add: ed25519_law_def echo_ed25519_def)


lemma b64_demo: "b64decode ''c2s='' = Some ''sk''"
  by code_simp

definition demo_append :: "string option \<Rightarrow> string \<Rightarrow> ((string, string) env_keys \<times> memory_store) \<times> (ledger_error + ledger_entry)" where
  "demo_append env_id key_id =
     ledger_append unit_repr (env_key_provider echo_ed25519 (demo_settings env_id)) in_memory_store ''id-1'' (FinFloat 1 0)
       ''acme'' ''run-1'' ''llm_call'' (JObj [(''tokens'', JInt 312)]) (make_env_keys None None key_id, [])"

lemma demo_append_result:
  "\<exists>k st e. demo_append env_id key_id = ((k, st), Inr e) \<and> memory_get_all st ''acme'' ''run-1'' = [e]"
  by (auto simp: demo_append_def ledger_append_def prepare_entry_def key_call_def env_key_provider_def env_sign_def sbind_def sreturn_def
      load_private_key_def make_env_keys_def pem_or_env_def read_b64_env_def demo_settings_def b64_demo echo_ed25519_def Let_def
      in_memory_store_def memory_append_def memory_get_all_def map_of_update split: option.splits)

theorem ledger_history_verifies_witness:
  "\<exists>k st k'. memory_get_all st ''acme'' ''run-1'' \<noteq> []
   \<and> verify_chain unit_repr (env_key_provider echo_ed25519 (demo_settings (Some ''prod-2025-03''))) in_memory_store ''acme'' ''run-1'' (k, st)
      = (k', Inr True)"
proof -
  let ?K = "env_key_provider echo_ed25519 (demo_settings (Some ''prod-2025-03''))"
  obtain k st e where e: "demo_append (Some ''prod-2025-03'') ''audit'' = ((k, st), Inr e)" "memory_get_all st ''acme'' ''run-1'' = [e]"
    using demo_append_result by blast
  have "(ledger_step unit_repr ?K)\<^sup>*\<^sup>* (make_env_keys None None ''audit'', []) (k, st)"
    by (rule r_into_rtranclp, rule append [OF e(1) [unfolded demo_append_def]]) (simp add: memory_get_all_def)
  from ledger_history_verifies [OF echo_law _ _ this, of "''acme''" "''run-1''"]
  obtain k' where "verify_chain unit_repr ?K in_memory_store ''acme'' ''run-1'' (k, st) = (k', Inr True)" by auto
  with e(2) show ?thesis by (intro exI [of _ k] exI [of _ st] exI [of _ k']) simp
qed


end
