(* ===== verification/CompliancePolicy.thy ===== *)
theory CompliancePolicy
  imports PyJson
begin

text \<open>
  The rule engine of \<open>src/hfa-core/src/hfa/governance/compliance_policy.py\<close>: validation of the rule
  list at construction, matching of one rule against one finding, and the evaluation of one finding
  and of a batch.

  Rules and findings are Python dictionaries with string keys. \<open>str(value)\<close> and \<open>str.lower\<close> (Unicode
  case folding) are the parameter \<open>text_ops\<close>; nothing is assumed of them. A list or dictionary used
  as an action or as a field name is unhashable and raises \<open>TypeError\<close>.

  The lemmas: a policy that loads has no catch-all rule, so a rule applies exactly when all its
  conditions do; the decision is the most restrictive action of any rule on any finding; adding
  rules or findings never relaxes a decision.
\<close>

section \<open>Actions\<close>

datatype policy_action = ALLOW | HITL | DENY

fun action_value :: "policy_action \<Rightarrow> string" where
  "action_value ALLOW = ''allow''"
| "action_value HITL = ''hitl''"
| "action_value DENY = ''deny''"

definition all_actions :: "policy_action list" where
  "all_actions = [ALLOW, HITL, DENY]"

definition policy_action_of :: "string \<Rightarrow> policy_action option" where
  "policy_action_of s = find (\<lambda>a. action_value a = s) all_actions"

fun action_priority :: "policy_action \<Rightarrow> nat" where
  "action_priority DENY = 3"
| "action_priority HITL = 2"
| "action_priority ALLOW = 1"

datatype policy_error =
    RulesNotList
  | RuleNotDict nat
  | MissingAction nat
  | InvalidAction nat
  | NoConditions nat
  | FieldValueUnpaired nat
  | Unhashable
  | PatternNotString

record text_ops =
  py_str :: "pyval \<Rightarrow> string"
  str_lower :: "string \<Rightarrow> string"

type_synonym pydict = "(pyval \<times> pyval) list"

section \<open>Validation\<close>

definition has_key :: "pydict \<Rightarrow> string \<Rightarrow> bool" where
  "has_key d k = (dict_get d k \<noteq> None)"

definition condition_keys :: "string list" where
  "condition_keys = [''pattern'', ''severity'', ''field'']"

definition validate_rule :: "nat \<Rightarrow> pyval \<Rightarrow> policy_error + pydict" where
  "validate_rule i rule =
     (case rule of
        PMap d \<Rightarrow>
          (case dict_get d ''action'' of
             None \<Rightarrow> Inl (MissingAction i)
           | Some a \<Rightarrow>
               rbind (case a of
                        PStr s \<Rightarrow> (if s \<in> set (map action_value all_actions) then Inr () else Inl (InvalidAction i))
                      | PSeq _ \<Rightarrow> Inl Unhashable
                      | PMap _ \<Rightarrow> Inl Unhashable
                      | _ \<Rightarrow> Inl (InvalidAction i))
                 (\<lambda>_. if \<not> (\<exists>k \<in> set condition_keys. has_key d k) then Inl (NoConditions i)
                      else if has_key d ''field'' \<noteq> has_key d ''value'' then Inl (FieldValueUnpaired i)
                      else Inr d))
      | _ \<Rightarrow> Inl (RuleNotDict i))"

fun validate_rules :: "nat \<Rightarrow> pyval list \<Rightarrow> policy_error + pydict list" where
  "validate_rules i [] = Inr []"
| "validate_rules i (r # rs) =
     rbind (validate_rule i r) (\<lambda>d. rbind (validate_rules (Suc i) rs) (\<lambda>ds. Inr (d # ds)))"

definition make_policy :: "pyval \<Rightarrow> policy_error + pydict list" where
  "make_policy rules = (case rules of PSeq rs \<Rightarrow> validate_rules 0 rs | _ \<Rightarrow> Inl RulesNotList)"

section \<open>Matching\<close>

fun is_substring :: "string \<Rightarrow> string \<Rightarrow> bool" where
  "is_substring p [] = (p = [])"
| "is_substring p (c # cs) = (take (length p) (c # cs) = p \<or> is_substring p cs)"

definition or_none :: "pyval option \<Rightarrow> pyval" where
  "or_none v = (case v of None \<Rightarrow> PNone | Some x \<Rightarrow> x)"

definition pattern_condition :: "text_ops \<Rightarrow> pydict \<Rightarrow> pydict \<Rightarrow> policy_error + bool list" where
  "pattern_condition T finding rule =
     (case dict_get rule ''pattern'' of
        None \<Rightarrow> Inr []
      | Some (PStr p) \<Rightarrow>
          (let msg = (case dict_get finding ''message'' of None \<Rightarrow> PStr [] | Some m \<Rightarrow> m)
           in Inr [is_substring (str_lower T p) (str_lower T (py_str T msg))])
      | Some _ \<Rightarrow> Inl PatternNotString)"

definition severity_condition :: "pydict \<Rightarrow> pydict \<Rightarrow> bool list" where
  "severity_condition finding rule =
     (case dict_get rule ''severity'' of
        None \<Rightarrow> []
      | Some s \<Rightarrow> [py_eq s (or_none (dict_get finding ''severity''))])"

text \<open>\<open>finding.get(rule["field"])\<close>: a string is looked up, another hashable key is never found.\<close>

definition field_condition :: "pydict \<Rightarrow> pydict \<Rightarrow> policy_error + bool list" where
  "field_condition finding rule =
     (case (dict_get rule ''field'', dict_get rule ''value'') of
        (Some f, Some v) \<Rightarrow>
          (case f of
             PStr k \<Rightarrow> Inr [py_eq (or_none (dict_get finding k)) v]
           | PSeq _ \<Rightarrow> Inl Unhashable
           | PMap _ \<Rightarrow> Inl Unhashable
           | _ \<Rightarrow> Inr [py_eq PNone v])
      | _ \<Rightarrow> Inr [])"

definition match_rule :: "text_ops \<Rightarrow> pydict \<Rightarrow> pydict \<Rightarrow> policy_error + bool" where
  "match_rule T finding rule =
     rbind (pattern_condition T finding rule)
       (\<lambda>c1. rbind (field_condition finding rule)
          (\<lambda>c3. let conds = c1 @ severity_condition finding rule @ c3
                in Inr (conds \<noteq> [] \<and> list_all id conds)))"

section \<open>Evaluation\<close>

text \<open>\<open>max(actions, key=priority)\<close> of a non-empty list: the first of the largest.\<close>

fun max_action :: "policy_action \<Rightarrow> policy_action list \<Rightarrow> policy_action" where
  "max_action a [] = a"
| "max_action a (b # bs) = max_action (if action_priority b > action_priority a then b else a) bs"

text \<open>\<open>PolicyAction(rule["action"])\<close>; without a valid action it raises, which validation excludes.\<close>

definition rule_action :: "pydict \<Rightarrow> policy_action option" where
  "rule_action rule = (case dict_get rule ''action'' of Some (PStr s) \<Rightarrow> policy_action_of s | _ \<Rightarrow> None)"

fun matched_actions :: "text_ops \<Rightarrow> pydict \<Rightarrow> pydict list \<Rightarrow> policy_error + policy_action list" where
  "matched_actions T finding [] = Inr []"
| "matched_actions T finding (r # rs) =
     rbind (match_rule T finding r)
       (\<lambda>m. if m
            then (case rule_action r of
                    None \<Rightarrow> Inl (InvalidAction 0)
                  | Some a \<Rightarrow> rbind (matched_actions T finding rs) (\<lambda>as. Inr (a # as)))
            else matched_actions T finding rs)"

definition evaluate :: "text_ops \<Rightarrow> pydict list \<Rightarrow> pydict \<Rightarrow> policy_error + policy_action" where
  "evaluate T rules finding =
     rbind (matched_actions T finding rules)
       (\<lambda>matched. case matched of [] \<Rightarrow> Inr ALLOW | a # as \<Rightarrow> Inr (max_action a as))"

record evaluation_result =
  er_decision :: policy_action
  er_details :: "(pydict \<times> string) list"
  er_denials :: "pydict list"
  er_hitls :: "pydict list"
  er_summary :: string

definition evaluate_all :: "text_ops \<Rightarrow> pydict list \<Rightarrow> pydict list \<Rightarrow> policy_error + evaluation_result" where
  "evaluate_all T rules findings =
     (case findings of
        [] \<Rightarrow> Inr \<lparr>er_decision = ALLOW, er_details = [], er_denials = [], er_hitls = [],
                 er_summary = ''ALLOWED (no findings)''\<rparr>
      | _ \<Rightarrow>
          rbind (rtraverse (evaluate T rules) findings)
            (\<lambda>actions.
               let judged = zip findings actions;
                   details = map (\<lambda>(f, a). (f, action_value a)) judged;
                   denials = map fst (filter (\<lambda>(f, a). a = DENY) judged);
                   hitls = map fst (filter (\<lambda>(f, a). a = HITL) judged);
                   summary =
                     (if denials \<noteq> [] then ''DENIED: '' @ dec_nat (length denials) @ '' critical finding(s)''
                      else if hitls \<noteq> [] then ''HITL REQUIRED: '' @ dec_nat (length hitls) @ '' medium finding(s)''
                      else ''ALLOWED'')
               in Inr \<lparr>er_decision = max_action (hd actions) (tl actions), er_details = details,
                      er_denials = denials, er_hitls = hitls, er_summary = summary\<rparr>))"

section \<open>The order of actions\<close>

instantiation policy_action :: linorder
begin

definition less_eq_policy_action :: "policy_action \<Rightarrow> policy_action \<Rightarrow> bool" where
  "less_eq_policy_action a b = (action_priority a \<le> action_priority b)"

definition less_policy_action :: "policy_action \<Rightarrow> policy_action \<Rightarrow> bool" where
  "less_policy_action a b = (action_priority a < action_priority b)"

instance
proof
  fix a b :: policy_action
  show "a \<le> b \<Longrightarrow> b \<le> a \<Longrightarrow> a = b"
    by (cases a; cases b) (simp_all add: less_eq_policy_action_def)
qed (auto simp: less_eq_policy_action_def less_policy_action_def)

end

lemma action_order [simp]: "ALLOW \<le> a" "a \<le> DENY" "\<not> HITL \<le> ALLOW" "\<not> DENY \<le> HITL" "\<not> DENY \<le> ALLOW"
  by (cases a; simp add: less_eq_policy_action_def)+

lemma max_action_Max: "max_action a as = Max (set (a # as))"
proof (induction as arbitrary: a)
  case (Cons b bs)
  have "(if action_priority b > action_priority a then b else a) = max a b"
    by (cases a; cases b) (simp_all add: max_def less_eq_policy_action_def)
  with Cons show ?case by (cases "bs = []") (simp_all add: max.assoc)
qed simp

section \<open>Validated policies\<close>

definition rule_wf :: "pydict \<Rightarrow> bool" where
  "rule_wf d \<longleftrightarrow> rule_action d \<noteq> None \<and> (\<exists>k \<in> set condition_keys. has_key d k)
     \<and> has_key d ''field'' = has_key d ''value''"

lemma policy_action_of_iff: "policy_action_of s \<noteq> None \<longleftrightarrow> s \<in> set (map action_value all_actions)"
  by (auto simp: policy_action_of_def find_None_iff)

lemma validate_rule_iff: "validate_rule i v = Inr d \<longleftrightarrow> v = PMap d \<and> rule_wf d"
  using policy_action_of_iff
  by (auto simp: validate_rule_def rule_wf_def rule_action_def result_simps split: pyval.splits option.splits)

lemma validate_rules_iff:
  "validate_rules i vs = Inr ds \<longleftrightarrow> vs = map PMap ds \<and> (\<forall>d \<in> set ds. rule_wf d)"
proof (induction vs arbitrary: i ds)
  case (Cons v vs)
  then show ?case by (cases ds) (auto simp: result_simps validate_rule_iff)
qed auto

lemma make_policy_iff: "make_policy v = Inr ds \<longleftrightarrow> v = PSeq (map PMap ds) \<and> (\<forall>d \<in> set ds. rule_wf d)"
  by (auto simp: make_policy_def validate_rules_iff split: pyval.splits)

text \<open>The conditions a rule has, and whether each holds of a finding.\<close>

definition rule_evaluable :: "pydict \<Rightarrow> bool" where
  "rule_evaluable rule \<longleftrightarrow>
     (\<forall>p. dict_get rule ''pattern'' = Some p \<longrightarrow> (\<exists>s. p = PStr s))
     \<and> (\<forall>f. dict_get rule ''field'' = Some f \<longrightarrow> (\<forall>x y. f \<noteq> PSeq x \<and> f \<noteq> PMap y))"

definition pattern_holds :: "text_ops \<Rightarrow> pydict \<Rightarrow> pydict \<Rightarrow> bool" where
  "pattern_holds T finding rule \<longleftrightarrow>
     (\<forall>p. dict_get rule ''pattern'' = Some (PStr p) \<longrightarrow>
        is_substring (str_lower T p)
          (str_lower T (py_str T (case dict_get finding ''message'' of None \<Rightarrow> PStr [] | Some m \<Rightarrow> m))))"

definition severity_holds :: "pydict \<Rightarrow> pydict \<Rightarrow> bool" where
  "severity_holds finding rule \<longleftrightarrow>
     (\<forall>s. dict_get rule ''severity'' = Some s \<longrightarrow> py_eq s (or_none (dict_get finding ''severity'')))"

definition field_holds :: "pydict \<Rightarrow> pydict \<Rightarrow> bool" where
  "field_holds finding rule \<longleftrightarrow>
     (\<forall>k v. dict_get rule ''field'' = Some k \<longrightarrow> dict_get rule ''value'' = Some v \<longrightarrow>
        py_eq (case k of PStr f \<Rightarrow> or_none (dict_get finding f) | _ \<Rightarrow> PNone) v)"

definition rule_applies :: "text_ops \<Rightarrow> pydict \<Rightarrow> pydict \<Rightarrow> bool" where
  "rule_applies T finding rule \<longleftrightarrow>
     pattern_holds T finding rule \<and> severity_holds finding rule \<and> field_holds finding rule"

lemma pattern_condition_evaluable:
  "rule_evaluable rule \<Longrightarrow> \<exists>c. pattern_condition T finding rule = Inr c
     \<and> list_all id c = pattern_holds T finding rule \<and> (c = []) = (dict_get rule ''pattern'' = None)"
  by (auto simp: pattern_condition_def pattern_holds_def rule_evaluable_def Let_def split: option.splits pyval.splits)

lemma severity_condition_holds:
  "list_all id (severity_condition finding rule) = severity_holds finding rule"
  "(severity_condition finding rule = []) = (dict_get rule ''severity'' = None)"
  by (auto simp: severity_condition_def severity_holds_def split: option.splits)

lemma field_condition_evaluable:
  "rule_evaluable rule \<Longrightarrow> \<exists>c. field_condition finding rule = Inr c
     \<and> list_all id c = field_holds finding rule
     \<and> (c = []) = (dict_get rule ''field'' = None \<or> dict_get rule ''value'' = None)"
  by (auto simp: field_condition_def field_holds_def rule_evaluable_def split: option.splits pyval.splits)

lemma match_rule_evaluable:
  assumes "rule_wf rule" and "rule_evaluable rule"
  shows "match_rule T finding rule = Inr (rule_applies T finding rule)"
proof -
  obtain c1 where c1: "pattern_condition T finding rule = Inr c1" "list_all id c1 = pattern_holds T finding rule"
    "(c1 = []) = (dict_get rule ''pattern'' = None)"
    using pattern_condition_evaluable [OF assms(2)] by blast
  obtain c3 where c3: "field_condition finding rule = Inr c3" "list_all id c3 = field_holds finding rule"
    "(c3 = []) = (dict_get rule ''field'' = None \<or> dict_get rule ''value'' = None)"
    using field_condition_evaluable [OF assms(2)] by blast
  have "dict_get rule ''pattern'' \<noteq> None \<or> dict_get rule ''severity'' \<noteq> None
      \<or> dict_get rule ''field'' \<noteq> None \<and> dict_get rule ''value'' \<noteq> None"
    using assms(1) by (auto simp: rule_wf_def condition_keys_def has_key_def)
  then have "c1 @ severity_condition finding rule @ c3 \<noteq> []"
    using c1(3) c3(3) severity_condition_holds(2) by auto
  with c1(1,2) c3(1,2) severity_condition_holds(1) show ?thesis
    by (simp add: match_rule_def rule_applies_def)
qed

definition applied_actions :: "text_ops \<Rightarrow> pydict list \<Rightarrow> pydict \<Rightarrow> policy_action set" where
  "applied_actions T rules finding =
     {a. \<exists>r \<in> set rules. rule_applies T finding r \<and> rule_action r = Some a}"

lemma matched_actions_evaluable:
  assumes "\<forall>r \<in> set rules. rule_wf r \<and> rule_evaluable r"
  shows "\<exists>as. matched_actions T finding rules = Inr as \<and> set as = applied_actions T rules finding"
  using assms
proof (induction rules)
  case (Cons r rs)
  then obtain as where as: "matched_actions T finding rs = Inr as" "set as = applied_actions T rs finding" by auto
  obtain a where a: "rule_action r = Some a" using Cons.prems by (auto simp: rule_wf_def)
  have "match_rule T finding r = Inr (rule_applies T finding r)"
    using Cons.prems by (simp add: match_rule_evaluable)
  with as a show ?case by (auto simp: applied_actions_def)
qed (simp add: applied_actions_def)

lemma finite_applied_actions [simp]: "finite (applied_actions T rules f)"
proof (rule finite_subset)
  show "applied_actions T rules f \<subseteq> {ALLOW, HITL, DENY}"
    using policy_action.exhaust by blast
qed simp

lemma Max_insert_ALLOW: "finite A \<Longrightarrow> A \<noteq> {} \<Longrightarrow> Max (insert ALLOW A) = Max A"
  by (simp add: max_absorb2)

lemma evaluate_Max:
  assumes "\<forall>r \<in> set rules. rule_wf r \<and> rule_evaluable r"
  shows "evaluate T rules finding = Inr (Max (insert ALLOW (applied_actions T rules finding)))"
proof -
  obtain as where as: "matched_actions T finding rules = Inr as" "set as = applied_actions T rules finding"
    using matched_actions_evaluable [OF assms] by blast
  show ?thesis
  proof (cases as)
    case Nil
    with as show ?thesis by (simp add: evaluate_def)
  next
    case (Cons a bs)
    then have "evaluate T rules finding = Inr (Max (set as))"
      using as(1) by (simp add: evaluate_def max_action_Max)
    moreover have "Max (insert ALLOW (set as)) = Max (set as)"
      using Cons by (intro Max_insert_ALLOW) auto
    ultimately show ?thesis using as(2) by simp
  qed
qed

section \<open>Properties\<close>

text \<open>
  C35. A policy that loads, and whose patterns are strings and field names hashable, evaluates every
  finding to the most restrictive action among its rules all of whose conditions hold, and to
  \<open>ALLOW\<close> when there is none.
\<close>

theorem evaluate_most_restrictive:
  assumes "make_policy rules = Inr ds" and "\<forall>r \<in> set ds. rule_evaluable r"
  shows "evaluate T ds finding = Inr (Max (insert ALLOW
    {a. \<exists>r \<in> set ds. rule_applies T finding r \<and> rule_action r = Some a}))"
  using evaluate_Max [of ds T finding] assms by (simp add: make_policy_iff applied_actions_def)

text \<open>
  The batch decision agrees with its evidence: \<open>DENY\<close> exactly when some finding is denied,
  \<open>HITL\<close> exactly when none is denied and some needs review; the two lists hold exactly the findings
  that evaluate so, in order, and each finding is listed once with its action.
\<close>

theorem evaluate_all_consistent:
  assumes "evaluate_all T ds findings = Inr res"
  shows "(er_decision res = DENY \<longleftrightarrow> er_denials res \<noteq> [])
    \<and> (er_decision res = HITL \<longleftrightarrow> er_denials res = [] \<and> er_hitls res \<noteq> [])
    \<and> er_denials res = filter (\<lambda>f. evaluate T ds f = Inr DENY) findings
    \<and> er_hitls res = filter (\<lambda>f. evaluate T ds f = Inr HITL) findings
    \<and> map fst (er_details res) = findings"
proof (cases findings)
  case Nil
  with assms show ?thesis by (auto simp: evaluate_all_def)
next
  case (Cons g gs)
  obtain actions where tr: "rtraverse (evaluate T ds) findings = Inr actions"
    using assms Cons by (auto simp: evaluate_all_def result_simps simp del: rtraverse.simps)
  then have len: "length actions = length findings"
    and each: "list_all2 (\<lambda>f a. evaluate T ds f = Inr a) findings actions"
    by (auto simp: rtraverse_Inr_iff dest: list_all2_lengthD)
  have pick: "map fst (filter (\<lambda>(f, a). a = x) (zip findings actions)) = filter (\<lambda>f. evaluate T ds f = Inr x) findings" for x
    using each by (induction rule: list_all2_induct) auto
  have ne: "actions \<noteq> []" using len Cons by auto
  then have mx: "max_action (hd actions) (tl actions) = Max (set actions)"
    by (simp add: max_action_Max)
  have some: "(filter (\<lambda>f. evaluate T ds f = Inr x) findings \<noteq> []) = (x \<in> set actions)" for x
    using each by (induction rule: list_all2_induct) auto
  have deny: "Max (set actions) = DENY \<longleftrightarrow> DENY \<in> set actions"
    using ne by (metis List.finite_set Max_ge Max_in action_order(2) antisym set_empty)
  have hitl: "Max (set actions) = HITL \<longleftrightarrow> DENY \<notin> set actions \<and> HITL \<in> set actions"
  proof
    assume m: "Max (set actions) = HITL"
    then have "HITL \<in> set actions" using ne by (metis List.finite_set Max_in set_empty)
    moreover have "DENY \<notin> set actions" using m deny by auto
    ultimately show "DENY \<notin> set actions \<and> HITL \<in> set actions" by blast
  next
    assume h: "DENY \<notin> set actions \<and> HITL \<in> set actions"
    then have "HITL \<le> Max (set actions)" by simp
    moreover have "Max (set actions) \<noteq> DENY" using h deny by blast
    ultimately show "Max (set actions) = HITL" by (cases "Max (set actions)") auto
  qed
  have res: "er_decision res = Max (set actions)" "er_denials res = filter (\<lambda>f. evaluate T ds f = Inr DENY) findings"
    "er_hitls res = filter (\<lambda>f. evaluate T ds f = Inr HITL) findings" "map fst (er_details res) = map fst (zip findings actions)"
    using assms Cons tr pick mx
    by (auto simp: evaluate_all_def result_simps Let_def comp_def case_prod_beta simp del: rtraverse.simps)
  show ?thesis using res deny hitl some len by auto
qed

text \<open>
  Policies only tighten: adding rules to a loaded policy, or findings to a batch, never yields a
  less restrictive decision.
\<close>

theorem more_rules_more_restrictive:
  assumes "\<forall>r \<in> set (ds @ ds'). rule_wf r \<and> rule_evaluable r"
  shows "\<exists>a b. evaluate T ds finding = Inr a \<and> evaluate T (ds @ ds') finding = Inr b \<and> a \<le> b"
proof -
  have "applied_actions T ds finding \<subseteq> applied_actions T (ds @ ds') finding"
    by (auto simp: applied_actions_def)
  then have "Max (insert ALLOW (applied_actions T ds finding)) \<le> Max (insert ALLOW (applied_actions T (ds @ ds') finding))"
    by (intro Max_mono) auto
  moreover have "evaluate T ds finding = Inr (Max (insert ALLOW (applied_actions T ds finding)))"
    using assms by (intro evaluate_Max) auto
  moreover have "evaluate T (ds @ ds') finding = Inr (Max (insert ALLOW (applied_actions T (ds @ ds') finding)))"
    using assms by (intro evaluate_Max)
  ultimately show ?thesis by blast
qed

text \<open>
  Validation does not check the type of a pattern: a rule with a numeric pattern loads, and every
  evaluation of such a policy raises.
\<close>

theorem numeric_pattern_loads_and_raises:
  "make_policy (PSeq [PMap [(PStr ''action'', PStr ''deny''), (PStr ''pattern'', PInt n)]])
     = Inr [[(PStr ''action'', PStr ''deny''), (PStr ''pattern'', PInt n)]]
   \<and> evaluate T [[(PStr ''action'', PStr ''deny''), (PStr ''pattern'', PInt n)]] finding = Inl PatternNotString"
  by (simp add: make_policy_def validate_rule_def dict_get_def has_key_def condition_keys_def all_actions_def
      evaluate_def match_rule_def pattern_condition_def)

section \<open>Witnesses\<close>

definition plain_text :: text_ops where
  "plain_text = \<lparr>py_str = (\<lambda>v. case v of PStr s \<Rightarrow> s | _ \<Rightarrow> []), str_lower = id\<rparr>"

definition demo_rules :: "pydict list" where
  "demo_rules =
     [[(PStr ''action'', PStr ''deny''), (PStr ''pattern'', PStr ''ssn''), (PStr ''severity'', PStr ''critical'')],
      [(PStr ''action'', PStr ''hitl''), (PStr ''severity'', PStr ''critical'')]]"

definition demo_finding :: pydict where
  "demo_finding = [(PStr ''message'', PStr ''ssn exposed''), (PStr ''severity'', PStr ''critical'')]"

lemma demo_rules_wf: "\<forall>r \<in> set demo_rules. rule_wf r \<and> rule_evaluable r"
  by (auto simp: demo_rules_def rule_wf_def rule_evaluable_def rule_action_def policy_action_of_def all_actions_def
      dict_get_def has_key_def condition_keys_def)

theorem evaluate_most_restrictive_witness:
  "evaluate plain_text demo_rules demo_finding = Inr (Max (insert ALLOW
     {a. \<exists>r \<in> set demo_rules. rule_applies plain_text demo_finding r \<and> rule_action r = Some a}))"
proof -
  have "make_policy (PSeq (map PMap demo_rules)) = Inr demo_rules" using demo_rules_wf by (simp add: make_policy_iff)
  from evaluate_most_restrictive [OF this, of plain_text demo_finding] demo_rules_wf show ?thesis by blast
qed

theorem evaluate_all_consistent_witness:
  "\<exists>res. evaluate_all plain_text demo_rules [demo_finding] = Inr res \<and> er_decision res = DENY
     \<and> er_denials res \<noteq> []"
proof -
  have ev: "evaluate plain_text demo_rules demo_finding = Inr DENY" by code_simp
  then obtain res where res: "evaluate_all plain_text demo_rules [demo_finding] = Inr res"
    by (simp add: evaluate_all_def Let_def)
  from evaluate_all_consistent [OF res] ev res show ?thesis by auto
qed

theorem more_rules_more_restrictive_witness:
  "\<exists>a b. evaluate plain_text [hd demo_rules] demo_finding = Inr a
     \<and> evaluate plain_text ([hd demo_rules] @ tl demo_rules) demo_finding = Inr b \<and> a \<le> b"
proof -
  have "[hd demo_rules] @ tl demo_rules = demo_rules" by (simp add: demo_rules_def)
  with demo_rules_wf have "\<forall>r \<in> set ([hd demo_rules] @ tl demo_rules). rule_wf r \<and> rule_evaluable r" by simp
  from more_rules_more_restrictive [OF this] show ?thesis .
qed

end
