(* ===== verification/CircuitBreaker.thy ===== *)
theory CircuitBreaker
  imports Prelude Complex_Main
begin

text \<open>
  The circuit breaker of \<open>src/hfa-core/src/hfa/healing/circuit_breaker.py\<close>. \<open>time.monotonic()\<close> is an
  argument of the operations that read the clock; clock values are exact rationals. The lock makes
  each mutation one step; the synchronous wrappers perform the same mutation (immediately without a
  running loop, as a scheduled task with one), so they are the same steps.

  The lemmas: the failure counter is the number of failures since the last success, the breaker is
  open or half open exactly when this number has reached the threshold, an open breaker rejects calls
  until the recovery time has passed, and in the half-open state it admits calls without a bound.
\<close>

section \<open>Model\<close>

datatype circuit_state = CLOSED | OPEN | HALF_OPEN

record circuit_breaker =
  cb_failure_threshold :: int
  cb_recovery_timeout :: rat
  cb_state :: circuit_state
  cb_failure_count :: int
  cb_last_failure_time :: rat

definition make_breaker :: "int \<Rightarrow> rat \<Rightarrow> circuit_breaker" where
  "make_breaker failure_threshold recovery_timeout =
     \<lparr>cb_failure_threshold = failure_threshold, cb_recovery_timeout = recovery_timeout, cb_state = CLOSED,
      cb_failure_count = 0, cb_last_failure_time = 0\<rparr>"

definition is_open :: "rat \<Rightarrow> circuit_breaker \<Rightarrow> circuit_breaker \<times> bool" where
  "is_open now b =
     (if cb_state b = OPEN
      then (if now - cb_last_failure_time b \<ge> cb_recovery_timeout b
            then (b\<lparr>cb_state := HALF_OPEN\<rparr>, False)
            else (b, True))
      else (b, False))"

definition record_success :: "circuit_breaker \<Rightarrow> circuit_breaker" where
  "record_success b = b\<lparr>cb_state := CLOSED, cb_failure_count := 0\<rparr>"

definition record_failure :: "rat \<Rightarrow> circuit_breaker \<Rightarrow> circuit_breaker" where
  "record_failure now b =
     (let b1 = b\<lparr>cb_failure_count := cb_failure_count b + 1, cb_last_failure_time := now\<rparr>
      in if cb_failure_count b1 \<ge> cb_failure_threshold b1 then b1\<lparr>cb_state := OPEN\<rparr> else b1)"

definition record_success_sync :: "circuit_breaker \<Rightarrow> circuit_breaker" where
  "record_success_sync b = b\<lparr>cb_state := CLOSED, cb_failure_count := 0\<rparr>"

definition record_failure_sync :: "rat \<Rightarrow> circuit_breaker \<Rightarrow> circuit_breaker" where
  "record_failure_sync now b =
     (let b1 = b\<lparr>cb_failure_count := cb_failure_count b + 1, cb_last_failure_time := now\<rparr>
      in if cb_failure_count b1 \<ge> cb_failure_threshold b1 then b1\<lparr>cb_state := OPEN\<rparr> else b1)"

section \<open>Traces\<close>

datatype breaker_event = Probe rat | Success | Failure rat

fun breaker_event_step :: "circuit_breaker \<Rightarrow> breaker_event \<Rightarrow> circuit_breaker" where
  "breaker_event_step b (Probe now) = fst (is_open now b)"
| "breaker_event_step b Success = record_success b"
| "breaker_event_step b (Failure now) = record_failure now b"

definition run_breaker :: "circuit_breaker \<Rightarrow> breaker_event list \<Rightarrow> circuit_breaker" where
  "run_breaker b evs = foldl breaker_event_step b evs"

text \<open>The specification: failures since the last success.\<close>

fun consecutive_failures :: "nat \<Rightarrow> breaker_event list \<Rightarrow> nat" where
  "consecutive_failures n [] = n"
| "consecutive_failures n (Success # evs) = consecutive_failures 0 evs"
| "consecutive_failures n (Failure _ # evs) = consecutive_failures (Suc n) evs"
| "consecutive_failures n (Probe _ # evs) = consecutive_failures n evs"

definition breaker_inv :: "int \<Rightarrow> rat \<Rightarrow> nat \<Rightarrow> circuit_breaker \<Rightarrow> bool" where
  "breaker_inv threshold recovery n b \<longleftrightarrow>
     cb_failure_threshold b = threshold \<and> cb_recovery_timeout b = recovery
     \<and> cb_failure_count b = int n \<and> (cb_state b = CLOSED \<longleftrightarrow> int n < threshold)"

lemma breaker_inv_step:
  assumes "0 < threshold" and "breaker_inv threshold recovery n b"
  shows "breaker_inv threshold recovery (consecutive_failures n [ev]) (breaker_event_step b ev)"
  using assms
  by (cases ev)
     (auto simp: breaker_inv_def is_open_def record_success_def record_failure_def Let_def)

lemma consecutive_failures_Cons:
  "consecutive_failures n (ev # evs) = consecutive_failures (consecutive_failures n [ev]) evs"
  by (cases ev) simp_all

lemma breaker_inv_run:
  assumes "0 < threshold"
  shows "breaker_inv threshold recovery n b \<Longrightarrow>
    breaker_inv threshold recovery (consecutive_failures n evs) (run_breaker b evs)"
proof (induction evs arbitrary: n b)
  case (Cons ev evs)
  from Cons.IH [OF breaker_inv_step [OF assms Cons.prems]] show ?case
    by (subst consecutive_failures_Cons) (simp add: run_breaker_def)
qed (simp add: run_breaker_def)

section \<open>Properties\<close>

text \<open>
  C36. After any sequence of probes, successes and failures, a breaker with a positive threshold counts
  exactly the failures since the last success, and it is closed exactly while this number is below
  the threshold.
\<close>

theorem breaker_counts_consecutive_failures:
  assumes "0 < threshold"
  shows "cb_failure_count (run_breaker (make_breaker threshold recovery) evs) = int (consecutive_failures 0 evs)
    \<and> (cb_state (run_breaker (make_breaker threshold recovery) evs) = CLOSED
         \<longleftrightarrow> int (consecutive_failures 0 evs) < threshold)"
proof -
  have "breaker_inv threshold recovery 0 (make_breaker threshold recovery)"
    using assms by (simp add: breaker_inv_def make_breaker_def)
  from breaker_inv_run [OF assms this, of evs] show ?thesis by (simp add: breaker_inv_def)
qed

text \<open>
  Fail-fast window: after the failure that opens the breaker (or re-opens it from half open) at
  time \<open>t\<close>, every probe before \<open>t + recovery\<close> is rejected and changes nothing; the first probe from
  then on is admitted and makes the breaker half open.
\<close>

theorem open_breaker_window:
  assumes "cb_failure_threshold b \<le> cb_failure_count b + 1"
  shows "cb_state (record_failure t b) = OPEN
    \<and> (\<forall>now < t + cb_recovery_timeout b. is_open now (record_failure t b) = (record_failure t b, True))
    \<and> (\<forall>now \<ge> t + cb_recovery_timeout b.
         is_open now (record_failure t b) = ((record_failure t b)\<lparr>cb_state := HALF_OPEN\<rparr>, False))"
  using assms by (auto simp: record_failure_def Let_def is_open_def)

text \<open>
  The half-open state admits every call, not one: any number of probes at any times is admitted
  and leaves the breaker half open until a result is recorded.
\<close>

theorem half_open_admits_unboundedly:
  assumes "cb_state b = HALF_OPEN"
  shows "run_breaker b (map Probe nows) = b \<and> (\<forall>now. is_open now b = (b, False))"
proof -
  have "run_breaker b (map Probe nows) = b"
    using assms by (induction nows) (simp_all add: run_breaker_def is_open_def)
  with assms show ?thesis by (simp add: is_open_def)
qed

text \<open>The synchronous wrappers without a running loop are the asynchronous operations.\<close>

lemma sync_wrappers:
  "record_success_sync b = record_success b" "record_failure_sync now b = record_failure now b"
  by (simp_all add: record_success_sync_def record_success_def record_failure_sync_def record_failure_def)

section \<open>Witnesses\<close>

definition demo_trace :: "breaker_event list" where
  "demo_trace = [Failure 1, Success, Failure 2, Failure 3]"

theorem breaker_counts_consecutive_failures_witness:
  "cb_state (run_breaker (make_breaker 2 60) demo_trace) = OPEN \<and> consecutive_failures 0 demo_trace = 2
   \<and> cb_failure_count (run_breaker (make_breaker 2 60) demo_trace) = int (consecutive_failures 0 demo_trace)"
  using breaker_counts_consecutive_failures [of 2 60 demo_trace]
  by (simp add: demo_trace_def run_breaker_def make_breaker_def record_failure_def record_success_def)

theorem open_breaker_window_witness:
  "is_open 30 (record_failure 5 (make_breaker 1 60)) = (record_failure 5 (make_breaker 1 60), True)"
  using open_breaker_window [of "make_breaker 1 60" 5] by (simp add: make_breaker_def)

theorem half_open_admits_unboundedly_witness:
  "is_open 70 ((make_breaker 1 60)\<lparr>cb_state := HALF_OPEN\<rparr>) = ((make_breaker 1 60)\<lparr>cb_state := HALF_OPEN\<rparr>, False)"
  using half_open_admits_unboundedly [of "(make_breaker 1 60)\<lparr>cb_state := HALF_OPEN\<rparr>" "[]"] by simp

end
