(* ===== verification/RunState.thy ===== *)
theory RunState
  imports RedisOps
begin

text \<open>
  The run-state gateway of \<open>src/hfa-core/src/hfa/state/__init__.py\<close> with its script
  \<open>src/hfa-core/src/hfa/lua/state_transition.lua\<close>, and the DAG task vocabulary of
  \<open>src/hfa-core/src/hfa/dag/states.py\<close>.

  The gateway reads and writes one Redis string per run. Its expiry (\<open>EX state_ttl\<close>) is left to the
  server and not part of the transition. A script loader is \<open>Some run\<close>, where \<open>run\<close> sends the script's
  arguments to the server; \<open>None\<close> is a loader that could not be loaded. \<open>strict\<close> is the value of
  \<open>_strict_cas_mode()\<close>, which \<open>strict_cas_mode\<close> computes from the environment.

  The lemmas: the script and the Python fallback decide alike, the stored state of a run only moves
  along \<open>VALID_TRANSITIONS\<close> and never leaves a terminal state, whatever fails on the way, and the
  initial write accepts states that \<open>validate_transition\<close> rejects.
\<close>

section \<open>Run states\<close>

definition valid_transitions :: "(string \<times> string list) list" where
  "valid_transitions =
     [(''admitted'', [''queued'', ''scheduled'', ''rejected'', ''failed'']),
      (''queued'', [''scheduled'', ''failed'', ''rejected'']),
      (''scheduled'', [''running'', ''failed'']),
      (''running'', [''done'', ''failed'', ''dead_lettered'', ''rescheduled'']),
      (''rescheduled'', [''admitted'', ''failed'']),
      (''done'', []),
      (''failed'', []),
      (''rejected'', []),
      (''dead_lettered'', [])]"

definition run_terminal_states :: "string list" where
  "run_terminal_states = [''done'', ''failed'', ''rejected'', ''dead_lettered'']"

datatype transition_reason =
    COMMITTED
  | CAS_MISS
  | INITIAL_WRITE_BLOCKED
  | ILLEGAL_TRANSITION
  | TERMINAL_BLOCKED
  | UNKNOWN_STATE

record transition_result =
  tr_ok :: bool
  tr_reason :: transition_reason
  tr_from_state :: "string option"
  tr_to_state :: string
  tr_run_id :: string

datatype state_error =
    InvalidStateTransition string
  | StateRuntimeError string
  | ToStateRequired

text \<open>\<open>norm\<close> is \<open>s.strip().lower()\<close>.\<close>

definition strict_cas_mode :: "(string \<Rightarrow> string) \<Rightarrow> (string \<Rightarrow> string option) \<Rightarrow> bool" where
  "strict_cas_mode norm env =
     (let flag = norm (case env ''HFA_STRICT_CAS_MODE'' of None \<Rightarrow> [] | Some v \<Rightarrow> v);
          app = (case env ''APP_ENV'' of Some v \<Rightarrow> (if v \<noteq> [] then Some v else env ''ENVIRONMENT'') | None \<Rightarrow> env ''ENVIRONMENT'');
          app_env = norm (case app of Some v \<Rightarrow> (if v \<noteq> [] then v else ''development'') | None \<Rightarrow> ''development'')
      in flag \<in> {''1'', ''true'', ''yes'', ''on''} \<or> app_env \<in> {''production'', ''staging''})"

definition validate_transition :: "string \<Rightarrow> string option \<Rightarrow> string \<Rightarrow> bool \<Rightarrow> state_error + bool" where
  "validate_transition run_id from_state to_state raise_on_invalid =
     (let reject = (if raise_on_invalid then Inl (InvalidStateTransition run_id) else Inr False)
      in case from_state of
           None \<Rightarrow> (if to_state \<in> {''admitted'', ''queued''} then Inr True else reject)
         | Some f \<Rightarrow>
             (case map_of valid_transitions f of
                None \<Rightarrow> reject
              | Some allowed \<Rightarrow> (if to_state \<in> set allowed then Inr True else reject)))"

definition is_terminal_run_state :: "string option \<Rightarrow> bool" where
  "is_terminal_run_state s = (case s of None \<Rightarrow> False | Some x \<Rightarrow> x \<in> set run_terminal_states)"

section \<open>The script\<close>

definition lua_terminal :: "string list" where
  "lua_terminal = [''done'', ''failed'', ''rejected'', ''dead_lettered'']"

definition lua_valid :: "(string \<times> string list) list" where
  "lua_valid =
     [(''admitted'', [''queued'', ''scheduled'', ''rejected'', ''failed'']),
      (''queued'', [''scheduled'', ''failed'', ''rejected'']),
      (''scheduled'', [''running'', ''failed'']),
      (''running'', [''done'', ''failed'', ''dead_lettered'', ''rescheduled'']),
      (''rescheduled'', [''admitted'', ''failed''])]"

definition state_transition_lua ::
  "'s redis_ops \<Rightarrow> string \<Rightarrow> string \<Rightarrow> string \<Rightarrow> string \<Rightarrow> 's \<Rightarrow> 's \<times> (string + (int \<times> string))" where
  "state_transition_lua R state_key to_state expected mode s =
     (let current = redis_get R s state_key;
          prior = (case current of None \<Rightarrow> [] | Some c \<Rightarrow> c);
          commit = (redis_set R s state_key to_state, Inr (1, prior))
      in if mode = ''initial'' then (if current \<noteq> None then (s, Inr (-1, prior)) else commit)
         else if expected \<noteq> [] \<and> current \<noteq> Some expected then (s, Inr (0, prior))
         else case current of
                None \<Rightarrow> commit
              | Some c \<Rightarrow>
                  (if c \<in> set lua_terminal then (s, Inr (-3, prior))
                   else case map_of lua_valid c of
                          None \<Rightarrow> (s, Inr (-4, prior))
                        | Some allowed \<Rightarrow> (if to_state \<in> set allowed then commit else (s, Inr (-2, prior)))))"

section \<open>The gateway\<close>

type_synonym 's state_op = "'s \<Rightarrow> 's \<times> (state_error + transition_result)"

text \<open>
  A loader sends key, target, expected state and mode and receives code and prior state, or raises.
\<close>

type_synonym 's script_loader = "string \<Rightarrow> string \<Rightarrow> string \<Rightarrow> string \<Rightarrow> 's \<Rightarrow> 's \<times> (string + (int \<times> string))"

datatype 's loader_arg = Auto "'s script_loader option" | ExplicitNone | Explicit "'s script_loader"

definition select_loader :: "bool \<Rightarrow> 's loader_arg \<Rightarrow> state_error + 's script_loader option" where
  "select_loader strict arg =
     (case arg of
        Auto l \<Rightarrow> (if l = None \<and> strict then Inl (StateRuntimeError ''lua_loader unavailable'') else Inr l)
      | ExplicitNone \<Rightarrow> (if strict then Inl (StateRuntimeError ''Strict CAS requires Lua loader'') else Inr None)
      | Explicit l \<Rightarrow> Inr (Some l))"

definition transition_outcome :: "bool \<Rightarrow> transition_reason \<Rightarrow> string option \<Rightarrow> string \<Rightarrow> string \<Rightarrow> transition_result" where
  "transition_outcome ok reason from_state to_state run_id =
     \<lparr>tr_ok = ok, tr_reason = reason, tr_from_state = from_state, tr_to_state = to_state, tr_run_id = run_id\<rparr>"

definition decode_reply ::
  "bool \<Rightarrow> string \<Rightarrow> string \<Rightarrow> string \<Rightarrow> int \<times> string \<Rightarrow> transition_result option" where
  "decode_reply strict run_id to_state mode reply =
     (let code = fst reply; prior = (if snd reply = [] then None else Some (snd reply))
      in if code = 1 then Some (transition_outcome True COMMITTED prior to_state run_id)
         else if code = 0 then
           Some (transition_outcome False (if mode = ''initial'' then INITIAL_WRITE_BLOCKED else CAS_MISS) prior to_state run_id)
         else if code = -1 then
           Some (transition_outcome False
             (if strict \<and> prior \<noteq> None \<and> to_state = ''admitted'' then ILLEGAL_TRANSITION else INITIAL_WRITE_BLOCKED)
             prior to_state run_id)
         else if code = -2 then Some (transition_outcome False ILLEGAL_TRANSITION prior to_state run_id)
         else if code = -3 then Some (transition_outcome False TERMINAL_BLOCKED prior to_state run_id)
         else if code = -4 then Some (transition_outcome False UNKNOWN_STATE prior to_state run_id)
         else None)"

text \<open>The fallback reads with one call and writes with another.\<close>

definition transition_fallback ::
  "'s redis_ops \<Rightarrow> (nat \<Rightarrow> delivery) \<Rightarrow> string \<Rightarrow> string \<Rightarrow> string \<Rightarrow> string option \<Rightarrow> bool \<Rightarrow> 's state_op" where
  "transition_fallback R net run_id to_state state_key expected raise_on_invalid s =
     (case redis_call (net 0) (\<lambda>s. (s, Inr (redis_get R s state_key))) s of
        (s0, Inl _) \<Rightarrow> (s0, Inl (StateRuntimeError ''redis''))
      | (s0, Inr current) \<Rightarrow>
          (let blocked = (\<lambda>reason. (s0, Inr (transition_outcome False reason current to_state run_id)));
               commit = (case redis_call (net 1) (\<lambda>s. (redis_set R s state_key to_state, Inr ())) s0 of
                           (s1, Inl _) \<Rightarrow> (s1, Inl (StateRuntimeError ''redis''))
                         | (s1, Inr _) \<Rightarrow> (s1, Inr (transition_outcome True COMMITTED current to_state run_id)))
           in if expected = None then (if current \<noteq> None then blocked INITIAL_WRITE_BLOCKED else commit)
              else if current \<noteq> expected then blocked CAS_MISS
              else if is_terminal_run_state current then blocked TERMINAL_BLOCKED
              else case current of
                     None \<Rightarrow> commit
                   | Some c \<Rightarrow>
                       (case map_of valid_transitions c of
                          None \<Rightarrow> blocked UNKNOWN_STATE
                        | Some allowed \<Rightarrow>
                            (if to_state \<notin> set allowed
                             then (if raise_on_invalid then (s0, Inl (InvalidStateTransition run_id))
                                   else blocked ILLEGAL_TRANSITION)
                             else commit))))"

definition py_or :: "string option \<Rightarrow> string option \<Rightarrow> string option" where
  "py_or a b = (case a of Some x \<Rightarrow> (if x = [] then b else Some x) | None \<Rightarrow> b)"

definition transition_state ::
  "'s redis_ops \<Rightarrow> (nat \<Rightarrow> delivery) \<Rightarrow> bool \<Rightarrow> 's loader_arg \<Rightarrow> string \<Rightarrow> string option \<Rightarrow> string option \<Rightarrow> string option
     \<Rightarrow> string option \<Rightarrow> bool \<Rightarrow> 's state_op" where
  "transition_state R net strict lua_loader run_id to_arg target_state key_arg expected raise_on_invalid s =
     (case py_or target_state to_arg of
        None \<Rightarrow> (s, Inl ToStateRequired)
      | Some to_state \<Rightarrow>
          (let state_key = (case py_or key_arg (Some run_id) of None \<Rightarrow> run_id | Some k \<Rightarrow> k);
               mode = (if expected = None then ''initial'' else ''cas'');
               fallback = transition_fallback R net run_id to_state state_key expected raise_on_invalid
           in case select_loader strict lua_loader of
                Inl e \<Rightarrow> (s, Inl e)
              | Inr None \<Rightarrow> fallback s
              | Inr (Some run) \<Rightarrow>
                  (case run state_key to_state (case expected of None \<Rightarrow> [] | Some x \<Rightarrow> x) mode s of
                     (s', Inr reply) \<Rightarrow>
                       (case decode_reply strict run_id to_state mode reply of
                          Some r \<Rightarrow> (s', Inr r)
                        | None \<Rightarrow> fallback s')
                   | (s', Inl _) \<Rightarrow>
                       (if strict then (s', Inl (StateRuntimeError ''Lua CAS failed'')) else fallback s'))))"

text \<open>The loader that \<open>_get_lua_loader\<close> provides: the repository's script over the network.\<close>

definition script_over :: "'s redis_ops \<Rightarrow> delivery \<Rightarrow> 's script_loader" where
  "script_over R d state_key to_state expected mode =
     redis_call d (state_transition_lua R state_key to_state expected mode)"

section \<open>Moves of the stored state\<close>

inductive run_edge :: "string option \<Rightarrow> string option \<Rightarrow> bool" where
  initial: "run_edge None (Some d)"
| move: "map_of valid_transitions c = Some allowed \<Longrightarrow> d \<in> set allowed \<Longrightarrow> run_edge (Some c) (Some d)"

inductive_cases run_edgeE: "run_edge (Some c) x"

definition moves_only :: "'s redis_ops \<Rightarrow> string \<Rightarrow> 's \<Rightarrow> 's \<Rightarrow> bool" where
  "moves_only R key s s' \<longleftrightarrow>
     run_edge\<^sup>*\<^sup>* (redis_get R s key) (redis_get R s' key) \<and> (\<forall>k. k \<noteq> key \<longrightarrow> redis_get R s' k = redis_get R s k)"

lemma moves_only_refl [simp]: "moves_only R key s s"
  by (simp add: moves_only_def)

lemma moves_only_trans: "moves_only R key s t \<Longrightarrow> moves_only R key t u \<Longrightarrow> moves_only R key s u"
  unfolding moves_only_def by (metis (no_types, lifting) rtranclp_trans)

lemma moves_only_set:
  assumes "redis_laws R" and "run_edge (redis_get R s key) (Some v)"
  shows "moves_only R key s (redis_set R s key v)"
  using assms by (auto simp: moves_only_def redis_get_set)

lemma lua_tables_agree:
  "lua_terminal = run_terminal_states"
  "c \<notin> set run_terminal_states \<Longrightarrow> map_of lua_valid c = map_of valid_transitions c"
  by (auto simp: lua_terminal_def run_terminal_states_def lua_valid_def valid_transitions_def)

lemma script_moves:
  assumes "redis_laws R"
  shows "moves_only R key s (fst (state_transition_lua R key to_state expected mode s))"
proof -
  have mv: "map_of lua_valid c = Some allowed \<Longrightarrow> c \<notin> set lua_terminal \<Longrightarrow> to_state \<in> set allowed \<Longrightarrow>
      run_edge (Some c) (Some to_state)" for c allowed
    by (rule move [of c allowed]) (simp_all add: lua_tables_agree)
  show ?thesis
    using moves_only_set [OF assms, of s key to_state] initial mv
    by (cases "redis_get R s key") (auto simp: state_transition_lua_def Let_def split: option.splits)
qed

lemma redis_call_fst: "fst (redis_call d f s) = s \<or> fst (redis_call d f s) = fst (f s)"
  by (cases d) simp_all

lemma script_over_moves:
  assumes "redis_laws R"
  shows "moves_only R key s (fst (script_over R d key to_state expected mode s))"
  using redis_call_fst [of d "state_transition_lua R key to_state expected mode" s] script_moves [OF assms]
  by (auto simp: script_over_def)

lemma fallback_moves:
  assumes "redis_laws R"
  shows "moves_only R key s (fst (transition_fallback R net run_id to_state key expected raise s))"
proof -
  have mv: "map_of valid_transitions c = Some allowed \<Longrightarrow> to_state \<in> set allowed \<Longrightarrow> run_edge (Some c) (Some to_state)"
    for c allowed by (rule move)
  show ?thesis
    using moves_only_set [OF assms, of s key to_state] initial mv
    by (cases "redis_get R s key"; cases "net 0"; cases "net 1")
       (auto simp: transition_fallback_def Let_def split: option.splits)
qed

lemma committed_is_stored:
  assumes "redis_laws R"
  shows "script_over R d key to_state expected mode s = (s', Inr (1, p)) \<Longrightarrow> redis_get R s' key = Some to_state"
    and "transition_fallback R net run_id to_state key ex raise s = (s', Inr r) \<Longrightarrow> tr_ok r \<Longrightarrow>
      redis_get R s' key = Some to_state"
proof -
  show "script_over R d key to_state expected mode s = (s', Inr (1, p)) \<Longrightarrow> redis_get R s' key = Some to_state"
    by (cases d)
       (auto simp: script_over_def state_transition_lua_def Let_def redis_get_set [OF assms] split: if_splits option.splits)
  show "redis_get R s' key = Some to_state"
    if "transition_fallback R net run_id to_state key ex raise s = (s', Inr r)" "tr_ok r"
    using that
    by (cases "net 0"; cases "net 1")
       (auto simp: transition_fallback_def transition_outcome_def Let_def redis_get_set [OF assms]
          split: if_splits option.splits)
qed

text \<open>The loaders of this repository: none, or its script over a network.\<close>

definition repo_loader :: "'s redis_ops \<Rightarrow> 's loader_arg \<Rightarrow> bool" where
  "repo_loader R arg \<longleftrightarrow>
     arg = Auto None \<or> arg = ExplicitNone \<or> (\<exists>d. arg = Auto (Some (script_over R d)) \<or> arg = Explicit (script_over R d))"

lemma repo_loader_select:
  assumes "repo_loader R arg" and "select_loader strict arg = Inr l"
  shows "l = None \<or> (\<exists>d. l = Some (script_over R d))"
  using assms by (auto simp: repo_loader_def select_loader_def split: if_splits)

definition gateway_key :: "string \<Rightarrow> string option \<Rightarrow> string" where
  "gateway_key run_id key_arg = (case key_arg of None \<Rightarrow> run_id | Some k \<Rightarrow> if k = [] then run_id else k)"

lemma gateway_key_py_or: "(case py_or key_arg (Some run_id) of None \<Rightarrow> run_id | Some k \<Rightarrow> k) = gateway_key run_id key_arg"
  by (auto simp: py_or_def gateway_key_def split: option.splits)

lemma decode_reply_ok:
  "decode_reply strict run_id to_state mode reply = Some r \<Longrightarrow> tr_ok r \<Longrightarrow> fst reply = 1"
  by (auto simp: decode_reply_def transition_outcome_def Let_def split: if_splits)

lemma transition_state_sound:
  assumes laws: "redis_laws R" and loader: "repo_loader R arg"
    and to_state: "py_or target to_arg = Some to_state"
    and run: "transition_state R net strict arg run_id to_arg target key_arg expected raise s = (s', res)"
  shows "moves_only R (gateway_key run_id key_arg) s s'
    \<and> (\<forall>r. res = Inr r \<longrightarrow> tr_ok r \<longrightarrow> redis_get R s' (gateway_key run_id key_arg) = Some to_state)"
proof (cases "select_loader strict arg")
  case (Inl e)
  with run to_state show ?thesis by (auto simp: transition_state_def)
next
  case (Inr l)
  let ?key = "gateway_key run_id key_arg"
  let ?fb = "transition_fallback R net run_id to_state ?key expected raise"
  have fb: "moves_only R ?key s s' \<and> (\<forall>r. res = Inr r \<longrightarrow> tr_ok r \<longrightarrow> redis_get R s' ?key = Some to_state)"
    if "?fb t = (s', res)" "moves_only R ?key s t" for t
    using fallback_moves [OF laws, of ?key t net run_id to_state expected raise] that moves_only_trans
      committed_is_stored(2) [OF laws] by (metis fst_conv)
  show ?thesis
  proof (cases l)
    case None
    with Inr run to_state have "?fb s = (s', res)" by (simp add: transition_state_def gateway_key_py_or)
    then show ?thesis by (rule fb) simp
  next
    case (Some f)
    then obtain d where f: "f = script_over R d" using repo_loader_select [OF loader Inr] by auto
    let ?ex = "case expected of None \<Rightarrow> [] | Some x \<Rightarrow> x" and ?mode = "if expected = None then ''initial'' else ''cas''"
    obtain t reply where t: "f ?key to_state ?ex ?mode s = (t, reply)" by fastforce
    have mt: "moves_only R ?key s t" using script_over_moves [OF laws, of ?key s d to_state ?ex ?mode] t f by simp
    have stored: "reply = Inr (1, p) \<Longrightarrow> redis_get R t ?key = Some to_state" for p
      using committed_is_stored(1) [OF laws] t f by blast
    show ?thesis
    proof (cases reply)
      case (Inl e)
      with run to_state Inr Some t have "(s', res) = (t, Inl (StateRuntimeError ''Lua CAS failed'')) \<or> ?fb t = (s', res)"
        by (auto simp: transition_state_def gateway_key_py_or split: if_splits)
      with fb [of t] mt show ?thesis by auto
    next
      case (Inr q)
      with run to_state \<open>select_loader strict arg = Inr l\<close> Some t
      have "(\<exists>r. decode_reply strict run_id to_state ?mode q = Some r \<and> s' = t \<and> res = Inr r) \<or> ?fb t = (s', res)"
        by (auto simp: transition_state_def gateway_key_py_or split: option.splits)
      then show ?thesis
      proof
        assume "\<exists>r. decode_reply strict run_id to_state ?mode q = Some r \<and> s' = t \<and> res = Inr r"
        with mt stored Inr decode_reply_ok show ?thesis by (metis prod.collapse sum.inject(2))
      qed (rule fb [OF _ mt])
    qed
  qed
qed

section \<open>Histories of the gateway\<close>

inductive gateway_step :: "'s redis_ops \<Rightarrow> 's \<Rightarrow> 's \<Rightarrow> bool" for R where
  call: "repo_loader R arg \<Longrightarrow>
    transition_state R net strict arg run_id to_arg target key_arg expected raise s = (s', res) \<Longrightarrow>
    gateway_step R s s'"

definition states_advance :: "'s redis_ops \<Rightarrow> 's \<Rightarrow> 's \<Rightarrow> bool" where
  "states_advance R s s' \<longleftrightarrow> (\<forall>k. run_edge\<^sup>*\<^sup>* (redis_get R s k) (redis_get R s' k))"

lemma gateway_step_advances:
  assumes "redis_laws R" and "gateway_step R s s'"
  shows "states_advance R s s'"
  using assms(2)
proof cases
  case (call arg net strict run_id to_arg target key_arg expected raise res)
  show ?thesis
  proof (cases "py_or target to_arg")
    case None
    with call(2) show ?thesis by (auto simp: transition_state_def states_advance_def)
  next
    case (Some to_state)
    from transition_state_sound [OF assms(1) call(1) Some call(2)]
    show ?thesis unfolding states_advance_def moves_only_def by (metis rtranclp.rtrancl_refl)
  qed
qed

interpretation gate: monotone_system "\<lambda>_. redis_laws R" "gateway_step R" "\<lambda>_. redis_laws R" "states_advance R" for R
proof
  show "states_advance R s s" for s by (simp add: states_advance_def)
  show "states_advance R s u" if "states_advance R s t" "states_advance R t u" for s t u
    using that unfolding states_advance_def by (meson rtranclp_trans)
  show "states_advance R s t" if "redis_laws R" "gateway_step R s t" for s t
    using that by (rule gateway_step_advances)
qed

lemma terminal_no_edge: "c \<in> set run_terminal_states \<Longrightarrow> \<not> run_edge (Some c) x"
  by (auto simp: run_terminal_states_def valid_transitions_def elim!: run_edgeE)

lemma terminal_rtranclp: "run_edge\<^sup>*\<^sup>* (Some c) x \<Longrightarrow> c \<in> set run_terminal_states \<Longrightarrow> x = Some c"
  by (erule converse_rtranclpE) (auto dest: terminal_no_edge)

section \<open>DAG task states\<close>

datatype dag_task_state =
    PENDING | READY | SCHEDULED | RUNNING
  | DONE | FAILED | BLOCKED_BY_FAILURE | DEAD_LETTERED | SKIPPED

fun dag_state_value :: "dag_task_state \<Rightarrow> string" where
  "dag_state_value PENDING = ''pending''"
| "dag_state_value READY = ''ready''"
| "dag_state_value SCHEDULED = ''scheduled''"
| "dag_state_value RUNNING = ''running''"
| "dag_state_value DONE = ''done''"
| "dag_state_value FAILED = ''failed''"
| "dag_state_value BLOCKED_BY_FAILURE = ''blocked_by_failure''"
| "dag_state_value DEAD_LETTERED = ''dead_lettered''"
| "dag_state_value SKIPPED = ''skipped''"

definition dag_states :: "dag_task_state list" where
  "dag_states = [PENDING, READY, SCHEDULED, RUNNING, DONE, FAILED, BLOCKED_BY_FAILURE, DEAD_LETTERED, SKIPPED]"

definition dag_task_state_of :: "string \<Rightarrow> dag_task_state option" where
  "dag_task_state_of s = find (\<lambda>d. dag_state_value d = s) dag_states"

definition dag_terminal_states :: "dag_task_state set" where
  "dag_terminal_states = {DONE, FAILED, BLOCKED_BY_FAILURE, DEAD_LETTERED, SKIPPED}"

definition active_states :: "dag_task_state set" where
  "active_states = {PENDING, READY, SCHEDULED, RUNNING}"

definition claimable_states :: "dag_task_state set" where
  "claimable_states = {SCHEDULED}"

definition completable_states :: "dag_task_state set" where
  "completable_states = {RUNNING}"

definition heartbeat_allowed_states :: "dag_task_state set" where
  "heartbeat_allowed_states = {RUNNING}"

fun allowed_transitions :: "dag_task_state \<Rightarrow> dag_task_state set" where
  "allowed_transitions PENDING = {READY}"
| "allowed_transitions READY = {SCHEDULED}"
| "allowed_transitions SCHEDULED = {RUNNING, READY}"
| "allowed_transitions RUNNING = {DONE, FAILED, READY, DEAD_LETTERED}"
| "allowed_transitions _ = {}"

definition is_terminal_task :: "string \<Rightarrow> bool" where
  "is_terminal_task s = (case dag_task_state_of s of None \<Rightarrow> False | Some d \<Rightarrow> d \<in> dag_terminal_states)"

definition is_transition_allowed :: "string \<Rightarrow> string \<Rightarrow> bool" where
  "is_transition_allowed from_state to_state =
     (case dag_task_state_of from_state of
        None \<Rightarrow> False
      | Some f \<Rightarrow> (case dag_task_state_of to_state of None \<Rightarrow> False | Some t \<Rightarrow> t \<in> allowed_transitions f))"

lemma dag_task_state_of_value [simp]: "dag_task_state_of (dag_state_value d) = Some d"
  by (cases d) (simp_all add: dag_task_state_of_def dag_states_def)

lemma dag_task_state_of_Some: "dag_task_state_of s = Some d \<longleftrightarrow> s = dag_state_value d"
  by (auto simp: dag_task_state_of_def find_Some_iff)
     (use dag_task_state_of_value [of d] in \<open>auto simp: dag_task_state_of_def find_Some_iff\<close>)

section \<open>Properties\<close>


text \<open>
  Whatever the mode, the loader and the deliveries, a gateway call moves the stored state of its
  run along edges of \<open>VALID_TRANSITIONS\<close> only (or writes an absent one), touches no other key, and
  when it reports success the run holds the requested state.
\<close>

theorem transition_moves_legally:
  assumes "redis_laws R" and "repo_loader R arg" and "py_or target to_arg = Some to_state"
    and "transition_state R net strict arg run_id to_arg target key_arg expected raise s = (s', res)"
  shows "run_edge\<^sup>*\<^sup>* (redis_get R s (gateway_key run_id key_arg)) (redis_get R s' (gateway_key run_id key_arg))
    \<and> (\<forall>k. k \<noteq> gateway_key run_id key_arg \<longrightarrow> redis_get R s' k = redis_get R s k)
    \<and> (\<forall>r. res = Inr r \<longrightarrow> tr_ok r \<longrightarrow> redis_get R s' (gateway_key run_id key_arg) = Some to_state)"
  using transition_state_sound [OF assms] by (simp add: moves_only_def)

text \<open>
  Terminal run states are final: along every history of gateway calls on any runs, with any lost
  requests and replies, a run that is done, failed, rejected or dead-lettered stays so.
\<close>

theorem terminal_run_state_final:
  assumes "redis_laws R" and "(gateway_step R)\<^sup>*\<^sup>* s s'"
    and "redis_get R s key = Some c" and "c \<in> set run_terminal_states"
  shows "redis_get R s' key = Some c"
proof -
  have "states_advance R s s'" using gate.steps_le [OF assms(2,1)] .
  then have "run_edge\<^sup>*\<^sup>* (Some c) (redis_get R s' key)" using assms(3) by (metis states_advance_def)
  then show ?thesis using assms(4) by (rule terminal_rtranclp)
qed

text \<open>
  The initial write is not validated: for a run without a state the gateway commits any requested
  state, including those that \<open>validate_transition\<close> rejects as initial states.
\<close>

theorem initial_write_unchecked:
  assumes "redis_laws R" and "redis_get R s run_id = None" and "to_state \<noteq> []"
  shows "transition_state R (\<lambda>_. Delivered) strict (Explicit (script_over R Delivered)) run_id (Some to_state) None None None raise s
      = (redis_set R s run_id to_state, Inr (transition_outcome True COMMITTED None to_state run_id))
    \<and> validate_transition run_id None ''running'' False = Inr False"
  using assms
  by (simp add: transition_state_def py_or_def select_loader_def script_over_def state_transition_lua_def decode_reply_def
      validate_transition_def Let_def)

text \<open>
  The DAG vocabulary is coherent: a state name is terminal exactly when it names a state with no
  way out, every task state is either active or terminal, and claims, completions and heartbeats are
  legal in active states only.
\<close>

theorem dag_vocabulary_coherent:
  "(is_terminal_task s \<longleftrightarrow> dag_task_state_of s \<noteq> None \<and> (\<forall>t. \<not> is_transition_allowed s t))
   \<and> active_states \<union> dag_terminal_states = UNIV \<and> active_states \<inter> dag_terminal_states = {}
   \<and> claimable_states \<union> completable_states \<union> heartbeat_allowed_states \<subseteq> active_states"
proof -
  have "is_terminal_task s \<longleftrightarrow> dag_task_state_of s \<noteq> None \<and> (\<forall>t. \<not> is_transition_allowed s t)"
  proof (cases "dag_task_state_of s")
    case (Some d)
    have "(\<forall>t. \<not> is_transition_allowed s t) \<longleftrightarrow> allowed_transitions d = {}"
      using Some by (auto simp: is_transition_allowed_def split: option.splits)
         (metis dag_task_state_of_value option.inject option.distinct(1))
    moreover have "allowed_transitions d = {} \<longleftrightarrow> d \<in> dag_terminal_states"
      by (cases d) (simp_all add: dag_terminal_states_def)
    ultimately show ?thesis using Some by (simp add: is_terminal_task_def)
  qed (simp add: is_terminal_task_def)
  moreover have "active_states \<union> dag_terminal_states = UNIV"
    by (auto simp: active_states_def dag_terminal_states_def intro: dag_task_state.exhaust)
  moreover have "active_states \<inter> dag_terminal_states = {}"
    by (simp add: active_states_def dag_terminal_states_def)
  moreover have "claimable_states \<union> completable_states \<union> heartbeat_allowed_states \<subseteq> active_states"
    by (simp add: claimable_states_def completable_states_def heartbeat_allowed_states_def active_states_def)
  ultimately show ?thesis by blast
qed

section \<open>Witnesses\<close>


theorem transition_moves_legally_witness:
  "\<exists>s' res. transition_state map_redis (\<lambda>_. Delivered) True (Explicit (script_over map_redis Delivered)) ''r1'' (Some ''running'')
      None None (Some ''scheduled'') False [(''r1'', ''scheduled'')] = (s', res)
    \<and> run_edge\<^sup>*\<^sup>* (Some ''scheduled'') (redis_get map_redis s' ''r1'')"
proof -
  obtain s' res where run: "transition_state map_redis (\<lambda>_. Delivered) True (Explicit (script_over map_redis Delivered))
      ''r1'' (Some ''running'') None None (Some ''scheduled'') False [(''r1'', ''scheduled'')] = (s', res)"
    by fastforce
  have "repo_loader map_redis (Explicit (script_over map_redis Delivered))" by (auto simp: repo_loader_def)
  from transition_moves_legally [OF map_redis_laws this _ run, of "''running''"] run show ?thesis
    by (auto simp: py_or_def gateway_key_def map_redis_def)
qed

theorem terminal_run_state_final_witness:
  "\<exists>s'. gateway_step map_redis [(''r1'', ''done'')] s' \<and> redis_get map_redis s' ''r1'' = Some ''done''"
proof -
  obtain s' res where run: "transition_state map_redis (\<lambda>_. Delivered) False ExplicitNone ''r1'' (Some ''running'') None None
      (Some ''done'') False [(''r1'', ''done'')] = (s', res)" by fastforce
  have "repo_loader map_redis ExplicitNone" by (simp add: repo_loader_def)
  from call [OF this run] have step: "gateway_step map_redis [(''r1'', ''done'')] s'" .
  have "redis_get map_redis [(''r1'', ''done'')] ''r1'' = Some ''done''" by (simp add: map_redis_def)
  moreover have "(gateway_step map_redis)\<^sup>*\<^sup>* [(''r1'', ''done'')] s'" using step by simp
  ultimately show ?thesis using terminal_run_state_final [OF map_redis_laws, of "[(''r1'', ''done'')]" s'] step
    by (auto simp: run_terminal_states_def)
qed

theorem initial_write_unchecked_witness:
  "\<exists>s'. transition_state map_redis (\<lambda>_. Delivered) True (Explicit (script_over map_redis Delivered)) ''r1'' (Some ''running'')
      None None None True [] = (s', Inr (transition_outcome True COMMITTED None ''running'' ''r1''))"
  using initial_write_unchecked [OF map_redis_laws, of "[]" "''r1''" "''running''" True True]
  by (simp add: map_redis_def)

end
