(* ===== verification/Watermark.thy ===== *)
theory Watermark
  imports Prelude Complex_Main
begin

text \<open>
  Event-time watermarks of \<open>src/hfa-semantic/src/hfa_semantic/runtime/watermark.py\<close> and the lateness
  policy of \<open>lateness_policy.py\<close>. Times are exact rationals. The shared Redis cell is modelled by what
  the code reads from it: absent, unreadable, or the three numbers that \<open>json.dumps\<close> wrote and
  \<open>json.loads\<close> gives back. A distributed observation is a read of the cell followed by a write
  (\<open>wm_read\<close>, \<open>wm_write\<close>), two server calls; either may fail, and then the local path runs.

  The lemmas: the local watermark is the running maximum of the event times and the counters add up
  to the number of observations; events within the allowed lateness are never late in any order of
  arrival; the distributed path does what the local path does on the shared cell; interleaved
  observations of two workers can move the shared watermark backwards.
\<close>

section \<open>Lateness policy\<close>

datatype lateness_action = DROP | ACCEPT_WITH_CORRECTION | SIDE_CHANNEL

record wm_state =
  wm_watermark :: rat
  wm_late :: nat
  wm_on_time :: nat

record watermark_manager =
  wm_allowed_lateness :: rat
  wm_policy :: lateness_action
  wm_local :: wm_state

definition empty_wm :: wm_state where
  "empty_wm = \<lparr>wm_watermark = 0, wm_late = 0, wm_on_time = 0\<rparr>"

definition make_watermark :: "rat \<Rightarrow> lateness_action option \<Rightarrow> watermark_manager" where
  "make_watermark allowed_lateness policy =
     \<lparr>wm_allowed_lateness = allowed_lateness,
      wm_policy = (case policy of None \<Rightarrow> DROP | Some a \<Rightarrow> a), wm_local = empty_wm\<rparr>"

section \<open>Observation\<close>

definition is_late_for :: "rat \<Rightarrow> rat \<Rightarrow> rat \<Rightarrow> bool" where
  "is_late_for watermark lateness t = (watermark > 0 \<and> t < watermark - lateness)"

definition observe_local :: "watermark_manager \<Rightarrow> rat \<Rightarrow> watermark_manager \<times> (bool \<times> bool)" where
  "observe_local W t =
     (let st = wm_local W;
          is_late = is_late_for (wm_watermark st) (wm_allowed_lateness W) t
      in if is_late
         then (W\<lparr>wm_local := st\<lparr>wm_late := wm_late st + 1\<rparr>\<rparr>, (is_late, wm_policy W \<noteq> DROP))
         else let st1 = st\<lparr>wm_on_time := wm_on_time st + 1\<rparr>;
                  st2 = (if t > wm_watermark st1 then st1\<lparr>wm_watermark := t\<rparr> else st1)
              in (W\<lparr>wm_local := st2\<rparr>, (is_late, True)))"

datatype wm_cell = Absent | Unreadable | Cell wm_state

definition wm_read :: "wm_cell \<Rightarrow> wm_state" where
  "wm_read c = (case c of Cell st \<Rightarrow> st | _ \<Rightarrow> empty_wm)"

definition wm_update :: "rat \<Rightarrow> rat \<Rightarrow> wm_state \<Rightarrow> bool \<times> wm_state" where
  "wm_update lateness t st =
     (let is_late = is_late_for (wm_watermark st) lateness t
      in (is_late,
          if is_late then st\<lparr>wm_late := wm_late st + 1\<rparr>
          else let st1 = st\<lparr>wm_on_time := wm_on_time st + 1\<rparr>
               in if t > wm_watermark st1 then st1\<lparr>wm_watermark := t\<rparr> else st1))"

definition wm_write :: "rat \<Rightarrow> rat \<Rightarrow> wm_state \<Rightarrow> wm_cell" where
  "wm_write lateness t snapshot = Cell (snd (wm_update lateness t snapshot))"

text \<open>\<open>get_ok\<close> and \<open>set_ok\<close> say whether the two server calls succeed.\<close>

definition observe_redis ::
  "bool \<Rightarrow> bool \<Rightarrow> watermark_manager \<Rightarrow> rat \<Rightarrow> wm_cell \<Rightarrow> wm_cell \<times> watermark_manager \<times> (bool \<times> bool)" where
  "observe_redis get_ok set_ok W t cell =
     (if \<not> get_ok then (cell, observe_local W t)
      else let (is_late, st) = wm_update (wm_allowed_lateness W) t (wm_read cell)
           in if \<not> set_ok then (cell, observe_local W t)
              else (wm_write (wm_allowed_lateness W) t (wm_read cell), W\<lparr>wm_local := st\<rparr>, (is_late, \<not> is_late \<or> wm_policy W \<noteq> DROP)))"

definition observe ::
  "bool option \<Rightarrow> bool \<Rightarrow> watermark_manager \<Rightarrow> rat \<Rightarrow> wm_cell \<Rightarrow> wm_cell \<times> watermark_manager \<times> (bool \<times> bool)" where
  "observe redis set_ok W t cell =
     (case redis of
        None \<Rightarrow> (cell, observe_local W t)
      | Some get_ok \<Rightarrow> observe_redis get_ok set_ok W t cell)"

definition wm_evaluate :: "watermark_manager \<Rightarrow> rat \<Rightarrow> bool \<times> lateness_action" where
  "wm_evaluate W t =
     (if is_late_for (wm_watermark (wm_local W)) (wm_allowed_lateness W) t
      then (True, wm_policy W) else (False, ACCEPT_WITH_CORRECTION))"

definition should_accept :: "watermark_manager \<Rightarrow> rat \<Rightarrow> lateness_action option \<Rightarrow> watermark_manager \<times> bool" where
  "should_accept W t policy =
     (let effective = (case policy of None \<Rightarrow> wm_policy W | Some a \<Rightarrow> a);
          (W', is_late, _) = observe_local W t
      in (W', if \<not> is_late then True else effective \<noteq> DROP))"

definition sync_from_redis :: "bool \<Rightarrow> watermark_manager \<Rightarrow> wm_cell \<Rightarrow> watermark_manager" where
  "sync_from_redis get_ok W cell =
     (case cell of Cell st \<Rightarrow> (if get_ok then W\<lparr>wm_local := st\<rparr> else W) | _ \<Rightarrow> W)"

definition late_ratio :: "watermark_manager \<Rightarrow> rat" where
  "late_ratio W =
     (let total = wm_late (wm_local W) + wm_on_time (wm_local W)
      in if total > 0 then of_nat (wm_late (wm_local W)) / of_nat total else 0)"

definition wm_reset :: "watermark_manager \<Rightarrow> watermark_manager" where
  "wm_reset W = W\<lparr>wm_local := empty_wm\<rparr>"

section \<open>Runs\<close>

definition observe_all :: "watermark_manager \<Rightarrow> rat list \<Rightarrow> watermark_manager" where
  "observe_all W ts = foldl (\<lambda>W t. fst (observe_local W t)) W ts"

fun run_late_count :: "rat \<Rightarrow> rat \<Rightarrow> rat list \<Rightarrow> nat" where
  "run_late_count lateness m [] = 0"
| "run_late_count lateness m (t # ts) =
     (if is_late_for m lateness t then 1 else 0) + run_late_count lateness (max m t) ts"

lemma observe_local_update:
  "wm_local (fst (observe_local W t)) = snd (wm_update (wm_allowed_lateness W) t (wm_local W))"
  "wm_allowed_lateness (fst (observe_local W t)) = wm_allowed_lateness W"
  "wm_policy (fst (observe_local W t)) = wm_policy W"
  "snd (observe_local W t) =
     (let late = fst (wm_update (wm_allowed_lateness W) t (wm_local W)) in (late, \<not> late \<or> wm_policy W \<noteq> DROP))"
  by (simp_all add: observe_local_def wm_update_def Let_def)

lemma wm_update_spec:
  assumes "0 \<le> lateness"
  shows "wm_watermark (snd (wm_update lateness t st)) = max (wm_watermark st) t"
    and "wm_late (snd (wm_update lateness t st)) = wm_late st + (if is_late_for (wm_watermark st) lateness t then 1 else 0)"
    and "wm_late (snd (wm_update lateness t st)) + wm_on_time (snd (wm_update lateness t st))
      = Suc (wm_late st + wm_on_time st)"
  using assms by (auto simp: wm_update_def is_late_for_def Let_def max_def)

lemma observe_all_from:
  assumes "0 \<le> wm_allowed_lateness W"
  shows "wm_watermark (wm_local (observe_all W ts)) = foldl max (wm_watermark (wm_local W)) ts
    \<and> wm_late (wm_local (observe_all W ts)) = wm_late (wm_local W)
        + run_late_count (wm_allowed_lateness W) (wm_watermark (wm_local W)) ts
    \<and> wm_late (wm_local (observe_all W ts)) + wm_on_time (wm_local (observe_all W ts))
        = wm_late (wm_local W) + wm_on_time (wm_local W) + length ts"
  using assms
proof (induction ts arbitrary: W)
  case (Cons t ts)
  let ?W = "fst (observe_local W t)"
  have "0 \<le> wm_allowed_lateness ?W" using Cons.prems by (simp add: observe_local_update)
  from Cons.IH [OF this] wm_update_spec [OF Cons.prems, of t "wm_local W"] show ?case
    by (simp add: observe_all_def observe_local_update)
qed (simp add: observe_all_def)

lemma foldl_max_ge: "m \<le> foldl max m ts" "t \<in> set ts \<Longrightarrow> t \<le> foldl max m (ts :: rat list)"
  by (induction ts arbitrary: m) (auto intro: order_trans [OF max.cobounded1] order_trans [OF max.cobounded2])

section \<open>Properties\<close>

text \<open>
  After observing any sequence of event times in one process, a manager with a non-negative
  allowance has the maximum of zero and all of them as its watermark, counts as late exactly the
  events that were more than the allowance behind the maximum seen so far, and counts every event
  once.
\<close>

theorem watermark_is_running_maximum:
  assumes "0 \<le> lateness"
  shows "wm_watermark (wm_local (observe_all (make_watermark lateness policy) ts)) = foldl max 0 ts
    \<and> wm_late (wm_local (observe_all (make_watermark lateness policy) ts)) = run_late_count lateness 0 ts
    \<and> wm_late (wm_local (observe_all (make_watermark lateness policy) ts))
        + wm_on_time (wm_local (observe_all (make_watermark lateness policy) ts)) = length ts"
  using observe_all_from [of "make_watermark lateness policy" ts] assms
  by (simp add: make_watermark_def empty_wm_def)

text \<open>
  Bounded disorder is harmless: when all event times lie within the allowance of their maximum,
  no event is late, in whatever order they arrive.
\<close>

theorem bounded_disorder_never_late:
  assumes "0 \<le> lateness" and "\<forall>t \<in> set ts. \<forall>u \<in> set ts. u - t \<le> lateness"
  shows "wm_late (wm_local (observe_all (make_watermark lateness policy) ts)) = 0"
proof -
  have "run_late_count lateness m ts = 0" if "m \<le> 0 \<or> (\<forall>t \<in> set ts. m - t \<le> lateness)" for m
    using assms(2) that
  proof (induction ts arbitrary: m)
    case (Cons t ts)
    have "\<not> is_late_for m lateness t" using Cons.prems(2) by (auto simp: is_late_for_def)
    moreover have "max m t \<le> 0 \<or> (\<forall>u \<in> set ts. max m t - u \<le> lateness)"
      using Cons.prems by (auto simp: max_def)
    ultimately show ?case using Cons.IH [of "max m t"] Cons.prems(1) by simp
  qed simp
  then have "run_late_count lateness 0 ts = 0" by simp
  with observe_all_from [of "make_watermark lateness policy" ts] assms(1) show ?thesis
    by (simp add: make_watermark_def empty_wm_def)
qed

text \<open>
  A distributed observation with answered calls does to the shared cell, and returns, exactly what
  the local path does on a manager holding the cell's contents; afterwards the local cache equals
  the cell. When a call fails the cell is untouched and the local path decides.
\<close>

theorem distributed_refines_local:
  "observe_redis True True W t cell =
     (let (W', r) = observe_local (W\<lparr>wm_local := wm_read cell\<rparr>) t in (Cell (wm_local W'), W', r))
   \<and> (\<not> get_ok \<or> \<not> set_ok \<longrightarrow> observe_redis get_ok set_ok W t cell = (cell, observe_local W t))"
  by (simp add: observe_redis_def observe_local_def wm_update_def wm_write_def Let_def split: prod.splits)

text \<open>
  The shared watermark is not monotone under concurrency. When two workers read the cell and then
  write, one after the other, with event times \<open>u < t\<close> beyond the current watermark, the second write
  takes the watermark from \<open>t\<close> back to \<open>u\<close> and the cell has counted one of the two events; observing
  them one after the other ends at \<open>t\<close> with both counted.
\<close>

theorem interleaved_observations_regress:
  assumes "wm_watermark (wm_read cell) < u" and "u < t" and "0 \<le> lateness"
  shows "wm_watermark (wm_read (wm_write lateness t (wm_read cell))) = t
    \<and> wm_watermark (wm_read (wm_write lateness u (wm_read cell))) = u
    \<and> wm_late (wm_read (wm_write lateness u (wm_read cell))) + wm_on_time (wm_read (wm_write lateness u (wm_read cell)))
        = Suc (wm_late (wm_read cell) + wm_on_time (wm_read cell))
    \<and> wm_watermark (wm_read (wm_write lateness u (wm_read (wm_write lateness t (wm_read cell))))) = t
    \<and> wm_late (wm_read (wm_write lateness u (wm_read (wm_write lateness t (wm_read cell)))))
        + wm_on_time (wm_read (wm_write lateness u (wm_read (wm_write lateness t (wm_read cell)))))
        = Suc (Suc (wm_late (wm_read cell) + wm_on_time (wm_read cell)))"
proof -
  have r: "wm_read (wm_write lateness x st) = snd (wm_update lateness x st)" for x st
    by (simp add: wm_write_def wm_read_def)
  show ?thesis
    unfolding r wm_update_spec(1,3) [OF assms(3)] using assms(1,2) by simp
qed

section \<open>Witnesses\<close>

theorem watermark_is_running_maximum_witness:
  "wm_watermark (wm_local (observe_all (make_watermark 5 None) [10, 3, 20])) = foldl max 0 [10, 3, 20]
   \<and> wm_late (wm_local (observe_all (make_watermark 5 None) [10, 3, 20])) = 1"
  using watermark_is_running_maximum [of 5 None "[10, 3, 20]"] by (simp add: is_late_for_def)

theorem bounded_disorder_never_late_witness:
  "wm_late (wm_local (observe_all (make_watermark 5 None) [10, 6, 11])) = 0"
  by (rule bounded_disorder_never_late) simp_all

theorem distributed_refines_local_witness:
  "observe_redis False True (make_watermark 5 None) 3 Absent = (Absent, observe_local (make_watermark 5 None) 3)"
  using distributed_refines_local [where get_ok = False] by blast

theorem interleaved_observations_regress_witness:
  "wm_watermark (wm_read (wm_write 0 100 (wm_read Absent))) = 100
   \<and> wm_watermark (wm_read (wm_write 0 50 (wm_read Absent))) = 50"
  using interleaved_observations_regress [of Absent 50 100 0] by (simp add: wm_read_def empty_wm_def)

end
