(* ===== verification/CompactState.thy ===== *)
theory CompactState
  imports Prelude Complex_Main
begin

text \<open>
  The compact streaming state of \<open>src/hfa-semantic/src/hfa_semantic/runtime/compact_state.py\<close>: window
  aggregates, partitions with a bounded number of windows, and the manager with a bounded number of
  partitions and least-recently-used eviction. Dictionaries are insertion-ordered association lists,
  latencies exact rationals, and \<open>time.time()\<close> an argument of the operations that read it.

  The lemmas: the manager never fails for positive capacities, holds at most the configured number
  of partitions with at most ten windows each and five error labels per window, its counters are
  consistent, and the partitions it holds are exactly the most recently used ones, in that order.
\<close>

section \<open>Windows\<close>

record window_aggregate =
  wa_window_start_ms :: int
  wa_window_end_ms :: int
  wa_event_count :: int
  wa_success_count :: int
  wa_failure_count :: int
  wa_sum_latency_ms :: rat
  wa_max_latency_ms :: rat
  wa_min_latency_ms :: rat
  wa_unique_entities :: int
  wa_anomaly_count :: int
  wa_last_event_ms :: int
  wa_last_anomaly_ms :: int
  wa_top_errors :: "(string \<times> int) list"

definition new_window :: "int \<Rightarrow> int \<Rightarrow> window_aggregate" where
  "new_window start stop =
     \<lparr>wa_window_start_ms = start, wa_window_end_ms = stop, wa_event_count = 0, wa_success_count = 0,
      wa_failure_count = 0, wa_sum_latency_ms = 0, wa_max_latency_ms = 0, wa_min_latency_ms = 0,
      wa_unique_entities = 0, wa_anomaly_count = 0, wa_last_event_ms = 0, wa_last_anomaly_ms = 0,
      wa_top_errors = []\<rparr>"

definition dict_incr :: "string \<Rightarrow> (string \<times> int) list \<Rightarrow> (string \<times> int) list" where
  "dict_incr k d = AList.update k ((case map_of d k of None \<Rightarrow> 0 | Some n \<Rightarrow> n) + 1) d"

definition count_error :: "string option \<Rightarrow> (string \<times> int) list \<Rightarrow> (string \<times> int) list" where
  "count_error error_type errs =
     (case error_type of
        None \<Rightarrow> errs
      | Some e \<Rightarrow>
          (if e \<noteq> [] \<and> length errs < 5 then dict_incr e errs
           else if e \<noteq> [] \<and> e \<in> fst ` set errs then dict_incr e errs
           else errs))"

text \<open>\<open>now_ms or int(time.time() * 1000)\<close>: zero counts as missing.\<close>

definition effective_now :: "int \<Rightarrow> int option \<Rightarrow> int" where
  "effective_now clock now_ms = (case now_ms of None \<Rightarrow> clock | Some n \<Rightarrow> if n = 0 then clock else n)"

definition window_add_event ::
  "int \<Rightarrow> string \<Rightarrow> rat \<Rightarrow> string option \<Rightarrow> int option \<Rightarrow> window_aggregate \<Rightarrow> window_aggregate" where
  "window_add_event clock outcome latency_ms error_type now_ms w =
     (let now = effective_now clock now_ms;
          w1 = w\<lparr>wa_event_count := wa_event_count w + 1, wa_last_event_ms := now\<rparr>;
          w2 = (if outcome = ''success'' then w1\<lparr>wa_success_count := wa_success_count w1 + 1\<rparr>
                else if outcome = ''failure'' then w1\<lparr>wa_failure_count := wa_failure_count w1 + 1\<rparr>
                else if outcome = ''anomaly''
                then w1\<lparr>wa_anomaly_count := wa_anomaly_count w1 + 1, wa_last_anomaly_ms := now\<rparr>
                else w1);
          w3 = w2\<lparr>wa_sum_latency_ms := wa_sum_latency_ms w2 + latency_ms,
                  wa_max_latency_ms := max (wa_max_latency_ms w2) latency_ms,
                  wa_min_latency_ms := (if wa_min_latency_ms w2 = 0 then latency_ms
                                        else min (wa_min_latency_ms w2) latency_ms)\<rparr>
      in w3\<lparr>wa_top_errors := count_error error_type (wa_top_errors w3)\<rparr>)"

definition ratio_or_zero :: "rat \<Rightarrow> int \<Rightarrow> rat" where
  "ratio_or_zero x n = (if n > 0 then x / of_int n else 0)"

definition avg_latency_ms :: "window_aggregate \<Rightarrow> rat" where
  "avg_latency_ms w = ratio_or_zero (wa_sum_latency_ms w) (wa_event_count w)"

definition window_success_rate :: "window_aggregate \<Rightarrow> rat" where
  "window_success_rate w = ratio_or_zero (of_int (wa_success_count w)) (wa_event_count w)"

definition window_anomaly_rate :: "window_aggregate \<Rightarrow> rat" where
  "window_anomaly_rate w = ratio_or_zero (of_int (wa_anomaly_count w)) (wa_event_count w)"

record window_dict =
  wd_window_start_ms :: int
  wd_window_end_ms :: int
  wd_event_count :: int
  wd_success_count :: int
  wd_failure_count :: int
  wd_avg_latency_ms :: rat
  wd_max_latency_ms :: rat
  wd_min_latency_ms :: rat
  wd_success_rate :: rat
  wd_anomaly_count :: int
  wd_anomaly_rate :: rat
  wd_top_errors :: "(string \<times> int) list"

definition window_to_dict :: "window_aggregate \<Rightarrow> window_dict" where
  "window_to_dict w =
     \<lparr>wd_window_start_ms = wa_window_start_ms w, wd_window_end_ms = wa_window_end_ms w,
      wd_event_count = wa_event_count w, wd_success_count = wa_success_count w,
      wd_failure_count = wa_failure_count w, wd_avg_latency_ms = avg_latency_ms w,
      wd_max_latency_ms = wa_max_latency_ms w, wd_min_latency_ms = wa_min_latency_ms w,
      wd_success_rate = window_success_rate w, wd_anomaly_count = wa_anomaly_count w,
      wd_anomaly_rate = window_anomaly_rate w, wd_top_errors = wa_top_errors w\<rparr>"

section \<open>Partitions\<close>

record partition_state =
  ps_partition_id :: string
  ps_rule_id :: string
  ps_windows :: "(int \<times> window_aggregate) list"
  ps_max_windows :: int
  ps_current_window_start_ms :: int
  ps_first_event_ms :: int
  ps_last_event_ms :: int
  ps_total_events_ever :: int

definition new_partition :: "string \<Rightarrow> string \<Rightarrow> partition_state" where
  "new_partition pid rule_id =
     \<lparr>ps_partition_id = pid, ps_rule_id = rule_id, ps_windows = [], ps_max_windows = 10,
      ps_current_window_start_ms = 0, ps_first_event_ms = 0, ps_last_event_ms = 0, ps_total_events_ever = 0\<rparr>"

datatype compact_error =
    ZeroDivisionError
  | MinOfEmpty
  | PopFromEmpty
  | LruKeyMissing string
  | LruNotListed string

definition open_window :: "int \<Rightarrow> int \<Rightarrow> partition_state \<Rightarrow> compact_error + partition_state" where
  "open_window window_size_ms window_key p =
     (if window_key \<in> fst ` set (ps_windows p) then Inr p
      else rbind (if int (length (ps_windows p)) \<ge> ps_max_windows p
                  then (if ps_windows p = [] then Inl MinOfEmpty
                        else Inr (AList.delete (Min (fst ` set (ps_windows p))) (ps_windows p)))
                  else Inr (ps_windows p))
             (\<lambda>ws. let start = window_key * window_size_ms
                   in Inr (p\<lparr>ps_windows := AList.update window_key (new_window start (start + window_size_ms)) ws,
                             ps_current_window_start_ms := start\<rparr>)))"

definition partition_add_event ::
  "int \<Rightarrow> string \<Rightarrow> rat \<Rightarrow> string option \<Rightarrow> int \<Rightarrow> partition_state \<Rightarrow> compact_error + partition_state" where
  "partition_add_event clock outcome latency_ms error_type window_size_ms p =
     (let p1 = p\<lparr>ps_first_event_ms := (if ps_first_event_ms p = 0 then clock else ps_first_event_ms p),
                 ps_last_event_ms := clock, ps_total_events_ever := ps_total_events_ever p + 1\<rparr>
      in if window_size_ms = 0 then Inl ZeroDivisionError
         else let window_key = clock div window_size_ms
              in rbind (open_window window_size_ms window_key p1)
                   (\<lambda>p2. Inr (p2\<lparr>ps_windows :=
                      map (\<lambda>(k, w). (k, if k = window_key
                             then window_add_event clock outcome latency_ms error_type (Some clock) w else w))
                        (ps_windows p2)\<rparr>)))"

record partition_stats =
  st_partition_id :: string
  st_rule_id :: string
  st_window_count :: int
  st_total_events_in_windows :: int
  st_total_events_ever :: int
  st_success_rate :: rat
  st_failure_rate :: rat
  st_anomaly_rate :: rat
  st_first_event_ms :: int
  st_last_event_ms :: int

definition window_sum :: "(window_aggregate \<Rightarrow> int) \<Rightarrow> partition_state \<Rightarrow> int" where
  "window_sum f p = sum_list (map (f \<circ> snd) (ps_windows p))"

definition get_stats :: "partition_state \<Rightarrow> partition_stats option" where
  "get_stats p =
     (if ps_windows p = [] then None
      else let total = window_sum wa_event_count p
           in Some \<lparr>st_partition_id = ps_partition_id p, st_rule_id = ps_rule_id p,
                 st_window_count = int (length (ps_windows p)), st_total_events_in_windows = total,
                 st_total_events_ever = ps_total_events_ever p,
                 st_success_rate = ratio_or_zero (of_int (window_sum wa_success_count p)) total,
                 st_failure_rate = ratio_or_zero (of_int (window_sum wa_failure_count p)) total,
                 st_anomaly_rate = ratio_or_zero (of_int (window_sum wa_anomaly_count p)) total,
                 st_first_event_ms = ps_first_event_ms p, st_last_event_ms = ps_last_event_ms p\<rparr>)"

record partition_dict =
  pd_partition_id :: string
  pd_rule_id :: string
  pd_window_count :: int
  pd_windows :: "(string \<times> window_dict) list"
  pd_total_events_ever :: int
  pd_first_event_ms :: int
  pd_last_event_ms :: int
  pd_stats :: "partition_stats option"

definition partition_to_dict :: "partition_state \<Rightarrow> partition_dict" where
  "partition_to_dict p =
     \<lparr>pd_partition_id = ps_partition_id p, pd_rule_id = ps_rule_id p,
      pd_window_count = int (length (ps_windows p)),
      pd_windows = map (\<lambda>(k, w). (dec_int k, window_to_dict w)) (ps_windows p),
      pd_total_events_ever = ps_total_events_ever p, pd_first_event_ms = ps_first_event_ms p,
      pd_last_event_ms = ps_last_event_ms p, pd_stats = get_stats p\<rparr>"

section \<open>The manager\<close>

record state_manager =
  cm_rule_id :: string
  cm_max_partitions :: int
  cm_window_size_ms :: int
  cm_partitions :: "(string \<times> partition_state) list"
  cm_lru :: "string list"

definition make_manager :: "string \<Rightarrow> int \<Rightarrow> int \<Rightarrow> state_manager" where
  "make_manager rule_id max_partitions window_size_ms =
     \<lparr>cm_rule_id = rule_id, cm_max_partitions = max_partitions, cm_window_size_ms = window_size_ms,
      cm_partitions = [], cm_lru = []\<rparr>"

definition make_room :: "state_manager \<Rightarrow> compact_error + state_manager" where
  "make_room m =
     (if int (length (cm_partitions m)) \<ge> cm_max_partitions m
      then (case cm_lru m of
              [] \<Rightarrow> Inl PopFromEmpty
            | k # rest \<Rightarrow>
                (if k \<in> fst ` set (cm_partitions m)
                 then Inr (m\<lparr>cm_partitions := AList.delete k (cm_partitions m), cm_lru := rest\<rparr>)
                 else Inl (LruKeyMissing k)))
      else Inr m)"

definition touch_partition :: "string \<Rightarrow> state_manager \<Rightarrow> compact_error + state_manager" where
  "touch_partition pid m =
     (if pid \<notin> fst ` set (cm_partitions m)
      then rbind (make_room m)
             (\<lambda>m1. Inr (m1\<lparr>cm_partitions := AList.update pid (new_partition pid (cm_rule_id m1)) (cm_partitions m1),
                            cm_lru := cm_lru m1 @ [pid]\<rparr>))
      else if pid \<in> set (cm_lru m) then Inr (m\<lparr>cm_lru := remove1 pid (cm_lru m) @ [pid]\<rparr>)
      else Inl (LruNotListed pid))"

definition manager_add_event ::
  "int \<Rightarrow> string \<Rightarrow> string \<Rightarrow> rat \<Rightarrow> string option \<Rightarrow> state_manager \<Rightarrow> compact_error + state_manager" where
  "manager_add_event clock pid outcome latency_ms error_type m =
     rbind (touch_partition pid m)
       (\<lambda>m1. case map_of (cm_partitions m1) pid of
          None \<Rightarrow> Inl (LruKeyMissing pid)
        | Some p \<Rightarrow>
            rbind (partition_add_event clock outcome latency_ms error_type (cm_window_size_ms m1) p)
              (\<lambda>p'. Inr (m1\<lparr>cm_partitions := AList.update pid p' (cm_partitions m1)\<rparr>)))"

definition get_partition_stats :: "string \<Rightarrow> state_manager \<Rightarrow> partition_stats option option" where
  "get_partition_stats pid m = map_option get_stats (map_of (cm_partitions m) pid)"

definition estimate_memory :: "state_manager \<Rightarrow> int" where
  "estimate_memory m = sum_list (map (\<lambda>(k, p). int (length (ps_windows p))) (cm_partitions m)) * 500"

record rule_stats =
  rs_rule_id :: string
  rs_partition_count :: int
  rs_total_events :: int
  rs_success_rate :: rat
  rs_failure_rate :: rat
  rs_anomaly_rate :: rat
  rs_memory_estimate_bytes :: int

definition manager_sum :: "(partition_state \<Rightarrow> int) \<Rightarrow> state_manager \<Rightarrow> int" where
  "manager_sum f m = sum_list (map (f \<circ> snd) (cm_partitions m))"

definition get_rule_stats :: "state_manager \<Rightarrow> rule_stats option" where
  "get_rule_stats m =
     (if cm_partitions m = [] then None
      else let total = manager_sum ps_total_events_ever m
           in Some \<lparr>rs_rule_id = cm_rule_id m, rs_partition_count = int (length (cm_partitions m)),
                 rs_total_events = total,
                 rs_success_rate = ratio_or_zero (of_int (manager_sum (window_sum wa_success_count) m)) total,
                 rs_failure_rate = ratio_or_zero (of_int (manager_sum (window_sum wa_failure_count) m)) total,
                 rs_anomaly_rate = ratio_or_zero (of_int (manager_sum (window_sum wa_anomaly_count) m)) total,
                 rs_memory_estimate_bytes = estimate_memory m\<rparr>)"

definition memory_pressure :: "state_manager \<Rightarrow> rat option" where
  "memory_pressure m =
     (if cm_max_partitions m = 0 then None
      else Some (min 1 (of_int (int (length (cm_partitions m))) / of_int (cm_max_partitions m))))"

section \<open>Invariants\<close>

definition window_ok :: "window_aggregate \<Rightarrow> bool" where
  "window_ok w \<longleftrightarrow>
     length (wa_top_errors w) \<le> 5 \<and> 0 \<le> wa_success_count w \<and> 0 \<le> wa_failure_count w \<and> 0 \<le> wa_anomaly_count w
     \<and> wa_success_count w + wa_failure_count w + wa_anomaly_count w \<le> wa_event_count w"

definition partition_ok :: "partition_state \<Rightarrow> bool" where
  "partition_ok p \<longleftrightarrow>
     ps_max_windows p = 10 \<and> distinct (map fst (ps_windows p)) \<and> length (ps_windows p) \<le> 10
     \<and> (\<forall>(k, w) \<in> set (ps_windows p). window_ok w) \<and> window_sum wa_event_count p \<le> ps_total_events_ever p"

definition manager_ok :: "state_manager \<Rightarrow> bool" where
  "manager_ok m \<longleftrightarrow>
     distinct (map fst (cm_partitions m)) \<and> distinct (cm_lru m) \<and> set (cm_lru m) = fst ` set (cm_partitions m)
     \<and> int (length (cm_partitions m)) \<le> cm_max_partitions m
     \<and> (\<forall>(k, p) \<in> set (cm_partitions m). partition_ok p)"

lemma length_dict_incr: "length (dict_incr k d) = (if k \<in> fst ` set d then length d else Suc (length d))"
  by (simp add: dict_incr_def length_update)

lemma count_error_bounded: "length d \<le> 5 \<Longrightarrow> length (count_error e d) \<le> 5"
  by (auto simp: count_error_def length_dict_incr split: option.splits)

lemma window_add_event_ok:
  assumes "window_ok w"
  shows "window_ok (window_add_event clock outcome lat err now w)"
    and "wa_event_count (window_add_event clock outcome lat err now w) = wa_event_count w + 1"
  using assms count_error_bounded [of "wa_top_errors w" err]
  by (auto simp: window_ok_def window_add_event_def Let_def)

lemma new_window_ok: "window_ok (new_window a b)" "wa_event_count (new_window a b) = 0"
  by (simp_all add: window_ok_def new_window_def)

lemma set_delete: "set (AList.delete k d) = {x \<in> set d. fst x \<noteq> k}"
  by (auto simp: AList.delete_eq)

lemma sum_list_delete_le:
  fixes f :: "'a \<times> 'b \<Rightarrow> int"
  assumes "\<forall>x \<in> set d. 0 \<le> f x"
  shows "sum_list (map f (AList.delete k d)) \<le> sum_list (map f d)"
  using assms by (induction d) (auto simp: AList.delete_eq)

lemma set_update_subset: "set (AList.update k v d) \<subseteq> insert (k, v) (set d)"
  by (induction d) auto

lemma sum_list_update_key:
  fixes g :: "'b \<Rightarrow> int"
  assumes "distinct (map fst d)" and "k \<in> fst ` set d" and "\<And>v. (k, v) \<in> set d \<Longrightarrow> g (h v) = g v + 1"
  shows "sum_list (map (g \<circ> snd) (map (\<lambda>(k', v). (k', if k' = k then h v else v)) d)) = sum_list (map (g \<circ> snd) d) + 1"
  using assms
proof (induction d)
  case (Cons x d)
  obtain k' v where x: "x = (k', v)" by (cases x)
  show ?case
  proof (cases "k' = k")
    case True
    then have "k \<notin> fst ` set d" using Cons.prems(1) x by auto
    then have "map (\<lambda>(k', v). (k', if k' = k then h v else v)) d = d"
      by (intro map_idI) (auto simp: rev_image_eqI)
    then show ?thesis using True x Cons.prems(3) by simp
  next
    case False
    then have "k \<in> fst ` set d" using Cons.prems(2) x by auto
    then show ?thesis using Cons.IH Cons.prems x False by simp
  qed
qed simp

lemma window_sum_nonneg: "partition_ok p \<Longrightarrow> \<forall>x \<in> set (ps_windows p). 0 \<le> (wa_event_count \<circ> snd) x"
  by (fastforce simp: partition_ok_def window_ok_def)

lemma open_window_ok:
  assumes ok: "partition_ok p"
  shows "\<exists>p'. open_window wsize key p = Inr p' \<and> partition_ok p' \<and> key \<in> fst ` set (ps_windows p')
    \<and> window_sum wa_event_count p' \<le> window_sum wa_event_count p \<and> ps_total_events_ever p' = ps_total_events_ever p"
proof (cases "key \<in> fst ` set (ps_windows p)")
  case True
  with ok show ?thesis by (simp add: open_window_def)
next
  case False
  define ws where "ws = (if int (length (ps_windows p)) \<ge> ps_max_windows p
    then AList.delete (Min (fst ` set (ps_windows p))) (ps_windows p) else ps_windows p)"
  let ?w = "new_window (key * wsize) (key * wsize + wsize)"
  let ?p = "p\<lparr>ps_windows := ws @ [(key, ?w)], ps_current_window_start_ms := key * wsize\<rparr>"
  have sub: "set ws \<subseteq> set (ps_windows p)" by (auto simp: ws_def set_delete)
  then have fresh: "key \<notin> fst ` set ws" using False by auto
  have "length ws < 10"
  proof (cases "int (length (ps_windows p)) \<ge> ps_max_windows p")
    case True
    with ok have ne: "ps_windows p \<noteq> []" by (auto simp: partition_ok_def)
    have "Min (fst ` set (ps_windows p)) \<in> fst ` set (ps_windows p)" using ne by (intro Min_in) auto
    then have "Suc (length ws) = length (ps_windows p)"
      using ok True by (simp add: ws_def partition_ok_def length_delete_distinct)
    with ok show ?thesis by (simp add: partition_ok_def)
  qed (use ok in \<open>simp add: ws_def partition_ok_def\<close>)
  moreover have "distinct (map fst ws)"
    using ok by (simp add: ws_def partition_ok_def distinct_delete)
  moreover have le: "sum_list (map (wa_event_count \<circ> snd) ws) \<le> window_sum wa_event_count p"
    using sum_list_delete_le [OF window_sum_nonneg [OF ok]] by (simp add: ws_def window_sum_def comp_def)
  ultimately have "partition_ok ?p" "window_sum wa_event_count ?p \<le> window_sum wa_event_count p"
    using ok sub fresh new_window_ok by (auto simp: partition_ok_def window_sum_def)
  moreover have "open_window wsize key p = Inr ?p"
    using False ok fresh by (auto simp: open_window_def ws_def partition_ok_def update_fresh Let_def)
  ultimately show ?thesis by auto
qed

lemma partition_add_event_ok:
  assumes ok: "partition_ok p" and size: "wsize \<noteq> 0"
  shows "\<exists>p'. partition_add_event clock outcome lat err wsize p = Inr p' \<and> partition_ok p'"
proof -
  define p1 where "p1 = p\<lparr>ps_first_event_ms := (if ps_first_event_ms p = 0 then clock else ps_first_event_ms p),
    ps_last_event_ms := clock, ps_total_events_ever := ps_total_events_ever p + 1\<rparr>"
  have ok1: "partition_ok p1" and tot: "window_sum wa_event_count p1 + 1 \<le> ps_total_events_ever p1"
    using ok by (auto simp: p1_def partition_ok_def window_sum_def)
  let ?k = "clock div wsize"
  obtain p2 where p2: "open_window wsize ?k p1 = Inr p2" "partition_ok p2" "?k \<in> fst ` set (ps_windows p2)"
    "window_sum wa_event_count p2 \<le> window_sum wa_event_count p1" "ps_total_events_ever p2 = ps_total_events_ever p1"
    using open_window_ok [OF ok1] by blast
  let ?h = "window_add_event clock outcome lat err (Some clock)"
  define ws where "ws = map (\<lambda>(k, w). (k, if k = ?k then ?h w else w)) (ps_windows p2)"
  have keys: "map fst ws = map fst (ps_windows p2)" by (simp add: ws_def comp_def case_prod_beta)
  have len: "length ws = length (ps_windows p2)" by (simp add: ws_def)
  have each: "\<forall>(k, w) \<in> set ws. window_ok w"
    using p2(2) window_add_event_ok(1) by (auto simp: ws_def partition_ok_def)
  have inc: "wa_event_count (?h v) = wa_event_count v + 1" if "(?k, v) \<in> set (ps_windows p2)" for v
    using that p2(2) by (intro window_add_event_ok(2)) (auto simp: partition_ok_def)
  have "sum_list (map (wa_event_count \<circ> snd) ws) = sum_list (map (wa_event_count \<circ> snd) (ps_windows p2)) + 1"
    unfolding ws_def using p2(2,3) inc by (intro sum_list_update_key) (auto simp: partition_ok_def)
  then have "partition_ok (p2\<lparr>ps_windows := ws\<rparr>)"
    using p2(2,4,5) tot keys len each by (simp add: partition_ok_def window_sum_def)
  moreover have "partition_add_event clock outcome lat err wsize p = Inr (p2\<lparr>ps_windows := ws\<rparr>)"
    using size p2(1) by (simp add: partition_add_event_def p1_def [symmetric] ws_def Let_def)
  ultimately show ?thesis by blast
qed

lemma new_partition_ok: "partition_ok (new_partition pid rule)"
  by (simp add: partition_ok_def new_partition_def window_sum_def)

section \<open>Least recently used\<close>

definition lru_touch :: "nat \<Rightarrow> string list \<Rightarrow> string \<Rightarrow> string list" where
  "lru_touch n l x = (if x \<in> set l then remove1 x l @ [x] else (if length l \<ge> n then tl l else l) @ [x])"

definition most_recent :: "nat \<Rightarrow> string list \<Rightarrow> string list" where
  "most_recent n ids = drop (length (remdups ids) - n) (remdups ids)"

lemma remdups_snoc: "remdups (xs @ [x]) = filter (\<lambda>y. x \<noteq> y) (remdups xs) @ [x]"
  by (induction xs) auto

lemma length_filter_neq:
  "distinct xs \<Longrightarrow> x \<in> set xs \<Longrightarrow> Suc (length (filter (\<lambda>y. x \<noteq> y) xs)) = length xs"
proof (induction xs)
  case (Cons y ys)
  show ?case
  proof (cases "x = y")
    case True
    with Cons.prems have "filter (\<lambda>z. x \<noteq> z) ys = ys" by (auto intro: filter_True)
    with True show ?thesis by simp
  qed (use Cons in auto)
qed simp

lemma filter_neq_absent: "x \<notin> set xs \<Longrightarrow> filter (\<lambda>y. x \<noteq> y) xs = xs"
  by (auto intro: filter_True)

lemma lru_touch_parts:
  assumes "0 < n" and "distinct (A @ l)" and "length l = n \<or> A = [] \<and> length l < n"
  shows "lru_touch n l x =
    (let D = filter (\<lambda>y. x \<noteq> y) (A @ l) @ [x] in drop (length D - n) D)"
proof -
  consider "x \<in> set l" | "x \<notin> set l" "x \<in> set A" | "x \<notin> set (A @ l)" by auto
  then show ?thesis
  proof cases
    case 1
    then have f: "filter (\<lambda>y. x \<noteq> y) A = A" using assms(2) by (intro filter_neq_absent) auto
    have r: "remove1 x l = filter (\<lambda>y. x \<noteq> y) l"
      using assms(2) by (simp add: distinct_remove1_removeAll removeAll_filter_not_eq)
    have "Suc (length (filter (\<lambda>y. x \<noteq> y) l)) = length l" using 1 assms(2) by (intro length_filter_neq) auto
    with 1 f r assms(3) show ?thesis by (auto simp: lru_touch_def Let_def)
  next
    case 2
    then have f: "filter (\<lambda>y. x \<noteq> y) l = l" by (intro filter_neq_absent)
    have len: "Suc (length (filter (\<lambda>y. x \<noteq> y) A)) = length A" using 2 assms(2) by (intro length_filter_neq) auto
    have ln: "length l = n" using 2 assms(3) by auto
    then obtain y ys where l: "l = y # ys" using assms(1) by (cases l) auto
    have "length A - length (filter (\<lambda>y. x \<noteq> y) A) = 1" using len by simp
    with 2 f len ln l show ?thesis by (simp add: lru_touch_def Let_def)
  next
    case 3
    then have f: "filter (\<lambda>y. x \<noteq> y) (A @ l) = A @ l" by (intro filter_neq_absent)
    show ?thesis
    proof (cases "length l = n")
      case True
      then obtain y ys where "l = y # ys" using assms(1) by (cases l) auto
      with 3 f True show ?thesis by (simp add: lru_touch_def Let_def)
    next
      case False
      with 3 f assms(3) show ?thesis by (simp add: lru_touch_def Let_def)
    qed
  qed
qed

lemma lru_touch_most_recent:
  assumes "0 < n"
  shows "lru_touch n (most_recent n ids) x = most_recent n (ids @ [x])"
proof -
  define D where "D = remdups ids"
  define k where "k = length D - n"
  have D: "D = take k D @ drop k D" "distinct (take k D @ drop k D)" by (simp_all add: D_def)
  have "length (drop k D) = n \<or> take k D = [] \<and> length (drop k D) < n"
    by (cases "n \<le> length D") (auto simp: k_def)
  from lru_touch_parts [OF assms D(2) this, of x] show ?thesis
    by (simp add: most_recent_def remdups_snoc D_def [symmetric] k_def [symmetric] Let_def)
qed

section \<open>The manager keeps its invariant\<close>

lemma manager_lru_length: "manager_ok m \<Longrightarrow> length (cm_lru m) = length (cm_partitions m)"
  unfolding manager_ok_def by (metis distinct_card length_map set_map)

lemma make_room_ok:
  assumes ok: "manager_ok m" and pos: "0 < cm_max_partitions m"
  shows "\<exists>m'. make_room m = Inr m' \<and> manager_ok m' \<and> int (length (cm_partitions m')) < cm_max_partitions m'
    \<and> cm_lru m' = (if int (length (cm_lru m)) \<ge> cm_max_partitions m then tl (cm_lru m) else cm_lru m)
    \<and> fst ` set (cm_partitions m') \<subseteq> fst ` set (cm_partitions m)
    \<and> cm_max_partitions m' = cm_max_partitions m \<and> cm_window_size_ms m' = cm_window_size_ms m"
proof (cases "int (length (cm_partitions m)) \<ge> cm_max_partitions m")
  case True
  then have "cm_lru m \<noteq> []" using pos manager_lru_length [OF ok] by auto
  then obtain k rest where l: "cm_lru m = k # rest" by (cases "cm_lru m") auto
  have k: "k \<in> fst ` set (cm_partitions m)" "k \<notin> set rest" "distinct rest"
    using ok l by (auto simp: manager_ok_def)
  let ?ps = "AList.delete k (cm_partitions m)"
  have len: "Suc (length ?ps) = length (cm_partitions m)"
    using ok k(1) by (simp add: manager_ok_def length_delete_distinct)
  have keys: "fst ` set ?ps = set rest"
    using ok l k(2) by (auto simp: manager_ok_def set_delete)
  have "manager_ok (m\<lparr>cm_partitions := ?ps, cm_lru := rest\<rparr>)"
    using ok k keys len by (auto simp: manager_ok_def set_delete distinct_delete)
  with True l k len ok manager_lru_length [OF ok] show ?thesis
    by (auto simp: make_room_def set_delete manager_ok_def)
next
  case False
  with ok manager_lru_length [OF ok] show ?thesis by (simp add: make_room_def)
qed

lemma touch_partition_ok:
  assumes ok: "manager_ok m" and pos: "0 < cm_max_partitions m"
  shows "\<exists>m'. touch_partition pid m = Inr m' \<and> manager_ok m' \<and> pid \<in> fst ` set (cm_partitions m')
    \<and> cm_lru m' = lru_touch (nat (cm_max_partitions m)) (cm_lru m) pid
    \<and> cm_max_partitions m' = cm_max_partitions m \<and> cm_window_size_ms m' = cm_window_size_ms m"
proof (cases "pid \<in> fst ` set (cm_partitions m)")
  case True
  with ok show ?thesis by (auto simp: touch_partition_def manager_ok_def lru_touch_def)
next
  case False
  obtain m1 where m1: "make_room m = Inr m1" "manager_ok m1" "int (length (cm_partitions m1)) < cm_max_partitions m1"
    "cm_lru m1 = (if int (length (cm_lru m)) \<ge> cm_max_partitions m then tl (cm_lru m) else cm_lru m)"
    "fst ` set (cm_partitions m1) \<subseteq> fst ` set (cm_partitions m)"
    "cm_max_partitions m1 = cm_max_partitions m" "cm_window_size_ms m1 = cm_window_size_ms m"
    using make_room_ok [OF assms] by blast
  have fresh: "pid \<notin> fst ` set (cm_partitions m1)" using False m1(5) by blast
  let ?m = "m1\<lparr>cm_partitions := cm_partitions m1 @ [(pid, new_partition pid (cm_rule_id m1))], cm_lru := cm_lru m1 @ [pid]\<rparr>"
  have "manager_ok ?m"
    using m1(2,3) fresh new_partition_ok by (auto simp: manager_ok_def)
  moreover have "touch_partition pid m = Inr ?m"
    using False m1(1) fresh by (simp add: touch_partition_def update_fresh)
  moreover have "cm_lru ?m = lru_touch (nat (cm_max_partitions m)) (cm_lru m) pid"
    using False ok m1(4) pos by (auto simp: manager_ok_def lru_touch_def)
  ultimately show ?thesis using m1(6,7) by auto
qed

lemma manager_add_event_ok:
  assumes ok: "manager_ok m" and pos: "0 < cm_max_partitions m" and size: "cm_window_size_ms m \<noteq> 0"
  shows "\<exists>m'. manager_add_event clock pid outcome lat err m = Inr m' \<and> manager_ok m'
    \<and> cm_lru m' = lru_touch (nat (cm_max_partitions m)) (cm_lru m) pid
    \<and> cm_max_partitions m' = cm_max_partitions m \<and> cm_window_size_ms m' = cm_window_size_ms m"
proof -
  obtain m1 where m1: "touch_partition pid m = Inr m1" "manager_ok m1" "pid \<in> fst ` set (cm_partitions m1)"
    "cm_lru m1 = lru_touch (nat (cm_max_partitions m)) (cm_lru m) pid"
    "cm_max_partitions m1 = cm_max_partitions m" "cm_window_size_ms m1 = cm_window_size_ms m"
    using touch_partition_ok [OF ok pos] by blast
  obtain p where p: "map_of (cm_partitions m1) pid = Some p" using m1(3) by (metis map_of_eq_None_iff option.exhaust)
  then have "partition_ok p" using m1(2) by (auto simp: manager_ok_def dest: map_of_SomeD)
  then obtain p' where p': "partition_add_event clock outcome lat err (cm_window_size_ms m1) p = Inr p'" "partition_ok p'"
    using partition_add_event_ok size m1(6) by metis
  let ?ps = "AList.update pid p' (cm_partitions m1)"
  have "fst ` set ?ps = fst ` set (cm_partitions m1)" "length ?ps = length (cm_partitions m1)"
    "set ?ps \<subseteq> insert (pid, p') (set (cm_partitions m1))"
    using m1(3) set_update_subset [of pid p' "cm_partitions m1"] by (auto simp: dom_update length_update)
  note ps = this
  have "\<forall>(k, q) \<in> set ?ps. partition_ok q" using ps(3) m1(2) p'(2) unfolding manager_ok_def by blast
  with ps(1,2) have "manager_ok (m1\<lparr>cm_partitions := ?ps\<rparr>)"
    using m1(2) by (simp add: manager_ok_def)
  moreover have "manager_add_event clock pid outcome lat err m = Inr (m1\<lparr>cm_partitions := ?ps\<rparr>)"
    using m1(1) p p'(1) by (simp add: manager_add_event_def)
  ultimately show ?thesis using m1(4-6) by auto
qed

section \<open>Histories\<close>

record stream_event =
  se_clock :: int
  se_partition :: string
  se_outcome :: string
  se_latency :: rat
  se_error :: "string option"

fun run_manager :: "state_manager \<Rightarrow> stream_event list \<Rightarrow> compact_error + state_manager" where
  "run_manager m [] = Inr m"
| "run_manager m (e # es) =
     rbind (manager_add_event (se_clock e) (se_partition e) (se_outcome e) (se_latency e) (se_error e) m)
       (\<lambda>m'. run_manager m' es)"

lemma run_manager_ok:
  assumes "manager_ok m" and "0 < cm_max_partitions m" and "cm_window_size_ms m \<noteq> 0"
    and "cm_lru m = most_recent (nat (cm_max_partitions m)) ids"
  shows "\<exists>m'. run_manager m es = Inr m' \<and> manager_ok m'
    \<and> cm_lru m' = most_recent (nat (cm_max_partitions m)) (ids @ map se_partition es)
    \<and> cm_max_partitions m' = cm_max_partitions m"
  using assms
proof (induction es arbitrary: m ids)
  case (Cons e es)
  obtain m1 where m1: "manager_add_event (se_clock e) (se_partition e) (se_outcome e) (se_latency e) (se_error e) m = Inr m1"
    "manager_ok m1" "cm_lru m1 = lru_touch (nat (cm_max_partitions m)) (cm_lru m) (se_partition e)"
    "cm_max_partitions m1 = cm_max_partitions m" "cm_window_size_ms m1 = cm_window_size_ms m"
    using manager_add_event_ok [OF Cons.prems(1-3)] by blast
  have "cm_lru m1 = most_recent (nat (cm_max_partitions m1)) (ids @ [se_partition e])"
    using m1(3,4) Cons.prems(2,4) by (simp add: lru_touch_most_recent)
  from Cons.IH [OF m1(2) _ _ this] Cons.prems(2,3) m1 show ?case by simp
qed simp

lemma make_manager_ok: "0 \<le> n \<Longrightarrow> manager_ok (make_manager rule n w)"
  by (simp add: manager_ok_def make_manager_def)

lemma sum_list_bound:
  fixes f :: "'a \<Rightarrow> int"
  assumes "\<forall>x \<in> set xs. f x \<le> c"
  shows "sum_list (map f xs) \<le> int (length xs) * c"
  using assms by (induction xs) (auto simp: algebra_simps)

section \<open>Properties\<close>

text \<open>
  C38. Memory is bounded whatever the stream: for a positive capacity and a non-zero window size no
  sequence of events makes the manager raise, and afterwards it holds at most the configured number
  of partitions, each with at most ten windows, each window with at most five error labels; the
  memory estimate is at most 5000 bytes per configured partition.
\<close>

theorem compact_state_bounded:
  assumes "0 < n" and "w \<noteq> 0"
  shows "\<exists>m. run_manager (make_manager rule n w) es = Inr m
    \<and> int (length (cm_partitions m)) \<le> n
    \<and> (\<forall>(k, p) \<in> set (cm_partitions m). length (ps_windows p) \<le> 10
         \<and> (\<forall>(k', wa) \<in> set (ps_windows p). length (wa_top_errors wa) \<le> 5))
    \<and> estimate_memory m \<le> 5000 * n"
proof -
  have init: "manager_ok (make_manager rule n w)" "cm_max_partitions (make_manager rule n w) = n"
    "cm_window_size_ms (make_manager rule n w) = w" "cm_lru (make_manager rule n w) = most_recent (nat n) []"
    using assms make_manager_ok [of n rule w] by (simp_all add: make_manager_def most_recent_def)
  obtain m where m: "run_manager (make_manager rule n w) es = Inr m" "manager_ok m" "cm_max_partitions m = n"
    using run_manager_ok [of "make_manager rule n w" "[]" es] init assms by auto
  have bounds: "\<forall>(k, p) \<in> set (cm_partitions m). length (ps_windows p) \<le> 10
      \<and> (\<forall>(k', wa) \<in> set (ps_windows p). length (wa_top_errors wa) \<le> 5)"
    using m(2) by (fastforce simp: manager_ok_def partition_ok_def window_ok_def)
  have len: "int (length (cm_partitions m)) \<le> n" using m(2,3) by (simp add: manager_ok_def)
  have "\<forall>x \<in> set (cm_partitions m). (case x of (k, p) \<Rightarrow> int (length (ps_windows p))) \<le> 10"
    using bounds by fastforce
  from sum_list_bound [OF this] len have "estimate_memory m \<le> 5000 * n"
    by (simp add: estimate_memory_def)
  with m(1) bounds len show ?thesis by blast
qed

text \<open>
  Eviction is exactly least-recently-used: after any sequence of events the manager holds the
  partitions of the last \<open>n\<close> distinct ids, and its list orders them by their last use.
\<close>

theorem manager_is_lru:
  assumes "0 < n" and "w \<noteq> 0"
  shows "\<exists>m. run_manager (make_manager rule n w) es = Inr m
    \<and> cm_lru m = most_recent (nat n) (map se_partition es)
    \<and> fst ` set (cm_partitions m) = set (most_recent (nat n) (map se_partition es))"
proof -
  have init: "manager_ok (make_manager rule n w)" "cm_max_partitions (make_manager rule n w) = n"
    "cm_window_size_ms (make_manager rule n w) = w" "cm_lru (make_manager rule n w) = most_recent (nat n) []"
    using assms make_manager_ok [of n rule w] by (simp_all add: make_manager_def most_recent_def)
  obtain m where m: "run_manager (make_manager rule n w) es = Inr m" "manager_ok m"
    "cm_lru m = most_recent (nat n) (map se_partition es)"
    using run_manager_ok [of "make_manager rule n w" "[]" es] init assms by auto
  then show ?thesis by (auto simp: manager_ok_def)
qed

text \<open>
  Within a partition the rates reported by \<open>get_stats\<close> are proportions: each lies between zero and
  one, together they do not exceed one, and the windows never hold more events than were ever
  added.
\<close>

theorem partition_rates_are_proportions:
  assumes "partition_ok p" and "get_stats p = Some st"
  shows "0 \<le> st_success_rate st \<and> 0 \<le> st_failure_rate st \<and> 0 \<le> st_anomaly_rate st
    \<and> st_success_rate st + st_failure_rate st + st_anomaly_rate st \<le> 1
    \<and> st_total_events_in_windows st \<le> st_total_events_ever st"
proof -
  let ?s = "window_sum wa_success_count p" and ?f = "window_sum wa_failure_count p"
    and ?a = "window_sum wa_anomaly_count p" and ?t = "window_sum wa_event_count p"
  have "\<forall>(k, w) \<in> set ws. window_ok w \<Longrightarrow>
      0 \<le> sum_list (map (wa_success_count \<circ> snd) ws) \<and> 0 \<le> sum_list (map (wa_failure_count \<circ> snd) ws)
      \<and> 0 \<le> sum_list (map (wa_anomaly_count \<circ> snd) ws)
      \<and> sum_list (map (wa_success_count \<circ> snd) ws) + sum_list (map (wa_failure_count \<circ> snd) ws)
          + sum_list (map (wa_anomaly_count \<circ> snd) ws) \<le> sum_list (map (wa_event_count \<circ> snd) ws)" for ws
    by (induction ws) (auto simp: window_ok_def)
  then have b: "0 \<le> ?s" "0 \<le> ?f" "0 \<le> ?a" "?s + ?f + ?a \<le> ?t"
    using assms(1) by (auto simp: partition_ok_def window_sum_def)
  have st: "st_success_rate st = ratio_or_zero (of_int ?s) ?t" "st_failure_rate st = ratio_or_zero (of_int ?f) ?t"
    "st_anomaly_rate st = ratio_or_zero (of_int ?a) ?t" "st_total_events_in_windows st = ?t"
    "st_total_events_ever st = ps_total_events_ever p"
    using assms(2) by (auto simp: get_stats_def Let_def split: if_splits)
  have "(of_int (?s + ?f + ?a) :: rat) \<le> of_int ?t" using b(4) by (simp only: of_int_le_iff)
  then have "(of_int ?s + of_int ?f + of_int ?a :: rat) / of_int ?t \<le> 1" if "0 < ?t"
    using that by (simp add: divide_le_eq_1)
  with b st assms(1) show ?thesis
    by (auto simp: ratio_or_zero_def partition_ok_def add_divide_distrib)
qed

section \<open>Witnesses\<close>

definition demo_stream :: "stream_event list" where
  "demo_stream = map (\<lambda>k. \<lparr>se_clock = 60000 * k + 1, se_partition = (if odd k then ''u1'' else ''u2''),
     se_outcome = ''success'', se_latency = 5, se_error = None\<rparr>) [1, 2, 3]"

theorem compact_state_bounded_witness:
  "\<exists>m. run_manager (make_manager ''r'' 1 60000) demo_stream = Inr m \<and> estimate_memory m \<le> 5000"
  using compact_state_bounded [of 1 60000 "''r''" demo_stream] by auto

theorem manager_is_lru_witness:
  "\<exists>m. run_manager (make_manager ''r'' 1 60000) demo_stream = Inr m \<and> cm_lru m = [''u1'']"
  using manager_is_lru [of 1 60000 "''r''" demo_stream] by (auto simp: demo_stream_def most_recent_def)

theorem partition_rates_are_proportions_witness:
  "\<exists>p st. partition_add_event 60001 ''success'' 5 None 60000 (new_partition ''u1'' ''r'') = Inr p
     \<and> get_stats p = Some st \<and> st_success_rate st + st_failure_rate st + st_anomaly_rate st \<le> 1"
proof -
  obtain p where p: "partition_add_event 60001 ''success'' 5 None 60000 (new_partition ''u1'' ''r'') = Inr p" "partition_ok p"
    using partition_add_event_ok [OF new_partition_ok, of 60000] by fastforce
  have "ps_windows p \<noteq> []" using p(1) by (auto simp: partition_add_event_def open_window_def new_partition_def Let_def)
  then obtain st where st: "get_stats p = Some st" by (simp add: get_stats_def Let_def)
  from partition_rates_are_proportions [OF p(2) st] p(1) st show ?thesis by blast
qed

text \<open>
  The rule-level rates divide the successes still held in windows by the events ever added, so they
  drop below the true rate once windows are discarded: eleven successes in eleven windows give
  \<open>10 / 11\<close>.
\<close>

lemma rule_success_rate_undercounts:
  "\<exists>m st. run_manager (make_manager ''r'' 1 60000)
      (map (\<lambda>k. \<lparr>se_clock = 60000 * k + 1, se_partition = ''u1'', se_outcome = ''success'', se_latency = 5, se_error = None\<rparr>)
        [1, 2, 3, 4, 5, 6, 7, 8, 9, 10, 11]) = Inr m
     \<and> get_rule_stats m = Some st \<and> rs_success_rate st = 10 / 11"
  by (simp add: make_manager_def manager_add_event_def touch_partition_def make_room_def partition_add_event_def
      open_window_def new_partition_def new_window_def window_add_event_def effective_now_def count_error_def
      get_rule_stats_def manager_sum_def window_sum_def ratio_or_zero_def Let_def)

end
