(* ===== verification/Eviction.thy ===== *)
theory Eviction
  imports Prelude Complex_Main
begin

text \<open>
  Eviction policy and cardinality guard of
  \<open>src/hfa-semantic/src/hfa_semantic/runtime/eviction.py\<close>. Ratios and times are exact rationals; the
  comparisons with the literals 0.95, 0.20, 0.10 and 0.01 agree with double arithmetic for
  capacities below \<open>2 ^ 50\<close>. \<open>time.time() * 1000\<close> is an argument.

  The lemmas: batch sizes grow with the pressure and stay within the capacity; the guard's two
  dictionaries always have the same keys; with a clock that does not go backwards the guard counts
  exactly the partitions whose last allocation has not expired; allocating only when
  \<open>is_safe_to_allocate\<close> says so keeps the count within the limit.
\<close>

section \<open>Policy\<close>

datatype eviction_strategy = LRU | FIFO | TTL | HYBRID

record eviction_policy =
  ep_strategy :: eviction_strategy
  ep_max_partitions :: int
  ep_max_partitions_per_rule :: int
  ep_ttl_ms :: int
  ep_watermark_window_ms :: int
  ep_partition_pressure_threshold :: rat
  ep_current_partitions :: int

definition update_partition_count :: "int \<Rightarrow> eviction_policy \<Rightarrow> eviction_policy" where
  "update_partition_count count P = P\<lparr>ep_current_partitions := max 0 count\<rparr>"

definition partition_pressure :: "eviction_policy \<Rightarrow> rat" where
  "partition_pressure P =
     (let cap = ep_max_partitions_per_rule P
      in if cap = 0 then 0 else min 1 (of_int (ep_current_partitions P) / of_int cap))"

definition under_pressure :: "eviction_policy \<Rightarrow> bool" where
  "under_pressure P = (partition_pressure P \<ge> ep_partition_pressure_threshold P)"

definition aggressive_eviction_needed :: "eviction_policy \<Rightarrow> bool" where
  "aggressive_eviction_needed P = (partition_pressure P \<ge> 95 / 100)"

definition get_eviction_batch_size :: "eviction_policy \<Rightarrow> int" where
  "get_eviction_batch_size P =
     (let p = partition_pressure P; cap = of_int (ep_max_partitions_per_rule P) :: rat
      in if p \<ge> 95 / 100 then max 1 \<lfloor>cap * (20 / 100)\<rfloor>
         else if p \<ge> ep_partition_pressure_threshold P then max 1 \<lfloor>cap * (10 / 100)\<rfloor>
         else max 1 \<lfloor>cap * (1 / 100)\<rfloor>)"

section \<open>Metrics\<close>

record eviction_metrics =
  em_total_evictions :: int
  em_total_allocations :: int
  em_window_start_ms :: rat
  em_window_evictions :: int

definition record_eviction :: "eviction_metrics \<Rightarrow> eviction_metrics" where
  "record_eviction M = M\<lparr>em_total_evictions := em_total_evictions M + 1,
     em_window_evictions := em_window_evictions M + 1\<rparr>"

definition record_allocation :: "eviction_metrics \<Rightarrow> eviction_metrics" where
  "record_allocation M = M\<lparr>em_total_allocations := em_total_allocations M + 1\<rparr>"

definition eviction_rate :: "rat \<Rightarrow> eviction_metrics \<Rightarrow> rat" where
  "eviction_rate now_ms M =
     (let elapsed_sec = (now_ms - em_window_start_ms M) / 1000
      in if elapsed_sec < 1 then 0 else of_int (em_total_evictions M) / elapsed_sec)"

definition reset_window :: "rat \<Rightarrow> eviction_metrics \<Rightarrow> eviction_metrics" where
  "reset_window now_ms M = M\<lparr>em_window_start_ms := now_ms, em_window_evictions := 0\<rparr>"

section \<open>Cardinality guard\<close>

type_synonym time_table = "(string \<times> (string \<times> rat) list) list"

record cardinality_guard =
  cg_max_partitions :: int
  cg_default_ttl_ms :: int
  cg_partitions :: time_table
  cg_expiry :: time_table

definition rule_table :: "time_table \<Rightarrow> string \<Rightarrow> (string \<times> rat) list" where
  "rule_table d r = (case map_of d r of None \<Rightarrow> [] | Some t \<Rightarrow> t)"

text \<open>\<open>d.get(rule, {}).pop(key, None)\<close>: without the rule a throw-away dictionary is changed.\<close>

definition pop_key :: "string \<Rightarrow> string \<Rightarrow> time_table \<Rightarrow> time_table" where
  "pop_key r k d = (case map_of d r of None \<Rightarrow> d | Some t \<Rightarrow> AList.update r (AList.delete k t) d)"

definition make_guard :: "int \<Rightarrow> int \<Rightarrow> cardinality_guard" where
  "make_guard max_partitions default_ttl_ms =
     \<lparr>cg_max_partitions = max_partitions, cg_default_ttl_ms = default_ttl_ms, cg_partitions = [], cg_expiry = []\<rparr>"

definition evict_expired :: "rat \<Rightarrow> string \<Rightarrow> cardinality_guard \<Rightarrow> cardinality_guard \<times> nat" where
  "evict_expired now_ms r G =
     (let expired = map fst (filter (\<lambda>(k, exp). exp \<le> now_ms) (rule_table (cg_expiry G) r))
      in if rule_table (cg_expiry G) r = [] then (G, 0)
         else (fold (\<lambda>k G. G\<lparr>cg_partitions := pop_key r k (cg_partitions G), cg_expiry := pop_key r k (cg_expiry G)\<rparr>)
                 expired G, length expired))"

definition partition_count :: "rat \<Rightarrow> string \<Rightarrow> cardinality_guard \<Rightarrow> cardinality_guard \<times> nat" where
  "partition_count now_ms r G =
     (let G' = fst (evict_expired now_ms r G) in (G', length (rule_table (cg_partitions G') r)))"

definition is_safe_to_allocate :: "rat \<Rightarrow> string \<Rightarrow> cardinality_guard \<Rightarrow> cardinality_guard \<times> bool" where
  "is_safe_to_allocate now_ms r G =
     (let G' = fst (evict_expired now_ms r G)
      in (G', int (length (rule_table (cg_partitions G') r)) < cg_max_partitions G'))"

definition mark_allocation :: "rat \<Rightarrow> string \<Rightarrow> string \<Rightarrow> int option \<Rightarrow> cardinality_guard \<Rightarrow> cardinality_guard" where
  "mark_allocation now_ms r k ttl_ms G =
     (let ttl = (case ttl_ms of None \<Rightarrow> cg_default_ttl_ms G | Some t \<Rightarrow> t);
          G1 = (if r \<notin> fst ` set (cg_partitions G)
                then G\<lparr>cg_partitions := AList.update r [] (cg_partitions G), cg_expiry := AList.update r [] (cg_expiry G)\<rparr>
                else G)
      in G1\<lparr>cg_partitions := AList.update r (AList.update k now_ms (rule_table (cg_partitions G1) r)) (cg_partitions G1),
            cg_expiry := AList.update r (AList.update k (now_ms + of_int ttl) (rule_table (cg_expiry G1) r)) (cg_expiry G1)\<rparr>)"

definition mark_eviction :: "string \<Rightarrow> string \<Rightarrow> cardinality_guard \<Rightarrow> cardinality_guard" where
  "mark_eviction r k G =
     G\<lparr>cg_partitions := pop_key r k (cg_partitions G), cg_expiry := pop_key r k (cg_expiry G)\<rparr>"

fun oldest_of :: "string \<times> rat \<Rightarrow> (string \<times> rat) list \<Rightarrow> string \<times> rat" where
  "oldest_of best [] = best"
| "oldest_of best (p # ps) = oldest_of (if snd p < snd best then p else best) ps"

definition oldest_partition :: "string \<Rightarrow> cardinality_guard \<Rightarrow> string option" where
  "oldest_partition r G =
     (case rule_table (cg_partitions G) r of [] \<Rightarrow> None | p # ps \<Rightarrow> Some (fst (oldest_of p ps)))"

definition all_rule_ids :: "cardinality_guard \<Rightarrow> string list" where
  "all_rule_ids G = map fst (cg_partitions G)"

section \<open>Tables\<close>

lemma rule_table_update: "rule_table (AList.update r t d) r' = (if r' = r then t else rule_table d r')"
  by (simp add: rule_table_def map_of_update)

lemma rule_table_pop:
  "rule_table (pop_key r k d) r' = (if r' = r then AList.delete k (rule_table d r) else rule_table d r')"
  by (auto simp: rule_table_def pop_key_def map_of_update split: option.splits)

text \<open>The contents of a rule's tables as maps.\<close>

definition alloc_map :: "cardinality_guard \<Rightarrow> string \<Rightarrow> string \<rightharpoonup> rat" where
  "alloc_map G r = map_of (rule_table (cg_partitions G) r)"

definition expiry_map :: "cardinality_guard \<Rightarrow> string \<Rightarrow> string \<rightharpoonup> rat" where
  "expiry_map G r = map_of (rule_table (cg_expiry G) r)"

definition guard_ok :: "cardinality_guard \<Rightarrow> bool" where
  "guard_ok G \<longleftrightarrow>
     (\<forall>r. distinct (map fst (rule_table (cg_partitions G) r)) \<and> distinct (map fst (rule_table (cg_expiry G) r))
        \<and> dom (alloc_map G r) = dom (expiry_map G r))
     \<and> fst ` set (cg_partitions G) = fst ` set (cg_expiry G)"

definition pop_both :: "string \<Rightarrow> string \<Rightarrow> cardinality_guard \<Rightarrow> cardinality_guard" where
  "pop_both r k G = G\<lparr>cg_partitions := pop_key r k (cg_partitions G), cg_expiry := pop_key r k (cg_expiry G)\<rparr>"

lemma keys_pop_key: "fst ` set (pop_key r k d) = fst ` set d"
  by (auto simp: pop_key_def dom_update split: option.splits dest: map_of_SomeD) (force dest: map_of_SomeD)+

lemma pop_both_maps:
  "alloc_map (pop_both r k G) r' = (if r' = r then (alloc_map G r)(k := None) else alloc_map G r')"
  "expiry_map (pop_both r k G) r' = (if r' = r then (expiry_map G r)(k := None) else expiry_map G r')"
  by (simp_all add: alloc_map_def expiry_map_def pop_both_def rule_table_pop map_of_delete)

lemma pop_both_ok:
  assumes "guard_ok G"
  shows "guard_ok (pop_both r k G)"
proof -
  have "dom (alloc_map (pop_both r k G) r') = dom (expiry_map (pop_both r k G) r')" for r'
    using assms by (simp add: guard_ok_def pop_both_maps)
  with assms show ?thesis
    by (simp add: guard_ok_def pop_both_def rule_table_pop distinct_delete keys_pop_key)
qed

lemma fold_pop_both:
  "guard_ok G \<Longrightarrow> guard_ok (fold (pop_both r) ks G)
     \<and> expiry_map (fold (pop_both r) ks G) r' = (if r' = r then expiry_map G r |` (- set ks) else expiry_map G r')
     \<and> cg_max_partitions (fold (pop_both r) ks G) = cg_max_partitions G"
proof (induction ks arbitrary: G)
  case (Cons k ks)
  have "expiry_map G r |` (- insert k (set ks)) = ((expiry_map G r)(k := None)) |` (- set ks)"
    by (auto simp: restrict_map_def)
  with Cons.IH [OF pop_both_ok [OF Cons.prems]] show ?case
    by (simp add: pop_both_maps) (simp add: pop_both_def)
qed (simp add: restrict_map_def)

lemma evict_expired_ok:
  assumes "guard_ok G"
  shows "guard_ok (fst (evict_expired now r G))"
    and "expiry_map (fst (evict_expired now r G)) r' =
      (if r' = r then (\<lambda>k. case expiry_map G r k of Some e \<Rightarrow> if e \<le> now then None else Some e | None \<Rightarrow> None)
       else expiry_map G r')"
    and "cg_max_partitions (fst (evict_expired now r G)) = cg_max_partitions G"
proof -
  let ?ks = "map fst (filter (\<lambda>(k, exp). exp \<le> now) (rule_table (cg_expiry G) r))"
  have ev: "fst (evict_expired now r G) = (if rule_table (cg_expiry G) r = [] then G else fold (pop_both r) ?ks G)"
    by (simp add: evict_expired_def pop_both_def [abs_def] Let_def)
  have ks: "k \<in> set ?ks \<longleftrightarrow> (\<exists>e. expiry_map G r k = Some e \<and> e \<le> now)" for k
  proof -
    have "distinct (map fst (rule_table (cg_expiry G) r))" using assms by (simp add: guard_ok_def)
    then have "expiry_map G r k = Some e \<longleftrightarrow> (k, e) \<in> set (rule_table (cg_expiry G) r)" for e
      by (simp add: expiry_map_def)
    then show ?thesis by (simp add: image_iff)
  qed
  have "expiry_map G r |` (- set ?ks) = (\<lambda>k. case expiry_map G r k of Some e \<Rightarrow> if e \<le> now then None else Some e | None \<Rightarrow> None)"
  proof
    fix k
    show "(expiry_map G r |` (- set ?ks)) k = (case expiry_map G r k of Some e \<Rightarrow> if e \<le> now then None else Some e | None \<Rightarrow> None)"
      using ks [of k] by (cases "expiry_map G r k") (auto simp: restrict_map_def)
  qed
  moreover have "rule_table (cg_expiry G) r = [] \<Longrightarrow> expiry_map G r = Map.empty" by (simp add: expiry_map_def)
  ultimately show "guard_ok (fst (evict_expired now r G))"
    "expiry_map (fst (evict_expired now r G)) r' =
      (if r' = r then (\<lambda>k. case expiry_map G r k of Some e \<Rightarrow> if e \<le> now then None else Some e | None \<Rightarrow> None)
       else expiry_map G r')"
    "cg_max_partitions (fst (evict_expired now r G)) = cg_max_partitions G"
    using fold_pop_both [OF assms, of r ?ks r'] assms by (auto simp: ev)
qed

lemma mark_allocation_ok:
  assumes "guard_ok G"
  shows "guard_ok (mark_allocation now r k ttl G)"
    and "expiry_map (mark_allocation now r k ttl G) r' =
      (if r' = r then (expiry_map G r)(k \<mapsto> now + of_int (case ttl of None \<Rightarrow> cg_default_ttl_ms G | Some t \<Rightarrow> t))
       else expiry_map G r')"
    and "cg_max_partitions (mark_allocation now r k ttl G) = cg_max_partitions G"
proof -
  have absent: "rule_table (cg_partitions G) r = [] \<and> rule_table (cg_expiry G) r = []" if "r \<notin> fst ` set (cg_partitions G)"
    using that assms by (simp add: guard_ok_def rule_table_def) (metis map_of_eq_None_iff option.simps(4))
  let ?G = "mark_allocation now r k ttl G"
  have tabs: "rule_table (cg_partitions ?G) x = (if x = r then AList.update k now (rule_table (cg_partitions G) r) else rule_table (cg_partitions G) x)"
    "rule_table (cg_expiry ?G) x = (if x = r then AList.update k (now + of_int (case ttl of None \<Rightarrow> cg_default_ttl_ms G | Some t \<Rightarrow> t))
        (rule_table (cg_expiry G) r) else rule_table (cg_expiry G) x)" for x
    using absent by (auto simp: mark_allocation_def Let_def rule_table_update)
  have keys: "fst ` set (cg_partitions ?G) = insert r (fst ` set (cg_partitions G))"
    "fst ` set (cg_expiry ?G) = insert r (fst ` set (cg_expiry G))"
    by (auto simp: mark_allocation_def Let_def dom_update)
  show "expiry_map ?G r' = (if r' = r then (expiry_map G r)(k \<mapsto> now + of_int (case ttl of None \<Rightarrow> cg_default_ttl_ms G | Some t \<Rightarrow> t))
       else expiry_map G r')"
    by (simp add: expiry_map_def tabs map_of_update)
  have "dom (alloc_map ?G x) = dom (expiry_map ?G x)" for x
    using assms by (simp add: guard_ok_def alloc_map_def expiry_map_def tabs map_of_update)
  then show "guard_ok ?G" using assms keys by (simp add: guard_ok_def tabs distinct_update)
  show "cg_max_partitions ?G = cg_max_partitions G" by (simp add: mark_allocation_def Let_def)
qed

section \<open>Histories\<close>

datatype guard_op = Alloc string string "int option" | Evict string string | Ask string

fun guard_step :: "rat \<Rightarrow> guard_op \<Rightarrow> cardinality_guard \<Rightarrow> cardinality_guard" where
  "guard_step now (Alloc r k ttl) G = mark_allocation now r k ttl G"
| "guard_step now (Evict r k) G = mark_eviction r k G"
| "guard_step now (Ask r) G = fst (is_safe_to_allocate now r G)"

definition run_guard :: "cardinality_guard \<Rightarrow> (rat \<times> guard_op) list \<Rightarrow> cardinality_guard" where
  "run_guard G ops = foldl (\<lambda>G (now, oper). guard_step now oper G) G ops"

text \<open>The specification: when each partition's last allocation expires, unless it was evicted.\<close>

fun spec_step :: "int \<Rightarrow> rat \<Rightarrow> guard_op \<Rightarrow> (string \<Rightarrow> string \<rightharpoonup> rat) \<Rightarrow> string \<Rightarrow> string \<rightharpoonup> rat" where
  "spec_step dflt now (Alloc r k ttl) A = A(r := (A r)(k \<mapsto> now + of_int (case ttl of None \<Rightarrow> dflt | Some t \<Rightarrow> t)))"
| "spec_step dflt now (Evict r k) A = A(r := (A r)(k := None))"
| "spec_step dflt now (Ask r) A = A"

definition run_spec :: "int \<Rightarrow> (rat \<times> guard_op) list \<Rightarrow> string \<Rightarrow> string \<rightharpoonup> rat" where
  "run_spec dflt ops = foldl (\<lambda>A (now, oper). spec_step dflt now oper A) (\<lambda>_. Map.empty) ops"

definition guard_refines :: "rat \<Rightarrow> int \<Rightarrow> cardinality_guard \<Rightarrow> (string \<Rightarrow> string \<rightharpoonup> rat) \<Rightarrow> bool" where
  "guard_refines now dflt G A \<longleftrightarrow>
     guard_ok G \<and> cg_default_ttl_ms G = dflt
     \<and> (\<forall>r k e. expiry_map G r k = Some e \<longrightarrow> A r k = Some e)
     \<and> (\<forall>r k e. A r k = Some e \<longrightarrow> now < e \<longrightarrow> expiry_map G r k = Some e)"

lemma fold_default_ttl: "cg_default_ttl_ms (fold (pop_both r) ks G) = cg_default_ttl_ms G"
  by (induction ks arbitrary: G) (simp_all add: pop_both_def)

lemma default_ttl_steps [simp]:
  "cg_default_ttl_ms (fst (evict_expired now r G)) = cg_default_ttl_ms G"
  "cg_default_ttl_ms (mark_allocation now r k ttl G) = cg_default_ttl_ms G"
  using fold_default_ttl by (simp_all add: evict_expired_def mark_allocation_def Let_def pop_both_def [abs_def])

lemma guard_refinesI:
  assumes "guard_ok G" and "cg_default_ttl_ms G = dflt"
    and "\<And>r k e. expiry_map G r k = Some e \<Longrightarrow> A r k = Some e"
    and "\<And>r k e. A r k = Some e \<Longrightarrow> now < e \<Longrightarrow> expiry_map G r k = Some e"
  shows "guard_refines now dflt G A"
  using assms unfolding guard_refines_def by blast

lemma guard_refinesD:
  assumes "guard_refines now dflt G A"
  shows "guard_ok G" and "cg_default_ttl_ms G = dflt"
    and "expiry_map G r k = Some e \<Longrightarrow> A r k = Some e"
    and "A r k = Some e \<Longrightarrow> now < e \<Longrightarrow> expiry_map G r k = Some e"
  using assms unfolding guard_refines_def by blast+

lemma guard_refines_step:
  assumes ref: "guard_refines now dflt G A" and le: "now \<le> now'"
  shows "guard_refines now' dflt (guard_step now' oper G) (spec_step dflt now' oper A)"
proof -
  note G = guard_refinesD(1,2) [OF ref] and down = guard_refinesD(3) [OF ref]
  have up: "expiry_map G r k = Some e" if "A r k = Some e" "now' < e" for r k e
    using guard_refinesD(4) [OF ref that(1)] that(2) le by simp
  show ?thesis
  proof (cases oper)
    case (Alloc r k ttl)
    have "guard_refines now' dflt (mark_allocation now' r k ttl G) (spec_step dflt now' (Alloc r k ttl) A)"
    proof (rule guard_refinesI)
      fix r' k' e
      assume "expiry_map (mark_allocation now' r k ttl G) r' k' = Some e"
      then show "spec_step dflt now' (Alloc r k ttl) A r' k' = Some e"
        using down [of r' k' e] by (cases "r' = r"; cases "k' = k"; cases ttl) (simp_all add: mark_allocation_ok(2) [OF G(1)] G(2))
    next
      fix r' k' e
      assume "spec_step dflt now' (Alloc r k ttl) A r' k' = Some e" and "now' < e"
      then show "expiry_map (mark_allocation now' r k ttl G) r' k' = Some e"
        using up [of r' k' e] by (cases "r' = r"; cases "k' = k"; cases ttl) (simp_all add: mark_allocation_ok(2) [OF G(1)] G(2))
    qed (simp_all add: G mark_allocation_ok(1) [OF G(1)])
    with Alloc show ?thesis by simp
  next
    case (Evict r k)
    have "guard_refines now' dflt (pop_both r k G) (spec_step dflt now' (Evict r k) A)"
    proof (rule guard_refinesI)
      fix r' k' e
      assume "expiry_map (pop_both r k G) r' k' = Some e"
      then show "spec_step dflt now' (Evict r k) A r' k' = Some e"
        using down [of r' k' e] by (cases "r' = r"; cases "k' = k") (simp_all add: pop_both_maps)
    next
      fix r' k' e
      assume "spec_step dflt now' (Evict r k) A r' k' = Some e" and "now' < e"
      then show "expiry_map (pop_both r k G) r' k' = Some e"
        using up [of r' k' e] by (cases "r' = r"; cases "k' = k") (simp_all add: pop_both_maps)
    qed (simp_all add: G pop_both_ok [OF G(1)], simp add: pop_both_def G)
    with Evict show ?thesis by (simp add: mark_eviction_def pop_both_def)
  next
    case (Ask r)
    have "guard_refines now' dflt (fst (evict_expired now' r G)) A"
    proof (rule guard_refinesI)
      fix r' k e
      assume "expiry_map (fst (evict_expired now' r G)) r' k = Some e"
      then have "expiry_map G r' k = Some e"
        by (simp add: evict_expired_ok(2) [OF G(1)] split: if_splits option.splits)
      then show "A r' k = Some e" by (rule down)
    next
      fix r' k e
      assume "A r' k = Some e" and e: "now' < e"
      then have "expiry_map G r' k = Some e" by (rule up)
      with e show "expiry_map (fst (evict_expired now' r G)) r' k = Some e"
        by (cases "r' = r") (simp_all add: evict_expired_ok(2) [OF G(1)])
    qed (simp_all add: G evict_expired_ok(1) [OF G(1)])
    with Ask show ?thesis by (simp add: is_safe_to_allocate_def Let_def)
  qed
qed

lemma guard_refines_later:
  assumes "guard_refines now dflt G A" and "now \<le> later"
  shows "guard_refines later dflt G A"
proof (rule guard_refinesI)
  show "A r k = Some e \<Longrightarrow> later < e \<Longrightarrow> expiry_map G r k = Some e" for r k e
    by (rule guard_refinesD(4) [OF assms(1)]) (use assms(2) in simp_all)
qed (rule guard_refinesD [OF assms(1)], assumption?)+

lemma guard_refines_run:
  assumes "guard_refines now dflt G A" and "sorted (map fst ops)" and "\<forall>x \<in> set ops. now \<le> fst x \<and> fst x \<le> later" and "now \<le> later"
  shows "guard_refines later dflt (run_guard G ops) (foldl (\<lambda>A (now, oper). spec_step dflt now oper A) A ops)"
  using assms
proof (induction ops arbitrary: now G A)
  case Nil
  then show ?case using guard_refines_later [OF Nil.prems(1,4)] by (simp add: run_guard_def)
next
  case (Cons x ops)
  obtain t oper where x: "x = (t, oper)" by (cases x)
  have "guard_refines t dflt (guard_step t oper G) (spec_step dflt t oper A)"
    using guard_refines_step [OF Cons.prems(1)] Cons.prems(3) x by auto
  moreover have "sorted (map fst ops)" "\<forall>y \<in> set ops. t \<le> fst y \<and> fst y \<le> later" "t \<le> later"
    using Cons.prems(2,3) x by auto
  ultimately have "guard_refines later dflt (run_guard (guard_step t oper G) ops)
      (foldl (\<lambda>A (now, oper). spec_step dflt now oper A) (spec_step dflt t oper A) ops)"
    by (rule Cons.IH)
  then show ?case by (simp add: run_guard_def x)
qed

lemma table_length:
  assumes "guard_ok G"
  shows "length (rule_table (cg_partitions G) r) = card (dom (expiry_map G r))"
proof -
  have "card (dom (alloc_map G r)) = length (rule_table (cg_partitions G) r)"
    using assms by (simp add: guard_ok_def alloc_map_def dom_map_of_conv_image_fst) (metis distinct_card length_map set_map)
  with assms show ?thesis by (simp add: guard_ok_def)
qed

section \<open>Properties\<close>

text \<open>
  The guard counts live partitions: after any allocations, evictions and questions with a clock
  that does not go backwards, the count of a rule is the number of its partitions whose last
  allocation has not expired and which were not evicted since.
\<close>

theorem guard_counts_live_partitions:
  assumes "sorted (map fst ops)" and "\<forall>x \<in> set ops. 0 \<le> fst x \<and> fst x \<le> now" and "0 \<le> now"
  shows "snd (partition_count now r (run_guard (make_guard n dflt) ops))
    = card {k. \<exists>e. run_spec dflt ops r k = Some e \<and> now < e}"
proof -
  let ?G = "run_guard (make_guard n dflt) ops"
  have "guard_refines 0 dflt (make_guard n dflt) (\<lambda>_. Map.empty)"
    by (simp add: guard_refines_def guard_ok_def make_guard_def expiry_map_def alloc_map_def rule_table_def)
  from guard_refines_run [OF this assms] have ref: "guard_refines now dflt ?G (run_spec dflt ops)"
    by (simp add: run_spec_def)
  then have ok: "guard_ok ?G" by (simp add: guard_refines_def)
  have "dom (expiry_map (fst (evict_expired now r ?G)) r) = {k. \<exists>e. run_spec dflt ops r k = Some e \<and> now < e}"
  proof (intro set_eqI iffI)
    fix k
    assume "k \<in> dom (expiry_map (fst (evict_expired now r ?G)) r)"
    then obtain e where "expiry_map ?G r k = Some e" "\<not> e \<le> now"
      by (auto simp: evict_expired_ok(2) [OF ok] split: option.splits if_splits)
    with guard_refinesD(3) [OF ref] show "k \<in> {k. \<exists>e. run_spec dflt ops r k = Some e \<and> now < e}"
      by (metis (mono_tags, lifting) mem_Collect_eq not_le)
  next
    fix k
    assume "k \<in> {k. \<exists>e. run_spec dflt ops r k = Some e \<and> now < e}"
    then obtain e where e: "run_spec dflt ops r k = Some e" "now < e" by blast
    then have "expiry_map ?G r k = Some e" by (rule guard_refinesD(4) [OF ref])
    with e(2) show "k \<in> dom (expiry_map (fst (evict_expired now r ?G)) r)"
      by (simp add: evict_expired_ok(2) [OF ok] domIff)
  qed
  with table_length [OF evict_expired_ok(1) [OF ok, of now r], of r] show ?thesis
    by (simp add: partition_count_def Let_def)
qed

text \<open>
  C39. A partition allocated right after \<open>is_safe_to_allocate\<close> said yes keeps the rule within its
  limit, and a full rule is refused.
\<close>

theorem safe_allocation_within_limit:
  assumes "guard_ok G" and "is_safe_to_allocate now r G = (G', ok)"
  shows "guard_ok G' \<and> (ok \<longrightarrow>
      int (length (rule_table (cg_partitions (mark_allocation now r k ttl G')) r)) \<le> cg_max_partitions G)
    \<and> (\<not> ok \<longrightarrow> cg_max_partitions G \<le> int (length (rule_table (cg_partitions G') r)))"
proof -
  have G': "G' = fst (evict_expired now r G)" and
    ok: "ok = (int (length (rule_table (cg_partitions G') r)) < cg_max_partitions G')"
    using assms(2) by (auto simp: is_safe_to_allocate_def Let_def)
  have wf: "guard_ok G'" and mx: "cg_max_partitions G' = cg_max_partitions G"
    using evict_expired_ok(1,3) [OF assms(1)] by (simp_all add: G')
  have "length (rule_table (cg_partitions (mark_allocation now r k ttl G')) r) \<le> Suc (length (rule_table (cg_partitions G') r))"
    unfolding table_length [OF mark_allocation_ok(1) [OF wf]] table_length [OF wf]
    unfolding mark_allocation_ok(2) [OF wf]
    by (simp add: card_insert_if expiry_map_def [of G'] finite_dom_map_of)
  with wf mx ok show ?thesis by auto
qed

text \<open>
  Batch sizes follow the pressure: they are at least one, at most the capacity, and an emergency
  asks for at least as many evictions as pressure does, and pressure for at least as many as normal
  operation.
\<close>

theorem batch_size_bounds:
  assumes "1 \<le> ep_max_partitions_per_rule P"
  shows "1 \<le> get_eviction_batch_size P \<and> get_eviction_batch_size P \<le> ep_max_partitions_per_rule P
    \<and> (aggressive_eviction_needed P \<longrightarrow> (\<forall>Q. ep_max_partitions_per_rule Q = ep_max_partitions_per_rule P \<longrightarrow>
         get_eviction_batch_size Q \<le> get_eviction_batch_size P))"
proof -
  let ?cap = "of_int (ep_max_partitions_per_rule P) :: rat"
  have cap: "0 \<le> ?cap" using assms by simp
  have mono: "\<lfloor>?cap * (1 / 100)\<rfloor> \<le> \<lfloor>?cap * (20 / 100)\<rfloor>" "\<lfloor>?cap * (10 / 100)\<rfloor> \<le> \<lfloor>?cap * (20 / 100)\<rfloor>"
    using cap by (auto intro!: floor_mono mult_left_mono)
  have "\<lfloor>?cap * (20 / 100)\<rfloor> \<le> \<lfloor>?cap\<rfloor>" using cap by (intro floor_mono) simp
  then have "\<lfloor>?cap * (20 / 100)\<rfloor> \<le> ep_max_partitions_per_rule P" by simp
  with mono assms show ?thesis
    by (auto simp: get_eviction_batch_size_def aggressive_eviction_needed_def Let_def)
qed

section \<open>Witnesses\<close>

definition demo_ops :: "(rat \<times> guard_op) list" where
  "demo_ops = [(1, Alloc ''r'' ''a'' (Some 10)), (2, Alloc ''r'' ''b'' (Some 100)), (3, Ask ''r'')]"

theorem guard_counts_live_partitions_witness:
  "snd (partition_count 50 ''r'' (run_guard (make_guard 5 1000) demo_ops)) = 1"
proof -
  have "{k. \<exists>e. run_spec 1000 demo_ops ''r'' k = Some e \<and> 50 < e} = {''b''}"
    by (auto simp: run_spec_def demo_ops_def split: if_splits)
  with guard_counts_live_partitions [where ops = demo_ops and now = 50 and n = 5 and dflt = 1000 and r = "''r''"] show ?thesis
    by (simp add: demo_ops_def)
qed

theorem safe_allocation_within_limit_witness:
  "\<exists>G'. is_safe_to_allocate 1 ''r'' (make_guard 1 1000) = (G', True)
     \<and> int (length (rule_table (cg_partitions (mark_allocation 1 ''r'' ''a'' None G')) ''r'')) \<le> 1"
proof -
  have ok: "guard_ok (make_guard 1 1000)"
    by (simp add: guard_ok_def make_guard_def expiry_map_def alloc_map_def rule_table_def)
  have run: "is_safe_to_allocate 1 ''r'' (make_guard 1 1000) = (make_guard 1 1000, True)"
    by (simp add: is_safe_to_allocate_def evict_expired_def make_guard_def rule_table_def Let_def)
  from safe_allocation_within_limit [OF ok run, of "''a''" None] run show ?thesis
    by (auto simp: make_guard_def)
qed

theorem batch_size_bounds_witness:
  "get_eviction_batch_size \<lparr>ep_strategy = TTL, ep_max_partitions = 100, ep_max_partitions_per_rule = 100, ep_ttl_ms = 1,
     ep_watermark_window_ms = 1, ep_partition_pressure_threshold = 80 / 100, ep_current_partitions = 96\<rparr> \<le> 100"
  using batch_size_bounds [of "\<lparr>ep_strategy = TTL, ep_max_partitions = 100, ep_max_partitions_per_rule = 100, ep_ttl_ms = 1,
     ep_watermark_window_ms = 1, ep_partition_pressure_threshold = 80 / 100, ep_current_partitions = 96\<rparr>"] by simp

end
