(* ===== verification/Spec2Isabelle.thy ===== *)
theory Spec2Isabelle
  imports FloatPayloads OwnerActivation BudgetGuard SignedLedger CompliancePolicy CircuitBreaker
    RunState Watermark CompactState Eviction
begin

text \<open>
  A verification of the core of HFA, a control plane that runs agent tasks over Redis. The sources are
  under \<open>src/\<close>; the packages modelled are \<open>hfa-core\<close> (the canonical transition authority and its store,
  governance, healing, run states), the admission of runs in \<open>hfa-control\<close> and the stream-processing
  runtime of \<open>hfa-semantic\<close>.

  \<^bold>\<open>The program's parts and how they meet.\<close> Every change of the life cycle of a run or a task is a
  command. \<open>authority/canonical_transition.py\<close> evaluates a command against the head of its aggregate and
  returns a decision and, when the command is accepted, a plan: an immutable record with a receipt.
  \<open>authority/redis_persistence.py\<close> commits a plan with one script, reads stored evidence back, and never
  trusts it unread: every load decodes, rehashes and compares. Projections replay committed records
  (\<open>evaluate_projection_application\<close>). A run enters through \<open>hfa_control/run_create_authority.py\<close>: the
  request is normalised, resources are reserved (\<open>governance/admission_resource_reservation.py\<close>), the
  command is committed, the reservation is finalized against the committed record, and the admission is
  projected to a run state and a control stream (\<open>lua/run_create_projection.lua\<close>). Every script runs
  through \<open>lua/loader.py\<close>, which recovers when the server lost it. Beside the authority stand a budget per run
  (\<open>governance/budget_guard.py\<close>), a signed ledger (\<open>governance/signed_ledger_v1.py\<close>), a compliance
  policy (\<open>governance/compliance_policy.py\<close>), a circuit breaker (\<open>healing/circuit_breaker.py\<close>) and the
  older run-state gateway (\<open>state/__init__.py\<close>). The semantic runtime keeps watermarks, compacted window
  state and a cardinality guard over event streams.

  \<^bold>\<open>Conventions.\<close> A Python operation is a function that returns \<open>Inl\<close> of the exception it raises or
  \<open>Inr\<close> of its value; state is passed and returned. A \<open>str\<close> is a \<open>string\<close> holding its UTF-8 bytes, an
  \<open>int\<close> is an \<open>int\<close>, a value of unknown type is a \<open>pyval\<close>, a dict is an association list in insertion
  order. A call of Redis may see a different server than the call before it, so an operation takes one
  view, or one reply, per call; scripts and transactions are one step. Code outside the repository is a
  parameter with named laws: Unicode normalisation (\<open>nfc_laws\<close>), the canonical JSON encoder of the
  package rfc8785 (\<open>jcs_total\<close>, \<open>jcs_reads\<close>, \<open>jcs_integers\<close>), the JSON library inside Redis (\<open>cjson_reads\<close>,
  \<open>cjson_decodes\<close>, \<open>cjson_inverts\<close>), the signatures and PEM parsers of the package cryptography (\<open>ed25519_law\<close>) and the string commands of
  the server (\<open>redis_laws\<close>), the Lua and JSON primitives inside the server (\<open>lua_lib\<close> with
  \<open>lua_reads\<close>), trimming of normalised text (\<open>nfc_keeps_strip\<close>), the identifiers a stream hands out
  (\<open>stream_laws\<close>), and the fate of each network call (lost before or after it took effect). Each law has an instance in
  the theory that uses it, and the witnesses run on those instances.

  \<^bold>\<open>The theories.\<close>

  \<^item> Prelude: results, association lists, decimal texts, and the locales \<open>invariant_system\<close> and
    \<open>monotone_system\<close> for invariants and orders along a step relation. They are interpreted for the
    journal, the budget, the gateway and the ledger.
  \<^item> Hashing: SHA-256, SHA-1, base64url and the length-prefixed component digest. PyJson: Python
    values, \<open>_normalize_json\<close>, \<open>_freeze\<close>, \<open>_thaw\<close>. JsonDumps, JsonLoads, JsonRoundTrip: the standard
    library's encoder and decoder and that one reads what the other wrote.
  \<^item> CanonicalTransition and AuthorityEvaluation: \<open>canonical_transition.py\<close>, from the operation table
    and the constructors' checks to \<open>evaluate_authority_commit\<close> and \<open>evaluate_projection_application\<close>.
    Shown: a legal command is accepted, and only a permitted and legal one is; plan and decision agree;
    a stored receipt answers before everything else; an entry that the context does not permit changes
    nothing.
  \<^item> AuthorityJournal: the evaluator driven over one aggregate. Shown: every reachable history is gap-free
    and chained by states, terminal states are final, projections apply each revision once and in order.
  \<^item> AuthorityStore, AuthorityRoundTrip, AuthorityEvidence, TaskOwners, AuthorityCommit, AuthorityHead,
    AuthorityConflicts, OwnerActivation: \<open>redis_persistence.py\<close> with its scripts
    \<open>authority_head_validate.lua\<close> and \<open>authority_conflict_record.lua\<close>. Shown: what
    \<open>load_aggregate_history\<close> returns is sound on any server, and after the commits of a journal it
    returns the records of that journal; a stored operation is found and never planned again; the head
    validator accepts exactly the newest record; the guard read from a server is the witness of its
    head; \<open>commit\<close> reports what the script answered within three attempts; keys of different aggregates
    are disjoint; an owner value reads back, and a corrupt one can stop the decoder from returning;
    conflict evidence is kept once per conflict; activation of the owner namespace fails closed; equal
    fingerprints mean equal histories.
  \<^item> CommitScript, CommitEffects, CommitRefinement: \<open>canonical_authority_commit.lua\<close> whole, from the
    argument checks over conflict evidence, incoming payloads, the owner inventory, repeated operations
    and the guards on parent, root task and head to the writes. Shown: a run of the script either
    writes the four hashes, the two streams and the inventory together or nothing but conflict evidence;
    two operations that were both committed stand at different revisions of one history; on the stored
    evidence of a journal an accepted commit is the journal with one record more (\<open>commit_writes\<close>).
  \<^item> ScriptLoader: \<open>lua/loader.py\<close>. Shown: over a network that may fail at any call, a script runs at
    most once per call of \<open>run\<close>, and exactly once when \<open>run\<close> returns.
  \<^item> AdmissionReservation, AdmissionAccounting, AdmissionProperties: the reservation of tenant capacity,
    budget and in-flight slots with its script and its manager. Shown: the counters always equal the
    sum over the receipts that hold resources; a limit that is set is never passed by a reservation; only
    a committed creation finalizes, only a committed termination settles; a finalized receipt leaves its
    state only by settlement; a held receipt can be released; what was reserved reads back.
  \<^item> RunCreateCommand, RunCreateRecord, RunCreateProperties, RunCreateProjection, ProjectionProperties,
    ProjectionDemo: \<open>run_create_authority.py\<close>: normalisation of requests, the command and its context,
    the way back from a stored record, the event, the projection manager and its script. Shown: a
    normalised request is accepted by the evaluator, its record gives it back, and equal command hashes
    mean equal requests; an admission is published at most once, its event is appended by the first
    call and by no other, a replay reads the receipt, and the first projection writes exactly three keys.
  \<^item> RunCreateSaga, SagaProperties, SagaScenarios, SagaDemo: the driver \<open>admit\<close> of \<open>RunCreateAuthorityBinding\<close>.
    It awaits the reservation manager, the store and the projection manager in turn, so it is modelled as a
    program whose constructors are the awaited calls, each with a continuation that takes the reply;
    \<open>replay\<close> runs it against a list of calls with their replies, and a statement about every list that
    replays holds whatever the services answer. Shown: the reservation, the commit, the validation of the
    head, the finalization and the projection come in this order and carry one record; a run releases
    only what it reserved itself and only when its own commits of the operation of this reservation were
    refuted; no error denies a commit whose acceptance the run has seen, and an error claims a durable
    one only on its acceptance or on a stored receipt of the operation; a retry completes an admission that
    stopped after its commit; two admissions that share a reservation can strand the run that committed.
  \<^item> CommittedAdmission and FloatPayloads: the path of an admission through all of these. Shown: the
    command of a plain request is accepted and committed on an absent aggregate, its record loads back and
    gives the request and the reservation, and with the witness of the head the reservation is finalized
    and the run projected; with an integral float in its payload the request comes back with an integer,
    and the event of a retry is refused.
  \<^item> RedisOps and BudgetGuard: \<open>budget_guard.py\<close> with its four scripts. Shown: a debit refines an abstract
    counter, the cap holds along every sequence of operations executed one at a time and fails for two
    interleaved debits, a frozen budget cannot be spent, conversion bounds.
  \<^item> LedgerKeys and SignedLedger: appending and verifying chains over a store and a key provider, both with
    state. Their interfaces are the locales \<open>ledger_store\<close> and \<open>steady_keys\<close>, which \<open>signed_ledger\<close> puts
    together; \<open>InMemoryLedgerStore\<close> and \<open>Ed25519EnvKeyProvider\<close> are shown to implement them, the
    provider as long as its key id is fixed. Shown: a ledger verifies its own history; a first append that
    changes the key id spoils its chain; interleaved appends break one. CompliancePolicy, CircuitBreaker, RunState: the other
    decision procedures of \<open>hfa-core\<close>. Watermark, CompactState, Eviction: the semantic runtime.
  \<^item> This theory: the composition of the store with the projections.

  \<^bold>\<open>Loops and fuel.\<close> All recursion is structural or has a measure, with two exceptions. \<open>json_loads\<close> runs
  on fuel, one unit per character and one more; \<open>json_loads_enough_fuel\<close> shows that this never runs out.
  The decoder of owner values can loop forever, so it is a partial function whose value is \<open>None\<close> when it
  does not return. The retry loop of \<open>commit\<close> makes three attempts in the code and in the model.
  \<open>admit\<close> has no loop: its program is a finite tree of calls.

  \<^bold>\<open>Limits of the model.\<close> Histories are bounded by \<open>10 ^ 14\<close> revisions where Lua prints a revision as a
  number; the round trips through stored text are stated for ASCII strings and safe integers
  (\<open>writable\<close>), because the text of floats and of escaped Unicode is the encoders' affair, and a record
  comes back with the members of its objects in key order (\<open>in_order\<close>). Payloads of a request are less
  than 990 levels deep where Redis decodes them; its limit is 1000. Hash equality is used only up to a named
  collision. Expiry of keys, logging and metrics are left out, and so is the time to live that the run-state
  gateway gives its keys and the error of Redis when it is not acceptable. A number in an argument of the
  projection script is one that \<open>dec_int\<close> can print; Lua reads more spellings. The counters of a tenant are
  followed while only the reservation manager writes them.

  \<^bold>\<open>Not modelled.\<close> Of the ledger \<open>close\<close> and the lifespan around it. Of the run admission the text of wrapped exceptions and the search for the script file.
  The other operation-specific authorities of \<open>hfa-control\<close> (task admit, dispatch, claim, requeue, terminal, run
  terminate), reconciliation and recovery build on the evaluator, the store and the reservation, with
  evidence and scripts of their own. HTTP services, scheduler loops, workers, agents, the dashboard,
  observability and scripts are input and output around the modelled core.
\<close>
lemma previous_state_opt:
  assumes "validate_record E r = Inr ()"
  shows "opt_str (opt_str_of (rec_previous_state r)) = rec_previous_state r"
  using assms unfolding validate_record_def by (auto simp: rbind_Inr_iff result_simps)

lemma continuous_records_chained:
  assumes "\<forall>r \<in> set rs. validate_record E r = Inr ()" and "states_continuous previous rs = Inr ()"
    and "map (\<lambda>r. int_of (rec_to_revision r)) rs = [n + 1..n + int (length rs)]"
    and "rs \<noteq> [] \<longrightarrow> rec_previous_state (hd rs) = opt_str st"
  shows "chained st n rs"
  using assms
proof (induction rs arbitrary: previous n st)
  case (Cons r rs)
  have val: "validate_record E r = Inr ()" using Cons.prems(1) by simp
  have up: "[n + 1..n + int (length (r # rs))] = (n + 1) # [n + 1 + 1..n + 1 + int (length rs)]"
    by (subst upto_rec1) (simp_all add: algebra_simps)
  have to: "int_of (rec_to_revision r) = n + 1" and rest: "map (\<lambda>r. int_of (rec_to_revision r)) rs = [n + 1 + 1..n + 1 + int (length rs)]"
    using Cons.prems(3) unfolding up by simp_all
  have cont: "states_continuous (Some r) rs = Inr ()" using Cons.prems(2) by (auto split: if_split_asm)
  have "rs \<noteq> [] \<longrightarrow> rec_previous_state (hd rs) = opt_str (opt_str_of (rec_next_state r))"
    using cont next_state_opt [OF val] by (cases rs) (auto split: if_split_asm)
  with Cons.IH [OF _ cont rest] Cons.prems(1,4) validated_revisions [OF val] to
  show ?case by simp
qed simp

lemma snapshot_revision_positive:
  assumes "get_aggregate_snapshot namespace i v0 v1 = Inr (Some snap)"
  shows "1 \<le> snap_revision snap"
proof -
  from assms obtain data where "parse_snapshot data = Inr snap"
    by (auto simp: get_aggregate_snapshot_def rbind_Inr_iff relabel_def split: if_split_asm sum.split_asm option.split_asm)
  then show ?thesis by (auto simp: parse_snapshot_def rbind_Inr_iff safe_int_value_def split: if_split_asm)
qed

text \<open>
  C26. Whatever the server held and however it changed meanwhile, a history that \<open>load_aggregate_history\<close>
  returns can be replayed: \<open>evaluate_projection_application\<close> applies every record of it, each once and
  in order, to an empty projection, which then stands at the revision of the head. So a projection that
  lost its state is rebuilt from stored evidence alone.
\<close>

theorem loaded_history_replays:
  assumes "nfc_laws E" and "load_aggregate_history E namespace i V = Inr (Some h)"
  shows "case run_projection E None (map hist_record (history_operations h)) of (cur, applied) \<Rightarrow>
    applied = map hist_record (history_operations h) \<and> applied_revision cur = snap_revision (history_snapshot h)"
proof -
  let ?rs = "map hist_record (history_operations h)"
  obtain a b c where snap: "get_aggregate_snapshot namespace i (V 0) (V 1) = Inr (Some (history_snapshot h))"
    and "validate_history E i (history_snapshot h) a b c = Inr (history_operations h)"
    using assms(2) by (rule load_aggregate_history_Some)
  note ok = validate_history_ok [OF this(2)]
  have val: "\<forall>r \<in> set ?rs. validate_record E r = Inr () \<and> rec_identity r = i"
    using ok(1) by (auto simp: list_all_iff row_ok_def)
  have len: "int (length ?rs) = snap_revision (history_snapshot h)"
    using arg_cong [OF ok(3), of length] snapshot_revision_positive [OF snap] by simp
  have prev: "rec_previous_state (hd ?rs) = opt_str (opt_str_of (rec_previous_state (hd ?rs)))" if "?rs \<noteq> []"
    using val hd_in_set [OF that] by (intro previous_state_opt [symmetric]) blast
  have "chained (opt_str_of (rec_previous_state (hd ?rs))) 0 ?rs"
    by (rule continuous_records_chained [OF _ ok(4)]) (use val ok(3) len prev in \<open>auto simp: comp_def\<close>)
  moreover have "rec_identity_sha256 r = PStr (identity_sha256 i)" if "r \<in> set ?rs" for r
    using val that by (auto elim!: validate_record_okD)
  ultimately have all: "snd (run_projection E None ?rs) = ?rs"
    using val by (intro run_projection_chained [OF assms(1)]) (auto simp: applied_revision_def)
  obtain cur applied where run: "run_projection E None ?rs = (cur, applied)" by fastforce
  from run_projection_in_order_from [OF run] have "applied_revision cur = int (length applied)"
    by (simp add: applied_revision_def)
  with all run len show ?thesis by simp
qed

theorem loaded_history_replays_witness:
  "\<exists>V h. load_aggregate_history json_externals ''hfa:authority:v1'' demo_identity V = Inr (Some h)
     \<and> snap_revision (history_snapshot h) = 1
     \<and> applied_revision (fst (run_projection json_externals None (map hist_record (history_operations h)))) = 1"
proof -
  obtain V h where "load_aggregate_history json_externals ''hfa:authority:v1'' demo_identity V = Inr (Some h)"
    "snap_revision (history_snapshot h) = 1"
    using demo_loaded by blast
  with loaded_history_replays [OF json_externals_laws(1) this(1)] show ?thesis
    by (intro exI [of _ V] exI [of _ h]) (auto split: prod.split_asm)
qed

end
